(* ===== verification/Prelude.thy ===== *)
theory Prelude
  imports Complex_Main "HOL-Library.AList"
begin

text \<open>
  Shared vocabulary of the development: the Python values the services exchange (finite
  floats and Decimals as rationals), the exceptions the modelled code can raise, Python's
  string helpers and \<open>round\<close>, and association-list tables for the database rows.

  Numbers. A Python float that is not NaN or infinite is a rational number, and so is a
  \<open>Decimal\<close>; both are modelled by \<open>rat\<close>, with exact arithmetic (the last-bit
  error of IEEE operations is not modelled). Where mixing the two types matters, because
  Python refuses \<open>float - Decimal\<close>, the value carries its type (\<open>pynum\<close>).
  Timestamps are rationals as well: seconds since the epoch.
\<close>

named_theorems row_simps "reading a table after writing it"
named_theorems leg_simps "reading legs after changing them"
named_theorems stop_defs "definitions of the level guards"
named_theorems frame_simps "components an operation leaves alone"

section \<open>Values and exceptions\<close>

type_synonym price = rat
type_synonym datetime = rat
type_synonym asset = string

text \<open>The exceptions a modelled function can raise; \<open>Inl\<close> is "raised".\<close>

datatype py_error =
    TypeError
  | ZeroDivisionError
  | ValueError
  | RuntimeError
  | NotNullViolation
  | InvalidOperation
  | HTTPStatus nat

type_synonym 'a result = "py_error + 'a"

text \<open>A number together with its Python type.\<close>

datatype pynum = PyFloat rat | PyDecimal rat

fun py_float :: "pynum \<Rightarrow> rat" where
  "py_float (PyFloat x) = x"
| "py_float (PyDecimal x) = x"

text \<open>\<open>float - x\<close>: Python defines it for a float and refuses it for a Decimal.\<close>

fun float_sub :: "rat \<Rightarrow> pynum \<Rightarrow> rat result" where
  "float_sub a (PyFloat b) = Inr (a - b)"
| "float_sub a (PyDecimal b) = Inl TypeError"

text \<open>True division of two floats.\<close>

definition float_div :: "rat \<Rightarrow> rat \<Rightarrow> rat result" where
  "float_div a b = (if b = 0 then Inl ZeroDivisionError else Inr (a / b))"

lemma float_div_Inr [simp]: "b \<noteq> 0 \<Longrightarrow> float_div a b = Inr (a / b)"
  by (simp add: float_div_def)

text \<open>\<open>x or 0\<close>: a missing number reads as zero.\<close>

definition or_zero :: "rat option \<Rightarrow> rat" where
  "or_zero x = (case x of None \<Rightarrow> 0 | Some v \<Rightarrow> v)"

lemma or_zero_simps [simp]: "or_zero None = 0" "or_zero (Some v) = v"
  by (simp_all add: or_zero_def)

text \<open>The first value that is present, as \<open>COALESCE\<close> and \<open>a if a is not None else b\<close> do.\<close>

fun coalesce :: "'a option \<Rightarrow> 'a option \<Rightarrow> 'a option" where
  "coalesce (Some a) b = Some a"
| "coalesce None b = b"

lemma coalesce_None [simp]: "coalesce a None = a"
  by (cases a) auto

text \<open>\<open>int(x)\<close> truncates towards zero.\<close>

definition py_int :: "rat \<Rightarrow> int" where
  "py_int x = (if x < 0 then \<lceil>x\<rceil> else \<lfloor>x\<rfloor>)"

section \<open>Python's \<open>round\<close>\<close>

text \<open>
  \<open>round(x, n)\<close> rounds to the nearest multiple of \<open>10 ^ -n\<close>, ties to even.
\<close>

definition round_half_even :: "rat \<Rightarrow> int" where
  "round_half_even x =
     (let f = \<lfloor>x\<rfloor>; d = x - of_int f
      in if d < 1/2 then f else if 1/2 < d then f + 1 else if even f then f else f + 1)"

definition py_round :: "rat \<Rightarrow> nat \<Rightarrow> rat" where
  "py_round x n = of_int (round_half_even (x * 10 ^ n)) / 10 ^ n"

lemma round_half_even_bounds:
  "x - 1/2 \<le> of_int (round_half_even x)" "of_int (round_half_even x) \<le> x + 1/2"
proof -
  have lo: "of_int \<lfloor>x\<rfloor> \<le> x" and hi: "x < of_int \<lfloor>x\<rfloor> + 1"
    by linarith+
  show "x - 1/2 \<le> of_int (round_half_even x)"
    unfolding round_half_even_def Let_def by (simp, use lo hi in linarith)
  show "of_int (round_half_even x) \<le> x + 1/2"
    unfolding round_half_even_def Let_def by (simp, use lo hi in linarith)
qed

lemma round_half_even_of_int [simp]: "round_half_even (of_int k) = k"
  by (simp add: round_half_even_def)

lemma round_half_even_mono: "x \<le> y \<Longrightarrow> round_half_even x \<le> round_half_even y"
proof -
  assume le: "x \<le> y"
  show ?thesis
  proof (cases "\<lfloor>x\<rfloor> = \<lfloor>y\<rfloor>")
    case True
    with le show ?thesis by (auto simp: round_half_even_def Let_def)
  next
    case False
    with floor_mono [OF le] have lt: "\<lfloor>x\<rfloor> + 1 \<le> \<lfloor>y\<rfloor>" by linarith
    have "round_half_even x \<le> \<lfloor>x\<rfloor> + 1" by (simp add: round_half_even_def Let_def)
    also have "\<dots> \<le> \<lfloor>y\<rfloor>" by (fact lt)
    also have "\<lfloor>y\<rfloor> \<le> round_half_even y" by (simp add: round_half_even_def Let_def)
    finally show ?thesis .
  qed
qed

lemma py_round_mono: "x \<le> y \<Longrightarrow> py_round x n \<le> py_round y n"
  by (simp add: py_round_def divide_right_mono round_half_even_mono)

lemma py_round_le: "py_round x n \<le> x + 1 / (2 * 10 ^ n)"
proof -
  have "of_int (round_half_even (x * 10 ^ n)) / 10 ^ n \<le> (x * 10 ^ n + 1/2) / (10 ^ n :: rat)"
    by (intro divide_right_mono round_half_even_bounds) simp
  also have "\<dots> = x + 1 / (2 * 10 ^ n)" by (simp add: field_simps)
  finally show ?thesis by (simp add: py_round_def)
qed

lemma py_round_ge: "x - 1 / (2 * 10 ^ n) \<le> py_round x n"
proof -
  have "(x * 10 ^ n - 1/2) / (10 ^ n :: rat) \<le> of_int (round_half_even (x * 10 ^ n)) / 10 ^ n"
    by (intro divide_right_mono round_half_even_bounds) simp
  moreover have "(x * 10 ^ n - 1/2) / (10 ^ n :: rat) = x - 1 / (2 * 10 ^ n)"
    by (simp add: field_simps)
  ultimately show ?thesis by (simp add: py_round_def)
qed

lemma py_round_zero [simp]: "py_round 0 n = 0"
  using round_half_even_of_int [of 0] by (simp add: py_round_def)

lemma py_round_nonneg: "0 \<le> x \<Longrightarrow> 0 \<le> py_round x n"
  using py_round_mono [of 0 x n] by simp

lemma py_round_idem [simp]: "py_round (py_round x n) n = py_round x n"
  by (simp add: py_round_def)

section \<open>Python strings\<close>

definition upper_char :: "char \<Rightarrow> char" where
  "upper_char c =
     (let n = of_char c :: int in if 97 \<le> n \<and> n \<le> 122 then char_of (n - 32) else c)"

text \<open>\<open>s.upper()\<close> on ASCII text.\<close>

definition py_upper :: "string \<Rightarrow> string" where
  "py_upper s = map upper_char s"

definition lower_char :: "char \<Rightarrow> char" where
  "lower_char c =
     (let n = of_char c :: int in if 65 \<le> n \<and> n \<le> 90 then char_of (n + 32) else c)"

definition py_lower :: "string \<Rightarrow> string" where
  "py_lower s = map lower_char s"

definition is_space :: "char \<Rightarrow> bool" where
  "is_space c \<longleftrightarrow> c \<in> {CHR 0x09, CHR 0x0A, CHR 0x0B, CHR 0x0C, CHR 0x0D,
     CHR 0x1C, CHR 0x1D, CHR 0x1E, CHR 0x1F, CHR 0x20}"

text \<open>\<open>s.strip()\<close>.\<close>

definition py_strip :: "string \<Rightarrow> string" where
  "py_strip s = rev (dropWhile is_space (rev (dropWhile is_space s)))"

text \<open>\<open>s.split(sep)\<close> for a one-character separator.\<close>

fun py_split :: "char \<Rightarrow> string \<Rightarrow> string list" where
  "py_split sep [] = [[]]"
| "py_split sep (c # cs) =
     (if c = sep then [] # py_split sep cs
      else case py_split sep cs of [] \<Rightarrow> [[c]] | w # ws \<Rightarrow> (c # w) # ws)"

text \<open>A number in decimal.\<close>

fun show_nat :: "nat \<Rightarrow> string" where
  "show_nat n = (if n < 10 then [] else show_nat (n div 10)) @ [char_of (48 + n mod 10)]"

declare show_nat.simps [simp del]

text \<open>\<open>s.startswith(p)\<close>, and \<open>needle in text\<close>.\<close>

fun starts_with :: "string \<Rightarrow> string \<Rightarrow> bool" where
  "starts_with [] s = True"
| "starts_with (c # cs) [] = False"
| "starts_with (c # cs) (d # ds) = (c = d \<and> starts_with cs ds)"

fun occurs_in :: "string \<Rightarrow> string \<Rightarrow> bool" where
  "occurs_in needle [] = (needle = [])"
| "occurs_in needle (c # cs) = (starts_with needle (c # cs) \<or> occurs_in needle cs)"

text \<open>\<open>(s or "").upper() or None\<close>: the normalised asset or symbol of a record.\<close>

definition upper_or_none :: "string option \<Rightarrow> string option" where
  "upper_or_none s =
     (let u = py_upper (case s of None \<Rightarrow> [] | Some t \<Rightarrow> t) in if u = [] then None else Some u)"

lemma upper_char_idem [simp]: "upper_char (upper_char c) = upper_char c"
proof (cases "97 \<le> (of_char c :: int) \<and> (of_char c :: int) \<le> 122")
  case True
  then have "(of_char (upper_char c) :: int) = (of_char c - 32) mod 256"
    by (simp add: upper_char_def)
  also have "\<dots> = of_char c - 32"
    using True by (intro mod_pos_pos_trivial) linarith+
  finally have "\<not> (97 \<le> (of_char (upper_char c) :: int))" using True by linarith
  then show ?thesis by (simp add: upper_char_def [of "upper_char c"])
next
  case False
  then have "upper_char c = c" by (auto simp: upper_char_def Let_def)
  then show ?thesis by simp
qed

lemma py_upper_idem [simp]: "py_upper (py_upper s) = py_upper s"
  by (simp add: py_upper_def)

section \<open>Tables\<close>

text \<open>
  A table with a primary key is an association list with distinct keys, in insertion
  order: \<open>map_of\<close> reads a row, \<open>AList.update\<close> is an upsert and
  \<open>AList.delete\<close> removes a row.
\<close>

type_synonym ('k, 'v) tbl = "('k \<times> 'v) list"

lemma tbl_update [row_simps]: "map_of (AList.update k v t) = (map_of t)(k \<mapsto> v)"
  by (rule update_conv')

lemma tbl_delete [row_simps]: "map_of (AList.delete k t) = (map_of t)(k := None)"
  by (rule delete_conv')

text \<open>Updating the rows of a table that satisfy a condition, in place (SQL's \<open>UPDATE\<close>).\<close>

definition update_where :: "('v \<Rightarrow> bool) \<Rightarrow> ('v \<Rightarrow> 'v) \<Rightarrow> 'v list \<Rightarrow> 'v list" where
  "update_where p f rows = map (\<lambda>r. if p r then f r else r) rows"

lemma length_update_where [simp]: "length (update_where p f rows) = length rows"
  by (simp add: update_where_def)

lemma update_where_none: "\<not> (\<exists>r\<in>set rows. p r) \<Longrightarrow> update_where p f rows = rows"
  by (simp add: update_where_def map_idI)

lemma filter_update_where_keep:
  assumes "\<And>r. p r \<Longrightarrow> \<not> q r \<and> \<not> q (f r)"
  shows "filter q (update_where p f rows) = filter q rows"
  using assms by (induction rows) (auto simp: update_where_def)

end
