(* ===== verification/Legs.thy ===== *)
theory Legs
  imports Prelude
begin

text \<open>
  Configuration of the social-listener service: the fields of \<open>Settings\<close> in
  \<open>social-listener/app/config.py\<close> that the decision logic reads, and their defaults.
  Every operation of the service takes the settings as an argument, since the
  environment may override each default.
\<close>

record settings =
  backfill_limit :: nat
  catchup_limit :: nat
  merge_window_seconds :: rat
  merge_max_messages :: nat
  source_tag :: string
  asset_whitelist :: string
  execution_mode :: string
  execution_strategy_id :: string
  confidence_floor :: rat
  staleness_pct :: rat
  entry_on_missing_price :: string
  max_signal_age_seconds :: rat
  default_add_multiple :: rat
  max_add_multiple :: rat
  max_position_multiple :: rat
  default_trim_fraction :: rat
  min_trim_fraction :: rat
  max_trim_fraction :: rat
  min_trim_position_fraction :: rat
  min_trim_interval_minutes :: rat
  pending_trim_ttl_hours :: rat
  closed_leg_grace_seconds :: rat
  implied_ref_lookback_ms :: int
  implied_ref_max_gap_ms :: int

definition default_settings :: settings where
  "default_settings = \<lparr>
     backfill_limit = 50,
     catchup_limit = 200,
     merge_window_seconds = 60,
     merge_max_messages = 6,
     source_tag = ''telegram:AstronomerZero'',
     asset_whitelist = ''BTC,ETH'',
     execution_mode = ''shadow'',
     execution_strategy_id = '''',
     confidence_floor = 1/2,
     staleness_pct = 1/100,
     entry_on_missing_price = ''market'',
     max_signal_age_seconds = 900,
     default_add_multiple = 1/2,
     max_add_multiple = 1,
     max_position_multiple = 2,
     default_trim_fraction = 1/2,
     min_trim_fraction = 1/10,
     max_trim_fraction = 9/10,
     min_trim_position_fraction = 1/5,
     min_trim_interval_minutes = 30,
     pending_trim_ttl_hours = 48,
     closed_leg_grace_seconds = 180,
     implied_ref_lookback_ms = 600000,
     implied_ref_max_gap_ms = 300000\<rparr>"

text \<open>\<open>WHITELIST\<close>: the comma-separated setting, stripped and upper-cased.\<close>

definition whitelist :: "settings \<Rightarrow> string list" where
  "whitelist cfg =
     map (\<lambda>s. py_upper (py_strip s))
       (filter (\<lambda>s. py_strip s \<noteq> []) (py_split CHR '','' (asset_whitelist cfg)))"

lemma whitelist_default: "whitelist default_settings = [''BTC'', ''ETH'']"
  by code_simp

lemma whitelist_asset_whitelist:
  "asset_whitelist cfg = ''BTC,ETH'' \<Longrightarrow> whitelist cfg = [''BTC'', ''ETH'']"
  using whitelist_default by (simp add: whitelist_def default_settings_def)

text \<open>What the clamps of the trim and add sizes need of a configuration.\<close>

definition sane_settings :: "settings \<Rightarrow> bool" where
  "sane_settings cfg \<longleftrightarrow>
     0 < min_trim_fraction cfg \<and> min_trim_fraction cfg \<le> max_trim_fraction cfg \<and>
     max_trim_fraction cfg < 1 \<and> 0 \<le> max_add_multiple cfg \<and> 0 \<le> staleness_pct cfg"

lemma sane_default [simp]: "sane_settings default_settings"
  by (simp add: sane_settings_def default_settings_def)

text \<open>
  \<open>social-listener/app/legs.py\<close>: what the channel is recorded as holding in one asset,
  as two legs that are open or flat independently.
\<close>

datatype side = LONG | SHORT

instantiation side :: linorder
begin

definition less_eq_side :: "side \<Rightarrow> side \<Rightarrow> bool" where
  "less_eq_side a b \<longleftrightarrow> a = LONG \<or> b = SHORT"

definition less_side :: "side \<Rightarrow> side \<Rightarrow> bool" where
  "less_side a b \<longleftrightarrow> a = LONG \<and> b = SHORT"

instance
proof
  fix x y z :: side
  show "(x < y) = (x \<le> y \<and> \<not> y \<le> x)"
    by (cases x; cases y) (auto simp: less_eq_side_def less_side_def)
  show "x \<le> x" by (cases x) (auto simp: less_eq_side_def)
  show "x \<le> y \<Longrightarrow> y \<le> z \<Longrightarrow> x \<le> z" by (auto simp: less_eq_side_def)
  show "x \<le> y \<Longrightarrow> y \<le> x \<Longrightarrow> x = y" by (auto simp: less_eq_side_def)
  show "x \<le> y \<or> y \<le> x" by (cases x) (auto simp: less_eq_side_def)
qed

end

fun side_name :: "side \<Rightarrow> string" where
  "side_name LONG = ''LONG''"
| "side_name SHORT = ''SHORT''"

fun parse_side :: "string \<Rightarrow> side option" where
  "parse_side s = (if s = ''LONG'' then Some LONG else if s = ''SHORT'' then Some SHORT else None)"

lemma parse_side_name [simp]: "parse_side (side_name s) = Some s"
  by (cases s) simp_all

definition opposite :: "side \<Rightarrow> side" where
  "opposite s = (if s = LONG then SHORT else LONG)"

lemma opposite_simps [simp]:
  "opposite LONG = SHORT" "opposite SHORT = LONG" "opposite (opposite s) = s"
  "opposite s \<noteq> s" "s \<noteq> opposite s"
  by (cases s; simp add: opposite_def)+

lemma side_cases_opposite: "t = s \<or> t = opposite s"
  by (cases s; cases t) auto

text \<open>The class \<open>Legs\<close>.\<close>

record legs =
  long :: bool
  short :: bool

definition no_legs :: legs where
  "no_legs = \<lparr>long = False, short = False\<rparr>"

definition from_sides :: "string list \<Rightarrow> legs" where
  "from_sides sides =
     (let s = set (map py_upper sides) in \<lparr>long = ''LONG'' \<in> s, short = ''SHORT'' \<in> s\<rparr>)"

definition from_stance :: "string option \<Rightarrow> legs" where
  "from_stance stance = \<lparr>long = (stance = Some ''LONG''), short = (stance = Some ''SHORT'')\<rparr>"

definition is_open :: "legs \<Rightarrow> side \<Rightarrow> bool" where
  "is_open l s = (if s = LONG then long l else short l)"

definition open_sides :: "legs \<Rightarrow> side list" where
  "open_sides l = filter (is_open l) [LONG, SHORT]"

definition legs_count :: "legs \<Rightarrow> nat" where
  "legs_count l = length (open_sides l)"

definition flat :: "legs \<Rightarrow> bool" where
  "flat l \<longleftrightarrow> legs_count l = 0"

definition sole_open :: "legs \<Rightarrow> side option" where
  "sole_open l = (case open_sides l of [s] \<Rightarrow> Some s | _ \<Rightarrow> None)"

definition with_side :: "legs \<Rightarrow> side \<Rightarrow> bool \<Rightarrow> legs" where
  "with_side l s b = (if s = LONG then l\<lparr>long := b\<rparr> else l\<lparr>short := b\<rparr>)"

definition join_plus :: "string list \<Rightarrow> string" where
  "join_plus ws = (case ws of [] \<Rightarrow> [] | w # rest \<Rightarrow> concat (w # map (\<lambda>x. ''+'' @ x) rest))"

definition label :: "legs \<Rightarrow> string" where
  "label l = (let opens = open_sides l in if opens \<noteq> [] then join_plus (map side_name opens) else ''FLAT'')"

section \<open>Reading and changing legs\<close>

lemma legs_eqI: "(\<And>s. is_open a s = is_open b s) \<Longrightarrow> a = (b :: legs)"
  using is_open_def [of _ LONG] is_open_def [of _ SHORT]
  by (intro legs.equality) (simp_all, metis+)

lemma is_open_with_side [simp, leg_simps]:
  "is_open (with_side l s b) t = (if s = t then b else is_open l t)"
  by (cases s; cases t) (auto simp: is_open_def with_side_def)

lemma is_open_no_legs [simp, leg_simps]: "\<not> is_open no_legs s"
  by (simp add: is_open_def no_legs_def)

lemma legs_eq_iff: "a = b \<longleftrightarrow> is_open a LONG = is_open b LONG \<and> is_open a SHORT = is_open b SHORT"
  by (auto intro!: legs_eqI) (metis (full_types) side.exhaust)+

lemma with_side_same [simp]: "with_side (with_side l s a) s b = with_side l s b"
  by (rule legs_eqI) simp

lemma with_side_commute: "s \<noteq> t \<Longrightarrow> with_side (with_side l s a) t b = with_side (with_side l t b) s a"
  by (rule legs_eqI) auto

lemma with_side_id: "is_open l s = b \<Longrightarrow> with_side l s b = l"
  by (rule legs_eqI) auto

lemma with_side_id_iff: "with_side l s b = l \<longleftrightarrow> is_open l s = b"
  by (metis is_open_with_side with_side_id)

lemma flat_iff: "flat l \<longleftrightarrow> (\<forall>s. \<not> is_open l s)"
  by (simp add: flat_def legs_count_def open_sides_def) (metis (full_types) side.exhaust)

lemma flat_iff_both: "flat l \<longleftrightarrow> \<not> is_open l LONG \<and> \<not> is_open l SHORT"
  unfolding flat_iff by (metis (full_types) side.exhaust)

lemma flat_eq_no_legs: "flat l \<longleftrightarrow> l = no_legs"
  using flat_iff legs_eqI [of l no_legs] by auto

lemma sole_open_iff: "sole_open l = Some s \<longleftrightarrow> is_open l s \<and> \<not> is_open l (opposite s)"
  by (cases s; cases "is_open l LONG"; cases "is_open l SHORT")
    (auto simp: sole_open_def open_sides_def)

lemma sole_open_None: "sole_open l = None \<longleftrightarrow> flat l \<or> (is_open l LONG \<and> is_open l SHORT)"
  by (cases "is_open l LONG"; cases "is_open l SHORT")
    (auto simp: sole_open_def open_sides_def flat_def legs_count_def)

lemma count_le_1_iff: "legs_count l \<le> 1 \<longleftrightarrow> \<not> (is_open l LONG \<and> is_open l SHORT)"
  by (simp add: legs_count_def open_sides_def)

lemma count_le_Suc0_iff: "legs_count l \<le> Suc 0 \<longleftrightarrow> \<not> (is_open l LONG \<and> is_open l SHORT)"
  using count_le_1_iff [of l] by simp

lemma label_inject [simp]: "label a = label b \<longleftrightarrow> a = b"
proof
  assume eq: "label a = label b"
  show "a = b"
  proof (rule legs_eqI)
    fix s
    from eq show "is_open a s = is_open b s"
      by (cases s; cases "is_open a LONG"; cases "is_open a SHORT";
          cases "is_open b LONG"; cases "is_open b SHORT")
        (simp_all add: label_def open_sides_def join_plus_def)
  qed
qed simp

text \<open>Applying a list of side changes, in order.\<close>

definition apply_changes :: "(side \<times> bool) list \<Rightarrow> legs \<Rightarrow> legs" where
  "apply_changes changes l = fold (\<lambda>(s, b) acc. with_side acc s b) changes l"

lemma apply_changes_simps [simp, leg_simps]:
  "apply_changes [] l = l"
  "apply_changes ((s, b) # cs) l = apply_changes cs (with_side l s b)"
  by (simp_all add: apply_changes_def)

lemma apply_changes_append: "apply_changes (xs @ ys) l = apply_changes ys (apply_changes xs l)"
  by (simp add: apply_changes_def)

lemma is_open_apply_changes:
  "distinct (map fst cs) \<Longrightarrow>
     is_open (apply_changes cs l) s = (case map_of cs s of None \<Rightarrow> is_open l s | Some b \<Rightarrow> b)"
proof (induction cs arbitrary: l)
  case (Cons c cs)
  obtain t b where c: "c = (t, b)" by force
  from Cons.prems c have "map_of cs t = None" by (simp add: map_of_eq_None_iff)
  with Cons c show ?case by (auto split: option.splits)
qed simp

text \<open>The round trip between legs and the rows that store them.\<close>

lemma py_upper_side_name [simp]: "py_upper (side_name s) = side_name s"
  by (cases s) (simp_all add: py_upper_def upper_char_def)

lemma from_sides_open_sides: "from_sides (map side_name (open_sides l)) = l"
proof -
  have "set (map py_upper (map side_name (open_sides l))) = side_name ` set (open_sides l)"
    by (simp add: image_image)
  moreover have "''LONG'' = side_name x \<longleftrightarrow> x = LONG" "''SHORT'' = side_name x \<longleftrightarrow> x = SHORT" for x
    by (cases x; simp)+
  ultimately have "long (from_sides (map side_name (open_sides l))) = (LONG \<in> set (open_sides l))"
    and "short (from_sides (map side_name (open_sides l))) = (SHORT \<in> set (open_sides l))"
    by (auto simp: from_sides_def image_iff)
  then show ?thesis
    by (intro legs.equality) (simp_all add: open_sides_def is_open_def)
qed

end
