(* ===== verification/Statemachine.thy ===== *)
theory Statemachine
  imports Legs
begin

text \<open>
  \<open>social-listener/app/statemachine.py\<close>: the pure gates of the social listener. A record
  extracted from a post is judged against the legs the channel is recorded as holding; the
  result is a decision (act, skip, park) with the leg changes it implies, or a Python
  exception. The level guards bound what a post may do to a stop or a take-profit.
\<close>

section \<open>Data\<close>

datatype action_type = OPEN | FLIP | CLOSE | ADD | TRIM | STOP | NONE

datatype phase = Live | Backfill

datatype decision_kind = Acted | Skipped | Pending

datatype signal =
    No_signal
  | Open_long | Open_short | Close_long | Close_short
  | Flip_to_long | Flip_to_short
  | Partial_close_long | Partial_close_short
  | Add_long | Add_short
  | Close_all

text \<open>Why \<open>resolve_leg\<close> could not name a leg.\<close>

datatype refusal = No_position | Side_not_open | Side_ambiguous

datatype reason =
    Low_confidence | Not_whitelisted | No_target | No_state_change | Close_side_not_open
  | Stop_only | Signal_too_old | Priceless_no_entry | Priceless_recent | No_mark
  | Stale_price | Stale_implied_ref | Ok | Ok_implied_ref | Backfill_replay
  | Backfill_no_trim | Backfill_no_add | Add_at_market | Add_size_zero
  | No_position_to_add | Add_side_mismatch | Add_side_ambiguous
  | No_position_to_trim | Trim_side_mismatch | Trim_side_ambiguous
  | Trim_at_market | Trim_level_reached | Trim_level_pending
  | Trim_already_taken | Trim_too_soon | Emit_failed | Levels_only
  | Add_as_open reason

datatype level_reason =
    Level_ok | No_stop_instruction | No_position_for_stop | Level_too_old | No_entry_price
  | Stop_would_widen_risk | Stop_already_crossed | Stop_not_tighter
  | No_tp_instruction | No_position_for_tp | Tp_wrong_side | Tp_already_crossed | Tp_unchanged
  | Stop_send_failed | Tp_send_failed

text \<open>A row of \<open>social_signal_log\<close>, or the freshly extracted record of a post.\<close>

record signal_rec =
  r_msg_id :: int
  r_posted_at :: "datetime option"
  r_is_actionable :: bool
  r_action :: action_type
  r_asset :: "string option"
  r_direction :: "string option"
  r_reference_price :: "pynum option"
  r_confidence :: "pynum option"
  r_size_fraction :: "pynum option"
  r_trigger_price :: "pynum option"
  r_stop_price :: "pynum option"
  r_stop_to_breakeven :: "bool option"
  r_take_profit_price :: "pynum option"
  r_add_multiple :: "pynum option"

record decision =
  d_decision :: decision_kind
  d_reason :: reason
  d_from_legs :: legs
  d_to_legs :: legs
  d_from_state :: string
  d_to_state :: string
  d_leg :: "side option"
  d_advance_legs :: "(side \<times> bool) list"
  d_intended_signal :: signal
  d_mark_price :: "rat option"
  d_advance :: bool
  d_emit :: bool
  d_is_trim :: bool
  d_is_add :: bool
  d_park :: bool
  d_size_fraction :: "rat option"
  d_trigger_price :: "rat option"
  d_add_multiple :: "rat option"

fun open_signal :: "side \<Rightarrow> signal" where
  "open_signal LONG = Open_long" | "open_signal SHORT = Open_short"

fun close_signal :: "side \<Rightarrow> signal" where
  "close_signal LONG = Close_long" | "close_signal SHORT = Close_short"

fun flip_signal :: "side \<Rightarrow> signal" where
  "flip_signal LONG = Flip_to_long" | "flip_signal SHORT = Flip_to_short"

fun trim_signal :: "side \<Rightarrow> signal" where
  "trim_signal LONG = Partial_close_long" | "trim_signal SHORT = Partial_close_short"

fun add_signal :: "side \<Rightarrow> signal" where
  "add_signal LONG = Add_long" | "add_signal SHORT = Add_short"

section \<open>Reading a record\<close>

definition direction_of :: "signal_rec \<Rightarrow> side option" where
  "direction_of rec = parse_side (py_upper (case r_direction rec of None \<Rightarrow> [] | Some d \<Rightarrow> d))"

definition trim_fraction :: "settings \<Rightarrow> signal_rec \<Rightarrow> rat" where
  "trim_fraction cfg rec =
     (let frac = (case r_size_fraction rec of
                    Some raw \<Rightarrow> py_float raw | None \<Rightarrow> default_trim_fraction cfg)
      in max (min_trim_fraction cfg) (min (max_trim_fraction cfg) frac))"

definition add_multiple_of :: "settings \<Rightarrow> signal_rec \<Rightarrow> rat" where
  "add_multiple_of cfg rec =
     (let mult = (case r_add_multiple rec of
                    Some raw \<Rightarrow> py_float raw | None \<Rightarrow> default_add_multiple cfg)
      in max 0 (min (max_add_multiple cfg) mult))"

definition too_old :: "settings \<Rightarrow> signal_rec \<Rightarrow> datetime \<Rightarrow> bool" where
  "too_old cfg rec now =
     (case r_posted_at rec of
        None \<Rightarrow> False
      | Some posted_at \<Rightarrow> max_signal_age_seconds cfg < now - posted_at)"

definition resolve_leg :: "signal_rec \<Rightarrow> legs \<Rightarrow> refusal + side" where
  "resolve_leg rec l =
     (case direction_of rec of
        Some named \<Rightarrow> if is_open l named then Inr named else Inl Side_not_open
      | None \<Rightarrow>
          if flat l then Inl No_position
          else (case sole_open l of Some sole \<Rightarrow> Inr sole | None \<Rightarrow> Inl Side_ambiguous))"

section \<open>The level guards\<close>

definition evaluate_stop ::
  "settings \<Rightarrow> signal_rec \<Rightarrow> side option \<Rightarrow> rat option \<Rightarrow> rat option \<Rightarrow> rat option \<Rightarrow> datetime
     \<Rightarrow> rat option \<times> level_reason" where
  "evaluate_stop cfg rec side entry_price mark last_stop now =
     (let named = r_stop_price rec; to_be = (r_stop_to_breakeven rec = Some True)
      in if named = None \<and> \<not> to_be then (None, No_stop_instruction)
      else case side of None \<Rightarrow> (None, No_position_for_stop)
      | Some sd \<Rightarrow>
        if too_old cfg rec now then (None, Level_too_old)
        else case entry_price of None \<Rightarrow> (None, No_entry_price)
        | Some entry \<Rightarrow>
          (let want = (case named of Some p \<Rightarrow> py_float p | None \<Rightarrow> entry); is_short = (sd = SHORT)
           in if (if is_short then entry < want else want < entry) then (None, Stop_would_widen_risk)
              else if (case mark of None \<Rightarrow> False
                       | Some m \<Rightarrow> if is_short then want \<le> m else m \<le> want)
                then (None, Stop_already_crossed)
              else if (case last_stop of None \<Rightarrow> False
                       | Some prev \<Rightarrow> if is_short then prev < want else want < prev)
                then (None, Stop_not_tighter)
              else (Some want, Level_ok)))"

definition evaluate_take_profit ::
  "settings \<Rightarrow> signal_rec \<Rightarrow> side option \<Rightarrow> rat option \<Rightarrow> rat option \<Rightarrow> rat option \<Rightarrow> datetime
     \<Rightarrow> rat option \<times> level_reason" where
  "evaluate_take_profit cfg rec side entry_price mark last_tp now =
     (case r_take_profit_price rec of None \<Rightarrow> (None, No_tp_instruction)
      | Some raw \<Rightarrow>
        case side of None \<Rightarrow> (None, No_position_for_tp)
        | Some sd \<Rightarrow>
          if too_old cfg rec now then (None, Level_too_old)
          else
            (let want = py_float raw; is_short = (sd = SHORT)
             in if (case entry_price of None \<Rightarrow> False
                    | Some e \<Rightarrow> if is_short then e \<le> want else want \<le> e)
                  then (None, Tp_wrong_side)
                else if (case mark of None \<Rightarrow> False
                         | Some m \<Rightarrow> if is_short then m \<le> want else want \<le> m)
                  then (None, Tp_already_crossed)
                else if (case last_tp of None \<Rightarrow> False
                         | Some l \<Rightarrow> \<bar>l - want\<bar> / max want (1 / 10 ^ 9) < 1 / 10 ^ 6)
                  then (None, Tp_unchanged)
                else (Some want, Level_ok)))"

section \<open>Decisions\<close>

text \<open>The closures \<open>base\<close>, \<open>skip\<close> and \<open>act\<close> of \<open>evaluate\<close>; the
  \<open>extra\<close> keys are record updates at the call sites.\<close>

definition base ::
  "bool \<Rightarrow> legs \<Rightarrow> rat option \<Rightarrow> decision_kind \<Rightarrow> reason \<Rightarrow> legs option \<Rightarrow> signal
     \<Rightarrow> (side \<times> bool) list \<Rightarrow> bool \<Rightarrow> decision" where
  "base add_as_open l mark dec rsn to_legs sig advance_legs emit =
     (let to = (case to_legs of None \<Rightarrow> apply_changes advance_legs l | Some t \<Rightarrow> t)
      in \<lparr>d_decision = dec, d_reason = (if add_as_open then Add_as_open rsn else rsn),
          d_from_legs = l, d_to_legs = to, d_from_state = label l, d_to_state = label to,
          d_leg = None, d_advance_legs = advance_legs, d_intended_signal = sig,
          d_mark_price = mark, d_advance = (advance_legs \<noteq> []), d_emit = emit,
          d_is_trim = False, d_is_add = False, d_park = False,
          d_size_fraction = None, d_trigger_price = None, d_add_multiple = None\<rparr>)"

definition skip :: "bool \<Rightarrow> legs \<Rightarrow> rat option \<Rightarrow> reason \<Rightarrow> signal \<Rightarrow> decision" where
  "skip add_as_open l mark rsn sig = base add_as_open l mark Skipped rsn (Some l) sig [] False"

definition act :: "bool \<Rightarrow> legs \<Rightarrow> rat option \<Rightarrow> reason \<Rightarrow> signal \<Rightarrow> (side \<times> bool) list \<Rightarrow> decision" where
  "act add_as_open l mark rsn sig advance_legs =
     base add_as_open l mark Acted rsn None sig advance_legs True"

fun add_refusal :: "refusal \<Rightarrow> reason" where
  "add_refusal No_position = No_position_to_add"
| "add_refusal Side_not_open = Add_side_mismatch"
| "add_refusal Side_ambiguous = Add_side_ambiguous"

fun trim_refusal :: "refusal \<Rightarrow> reason" where
  "trim_refusal No_position = No_position_to_trim"
| "trim_refusal Side_not_open = Trim_side_mismatch"
| "trim_refusal Side_ambiguous = Trim_side_ambiguous"

text \<open>The chase gate: the price has already moved the signal's way by more than the limit.\<close>

definition chased :: "settings \<Rightarrow> bool \<Rightarrow> rat \<Rightarrow> bool" where
  "chased cfg going_long moved =
     (if going_long then staleness_pct cfg < moved else staleness_pct cfg < - moved)"

definition evaluate_add ::
  "settings \<Rightarrow> signal_rec \<Rightarrow> phase \<Rightarrow> legs \<Rightarrow> rat option \<Rightarrow> datetime \<Rightarrow> decision result" where
  "evaluate_add cfg rec phase l mark now =
     (case resolve_leg rec l of
        Inl refusal \<Rightarrow> Inr (skip False l mark (add_refusal refusal) No_signal)
      | Inr side \<Rightarrow>
        (let sig = add_signal side; mult = add_multiple_of cfg rec;
             refuse = (\<lambda>rsn. Inr ((skip False l mark rsn sig)
                         \<lparr>d_leg := Some side, d_add_multiple := Some mult\<rparr>));
             go = Inr ((base False l mark Acted Add_at_market None sig [] True)
                         \<lparr>d_leg := Some side, d_is_add := True, d_add_multiple := Some mult\<rparr>)
         in if mult \<le> 0 then refuse Add_size_zero
            else if phase = Backfill then refuse Backfill_no_add
            else if too_old cfg rec now then refuse Signal_too_old
            else case (r_reference_price rec, mark) of
              (Some ref, Some m) \<Rightarrow>
                (case float_div (m - py_float ref) (py_float ref) of
                   Inl e \<Rightarrow> Inl e
                 | Inr moved \<Rightarrow> if chased cfg (side = LONG) moved then refuse Stale_price else go)
            | _ \<Rightarrow> go))"

definition evaluate_trim ::
  "settings \<Rightarrow> signal_rec \<Rightarrow> phase \<Rightarrow> legs \<Rightarrow> rat option \<Rightarrow> datetime \<Rightarrow> decision" where
  "evaluate_trim cfg rec phase l mark now =
     (case resolve_leg rec l of
        Inl refusal \<Rightarrow> skip False l mark (trim_refusal refusal) No_signal
      | Inr side \<Rightarrow>
        (let sig = trim_signal side; frac = trim_fraction cfg rec;
             trig = map_option py_float (r_trigger_price rec);
             refuse = (\<lambda>rsn. (skip False l mark rsn sig)
                         \<lparr>d_leg := Some side, d_size_fraction := Some frac, d_trigger_price := trig\<rparr>);
             trim = (\<lambda>rsn. (base False l mark Acted rsn None sig [] True)
                         \<lparr>d_leg := Some side, d_is_trim := True, d_size_fraction := Some frac,
                          d_trigger_price := trig\<rparr>)
         in if phase = Backfill then refuse Backfill_no_trim
            else if too_old cfg rec now then refuse Signal_too_old
            else case trig of None \<Rightarrow> trim Trim_at_market
            | Some t \<Rightarrow>
              (case mark of None \<Rightarrow> refuse No_mark
               | Some m \<Rightarrow>
                 if (if side = SHORT then m \<le> t else t \<le> m) then trim Trim_level_reached
                 else (base False l mark Pending Trim_level_pending None sig [] False)
                        \<lparr>d_leg := Some side, d_is_trim := True, d_park := True,
                         d_size_fraction := Some frac, d_trigger_price := trig\<rparr>)))"

text \<open>Which legs a CLOSE post takes off: \<open>Inl\<close> is the refusal with the leg it names.\<close>

definition plan_close ::
  "signal_rec \<Rightarrow> legs \<Rightarrow> (reason \<times> side option) + (signal \<times> side option \<times> (side \<times> bool) list)" where
  "plan_close rec l =
     (if flat l then Inl (No_state_change, None)
      else case direction_of rec of
        Some named \<Rightarrow>
          if \<not> is_open l named then Inl (Close_side_not_open, Some named)
          else Inr (close_signal named, Some named, [(named, False)])
      | None \<Rightarrow>
          (case sole_open l of
             Some sole \<Rightarrow> Inr (close_signal sole, Some sole, [(sole, False)])
           | None \<Rightarrow> Inr (Close_all, None, [(LONG, False), (SHORT, False)])))"

text \<open>
  The position half of \<open>evaluate\<close>: which signal and leg changes an OPEN, FLIP or CLOSE
  asks for, and whether the chase gate looks at it as a long; \<open>Inl\<close> is a skip.
\<close>

definition plan_move ::
  "action_type \<Rightarrow> signal_rec \<Rightarrow> legs \<Rightarrow> bool
     \<Rightarrow> (reason \<times> side option) + (signal \<times> side option \<times> (side \<times> bool) list \<times> bool)" where
  "plan_move action rec l multi =
     (case action of
        STOP \<Rightarrow> Inl (Stop_only, None)
      | CLOSE \<Rightarrow>
          (case plan_close rec l of
             Inl (refusal, want) \<Rightarrow> Inl (refusal, want)
           | Inr (sig, want, changes) \<Rightarrow> Inr (sig, want, changes, False))
      | a \<Rightarrow>
          if a \<noteq> OPEN \<and> a \<noteq> FLIP then Inl (No_target, None)
          else case direction_of rec of None \<Rightarrow> Inl (No_target, None)
          | Some want \<Rightarrow>
            (let other = opposite want; other_open = is_open l other
             in if is_open l want then
                  (if a = FLIP \<and> other_open
                   then Inr (close_signal other, Some want, [(other, False)], other = LONG)
                   else Inl (No_state_change, None))
                else if other_open \<and> (a = FLIP \<or> \<not> multi)
                  then Inr (flip_signal want, Some want, [(other, False), (want, True)], want = LONG)
                else Inr (open_signal want, Some want, [(want, True)], want = LONG)))"

datatype verdict = Refuse reason | Take reason

text \<open>The staleness half of the live path, against the price the post cited or implied.\<close>

definition moved_gate :: "settings \<Rightarrow> pynum \<Rightarrow> rat option \<Rightarrow> bool \<Rightarrow> reason \<Rightarrow> verdict result" where
  "moved_gate cfg ref mark going_long reason_ok =
     (case mark of None \<Rightarrow> Inr (Refuse No_mark)
      | Some m \<Rightarrow>
        (case float_sub m ref of Inl e \<Rightarrow> Inl e
         | Inr diff \<Rightarrow>
           (case float_div diff (py_float ref) of Inl e \<Rightarrow> Inl e
            | Inr moved \<Rightarrow>
              if chased cfg going_long moved
              then Inr (Refuse (if reason_ok = Ok then Stale_price else Stale_implied_ref))
              else Inr (Take reason_ok))))"

definition price_gate ::
  "settings \<Rightarrow> signal_rec \<Rightarrow> rat option \<Rightarrow> rat option \<Rightarrow> bool \<Rightarrow> verdict result" where
  "price_gate cfg rec mark implied_ref going_long =
     (case r_reference_price rec of
        Some ref \<Rightarrow> moved_gate cfg ref mark going_long Ok
      | None \<Rightarrow>
          if entry_on_missing_price cfg \<noteq> ''market'' then Inr (Refuse Priceless_no_entry)
          else case implied_ref of None \<Rightarrow> Inr (Take Priceless_recent)
          | Some ref \<Rightarrow> moved_gate cfg (PyFloat ref) mark going_long Ok_implied_ref)"

definition evaluate_move ::
  "settings \<Rightarrow> bool \<Rightarrow> action_type \<Rightarrow> signal_rec \<Rightarrow> phase \<Rightarrow> legs \<Rightarrow> rat option \<Rightarrow> rat option
     \<Rightarrow> datetime \<Rightarrow> bool \<Rightarrow> decision result" where
  "evaluate_move cfg add_as_open action rec phase l mark implied_ref now multi =
     (case plan_move action rec l multi of
        Inl (rsn, want) \<Rightarrow> Inr ((skip add_as_open l mark rsn No_signal)\<lparr>d_leg := want\<rparr>)
      | Inr (sig, want, changes, going_long) \<Rightarrow>
        if phase = Backfill
        then Inr ((act add_as_open l mark Backfill_replay sig changes)\<lparr>d_leg := want\<rparr>)
        else if too_old cfg rec now
        then Inr ((skip add_as_open l mark Signal_too_old sig)\<lparr>d_leg := want\<rparr>)
        else case price_gate cfg rec mark implied_ref going_long of
          Inl e \<Rightarrow> Inl e
        | Inr (Refuse rsn) \<Rightarrow> Inr ((skip add_as_open l mark rsn sig)\<lparr>d_leg := want\<rparr>)
        | Inr (Take rsn) \<Rightarrow> Inr ((act add_as_open l mark rsn sig changes)\<lparr>d_leg := want\<rparr>))"

definition evaluate ::
  "settings \<Rightarrow> signal_rec \<Rightarrow> phase \<Rightarrow> legs \<Rightarrow> rat option \<Rightarrow> rat option \<Rightarrow> datetime \<Rightarrow> bool
     \<Rightarrow> decision result" where
  "evaluate cfg rec phase l mark implied_ref now multi =
     (let conf = (case r_confidence rec of None \<Rightarrow> 0 | Some c \<Rightarrow> py_float c)
      in if conf < confidence_floor cfg then Inr (skip False l mark Low_confidence No_signal)
      else if (case upper_or_none (r_asset rec) of None \<Rightarrow> True | Some a \<Rightarrow> a \<notin> set (whitelist cfg))
        then Inr (skip False l mark Not_whitelisted No_signal)
      else case r_action rec of
        TRIM \<Rightarrow> Inr (evaluate_trim cfg rec phase l mark now)
      | ADD \<Rightarrow>
          if flat l \<and> direction_of rec \<noteq> None
          then evaluate_move cfg True OPEN rec phase l mark implied_ref now multi
          else evaluate_add cfg rec phase l mark now
      | action \<Rightarrow> evaluate_move cfg False action rec phase l mark implied_ref now multi)"

section \<open>Lemmas about the parts\<close>

lemma base_fields [simp]:
  "d_decision (base a l m dec r to sig ch e) = dec"
  "d_reason (base a l m dec r to sig ch e) = (if a then Add_as_open r else r)"
  "d_from_legs (base a l m dec r to sig ch e) = l"
  "d_to_legs (base a l m dec r to sig ch e) =
     (case to of None \<Rightarrow> apply_changes ch l | Some t \<Rightarrow> t)"
  "d_from_state (base a l m dec r to sig ch e) = label l"
  "d_to_state (base a l m dec r to sig ch e) =
     label (case to of None \<Rightarrow> apply_changes ch l | Some t \<Rightarrow> t)"
  "d_leg (base a l m dec r to sig ch e) = None"
  "d_advance_legs (base a l m dec r to sig ch e) = ch"
  "d_intended_signal (base a l m dec r to sig ch e) = sig"
  "d_mark_price (base a l m dec r to sig ch e) = m"
  "d_advance (base a l m dec r to sig ch e) = (ch \<noteq> [])"
  "d_emit (base a l m dec r to sig ch e) = e"
  "\<not> d_is_trim (base a l m dec r to sig ch e)"
  "\<not> d_is_add (base a l m dec r to sig ch e)"
  "\<not> d_park (base a l m dec r to sig ch e)"
  "d_size_fraction (base a l m dec r to sig ch e) = None"
  "d_trigger_price (base a l m dec r to sig ch e) = None"
  "d_add_multiple (base a l m dec r to sig ch e) = None"
  by (simp_all add: base_def Let_def split: option.splits)

lemma skip_is_base: "skip a l m r sig = base a l m Skipped r (Some l) sig [] False"
  by (rule skip_def)

lemma act_is_base: "act a l m r sig ch = base a l m Acted r None sig ch True"
  by (rule act_def)

lemma resolve_leg_open: "resolve_leg rec l = Inr s \<Longrightarrow> is_open l s"
  by (auto simp: resolve_leg_def sole_open_iff split: option.splits if_splits)

lemma trim_fraction_bounds:
  assumes "sane_settings cfg"
  shows "min_trim_fraction cfg \<le> trim_fraction cfg rec"
    and "trim_fraction cfg rec \<le> max_trim_fraction cfg"
  using assms by (auto simp: trim_fraction_def sane_settings_def Let_def)

lemma add_multiple_bounds:
  assumes "sane_settings cfg"
  shows "0 \<le> add_multiple_of cfg rec" and "add_multiple_of cfg rec \<le> max_add_multiple cfg"
  using assms by (auto simp: add_multiple_of_def sane_settings_def Let_def)

text \<open>What every planned move satisfies.\<close>

definition move_ok :: "legs \<Rightarrow> bool \<Rightarrow> (side \<times> bool) list \<Rightarrow> bool" where
  "move_ok l multi ch \<longleftrightarrow>
     ch \<noteq> [] \<and> distinct (map fst ch) \<and> apply_changes ch l \<noteq> l \<and>
     (\<not> multi \<longrightarrow> legs_count l \<le> 1 \<longrightarrow> legs_count (apply_changes ch l) \<le> 1)"

lemma plan_close_ok:
  assumes "plan_close rec l = Inr (sig, want, ch)"
  shows "move_ok l multi ch"
proof -
  have "is_open l LONG \<or> is_open l SHORT"
    using assms flat_iff_both [of l] by (cases "flat l") (auto simp: plan_close_def)
  with assms show ?thesis
    by (auto simp: plan_close_def move_ok_def count_le_Suc0_iff legs_eq_iff sole_open_iff
        split: if_splits option.splits) (metis (full_types) side.exhaust)+
qed

lemma plan_move_ok:
  assumes "plan_move a rec l multi = Inr (sig, want, ch, gl)"
  shows "move_ok l multi ch"
proof (cases "a = CLOSE")
  case True
  with assms show ?thesis by (auto simp: plan_move_def dest: plan_close_ok split: sum.splits)
next
  case False
  with assms have a: "a = OPEN \<or> a = FLIP"
    by (auto simp: plan_move_def split: action_type.splits)
  with assms obtain w where w: "direction_of rec = Some w"
    by (auto simp: plan_move_def split: option.splits)
  let ?o = "opposite w"
  from assms a w have "(is_open l w \<and> is_open l ?o \<and> ch = [(?o, False)])
      \<or> (\<not> is_open l w \<and> is_open l ?o \<and> ch = [(?o, False), (w, True)])
      \<or> (\<not> is_open l w \<and> ch = [(w, True)] \<and> (is_open l ?o \<longrightarrow> multi))"
    by (auto simp: plan_move_def Let_def split: if_splits)
  then show ?thesis
    by (cases w) (auto simp: move_ok_def count_le_Suc0_iff legs_eq_iff)
qed

text \<open>
  Every decision has one of four shapes: a skip, an acted move, an acted scale-in or an
  acted or parked trim.
\<close>

inductive decided ::
  "settings \<Rightarrow> signal_rec \<Rightarrow> phase \<Rightarrow> legs \<Rightarrow> datetime \<Rightarrow> bool \<Rightarrow> decision \<Rightarrow> bool"
  for cfg rec phase l now multi where
  skipped: "d_decision d = Skipped \<Longrightarrow> d_from_legs d = l \<Longrightarrow> d_to_legs d = l \<Longrightarrow> d_advance_legs d = [] \<Longrightarrow>
     \<not> d_advance d \<Longrightarrow> \<not> d_emit d \<Longrightarrow> \<not> d_park d \<Longrightarrow> \<not> d_is_trim d \<Longrightarrow> \<not> d_is_add d \<Longrightarrow>
     decided cfg rec phase l now multi d"
| moved: "move_ok l multi (d_advance_legs d) \<Longrightarrow> d_decision d = Acted \<Longrightarrow> d_from_legs d = l \<Longrightarrow>
     d_to_legs d = apply_changes (d_advance_legs d) l \<Longrightarrow> d_advance d \<Longrightarrow> d_emit d \<Longrightarrow> \<not> d_park d \<Longrightarrow>
     \<not> d_is_trim d \<Longrightarrow> \<not> d_is_add d \<Longrightarrow> phase = Backfill \<or> \<not> too_old cfg rec now \<Longrightarrow>
     plan_move a rec l multi = Inr (d_intended_signal d, d_leg d, d_advance_legs d, gl) \<Longrightarrow>
     a = r_action rec \<or> r_action rec = ADD \<and> a = OPEN \<and> flat l \<Longrightarrow>
     decided cfg rec phase l now multi d"
| added: "d_leg d = Some s \<Longrightarrow> is_open l s \<Longrightarrow> d_decision d = Acted \<Longrightarrow> d_from_legs d = l \<Longrightarrow>
     d_to_legs d = l \<Longrightarrow> d_advance_legs d = [] \<Longrightarrow> \<not> d_advance d \<Longrightarrow> d_emit d \<Longrightarrow> \<not> d_park d \<Longrightarrow>
     \<not> d_is_trim d \<Longrightarrow> d_is_add d \<Longrightarrow> phase = Live \<Longrightarrow> \<not> too_old cfg rec now \<Longrightarrow> r_action rec = ADD \<Longrightarrow>
     d_intended_signal d = add_signal s \<Longrightarrow> d_add_multiple d = Some (add_multiple_of cfg rec) \<Longrightarrow>
     0 < add_multiple_of cfg rec \<Longrightarrow>
     decided cfg rec phase l now multi d"
| trimmed: "d_leg d = Some s \<Longrightarrow> is_open l s \<Longrightarrow> d_from_legs d = l \<Longrightarrow> d_to_legs d = l \<Longrightarrow>
     d_advance_legs d = [] \<Longrightarrow> \<not> d_advance d \<Longrightarrow> d_is_trim d \<Longrightarrow> \<not> d_is_add d \<Longrightarrow> phase = Live \<Longrightarrow>
     \<not> too_old cfg rec now \<Longrightarrow> r_action rec = TRIM \<Longrightarrow> d_intended_signal d = trim_signal s \<Longrightarrow>
     d_size_fraction d = Some (trim_fraction cfg rec) \<Longrightarrow>
     d_trigger_price d = map_option py_float (r_trigger_price rec) \<Longrightarrow>
     (d_emit d \<and> \<not> d_park d \<and> d_decision d = Acted)
       \<or> (\<not> d_emit d \<and> d_park d \<and> d_decision d = Pending \<and> d_trigger_price d \<noteq> None) \<Longrightarrow>
     decided cfg rec phase l now multi d"

inductive_cases decidedE: "decided cfg rec phase l now multi d"

lemma phase_not_Backfill [simp]: "phase \<noteq> Backfill \<longleftrightarrow> phase = Live"
  by (cases phase) auto

lemma evaluate_add_cases:
  assumes "evaluate_add cfg rec phase l mark now = Inr d"
  obtains (no_leg) r where "d = skip False l mark r No_signal"
    | (refused) s r where "d = (skip False l mark r (add_signal s))
         \<lparr>d_leg := Some s, d_add_multiple := Some (add_multiple_of cfg rec)\<rparr>"
    | (go) s where "resolve_leg rec l = Inr s" "0 < add_multiple_of cfg rec" "phase = Live"
        "\<not> too_old cfg rec now"
        "d = (base False l mark Acted Add_at_market None (add_signal s) [] True)
           \<lparr>d_leg := Some s, d_is_add := True, d_add_multiple := Some (add_multiple_of cfg rec)\<rparr>"
proof (cases "resolve_leg rec l")
  case (Inl x)
  with assms no_leg show ?thesis by (auto simp: evaluate_add_def)
next
  case (Inr s)
  let ?go = "(base False l mark Acted Add_at_market None (add_signal s) [] True)
      \<lparr>d_leg := Some s, d_is_add := True, d_add_multiple := Some (add_multiple_of cfg rec)\<rparr>"
  let ?no = "\<lambda>r. (skip False l mark r (add_signal s))
      \<lparr>d_leg := Some s, d_add_multiple := Some (add_multiple_of cfg rec)\<rparr>"
  from assms Inr have "(\<exists>r. d = ?no r) \<or>
      (0 < add_multiple_of cfg rec \<and> phase = Live \<and> \<not> too_old cfg rec now \<and> d = ?go)"
    unfolding evaluate_add_def Let_def
    by (cases "r_reference_price rec"; cases mark)
      (simp_all split: if_split_asm sum.split_asm, blast+)
  with Inr refused go show ?thesis by blast
qed

lemma evaluate_add_decided:
  assumes "evaluate_add cfg rec phase l mark now = Inr d" "r_action rec = ADD"
  shows "decided cfg rec phase l now multi d"
  using assms(1)
proof (cases rule: evaluate_add_cases)
  case (no_leg r)
  then show ?thesis by (intro decided.skipped) (simp_all add: skip_is_base)
next
  case (refused s r)
  then show ?thesis by (intro decided.skipped) (simp_all add: skip_is_base)
next
  case (go s)
  with assms(2) show ?thesis
    by (intro decided.added [of d s]) (simp_all add: resolve_leg_open)
qed

lemma evaluate_trim_decided:
  assumes "r_action rec = TRIM"
  shows "decided cfg rec phase l now multi (evaluate_trim cfg rec phase l mark now)" (is "decided _ _ _ _ _ _ ?d")
proof (cases "d_is_trim ?d")
  case True
  with assms show ?thesis
    by (intro decided.trimmed [of ?d "the (d_leg ?d)"])
      (auto simp: evaluate_trim_def skip_is_base Let_def resolve_leg_open
        intro: phase.exhaust split: sum.splits if_splits option.splits)
next
  case False
  with assms show ?thesis
    by (intro decided.skipped)
      (auto simp: evaluate_trim_def skip_is_base Let_def split: sum.splits if_splits option.splits)
qed

lemma evaluate_move_decided:
  assumes "evaluate_move cfg ao a rec phase l mark imp now multi = Inr d"
    and "a = r_action rec \<or> r_action rec = ADD \<and> a = OPEN \<and> flat l"
  shows "decided cfg rec phase l now multi d"
proof (cases "plan_move a rec l multi")
  case (Inl p)
  with assms show ?thesis
    by (intro decided.skipped) (auto simp: evaluate_move_def skip_is_base split: prod.splits)
next
  case (Inr p)
  obtain sig want ch gl where p: "p = (sig, want, ch, gl)" by (cases p)
  with Inr have ok: "move_ok l multi ch" by (auto dest: plan_move_ok)
  show ?thesis
  proof (cases "d_advance d")
    case True
    with assms Inr p ok show ?thesis
      by (intro decided.moved [of l multi d phase cfg rec now a gl])
        (auto simp: evaluate_move_def skip_is_base act_is_base split: sum.splits if_splits verdict.splits)
  next
    case False
    with assms Inr p ok show ?thesis
      by (intro decided.skipped)
        (auto simp: evaluate_move_def skip_is_base act_is_base move_ok_def
          split: sum.splits if_splits verdict.splits)
  qed
qed

lemma evaluate_cases:
  assumes "evaluate cfg rec phase l mark imp now multi = Inr d"
  obtains (gated) r where "d = skip False l mark r No_signal"
    | (trim) "r_action rec = TRIM" "d = evaluate_trim cfg rec phase l mark now"
    | (add) "r_action rec = ADD" "evaluate_add cfg rec phase l mark now = Inr d"
    | (reopen) "r_action rec = ADD" "flat l"
      "evaluate_move cfg True OPEN rec phase l mark imp now multi = Inr d"
    | (move) "evaluate_move cfg False (r_action rec) rec phase l mark imp now multi = Inr d"
proof -
  let ?low = "(case r_confidence rec of None \<Rightarrow> 0 | Some c \<Rightarrow> py_float c) < confidence_floor cfg"
  let ?out = "case upper_or_none (r_asset rec) of None \<Rightarrow> True | Some a \<Rightarrow> a \<notin> set (whitelist cfg)"
  show thesis
  proof (cases "?low \<or> ?out")
    case True
    with assms have "d = skip False l mark (if ?low then Low_confidence else Not_whitelisted) No_signal"
      unfolding evaluate_def Let_def by (simp split: if_split_asm)
    then show thesis by (rule gated)
  next
    case False
    then have ev: "evaluate cfg rec phase l mark imp now multi =
        (case r_action rec of TRIM \<Rightarrow> Inr (evaluate_trim cfg rec phase l mark now)
         | ADD \<Rightarrow> if flat l \<and> direction_of rec \<noteq> None
             then evaluate_move cfg True OPEN rec phase l mark imp now multi
             else evaluate_add cfg rec phase l mark now
         | action \<Rightarrow> evaluate_move cfg False action rec phase l mark imp now multi)"
      unfolding evaluate_def Let_def by simp
    show thesis
    proof (cases "r_action rec")
      case ADD
      with ev assms have "(flat l \<and> evaluate_move cfg True OPEN rec phase l mark imp now multi = Inr d)
          \<or> evaluate_add cfg rec phase l mark now = Inr d"
        by (simp split: if_split_asm)
      with ADD add reopen show thesis by blast
    qed (use ev assms trim move in simp_all)
  qed
qed

lemma evaluate_decided:
  assumes "evaluate cfg rec phase l mark imp now multi = Inr d"
  shows "decided cfg rec phase l now multi d"
  using assms
proof (cases rule: evaluate_cases)
  case (gated r)
  then show ?thesis by (intro decided.skipped) (simp_all add: skip_is_base)
qed (simp_all add: evaluate_trim_decided evaluate_add_decided evaluate_move_decided)

end
