(* ===== verification/StatemachineSpec.thy ===== *)
theory StatemachineSpec
  imports Statemachine
begin

text \<open>
  What the gates of \<open>Statemachine\<close> guarantee: stops only tighten, a decision moves legs
  exactly as it says, actions mean what their names say, and when a judgement raises.
\<close>

section \<open>The level guards only tighten\<close>

text \<open>\<open>no_looser sd a b\<close>: on side \<open>sd\<close>, a stop at \<open>a\<close> risks at most what a stop at \<open>b\<close> does.\<close>

definition no_looser :: "side \<Rightarrow> rat \<Rightarrow> rat \<Rightarrow> bool" where
  "no_looser sd a b = (if sd = SHORT then a \<le> b else b \<le> a)"

text \<open>\<open>untouched sd p m\<close>: a stop at \<open>p\<close> has not been reached by the mark \<open>m\<close>.\<close>

definition untouched :: "side \<Rightarrow> rat \<Rightarrow> rat \<Rightarrow> bool" where
  "untouched sd p m = (if sd = SHORT then m < p else p < m)"

definition stop_asked :: "signal_rec \<Rightarrow> rat \<Rightarrow> rat option" where
  "stop_asked rec entry =
     (case r_stop_price rec of Some p \<Rightarrow> Some (py_float p)
      | None \<Rightarrow> if r_stop_to_breakeven rec = Some True then Some entry else None)"

lemma no_looser_trans: "no_looser sd a b \<Longrightarrow> no_looser sd b c \<Longrightarrow> no_looser sd a c"
  by (auto simp: no_looser_def split: if_splits)

lemma no_looser_refl [simp]: "no_looser sd a a"
  by (simp add: no_looser_def)

lemma evaluate_stop_char:
  "evaluate_stop cfg rec side entry mark prev now = (Some want, r) \<longleftrightarrow>
     r = Level_ok \<and> \<not> too_old cfg rec now \<and>
     (\<exists>sd e. side = Some sd \<and> entry = Some e \<and> stop_asked rec e = Some want \<and>
        no_looser sd want e \<and>
        (\<forall>m. mark = Some m \<longrightarrow> untouched sd want m) \<and>
        (\<forall>p. prev = Some p \<longrightarrow> no_looser sd want p))"
proof (cases "\<exists>sd e. side = Some sd \<and> entry = Some e \<and> stop_asked rec e \<noteq> None \<and> \<not> too_old cfg rec now")
  case True
  then obtain sd e w where pre: "side = Some sd" "entry = Some e" "stop_asked rec e = Some w"
    "\<not> too_old cfg rec now" by auto
  then have ev: "evaluate_stop cfg rec side entry mark prev now =
      (if \<not> no_looser sd w e then (None, Stop_would_widen_risk)
       else if (case mark of None \<Rightarrow> False | Some m \<Rightarrow> \<not> untouched sd w m) then (None, Stop_already_crossed)
       else if (case prev of None \<Rightarrow> False | Some p \<Rightarrow> \<not> no_looser sd w p) then (None, Stop_not_tighter)
       else (Some w, Level_ok))"
    by (cases "r_stop_price rec"; cases mark; cases prev)
      (auto simp: evaluate_stop_def stop_asked_def no_looser_def untouched_def Let_def not_le not_less
        split: if_splits)
  show ?thesis
    unfolding ev using pre by (cases mark; cases prev) auto
next
  case False
  then have "fst (evaluate_stop cfg rec side entry mark prev now) = None"
    by (cases side; cases entry; cases "r_stop_price rec")
      (auto simp: evaluate_stop_def stop_asked_def Let_def)
  with False show ?thesis by (auto simp: prod_eq_iff)
qed

text \<open>
  C7. The stop guard, completely: a stop is sent exactly when the post is fresh, the leg
  and its entry are known, the price asked for is break-even or better, the mark has not
  crossed it, and it is no looser than the stop set before.
\<close>

theorem evaluate_stop_iff:
  "evaluate_stop cfg rec side entry mark prev now = (Some want, r) \<longleftrightarrow>
     r = Level_ok \<and> \<not> too_old cfg rec now \<and>
     (\<exists>sd e. side = Some sd \<and> entry = Some e \<and> stop_asked rec e = Some want \<and>
        no_looser sd want e \<and>
        (\<forall>m. mark = Some m \<longrightarrow> untouched sd want m) \<and>
        (\<forall>p. prev = Some p \<longrightarrow> no_looser sd want p))"
  by (rule evaluate_stop_char)

theorem evaluate_stop_iff_witness:
  "evaluate_stop default_settings
     \<lparr>r_msg_id = 1, r_posted_at = Some 1000, r_is_actionable = True, r_action = STOP,
      r_asset = Some ''BTC'', r_direction = Some ''LONG'', r_reference_price = None,
      r_confidence = Some (PyFloat 1), r_size_fraction = None, r_trigger_price = None,
      r_stop_price = Some (PyFloat 101), r_stop_to_breakeven = None,
      r_take_profit_price = None, r_add_multiple = None\<rparr>
     (Some LONG) (Some 100) (Some 105) (Some 100) 1010 = (Some 101, Level_ok)"
  by (subst evaluate_stop_iff)
    (simp add: too_old_def default_settings_def stop_asked_def no_looser_def untouched_def)

section \<open>The decision contract\<close>

text \<open>The two gates every post passes first.\<close>

definition passes_gates :: "settings \<Rightarrow> signal_rec \<Rightarrow> bool" where
  "passes_gates cfg rec \<longleftrightarrow>
     confidence_floor cfg \<le> (case r_confidence rec of None \<Rightarrow> 0 | Some c \<Rightarrow> py_float c) \<and>
     (\<exists>a. upper_or_none (r_asset rec) = Some a \<and> a \<in> set (whitelist cfg))"

lemma gated_evaluate:
  "\<not> passes_gates cfg rec \<Longrightarrow> \<exists>r. evaluate cfg rec phase l mark imp now multi = Inr (skip False l mark r No_signal)"
  by (auto simp: passes_gates_def evaluate_def Let_def not_le split: option.splits)

lemma ungated_evaluate:
  "passes_gates cfg rec \<Longrightarrow> evaluate cfg rec phase l mark imp now multi =
     (case r_action rec of TRIM \<Rightarrow> Inr (evaluate_trim cfg rec phase l mark now)
      | ADD \<Rightarrow> if flat l \<and> direction_of rec \<noteq> None
          then evaluate_move cfg True OPEN rec phase l mark imp now multi
          else evaluate_add cfg rec phase l mark now
      | action \<Rightarrow> evaluate_move cfg False action rec phase l mark imp now multi)"
  unfolding evaluate_def Let_def passes_gates_def by auto

lemma evaluate_emit_gates:
  assumes "evaluate cfg rec phase l mark imp now multi = Inr d" "d_emit d \<or> d_park d"
  shows "passes_gates cfg rec"
proof (rule ccontr)
  assume "\<not> passes_gates cfg rec"
  then obtain r where "d = skip False l mark r No_signal"
    using gated_evaluate assms(1) by (metis sum.inject(2))
  with assms(2) show False by (simp add: skip_is_base)
qed

lemma evaluate_legs:
  assumes "evaluate cfg rec phase l mark imp now multi = Inr d"
  shows "d_to_legs d = apply_changes (d_advance_legs d) l"
    and "\<not> multi \<Longrightarrow> legs_count l \<le> 1 \<Longrightarrow> legs_count (d_to_legs d) \<le> 1"
  using evaluate_decided [OF assms] by (cases; auto simp: move_ok_def)+

text \<open>
  C1. What a decision may claim. It moves legs exactly by its \<open>advance_legs\<close>; a move is
  acted on, always changes something, and on a net account never leaves two legs open; a
  trim or an add leaves the legs alone and names an open one; nothing is emitted or parked
  below the confidence floor, off the whitelist, or live on a post that is too old.
\<close>

theorem evaluate_contract:
  assumes "evaluate cfg rec phase l mark imp now multi = Inr d"
  shows "d_from_legs d = l \<and> d_to_legs d = apply_changes (d_advance_legs d) l
    \<and> (d_advance d \<longleftrightarrow> d_advance_legs d \<noteq> []) \<and> (d_advance d \<longleftrightarrow> d_to_legs d \<noteq> l)
    \<and> (d_advance d \<longrightarrow> d_emit d \<and> d_decision d = Acted \<and> \<not> d_is_trim d \<and> \<not> d_is_add d)
    \<and> (\<not> multi \<longrightarrow> legs_count l \<le> 1 \<longrightarrow> legs_count (d_to_legs d) \<le> 1)
    \<and> (d_is_trim d \<or> d_is_add d \<longrightarrow> phase = Live \<and> (\<exists>s. d_leg d = Some s \<and> is_open l s))
    \<and> (d_emit d \<or> d_park d \<longrightarrow> passes_gates cfg rec \<and> (phase = Live \<longrightarrow> \<not> too_old cfg rec now))"
proof -
  have gates: "d_emit d \<or> d_park d \<longrightarrow> passes_gates cfg rec"
    using evaluate_emit_gates assms by blast
  from evaluate_decided [OF assms] show ?thesis
    using gates by cases (auto simp: move_ok_def)
qed

definition sample_rec :: "action_type \<Rightarrow> string \<Rightarrow> signal_rec" where
  "sample_rec a dir = \<lparr>r_msg_id = 7, r_posted_at = Some 1000, r_is_actionable = True, r_action = a,
     r_asset = Some ''btc'', r_direction = Some dir, r_reference_price = Some (PyFloat 100),
     r_confidence = Some (PyFloat (9/10)), r_size_fraction = None, r_trigger_price = None,
     r_stop_price = None, r_stop_to_breakeven = None, r_take_profit_price = None,
     r_add_multiple = None\<rparr>"

lemma sample_flip:
  "evaluate default_settings (sample_rec FLIP ''short'') Live \<lparr>long = True, short = False\<rparr>
     (Some 100) None 1010 False
   = Inr ((act False \<lparr>long = True, short = False\<rparr> (Some 100) Ok Flip_to_short
        [(LONG, False), (SHORT, True)])\<lparr>d_leg := Some SHORT\<rparr>)"
  by code_simp

theorem evaluate_contract_witness:
  "let d = (act False \<lparr>long = True, short = False\<rparr> (Some 100) Ok Flip_to_short
        [(LONG, False), (SHORT, True)])\<lparr>d_leg := Some SHORT\<rparr>
   in d_to_legs d \<noteq> \<lparr>long = True, short = False\<rparr> \<and> legs_count (d_to_legs d) \<le> 1
      \<and> passes_gates default_settings (sample_rec FLIP ''short'')"
  using evaluate_contract [OF sample_flip]
  by (simp add: Let_def act_is_base count_le_Suc0_iff legs_eq_iff)

section \<open>What the actions mean\<close>

lemma move_acted:
  assumes "evaluate cfg rec phase l mark imp now multi = Inr d" "d_advance d"
  obtains a sig want ch gl where "plan_move a rec l multi = Inr (sig, want, ch, gl)"
    "d_to_legs d = apply_changes ch l"
    "a = r_action rec \<or> r_action rec = ADD \<and> a = OPEN \<and> flat l"
  using evaluate_decided [OF assms(1)] assms(2) by cases auto

lemma plan_move_entry:
  assumes "plan_move a rec l multi = Inr (sig, want, ch, gl)" "a \<noteq> CLOSE"
  obtains w where "direction_of rec = Some w" "a = OPEN \<or> a = FLIP"
    "ch = (if is_open l w then [(opposite w, False)]
           else if is_open l (opposite w) \<and> (a = FLIP \<or> \<not> multi)
             then [(opposite w, False), (w, True)] else [(w, True)])"
    "is_open l w \<longrightarrow> a = FLIP"
  using assms
  by (cases "direction_of rec")
    (auto simp: plan_move_def Let_def split: action_type.splits if_splits)

text \<open>
  C22. The position a decided OPEN, FLIP or CLOSE leads to, leg by leg. A FLIP leaves exactly
  the named side open, except that a flip onto a side already held only closes the other;
  an OPEN opens its side, and takes the other one off only on a net account; a CLOSE takes
  off the named leg and keeps the other, and with no side named it takes off everything.
\<close>

theorem evaluate_meaning:
  assumes ev: "evaluate cfg rec phase l mark imp now multi = Inr d" and adv: "d_advance d"
  shows "(r_action rec = FLIP \<longrightarrow> (\<exists>w. direction_of rec = Some w \<and>
            is_open (d_to_legs d) w \<and> \<not> is_open (d_to_legs d) (opposite w)))
    \<and> (r_action rec = OPEN \<longrightarrow> (\<exists>w. direction_of rec = Some w \<and> \<not> is_open l w \<and> is_open (d_to_legs d) w \<and>
            is_open (d_to_legs d) (opposite w) = (multi \<and> is_open l (opposite w))))
    \<and> (r_action rec = CLOSE \<longrightarrow> (case direction_of rec of
            Some w \<Rightarrow> is_open l w \<and> d_to_legs d = with_side l w False
          | None \<Rightarrow> flat (d_to_legs d)))
    \<and> (r_action rec = ADD \<longrightarrow> flat l \<and> (\<exists>w. direction_of rec = Some w \<and> d_to_legs d = with_side l w True))
    \<and> r_action rec \<notin> {TRIM, STOP, NONE}"
proof -
  from move_acted [OF ev adv] obtain a sig want ch gl
    where plan: "plan_move a rec l multi = Inr (sig, want, ch, gl)"
      and to: "d_to_legs d = apply_changes ch l"
      and a: "a = r_action rec \<or> r_action rec = ADD \<and> a = OPEN \<and> flat l" .
  show ?thesis
  proof (cases "a = CLOSE")
    case True
    with plan a have "plan_close rec l = Inr (sig, want, ch)"
      by (auto simp: plan_move_def split: sum.splits)
    with True a to show ?thesis
      by (auto simp: plan_close_def flat_iff_both sole_open_iff split: option.splits if_splits)
        (metis (full_types) side.exhaust opposite_simps(1,2))+
  next
    case False
    from plan_move_entry [OF plan False] obtain w where "direction_of rec = Some w" "a = OPEN \<or> a = FLIP"
      "ch = (if is_open l w then [(opposite w, False)]
           else if is_open l (opposite w) \<and> (a = FLIP \<or> \<not> multi)
             then [(opposite w, False), (w, True)] else [(w, True)])"
      "is_open l w \<longrightarrow> a = FLIP" .
    with a to show ?thesis by (auto simp: flat_iff)
  qed
qed

theorem evaluate_meaning_witness:
  "let d = (act False \<lparr>long = True, short = False\<rparr> (Some 100) Ok Flip_to_short
        [(LONG, False), (SHORT, True)])\<lparr>d_leg := Some SHORT\<rparr>
   in is_open (d_to_legs d) SHORT \<and> \<not> is_open (d_to_legs d) LONG"
proof -
  have "direction_of (sample_rec FLIP ''short'') = Some SHORT" by code_simp
  then show ?thesis
    using evaluate_meaning [OF sample_flip]
    by (simp add: Let_def act_is_base sample_rec_def)
qed

section \<open>When a judgement raises\<close>

text \<open>The price a post cites is usable: none, or a float that is not zero.\<close>

definition float_reference :: "signal_rec \<Rightarrow> bool" where
  "float_reference rec \<longleftrightarrow>
     (case r_reference_price rec of None \<Rightarrow> True
      | Some (PyFloat x) \<Rightarrow> x \<noteq> 0 | Some (PyDecimal x) \<Rightarrow> False)"

lemma moved_gate_float: "x \<noteq> 0 \<Longrightarrow> \<exists>v. moved_gate cfg (PyFloat x) mark gl ok = Inr v"
  by (auto simp: moved_gate_def split: option.splits)

lemma price_gate_float:
  "float_reference rec \<Longrightarrow> (\<forall>x. imp = Some x \<longrightarrow> x \<noteq> 0) \<Longrightarrow> \<exists>v. price_gate cfg rec mark imp gl = Inr v"
  using moved_gate_float
  by (auto simp: price_gate_def float_reference_def split: option.splits pynum.splits)

lemma evaluate_move_float:
  assumes "float_reference rec" "\<forall>x. imp = Some x \<longrightarrow> x \<noteq> 0"
  shows "\<exists>d. evaluate_move cfg ao a rec phase l mark imp now multi = Inr d"
proof -
  obtain v where "price_gate cfg rec mark imp gl = Inr (v gl)" for gl
    using price_gate_float [OF assms] by metis
  then show ?thesis
    by (auto simp: evaluate_move_def split: sum.splits prod.splits verdict.splits)
qed

lemma evaluate_add_float:
  assumes "float_reference rec"
  shows "\<exists>d. evaluate_add cfg rec phase l mark now = Inr d"
proof (cases "resolve_leg rec l")
  case (Inr s)
  with assms show ?thesis
    by (cases "r_reference_price rec"; cases mark)
      (auto simp: evaluate_add_def Let_def float_reference_def split: pynum.splits)
qed (simp add: evaluate_add_def)

text \<open>
  Judging never raises on a record whose cited price is absent or a non-zero float (a
  freshly extracted record carries floats), whatever the action, phase, legs and market.
\<close>

theorem evaluate_total:
  assumes "float_reference rec" and "\<forall>x. imp = Some x \<longrightarrow> x \<noteq> 0"
  shows "\<exists>d. evaluate cfg rec phase l mark imp now multi = Inr d"
proof (cases "passes_gates cfg rec")
  case True
  with evaluate_move_float [OF assms] evaluate_add_float [OF assms(1)] show ?thesis
    by (cases "r_action rec") (auto simp: ungated_evaluate)
next
  case False
  then show ?thesis using gated_evaluate by blast
qed

theorem evaluate_total_witness:
  "\<exists>d. evaluate default_settings (sample_rec OPEN ''LONG'') Live no_legs (Some 101) None 1010 True = Inr d"
  by (rule evaluate_total) (simp_all add: float_reference_def sample_rec_def)

end
