(* ===== verification/SocialDb.thy ===== *)
theory SocialDb
  imports Statemachine
begin

text \<open>
  \<open>social-listener/app/db.py\<close>: the tables the listener keeps, as fields of one state
  record, and its queries. A table with a primary key is an association list; the ledger
  of trims is a list in id order. \<open>now()\<close> is an argument. The free-text notes of the
  rows (\<open>resolution\<close>) are not modelled.
\<close>

section \<open>Tables\<close>

datatype stop_mode = Breakeven

record leg_row =
  lr_open :: bool
  lr_msg_id :: int
  lr_updated_at :: datetime
  lr_stop_price :: "rat option"
  lr_tp_price :: "rat option"
  lr_stop_mode :: "stop_mode option"

datatype trim_status = Parked | Fired | Cancelled | Expired

record trim_row =
  tr_id :: nat
  tr_msg_id :: int
  tr_asset :: asset
  tr_side :: side
  tr_size_fraction :: rat
  tr_trigger_price :: rat
  tr_created_at :: datetime
  tr_expires_at :: datetime
  tr_status :: trim_status
  tr_resolved_at :: "datetime option"

datatype exec_mode = Shadow_mode | Live_mode

record shadow_row =
  sh_phase :: phase
  sh_asset :: "asset option"
  sh_action :: action_type
  sh_from_state :: string
  sh_to_state :: string
  sh_intended_signal :: signal
  sh_mark_price :: "rat option"
  sh_decision :: decision_kind
  sh_reason :: reason
  sh_mode :: exec_mode
  sh_size_fraction :: "rat option"
  sh_close_size :: "rat option"
  sh_add_size :: "rat option"
  sh_stop_price :: "rat option"
  sh_stop_reason :: level_reason
  sh_tp_price :: "rat option"
  sh_tp_reason :: level_reason

text \<open>
  A row of \<open>strategy_positions\<close> joined with its opening order; order-listener writes
  this table, the social listener only reads it.
\<close>

record position_row =
  ps_strategy_id :: string
  ps_symbol :: string
  ps_side :: side
  ps_open :: bool
  ps_size :: rat
  ps_entry_price :: rat
  ps_opened_at :: datetime
  ps_tp_price :: "rat option"
  ps_sl_price :: "rat option"

text \<open>
  The calls the listener makes to order-listener, and the answers it can get. A reply
  carries its status code and, of the body, the flags the listener tests with
  \<open>is True\<close>: simulated, success, sl\_ok, tp\_ok.
\<close>

datatype step =
    St_open_long | St_open_short | St_close_long | St_close_short
  | St_partial_close_long | St_partial_close_short | St_add_long | St_add_short

datatype order_side = Buy | Sell

datatype webhook_signal = W_open_long | W_open_short | W_close_long | W_close_short

record payload =
  p_base_asset :: asset
  p_side :: order_side
  p_size :: rat
  p_signal :: webhook_signal
  p_intent :: "step option"
  p_target_flat :: bool

datatype request =
    Order payload
  | Adjust "rat option" "rat option" "side option" bool

text \<open>
  An answer of order-listener: the call itself raised, a reply with a JSON object (its status,
  \<open>simulated\<close>, \<open>success\<close>, \<open>sl_ok\<close> and \<open>tp_ok\<close>), or a reply with a status whose body is
  no JSON object, on which \<open>resp.json()\<close> raises.
\<close>

datatype response =
    Send_error
  | Reply nat bool bool bool bool
  | Unreadable nat

record social =
  leg_table :: "((asset \<times> side), leg_row) tbl"
  trim_table :: "trim_row list"
  shadow_table :: "(int, shadow_row) tbl"
  signal_table :: "(int, signal_rec) tbl"
  positions :: "position_row list"
  sent :: "(request \<times> response) list"

section \<open>Seen and judged posts\<close>

text \<open>\<open>SELECT max(channel_msg_id)\<close>.\<close>

definition max_channel_msg_id :: "social \<Rightarrow> int option" where
  "max_channel_msg_id s =
     (case map fst (signal_table s) of [] \<Rightarrow> None | k # ks \<Rightarrow> Some (fold max ks k))"

definition already_seen :: "social \<Rightarrow> int \<Rightarrow> bool" where
  "already_seen s k \<longleftrightarrow> map_of (signal_table s) k \<noteq> None"

definition already_shadow_evaluated :: "social \<Rightarrow> int \<Rightarrow> bool" where
  "already_shadow_evaluated s k \<longleftrightarrow> map_of (shadow_table s) k \<noteq> None"

text \<open>asyncpg returns a NUMERIC column as a \<open>Decimal\<close>.\<close>

definition as_numeric :: "pynum option \<Rightarrow> pynum option" where
  "as_numeric x = map_option (\<lambda>v. PyDecimal (py_float v)) x"

definition load_signal :: "social \<Rightarrow> int \<Rightarrow> signal_rec option" where
  "load_signal s k =
     (case map_of (signal_table s) k of None \<Rightarrow> None
      | Some rec \<Rightarrow> Some (rec\<lparr>
          r_reference_price := as_numeric (r_reference_price rec),
          r_confidence := as_numeric (r_confidence rec),
          r_size_fraction := as_numeric (r_size_fraction rec),
          r_trigger_price := as_numeric (r_trigger_price rec),
          r_stop_price := as_numeric (r_stop_price rec),
          r_take_profit_price := as_numeric (r_take_profit_price rec),
          r_add_multiple := as_numeric (r_add_multiple rec)\<rparr>))"

text \<open>\<open>ON CONFLICT DO NOTHING\<close>; the flag is "a new row was written".\<close>

definition insert_signal :: "social \<Rightarrow> signal_rec \<Rightarrow> bool \<times> social" where
  "insert_signal s rec =
     (if already_seen s (r_msg_id rec) then (False, s)
      else (True, s\<lparr>signal_table := signal_table s @ [(r_msg_id rec, rec)]\<rparr>))"

section \<open>Legs\<close>

definition get_legs :: "social \<Rightarrow> asset \<Rightarrow> legs" where
  "get_legs s a =
     from_sides (map (\<lambda>((_, sd), _). side_name sd)
       (filter (\<lambda>((b, sd), r). b = a \<and> lr_open r) (leg_table s)))"

text \<open>\<open>ORDER BY updated_at\<close>; the key is (asset, side).\<close>

definition recorded_open_legs :: "social \<Rightarrow> ((asset \<times> side) \<times> leg_row) list" where
  "recorded_open_legs s =
     sort_key (\<lambda>(_, r). lr_updated_at r) (filter (\<lambda>(_, r). lr_open r) (leg_table s))"

definition open_leg :: "datetime \<Rightarrow> social \<Rightarrow> asset \<Rightarrow> side \<Rightarrow> int \<Rightarrow> social" where
  "open_leg now s a sd msg_id =
     s\<lparr>leg_table := AList.update (a, sd)
        \<lparr>lr_open = True, lr_msg_id = msg_id, lr_updated_at = now, lr_stop_price = None,
         lr_tp_price = None, lr_stop_mode = None\<rparr> (leg_table s)\<rparr>"

definition close_leg :: "social \<Rightarrow> asset \<Rightarrow> side \<Rightarrow> int \<Rightarrow> social" where
  "close_leg s a sd msg_id = s\<lparr>leg_table := AList.delete (a, sd) (leg_table s)\<rparr>"

text \<open>Closes before opens: sorted on the flag, which is stable.\<close>

definition apply_leg_changes ::
  "datetime \<Rightarrow> social \<Rightarrow> asset \<Rightarrow> (side \<times> bool) list \<Rightarrow> int \<Rightarrow> social" where
  "apply_leg_changes now s a changes msg_id =
     fold (\<lambda>(sd, is_opn) st. if is_opn then open_leg now st a sd msg_id else close_leg st a sd msg_id)
       (sort_key snd changes) s"

section \<open>Levels\<close>

definition get_levels :: "social \<Rightarrow> asset \<Rightarrow> side \<Rightarrow> rat option \<times> rat option \<times> stop_mode option" where
  "get_levels s a sd =
     (case map_of (leg_table s) (a, sd) of None \<Rightarrow> (None, None, None)
      | Some r \<Rightarrow> (lr_stop_price r, lr_tp_price r, lr_stop_mode r))"

text \<open>An \<open>UPDATE\<close> of one leg's row: nothing happens when there is no such row.\<close>

definition update_leg :: "(leg_row \<Rightarrow> leg_row) \<Rightarrow> social \<Rightarrow> asset \<Rightarrow> side \<Rightarrow> social" where
  "update_leg f s a sd =
     (case map_of (leg_table s) (a, sd) of None \<Rightarrow> s
      | Some r \<Rightarrow> s\<lparr>leg_table := AList.update (a, sd) (f r) (leg_table s)\<rparr>)"

text \<open>Only the arguments that are present are written.\<close>

definition set_levels ::
  "datetime \<Rightarrow> social \<Rightarrow> asset \<Rightarrow> side \<Rightarrow> rat option \<Rightarrow> rat option \<Rightarrow> stop_mode option \<Rightarrow> social" where
  "set_levels now s a sd stop_price tp_price mode =
     (if stop_price = None \<and> tp_price = None \<and> mode = None then s
      else update_leg (\<lambda>r. r\<lparr>lr_stop_price := coalesce stop_price (lr_stop_price r),
             lr_tp_price := coalesce tp_price (lr_tp_price r),
             lr_stop_mode := coalesce mode (lr_stop_mode r), lr_updated_at := now\<rparr>) s a sd)"

definition clear_stop_price :: "datetime \<Rightarrow> social \<Rightarrow> asset \<Rightarrow> side \<Rightarrow> social" where
  "clear_stop_price now s a sd = update_leg (\<lambda>r. r\<lparr>lr_stop_price := None, lr_updated_at := now\<rparr>) s a sd"

definition legs_with_standing_stop :: "social \<Rightarrow> ((asset \<times> side) \<times> leg_row) list" where
  "legs_with_standing_stop s =
     filter (\<lambda>(_, r). lr_stop_mode r = Some Breakeven \<and> lr_open r) (leg_table s)"

section \<open>The audit rows\<close>

definition insert_shadow_order :: "social \<Rightarrow> int \<Rightarrow> shadow_row \<Rightarrow> social" where
  "insert_shadow_order s k row =
     (if map_of (shadow_table s) k = None
      then s\<lparr>shadow_table := shadow_table s @ [(k, row)]\<rparr> else s)"

definition resolve_shadow_order ::
  "social \<Rightarrow> int \<Rightarrow> decision_kind \<Rightarrow> reason \<Rightarrow> rat option \<Rightarrow> rat option \<Rightarrow> exec_mode \<Rightarrow> social" where
  "resolve_shadow_order s k dec rsn mark close_size mode =
     (case map_of (shadow_table s) k of None \<Rightarrow> s
      | Some row \<Rightarrow> s\<lparr>shadow_table := AList.update k
          (row\<lparr>sh_decision := dec, sh_reason := rsn, sh_mark_price := mark,
               sh_close_size := close_size, sh_mode := mode\<rparr>) (shadow_table s)\<rparr>)"

section \<open>Positions\<close>

fun is_prefix :: "string \<Rightarrow> string \<Rightarrow> bool" where
  "is_prefix [] s = True"
| "is_prefix (c # cs) [] = False"
| "is_prefix (c # cs) (d # ds) = (c = d \<and> is_prefix cs ds)"

text \<open>\<open>ORDER BY opened_at DESC LIMIT 1\<close>.\<close>

fun newest :: "position_row list \<Rightarrow> position_row option" where
  "newest [] = None"
| "newest (p # ps) =
     (case newest ps of None \<Rightarrow> Some p
      | Some q \<Rightarrow> if ps_opened_at p < ps_opened_at q then Some q else Some p)"

definition open_position :: "settings \<Rightarrow> social \<Rightarrow> asset \<Rightarrow> side option \<Rightarrow> position_row option" where
  "open_position cfg s a sd =
     newest (filter (\<lambda>p. ps_strategy_id p = execution_strategy_id cfg \<and> ps_open p \<and>
         is_prefix (py_upper a) (ps_symbol p) \<and>
         (case sd of None \<Rightarrow> True | Some d \<Rightarrow> ps_side p = d)) (positions s))"

section \<open>The ledger of trims\<close>

definition next_trim_id :: "social \<Rightarrow> nat" where
  "next_trim_id s = Suc (fold max (map tr_id (trim_table s)) 0)"

definition new_trim ::
  "settings \<Rightarrow> datetime \<Rightarrow> social \<Rightarrow> int \<Rightarrow> asset \<Rightarrow> side \<Rightarrow> rat \<Rightarrow> rat \<Rightarrow> trim_status
     \<Rightarrow> datetime option \<Rightarrow> social" where
  "new_trim cfg now s k a sd share trig status resolved =
     (if k \<in> set (map tr_msg_id (trim_table s)) then s
      else s\<lparr>trim_table := trim_table s @ [\<lparr>tr_id = next_trim_id s, tr_msg_id = k, tr_asset = a,
         tr_side = sd, tr_size_fraction = share, tr_trigger_price = trig, tr_created_at = now,
         tr_expires_at = now + pending_trim_ttl_hours cfg * 3600, tr_status = status,
         tr_resolved_at = resolved\<rparr>]\<rparr>)"

text \<open>
  \<open>trigger_price\<close> is NOT NULL in the schema (migration 066, \<open>db/init.sql\<close>), so a row
  without one is refused before the conflict clause is looked at.
\<close>

definition insert_pending_trim ::
  "settings \<Rightarrow> datetime \<Rightarrow> social \<Rightarrow> int \<Rightarrow> asset \<Rightarrow> side \<Rightarrow> rat \<Rightarrow> rat option \<Rightarrow> social result" where
  "insert_pending_trim cfg now s k a sd share trigger_price =
     (case trigger_price of None \<Rightarrow> Inl NotNullViolation
      | Some trig \<Rightarrow> Inr (new_trim cfg now s k a sd share trig Parked None))"

definition record_fired_trim ::
  "settings \<Rightarrow> datetime \<Rightarrow> social \<Rightarrow> int \<Rightarrow> asset \<Rightarrow> side \<Rightarrow> rat \<Rightarrow> rat option \<Rightarrow> social result" where
  "record_fired_trim cfg now s k a sd share trigger_price =
     (case trigger_price of None \<Rightarrow> Inl NotNullViolation
      | Some trig \<Rightarrow> Inr (new_trim cfg now s k a sd share trig Fired (Some now)))"

text \<open>Why a trim must not run; the rows are read newest first (\<open>ORDER BY id DESC\<close>).\<close>

definition trim_already_taken ::
  "settings \<Rightarrow> datetime \<Rightarrow> social \<Rightarrow> asset \<Rightarrow> side \<Rightarrow> rat option \<Rightarrow> datetime \<Rightarrow> reason option" where
  "trim_already_taken cfg now s a sd trigger_price since =
     (let rows = rev (filter (\<lambda>r. tr_asset r = a \<and> tr_side r = sd \<and>
                   (tr_status r = Parked \<or> tr_status r = Fired) \<and> since \<le> tr_created_at r)
                 (trim_table s))
      in case rows of [] \<Rightarrow> None
         | newst # _ \<Rightarrow>
           if (case trigger_price of None \<Rightarrow> False
               | Some p \<Rightarrow> \<exists>r\<in>set rows. \<bar>tr_trigger_price r - p\<bar>
                    / max \<bar>tr_trigger_price r\<bar> (1 / 10 ^ 9) < 1 / 10 ^ 4)
           then Some Trim_already_taken
           else if (now - tr_created_at newst) / 60 < min_trim_interval_minutes cfg
             then Some Trim_too_soon
           else None)"

definition pending_trims :: "social \<Rightarrow> trim_row list" where
  "pending_trims s = filter (\<lambda>r. tr_status r = Parked) (trim_table s)"

definition resolve_pending_trim :: "datetime \<Rightarrow> social \<Rightarrow> nat \<Rightarrow> trim_status \<Rightarrow> social" where
  "resolve_pending_trim now s i status =
     s\<lparr>trim_table := update_where (\<lambda>r. tr_id r = i \<and> tr_status r = Parked)
         (\<lambda>r. r\<lparr>tr_status := status, tr_resolved_at := Some now\<rparr>) (trim_table s)\<rparr>"

definition expire_pending_trims :: "datetime \<Rightarrow> social \<Rightarrow> social" where
  "expire_pending_trims now s =
     s\<lparr>trim_table := update_where (\<lambda>r. tr_status r = Parked \<and> tr_expires_at r < now)
         (\<lambda>r. r\<lparr>tr_status := Expired, tr_resolved_at := Some now\<rparr>) (trim_table s)\<rparr>"

definition cancel_pending_trims :: "datetime \<Rightarrow> social \<Rightarrow> asset \<Rightarrow> side \<Rightarrow> social" where
  "cancel_pending_trims now s a sd =
     s\<lparr>trim_table := update_where
         (\<lambda>r. tr_status r = Parked \<and> tr_asset r = a \<and> tr_side r = sd)
         (\<lambda>r. r\<lparr>tr_status := Cancelled, tr_resolved_at := Some now\<rparr>) (trim_table s)\<rparr>"

section \<open>The store of legs behind its interface\<close>

text \<open>
  What the decision loop relies on: recording a leg as open or flat changes the legs that are
  read back for that asset, in that leg only, and for no other asset.
\<close>

locale leg_store =
  fixes legs_of :: "'s \<Rightarrow> asset \<Rightarrow> legs"
    and opn :: "'s \<Rightarrow> asset \<Rightarrow> side \<Rightarrow> int \<Rightarrow> 's"
    and cls :: "'s \<Rightarrow> asset \<Rightarrow> side \<Rightarrow> int \<Rightarrow> 's"
    and invar :: "'s \<Rightarrow> bool"
  assumes opn_legs: "invar s \<Longrightarrow> legs_of (opn s a d k) b =
      (if b = a then with_side (legs_of s a) d True else legs_of s b)"
    and cls_legs: "invar s \<Longrightarrow> legs_of (cls s a d k) b =
      (if b = a then with_side (legs_of s a) d False else legs_of s b)"
    and opn_invar: "invar s \<Longrightarrow> invar (opn s a d k)"
    and cls_invar: "invar s \<Longrightarrow> invar (cls s a d k)"
begin

lemma changes_invar:
  "invar s \<Longrightarrow> invar (fold (\<lambda>(d, b) st. if b then opn st a d k else cls st a d k) ch s)"
  by (induction ch arbitrary: s) (auto simp: opn_invar cls_invar)

lemma changes_legs:
  "invar s \<Longrightarrow> legs_of (fold (\<lambda>(d, b) st. if b then opn st a d k else cls st a d k) ch s) x =
     (if x = a then apply_changes ch (legs_of s a) else legs_of s x)"
  by (induction ch arbitrary: s) (auto simp: opn_legs cls_legs opn_invar cls_invar)

end

definition legs_invar :: "social \<Rightarrow> bool" where
  "legs_invar s \<longleftrightarrow> distinct (map fst (leg_table s))"

lemma side_name_inject [simp]: "side_name a = side_name b \<longleftrightarrow> a = b"
  by (cases a; cases b) simp_all

lemma is_open_from_sides: "is_open (from_sides (map side_name xs)) sd \<longleftrightarrow> sd \<in> set xs"
proof -
  have "is_open (from_sides (map side_name xs)) sd \<longleftrightarrow> side_name sd \<in> set (map py_upper (map side_name xs))"
    by (cases sd) (simp_all add: from_sides_def is_open_def)
  also have "\<dots> \<longleftrightarrow> sd \<in> set xs" by (auto simp: image_iff)
  finally show ?thesis .
qed

lemma is_open_get_legs:
  assumes "legs_invar s"
  shows "is_open (get_legs s a) sd \<longleftrightarrow> (\<exists>r. map_of (leg_table s) (a, sd) = Some r \<and> lr_open r)"
proof -
  have "(\<lambda>((_ :: asset, d), _ :: leg_row). side_name d) = side_name \<circ> (\<lambda>((_, d), _). d)"
    by (simp add: fun_eq_iff)
  then have "get_legs s a = from_sides (map side_name
      (map (\<lambda>((_, d), _). d) (filter (\<lambda>((b, d), r). b = a \<and> lr_open r) (leg_table s))))"
    by (simp add: get_legs_def)
  then have "is_open (get_legs s a) sd \<longleftrightarrow> (\<exists>r. ((a, sd), r) \<in> set (leg_table s) \<and> lr_open r)"
    by (auto simp: is_open_from_sides simp del: map_map) force
  with assms show ?thesis by (auto simp: legs_invar_def)
qed

lemma legs_invar_open [simp]: "legs_invar s \<Longrightarrow> legs_invar (open_leg now s a sd k)"
  by (simp add: legs_invar_def open_leg_def distinct_update)

lemma legs_invar_close [simp]: "legs_invar s \<Longrightarrow> legs_invar (close_leg s a sd k)"
  by (simp add: legs_invar_def close_leg_def distinct_delete)

lemma legs_invar_update_leg [simp]: "legs_invar s \<Longrightarrow> legs_invar (update_leg f s a sd)"
  by (simp add: legs_invar_def update_leg_def distinct_update split: option.splits)

lemma get_legs_open:
  "legs_invar s \<Longrightarrow> get_legs (open_leg now s a sd k) b =
     (if b = a then with_side (get_legs s a) sd True else get_legs s b)"
  by (rule legs_eqI) (auto simp: is_open_get_legs, auto simp: open_leg_def row_simps)

lemma get_legs_close:
  "legs_invar s \<Longrightarrow> get_legs (close_leg s a sd k) b =
     (if b = a then with_side (get_legs s a) sd False else get_legs s b)"
  by (rule legs_eqI) (auto simp: is_open_get_legs, auto simp: close_leg_def row_simps)

interpretation db: leg_store get_legs "open_leg now" close_leg legs_invar
  by unfold_locales (simp_all add: get_legs_open get_legs_close)

lemma apply_changes_sort: 
  "distinct (map fst ch) \<Longrightarrow> apply_changes (sort_key snd ch) l = apply_changes ch l"
proof (rule legs_eqI)
  fix sd
  assume d: "distinct (map fst ch)"
  then have d': "distinct (map fst (sort_key snd ch))"
    by (metis distinct_map distinct_sort inj_on_cong set_sort)
  have "map_of (sort_key snd ch) sd = Some b \<longleftrightarrow> map_of ch sd = Some b" for b
    using d d' by simp
  then have "map_of (sort_key snd ch) sd = map_of ch sd"
    by (metis option.exhaust)
  then show "is_open (apply_changes (sort_key snd ch) l) sd = is_open (apply_changes ch l) sd"
    using d d' by (simp add: is_open_apply_changes)
qed

lemma get_legs_apply_leg_changes:
  assumes "legs_invar s" "distinct (map fst ch)"
  shows "get_legs (apply_leg_changes now s a ch k) b =
     (if b = a then apply_changes ch (get_legs s a) else get_legs s b)"
  using db.changes_legs [OF assms(1), of now a k "sort_key snd ch" b] apply_changes_sort [OF assms(2)]
  by (simp add: apply_leg_changes_def)

lemma legs_invar_apply_leg_changes [simp]:
  "legs_invar s \<Longrightarrow> legs_invar (apply_leg_changes now s a ch k)"
  using db.changes_invar [of s now a k "sort_key snd ch"] by (simp add: apply_leg_changes_def)

end
