(* ===== verification/Emitter.thy ===== *)
theory Emitter
  imports SocialDb
begin

text \<open>
  \<open>social-listener/app/emitter.py\<close>: a decided position change becomes one or two calls to
  order-listener's webhook; levels become one call to its adjust-stops endpoint.

  The other side of the wire is an environment: what order-listener answers, given every
  call made before, and what the calls do to the table of positions it owns. The answer to
  a call and the call itself are kept in \<open>sent\<close>, oldest first.
\<close>

section \<open>The environment of the listener\<close>

record strategy =
  st_is_deleted :: bool
  st_enabled :: bool
  st_account_id :: "string option"
  st_webhook_secret :: "string option"
  st_margin_per_trade :: "rat option"
  st_default_leverage :: "int option"
  st_max_leverage :: "int option"

record env =
  e_cfg :: settings
  e_strategy :: "strategy option"
  e_multi :: bool
  e_now :: datetime
  e_mark :: "asset \<Rightarrow> rat option"
  e_stream :: "asset \<Rightarrow> int \<Rightarrow> int \<Rightarrow> (int option \<times> rat option) list option"
  e_answer :: "(request \<times> response) list \<Rightarrow> request \<Rightarrow> response"
  e_react :: "(request \<times> response) list \<Rightarrow> position_row list \<Rightarrow> position_row list"

section \<open>From a signal to webhook steps\<close>

fun steps_of :: "signal \<Rightarrow> step list" where
  "steps_of Open_long = [St_open_long]"
| "steps_of Open_short = [St_open_short]"
| "steps_of Close_long = [St_close_long]"
| "steps_of Close_short = [St_close_short]"
| "steps_of Flip_to_long = [St_close_short, St_open_long]"
| "steps_of Flip_to_short = [St_close_long, St_open_short]"
| "steps_of Close_all = [St_close_long, St_close_short]"
| "steps_of Partial_close_long = [St_partial_close_long]"
| "steps_of Partial_close_short = [St_partial_close_short]"
| "steps_of Add_long = [St_add_long]"
| "steps_of Add_short = [St_add_short]"
| "steps_of No_signal = []"

definition is_partial :: "signal \<Rightarrow> bool" where
  "is_partial sig \<longleftrightarrow> sig = Partial_close_long \<or> sig = Partial_close_short"

definition is_add :: "signal \<Rightarrow> bool" where
  "is_add sig \<longleftrightarrow> sig = Add_long \<or> sig = Add_short"

fun step_side :: "step \<Rightarrow> order_side" where
  "step_side St_open_long = Buy"
| "step_side St_close_short = Buy"
| "step_side St_open_short = Sell"
| "step_side St_close_long = Sell"
| "step_side St_partial_close_long = Sell"
| "step_side St_partial_close_short = Buy"
| "step_side St_add_long = Buy"
| "step_side St_add_short = Sell"

fun webhook_signal_of :: "step \<Rightarrow> webhook_signal" where
  "webhook_signal_of St_partial_close_long = W_close_long"
| "webhook_signal_of St_partial_close_short = W_close_short"
| "webhook_signal_of St_add_long = W_open_long"
| "webhook_signal_of St_add_short = W_open_short"
| "webhook_signal_of St_open_long = W_open_long"
| "webhook_signal_of St_open_short = W_open_short"
| "webhook_signal_of St_close_long = W_close_long"
| "webhook_signal_of St_close_short = W_close_short"

definition step_is_partial :: "step \<Rightarrow> bool" where
  "step_is_partial st \<longleftrightarrow> st = St_partial_close_long \<or> st = St_partial_close_short"

definition step_is_add :: "step \<Rightarrow> bool" where
  "step_is_add st \<longleftrightarrow> st = St_add_long \<or> st = St_add_short"

section \<open>Sizes and payloads\<close>

text \<open>\<open>int(strategy.get("default_leverage") or 1)\<close>.\<close>

definition leverage_of :: "strategy \<Rightarrow> int" where
  "leverage_of st = (case st_default_leverage st of None \<Rightarrow> 1 | Some l \<Rightarrow> if l = 0 then 1 else l)"

definition size_for :: "strategy \<Rightarrow> rat \<Rightarrow> rat" where
  "size_for st mark = py_round (or_zero (st_margin_per_trade st) * of_int (leverage_of st) / mark) 8"

definition standard_entry_size :: "strategy \<Rightarrow> rat \<Rightarrow> rat" where
  "standard_entry_size st mark = size_for st mark"

definition payload_of :: "step \<Rightarrow> asset \<Rightarrow> rat \<Rightarrow> payload" where
  "payload_of st a qty =
     \<lparr>p_base_asset = a, p_side = step_side st, p_size = qty, p_signal = webhook_signal_of st,
      p_intent = (if step_is_partial st \<or> step_is_add st then Some st else None),
      p_target_flat = (st = St_close_long \<or> st = St_close_short)\<rparr>"

section \<open>Calls\<close>

text \<open>One call: the answer is remembered with the request, and the positions may move.\<close>

definition call :: "env \<Rightarrow> request \<Rightarrow> social \<Rightarrow> response \<times> social" where
  "call env req s =
     (let resp = e_answer env (sent s) req; log = sent s @ [(req, resp)]
      in (resp, s\<lparr>sent := log, positions := e_react env log (positions s)\<rparr>))"

definition accepted :: "response \<Rightarrow> bool" where
  "accepted resp = (case resp of Send_error \<Rightarrow> False | Reply st _ _ _ _ \<Rightarrow> st < 300 | Unreadable st \<Rightarrow> st < 300)"

definition unreadable :: "response \<Rightarrow> bool" where
  "unreadable resp = (case resp of Unreadable _ \<Rightarrow> True | _ \<Rightarrow> False)"

text \<open>
  The loop over the steps: it stops at the first step that is not accepted, and raises at an
  accepted one whose body cannot be read, the order then being out.
\<close>

fun post_steps :: "env \<Rightarrow> asset \<Rightarrow> rat \<Rightarrow> step list \<Rightarrow> social \<Rightarrow> bool result \<times> social" where
  "post_steps env a qty [] s = (Inr True, s)"
| "post_steps env a qty (st # rest) s =
     (case call env (Order (payload_of st a qty)) s of
        (resp, s') \<Rightarrow>
          if \<not> accepted resp then (Inr False, s')
          else if unreadable resp then (Inl ValueError, s')
          else post_steps env a qty rest s')"

text \<open>The quantity one decided transition sends, or nothing when the call is refused.\<close>

definition emit_size ::
  "signal \<Rightarrow> rat option \<Rightarrow> strategy \<Rightarrow> rat option \<Rightarrow> rat option \<Rightarrow> rat option" where
  "emit_size sig mark st close_size open_size =
     (let qty =
        (if is_partial sig
         then (case close_size of None \<Rightarrow> None | Some c \<Rightarrow> if c \<le> 0 then None else Some (py_round c 8))
         else if is_add sig
         then (case open_size of None \<Rightarrow> None | Some c \<Rightarrow> if c \<le> 0 then None else Some (py_round c 8))
         else (case mark of None \<Rightarrow> None | Some m \<Rightarrow> if m \<le> 0 then None else Some (size_for st m)))
      in case qty of None \<Rightarrow> None | Some z \<Rightarrow> if z \<le> 0 then None else Some z)"

definition emit ::
  "env \<Rightarrow> signal \<Rightarrow> asset \<Rightarrow> rat option \<Rightarrow> strategy \<Rightarrow> rat option \<Rightarrow> rat option \<Rightarrow> social
     \<Rightarrow> bool result \<times> social" where
  "emit env sig a mark st close_size open_size s =
     (if steps_of sig = [] then (Inr False, s)
      else case emit_size sig mark st close_size open_size of
        None \<Rightarrow> (Inr False, s)
      | Some qty \<Rightarrow> post_steps env a qty (steps_of sig) s)"

text \<open>
  One call carries both levels. It counts only when every level it names is confirmed to
  be resting; a simulated run counts as well. A body that cannot be read raises.
\<close>

definition adjust_levels ::
  "env \<Rightarrow> rat option \<Rightarrow> rat option \<Rightarrow> bool \<Rightarrow> side option \<Rightarrow> social \<Rightarrow> bool result \<times> social" where
  "adjust_levels env sl tp dry_run sd s =
     (if sl = None \<and> tp = None then (Inr False, s)
      else case call env (Adjust sl tp sd dry_run) s of
        (resp, s') \<Rightarrow>
          (case resp of
             Send_error \<Rightarrow> (Inr False, s')
           | Unreadable st \<Rightarrow> (if 300 \<le> st then Inr False else Inl ValueError, s')
           | Reply st simulated success sl_ok tp_ok \<Rightarrow>
               if 300 \<le> st then (Inr False, s')
               else if simulated then (Inr True, s')
               else (Inr (success \<and> (sl = None \<or> sl_ok) \<and> (tp = None \<or> tp_ok)), s')))"

section \<open>What a call leaves alone\<close>

text \<open>The listener's own tables; a call touches only the log and the positions.\<close>

definition same_tables :: "social \<Rightarrow> social \<Rightarrow> bool" where
  "same_tables s t \<longleftrightarrow> leg_table t = leg_table s \<and> trim_table t = trim_table s \<and>
     shadow_table t = shadow_table s \<and> signal_table t = signal_table s"

lemma same_tables_refl [simp]: "same_tables s s"
  by (simp add: same_tables_def)

lemma same_tables_trans: "same_tables s t \<Longrightarrow> same_tables t u \<Longrightarrow> same_tables s u"
  by (simp add: same_tables_def)

lemma get_legs_cong: "leg_table t = leg_table s \<Longrightarrow> get_legs t a = get_legs s a"
  by (simp add: get_legs_def)

lemma same_tables_get_legs: "same_tables s t \<Longrightarrow> get_legs t a = get_legs s a"
  by (rule get_legs_cong) (simp add: same_tables_def)

lemma call_same_tables: "call env req s = (resp, t) \<Longrightarrow> same_tables s t"
  by (auto simp: call_def Let_def same_tables_def)

lemma call_sent: "call env req s = (resp, t) \<Longrightarrow> sent t = sent s @ [(req, resp)]"
  by (auto simp: call_def Let_def)

lemma post_steps_same_tables: "post_steps env a qty sts s = (ok, t) \<Longrightarrow> same_tables s t"
  by (induction sts arbitrary: s)
    (auto split: prod.splits if_splits dest: call_same_tables intro: same_tables_trans)

lemma emit_same_tables: "emit env sig a m st c o' s = (ok, t) \<Longrightarrow> same_tables s t"
  by (auto simp: emit_def split: if_splits option.splits dest: post_steps_same_tables)

lemma adjust_same_tables: "adjust_levels env sl tp dry sd s = (ok, t) \<Longrightarrow> same_tables s t"
  by (auto simp: adjust_levels_def split: if_splits prod.splits response.splits dest: call_same_tables)

section \<open>What the accepted orders do to the legs\<close>

text \<open>
  The contract of the webhook, read off a payload: \<open>target_position = flat\<close> takes the
  leg of a close signal off whole, an open signal without an intent opens a leg, and an order
  that carries an intent (a partial close or a scale-in) changes the size of a leg only.
\<close>

definition payload_change :: "payload \<Rightarrow> (side \<times> bool) list" where
  "payload_change p =
     (if p_intent p \<noteq> None then []
      else case p_signal p of
        W_open_long \<Rightarrow> [(LONG, True)]
      | W_open_short \<Rightarrow> [(SHORT, True)]
      | W_close_long \<Rightarrow> if p_target_flat p then [(LONG, False)] else []
      | W_close_short \<Rightarrow> if p_target_flat p then [(SHORT, False)] else [])"

fun order_changes :: "asset \<Rightarrow> (request \<times> response) list \<Rightarrow> (side \<times> bool) list" where
  "order_changes a [] = []"
| "order_changes a ((Order p, resp) # calls) =
     (if accepted resp \<and> p_base_asset p = a then payload_change p else []) @ order_changes a calls"
| "order_changes a ((Adjust sl tp sd dry, resp) # calls) = order_changes a calls"

definition exchange_legs :: "asset \<Rightarrow> (request \<times> response) list \<Rightarrow> legs" where
  "exchange_legs a calls = apply_changes (order_changes a calls) no_legs"

definition step_changes :: "step \<Rightarrow> (side \<times> bool) list" where
  "step_changes st = payload_change (payload_of st [] 0)"

lemma step_changes_simps [simp]:
  "step_changes St_open_long = [(LONG, True)]"
  "step_changes St_open_short = [(SHORT, True)]"
  "step_changes St_close_long = [(LONG, False)]"
  "step_changes St_close_short = [(SHORT, False)]"
  "step_changes St_partial_close_long = []" "step_changes St_partial_close_short = []"
  "step_changes St_add_long = []" "step_changes St_add_short = []"
  by (simp_all add: step_changes_def payload_change_def payload_of_def step_is_partial_def
      step_is_add_def)

lemma payload_change_of: "payload_change (payload_of st a qty) = step_changes st"
  by (simp add: step_changes_def payload_change_def payload_of_def)

lemma order_changes_append: "order_changes a (xs @ ys) = order_changes a xs @ order_changes a ys"
proof (induction xs)
  case (Cons x xs)
  then show ?case by (cases x; cases "fst x") auto
qed simp

lemma exchange_legs_append:
  "exchange_legs a (xs @ ys) = apply_changes (order_changes a ys) (exchange_legs a xs)"
  by (simp add: exchange_legs_def order_changes_append apply_changes_append)

lemma order_changes_order:
  "order_changes b [(Order (payload_of st a qty), resp)] = (if accepted resp \<and> b = a then step_changes st else [])"
  by (auto simp: payload_change_of) (auto simp: payload_of_def)

text \<open>
  What an emission can leave half done. Two orders of one decision went out and only the first
  was taken; or the last order sent was taken and its answer could not be read.
\<close>

definition half_sent :: "asset \<Rightarrow> social \<Rightarrow> social \<Rightarrow> bool" where
  "half_sent a s t \<longleftrightarrow> (\<exists>p1 r1 p2 r2. sent t = sent s @ [(Order p1, r1), (Order p2, r2)] \<and>
     p_base_asset p1 = a \<and> p_base_asset p2 = a \<and> accepted r1 \<and> \<not> accepted r2)"

definition unread_sent :: "asset \<Rightarrow> social \<Rightarrow> social \<Rightarrow> bool" where
  "unread_sent a s t \<longleftrightarrow> (\<exists>calls p resp. sent t = sent s @ calls @ [(Order p, resp)] \<and>
     p_base_asset p = a \<and> accepted resp \<and> unreadable resp)"

lemma steps_of_length: "length (steps_of sig) \<le> 2"
  by (cases sig) simp_all

text \<open>The ways an emission can end, with what its orders did.\<close>

lemma post_steps_outcome:
  assumes "post_steps env a qty sts s = (r, t)" "length sts \<le> 2"
  shows "(r = Inr True \<and> (\<forall>b. order_changes b (sent t) =
            order_changes b (sent s) @ (if b = a then concat (map step_changes sts) else [])))
       \<or> (r = Inr False \<and> ((\<forall>b. order_changes b (sent t) = order_changes b (sent s)) \<or> half_sent a s t))
       \<or> (r = Inl ValueError \<and> unread_sent a s t)"
proof -
  have base: "p_base_asset (payload_of st a qty) = a" for st by (simp add: payload_of_def)
  from assms(2) consider "sts = []" | x where "sts = [x]" | x y where "sts = [x, y]"
    by (cases sts; cases "tl sts") auto
  then show ?thesis
  proof cases
    case 1
    with assms(1) show ?thesis by simp
  next
    case (2 x)
    obtain resp u where c: "call env (Order (payload_of x a qty)) s = (resp, u)" by force
    note su = call_sent [OF c]
    from assms(1) 2 c have "t = u"
      "r = (if \<not> accepted resp then Inr False else if unreadable resp then Inl ValueError else Inr True)"
      by (auto split: if_splits)
    with su 2 show ?thesis
      by (auto simp: order_changes_append payload_change_of base unread_sent_def)
  next
    case (3 x y)
    obtain resp u where c: "call env (Order (payload_of x a qty)) s = (resp, u)" by force
    obtain resp2 v where c2: "call env (Order (payload_of y a qty)) u = (resp2, v)" by force
    note su = call_sent [OF c] call_sent [OF c2]
    from assms(1) 3 c c2 have r: "t = (if \<not> accepted resp \<or> unreadable resp then u else v)"
      "r = (if \<not> accepted resp then Inr False else if unreadable resp then Inl ValueError
            else if \<not> accepted resp2 then Inr False else if unreadable resp2 then Inl ValueError else Inr True)"
      by (auto split: if_splits)
    have two: "sent v = sent s @ [(Order (payload_of x a qty), resp), (Order (payload_of y a qty), resp2)]"
      using su by simp
    consider "\<not> accepted resp" | "accepted resp" "unreadable resp"
      | "accepted resp" "\<not> unreadable resp" "\<not> accepted resp2"
      | "accepted resp" "\<not> unreadable resp" "accepted resp2" "unreadable resp2"
      | "accepted resp" "\<not> unreadable resp" "accepted resp2" "\<not> unreadable resp2" by blast
    then show ?thesis
    proof cases
      case 1
      with r su(1) show ?thesis by (auto simp: order_changes_append order_changes_order)
    next
      case 2
      with r su(1) base show ?thesis by (auto simp: unread_sent_def)
    next
      case 3
      with r two base show ?thesis unfolding half_sent_def by fastforce
    next
      case 4
      then have "unread_sent a s v" unfolding unread_sent_def two
        using base by (intro exI [of _ "[(Order (payload_of x a qty), resp)]"]) auto
      with 4 r show ?thesis by simp
    next
      case 5
      have "order_changes b (sent v) = order_changes b (sent s) @ (if b = a then concat (map step_changes sts) else [])" for b
        using su 5 \<open>sts = [x, y]\<close> by (simp add: order_changes_append payload_change_of base)
      with 5 r show ?thesis by simp
    qed
  qed
qed

lemma emit_outcome:
  assumes "emit env sig a mark st cs os s = (r, t)"
  shows "(r = Inr True \<and> (\<forall>b. order_changes b (sent t) =
            order_changes b (sent s) @ (if b = a then concat (map step_changes (steps_of sig)) else [])))
       \<or> (r = Inr False \<and> ((\<forall>b. order_changes b (sent t) = order_changes b (sent s)) \<or> half_sent a s t))
       \<or> (r = Inl ValueError \<and> unread_sent a s t)"
proof (cases "steps_of sig = [] \<or> emit_size sig mark st cs os = None")
  case True
  with assms show ?thesis by (auto simp: emit_def split: if_splits)
next
  case False
  with assms obtain qty where "post_steps env a qty (steps_of sig) s = (r, t)" by (auto simp: emit_def)
  from post_steps_outcome [OF this steps_of_length] show ?thesis .
qed

text \<open>An emission sends orders for its own asset, and no more than the signal has steps.\<close>

lemma post_steps_other:
  "post_steps env a qty sts s = (r, t) \<Longrightarrow> b \<noteq> a \<Longrightarrow> order_changes b (sent t) = order_changes b (sent s)"
  by (induction sts arbitrary: s)
    (auto simp: order_changes_append payload_of_def dest: call_sent split: prod.splits if_splits)

lemma post_steps_count:
  "post_steps env a qty sts s = (r, t) \<Longrightarrow> length (sent t) \<le> length (sent s) + length sts"
  by (induction sts arbitrary: s) (fastforce dest: call_sent split: prod.splits if_splits)+

lemma emit_other:
  "emit env sig a mark st cs os s = (r, t) \<Longrightarrow> b \<noteq> a \<Longrightarrow> order_changes b (sent t) = order_changes b (sent s)"
  by (auto simp: emit_def dest: post_steps_other split: if_splits option.splits)

lemma emit_one_step:
  assumes "steps_of sig = [x]" "emit env sig a mark st cs os s = (r, t)"
  shows "\<not> half_sent a s t"
proof -
  have "length (sent t) \<le> Suc (length (sent s))"
    using assms by (auto simp: emit_def simp del: post_steps.simps split: option.splits dest: post_steps_count)
  then show ?thesis by (auto simp: half_sent_def)
qed

lemma emit_no_step: "steps_of sig = [] \<Longrightarrow> emit env sig a mark st cs os s = (r, t) \<Longrightarrow> t = s"
  by (simp add: emit_def)

lemma plan_move_steps:
  assumes "plan_move a rec l multi = Inr (sig, want, ch, gl)"
  shows "concat (map step_changes (steps_of sig)) = ch \<and> \<not> is_partial sig \<and> \<not> is_add sig \<and> steps_of sig \<noteq> []"
proof (cases "a = CLOSE")
  case True
  with assms have "plan_close rec l = Inr (sig, want, ch)" by (auto simp: plan_move_def split: sum.splits)
  then obtain x where "sig = close_signal x \<and> ch = [(x, False)] \<or> sig = Close_all \<and> ch = [(LONG, False), (SHORT, False)]"
    by (auto simp: plan_close_def split: if_splits option.splits)
  then show ?thesis by (cases x) (auto simp: is_partial_def is_add_def)
next
  case False
  with assms obtain w where "sig = close_signal (opposite w) \<and> ch = [(opposite w, False)]
      \<or> sig = flip_signal w \<and> ch = [(opposite w, False), (w, True)] \<or> sig = open_signal w \<and> ch = [(w, True)]"
    by (auto simp: plan_move_def Let_def split: action_type.splits if_splits option.splits)
  then show ?thesis by (cases w) (auto simp: is_partial_def is_add_def)
qed

end
