(* ===== verification/Extractor.thy ===== *)
theory Extractor
  imports Prelude Statemachine
begin

text \<open>
  \<open>social-listener/app/telegram.py\<close>: from the messages of a channel to the base record of
  one post. A message carries its text and one kind of attachment; images are byte strings
  given by a download function, and re-reading a message is a parameter, since both are calls
  to Telegram. Text is ASCII.
\<close>

type_synonym photo = nat

datatype media =
    No_media
  | Web_pending
  | Web_page "string option" "string option" "string option" "photo option"
  | Media_photo photo

record message =
  m_id :: int
  m_date :: datetime
  m_text :: "string option"
  m_media :: media
  m_has_client :: bool

record reader_settings =
  webpage_resolve_attempts :: nat
  vision_enabled :: bool
  image_max_bytes :: nat

record base_rec =
  b_msg_id :: int
  b_posted_at :: datetime
  b_raw_text :: string
  b_preview_text :: string
  b_x_url :: "string option"
  b_image :: "nat list option"
  b_merged_ids :: "int list"

section \<open>Reading one message\<close>

definition preview_pending :: "message \<Rightarrow> bool" where
  "preview_pending m \<longleftrightarrow> m_media m = Web_pending"

text \<open>
  \<open>_resolve_preview\<close>: re-read the message until its preview has arrived, a bounded number
  of times. \<open>fetch k m\<close> is the k-th re-read; None is a failed or an empty one.
\<close>

fun resolve_preview_from :: "(nat \<Rightarrow> message \<Rightarrow> message option) \<Rightarrow> nat \<Rightarrow> nat \<Rightarrow> message \<Rightarrow> message" where
  "resolve_preview_from fetch k 0 m = m"
| "resolve_preview_from fetch k (Suc n) m =
     (if \<not> preview_pending m then m
      else if \<not> m_has_client m then m
      else case fetch k m of None \<Rightarrow> m
      | Some fresh \<Rightarrow> resolve_preview_from fetch (Suc k) n fresh)"

definition resolve_preview :: "reader_settings \<Rightarrow> (nat \<Rightarrow> message \<Rightarrow> message option) \<Rightarrow> message \<Rightarrow> message" where
  "resolve_preview cfg fetch m = resolve_preview_from fetch 0 (webpage_resolve_attempts cfg) m"

definition text_or_empty :: "string option \<Rightarrow> string" where
  "text_or_empty t = (case t of None \<Rightarrow> [] | Some x \<Rightarrow> x)"

text \<open>\<open>x or None\<close> on a string.\<close>

definition nonempty :: "string option \<Rightarrow> string option" where
  "nonempty t = (if text_or_empty t = [] then None else t)"

definition preview_text :: "message \<Rightarrow> string \<times> string option" where
  "preview_text m =
     (case m_media m of
        Web_page title description url photo \<Rightarrow>
          (py_strip (text_or_empty title @ [CHR 0x0A] @ text_or_empty description), nonempty url)
      | _ \<Rightarrow> ([], None))"

definition photo_of :: "message \<Rightarrow> photo option" where
  "photo_of m =
     (case m_media m of
        Web_page _ _ _ (Some p) \<Rightarrow> Some p
      | Media_photo p \<Rightarrow> Some p
      | _ \<Rightarrow> None)"

definition download_image ::
  "reader_settings \<Rightarrow> (photo \<Rightarrow> nat list option) \<Rightarrow> message \<Rightarrow> nat list option" where
  "download_image cfg download m =
     (if \<not> vision_enabled cfg then None
      else case photo_of m of None \<Rightarrow> None
      | Some p \<Rightarrow>
        if \<not> m_has_client m then None
        else case download p of None \<Rightarrow> None
        | Some bytes \<Rightarrow>
            if bytes = [] then None
            else if image_max_bytes cfg < length bytes then None
            else Some bytes)"

text \<open>The regular expression \<open>https?://(?:x|twitter)\.com/\S+\<close>, case-insensitive.\<close>

fun take_prefix :: "string \<Rightarrow> string \<Rightarrow> string option" where
  "take_prefix [] s = Some s"
| "take_prefix (c # cs) [] = None"
| "take_prefix (c # cs) (d # ds) = (if c = d then take_prefix cs ds else None)"

definition x_hosts :: "string list" where
  "x_hosts = [''https://x.com/'', ''https://twitter.com/'', ''http://x.com/'', ''http://twitter.com/'']"

definition x_url_at :: "string \<Rightarrow> string option" where
  "x_url_at s =
     (case filter (\<lambda>h. case take_prefix h (py_lower s) of
              Some (c # _) \<Rightarrow> \<not> is_space c | _ \<Rightarrow> False) x_hosts of
        [] \<Rightarrow> None
      | h # _ \<Rightarrow> Some (take (length h) s @ takeWhile (\<lambda>c. \<not> is_space c) (drop (length h) s)))"

fun x_url_search :: "string \<Rightarrow> string option" where
  "x_url_search [] = None"
| "x_url_search (c # cs) = (case x_url_at (c # cs) of Some u \<Rightarrow> Some u | None \<Rightarrow> x_url_search cs)"

definition to_record ::
  "reader_settings \<Rightarrow> (nat \<Rightarrow> message \<Rightarrow> message option) \<Rightarrow> (photo \<Rightarrow> nat list option) \<Rightarrow> message
     \<Rightarrow> base_rec" where
  "to_record cfg fetch download msg =
     (let m = (if preview_pending msg then resolve_preview cfg fetch msg else msg);
          raw = text_or_empty (m_text m);
          (preview, url) = preview_text m
      in \<lparr>b_msg_id = m_id m, b_posted_at = m_date m, b_raw_text = raw, b_preview_text = preview,
          b_x_url = (case url of Some u \<Rightarrow> Some u | None \<Rightarrow> x_url_search raw),
          b_image = download_image cfg download m, b_merged_ids = [m_id m]\<rparr>)"

section \<open>Merging a burst\<close>

fun join_with :: "string \<Rightarrow> string list \<Rightarrow> string" where
  "join_with sep [] = []"
| "join_with sep [w] = w"
| "join_with sep (w # ws) = w @ sep @ join_with sep ws"

text \<open>
  \<open>merge_records\<close>. The list is never empty where the program calls it; the last record of
  the sorted list gives the key, the first one the time of the post.
\<close>

definition merge_records :: "base_rec list \<Rightarrow> base_rec option" where
  "merge_records records =
     (case records of
        [] \<Rightarrow> None
      | [r] \<Rightarrow> Some r
      | _ \<Rightarrow>
        (let ordered = sort_key b_msg_id records;
             texts = map (\<lambda>r. py_strip (b_raw_text r)) (filter (\<lambda>r. py_strip (b_raw_text r) \<noteq> []) ordered);
             preview = (case filter (\<lambda>r. py_strip (b_preview_text r) \<noteq> []) ordered of
                          [] \<Rightarrow> [] | r # _ \<Rightarrow> b_preview_text r);
             url = (case filter (\<lambda>r. nonempty (b_x_url r) \<noteq> None) ordered of
                      [] \<Rightarrow> None | r # _ \<Rightarrow> b_x_url r);
             image = (case filter (\<lambda>r. case b_image r of None \<Rightarrow> False | Some b \<Rightarrow> b \<noteq> []) ordered of
                        [] \<Rightarrow> None | r # _ \<Rightarrow> b_image r)
         in Some \<lparr>b_msg_id = b_msg_id (List.last ordered), b_posted_at = b_posted_at (hd ordered),
              b_raw_text = join_with [CHR 0x0A, CHR 0x0A] texts, b_preview_text = preview,
              b_x_url = url, b_image = image, b_merged_ids = map b_msg_id ordered\<rparr>))"

section \<open>What merging guarantees\<close>

lemma merge_records_single [simp]: "merge_records [r] = Some r"
  by (simp add: merge_records_def)

lemma merge_records_many:
  assumes "2 \<le> length rs" "merge_records rs = Some m"
  shows "b_msg_id m = b_msg_id (List.last (sort_key b_msg_id rs))"
    and "b_posted_at m = b_posted_at (hd (sort_key b_msg_id rs))"
    and "b_merged_ids m = map b_msg_id (sort_key b_msg_id rs)"
  using assms by (auto simp: merge_records_def Let_def split: list.splits)

lemma last_sort_key_ge:
  fixes f :: "'a \<Rightarrow> 'b::linorder"
  assumes "x \<in> set xs"
  shows "f x \<le> f (List.last (sort_key f xs))"
proof -
  let ?ys = "sort_key f xs"
  from assms have "x \<in> set ?ys" by simp
  then have "?ys \<noteq> []" by (metis empty_iff list.set(1))
  obtain i where i: "i < length ?ys" "?ys ! i = x"
    using \<open>x \<in> set ?ys\<close> by (metis in_set_conv_nth)
  have "sorted (map f ?ys)" by simp
  then have "map f ?ys ! i \<le> map f ?ys ! (length ?ys - 1)"
    using i(1) by (intro sorted_nth_mono) auto
  with i \<open>?ys \<noteq> []\<close> show ?thesis by (simp add: last_conv_nth)
qed

text \<open>
  \<open>social-listener/app/extractor.py\<close> without the prompt: which provider, model and key is
  tried in which order, what counts as a failed call, and how the model's structured answer
  becomes the fields of a record. The model itself is a parameter: for an attempt and a
  content it fails (no verdict), or it answers with a parsed extraction or an unparsable one.
\<close>

section \<open>The structured answer\<close>

text \<open>\<open>SocialExtraction\<close>.\<close>

record social_extraction =
  x_is_actionable :: bool
  x_action_type :: action_type
  x_asset :: "string option"
  x_direction :: "side option"
  x_reference_price :: "rat option"
  x_size_fraction :: "rat option"
  x_add_multiple :: "rat option"
  x_trigger_price :: "rat option"
  x_stop_price :: "rat option"
  x_stop_to_breakeven :: "bool option"
  x_take_profit_price :: "rat option"
  x_confidence :: rat

text \<open>The bounds the schema enforces while parsing.\<close>

definition valid_extraction :: "social_extraction \<Rightarrow> bool" where
  "valid_extraction x \<longleftrightarrow>
     0 \<le> x_confidence x \<and> x_confidence x \<le> 1 \<and>
     (\<forall>f. x_size_fraction x = Some f \<longrightarrow> 0 \<le> f \<and> f \<le> 1) \<and>
     (\<forall>m. x_add_multiple x = Some m \<longrightarrow> 0 \<le> m \<and> m \<le> 3)"

definition no_extraction :: social_extraction where
  "no_extraction =
     \<lparr>x_is_actionable = False, x_action_type = NONE, x_asset = None, x_direction = None,
      x_reference_price = None, x_size_fraction = None, x_add_multiple = None,
      x_trigger_price = None, x_stop_price = None, x_stop_to_breakeven = None,
      x_take_profit_price = None, x_confidence = 0\<rparr>"

section \<open>Providers, models and keys\<close>

record llm_settings =
  extractor_provider :: string
  extractor_model :: string
  extractor_fallbacks :: string
  provider_keys :: "string \<Rightarrow> string list"
  env_api_key :: "string \<Rightarrow> string"

type_synonym attempt = "string \<times> string \<times> string"

definition key_slug :: "string \<Rightarrow> string" where
  "key_slug p =
     (if p = ''anthropic'' then ''anthropic'' else if p = ''google'' then ''gemini''
      else if p = ''openai'' then ''openai'' else if p = ''groq'' then ''groq'' else p)"

definition default_model :: "string \<Rightarrow> string" where
  "default_model p =
     (if p = ''anthropic'' then ''claude-sonnet-4-6'' else if p = ''google'' then ''gemini-3.6-flash''
      else if p = ''openai'' then ''gpt-4o'' else if p = ''groq'' then ''llama-3.3-70b-versatile''
      else [])"

definition keys_for :: "llm_settings \<Rightarrow> string \<Rightarrow> string list" where
  "keys_for cfg provider =
     (let slug = key_slug (py_lower provider); keys = provider_keys cfg slug; ev = env_api_key cfg slug
      in if ev \<noteq> [] \<and> ev \<notin> set keys then keys @ [ev] else keys)"

text \<open>\<open>entry.partition(":")\<close>, the separator dropped.\<close>

fun partition_colon :: "string \<Rightarrow> string \<times> string" where
  "partition_colon [] = ([], [])"
| "partition_colon (c # cs) =
     (if c = CHR '':'' then ([], cs) else case partition_colon cs of (a, b) \<Rightarrow> (c # a, b))"

definition chain_of :: "llm_settings \<Rightarrow> (string \<times> string) list" where
  "chain_of cfg =
     (py_lower (extractor_provider cfg), extractor_model cfg) #
     map (\<lambda>entry. case partition_colon entry of (p, m) \<Rightarrow>
            (py_lower p, if m = [] then default_model (py_lower p) else m))
       (filter (\<lambda>e. e \<noteq> []) (map py_strip (py_split CHR '','' (extractor_fallbacks cfg))))"

text \<open>The loop over the chain, with the set of pairs already taken.\<close>

fun attempts_from ::
  "llm_settings \<Rightarrow> (string \<times> string) list \<Rightarrow> (string \<times> string) list \<Rightarrow> attempt list" where
  "attempts_from cfg seen [] = []"
| "attempts_from cfg seen ((p, m) # rest) =
     (if m = [] \<or> (p, m) \<in> set seen then attempts_from cfg seen rest
      else map (\<lambda>k. (p, m, k)) (keys_for cfg p) @ attempts_from cfg ((p, m) # seen) rest)"

definition attempts_of :: "llm_settings \<Rightarrow> attempt list" where
  "attempts_of cfg = attempts_from cfg [] (chain_of cfg)"

section \<open>The call loop and the record\<close>

datatype llm_reply = Call_failed | Unparsable | Parsed social_extraction

type_synonym llm = "attempt \<Rightarrow> string \<Rightarrow> string \<Rightarrow> nat list option \<Rightarrow> llm_reply"

text \<open>
  The first attempt that answers at all decides, also when its answer cannot be parsed.
  The result names the attempt, and is None when every call failed.
\<close>

fun first_answer ::
  "llm \<Rightarrow> string \<Rightarrow> string \<Rightarrow> nat list option \<Rightarrow> attempt list
     \<Rightarrow> (attempt \<times> social_extraction) option" where
  "first_answer llm raw preview img [] = None"
| "first_answer llm raw preview img (a # rest) =
     (case llm a raw preview img of
        Call_failed \<Rightarrow> first_answer llm raw preview img rest
      | Unparsable \<Rightarrow> Some (a, no_extraction)
      | Parsed x \<Rightarrow> Some (a, x))"

definition record_of :: "social_extraction \<Rightarrow> signal_rec" where
  "record_of x =
     (let is_trim = (x_action_type x = TRIM); is_ad = (x_action_type x = ADD);
          keeps_position = (x_action_type x \<noteq> CLOSE \<and> x_action_type x \<noteq> FLIP)
      in \<lparr>r_msg_id = 0, r_posted_at = None, r_is_actionable = x_is_actionable x,
          r_action = x_action_type x, r_asset = upper_or_none (x_asset x),
          r_direction = map_option side_name (x_direction x),
          r_reference_price = map_option PyFloat (x_reference_price x),
          r_confidence = Some (PyFloat (x_confidence x)),
          r_size_fraction = (if is_trim then map_option PyFloat (x_size_fraction x) else None),
          r_trigger_price = (if is_trim then map_option PyFloat (x_trigger_price x) else None),
          r_stop_price = (if keeps_position then map_option PyFloat (x_stop_price x) else None),
          r_stop_to_breakeven =
            (if keeps_position then Some (x_stop_to_breakeven x = Some True) else None),
          r_take_profit_price =
            (if keeps_position then map_option PyFloat (x_take_profit_price x) else None),
          r_add_multiple = (if is_ad then map_option PyFloat (x_add_multiple x) else None)\<rparr>)"

text \<open>\<open>extract\<close>: the flag is "failed"; the message id and time come from the base record.\<close>

definition extract_post ::
  "llm_settings \<Rightarrow> llm \<Rightarrow> string \<Rightarrow> string \<Rightarrow> nat list option \<Rightarrow> bool \<times> signal_rec" where
  "extract_post cfg llm raw preview img =
     (case first_answer llm raw preview img (attempts_of cfg) of
        None \<Rightarrow> (True, record_of no_extraction)
      | Some (a, x) \<Rightarrow> (False, record_of x))"

section \<open>What an extraction guarantees\<close>

lemma first_answer_None:
  "first_answer llm raw preview img atts = None \<longleftrightarrow> (\<forall>a\<in>set atts. llm a raw preview img = Call_failed)"
  by (induction atts) (auto split: llm_reply.splits)

lemma first_answer_SomeD:
  "first_answer llm raw preview img atts = Some (a, x) \<Longrightarrow>
     \<exists>before after. atts = before @ a # after \<and>
       (\<forall>b\<in>set before. llm b raw preview img = Call_failed) \<and>
       (llm a raw preview img = Parsed x \<or> llm a raw preview img = Unparsable \<and> x = no_extraction)"
proof (induction atts)
  case (Cons b atts)
  show ?case
  proof (cases "llm b raw preview img = Call_failed")
    case True
    with Cons obtain before after where "atts = before @ a # after"
      "\<forall>b\<in>set before. llm b raw preview img = Call_failed"
      "llm a raw preview img = Parsed x \<or> llm a raw preview img = Unparsable \<and> x = no_extraction"
      by auto
    with True show ?thesis
      by (intro exI [of _ "b # before"] exI [of _ after]) auto
  next
    case False
    with Cons.prems have "a = b \<and>
        (llm b raw preview img = Parsed x \<or> llm b raw preview img = Unparsable \<and> x = no_extraction)"
      by (cases "llm b raw preview img") auto
    then show ?thesis
      by (intro exI [of _ "[]"] exI [of _ atts]) auto
  qed
qed simp

lemma attempts_from_seen: "(p, m, k) \<in> set (attempts_from cfg seen ch) \<Longrightarrow> (p, m) \<notin> set seen \<and> m \<noteq> []"
  by (induction cfg seen ch rule: attempts_from.induct) (auto split: if_splits)

lemma attempts_from_distinct:
  assumes "\<And>p. distinct (keys_for cfg p)"
  shows "distinct (attempts_from cfg seen ch)"
proof (induction ch arbitrary: seen)
  case (Cons c ch)
  obtain p m where c: "c = (p, m)" by force
  have "distinct (map (\<lambda>k. (p, m, k)) (keys_for cfg p))"
    using assms by (simp add: distinct_map inj_on_def)
  then show ?case
    using Cons.IH [of seen] Cons.IH [of "(p, m) # seen"] attempts_from_seen [of p m _ cfg "(p, m) # seen" ch]
    by (auto simp: c)
qed simp

end
