(* ===== verification/SocialMain.thy ===== *)
theory SocialMain
  imports Emitter Extractor
begin

text \<open>
  \<open>social-listener/app/main.py\<close> and \<open>marketdata.py\<close>: how a decision is carried out.
  Every operation takes the environment and the state and returns the new state; an
  exception is the value \<open>Some e\<close> beside the state reached when it was raised, since the
  calls made before it are not undone.
\<close>

section \<open>Market data\<close>

text \<open>
  \<open>get_close_at\<close>: the entries of the candle stream around the time asked for, each with
  the fields "t" and "c" it could parse; the latest bar not after the time, unless it is
  too old.
\<close>

fun best_bar :: "int \<Rightarrow> (int \<times> rat) option \<Rightarrow> (int option \<times> rat option) list \<Rightarrow> (int \<times> rat) option" where
  "best_bar ts best [] = best"
| "best_bar ts best ((Some t, Some c) # rest) =
     best_bar ts (if t \<le> ts \<and> (case best of None \<Rightarrow> True | Some (bt, _) \<Rightarrow> bt < t)
                  then Some (t, c) else best) rest"
| "best_bar ts best ((_, _) # rest) = best_bar ts best rest"

definition get_close_at :: "env \<Rightarrow> asset \<Rightarrow> int \<Rightarrow> rat option" where
  "get_close_at env a ts_ms =
     (let lo = ts_ms - implied_ref_lookback_ms (e_cfg env); hi = ts_ms + 180000
      in case e_stream env a (max lo 0) hi of None \<Rightarrow> None
      | Some entries \<Rightarrow>
        (case best_bar ts_ms None entries of None \<Rightarrow> None
         | Some (best_t, best_c) \<Rightarrow>
             if implied_ref_max_gap_ms (e_cfg env) < ts_ms - best_t then None else Some best_c))"

section \<open>Trims and adds\<close>

definition fire_trim ::
  "env \<Rightarrow> asset \<Rightarrow> side \<Rightarrow> rat \<Rightarrow> rat option \<Rightarrow> social \<Rightarrow> (bool \<times> rat option) result \<times> social" where
  "fire_trim env a sd fraction mark s =
     (case e_strategy env of None \<Rightarrow> (Inr (False, None), s)
      | Some st \<Rightarrow>
        case open_position (e_cfg env) s a (Some sd) of None \<Rightarrow> (Inr (False, None), s)
        | Some pos \<Rightarrow>
          (let held = ps_size pos;
               dust = (case mark of None \<Rightarrow> False
                       | Some m \<Rightarrow> 0 < m \<and>
                           held < min_trim_position_fraction (e_cfg env) * standard_entry_size st m);
               close_size = py_round (held * fraction) 8
           in if dust then (Inr (False, None), s)
              else if close_size \<le> 0 then (Inr (False, None), s)
              else case emit env (trim_signal sd) a mark st (Some close_size) None s of
                (Inl e, s') \<Rightarrow> (Inl e, s')
              | (Inr ok, s') \<Rightarrow> (Inr (ok, if ok then Some close_size else None), s')))"

definition fire_add ::
  "env \<Rightarrow> asset \<Rightarrow> side \<Rightarrow> rat \<Rightarrow> rat option \<Rightarrow> social \<Rightarrow> (bool \<times> rat option) result \<times> social" where
  "fire_add env a sd multiple mark s =
     (case e_strategy env of None \<Rightarrow> (Inr (False, None), s)
      | Some st \<Rightarrow>
        case mark of None \<Rightarrow> (Inr (False, None), s)
        | Some m \<Rightarrow>
          if m \<le> 0 then (Inr (False, None), s)
          else (let unit = standard_entry_size st m
            in if unit \<le> 0 then (Inr (False, None), s)
            else case open_position (e_cfg env) s a (Some sd) of None \<Rightarrow> (Inr (False, None), s)
            | Some pos \<Rightarrow>
              (let held = ps_size pos;
                   ceiling = max_position_multiple (e_cfg env) * unit;
                   room = ceiling - held;
                   qty = py_round (min (multiple * unit) room) 8
               in if room \<le> 0 then (Inr (False, None), s)
                  else if qty \<le> 0 then (Inr (False, None), s)
                  else case emit env (add_signal sd) a mark st None (Some qty) s of
                    (Inl e, s') \<Rightarrow> (Inl e, s')
                  | (Inr ok, s') \<Rightarrow> (Inr (ok, if ok then Some qty else None),
                       if ok then clear_stop_price (e_now env) s' a sd else s'))))"

section \<open>Levels\<close>

record levels =
  lv_stop_price :: "rat option"
  lv_stop_reason :: level_reason
  lv_tp_price :: "rat option"
  lv_tp_reason :: level_reason

definition no_levels :: levels where
  "no_levels = \<lparr>lv_stop_price = None, lv_stop_reason = No_stop_instruction,
                lv_tp_price = None, lv_tp_reason = No_tp_instruction\<rparr>"

text \<open>Python's truth value of an optional number: absent and zero are false.\<close>

definition truthy :: "rat option \<Rightarrow> bool" where
  "truthy x \<longleftrightarrow> x \<noteq> None \<and> x \<noteq> Some 0"

definition apply_levels ::
  "env \<Rightarrow> signal_rec \<Rightarrow> asset \<Rightarrow> side option \<Rightarrow> rat option \<Rightarrow> social \<Rightarrow> levels result \<times> social" where
  "apply_levels env rec a side mark s =
     (let cfg = e_cfg env; now = e_now env in
      case e_strategy env of
        None \<Rightarrow>
          (Inr \<lparr>lv_stop_price = None,
            lv_stop_reason = snd (evaluate_stop cfg rec side None mark None now),
            lv_tp_price = None,
            lv_tp_reason = snd (evaluate_take_profit cfg rec side None mark None now)\<rparr>, s)
      | Some st \<Rightarrow>
        case side of
          None \<Rightarrow> (Inr \<lparr>lv_stop_price = None, lv_stop_reason = No_position_for_stop,
                     lv_tp_price = None, lv_tp_reason = No_position_for_tp\<rparr>, s)
        | Some sd \<Rightarrow>
          (let pos = open_position cfg s a (Some sd);
               entry = map_option ps_entry_price pos;
               (held_sl, held_tp, held_mode) = get_levels s a sd;
               cur_sl = coalesce held_sl (case pos of None \<Rightarrow> None | Some p \<Rightarrow> ps_sl_price p);
               cur_tp = coalesce held_tp (case pos of None \<Rightarrow> None | Some p \<Rightarrow> ps_tp_price p);
               (want_sl, sr) = evaluate_stop cfg rec side entry mark held_sl now;
               (want_tp, tr) = evaluate_take_profit cfg rec side entry mark cur_tp now
           in if want_sl = None \<and> want_tp = None
              then (Inr \<lparr>lv_stop_price = None, lv_stop_reason = sr,
                     lv_tp_price = None, lv_tp_reason = tr\<rparr>, s)
              else
                (let send_sl = coalesce want_sl cur_sl; send_tp = coalesce want_tp cur_tp
                 in case adjust_levels env send_sl send_tp False (Some sd) s of
                   (Inl e, s') \<Rightarrow> (Inl e, s')
                 | (Inr ok, s') \<Rightarrow>
                     if \<not> ok
                     then (Inr \<lparr>lv_stop_price = None,
                            lv_stop_reason = (if truthy want_sl then Stop_send_failed else sr),
                            lv_tp_price = None,
                            lv_tp_reason = (if truthy want_tp then Tp_send_failed else tr)\<rparr>, s')
                     else
                       (Inr \<lparr>lv_stop_price = want_sl,
                         lv_stop_reason = (if want_sl = None then sr else Level_ok),
                         lv_tp_price = want_tp,
                         lv_tp_reason = (if want_tp = None then tr else Level_ok)\<rparr>,
                        set_levels now s' a sd send_sl send_tp
                          (if want_sl \<noteq> None \<and> r_stop_to_breakeven rec = Some True
                              \<and> r_stop_price rec = None then Some Breakeven else None)))))"

section \<open>Carrying out a decision\<close>

text \<open>What a post's decision becomes when a trim turns out to be a repost, or when its
  orders did not go through.\<close>

definition refuse_decision :: "reason \<Rightarrow> legs \<Rightarrow> decision \<Rightarrow> decision" where
  "refuse_decision rsn l d =
     d\<lparr>d_decision := Skipped, d_reason := rsn, d_emit := False, d_park := False,
       d_advance := False, d_advance_legs := [], d_to_legs := l, d_to_state := label l\<rparr>"

definition dedupe_trim ::
  "env \<Rightarrow> phase \<Rightarrow> asset option \<Rightarrow> legs \<Rightarrow> decision \<Rightarrow> social \<Rightarrow> decision" where
  "dedupe_trim env phase a l d s =
     (case a of None \<Rightarrow> d
      | Some x \<Rightarrow>
        if d_is_trim d \<and> phase = Live \<and> e_strategy env \<noteq> None
        then (case (open_position (e_cfg env) s x (d_leg d), d_leg d) of
                (Some pos, Some sd) \<Rightarrow>
                  (case trim_already_taken (e_cfg env) (e_now env) s x sd (d_trigger_price d)
                          (ps_opened_at pos) of
                     None \<Rightarrow> d | Some dup \<Rightarrow> refuse_decision dup l d)
              | _ \<Rightarrow> d)
        else d)"

text \<open>
  The call of one decision: (ok, close size, add size). \<open>float(None)\<close> raises, and so does an
  accepted order whose answer cannot be read.
\<close>

definition emit_decided ::
  "env \<Rightarrow> strategy \<Rightarrow> asset \<Rightarrow> rat option \<Rightarrow> decision \<Rightarrow> social
     \<Rightarrow> (bool \<times> rat option \<times> rat option) result \<times> social" where
  "emit_decided env st a mark d s =
     (if d_is_trim d then
        (case (d_leg d, d_size_fraction d) of
           (Some sd, Some share) \<Rightarrow>
             (case fire_trim env a sd share mark s of
                (Inl e, s') \<Rightarrow> (Inl e, s')
              | (Inr (ok, q), s') \<Rightarrow> (Inr (ok, q, None), s'))
         | _ \<Rightarrow> (Inl TypeError, s))
      else if d_is_add d then
        (case (d_leg d, d_add_multiple d) of
           (Some sd, Some mult) \<Rightarrow>
             (case fire_add env a sd mult mark s of
                (Inl e, s') \<Rightarrow> (Inl e, s')
              | (Inr (ok, q), s') \<Rightarrow> (Inr (ok, None, q), s'))
         | _ \<Rightarrow> (Inl TypeError, s))
      else (case emit env (d_intended_signal d) a mark st None None s of
              (Inl e, s') \<Rightarrow> (Inl e, s')
            | (Inr ok, s') \<Rightarrow> (Inr (ok, None, None), s')))"

text \<open>
  The result of the emission: the decision as it stands afterwards, the mode, and the sizes.
  A trim that was taken is entered in the ledger, which refuses one without a level.
\<close>

type_synonym emission = "decision \<times> exec_mode \<times> rat option \<times> rat option"

definition emission ::
  "env \<Rightarrow> phase \<Rightarrow> signal_rec \<Rightarrow> asset option \<Rightarrow> legs \<Rightarrow> rat option \<Rightarrow> decision \<Rightarrow> social
     \<Rightarrow> emission result \<times> social" where
  "emission env phase rec asset l mark d s =
     (case (asset, e_strategy env) of
        (Some a, Some st) \<Rightarrow>
          if d_emit d \<and> phase = Live
          then (case emit_decided env st a mark d s of
              (Inl e, s') \<Rightarrow> (Inl e, s')
            | (Inr (ok, close_size, add_size), s') \<Rightarrow>
                if \<not> ok
                then (Inr (refuse_decision Emit_failed l d, Shadow_mode, None, None), s')
                else if d_is_trim d
                then (case (d_leg d, d_size_fraction d) of
                    (Some sd, Some share) \<Rightarrow>
                      (case record_fired_trim (e_cfg env) (e_now env) s' (r_msg_id rec) a sd share
                              (d_trigger_price d) of
                         Inl e \<Rightarrow> (Inl e, s')
                       | Inr s'' \<Rightarrow> (Inr (d, Live_mode, close_size, add_size), s''))
                  | _ \<Rightarrow> (Inl NotNullViolation, s'))
                else (Inr (d, Live_mode, close_size, add_size), s'))
          else (Inr (d, Shadow_mode, None, None), s)
      | _ \<Rightarrow> (Inr (d, Shadow_mode, None, None), s))"

definition shadow_of ::
  "phase \<Rightarrow> signal_rec \<Rightarrow> asset option \<Rightarrow> legs \<Rightarrow> emission \<Rightarrow> levels \<Rightarrow> shadow_row" where
  "shadow_of phase rec asset l em lv =
     (case em of (d, mode, close_size, add_size) \<Rightarrow>
        \<lparr>sh_phase = phase, sh_asset = asset, sh_action = r_action rec, sh_from_state = label l,
         sh_to_state = d_to_state d, sh_intended_signal = d_intended_signal d,
         sh_mark_price = d_mark_price d, sh_decision = d_decision d, sh_reason = d_reason d,
         sh_mode = mode, sh_size_fraction = d_size_fraction d, sh_close_size = close_size,
         sh_add_size = add_size, sh_stop_price = lv_stop_price lv, sh_stop_reason = lv_stop_reason lv,
         sh_tp_price = lv_tp_price lv, sh_tp_reason = lv_tp_reason lv\<rparr>)"

text \<open>Parking a trim whose level the market has not reached.\<close>

definition park_trim ::
  "env \<Rightarrow> phase \<Rightarrow> signal_rec \<Rightarrow> asset option \<Rightarrow> decision \<Rightarrow> social \<Rightarrow> social result" where
  "park_trim env phase rec asset d s =
     (case asset of None \<Rightarrow> Inr s
      | Some a \<Rightarrow>
        if d_park d \<and> phase = Live
        then (case (d_leg d, d_size_fraction d) of
                (Some sd, Some share) \<Rightarrow>
                  insert_pending_trim (e_cfg env) (e_now env) s (r_msg_id rec) a sd share (d_trigger_price d)
              | _ \<Rightarrow> Inl NotNullViolation)
        else Inr s)"

text \<open>Recording the new legs; a leg that closed takes its parked trims with it.\<close>

definition advance_state :: "env \<Rightarrow> signal_rec \<Rightarrow> asset option \<Rightarrow> decision \<Rightarrow> social \<Rightarrow> social" where
  "advance_state env rec asset d s =
     (case asset of None \<Rightarrow> s
      | Some a \<Rightarrow>
        if d_advance d
        then fold (\<lambda>(sd, is_opn) t. if is_opn then t else cancel_pending_trims (e_now env) t a sd)
               (d_advance_legs d)
               (apply_leg_changes (e_now env) s a (d_advance_legs d) (r_msg_id rec))
        else s)"

text \<open>The leg the levels of a post belong to, as far as it names one.\<close>

definition levels_side :: "signal_rec \<Rightarrow> legs \<Rightarrow> side option" where
  "levels_side rec l = (case resolve_leg rec l of Inl _ \<Rightarrow> None | Inr sd \<Rightarrow> Some sd)"

text \<open>Levels go first, and only while the post leaves us on the side we are already on.\<close>

definition levels_first ::
  "env \<Rightarrow> phase \<Rightarrow> signal_rec \<Rightarrow> asset option \<Rightarrow> legs \<Rightarrow> rat option \<Rightarrow> decision \<Rightarrow> social
     \<Rightarrow> levels result \<times> social" where
  "levels_first env phase rec asset l mark d s =
     (case asset of None \<Rightarrow> (Inr no_levels, s)
      | Some a \<Rightarrow>
          if phase = Live \<and> d_advance_legs d = [] \<and> \<not> flat l
          then apply_levels env rec a (levels_side rec l) mark s
          else (Inr no_levels, s))"

definition carry_out ::
  "env \<Rightarrow> phase \<Rightarrow> signal_rec \<Rightarrow> asset option \<Rightarrow> legs \<Rightarrow> rat option \<Rightarrow> decision \<Rightarrow> social
     \<Rightarrow> py_error option \<times> social" where
  "carry_out env phase rec asset l mark d0 s =
     (let d1 = dedupe_trim env phase asset l d0 s
      in case levels_first env phase rec asset l mark d1 s of
           (Inl e, s1) \<Rightarrow> (Some e, s1)
         | (Inr lv, s1) \<Rightarrow>
        (case emission env phase rec asset l mark d1 s1 of
           (Inl e, s2) \<Rightarrow> (Some e, s2)
         | (Inr em, s2) \<Rightarrow>
             (let s3 = insert_shadow_order s2 (r_msg_id rec) (shadow_of phase rec asset l em lv)
              in case park_trim env phase rec asset (fst em) s3 of
                   Inl e \<Rightarrow> (Some e, s3)
                 | Inr s4 \<Rightarrow> (None, advance_state env rec asset (fst em) s4))))"

section \<open>Judging one post\<close>

definition carries_levels :: "signal_rec \<Rightarrow> bool" where
  "carries_levels rec \<longleftrightarrow> r_stop_price rec \<noteq> None \<or> r_stop_to_breakeven rec = Some True
     \<or> r_take_profit_price rec \<noteq> None"

text \<open>A post that changes no position but carries the numbers of a trade we hold.\<close>

definition levels_only ::
  "env \<Rightarrow> phase \<Rightarrow> signal_rec \<Rightarrow> asset \<Rightarrow> legs \<Rightarrow> social \<Rightarrow> py_error option \<times> social" where
  "levels_only env phase rec a l s =
     (let mark = e_mark env a
      in case apply_levels env rec a (levels_side rec l) mark s of
        (Inl e, s1) \<Rightarrow> (Some e, s1)
      | (Inr lv, s1) \<Rightarrow>
          (None, insert_shadow_order s1 (r_msg_id rec)
           \<lparr>sh_phase = phase, sh_asset = Some a, sh_action = r_action rec, sh_from_state = label l,
            sh_to_state = label l, sh_intended_signal = No_signal, sh_mark_price = mark,
            sh_decision = Skipped, sh_reason = Levels_only, sh_mode = Shadow_mode,
            sh_size_fraction = None, sh_close_size = None, sh_add_size = None,
            sh_stop_price = lv_stop_price lv, sh_stop_reason = lv_stop_reason lv,
            sh_tp_price = lv_tp_price lv, sh_tp_reason = lv_tp_reason lv\<rparr>))"

text \<open>The market price when the post was made, for a live post that cites none.\<close>

definition implied_ref :: "env \<Rightarrow> phase \<Rightarrow> asset option \<Rightarrow> signal_rec \<Rightarrow> rat option" where
  "implied_ref env phase asset rec =
     (case (asset, r_posted_at rec) of
        (Some a, Some posted_at) \<Rightarrow>
          if phase = Live \<and> r_reference_price rec = None
          then get_close_at env a (py_int (posted_at * 1000)) else None
      | _ \<Rightarrow> None)"

definition live_mark :: "env \<Rightarrow> phase \<Rightarrow> asset option \<Rightarrow> rat option" where
  "live_mark env phase asset =
     (case asset of None \<Rightarrow> None | Some a \<Rightarrow> if phase = Live then e_mark env a else None)"

definition asset_legs :: "social \<Rightarrow> asset option \<Rightarrow> legs" where
  "asset_legs s asset = (case asset of None \<Rightarrow> no_legs | Some a \<Rightarrow> get_legs s a)"

definition judge :: "env \<Rightarrow> phase \<Rightarrow> signal_rec \<Rightarrow> social \<Rightarrow> py_error option \<times> social" where
  "judge env phase rec s =
     (let asset = upper_or_none (r_asset rec); l = asset_legs s asset
      in if \<not> r_is_actionable rec
         then (case asset of None \<Rightarrow> (None, s)
               | Some a \<Rightarrow>
                   if carries_levels rec \<and> phase = Live \<and> \<not> flat l
                   then levels_only env phase rec a l s else (None, s))
         else
           (let mark = live_mark env phase asset
            in case evaluate (e_cfg env) rec phase l mark (implied_ref env phase asset rec)
                      (e_now env) (e_multi env) of
                 Inl e \<Rightarrow> (Some e, s)
               | Inr d \<Rightarrow> carry_out env phase rec asset l mark d s))"

text \<open>What a handler reads a post with: Telegram and the language model.\<close>

record reader =
  rd_settings :: reader_settings
  rd_fetch :: "nat \<Rightarrow> message \<Rightarrow> message option"
  rd_download :: "photo \<Rightarrow> nat list option"
  rd_llm_settings :: llm_settings
  rd_llm :: llm

definition handle_locked ::
  "env \<Rightarrow> reader \<Rightarrow> message list \<Rightarrow> phase \<Rightarrow> int \<Rightarrow> social \<Rightarrow> py_error option \<times> social" where
  "handle_locked env rd msgs phase key_id s =
     (if already_shadow_evaluated s key_id then (None, s)
      else if already_seen s key_id
      then (case load_signal s key_id of None \<Rightarrow> (None, s) | Some rec \<Rightarrow> judge env phase rec s)
      else case merge_records (map (to_record (rd_settings rd) (rd_fetch rd) (rd_download rd)) msgs) of
        None \<Rightarrow> (None, s)
      | Some post \<Rightarrow>
        (case extract_post (rd_llm_settings rd) (rd_llm rd) (b_raw_text post) (b_preview_text post)
                (b_image post) of
           (failed, ext) \<Rightarrow>
             if failed then (None, s)
             else (let rec = ext\<lparr>r_msg_id := b_msg_id post, r_posted_at := Some (b_posted_at post)\<rparr>
                   in judge env phase rec (snd (insert_signal s rec)))))"

text \<open>\<open>handle\<close> for a caller that owns the post; the lock itself is in \<open>PostLock\<close>.\<close>

definition handle :: "env \<Rightarrow> reader \<Rightarrow> message list \<Rightarrow> phase \<Rightarrow> social \<Rightarrow> py_error option \<times> social" where
  "handle env rd msgs phase s =
     (case map m_id msgs of [] \<Rightarrow> (None, s)
      | i # is \<Rightarrow> handle_locked env rd msgs phase (fold max is i) s)"

section \<open>The ways a judgement can go\<close>

lemma carry_out_cases:
  assumes "carry_out env phase rec asset l mark d0 s = (e, t)"
  obtains (unlevelled) d1 err where "d1 = dedupe_trim env phase asset l d0 s"
      "levels_first env phase rec asset l mark d1 s = (Inl err, t)" "e = Some err"
    | (raised) d1 lv s1 err where "d1 = dedupe_trim env phase asset l d0 s"
      "levels_first env phase rec asset l mark d1 s = (Inr lv, s1)"
      "emission env phase rec asset l mark d1 s1 = (Inl err, t)" "e = Some err"
    | (unparked) d1 lv s1 em s2 err where "d1 = dedupe_trim env phase asset l d0 s"
      "levels_first env phase rec asset l mark d1 s = (Inr lv, s1)"
      "emission env phase rec asset l mark d1 s1 = (Inr em, s2)"
      "t = insert_shadow_order s2 (r_msg_id rec) (shadow_of phase rec asset l em lv)"
      "park_trim env phase rec asset (fst em) t = Inl err" "e = Some err"
    | (finished) d1 lv s1 em s2 s4 where "d1 = dedupe_trim env phase asset l d0 s"
      "levels_first env phase rec asset l mark d1 s = (Inr lv, s1)"
      "emission env phase rec asset l mark d1 s1 = (Inr em, s2)"
      "park_trim env phase rec asset (fst em)
         (insert_shadow_order s2 (r_msg_id rec) (shadow_of phase rec asset l em lv)) = Inr s4"
      "t = advance_state env rec asset (fst em) s4" "e = None"
proof -
  define d1 where "d1 = dedupe_trim env phase asset l d0 s"
  obtain rl s1 where lv: "levels_first env phase rec asset l mark d1 s = (rl, s1)" by force
  obtain r s2 where em: "emission env phase rec asset l mark d1 s1 = (r, s2)" by force
  note co = assms [unfolded carry_out_def, folded d1_def, unfolded Let_def lv prod.case em]
  show thesis
  proof (cases rl)
    case (Inl err)
    with co lv unlevelled [OF d1_def] show thesis by auto
  next
    case rl: (Inr lv')
    note lv' = lv [unfolded rl]
    show thesis
    proof (cases r)
      case (Inl err)
      with co em rl raised [OF d1_def lv'] show thesis by auto
    next
      case (Inr x)
      show thesis
      proof (cases "park_trim env phase rec asset (fst x)
          (insert_shadow_order s2 (r_msg_id rec) (shadow_of phase rec asset l x lv'))")
        case (Inl err)
        with co em rl \<open>r = Inr x\<close> unparked [OF d1_def lv'] show thesis by auto
      next
        case (Inr s4)
        with co em rl \<open>r = Inr x\<close> finished [OF d1_def lv'] show thesis by auto
      qed
    qed
  qed
qed

lemma judge_cases:
  assumes "judge env phase rec s = (e, t)"
  obtains (nothing) "e = None" "t = s"
    | (levels) a where "upper_or_none (r_asset rec) = Some a" "phase = Live"
      "levels_only env phase rec a (get_legs s a) s = (e, t)" "\<not> r_is_actionable rec"
    | (raised) err where "e = Some err" "t = s"
    | (decided) d asset l mark where "asset = upper_or_none (r_asset rec)" "l = asset_legs s asset"
      "mark = live_mark env phase asset" "r_is_actionable rec"
      "evaluate (e_cfg env) rec phase l mark (implied_ref env phase asset rec) (e_now env) (e_multi env) = Inr d"
      "carry_out env phase rec asset l mark d s = (e, t)"
proof -
  define asset where "asset = upper_or_none (r_asset rec)"
  define l where "l = asset_legs s asset"
  define mark where "mark = live_mark env phase asset"
  note jd = assms [unfolded judge_def, folded asset_def, unfolded Let_def, folded l_def, folded mark_def]
  show thesis
  proof (cases "r_is_actionable rec")
    case False
    show thesis
    proof (cases asset)
      case None
      show thesis by (rule nothing) (use jd False None in auto)
    next
      case (Some a)
      then have lg: "l = get_legs s a" by (simp add: l_def asset_legs_def)
      show thesis
      proof (cases "carries_levels rec \<and> phase = Live \<and> \<not> flat l")
        case True
        show thesis
          by (rule levels [of a]) (use jd Some lg True \<open>\<not> r_is_actionable rec\<close> in \<open>auto simp: asset_def\<close>)
      next
        case False
        show thesis by (rule nothing) (use jd False \<open>\<not> r_is_actionable rec\<close> Some in auto)
      qed
    qed
  next
    case True
    show thesis
    proof (cases "evaluate (e_cfg env) rec phase l mark (implied_ref env phase asset rec) (e_now env) (e_multi env)")
      case (Inl err)
      with jd True raised show thesis by auto
    next
      case (Inr d)
      with jd True decided [OF asset_def l_def mark_def True] show thesis by auto
    qed
  qed
qed

end
