(* ===== verification/SocialSweeps.thy ===== *)
theory SocialSweeps
  imports SocialMain
begin

text \<open>
  The watcher of \<open>social-listener/app/main.py\<close>: the three sweeps that run every few
  seconds beside the posts, and the start-up checks. A sweep reads its rows once and then
  works through them, each row against the state the ones before it left.
\<close>

section \<open>Legs the exchange has closed\<close>

definition sweep_closed_row :: "env \<Rightarrow> (asset \<times> side) \<times> leg_row \<Rightarrow> social \<Rightarrow> social" where
  "sweep_closed_row env row s =
     (case row of ((a, sd), r) \<Rightarrow>
        if e_now env - lr_updated_at r < closed_leg_grace_seconds (e_cfg env) then s
        else if open_position (e_cfg env) s a (Some sd) \<noteq> None then s
        else cancel_pending_trims (e_now env) (close_leg s a sd (lr_msg_id r)) a sd)"

definition sweep_closed_legs :: "env \<Rightarrow> social \<Rightarrow> social" where
  "sweep_closed_legs env s =
     (if e_strategy env = None then s
      else fold (sweep_closed_row env) (recorded_open_legs s) s)"

section \<open>Parked trims\<close>

definition level_reached :: "side \<Rightarrow> rat \<Rightarrow> rat \<Rightarrow> bool" where
  "level_reached sd trig mark = (if sd = SHORT then mark \<le> trig else trig \<le> mark)"

definition sweep_trim :: "env \<Rightarrow> trim_row \<Rightarrow> social \<Rightarrow> py_error option \<times> social" where
  "sweep_trim env t s =
     (let a = tr_asset t; sd = tr_side t in
      if \<not> is_open (get_legs s a) sd then (None, resolve_pending_trim (e_now env) s (tr_id t) Cancelled)
      else case e_mark env a of None \<Rightarrow> (None, s)
      | Some mark \<Rightarrow>
        if \<not> level_reached sd (tr_trigger_price t) mark then (None, s)
        else if e_strategy env = None
        then (None, resolve_shadow_order (resolve_pending_trim (e_now env) s (tr_id t) Fired) (tr_msg_id t)
               Acted Trim_level_reached (Some mark) None Shadow_mode)
        else case fire_trim env a sd (tr_size_fraction t) (Some mark) s of
          (Inl e, s') \<Rightarrow> (Some e, s')
        | (Inr (ok, close_size), s') \<Rightarrow>
            (None, if ok
            then resolve_shadow_order (resolve_pending_trim (e_now env) s' (tr_id t) Fired) (tr_msg_id t)
                   Acted Trim_level_reached (Some mark) close_size Live_mode
            else s'))"

text \<open>An exception ends the sweep; the rows after it wait for the next one.\<close>

fun sweep_over :: "('r \<Rightarrow> 's \<Rightarrow> py_error option \<times> 's) \<Rightarrow> 'r list \<Rightarrow> 's \<Rightarrow> py_error option \<times> 's" where
  "sweep_over f [] s = (None, s)"
| "sweep_over f (r # rs) s =
     (case f r s of (Some e, s') \<Rightarrow> (Some e, s') | (None, s') \<Rightarrow> sweep_over f rs s')"

definition sweep_pending_trims :: "env \<Rightarrow> social \<Rightarrow> py_error option \<times> social" where
  "sweep_pending_trims env s =
     (let s' = expire_pending_trims (e_now env) s
      in sweep_over (sweep_trim env) (pending_trims s') s')"

section \<open>Standing stops\<close>

text \<open>The record the watcher makes up: only the break-even instruction is set.\<close>

definition breakeven_rec :: "int \<Rightarrow> signal_rec" where
  "breakeven_rec k =
     \<lparr>r_msg_id = k, r_posted_at = None, r_is_actionable = False, r_action = NONE, r_asset = None,
      r_direction = None, r_reference_price = None, r_confidence = None, r_size_fraction = None,
      r_trigger_price = None, r_stop_price = None, r_stop_to_breakeven = Some True,
      r_take_profit_price = None, r_add_multiple = None\<rparr>"

definition sweep_stop :: "env \<Rightarrow> (asset \<times> side) \<times> leg_row \<Rightarrow> social \<Rightarrow> py_error option \<times> social" where
  "sweep_stop env row s =
     (case row of ((a, sd), r) \<Rightarrow>
        case open_position (e_cfg env) s a (Some sd) of None \<Rightarrow> (None, s)
        | Some pos \<Rightarrow>
          (let entry = ps_entry_price pos; held_sl = lr_stop_price r in
           if held_sl \<noteq> None \<and> entry = 0 then (Some ZeroDivisionError, s)
           else if (case held_sl of None \<Rightarrow> False | Some h \<Rightarrow> \<bar>h - entry\<bar> / entry < 1 / 10 ^ 6)
             then (None, s)
           else
             (case fst (evaluate_stop (e_cfg env) (breakeven_rec (lr_msg_id r)) (Some sd) (Some entry)
                     (e_mark env a) None (e_now env)) of
                None \<Rightarrow> (None, s)
              | Some want \<Rightarrow>
                  (let tp = coalesce (lr_tp_price r) (ps_tp_price pos) in
                   case adjust_levels env (Some want) tp False (Some sd) s of
                     (Inl e, s') \<Rightarrow> (Some e, s')
                   | (Inr ok, s') \<Rightarrow>
                       (None, if ok then set_levels (e_now env) s' a sd (Some want) tp None else s')))))"

definition sweep_standing_stops :: "env \<Rightarrow> social \<Rightarrow> py_error option \<times> social" where
  "sweep_standing_stops env s =
     (if e_strategy env = None then (None, s)
      else sweep_over (sweep_stop env) (legs_with_standing_stop s) s)"

text \<open>One turn of \<open>_pending_trim_loop\<close>: each sweep's exceptions are logged and dropped.\<close>

definition watcher_tick :: "env \<Rightarrow> social \<Rightarrow> social" where
  "watcher_tick env s = snd (sweep_standing_stops env (snd (sweep_pending_trims env (sweep_closed_legs env s))))"

section \<open>Start-up\<close>

text \<open>\<open>_load_execution_strategy\<close>: \<open>lookup\<close> is the query for the strategy's row.\<close>

definition strategy_problems :: "strategy \<Rightarrow> bool" where
  "strategy_problems st \<longleftrightarrow>
     st_is_deleted st \<or> \<not> st_enabled st
     \<or> (case st_account_id st of None \<Rightarrow> True | Some a \<Rightarrow> a = [])
     \<or> (case st_webhook_secret st of None \<Rightarrow> True | Some w \<Rightarrow> w = [])
     \<or> or_zero (st_margin_per_trade st) \<le> 0
     \<or> (case st_max_leverage st of None \<Rightarrow> 0 | Some m \<Rightarrow> m)
         < (case st_default_leverage st of None \<Rightarrow> 0 | Some l \<Rightarrow> l)"

definition load_execution_strategy :: "settings \<Rightarrow> (string \<Rightarrow> strategy option) \<Rightarrow> strategy option" where
  "load_execution_strategy cfg lookup =
     (if execution_mode cfg \<noteq> ''live'' then None
      else if execution_strategy_id cfg = [] then None
      else case lookup (execution_strategy_id cfg) of None \<Rightarrow> None
      | Some st \<Rightarrow> if strategy_problems st then None else Some st)"

text \<open>\<open>account_position_mode\<close> and \<open>_resolve_multi_position\<close>; the query may raise.\<close>

definition account_position_mode :: "string option \<Rightarrow> string" where
  "account_position_mode mode =
     (case mode of Some m \<Rightarrow> if m = ''net'' \<or> m = ''hedge'' then m else ''net'' | None \<Rightarrow> ''net'')"

definition resolve_multi_position :: "settings \<Rightarrow> (string \<Rightarrow> string option result) \<Rightarrow> bool" where
  "resolve_multi_position cfg query =
     (if execution_strategy_id cfg = [] then False
      else case query (execution_strategy_id cfg) of
        Inl e \<Rightarrow> False
      | Inr mode \<Rightarrow> account_position_mode mode = ''hedge'')"

text \<open>
  What each operation of the social listener leaves alone. A frame is a reflexive and
  transitive relation between the state before and after; the loops keep every frame their
  bodies keep. The frames: recorded legs, calls made, the listener's own tables.
\<close>

locale state_frame =
  fixes R :: "'s \<Rightarrow> 's \<Rightarrow> bool"
  assumes frame_refl: "R s s"
    and frame_trans: "R s t \<Longrightarrow> R t u \<Longrightarrow> R s u"
begin

lemma fold_frame: "(\<And>x s. R s (f x s)) \<Longrightarrow> R s (fold f xs s)"
  by (induction xs arbitrary: s) (auto simp: frame_refl intro: frame_trans)

lemma sweep_frame: "(\<And>x s. R s (snd (f x s))) \<Longrightarrow> R s (snd (sweep_over f xs s))"
proof (induction xs arbitrary: s)
  case (Cons x xs)
  obtain e u where f: "f x s = (e, u)" by force
  with Cons.prems [of s x] have su: "R s u" by simp
  with frame_trans [OF su Cons.IH [of u]] Cons.prems f show ?case by (auto split: option.splits)
qed (simp add: frame_refl)

lemma fold_frame_on: "(\<And>x s. x \<in> set xs \<Longrightarrow> R s (f x s)) \<Longrightarrow> R s (fold f xs s)"
  by (induction xs arbitrary: s) (auto simp: frame_refl intro: frame_trans)

end

section \<open>Calls made\<close>

definition same_sent :: "social \<Rightarrow> social \<Rightarrow> bool" where
  "same_sent s t \<longleftrightarrow> sent t = sent s \<and> positions t = positions s"

interpretation sent_frame: state_frame same_sent
  by unfold_locales (auto simp: same_sent_def)

lemma same_sent_writes [simp, frame_simps]:
  "same_sent s (open_leg now s a sd k)"
  "same_sent s (close_leg s a sd k)"
  "same_sent s (set_levels now s a sd sl tp md)"
  "same_sent s (clear_stop_price now s a sd)"
  "same_sent s (insert_shadow_order s k row)"
  "same_sent s (resolve_shadow_order s k dec rsn mk cs mode)"
  "same_sent s (new_trim cfg now s k a sd share trig status res)"
  "same_sent s (resolve_pending_trim now s i status)"
  "same_sent s (expire_pending_trims now s)"
  "same_sent s (cancel_pending_trims now s a sd)"
  "same_sent s (snd (insert_signal s rec))"
  by (auto simp: same_sent_def open_leg_def close_leg_def set_levels_def clear_stop_price_def
      update_leg_def insert_shadow_order_def resolve_shadow_order_def new_trim_def
      resolve_pending_trim_def expire_pending_trims_def cancel_pending_trims_def insert_signal_def
      split: option.splits)

lemma same_sent_refl [simp]: "same_sent s s"
  by (rule sent_frame.frame_refl)

lemma same_sent_apply_leg_changes [simp]: "same_sent s (apply_leg_changes now s a ch k)"
  unfolding apply_leg_changes_def by (rule sent_frame.fold_frame) (auto split: prod.splits)

lemma same_sent_cancels:
  "same_sent s (fold (\<lambda>(sd, is_opn) t. if is_opn then t else cancel_pending_trims now t a sd) ch s)"
  by (rule sent_frame.fold_frame) (auto split: prod.splits)

lemma same_sent_advance [simp]: "same_sent s (advance_state env rec asset d s)"
  using sent_frame.frame_trans [OF same_sent_apply_leg_changes same_sent_cancels]
  by (simp add: advance_state_def split: option.split)

lemma same_sent_park: "park_trim env phase rec asset d s = Inr t \<Longrightarrow> same_sent s t"
  by (auto simp: park_trim_def insert_pending_trim_def split: option.splits if_splits)

section \<open>Recorded legs\<close>

definition same_legs :: "social \<Rightarrow> social \<Rightarrow> bool" where
  "same_legs s t \<longleftrightarrow> (legs_invar s \<longrightarrow> legs_invar t \<and> (\<forall>a. get_legs t a = get_legs s a))"

interpretation legs_frame: state_frame same_legs
  by unfold_locales (auto simp: same_legs_def)

lemma same_legs_refl [simp]: "same_legs s s"
  by (rule legs_frame.frame_refl)

lemma same_legs_table: "leg_table t = leg_table s \<Longrightarrow> same_legs s t"
  by (simp add: same_legs_def get_legs_def legs_invar_def)

lemma same_legs_update_leg:
  assumes "\<And>r. lr_open (f r) = lr_open r"
  shows "same_legs s (update_leg f s a sd)"
proof -
  have "get_legs (update_leg f s a sd) b = get_legs s b" if inv: "legs_invar s" for b
  proof (cases "map_of (leg_table s) (a, sd)")
    case (Some r)
    show ?thesis
    proof (rule legs_eqI)
      fix x
      show "is_open (get_legs (update_leg f s a sd) b) x = is_open (get_legs s b) x"
        using assms inv Some
        by (simp add: is_open_get_legs legs_invar_update_leg) (simp add: update_leg_def row_simps)
    qed
  qed (simp add: update_leg_def)
  then show ?thesis by (simp add: same_legs_def)
qed

lemma same_legs_levels [simp, frame_simps]:
  "same_legs s (set_levels now s a sd sl tp md)"
  "same_legs s (clear_stop_price now s a sd)"
  unfolding set_levels_def clear_stop_price_def by (auto intro: same_legs_update_leg)

lemma same_legs_writes [simp, frame_simps]:
  "same_legs s (insert_shadow_order s k row)"
  "same_legs s (resolve_shadow_order s k dec rsn mk cs mode)"
  "same_legs s (new_trim cfg now s k a sd share trig status res)"
  "same_legs s (resolve_pending_trim now s i status)"
  "same_legs s (expire_pending_trims now s)"
  "same_legs s (cancel_pending_trims now s a sd)"
  "same_legs s (snd (insert_signal s rec))"
  by (auto intro!: same_legs_table simp: insert_shadow_order_def resolve_shadow_order_def new_trim_def
      resolve_pending_trim_def expire_pending_trims_def cancel_pending_trims_def insert_signal_def
      split: option.splits)

lemma same_tables_same_legs: "same_tables s t \<Longrightarrow> same_legs s t"
  by (rule same_legs_table) (simp add: same_tables_def)

lemma fire_trim_tables: "fire_trim env a sd share mark s = (r, t) \<Longrightarrow> same_tables s t"
  by (auto simp: fire_trim_def Let_def split: option.splits if_splits prod.splits sum.splits dest: emit_same_tables)

lemma fire_add_same_legs: "fire_add env a sd mult mark s = (r, t) \<Longrightarrow> same_legs s t"
  by (auto simp: fire_add_def Let_def split: option.splits if_splits prod.splits sum.splits
      dest!: emit_same_tables same_tables_same_legs intro: legs_frame.frame_trans [OF _ same_legs_levels(2)])

lemma apply_levels_same_legs: "apply_levels env rec a sd mark s = (lv, t) \<Longrightarrow> same_legs s t"
  by (auto simp: apply_levels_def Let_def split: option.splits if_splits prod.splits sum.splits
      dest!: adjust_same_tables same_tables_same_legs intro: legs_frame.frame_trans [OF _ same_legs_levels(1)])

lemma emit_decided_same_legs: "emit_decided env st a mark d s = (r, t) \<Longrightarrow> same_legs s t"
  by (auto simp: emit_decided_def split: if_splits option.splits prod.splits sum.splits
      dest: fire_trim_tables fire_add_same_legs emit_same_tables intro: same_tables_same_legs)

lemma emission_same_legs: "emission env phase rec asset l mark d s = (r, t) \<Longrightarrow> same_legs s t"
  by (auto simp: emission_def record_fired_trim_def split: if_splits option.splits prod.splits sum.splits
      dest: emit_decided_same_legs intro: legs_frame.frame_trans [OF _ same_legs_writes(3)])

lemma park_same_legs: "park_trim env phase rec asset d s = Inr t \<Longrightarrow> same_legs s t"
  by (auto simp: park_trim_def insert_pending_trim_def split: option.splits if_splits)

text \<open>Advancing is the only step of a judgement that moves legs.\<close>

lemma advance_legs:
  assumes "legs_invar s" "distinct (map fst (d_advance_legs d))"
  shows "legs_invar (advance_state env rec asset d s)"
    and "get_legs (advance_state env rec asset d s) b =
      (if asset = Some b \<and> d_advance d then apply_changes (d_advance_legs d) (get_legs s b) else get_legs s b)"
proof -
  let ?f = "\<lambda>a (sd, is_opn) t. if is_opn then t else cancel_pending_trims (e_now env) t a sd"
  have "same_legs u (fold (?f a) ch u)" for a ch u
    by (rule legs_frame.fold_frame) (auto split: prod.splits)
  then have fl: "legs_invar u \<Longrightarrow> legs_invar (fold (?f a) ch u) \<and> get_legs (fold (?f a) ch u) x = get_legs u x"
    for a ch u x by (simp add: same_legs_def)
  show "legs_invar (advance_state env rec asset d s)"
    using fl assms(1) by (auto simp: advance_state_def split: option.splits)
  show "get_legs (advance_state env rec asset d s) b =
      (if asset = Some b \<and> d_advance d then apply_changes (d_advance_legs d) (get_legs s b) else get_legs s b)"
    using fl assms by (auto simp: advance_state_def get_legs_apply_leg_changes split: option.splits)
qed

end
