(* ===== verification/Bursts.thy ===== *)
theory Bursts
  imports SocialMain "HOL-Library.Multiset"
begin

text \<open>
  How \<open>social-listener/app/main.py\<close> gathers messages into posts: \<open>group_bursts\<close>, the
  live buffer with its one timer task, and the catch-up pass over the channel's history.
\<close>

section \<open>\<open>group_bursts\<close>\<close>

text \<open>
  One message joins the current (last) burst or starts a new one. The bursts are kept
  newest first and each burst newest first, so that the list code reads at the head.
\<close>

definition joins :: "rat \<Rightarrow> nat \<Rightarrow> message list \<Rightarrow> message \<Rightarrow> bool" where
  "joins window max_size burst m =
     (case burst of [] \<Rightarrow> False
      | prev # _ \<Rightarrow> length burst < max_size \<and> m_date m - m_date prev \<le> window)"

definition burst_step :: "rat \<Rightarrow> nat \<Rightarrow> message \<Rightarrow> message list list \<Rightarrow> message list list" where
  "burst_step window max_size m acc =
     (case acc of [] \<Rightarrow> [[m]]
      | b # bs \<Rightarrow> if joins window max_size b m then (m # b) # bs else [m] # b # bs)"

definition group_bursts :: "message list \<Rightarrow> rat \<Rightarrow> nat \<Rightarrow> message list list" where
  "group_bursts msgs window max_size =
     rev (map rev (fold (burst_step window max_size) (sort_key m_id msgs) []))"

text \<open>No two neighbours of a burst are further apart than the window.\<close>

fun close_together :: "rat \<Rightarrow> message list \<Rightarrow> bool" where
  "close_together w (a # b # ms) = (m_date b - m_date a \<le> w \<and> close_together w (b # ms))"
| "close_together w _ = True"

fun close_back :: "rat \<Rightarrow> message list \<Rightarrow> bool" where
  "close_back w (b # a # ms) = (m_date b - m_date a \<le> w \<and> close_back w (a # ms))"
| "close_back w _ = True"

lemma close_together_snoc:
  "close_together w (xs @ [a, b]) \<longleftrightarrow> close_together w (xs @ [a]) \<and> m_date b - m_date a \<le> w"
  by (induction w xs rule: close_together.induct) auto

lemma close_together_rev: "close_together w (rev ms) = close_back w ms"
proof (induction w ms rule: close_back.induct)
  case (1 w b a ms)
  then show ?case using close_together_snoc [of w "rev ms" a b] by auto
qed auto

definition good_burst :: "rat \<Rightarrow> nat \<Rightarrow> message list \<Rightarrow> bool" where
  "good_burst window max_size b \<longleftrightarrow> b \<noteq> [] \<and> length b \<le> max 1 max_size \<and> close_back window b"

lemma burst_step_good:
  "\<forall>b\<in>set acc. good_burst w k b \<Longrightarrow> \<forall>b\<in>set (burst_step w k m acc). good_burst w k b"
  by (auto simp: burst_step_def joins_def good_burst_def max_def split: list.splits if_splits)

lemma burst_step_concat: "concat (rev (map rev (burst_step w k m acc))) = concat (rev (map rev acc)) @ [m]"
  by (auto simp: burst_step_def split: list.splits)

lemma fold_burst_step:
  "\<forall>b\<in>set acc. good_burst w k b \<Longrightarrow>
     (\<forall>b\<in>set (fold (burst_step w k) ms acc). good_burst w k b) \<and>
     concat (rev (map rev (fold (burst_step w k) ms acc))) = concat (rev (map rev acc)) @ ms"
proof (induction ms arbitrary: acc)
  case (Cons m ms)
  from Cons.IH [OF burst_step_good [OF Cons.prems], of m] show ?case
    by (simp only: fold_simps burst_step_concat) simp
qed simp

text \<open>
  Grouping neither loses, repeats nor reorders: the bursts in order are the messages by
  id. No burst is empty or larger than the cap, and inside a burst no gap exceeds the window.
\<close>

theorem group_bursts_partition:
  "concat (group_bursts msgs window max_size) = sort_key m_id msgs
     \<and> (\<forall>b\<in>set (group_bursts msgs window max_size).
          b \<noteq> [] \<and> length b \<le> max 1 max_size \<and> close_together window b)"
proof -
  have "\<forall>b\<in>set ([] :: message list list). good_burst window max_size b" by simp
  from fold_burst_step [OF this, of "sort_key m_id msgs"] show ?thesis
    by (auto simp: group_bursts_def good_burst_def close_together_rev)
qed

definition at_second :: "int \<Rightarrow> rat \<Rightarrow> message" where
  "at_second i t = \<lparr>m_id = i, m_date = t, m_text = None, m_media = No_media, m_has_client = False\<rparr>"

theorem group_bursts_partition_witness:
  "map (map m_id) (group_bursts [at_second 3 100, at_second 1 0, at_second 2 30] 60 6) = [[1, 2], [3]]
   \<and> concat (group_bursts [at_second 3 100, at_second 1 0, at_second 2 30] 60 6)
       = sort_key m_id [at_second 3 100, at_second 1 0, at_second 2 30]"
  by (rule conjI, code_simp, rule group_bursts_partition [THEN conjunct1])

section \<open>The live buffer\<close>

text \<open>
  \<open>_LiveBuffer\<close>: the messages held back and the one task. A task first sleeps until a
  deadline, then takes the messages and judges them; a new message cancels the task if it
  is not done, whether it sleeps or judges. The last two fields are a history: what was
  judged to the end, and what was taken and then cancelled while being judged.
\<close>

datatype task = Task_none | Task_sleeping datetime | Task_judging "message list"

record live_buffer =
  lb_msgs :: "message list"
  lb_task :: task
  lb_judged :: "message list"
  lb_cancelled :: "message list"

definition empty_buffer :: live_buffer where
  "empty_buffer = \<lparr>lb_msgs = [], lb_task = Task_none, lb_judged = [], lb_cancelled = []\<rparr>"

definition in_judgement :: "live_buffer \<Rightarrow> message list" where
  "in_judgement b = (case lb_task b of Task_judging batch \<Rightarrow> batch | _ \<Rightarrow> [])"

definition buffer_add :: "settings \<Rightarrow> datetime \<Rightarrow> message \<Rightarrow> live_buffer \<Rightarrow> live_buffer" where
  "buffer_add cfg now m b =
     (let msgs = lb_msgs b @ [m];
          delay = (if merge_max_messages cfg \<le> length msgs then 0 else merge_window_seconds cfg)
      in b\<lparr>lb_msgs := msgs, lb_task := Task_sleeping (now + delay),
           lb_cancelled := lb_cancelled b @ in_judgement b\<rparr>)"

text \<open>The task wakes up: it takes the batch, and is done at once when there is none.\<close>

definition buffer_wake :: "live_buffer \<Rightarrow> live_buffer" where
  "buffer_wake b =
     b\<lparr>lb_msgs := [], lb_task := (if lb_msgs b = [] then Task_none else Task_judging (lb_msgs b))\<rparr>"

definition buffer_done :: "live_buffer \<Rightarrow> live_buffer" where
  "buffer_done b = b\<lparr>lb_task := Task_none, lb_judged := lb_judged b @ in_judgement b\<rparr>"

text \<open>The label of a step says whether a message arrived, and whether it was while judging.\<close>

inductive buffer_moves :: "settings \<Rightarrow> message list \<Rightarrow> bool \<Rightarrow> live_buffer \<Rightarrow> bool" for cfg where
  start: "buffer_moves cfg [] True empty_buffer"
| arrive: "buffer_moves cfg ms quiet b \<Longrightarrow>
     buffer_moves cfg (ms @ [m]) (quiet \<and> in_judgement b = []) (buffer_add cfg now m b)"
| wake: "buffer_moves cfg ms quiet b \<Longrightarrow> lb_task b = Task_sleeping t \<Longrightarrow> t \<le> now \<Longrightarrow>
     buffer_moves cfg ms quiet (buffer_wake b)"
| finish: "buffer_moves cfg ms quiet b \<Longrightarrow> lb_task b = Task_judging batch \<Longrightarrow>
     buffer_moves cfg ms quiet (buffer_done b)"

lemma buffer_moves_inv:
  "buffer_moves cfg ms quiet b \<Longrightarrow>
     mset ms = mset (lb_judged b) + mset (lb_cancelled b) + mset (in_judgement b) + mset (lb_msgs b)
     \<and> (lb_msgs b \<noteq> [] \<longrightarrow> (\<exists>t. lb_task b = Task_sleeping t)) \<and> (quiet \<longrightarrow> lb_cancelled b = [])"
  by (induction rule: buffer_moves.induct)
    (auto simp: empty_buffer_def buffer_add_def buffer_wake_def buffer_done_def in_judgement_def Let_def
      split: task.splits)

text \<open>
  C39. The live buffer never strands a message: messages that wait always have a timer, and
  every message that arrived is waiting, being judged, judged, or was cancelled while being
  judged. As long as no message arrives during a judgement, none is lost that way.
\<close>

theorem live_buffer_conserves:
  assumes "buffer_moves cfg ms quiet b"
  shows "mset ms = mset (lb_judged b) + mset (lb_cancelled b) + mset (in_judgement b) + mset (lb_msgs b)
     \<and> (lb_msgs b \<noteq> [] \<longrightarrow> (\<exists>t. lb_task b = Task_sleeping t)) \<and> (quiet \<longrightarrow> lb_cancelled b = [])"
  using buffer_moves_inv [OF assms] .

lemma buffer_sample:
  "buffer_moves default_settings [at_second 1 0, at_second 2 70] False
     (buffer_add default_settings 70 (at_second 2 70)
       (buffer_wake (buffer_add default_settings 0 (at_second 1 0) empty_buffer)))"
proof -
  have "buffer_moves default_settings [at_second 1 0] True
      (buffer_add default_settings 0 (at_second 1 0) empty_buffer)"
    using buffer_moves.arrive [OF buffer_moves.start, of default_settings "at_second 1 0" 0]
    by (simp add: in_judgement_def empty_buffer_def)
  then have "buffer_moves default_settings [at_second 1 0] True
      (buffer_wake (buffer_add default_settings 0 (at_second 1 0) empty_buffer))"
    by (rule buffer_moves.wake [where t = 60 and now = 60])
      (simp_all add: buffer_add_def empty_buffer_def default_settings_def)
  from buffer_moves.arrive [OF this, of "at_second 2 70" 70] show ?thesis
    by (simp add: in_judgement_def buffer_wake_def buffer_add_def empty_buffer_def)
qed

theorem live_buffer_conserves_witness:
  "let b = buffer_add default_settings 70 (at_second 2 70)
       (buffer_wake (buffer_add default_settings 0 (at_second 1 0) empty_buffer))
   in mset [at_second 1 0, at_second 2 70] =
        mset (lb_judged b) + mset (lb_cancelled b) + mset (in_judgement b) + mset (lb_msgs b)
      \<and> lb_msgs b \<noteq> []"
  using live_buffer_conserves [OF buffer_sample]
  by (simp add: Let_def buffer_add_def)

text \<open>
  A message that arrives while a post is being judged cancels that judgement: the batch
  was already taken from the buffer and is in neither the buffer nor the judged posts. (The
  handler of \<open>CancelledError\<close> guards only the sleep.)
\<close>

theorem arrival_cancels_judgement:
  assumes "lb_task b = Task_judging batch"
  shows "lb_cancelled (buffer_add cfg now m b) = lb_cancelled b @ batch
    \<and> lb_judged (buffer_add cfg now m b) = lb_judged b
    \<and> lb_msgs (buffer_add cfg now m b) = lb_msgs b @ [m]
    \<and> in_judgement (buffer_add cfg now m b) = []"
  using assms by (simp add: buffer_add_def in_judgement_def Let_def)

theorem arrival_cancels_judgement_witness:
  "let b = buffer_wake (buffer_add default_settings 0 (at_second 1 0) empty_buffer)
   in lb_cancelled (buffer_add default_settings 70 (at_second 2 70) b) = [at_second 1 0]"
  using arrival_cancels_judgement [of "buffer_wake (buffer_add default_settings 0 (at_second 1 0) empty_buffer)"
      "[at_second 1 0]" default_settings 70 "at_second 2 70"]
  by (simp add: Let_def buffer_wake_def buffer_add_def empty_buffer_def in_judgement_def)

section \<open>Running the bursts\<close>

text \<open>The loop over bursts: an exception ends it.\<close>

fun handle_all ::
  "env \<Rightarrow> reader \<Rightarrow> phase \<Rightarrow> message list list \<Rightarrow> social \<Rightarrow> py_error option \<times> social" where
  "handle_all env rd phase [] s = (None, s)"
| "handle_all env rd phase (b # bs) s =
     (case handle env rd b phase s of
        (Some e, s') \<Rightarrow> (Some e, s') | (None, s') \<Rightarrow> handle_all env rd phase bs s')"

definition flush :: "env \<Rightarrow> reader \<Rightarrow> message list \<Rightarrow> social \<Rightarrow> py_error option \<times> social" where
  "flush env rd batch s =
     handle_all env rd Live
       (group_bursts batch (merge_window_seconds (e_cfg env)) (merge_max_messages (e_cfg env))) s"

text \<open>One pass of \<open>_catchup_loop\<close> over the history, which the channel lists oldest first.\<close>

definition catchup_gap :: "settings \<Rightarrow> int \<Rightarrow> message list \<Rightarrow> message list" where
  "catchup_gap cfg last_id history =
     take (catchup_limit cfg) (filter (\<lambda>m. last_id < m_id m) (sort_key m_id history))"

definition catchup_pass :: "env \<Rightarrow> reader \<Rightarrow> message list \<Rightarrow> social \<Rightarrow> py_error option \<times> social" where
  "catchup_pass env rd history s =
     (case max_channel_msg_id s of None \<Rightarrow> (None, s)
      | Some last_id \<Rightarrow>
        (let gap = catchup_gap (e_cfg env) last_id history
         in if gap = [] then (None, s)
            else handle_all env rd Live
              (group_bursts gap (merge_window_seconds (e_cfg env)) (merge_max_messages (e_cfg env))) s))"

text \<open>The start-up backfill over the last messages of the channel.\<close>

definition backfill :: "env \<Rightarrow> reader \<Rightarrow> message list \<Rightarrow> social \<Rightarrow> py_error option \<times> social" where
  "backfill env rd history s =
     handle_all env rd Backfill
       (group_bursts (take (backfill_limit (e_cfg env)) (rev (sort_key m_id history)))
          (merge_window_seconds (e_cfg env)) (merge_max_messages (e_cfg env))) s"

end
