(* ===== verification/SocialAccounting.thy ===== *)
theory SocialAccounting
  imports SocialSweeps Bursts StatemachineSpec
begin

text \<open>
  Safety of the social listener: nothing is sent in shadow or while replaying the history. And
  the books of the listener: the legs it records against the legs that the orders it got
  accepted make up.
\<close>

section \<open>No calls in shadow or in a backfill\<close>

lemma fire_trim_shadow: "e_strategy env = None \<Longrightarrow> fire_trim env a sd share mark s = (Inr (False, None), s)"
  by (simp add: fire_trim_def)

lemma apply_levels_shadow: "e_strategy env = None \<Longrightarrow> \<exists>lv. apply_levels env rec a sd mark s = (Inr lv, s)"
  by (simp add: apply_levels_def Let_def)

lemma snd_apply_levels_shadow: "e_strategy env = None \<Longrightarrow> snd (apply_levels env rec a sd mark s) = s"
  using apply_levels_shadow [of env rec a sd mark s] by auto

lemma emission_silent:
  "e_strategy env = None \<or> phase = Backfill \<Longrightarrow>
     emission env phase rec asset l mark d s = (Inr (d, Shadow_mode, None, None), s)"
  by (auto simp: emission_def split: option.splits)

lemma levels_first_silent:
  "e_strategy env = None \<or> phase = Backfill \<Longrightarrow> snd (levels_first env phase rec asset l mark d s) = s"
  by (auto simp: levels_first_def snd_apply_levels_shadow split: option.splits)

lemma carry_out_silent:
  assumes q: "e_strategy env = None \<or> phase = Backfill"
    and co: "carry_out env phase rec asset l mark d s = (e, t)"
  shows "same_sent s t"
  using co
proof (cases rule: carry_out_cases)
  case (unlevelled d1 err)
  with levels_first_silent [OF q, of rec asset l mark d1 s] show ?thesis by simp
next
  case (raised d1 lv s1 err)
  with emission_silent [OF q] show ?thesis by simp
next
  case (unparked d1 lv s1 em s2 err)
  with emission_silent [OF q] levels_first_silent [OF q, of rec asset l mark d1 s] show ?thesis by simp
next
  case (finished d1 lv s1 em s2 s4)
  with emission_silent [OF q] levels_first_silent [OF q, of rec asset l mark d1 s] have "s2 = s" by simp
  with finished(4) have "same_sent s s4"
    using sent_frame.frame_trans [OF same_sent_writes(5) same_sent_park] by metis
  with finished(5) show ?thesis
    using sent_frame.frame_trans [OF _ same_sent_advance] by simp
qed

lemma judge_silent:
  assumes q: "e_strategy env = None \<or> phase = Backfill"
  shows "same_sent s (snd (judge env phase rec s))"
proof -
  obtain e t where j: "judge env phase rec s = (e, t)" by force
  then have "same_sent s t"
  proof (cases rule: judge_cases)
    case (levels a)
    with q have "e_strategy env = None" by auto
    from apply_levels_shadow [OF this, of rec a "levels_side rec (get_legs s a)" "e_mark env a" s] levels(3)
    show ?thesis by (auto simp: levels_only_def Let_def)
  next
    case (decided d asset l mark)
    show ?thesis by (rule carry_out_silent [OF q decided(6)])
  qed simp_all
  with j show ?thesis by simp
qed

lemma handle_silent:
  assumes "e_strategy env = None \<or> phase = Backfill"
  shows "same_sent s (snd (handle env rd msgs phase s))"
proof -
  have "same_sent s (snd (judge env phase rec (snd (insert_signal s rec'))))" for rec rec'
    using sent_frame.frame_trans [OF same_sent_writes(11) judge_silent [OF assms]] .
  then show ?thesis
    by (auto simp: handle_def handle_locked_def Let_def judge_silent [OF assms]
        split: list.splits option.splits prod.splits)
qed

lemma handle_all_silent:
  assumes "e_strategy env = None \<or> phase = Backfill"
  shows "same_sent s (snd (handle_all env rd phase bs s))"
proof (induction bs arbitrary: s)
  case (Cons b bs)
  obtain e t where h: "handle env rd b phase s = (e, t)" by force
  with handle_silent [OF assms, of s rd b] have st: "same_sent s t" by simp
  from st sent_frame.frame_trans [OF st Cons.IH [of t]] show ?case
    by (auto simp: h split: option.splits)
qed simp

lemma sweeps_silent:
  assumes "e_strategy env = None"
  shows "same_sent s (watcher_tick env s)"
proof -
  have "same_sent u (snd (sweep_trim env t u))" for t u
    using assms sent_frame.frame_trans [OF same_sent_writes(8) same_sent_writes(6)]
    by (auto simp: sweep_trim_def Let_def split: option.splits)
  then have fl: "same_sent u (snd (sweep_over (sweep_trim env) ts u))" for ts u
    by (rule sent_frame.sweep_frame)
  have "same_sent u (snd (sweep_pending_trims env u))" for u
    unfolding sweep_pending_trims_def Let_def by (rule sent_frame.frame_trans [OF same_sent_writes(9) fl])
  then show ?thesis
    using assms by (simp add: watcher_tick_def sweep_closed_legs_def sweep_standing_stops_def)
qed

text \<open>
  No order and no level change leaves the listener in shadow, whatever posts arrive
  (live, recovered by the catch-up, or replayed) and however often the watcher runs; and the
  backfill at start-up sends nothing even when the live strategy is armed.
\<close>

theorem shadow_never_sends:
  "(e_strategy env = None \<longrightarrow>
      sent (snd (flush env rd msgs s)) = sent s \<and>
      sent (snd (catchup_pass env rd msgs s)) = sent s \<and>
      sent (watcher_tick env s) = sent s)
   \<and> sent (snd (backfill env rd msgs s)) = sent s"
  using handle_all_silent [of env] sweeps_silent [of env s]
  by (auto simp: same_sent_def flush_def catchup_pass_def backfill_def Let_def split: option.splits)

section \<open>Decisions whose orders do what they record\<close>

definition moves_as_ordered :: "decision \<Rightarrow> bool" where
  "moves_as_ordered d \<longleftrightarrow>
     distinct (map fst (d_advance_legs d)) \<and> (d_advance d \<longleftrightarrow> d_advance_legs d \<noteq> []) \<and>
     (d_park d \<longrightarrow> d_is_trim d) \<and>
     (if d_is_trim d \<or> d_is_add d then d_advance_legs d = []
      else if d_emit d then concat (map step_changes (steps_of (d_intended_signal d))) = d_advance_legs d
      else d_advance_legs d = [])"

lemma evaluate_moves_as_ordered:
  assumes "evaluate cfg rec phase l mark imp now multi = Inr d"
  shows "moves_as_ordered d"
  using evaluate_decided [OF assms]
  by cases (auto simp: moves_as_ordered_def move_ok_def dest: plan_move_steps)

lemma refuse_moves_as_ordered [simp]: "moves_as_ordered (refuse_decision r l d)"
  by (simp add: moves_as_ordered_def refuse_decision_def)

lemma dedupe_moves_as_ordered: "moves_as_ordered d \<Longrightarrow> moves_as_ordered (dedupe_trim env phase a l d s)"
  by (auto simp: dedupe_trim_def split: option.splits)

section \<open>Orders a step of the judgement sends\<close>

lemma call_order_changes_adjust: "call env (Adjust sl tp sd dry) s = (resp, t) \<Longrightarrow> order_changes b (sent t) = order_changes b (sent s)"
  by (simp add: call_sent order_changes_append)

lemma adjust_order_changes: "adjust_levels env sl tp dry sd s = (ok, t) \<Longrightarrow> order_changes b (sent t) = order_changes b (sent s)"
  by (auto simp: adjust_levels_def split: if_splits prod.splits response.splits dest: call_order_changes_adjust)

lemma same_sent_order_changes: "same_sent s t \<Longrightarrow> order_changes b (sent t) = order_changes b (sent s)"
  by (simp add: same_sent_def)

lemma apply_levels_order_changes:
  "apply_levels env rec a sd mark s = (lv, t) \<Longrightarrow> order_changes b (sent t) = order_changes b (sent s)"
  using same_sent_writes(3)
  by (auto simp: apply_levels_def Let_def same_sent_def split: option.splits if_splits prod.splits sum.splits
      dest: adjust_order_changes)

lemma adjust_calls: "adjust_levels env sl tp dry sd s = (r, t) \<Longrightarrow> \<exists>cs. sent t = sent s @ cs"
  by (auto simp: adjust_levels_def dest: call_sent split: if_splits prod.splits response.splits)

lemma apply_levels_sent: "apply_levels env rec a sd mark s = (lv, t) \<Longrightarrow> \<exists>cs. sent t = sent s @ cs"
  using same_sent_writes(3)
  by (auto simp: apply_levels_def Let_def same_sent_def split: option.splits if_splits prod.splits sum.splits
      dest: adjust_calls)

lemma unread_sent_after: "sent u = sent s @ cs \<Longrightarrow> unread_sent a u t \<Longrightarrow> unread_sent a s t"
  unfolding unread_sent_def by (metis append.assoc)

text \<open>A trim and an add move no leg; what can go wrong is an answer that cannot be read.\<close>

lemma one_step_outcome:
  assumes "steps_of sig = [x]" "step_changes x = []" "emit env sig a mark st cs os s = (r, t)"
  shows "(\<forall>b. order_changes b (sent t) = order_changes b (sent s)) \<or> r = Inl ValueError \<and> unread_sent a s t"
proof -
  have "concat (map step_changes (steps_of sig)) = []" by (simp add: assms(1,2))
  from emit_outcome [OF assms(3), unfolded this] emit_one_step [OF assms(1,3)] show ?thesis by simp blast
qed

lemma fire_trim_outcome:
  assumes "fire_trim env a sd share mark s = (r, t)"
  shows "(\<forall>b. order_changes b (sent t) = order_changes b (sent s)) \<or> r = Inl ValueError \<and> unread_sent a s t"
proof -
  have "steps_of (trim_signal sd) = [x] \<Longrightarrow> step_changes x = []" for x by (cases sd) auto
  moreover have "\<exists>x. steps_of (trim_signal sd) = [x]" by (cases sd) auto
  ultimately have "(\<forall>b. order_changes b (sent u) = order_changes b (sent s)) \<or> q = Inl ValueError \<and> unread_sent a s u"
    if "emit env (trim_signal sd) a mark st c None s = (q, u)" for st c q u
    using one_step_outcome [OF _ _ that] by blast
  with assms show ?thesis
    by (fastforce simp: fire_trim_def Let_def split: option.splits if_splits prod.splits sum.splits)
qed

lemma fire_add_outcome:
  assumes "fire_add env a sd m2 mark s = (r, t)"
  shows "(\<forall>b. order_changes b (sent t) = order_changes b (sent s)) \<or> r = Inl ValueError \<and> unread_sent a s t"
proof -
  have "steps_of (add_signal sd) = [x] \<Longrightarrow> step_changes x = []" for x by (cases sd) auto
  moreover have "\<exists>x. steps_of (add_signal sd) = [x]" by (cases sd) auto
  ultimately have "(\<forall>b. order_changes b (sent u) = order_changes b (sent s)) \<or> q = Inl ValueError \<and> unread_sent a s u"
    if "emit env (add_signal sd) a mark st None c s = (q, u)" for st c q u
    using one_step_outcome [OF _ _ that] by blast
  moreover have "order_changes b (sent (clear_stop_price now u a sd)) = order_changes b (sent u)" for now u b
    by (rule same_sent_order_changes) simp
  ultimately show ?thesis
    using assms by (fastforce simp: fire_add_def Let_def split: option.splits if_splits prod.splits sum.splits)
qed

text \<open>The call of a decision: all its changes ordered, none, the first half, or unread.\<close>

lemma emit_decided_outcome:
  assumes "emit_decided env st a mark d s = (r, t)" "moves_as_ordered d" "d_emit d"
  shows "(\<exists>q. r = Inr (True, q) \<and> (\<forall>b. order_changes b (sent t) =
            order_changes b (sent s) @ (if b = a then d_advance_legs d else [])))
       \<or> (\<exists>q. r = Inr (False, q) \<and> ((\<forall>b. order_changes b (sent t) = order_changes b (sent s)) \<or>
            half_sent a s t \<and> \<not> d_is_trim d \<and> d_advance_legs d \<noteq> []))
       \<or> (\<exists>e. r = Inl e \<and> d_advance_legs d = [] \<and> (\<forall>b. order_changes b (sent t) = order_changes b (sent s)))
       \<or> (r = Inl ValueError \<and> unread_sent a s t)"
proof (cases "d_is_trim d \<or> d_is_add d")
  case True
  with assms(2) have d: "d_advance_legs d = []" by (simp add: moves_as_ordered_def)
  have "(\<forall>b. order_changes b (sent t) = order_changes b (sent s)) \<or> r = Inl ValueError \<and> unread_sent a s t"
    using assms(1) True
    by (fastforce simp: emit_decided_def split: if_splits option.splits prod.splits sum.splits
        dest: fire_trim_outcome fire_add_outcome)
  with d show ?thesis by (cases r) auto
next
  case False
  obtain re where em: "emit env (d_intended_signal d) a mark st None None s = (re, t)"
    and r: "r = (case re of Inl e \<Rightarrow> Inl e | Inr ok \<Rightarrow> Inr (ok, None, None))"
    using assms(1) False by (auto simp: emit_decided_def split: prod.splits sum.splits)
  have ch: "concat (map step_changes (steps_of (d_intended_signal d))) = d_advance_legs d"
    using False assms(2,3) by (simp add: moves_as_ordered_def)
  have "d_advance_legs d \<noteq> []" if "half_sent a s t"
  proof -
    have "steps_of (d_intended_signal d) \<noteq> []" using that emit_no_step [OF _ em] by (auto simp: half_sent_def)
    moreover have "steps_of (d_intended_signal d) \<noteq> [x]" for x using that emit_one_step [OF _ em] by blast
    ultimately show ?thesis using ch by (cases "d_intended_signal d") auto
  qed
  with emit_outcome [OF em] r ch False show ?thesis by auto
qed

text \<open>An emission: what it leaves to record is what was accepted, or the books are half made.\<close>

lemma emission_outcome:
  assumes em: "emission env Live rec asset l mark d s = (r, t)" and mo: "moves_as_ordered d"
    and st: "e_strategy env \<noteq> None"
  shows "(\<exists>d2 x. r = Inr (d2, x) \<and> moves_as_ordered d2 \<and> (\<forall>b. order_changes b (sent t) =
            order_changes b (sent s) @ (if asset = Some b then d_advance_legs d2 else [])))
       \<or> (\<exists>d2 x a. r = Inr (d2, x) \<and> d2 = refuse_decision Emit_failed l d \<and> asset = Some a \<and> half_sent a s t \<and>
            d_advance_legs d \<noteq> [])
       \<or> (\<exists>e. r = Inl e \<and> (\<forall>b. order_changes b (sent t) = order_changes b (sent s)))
       \<or> (\<exists>a. r = Inl ValueError \<and> asset = Some a \<and> unread_sent a s t)"
proof (cases "asset \<noteq> None \<and> d_emit d")
  case False
  with em have "t = s" "r = Inr (d, Shadow_mode, None, None)"
    by (auto simp: emission_def split: option.splits)
  moreover from False mo have "asset \<noteq> None \<Longrightarrow> d_advance_legs d = []"
    by (auto simp: moves_as_ordered_def split: if_splits)
  ultimately show ?thesis
    using mo by (cases asset) auto
next
  case True
  then obtain a stg where a: "asset = Some a" "e_strategy env = Some stg" "d_emit d" using st by auto
  obtain r' s' where ed: "emit_decided env stg a mark d s = (r', s')" by force
  note em' = em [unfolded emission_def a option.case prod.case ed]
  have sent: "sent t = sent s'"
    using em' a same_sent_writes(7)
    by (auto simp: record_fired_trim_def same_sent_def split: sum.splits if_splits option.splits prod.splits)
  consider (all) q where "r' = Inr (True, q)"
      "\<forall>b. order_changes b (sent s') = order_changes b (sent s) @ (if b = a then d_advance_legs d else [])"
    | (none) q where "r' = Inr (False, q)" "\<forall>b. order_changes b (sent s') = order_changes b (sent s)"
    | (half) q where "r' = Inr (False, q)" "half_sent a s s'" "d_advance_legs d \<noteq> []"
    | (raised) e where "r' = Inl e" "\<forall>b. order_changes b (sent s') = order_changes b (sent s)"
    | (unread) "r' = Inl ValueError" "unread_sent a s s'"
    using emit_decided_outcome [OF ed mo a(3)] by blast
  then show ?thesis
  proof cases
    case all
    show ?thesis
    proof (cases "d_is_trim d")
      case True
      with mo have "d_advance_legs d = []" by (simp add: moves_as_ordered_def)
      with True all em' a mo sent show ?thesis
        by (cases q) (auto split: sum.splits option.splits)
    next
      case False
      with all em' a mo sent show ?thesis by (cases q) auto
    qed
  next
    case none
    with em' a sent show ?thesis by (cases q) (auto simp: refuse_decision_def moves_as_ordered_def)
  next
    case half
    with em' a sent show ?thesis by (cases q) (auto simp: half_sent_def)
  next
    case raised
    with em' a sent show ?thesis by auto
  next
    case unread
    with em' a sent show ?thesis by (auto simp: unread_sent_def)
  qed
qed

lemma emission_other:
  assumes em: "emission env phase rec asset l mark d s = (r, t)" and b: "asset \<noteq> Some b"
  shows "order_changes b (sent t) = order_changes b (sent s)"
proof -
  have clr: "order_changes b (sent (clear_stop_price now u a sd)) = order_changes b (sent u)" for now u a sd
    by (rule same_sent_order_changes) simp
  have "order_changes b (sent u) = order_changes b (sent s)"
    if "emit_decided env st a mark d s = (q, u)" "asset = Some a" for st a q u
    using that b clr emit_other [of env _ a _ _ _ _ s _ _ b]
    by (fastforce simp: emit_decided_def fire_trim_def fire_add_def Let_def
        split: if_splits option.splits prod.splits sum.splits)
  with em show ?thesis
    using same_sent_order_changes [OF same_sent_writes(7), of b]
    by (fastforce simp: emission_def record_fired_trim_def split: if_splits option.splits prod.splits sum.splits)
qed

section \<open>One judgement\<close>

text \<open>
  How one judgement leaves the books. Booked: what was ordered is what is recorded. Half made:
  the two orders of a move went out and only the first was taken. Unread: the last order was
  taken and its answer could not be read. In the last two the legs stay as they were recorded.
\<close>

definition booked :: "social \<Rightarrow> social \<Rightarrow> bool" where
  "booked s t \<longleftrightarrow> legs_invar t \<and> (\<exists>asset made.
     (\<forall>b. order_changes b (sent t) = order_changes b (sent s) @ (if asset = Some b then made else [])) \<and>
     (\<forall>b. get_legs t b = (if asset = Some b then apply_changes made (get_legs s b) else get_legs s b)))"

definition legs_kept :: "asset \<Rightarrow> social \<Rightarrow> social \<Rightarrow> bool" where
  "legs_kept a s t \<longleftrightarrow> legs_invar t \<and> (\<forall>b. get_legs t b = get_legs s b) \<and>
     (\<forall>b. b \<noteq> a \<longrightarrow> order_changes b (sent t) = order_changes b (sent s))"

definition books_after :: "social \<Rightarrow> py_error option \<Rightarrow> social \<Rightarrow> bool" where
  "books_after s e t \<longleftrightarrow> booked s t \<or> (\<exists>a. legs_kept a s t \<and>
     (e = None \<and> half_sent a s t \<or> e = Some ValueError \<and> unread_sent a s t))"

lemma booked_nothing: "legs_invar s \<Longrightarrow> same_legs s t \<Longrightarrow> (\<And>b. order_changes b (sent t) = order_changes b (sent s))
    \<Longrightarrow> books_after s e t"
  unfolding books_after_def booked_def same_legs_def
  by (intro disjI1 conjI exI [of _ None]) auto

lemma levels_first_frames:
  assumes "levels_first env phase rec asset l mark d s = (lv, s1)"
  shows "same_legs s s1" and "order_changes b (sent s1) = order_changes b (sent s)"
    and "\<exists>cs. sent s1 = sent s @ cs" and "d_advance_legs d \<noteq> [] \<Longrightarrow> s1 = s"
  using assms
  by (auto simp: levels_first_def split: option.splits if_splits
      dest: apply_levels_same_legs apply_levels_order_changes apply_levels_sent)

lemma carry_out_books:
  assumes inv: "legs_invar s" and st: "e_strategy env \<noteq> None" and mo: "moves_as_ordered d0"
    and co: "carry_out env Live rec asset l mark d0 s = (e, t)"
  shows "books_after s e t"
  using co
proof (cases rule: carry_out_cases)
  case (unlevelled d1 err)
  then show ?thesis using levels_first_frames(1,2) [OF unlevelled(2)] by (intro booked_nothing [OF inv])
next
  case (raised d1 lv s1 err)
  then have "moves_as_ordered d1" using dedupe_moves_as_ordered [OF mo] by simp
  note fr = levels_first_frames [OF raised(2)]
  have sl: "same_legs s t" using legs_frame.frame_trans [OF fr(1) emission_same_legs [OF raised(3)]] .
  from emission_outcome [OF raised(3) \<open>moves_as_ordered d1\<close> st] consider
      "\<forall>b. order_changes b (sent t) = order_changes b (sent s1)"
    | a where "err = ValueError" "asset = Some a" "unread_sent a s1 t" by auto
  then show ?thesis
  proof cases
    case 1
    with sl fr(2) show ?thesis by (intro booked_nothing [OF inv]) auto
  next
    case (2 a)
    have "unread_sent a s t" using fr(3) unread_sent_after [OF _ 2(3)] by blast
    moreover have "legs_kept a s t"
      using sl inv emission_other [OF raised(3)] fr(2) 2(2) by (auto simp: legs_kept_def same_legs_def)
    ultimately show ?thesis using 2(1) raised(4) by (auto simp: books_after_def)
  qed
next
  case (unparked d1 lv s1 em s2 err)
  then have d1: "moves_as_ordered d1" using dedupe_moves_as_ordered [OF mo] by simp
  obtain d2 x where em: "em = (d2, x)" by (rule prod.exhaust)
  note fr = levels_first_frames [OF unparked(2)]
  have "same_legs s t"
    using fr(1) emission_same_legs [OF unparked(3)] unparked(4) by (metis legs_frame.frame_trans same_legs_writes(1))
  moreover have "order_changes b (sent t) = order_changes b (sent s)" for b
  proof -
    from unparked(5) em have "d_park d2" by (auto simp: park_trim_def split: option.splits if_splits)
    then have "moves_as_ordered d2 \<Longrightarrow> d_advance_legs d2 = []" "\<not> d2 = refuse_decision Emit_failed l d1"
      by (auto simp: moves_as_ordered_def refuse_decision_def)
    with emission_outcome [OF unparked(3) [unfolded em] d1 st]
    have "order_changes b (sent s2) = order_changes b (sent s1)" by auto
    then show ?thesis
      using fr(2) same_sent_order_changes [OF same_sent_writes(5)] unparked(4) by metis
  qed
  ultimately show ?thesis by (rule booked_nothing [OF inv])
next
  case (finished d1 lv s1 em s2 s4)
  then have d1: "moves_as_ordered d1" using dedupe_moves_as_ordered [OF mo] by simp
  obtain d2 x where em: "em = (d2, x)" by (rule prod.exhaust)
  note fr = levels_first_frames [OF finished(2)]
  have "same_legs s s4"
    using fr(1) emission_same_legs [OF finished(3)] park_same_legs [OF finished(4)]
    by (metis legs_frame.frame_trans same_legs_writes(1))
  then have s4: "legs_invar s4" "\<And>b. get_legs s4 b = get_legs s b"
    using inv by (auto simp: same_legs_def)
  have "sent s4 = sent s2"
    using same_sent_park [OF finished(4)] same_sent_writes(5) unfolding same_sent_def by metis
  then have sent: "sent t = sent s2"
    using same_sent_advance [of s4 env rec asset "fst em"] finished(5) by (simp add: same_sent_def)
  from emission_outcome [OF finished(3) [unfolded em] d1 st] consider
      "moves_as_ordered d2" "\<forall>b. order_changes b (sent s2) =
        order_changes b (sent s1) @ (if asset = Some b then d_advance_legs d2 else [])"
    | a where "d2 = refuse_decision Emit_failed l d1" "asset = Some a" "half_sent a s1 s2" "d_advance_legs d1 \<noteq> []"
    by auto
  then show ?thesis
  proof cases
    case 1
    then have d2: "distinct (map fst (d_advance_legs d2))" "d_advance d2 \<longleftrightarrow> d_advance_legs d2 \<noteq> []"
      by (auto simp: moves_as_ordered_def)
    show ?thesis
      unfolding books_after_def booked_def
      using advance_legs [OF s4(1) d2(1), of env rec asset] finished(5) em s4(2) d2(2) 1(2) fr(2) sent
      by (intro disjI1 conjI exI [of _ asset] exI [of _ "d_advance_legs d2"]) auto
  next
    case (2 a)
    with fr(4) have "half_sent a s t" using sent by (simp add: half_sent_def)
    moreover have "legs_kept a s t"
      using advance_legs [OF s4(1), of d2 env rec asset] finished(5) em s4(2) emission_other [OF finished(3)] fr(2) sent 2(1,2)
      by (auto simp: legs_kept_def refuse_decision_def)
    ultimately show ?thesis using finished(6) by (auto simp: books_after_def)
  qed
qed

lemma judge_books:
  assumes inv: "legs_invar s" and st: "e_strategy env \<noteq> None" and j: "judge env Live rec s = (e, t)"
  shows "books_after s e t"
  using j
proof (cases rule: judge_cases)
  case (levels a)
  obtain lv u where al: "apply_levels env rec a (levels_side rec (get_legs s a)) (e_mark env a) s = (lv, u)" by force
  then have "t = u \<or> (\<exists>row. t = insert_shadow_order u (r_msg_id rec) row)"
    using levels(3) by (auto simp: levels_only_def Let_def split: sum.splits)
  then have "same_legs u t" "same_sent u t" by auto
  moreover note apply_levels_same_legs [OF al] apply_levels_order_changes [OF al]
  ultimately show ?thesis
    using legs_frame.frame_trans by (intro booked_nothing [OF inv]) (auto simp: same_sent_def)
next
  case (decided d asset l mark)
  from carry_out_books [OF inv st evaluate_moves_as_ordered [OF decided(5)] decided(6)] show ?thesis .
qed (use booked_nothing [OF inv same_legs_refl] in auto)

lemma handle_books:
  assumes inv: "legs_invar s" and st: "e_strategy env \<noteq> None" and h: "handle env rd msgs Live s = (e, t)"
  shows "books_after s e t"
proof -
  let ?ins = "\<lambda>rec. snd (insert_signal s rec)"
  have same: "same_legs s (?ins rec)" "sent (?ins rec) = sent s" for rec
    using same_sent_writes(11) by (auto simp: same_sent_def)
  have tr: "books_after (?ins rec) e t \<Longrightarrow> books_after s e t" for rec
  proof -
    have gl: "get_legs (?ins rec) = get_legs s" using same(1) inv by (auto simp: same_legs_def)
    show "books_after (?ins rec) e t \<Longrightarrow> books_after s e t"
      unfolding books_after_def booked_def legs_kept_def half_sent_def unread_sent_def same(2) gl .
  qed
  have i2: "legs_invar (?ins rec)" for rec using same(1) inv by (simp add: same_legs_def)
  consider "t = s" | rec where "judge env Live rec s = (e, t)" | rec where "judge env Live rec (?ins rec) = (e, t)"
    using h by (auto simp: handle_def handle_locked_def Let_def split: list.splits if_splits option.splits prod.splits)
  then show ?thesis
  proof cases
    case 1
    with booked_nothing [OF inv same_legs_refl] show ?thesis by blast
  next
    case 2
    with judge_books [OF inv st] show ?thesis by blast
  next
    case (3 rec)
    with judge_books [OF i2 st] tr show ?thesis by blast
  qed
qed

text \<open>
  C3. The books stay balanced. If the recorded legs of every asset are what the accepted
  orders made up, they still are after a live post has been handled to its end or to an
  exception, with two exceptions. Either the decision had two steps and the only calls of
  the post are its two orders, the first accepted and the second not; or the last order was
  accepted and its answer could not be read, which raises. In both the recorded legs stay as
  they were and every other asset is balanced. (A judgement that is cancelled halfway, see
  \<open>arrival_cancels_judgement\<close>, is not handled to its end.)
\<close>

theorem books_balance:
  assumes "legs_invar s" and "e_strategy env \<noteq> None"
    and "handle env rd msgs Live s = (e, t)"
    and "\<And>b. get_legs s b = exchange_legs b (sent s)"
  shows "legs_invar t \<and>
    ((\<forall>b. get_legs t b = exchange_legs b (sent t)) \<or>
     (\<exists>a. (e = None \<and> half_sent a s t \<or> e = Some ValueError \<and> unread_sent a s t) \<and>
        (\<forall>b. get_legs t b = get_legs s b) \<and> (\<forall>b. b \<noteq> a \<longrightarrow> get_legs t b = exchange_legs b (sent t))))"
  using handle_books [OF assms(1-3)] unfolding books_after_def
proof (elim disjE exE conjE)
  assume "booked s t"
  with assms(4) show ?thesis by (auto simp: booked_def exchange_legs_def apply_changes_append)
next
  fix a
  assume k: "legs_kept a s t" and "e = None" "half_sent a s t"
  with assms(4) show ?thesis by (auto simp: legs_kept_def exchange_legs_def)
next
  fix a
  assume k: "legs_kept a s t" and "e = Some ValueError" "unread_sent a s t"
  with assms(4) show ?thesis by (auto simp: legs_kept_def exchange_legs_def)
qed

end
