(* ===== verification/SocialReach.thy ===== *)
theory SocialReach
  imports SocialAccounting
begin

text \<open>
  Whole runs of the listener. The live buffer, the catch-up loop and the watcher are tasks of
  one process: between the reading of the legs and their writing a task awaits, and the others
  run. So a run is made of single writes to the legs, in any order the tasks produce: a leg is
  closed; a leg is opened by a decision that was taken on legs read at an earlier point of the
  run; and anything else an operation does moves no leg. The account's mode is fixed when the
  process starts; settings, clock, prices and answers may differ at every step.

  The rule for opening carries the one thing the code does not check: that since the decision's
  post read the legs, no other task has opened a leg of the asset and the decision's own
  closings are written. A post handled with no other between meets it (\<open>handle_runs\<close>); two
  posts that interleave need not (\<open>racing_posts_hold_both\<close>).
\<close>

inductive social_run :: "bool \<Rightarrow> social \<Rightarrow> social \<Rightarrow> bool" for multi where
  here: "social_run multi s s"
| quiet: "social_run multi s t \<Longrightarrow> same_legs t u \<Longrightarrow> social_run multi s u"
| closes: "social_run multi s t \<Longrightarrow> social_run multi s (close_leg t a sd k)"
| opens: "social_run multi s r \<Longrightarrow> social_run multi r t \<Longrightarrow>
    evaluate cfg rec phase (get_legs r a) mark imp seen multi = Inr d \<Longrightarrow>
    (sd, True) \<in> set (d_advance_legs d) \<Longrightarrow>
    (\<forall>x. is_open (get_legs t a) x \<longrightarrow> is_open (get_legs r a) x \<and> (x, False) \<notin> set (d_advance_legs d)) \<Longrightarrow>
    social_run multi s (open_leg now t a sd k)"

inductive_cases social_runE: "social_run multi s t"

section \<open>One leg at a time on a net account\<close>

definition single_legs :: "social \<Rightarrow> bool" where
  "single_legs s \<longleftrightarrow> legs_invar s \<and> (\<forall>a. legs_count (get_legs s a) \<le> 1)"

lemma same_legs_single: "same_legs s t \<Longrightarrow> single_legs s \<Longrightarrow> single_legs t"
  by (auto simp: same_legs_def single_legs_def)

lemma fewer_legs_count:
  "(\<And>x. is_open l x \<Longrightarrow> is_open m x) \<Longrightarrow> legs_count m \<le> 1 \<Longrightarrow> legs_count l \<le> 1"
  unfolding count_le_1_iff by blast

lemma close_single: "single_legs s \<Longrightarrow> single_legs (close_leg s a sd k)"
proof -
  assume s: "single_legs s"
  then have "legs_count (get_legs s a) \<le> 1" by (simp add: single_legs_def)
  moreover have "is_open (get_legs s a) x" if "is_open (with_side (get_legs s a) sd False) x" for x
    using that by (simp split: if_splits)
  ultimately have "legs_count (with_side (get_legs s a) sd False) \<le> 1"
    using fewer_legs_count by blast
  with s show ?thesis by (simp add: single_legs_def get_legs_close)
qed

text \<open>The write that opens a leg: the legs it leaves are among those its decision names.\<close>

lemma open_single:
  assumes "single_legs r" "single_legs t"
    and ev: "evaluate cfg rec phase (get_legs r a) mark imp now False = Inr d"
    and sd: "(sd, True) \<in> set (d_advance_legs d)"
    and since: "\<And>x. is_open (get_legs t a) x \<Longrightarrow> is_open (get_legs r a) x \<and> (x, False) \<notin> set (d_advance_legs d)"
  shows "single_legs (open_leg now' t a sd k)"
proof -
  have dist: "distinct (map fst (d_advance_legs d))"
    using evaluate_moves_as_ordered [OF ev] by (simp add: moves_as_ordered_def)
  have to: "is_open (d_to_legs d) x \<longleftrightarrow> (case map_of (d_advance_legs d) x of Some b \<Rightarrow> b | None \<Rightarrow> is_open (get_legs r a) x)" for x
    using is_open_apply_changes [OF dist] evaluate_legs(1) [OF ev] by simp
  have cnt: "legs_count (d_to_legs d) \<le> 1"
    using evaluate_legs(2) [OF ev] assms(1) by (simp add: single_legs_def)
  have "is_open (d_to_legs d) sd"
    using to sd dist by simp
  moreover have "is_open (d_to_legs d) x" if "is_open (get_legs t a) x" for x
    using since [OF that] to [of x] by (auto split: option.split dest: map_of_SomeD)
  ultimately have "legs_count (with_side (get_legs t a) sd True) \<le> 1"
    by (intro fewer_legs_count [OF _ cnt]) (auto split: if_splits)
  with assms(2) show ?thesis by (simp add: single_legs_def get_legs_open)
qed

text \<open>
  C5. On a net account (multi-position off) no run of the service, whatever the posts, the
  market, the answers and the restarts replay, and however its tasks interleave, ever records
  a long and a short of one asset together, as long as no leg of an asset is opened between the
  reading and the writing of a post on that asset.
\<close>

theorem net_account_single_leg:
  assumes "social_run False s t" and "single_legs s"
  shows "single_legs t"
  using assms
proof (induction rule: social_run.induct)
  case (opens s r t cfg rec phase a mark imp seen d sd now k)
  then show ?case by (intro open_single [of r t]) auto
qed (auto intro: same_legs_single close_single)

section \<open>The code's operations are runs\<close>

lemma run_trans: "social_run multi s t \<Longrightarrow> social_run multi r s \<Longrightarrow> social_run multi r t"
  by (induction arbitrary: r rule: social_run.induct) (blast intro: social_run.intros)+

lemma run_quiet: "same_legs s t \<Longrightarrow> social_run multi s t"
  by (rule social_run.quiet [OF social_run.here])

lemma emission_decision:
  "emission env phase rec asset l mark d s = (Inr (d2, x), t) \<Longrightarrow> d2 = d \<or> d2 = refuse_decision Emit_failed l d"
  by (auto simp: emission_def split: if_splits option.splits prod.splits sum.splits)

lemma dedupe_decision:
  "dedupe_trim env phase a l d s = d \<or> (\<exists>r. dedupe_trim env phase a l d s = refuse_decision r l d)"
  by (auto simp: dedupe_trim_def split: option.splits)

lemma refuse_fields [simp]:
  "\<not> d_advance (refuse_decision r l d)" "d_advance_legs (refuse_decision r l d) = []"
  "\<not> d_emit (refuse_decision r l d)" "\<not> d_park (refuse_decision r l d)"
  "refuse_decision r l (refuse_decision r' l d) = refuse_decision r l d"
  by (simp_all add: refuse_decision_def)

text \<open>The leg changes a decision can ask for.\<close>

lemma plan_changes:
  assumes "plan_move a rec l multi = Inr (sig, want, ch, gl)"
  shows "(\<exists>x. ch = [(x, False)]) \<or> ch = [(LONG, False), (SHORT, False)]
    \<or> (\<exists>w. ch = [(opposite w, False), (w, True)]) \<or> (\<exists>w. ch = [(w, True)])"
proof (cases "a = CLOSE")
  case True
  with assms show ?thesis
    by (auto simp: plan_move_def plan_close_def split: sum.splits if_splits option.splits)
next
  case False
  from plan_move_entry [OF assms this] show ?thesis by metis
qed

lemma evaluate_changes:
  assumes "evaluate cfg rec phase l mark imp now multi = Inr d"
  shows "d_advance_legs d = [] \<or> (\<exists>x. d_advance_legs d = [(x, False)])
    \<or> d_advance_legs d = [(LONG, False), (SHORT, False)]
    \<or> (\<exists>w. d_advance_legs d = [(opposite w, False), (w, True)]) \<or> (\<exists>w. d_advance_legs d = [(w, True)])"
  using evaluate_decided [OF assms] by cases (auto dest: plan_changes)

lemma changes_run:
  assumes inv: "legs_invar t" and ev: "evaluate (e_cfg env) rec phase (get_legs t a) mark imp (e_now env) multi = Inr d"
  shows "social_run multi t (apply_leg_changes now t a (d_advance_legs d) k)"
proof -
  have op: "social_run multi t (open_leg now u a w k)"
    if "social_run multi t u" "(w, True) \<in> set (d_advance_legs d)"
      "\<forall>x. is_open (get_legs u a) x \<longrightarrow> is_open (get_legs t a) x \<and> (x, False) \<notin> set (d_advance_legs d)" for u w
    using social_run.opens [OF social_run.here that(1) ev that(2,3)] .
  have cl: "social_run multi t (close_leg t a x k)" for x
    by (rule social_run.closes [OF social_run.here])
  from evaluate_changes [OF ev] show ?thesis
  proof (elim disjE exE)
    fix w assume d: "d_advance_legs d = [(opposite w, False), (w, True)]"
    have "social_run multi t (open_leg now (close_leg t a (opposite w) k) a w k)"
      by (rule op [OF cl]) (auto simp: d get_legs_close [OF inv] split: if_splits)
    with d show ?thesis by (simp add: apply_leg_changes_def insort_key_def)
  next
    fix w assume d: "d_advance_legs d = [(w, True)]"
    have "social_run multi t (open_leg now t a w k)"
      by (rule op [OF social_run.here]) (auto simp: d)
    with d show ?thesis by (simp add: apply_leg_changes_def)
  qed (auto simp: apply_leg_changes_def intro: social_run.here social_run.closes cl)
qed

text \<open>One judgement, with nothing between, is a run; so are a handled post and a watcher turn.\<close>

lemma carry_out_runs:
  assumes inv: "legs_invar s"
    and ev: "\<And>a. asset = Some a \<Longrightarrow>
      evaluate (e_cfg env) rec phase (get_legs s a) mark imp (e_now env) multi = Inr d0"
    and co: "carry_out env phase rec asset l mark d0 s = (e, t)"
  shows "social_run multi s t"
  using co
proof (cases rule: carry_out_cases)
  case (unlevelled d1 err)
  show ?thesis by (rule run_quiet [OF levels_first_frames(1) [OF unlevelled(2)]])
next
  case (raised d1 lv s1 err)
  show ?thesis
    by (rule run_quiet [OF legs_frame.frame_trans [OF levels_first_frames(1) [OF raised(2)] emission_same_legs [OF raised(3)]]])
next
  case (unparked d1 lv s1 em s2 err)
  have "same_legs s s2"
    using legs_frame.frame_trans [OF levels_first_frames(1) [OF unparked(2)] emission_same_legs [OF unparked(3)]] .
  then have "same_legs s t"
    using legs_frame.frame_trans same_legs_writes(1) unparked(4) by metis
  then show ?thesis by (rule run_quiet)
next
  case (finished d1 lv s1 em s2 s4)
  obtain d2 x where em: "em = (d2, x)" by (rule prod.exhaust)
  have s4: "same_legs s s4"
    using levels_first_frames(1) [OF finished(2)] emission_same_legs [OF finished(3)] park_same_legs [OF finished(4)]
    by (metis legs_frame.frame_trans same_legs_writes(1))
  have "d2 = d0 \<or> \<not> d_advance d2"
    using emission_decision [OF finished(3) [unfolded em]] dedupe_decision [of env phase asset l d0 s] finished(1)
    by (metis refuse_fields(1))
  moreover have "social_run multi s4 t" if "d2 = d0" "asset = Some a" "d_advance d0" for a
  proof -
    have "legs_invar s4" "get_legs s4 a = get_legs s a" using s4 inv by (auto simp: same_legs_def)
    then have "social_run multi s4 (apply_leg_changes (e_now env) s4 a (d_advance_legs d0) (r_msg_id rec))"
      using ev [OF that(2)] by (intro changes_run) auto
    moreover have "same_legs u (fold (\<lambda>(sd, is_opn) t. if is_opn then t else cancel_pending_trims (e_now env) t a sd) ch u)" for u ch
      by (rule legs_frame.fold_frame) (auto split: prod.splits)
    ultimately show ?thesis
      using finished(5) em that by (auto simp: advance_state_def intro: social_run.quiet)
  qed
  ultimately have "social_run multi s4 t"
    using finished(5) em social_run.here by (cases asset) (auto simp: advance_state_def)
  then show ?thesis using run_trans [OF _ run_quiet [OF s4]] by blast
qed

lemma judge_runs:
  assumes inv: "legs_invar s" and multi: "e_multi env = multi" and j: "judge env phase rec s = (e, t)"
  shows "social_run multi s t"
  using j
proof (cases rule: judge_cases)
  case (levels a)
  obtain lv u where al: "apply_levels env rec a (levels_side rec (get_legs s a)) (e_mark env a) s = (lv, u)" by force
  then have "t = u \<or> (\<exists>row. t = insert_shadow_order u (r_msg_id rec) row)"
    using levels(3) by (auto simp: levels_only_def Let_def split: sum.splits)
  then have "same_legs u t" by auto
  then show ?thesis using apply_levels_same_legs [OF al] by (metis legs_frame.frame_trans run_quiet)
next
  case (decided d asset l mark)
  show ?thesis
    by (rule carry_out_runs [OF inv _ decided(6), of "implied_ref env phase asset rec"])
      (use decided(2,5) multi in \<open>auto simp: asset_legs_def\<close>)
qed (auto intro: social_run.here)

lemma handle_runs:
  assumes inv: "legs_invar s" and multi: "e_multi env = multi"
  shows "social_run multi s (snd (handle env rd msgs phase s))"
proof -
  have j: "social_run multi s (snd (judge env phase rec t))" if "same_legs s t" for rec t
    using judge_runs [OF _ multi, of t phase rec] that inv run_trans [OF _ run_quiet [OF that]]
    by (metis same_legs_def surjective_pairing)
  have i: "same_legs s (snd (insert_signal s rec))" for rec by (rule same_legs_writes(7))
  show ?thesis
    using j [OF same_legs_refl] j [OF i] social_run.here
    by (auto simp: handle_def handle_locked_def Let_def split: list.splits option.splits prod.splits)
qed

lemma sweep_trim_same_legs: "same_legs u (snd (sweep_trim env t u))"
proof -
  have "same_legs u v \<Longrightarrow> same_legs u (resolve_shadow_order (resolve_pending_trim now v i st) k dec rsn mk cs mode)"
      for v now i st k dec rsn mk cs mode
    using legs_frame.frame_trans same_legs_writes(2,4) by metis
  then show ?thesis
    by (auto simp: sweep_trim_def Let_def split: option.splits prod.splits sum.splits
        dest!: fire_trim_tables same_tables_same_legs)
qed

lemma sweep_trims_legs: "same_legs s (snd (sweep_pending_trims env s))"
  unfolding sweep_pending_trims_def Let_def
  by (rule legs_frame.frame_trans [OF same_legs_writes(5) legs_frame.sweep_frame [OF sweep_trim_same_legs]])

lemma sweep_stop_legs: "same_legs s (snd (sweep_stop env row s))"
  by (auto simp: sweep_stop_def Let_def split: prod.splits option.splits sum.splits
      dest!: adjust_same_tables same_tables_same_legs
      intro: legs_frame.frame_trans [OF _ same_legs_levels(1)])

lemma sweep_stops_legs: "same_legs s (snd (sweep_standing_stops env s))"
  by (simp add: sweep_standing_stops_def legs_frame.sweep_frame [of "sweep_stop env", OF sweep_stop_legs])

lemma sweep_closed_row_runs: "social_run multi s t \<Longrightarrow> social_run multi s (sweep_closed_row env row t)"
  by (auto simp: sweep_closed_row_def split: prod.splits
      intro: social_run.quiet [OF social_run.closes same_legs_writes(6)])

lemma watcher_runs: "social_run multi s (watcher_tick env s)"
proof -
  have "social_run multi s t \<Longrightarrow> social_run multi s (fold (sweep_closed_row env) rows t)" for rows t
    by (induction rows arbitrary: t) (auto intro: sweep_closed_row_runs)
  then have "social_run multi s (sweep_closed_legs env s)"
    using social_run.here by (simp add: sweep_closed_legs_def)
  then show ?thesis
    unfolding watcher_tick_def by (intro social_run.quiet [OF _ sweep_stops_legs] social_run.quiet [OF _ sweep_trims_legs])
qed

text \<open>The reconciling sweep can only close legs.\<close>

lemma sweep_closed_row_legs:
  "legs_invar s \<Longrightarrow> legs_invar (sweep_closed_row env row s) \<and>
     (is_open (get_legs (sweep_closed_row env row s) b) x \<longrightarrow> is_open (get_legs s b) x)"
  using same_legs_writes(6)
  by (auto simp: sweep_closed_row_def same_legs_def get_legs_close split: prod.splits if_splits)

lemma sweep_closed_invar: "legs_invar s \<Longrightarrow> legs_invar (sweep_closed_legs env s)"
proof -
  have "legs_invar t \<Longrightarrow> legs_invar (fold (sweep_closed_row env) rows t)" for rows t
    by (induction rows arbitrary: t) (auto dest: sweep_closed_row_legs)
  then show "legs_invar s \<Longrightarrow> legs_invar (sweep_closed_legs env s)" by (simp add: sweep_closed_legs_def)
qed

end
