(* ===== verification/SocialOrders.thy ===== *)
theory SocialOrders
  imports SocialReach
begin

text \<open>
  What single operations of the social listener guarantee: the sizes of trims and adds, the
  levels it moves, and the results of the watcher's sweeps.
\<close>

section \<open>A listener to try things on\<close>

definition demo_settings :: settings where
  "demo_settings = default_settings\<lparr>execution_mode := ''live'', execution_strategy_id := ''s1''\<rparr>"

definition demo_strategy :: strategy where
  "demo_strategy = \<lparr>st_is_deleted = False, st_enabled = True, st_account_id = Some ''acc'',
     st_webhook_secret = Some ''secret'', st_margin_per_trade = Some 100,
     st_default_leverage = Some 5, st_max_leverage = Some 10\<rparr>"

definition demo_position :: "side \<Rightarrow> rat \<Rightarrow> rat \<Rightarrow> position_row" where
  "demo_position sd qty entry = \<lparr>ps_strategy_id = ''s1'', ps_symbol = ''BTC-USDT'', ps_side = sd,
     ps_open = True, ps_size = qty, ps_entry_price = entry, ps_opened_at = 500,
     ps_tp_price = None, ps_sl_price = Some 90\<rparr>"

text \<open>Every call is accepted and confirmed.\<close>

definition demo_env :: env where
  "demo_env = \<lparr>e_cfg = demo_settings, e_strategy = Some demo_strategy, e_multi = False, e_now = 1010,
     e_mark = (\<lambda>_. Some 100), e_stream = (\<lambda>_ _ _. None),
     e_answer = (\<lambda>_ _. Reply 200 False True True True), e_react = (\<lambda>_ ps. ps)\<rparr>"

definition demo_state :: "position_row list \<Rightarrow> ((asset \<times> side) \<times> leg_row) list \<Rightarrow> social" where
  "demo_state ps lt = \<lparr>leg_table = lt, trim_table = [], shadow_table = [], signal_table = [],
     positions = ps, sent = []\<rparr>"

definition demo_leg :: "side \<Rightarrow> (asset \<times> side) \<times> leg_row" where
  "demo_leg sd = ((''BTC'', sd), \<lparr>lr_open = True, lr_msg_id = 1, lr_updated_at = 500,
     lr_stop_price = Some 90, lr_tp_price = None, lr_stop_mode = None\<rparr>)"

text \<open>A reader whose model answers every post with the given extraction.\<close>

definition demo_extraction :: "action_type \<Rightarrow> side option \<Rightarrow> social_extraction" where
  "demo_extraction a d = \<lparr>x_is_actionable = True, x_action_type = a, x_asset = Some ''btc'',
     x_direction = d, x_reference_price = Some 100, x_size_fraction = Some (1/2),
     x_add_multiple = Some (1/2), x_trigger_price = None, x_stop_price = None,
     x_stop_to_breakeven = None, x_take_profit_price = None, x_confidence = 9/10\<rparr>"

definition demo_reader :: "social_extraction \<Rightarrow> reader" where
  "demo_reader x = \<lparr>rd_settings = \<lparr>webpage_resolve_attempts = 3, vision_enabled = True, image_max_bytes = 10\<rparr>,
     rd_fetch = (\<lambda>_ _. None), rd_download = (\<lambda>_. None),
     rd_llm_settings = \<lparr>extractor_provider = ''anthropic'', extractor_model = ''m'',
        extractor_fallbacks = [], provider_keys = (\<lambda>_. [''k'']), env_api_key = (\<lambda>_. [])\<rparr>,
     rd_llm = (\<lambda>_ _ _ _. Parsed x)\<rparr>"

section \<open>Sizes\<close>

lemma emit_one:
  assumes "steps_of sig = [step]" "emit env sig a mark st cs os s = (Inr ok, t)"
  shows "(t = s \<and> \<not> ok) \<or> (\<exists>qty resp. emit_size sig mark st cs os = Some qty \<and> (ok \<longleftrightarrow> accepted resp) \<and>
    sent t = sent s @ [(Order (payload_of step a qty), resp)])"
  using assms
  by (auto simp: emit_def call_def Let_def split: option.splits if_splits prod.splits)

text \<open>The step of a scale-in and of a partial close.\<close>

fun add_step :: "side \<Rightarrow> step" where
  "add_step LONG = St_add_long" | "add_step SHORT = St_add_short"

fun trim_step :: "side \<Rightarrow> step" where
  "trim_step LONG = St_partial_close_long" | "trim_step SHORT = St_partial_close_short"

lemma side_steps [simp]: "steps_of (add_signal sd) = [add_step sd]" "steps_of (trim_signal sd) = [trim_step sd]"
  by (cases sd; simp)+

lemma emit_size_sides:
  "emit_size (add_signal sd) mark st None (Some q) = Some z \<Longrightarrow> z = py_round q 8 \<and> 0 < z"
  "emit_size (trim_signal sd) mark st (Some q) None = Some z \<Longrightarrow> z = py_round q 8 \<and> 0 < z"
  by (cases sd; auto simp: emit_size_def is_partial_def is_add_def Let_def split: if_splits)+

text \<open>
  A scale-in sends at most one order, an add on the leg named, and its size keeps two
  ceilings up to half a unit of the eighth decimal: no more than the multiple of a standard
  entry asked for, and no more in total than the cap on standard entries.
\<close>

theorem fire_add_ceiling:
  assumes "fire_add env a sd m mark s = (Inr (ok, r), t)"
  shows "(\<not> ok \<and> sent t = sent s) \<or>
    (\<exists>st mk pos q resp. e_strategy env = Some st \<and> mark = Some mk \<and>
      open_position (e_cfg env) s a (Some sd) = Some pos \<and>
      sent t = sent s @ [(Order (payload_of (add_step sd) a q), resp)] \<and> (ok \<longleftrightarrow> accepted resp) \<and>
      0 < q \<and> q \<le> m * standard_entry_size st mk + 1 / (2 * 10 ^ 8) \<and>
      ps_size pos + q \<le> max_position_multiple (e_cfg env) * standard_entry_size st mk + 1 / (2 * 10 ^ 8))"
proof (cases "sent t = sent s")
  case True
  with assms show ?thesis
    by (auto simp: fire_add_def Let_def split: option.splits if_splits prod.splits sum.splits
        dest!: emit_one [OF side_steps(1)] simp: same_sent_writes(4) [unfolded same_sent_def])
next
  case False
  with assms obtain st mk pos u where f: "e_strategy env = Some st" "mark = Some mk"
    "open_position (e_cfg env) s a (Some sd) = Some pos"
    "emit env (add_signal sd) a (Some mk) st None
       (Some (py_round (min (m * standard_entry_size st mk)
          (max_position_multiple (e_cfg env) * standard_entry_size st mk - ps_size pos)) 8)) s = (Inr ok, u)"
    "sent t = sent u"
    using same_sent_writes(4) unfolding same_sent_def
    by (auto simp: fire_add_def Let_def split: option.splits if_splits prod.splits sum.splits)
  let ?q = "py_round (min (m * standard_entry_size st mk)
          (max_position_multiple (e_cfg env) * standard_entry_size st mk - ps_size pos)) 8"
  from emit_one [OF side_steps(1) f(4)] False f(5) obtain z resp where
    z: "emit_size (add_signal sd) (Some mk) st None (Some ?q) = Some z" "ok \<longleftrightarrow> accepted resp"
      "sent t = sent s @ [(Order (payload_of (add_step sd) a z), resp)]"
    by auto
  from emit_size_sides(1) [OF z(1)] have q: "z = ?q" "0 < z" by simp_all
  have "?q \<le> min (m * standard_entry_size st mk)
      (max_position_multiple (e_cfg env) * standard_entry_size st mk - ps_size pos) + 1 / (2 * 10 ^ 8)"
    by (rule py_round_le)
  with q f(1-3) z(2,3) show ?thesis
    by (intro disjI2 exI [of _ st] exI [of _ mk] exI [of _ pos] exI [of _ z] exI [of _ resp])
      (auto simp: min_def split: if_splits)
qed

definition demo_held :: social where
  "demo_held = demo_state [demo_position LONG 4 100] [demo_leg LONG]"

lemma demo_position_held: "open_position (e_cfg demo_env) demo_held ''BTC'' (Some LONG) = Some (demo_position LONG 4 100)"
  by code_simp

lemma demo_unit: "standard_entry_size demo_strategy 100 = 5"
  by code_simp

theorem fire_add_ceiling_witness:
  "\<exists>q resp. sent (snd (fire_add demo_env ''BTC'' LONG (1/2) (Some 100) demo_held)) =
       [(Order (payload_of St_add_long ''BTC'' q), resp)] \<and> q \<le> 5/2 + 1 / (2 * 10 ^ 8)"
proof -
  have r: "(case fst (fire_add demo_env ''BTC'' LONG (1/2) (Some 100) demo_held) of Inr (ok, _) \<Rightarrow> ok | _ \<Rightarrow> False)"
    by code_simp
  then obtain r' t where f: "fire_add demo_env ''BTC'' LONG (1/2) (Some 100) demo_held = (Inr (True, r'), t)"
    by (auto split: sum.splits prod.splits simp: prod_eq_iff)
  from fire_add_ceiling [OF f] show ?thesis
    unfolding f by (auto simp: demo_env_def demo_unit demo_held_def demo_state_def)
qed

text \<open>
  A trim sends at most one order, a partial close of the leg named that never claims to
  take the position flat; its size is the fraction of the position held, to the eighth
  decimal, and a position below the floor is not trimmed.
\<close>

theorem fire_trim_share:
  assumes "fire_trim env a sd share mark s = (Inr (ok, r), t)"
  shows "(\<not> ok \<and> r = None \<and> t = s) \<or>
    (\<exists>st pos q resp. e_strategy env = Some st \<and>
      open_position (e_cfg env) s a (Some sd) = Some pos \<and>
      sent t = sent s @ [(Order (payload_of (trim_step sd) a q), resp)] \<and> (ok \<longleftrightarrow> accepted resp) \<and>
      r = (if ok then Some q else None) \<and>
      0 < q \<and> \<bar>q - ps_size pos * share\<bar> \<le> 1 / (2 * 10 ^ 8) \<and>
      \<not> p_target_flat (payload_of (trim_step sd) a q) \<and>
      (\<forall>m. mark = Some m \<longrightarrow> 0 < m \<longrightarrow>
         min_trim_position_fraction (e_cfg env) * standard_entry_size st m \<le> ps_size pos))"
proof (cases "t = s \<and> \<not> ok")
  case True
  with assms show ?thesis
    by (auto simp: fire_trim_def Let_def split: option.splits if_splits prod.splits sum.splits)
next
  case False
  with assms obtain st pos where f: "e_strategy env = Some st"
    "open_position (e_cfg env) s a (Some sd) = Some pos"
    "emit env (trim_signal sd) a mark st (Some (py_round (ps_size pos * share) 8)) None s = (Inr ok, t)"
    "r = (if ok then Some (py_round (ps_size pos * share) 8) else None)"
    "\<not> (case mark of None \<Rightarrow> False | Some m \<Rightarrow> 0 < m \<and>
        ps_size pos < min_trim_position_fraction (e_cfg env) * standard_entry_size st m)"
    by (auto simp: fire_trim_def Let_def split: option.splits if_splits prod.splits sum.splits)
  from emit_one [OF side_steps(2) f(3)] False obtain z resp where
    z: "emit_size (trim_signal sd) mark st (Some (py_round (ps_size pos * share) 8)) None = Some z"
      "ok \<longleftrightarrow> accepted resp" "sent t = sent s @ [(Order (payload_of (trim_step sd) a z), resp)]"
    by auto
  from emit_size_sides(2) [OF z(1)] have q: "z = py_round (ps_size pos * share) 8" "0 < z" by simp_all
  have "\<bar>z - ps_size pos * share\<bar> \<le> 1 / (2 * 10 ^ 8)"
    unfolding q(1) using py_round_le [of "ps_size pos * share" 8] py_round_ge [of "ps_size pos * share" 8]
    by linarith
  moreover have "\<not> p_target_flat (payload_of (trim_step sd) a z)"
    by (cases sd) (simp_all add: payload_of_def)
  ultimately show ?thesis
    using q f z(2,3)
    by (intro disjI2 exI [of _ st] exI [of _ pos] exI [of _ z] exI [of _ resp])
      (auto simp: not_less split: option.splits)
qed

theorem fire_trim_share_witness:
  "\<exists>q resp. sent (snd (fire_trim demo_env ''BTC'' LONG (1/2) (Some 100) demo_held)) =
       [(Order (payload_of St_partial_close_long ''BTC'' q), resp)] \<and> \<bar>q - 2\<bar> \<le> 1 / (2 * 10 ^ 8)"
proof -
  have r: "(case fst (fire_trim demo_env ''BTC'' LONG (1/2) (Some 100) demo_held) of Inr (ok, _) \<Rightarrow> ok | _ \<Rightarrow> False)"
    by code_simp
  then obtain r' t where f: "fire_trim demo_env ''BTC'' LONG (1/2) (Some 100) demo_held = (Inr (True, r'), t)"
    by (auto split: sum.splits prod.splits simp: prod_eq_iff)
  from fire_trim_share [OF f] show ?thesis
    unfolding f by (auto simp: demo_position_held) (auto simp: demo_position_def demo_held_def demo_state_def)
qed

section \<open>Levels\<close>

lemma get_levels_set:
  "fst (get_levels s a sd) = Some p \<Longrightarrow>
     fst (get_levels (set_levels now s a sd sl tp md) a sd) = coalesce sl (Some p)"
  by (cases "map_of (leg_table s) (a, sd)"; cases sl)
    (auto simp: get_levels_def set_levels_def update_leg_def row_simps)

lemma get_levels_cong: "same_tables s t \<Longrightarrow> get_levels t a sd = get_levels s a sd"
  by (simp add: same_tables_def get_levels_def)

lemma adjust_sent:
  "adjust_levels env sl tp dry sd s = (ok, t) \<Longrightarrow> sl \<noteq> None \<or> tp \<noteq> None \<Longrightarrow>
     \<exists>resp. sent t = sent s @ [(Adjust sl tp sd dry, resp)]"
  by (auto simp: adjust_levels_def call_def Let_def split: prod.splits response.splits if_splits)

text \<open>The level in force on a leg: what the listener set last, else what the position carries.\<close>

definition stop_in_force :: "env \<Rightarrow> social \<Rightarrow> asset \<Rightarrow> side \<Rightarrow> rat option" where
  "stop_in_force env s a sd = coalesce (fst (get_levels s a sd))
     (case open_position (e_cfg env) s a (Some sd) of None \<Rightarrow> None | Some p \<Rightarrow> ps_sl_price p)"

definition tp_in_force :: "env \<Rightarrow> social \<Rightarrow> asset \<Rightarrow> side \<Rightarrow> rat option" where
  "tp_in_force env s a sd = coalesce (fst (snd (get_levels s a sd)))
     (case open_position (e_cfg env) s a (Some sd) of None \<Rightarrow> None | Some p \<Rightarrow> ps_tp_price p)"

lemma coalesce_eq_None [simp]: "coalesce x y = None \<longleftrightarrow> x = None \<and> y = None"
  by (cases x) auto

text \<open>
  Levels of a post: the stop recorded for a leg never becomes looser than the one
  recorded before, at most one call goes out, and a call always names both levels that are in
  force, so that moving one never drops the other.
\<close>

theorem apply_levels_guard:
  assumes "apply_levels env rec a (Some sd) mark s = (rl, t)"
  shows "(\<forall>p. fst (get_levels s a sd) = Some p \<longrightarrow>
            (\<exists>p'. fst (get_levels t a sd) = Some p' \<and> no_looser sd p' p))
    \<and> (sent t = sent s \<or> (\<exists>sl tp resp. sent t = sent s @ [(Adjust sl tp (Some sd) False, resp)]
         \<and> (stop_in_force env s a sd \<noteq> None \<longrightarrow> sl \<noteq> None)
         \<and> (tp_in_force env s a sd \<noteq> None \<longrightarrow> tp \<noteq> None)))"
proof (cases "t = s")
  case False
  obtain held_sl held_tp held_mode where held: "get_levels s a sd = (held_sl, held_tp, held_mode)"
    by (metis surj_pair)
  let ?pos = "open_position (e_cfg env) s a (Some sd)"
  obtain want_sl sr where ws: "evaluate_stop (e_cfg env) rec (Some sd) (map_option ps_entry_price ?pos)
      mark held_sl (e_now env) = (want_sl, sr)" by force
  obtain want_tp tr where wt: "evaluate_take_profit (e_cfg env) rec (Some sd) (map_option ps_entry_price ?pos)
      mark (tp_in_force env s a sd) (e_now env) = (want_tp, tr)" by force
  define sl where "sl = coalesce want_sl (stop_in_force env s a sd)"
  define tp where "tp = coalesce want_tp (tp_in_force env s a sd)"
  have inf: "coalesce held_sl (case ?pos of None \<Rightarrow> None | Some p \<Rightarrow> ps_sl_price p) = stop_in_force env s a sd"
    "coalesce held_tp (case ?pos of None \<Rightarrow> None | Some p \<Rightarrow> ps_tp_price p) = tp_in_force env s a sd"
    by (simp_all add: stop_in_force_def tp_in_force_def held)
  obtain st where st: "e_strategy env = Some st"
    using assms False by (cases "e_strategy env") (auto simp: apply_levels_def Let_def)
  note al = assms [unfolded apply_levels_def Let_def st option.case held prod.case inf ws wt, folded sl_def tp_def]
  have nw: "\<not> (want_sl = None \<and> want_tp = None)"
  proof
    assume "want_sl = None \<and> want_tp = None"
    from al [unfolded if_P [OF this]] False show "False" by simp
  qed
  then have w: "want_sl \<noteq> None \<or> want_tp \<noteq> None" by (simp only: de_Morgan_conj)
  obtain q u where adj: "adjust_levels env sl tp False (Some sd) s = (q, u)" by force
  note al2 = al [unfolded if_not_P [OF nw] adj prod.case]
  have "t = u \<or> (\<exists>md. t = set_levels (e_now env) u a sd sl tp md)"
  proof (cases "q = Inr True")
    case True
    with al2 have "t = set_levels (e_now env) u a sd sl tp
        (if want_sl \<noteq> None \<and> r_stop_to_breakeven rec = Some True \<and> r_stop_price rec = None then Some Breakeven else None)"
      by simp
    then show ?thesis by blast
  next
    case False
    with al2 show ?thesis by (auto split: sum.splits)
  qed
  note u = adj w this
  have gu: "get_levels u a sd = get_levels s a sd"
    using adjust_same_tables [OF u(1)] by (rule get_levels_cong)
  have "\<exists>p'. fst (get_levels t a sd) = Some p' \<and> no_looser sd p' p" if p: "fst (get_levels s a sd) = Some p" for p
  proof -
    from p held have hp: "held_sl = Some p" by simp
    then have "stop_in_force env s a sd = Some p" by (simp add: stop_in_force_def held)
    moreover have "no_looser sd w p" if "want_sl = Some w" for w
      using ws evaluate_stop_char [of "e_cfg env" rec "Some sd" _ mark held_sl "e_now env" w sr] that hp by auto
    ultimately have "\<exists>q. sl = Some q \<and> no_looser sd q p"
      by (cases want_sl) (auto simp: sl_def)
    with u(3) p gu get_levels_set [of u a sd p] show ?thesis by auto
  qed
  moreover have "\<exists>resp. sent t = sent s @ [(Adjust sl tp (Some sd) False, resp)]"
    using adjust_sent [OF u(1)] u(2,3) same_sent_writes(3)
    by (auto simp: sl_def tp_def same_sent_def)
  ultimately show ?thesis
    by (auto simp: sl_def tp_def)
qed simp

definition demo_stop_rec :: "rat \<Rightarrow> signal_rec" where
  "demo_stop_rec p = (sample_rec STOP ''LONG'')\<lparr>r_stop_price := Some (PyFloat p)\<rparr>"

theorem apply_levels_guard_witness:
  "let t = snd (apply_levels demo_env (demo_stop_rec 95) ''BTC'' (Some LONG) (Some 105)
             (demo_state [demo_position LONG 4 94] [demo_leg LONG]))
   in \<exists>p'. fst (get_levels t ''BTC'' LONG) = Some p' \<and> no_looser LONG p' 90 \<and> p' = 95"
proof -
  let ?s = "demo_state [demo_position LONG 4 94] [demo_leg LONG]"
  obtain lv t where al: "apply_levels demo_env (demo_stop_rec 95) ''BTC'' (Some LONG) (Some 105) ?s = (lv, t)"
    by force
  have g: "fst (get_levels ?s ''BTC'' LONG) = Some 90" by code_simp
  have r: "fst (get_levels (snd (apply_levels demo_env (demo_stop_rec 95) ''BTC'' (Some LONG) (Some 105) ?s))
      ''BTC'' LONG) = Some 95"
    by code_simp
  from apply_levels_guard [OF al] g r show ?thesis by (auto simp: al Let_def)
qed

section \<open>The watcher's sweeps\<close>

text \<open>A recorded leg is stale: it had its time to settle, and no position carries it.\<close>

definition stale_leg :: "env \<Rightarrow> social \<Rightarrow> (asset \<times> side) \<times> leg_row \<Rightarrow> bool" where
  "stale_leg env s row \<longleftrightarrow>
     \<not> (e_now env - lr_updated_at (snd row) < closed_leg_grace_seconds (e_cfg env)) \<and>
     open_position (e_cfg env) s (fst (fst row)) (Some (snd (fst row))) = None"

lemma sweep_closed_row_table:
  "leg_table (sweep_closed_row env row s) =
     (if stale_leg env s row then AList.delete (fst row) (leg_table s) else leg_table s)"
  "positions (sweep_closed_row env row s) = positions s"
  by (auto simp: sweep_closed_row_def stale_leg_def close_leg_def cancel_pending_trims_def split: prod.splits)

lemma stale_leg_cong: "positions t = positions s \<Longrightarrow> stale_leg env t row = stale_leg env s row"
  by (simp add: stale_leg_def open_position_def)

lemma fold_sweep_closed:
  "map_of (leg_table (fold (sweep_closed_row env) rows s)) k =
     (if \<exists>row\<in>set rows. fst row = k \<and> stale_leg env s row then None else map_of (leg_table s) k)"
proof (induction rows arbitrary: s)
  case (Cons r rows)
  have "stale_leg env (sweep_closed_row env r s) row = stale_leg env s row" for row
    by (rule stale_leg_cong) (rule sweep_closed_row_table)
  then show ?case
    using Cons.IH [of "sweep_closed_row env r s"] by (auto simp: sweep_closed_row_table row_simps)
qed simp

text \<open>
  The reconciling sweep is exact: after it, a leg is recorded open just when it was
  before and either has not had its time to settle or is carried by an open position. No
  other leg is dropped, and none is adopted.
\<close>

theorem sweep_closed_legs_exact:
  assumes "legs_invar s" and "e_strategy env \<noteq> None"
  shows "is_open (get_legs (sweep_closed_legs env s) a) sd \<longleftrightarrow>
    (\<exists>r. map_of (leg_table s) (a, sd) = Some r \<and> lr_open r \<and>
       (e_now env - lr_updated_at r < closed_leg_grace_seconds (e_cfg env)
        \<or> open_position (e_cfg env) s a (Some sd) \<noteq> None))"
proof -
  have inv: "legs_invar (sweep_closed_legs env s)"
    using sweep_closed_invar assms(1) by blast
  have m: "map_of (leg_table (sweep_closed_legs env s)) (a, sd) =
      (if \<exists>r. ((a, sd), r) \<in> set (leg_table s) \<and> lr_open r \<and> stale_leg env s ((a, sd), r)
       then None else map_of (leg_table s) (a, sd))"
    using assms(2) by (auto simp: sweep_closed_legs_def fold_sweep_closed recorded_open_legs_def)
  have "((a, sd), r) \<in> set (leg_table s) \<longleftrightarrow> map_of (leg_table s) (a, sd) = Some r" for r
    using assms(1) by (simp add: legs_invar_def)
  then show ?thesis
    unfolding is_open_get_legs [OF inv] m by (auto simp: stale_leg_def)
qed

theorem sweep_closed_legs_exact_witness:
  "is_open (get_legs (sweep_closed_legs demo_env (demo_state [demo_position LONG 4 94] [demo_leg LONG, demo_leg SHORT])) ''BTC'') LONG
   \<and> \<not> is_open (get_legs (sweep_closed_legs demo_env (demo_state [demo_position LONG 4 94] [demo_leg LONG, demo_leg SHORT])) ''BTC'') SHORT"
proof -
  let ?s = "demo_state [demo_position LONG 4 94] [demo_leg LONG, demo_leg SHORT]"
  have inv: "legs_invar ?s" "e_strategy demo_env \<noteq> None"
    by (simp_all add: legs_invar_def demo_state_def demo_leg_def demo_env_def)
  have "open_position (e_cfg demo_env) ?s ''BTC'' (Some LONG) \<noteq> None"
    "open_position (e_cfg demo_env) ?s ''BTC'' (Some SHORT) = None"
    "e_now demo_env - 500 \<ge> closed_leg_grace_seconds (e_cfg demo_env)"
    by code_simp+
  then show ?thesis
    unfolding sweep_closed_legs_exact [OF inv] by (simp add: demo_state_def demo_leg_def)
qed

text \<open>How a sweep may change one parked trim.\<close>

definition trim_moves :: "env \<Rightarrow> social \<Rightarrow> trim_row \<Rightarrow> trim_row \<Rightarrow> bool" where
  "trim_moves env s r r' \<longleftrightarrow> r' = r \<or>
     (tr_status r = Parked \<and> (\<exists>st. r' = r\<lparr>tr_status := st, tr_resolved_at := Some (e_now env)\<rparr> \<and>
       ((st = Expired \<and> tr_expires_at r < e_now env) \<or>
        (\<not> tr_expires_at r < e_now env \<and>
          ((st = Cancelled \<and> \<not> is_open (get_legs s (tr_asset r)) (tr_side r)) \<or>
           (st = Fired \<and> is_open (get_legs s (tr_asset r)) (tr_side r) \<and>
            (\<exists>mark. e_mark env (tr_asset r) = Some mark \<and> level_reached (tr_side r) (tr_trigger_price r) mark)))))))"

text \<open>What the watcher may make of the parked trim \<open>t\<close>, given the recorded legs.\<close>

definition settles :: "env \<Rightarrow> (asset \<Rightarrow> legs) \<Rightarrow> trim_row \<Rightarrow> trim_status \<Rightarrow> bool" where
  "settles env lg t st \<longleftrightarrow>
     (st = Cancelled \<and> \<not> is_open (lg (tr_asset t)) (tr_side t)) \<or>
     (st = Fired \<and> is_open (lg (tr_asset t)) (tr_side t) \<and>
       (\<exists>mark. e_mark env (tr_asset t) = Some mark \<and> level_reached (tr_side t) (tr_trigger_price t) mark))"

definition row_moves :: "env \<Rightarrow> (asset \<Rightarrow> legs) \<Rightarrow> trim_row list \<Rightarrow> trim_row \<Rightarrow> trim_row \<Rightarrow> bool" where
  "row_moves env lg ts r r' \<longleftrightarrow> r' = r \<or>
     (tr_status r = Parked \<and> (\<exists>t st. t \<in> set ts \<and> tr_id t = tr_id r \<and> settles env lg t st \<and>
        r' = r\<lparr>tr_status := st, tr_resolved_at := Some (e_now env)\<rparr>))"

lemma trim_table_resolve_shadow [simp]: "trim_table (resolve_shadow_order s k dec rsn mk cs mode) = trim_table s"
  by (simp add: resolve_shadow_order_def split: option.split)

lemma sweep_trim_table:
  "trim_table (snd (sweep_trim env t s)) = trim_table s \<or>
   (\<exists>st. settles env (get_legs s) t st \<and>
      trim_table (snd (sweep_trim env t s)) = trim_table (resolve_pending_trim (e_now env) s (tr_id t) st))"
proof -
  have "trim_table u = trim_table s" if "fire_trim env a sd sh mk s = (r, u)" for a sd sh mk r u
    using fire_trim_tables [OF that] by (simp add: same_tables_def)
  then show ?thesis
    by (auto simp: sweep_trim_def Let_def settles_def resolve_pending_trim_def
        split: option.splits prod.splits sum.splits)
qed

lemma sweep_trim_rows:
  "list_all2 (row_moves env (get_legs s) [t]) (trim_table s) (trim_table (snd (sweep_trim env t s)))"
proof -
  have "list_all2 (row_moves env (get_legs s) [t]) rows
      (update_where (\<lambda>r. tr_id r = tr_id t \<and> tr_status r = Parked)
         (\<lambda>r. r\<lparr>tr_status := st, tr_resolved_at := Some (e_now env)\<rparr>) rows)"
    if "settles env (get_legs s) t st" for st rows
    using that by (induction rows) (auto simp: update_where_def row_moves_def)
  then show ?thesis
    using sweep_trim_table [of env t s]
    by (auto simp: resolve_pending_trim_def list_all2_refl row_moves_def)
qed

lemma row_moves_trans:
  "row_moves env lg [t] r r1 \<Longrightarrow> row_moves env lg ts r1 r2 \<Longrightarrow> row_moves env lg (t # ts) r r2"
  by (auto simp: row_moves_def settles_def)

lemma sweep_trims_rows:
  "legs_invar s \<Longrightarrow>
     list_all2 (row_moves env (get_legs s) ts) (trim_table s) (trim_table (snd (sweep_over (sweep_trim env) ts s)))"
proof (induction ts arbitrary: s)
  case Nil
  then show ?case by (simp add: list_all2_refl row_moves_def)
next
  case (Cons t ts)
  obtain e u where f: "sweep_trim env t s = (e, u)" by force
  then have "same_legs s u" using sweep_trim_same_legs [of s env t] by simp
  then have u: "legs_invar u" "get_legs u = get_legs s"
    using Cons.prems by (auto simp: same_legs_def)
  have one: "list_all2 (row_moves env (get_legs s) [t]) (trim_table s) (trim_table u)"
    using sweep_trim_rows [where env = env and s = s and t = t] f by simp
  show ?case
  proof (cases e)
    case None
    with f list_all2_trans [OF row_moves_trans one Cons.IH [OF u(1), unfolded u(2)]] show ?thesis by simp
  next
    case (Some err)
    have "row_moves env lg [t] r r' \<Longrightarrow> row_moves env lg (t # ts) r r'" for lg r r'
      by (auto simp: row_moves_def)
    with f Some one show ?thesis by (auto elim: list_all2_mono)
  qed
qed

text \<open>
  The sweep over parked trims settles a trim only as it may. Each row stays as it is, or
  was parked and is now expired (its time is up), cancelled (its leg is no longer open) or
  fired (its leg is open, and the mark has reached its level); nothing else of it changes and
  no row is added or dropped.
\<close>

theorem sweep_settles_trims:
  assumes "legs_invar s" and "distinct (map tr_id (trim_table s))"
  shows "list_all2 (trim_moves env s) (trim_table s) (trim_table (snd (sweep_pending_trims env s)))"
proof -
  let ?u = "expire_pending_trims (e_now env) s"
  let ?ex = "\<lambda>r. if tr_status r = Parked \<and> tr_expires_at r < e_now env
      then r\<lparr>tr_status := Expired, tr_resolved_at := Some (e_now env)\<rparr> else r"
  have u: "legs_invar ?u" "get_legs ?u = get_legs s"
    using assms(1) same_legs_writes(5) [of s "e_now env"] by (auto simp: same_legs_def)
  have tu: "trim_table ?u = map ?ex (trim_table s)"
    by (simp add: expire_pending_trims_def update_where_def)
  have ids: "distinct (map tr_id (trim_table ?u))"
    using assms(2) by (simp add: tu comp_def if_distrib [of tr_id] cong: if_cong)
  have rows: "list_all2 (row_moves env (get_legs s) (pending_trims ?u)) (map ?ex (trim_table s))
      (trim_table (snd (sweep_pending_trims env s)))"
    using sweep_trims_rows [OF u(1), of env "pending_trims ?u"]
    by (simp add: u(2) tu sweep_pending_trims_def Let_def)
  have "trim_moves env s r r'" if r: "r \<in> set (trim_table s)" "row_moves env (get_legs s) (pending_trims ?u) (?ex r) r'" for r r'
  proof (cases "tr_status r = Parked \<and> tr_expires_at r < e_now env")
    case True
    with r(2) show ?thesis by (auto simp: row_moves_def trim_moves_def)
  next
    case False
    then have e: "?ex r = r" by auto
    with r(1) have ru: "r \<in> set (trim_table ?u)" unfolding tu by force
    have same: "t = r" if "t \<in> set (pending_trims ?u)" "tr_id t = tr_id r" for t
    proof -
      from that(1) have "t \<in> set (trim_table ?u)" by (simp add: pending_trims_def)
      with inj_onD [OF distinct_map [THEN iffD1, OF ids, THEN conjunct2] that(2)] ru show ?thesis by blast
    qed
    from r(2) have "row_moves env (get_legs s) (pending_trims ?u) r r'" by (simp only: e)
    then consider "r' = r" | st where "tr_status r = Parked" "settles env (get_legs s) r st"
        "r' = r\<lparr>tr_status := st, tr_resolved_at := Some (e_now env)\<rparr>"
      unfolding row_moves_def using same by blast
    then show ?thesis
      using False by cases (auto simp: trim_moves_def settles_def)
  qed
  with rows show ?thesis
    unfolding list_all2_map1 by (auto simp: list_all2_conv_all_nth)
qed

definition demo_trim :: "nat \<Rightarrow> side \<Rightarrow> rat \<Rightarrow> trim_row" where
  "demo_trim i sd trig = \<lparr>tr_id = i, tr_msg_id = int i, tr_asset = ''BTC'', tr_side = sd,
     tr_size_fraction = 1/2, tr_trigger_price = trig, tr_created_at = 900, tr_expires_at = 99999,
     tr_status = Parked, tr_resolved_at = None\<rparr>"

theorem sweep_settles_trims_witness:
  "map tr_status (trim_table (snd (sweep_pending_trims demo_env
      (demo_held\<lparr>trim_table := [demo_trim 1 LONG 99, demo_trim 2 LONG 101, demo_trim 3 SHORT 200]\<rparr>))))
     = [Fired, Parked, Cancelled]
   \<and> list_all2 (trim_moves demo_env (demo_held\<lparr>trim_table := [demo_trim 1 LONG 99, demo_trim 2 LONG 101, demo_trim 3 SHORT 200]\<rparr>))
      [demo_trim 1 LONG 99, demo_trim 2 LONG 101, demo_trim 3 SHORT 200]
      (trim_table (snd (sweep_pending_trims demo_env
        (demo_held\<lparr>trim_table := [demo_trim 1 LONG 99, demo_trim 2 LONG 101, demo_trim 3 SHORT 200]\<rparr>))))"
proof -
  let ?s = "demo_held\<lparr>trim_table := [demo_trim 1 LONG 99, demo_trim 2 LONG 101, demo_trim 3 SHORT 200]\<rparr>"
  have "legs_invar ?s" "distinct (map tr_id (trim_table ?s))"
    by (simp_all add: legs_invar_def demo_held_def demo_state_def demo_leg_def demo_trim_def)
  from sweep_settles_trims [OF this, of demo_env]
  have "list_all2 (trim_moves demo_env ?s) [demo_trim 1 LONG 99, demo_trim 2 LONG 101, demo_trim 3 SHORT 200]
      (trim_table (snd (sweep_pending_trims demo_env ?s)))" by simp
  moreover have "map tr_status (trim_table (snd (sweep_pending_trims demo_env ?s))) = [Fired, Parked, Cancelled]"
    by code_simp
  ultimately show ?thesis by blast
qed

end
