(* ===== verification/SocialBehaviour.thy ===== *)
theory SocialBehaviour
  imports SocialOrders
begin

text \<open>
  How the social listener behaves over a post's life: it is judged once, its price comes from
  the right bar, the model's answer is cut to what its action may carry; and three
  behaviours the code does not intend, each with the state it leads to.
\<close>

section \<open>Keys\<close>

lemma resolve_preview_id:
  "(\<And>k m fresh. fetch k m = Some fresh \<Longrightarrow> m_id fresh = m_id m) \<Longrightarrow> m_id (resolve_preview_from fetch k n m) = m_id m"
  by (induction n arbitrary: k m) (auto split: option.splits)

text \<open>Re-reading a message by its id gives a message of that id.\<close>

definition honest_reader :: "reader \<Rightarrow> bool" where
  "honest_reader rd \<longleftrightarrow> (\<forall>k m fresh. rd_fetch rd k m = Some fresh \<longrightarrow> m_id fresh = m_id m)"

definition record_msg :: "reader \<Rightarrow> message \<Rightarrow> base_rec" where
  "record_msg rd = to_record (rd_settings rd) (rd_fetch rd) (rd_download rd)"

lemma record_msg_id: "honest_reader rd \<Longrightarrow> b_msg_id (record_msg rd m) = m_id m"
  using resolve_preview_id [of "rd_fetch rd" 0]
  by (auto simp: record_msg_def to_record_def Let_def resolve_preview_def honest_reader_def split: prod.split)

lemma merge_id:
  assumes "merge_records rs = Some p"
  shows "b_msg_id p = Max (b_msg_id ` set rs)"
proof (cases "2 \<le> length rs")
  case True
  let ?l = "List.last (sort_key b_msg_id rs)"
  have "rs \<noteq> []" using True by auto
  have "set (sort_key b_msg_id rs) \<noteq> {}" using \<open>rs \<noteq> []\<close> by simp
  then have "?l \<in> set rs" using last_in_set [of "sort_key b_msg_id rs"] by fastforce
  then have "Max (b_msg_id ` set rs) = b_msg_id ?l"
    using last_sort_key_ge by (intro Max_eqI) auto
  with merge_records_many(1) [OF True assms] show ?thesis by simp
next
  case False
  with assms show ?thesis
    by (cases rs) (auto simp: merge_records_def, cases "tl rs", auto)
qed

lemma handle_key:
  assumes "honest_reader rd" "merge_records (map (record_msg rd) msgs) = Some p" "map m_id msgs = i # is"
  shows "b_msg_id p = fold max is i"
proof -
  have "b_msg_id ` set (map (record_msg rd) msgs) = set (map m_id msgs)"
    using record_msg_id [OF assms(1)] by (auto simp: image_iff)
  with merge_id [OF assms(2)] assms(3) show ?thesis
    using Max.set_eq_fold [of i "is"] by simp
qed

section \<open>A post is judged once\<close>

lemma shadow_table_writes [simp]:
  "shadow_table (advance_state env rec asset d s) = shadow_table s"
  "park_trim env phase rec asset d s = Inr t \<Longrightarrow> shadow_table t = shadow_table s"
proof -
  have "shadow_table (fold (\<lambda>(sd, is_opn) t. if is_opn then t else cancel_pending_trims now t a sd) ch u)
      = shadow_table u" for now a ch u
    by (induction ch arbitrary: u) (auto simp: cancel_pending_trims_def)
  moreover have "shadow_table (fold (\<lambda>(sd, is_opn) st. if is_opn then open_leg now st a sd k else close_leg st a sd k) ch u)
      = shadow_table u" for now a ch k u
    by (induction ch arbitrary: u) (auto simp: open_leg_def close_leg_def)
  ultimately show "shadow_table (advance_state env rec asset d s) = shadow_table s"
    by (auto simp: advance_state_def apply_leg_changes_def split: option.split)
  show "park_trim env phase rec asset d s = Inr t \<Longrightarrow> shadow_table t = shadow_table s"
    by (auto simp: park_trim_def insert_pending_trim_def new_trim_def split: option.splits if_splits)
qed

lemma insert_shadow_written [simp]: "already_shadow_evaluated (insert_shadow_order s k row) k"
  by (auto simp: already_shadow_evaluated_def insert_shadow_order_def map_add_def split: option.splits)

lemma judge_writes:
  assumes "judge env phase rec s = (None, t)"
  shows "t = s \<or> already_shadow_evaluated t (r_msg_id rec)"
  using assms
proof (cases rule: judge_cases)
  case (levels a)
  then show ?thesis by (auto simp: levels_only_def Let_def split: prod.splits sum.splits)
next
  case (decided d asset l mark)
  from decided(6) show ?thesis
  proof (cases rule: carry_out_cases)
    case (finished d1 lv s1 em s2 s4)
    then have "shadow_table t = shadow_table (insert_shadow_order s2 (r_msg_id rec) (shadow_of phase rec asset l em lv))"
      by simp
    then have "already_shadow_evaluated t (r_msg_id rec)
        = already_shadow_evaluated (insert_shadow_order s2 (r_msg_id rec) (shadow_of phase rec asset l em lv)) (r_msg_id rec)"
      by (simp only: already_shadow_evaluated_def)
    then show ?thesis by simp
  qed simp_all
qed simp_all

definition keyed_signals :: "social \<Rightarrow> bool" where
  "keyed_signals s \<longleftrightarrow> (\<forall>(k, r) \<in> set (signal_table s). r_msg_id r = k)"

lemma load_signal_id: "keyed_signals s \<Longrightarrow> load_signal s k = Some rec \<Longrightarrow> r_msg_id rec = k"
  by (fastforce simp: load_signal_def keyed_signals_def dest: map_of_SomeD split: option.splits)

text \<open>
  C18. Handling is idempotent: once a post has been handled without an exception and made any
  call, handling it again, live, recovered or replayed and under any settings, does nothing.
\<close>

theorem handled_once:
  assumes "handle env rd msgs phase s = (None, t)" and "sent t \<noteq> sent s"
    and "honest_reader rd" and "keyed_signals s"
  shows "handle env' rd' msgs phase' t = (None, t)"
proof -
  from assms(1,2) obtain i "is" where ids: "map m_id msgs = i # is"
    by (auto simp: handle_def split: list.splits)
  let ?k = "fold max is i"
  have "already_shadow_evaluated t ?k"
  proof (cases "already_seen s ?k")
    case True
    with assms(1,2) ids obtain rec where l: "load_signal s ?k = Some rec" "judge env phase rec s = (None, t)"
      by (auto simp: handle_def handle_locked_def split: if_splits option.splits)
    with judge_writes [OF l(2)] load_signal_id [OF assms(4) l(1)] assms(2) show ?thesis by auto
  next
    case False
    define rec_of where "rec_of p = (snd (extract_post (rd_llm_settings rd) (rd_llm rd) (b_raw_text p)
        (b_preview_text p) (b_image p)))\<lparr>r_msg_id := b_msg_id p, r_posted_at := Some (b_posted_at p)\<rparr>" for p :: base_rec
    from assms(1) ids False have h: "(case merge_records (map (record_msg rd) msgs) of None \<Rightarrow> (None, s)
      | Some p \<Rightarrow> if fst (extract_post (rd_llm_settings rd) (rd_llm rd) (b_raw_text p) (b_preview_text p) (b_image p))
          then (None, s) else judge env phase (rec_of p) (snd (insert_signal s (rec_of p)))) = (None, t) \<or> t = s"
      by (auto simp: handle_def handle_locked_def Let_def record_msg_def [abs_def] rec_of_def split_def
          split: if_splits option.split)
    with assms(2) obtain p where "merge_records (map (record_msg rd) msgs) = Some p"
      "judge env phase (rec_of p) (snd (insert_signal s (rec_of p))) = (None, t)"
      by (auto split: option.splits if_splits)
    moreover define rec where "rec = rec_of p"
    ultimately have p: "merge_records (map (record_msg rd) msgs) = Some p" "r_msg_id rec = b_msg_id p"
      "judge env phase rec (snd (insert_signal s rec)) = (None, t)"
      by (simp_all add: rec_of_def)
    have "t \<noteq> snd (insert_signal s rec)"
      using assms(2) same_sent_writes(11) [of s rec] by (auto simp: same_sent_def)
    with judge_writes [OF p(3)] p(2) handle_key [OF assms(3) p(1) ids] show ?thesis by simp
  qed
  with ids show ?thesis by (simp add: handle_def handle_locked_def)
qed

definition demo_post :: message where
  "demo_post = \<lparr>m_id = 7, m_date = 1000, m_text = None, m_media = No_media, m_has_client = True\<rparr>"

theorem handled_once_witness:
  "let t = snd (handle demo_env (demo_reader (demo_extraction OPEN (Some LONG))) [demo_post] Live (demo_state [] []))
   in is_open (get_legs t ''BTC'') LONG \<and>
      handle demo_env (demo_reader (demo_extraction OPEN (Some LONG))) [demo_post] Backfill t = (None, t)"
proof -
  let ?h = "handle demo_env (demo_reader (demo_extraction OPEN (Some LONG))) [demo_post] Live (demo_state [] [])"
  have r: "fst ?h = None" "length (sent (snd ?h)) = 1" "is_open (get_legs (snd ?h) ''BTC'') LONG"
    by code_simp+
  then have h: "?h = (None, snd ?h)" "sent (snd ?h) \<noteq> sent (demo_state [] [])"
    by (auto simp: prod_eq_iff demo_state_def)
  have "honest_reader (demo_reader (demo_extraction OPEN (Some LONG)))" "keyed_signals (demo_state [] [])"
    by (simp_all add: honest_reader_def demo_reader_def keyed_signals_def demo_state_def)
  from handled_once [OF h this] r(3) show ?thesis by (simp add: Let_def)
qed

section \<open>Prices and extractions\<close>

lemma best_bar_char:
  "best_bar ts best es = Some (t, c) \<Longrightarrow>
     (best = Some (t, c) \<or> (Some t, Some c) \<in> set es \<and> t \<le> ts) \<and>
     (\<forall>t' c'. (Some t', Some c') \<in> set es \<longrightarrow> t' \<le> ts \<longrightarrow> t' \<le> t) \<and>
     (\<forall>t' c'. best = Some (t', c') \<longrightarrow> t' \<le> t)"
proof (induction ts best es rule: best_bar.induct)
  case (2 ts best t' c' rest)
  let ?b = "if t' \<le> ts \<and> (case best of None \<Rightarrow> True | Some (bt, _) \<Rightarrow> bt < t') then Some (t', c') else best"
  from 2 have ih: "(?b = Some (t, c) \<or> (Some t, Some c) \<in> set rest \<and> t \<le> ts)"
    "\<forall>x y. (Some x, Some y) \<in> set rest \<longrightarrow> x \<le> ts \<longrightarrow> x \<le> t" "\<forall>x y. ?b = Some (x, y) \<longrightarrow> x \<le> t"
    by simp_all
  show ?case
  proof (cases "t' \<le> ts \<and> (case best of None \<Rightarrow> True | Some (bt, _) \<Rightarrow> bt < t')")
    case True
    with ih show ?thesis by (auto split: option.splits)
  next
    case False
    with ih show ?thesis by (auto split: option.splits)
  qed
qed auto

lemma best_bar_None:
  "best_bar ts best es = None \<longleftrightarrow> best = None \<and> (\<forall>t c. (Some t, Some c) \<in> set es \<longrightarrow> ts < t)"
  by (induction ts best es rule: best_bar.induct) (auto split: if_splits option.splits)

text \<open>
  The implied reference of a post that cites no price is the close of the latest readable
  bar that starts no later than the post, and it is given only when that bar is recent
  enough: a gap in the candles is never read as "the price has not moved".
\<close>

theorem get_close_at_covering_bar:
  assumes "get_close_at env a ts = Some c"
  shows "\<exists>es t. e_stream env a (max (ts - implied_ref_lookback_ms (e_cfg env)) 0) (ts + 180000) = Some es
    \<and> (Some t, Some c) \<in> set es \<and> t \<le> ts \<and> ts - t \<le> implied_ref_max_gap_ms (e_cfg env)
    \<and> (\<forall>t' c'. (Some t', Some c') \<in> set es \<longrightarrow> t' \<le> ts \<longrightarrow> t' \<le> t)"
proof -
  from assms obtain es t where
    "e_stream env a (max (ts - implied_ref_lookback_ms (e_cfg env)) 0) (ts + 180000) = Some es"
    "best_bar ts None es = Some (t, c)" "ts - t \<le> implied_ref_max_gap_ms (e_cfg env)"
    by (auto simp: get_close_at_def Let_def not_less split: option.splits if_splits)
  with best_bar_char [of ts None es t c] show ?thesis by auto
qed

theorem get_close_at_covering_bar_witness:
  "get_close_at (demo_env\<lparr>e_stream := (\<lambda>_ _ _. Some [(Some 950000, Some 101), (Some 890000, Some 99), (None, Some 1)])\<rparr>)
     ''BTC'' 940000 = Some 99
   \<and> (940000 - 890000 :: int) \<le> implied_ref_max_gap_ms (e_cfg demo_env)"
proof -
  let ?env = "demo_env\<lparr>e_stream := (\<lambda>_ _ _. Some [(Some 950000, Some 101), (Some 890000, Some 99), (None, Some 1)])\<rparr>"
  have c: "get_close_at ?env ''BTC'' 940000 = Some 99" by code_simp
  from get_close_at_covering_bar [OF c] c show ?thesis by auto
qed

text \<open>
  An extraction is reported as failed exactly when every configured attempt failed to
  answer; otherwise the record comes from the first attempt that answered, unparsable answers
  counting as "nothing stated", and no attempt is made twice.
\<close>

theorem extract_uses_first_answer:
  assumes "\<And>p. distinct (keys_for cfg p)"
  shows "(fst (extract_post cfg llm raw preview img) \<longleftrightarrow>
      (\<forall>a \<in> set (attempts_of cfg). llm a raw preview img = Call_failed))
    \<and> (\<not> fst (extract_post cfg llm raw preview img) \<longrightarrow>
      (\<exists>before a after x. attempts_of cfg = before @ a # after \<and>
         (\<forall>b \<in> set before. llm b raw preview img = Call_failed) \<and>
         (llm a raw preview img = Parsed x \<or> llm a raw preview img = Unparsable \<and> x = no_extraction) \<and>
         snd (extract_post cfg llm raw preview img) = record_of x))
    \<and> distinct (attempts_of cfg)"
proof (cases "first_answer llm raw preview img (attempts_of cfg)")
  case None
  then show ?thesis
    using first_answer_None [of llm raw preview img "attempts_of cfg"] attempts_from_distinct [OF assms]
    by (auto simp: extract_post_def attempts_of_def)
next
  case (Some y)
  obtain a x where y: "y = (a, x)" by (rule prod.exhaust)
  from first_answer_SomeD [OF Some [unfolded y]] obtain before after where
    "attempts_of cfg = before @ a # after" "\<forall>b\<in>set before. llm b raw preview img = Call_failed"
    "llm a raw preview img = Parsed x \<or> llm a raw preview img = Unparsable \<and> x = no_extraction"
    by blast
  moreover have "\<not> fst (extract_post cfg llm raw preview img)"
    "snd (extract_post cfg llm raw preview img) = record_of x"
    using Some y by (simp_all add: extract_post_def)
  moreover have "distinct (attempts_of cfg)"
    using attempts_from_distinct [OF assms] by (simp add: attempts_of_def)
  moreover have "\<not> (\<forall>a \<in> set (attempts_of cfg). llm a raw preview img = Call_failed)"
    using calculation(1,3) by auto
  ultimately show ?thesis by blast
qed

theorem extract_uses_first_answer_witness:
  "let cfg = \<lparr>extractor_provider = ''anthropic'', extractor_model = ''m'', extractor_fallbacks = ''google'',
        provider_keys = (\<lambda>_. [''k1'', ''k2'']), env_api_key = (\<lambda>_. ''k2'')\<rparr>;
      llm = (\<lambda>(p, _, k) _ _ _. if p = ''google'' then Unparsable else Call_failed)
   in \<not> fst (extract_post cfg llm [] [] None) \<and> distinct (attempts_of cfg)"
proof -
  let ?cfg = "\<lparr>extractor_provider = ''anthropic'', extractor_model = ''m'', extractor_fallbacks = ''google'',
        provider_keys = (\<lambda>_. [''k1'', ''k2'']), env_api_key = (\<lambda>_. ''k2'')\<rparr>"
  let ?llm = "\<lambda>(p, _, k) _ _ _. if p = ''google'' then Unparsable else Call_failed"
  have "distinct (keys_for ?cfg p)" for p by (simp add: keys_for_def Let_def)
  note ex = extract_uses_first_answer [of ?cfg ?llm "[]" "[]" None, OF this]
  have "(''google'', ''gemini-3.6-flash'', ''k1'') \<in> set (attempts_of ?cfg)" by code_simp
  moreover have "?llm (''google'', ''gemini-3.6-flash'', ''k1'') [] [] None \<noteq> Call_failed" by simp
  ultimately have "\<not> fst (extract_post ?cfg ?llm [] [] None)" using ex by blast
  with ex show ?thesis unfolding Let_def by blast
qed

section \<open>Behaviour the code does not intend\<close>

text \<open>A stored record that cites a price, read back for a later judgement.\<close>

lemma load_signal_reference:
  "load_signal s k = Some rec \<Longrightarrow> r_reference_price rec \<noteq> None \<Longrightarrow> \<exists>x. r_reference_price rec = Some (PyDecimal x)"
  by (auto simp: load_signal_def as_numeric_def split: option.splits)

text \<open>
  A priced OPEN post that was extracted but not judged cannot be judged later: read back
  from the log its price is a Decimal, and the staleness gate subtracts it from the float
  mark, which raises TypeError before anything is sent or recorded.
\<close>

theorem replayed_price_raises:
  assumes "load_signal s k = Some rec" and "r_reference_price rec \<noteq> None"
    and "passes_gates cfg rec" and "r_action rec = OPEN"
    and "direction_of rec = Some w" and "\<not> is_open l w"
    and "\<not> too_old cfg rec now"
  shows "evaluate cfg rec Live l (Some m) imp now multi = Inl TypeError"
proof -
  from load_signal_reference [OF assms(1,2)] obtain x where x: "r_reference_price rec = Some (PyDecimal x)"
    by blast
  obtain sig want ch gl where p: "plan_move OPEN rec l multi = Inr (sig, want, ch, gl)"
    using assms(5,6)
    by (cases "is_open l (opposite w) \<and> \<not> multi") (auto simp: plan_move_def Let_def)
  have "price_gate cfg rec (Some m) imp gl = Inl TypeError"
    by (simp add: price_gate_def moved_gate_def x)
  with assms(3,4,7) p show ?thesis
    by (simp add: ungated_evaluate evaluate_move_def)
qed

theorem replayed_price_raises_witness:
  "\<exists>rec. load_signal (snd (insert_signal (demo_state [] []) (sample_rec OPEN ''LONG''))) 7 = Some rec \<and>
     evaluate default_settings rec Live no_legs (Some 100) None 1010 False = Inl TypeError \<and>
     (\<exists>d. evaluate default_settings (sample_rec OPEN ''LONG'') Live no_legs (Some 100) None 1010 False = Inr d)"
proof -
  define rec where "rec = (sample_rec OPEN ''LONG'')\<lparr>r_reference_price := Some (PyDecimal 100),
    r_confidence := Some (PyDecimal (9/10))\<rparr>"
  have l: "load_signal (snd (insert_signal (demo_state [] []) (sample_rec OPEN ''LONG''))) 7 = Some rec"
    by (simp add: load_signal_def insert_signal_def already_seen_def demo_state_def sample_rec_def
        as_numeric_def rec_def)
  have "passes_gates default_settings (sample_rec OPEN ''LONG'')"
  proof -
    have "upper_or_none (Some ''btc'') = Some ''BTC''" by code_simp
    then show ?thesis
      by (simp add: passes_gates_def sample_rec_def whitelist_asset_whitelist default_settings_def)
  qed
  then have p: "passes_gates default_settings rec" by (simp add: passes_gates_def rec_def sample_rec_def)
  have dir: "direction_of rec = Some LONG" unfolding rec_def by code_simp
  have "evaluate default_settings rec Live no_legs (Some 100) None 1010 False = Inl TypeError"
    by (rule replayed_price_raises [OF l _ p _ dir])
      (simp_all add: rec_def sample_rec_def too_old_def default_settings_def)
  moreover have "case evaluate default_settings (sample_rec OPEN ''LONG'') Live no_legs (Some 100) None 1010 False of
      Inl e \<Rightarrow> False | Inr d \<Rightarrow> True"
    by code_simp
  then have "\<exists>d. evaluate default_settings (sample_rec OPEN ''LONG'') Live no_legs (Some 100) None 1010 False = Inr d"
    by (auto split: sum.splits)
  ultimately show ?thesis using l by blast
qed

text \<open>The calls one emission makes, with whether the last one was accepted.\<close>

lemma fire_trim_call:
  assumes "fire_trim env a sd share mark s = (Inr (ok, r), t)"
  shows "(t = s \<and> \<not> ok) \<or> (\<exists>p resp. sent t = sent s @ [(Order p, resp)] \<and> (ok \<longleftrightarrow> accepted resp))"
  using assms
  by (auto simp: fire_trim_def Let_def split: option.splits if_splits prod.splits sum.splits dest!: emit_one [OF side_steps(2)])

lemma fire_trim_raises: "fire_trim env a sd share mark s = (Inl e, t) \<Longrightarrow> e = ValueError"
  by (auto simp: fire_trim_def Let_def split: option.splits if_splits prod.splits sum.splits dest!: emit_outcome)

definition new_calls :: "social \<Rightarrow> social \<Rightarrow> (request \<times> response) list" where
  "new_calls s t = drop (length (sent s)) (sent t)"

definition accepted_orders :: "(request \<times> response) list \<Rightarrow> payload list" where
  "accepted_orders calls = concat (map (\<lambda>(req, resp). case req of
     Order p \<Rightarrow> if accepted resp then [p] else [] | Adjust _ _ _ _ \<Rightarrow> []) calls)"

lemma accepted_orders_simps [simp]:
  "accepted_orders [] = []"
  "accepted_orders ((Order p, resp) # calls) = (if accepted resp then p # accepted_orders calls else accepted_orders calls)"
  "accepted_orders ((Adjust a b c d, resp) # calls) = accepted_orders calls"
  "accepted_orders (xs @ ys) = accepted_orders xs @ accepted_orders ys"
  by (simp_all add: accepted_orders_def)

lemma levels_first_calls:
  assumes "levels_first env phase rec asset l mark d s = (lv, s1)"
  shows "accepted_orders (sent s1) = accepted_orders (sent s) \<and>
    shadow_table s1 = shadow_table s \<and> trim_table s1 = trim_table s"
proof -
  have ad: "accepted_orders (sent u) = accepted_orders (sent v) \<and> shadow_table u = shadow_table v \<and> trim_table u = trim_table v"
    if "adjust_levels env sl tp dry sd v = (ok, u)" for sl tp dry sd v ok u
    using that adjust_same_tables [OF that]
    by (auto simp: adjust_levels_def same_tables_def call_def Let_def split: if_splits prod.splits response.splits)
  have sl: "sent (set_levels now v a sd sl tp md) = sent v \<and> shadow_table (set_levels now v a sd sl tp md) = shadow_table v
      \<and> trim_table (set_levels now v a sd sl tp md) = trim_table v" for now v a sd sl tp md
    by (simp add: set_levels_def update_leg_def split: option.split)
  have "accepted_orders (sent u) = accepted_orders (sent s) \<and> shadow_table u = shadow_table s \<and> trim_table u = trim_table s"
    if "apply_levels env rec a sd mark s = (lv, u)" for a sd u
    using that
    by (auto simp: apply_levels_def Let_def sl split: option.splits if_splits prod.splits sum.splits dest: ad)
  with assms show ?thesis by (auto simp: levels_first_def split: option.splits if_splits)
qed

lemma trim_decision:
  assumes "evaluate cfg rec phase l mark imp now multi = Inr d" "r_action rec = TRIM" "d_emit d"
  shows "d_is_trim d \<and> d_trigger_price d = map_option py_float (r_trigger_price rec)"
  using evaluate_decided [OF assms(1)] assms(2,3)
  by cases (auto simp: plan_move_def)

text \<open>
  A trim at market is never entered in the ledger. When a TRIM post without a level has
  an order accepted, the ledger refuses the row (its trigger price may not be null): the
  judgement ends in that exception, with the order out, no audit row and no ledger row, so
  neither the repost check nor the once-only check can see it.
\<close>

theorem market_trim_unrecorded:
  assumes "judge env Live rec s = (e, t)" and "r_is_actionable rec"
    and "r_action rec = TRIM" and "r_trigger_price rec = None"
    and "accepted_orders (sent t) \<noteq> accepted_orders (sent s)"
  shows "(e = Some NotNullViolation \<or> e = Some ValueError) \<and> shadow_table t = shadow_table s \<and> trim_table t = trim_table s"
  using assms(1)
proof (cases rule: judge_cases)
  case (decided d asset l mark)
  have emitted: "d_is_trim d1 \<and> d_trigger_price d1 = None"
    if "d1 = dedupe_trim env Live asset l d s" "d_emit d1" for d1
    using dedupe_decision [of env Live asset l d s] trim_decision [OF decided(5) assms(3)] that assms(4) by auto
  have sent_same: "accepted_orders (sent u) = accepted_orders (sent v)" if "same_sent v u" for u v
    using that by (simp add: same_sent_def)
  have em: "(accepted_orders (sent s2) = accepted_orders (sent s1)) \<or>
      ((r = Inl NotNullViolation \<or> r = Inl ValueError) \<and> shadow_table s2 = shadow_table s1 \<and> trim_table s2 = trim_table s1)"
    if "emission env Live rec asset l mark d1 s1 = (r, s2)" "d1 = dedupe_trim env Live asset l d s" for d1 s1 r s2
  proof (cases "d_emit d1 \<and> asset \<noteq> None \<and> e_strategy env \<noteq> None")
    case False
    with that show ?thesis by (auto simp: emission_def split: option.splits)
  next
    case True
    then obtain a st where a: "asset = Some a" "e_strategy env = Some st" by auto
    note tr = emitted [OF that(2)] True
    show ?thesis
    proof (cases "\<exists>sd sh. d_leg d1 = Some sd \<and> d_size_fraction d1 = Some sh")
      case False
      with that(1) tr a show ?thesis
        by (auto simp: emission_def emit_decided_def split: option.splits)
    next
      case True
      then obtain sd sh where l: "d_leg d1 = Some sd" "d_size_fraction d1 = Some sh" by blast
      obtain q u where f: "fire_trim env a sd sh mark s1 = (q, u)" by force
      have t: "shadow_table u = shadow_table s1 \<and> trim_table u = trim_table s1"
        using fire_trim_tables [OF f] by (simp add: same_tables_def)
      consider err where "q = Inl err" | x where "q = Inr (False, x)" | x where "q = Inr (True, x)"
        by (cases q) auto
      then show ?thesis
      proof cases
        case (1 err)
        then have "r = Inl err" "s2 = u" "err = ValueError"
          using that(1) tr a l f fire_trim_raises by (auto simp: emission_def emit_decided_def)
        with t show ?thesis by simp
      next
        case (2 x)
        then have "s2 = u" using that(1) tr a l f by (auto simp: emission_def emit_decided_def)
        with fire_trim_call [OF f [unfolded 2]] show ?thesis by auto
      next
        case (3 x)
        then have "r = Inl NotNullViolation" "s2 = u"
          using that(1) tr a l f by (auto simp: emission_def emit_decided_def record_fired_trim_def)
        with t show ?thesis by simp
      qed
    qed
  qed
  from decided(6) show ?thesis
  proof (cases rule: carry_out_cases)
    case (unlevelled d1 err)
    with levels_first_calls [OF unlevelled(2)] assms(5) show ?thesis by auto
  next
    case (raised d1 lv s1 err)
    with em [OF raised(3,1)] levels_first_calls [OF raised(2)] assms(5) show ?thesis by auto
  next
    case (unparked d1 lv s1 emi s2 err)
    with em [OF unparked(3,1)] levels_first_calls [OF unparked(2)] assms(5) sent_same [OF same_sent_writes(5)]
    show ?thesis by auto
  next
    case (finished d1 lv s1 emi s2 s4)
    have "accepted_orders (sent t) = accepted_orders (sent s2)"
      using sent_same [OF same_sent_advance] sent_same [OF same_sent_park [OF finished(4)]]
        sent_same [OF same_sent_writes(5)] finished(5) by metis
    with em [OF finished(3,1)] levels_first_calls [OF finished(2)] assms(5) show ?thesis by auto
  qed
qed (use assms in auto)

definition demo_trim_rec :: signal_rec where
  "demo_trim_rec = (sample_rec TRIM ''LONG'')\<lparr>r_size_fraction := Some (PyFloat (1/2))\<rparr>"

theorem market_trim_unrecorded_witness:
  "let (e, t) = judge demo_env Live demo_trim_rec demo_held
   in e = Some NotNullViolation \<and> length (sent t) = 1 \<and> shadow_table t = []"
proof -
  let ?j = "judge demo_env Live demo_trim_rec demo_held"
  have l: "length (accepted_orders (sent (snd ?j))) = 1" "length (sent (snd ?j)) = 1" by code_simp+
  then have "accepted_orders (sent (snd ?j)) \<noteq> accepted_orders (sent demo_held)"
    by (auto simp: demo_held_def demo_state_def)
  from market_trim_unrecorded [of demo_env demo_trim_rec demo_held "fst ?j" "snd ?j", OF _ _ _ _ this]
  have "shadow_table (snd ?j) = []"
    by (simp add: demo_trim_rec_def sample_rec_def demo_held_def demo_state_def)
  moreover have "fst ?j = Some NotNullViolation" by code_simp
  ultimately show ?thesis using l(2) by (simp add: split_def)
qed

text \<open>
  The standing break-even overrides a tighter stop. Once a leg carries the standing
  instruction, a sweep moves whatever stop is recorded for it to the entry, as soon as the
  mark allows and the call is confirmed; a stop set later at a better price is walked back.
\<close>

theorem standing_stop_ignores_tighter:
  assumes "sweep_stop env ((a, sd), r) s = (None, t)"
    and "map_of (leg_table s) (a, sd) = Some r" and "lr_stop_price r = Some h"
    and "open_position (e_cfg env) s a (Some sd) = Some pos" and "ps_entry_price pos \<noteq> 0"
    and "1 / 10 ^ 6 \<le> \<bar>h - ps_entry_price pos\<bar> / ps_entry_price pos"
    and "\<And>m. e_mark env a = Some m \<Longrightarrow> untouched sd (ps_entry_price pos) m"
    and "adjust_levels env (Some (ps_entry_price pos)) (coalesce (lr_tp_price r) (ps_tp_price pos)) False (Some sd) s = (Inr True, u)"
  shows "fst (get_levels t a sd) = Some (ps_entry_price pos)"
proof -
  let ?e = "ps_entry_price pos"
  have "evaluate_stop (e_cfg env) (breakeven_rec (lr_msg_id r)) (Some sd) (Some ?e) (e_mark env a) None (e_now env)
      = (Some ?e, Level_ok)"
    by (subst evaluate_stop_char)
      (simp add: breakeven_rec_def too_old_def stop_asked_def assms(7))
  with assms have t: "t = set_levels (e_now env) u a sd (Some ?e) (coalesce (lr_tp_price r) (ps_tp_price pos)) None"
    by (simp add: sweep_stop_def Let_def not_less)
  have "fst (get_levels u a sd) = Some h"
    using get_levels_cong [OF adjust_same_tables [OF assms(8)]] assms(2,3) by (simp add: get_levels_def)
  from get_levels_set [OF this] t show ?thesis by simp
qed

definition demo_tight :: leg_row where
  "demo_tight = \<lparr>lr_open = True, lr_msg_id = 1, lr_updated_at = 500, lr_stop_price = Some 110,
     lr_tp_price = None, lr_stop_mode = Some Breakeven\<rparr>"

text \<open>A long from 100 whose stop stands at 110 while the mark is 120.\<close>

theorem standing_stop_ignores_tighter_witness:
  "let env = demo_env\<lparr>e_mark := (\<lambda>_. Some 120)\<rparr>; s = demo_state [demo_position LONG 4 100] [((''BTC'', LONG), demo_tight)]
   in fst (get_levels s ''BTC'' LONG) = Some 110 \<and>
      fst (get_levels (snd (sweep_stop env ((''BTC'', LONG), demo_tight) s)) ''BTC'' LONG) = Some 100 \<and>
      \<not> no_looser LONG 100 110"
proof -
  let ?env = "demo_env\<lparr>e_mark := (\<lambda>_. Some 120)\<rparr>"
  let ?s = "demo_state [demo_position LONG 4 100] [((''BTC'', LONG), demo_tight)]"
  let ?sw = "sweep_stop ?env ((''BTC'', LONG), demo_tight) ?s"
  have "fst ?sw = None" by code_simp
  then have sw: "?sw = (None, snd ?sw)" by (simp add: prod_eq_iff)
  have op: "open_position (e_cfg ?env) ?s ''BTC'' (Some LONG) = Some (demo_position LONG 4 100)" by code_simp
  let ?adj = "adjust_levels ?env (Some 100) None False (Some LONG) ?s"
  have "fst ?adj = Inr True" by code_simp
  then have adj: "?adj = (Inr True, snd ?adj)" by (simp add: prod_eq_iff)
  have "fst (get_levels (snd ?sw) ''BTC'' LONG) = Some (ps_entry_price (demo_position LONG 4 100))"
  proof (rule standing_stop_ignores_tighter [OF sw _ _ op])
    show "lr_stop_price demo_tight = Some 110" by (simp add: demo_tight_def)
    show "1 / 10 ^ 6 \<le> \<bar>110 - ps_entry_price (demo_position LONG 4 100)\<bar> / ps_entry_price (demo_position LONG 4 100)"
      by code_simp
    show "adjust_levels ?env (Some (ps_entry_price (demo_position LONG 4 100)))
        (coalesce (lr_tp_price demo_tight) (ps_tp_price (demo_position LONG 4 100))) False (Some LONG) ?s = (Inr True, snd ?adj)"
      using adj by (simp add: demo_tight_def demo_position_def)
  qed (simp_all add: demo_state_def demo_position_def demo_env_def untouched_def)
  then show ?thesis
    by (simp add: Let_def demo_position_def no_looser_def)
      (simp add: get_levels_def demo_state_def demo_tight_def)
qed

text \<open>An exchange that takes the first order of a flip and refuses the second.\<close>

definition half_env :: env where
  "half_env = demo_env\<lparr>e_answer := (\<lambda>calls req. if length calls = 1 then Reply 200 False True True True
     else Reply 503 False False False False)\<rparr>"

definition demo_flip :: signal_rec where
  "demo_flip = sample_rec FLIP ''short''"

definition demo_long :: social where
  "demo_long = (demo_state [demo_position LONG 4 100] [demo_leg LONG])
     \<lparr>sent := [(Order (payload_of St_open_long ''BTC'' 5), Reply 200 False True True True)]\<rparr>"

text \<open>
  A flip that stops half way leaves a leg on record that the exchange no longer holds: the
  close was accepted and the open was not, so the orders made the account flat while the
  listener still records the long, and the post counts as judged.
\<close>

theorem half_flip_diverges:
  "let (e, t) = judge half_env Live demo_flip demo_long
   in e = None \<and> get_legs demo_long ''BTC'' = exchange_legs ''BTC'' (sent demo_long)
     \<and> exchange_legs ''BTC'' (sent t) = no_legs \<and> is_open (get_legs t ''BTC'') LONG
     \<and> already_shadow_evaluated t (r_msg_id demo_flip)"
  by code_simp

text \<open>
  An order whose answer cannot be read goes out twice. The call raises after the order was
  accepted, so neither the legs nor the audit row of the post are written, and the catch-up
  judges the post again and sends the order again.
\<close>

definition garbled_env :: env where
  "garbled_env = demo_env\<lparr>e_answer := (\<lambda>_ _. Unreadable 200)\<rparr>"

theorem unread_answer_resent:
  "let rd = demo_reader ((demo_extraction OPEN (Some LONG))\<lparr>x_reference_price := None\<rparr>);
       (e, t) = handle garbled_env rd [demo_post] Live (demo_state [] []);
       u = snd (handle demo_env rd [demo_post] Live t)
   in e = Some ValueError \<and> get_legs t ''BTC'' = no_legs \<and> exchange_legs ''BTC'' (sent t) \<noteq> no_legs
     \<and> length (accepted_orders (sent t)) = 1 \<and> length (accepted_orders (sent u)) = 2"
  by code_simp

text \<open>
  Two posts that interleave can hold both sides on a net account. Post A is read while nothing
  is held and decides to open a long; before it is carried out, the other task judges post B
  and opens a short; then A writes its long. The lock is per post, so neither excludes the
  other.
\<close>

definition demo_open :: "int \<Rightarrow> string \<Rightarrow> signal_rec" where
  "demo_open k dir = (sample_rec OPEN dir)\<lparr>r_msg_id := k\<rparr>"

theorem racing_posts_hold_both:
  "case evaluate (e_cfg demo_env) (demo_open 7 ''long'') Live no_legs (Some 100) None 1010 False of
     Inl _ \<Rightarrow> False
   | Inr d \<Rightarrow>
       (let s = demo_state [] [];
            t = snd (judge demo_env Live (demo_open 8 ''short'') s);
            u = snd (carry_out demo_env Live (demo_open 7 ''long'') (Some ''BTC'') (get_legs s ''BTC'') (Some 100) d t)
        in e_multi demo_env = False \<and> get_legs s ''BTC'' = no_legs \<and>
           is_open (get_legs u ''BTC'') LONG \<and> is_open (get_legs u ''BTC'') SHORT)"
  by code_simp

section \<open>Instances of the run theorems\<close>

theorem books_balance_witness:
  "let t = snd (handle demo_env (demo_reader (demo_extraction OPEN (Some LONG))) [demo_post] Live (demo_state [] []))
   in legs_invar t \<and> is_open (get_legs t ''BTC'') LONG \<and> get_legs t ''BTC'' = exchange_legs ''BTC'' (sent t)"
proof -
  let ?h = "handle demo_env (demo_reader (demo_extraction OPEN (Some LONG))) [demo_post] Live (demo_state [] [])"
  have r: "is_open (get_legs (snd ?h) ''BTC'') LONG" "get_legs (snd ?h) ''BTC'' = exchange_legs ''BTC'' (sent (snd ?h))"
    by code_simp+
  have "get_legs (demo_state [] []) b = exchange_legs b (sent (demo_state [] []))" for b
    by (simp add: get_legs_def demo_state_def exchange_legs_def from_sides_def no_legs_def)
  from books_balance [OF _ _ surjective_pairing this, of demo_env "demo_reader (demo_extraction OPEN (Some LONG))" "[demo_post]"]
  have "legs_invar (snd ?h)"
    by (simp add: legs_invar_def demo_state_def demo_env_def)
  with r show ?thesis by (simp add: Let_def)
qed

theorem net_account_single_leg_witness:
  "let t = snd (handle demo_env (demo_reader (demo_extraction FLIP (Some SHORT))) [demo_post] Live demo_held)
   in single_legs t \<and> is_open (get_legs t ''BTC'') SHORT"
proof -
  let ?h = "handle demo_env (demo_reader (demo_extraction FLIP (Some SHORT))) [demo_post] Live demo_held"
  have "social_run False demo_held (snd ?h)"
    by (rule handle_runs) (simp_all add: demo_env_def legs_invar_def demo_held_def demo_state_def demo_leg_def)
  moreover have "single_legs demo_held"
  proof -
    have "legs_count (get_legs demo_held a) \<le> 1" for a
      by (simp add: demo_held_def demo_state_def demo_leg_def get_legs_def from_sides_def count_le_Suc0_iff is_open_def)
    then show ?thesis
      by (simp add: single_legs_def legs_invar_def demo_held_def demo_state_def demo_leg_def)
  qed
  ultimately have "single_legs (snd ?h)" by (rule net_account_single_leg)
  moreover have "is_open (get_legs (snd ?h) ''BTC'') SHORT" by code_simp
  ultimately show ?thesis by (simp add: Let_def)
qed

theorem shadow_never_sends_witness:
  "sent (snd (flush (demo_env\<lparr>e_strategy := None\<rparr>) (demo_reader (demo_extraction OPEN (Some LONG))) [demo_post] (demo_state [] []))) = []
   \<and> is_open (get_legs (snd (flush (demo_env\<lparr>e_strategy := None\<rparr>) (demo_reader (demo_extraction OPEN (Some LONG)))
        [demo_post] (demo_state [] []))) ''BTC'') LONG"
proof
  show "is_open (get_legs (snd (flush (demo_env\<lparr>e_strategy := None\<rparr>) (demo_reader (demo_extraction OPEN (Some LONG)))
        [demo_post] (demo_state [] []))) ''BTC'') LONG"
    by code_simp
qed (use shadow_never_sends [of "demo_env\<lparr>e_strategy := None\<rparr>" "demo_reader (demo_extraction OPEN (Some LONG))"
    "[demo_post]" "demo_state [] []"] in \<open>simp add: demo_state_def\<close>)

end
