(* ===== verification/PostLock.thy ===== *)
theory PostLock
  imports Main
begin

text \<open>
  \<open>social-listener/app/post_lock.py\<close> and the protocol around it: two callers (the live
  buffer and the catch-up loop) may bring the same post at the same time. \<open>post_slot\<close> is
  the check-and-add on the set of posts in flight and the discard on every way out; the step
  relation interleaves any number of callers between their awaits.
\<close>

definition slot_enter :: "int \<Rightarrow> int set \<Rightarrow> bool \<times> int set" where
  "slot_enter key_id in_flight =
     (if key_id \<in> in_flight then (False, in_flight) else (True, insert key_id in_flight))"

definition slot_exit :: "int \<Rightarrow> int set \<Rightarrow> int set" where
  "slot_exit key_id in_flight = in_flight - {key_id}"

text \<open>
  How far an owner is: it owns the post, it has seen no audit row for it, its orders are out,
  its audit row is written.
\<close>

datatype stage = Entered | Checked | Acted_upon | Written

record slots =
  in_flight :: "int set"
  holding :: "nat \<Rightarrow> (int \<times> stage) option"
  written :: "int set"
  acts :: "int list"
  crashes :: "int list"

definition no_slots :: slots where
  "no_slots = \<lparr>in_flight = {}, holding = (\<lambda>_. None), written = {}, acts = [], crashes = []\<rparr>"

text \<open>Leaving: through an exception or a cancellation the owner may be at any stage; a crash
  after the orders went out and before the audit row is remembered.\<close>

definition release :: "nat \<Rightarrow> int \<Rightarrow> slots \<Rightarrow> slots" where
  "release c k w = w\<lparr>in_flight := slot_exit k (in_flight w), holding := (holding w)(c := None)\<rparr>"

inductive slot_step :: "slots \<Rightarrow> slots \<Rightarrow> bool" where
  enter: "holding w c = None \<Longrightarrow> slot_enter k (in_flight w) = (True, fl) \<Longrightarrow>
     slot_step w (w\<lparr>in_flight := fl, holding := (holding w)(c \<mapsto> (k, Entered))\<rparr>)"
| dropped: "holding w c = None \<Longrightarrow> slot_enter k (in_flight w) = (False, fl) \<Longrightarrow>
     slot_step w (w\<lparr>in_flight := fl\<rparr>)"
| seen: "holding w c = Some (k, Entered) \<Longrightarrow> k \<in> written w \<Longrightarrow> slot_step w (release c k w)"
| fresh: "holding w c = Some (k, Entered) \<Longrightarrow> k \<notin> written w \<Longrightarrow>
     slot_step w (w\<lparr>holding := (holding w)(c \<mapsto> (k, Checked))\<rparr>)"
| act: "holding w c = Some (k, Checked) \<Longrightarrow>
     slot_step w (w\<lparr>holding := (holding w)(c \<mapsto> (k, Acted_upon)), acts := acts w @ [k]\<rparr>)"
| write_row: "holding w c = Some (k, Acted_upon) \<Longrightarrow>
     slot_step w (w\<lparr>holding := (holding w)(c \<mapsto> (k, Written)), written := insert k (written w)\<rparr>)"
| leave: "holding w c = Some (k, Written) \<Longrightarrow> slot_step w (release c k w)"
| crash: "holding w c = Some (k, st) \<Longrightarrow>
     slot_step w ((release c k w)\<lparr>crashes := (if st = Acted_upon then crashes w @ [k] else crashes w)\<rparr>)"

inductive_cases slot_stepE: "slot_step w w'"

inductive slots_reach :: "slots \<Rightarrow> bool" where
  init: "slots_reach no_slots"
| more: "slots_reach w \<Longrightarrow> slot_step w w' \<Longrightarrow> slots_reach w'"

definition owned_once :: "slots \<Rightarrow> bool" where
  "owned_once w \<longleftrightarrow>
     (\<forall>c k st. holding w c = Some (k, st) \<longrightarrow> k \<in> in_flight w) \<and>
     (\<forall>c d k st st'. holding w c = Some (k, st) \<longrightarrow> holding w d = Some (k, st') \<longrightarrow> c = d)"

text \<open>How many of a post's acts are accounted for by the rows and by the owner at work.\<close>

definition at_stage :: "stage \<Rightarrow> slots \<Rightarrow> int \<Rightarrow> bool" where
  "at_stage st w k \<longleftrightarrow> (\<exists>c. holding w c = Some (k, st))"

definition accounted :: "slots \<Rightarrow> int \<Rightarrow> bool" where
  "accounted w k \<longleftrightarrow>
     count_list (acts w) k \<le> count_list (crashes w) k
       + (if k \<in> written w \<or> at_stage Acted_upon w k then 1 else 0) \<and>
     (k \<in> written w \<longrightarrow> \<not> at_stage Checked w k \<and> \<not> at_stage Acted_upon w k)"

lemma owned_once_step: "owned_once w \<Longrightarrow> slot_step w w' \<Longrightarrow> owned_once w'"
  by (erule slot_stepE)
    (auto simp: owned_once_def slot_enter_def slot_exit_def release_def split: if_splits; metis option.inject prod.inject)+

lemma owned_onceD: "owned_once w \<Longrightarrow> holding w c = Some (k, st) \<Longrightarrow> holding w d = Some (k, st') \<Longrightarrow> c = d"
  unfolding owned_once_def by blast

lemma owned_once_in_flight: "owned_once w \<Longrightarrow> holding w c = Some (k, st) \<Longrightarrow> k \<in> in_flight w"
  unfolding owned_once_def by blast

text \<open>Which stages a change of one caller's entry leaves, for each post.\<close>

lemma at_stage_upd:
  assumes "holding w' = (holding w)(c := v)" "owned_once w" "holding w c = old"
  shows "at_stage st w' k \<longleftrightarrow> v = Some (k, st) \<or> (at_stage st w k \<and> old \<noteq> Some (k, st))"
proof -
  have "d = c" if "holding w d = Some (k, st)" "holding w c = Some (k, st)" for d
    using owned_onceD [OF assms(2)] that by blast
  then show ?thesis
    using assms(1,3) unfolding at_stage_def by (metis fun_upd_apply)
qed

lemma at_stage_excl:
  assumes "owned_once w" "holding w c = Some (k, st)" "st' \<noteq> st"
  shows "\<not> at_stage st' w k"
  using owned_onceD [OF assms(1)] assms(2,3) unfolding at_stage_def
  by (metis option.inject prod.inject)

lemma accounted_step:
  assumes "owned_once w" "accounted w k" "slot_step w w'"
  shows "accounted w' k"
  using assms(3)
proof cases
  case (enter c x fl)
  have "holding w' = (holding w)(c := Some (x, Entered))" using enter(1) by (simp add: release_def)
  from at_stage_upd [OF this assms(1) enter(2)] have "at_stage st w' k \<longleftrightarrow> at_stage st w k \<or> (x = k \<and> st = Entered)" for st
    by auto
  with enter(1) assms(2) show ?thesis by (simp add: accounted_def)
next
  case (dropped c x fl)
  with assms(2) show ?thesis by (simp add: accounted_def at_stage_def)
next
  case (seen c x)
  have "holding w' = (holding w)(c := None)" using seen(1) by (simp add: release_def)
  from at_stage_upd [OF this assms(1) seen(2)] have "at_stage st w' k \<longleftrightarrow> at_stage st w k \<and> (x \<noteq> k \<or> st \<noteq> Entered)" for st
    by auto
  with seen(1) assms(2) show ?thesis by (simp add: accounted_def release_def)
next
  case (fresh c x)
  have "holding w' = (holding w)(c := Some (x, Checked))" using fresh(1) by (simp add: release_def)
  from at_stage_upd [OF this assms(1) fresh(2)] have "at_stage st w' k \<longleftrightarrow> (x = k \<and> st = Checked) \<or> at_stage st w k \<and> (x \<noteq> k \<or> st \<noteq> Entered)" for st
    by auto
  with fresh assms(2) show ?thesis by (auto simp: accounted_def)
next
  case (act c x)
  have "holding w' = (holding w)(c := Some (x, Acted_upon))" using act(1) by (simp add: release_def)
  from at_stage_upd [OF this assms(1) act(2)] have upd: "at_stage st w' k \<longleftrightarrow> (x = k \<and> st = Acted_upon) \<or> at_stage st w k \<and> (x \<noteq> k \<or> st \<noteq> Checked)" for st
    by auto
  have "\<not> at_stage Acted_upon w x" "at_stage Checked w x"
    using at_stage_excl [OF assms(1) act(2)] act(2) by (auto simp: at_stage_def)
  moreover have "written w' = written w" "acts w' = acts w @ [x]" "crashes w' = crashes w"
    using act(1) by simp_all
  ultimately show ?thesis
    using assms(2) unfolding accounted_def upd by (cases "x = k") auto
next
  case (write_row c x)
  have "holding w' = (holding w)(c := Some (x, Written))" using write_row(1) by (simp add: release_def)
  from at_stage_upd [OF this assms(1) write_row(2)] have upd: "at_stage st w' k \<longleftrightarrow> (x = k \<and> st = Written) \<or> at_stage st w k \<and> (x \<noteq> k \<or> st \<noteq> Acted_upon)" for st
    by auto
  have "\<not> at_stage Checked w x" "at_stage Acted_upon w x"
    using at_stage_excl [OF assms(1) write_row(2)] write_row(2) by (auto simp: at_stage_def)
  moreover have "written w' = insert x (written w)" "acts w' = acts w" "crashes w' = crashes w"
    using write_row(1) by simp_all
  ultimately show ?thesis
    using assms(2) unfolding accounted_def upd by (cases "x = k") auto
next
  case (leave c x)
  have "holding w' = (holding w)(c := None)" using leave(1) by (simp add: release_def)
  from at_stage_upd [OF this assms(1) leave(2)] have "at_stage st w' k \<longleftrightarrow> at_stage st w k \<and> (x \<noteq> k \<or> st \<noteq> Written)" for st
    by auto
  with leave(1) assms(2) show ?thesis by (simp add: accounted_def release_def)
next
  case (crash c x sg)
  have "holding w' = (holding w)(c := None)" using crash(1) by (simp add: release_def)
  from at_stage_upd [OF this assms(1) crash(2)] have upd: "at_stage st w' k \<longleftrightarrow> at_stage st w k \<and> (x \<noteq> k \<or> st \<noteq> sg)" for st
    by auto
  have "written w' = written w" "acts w' = acts w"
    "crashes w' = (if sg = Acted_upon then crashes w @ [x] else crashes w)"
    using crash(1) by (simp_all add: release_def)
  then show ?thesis
    using assms(2) unfolding accounted_def upd by (cases "x = k"; cases "sg = Acted_upon") (auto split: if_splits)
qed

lemma slots_reach_inv: "slots_reach w \<Longrightarrow> owned_once w \<and> (\<forall>k. accounted w k)"
proof (induction rule: slots_reach.induct)
  case init
  then show ?case by (simp add: owned_once_def accounted_def no_slots_def)
next
  case (more w w')
  then show ?case using owned_once_step accounted_step by blast
qed

text \<open>
  C21. Mutual exclusion, and what it buys: in every interleaving two different callers never
  own the same post, and a post is acted upon at most once, plus once for every time its
  owner died between sending the orders and writing the audit row.
\<close>

theorem post_acted_once:
  assumes "slots_reach w"
  shows "(\<forall>c d k st st'. holding w c = Some (k, st) \<longrightarrow> holding w d = Some (k, st') \<longrightarrow> c = d)
     \<and> count_list (acts w) k \<le> 1 + count_list (crashes w) k"
proof -
  from slots_reach_inv [OF assms] have "owned_once w" "accounted w k" by auto
  then show ?thesis
    unfolding owned_once_def accounted_def by (auto split: if_splits)
qed

text \<open>The interleaving of the incident: both callers bring post 9794, one of them owns it.\<close>

definition duel :: "slots" where
  "duel = \<lparr>in_flight = {9794}, holding = (\<lambda>_. None)(0 \<mapsto> (9794, Acted_upon)), written = {},
     acts = [9794], crashes = []\<rparr>"

lemma duel_reach: "slots_reach duel"
proof -
  let ?w1 = "\<lparr>in_flight = {9794}, holding = (\<lambda>_. None)(0 \<mapsto> (9794, Entered)), written = {},
     acts = [], crashes = []\<rparr> :: slots"
  let ?w2 = "?w1\<lparr>holding := (\<lambda>_. None)(0 \<mapsto> (9794, Checked))\<rparr>"
  have "slot_step no_slots ?w1"
    using slot_step.enter [of no_slots 0 9794 "{9794}"] by (simp add: no_slots_def slot_enter_def)
  with slots_reach.init have "slots_reach ?w1" by (rule slots_reach.more)
  moreover have "slot_step ?w1 ?w1"
    using slot_step.dropped [of ?w1 1 9794 "{9794}"] by (simp add: slot_enter_def)
  ultimately have "slots_reach ?w1" by (rule slots_reach.more)
  moreover have "slot_step ?w1 ?w2"
    using slot_step.fresh [of ?w1 0 9794] by simp
  ultimately have "slots_reach ?w2" by (rule slots_reach.more)
  moreover have "slot_step ?w2 duel"
    using slot_step.act [of ?w2 0 9794] by (simp add: duel_def)
  ultimately show ?thesis by (rule slots_reach.more)
qed

theorem post_acted_once_witness:
  "count_list (acts duel) 9794 = 1 \<and> count_list (acts duel) 9794 \<le> 1 + count_list (crashes duel) 9794"
  using post_acted_once [OF duel_reach, of 9794] by (simp add: duel_def)

end
