(* ===== verification/Bracket.thy ===== *)
theory Bracket
  imports Prelude
begin

text \<open>
  \<open>signal-engine/app/exits.py\<close>: the bracket that watches one filled position. It is
  built once per fill and fed bars or point prices; each update returns the exit legs that
  fired. The direction is 1 for a long and -1 for a short, as in the source.
\<close>

section \<open>The bracket\<close>

record bracket_spec =
  bs_direction :: int
  bs_tp1_offset_pct :: rat
  bs_tp1_size_pct :: rat
  bs_tp2_offset_pct :: rat
  bs_stop_offset_pct :: rat
  bs_trail_arm_pct :: rat
  bs_trail_pct :: rat
  bs_be_offset_pct :: rat
  bs_rsi_long :: rat
  bs_rsi_short :: rat

datatype exit_reason = Tp1 | Tp2 | Stop | Be_stop | Trail

type_synonym exit_leg = "exit_reason \<times> rat"

record bracket =
  bk_d :: int
  bk_tp1 :: rat
  bk_tp2 :: rat
  bk_be :: rat
  bk_trail_arm :: rat
  bk_trail_pct :: rat
  bk_tp1_size :: rat
  bk_tighten :: rat
  bk_rsi_long :: rat
  bk_rsi_short :: rat
  bk_protective :: rat
  bk_peak :: rat
  bk_remaining :: rat
  bk_armed :: bool
  bk_tp1_done :: bool
  bk_tightened :: bool
  bk_closed :: bool

text \<open>\<open>_levels\<close> and \<open>__init__\<close>.\<close>

definition new_bracket :: "bracket_spec \<Rightarrow> rat \<Rightarrow> bracket" where
  "new_bracket spec entry =
     (let d = of_int (bs_direction spec) :: rat in
      \<lparr>bk_d = bs_direction spec,
       bk_tp1 = entry * (1 + d * bs_tp1_offset_pct spec / 100),
       bk_tp2 = entry * (1 + d * bs_tp2_offset_pct spec / 100),
       bk_be = entry * (1 + d * bs_be_offset_pct spec / 100),
       bk_trail_arm = entry * (1 + d * bs_trail_arm_pct spec / 100),
       bk_trail_pct = bs_trail_pct spec / 100,
       bk_tp1_size = bs_tp1_size_pct spec,
       bk_tighten = entry * (1 - d * bs_stop_offset_pct spec / 200),
       bk_rsi_long = bs_rsi_long spec,
       bk_rsi_short = bs_rsi_short spec,
       bk_protective = entry * (1 - d * bs_stop_offset_pct spec / 100),
       bk_peak = entry,
       bk_remaining = 100,
       bk_armed = False, bk_tp1_done = False, bk_tightened = False, bk_closed = False\<rparr>)"

definition bracket_side :: "bracket \<Rightarrow> string" where
  "bracket_side b = (if bk_d b = 1 then ''long'' else ''short'')"

section \<open>One update\<close>

text \<open>Steps 2 to 4: the peak, the condition-modify and the latch of the trailing stop.\<close>

definition raise_peak :: "rat \<Rightarrow> rat \<Rightarrow> bracket \<Rightarrow> bracket" where
  "raise_peak high low b = b\<lparr>bk_peak := (if bk_d b = 1 then max (bk_peak b) high else min (bk_peak b) low)\<rparr>"

definition tighten_on_rsi :: "rat option \<Rightarrow> bracket \<Rightarrow> bracket" where
  "tighten_on_rsi rsi b =
     (case rsi of None \<Rightarrow> b
      | Some r \<Rightarrow>
          if \<not> bk_tp1_done b \<and> \<not> bk_tightened b \<and>
             ((bk_d b = 1 \<and> bk_rsi_long b < r) \<or> (bk_d b = -1 \<and> r < bk_rsi_short b))
          then b\<lparr>bk_protective := bk_tighten b, bk_tightened := True\<rparr> else b)"

definition arm_trail :: "rat \<Rightarrow> rat \<Rightarrow> bracket \<Rightarrow> bracket" where
  "arm_trail high low b =
     (if (bk_d b = 1 \<and> bk_trail_arm b \<le> high) \<or> (bk_d b = -1 \<and> low \<le> bk_trail_arm b)
      then b\<lparr>bk_armed := True\<rparr> else b)"

definition prepare :: "rat \<Rightarrow> rat \<Rightarrow> rat option \<Rightarrow> bracket \<Rightarrow> bracket" where
  "prepare high low rsi b = arm_trail high low (tighten_on_rsi rsi (raise_peak high low b))"

text \<open>Step 5: the stop in force.\<close>

definition effective_stop :: "bracket \<Rightarrow> rat" where
  "effective_stop b =
     (let trail_level = bk_peak b * (1 - of_int (bk_d b) * bk_trail_pct b)
      in if bk_armed b
         then (if bk_d b = 1 then max (bk_protective b) trail_level else min (bk_protective b) trail_level)
         else bk_protective b)"

definition reaches_stop :: "bracket \<Rightarrow> rat \<Rightarrow> rat \<Rightarrow> rat \<Rightarrow> bool" where
  "reaches_stop b high low level \<longleftrightarrow> (bk_d b = 1 \<and> low \<le> level) \<or> (bk_d b = -1 \<and> level \<le> high)"

definition reaches_target :: "bracket \<Rightarrow> rat \<Rightarrow> rat \<Rightarrow> rat \<Rightarrow> bool" where
  "reaches_target b high low level \<longleftrightarrow> (bk_d b = 1 \<and> level \<le> high) \<or> (bk_d b = -1 \<and> low \<le> level)"

text \<open>Steps 7 and 8: the targets; the second may fire in the same update as the first.\<close>

definition take_tp1 :: "rat \<Rightarrow> rat \<Rightarrow> bracket \<Rightarrow> exit_leg list \<times> bracket" where
  "take_tp1 high low b =
     (if \<not> bk_tp1_done b \<and> reaches_target b high low (bk_tp1 b)
      then ([(Tp1, bk_tp1_size b)],
            b\<lparr>bk_remaining := bk_remaining b - bk_tp1_size b, bk_tp1_done := True, bk_protective := bk_be b\<rparr>)
      else ([], b))"

definition take_tp2 :: "rat \<Rightarrow> rat \<Rightarrow> bracket \<Rightarrow> exit_leg list \<times> bracket" where
  "take_tp2 high low b =
     (if bk_tp1_done b \<and> reaches_target b high low (bk_tp2 b)
      then ([(Tp2, bk_remaining b)], b\<lparr>bk_closed := True\<rparr>) else ([], b))"

definition update_bracket :: "rat \<Rightarrow> rat \<Rightarrow> rat option \<Rightarrow> bracket \<Rightarrow> exit_leg list \<times> bracket" where
  "update_bracket high low rsi b0 =
     (if bk_closed b0 then ([], b0)
      else
        (let b = prepare high low rsi b0 in
         if reaches_stop b high low (effective_stop b)
         then ([(if reaches_stop b high low (bk_protective b)
                 then (if bk_tp1_done b then Be_stop else Stop) else Trail, bk_remaining b)],
               b\<lparr>bk_closed := True\<rparr>)
         else (case take_tp1 high low b of (legs1, b1) \<Rightarrow>
                 case take_tp2 high low b1 of (legs2, b2) \<Rightarrow> (legs1 @ legs2, b2))))"

text \<open>A bracket fed a list of bars: all the legs, and where it ends.\<close>

type_synonym bar_input = "rat \<times> rat \<times> rat option"

fun run_bracket :: "bar_input list \<Rightarrow> bracket \<Rightarrow> exit_leg list \<times> bracket" where
  "run_bracket [] b = ([], b)"
| "run_bracket ((high, low, rsi) # bars) b =
     (case update_bracket high low rsi b of (legs, b') \<Rightarrow>
        case run_bracket bars b' of (rest, b'') \<Rightarrow> (legs @ rest, b''))"

section \<open>An exit monitor\<close>

text \<open>
  What the engine relies on of whatever watches a position: a size that is still open, an
  update that reports how much it takes off, and a state in which nothing is left to do.
\<close>

locale exit_monitor =
  fixes upd :: "'i \<Rightarrow> 's \<Rightarrow> exit_leg list \<times> 's"
    and left :: "'s \<Rightarrow> rat"
    and finished :: "'s \<Rightarrow> bool"
    and ok :: "'s \<Rightarrow> bool"
  assumes finished_stays: "finished s \<Longrightarrow> upd i s = ([], s)"
    and ok_upd: "ok s \<Longrightarrow> ok (snd (upd i s))"
    and takes: "ok s \<Longrightarrow> sum_list (map snd (fst (upd i s))) = left s - left (snd (upd i s))"
begin

fun run_all :: "'i list \<Rightarrow> 's \<Rightarrow> exit_leg list \<times> 's" where
  "run_all [] s = ([], s)"
| "run_all (i # is) s = (case upd i s of (legs, s') \<Rightarrow>
     case run_all is s' of (rest, s'') \<Rightarrow> (legs @ rest, s''))"

lemma run_all_ok: "ok s \<Longrightarrow> ok (snd (run_all is s))"
  by (induction "is" arbitrary: s) (auto split: prod.splits dest: ok_upd, metis ok_upd snd_conv)

lemma run_all_finished: "finished s \<Longrightarrow> run_all is s = ([], s)"
  by (induction "is") (simp_all add: finished_stays)

lemma run_all_takes:
  "ok s \<Longrightarrow> sum_list (map snd (fst (run_all is s))) = left s - left (snd (run_all is s))"
proof (induction "is" arbitrary: s)
  case (Cons i "is")
  obtain legs s' where u: "upd i s = (legs, s')" by (rule prod.exhaust)
  obtain rest s'' where r: "run_all is s' = (rest, s'')" by (rule prod.exhaust)
  from takes [OF Cons.prems, of i] ok_upd [OF Cons.prems, of i] Cons.IH [of s'] u r
  show ?case by simp
qed simp

end

section \<open>What an update keeps\<close>

definition bracket_left :: "bracket \<Rightarrow> rat" where
  "bracket_left b = (if bk_closed b then 0 else bk_remaining b)"

text \<open>What is still open follows from whether the first target was taken.\<close>

definition bracket_ok :: "bracket \<Rightarrow> bool" where
  "bracket_ok b \<longleftrightarrow> bk_remaining b = 100 - (if bk_tp1_done b then bk_tp1_size b else 0)"

lemma prepare_same [simp]:
  "bk_d (prepare high low rsi b) = bk_d b"
  "bk_tp1 (prepare high low rsi b) = bk_tp1 b"
  "bk_tp2 (prepare high low rsi b) = bk_tp2 b"
  "bk_be (prepare high low rsi b) = bk_be b"
  "bk_trail_pct (prepare high low rsi b) = bk_trail_pct b"
  "bk_tp1_size (prepare high low rsi b) = bk_tp1_size b"
  "bk_tighten (prepare high low rsi b) = bk_tighten b"
  "bk_remaining (prepare high low rsi b) = bk_remaining b"
  "bk_tp1_done (prepare high low rsi b) = bk_tp1_done b"
  "bk_closed (prepare high low rsi b) = bk_closed b"
  by (simp_all add: prepare_def arm_trail_def tighten_on_rsi_def raise_peak_def split: option.split)

text \<open>The four ways an update ends, over the prepared bracket.\<close>

lemma update_cases:
  obtains (closed) "bk_closed b" "update_bracket high low rsi b = ([], b)"
  | (stopped) c r where "\<not> bk_closed b" "c = prepare high low rsi b"
      "reaches_stop c high low (effective_stop c)"
      "r = (if reaches_stop c high low (bk_protective c) then (if bk_tp1_done b then Be_stop else Stop) else Trail)"
      "update_bracket high low rsi b = ([(r, bk_remaining b)], c\<lparr>bk_closed := True\<rparr>)"
  | (targets) c l1 c1 l2 c2 where "\<not> bk_closed b" "c = prepare high low rsi b"
      "\<not> reaches_stop c high low (effective_stop c)"
      "take_tp1 high low c = (l1, c1)" "take_tp2 high low c1 = (l2, c2)"
      "update_bracket high low rsi b = (l1 @ l2, c2)"
proof -
  let ?c = "prepare high low rsi b"
  obtain l1 c1 where t1: "take_tp1 high low ?c = (l1, c1)" by (rule prod.exhaust)
  obtain l2 c2 where t2: "take_tp2 high low c1 = (l2, c2)" by (rule prod.exhaust)
  show thesis
  proof (cases "bk_closed b")
    case True
    then show thesis by (intro closed) (simp_all add: update_bracket_def)
  next
    case live: False
    show thesis
    proof (cases "reaches_stop ?c high low (effective_stop ?c)")
      case True
      show thesis by (rule stopped [OF live refl True refl]) (simp add: update_bracket_def live True)
    next
      case False
      show thesis by (rule targets [OF live refl False t1 t2]) (simp add: update_bracket_def live False t1 t2)
    qed
  qed
qed

lemma take_tp1_cases:
  assumes "take_tp1 high low c = (l, c1)"
  obtains (taken) "\<not> bk_tp1_done c" "l = [(Tp1, bk_tp1_size c)]"
      "c1 = c\<lparr>bk_remaining := bk_remaining c - bk_tp1_size c, bk_tp1_done := True, bk_protective := bk_be c\<rparr>"
  | (not_taken) "l = []" "c1 = c"
proof (cases "\<not> bk_tp1_done c \<and> reaches_target c high low (bk_tp1 c)")
  case True
  with assms show thesis by (intro taken) (simp_all add: take_tp1_def)
next
  case False
  with assms have "([], c) = (l, c1)" by (simp only: take_tp1_def if_False)
  then show thesis by (intro not_taken) simp_all
qed

lemma take_tp2_cases:
  assumes "take_tp2 high low c = (l, c1)"
  obtains (taken) "bk_tp1_done c" "l = [(Tp2, bk_remaining c)]" "c1 = c\<lparr>bk_closed := True\<rparr>"
  | (not_taken) "l = []" "c1 = c"
proof (cases "bk_tp1_done c \<and> reaches_target c high low (bk_tp2 c)")
  case True
  with assms show thesis by (intro taken) (simp_all add: take_tp2_def)
next
  case False
  with assms have "([], c) = (l, c1)" by (simp only: take_tp2_def if_False)
  then show thesis by (intro not_taken) simp_all
qed

lemma update_closed [simp]: "bk_closed b \<Longrightarrow> update_bracket high low rsi b = ([], b)"
  by (simp add: update_bracket_def)

lemma update_same_spec [simp]:
  "bk_d (snd (update_bracket high low rsi b)) = bk_d b"
  "bk_tp1_size (snd (update_bracket high low rsi b)) = bk_tp1_size b"
  "bk_tighten (snd (update_bracket high low rsi b)) = bk_tighten b"
  "bk_be (snd (update_bracket high low rsi b)) = bk_be b"
  "bk_trail_pct (snd (update_bracket high low rsi b)) = bk_trail_pct b"
  subgoal by (rule update_cases [of b high low rsi]) (auto elim!: take_tp1_cases take_tp2_cases)
  subgoal by (rule update_cases [of b high low rsi]) (auto elim!: take_tp1_cases take_tp2_cases)
  subgoal by (rule update_cases [of b high low rsi]) (auto elim!: take_tp1_cases take_tp2_cases)
  subgoal by (rule update_cases [of b high low rsi]) (auto elim!: take_tp1_cases take_tp2_cases)
  subgoal by (rule update_cases [of b high low rsi]) (auto elim!: take_tp1_cases take_tp2_cases)
  done

lemma update_ok: "bracket_ok b \<Longrightarrow> bracket_ok (snd (update_bracket high low rsi b))"
  by (rule update_cases [of b high low rsi]; auto simp: bracket_ok_def elim!: take_tp1_cases take_tp2_cases)

lemma update_takes:
  "sum_list (map snd (fst (update_bracket high low rsi b)))
     = bracket_left b - bracket_left (snd (update_bracket high low rsi b))"
  by (rule update_cases [of b high low rsi]; auto simp: bracket_left_def elim!: take_tp1_cases take_tp2_cases)

lemma new_bracket_ok [simp]: "bracket_ok (new_bracket spec entry)"
  by (simp add: bracket_ok_def new_bracket_def Let_def)

definition update_on :: "bar_input \<Rightarrow> bracket \<Rightarrow> exit_leg list \<times> bracket" where
  "update_on i b = (case i of (high, low, rsi) \<Rightarrow> update_bracket high low rsi b)"

lemma update_on_triple [simp]: "update_on (high, low, rsi) b = update_bracket high low rsi b"
  by (simp add: update_on_def)

interpretation bm: exit_monitor update_on bracket_left bk_closed bracket_ok
proof
  fix i :: bar_input and b :: bracket
  obtain high low rsi where i: "i = (high, low, rsi)" by (cases i)
  show "bk_closed b \<Longrightarrow> update_on i b = ([], b)"
    by (simp add: i)
  show "bracket_ok b \<Longrightarrow> bracket_ok (snd (update_on i b))"
    by (simp add: update_ok i)
  show "bracket_ok b \<Longrightarrow>
      sum_list (map snd (fst (update_on i b))) = bracket_left b - bracket_left (snd (update_on i b))"
    by (simp add: update_takes i)
qed

lemma run_bracket_run_all: "run_bracket bars b = bm.run_all bars b"
  by (induction bars b rule: run_bracket.induct) (simp_all split: prod.split)

section \<open>The life of a bracket\<close>

text \<open>The legs a bracket may have fired so far, read off where it stands.\<close>

definition legs_shape :: "exit_leg list \<Rightarrow> bracket \<Rightarrow> bool" where
  "legs_shape legs b \<longleftrightarrow>
     (if bk_tp1_done b
      then (if bk_closed b
            then list_ex (\<lambda>r. legs = [(Tp1, bk_tp1_size b), (r, 100 - bk_tp1_size b)]) [Tp2, Be_stop, Trail]
            else legs = [(Tp1, bk_tp1_size b)])
      else (if bk_closed b then legs = [(Stop, 100)] \<or> legs = [(Trail, 100)] else legs = []))"

lemma update_shape:
  assumes "bracket_ok b" "legs_shape legs b"
  shows "legs_shape (legs @ fst (update_bracket high low rsi b)) (snd (update_bracket high low rsi b))"
  using assms
  by (rule_tac update_cases [of b high low rsi];
      auto simp: legs_shape_def bracket_ok_def elim!: take_tp1_cases take_tp2_cases)

lemma run_shape:
  "bracket_ok b \<Longrightarrow> legs_shape legs b \<Longrightarrow>
     legs_shape (legs @ fst (run_bracket bars b)) (snd (run_bracket bars b))"
proof (induction bars arbitrary: legs b)
  case (Cons i bars)
  obtain high low rsi where i: "i = (high, low, rsi)" by (cases i)
  obtain l b' where u: "update_bracket high low rsi b = (l, b')" by (rule prod.exhaust)
  obtain r b'' where r: "run_bracket bars b' = (r, b'')" by (rule prod.exhaust)
  have "bracket_ok b'" "legs_shape (legs @ l) b'"
    using update_ok [OF Cons.prems(1), of high low rsi] update_shape [OF Cons.prems, of high low rsi] u
    by simp_all
  from Cons.IH [OF this] show ?case by (simp add: i u r)
qed simp

lemma run_tp1_size: "bk_tp1_size (snd (run_bracket bars b)) = bk_tp1_size b"
proof (induction bars arbitrary: b)
  case (Cons i bars)
  obtain high low rsi where i: "i = (high, low, rsi)" by (cases i)
  obtain l b' where u: "update_bracket high low rsi b = (l, b')" by (rule prod.exhaust)
  obtain r b'' where r: "run_bracket bars b' = (r, b'')" by (rule prod.exhaust)
  from Cons [of b'] update_same_spec(2) [of high low rsi b] show ?case
    by (simp add: i u r)
qed simp

section \<open>The stop never loosens\<close>

text \<open>How much worse one stop is than another for a position in direction \<open>d\<close>.\<close>

definition not_worse :: "int \<Rightarrow> rat \<Rightarrow> rat \<Rightarrow> bool" where
  "not_worse d old new \<longleftrightarrow> (if d = 1 then old \<le> new else new \<le> old)"

text \<open>
  A bracket whose three protective levels are in order, whose trailing distance lies between
  nothing and the whole price, and whose current protective stop is the one of its phase.
\<close>

definition ratchet_ok :: "bracket \<Rightarrow> bool" where
  "ratchet_ok b \<longleftrightarrow>
     (bk_d b = 1 \<or> bk_d b = -1) \<and> 0 \<le> bk_trail_pct b \<and> bk_trail_pct b \<le> 1 \<and>
     not_worse (bk_d b) (bk_tighten b) (bk_be b) \<and>
     (if bk_tp1_done b then bk_protective b = bk_be b
      else not_worse (bk_d b) (bk_protective b) (bk_tighten b))"

lemma not_worse_refl [simp]: "not_worse d x x"
  by (simp add: not_worse_def)

lemma not_worse_trans: "not_worse d x y \<Longrightarrow> not_worse d y z \<Longrightarrow> not_worse d x z"
  by (auto simp: not_worse_def split: if_splits)

lemma ratchet_d: "ratchet_ok b \<Longrightarrow> bk_d b = 1 \<or> bk_d b = -1"
  by (simp add: ratchet_ok_def)

lemma effective_stop_mono:
  assumes "ratchet_ok b" "bk_d c = bk_d b" "bk_trail_pct c = bk_trail_pct b"
    and "not_worse (bk_d b) (bk_protective b) (bk_protective c)"
    and "not_worse (bk_d b) (bk_peak b) (bk_peak c)" "bk_armed b \<longrightarrow> bk_armed c"
  shows "not_worse (bk_d b) (effective_stop b) (effective_stop c)"
proof (cases "bk_d b = 1")
  case True
  have "bk_peak b * (1 - bk_trail_pct b) \<le> bk_peak c * (1 - bk_trail_pct b)"
    using assms(1,5) True by (intro mult_right_mono) (simp_all add: ratchet_ok_def not_worse_def)
  then show ?thesis using assms True by (auto simp: effective_stop_def not_worse_def Let_def)
next
  case False
  then have d: "bk_d b = -1" using assms(1) by (simp add: ratchet_ok_def)
  have "bk_peak c * (1 + bk_trail_pct b) \<le> bk_peak b * (1 + bk_trail_pct b)"
    using assms(1,5) d by (intro mult_right_mono) (simp_all add: ratchet_ok_def not_worse_def)
  then show ?thesis using assms d by (auto simp: effective_stop_def not_worse_def Let_def)
qed

lemma prepare_peak:
  "bk_peak (prepare high low rsi b) = (if bk_d b = 1 then max (bk_peak b) high else min (bk_peak b) low)"
  by (simp add: prepare_def arm_trail_def tighten_on_rsi_def raise_peak_def split: option.split)

lemma prepare_armed: "bk_armed b \<Longrightarrow> bk_armed (prepare high low rsi b)"
  by (simp add: prepare_def arm_trail_def tighten_on_rsi_def raise_peak_def split: option.split)

lemma prepare_protective:
  "bk_protective (prepare high low rsi b) = bk_protective b \<or>
   \<not> bk_tp1_done b \<and> bk_protective (prepare high low rsi b) = bk_tighten b"
  by (simp add: prepare_def arm_trail_def tighten_on_rsi_def raise_peak_def split: option.split)

lemma prepare_moves:
  assumes "ratchet_ok b"
  shows "not_worse (bk_d b) (bk_protective b) (bk_protective (prepare high low rsi b))"
    and "not_worse (bk_d b) (bk_peak b) (bk_peak (prepare high low rsi b))"
    and "bk_armed b \<longrightarrow> bk_armed (prepare high low rsi b)"
    and "ratchet_ok (prepare high low rsi b)"
proof -
  consider "bk_protective (prepare high low rsi b) = bk_protective b"
    | "\<not> bk_tp1_done b" "bk_protective (prepare high low rsi b) = bk_tighten b"
    using prepare_protective [of high low rsi b] by blast
  note p = this
  show "not_worse (bk_d b) (bk_protective b) (bk_protective (prepare high low rsi b))"
    by (rule p) (use assms in \<open>simp_all add: ratchet_ok_def\<close>)
  show "ratchet_ok (prepare high low rsi b)"
    by (rule p) (use assms in \<open>simp_all add: ratchet_ok_def\<close>)
qed (simp_all add: prepare_peak not_worse_def prepare_armed)

lemma update_ratchet:
  assumes "ratchet_ok b"
  shows "ratchet_ok (snd (update_bracket high low rsi b))"
    and "not_worse (bk_d b) (effective_stop b) (effective_stop (snd (update_bracket high low rsi b)))"
proof -
  let ?c = "prepare high low rsi b"
  note moves = prepare_moves [OF assms, of high low rsi]
  have close: "ratchet_ok (c\<lparr>bk_closed := True\<rparr>) = ratchet_ok c"
      "effective_stop (c\<lparr>bk_closed := True\<rparr>) = effective_stop c" for c
    by (simp_all add: ratchet_ok_def effective_stop_def Let_def)
  have up: "not_worse (bk_d b) (effective_stop b) (effective_stop ?c)"
    using moves by (intro effective_stop_mono [OF assms]) simp_all
  have "ratchet_ok (snd (update_bracket high low rsi b)) \<and>
     not_worse (bk_d b) (effective_stop b) (effective_stop (snd (update_bracket high low rsi b)))"
  proof (rule update_cases [of b high low rsi])
    fix c l1 c1 l2 c2
    assume c: "c = ?c" and t1: "take_tp1 high low c = (l1, c1)" and t2: "take_tp2 high low c1 = (l2, c2)"
      and u: "update_bracket high low rsi b = (l1 @ l2, c2)"
    have "ratchet_ok c1 \<and> not_worse (bk_d b) (effective_stop c) (effective_stop c1)"
    proof (rule take_tp1_cases [OF t1])
      assume "\<not> bk_tp1_done c" and c1: "c1 = c\<lparr>bk_remaining := bk_remaining c - bk_tp1_size c,
          bk_tp1_done := True, bk_protective := bk_be c\<rparr>"
      then have "not_worse (bk_d b) (bk_protective c) (bk_be c)"
        using moves(4) c by (auto simp: ratchet_ok_def intro: not_worse_trans)
      then show ?thesis
        using moves(4) c c1 effective_stop_mono [OF moves(4), of c1] by (simp add: ratchet_ok_def)
    qed (use moves(4) c in simp)
    moreover have "ratchet_ok c2 = ratchet_ok c1 \<and> effective_stop c2 = effective_stop c1"
      by (rule take_tp2_cases [OF t2]) (simp_all add: close)
    ultimately show ?thesis
      using not_worse_trans [OF up, of "effective_stop c1"] u c by simp
  qed (use assms moves up in \<open>simp_all add: close\<close>)
  then show "ratchet_ok (snd (update_bracket high low rsi b))"
    and "not_worse (bk_d b) (effective_stop b) (effective_stop (snd (update_bracket high low rsi b)))"
    by simp_all
qed

lemma run_ratchet:
  assumes "ratchet_ok b"
  shows "ratchet_ok (snd (run_bracket bars b)) \<and> bk_d (snd (run_bracket bars b)) = bk_d b \<and>
     not_worse (bk_d b) (effective_stop b) (effective_stop (snd (run_bracket bars b)))"
  using assms
proof (induction bars arbitrary: b)
  case (Cons i bars)
  obtain high low rsi where i: "i = (high, low, rsi)" by (cases i)
  obtain l b' where u: "update_bracket high low rsi b = (l, b')" by (rule prod.exhaust)
  obtain r b'' where r: "run_bracket bars b' = (r, b'')" by (rule prod.exhaust)
  from Cons.IH [of b'] update_ratchet [OF Cons.prems, of high low rsi] update_same_spec(1) [of high low rsi b]
  show ?case by (auto simp: i u r intro: not_worse_trans)
qed simp

lemma new_bracket_ratchet:
  assumes "bs_direction spec = 1 \<or> bs_direction spec = -1" "0 < entry" "0 \<le> bs_stop_offset_pct spec"
    and "- bs_stop_offset_pct spec / 2 \<le> bs_be_offset_pct spec"
    and "0 \<le> bs_trail_pct spec" "bs_trail_pct spec \<le> 100"
  shows "ratchet_ok (new_bracket spec entry)"
proof -
  have "entry * (1 - s / 100) \<le> entry * (1 - s / 200)" "entry * (1 + s / 200) \<le> entry * (1 + s / 100)"
    if "0 \<le> s" for s :: rat
    using that assms(2) by (intro mult_left_mono; simp)+
  moreover have "entry * (1 - s / 200) \<le> entry * (1 + e / 100)" "entry * (1 - e / 100) \<le> entry * (1 + s / 200)"
    if "- s / 2 \<le> e" for s e :: rat
    using that assms(2) by (intro mult_left_mono; simp)+
  ultimately show ?thesis
    using assms by (auto simp: ratchet_ok_def not_worse_def new_bracket_def Let_def)
qed

lemma run_append:
  "run_bracket (xs @ ys) b =
     (case run_bracket xs b of (l, b') \<Rightarrow> case run_bracket ys b' of (r, b'') \<Rightarrow> (l @ r, b''))"
  by (induction xs b rule: run_bracket.induct) (auto split: prod.split)

section \<open>Properties\<close>

text \<open>The self-test's long position: entry 100, half off at +0.5\%, the rest at +1\%.\<close>

definition demo_spec :: "int \<Rightarrow> bracket_spec" where
  "demo_spec d =
     \<lparr>bs_direction = d, bs_tp1_offset_pct = 1/2, bs_tp1_size_pct = 50, bs_tp2_offset_pct = 1,
      bs_stop_offset_pct = 7/10, bs_trail_arm_pct = 4/10, bs_trail_pct = 3/10, bs_be_offset_pct = 1/10,
      bs_rsi_long = 75, bs_rsi_short = 25\<rparr>"

lemmas run_takes_from_new = bm.run_all_takes [OF new_bracket_ok, folded run_bracket_run_all]

lemma new_bracket_left [simp]: "bracket_left (new_bracket spec entry) = 100"
  by (simp add: bracket_left_def new_bracket_def Let_def)

lemma new_bracket_size [simp]: "bk_tp1_size (new_bracket spec entry) = bs_tp1_size_pct spec"
  by (simp add: new_bracket_def Let_def)

lemma new_bracket_shape [simp]: "legs_shape [] (new_bracket spec entry)"
  by (simp add: legs_shape_def new_bracket_def Let_def)

lemma run_closed: "bk_closed b \<Longrightarrow> run_bracket bars b = ([], b)"
  by (simp add: run_bracket_run_all bm.run_all_finished)

lemma legs_shape_positive:
  "legs_shape legs b \<Longrightarrow> 0 < bk_tp1_size b \<Longrightarrow> bk_tp1_size b < 100 \<Longrightarrow> list_all (\<lambda>(_, size). 0 < size) legs"
  by (auto simp: legs_shape_def split: if_splits)

text \<open>
  The life of a bracket, whatever bars it is fed: the legs fired so far are
  exactly one of nothing; the whole position on the stop or the trailing stop; the first
  target alone; or the first target followed by one leg (second target, break-even stop or
  trailing stop) for exactly the rest. The sizes fired and the size still open add up to the
  whole position at every moment, so a closed bracket has exited one hundred per cent; every
  leg has a positive size when the first target takes a proper part; and a closed bracket
  never fires again.
\<close>

theorem bracket_life:
  assumes "run_bracket bars (new_bracket spec entry) = (legs, b)"
  shows "legs_shape legs b \<and>
     sum_list (map snd legs) + bracket_left b = 100 \<and>
     (0 < bs_tp1_size_pct spec \<and> bs_tp1_size_pct spec < 100 \<longrightarrow> list_all (\<lambda>(_, size). 0 < size) legs) \<and>
     (bk_closed b \<longrightarrow> run_bracket (bars @ later) (new_bracket spec entry) = (legs, b))"
proof (intro conjI)
  show shape: "legs_shape legs b"
    using run_shape [OF new_bracket_ok, of "[]" spec entry bars] assms by simp
  show "sum_list (map snd legs) + bracket_left b = 100"
    using run_takes_from_new [of bars spec entry] assms by simp
  show "0 < bs_tp1_size_pct spec \<and> bs_tp1_size_pct spec < 100 \<longrightarrow> list_all (\<lambda>(_, size). 0 < size) legs"
    using legs_shape_positive [OF shape] run_tp1_size [of bars "new_bracket spec entry"] assms by simp
  show "bk_closed b \<longrightarrow> run_bracket (bars @ later) (new_bracket spec entry) = (legs, b)"
    by (simp add: run_append assms run_closed)
qed

theorem bracket_life_witness:
  "let (legs, b) = run_bracket [(1005/10, 1005/10, None), (10005/100, 10005/100, None)]
                     (new_bracket (demo_spec 1) 100)
   in legs = [(Tp1, 50), (Be_stop, 50)] \<and> bk_closed b \<and> legs_shape legs b
      \<and> sum_list (map snd legs) + bracket_left b = 100 \<and> list_all (\<lambda>(_, size). 0 < size) legs
      \<and> run_bracket ([(1005/10, 1005/10, None), (10005/100, 10005/100, None)] @ [(200, 1, Some 80)])
          (new_bracket (demo_spec 1) 100) = (legs, b)"
proof -
  let ?bars = "[(1005/10, 1005/10, None), (10005/100, 10005/100, None)] :: bar_input list"
  let ?new = "new_bracket (demo_spec 1) 100"
  obtain legs b where r: "run_bracket ?bars ?new = (legs, b)" by (rule prod.exhaust)
  have legs: "fst (run_bracket ?bars ?new) = [(Tp1, 50), (Be_stop, 50)]" by code_simp
  have closed: "bk_closed (snd (run_bracket ?bars ?new))" by code_simp
  have size: "0 < bs_tp1_size_pct (demo_spec 1) \<and> bs_tp1_size_pct (demo_spec 1) < 100"
    by (simp add: demo_spec_def)
  show ?thesis
    using bracket_life [OF r, where later = "[(200, 1, Some 80)]"] legs closed size r by simp
qed

text \<open>
  The stop in force never loosens: for a bracket whose stop lies behind the
  entry, whose break-even level is not worse than the tightened stop and whose trailing
  distance is a percentage of the price, every later effective stop is at least as good for
  the position (higher for a long, lower for a short) as the one in force now, through
  tightening on the indicator, arming and trailing, and the move to break-even.
\<close>

theorem bracket_stop_ratchets:
  assumes "bs_direction spec = 1 \<or> bs_direction spec = -1" "0 < entry" "0 \<le> bs_stop_offset_pct spec"
    and "- bs_stop_offset_pct spec / 2 \<le> bs_be_offset_pct spec"
    and "0 \<le> bs_trail_pct spec" "bs_trail_pct spec \<le> 100"
  shows "not_worse (bs_direction spec)
           (effective_stop (snd (run_bracket bars (new_bracket spec entry))))
           (effective_stop (snd (run_bracket (bars @ later) (new_bracket spec entry))))"
proof -
  obtain l b where r: "run_bracket bars (new_bracket spec entry) = (l, b)" by (rule prod.exhaust)
  have "ratchet_ok b" "bk_d b = bs_direction spec"
    using run_ratchet [OF new_bracket_ratchet [OF assms], of bars] r
    by (simp_all add: new_bracket_def Let_def)
  with run_ratchet [of b later] show ?thesis
    by (simp add: run_append r case_prod_beta)
qed

theorem bracket_stop_ratchets_witness:
  "effective_stop (new_bracket (demo_spec (-1)) 100) = 1007/10 \<and>
   effective_stop (snd (run_bracket [(996/10, 996/10, None), (993/10, 993/10, None)]
     (new_bracket (demo_spec (-1)) 100))) \<le> 1007/10"
  using bracket_stop_ratchets [of "demo_spec (-1)" 100 "[]" "[(996/10, 996/10, None), (993/10, 993/10, None)]"]
  by (simp add: demo_spec_def not_worse_def new_bracket_def effective_stop_def Let_def)

end
