(* ===== verification/Harness.thy ===== *)
theory Harness
  imports Bracket
begin

text \<open>
  The strategy of the signal engine: \<open>signal-engine/app/strategies/base.py\<close> (the signal and
  the position record), \<open>strategies/test_harness.py\<close> (the harness_strategy itself),
  \<open>indicators.py\<close> (the two crossings) and \<open>shadow_store.py\<close> (the table the signals go to).
  The indicator library (\<open>pandas_ta\<close>) is a parameter: the function from the closes to the
  series, where a value that is not a number is \<open>None\<close>.
\<close>

section \<open>Candles and indicators\<close>

record candle =
  cd_t :: int
  cd_o :: rat
  cd_h :: rat
  cd_l :: rat
  cd_c :: rat
  cd_v :: rat

text \<open>The close column of \<open>candles_to_series\<close>, in the order of the open times.\<close>

definition close_series :: "candle list \<Rightarrow> rat list" where
  "close_series candles = map cd_c (sort_key cd_t candles)"

type_synonym rsi_series = "rat option list"
type_synonym rsi_fun = "rat list \<Rightarrow> rsi_series option"

definition crossover :: "rsi_series \<Rightarrow> rat \<Rightarrow> bool" where
  "crossover s level =
     (if length s < 2 then False
      else case (s ! (length s - 2), s ! (length s - 1)) of
             (Some prev, Some cur) \<Rightarrow> prev < level \<and> level \<le> cur
           | _ \<Rightarrow> False)"

definition crossunder :: "rsi_series \<Rightarrow> rat \<Rightarrow> bool" where
  "crossunder s level =
     (if length s < 2 then False
      else case (s ! (length s - 2), s ! (length s - 1)) of
             (Some prev, Some cur) \<Rightarrow> level \<le> prev \<and> cur < level
           | _ \<Rightarrow> False)"

lemma not_both_crossings: "\<not> (crossover s level \<and> crossunder s level)"
  by (auto simp: crossover_def crossunder_def split: option.splits)

section \<open>Signals and the position\<close>

datatype pside = Long_side | Short_side

datatype sig_kind = Open_long | Close_long | Open_short | Close_short

text \<open>The full bracket spec a signal carries, with the entries the calculator does not read.\<close>

record harness_spec = bracket_spec +
  hs_tp2_size_pct :: rat
  hs_be_trigger :: string
  hs_condition_close :: string
  hs_ref_entry_price :: rat

record trade_signal =
  sg_signal :: sig_kind
  sg_side :: pside
  sg_symbol :: string
  sg_bar_time :: int
  sg_price :: rat
  sg_spec :: "harness_spec option"
  sg_exit_reason :: "exit_reason option"
  sg_size_pct :: "rat option"

text \<open>The bracket of a position is an object the loops share: its index in the engine's store.\<close>

record position =
  ps_side :: "pside option"
  ps_bracket :: "nat option"
  ps_entry_bar_time :: "int option"

definition flat_position :: position where
  "flat_position = \<lparr>ps_side = None, ps_bracket = None, ps_entry_bar_time = None\<rparr>"

record harness_strategy =
  st_position :: position
  st_last_rsi :: "rat option"

definition new_strategy :: harness_strategy where
  "new_strategy = \<lparr>st_position = flat_position, st_last_rsi = None\<rparr>"

definition mark_flat :: "harness_strategy \<Rightarrow> harness_strategy" where
  "mark_flat s = s\<lparr>st_position := (st_position s)\<lparr>ps_side := None, ps_bracket := None, ps_entry_bar_time := None\<rparr>\<rparr>"

section \<open>The strategy\<close>

definition STRATEGY_ID :: string where "STRATEGY_ID = ''tv_test_harness''"
definition SIGNAL_SOURCE :: string where "SIGNAL_SOURCE = ''tv_test''"
definition HARNESS_SYMBOL :: string where "HARNESS_SYMBOL = ''BTC-USDT''"
definition RSI_LENGTH :: nat where "RSI_LENGTH = 14"
definition RSI_MID :: rat where "RSI_MID = 50"
definition WARMUP_BARS :: nat where "WARMUP_BARS = RSI_LENGTH * 5"

definition pside_direction :: "pside \<Rightarrow> int" where
  "pside_direction side = (if side = Long_side then 1 else -1)"

definition harness_bracket :: "pside \<Rightarrow> rat \<Rightarrow> harness_spec" where
  "harness_bracket side entry_price =
     \<lparr>bs_direction = pside_direction side, bs_tp1_offset_pct = 5/10, bs_tp1_size_pct = 50,
      bs_tp2_offset_pct = 1, bs_stop_offset_pct = 7/10, bs_trail_arm_pct = 4/10, bs_trail_pct = 3/10,
      bs_be_offset_pct = 1/10, bs_rsi_long = 75, bs_rsi_short = 25,
      hs_tp2_size_pct = 50, hs_be_trigger = ''tp1_hit'', hs_condition_close = ''opposite_signal'',
      hs_ref_entry_price = entry_price\<rparr>"

definition entry_signal :: "sig_kind \<Rightarrow> pside \<Rightarrow> int \<Rightarrow> rat \<Rightarrow> harness_spec option \<Rightarrow> trade_signal" where
  "entry_signal k side t price spec =
     \<lparr>sg_signal = k, sg_side = side, sg_symbol = HARNESS_SYMBOL, sg_bar_time = t, sg_price = price,
      sg_spec = spec, sg_exit_reason = None, sg_size_pct = None\<rparr>"

text \<open>
  \<open>evaluate\<close>. The library answers \<open>None\<close> for a series it cannot compute; a last value that
  is not a number is kept as \<open>None\<close> here, which every reader of \<open>last_rsi\<close> treats alike.
\<close>

definition set_side :: "pside \<Rightarrow> harness_strategy \<Rightarrow> harness_strategy" where
  "set_side side s = s\<lparr>st_position := (st_position s)\<lparr>ps_side := Some side\<rparr>\<rparr>"

definition harness_evaluate :: "rsi_fun \<Rightarrow> candle list \<Rightarrow> bool \<Rightarrow> harness_strategy \<Rightarrow> trade_signal list \<times> harness_strategy" where
  "harness_evaluate rsi_of candles detect_entries s =
     (if length candles < WARMUP_BARS + 1 then ([], s)
      else
        (case rsi_of (close_series candles) of
           None \<Rightarrow> ([], s\<lparr>st_last_rsi := None\<rparr>)
         | Some rsi \<Rightarrow>
             if list_all (\<lambda>x. x = None) rsi then ([], s\<lparr>st_last_rsi := None\<rparr>)
             else
               (let s1 = s\<lparr>st_last_rsi := List.last rsi\<rparr>;
                    bar_time = cd_t (List.last candles);
                    bar_close = cd_c (List.last candles);
                    side = ps_side (st_position s1)
                in if \<not> detect_entries then ([], s1)
                   else if crossover rsi RSI_MID \<and> side \<noteq> Some Long_side then
                     ((if side = Some Short_side then [entry_signal Close_short Short_side bar_time bar_close None] else [])
                        @ [entry_signal Open_long Long_side bar_time bar_close (Some (harness_bracket Long_side bar_close))],
                      set_side Long_side s1)
                   else if crossunder rsi RSI_MID \<and> side \<noteq> Some Short_side then
                     ((if side = Some Long_side then [entry_signal Close_long Long_side bar_time bar_close None] else [])
                        @ [entry_signal Open_short Short_side bar_time bar_close (Some (harness_bracket Short_side bar_close))],
                      set_side Short_side s1)
                   else ([], s1))))"

section \<open>The shadow table\<close>

record signal_row =
  sr_strategy :: string
  sr_source :: string
  sr_symbol :: string
  sr_side :: pside
  sr_signal :: sig_kind
  sr_bar_time :: int
  sr_price :: rat
  sr_spec :: "harness_spec option"
  sr_mode :: string
  sr_exit_reason :: "exit_reason option"
  sr_size_pct :: "rat option"

text \<open>
  The unique index of the table. No exit reason is the empty string, so coalescing the
  missing one to it keeps the keys apart as the option does.
\<close>

definition row_key :: "signal_row \<Rightarrow> string \<times> sig_kind \<times> int \<times> exit_reason option" where
  "row_key r = (sr_strategy r, sr_signal r, sr_bar_time r, sr_exit_reason r)"

definition row_of_signal :: "string \<Rightarrow> trade_signal \<Rightarrow> signal_row" where
  "row_of_signal mode sig =
     \<lparr>sr_strategy = STRATEGY_ID, sr_source = SIGNAL_SOURCE, sr_symbol = sg_symbol sig, sr_side = sg_side sig,
      sr_signal = sg_signal sig, sr_bar_time = sg_bar_time sig, sr_price = sg_price sig, sr_spec = sg_spec sig,
      sr_mode = mode, sr_exit_reason = sg_exit_reason sig, sr_size_pct = sg_size_pct sig\<rparr>"

definition store_shadow_signal :: "string \<Rightarrow> trade_signal \<Rightarrow> signal_row list \<Rightarrow> signal_row list" where
  "store_shadow_signal mode sig rows =
     (let r = row_of_signal mode sig in
      if row_key r \<in> row_key ` set rows then rows else rows @ [r])"

lemma store_keys: "row_key ` set (store_shadow_signal mode sig rows)
    = insert (row_key (row_of_signal mode sig)) (row_key ` set rows)"
  by (auto simp: store_shadow_signal_def Let_def)

lemma store_distinct:
  "distinct (map row_key rows) \<Longrightarrow> distinct (map row_key (store_shadow_signal mode sig rows))"
  by (simp add: store_shadow_signal_def Let_def)

lemma store_known: "row_key (row_of_signal mode sig) \<in> row_key ` set rows \<Longrightarrow> store_shadow_signal mode sig rows = rows"
  by (simp add: store_shadow_signal_def Let_def)

lemma store_extends: "\<exists>more. store_shadow_signal mode sig rows = rows @ more"
  by (simp add: store_shadow_signal_def Let_def)

section \<open>What evaluating does to the position\<close>

text \<open>The signals one evaluation may give, from the side it found and the side it left.\<close>

definition turn_signals :: "pside option \<Rightarrow> pside option \<Rightarrow> sig_kind list" where
  "turn_signals old new =
     (if old = new then []
      else (case old of None \<Rightarrow> [] | Some Long_side \<Rightarrow> [Close_long] | Some Short_side \<Rightarrow> [Close_short])
         @ (case new of None \<Rightarrow> [] | Some Long_side \<Rightarrow> [Open_long] | Some Short_side \<Rightarrow> [Open_short]))"

lemma harness_cases:
  obtains (quiet) rsi where "harness_evaluate rsi_of candles detect s = ([], s\<lparr>st_last_rsi := rsi\<rparr>)"
  | (turn) side t c rsi where "detect" "ps_side (st_position s) \<noteq> Some side"
      "t = cd_t (List.last candles)" "c = cd_c (List.last candles)"
      "harness_evaluate rsi_of candles detect s =
         ((case ps_side (st_position s) of
             None \<Rightarrow> []
           | Some Long_side \<Rightarrow> [entry_signal Close_long Long_side t c None]
           | Some Short_side \<Rightarrow> [entry_signal Close_short Short_side t c None])
          @ [entry_signal (if side = Long_side then Open_long else Open_short) side t c (Some (harness_bracket side c))],
          set_side side (s\<lparr>st_last_rsi := rsi\<rparr>))"
proof -
  consider "length candles < WARMUP_BARS + 1"
    | "\<not> length candles < WARMUP_BARS + 1" "rsi_of (close_series candles) = None"
    | r where "\<not> length candles < WARMUP_BARS + 1" "rsi_of (close_series candles) = Some r" "list_all (\<lambda>x. x = None) r"
    | r where "\<not> length candles < WARMUP_BARS + 1" "rsi_of (close_series candles) = Some r" "\<not> list_all (\<lambda>x. x = None) r"
    by (cases "rsi_of (close_series candles)") auto
  then show thesis
  proof cases
    case 1
    then show thesis by (intro quiet [of "st_last_rsi s"]) (simp add: harness_evaluate_def)
  next
    case 2
    then show thesis by (intro quiet [of None]) (simp add: harness_evaluate_def)
  next
    case 3
    then show thesis by (intro quiet [of None]) (simp add: harness_evaluate_def)
  next
    case 4
    note live = 4
    let ?side = "ps_side (st_position s)"
    consider "\<not> detect" | "detect" "crossover r RSI_MID" "?side \<noteq> Some Long_side"
      | "detect" "crossunder r RSI_MID" "?side \<noteq> Some Short_side" "\<not> crossover r RSI_MID"
      | "detect" "\<not> (crossover r RSI_MID \<and> ?side \<noteq> Some Long_side)" "\<not> (crossunder r RSI_MID \<and> ?side \<noteq> Some Short_side)"
      using not_both_crossings [of r RSI_MID] by blast
    then show thesis
    proof cases
      case 1
      with live show thesis by (intro quiet [of "List.last r"]) (simp add: harness_evaluate_def Let_def)
    next
      case 2
      with live show thesis
        by (intro turn [of Long_side, OF _ _ refl refl]; cases ?side; cases "the ?side")
          (simp_all add: harness_evaluate_def Let_def)
    next
      case 3
      with live show thesis
        by (intro turn [of Short_side, OF _ _ refl refl]; cases ?side; cases "the ?side")
          (simp_all add: harness_evaluate_def Let_def)
    next
      case 4
      with live show thesis by (intro quiet [of "List.last r"]) (simp add: harness_evaluate_def Let_def)
    qed
  qed
qed

end
