(* ===== verification/Engine.thy ===== *)
theory Engine
  imports Harness
begin

text \<open>
  \<open>signal-engine/app/engine.py\<close>: the warm-up and the catch-up of one strategy, and then its
  four loops. The loops are coroutines of one event loop: each runs without interruption from
  one \<open>await\<close> to the next, so the state of the engine holds where every loop is suspended, and
  one step resumes one of them. A bracket is an object several loops may hold at once; it is
  an index into the store of brackets here, and a loop that has read it keeps that index
  across its awaits, as the local variable of the source does.
\<close>

section \<open>The state\<close>

record engine_cfg =
  ec_rsi :: rsi_fun
  ec_mode :: string
  ec_warmup_candles :: nat
  ec_intrabar :: bool
  ec_timeframe :: string

text \<open>A loop that stores exit legs: the bracket, the legs still to store, their time and price.\<close>

record exit_job =
  xj_bracket :: nat
  xj_legs :: "exit_leg list"
  xj_time :: int
  xj_price :: rat

datatype near_pc = Near_asleep | Near_reading nat | Near_storing exit_job
datatype safety_pc = Safety_waiting | Safety_storing exit_job
datatype entry_pc = Entry_waiting | Entry_exiting exit_job | Entry_signalling "trade_signal list" | Entry_dead
datatype intra_pc = Intra_off | Intra_asleep | Intra_reading | Intra_signalling "trade_signal list"

record engine =
  en_strategy :: harness_strategy
  en_brackets :: "bracket list"
  en_rows :: "signal_row list"
  en_candles :: "candle list"
  en_near :: near_pc
  en_safety :: safety_pc
  en_entry :: entry_pc
  en_intra :: intra_pc
  en_fired :: "(nat \<times> exit_leg) list"
  en_stored :: "(nat \<times> exit_leg) list"

text \<open>
  The last two fields are a history the program does not keep and nothing reads: the legs the
  brackets gave back, each with its bracket, and the legs whose insert was answered.
\<close>

abbreviation en_position :: "engine \<Rightarrow> position" where
  "en_position s \<equiv> st_position (en_strategy s)"

definition timeframe_ms :: "string \<Rightarrow> int option" where
  "timeframe_ms tf = map_of
     [(''1m'', 60000), (''3m'', 180000), (''5m'', 300000), (''15m'', 900000), (''30m'', 1800000),
      (''1h'', 3600000), (''2h'', 7200000), (''4h'', 14400000), (''8h'', 28800000), (''1d'', 86400000)] tf"

section \<open>Loading\<close>

record strategy_row =
  sw_id :: string
  sw_symbol :: string
  sw_interval :: string
  sw_local_signal_mode :: "string option"
  sw_entry_trigger :: "string option"
  sw_is_deleted :: "bool option"

text \<open>One harness instance per row that is switched on, not deleted and has an implementation.\<close>

definition load_active_strategies :: "strategy_row list \<Rightarrow> (harness_strategy \<times> string \<times> string) list" where
  "load_active_strategies rows =
     [(new_strategy, case sw_entry_trigger r of None \<Rightarrow> ''bar_close'' | Some t \<Rightarrow> t, the (sw_local_signal_mode r)).
        r \<leftarrow> rows,
        sw_local_signal_mode r \<notin> {None, Some ''off''} \<and> sw_is_deleted r \<noteq> Some True \<and> sw_id r = STRATEGY_ID]"

section \<open>The pieces the loops share\<close>

definition exit_signal :: "bracket \<Rightarrow> exit_leg \<Rightarrow> int \<Rightarrow> rat \<Rightarrow> trade_signal" where
  "exit_signal b leg t price =
     (let side = (if bracket_side b = ''long'' then Long_side else Short_side) in
      \<lparr>sg_signal = (if side = Long_side then Close_long else Close_short), sg_side = side,
       sg_symbol = HARNESS_SYMBOL, sg_bar_time = t, sg_price = price, sg_spec = None,
       sg_exit_reason = Some (fst leg), sg_size_pct = Some (snd leg)\<rparr>)"

definition store_signal :: "engine_cfg \<Rightarrow> trade_signal \<Rightarrow> engine \<Rightarrow> engine" where
  "store_signal cfg sig s = s\<lparr>en_rows := store_shadow_signal (ec_mode cfg) sig (en_rows s)\<rparr>"

definition store_exit_leg :: "engine_cfg \<Rightarrow> nat \<Rightarrow> exit_leg \<Rightarrow> int \<Rightarrow> rat \<Rightarrow> engine \<Rightarrow> engine" where
  "store_exit_leg cfg b leg t price s =
     (store_signal cfg (exit_signal (en_brackets s ! b) leg t price) s)\<lparr>en_stored := en_stored s @ [(b, leg)]\<rparr>"

text \<open>The bookkeeping after an entry signal has been stored: a new bracket object, or none.\<close>

definition track_signal :: "trade_signal \<Rightarrow> engine \<Rightarrow> engine" where
  "track_signal sig s =
     (if sg_signal sig \<in> {Open_long, Open_short}
      then s\<lparr>en_brackets := en_brackets s @ [new_bracket (bracket_spec.truncate (the (sg_spec sig))) (sg_price sig)],
             en_strategy := (en_strategy s)\<lparr>st_position := (en_position s)
               \<lparr>ps_bracket := Some (length (en_brackets s)), ps_entry_bar_time := Some (sg_bar_time sig)\<rparr>\<rparr>\<rparr>
      else s\<lparr>en_strategy := (en_strategy s)\<lparr>st_position := (en_position s)
               \<lparr>ps_bracket := None, ps_entry_bar_time := None\<rparr>\<rparr>\<rparr>)"

definition engine_flat :: "engine \<Rightarrow> engine" where
  "engine_flat s = s\<lparr>en_strategy := mark_flat (en_strategy s)\<rparr>"

definition feed_bracket :: "nat \<Rightarrow> rat \<Rightarrow> rat \<Rightarrow> rat option \<Rightarrow> engine \<Rightarrow> exit_leg list \<times> engine" where
  "feed_bracket b high low rsi s =
     (case update_bracket high low rsi (en_brackets s ! b) of
        (legs, bk) \<Rightarrow>
          (legs, s\<lparr>en_brackets := (en_brackets s)[b := bk], en_fired := en_fired s @ map (Pair b) legs\<rparr>))"

text \<open>\<open>position.bracket\<close> when there is one and it is not closed.\<close>

definition open_bracket :: "engine \<Rightarrow> nat option" where
  "open_bracket s =
     (case ps_bracket (en_position s) of
        None \<Rightarrow> None
      | Some b \<Rightarrow> if bk_closed (en_brackets s ! b) then None else Some b)"

definition engine_evaluate :: "engine_cfg \<Rightarrow> candle list \<Rightarrow> bool \<Rightarrow> engine \<Rightarrow> trade_signal list \<times> engine" where
  "engine_evaluate cfg candles detect s =
     (case harness_evaluate (ec_rsi cfg) candles detect (en_strategy s) of
        (sigs, st) \<Rightarrow> (sigs, s\<lparr>en_strategy := st\<rparr>))"

section \<open>Warm-up and catch-up\<close>

definition store_and_track :: "engine_cfg \<Rightarrow> trade_signal \<Rightarrow> engine \<Rightarrow> engine" where
  "store_and_track cfg sig s = track_signal sig (store_signal cfg sig s)"

definition warmup_step :: "engine_cfg \<Rightarrow> candle list \<Rightarrow> nat \<Rightarrow> engine \<Rightarrow> engine" where
  "warmup_step cfg candles i s =
     (case engine_evaluate cfg (take (i + 1) candles) True s of
        (sigs, s1) \<Rightarrow> fold (store_and_track cfg) sigs s1)"

definition warmup :: "engine_cfg \<Rightarrow> candle list \<Rightarrow> engine \<Rightarrow> engine" where
  "warmup cfg candles s = fold (warmup_step cfg candles) [0..<length candles] (s\<lparr>en_candles := candles\<rparr>)"

fun catch_up_bars :: "engine_cfg \<Rightarrow> candle list \<Rightarrow> engine \<Rightarrow> engine" where
  "catch_up_bars cfg [] s = s"
| "catch_up_bars cfg (bar # bars) s =
     (case open_bracket s of
        None \<Rightarrow> s
      | Some b \<Rightarrow>
          (case feed_bracket b (cd_h bar) (cd_l bar) None s of
             (legs, s1) \<Rightarrow>
               let s2 = fold (\<lambda>leg. store_exit_leg cfg b leg (cd_t bar) (cd_c bar)) legs s1
               in catch_up_bars cfg bars (if bk_closed (en_brackets s2 ! b) then engine_flat s2 else s2)))"

definition catch_up :: "engine_cfg \<Rightarrow> candle list \<Rightarrow> engine \<Rightarrow> engine" where
  "catch_up cfg minute_bars s =
     (case (open_bracket s, ps_entry_bar_time (en_position s)) of
        (Some b, Some t) \<Rightarrow>
          (let tf_ms = (case timeframe_ms (ec_timeframe cfg) of None \<Rightarrow> 3600000 | Some ms \<Rightarrow> ms);
               start_from = t + tf_ms
           in catch_up_bars cfg (filter (\<lambda>c. start_from \<le> cd_t c) minute_bars) s)
      | _ \<Rightarrow> s)"

definition start_engine :: "engine_cfg \<Rightarrow> signal_row list \<Rightarrow> engine" where
  "start_engine cfg rows =
     \<lparr>en_strategy = new_strategy, en_brackets = [], en_rows = rows, en_candles = [],
      en_near = Near_asleep, en_safety = Safety_waiting, en_entry = Entry_waiting,
      en_intra = (if ec_intrabar cfg then Intra_asleep else Intra_off), en_fired = [], en_stored = []\<rparr>"

definition boot :: "engine_cfg \<Rightarrow> candle list \<Rightarrow> candle list \<Rightarrow> signal_row list \<Rightarrow> engine" where
  "boot cfg history minute_bars rows = catch_up cfg minute_bars (warmup cfg history (start_engine cfg rows))"

section \<open>The loops\<close>

text \<open>
  After the legs of an update: the loop suspends at the next store, or finishes by clearing
  the position when the bracket it holds is closed.
\<close>

definition job_done :: "nat \<Rightarrow> engine \<Rightarrow> engine" where
  "job_done b s = (if bk_closed (en_brackets s ! b) then engine_flat s else s)"

definition job_store :: "engine_cfg \<Rightarrow> exit_job \<Rightarrow> engine \<Rightarrow> engine" where
  "job_store cfg j s = store_exit_leg cfg (xj_bracket j) (hd (xj_legs j)) (xj_time j) (xj_price j) s"

definition job_next :: "exit_job \<Rightarrow> exit_job" where
  "job_next j = j\<lparr>xj_legs := tl (xj_legs j)\<rparr>"

text \<open>Deciding entries on a closed bar; it runs on without an await after the exit has been dealt with.\<close>

definition entry_decide :: "engine_cfg \<Rightarrow> engine \<Rightarrow> engine" where
  "entry_decide cfg s =
     (case engine_evaluate cfg (en_candles s) (\<not> ec_intrabar cfg) s of
        (sigs, s1) \<Rightarrow> s1\<lparr>en_entry := (if sigs = [] then Entry_waiting else Entry_signalling sigs)\<rparr>)"

text \<open>A new closed bar arrives: append and trim, refresh the indicator, feed the open bracket.\<close>

definition push_candle :: "engine_cfg \<Rightarrow> candle \<Rightarrow> candle list \<Rightarrow> candle list" where
  "push_candle cfg c cs =
     (let keep = ec_warmup_candles cfg + 200; cs1 = cs @ [c]
      in if keep < length cs1 then drop (length cs1 - keep) cs1 else cs1)"

definition entry_bar :: "engine_cfg \<Rightarrow> candle \<Rightarrow> engine \<Rightarrow> engine" where
  "entry_bar cfg c s =
     (let s1 = s\<lparr>en_candles := push_candle cfg c (en_candles s)\<rparr>;
          s2 = snd (engine_evaluate cfg (en_candles s1) False s1)
      in case open_bracket s2 of
           None \<Rightarrow> entry_decide cfg s2
         | Some b \<Rightarrow>
             (case feed_bracket b (cd_c c) (cd_c c) (st_last_rsi (en_strategy s2)) s2 of
                (legs, s3) \<Rightarrow>
                  if legs = [] then entry_decide cfg (job_done b s3)
                  else s3\<lparr>en_entry := Entry_exiting
                         \<lparr>xj_bracket = b, xj_legs = legs, xj_time = cd_t c, xj_price = cd_c c\<rparr>\<rparr>))"

definition near_price :: "nat \<Rightarrow> int \<Rightarrow> rat \<Rightarrow> engine \<Rightarrow> engine" where
  "near_price b t p s =
     (case feed_bracket b p p None s of
        (legs, s1) \<Rightarrow>
          if legs = [] then (job_done b s1)\<lparr>en_near := Near_asleep\<rparr>
          else s1\<lparr>en_near := Near_storing \<lparr>xj_bracket = b, xj_legs = legs, xj_time = t, xj_price = p\<rparr>\<rparr>)"

definition safety_bar :: "candle \<Rightarrow> engine \<Rightarrow> engine" where
  "safety_bar c s =
     (case open_bracket s of
        None \<Rightarrow> s
      | Some b \<Rightarrow>
          (case feed_bracket b (cd_h c) (cd_l c) None s of
             (legs, s1) \<Rightarrow>
               if legs = [] then job_done b s1
               else s1\<lparr>en_safety := Safety_storing
                      \<lparr>xj_bracket = b, xj_legs = legs, xj_time = cd_t c, xj_price = cd_c c\<rparr>\<rparr>))"

definition intra_forming :: "engine_cfg \<Rightarrow> candle \<Rightarrow> engine \<Rightarrow> engine" where
  "intra_forming cfg c s =
     (case engine_evaluate cfg (en_candles s @ [c]) True s of
        (sigs, s1) \<Rightarrow> s1\<lparr>en_intra := (if sigs = [] then Intra_asleep else Intra_signalling sigs)\<rparr>)"

text \<open>
  What may happen next. A loop asks the database and is told whether the insert went through
  (\<open>True\<close>) or raised (\<open>False\<close>); the near-tick and safety-net loops catch the error, the
  closed-bar loop does not and ends.
\<close>

datatype event =
    Near_wakes | Near_forming "candle option" | Near_answer bool
  | Safety_bar candle | Safety_answer bool
  | Entry_bar candle | Entry_answer bool
  | Intra_wakes | Intra_forming "candle option" | Intra_answer bool

fun engine_step :: "engine_cfg \<Rightarrow> event \<Rightarrow> engine \<Rightarrow> engine option" where
  "engine_step cfg Near_wakes s =
     (if en_near s = Near_asleep
      then Some (s\<lparr>en_near := (case open_bracket s of None \<Rightarrow> Near_asleep | Some b \<Rightarrow> Near_reading b)\<rparr>)
      else None)"
| "engine_step cfg (Near_forming forming) s =
     (case en_near s of
        Near_reading b \<Rightarrow>
          (case forming of
             None \<Rightarrow> Some (s\<lparr>en_near := Near_asleep\<rparr>)
           | Some c \<Rightarrow> Some (near_price b (cd_t c) (cd_c c) s))
      | _ \<Rightarrow> None)"
| "engine_step cfg (Near_answer ok) s =
     (case en_near s of
        Near_storing j \<Rightarrow>
          if ok then
            (let s1 = job_store cfg j s in
             if tl (xj_legs j) = [] then Some ((job_done (xj_bracket j) s1)\<lparr>en_near := Near_asleep\<rparr>)
             else Some (s1\<lparr>en_near := Near_storing (job_next j)\<rparr>))
          else Some (s\<lparr>en_near := Near_asleep\<rparr>)
      | _ \<Rightarrow> None)"
| "engine_step cfg (Safety_bar c) s =
     (if en_safety s = Safety_waiting then Some (safety_bar c s) else None)"
| "engine_step cfg (Safety_answer ok) s =
     (case en_safety s of
        Safety_storing j \<Rightarrow>
          if ok then
            (let s1 = job_store cfg j s in
             if tl (xj_legs j) = [] then Some ((job_done (xj_bracket j) s1)\<lparr>en_safety := Safety_waiting\<rparr>)
             else Some (s1\<lparr>en_safety := Safety_storing (job_next j)\<rparr>))
          else Some (s\<lparr>en_safety := Safety_waiting\<rparr>)
      | _ \<Rightarrow> None)"
| "engine_step cfg (Entry_bar c) s =
     (if en_entry s = Entry_waiting then Some (entry_bar cfg c s) else None)"
| "engine_step cfg (Entry_answer ok) s =
     (case en_entry s of
        Entry_exiting j \<Rightarrow>
          if ok then
            (let s1 = job_store cfg j s in
             if tl (xj_legs j) = [] then Some (entry_decide cfg (job_done (xj_bracket j) s1))
             else Some (s1\<lparr>en_entry := Entry_exiting (job_next j)\<rparr>))
          else Some (s\<lparr>en_entry := Entry_dead\<rparr>)
      | Entry_signalling sigs \<Rightarrow>
          if ok then
            (let s1 = store_and_track cfg (hd sigs) s in
             Some (s1\<lparr>en_entry := (if tl sigs = [] then Entry_waiting else Entry_signalling (tl sigs))\<rparr>))
          else Some (s\<lparr>en_entry := Entry_dead\<rparr>)
      | _ \<Rightarrow> None)"
| "engine_step cfg Intra_wakes s =
     (if en_intra s = Intra_asleep then Some (s\<lparr>en_intra := Intra_reading\<rparr>) else None)"
| "engine_step cfg (Intra_forming forming) s =
     (case en_intra s of
        Intra_reading \<Rightarrow>
          (case forming of
             None \<Rightarrow> Some (s\<lparr>en_intra := Intra_asleep\<rparr>)
           | Some c \<Rightarrow> Some (intra_forming cfg c s))
      | _ \<Rightarrow> None)"
| "engine_step cfg (Intra_answer ok) s =
     (case en_intra s of
        Intra_signalling sigs \<Rightarrow>
          if ok then
            (let s1 = store_and_track cfg (hd sigs) s in
             Some (s1\<lparr>en_intra := (if tl sigs = [] then Intra_asleep else Intra_signalling (tl sigs))\<rparr>))
          else Some (s\<lparr>en_intra := Intra_asleep\<rparr>)
      | _ \<Rightarrow> None)"

text \<open>The insert a loop was waiting for raised.\<close>

fun insert_fails :: "event \<Rightarrow> bool" where
  "insert_fails (Near_answer ok) \<longleftrightarrow> \<not> ok"
| "insert_fails (Safety_answer ok) \<longleftrightarrow> \<not> ok"
| "insert_fails (Entry_answer ok) \<longleftrightarrow> \<not> ok"
| "insert_fails (Intra_answer ok) \<longleftrightarrow> \<not> ok"
| "insert_fails _ \<longleftrightarrow> False"

text \<open>A schedule: the events in the order the event loop delivers them.\<close>

fun run_events :: "engine_cfg \<Rightarrow> event list \<Rightarrow> engine \<Rightarrow> engine option" where
  "run_events cfg [] s = Some s"
| "run_events cfg (e # es) s =
     (case engine_step cfg e s of None \<Rightarrow> None | Some s1 \<Rightarrow> run_events cfg es s1)"

end
