(* ===== verification/EngineSafety.thy ===== *)
theory EngineSafety
  imports Engine "HOL-Library.Multiset"
begin

text \<open>
  What holds of the signal engine: of every bracket under every schedule of the four loops, of
  the position when the loops take turns, of the shadow table across restarts; and two
  schedules in which the loops get in each other's way.
\<close>

section \<open>What an evaluation gives\<close>

text \<open>
  One evaluation of the strategy: its signals are exactly the turn from the side
  the position had to the side it leaves (nothing when the side stays, a close before the
  open on a flip), all at the time and close of the last bar, the close without a bracket and
  the open with the bracket spec of its own side; it never turns the position flat, touches
  neither the bracket nor the entry time, and asked not to detect entries it gives no signal
  and leaves the whole position alone.
\<close>

theorem evaluate_turn:
  "let (sigs, s') = harness_evaluate rsi_of candles detect s;
       old = ps_side (st_position s); new = ps_side (st_position s')
   in map sg_signal sigs = turn_signals old new \<and>
      list_all (\<lambda>sig. sg_bar_time sig = cd_t (List.last candles) \<and> sg_price sig = cd_c (List.last candles) \<and>
        sg_exit_reason sig = None \<and>
        sg_spec sig = (if sg_signal sig \<in> {Open_long, Open_short}
                       then Some (harness_bracket (the new) (sg_price sig)) else None) \<and>
        Some (sg_side sig) = (if sg_signal sig \<in> {Open_long, Open_short} then new else old)) sigs \<and>
      (new = None \<longrightarrow> old = None) \<and>
      ps_bracket (st_position s') = ps_bracket (st_position s) \<and>
      ps_entry_bar_time (st_position s') = ps_entry_bar_time (st_position s) \<and>
      (detect \<or> sigs = [] \<and> st_position s' = st_position s)"
proof (rule harness_cases [of rsi_of candles detect s])
  fix rsi
  assume "harness_evaluate rsi_of candles detect s = ([], s\<lparr>st_last_rsi := rsi\<rparr>)"
  then show ?thesis by (simp add: turn_signals_def)
next
  fix side t c rsi
  assume "detect" "ps_side (st_position s) \<noteq> Some side" "t = cd_t (List.last candles)" "c = cd_c (List.last candles)"
    "harness_evaluate rsi_of candles detect s =
         ((case ps_side (st_position s) of
             None \<Rightarrow> []
           | Some Long_side \<Rightarrow> [entry_signal Close_long Long_side t c None]
           | Some Short_side \<Rightarrow> [entry_signal Close_short Short_side t c None])
          @ [entry_signal (if side = Long_side then Open_long else Open_short) side t c (Some (harness_bracket side c))],
          set_side side (s\<lparr>st_last_rsi := rsi\<rparr>))"
  then show ?thesis
    by (cases side; cases "ps_side (st_position s)"; cases "the (ps_side (st_position s))")
      (simp_all add: turn_signals_def set_side_def entry_signal_def)
qed

section \<open>The brackets the loops hold\<close>

text \<open>Every index a loop or the position holds is in the store, and a storing loop has a leg to store.\<close>

definition job_ok :: "engine \<Rightarrow> exit_job \<Rightarrow> bool" where
  "job_ok s j \<longleftrightarrow> xj_bracket j < length (en_brackets s) \<and> xj_legs j \<noteq> []"

definition refs_ok :: "engine \<Rightarrow> bool" where
  "refs_ok s \<longleftrightarrow>
     (\<forall>b. ps_bracket (en_position s) = Some b \<longrightarrow> b < length (en_brackets s)) \<and>
     (\<forall>b. en_near s = Near_reading b \<longrightarrow> b < length (en_brackets s)) \<and>
     (\<forall>j. en_near s = Near_storing j \<or> en_safety s = Safety_storing j \<or> en_entry s = Entry_exiting j \<longrightarrow> job_ok s j)"

lemma evaluate_bracket [simp]:
  "ps_bracket (en_position (snd (engine_evaluate cfg cs d s))) = ps_bracket (en_position s)"
  using evaluate_turn [of "ec_rsi cfg" cs d "en_strategy s"] by (simp add: engine_evaluate_def case_prod_beta Let_def)

lemma evaluate_same [simp]:
  "en_brackets (snd (engine_evaluate cfg cs d s)) = en_brackets s"
  "en_rows (snd (engine_evaluate cfg cs d s)) = en_rows s"
  "en_near (snd (engine_evaluate cfg cs d s)) = en_near s"
  "en_safety (snd (engine_evaluate cfg cs d s)) = en_safety s"
  "en_entry (snd (engine_evaluate cfg cs d s)) = en_entry s"
  "en_fired (snd (engine_evaluate cfg cs d s)) = en_fired s"
  "en_stored (snd (engine_evaluate cfg cs d s)) = en_stored s"
  by (simp_all add: engine_evaluate_def case_prod_beta)

lemma feed_same [simp]:
  "en_strategy (snd (feed_bracket b high low rsi s)) = en_strategy s"
  "en_rows (snd (feed_bracket b high low rsi s)) = en_rows s"
  "en_near (snd (feed_bracket b high low rsi s)) = en_near s"
  "en_safety (snd (feed_bracket b high low rsi s)) = en_safety s"
  "en_entry (snd (feed_bracket b high low rsi s)) = en_entry s"
  "en_stored (snd (feed_bracket b high low rsi s)) = en_stored s"
  "en_brackets (snd (feed_bracket b high low rsi s))
     = (en_brackets s)[b := snd (update_bracket high low rsi (en_brackets s ! b))]"
  "en_fired (snd (feed_bracket b high low rsi s)) = en_fired s @ map (Pair b) (fst (feed_bracket b high low rsi s))"
  by (simp_all add: feed_bracket_def case_prod_beta)

lemma store_same [simp]:
  "en_strategy (store_signal cfg sig s) = en_strategy s" "en_brackets (store_signal cfg sig s) = en_brackets s"
  "en_near (store_signal cfg sig s) = en_near s" "en_safety (store_signal cfg sig s) = en_safety s"
  "en_entry (store_signal cfg sig s) = en_entry s" "en_fired (store_signal cfg sig s) = en_fired s"
  "en_stored (store_signal cfg sig s) = en_stored s"
  "en_rows (store_signal cfg sig s) = store_shadow_signal (ec_mode cfg) sig (en_rows s)"
  by (simp_all add: store_signal_def)

lemma leg_same [simp]:
  "en_strategy (store_exit_leg cfg b leg t p s) = en_strategy s"
  "en_brackets (store_exit_leg cfg b leg t p s) = en_brackets s"
  "en_near (store_exit_leg cfg b leg t p s) = en_near s" "en_safety (store_exit_leg cfg b leg t p s) = en_safety s"
  "en_entry (store_exit_leg cfg b leg t p s) = en_entry s" "en_fired (store_exit_leg cfg b leg t p s) = en_fired s"
  "en_stored (store_exit_leg cfg b leg t p s) = en_stored s @ [(b, leg)]"
  "en_rows (store_exit_leg cfg b leg t p s) =
     store_shadow_signal (ec_mode cfg) (exit_signal (en_brackets s ! b) leg t p) (en_rows s)"
  by (simp_all add: store_exit_leg_def)

lemma flat_same [simp]:
  "en_rows (engine_flat s) = en_rows s" "en_brackets (engine_flat s) = en_brackets s"
  "en_near (engine_flat s) = en_near s" "en_safety (engine_flat s) = en_safety s" "en_entry (engine_flat s) = en_entry s"
  "en_fired (engine_flat s) = en_fired s" "en_stored (engine_flat s) = en_stored s"
  by (simp_all add: engine_flat_def)

lemma track_same [simp]:
  "en_rows (track_signal sig s) = en_rows s" "en_near (track_signal sig s) = en_near s"
  "en_safety (track_signal sig s) = en_safety s" "en_entry (track_signal sig s) = en_entry s"
  "en_fired (track_signal sig s) = en_fired s" "en_stored (track_signal sig s) = en_stored s"
  by (simp_all add: track_signal_def)

lemma done_same [simp]:
  "en_rows (job_done b s) = en_rows s" "en_brackets (job_done b s) = en_brackets s"
  "en_near (job_done b s) = en_near s" "en_safety (job_done b s) = en_safety s" "en_entry (job_done b s) = en_entry s"
  "en_fired (job_done b s) = en_fired s" "en_stored (job_done b s) = en_stored s"
  by (simp_all add: job_done_def)

lemma refs_pieces [simp]:
  "refs_ok (snd (feed_bracket b high low rsi s)) = refs_ok s"
  "refs_ok (store_signal cfg sig s) = refs_ok s"
  "refs_ok (store_exit_leg cfg b leg t p s) = refs_ok s"
  "refs_ok (snd (engine_evaluate cfg cs d s)) = refs_ok s"
  "refs_ok (s\<lparr>en_candles := cs\<rparr>) = refs_ok s"
  by (simp_all add: refs_ok_def job_ok_def)

lemma refs_flat: "refs_ok s \<Longrightarrow> refs_ok (engine_flat s)"
  by (simp add: refs_ok_def job_ok_def) (simp add: engine_flat_def mark_flat_def)

lemma refs_done: "refs_ok s \<Longrightarrow> refs_ok (job_done b s)"
  by (simp add: job_done_def refs_flat)

lemma refs_track: "refs_ok s \<Longrightarrow> refs_ok (track_signal sig s)"
  by (auto simp: refs_ok_def job_ok_def) (auto simp: track_signal_def less_SucI split: if_splits)

lemma refs_tracked: "refs_ok s \<Longrightarrow> refs_ok (store_and_track cfg sig s)"
  by (simp add: store_and_track_def refs_track)

lemma open_bracket_ref: "refs_ok s \<Longrightarrow> open_bracket s = Some b \<Longrightarrow> b < length (en_brackets s)"
  by (auto simp: open_bracket_def refs_ok_def split: option.splits if_splits)

lemma refs_pcs:
  "refs_ok s \<Longrightarrow> refs_ok (s\<lparr>en_near := Near_asleep\<rparr>)" "refs_ok s \<Longrightarrow> refs_ok (s\<lparr>en_safety := Safety_waiting\<rparr>)"
  "refs_ok s \<Longrightarrow> (\<And>j. en = Entry_exiting j \<Longrightarrow> job_ok s j) \<Longrightarrow> refs_ok (s\<lparr>en_entry := en\<rparr>)"
  "refs_ok (s\<lparr>en_intra := it\<rparr>) = refs_ok s"
  "refs_ok s \<Longrightarrow> job_ok s j \<Longrightarrow> refs_ok (s\<lparr>en_near := Near_storing j\<rparr>)"
  "refs_ok s \<Longrightarrow> job_ok s j \<Longrightarrow> refs_ok (s\<lparr>en_safety := Safety_storing j\<rparr>)"
  "refs_ok s \<Longrightarrow> b < length (en_brackets s) \<Longrightarrow> refs_ok (s\<lparr>en_near := Near_reading b\<rparr>)"
  by (auto simp: refs_ok_def job_ok_def)

lemma refs_decide: "refs_ok s \<Longrightarrow> refs_ok (entry_decide cfg s)"
  using refs_pieces(4) [of cfg "en_candles s" "\<not> ec_intrabar cfg" s]
  by (auto simp: entry_decide_def case_prod_beta intro!: refs_pcs(3))

lemma refs_store [simp]: "refs_ok (job_store cfg j s) = refs_ok s" "en_brackets (job_store cfg j s) = en_brackets s"
  by (simp_all add: job_store_def)

lemma refs_entry_bar:
  assumes "refs_ok s"
  shows "refs_ok (entry_bar cfg c s)"
proof -
  define s1 where "s1 = s\<lparr>en_candles := push_candle cfg c (en_candles s)\<rparr>"
  define s2 where "s2 = snd (engine_evaluate cfg (en_candles s1) False s1)"
  have s2: "refs_ok s2" using assms by (simp add: s1_def s2_def)
  show ?thesis
  proof (cases "open_bracket s2")
    case None
    then show ?thesis using refs_decide [OF s2] by (simp add: entry_bar_def Let_def s1_def s2_def)
  next
    case (Some b)
    obtain legs s3 where f: "feed_bracket b (cd_c c) (cd_c c) (st_last_rsi (en_strategy s2)) s2 = (legs, s3)"
      by (rule prod.exhaust)
    then have "refs_ok s3" "length (en_brackets s3) = length (en_brackets s2)"
      using s2 refs_pieces(1) [of b "cd_c c" "cd_c c" "st_last_rsi (en_strategy s2)" s2]
        feed_same(7) [of b "cd_c c" "cd_c c" "st_last_rsi (en_strategy s2)" s2] by simp_all
    then show ?thesis
      using Some f open_bracket_ref [OF s2 Some]
      by (auto simp: entry_bar_def Let_def s1_def [symmetric] s2_def [symmetric] job_ok_def
          intro!: refs_decide refs_done refs_pcs(3))
  qed
qed

lemma refs_fed:
  assumes "refs_ok s" "b < length (en_brackets s)" "feed_bracket b high low rsi s = (legs, s1)"
  shows "refs_ok s1" "length (en_brackets s1) = length (en_brackets s)"
  using assms(1) refs_pieces(1) [of b high low rsi s] feed_same(7) [of b high low rsi s] assms(3) by simp_all

lemma refs_step:
  assumes r: "refs_ok s" and st: "engine_step cfg e s = Some s'"
  shows "refs_ok s'"
proof (cases e)
  case Near_wakes
  with r st show ?thesis
    by (auto intro: refs_pcs(1,7) open_bracket_ref split: if_splits option.splits)
next
  case (Near_forming f)
  from st Near_forming obtain b where b: "en_near s = Near_reading b" by (auto split: near_pc.splits)
  with r have bl: "b < length (en_brackets s)" by (auto simp: refs_ok_def)
  with r st Near_forming b show ?thesis
    using refs_fed [OF r bl]
    by (fastforce simp: near_price_def job_ok_def split: option.splits prod.splits if_splits
        intro!: refs_pcs refs_done)
next
  case (Near_answer ok)
  from st Near_answer obtain j where j: "en_near s = Near_storing j" by (auto split: near_pc.splits)
  with r have "job_ok s j" by (auto simp: refs_ok_def)
  with r st Near_answer j show ?thesis
    by (auto simp: Let_def job_ok_def job_next_def split: if_splits intro!: refs_pcs refs_done)
next
  case (Safety_bar c)
  show ?thesis
  proof (cases "open_bracket s")
    case None
    with r st Safety_bar show ?thesis by (auto simp: safety_bar_def split: if_splits)
  next
    case (Some b)
    with r st Safety_bar refs_fed [OF r open_bracket_ref [OF r Some]] open_bracket_ref [OF r Some] show ?thesis
      by (fastforce simp: safety_bar_def job_ok_def split: prod.splits if_splits intro!: refs_pcs refs_done)
  qed
next
  case (Safety_answer ok)
  from st Safety_answer obtain j where j: "en_safety s = Safety_storing j" by (auto split: safety_pc.splits)
  with r have "job_ok s j" by (auto simp: refs_ok_def)
  with r st Safety_answer j show ?thesis
    by (auto simp: Let_def job_ok_def job_next_def split: if_splits intro!: refs_pcs refs_done)
next
  case (Entry_bar c)
  with r st show ?thesis by (auto simp: refs_entry_bar split: if_splits)
next
  case (Entry_answer ok)
  have "job_ok s j" if "en_entry s = Entry_exiting j" for j using r that by (auto simp: refs_ok_def)
  with r st Entry_answer show ?thesis
    by (auto simp: Let_def job_ok_def job_next_def split: entry_pc.splits if_splits
        intro!: refs_pcs(3) refs_done refs_decide refs_tracked)
next
  case Intra_wakes
  with r st show ?thesis by (auto simp: refs_pcs(4) split: if_splits)
next
  case (Intra_forming f)
  with r st show ?thesis
    using refs_pieces(4) [of cfg _ True s]
    by (auto simp: intra_forming_def case_prod_beta refs_pcs(4) split: intra_pc.splits option.splits)
next
  case (Intra_answer ok)
  with r st show ?thesis
    by (auto simp: Let_def refs_pcs(4) refs_tracked split: intra_pc.splits if_splits)
qed

lemma refs_run: "refs_ok s \<Longrightarrow> run_events cfg es s = Some s' \<Longrightarrow> refs_ok s'"
  by (induction es arbitrary: s) (auto split: option.splits dest: refs_step)

lemma refs_fold: "(\<And>x s. refs_ok s \<Longrightarrow> refs_ok (f x s)) \<Longrightarrow> refs_ok s \<Longrightarrow> refs_ok (fold f xs s)"
  by (induction xs arbitrary: s) simp_all

lemma refs_warmup: "refs_ok s \<Longrightarrow> refs_ok (warmup cfg candles s)"
proof -
  have "refs_ok t \<Longrightarrow> refs_ok (warmup_step cfg candles i t)" for i t
    by (auto simp: warmup_step_def case_prod_beta intro!: refs_fold refs_tracked)
  then show "refs_ok s \<Longrightarrow> refs_ok (warmup cfg candles s)"
    by (auto simp: warmup_def intro!: refs_fold)
qed

lemma refs_start: "refs_ok (start_engine cfg rows)"
  by (simp add: refs_ok_def start_engine_def new_strategy_def flat_position_def)

section \<open>What every schedule keeps\<close>

text \<open>
  A condition that the primitive operations keep is kept by the whole engine: the pieces the
  warm-up, the catch-up and the loops are composed of are the laws of this interface.
\<close>

locale engine_frame =
  fixes P :: "engine \<Rightarrow> bool"
  assumes feed: "P s \<Longrightarrow> b < length (en_brackets s) \<Longrightarrow> P (snd (feed_bracket b high low rsi s))"
    and store: "P s \<Longrightarrow> P (store_signal cfg sig s)"
    and leg: "P s \<Longrightarrow> b < length (en_brackets s) \<Longrightarrow> P (store_exit_leg cfg b l t p s)"
    and track: "P s \<Longrightarrow> P (track_signal sig s)"
    and flat: "P s \<Longrightarrow> P (engine_flat s)"
    and eval: "P s \<Longrightarrow> P (snd (engine_evaluate cfg cs detect s))"
    and pcs: "P s \<Longrightarrow> P (s\<lparr>en_near := n\<rparr>)" "P s \<Longrightarrow> P (s\<lparr>en_safety := sf\<rparr>)"
      "P s \<Longrightarrow> P (s\<lparr>en_entry := en\<rparr>)" "P s \<Longrightarrow> P (s\<lparr>en_intra := it\<rparr>)"
    and bars: "P s \<Longrightarrow> P (s\<lparr>en_candles := cs\<rparr>)"
begin

lemma tracked: "P s \<Longrightarrow> P (store_and_track cfg sig s)"
  by (simp add: store_and_track_def store track)

lemma folded: "(\<And>x s. P s \<Longrightarrow> P (f x s)) \<Longrightarrow> P s \<Longrightarrow> P (fold f xs s)"
  by (induction xs arbitrary: s) simp_all

lemma done_keeps: "P s \<Longrightarrow> P (job_done b s)"
  by (simp add: job_done_def flat)

lemma warmup_keeps: "P s \<Longrightarrow> P (warmup cfg candles s)"
proof -
  have "P t \<Longrightarrow> P (warmup_step cfg candles i t)" for i t
    using eval [of t cfg "take (i + 1) candles" True]
    by (auto simp: warmup_step_def case_prod_beta intro: folded tracked)
  then show "P s \<Longrightarrow> P (warmup cfg candles s)"
    by (auto simp: warmup_def intro: folded bars)
qed

lemma legs_keep:
  "P s \<Longrightarrow> refs_ok s \<Longrightarrow> b < length (en_brackets s) \<Longrightarrow>
     P (fold (\<lambda>l. store_exit_leg cfg b l t p) legs s) \<and> refs_ok (fold (\<lambda>l. store_exit_leg cfg b l t p) legs s)"
  by (induction legs arbitrary: s) (simp_all add: leg)

lemma catch_up_bars_keeps: "P s \<Longrightarrow> refs_ok s \<Longrightarrow> P (catch_up_bars cfg bs s) \<and> refs_ok (catch_up_bars cfg bs s)"
proof (induction bs arbitrary: s)
  case (Cons c bs)
  show ?case
  proof (cases "open_bracket s")
    case (Some b)
    have b: "b < length (en_brackets s)" using open_bracket_ref [OF Cons.prems(2) Some] .
    obtain legs s1 where f: "feed_bracket b (cd_h c) (cd_l c) None s = (legs, s1)" by (rule prod.exhaust)
    have "P s1" "refs_ok s1" "b < length (en_brackets s1)"
      using feed [OF Cons.prems(1) b, of "cd_h c" "cd_l c" None] refs_fed [OF Cons.prems(2) b f] b f by simp_all
    then have "P (fold (\<lambda>leg. store_exit_leg cfg b leg (cd_t c) (cd_c c)) legs s1) \<and>
        refs_ok (fold (\<lambda>leg. store_exit_leg cfg b leg (cd_t c) (cd_c c)) legs s1)"
      by (rule legs_keep)
    then show ?thesis by (simp add: Some f Let_def Cons.IH flat refs_flat)
  qed (use Cons.prems in simp)
qed simp

lemma boot_keeps:
  assumes "P (start_engine cfg rows)"
  shows "P (boot cfg history minute_bars rows)"
  using warmup_keeps [OF assms, of cfg history] refs_warmup [OF refs_start, of cfg history cfg rows]
  by (auto simp: boot_def catch_up_def Let_def catch_up_bars_keeps split: option.split)

lemma boot_refs:
  assumes "P (start_engine cfg rows)"
  shows "refs_ok (boot cfg history minute_bars rows)"
  using warmup_keeps [OF assms, of cfg history] refs_warmup [OF refs_start, of cfg history cfg rows]
  by (auto simp: boot_def catch_up_def Let_def catch_up_bars_keeps split: option.split)

lemma decide_keeps: "P s \<Longrightarrow> P (entry_decide cfg s)"
  using eval [of s cfg "en_candles s" "\<not> ec_intrabar cfg"]
  by (simp add: entry_decide_def case_prod_beta pcs)

lemma stored_keeps: "P s \<Longrightarrow> job_ok s j \<Longrightarrow> P (job_store cfg j s)"
  by (simp add: job_store_def job_ok_def leg)

lemma entry_bar_keeps: "P s \<Longrightarrow> refs_ok s \<Longrightarrow> P (entry_bar cfg c s)"
proof -
  assume s: "P s" "refs_ok s"
  define s1 where "s1 = s\<lparr>en_candles := push_candle cfg c (en_candles s)\<rparr>"
  define s2 where "s2 = snd (engine_evaluate cfg (en_candles s1) False s1)"
  have s2: "P s2" "refs_ok s2" using s by (simp_all add: s1_def s2_def bars eval)
  show "P (entry_bar cfg c s)"
  proof (cases "open_bracket s2")
    case None
    then show ?thesis using decide_keeps [OF s2(1)] by (simp add: entry_bar_def Let_def s1_def s2_def)
  next
    case (Some b)
    have "P (snd (feed_bracket b (cd_c c) (cd_c c) (st_last_rsi (en_strategy s2)) s2))"
      by (rule feed [OF s2(1) open_bracket_ref [OF s2(2) Some]])
    then show ?thesis
      using Some by (simp add: entry_bar_def Let_def case_prod_beta decide_keeps done_keeps pcs flip: s1_def s2_def)
  qed
qed

lemma step_keeps:
  assumes p: "P s" and r: "refs_ok s" and st: "engine_step cfg e s = Some s'"
  shows "P s'"
proof (cases e)
  case Near_wakes
  with p st show ?thesis by (auto simp: pcs split: if_splits)
next
  case (Near_forming f)
  have "b < length (en_brackets s)" if "en_near s = Near_reading b" for b
    using r that by (simp add: refs_ok_def)
  with p st Near_forming show ?thesis
    by (auto simp: near_price_def case_prod_beta pcs feed done_keeps split: near_pc.splits option.splits)
next
  case (Near_answer ok)
  have "job_ok s j" if "en_near s = Near_storing j" for j using r that by (simp add: refs_ok_def)
  with p st Near_answer show ?thesis
    by (auto simp: Let_def pcs stored_keeps done_keeps split: near_pc.splits if_splits)
next
  case (Safety_bar c)
  with p st open_bracket_ref [OF r] show ?thesis
    by (auto simp: safety_bar_def case_prod_beta pcs feed done_keeps split: if_splits option.splits)
next
  case (Safety_answer ok)
  have "job_ok s j" if "en_safety s = Safety_storing j" for j using r that by (simp add: refs_ok_def)
  with p st Safety_answer show ?thesis
    by (auto simp: Let_def pcs stored_keeps done_keeps split: safety_pc.splits if_splits)
next
  case (Entry_bar c)
  with p r st show ?thesis by (auto simp: entry_bar_keeps split: if_splits)
next
  case (Entry_answer ok)
  have "job_ok s j" if "en_entry s = Entry_exiting j" for j using r that by (simp add: refs_ok_def)
  with p st Entry_answer show ?thesis
    by (auto simp: Let_def pcs stored_keeps done_keeps decide_keeps tracked split: entry_pc.splits if_splits)
next
  case Intra_wakes
  with p st show ?thesis by (auto simp: pcs split: if_splits)
next
  case (Intra_forming f)
  with p st show ?thesis
    by (auto simp: intra_forming_def case_prod_beta pcs eval split: intra_pc.splits option.splits)
next
  case (Intra_answer ok)
  with p st show ?thesis
    by (auto simp: Let_def pcs tracked split: intra_pc.splits if_splits)
qed

lemma run_keeps: "P s \<Longrightarrow> refs_ok s \<Longrightarrow> run_events cfg es s = Some s' \<Longrightarrow> P s'"
  by (induction es arbitrary: s) (auto split: option.splits dest: step_keeps refs_step)

end

section \<open>The frames\<close>

definition rows_from :: "signal_row list \<Rightarrow> engine \<Rightarrow> bool" where
  "rows_from rows s \<longleftrightarrow> distinct (map row_key (en_rows s)) \<and> (\<exists>more. en_rows s = rows @ more)"

lemma store_grows: "\<exists>more. rs = rows @ more \<Longrightarrow> \<exists>more. store_shadow_signal mode sig rs = rows @ more"
  using store_extends [of mode sig rs] by auto

interpretation rf: engine_frame "rows_from rows" for rows
  by unfold_locales (auto simp: rows_from_def store_distinct intro: store_grows)

text \<open>The legs of one bracket in a history.\<close>

definition legs_of :: "nat \<Rightarrow> (nat \<times> exit_leg) list \<Rightarrow> exit_leg list" where
  "legs_of b h = map snd (filter (\<lambda>x. fst x = b) h)"

lemma legs_of_append [simp]: "legs_of b (h @ map (Pair c) legs) = legs_of b h @ (if b = c then legs else [])"
  by (induction legs) (auto simp: legs_of_def)

text \<open>
  The history of every bracket is the run of that bracket from its making: the legs it gave
  back so far are the legs of the run, and it stands where the run ends. A bracket that was
  closed at the beginning stands where it stood and has given back nothing since.
\<close>

definition made_by :: "exit_leg list \<Rightarrow> bracket \<Rightarrow> bool" where
  "made_by legs b \<longleftrightarrow> (\<exists>spec entry bars. run_bracket bars (new_bracket spec entry) = (legs, b))"

definition history_from :: "engine \<Rightarrow> engine \<Rightarrow> bool" where
  "history_from s0 s \<longleftrightarrow>
     (\<forall>x\<in>set (en_fired s). fst x < length (en_brackets s)) \<and>
     (\<forall>i<length (en_brackets s). made_by (legs_of i (en_fired s)) (en_brackets s ! i)) \<and>
     length (en_brackets s0) \<le> length (en_brackets s) \<and>
     (\<forall>i<length (en_brackets s0). bk_closed (en_brackets s0 ! i) \<longrightarrow>
        en_brackets s ! i = en_brackets s0 ! i \<and> legs_of i (en_fired s) = legs_of i (en_fired s0))"

lemma made_new: "made_by [] (new_bracket spec entry)"
  unfolding made_by_def by (intro exI [of _ spec] exI [of _ entry] exI [of _ "[]"]) simp

lemma made_update:
  assumes "made_by legs b" "update_bracket high low rsi b = (legs1, b')"
  shows "made_by (legs @ legs1) b'"
proof -
  from assms(1) obtain spec entry bars where r: "run_bracket bars (new_bracket spec entry) = (legs, b)"
    by (auto simp: made_by_def)
  have "run_bracket (bars @ [(high, low, rsi)]) (new_bracket spec entry) = (legs @ legs1, b')"
    by (simp add: run_append r assms(2))
  then show ?thesis by (auto simp: made_by_def)
qed

lemma made_life: "made_by legs b \<Longrightarrow> legs_shape legs b \<and> sum_list (map snd legs) + bracket_left b = 100"
proof -
  assume "made_by legs b"
  then obtain spec entry bars where r: "run_bracket bars (new_bracket spec entry) = (legs, b)"
    by (auto simp: made_by_def)
  have "legs_shape [] (new_bracket spec entry)" by (simp add: legs_shape_def new_bracket_def Let_def)
  from run_shape [OF new_bracket_ok this, of bars] run_takes_from_new [of bars spec entry] r show ?thesis by simp
qed

lemma history_feed:
  assumes h: "history_from s0 s" and b: "b < length (en_brackets s)"
  shows "history_from s0 (snd (feed_bracket b high low rsi s))"
proof -
  obtain legs bk where u: "update_bracket high low rsi (en_brackets s ! b) = (legs, bk)" by (rule prod.exhaust)
  have f: "snd (feed_bracket b high low rsi s)
      = s\<lparr>en_brackets := (en_brackets s)[b := bk], en_fired := en_fired s @ map (Pair b) legs\<rparr>"
    by (simp add: feed_bracket_def u)
  have made: "made_by (legs_of b (en_fired s) @ legs) bk"
    using h b by (intro made_update [OF _ u]) (simp add: history_from_def)
  have "bk = en_brackets s ! b \<and> legs = []" if "bk_closed (en_brackets s ! b)"
    using u that by simp
  then have closed: "bk = en_brackets s0 ! b \<and> legs = []"
    if "b < length (en_brackets s0)" "bk_closed (en_brackets s0 ! b)"
    using h that by (auto simp: history_from_def)
  show ?thesis
    unfolding f using h b made closed
    by (auto simp: history_from_def nth_list_update)
qed

lemma history_track: "history_from s0 s \<Longrightarrow> history_from s0 (track_signal sig s)"
proof -
  assume h: "history_from s0 s"
  then have "legs_of (length (en_brackets s)) (en_fired s) = []"
    by (auto simp: history_from_def legs_of_def filter_empty_conv)
  with h made_new show ?thesis
    by (auto simp: history_from_def track_signal_def nth_append less_Suc_eq)
qed

interpretation hf: engine_frame "history_from s0" for s0
  by unfold_locales (simp_all add: history_feed history_track, simp_all add: history_from_def)

lemma history_start: "history_from (start_engine cfg rows) (start_engine cfg rows)"
  by (simp add: history_from_def start_engine_def)

lemma refs_boot: "refs_ok (boot cfg history minute_bars rows)"
  by (rule hf.boot_refs [OF history_start])

text \<open>Every leg stored is a closing row of the table, with its reason and the side of its bracket.\<close>

definition closing_signal :: "bracket \<Rightarrow> sig_kind" where
  "closing_signal b = (if bracket_side b = ''long'' then Close_long else Close_short)"

definition legs_in_table :: "engine \<Rightarrow> bool" where
  "legs_in_table s \<longleftrightarrow> (\<forall>(b, leg)\<in>set (en_stored s). b < length (en_brackets s) \<and>
     (\<exists>r\<in>set (en_rows s). sr_exit_reason r = Some (fst leg) \<and> sr_signal r = closing_signal (en_brackets s ! b)))"

lemma table_mono:
  assumes "legs_in_table s" "en_stored t = en_stored s" "set (en_rows s) \<subseteq> set (en_rows t)"
    "length (en_brackets s) \<le> length (en_brackets t)"
    "\<And>b. b < length (en_brackets s) \<Longrightarrow> bk_d (en_brackets t ! b) = bk_d (en_brackets s ! b)"
  shows "legs_in_table t"
  using assms unfolding legs_in_table_def closing_signal_def bracket_side_def by fastforce

lemma store_superset: "set rows \<subseteq> set (store_shadow_signal mode sig rows)"
  using store_extends [of mode sig rows] by auto

lemma table_feed: "legs_in_table s \<Longrightarrow> legs_in_table (snd (feed_bracket b high low rsi s))"
proof (rule table_mono [of s])
  fix i assume "i < length (en_brackets s)"
  then show "bk_d (en_brackets (snd (feed_bracket b high low rsi s)) ! i) = bk_d (en_brackets s ! i)"
    by (cases "b = i") (simp_all add: nth_list_update)
qed simp_all

lemma table_leg:
  assumes "legs_in_table s" "b < length (en_brackets s)"
  shows "legs_in_table (store_exit_leg cfg b l t p s)"
proof -
  let ?sig = "exit_signal (en_brackets s ! b) l t p"
  have "row_key (row_of_signal (ec_mode cfg) ?sig) \<in> row_key ` set (store_shadow_signal (ec_mode cfg) ?sig (en_rows s))"
    by (simp add: store_keys)
  then obtain r where r: "r \<in> set (store_shadow_signal (ec_mode cfg) ?sig (en_rows s))"
    "row_key r = row_key (row_of_signal (ec_mode cfg) ?sig)" by force
  then have "sr_exit_reason r = Some (fst l)" "sr_signal r = closing_signal (en_brackets s ! b)"
    by (simp_all add: row_key_def row_of_signal_def exit_signal_def closing_signal_def Let_def)
  moreover have "legs_in_table (store_signal cfg ?sig s)"
    by (rule table_mono [OF assms(1)]) (simp_all add: store_superset)
  ultimately show ?thesis
    using r(1) assms(2) by (auto simp: legs_in_table_def)
qed

lemma table_track: "legs_in_table s \<Longrightarrow> legs_in_table (track_signal sig s)"
  by (rule table_mono [of s]) (auto simp: track_signal_def nth_append)

interpretation tf: engine_frame legs_in_table
proof
  fix s cfg sig
  assume s: "legs_in_table s"
  show "legs_in_table (store_signal cfg sig s)" by (rule table_mono [OF s]) (simp_all add: store_superset)
qed (simp_all add: table_feed table_leg table_track, simp_all add: legs_in_table_def)

section \<open>Where a fired leg is\<close>

text \<open>The legs the loops still have to store.\<close>

definition job_legs :: "exit_job \<Rightarrow> (nat \<times> exit_leg) list" where
  "job_legs j = map (Pair (xj_bracket j)) (xj_legs j)"

definition held_legs :: "engine \<Rightarrow> (nat \<times> exit_leg) list" where
  "held_legs s =
     (case en_near s of Near_storing j \<Rightarrow> job_legs j | _ \<Rightarrow> []) @
     (case en_safety s of Safety_storing j \<Rightarrow> job_legs j | _ \<Rightarrow> []) @
     (case en_entry s of Entry_exiting j \<Rightarrow> job_legs j | _ \<Rightarrow> [])"

text \<open>Every leg fired is stored, held by a loop, or lost; the lost ones are \<open>X\<close>.\<close>

definition accounted :: "(nat \<times> exit_leg) multiset \<Rightarrow> engine \<Rightarrow> bool" where
  "accounted X s \<longleftrightarrow> mset (en_fired s) = mset (en_stored s) + mset (held_legs s) + X"

lemma accounted_same:
  "en_fired t = en_fired s \<Longrightarrow> en_stored t = en_stored s \<Longrightarrow> held_legs t = held_legs s \<Longrightarrow> accounted X t = accounted X s"
  by (simp add: accounted_def)

lemma held_same:
  "en_near t = en_near s \<Longrightarrow> en_safety t = en_safety s \<Longrightarrow> en_entry t = en_entry s \<Longrightarrow> held_legs t = held_legs s"
  by (simp add: held_legs_def)

lemma accounted_keeps [simp]:
  "accounted X (store_signal cfg sig s) = accounted X s" "accounted X (track_signal sig s) = accounted X s"
  "accounted X (engine_flat s) = accounted X s" "accounted X (job_done b s) = accounted X s"
  "accounted X (snd (engine_evaluate cfg cs d s)) = accounted X s"
  "accounted X (s\<lparr>en_candles := cs\<rparr>) = accounted X s" "accounted X (s\<lparr>en_intra := it\<rparr>) = accounted X s"
  "accounted X (store_and_track cfg sig s) = accounted X s"
  by (simp_all add: accounted_def held_legs_def store_and_track_def)

text \<open>A loop with nothing to store feeds a bracket and keeps its legs, or settles.\<close>

lemma accounted_decide:
  assumes "accounted X (s\<lparr>en_entry := Entry_waiting\<rparr>)"
  shows "accounted X (entry_decide cfg s)"
  using assms by (simp add: entry_decide_def case_prod_beta accounted_def held_legs_def)

lemma accounted_fed:
  assumes "accounted X s" "feed_bracket b high low rsi s = (legs, s1)"
  shows "mset (en_fired s1) = mset (en_stored s1) + mset (held_legs s1) + mset (map (Pair b) legs) + X"
proof -
  have "en_fired s1 = en_fired s @ map (Pair b) legs" "en_stored s1 = en_stored s" "held_legs s1 = held_legs s"
    using feed_same [of b high low rsi s] assms(2) by (simp_all add: held_legs_def)
  with assms(1) show ?thesis by (simp add: accounted_def)
qed

lemma entry_bar_accounted:
  assumes "accounted X s" "en_entry s = Entry_waiting"
  shows "accounted X (entry_bar cfg c s)"
proof -
  define s1 where "s1 = s\<lparr>en_candles := push_candle cfg c (en_candles s)\<rparr>"
  define s2 where "s2 = snd (engine_evaluate cfg (en_candles s1) False s1)"
  have s2: "accounted X s2" "en_entry s2 = Entry_waiting" using assms by (simp_all add: s1_def s2_def)
  have w: "s2\<lparr>en_entry := Entry_waiting\<rparr> = s2" using s2(2) by (cases s2) simp
  show ?thesis
  proof (cases "open_bracket s2")
    case None
    then show ?thesis
      using accounted_decide [of X s2 cfg, unfolded w, OF s2(1)] by (simp add: entry_bar_def Let_def s1_def s2_def)
  next
    case (Some b)
    obtain legs s3 where f: "feed_bracket b (cd_c c) (cd_c c) (st_last_rsi (en_strategy s2)) s2 = (legs, s3)"
      by (rule prod.exhaust)
    have e3: "en_entry s3 = Entry_waiting" using feed_same(5) [of b "cd_c c" "cd_c c" "st_last_rsi (en_strategy s2)" s2] f s2(2) by simp
    note a = accounted_fed [OF s2(1) f]
    have e: "entry_bar cfg c s = (if legs = [] then entry_decide cfg (job_done b s3)
        else s3\<lparr>en_entry := Entry_exiting \<lparr>xj_bracket = b, xj_legs = legs, xj_time = cd_t c, xj_price = cd_c c\<rparr>\<rparr>)"
      using Some f by (simp add: entry_bar_def Let_def flip: s1_def s2_def)
    show ?thesis
    proof (cases "legs = []")
      case True
      have "accounted X ((job_done b s3)\<lparr>en_entry := Entry_waiting\<rparr>)"
        using a True e3 by (simp add: accounted_def held_legs_def)
      with accounted_decide [OF this] True show ?thesis by (simp add: e)
    next
      case False
      with a e3 show ?thesis by (simp add: e accounted_def held_legs_def job_legs_def ac_simps)
    qed
  qed
qed

text \<open>One step: a failing insert loses the legs its loop held, no other step loses any.\<close>

lemma step_accounted:
  assumes a: "accounted X s" and r: "refs_ok s" and st: "engine_step cfg e s = Some s'"
  shows "\<exists>Y. accounted (X + Y) s' \<and> (\<not> insert_fails e \<longrightarrow> Y = {#})"
proof (cases e)
  case Near_wakes
  with st a have "accounted X s'"
    by (auto simp: accounted_def held_legs_def split: if_splits option.splits)
  then show ?thesis by (intro exI [of _ "{#}"]) simp
next
  case (Near_forming f)
  from st Near_forming obtain b where b: "en_near s = Near_reading b" by (auto split: near_pc.splits)
  have "accounted X s'"
  proof (cases f)
    case None
    with st Near_forming a b show ?thesis by (auto simp: accounted_def held_legs_def)
  next
    case (Some c)
    obtain legs s1 where f1: "feed_bracket b (cd_c c) (cd_c c) None s = (legs, s1)" by (rule prod.exhaust)
    have n: "en_near s1 = Near_reading b" using feed_same(3) [of b "cd_c c" "cd_c c" None s] f1 b by simp
    from st Near_forming b Some have s': "s' = near_price b (cd_t c) (cd_c c) s" by simp
    from accounted_fed [OF a f1] n show ?thesis
      unfolding s' by (auto simp: near_price_def f1 accounted_def held_legs_def job_legs_def ac_simps)
  qed
  then show ?thesis by (intro exI [of _ "{#}"]) simp
next
  case (Near_answer ok)
  from st Near_answer obtain j where j: "en_near s = Near_storing j" by (auto split: near_pc.splits)
  with r obtain l ls where l: "xj_legs j = l # ls" by (cases "xj_legs j") (auto simp: refs_ok_def job_ok_def)
  show ?thesis
  proof (cases ok)
    case True
    with st Near_answer j l a have "accounted X s'"
      by (auto simp: Let_def accounted_def held_legs_def job_legs_def job_store_def job_next_def ac_simps split: if_splits)
    then show ?thesis by (intro exI [of _ "{#}"]) simp
  next
    case False
    with st Near_answer j a have "accounted (X + mset (job_legs j)) s'"
      by (auto simp: accounted_def held_legs_def ac_simps)
    with False Near_answer show ?thesis by auto
  qed
next
  case (Safety_bar c)
  from st Safety_bar have w: "en_safety s = Safety_waiting" "s' = safety_bar c s" by (auto split: if_splits)
  have "accounted X s'"
  proof (cases "open_bracket s")
    case None
    with w a show ?thesis by (simp add: safety_bar_def)
  next
    case (Some b)
    obtain legs s1 where f1: "feed_bracket b (cd_h c) (cd_l c) None s = (legs, s1)" by (rule prod.exhaust)
    have n: "en_safety s1 = Safety_waiting" using feed_same(4) [of b "cd_h c" "cd_l c" None s] f1 w(1) by simp
    from accounted_fed [OF a f1] n show ?thesis
      unfolding w(2) by (auto simp: safety_bar_def Some f1 accounted_def held_legs_def job_legs_def ac_simps)
  qed
  then show ?thesis by (intro exI [of _ "{#}"]) simp
next
  case (Safety_answer ok)
  from st Safety_answer obtain j where j: "en_safety s = Safety_storing j" by (auto split: safety_pc.splits)
  with r obtain l ls where l: "xj_legs j = l # ls" by (cases "xj_legs j") (auto simp: refs_ok_def job_ok_def)
  show ?thesis
  proof (cases ok)
    case True
    with st Safety_answer j l a have "accounted X s'"
      by (auto simp: Let_def accounted_def held_legs_def job_legs_def job_store_def job_next_def ac_simps split: if_splits)
    then show ?thesis by (intro exI [of _ "{#}"]) simp
  next
    case False
    with st Safety_answer j a have "accounted (X + mset (job_legs j)) s'"
      by (auto simp: accounted_def held_legs_def ac_simps)
    with False Safety_answer show ?thesis by auto
  qed
next
  case (Entry_bar c)
  with st a entry_bar_accounted [of X s cfg c] show ?thesis
    by (intro exI [of _ "{#}"]) (auto split: if_splits)
next
  case (Entry_answer ok)
  from st Entry_answer consider j where "en_entry s = Entry_exiting j" | sigs where "en_entry s = Entry_signalling sigs"
    by (auto split: entry_pc.splits)
  then show ?thesis
  proof cases
    case j: (1 j)
    with r obtain l ls where l: "xj_legs j = l # ls" by (cases "xj_legs j") (auto simp: refs_ok_def job_ok_def)
    let ?d = "job_done (xj_bracket j) (job_store cfg j s)"
    have d: "accounted X (?d\<lparr>en_entry := Entry_waiting\<rparr>)" if "ls = []"
      using a j l that by (simp add: accounted_def held_legs_def job_legs_def job_store_def ac_simps)
    show ?thesis
    proof (cases ok)
      case True
      with st Entry_answer j l a accounted_decide [OF d] have "accounted X s'"
        by (auto simp: Let_def accounted_def held_legs_def job_legs_def job_store_def job_next_def ac_simps split: if_splits)
      then show ?thesis by (intro exI [of _ "{#}"]) simp
    next
      case False
      with st Entry_answer j a have "accounted (X + mset (job_legs j)) s'"
        by (auto simp: accounted_def held_legs_def ac_simps)
      with False Entry_answer show ?thesis by auto
    qed
  next
    case sigs: (2 sigs)
    with st Entry_answer a have "accounted X s'"
      by (auto simp: Let_def accounted_def held_legs_def store_and_track_def split: if_splits)
    then show ?thesis by (intro exI [of _ "{#}"]) simp
  qed
next
  case Intra_wakes
  with st a show ?thesis by (intro exI [of _ "{#}"]) (auto split: if_splits)
next
  case (Intra_forming f)
  with st a show ?thesis
    by (intro exI [of _ "{#}"]) (auto simp: intra_forming_def case_prod_beta split: intra_pc.splits option.splits)
next
  case (Intra_answer ok)
  with st a show ?thesis
    by (intro exI [of _ "{#}"]) (auto simp: Let_def split: intra_pc.splits if_splits)
qed

lemma run_accounted:
  "accounted X s \<Longrightarrow> refs_ok s \<Longrightarrow> run_events cfg es s = Some s' \<Longrightarrow>
     \<exists>Y. accounted (X + Y) s' \<and> (list_all (\<lambda>e. \<not> insert_fails e) es \<longrightarrow> Y = {#})"
proof (induction es arbitrary: s X)
  case Nil
  then show ?case by (intro exI [of _ "{#}"]) simp
next
  case (Cons e es)
  from Cons.prems(3) obtain s1 where s1: "engine_step cfg e s = Some s1" "run_events cfg es s1 = Some s'"
    by (auto split: option.splits)
  from step_accounted [OF Cons.prems(1,2) s1(1)] obtain Y where
    Y: "accounted (X + Y) s1" "\<not> insert_fails e \<longrightarrow> Y = {#}" by blast
  from Cons.IH [OF Y(1) refs_step [OF Cons.prems(2) s1(1)] s1(2)] obtain Z where
    "accounted (X + Y + Z) s'" "list_all (\<lambda>e. \<not> insert_fails e) es \<longrightarrow> Z = {#}" by blast
  with Y(2) show ?case by (intro exI [of _ "Y + Z"]) (auto simp: add.assoc)
qed

text \<open>Booting: the catch-up stores each leg as soon as its bracket gave it back.\<close>

definition settled :: "engine \<Rightarrow> bool" where
  "settled s \<longleftrightarrow> en_fired s = en_stored s \<and> held_legs s = []"

lemma settled_keeps [simp]:
  "settled (store_signal cfg sig s) = settled s" "settled (track_signal sig s) = settled s"
  "settled (engine_flat s) = settled s" "settled (snd (engine_evaluate cfg cs d s)) = settled s"
  "settled (s\<lparr>en_candles := cs\<rparr>) = settled s" "settled (store_and_track cfg sig s) = settled s"
  by (simp_all add: settled_def held_legs_def store_and_track_def)

lemma settled_fold: "(\<And>x s. settled s \<Longrightarrow> settled (f x s)) \<Longrightarrow> settled s \<Longrightarrow> settled (fold f xs s)"
  by (induction xs arbitrary: s) simp_all

lemma stored_fold:
  "en_stored (fold (\<lambda>l. store_exit_leg cfg b l t p) legs s) = en_stored s @ map (Pair b) legs \<and>
   en_fired (fold (\<lambda>l. store_exit_leg cfg b l t p) legs s) = en_fired s \<and>
   held_legs (fold (\<lambda>l. store_exit_leg cfg b l t p) legs s) = held_legs s"
  by (induction legs arbitrary: s) (simp_all add: held_legs_def)

lemma settled_catch_up: "settled s \<Longrightarrow> settled (catch_up_bars cfg bs s)"
proof (induction bs arbitrary: s)
  case (Cons c bs)
  show ?case
  proof (cases "open_bracket s")
    case (Some b)
    obtain legs s1 where f: "feed_bracket b (cd_h c) (cd_l c) None s = (legs, s1)" by (rule prod.exhaust)
    have "en_fired s1 = en_fired s @ map (Pair b) legs" "en_stored s1 = en_stored s" "held_legs s1 = held_legs s"
      using feed_same [of b "cd_h c" "cd_l c" None s] f by (simp_all add: held_legs_def)
    then have "settled (fold (\<lambda>leg. store_exit_leg cfg b leg (cd_t c) (cd_c c)) legs s1)"
      using Cons.prems stored_fold [of cfg b "cd_t c" "cd_c c" legs s1] by (simp add: settled_def)
    then show ?thesis by (simp add: Some f Let_def Cons.IH)
  qed (use Cons.prems in simp)
qed simp

lemma settled_boot: "settled (boot cfg history minute_bars rows)"
proof -
  have "settled (start_engine cfg rows)" by (simp add: settled_def start_engine_def held_legs_def)
  moreover have "settled t \<Longrightarrow> settled (warmup_step cfg candles i t)" for candles i t
    by (auto simp: warmup_step_def case_prod_beta intro!: settled_fold)
  ultimately have "settled (warmup cfg history (start_engine cfg rows))"
    by (auto simp: warmup_def intro!: settled_fold)
  then show ?thesis by (auto simp: boot_def catch_up_def Let_def settled_catch_up split: option.split)
qed

text \<open>
  C14. However the four loops are interleaved, and whatever the database answers. The legs the
  engine has fired for a bracket form one of the leg sequences of a bracket's life, and their
  sizes and what is still open add up to one hundred per cent: two loops that hold the same
  bracket never exit more than it. Every leg stored was fired, no more often than it was fired,
  and its row is in the table; and as long as no insert failed, every leg fired is stored or
  still held by the loop that will store it. A bracket that is closed at some moment is the
  same object at every later one and fires nothing more.
\<close>

theorem engine_exits_sound:
  assumes "run_events cfg es (boot cfg history minute_bars rows) = Some s"
    and "run_events cfg later s = Some s'"
  shows "(\<forall>i<length (en_brackets s'). legs_shape (legs_of i (en_fired s')) (en_brackets s' ! i) \<and>
        sum_list (map snd (legs_of i (en_fired s'))) + bracket_left (en_brackets s' ! i) = 100) \<and>
     mset (en_stored s') + mset (held_legs s') \<subseteq># mset (en_fired s') \<and> legs_in_table s' \<and>
     (list_all (\<lambda>e. \<not> insert_fails e) (es @ later) \<longrightarrow>
        mset (en_fired s') = mset (en_stored s') + mset (held_legs s')) \<and>
     length (en_brackets s) \<le> length (en_brackets s') \<and>
     (\<forall>i<length (en_brackets s). bk_closed (en_brackets s ! i) \<longrightarrow>
        en_brackets s' ! i = en_brackets s ! i \<and> legs_of i (en_fired s') = legs_of i (en_fired s))"
proof -
  let ?boot = "boot cfg history minute_bars rows"
  note r0 = refs_boot [of cfg history minute_bars rows]
  have r: "refs_ok s" using refs_run [OF r0 assms(1)] .
  have "history_from (start_engine cfg rows) ?boot"
    by (rule hf.boot_keeps [OF history_start])
  from hf.run_keeps [OF this r0 assms(1)] have "history_from s s" by (simp add: history_from_def)
  from hf.run_keeps [OF this r assms(2)] have h: "history_from s s'" .
  have "legs_in_table ?boot" by (rule tf.boot_keeps) (simp add: legs_in_table_def start_engine_def)
  from tf.run_keeps [OF tf.run_keeps [OF this r0 assms(1)] r assms(2)] have t: "legs_in_table s'" .
  have "accounted {#} ?boot" using settled_boot [of cfg history minute_bars rows] by (simp add: accounted_def settled_def)
  from run_accounted [OF this r0 assms(1)] obtain Y where
    Y: "accounted Y s" "list_all (\<lambda>e. \<not> insert_fails e) es \<longrightarrow> Y = {#}" by auto
  from run_accounted [OF Y(1) r assms(2)] obtain Z where
    Z: "accounted (Y + Z) s'" "list_all (\<lambda>e. \<not> insert_fails e) later \<longrightarrow> Z = {#}" by auto
  have "mset (en_stored s') + mset (held_legs s') \<subseteq># mset (en_fired s')" using Z(1) by (simp add: accounted_def)
  moreover have "mset (en_fired s') = mset (en_stored s') + mset (held_legs s')"
    if "list_all (\<lambda>e. \<not> insert_fails e) (es @ later)"
    using Z Y(2) that by (auto simp: accounted_def)
  ultimately show ?thesis
    using h t made_life by (auto simp: history_from_def)
qed

text \<open>
  The shadow table under every schedule and every restart: from a table whose
  keys (strategy, signal, bar time, exit reason) are distinct, starting the engine and running
  it keeps them distinct and only ever appends rows.
\<close>

theorem shadow_table_append_only:
  assumes "distinct (map row_key rows)"
    and "run_events cfg es (boot cfg history minute_bars rows) = Some s"
  shows "distinct (map row_key (en_rows s)) \<and> (\<exists>more. en_rows s = rows @ more)"
proof -
  have "rows_from rows (boot cfg history minute_bars rows)"
    by (rule rf.boot_keeps) (simp add: rows_from_def start_engine_def assms(1))
  from rf.run_keeps [OF this refs_boot assms(2)] show ?thesis by (simp add: rows_from_def)
qed

end
