(* ===== verification/EngineRestart.thy ===== *)
theory EngineRestart
  imports EngineSafety
begin

text \<open>
  Restarting the signal engine: what it stores while it boots does not depend on the table it
  finds, so booting again on the same history stores nothing new; and what a restart on a
  longer history adds that the running engine did not.
\<close>

section \<open>Booting does not look at the table\<close>

definition row_blind :: "string \<Rightarrow> (engine \<Rightarrow> engine) \<Rightarrow> bool" where
  "row_blind mode f \<longleftrightarrow>
     (\<exists>G H. \<forall>s rows. f (s\<lparr>en_rows := rows\<rparr>) = (G s)\<lparr>en_rows := fold (store_shadow_signal mode) (H s) rows\<rparr>)"

lemma row_blindI:
  assumes "\<And>s rows. f (s\<lparr>en_rows := rows\<rparr>) = (G s)\<lparr>en_rows := fold (store_shadow_signal mode) (H s) rows\<rparr>"
  shows "row_blind mode f"
  unfolding row_blind_def by (intro exI [of _ G] exI [of _ H] allI) (rule assms)

lemma row_blindE:
  assumes "row_blind mode f"
  obtains G H where "\<forall>s rows. f (s\<lparr>en_rows := rows\<rparr>) = (G s)\<lparr>en_rows := fold (store_shadow_signal mode) (H s) rows\<rparr>"
  using assms that unfolding row_blind_def by blast

lemma blind_comp:
  assumes "row_blind mode f" "row_blind mode g"
  shows "row_blind mode (\<lambda>s. g (f s))"
proof -
  obtain G H where f: "\<forall>s rows. f (s\<lparr>en_rows := rows\<rparr>) = (G s)\<lparr>en_rows := fold (store_shadow_signal mode) (H s) rows\<rparr>"
    by (rule row_blindE [OF assms(1)])
  obtain G' H' where g: "\<forall>s rows. g (s\<lparr>en_rows := rows\<rparr>) = (G' s)\<lparr>en_rows := fold (store_shadow_signal mode) (H' s) rows\<rparr>"
    by (rule row_blindE [OF assms(2)])
  show ?thesis
    by (rule row_blindI [where G = "\<lambda>s. G' (G s)" and H = "\<lambda>s. H s @ H' (G s)"]) (simp add: f g)
qed

lemma blind_plain:
  assumes "\<And>s rows. f (s\<lparr>en_rows := rows\<rparr>) = (f s)\<lparr>en_rows := rows\<rparr>"
  shows "row_blind mode f"
  by (rule row_blindI [where G = f and H = "\<lambda>s. []"]) (simp add: assms)

lemma blind_id: "row_blind mode (\<lambda>s. s)"
  by (rule blind_plain) simp

lemma blind_fold: "(\<And>x. row_blind mode (f x)) \<Longrightarrow> row_blind mode (fold f xs)"
proof (induction xs)
  case Nil
  show ?case using blind_id by (simp add: id_def)
next
  case (Cons x xs)
  from blind_comp [OF Cons.prems [of x] Cons.IH [OF Cons.prems]] show ?case by (simp add: comp_def)
qed

lemma blind_store: "row_blind (ec_mode cfg) (store_signal cfg sig)"
  by (rule row_blindI [where G = "\<lambda>s. s" and H = "\<lambda>s. [sig]"]) (simp add: store_signal_def)

lemma blind_track: "row_blind mode (track_signal sig)"
  by (rule blind_plain) (simp add: track_signal_def)

lemma blind_flat: "row_blind mode engine_flat"
  by (rule blind_plain) (simp add: engine_flat_def)

lemma blind_tracked: "row_blind (ec_mode cfg) (store_and_track cfg sig)"
  using blind_comp [OF blind_store blind_track, of cfg sig sig] by (simp add: store_and_track_def [abs_def])

lemma blind_bind:
  assumes "\<And>s rows. fst (g (s\<lparr>en_rows := rows\<rparr>)) = fst (g s)"
    and "\<And>s rows. snd (g (s\<lparr>en_rows := rows\<rparr>)) = (snd (g s))\<lparr>en_rows := rows\<rparr>"
    and "\<And>x. row_blind mode (f x)"
  shows "row_blind mode (\<lambda>s. case g s of (x, s1) \<Rightarrow> f x s1)"
proof -
  have "\<forall>x. \<exists>G H. \<forall>s rows. f x (s\<lparr>en_rows := rows\<rparr>) = (G s)\<lparr>en_rows := fold (store_shadow_signal mode) (H s) rows\<rparr>"
    using assms(3) by (simp add: row_blind_def)
  then obtain G H where f: "\<And>x s rows. f x (s\<lparr>en_rows := rows\<rparr>)
      = (G x s)\<lparr>en_rows := fold (store_shadow_signal mode) (H x s) rows\<rparr>"
    by metis
  show ?thesis
    by (rule row_blindI [where G = "\<lambda>s. G (fst (g s)) (snd (g s))" and H = "\<lambda>s. H (fst (g s)) (snd (g s))"])
      (simp add: case_prod_beta assms(1,2) f)
qed

lemma blind_warmup_step: "row_blind (ec_mode cfg) (warmup_step cfg candles i)"
  unfolding warmup_step_def
  by (rule blind_bind) (simp_all add: engine_evaluate_def case_prod_beta blind_fold blind_tracked)

lemma blind_if:
  assumes "\<And>s rows. c (s\<lparr>en_rows := rows\<rparr>) = c s" "row_blind mode f" "row_blind mode g"
  shows "row_blind mode (\<lambda>s. if c s then f s else g s)"
proof -
  obtain G H where f: "\<forall>s rows. f (s\<lparr>en_rows := rows\<rparr>) = (G s)\<lparr>en_rows := fold (store_shadow_signal mode) (H s) rows\<rparr>"
    by (rule row_blindE [OF assms(2)])
  obtain G' H' where g: "\<forall>s rows. g (s\<lparr>en_rows := rows\<rparr>) = (G' s)\<lparr>en_rows := fold (store_shadow_signal mode) (H' s) rows\<rparr>"
    by (rule row_blindE [OF assms(3)])
  show ?thesis
    by (rule row_blindI [where G = "\<lambda>s. if c s then G s else G' s" and H = "\<lambda>s. if c s then H s else H' s"])
      (simp add: assms(1) f g)
qed

lemma open_bracket_blind [simp]: "open_bracket (s\<lparr>en_rows := rows\<rparr>) = open_bracket s"
  by (simp add: open_bracket_def split: option.split)

lemma blind_leg: "row_blind (ec_mode cfg) (store_exit_leg cfg b leg t price)"
  by (rule row_blindI [where G = "\<lambda>s. s\<lparr>en_stored := en_stored s @ [(b, leg)]\<rparr>" and H = "\<lambda>s. [exit_signal (en_brackets s ! b) leg t price]"])
    (simp add: store_exit_leg_def store_signal_def)

text \<open>One bar of the catch-up, for the bracket that is open now.\<close>

lemma blind_feed_bar:
  "row_blind (ec_mode cfg) (\<lambda>s. case feed_bracket b high low None s of
     (legs, s1) \<Rightarrow> job_done b (fold (\<lambda>leg. store_exit_leg cfg b leg t c) legs s1))"
proof (rule blind_bind)
  fix legs
  have "row_blind (ec_mode cfg) (job_done b)"
    unfolding job_done_def by (rule blind_if) (simp_all add: blind_flat blind_id)
  from blind_comp [OF blind_fold [OF blind_leg] this]
  show "row_blind (ec_mode cfg) (\<lambda>s1. job_done b (fold (\<lambda>leg. store_exit_leg cfg b leg t c) legs s1))" .
qed (simp_all add: feed_bracket_def case_prod_beta)

lemma blind_case:
  assumes "\<And>s rows. c (s\<lparr>en_rows := rows\<rparr>) = c s" "row_blind mode f" "\<And>b. row_blind mode (g b)"
  shows "row_blind mode (\<lambda>s. case c s of None \<Rightarrow> f s | Some b \<Rightarrow> g b s)"
proof -
  obtain G H where f: "\<forall>s rows. f (s\<lparr>en_rows := rows\<rparr>) = (G s)\<lparr>en_rows := fold (store_shadow_signal mode) (H s) rows\<rparr>"
    by (rule row_blindE [OF assms(2)])
  have "\<forall>b. \<exists>G H. \<forall>s rows. g b (s\<lparr>en_rows := rows\<rparr>) = (G s)\<lparr>en_rows := fold (store_shadow_signal mode) (H s) rows\<rparr>"
    using assms(3) by (simp add: row_blind_def)
  then obtain G' H' where g: "\<And>b s rows. g b (s\<lparr>en_rows := rows\<rparr>)
      = (G' b s)\<lparr>en_rows := fold (store_shadow_signal mode) (H' b s) rows\<rparr>"
    by metis
  show ?thesis
    by (rule row_blindI [where G = "\<lambda>s. case c s of None \<Rightarrow> G s | Some b \<Rightarrow> G' b s" and H = "\<lambda>s. case c s of None \<Rightarrow> H s | Some b \<Rightarrow> H' b s"])
      (simp add: assms(1) f g split: option.split)
qed

lemma catch_up_bars_step:
  "catch_up_bars cfg (bar # bars) s =
     (case open_bracket s of
        None \<Rightarrow> s
      | Some b \<Rightarrow> catch_up_bars cfg bars
          (case feed_bracket b (cd_h bar) (cd_l bar) None s of
             (legs, s1) \<Rightarrow> job_done b (fold (\<lambda>leg. store_exit_leg cfg b leg (cd_t bar) (cd_c bar)) legs s1)))"
  by (simp add: Let_def job_done_def split: prod.split option.split)

lemma blind_catch_up_bars: "row_blind (ec_mode cfg) (catch_up_bars cfg bars)"
proof (induction bars)
  case Nil
  show ?case using blind_id by (simp add: catch_up_bars.simps(1) [abs_def])
next
  case (Cons bar bars)
  have "row_blind (ec_mode cfg) (\<lambda>s. catch_up_bars cfg bars
          (case feed_bracket b (cd_h bar) (cd_l bar) None s of
             (legs, s1) \<Rightarrow> job_done b (fold (\<lambda>leg. store_exit_leg cfg b leg (cd_t bar) (cd_c bar)) legs s1)))" for b
    by (rule blind_comp [OF blind_feed_bar Cons.IH])
  from blind_case [OF open_bracket_blind blind_id this] show ?case
    by (simp add: catch_up_bars_step [abs_def])
qed

lemma blind_catch_up: "row_blind (ec_mode cfg) (catch_up cfg minute_bars)"
proof -
  let ?from = "\<lambda>t. t + (case timeframe_ms (ec_timeframe cfg) of None \<Rightarrow> 3600000 | Some ms \<Rightarrow> ms)"
  let ?run = "\<lambda>t. catch_up_bars cfg (filter (\<lambda>c. ?from t \<le> cd_t c) minute_bars)"
  have entry: "row_blind (ec_mode cfg) (\<lambda>s. case ps_entry_bar_time (en_position s) of None \<Rightarrow> s | Some t \<Rightarrow> ?run t s)"
    by (rule blind_case) (simp_all add: blind_id blind_catch_up_bars)
  have "catch_up cfg minute_bars = (\<lambda>s. case open_bracket s of None \<Rightarrow> s
      | Some b \<Rightarrow> (case ps_entry_bar_time (en_position s) of None \<Rightarrow> s | Some t \<Rightarrow> ?run t s))"
    by (simp add: catch_up_def Let_def fun_eq_iff split: option.split)
  with blind_case [OF open_bracket_blind blind_id entry] show ?thesis by simp
qed

lemma blind_warmup: "row_blind (ec_mode cfg) (warmup cfg candles)"
  unfolding warmup_def
  by (rule blind_comp [of _ "\<lambda>s. s\<lparr>en_candles := candles\<rparr>"])
    (simp_all add: blind_fold blind_warmup_step blind_plain)

section \<open>Restarting on the same history\<close>

lemma stored_keys:
  "row_key ` set (fold (store_shadow_signal mode) sigs rows)
     = (row_key \<circ> row_of_signal mode) ` set sigs \<union> row_key ` set rows"
  by (induction sigs arbitrary: rows) (simp_all add: store_keys)

lemma store_again:
  "(row_key \<circ> row_of_signal mode) ` set sigs \<subseteq> row_key ` set rows \<Longrightarrow> fold (store_shadow_signal mode) sigs rows = rows"
  by (induction sigs) (simp_all add: store_known)

text \<open>
  Restarting is idempotent on the table: booting the engine again on the same
  history and the same minute bars, over the table the first boot left, stores no row, for
  any history, indicator and table. And it starts from the same position and brackets.
\<close>

theorem boot_idempotent:
  "let first = boot cfg history minute_bars rows; again = boot cfg history minute_bars (en_rows first)
   in again = first"
proof -
  obtain G H where g: "\<forall>s rows. catch_up cfg minute_bars (warmup cfg history (s\<lparr>en_rows := rows\<rparr>))
      = (G s)\<lparr>en_rows := fold (store_shadow_signal (ec_mode cfg)) (H s) rows\<rparr>"
    by (rule row_blindE [OF blind_comp [OF blind_warmup [of cfg history] blind_catch_up [of cfg minute_bars]]])
  define s sigs where "s = G (start_engine cfg [])" and "sigs = H (start_engine cfg [])"
  have b: "boot cfg history minute_bars rows = s\<lparr>en_rows := fold (store_shadow_signal (ec_mode cfg)) sigs rows\<rparr>" for rows
    using spec [OF spec [OF g, of "start_engine cfg []"], of rows] by (simp add: boot_def start_engine_def s_def sigs_def)
  have "fold (store_shadow_signal (ec_mode cfg)) sigs (fold (store_shadow_signal (ec_mode cfg)) sigs rows)
      = fold (store_shadow_signal (ec_mode cfg)) sigs rows"
    by (rule store_again) (simp add: stored_keys)
  then show ?thesis by (simp add: b Let_def)
qed

section \<open>Two schedules\<close>

text \<open>
  An indicator that is the close itself, and a history that crosses the middle upwards on its
  last bar: the engine boots long at 51.
\<close>

definition demo_cfg :: engine_cfg where
  "demo_cfg = \<lparr>ec_rsi = (\<lambda>closes. Some (map Some closes)), ec_mode = ''shadow'', ec_warmup_candles = 500,
               ec_intrabar = False, ec_timeframe = ''1h''\<rparr>"

definition flat_candle :: "int \<Rightarrow> rat \<Rightarrow> candle" where
  "flat_candle t p = \<lparr>cd_t = t, cd_o = p, cd_h = p, cd_l = p, cd_c = p, cd_v = 1\<rparr>"

definition demo_history :: "candle list" where
  "demo_history = replicate 70 (flat_candle 0 49) @ [flat_candle 3600000 51]"

definition demo_boot :: engine where
  "demo_boot = boot demo_cfg demo_history [] []"

lemma evaluate_turn_witness:
  "let (sigs, s') = harness_evaluate (ec_rsi demo_cfg) demo_history True new_strategy
   in map sg_signal sigs = turn_signals None (ps_side (st_position s')) \<and>
      map sg_signal sigs = [Open_long] \<and> ps_side (st_position s') = Some Long_side \<and>
      list_all (\<lambda>sig. sg_bar_time sig = 3600000) sigs"
proof -
  have side: "ps_side (st_position new_strategy) = None" and time: "cd_t (List.last demo_history) = 3600000"
    by code_simp+
  have opens: "map sg_signal (fst (harness_evaluate (ec_rsi demo_cfg) demo_history True new_strategy)) = [Open_long]"
    "ps_side (st_position (snd (harness_evaluate (ec_rsi demo_cfg) demo_history True new_strategy))) = Some Long_side"
    by code_simp+
  show ?thesis
    using evaluate_turn [of "ec_rsi demo_cfg" demo_history True new_strategy] opens
    unfolding side time by (auto simp: Let_def case_prod_unfold list_all_iff)
qed

definition table_view :: "engine \<Rightarrow> (sig_kind \<times> int \<times> exit_reason option) list" where
  "table_view s = map (\<lambda>r. (sr_signal r, sr_bar_time r, sr_exit_reason r)) (en_rows s)"

text \<open>
  The near-tick loop sees the stop and suspends to store the leg; before the database
  answers, the hour closes below the middle and the closed-bar loop turns the position short.
\<close>

definition late_exit :: "event list" where
  "late_exit = [Near_wakes, Near_forming (Some (flat_candle 7200000 40)),
                Entry_bar (flat_candle 7200000 40), Entry_answer True, Entry_answer True,
                Near_answer True]"

text \<open>The same exit and the same turn, one after the other.\<close>

definition exit_then_turn :: "event list" where
  "exit_then_turn = [Near_wakes, Near_forming (Some (flat_candle 7140000 40)), Near_answer True,
                     Entry_bar (flat_candle 7200000 40), Entry_answer True]"

section \<open>The schedules as instances\<close>

lemma demo_runs: "run_events demo_cfg exit_then_turn demo_boot \<noteq> None" by code_simp

theorem engine_exits_sound_witness:
  "\<exists>s. run_events demo_cfg exit_then_turn demo_boot = Some s \<and> length (en_brackets s) = 2 \<and>
     legs_of 0 (en_fired s) = [(Stop, 100)] \<and> legs_shape (legs_of 0 (en_fired s)) (en_brackets s ! 0) \<and>
     mset (en_stored s) = {#(0, Stop, 100)#} \<and> sr_exit_reason (en_rows s ! 1) = Some Stop"
proof -
  obtain s where s: "run_events demo_cfg exit_then_turn demo_boot = Some s" using demo_runs by auto
  have "map_option (\<lambda>s. (length (en_brackets s), legs_of 0 (en_fired s), en_stored s, sr_exit_reason (en_rows s ! 1)))
      (run_events demo_cfg exit_then_turn demo_boot) = Some (2, [(Stop, 100)], [(0, Stop, 100)], Some Stop)" by code_simp
  then have v: "length (en_brackets s) = 2" "legs_of 0 (en_fired s) = [(Stop, 100)]" "en_stored s = [(0, Stop, 100)]"
    "sr_exit_reason (en_rows s ! 1) = Some Stop"
    using s by simp_all
  have b: "run_events demo_cfg exit_then_turn (boot demo_cfg demo_history [] []) = Some s" using s by (simp add: demo_boot_def)
  have "0 < length (en_brackets s)" using v(1) by simp
  then have "legs_shape (legs_of 0 (en_fired s)) (en_brackets s ! 0)"
    using engine_exits_sound [OF b, of "[]" s] by auto
  with s v show ?thesis by auto
qed

theorem shadow_table_append_only_witness:
  "\<exists>s. run_events demo_cfg exit_then_turn demo_boot = Some s \<and> length (en_rows s) = 3 \<and>
     distinct (map row_key (en_rows s))"
proof -
  obtain s where s: "run_events demo_cfg exit_then_turn demo_boot = Some s" using demo_runs by auto
  have "map_option (\<lambda>s. length (en_rows s)) (run_events demo_cfg exit_then_turn demo_boot) = Some 3" by code_simp
  then show ?thesis
    using s shadow_table_append_only [of "[]" demo_cfg exit_then_turn demo_history "[]" s] by (simp add: demo_boot_def)
qed

text \<open>What a reader sees of the engine: the table, the position, and which brackets are closed.\<close>

definition engine_view :: "engine \<Rightarrow> (sig_kind \<times> int \<times> exit_reason option) list \<times> pside option \<times> nat option \<times> bool list" where
  "engine_view s = (table_view s, ps_side (en_position s), ps_bracket (en_position s), map bk_closed (en_brackets s))"

text \<open>
  The loops do not take turns: when an exit's row is still being stored while the
  closed-bar loop turns the position short, the exit's clearing of the position comes last
  and clears the new one. The table says the engine is short, the new bracket is open, but the
  position is flat and no loop holds that bracket any more. Run one after the other, the same
  exit and the same turn leave the position short with its bracket.
\<close>

theorem late_exit_clears_new_position:
  "map_option engine_view (run_events demo_cfg late_exit demo_boot) =
     Some ([(Open_long, 3600000, None), (Close_long, 7200000, None), (Open_short, 7200000, None),
            (Close_long, 7200000, Some Stop)], None, None, [True, False]) \<and>
   map_option engine_view (run_events demo_cfg exit_then_turn demo_boot) =
     Some ([(Open_long, 3600000, None), (Close_long, 7140000, Some Stop), (Open_short, 7200000, None)],
           Some Short_side, Some 1, [True, False])"
  by (rule conjI; code_simp)

text \<open>
  A restart closes a position twice: the warm-up replays the entries without the
  bracket exits between them, so booting on the longer history adds a close for the turn at
  which the running engine, already stopped out, had only opened.
\<close>

theorem restart_closes_again:
  "map_option (\<lambda>s. (table_view s, table_view (boot demo_cfg (demo_history @ [flat_candle 7200000 40]) [] (en_rows s))))
     (run_events demo_cfg exit_then_turn demo_boot) =
   Some ([(Open_long, 3600000, None), (Close_long, 7140000, Some Stop), (Open_short, 7200000, None)],
         [(Open_long, 3600000, None), (Close_long, 7140000, Some Stop), (Open_short, 7200000, None),
          (Close_long, 7200000, None)])"
  by code_simp

end
