(* ===== verification/EngineSerial.thy ===== *)
theory EngineSerial
  imports EngineRestart
begin

text \<open>
  The signal engine when its loops take turns: a loop is woken only while the others are
  asleep, and every insert goes through. Then the position record is one story: flat, or a
  side with an open bracket of that side.
\<close>

section \<open>Taking turns\<close>

definition quiet :: "engine \<Rightarrow> bool" where
  "quiet s \<longleftrightarrow> en_near s = Near_asleep \<and> en_safety s = Safety_waiting \<and> en_entry s = Entry_waiting
     \<and> (en_intra s = Intra_off \<or> en_intra s = Intra_asleep)"

fun wakes :: "event \<Rightarrow> bool" where
  "wakes Near_wakes = True"
| "wakes (Safety_bar _) = True"
| "wakes (Entry_bar _) = True"
| "wakes Intra_wakes = True"
| "wakes _ = False"

inductive takes_turns :: "engine_cfg \<Rightarrow> engine \<Rightarrow> engine \<Rightarrow> bool" for cfg s0 where
  turn_start: "takes_turns cfg s0 s0"
| turn_step: "takes_turns cfg s0 s \<Longrightarrow> (wakes e \<longrightarrow> quiet s) \<Longrightarrow> \<not> insert_fails e \<Longrightarrow>
    engine_step cfg e s = Some s' \<Longrightarrow> takes_turns cfg s0 s'"

section \<open>The position between two turns\<close>

text \<open>The bracket \<open>b\<close> is the one of the position, and of its side; it may have just been closed.\<close>

definition holds :: "nat \<Rightarrow> engine \<Rightarrow> bool" where
  "holds b s \<longleftrightarrow> ps_bracket (en_position s) = Some b \<and> b < length (en_brackets s) \<and>
     ps_entry_bar_time (en_position s) \<noteq> None \<and>
     (\<exists>side. ps_side (en_position s) = Some side \<and> bk_d (en_brackets s ! b) = pside_direction side)"

definition consistent :: "engine \<Rightarrow> bool" where
  "consistent s \<longleftrightarrow>
     en_position s = flat_position \<or>
     (\<exists>b. holds b s \<and> \<not> bk_closed (en_brackets s ! b))"

text \<open>The signals of an evaluation that are still to be stored: they end in opening the side of the position.\<close>

definition opens_side :: "pside \<Rightarrow> trade_signal \<Rightarrow> bool" where
  "opens_side side sig \<longleftrightarrow> sg_signal sig = (if side = Long_side then Open_long else Open_short) \<and>
     sg_spec sig = Some (harness_bracket side (sg_price sig))"

definition pending :: "trade_signal list \<Rightarrow> engine \<Rightarrow> bool" where
  "pending sigs s \<longleftrightarrow>
     (\<exists>side. ps_side (en_position s) = Some side \<and>
        (\<exists>sig. sigs = [sig] \<and> opens_side side sig \<or>
           (\<exists>cl. sigs = [cl, sig] \<and> opens_side side sig \<and> sg_signal cl \<in> {Close_long, Close_short})))"

definition turn_ok :: "engine \<Rightarrow> bool" where
  "turn_ok s \<longleftrightarrow>
     (let idle_n = (en_near s = Near_asleep); idle_s = (en_safety s = Safety_waiting);
          idle_e = (en_entry s = Entry_waiting); idle_i = (en_intra s \<in> {Intra_off, Intra_asleep})
      in idle_n \<and> idle_s \<and> idle_e \<and> idle_i \<and> consistent s
         \<or> idle_s \<and> idle_e \<and> idle_i \<and>
             (\<exists>b. en_near s = Near_reading b \<and> holds b s \<and> \<not> bk_closed (en_brackets s ! b))
         \<or> idle_s \<and> idle_e \<and> idle_i \<and> (\<exists>j. en_near s = Near_storing j \<and> holds (xj_bracket j) s)
         \<or> idle_n \<and> idle_e \<and> idle_i \<and> (\<exists>j. en_safety s = Safety_storing j \<and> holds (xj_bracket j) s)
         \<or> idle_n \<and> idle_s \<and> idle_i \<and> (\<exists>j. en_entry s = Entry_exiting j \<and> holds (xj_bracket j) s)
         \<or> idle_n \<and> idle_s \<and> idle_i \<and> (\<exists>sigs. en_entry s = Entry_signalling sigs \<and> pending sigs s)
         \<or> idle_n \<and> idle_s \<and> idle_e \<and> en_intra s = Intra_reading \<and> consistent s
         \<or> idle_n \<and> idle_s \<and> idle_e \<and> (\<exists>sigs. en_intra s = Intra_signalling sigs \<and> pending sigs s))"

section \<open>What the pieces do to it\<close>

lemma engine_flat_consistent [simp]: "consistent (engine_flat s)"
  by (simp add: consistent_def engine_flat_def mark_flat_def flat_position_def)

lemma holds_fields:
  "en_strategy s' = en_strategy s \<Longrightarrow> en_brackets s' = en_brackets s \<Longrightarrow> holds b s' = holds b s"
  by (simp add: holds_def)

lemma consistent_fields:
  "en_strategy s' = en_strategy s \<Longrightarrow> en_brackets s' = en_brackets s \<Longrightarrow> consistent s' = consistent s"
  by (simp add: consistent_def holds_def)

lemma job_done_consistent: "holds b s \<Longrightarrow> consistent (job_done b s)"
  by (auto simp: job_done_def consistent_def [of s])

lemma feed_holds:
  assumes "holds b s"
  shows "holds b (snd (feed_bracket b high low rsi s))"
  using assms by (auto simp: holds_def feed_bracket_def case_prod_beta)

lemma store_holds [simp]: "holds b (store_signal cfg sig s) = holds b s"
  "holds b (store_exit_leg cfg b' leg t p s) = holds b s"
  by (rule holds_fields, simp_all add: store_signal_def store_exit_leg_def)+

lemma open_bracket_holds:
  assumes "consistent s"
  shows "open_bracket s = Some b \<longleftrightarrow> holds b s \<and> \<not> bk_closed (en_brackets s ! b)"
    and "open_bracket s = None \<longleftrightarrow> en_position s = flat_position"
  using assms by (auto simp: consistent_def open_bracket_def holds_def flat_position_def)

lemma evaluate_pending:
  assumes "consistent s" "engine_evaluate cfg cs detect s = (sigs, s')"
  shows "if sigs = [] then consistent s' else pending sigs s'"
proof (rule harness_cases [of "ec_rsi cfg" cs detect "en_strategy s"])
  fix rsi
  assume "harness_evaluate (ec_rsi cfg) cs detect (en_strategy s) = ([], (en_strategy s)\<lparr>st_last_rsi := rsi\<rparr>)"
  with assms show ?thesis by (auto simp: engine_evaluate_def consistent_def holds_def)
next
  fix side t c rsi
  assume "harness_evaluate (ec_rsi cfg) cs detect (en_strategy s) =
         ((case ps_side (en_position s) of
             None \<Rightarrow> []
           | Some Long_side \<Rightarrow> [entry_signal Close_long Long_side t c None]
           | Some Short_side \<Rightarrow> [entry_signal Close_short Short_side t c None])
          @ [entry_signal (if side = Long_side then Open_long else Open_short) side t c (Some (harness_bracket side c))],
          set_side side ((en_strategy s)\<lparr>st_last_rsi := rsi\<rparr>))"
  with assms(2) show ?thesis
    by (auto simp: engine_evaluate_def pending_def opens_side_def set_side_def entry_signal_def
        split: option.splits pside.splits)
qed

lemma evaluate_quietly:
  assumes "consistent s"
  shows "consistent (snd (engine_evaluate cfg cs False s))"
proof (rule harness_cases [of "ec_rsi cfg" cs False "en_strategy s"])
  fix rsi
  assume "harness_evaluate (ec_rsi cfg) cs False (en_strategy s) = ([], (en_strategy s)\<lparr>st_last_rsi := rsi\<rparr>)"
  with assms show ?thesis by (auto simp: engine_evaluate_def consistent_def holds_def)
qed simp

lemma bracket_direction: "bk_d (new_bracket (bracket_spec.truncate (harness_bracket side p)) q) = pside_direction side"
  by (simp add: new_bracket_def harness_bracket_def bracket_spec.truncate_def Let_def)

lemma new_bracket_open [simp]: "\<not> bk_closed (new_bracket spec entry)"
  by (simp add: new_bracket_def Let_def)

lemma track_opens:
  assumes "ps_side (en_position s) = Some side" "opens_side side sig"
  shows "consistent (store_and_track cfg sig s)"
  using assms
  by (auto simp: consistent_def holds_def store_and_track_def track_signal_def store_signal_def opens_side_def
      nth_append bracket_direction intro!: exI [of _ "length (en_brackets s)"])

lemma pending_step:
  assumes "pending sigs s"
  shows "if tl sigs = [] then consistent (store_and_track cfg (hd sigs) s)
         else pending (tl sigs) (store_and_track cfg (hd sigs) s)"
proof -
  obtain side sig where side: "ps_side (en_position s) = Some side" and o: "opens_side side sig"
    and sigs: "sigs = [sig] \<or> (\<exists>cl. sigs = [cl, sig] \<and> sg_signal cl \<in> {Close_long, Close_short})"
    using assms by (auto simp: pending_def)
  show ?thesis
  proof (cases "tl sigs = []")
    case True
    with sigs have "sigs = [sig]" by auto
    then show ?thesis using track_opens [OF side o] by simp
  next
    case False
    with sigs obtain cl where "sigs = [cl, sig]" "sg_signal cl \<in> {Close_long, Close_short}" by auto
    then show ?thesis
      using side o by (auto simp: pending_def store_and_track_def track_signal_def store_signal_def)
  qed
qed

section \<open>Booting\<close>

lemma warmup_signals:
  "(if sigs = [] then consistent s else pending sigs s) \<Longrightarrow> consistent (fold (store_and_track cfg) sigs s)"
proof (induction sigs arbitrary: s)
  case (Cons sig sigs)
  then have "pending (sig # sigs) s" by simp
  from pending_step [OF this, of cfg] have
    "if sigs = [] then consistent (store_and_track cfg sig s) else pending sigs (store_and_track cfg sig s)"
    by (cases "sigs = []") simp_all
  from Cons.IH [OF this] show ?case by simp
qed simp

lemma warmup_consistent: "consistent s \<Longrightarrow> consistent (warmup cfg candles s)"
proof -
  have step: "consistent t \<Longrightarrow> consistent (warmup_step cfg candles i t)" for i t
    using evaluate_pending [of t cfg "take (i + 1) candles" True]
    by (auto simp: warmup_step_def intro: warmup_signals split: prod.split)
  have "consistent t \<Longrightarrow> consistent (fold (warmup_step cfg candles) is t)" for "is" t
    by (induction "is" arbitrary: t) (simp_all add: step)
  moreover assume "consistent s"
  then have "consistent (s\<lparr>en_candles := candles\<rparr>)" by (subst consistent_fields [of _ s]) simp_all
  ultimately show "consistent (warmup cfg candles s)" by (simp add: warmup_def)
qed

lemma catch_up_consistent: "consistent s \<Longrightarrow> consistent (catch_up_bars cfg bars s)"
proof (induction bars arbitrary: s)
  case (Cons bar bars)
  show ?case
  proof (cases "open_bracket s")
    case (Some b)
    obtain legs s1 where f: "feed_bracket b (cd_h bar) (cd_l bar) None s = (legs, s1)" by (rule prod.exhaust)
    have "holds b s" using open_bracket_holds(1) [OF Cons.prems, of b] Some by blast
    then have "holds b s1" using feed_holds [of b s "cd_h bar" "cd_l bar" None] f by simp
    then have "holds b (fold (\<lambda>leg. store_exit_leg cfg b leg (cd_t bar) (cd_c bar)) legs s1)"
      by (induction legs arbitrary: s1) simp_all
    from Cons.IH [OF job_done_consistent [OF this]] show ?thesis
      by (simp add: Some f Let_def job_done_def)
  qed (use Cons.prems in simp)
qed simp

lemma boot_consistent: "consistent (boot cfg history minute_bars rows)"
proof -
  have "consistent (start_engine cfg rows)"
    by (simp add: consistent_def start_engine_def new_strategy_def)
  from warmup_consistent [OF this] show ?thesis
    by (auto simp: boot_def catch_up_def Let_def catch_up_consistent split: option.split)
qed

lemma start_fields:
  "en_near (start_engine cfg rows) = Near_asleep" "en_safety (start_engine cfg rows) = Safety_waiting"
  "en_entry (start_engine cfg rows) = Entry_waiting" "en_intra (start_engine cfg rows) \<in> {Intra_off, Intra_asleep}"
  by (simp_all add: start_engine_def)

definition asleep :: "engine \<Rightarrow> engine \<Rightarrow> bool" where
  "asleep s0 s \<longleftrightarrow> en_near s = en_near s0 \<and> en_safety s = en_safety s0 \<and> en_entry s = en_entry s0 \<and> en_intra s = en_intra s0"

lemma asleep_refl [simp]: "asleep s s" by (simp add: asleep_def)

lemma asleep_pieces [simp]:
  "asleep s0 (engine_flat s) = asleep s0 s"
  "asleep s0 (store_signal cfg sig s) = asleep s0 s"
  "asleep s0 (store_exit_leg cfg b leg t p s) = asleep s0 s"
  "asleep s0 (track_signal sig s) = asleep s0 s"
  "asleep s0 (job_done b s) = asleep s0 s"
  "asleep s0 (snd (feed_bracket b high low rsi s)) = asleep s0 s"
  "asleep s0 (snd (engine_evaluate cfg cs detect s)) = asleep s0 s"
  "asleep s0 (s\<lparr>en_candles := cs\<rparr>) = asleep s0 s"
  by (simp_all add: asleep_def engine_flat_def store_exit_leg_def store_signal_def track_signal_def job_done_def feed_bracket_def
      engine_evaluate_def case_prod_beta)

lemma asleep_fold: "(\<And>x t. asleep s0 (f x t) = asleep s0 t) \<Longrightarrow> asleep s0 (fold f xs s) = asleep s0 s"
  by (induction xs arbitrary: s) simp_all

lemma asleep_catch_up: "asleep s0 s \<Longrightarrow> asleep s0 (catch_up_bars cfg bars s)"
proof (induction bars arbitrary: s)
  case (Cons bar bars)
  show ?case
  proof (cases "open_bracket s")
    case (Some b)
    obtain legs s1 where f: "feed_bracket b (cd_h bar) (cd_l bar) None s = (legs, s1)" by (rule prod.exhaust)
    have "asleep s0 s1" using Cons.prems asleep_pieces(6) [of s0 b "cd_h bar" "cd_l bar" None s] f by simp
    then show ?thesis
      using Cons.IH by (simp add: Some f Let_def asleep_fold)
  qed (use Cons.prems in simp)
qed simp

lemma boot_quiet: "quiet (boot cfg history minute_bars rows)"
proof -
  let ?s0 = "start_engine cfg rows"
  have "asleep ?s0 (warmup cfg history ?s0)"
    by (simp add: warmup_def asleep_fold warmup_step_def store_and_track_def case_prod_beta)
  then have "asleep ?s0 (boot cfg history minute_bars rows)"
    by (auto simp: boot_def catch_up_def Let_def asleep_catch_up split: option.split)
  then show ?thesis using start_fields [of cfg rows] by (auto simp: quiet_def asleep_def)
qed

section \<open>A step of a loop\<close>

lemma decide_ok:
  assumes "consistent s" "en_near s = Near_asleep" "en_safety s = Safety_waiting" "en_intra s \<in> {Intra_off, Intra_asleep}"
  shows "turn_ok (entry_decide cfg s)"
proof -
  obtain sigs s1 where e: "engine_evaluate cfg (en_candles s) (\<not> ec_intrabar cfg) s = (sigs, s1)"
    by (rule prod.exhaust)
  have "asleep s s1" using asleep_pieces(7) [of s cfg "en_candles s" "\<not> ec_intrabar cfg" s] e by simp
  moreover have "if sigs = [] then consistent s1 else pending sigs s1"
    by (rule evaluate_pending [OF assms(1) e])
  ultimately show ?thesis
    using assms(2-) consistent_fields [of "s1\<lparr>en_entry := Entry_waiting\<rparr>" s1]
    by (cases "sigs = []") (auto simp: entry_decide_def e turn_ok_def asleep_def pending_def)
qed

lemma entry_bar_ok:
  assumes "consistent s" "quiet s"
  shows "turn_ok (entry_bar cfg c s)"
proof -
  define s1 where "s1 = s\<lparr>en_candles := push_candle cfg c (en_candles s)\<rparr>"
  define s2 where "s2 = snd (engine_evaluate cfg (en_candles s1) False s1)"
  have "consistent s1" using assms(1) by (subst consistent_fields [of s1 s]) (simp_all add: s1_def)
  then have c2: "consistent s2" by (simp add: s2_def evaluate_quietly)
  have "asleep s s2" by (simp add: s2_def s1_def)
  then have pcs: "en_near s2 = Near_asleep" "en_safety s2 = Safety_waiting" "en_intra s2 \<in> {Intra_off, Intra_asleep}"
    using assms(2) by (auto simp: asleep_def quiet_def)
  show ?thesis
  proof (cases "open_bracket s2")
    case None
    then show ?thesis using decide_ok [OF c2 pcs] by (simp add: entry_bar_def Let_def s1_def s2_def)
  next
    case (Some b)
    obtain legs s3 where f: "feed_bracket b (cd_c c) (cd_c c) (st_last_rsi (en_strategy s2)) s2 = (legs, s3)"
      by (rule prod.exhaust)
    have "holds b s2" using open_bracket_holds(1) [OF c2, of b] Some by blast
    then have h: "holds b s3"
      using feed_holds [of b s2 "cd_c c" "cd_c c" "st_last_rsi (en_strategy s2)"] f by simp
    have "asleep s2 s3"
      using asleep_pieces(6) [of s2 b "cd_c c" "cd_c c" "st_last_rsi (en_strategy s2)" s2] f by simp
    then have p3: "en_near s3 = Near_asleep" "en_safety s3 = Safety_waiting" "en_intra s3 \<in> {Intra_off, Intra_asleep}"
      using pcs by (auto simp: asleep_def)
    have e: "entry_bar cfg c s = (if legs = [] then entry_decide cfg (job_done b s3)
        else s3\<lparr>en_entry := Entry_exiting \<lparr>xj_bracket = b, xj_legs = legs, xj_time = cd_t c, xj_price = cd_c c\<rparr>\<rparr>)"
      using Some f by (simp add: entry_bar_def Let_def s1_def s2_def)
    have "asleep s3 (job_done b s3)" by simp
    then have d: "turn_ok (entry_decide cfg (job_done b s3))"
      using p3 by (intro decide_ok [OF job_done_consistent [OF h]]) (auto simp: asleep_def)
    have "holds b (s3\<lparr>en_entry := x\<rparr>)" for x using h by (subst holds_fields [of _ s3]) simp_all
    then show ?thesis using d p3 by (auto simp: e turn_ok_def)
  qed
qed

lemma job_store_parts [simp]: "holds b (job_store cfg j s) = holds b s" "asleep s0 (job_store cfg j s) = asleep s0 s"
  by (simp_all add: job_store_def)

lemma pc_fields [simp]:
  "holds b (s\<lparr>en_near := n\<rparr>) = holds b s" "holds b (s\<lparr>en_safety := sf\<rparr>) = holds b s"
  "holds b (s\<lparr>en_entry := en\<rparr>) = holds b s" "holds b (s\<lparr>en_intra := it\<rparr>) = holds b s"
  "consistent (s\<lparr>en_near := n\<rparr>) = consistent s" "consistent (s\<lparr>en_safety := sf\<rparr>) = consistent s"
  "consistent (s\<lparr>en_entry := en\<rparr>) = consistent s" "consistent (s\<lparr>en_intra := it\<rparr>) = consistent s"
  "pending sigs (s\<lparr>en_entry := en\<rparr>) = pending sigs s" "pending sigs (s\<lparr>en_intra := it\<rparr>) = pending sigs s"
  by (simp_all add: holds_def consistent_def pending_def)

lemma turn_quiet: "turn_ok s \<Longrightarrow> quiet s \<Longrightarrow> consistent s"
  by (auto simp: turn_ok_def quiet_def)

lemma quiet_turn: "quiet s \<Longrightarrow> consistent s \<Longrightarrow> turn_ok s"
  by (auto simp: turn_ok_def quiet_def)

text \<open>The loops that have bracket legs to store: one more stored, or the last one and the position settled.\<close>

lemma near_answer_ok:
  assumes "turn_ok s" "en_near s = Near_storing j"
  shows "turn_ok ((job_done (xj_bracket j) (job_store cfg j s))\<lparr>en_near := Near_asleep\<rparr>)"
    and "turn_ok ((job_store cfg j s)\<lparr>en_near := Near_storing (job_next j)\<rparr>)"
proof -
  have h: "holds (xj_bracket j) (job_store cfg j s)" and p: "en_safety s = Safety_waiting"
    "en_entry s = Entry_waiting" "en_intra s \<in> {Intra_off, Intra_asleep}"
    using assms by (auto simp: turn_ok_def)
  have "asleep s (job_store cfg j s)" "asleep s (job_done (xj_bracket j) (job_store cfg j s))" by simp_all
  then show "turn_ok ((job_done (xj_bracket j) (job_store cfg j s))\<lparr>en_near := Near_asleep\<rparr>)"
    "turn_ok ((job_store cfg j s)\<lparr>en_near := Near_storing (job_next j)\<rparr>)"
    using h p job_done_consistent [OF h] by (auto simp: turn_ok_def asleep_def job_next_def)
qed

lemma safety_answer_ok:
  assumes "turn_ok s" "en_safety s = Safety_storing j"
  shows "turn_ok ((job_done (xj_bracket j) (job_store cfg j s))\<lparr>en_safety := Safety_waiting\<rparr>)"
    and "turn_ok ((job_store cfg j s)\<lparr>en_safety := Safety_storing (job_next j)\<rparr>)"
proof -
  have h: "holds (xj_bracket j) (job_store cfg j s)" and p: "en_near s = Near_asleep"
    "en_entry s = Entry_waiting" "en_intra s \<in> {Intra_off, Intra_asleep}"
    using assms by (auto simp: turn_ok_def)
  have "asleep s (job_store cfg j s)" "asleep s (job_done (xj_bracket j) (job_store cfg j s))" by simp_all
  then show "turn_ok ((job_done (xj_bracket j) (job_store cfg j s))\<lparr>en_safety := Safety_waiting\<rparr>)"
    "turn_ok ((job_store cfg j s)\<lparr>en_safety := Safety_storing (job_next j)\<rparr>)"
    using h p job_done_consistent [OF h] by (auto simp: turn_ok_def asleep_def job_next_def)
qed

lemma entry_answer_ok:
  assumes "turn_ok s" "en_entry s = Entry_exiting j"
  shows "turn_ok (entry_decide cfg (job_done (xj_bracket j) (job_store cfg j s)))"
    and "turn_ok ((job_store cfg j s)\<lparr>en_entry := Entry_exiting (job_next j)\<rparr>)"
proof -
  have h: "holds (xj_bracket j) (job_store cfg j s)" and p: "en_near s = Near_asleep"
    "en_safety s = Safety_waiting" "en_intra s \<in> {Intra_off, Intra_asleep}"
    using assms by (auto simp: turn_ok_def)
  have a: "asleep s (job_store cfg j s)" "asleep s (job_done (xj_bracket j) (job_store cfg j s))" by simp_all
  show "turn_ok (entry_decide cfg (job_done (xj_bracket j) (job_store cfg j s)))"
    using a p by (intro decide_ok [OF job_done_consistent [OF h]]) (auto simp: asleep_def)
  show "turn_ok ((job_store cfg j s)\<lparr>en_entry := Entry_exiting (job_next j)\<rparr>)"
    using a h p by (auto simp: turn_ok_def asleep_def job_next_def)
qed

text \<open>The loops that have signals to store.\<close>

lemma entry_signal_ok:
  assumes "turn_ok s" "en_entry s = Entry_signalling sigs"
  shows "tl sigs = [] \<Longrightarrow> turn_ok ((store_and_track cfg (hd sigs) s)\<lparr>en_entry := Entry_waiting\<rparr>)"
    and "tl sigs \<noteq> [] \<Longrightarrow> turn_ok ((store_and_track cfg (hd sigs) s)\<lparr>en_entry := Entry_signalling (tl sigs)\<rparr>)"
proof -
  have p: "pending sigs s" "en_near s = Near_asleep" "en_safety s = Safety_waiting" "en_intra s \<in> {Intra_off, Intra_asleep}"
    using assms by (auto simp: turn_ok_def)
  have "asleep s (store_and_track cfg (hd sigs) s)" by (simp add: store_and_track_def)
  then show "tl sigs = [] \<Longrightarrow> turn_ok ((store_and_track cfg (hd sigs) s)\<lparr>en_entry := Entry_waiting\<rparr>)"
    and "tl sigs \<noteq> [] \<Longrightarrow> turn_ok ((store_and_track cfg (hd sigs) s)\<lparr>en_entry := Entry_signalling (tl sigs)\<rparr>)"
    using p pending_step [OF p(1), of cfg] by (auto simp: turn_ok_def asleep_def)
qed

lemma intra_signal_ok:
  assumes "turn_ok s" "en_intra s = Intra_signalling sigs"
  shows "tl sigs = [] \<Longrightarrow> turn_ok ((store_and_track cfg (hd sigs) s)\<lparr>en_intra := Intra_asleep\<rparr>)"
    and "tl sigs \<noteq> [] \<Longrightarrow> turn_ok ((store_and_track cfg (hd sigs) s)\<lparr>en_intra := Intra_signalling (tl sigs)\<rparr>)"
proof -
  have p: "pending sigs s" "en_near s = Near_asleep" "en_safety s = Safety_waiting" "en_entry s = Entry_waiting"
    using assms by (auto simp: turn_ok_def)
  have "asleep s (store_and_track cfg (hd sigs) s)" by (simp add: store_and_track_def)
  then show "tl sigs = [] \<Longrightarrow> turn_ok ((store_and_track cfg (hd sigs) s)\<lparr>en_intra := Intra_asleep\<rparr>)"
    and "tl sigs \<noteq> [] \<Longrightarrow> turn_ok ((store_and_track cfg (hd sigs) s)\<lparr>en_intra := Intra_signalling (tl sigs)\<rparr>)"
    using p pending_step [OF p(1), of cfg] by (auto simp: turn_ok_def asleep_def)
qed

lemma near_wakes_ok:
  assumes "quiet s" "consistent s"
  shows "turn_ok (s\<lparr>en_near := (case open_bracket s of None \<Rightarrow> Near_asleep | Some b \<Rightarrow> Near_reading b)\<rparr>)"
proof (cases "open_bracket s")
  case None
  then show ?thesis using assms by (intro quiet_turn) (simp_all add: quiet_def)
next
  case (Some b)
  then have "holds b s \<and> \<not> bk_closed (en_brackets s ! b)"
    using open_bracket_holds(1) [OF assms(2), of b] by blast
  then show ?thesis using Some assms(1) by (auto simp: turn_ok_def quiet_def)
qed

lemma near_forming_ok:
  assumes "turn_ok s" "en_near s = Near_reading b"
  shows "turn_ok (s\<lparr>en_near := Near_asleep\<rparr>)" and "turn_ok (near_price b t p s)"
proof -
  have h: "holds b s" "\<not> bk_closed (en_brackets s ! b)" and q: "en_safety s = Safety_waiting"
    "en_entry s = Entry_waiting" "en_intra s \<in> {Intra_off, Intra_asleep}"
    using assms by (auto simp: turn_ok_def)
  have "consistent s" using h by (auto simp: consistent_def)
  then show "turn_ok (s\<lparr>en_near := Near_asleep\<rparr>)" using q by (auto simp: turn_ok_def)
  obtain legs s1 where f: "feed_bracket b p p None s = (legs, s1)" by (rule prod.exhaust)
  have h1: "holds b s1" using feed_holds [OF h(1), of p p None] f by simp
  have "asleep s s1" "asleep s (job_done b s1)" using asleep_pieces(6) [of s b p p None s] f by simp_all
  then show "turn_ok (near_price b t p s)"
    using q h1 job_done_consistent [OF h1] by (auto simp: near_price_def f turn_ok_def asleep_def)
qed

lemma safety_bar_ok:
  assumes "quiet s" "consistent s"
  shows "turn_ok (safety_bar c s)"
proof (cases "open_bracket s")
  case None
  then show ?thesis using quiet_turn [OF assms] by (simp add: safety_bar_def)
next
  case (Some b)
  have h: "holds b s" using open_bracket_holds(1) [OF assms(2), of b] Some by blast
  obtain legs s1 where f: "feed_bracket b (cd_h c) (cd_l c) None s = (legs, s1)" by (rule prod.exhaust)
  have h1: "holds b s1" using feed_holds [OF h, of "cd_h c" "cd_l c" None] f by simp
  have "asleep s s1" "asleep s (job_done b s1)"
    using asleep_pieces(6) [of s b "cd_h c" "cd_l c" None s] f by simp_all
  then show ?thesis
    using assms(1) h1 job_done_consistent [OF h1]
    by (auto simp: safety_bar_def Some f turn_ok_def asleep_def quiet_def)
qed

lemma intra_forming_ok:
  assumes "turn_ok s" "en_intra s = Intra_reading"
  shows "turn_ok (s\<lparr>en_intra := Intra_asleep\<rparr>)" and "turn_ok (intra_forming cfg c s)"
proof -
  have h: "consistent s" and q: "en_near s = Near_asleep" "en_safety s = Safety_waiting" "en_entry s = Entry_waiting"
    using assms by (auto simp: turn_ok_def)
  show "turn_ok (s\<lparr>en_intra := Intra_asleep\<rparr>)" using h q by (auto simp: turn_ok_def)
  obtain sigs s1 where e: "engine_evaluate cfg (en_candles s @ [c]) True s = (sigs, s1)" by (rule prod.exhaust)
  have "asleep s s1" using asleep_pieces(7) [of s cfg "en_candles s @ [c]" True s] e by simp
  then show "turn_ok (intra_forming cfg c s)"
    using evaluate_pending [OF h e] q
    by (cases "sigs = []") (auto simp: intra_forming_def e turn_ok_def asleep_def)
qed

lemma turn_step_ok:
  assumes "turn_ok s" "wakes e \<longrightarrow> quiet s" "\<not> insert_fails e" "engine_step cfg e s = Some s'"
  shows "turn_ok s'"
proof (cases e)
  case Near_wakes
  with assms turn_quiet [OF assms(1)] near_wakes_ok [of s] show ?thesis by (auto split: if_splits)
next
  case (Near_forming f)
  with assms near_forming_ok [OF assms(1)] show ?thesis by (auto split: near_pc.splits option.splits)
next
  case (Near_answer ok)
  with assms near_answer_ok [OF assms(1)] show ?thesis by (auto simp: Let_def split: near_pc.splits if_splits)
next
  case (Safety_bar c)
  with assms turn_quiet [OF assms(1)] safety_bar_ok [of s] show ?thesis by (auto split: if_splits)
next
  case (Safety_answer ok)
  with assms safety_answer_ok [OF assms(1)] show ?thesis by (auto simp: Let_def split: safety_pc.splits if_splits)
next
  case (Entry_bar c)
  with assms turn_quiet [OF assms(1)] entry_bar_ok [of s] show ?thesis by (auto split: if_splits)
next
  case (Entry_answer ok)
  with assms entry_answer_ok [OF assms(1)] entry_signal_ok [OF assms(1)] show ?thesis
    by (auto simp: Let_def split: entry_pc.splits if_splits)
next
  case Intra_wakes
  with assms turn_quiet [OF assms(1)] show ?thesis by (auto simp: turn_ok_def quiet_def split: if_splits)
next
  case (Intra_forming f)
  with assms intra_forming_ok [OF assms(1)] show ?thesis by (auto split: intra_pc.splits option.splits)
next
  case (Intra_answer ok)
  with assms intra_signal_ok [OF assms(1)] show ?thesis by (auto simp: Let_def split: intra_pc.splits if_splits)
qed

lemma takes_turns_ok: "takes_turns cfg s0 s \<Longrightarrow> turn_ok s0 \<Longrightarrow> turn_ok s"
  by (induction rule: takes_turns.induct) (simp, blast intro: turn_step_ok)

text \<open>
  When the loops take turns and the database accepts every insert, the position
  is consistent whenever the engine is at rest, from boot on and for any bars, prices and
  indicator: either it is flat with no bracket and no entry time, or it has a side, an entry
  time and a bracket that is open and was made for that side.
\<close>

theorem turns_keep_position:
  assumes "takes_turns cfg (boot cfg history minute_bars rows) s" "quiet s"
  shows "en_position s = flat_position \<or>
     (\<exists>side b. ps_side (en_position s) = Some side \<and> ps_bracket (en_position s) = Some b \<and>
        ps_entry_bar_time (en_position s) \<noteq> None \<and> b < length (en_brackets s) \<and>
        \<not> bk_closed (en_brackets s ! b) \<and> bk_d (en_brackets s ! b) = pside_direction side)"
proof -
  have "turn_ok (boot cfg history minute_bars rows)"
    by (rule quiet_turn [OF boot_quiet boot_consistent])
  from turn_quiet [OF takes_turns_ok [OF assms(1) this] assms(2)] show ?thesis
    by (auto simp: consistent_def holds_def)
qed

definition demo_turn :: engine where
  "demo_turn = the (engine_step demo_cfg (Safety_bar (flat_candle 7140000 51)) demo_boot)"

theorem turns_keep_position_witness:
  "quiet demo_turn \<and> ps_side (en_position demo_turn) = Some Long_side \<and>
   (\<exists>side b. ps_side (en_position demo_turn) = Some side \<and> ps_bracket (en_position demo_turn) = Some b \<and>
      \<not> bk_closed (en_brackets demo_turn ! b))"
proof -
  have q: "quiet demo_turn" "quiet demo_boot" and side: "ps_side (en_position demo_turn) = Some Long_side"
    by code_simp+
  have "engine_step demo_cfg (Safety_bar (flat_candle 7140000 51)) demo_boot \<noteq> None" by code_simp
  then have "engine_step demo_cfg (Safety_bar (flat_candle 7140000 51)) demo_boot = Some demo_turn"
    by (auto simp: demo_turn_def)
  then have "takes_turns demo_cfg demo_boot demo_turn"
    by (rule turn_step [OF turn_start, rotated -1]) (simp_all add: q)
  from turns_keep_position [OF this [unfolded demo_boot_def] q(1)] q side show ?thesis
    by (auto simp: flat_position_def)
qed

end
