(* ===== verification/Backtest.thy ===== *)
theory Backtest
  imports Prelude
begin

text \<open>
  \<open>strategy-tester/app/engine\<close>: the replay of a strategy over stored candles. The decision
  graph (ingest, analyze, guard, dispatch) is one function of the agent state; the language
  model behind \<open>node_analyze\<close> and the failure of the log insert are parameters, functions of
  the state they see. The tables of the \<open>tester\<close> schema are lists of rows, and a row's id is its
  position in its table where the program draws a fresh uuid.
\<close>

section \<open>Data\<close>

record bt_candle =
  bc_ts :: int
  bc_open :: rat
  bc_high :: rat
  bc_low :: rat
  bc_close :: rat

datatype sim_side = Sim_long | Sim_short

definition sim_side_name :: "sim_side \<Rightarrow> string" where
  "sim_side_name s = (case s of Sim_long \<Rightarrow> ''long'' | Sim_short \<Rightarrow> ''short'')"

record sim_position =
  sp_position_id :: nat
  sp_side :: sim_side
  sp_entry_price :: rat
  sp_size :: rat
  sp_sl_price :: "rat option"
  sp_tp_price :: "rat option"
  sp_fee_open :: rat
  sp_opened_at :: int
  sp_opened_idx :: nat
  sp_opening_order_id :: nat
  sp_leverage :: int

record open_intent =
  oi_side :: sim_side
  oi_triggered_at :: int
  oi_size :: rat
  oi_sl_price :: "rat option"
  oi_tp_price :: "rat option"

record close_intent =
  ci_triggered_at :: int

datatype hit_reason = Tp_hit | Sl_hit

type_synonym tpsl_hit = "rat \<times> hit_reason"

record trade_record =
  tr_net_pnl :: rat
  tr_side :: sim_side
  tr_closed_at :: int

text \<open>One row of \<open>tester.equity_curve\<close>: realized and mark balance, the trade's result, the drawdown.\<close>

record equity_row =
  eq_ts :: int
  eq_realized :: rat
  eq_mark :: rat
  eq_trade_pnl :: "rat option"
  eq_drawdown :: rat

record bt_engine =
  be_initial_balance :: rat
  be_current_balance :: rat
  be_slippage_pct :: rat
  be_fee_pct :: rat
  be_open_position :: "sim_position option"
  be_pending_open :: "open_intent option"
  be_pending_close :: "close_intent option"
  be_llm_failures :: nat
  be_candles_processed :: nat
  be_total_signals :: nat
  be_gate_passed :: nat
  be_peak :: rat
  be_equity_buffer :: "equity_row list"
  be_trades :: "trade_record list"
  be_fees_paid :: rat
  be_longs :: nat
  be_shorts :: nat

section \<open>The tables\<close>

datatype close_reason = Llm_close | Run_end | By_level hit_reason

record sim_order =
  so_ts :: int
  so_side :: string
  so_signal :: string
  so_size :: rat
  so_price :: rat
  so_pnl :: "rat option"
  so_fee :: rat

record position_record =
  pr_side :: sim_side
  pr_entry_price :: rat
  pr_size :: rat
  pr_fee_open :: rat
  pr_opening_order :: nat
  pr_opened_at :: int
  pr_close :: "(rat \<times> nat \<times> rat \<times> rat \<times> close_reason \<times> int) option"

record signal_log_row =
  sl_triggered_at :: int
  sl_action :: "string option"
  sl_confidence :: "rat option"
  sl_gate_passed :: bool
  sl_rejection :: "string option"

record bt_metrics =
  bm_total_trades :: nat
  bm_winning :: nat
  bm_losing :: nat
  bm_win_rate :: rat
  bm_total_pnl :: rat
  bm_total_pnl_pct :: rat
  bm_profit_factor :: "rat option"
  bm_max_drawdown :: rat
  bm_long_count :: nat
  bm_short_count :: nat
  bm_avg_win :: rat
  bm_avg_loss :: rat
  bm_largest_win :: rat
  bm_largest_loss :: rat
  bm_fees_paid :: rat

datatype run_status = Run_pending | Run_running | Run_completed | Run_failed | Run_cancelled | Run_aborted

record run_row =
  rr_timeframe :: string
  rr_initial_balance :: rat
  rr_slippage_pct :: rat
  rr_fee_pct :: rat
  rr_dry_signal_mode :: bool
  rr_status :: run_status
  rr_candles_processed :: nat
  rr_total_candles :: "nat option"
  rr_total_signals :: "nat option"
  rr_gate_passed :: "nat option"
  rr_llm_failures :: nat
  rr_llm_failure_rate :: "rat option"
  rr_metrics :: "bt_metrics option"

record tester_db =
  td_orders :: "sim_order list"
  td_positions :: "position_record list"
  td_equity :: "equity_row list"
  td_log :: "signal_log_row list"
  td_run :: run_row

text \<open>A running replay: the engine, its tables, and the mark balances seen so far.\<close>

record replay =
  rp_engine :: bt_engine
  rp_db :: tester_db
  rp_series :: "rat list"

section \<open>Low-level helpers\<close>

definition tf_ms :: "string \<Rightarrow> int option" where
  "tf_ms tf = map_of
     [(''1m'', 60000), (''3m'', 180000), (''5m'', 300000), (''15m'', 900000), (''30m'', 1800000), (''1h'', 3600000),
      (''2h'', 7200000), (''4h'', 14400000), (''8h'', 28800000), (''1d'', 86400000)] tf"

definition WARMUP_CANDLES :: nat where "WARMUP_CANDLES = 200"
definition WINDOW_SIZE :: nat where "WINDOW_SIZE = 200"
definition PROGRESS_EVERY :: nat where "PROGRESS_EVERY = 50"

text \<open>\<open>_compute_mark_pnl\<close> and \<open>_gross_pnl\<close> have the same body.\<close>

definition gross_pnl :: "sim_position \<Rightarrow> rat \<Rightarrow> rat" where
  "gross_pnl pos price =
     (if sp_side pos = Sim_long then (price - sp_entry_price pos) * sp_size pos * of_int (sp_leverage pos)
      else (sp_entry_price pos - price) * sp_size pos * of_int (sp_leverage pos))"

definition compute_mark_pnl :: "sim_position \<Rightarrow> rat \<Rightarrow> rat" where
  "compute_mark_pnl pos close =
     (if sp_side pos = Sim_long then (close - sp_entry_price pos) * sp_size pos * of_int (sp_leverage pos)
      else (sp_entry_price pos - close) * sp_size pos * of_int (sp_leverage pos))"

text \<open>A level counts when it is set and not zero, as Python's truth value has it.\<close>

definition level_set :: "rat option \<Rightarrow> bool" where
  "level_set p = (case p of None \<Rightarrow> False | Some x \<Rightarrow> x \<noteq> 0)"

definition tp_reached :: "sim_position \<Rightarrow> bt_candle \<Rightarrow> bool" where
  "tp_reached pos c = (level_set (sp_tp_price pos) \<and>
     (if sp_side pos = Sim_long then the (sp_tp_price pos) \<le> bc_high c else bc_low c \<le> the (sp_tp_price pos)))"

definition sl_reached :: "sim_position \<Rightarrow> bt_candle \<Rightarrow> bool" where
  "sl_reached pos c = (level_set (sp_sl_price pos) \<and>
     (if sp_side pos = Sim_long then bc_low c \<le> the (sp_sl_price pos) else the (sp_sl_price pos) \<le> bc_high c))"

definition check_tp_sl :: "sim_position \<Rightarrow> bt_candle \<Rightarrow> tpsl_hit option" where
  "check_tp_sl pos c =
     (if \<not> tp_reached pos c \<and> \<not> sl_reached pos c then None
      else if tp_reached pos c \<and> \<not> sl_reached pos c then Some (the (sp_tp_price pos), Tp_hit)
      else if sl_reached pos c \<and> \<not> tp_reached pos c then Some (the (sp_sl_price pos), Sl_hit)
      else if \<bar>sp_entry_price pos - the (sp_sl_price pos)\<bar> \<le> \<bar>sp_entry_price pos - the (sp_tp_price pos)\<bar>
           then Some (the (sp_sl_price pos), Sl_hit)
      else Some (the (sp_tp_price pos), Tp_hit))"

definition apply_close_slippage :: "rat \<Rightarrow> sim_side \<Rightarrow> rat \<Rightarrow> rat" where
  "apply_close_slippage price side slippage_pct =
     (if side = Sim_long then price * (1 - slippage_pct / 100) else price * (1 + slippage_pct / 100))"

section \<open>Writing the tables\<close>

definition write_open_order :: "bt_engine \<Rightarrow> rat \<Rightarrow> int \<Rightarrow> open_intent \<Rightarrow> tester_db \<Rightarrow> nat \<times> tester_db" where
  "write_open_order eng fill_price fill_ts intent db =
     (length (td_orders db),
      db\<lparr>td_orders := td_orders db @
        [\<lparr>so_ts = fill_ts, so_side = sim_side_name (oi_side intent),
          so_signal = ''open_'' @ sim_side_name (oi_side intent), so_size = oi_size intent, so_price = fill_price,
          so_pnl = None, so_fee = fill_price * oi_size intent * be_fee_pct eng / 100\<rparr>]\<rparr>)"

definition write_open_position :: "sim_position \<Rightarrow> int \<Rightarrow> tester_db \<Rightarrow> tester_db" where
  "write_open_position pos fill_ts db =
     db\<lparr>td_positions := td_positions db @
       [\<lparr>pr_side = sp_side pos, pr_entry_price = sp_entry_price pos, pr_size = sp_size pos,
         pr_fee_open = sp_fee_open pos, pr_opening_order = sp_opening_order_id pos, pr_opened_at = fill_ts,
         pr_close = None\<rparr>]\<rparr>"

definition write_close_order ::
  "sim_position \<Rightarrow> rat \<Rightarrow> int \<Rightarrow> rat \<Rightarrow> rat \<Rightarrow> tester_db \<Rightarrow> nat \<times> tester_db" where
  "write_close_order pos fill_price fill_ts net_pnl fee_close db =
     (length (td_orders db),
      db\<lparr>td_orders := td_orders db @
        [\<lparr>so_ts = fill_ts, so_side = (if sp_side pos = Sim_long then ''sell'' else ''buy''),
          so_signal = ''close_'' @ sim_side_name (sp_side pos), so_size = sp_size pos, so_price = fill_price,
          so_pnl = Some net_pnl, so_fee = fee_close\<rparr>]\<rparr>)"

definition write_close_position ::
  "sim_position \<Rightarrow> nat \<Rightarrow> rat \<Rightarrow> int \<Rightarrow> rat \<Rightarrow> rat \<Rightarrow> close_reason \<Rightarrow> tester_db \<Rightarrow> tester_db" where
  "write_close_position pos close_order fill_price fill_ts net_pnl fee_close reason db =
     db\<lparr>td_positions := (td_positions db)[sp_position_id pos :=
       (td_positions db ! sp_position_id pos)
         \<lparr>pr_close := Some (fill_price, close_order, net_pnl, fee_close, reason, fill_ts)\<rparr>]\<rparr>"

text \<open>The equity rows go in by batches; a row whose time is there already is dropped.\<close>

fun insert_equity :: "equity_row list \<Rightarrow> equity_row list \<Rightarrow> equity_row list" where
  "insert_equity [] rows = rows"
| "insert_equity (r # rs) rows = insert_equity rs (if eq_ts r \<in> eq_ts ` set rows then rows else rows @ [r])"

definition flush_equity_buffer :: "replay \<Rightarrow> replay" where
  "flush_equity_buffer s =
     (let buffer = be_equity_buffer (rp_engine s) in
      if buffer = [] then s
      else s\<lparr>rp_db := (rp_db s)\<lparr>td_equity := insert_equity buffer (td_equity (rp_db s))\<rparr>,
             rp_engine := (rp_engine s)\<lparr>be_equity_buffer := []\<rparr>\<rparr>)"

definition update_progress :: "nat \<Rightarrow> tester_db \<Rightarrow> tester_db" where
  "update_progress processed db = db\<lparr>td_run := (td_run db)\<lparr>rr_candles_processed := processed\<rparr>\<rparr>"

section \<open>Opening and closing\<close>

definition execute_pending_open :: "bt_candle \<Rightarrow> nat \<Rightarrow> replay \<Rightarrow> bool \<times> replay" where
  "execute_pending_open c idx s =
     (let eng = rp_engine s in
      case be_pending_open eng of
        None \<Rightarrow> (False, s)
      | Some intent \<Rightarrow>
          (let fill_price = (if oi_side intent = Sim_long then bc_open c * (1 + be_slippage_pct eng / 100)
                             else bc_open c * (1 - be_slippage_pct eng / 100));
               fee_open = fill_price * oi_size intent * be_fee_pct eng / 100
           in case write_open_order eng fill_price (bc_ts c) intent (rp_db s) of
                (order_id, db1) \<Rightarrow>
                  (let pos = \<lparr>sp_position_id = length (td_positions db1), sp_side = oi_side intent,
                              sp_entry_price = fill_price, sp_size = oi_size intent, sp_sl_price = oi_sl_price intent,
                              sp_tp_price = oi_tp_price intent, sp_fee_open = fee_open, sp_opened_at = bc_ts c,
                              sp_opened_idx = idx, sp_opening_order_id = order_id, sp_leverage = 1\<rparr>
                   in (True, s\<lparr>rp_db := write_open_position pos (bc_ts c) db1,
                               rp_engine := eng\<lparr>be_pending_open := None,
                                                be_current_balance := be_current_balance eng - fee_open,
                                                be_open_position := Some pos\<rparr>\<rparr>))))"

text \<open>Closing the open position; the result is appended to the trades of this candle.\<close>

definition execute_close ::
  "rat \<Rightarrow> int \<Rightarrow> close_reason \<Rightarrow> sim_position \<Rightarrow> replay \<times> rat list \<Rightarrow> replay \<times> rat list" where
  "execute_close fill_price fill_ts reason pos st =
     (case st of (s, trade_pnl_out) \<Rightarrow>
       (let eng = rp_engine s;
            slipped = apply_close_slippage fill_price (sp_side pos) (be_slippage_pct eng);
            gross = gross_pnl pos slipped;
            fee_c = slipped * sp_size pos * be_fee_pct eng / 100;
            true_net = gross - sp_fee_open pos - fee_c
        in case write_close_order pos slipped fill_ts true_net fee_c (rp_db s) of
             (order_id, db1) \<Rightarrow>
               (s\<lparr>rp_db := write_close_position pos order_id slipped fill_ts true_net fee_c reason db1,
                  rp_engine := eng
                    \<lparr>be_current_balance := be_current_balance eng + (gross - fee_c),
                     be_fees_paid := be_fees_paid eng + (sp_fee_open pos + fee_c),
                     be_trades := be_trades eng @ [\<lparr>tr_net_pnl = true_net, tr_side = sp_side pos, tr_closed_at = fill_ts\<rparr>],
                     be_longs := be_longs eng + (if sp_side pos = Sim_long then 1 else 0),
                     be_shorts := be_shorts eng + (if sp_side pos = Sim_long then 0 else 1),
                     be_open_position := None, be_pending_close := None\<rparr>\<rparr>,
                trade_pnl_out @ [true_net])))"

definition execute_pending_close :: "bt_candle \<Rightarrow> replay \<times> rat list \<Rightarrow> replay \<times> rat list" where
  "execute_pending_close c st =
     (case st of (s, out) \<Rightarrow>
       (case (be_pending_close (rp_engine s), be_open_position (rp_engine s)) of
          (Some _, Some pos) \<Rightarrow> execute_close (bc_open c) (bc_ts c) Llm_close pos (s, out)
        | _ \<Rightarrow> (s\<lparr>rp_engine := (rp_engine s)\<lparr>be_pending_close := None\<rparr>\<rparr>, out)))"

end
