(* ===== verification/BacktestGraph.thy ===== *)
theory BacktestGraph
  imports Backtest
begin

text \<open>
  The decision graph of a replayed candle: \<open>node_ingest_replay.py\<close>, \<open>node_analyze_sim.py\<close> with
  the \<open>node_analyze\<close> it wraps, \<open>node_guard_sim.py\<close>, \<open>node_dispatch_sim.py\<close>, and their
  composition \<open>graph/graph_sim.py\<close>.
\<close>

section \<open>Configuration and agent state\<close>

text \<open>The columns of the strategy and its risk row that the replay reads; any may be null.\<close>

record strategy_columns =
  sx_use_technical :: "bool option"
  sx_confidence_threshold :: "rat option"
  sx_cooldown_entry :: "int option"
  sx_cooldown_stop_adj :: "int option"
  sx_max_position_size_pct :: "rat option"

record strategy_config =
  sc_use_technical :: bool
  sc_confidence_threshold :: rat
  sc_cooldown_entry :: int
  sc_cooldown_stop_adj :: int
  sc_dry_signal_mode :: bool
  sc_max_position_size_pct :: rat

text \<open>\<open>x or d\<close> on a number: missing and zero both give the default.\<close>

definition or_default :: "rat option \<Rightarrow> rat \<Rightarrow> rat" where
  "or_default x d = (case x of None \<Rightarrow> d | Some v \<Rightarrow> if v = 0 then d else v)"

definition strategy_config_of :: "strategy_columns \<Rightarrow> run_row \<Rightarrow> strategy_config" where
  "strategy_config_of sx run =
     \<lparr>sc_use_technical = (case sx_use_technical sx of None \<Rightarrow> True | Some b \<Rightarrow> b),
      sc_confidence_threshold = or_default (sx_confidence_threshold sx) (72/100),
      sc_cooldown_entry = (case sx_cooldown_entry sx of None \<Rightarrow> 240 | Some m \<Rightarrow> m),
      sc_cooldown_stop_adj = (case sx_cooldown_stop_adj sx of None \<Rightarrow> 30 | Some m \<Rightarrow> m),
      sc_dry_signal_mode = rr_dry_signal_mode run,
      sc_max_position_size_pct = or_default (sx_max_position_size_pct sx) 5\<rparr>"

record llm_signal =
  ls_action :: string
  ls_confidence :: rat
  ls_size_pct :: rat
  ls_stop_loss_pct :: rat
  ls_take_profit_pct :: rat

record ohlcv_data =
  od_current_price :: rat
  od_change_24h :: rat
  od_change_7d :: rat

record agent_state =
  ag_config :: strategy_config
  ag_cycle_interval :: string
  ag_position :: "sim_position option"
  ag_simulated_now :: int
  ag_sim_balance :: rat
  ag_sim_pnl_today :: rat
  ag_window :: "bt_candle list"
  ag_ohlcv :: "ohlcv_data option"
  ag_llm_signal :: "llm_signal option"
  ag_gate_passed :: bool
  ag_rejection :: "string option"
  ag_resolved_size :: "rat option"
  ag_resolved_sl :: "rat option"
  ag_resolved_tp :: "rat option"
  ag_sim_action :: "string option"

section \<open>Ingest\<close>

definition tf_seconds :: "string \<Rightarrow> int" where
  "tf_seconds tf = (case map_of
     [(''1m'', 60), (''3m'', 180), (''5m'', 300), (''15m'', 900), (''30m'', 1800), (''1h'', 3600),
      (''2h'', 7200), (''4h'', 14400), (''8h'', 28800), (''1d'', 86400)] tf of None \<Rightarrow> 3600 | Some s \<Rightarrow> s)"

definition pct_change :: "bt_candle list \<Rightarrow> nat \<Rightarrow> rat" where
  "pct_change candles back =
     (if length candles \<le> back then 0
      else let cur = bc_close (List.last candles); past = bc_close (candles ! (length candles - back - 1))
           in if past = 0 then 0 else py_round ((cur - past) / past * 100) 2)"

definition node_ingest_replay :: "agent_state \<Rightarrow> agent_state" where
  "node_ingest_replay a =
     (if sc_use_technical (ag_config a) \<and> ag_window a \<noteq> []
      then (let per_day = nat (max 1 (86400 div tf_seconds (ag_cycle_interval a))) in
            a\<lparr>ag_ohlcv := Some \<lparr>od_current_price = bc_close (List.last (ag_window a)),
                               od_change_24h = pct_change (ag_window a) per_day,
                               od_change_7d = pct_change (ag_window a) (per_day * 7)\<rparr>\<rparr>)
      else a\<lparr>ag_ohlcv := None\<rparr>)"

section \<open>Analyze\<close>

text \<open>The call of the language model: it raises (or times out), its answer does not parse, or it parses.\<close>

datatype llm_answer = Llm_raised | Llm_unparsed | Llm_parsed llm_signal

definition node_analyze :: "(agent_state \<Rightarrow> llm_answer) \<Rightarrow> agent_state \<Rightarrow> agent_state" where
  "node_analyze llm a =
     a\<lparr>ag_llm_signal := (case llm a of Llm_raised \<Rightarrow> None | Llm_unparsed \<Rightarrow> None | Llm_parsed s \<Rightarrow> Some s)\<rparr>"

definition CLOSE_AFTER_CANDLES :: int where "CLOSE_AFTER_CANDLES = 13"

definition dry_signal :: "string \<Rightarrow> rat \<Rightarrow> rat \<Rightarrow> rat \<Rightarrow> rat \<Rightarrow> llm_signal" where
  "dry_signal action conf pct sl tp =
     \<lparr>ls_action = action, ls_confidence = conf, ls_size_pct = pct, ls_stop_loss_pct = sl, ls_take_profit_pct = tp\<rparr>"

text \<open>Times are milliseconds here and seconds there; candle times are whole seconds.\<close>

definition varied_dry_signal :: "agent_state \<Rightarrow> llm_signal" where
  "varied_dry_signal a =
     (let tf_secs = tf_seconds (ag_cycle_interval a) in
      case ag_position a of
        Some pos \<Rightarrow>
          (let held = py_int (of_int (ag_simulated_now a - sp_opened_at pos) / 1000 / of_int tf_secs) in
           if CLOSE_AFTER_CANDLES \<le> held
           then dry_signal (if sp_side pos = Sim_long then ''close_long'' else ''close_short'') (85/100) 100 0 0
           else dry_signal ''hold'' (50/100) 0 0 0)
      | None \<Rightarrow>
          (let idx = py_int (of_int (ag_simulated_now a) / 1000) div tf_secs in
           if idx mod 12 = 0 then dry_signal ''open_long'' (85/100) 5 2 4
           else if idx mod 37 = 0 then dry_signal ''open_short'' (85/100) 5 2 4
           else dry_signal ''hold'' (50/100) 0 0 0))"

definition node_analyze_sim :: "(agent_state \<Rightarrow> llm_answer) \<Rightarrow> agent_state \<Rightarrow> agent_state" where
  "node_analyze_sim llm a =
     (if sc_dry_signal_mode (ag_config a) then a\<lparr>ag_llm_signal := Some (varied_dry_signal a)\<rparr>
      else node_analyze llm a)"

section \<open>Guard\<close>

definition MIN_SL_TP_PCT :: rat where "MIN_SL_TP_PCT = 5/100"
definition MAX_SL_TP_PCT :: rat where "MAX_SL_TP_PCT = 50"

definition action_cooldown :: "string \<Rightarrow> strategy_config \<Rightarrow> int option" where
  "action_cooldown action sc =
     (if action \<in> {''open_long'', ''open_short'', ''partial_close''} then Some (sc_cooldown_entry sc)
      else if action = ''adjust_stops'' then Some (sc_cooldown_stop_adj sc) else None)"

definition reject :: "string \<Rightarrow> agent_state \<Rightarrow> agent_state" where
  "reject reason a = a\<lparr>ag_gate_passed := False, ag_rejection := Some reason\<rparr>"

text \<open>The query for a passed signal of the same action inside the cooldown; when it raises, the guard goes on.\<close>

definition in_cooldown :: "signal_log_row list \<Rightarrow> string \<Rightarrow> int \<Rightarrow> int \<Rightarrow> bool" where
  "in_cooldown rows action minutes now =
     list_ex (\<lambda>r. sl_action r = Some action \<and> sl_gate_passed r \<and> now - minutes * 60000 \<le> sl_triggered_at r \<and> sl_triggered_at r < now) rows"

text \<open>Step 7: the size and the levels of an opening.\<close>

definition resolve_open :: "llm_signal \<Rightarrow> agent_state \<Rightarrow> agent_state" where
  "resolve_open sig a =
     (let size_pct = min (ls_size_pct sig) (or_default (Some (sc_max_position_size_pct (ag_config a))) 5);
          usdt_alloc = ag_sim_balance a * size_pct / 100;
          current_price = (case ag_ohlcv a of None \<Rightarrow> 0 | Some o' \<Rightarrow> od_current_price o');
          sl_pct = \<bar>ls_stop_loss_pct sig\<bar>; tp_pct = \<bar>ls_take_profit_pct sig\<bar>
      in if current_price \<le> 0 then reject ''size_resolution_failed'' a
         else if \<not> (MIN_SL_TP_PCT \<le> sl_pct \<and> sl_pct \<le> MAX_SL_TP_PCT) \<or> \<not> (MIN_SL_TP_PCT \<le> tp_pct \<and> tp_pct \<le> MAX_SL_TP_PCT)
         then reject ''sl_tp_pct_out_of_range'' a
         else a\<lparr>ag_gate_passed := True, ag_rejection := None,
                ag_resolved_size := Some (py_round (usdt_alloc / current_price) 8),
                ag_resolved_sl := Some (py_round (if ls_action sig = ''open_long'' then current_price * (1 - sl_pct / 100)
                                                  else current_price * (1 + sl_pct / 100)) 4),
                ag_resolved_tp := Some (py_round (if ls_action sig = ''open_long'' then current_price * (1 + tp_pct / 100)
                                                  else current_price * (1 - tp_pct / 100)) 4)\<rparr>)"

definition node_guard_sim :: "(agent_state \<Rightarrow> bool) \<Rightarrow> signal_log_row list \<Rightarrow> agent_state \<Rightarrow> agent_state" where
  "node_guard_sim query_fails rows a =
     (case ag_llm_signal a of
        None \<Rightarrow> reject ''llm_failed'' a
      | Some sig \<Rightarrow>
          (let action = ls_action sig; sc = ag_config a in
           if action = ''partial_close'' then reject ''partial_close_not_supported_in_sim'' a
           else if action \<in> {''hold'', ''adjust_stops''} then reject ''hold_or_adjust'' a
           else if ls_confidence sig < or_default (Some (sc_confidence_threshold sc)) (72/100)
           then reject ''confidence_below_threshold'' a
           else if action \<in> {''open_long'', ''open_short''} \<and> ag_position a \<noteq> None then reject ''position_already_open'' a
           else if action \<in> {''close_long'', ''close_short''} \<and> ag_position a = None then reject ''no_position_to_close'' a
           else if (case action_cooldown action sc of
                      None \<Rightarrow> False
                    | Some minutes \<Rightarrow> \<not> query_fails a \<and> in_cooldown rows action minutes (ag_simulated_now a))
           then reject ''cooldown_active'' a
           else if action \<in> {''open_long'', ''open_short''} then resolve_open sig a
           else a\<lparr>ag_gate_passed := True, ag_rejection := None,
                  ag_resolved_size := Some (or_default (map_option sp_size (ag_position a)) (1/100)),
                  ag_resolved_sl := None, ag_resolved_tp := None\<rparr>))"

section \<open>Dispatch\<close>

definition node_dispatch_sim :: "agent_state \<Rightarrow> tester_db \<Rightarrow> agent_state \<times> tester_db" where
  "node_dispatch_sim a db =
     (let action = map_option ls_action (ag_llm_signal a);
          db1 = db\<lparr>td_log := td_log db @
            [\<lparr>sl_triggered_at = ag_simulated_now a, sl_action = action,
              sl_confidence = map_option ls_confidence (ag_llm_signal a),
              sl_gate_passed = ag_gate_passed a, sl_rejection = ag_rejection a\<rparr>]\<rparr>
      in if \<not> ag_gate_passed a \<or> action \<in> {Some ''hold'', Some ''adjust_stops'', Some ''partial_close''}
         then (a\<lparr>ag_sim_action := None\<rparr>, db1)
         else (a\<lparr>ag_sim_action := action\<rparr>, db1))"

section \<open>The graph\<close>

text \<open>
  What the replay does not control: the model's answers, whether the cooldown query raises,
  whether the insert of the log row raises (which fails the whole invocation), and whether the
  run is cancelled while the graph is at work.
\<close>

record bt_world =
  bw_llm :: "agent_state \<Rightarrow> llm_answer"
  bw_query_fails :: "agent_state \<Rightarrow> bool"
  bw_insert_fails :: "agent_state \<Rightarrow> bool"
  bw_cancelled :: "agent_state \<Rightarrow> bool"

datatype graph_outcome = Graph_cancelled | Graph_raised | Graph_ended agent_state tester_db

definition run_graph :: "bt_world \<Rightarrow> agent_state \<Rightarrow> tester_db \<Rightarrow> graph_outcome" where
  "run_graph w a0 db =
     (let a1 = node_analyze_sim (bw_llm w) (node_ingest_replay a0);
          a2 = node_guard_sim (bw_query_fails w) (td_log db) a1
      in if bw_cancelled w a0 then Graph_cancelled
         else if bw_insert_fails w a2 then Graph_raised
         else (case node_dispatch_sim a2 db of (a3, db1) \<Rightarrow> Graph_ended a3 db1))"

end
