(* ===== verification/BacktestRun.thy ===== *)
theory BacktestRun
  imports BacktestGraph
begin

text \<open>
  The candle loop of \<open>backtest_engine.py\<close>, the aggregate metrics and the life of a run. A run
  that stops early keeps what it has written: an abort, a failure or a cancellation carries the
  tables as they were.
\<close>

section \<open>Metrics\<close>

text \<open>\<open>statistics.mean\<close> of a list that is not empty; the Sharpe approximation (a square root) is left out.\<close>

definition mean_of :: "rat list \<Rightarrow> rat" where
  "mean_of xs = sum_list xs / of_nat (length xs)"

definition drawdown_pct :: "rat \<Rightarrow> rat \<Rightarrow> rat" where
  "drawdown_pct peak b = (if 0 < peak then (peak - b) / peak * 100 else 0)"

text \<open>One step of the loop over the mark balances: the peak, and the largest drawdown so far.\<close>

definition dd_step :: "rat \<Rightarrow> rat \<times> rat \<Rightarrow> rat \<times> rat" where
  "dd_step b st =
     (case st of (peak, max_dd) \<Rightarrow>
        let peak1 = (if peak < b then b else peak)
        in (peak1, if 0 < peak1 \<and> max_dd < (peak1 - b) / peak1 * 100 then (peak1 - b) / peak1 * 100 else max_dd))"

definition max_drawdown :: "rat \<Rightarrow> rat list \<Rightarrow> rat" where
  "max_drawdown initial series =
     snd (fold dd_step series (case series of [] \<Rightarrow> initial | b # _ \<Rightarrow> b, 0))"

definition compute_metrics :: "bt_engine \<Rightarrow> rat list \<Rightarrow> bt_metrics result" where
  "compute_metrics eng series =
     (let trades = be_trades eng; n = length trades;
          wins = filter (\<lambda>p. 0 < p) (map tr_net_pnl trades);
          losses = filter (\<lambda>p. p \<le> 0) (map tr_net_pnl trades);
          total = sum_list (map tr_net_pnl trades);
          initial = be_initial_balance eng
      in if losses \<noteq> [] \<and> 0 < sum_list wins \<and> sum_list losses = 0 \<or> initial = 0 \<and> trades \<noteq> [] then Inl ZeroDivisionError
         else Inr
           \<lparr>bm_total_trades = n, bm_winning = length wins, bm_losing = length losses,
            bm_win_rate = py_round (if n = 0 then 0 else of_nat (length wins) / of_nat n * 100) 2,
            bm_total_pnl = py_round total 8,
            bm_total_pnl_pct = py_round (if initial = 0 then 0 else total / initial * 100) 4,
            bm_profit_factor = (if losses \<noteq> [] \<and> 0 < sum_list wins then Some (py_round (sum_list wins / \<bar>sum_list losses\<bar>) 4) else None),
            bm_max_drawdown = py_round (max_drawdown initial series) 4,
            bm_long_count = be_longs eng, bm_short_count = be_shorts eng,
            bm_avg_win = py_round (if wins = [] then 0 else mean_of wins) 8,
            bm_avg_loss = py_round (if losses = [] then 0 else mean_of losses) 8,
            bm_largest_win = (if wins = [] then 0 else py_round (Max (set wins)) 8),
            bm_largest_loss = (if losses = [] then 0 else py_round (Min (set losses)) 8),
            bm_fees_paid = py_round (be_fees_paid eng) 8\<rparr>)"

section \<open>One candle\<close>

record bt_settings =
  bs_failure_threshold :: rat
  bs_insert_batch :: nat

datatype bt_stop = Stop_cancelled | Stop_aborted | Stop_failed py_error

text \<open>A stage of the loop: it goes on with a replay, or stops the run where it was.\<close>

type_synonym staged = "(bt_stop \<times> replay) + replay"

text \<open>Steps 1 and 2: the pending intents at the open, then the levels of a position not opened just now.\<close>

definition fill_pending :: "bt_candle \<Rightarrow> nat \<Rightarrow> replay \<Rightarrow> bool \<times> replay \<times> rat list" where
  "fill_pending c idx s =
     (case execute_pending_open c idx s of
        (True, s1) \<Rightarrow> (True, s1, [])
      | (False, s1) \<Rightarrow> (False, execute_pending_close c (s1, [])))"

definition check_levels :: "bt_candle \<Rightarrow> nat \<Rightarrow> bool \<Rightarrow> replay \<times> rat list \<Rightarrow> replay \<times> rat list" where
  "check_levels c idx just_opened st =
     (case be_open_position (rp_engine (fst st)) of
        None \<Rightarrow> st
      | Some pos \<Rightarrow>
          if \<not> just_opened \<and> sp_opened_idx pos < idx
          then (case check_tp_sl pos c of
                  None \<Rightarrow> st
                | Some (level, reason) \<Rightarrow> execute_close level (bc_ts c) (By_level reason) pos st)
          else st)"

text \<open>Step 3: the agent state, over the window that ends at this candle.\<close>

definition candle_window :: "bt_candle list \<Rightarrow> nat \<Rightarrow> bt_candle list" where
  "candle_window candles idx = (let start = idx + 1 - WINDOW_SIZE in take (idx + 1 - start) (drop start candles))"

text \<open>The results of the last simulated day, in per cent of the initial balance.\<close>

definition pnl_today :: "bt_engine \<Rightarrow> int \<Rightarrow> rat result" where
  "pnl_today eng now =
     (let recent = filter (\<lambda>t. now - 86400000 \<le> tr_closed_at t) (be_trades eng) in
      if recent \<noteq> [] \<and> be_initial_balance eng = 0 then Inl ZeroDivisionError
      else Inr (sum_list (map (\<lambda>t. tr_net_pnl t / be_initial_balance eng * 100) recent)))"

definition agent_state_of :: "strategy_config \<Rightarrow> string \<Rightarrow> bt_candle list \<Rightarrow> nat \<Rightarrow> int \<Rightarrow> rat \<Rightarrow> bt_engine \<Rightarrow> agent_state" where
  "agent_state_of sc timeframe candles idx now pnl eng =
     \<lparr>ag_config = sc, ag_cycle_interval = timeframe, ag_position = be_open_position eng, ag_simulated_now = now,
      ag_sim_balance = be_current_balance eng, ag_sim_pnl_today = pnl, ag_window = candle_window candles idx,
      ag_ohlcv = None, ag_llm_signal = None, ag_gate_passed = False, ag_rejection = None, ag_resolved_size = None,
      ag_resolved_sl = None, ag_resolved_tp = None, ag_sim_action = None\<rparr>"

text \<open>Step 5: the intent, filled on the next candle.\<close>

definition record_intent :: "agent_state \<Rightarrow> int \<Rightarrow> bt_engine \<Rightarrow> bt_engine" where
  "record_intent a now eng =
     (if \<not> ag_gate_passed a then eng
      else
        (let eng1 = eng\<lparr>be_gate_passed := be_gate_passed eng + 1\<rparr>; action = ag_sim_action a in
         if action \<in> {Some ''open_long'', Some ''open_short''} \<and> be_open_position eng1 = None
         then eng1\<lparr>be_pending_open := Some
                \<lparr>oi_side = (if action = Some ''open_long'' then Sim_long else Sim_short), oi_triggered_at = now,
                 oi_size = or_zero (ag_resolved_size a), oi_sl_price = ag_resolved_sl a, oi_tp_price = ag_resolved_tp a\<rparr>\<rparr>
         else if action \<in> {Some ''close_long'', Some ''close_short''} \<and> be_open_position eng1 \<noteq> None
         then eng1\<lparr>be_pending_close := Some \<lparr>ci_triggered_at = now\<rparr>\<rparr>
         else eng1))"

text \<open>Step 6: the equity row of the candle, and the batch written when it is full.\<close>

definition mark_balance :: "bt_engine \<Rightarrow> rat \<Rightarrow> rat" where
  "mark_balance eng close =
     be_current_balance eng + (case be_open_position eng of None \<Rightarrow> 0 | Some pos \<Rightarrow> compute_mark_pnl pos close)"

definition equity_step :: "bt_settings \<Rightarrow> bt_candle \<Rightarrow> rat option \<Rightarrow> replay \<Rightarrow> replay" where
  "equity_step cfg c trade_pnl s =
     (let eng = rp_engine s; mark = mark_balance eng (bc_close c); peak = max (be_peak eng) mark;
          row = \<lparr>eq_ts = bc_ts c, eq_realized = be_current_balance eng, eq_mark = mark, eq_trade_pnl = trade_pnl,
                 eq_drawdown = py_round (drawdown_pct peak mark) 4\<rparr>;
          s1 = s\<lparr>rp_engine := eng\<lparr>be_peak := peak, be_equity_buffer := be_equity_buffer eng @ [row],
                                  be_candles_processed := be_candles_processed eng + 1\<rparr>,
                 rp_series := rp_series s @ [mark]\<rparr>
      in if bs_insert_batch cfg \<le> length (be_equity_buffer (rp_engine s1)) then flush_equity_buffer s1 else s1)"

text \<open>The failure branch of step 4: count it, and abort past the threshold after a hundred candles.\<close>

definition graph_failure :: "bt_settings \<Rightarrow> bt_candle \<Rightarrow> replay \<Rightarrow> staged" where
  "graph_failure cfg c s =
     (let s1 = s\<lparr>rp_engine := (rp_engine s)\<lparr>be_llm_failures := be_llm_failures (rp_engine s) + 1\<rparr>\<rparr>;
          eng = rp_engine s1
      in if 100 \<le> be_candles_processed eng
            \<and> bs_failure_threshold cfg < of_nat (be_llm_failures eng) / of_nat (be_candles_processed eng)
         then Inl (Stop_aborted, s1) else Inr (equity_step cfg c None s1))"

definition candle_ok :: "bt_settings \<Rightarrow> bt_candle \<Rightarrow> rat list \<Rightarrow> agent_state \<Rightarrow> replay \<Rightarrow> replay" where
  "candle_ok cfg c trade_pnl a s =
     (let s1 = s\<lparr>rp_engine := record_intent a (bc_ts c) (rp_engine s)\<rparr>;
          s2 = equity_step cfg c (case trade_pnl of [] \<Rightarrow> None | p # _ \<Rightarrow> Some p) s1
      in if be_candles_processed (rp_engine s2) mod PROGRESS_EVERY = 0
         then s2\<lparr>rp_db := update_progress (be_candles_processed (rp_engine s2)) (rp_db s2)\<rparr> else s2)"

definition candle_step ::
  "bt_settings \<Rightarrow> bt_world \<Rightarrow> strategy_config \<Rightarrow> string \<Rightarrow> bt_candle list \<Rightarrow> nat \<Rightarrow> replay \<Rightarrow> staged" where
  "candle_step cfg w sc timeframe candles idx s =
     (let c = candles ! idx in
      case fill_pending c idx s of
        (just_opened, st) \<Rightarrow>
          (case check_levels c idx just_opened st of
             (s2, trade_pnl) \<Rightarrow>
               (case pnl_today (rp_engine s2) (bc_ts c) of
                  Inl e \<Rightarrow> Inl (Stop_failed e, s2)
                | Inr pnl \<Rightarrow>
                    (let a = agent_state_of sc timeframe candles idx (bc_ts c) pnl (rp_engine s2);
                         s3 = s2\<lparr>rp_engine := (rp_engine s2)\<lparr>be_total_signals := be_total_signals (rp_engine s2) + 1\<rparr>\<rparr>
                     in case run_graph w a (rp_db s3) of
                          Graph_cancelled \<Rightarrow> Inl (Stop_cancelled, s3)
                        | Graph_raised \<Rightarrow> graph_failure cfg c s3
                        | Graph_ended a1 db1 \<Rightarrow> Inr (candle_ok cfg c trade_pnl a1 (s3\<lparr>rp_db := db1\<rparr>))))))"

fun candle_loop ::
  "bt_settings \<Rightarrow> bt_world \<Rightarrow> strategy_config \<Rightarrow> string \<Rightarrow> bt_candle list \<Rightarrow> nat list \<Rightarrow> replay \<Rightarrow> staged" where
  "candle_loop cfg w sc timeframe candles [] s = Inr s"
| "candle_loop cfg w sc timeframe candles (i # is) s =
     (case candle_step cfg w sc timeframe candles i s of
        Inl stop \<Rightarrow> Inl stop
      | Inr s1 \<Rightarrow> candle_loop cfg w sc timeframe candles is s1)"

section \<open>A run\<close>

definition new_engine :: "run_row \<Rightarrow> bt_engine" where
  "new_engine run =
     \<lparr>be_initial_balance = rr_initial_balance run, be_current_balance = rr_initial_balance run,
      be_slippage_pct = rr_slippage_pct run, be_fee_pct = rr_fee_pct run, be_open_position = None,
      be_pending_open = None, be_pending_close = None, be_llm_failures = 0, be_candles_processed = 0,
      be_total_signals = 0, be_gate_passed = 0, be_peak = rr_initial_balance run, be_equity_buffer = [],
      be_trades = [], be_fees_paid = 0, be_longs = 0, be_shorts = 0\<rparr>"

definition set_run :: "(run_row \<Rightarrow> run_row) \<Rightarrow> replay \<Rightarrow> replay" where
  "set_run f s = s\<lparr>rp_db := (rp_db s)\<lparr>td_run := f (td_run (rp_db s))\<rparr>\<rparr>"

text \<open>After the loop: a position still open is closed at the last close, and the rest of the rows go in.\<close>

definition close_at_end :: "bt_candle \<Rightarrow> replay \<Rightarrow> replay" where
  "close_at_end c s =
     (case be_open_position (rp_engine s) of
        None \<Rightarrow> s
      | Some pos \<Rightarrow> fst (execute_close (bc_close c) (bc_ts c) Run_end pos (s, [])))"

definition finish_run :: "nat \<Rightarrow> replay \<Rightarrow> staged" where
  "finish_run n_active s =
     (case compute_metrics (rp_engine s) (rp_series s) of
        Inl e \<Rightarrow> Inl (Stop_failed e, s)
      | Inr m \<Rightarrow>
          (let eng = rp_engine s in
           Inr (set_run (\<lambda>r. r\<lparr>rr_status := Run_completed, rr_candles_processed := be_candles_processed eng,
                             rr_total_candles := Some n_active, rr_total_signals := Some (be_total_signals eng),
                             rr_gate_passed := Some (be_gate_passed eng), rr_llm_failures := be_llm_failures eng,
                             rr_llm_failure_rate := Some (if be_total_signals eng = 0 then 0
                               else py_round (of_nat (be_llm_failures eng) / of_nat (be_total_signals eng) * 100) 2),
                             rr_metrics := Some m\<rparr>) s)))"

text \<open>The candles of a run: those the cache holds, or holds after a fetch when it had too few.\<close>

definition run_candles :: "bt_candle list \<Rightarrow> bt_candle list \<Rightarrow> bt_candle list" where
  "run_candles cached refetched = (if length cached < WARMUP_CANDLES + 10 then refetched else cached)"

definition start_run :: "tester_db \<Rightarrow> replay" where
  "start_run db = set_run (\<lambda>r. r\<lparr>rr_status := Run_running\<rparr>)
     \<lparr>rp_engine = new_engine (td_run db), rp_db = db, rp_series = []\<rparr>"

definition start_loop :: "nat \<Rightarrow> tester_db \<Rightarrow> replay" where
  "start_loop n_active db = set_run (\<lambda>r. r\<lparr>rr_total_candles := Some n_active\<rparr>) (start_run db)"

definition execute_run ::
  "bt_settings \<Rightarrow> bt_world \<Rightarrow> strategy_columns \<Rightarrow> bt_candle list \<Rightarrow> bt_candle list \<Rightarrow> tester_db \<Rightarrow> staged" where
  "execute_run cfg w sx cached refetched db =
     (let candles = run_candles cached refetched; n_active = length candles - WARMUP_CANDLES in
      if length candles < WARMUP_CANDLES + 10
      then Inr (set_run (\<lambda>r. r\<lparr>rr_status := Run_failed\<rparr>) (start_run db))
      else
        (case candle_loop cfg w (strategy_config_of sx (td_run db)) (rr_timeframe (td_run db)) candles
                [WARMUP_CANDLES..<length candles] (start_loop n_active db) of
           Inl stop \<Rightarrow> Inl stop
         | Inr s \<Rightarrow> finish_run n_active (flush_equity_buffer (close_at_end (List.last candles) s))))"

text \<open>
  \<open>run_backtest\<close>: what each way of stopping leaves in the row of the run. The failure rate of
  an aborted run is computed from the counters the row holds.
\<close>

definition run_backtest ::
  "bt_settings \<Rightarrow> bt_world \<Rightarrow> strategy_columns \<Rightarrow> bt_candle list \<Rightarrow> bt_candle list \<Rightarrow> tester_db \<Rightarrow> replay" where
  "run_backtest cfg w sx cached refetched db =
     (case execute_run cfg w sx cached refetched db of
        Inr s \<Rightarrow> s
      | Inl (Stop_cancelled, s) \<Rightarrow> set_run (\<lambda>r. r\<lparr>rr_status := Run_cancelled\<rparr>) s
      | Inl (Stop_aborted, s) \<Rightarrow>
          set_run (\<lambda>r. r\<lparr>rr_status := Run_aborted,
                        rr_llm_failure_rate := Some (case rr_total_signals r of
                            None \<Rightarrow> 0
                          | Some t \<Rightarrow> if t = 0 then 0 else py_round (of_nat (rr_llm_failures r) / of_nat t * 100) 2)\<rparr>) s
      | Inl (Stop_failed e, s) \<Rightarrow> set_run (\<lambda>r. r\<lparr>rr_status := Run_failed\<rparr>) s)"

end
