(* ===== verification/BacktestSafety.thy ===== *)
theory BacktestSafety
  imports BacktestRun
begin

text \<open>
  What a replay keeps: it does not look ahead, its balance is the sum of its trades, a position
  closes later than it opens, and the tables agree with the engine.
\<close>

section \<open>No look-ahead\<close>

lemma candle_window_prefix:
  assumes "take n candles = take n candles'" "i < n"
  shows "candle_window candles i = candle_window candles' i"
proof -
  have "take (i + 1 - k) (drop k candles) = drop k (take (i + 1) candles)" for k and candles :: "bt_candle list"
    by (simp add: drop_take)
  moreover have "take (i + 1) candles = take (i + 1) candles'"
    using assms by (metis Suc_eq_plus1 Suc_leI min.absorb_iff1 take_take)
  ultimately show ?thesis by (simp add: candle_window_def Let_def)
qed

lemma nth_prefix: "take n xs = take n ys \<Longrightarrow> i < n \<Longrightarrow> xs ! i = ys ! i"
  by (metis nth_take)

lemma candle_step_prefix:
  assumes "take n candles = take n candles'" "i < n"
  shows "candle_step cfg w sc tf candles i s = candle_step cfg w sc tf candles' i s"
proof -
  have "agent_state_of sc tf candles i = agent_state_of sc tf candles' i"
    by (simp add: agent_state_of_def fun_eq_iff candle_window_prefix [OF assms])
  then show ?thesis by (simp only: candle_step_def nth_prefix [OF assms])
qed

lemma candle_loop_prefix:
  assumes "take n candles = take n candles'" "\<forall>i\<in>set is. i < n"
  shows "candle_loop cfg w sc tf candles is s = candle_loop cfg w sc tf candles' is s"
  using assms(2)
proof (induction "is" arbitrary: s)
  case (Cons i "is")
  have "candle_step cfg w sc tf candles i s = candle_step cfg w sc tf candles' i s"
    using Cons.prems by (intro candle_step_prefix [OF assms(1)]) simp
  then show ?case using Cons by (simp split: sum.split)
qed simp

text \<open>
  C9. A replay does not look ahead: two histories that agree on their first few
  candles give exactly the same engine, tables and mark balances after those candles (or the
  same early stop), whatever comes later in either, for any model, strategy and settings.
\<close>

theorem replay_no_lookahead:
  assumes "take n candles = take n candles'"
  shows "candle_loop cfg w sc tf candles [WARMUP_CANDLES..<n] s = candle_loop cfg w sc tf candles' [WARMUP_CANDLES..<n] s"
  by (rule candle_loop_prefix [OF assms]) simp

section \<open>Stages\<close>

lemma close_fields:
  assumes "execute_close price t reason pos (s, out) = (s', out')"
  shows "be_open_position (rp_engine s') = None" "be_pending_close (rp_engine s') = None"
    "be_pending_open (rp_engine s') = be_pending_open (rp_engine s)"
    "be_initial_balance (rp_engine s') = be_initial_balance (rp_engine s)"
    "length out' = length out + 1"
    "length (be_trades (rp_engine s')) = length (be_trades (rp_engine s)) + 1"
    "sum_list (map tr_net_pnl (be_trades (rp_engine s')))
       = sum_list (map tr_net_pnl (be_trades (rp_engine s))) + (be_current_balance (rp_engine s')
           - be_current_balance (rp_engine s)) - sp_fee_open pos"
    "be_longs (rp_engine s') + be_shorts (rp_engine s') = be_longs (rp_engine s) + be_shorts (rp_engine s) + 1"
  using assms by (auto simp: execute_close_def write_close_order_def Let_def)

definition open_fee :: "bt_engine \<Rightarrow> rat" where
  "open_fee eng = (case be_open_position eng of None \<Rightarrow> 0 | Some pos \<Rightarrow> sp_fee_open pos)"

text \<open>The intents exclude each other: an opening waits only while flat, a close only while in a position.\<close>

definition intents_ok :: "bt_engine \<Rightarrow> bool" where
  "intents_ok eng \<longleftrightarrow>
     (be_pending_open eng \<noteq> None \<longrightarrow> be_open_position eng = None \<and> be_pending_close eng = None) \<and>
     (be_pending_close eng \<noteq> None \<longrightarrow> be_open_position eng \<noteq> None)"

definition ledger :: "bt_engine \<Rightarrow> bool" where
  "ledger eng \<longleftrightarrow>
     be_current_balance eng = be_initial_balance eng + sum_list (map tr_net_pnl (be_trades eng)) - open_fee eng \<and>
     be_longs eng + be_shorts eng = length (be_trades eng)"

text \<open>
  The positions table: every row but that of the open position is closed, their results are
  those of the trades, and a close that is not the end of the run is later than the opening.
\<close>

definition closed_nets :: "position_record list \<Rightarrow> rat list" where
  "closed_nets rows = [net. r \<leftarrow> rows, Some (_, _, net, _, _, _) \<leftarrow> [pr_close r]]"

definition closes_later :: "position_record \<Rightarrow> bool" where
  "closes_later r = (case pr_close r of None \<Rightarrow> True
     | Some (_, _, _, _, reason, t) \<Rightarrow> reason = Run_end \<or> pr_opened_at r < t)"

definition booked :: "bt_candle list \<Rightarrow> nat \<Rightarrow> replay \<Rightarrow> bool" where
  "booked candles idx s \<longleftrightarrow>
     closed_nets (td_positions (rp_db s)) = map tr_net_pnl (be_trades (rp_engine s)) \<and>
     list_all closes_later (td_positions (rp_db s)) \<and>
     (case be_open_position (rp_engine s) of
        None \<Rightarrow> True
      | Some pos \<Rightarrow> (\<exists>rows r. td_positions (rp_db s) = rows @ [r] \<and> sp_position_id pos = length rows \<and>
          pr_close r = None \<and> pr_opened_at r = sp_opened_at pos) \<and>
          sp_opened_idx pos < idx \<and> sp_opened_at pos = bc_ts (candles ! sp_opened_idx pos))"

definition replay_inv :: "bt_candle list \<Rightarrow> nat \<Rightarrow> replay \<Rightarrow> bool" where
  "replay_inv candles idx s \<longleftrightarrow> intents_ok (rp_engine s) \<and> ledger (rp_engine s) \<and> booked candles idx s"

lemma closed_nets_append [simp]: "closed_nets (xs @ ys) = closed_nets xs @ closed_nets ys"
  by (simp add: closed_nets_def)

lemma closed_nets_open [simp]: "pr_close r = None \<Longrightarrow> closed_nets [r] = []"
  by (simp add: closed_nets_def)

lemma closed_nets_closed [simp]: "pr_close r = Some (p, o', net, f, reason, t) \<Longrightarrow> closed_nets [r] = [net]"
  by (simp add: closed_nets_def)

text \<open>Closing the open position at the end of the run, or later than it was opened.\<close>

lemma close_inv:
  assumes inv: "replay_inv candles idx s" and pos: "be_open_position (rp_engine s) = Some pos"
    and e: "execute_close price t reason pos (s, out) = (s', out')" and later: "reason = Run_end \<or> sp_opened_at pos < t"
    and flat: "be_pending_open (rp_engine s) = None"
  shows "replay_inv candles idx s' \<and> be_open_position (rp_engine s') = None \<and> be_pending_close (rp_engine s') = None
    \<and> be_pending_open (rp_engine s') = None"
proof -
  note f = close_fields [OF e]
  obtain rows r where rows: "td_positions (rp_db s) = rows @ [r]" "sp_position_id pos = length rows"
    "pr_close r = None" "pr_opened_at r = sp_opened_at pos"
    using inv pos by (auto simp: replay_inv_def booked_def)
  obtain a b net fee where "td_positions (rp_db s') = rows @ [r\<lparr>pr_close := Some (a, b, net, fee, reason, t)\<rparr>]"
    and "map tr_net_pnl (be_trades (rp_engine s')) = map tr_net_pnl (be_trades (rp_engine s)) @ [net]"
    using e rows by (auto simp: execute_close_def write_close_order_def write_close_position_def Let_def)
  moreover have "closes_later (r\<lparr>pr_close := Some (a, b, net, fee, reason, t)\<rparr>)"
    using later rows(4) by (simp add: closes_later_def)
  ultimately have "booked candles idx s'"
    using inv rows f(1) by (simp add: replay_inv_def booked_def)
  moreover have "ledger (rp_engine s')"
    using inv pos f by (simp add: replay_inv_def ledger_def open_fee_def)
  ultimately show ?thesis using f flat by (simp add: replay_inv_def intents_ok_def)
qed

text \<open>What a stage may touch without moving money or positions.\<close>

definition same_books :: "replay \<Rightarrow> replay \<Rightarrow> bool" where
  "same_books s s' \<longleftrightarrow>
     be_current_balance (rp_engine s') = be_current_balance (rp_engine s) \<and>
     be_initial_balance (rp_engine s') = be_initial_balance (rp_engine s) \<and>
     be_trades (rp_engine s') = be_trades (rp_engine s) \<and>
     be_open_position (rp_engine s') = be_open_position (rp_engine s) \<and>
     be_longs (rp_engine s') = be_longs (rp_engine s) \<and> be_shorts (rp_engine s') = be_shorts (rp_engine s) \<and>
     td_positions (rp_db s') = td_positions (rp_db s)"

lemma same_books_inv:
  "same_books s s' \<Longrightarrow> intents_ok (rp_engine s') \<Longrightarrow> replay_inv candles idx s \<Longrightarrow> replay_inv candles idx s'"
  unfolding same_books_def replay_inv_def ledger_def open_fee_def booked_def by (elim conjE) (intro conjI, simp_all cong: option.case_cong)

lemma booked_later: "booked candles idx s \<Longrightarrow> idx \<le> idx' \<Longrightarrow> booked candles idx' s"
  by (auto simp: booked_def split: option.splits)

lemma replay_inv_later: "replay_inv candles idx s \<Longrightarrow> idx \<le> idx' \<Longrightarrow> replay_inv candles idx' s"
  by (auto simp: replay_inv_def intro: booked_later)

lemma pending_open_cases:
  obtains (none) "be_pending_open (rp_engine s) = None" "execute_pending_open c idx s = (False, s)"
  | (fill) intent pos s' where "be_pending_open (rp_engine s) = Some intent"
      "execute_pending_open c idx s = (True, s')"
      "be_open_position (rp_engine s') = Some pos" "be_pending_open (rp_engine s') = None"
      "be_pending_close (rp_engine s') = be_pending_close (rp_engine s)"
      "be_trades (rp_engine s') = be_trades (rp_engine s)"
      "be_longs (rp_engine s') = be_longs (rp_engine s)" "be_shorts (rp_engine s') = be_shorts (rp_engine s)"
      "be_initial_balance (rp_engine s') = be_initial_balance (rp_engine s)"
      "be_current_balance (rp_engine s') = be_current_balance (rp_engine s) - sp_fee_open pos"
      "sp_position_id pos = length (td_positions (rp_db s))" "sp_opened_idx pos = idx" "sp_opened_at pos = bc_ts c"
      "\<exists>r. td_positions (rp_db s') = td_positions (rp_db s) @ [r] \<and> pr_close r = None \<and> pr_opened_at r = bc_ts c"
proof (cases "be_pending_open (rp_engine s)")
  case None
  then show thesis by (intro none) (simp_all add: execute_pending_open_def)
next
  case (Some intent)
  show thesis
    by (rule fill [OF Some, of "snd (execute_pending_open c idx s)"
          "the (be_open_position (rp_engine (snd (execute_pending_open c idx s))))"])
      (simp_all add: execute_pending_open_def Some write_open_order_def write_open_position_def Let_def)
qed

lemma fill_pending_inv:
  assumes inv: "replay_inv candles idx s" and sorted: "sorted_wrt (<) (map bc_ts candles)" and len: "idx < length candles"
    and f: "fill_pending (candles ! idx) idx s = (jo, s1, out)"
  shows "replay_inv candles (idx + 1) s1 \<and> be_pending_open (rp_engine s1) = None \<and>
     be_pending_close (rp_engine s1) = None \<and> length out \<le> 1 \<and>
     (out \<noteq> [] \<longrightarrow> be_open_position (rp_engine s1) = None) \<and>
     (\<not> jo \<longrightarrow> (\<forall>pos. be_open_position (rp_engine s1) = Some pos \<longrightarrow> sp_opened_idx pos < idx))"
proof (rule pending_open_cases [of s "candles ! idx" idx])
  fix intent pos s'
  assume pend: "be_pending_open (rp_engine s) = Some intent"
    and fill: "execute_pending_open (candles ! idx) idx s = (True, s')"
    "be_open_position (rp_engine s') = Some pos" "be_pending_open (rp_engine s') = None"
    "be_pending_close (rp_engine s') = be_pending_close (rp_engine s)"
    "be_trades (rp_engine s') = be_trades (rp_engine s)"
    "be_longs (rp_engine s') = be_longs (rp_engine s)" "be_shorts (rp_engine s') = be_shorts (rp_engine s)"
    "be_initial_balance (rp_engine s') = be_initial_balance (rp_engine s)"
    "be_current_balance (rp_engine s') = be_current_balance (rp_engine s) - sp_fee_open pos"
    "sp_position_id pos = length (td_positions (rp_db s))" "sp_opened_idx pos = idx" "sp_opened_at pos = bc_ts (candles ! idx)"
    and row: "\<exists>r. td_positions (rp_db s') = td_positions (rp_db s) @ [r] \<and> pr_close r = None
      \<and> pr_opened_at r = bc_ts (candles ! idx)"
  have out: "jo" "s1 = s'" "out = []" using f fill(1) by (simp_all add: fill_pending_def)
  have flat: "be_open_position (rp_engine s) = None" "be_pending_close (rp_engine s) = None"
    using inv pend by (simp_all add: replay_inv_def intents_ok_def)
  have "ledger (rp_engine s')" using inv fill flat by (simp add: replay_inv_def ledger_def open_fee_def)
  moreover have "booked candles (idx + 1) s'"
    using inv fill flat row by (auto simp: replay_inv_def booked_def closes_later_def)
  ultimately show ?thesis using out fill flat by (simp add: replay_inv_def intents_ok_def)
next
  assume none: "be_pending_open (rp_engine s) = None" "execute_pending_open (candles ! idx) idx s = (False, s)"
  then have jo: "\<not> jo" and e: "execute_pending_close (candles ! idx) (s, []) = (s1, out)"
    using f by (simp_all add: fill_pending_def)
  show ?thesis
  proof (cases "be_pending_close (rp_engine s) = None \<or> be_open_position (rp_engine s) = None")
    case True
    then have s1: "s1 = s\<lparr>rp_engine := (rp_engine s)\<lparr>be_pending_close := None\<rparr>\<rparr>" "out = []"
      using e by (auto simp: execute_pending_close_def split: option.splits)
    have "same_books s s1" by (simp add: s1 same_books_def)
    moreover have "intents_ok (rp_engine s1)" using inv by (simp add: s1 replay_inv_def intents_ok_def)
    ultimately have i: "replay_inv candles idx s1" using inv by (rule same_books_inv)
    have "\<forall>pos. be_open_position (rp_engine s1) = Some pos \<longrightarrow> sp_opened_idx pos < idx"
      using i by (auto simp: replay_inv_def booked_def)
    then show ?thesis using replay_inv_later [OF i, of "idx + 1"] none s1 by simp
  next
    case False
    then obtain x pos where pc: "be_pending_close (rp_engine s) = Some x" and pos: "be_open_position (rp_engine s) = Some pos"
      by auto
    have e': "execute_close (bc_open (candles ! idx)) (bc_ts (candles ! idx)) Llm_close pos (s, []) = (s1, out)"
      using e pc pos by (simp add: execute_pending_close_def)
    have "sp_opened_idx pos < idx" "sp_opened_at pos = bc_ts (candles ! sp_opened_idx pos)"
      using inv pos by (auto simp: replay_inv_def booked_def)
    then have "sp_opened_at pos < bc_ts (candles ! idx)"
      using sorted len by (simp add: sorted_wrt_iff_nth_less)
    then have c: "replay_inv candles idx s1 \<and> be_open_position (rp_engine s1) = None \<and> be_pending_close (rp_engine s1) = None
        \<and> be_pending_open (rp_engine s1) = None"
      using close_inv [OF inv pos e' _ none(1)] by simp
    then show ?thesis using close_fields(5) [OF e'] replay_inv_later [of candles idx s1 "idx + 1"] by simp
  qed
qed

lemma check_levels_inv:
  assumes inv: "replay_inv candles (idx + 1) s" and sorted: "sorted_wrt (<) (map bc_ts candles)" and len: "idx < length candles"
    and none: "be_pending_open (rp_engine s) = None" "be_pending_close (rp_engine s) = None"
    and out: "length out \<le> 1" "out \<noteq> [] \<longrightarrow> be_open_position (rp_engine s) = None"
    and e: "check_levels (candles ! idx) idx jo (s, out) = (s', out')"
  shows "replay_inv candles (idx + 1) s' \<and> be_pending_open (rp_engine s') = None \<and>
     be_pending_close (rp_engine s') = None \<and> length out' \<le> 1"
proof (cases "s' = s \<and> out' = out")
  case True
  then show ?thesis using inv none out by simp
next
  case False
  then obtain pos level reason where pos: "be_open_position (rp_engine s) = Some pos" and idx: "sp_opened_idx pos < idx"
    and c: "execute_close level (bc_ts (candles ! idx)) (By_level reason) pos (s, out) = (s', out')"
    using e by (auto simp: check_levels_def split: option.splits if_splits)
  have "sp_opened_at pos = bc_ts (candles ! sp_opened_idx pos)"
    using inv pos by (auto simp: replay_inv_def booked_def)
  then have "sp_opened_at pos < bc_ts (candles ! idx)"
    using idx sorted len by (simp add: sorted_wrt_iff_nth_less)
  then show ?thesis
    using close_inv [OF inv pos c _ none(1)] close_fields(5) [OF c] out(2) pos by simp
qed

lemma flush_same [simp]: "same_books s (flush_equity_buffer s)"
    "be_pending_open (rp_engine (flush_equity_buffer s)) = be_pending_open (rp_engine s)"
    "be_pending_close (rp_engine (flush_equity_buffer s)) = be_pending_close (rp_engine s)"
  by (simp_all add: same_books_def flush_equity_buffer_def Let_def)

lemma same_books_trans: "same_books a b \<Longrightarrow> same_books b c \<Longrightarrow> same_books a c"
  by (simp add: same_books_def)

lemma equity_same [simp]: "same_books s (equity_step cfg c p s)"
    "be_pending_open (rp_engine (equity_step cfg c p s)) = be_pending_open (rp_engine s)"
    "be_pending_close (rp_engine (equity_step cfg c p s)) = be_pending_close (rp_engine s)"
proof -
  have "same_books s (s\<lparr>rp_engine := (rp_engine s)\<lparr>be_peak := a, be_equity_buffer := b, be_candles_processed := n\<rparr>,
      rp_series := r\<rparr>)" for a b n r
    by (simp add: same_books_def)
  from same_books_trans [OF this flush_same(1)] this
  show "same_books s (equity_step cfg c p s)" by (auto simp: equity_step_def Let_def)
qed (simp_all add: equity_step_def Let_def)

lemma record_intent_keeps:
  "be_pending_open eng = None \<Longrightarrow> be_pending_close eng = None \<Longrightarrow> intents_ok (record_intent a now eng)"
  by (auto simp: record_intent_def intents_ok_def Let_def)

lemma record_intent_same: "same_books s (s\<lparr>rp_engine := record_intent a now (rp_engine s)\<rparr>)"
  by (simp add: same_books_def record_intent_def Let_def)

lemma candle_ok_same: "same_books s (candle_ok cfg c p a s)"
proof -
  let ?s1 = "s\<lparr>rp_engine := record_intent a (bc_ts c) (rp_engine s)\<rparr>"
  have "same_books s (equity_step cfg c q ?s1)" for q
    by (rule same_books_trans [OF record_intent_same equity_same(1)])
  moreover have "same_books t (t\<lparr>rp_db := update_progress n (rp_db t)\<rparr>)" for t n
    by (simp add: same_books_def update_progress_def)
  ultimately show ?thesis unfolding candle_ok_def Let_def by (auto intro: same_books_trans)
qed

lemma candle_ok_intents:
  assumes "be_pending_open (rp_engine s) = None" "be_pending_close (rp_engine s) = None"
  shows "intents_ok (rp_engine (candle_ok cfg c p a s))"
proof -
  let ?s1 = "s\<lparr>rp_engine := record_intent a (bc_ts c) (rp_engine s)\<rparr>"
  have "intents_ok (rp_engine (equity_step cfg c q ?s1))" for q
    using record_intent_keeps [OF assms, of a "bc_ts c"] equity_same(1) [of ?s1 cfg c q]
    by (simp add: intents_ok_def same_books_def)
  then show ?thesis by (simp add: candle_ok_def Let_def)
qed

lemma graph_failure_same: "graph_failure cfg c s = r \<Longrightarrow> (case r of Inl (_, s') \<Rightarrow> same_books s s' \<and>
      be_pending_open (rp_engine s') = be_pending_open (rp_engine s) \<and>
      be_pending_close (rp_engine s') = be_pending_close (rp_engine s)
    | Inr s' \<Rightarrow> same_books s s' \<and> be_pending_open (rp_engine s') = be_pending_open (rp_engine s) \<and>
      be_pending_close (rp_engine s') = be_pending_close (rp_engine s))"
proof -
  assume r: "graph_failure cfg c s = r"
  let ?s1 = "s\<lparr>rp_engine := (rp_engine s)\<lparr>be_llm_failures := be_llm_failures (rp_engine s) + 1\<rparr>\<rparr>"
  have s1: "same_books s ?s1" by (simp add: same_books_def)
  show ?thesis
    using s1 same_books_trans [OF s1 equity_same(1)] r by (auto simp: graph_failure_def Let_def split: if_splits)
qed

text \<open>A candle up to the graph: the stages before it have given \<open>s2\<close>.\<close>

definition count_signal :: "replay \<Rightarrow> replay" where
  "count_signal s = s\<lparr>rp_engine := (rp_engine s)\<lparr>be_total_signals := be_total_signals (rp_engine s) + 1\<rparr>\<rparr>"

lemma candle_step_graph:
  assumes "fill_pending (candles ! k) k s = (jo, s1, out)" "check_levels (candles ! k) k jo (s1, out) = (s2, out2)"
    and "pnl_today (rp_engine s2) (bc_ts (candles ! k)) = Inr pnl"
  shows "candle_step cfg w sc tf candles k s =
     (case run_graph w (agent_state_of sc tf candles k (bc_ts (candles ! k)) pnl (rp_engine s2)) (rp_db (count_signal s2)) of
          Graph_cancelled \<Rightarrow> Inl (Stop_cancelled, count_signal s2)
        | Graph_raised \<Rightarrow> graph_failure cfg (candles ! k) (count_signal s2)
        | Graph_ended a1 db1 \<Rightarrow> Inr (candle_ok cfg (candles ! k) out2 a1 ((count_signal s2)\<lparr>rp_db := db1\<rparr>)))"
  using assms by (simp add: candle_step_def Let_def count_signal_def split: graph_outcome.split)

lemma count_signal_fields [simp]:
  "rp_db (count_signal s) = rp_db s" "same_books s (count_signal s)"
  "be_pending_open (rp_engine (count_signal s)) = be_pending_open (rp_engine s)"
  "be_pending_close (rp_engine (count_signal s)) = be_pending_close (rp_engine s)"
  by (simp_all add: count_signal_def same_books_def)

definition staged_inv :: "bt_candle list \<Rightarrow> nat \<Rightarrow> staged \<Rightarrow> bool" where
  "staged_inv candles idx r = (case r of Inl (_, s) \<Rightarrow> replay_inv candles idx s | Inr s \<Rightarrow> replay_inv candles idx s)"

lemma candle_step_inv:
  assumes inv: "replay_inv candles idx s" and sorted: "sorted_wrt (<) (map bc_ts candles)" and len: "idx < length candles"
  shows "staged_inv candles (idx + 1) (candle_step cfg w sc tf candles idx s)"
proof -
  obtain jo s1 out where f: "fill_pending (candles ! idx) idx s = (jo, s1, out)" by (metis prod.exhaust)
  note i1 = fill_pending_inv [OF inv sorted len f]
  obtain s2 out2 where e: "check_levels (candles ! idx) idx jo (s1, out) = (s2, out2)" by (rule prod.exhaust)
  have i2: "replay_inv candles (idx + 1) s2" and p2: "be_pending_open (rp_engine s2) = None"
    "be_pending_close (rp_engine s2) = None"
    using check_levels_inv [OF _ sorted len _ _ _ _ e] i1 by auto
  show ?thesis
  proof (cases "pnl_today (rp_engine s2) (bc_ts (candles ! idx))")
    case (Inl err)
    then show ?thesis using f e i2 by (simp add: candle_step_def staged_inv_def)
  next
    case (Inr pnl)
    define s3 where "s3 = count_signal s2"
    define a where "a = agent_state_of sc tf candles idx (bc_ts (candles ! idx)) pnl (rp_engine s2)"
    have sb3: "same_books s2 s3" and p3: "be_pending_open (rp_engine s3) = None" "be_pending_close (rp_engine s3) = None"
      using p2 by (simp_all add: s3_def)
    have i3: "replay_inv candles (idx + 1) s'" if "same_books s3 s'" "intents_ok (rp_engine s')" for s'
      using same_books_inv [OF same_books_trans [OF sb3 that(1)] that(2) i2] .
    have step: "candle_step cfg w sc tf candles idx s = (case run_graph w a (rp_db s3) of
          Graph_cancelled \<Rightarrow> Inl (Stop_cancelled, s3)
        | Graph_raised \<Rightarrow> graph_failure cfg (candles ! idx) s3
        | Graph_ended a1 db1 \<Rightarrow> Inr (candle_ok cfg (candles ! idx) out2 a1 (s3\<lparr>rp_db := db1\<rparr>)))"
      unfolding a_def s3_def by (rule candle_step_graph [OF f e Inr])
    show ?thesis
    proof (cases "run_graph w a (rp_db s3)")
      case Graph_cancelled
      have "intents_ok (rp_engine s3)" using p3 by (simp add: intents_ok_def)
      then show ?thesis using step Graph_cancelled i3 [of s3] by (simp add: staged_inv_def same_books_def)
    next
      case Graph_raised
      have "intents_ok (rp_engine s')" if "be_pending_open (rp_engine s') = None" "be_pending_close (rp_engine s') = None" for s'
        using that by (simp add: intents_ok_def)
      then show ?thesis
        using graph_failure_same [where cfg = cfg and c = "candles ! idx" and s = s3, OF refl] p3 i3 step Graph_raised
        by (auto simp: staged_inv_def split: sum.splits)
    next
      case (Graph_ended a1 db1)
      have "td_positions db1 = td_positions (rp_db s3)"
        using Graph_ended by (auto simp: run_graph_def node_dispatch_sim_def Let_def split: if_splits)
      then have "same_books s3 (s3\<lparr>rp_db := db1\<rparr>)" by (simp add: same_books_def)
      from same_books_trans [OF this candle_ok_same]
      have "same_books s3 (candle_ok cfg (candles ! idx) out2 a1 (s3\<lparr>rp_db := db1\<rparr>))" .
      moreover have "intents_ok (rp_engine (candle_ok cfg (candles ! idx) out2 a1 (s3\<lparr>rp_db := db1\<rparr>)))"
        using p3 by (intro candle_ok_intents) simp_all
      ultimately show ?thesis using step Graph_ended i3 by (simp add: staged_inv_def)
    qed
  qed
qed

lemma candle_loop_inv:
  assumes "sorted_wrt (<) (map bc_ts candles)" "replay_inv candles k s" "k \<le> length candles"
  shows "staged_inv candles (length candles) (candle_loop cfg w sc tf candles [k..<length candles] s)"
  using assms(2,3)
proof (induction "length candles - k" arbitrary: k s)
  case 0
  then show ?case by (simp add: staged_inv_def)
next
  case (Suc n)
  then have k: "k < length candles" by simp
  have step: "staged_inv candles (k + 1) (candle_step cfg w sc tf candles k s)"
    by (rule candle_step_inv [OF Suc.prems(1) assms(1) k])
  have up: "[k..<length candles] = k # [k + 1..<length candles]" using k by (simp add: upt_conv_Cons)
  show ?case
  proof (cases "candle_step cfg w sc tf candles k s")
    case (Inl x)
    then show ?thesis
      using step k replay_inv_later [of candles "k + 1" "snd x" "length candles"]
      by (cases x) (simp add: up staged_inv_def)
  next
    case (Inr s1)
    have "n = length candles - (k + 1)" using Suc.hyps(2) by simp
    moreover have "replay_inv candles (k + 1) s1" using step Inr by (simp add: staged_inv_def)
    ultimately show ?thesis using Suc.hyps(1) [of "k + 1" s1] k Inr by (simp add: up)
  qed
qed

section \<open>A whole run\<close>

lemma set_run_inv [simp]: "replay_inv candles idx (set_run f s) = replay_inv candles idx s"
  by (simp add: replay_inv_def booked_def set_run_def cong: option.case_cong)

lemma set_run_fields [simp]: "rp_engine (set_run f s) = rp_engine s" "rp_series (set_run f s) = rp_series s"
    "td_run (rp_db (set_run f s)) = f (td_run (rp_db s))" "td_positions (rp_db (set_run f s)) = td_positions (rp_db s)"
    "td_equity (rp_db (set_run f s)) = td_equity (rp_db s)" "td_log (rp_db (set_run f s)) = td_log (rp_db s)"
  by (simp_all add: set_run_def)

lemma new_engine_inv:
  "td_positions (rp_db s) = [] \<Longrightarrow> rp_engine s = new_engine run \<Longrightarrow> replay_inv candles idx s"
  by (simp add: replay_inv_def intents_ok_def ledger_def open_fee_def booked_def new_engine_def closed_nets_def)

lemma close_at_end_inv:
  assumes "replay_inv candles idx s"
  shows "replay_inv candles idx (close_at_end c s) \<and> be_open_position (rp_engine (close_at_end c s)) = None"
proof (cases "be_open_position (rp_engine s)")
  case None
  then show ?thesis using assms by (simp add: close_at_end_def)
next
  case (Some pos)
  obtain s' out where e: "execute_close (bc_close c) (bc_ts c) Run_end pos (s, []) = (s', out)" by (rule prod.exhaust)
  have "be_pending_open (rp_engine s) = None"
    using assms Some by (auto simp: replay_inv_def intents_ok_def)
  from close_inv [OF assms Some e _ this] show ?thesis by (simp add: close_at_end_def Some e)
qed

lemma flush_inv: "replay_inv candles idx s \<Longrightarrow> replay_inv candles idx (flush_equity_buffer s)"
proof (rule same_books_inv [OF flush_same(1)])
  assume "replay_inv candles idx s"
  then show "intents_ok (rp_engine (flush_equity_buffer s))"
    using flush_same(1) [of s] by (simp add: replay_inv_def intents_ok_def same_books_def)
qed

lemma finish_run_cases:
  obtains (done_) m where "compute_metrics (rp_engine s) (rp_series s) = Inr m"
      "\<exists>f. finish_run n s = Inr (set_run f s) \<and> rr_metrics (f r) = Some m \<and> rr_status (f r) = Run_completed"
  | (raised) e where "finish_run n s = Inl (Stop_failed e, s)"
proof (cases "compute_metrics (rp_engine s) (rp_series s)")
  case (Inl e)
  then show thesis by (intro raised [of e]) (simp add: finish_run_def)
next
  case (Inr m)
  show thesis
    by (rule done_ [OF Inr], simp only: finish_run_def Inr Let_def sum.case, rule exI, rule conjI [OF refl]) simp
qed

text \<open>What every run leaves, however it stops; a completed one also has its metrics.\<close>

definition run_outcome_ok :: "replay \<Rightarrow> bool" where
  "run_outcome_ok s \<longleftrightarrow>
     (\<exists>candles idx. replay_inv candles idx s) \<and>
     (rr_status (td_run (rp_db s)) = Run_completed \<longrightarrow>
        be_open_position (rp_engine s) = None \<and>
        (\<exists>m. compute_metrics (rp_engine s) (rp_series s) = Inr m \<and> rr_metrics (td_run (rp_db s)) = Some m))"

lemma run_outcome_okI:
  assumes "replay_inv candles idx s"
    and "rr_status (td_run (rp_db s)) = Run_completed \<Longrightarrow> be_open_position (rp_engine s) = None \<and>
      (\<exists>m. compute_metrics (rp_engine s) (rp_series s) = Inr m \<and> rr_metrics (td_run (rp_db s)) = Some m)"
  shows "run_outcome_ok s"
  unfolding run_outcome_ok_def using assms by blast

lemma run_outcome:
  assumes "sorted_wrt (<) (map bc_ts cached)" "sorted_wrt (<) (map bc_ts refetched)" "td_positions db = []"
  shows "run_outcome_ok (run_backtest cfg w sx cached refetched db)"
proof -
  define candles where "candles = run_candles cached refetched"
  define s1 where "s1 = start_loop (length candles - WARMUP_CANDLES) db"
  have i0: "replay_inv candles k (start_run db)" "replay_inv candles k s1" for k
    unfolding s1_def start_loop_def start_run_def by (simp_all add: new_engine_inv [of _ "td_run db"] assms(3))
  have sorted: "sorted_wrt (<) (map bc_ts candles)" using assms(1,2) by (simp add: candles_def run_candles_def)
  show ?thesis
  proof (cases "length candles < WARMUP_CANDLES + 10")
    case True
    then have "run_backtest cfg w sx cached refetched db = set_run (\<lambda>r. r\<lparr>rr_status := Run_failed\<rparr>) (start_run db)"
      by (simp add: run_backtest_def execute_run_def Let_def flip: candles_def)
    then show ?thesis by (intro run_outcome_okI [of candles 0]) (simp_all add: i0(1))
  next
    case False
    define r where "r = candle_loop cfg w (strategy_config_of sx (td_run db)) (rr_timeframe (td_run db)) candles
      [WARMUP_CANDLES..<length candles] s1"
    have inv: "staged_inv candles (length candles) r"
      unfolding r_def using False by (intro candle_loop_inv [OF sorted i0(2)]) simp
    have run: "execute_run cfg w sx cached refetched db = (case r of Inl stop \<Rightarrow> Inl stop
        | Inr s2 \<Rightarrow> finish_run (length candles - WARMUP_CANDLES) (flush_equity_buffer (close_at_end (List.last candles) s2)))"
      using False by (simp add: execute_run_def Let_def s1_def r_def flip: candles_def split: sum.split)
    show ?thesis
    proof (cases r)
      case (Inl x)
      obtain why s where x: "x = (why, s)" by (rule prod.exhaust)
      have "replay_inv candles (length candles) s" using inv Inl x by (simp add: staged_inv_def)
      then show ?thesis using run Inl x
        by (cases why; intro run_outcome_okI [of candles "length candles"]) (simp_all add: run_backtest_def)
    next
      case (Inr s2)
      define s3 where "s3 = flush_equity_buffer (close_at_end (List.last candles) s2)"
      have "replay_inv candles (length candles) s2" using inv Inr by (simp add: staged_inv_def)
      note c = close_at_end_inv [OF this, of "List.last candles"]
      have i3: "replay_inv candles (length candles) s3" and flat: "be_open_position (rp_engine s3) = None"
        using c flush_inv [of candles "length candles"] flush_same(1) [of "close_at_end (List.last candles) s2"]
        by (simp_all add: s3_def same_books_def)
      then have ex: "\<exists>candles idx. replay_inv candles idx s3" by blast
      show ?thesis
      proof (rule finish_run_cases [of s3 "length candles - WARMUP_CANDLES" "td_run (rp_db s3)"])
        fix m assume m: "compute_metrics (rp_engine s3) (rp_series s3) = Inr m"
          and "\<exists>f. finish_run (length candles - WARMUP_CANDLES) s3 = Inr (set_run f s3)
            \<and> rr_metrics (f (td_run (rp_db s3))) = Some m \<and> rr_status (f (td_run (rp_db s3))) = Run_completed"
        then obtain f where "run_backtest cfg w sx cached refetched db = set_run f s3"
          and "rr_metrics (f (td_run (rp_db s3))) = Some m"
          using run Inr by (auto simp: run_backtest_def s3_def [symmetric])
        then show ?thesis using m i3 flat by (intro run_outcome_okI [of candles "length candles"]) simp_all
      next
        fix e assume "finish_run (length candles - WARMUP_CANDLES) s3 = Inl (Stop_failed e, s3)"
        then have "run_backtest cfg w sx cached refetched db = set_run (\<lambda>r. r\<lparr>rr_status := Run_failed\<rparr>) s3"
          using run Inr by (simp add: run_backtest_def s3_def [symmetric])
        then show ?thesis using i3 by (intro run_outcome_okI [of candles "length candles"]) simp_all
      qed
    qed
  qed
qed

text \<open>
  C11. The books of a replay balance, however it stops: the balance is the initial
  balance plus the net results of the trades, less the opening fee of a position still open;
  the longs and shorts are the trades; and a completed run holds no position and reports as
  its total exactly what its balance has gained, rounded.
\<close>

theorem replay_books_balance:
  assumes "sorted_wrt (<) (map bc_ts cached)" "sorted_wrt (<) (map bc_ts refetched)" "td_positions db = []"
    and "run_backtest cfg w sx cached refetched db = s"
  shows "be_current_balance (rp_engine s) = be_initial_balance (rp_engine s)
           + sum_list (map tr_net_pnl (be_trades (rp_engine s))) - open_fee (rp_engine s) \<and>
     be_longs (rp_engine s) + be_shorts (rp_engine s) = length (be_trades (rp_engine s)) \<and>
     (rr_status (td_run (rp_db s)) = Run_completed \<longrightarrow>
        be_open_position (rp_engine s) = None \<and>
        (\<exists>m. rr_metrics (td_run (rp_db s)) = Some m \<and>
          bm_total_pnl m = py_round (be_current_balance (rp_engine s) - be_initial_balance (rp_engine s)) 8 \<and>
          bm_total_trades m = bm_winning m + bm_losing m \<and>
          bm_total_trades m = bm_long_count m + bm_short_count m))"
proof -
  have o: "run_outcome_ok s" using run_outcome [OF assms(1-3), of cfg w sx] assms(4) by simp
  then have l: "ledger (rp_engine s)" by (auto simp: run_outcome_ok_def replay_inv_def)
  have split: "length (filter (\<lambda>p. 0 < p) ps) + length (filter (\<lambda>p. p \<le> 0) ps) = length ps" for ps :: "rat list"
    by (induction ps) auto
  have m: "bm_total_pnl m = py_round (be_current_balance (rp_engine s) - be_initial_balance (rp_engine s)) 8 \<and>
      bm_total_trades m = bm_winning m + bm_losing m \<and> bm_total_trades m = bm_long_count m + bm_short_count m"
    if "compute_metrics (rp_engine s) (rp_series s) = Inr m" "be_open_position (rp_engine s) = None" for m
    using that l split [of "map tr_net_pnl (be_trades (rp_engine s))"]
    by (auto simp: compute_metrics_def Let_def ledger_def open_fee_def split: if_splits)
  show ?thesis using o l m unfolding run_outcome_ok_def ledger_def by blast
qed

text \<open>
  The positions table of a replay: the results of its closed rows are, in order,
  those of the trades, only its last row may be open, and a position closed by the strategy or
  by a level closes on a later candle than the one it opened on.
\<close>

theorem replay_positions_table:
  assumes "sorted_wrt (<) (map bc_ts cached)" "sorted_wrt (<) (map bc_ts refetched)" "td_positions db = []"
    and "run_backtest cfg w sx cached refetched db = s"
  shows "closed_nets (td_positions (rp_db s)) = map tr_net_pnl (be_trades (rp_engine s)) \<and>
     list_all closes_later (td_positions (rp_db s)) \<and>
     (\<forall>pos. be_open_position (rp_engine s) = Some pos \<longrightarrow>
        td_positions (rp_db s) \<noteq> [] \<and> pr_close (List.last (td_positions (rp_db s))) = None \<and>
        sp_position_id pos + 1 = length (td_positions (rp_db s)))"
proof -
  have "run_outcome_ok s" using run_outcome [OF assms(1-3), of cfg w sx] assms(4) by simp
  then obtain candles idx where "booked candles idx s" by (auto simp: run_outcome_ok_def replay_inv_def)
  then show ?thesis by (auto simp: booked_def)
qed

end
