(* ===== verification/BacktestEquity.thy ===== *)
theory BacktestEquity
  imports BacktestSafety
begin

text \<open>
  The equity curve of a replay: every candle has its row, written once, in order; and the
  maximum drawdown the run reports is the largest drawdown of the curve.
\<close>

section \<open>Drawdowns\<close>

text \<open>The drawdown at each mark balance, from the peak so far.\<close>

fun drawdowns :: "rat \<Rightarrow> rat list \<Rightarrow> rat list" where
  "drawdowns p [] = []"
| "drawdowns p (b # bs) = drawdown_pct (max p b) b # drawdowns (max p b) bs"

lemma drawdowns_snoc: "drawdowns p (bs @ [b]) = drawdowns p bs @ [drawdown_pct (max (fold max bs p) b) b]"
  by (induction bs arbitrary: p) (simp_all add: max.commute)

lemma dd_step_max: "0 \<le> m \<Longrightarrow> dd_step b (p, m) = (max p b, max m (drawdown_pct (max p b) b))"
  by (auto simp: dd_step_def Let_def drawdown_pct_def max_def)

lemma fold_dd_step: "0 \<le> m \<Longrightarrow> snd (fold dd_step bs (p, m)) = fold max (drawdowns p bs) m"
proof (induction bs arbitrary: p m)
  case (Cons b bs)
  have "0 \<le> max m (drawdown_pct (max p b) b)" using Cons.prems by simp
  then show ?case using Cons by (simp add: dd_step_max max.commute)
qed simp

lemma max_drawdown_fold: "max_drawdown initial (b # bs) = fold max (drawdowns b (b # bs)) 0"
  using fold_dd_step [of 0 "b # bs" b] by (simp add: max_drawdown_def)

lemma py_round_max: "py_round (max a b) n = max (py_round a n) (py_round b n)"
  by (metis max_def py_round_mono order_antisym linear)

lemma py_round_fold_max: "py_round (fold max ds m) n = fold max (map (\<lambda>d. py_round d n) ds) (py_round m n)"
  by (induction ds arbitrary: m) (simp_all add: py_round_max)

section \<open>The rows of the curve\<close>

definition equity_rows :: "replay \<Rightarrow> equity_row list" where
  "equity_rows s = td_equity (rp_db s) @ be_equity_buffer (rp_engine s)"

definition equity_inv :: "bt_candle list \<Rightarrow> nat \<Rightarrow> replay \<Rightarrow> bool" where
  "equity_inv candles k s \<longleftrightarrow>
     (let eng = rp_engine s; series = rp_series s in
      map eq_ts (equity_rows s) = map bc_ts (drop WARMUP_CANDLES (take k candles)) \<and>
      map eq_mark (equity_rows s) = series \<and>
      be_peak eng = fold max series (be_initial_balance eng) \<and>
      map eq_drawdown (equity_rows s) = map (\<lambda>d. py_round d 4) (drawdowns (be_initial_balance eng) series) \<and>
      (if series = [] then be_open_position eng = None \<and> be_pending_open eng = None \<and>
         be_current_balance eng = be_initial_balance eng
       else hd series = be_initial_balance eng))"

lemma insert_equity_new:
  "distinct (map eq_ts rows @ map eq_ts rs) \<Longrightarrow> insert_equity rs rows = rows @ rs"
proof (induction rs arbitrary: rows)
  case (Cons r rs)
  then have "eq_ts r \<notin> eq_ts ` set rows" "distinct (map eq_ts (rows @ [r]) @ map eq_ts rs)" by auto
  with Cons.IH [of "rows @ [r]"] show ?case by simp
qed simp

lemma sorted_distinct: "sorted_wrt (<) (map bc_ts candles) \<Longrightarrow> distinct (map bc_ts (drop n (take k candles)))"
proof -
  assume "sorted_wrt (<) (map bc_ts candles)"
  then have "sorted_wrt (<) (drop n (take k (map bc_ts candles)))"
    by (intro sorted_wrt_drop sorted_wrt_take)
  then show ?thesis by (simp add: strict_sorted_iff drop_map take_map)
qed

lemma flush_rows:
  assumes "distinct (map eq_ts (equity_rows s))"
  shows "equity_rows (flush_equity_buffer s) = equity_rows s"
    "td_equity (rp_db (flush_equity_buffer s)) = equity_rows s"
  using assms insert_equity_new [of "td_equity (rp_db s)" "be_equity_buffer (rp_engine s)"]
  by (auto simp: equity_rows_def flush_equity_buffer_def Let_def)

lemma flush_fields [simp]:
  "rp_series (flush_equity_buffer s) = rp_series s" "be_peak (rp_engine (flush_equity_buffer s)) = be_peak (rp_engine s)"
  "td_run (rp_db (flush_equity_buffer s)) = td_run (rp_db s)"
  by (simp_all add: flush_equity_buffer_def Let_def)

lemma flush_equity_inv:
  assumes "equity_inv candles k s" "sorted_wrt (<) (map bc_ts candles)"
  shows "equity_inv candles k (flush_equity_buffer s)"
proof -
  have "distinct (map eq_ts (equity_rows s))"
    using assms sorted_distinct [OF assms(2)] by (simp add: equity_inv_def Let_def)
  from flush_rows(1) [OF this] flush_same [of s] assms(1) show ?thesis
    by (simp add: equity_inv_def Let_def same_books_def)
qed

text \<open>Stages that leave the curve alone.\<close>

definition same_curve :: "replay \<Rightarrow> replay \<Rightarrow> bool" where
  "same_curve s s' \<longleftrightarrow> td_equity (rp_db s') = td_equity (rp_db s) \<and>
     be_equity_buffer (rp_engine s') = be_equity_buffer (rp_engine s) \<and> rp_series s' = rp_series s \<and>
     be_peak (rp_engine s') = be_peak (rp_engine s) \<and> be_initial_balance (rp_engine s') = be_initial_balance (rp_engine s)"

lemma close_curve: "execute_close p t reason pos (s, out) = (s', out') \<Longrightarrow> same_curve s s'"
  by (auto simp: execute_close_def write_close_order_def write_close_position_def Let_def same_curve_def)

lemma same_curve_refl [simp]: "same_curve s s"
  by (simp add: same_curve_def)

lemma same_curve_trans: "same_curve a b \<Longrightarrow> same_curve b c \<Longrightarrow> same_curve a c"
  by (simp add: same_curve_def)

lemma fill_curve:
  assumes "fill_pending c idx s = (jo, s1, out)"
  shows "same_curve s s1"
proof (cases "be_pending_open (rp_engine s)")
  case (Some i)
  then show ?thesis
    using assms by (auto simp: fill_pending_def execute_pending_open_def write_open_order_def
        write_open_position_def Let_def same_curve_def)
next
  case None
  then have "execute_pending_close c (s, []) = (s1, out)"
    using assms by (simp add: fill_pending_def execute_pending_open_def)
  then show ?thesis
    by (auto simp: execute_pending_close_def same_curve_def [of s "_\<lparr>rp_engine := _\<rparr>"] intro: close_curve
        split: option.splits)
qed

lemma levels_curve: "check_levels c idx jo (s, out) = (s', out') \<Longrightarrow> same_curve s s'"
  by (auto simp: check_levels_def split: option.splits if_splits intro: close_curve)

text \<open>While no candle has been processed there is no position, and the first two stages leave it so.\<close>

lemma fill_idle:
  assumes "fill_pending c idx s = (jo, s1, out)" "be_pending_open (rp_engine s) = None" "be_open_position (rp_engine s) = None"
  shows "be_pending_open (rp_engine s1) = None \<and> be_open_position (rp_engine s1) = None \<and>
    be_current_balance (rp_engine s1) = be_current_balance (rp_engine s)"
  using assms by (auto simp: fill_pending_def execute_pending_open_def execute_pending_close_def split: option.splits)

lemma levels_idle:
  "check_levels c idx jo (s, out) = (s', out') \<Longrightarrow> be_open_position (rp_engine s) = None \<Longrightarrow> s' = s"
  by (simp add: check_levels_def)

text \<open>Before the equity row: the curve is the one of the candles so far, and if it is empty the mark is the initial balance.\<close>

definition before_row :: "bt_candle list \<Rightarrow> nat \<Rightarrow> replay \<Rightarrow> bool" where
  "before_row candles k s \<longleftrightarrow>
     (let eng = rp_engine s; series = rp_series s in
      map eq_ts (equity_rows s) = map bc_ts (drop WARMUP_CANDLES (take k candles)) \<and>
      map eq_mark (equity_rows s) = series \<and>
      be_peak eng = fold max series (be_initial_balance eng) \<and>
      map eq_drawdown (equity_rows s) = map (\<lambda>d. py_round d 4) (drawdowns (be_initial_balance eng) series) \<and>
      (if series = [] then \<forall>price. mark_balance eng price = be_initial_balance eng else hd series = be_initial_balance eng))"

lemma take_next: "k < length xs \<Longrightarrow> n \<le> k \<Longrightarrow> drop n (take (Suc k) xs) = drop n (take k xs) @ [xs ! k]"
  by (simp add: take_Suc_conv_app_nth)

lemma equity_step_inv:
  assumes b: "before_row candles k s" and k: "k < length candles" "WARMUP_CANDLES \<le> k"
    and sorted: "sorted_wrt (<) (map bc_ts candles)"
  shows "equity_inv candles (k + 1) (equity_step cfg (candles ! k) p s)"
proof -
  define c where "c = candles ! k"
  define mark where "mark = mark_balance (rp_engine s) (bc_close c)"
  define row where "row = \<lparr>eq_ts = bc_ts c, eq_realized = be_current_balance (rp_engine s), eq_mark = mark, eq_trade_pnl = p,
    eq_drawdown = py_round (drawdown_pct (max (be_peak (rp_engine s)) mark) mark) 4\<rparr>"
  define s1 where "s1 = s\<lparr>rp_engine := (rp_engine s)\<lparr>be_peak := max (be_peak (rp_engine s)) mark,
      be_equity_buffer := be_equity_buffer (rp_engine s) @ [row],
      be_candles_processed := be_candles_processed (rp_engine s) + 1\<rparr>, rp_series := rp_series s @ [mark]\<rparr>"
  have rows: "equity_rows s1 = equity_rows s @ [row]" by (simp add: s1_def equity_rows_def)
  have fields: "rp_series s1 = rp_series s @ [mark]" "be_peak (rp_engine s1) = max mark (be_peak (rp_engine s))"
    "be_initial_balance (rp_engine s1) = be_initial_balance (rp_engine s)"
    by (simp_all add: s1_def max.commute)
  have row: "eq_ts row = bc_ts c" "eq_mark row = mark"
    "eq_drawdown row = py_round (drawdown_pct (max (be_peak (rp_engine s)) mark) mark) 4"
    by (simp_all add: row_def)
  have hd: "hd (rp_series s @ [mark]) = be_initial_balance (rp_engine s)"
    using b by (auto simp: before_row_def Let_def mark_def hd_append split: if_splits)
  have "equity_inv candles (k + 1) s1"
    using b hd by (simp add: equity_inv_def before_row_def Let_def rows fields row drawdowns_snoc take_next [OF k] c_def)
  moreover from this have "equity_inv candles (k + 1) (flush_equity_buffer s1)"
    by (rule flush_equity_inv [OF _ sorted])
  moreover have "equity_step cfg c p s = (if bs_insert_batch cfg \<le> length (be_equity_buffer (rp_engine s1))
      then flush_equity_buffer s1 else s1)"
    by (simp add: equity_step_def Let_def s1_def row_def mark_def c_def)
  ultimately show ?thesis by (simp add: c_def)
qed

lemma before_row_curve:
  assumes "before_row candles k s" "same_curve s s'"
    and "be_current_balance (rp_engine s') = be_current_balance (rp_engine s)"
    and "be_open_position (rp_engine s') = be_open_position (rp_engine s)"
  shows "before_row candles k s'"
proof -
  have "mark_balance (rp_engine s') = mark_balance (rp_engine s)"
    using assms(3,4) by (simp add: mark_balance_def fun_eq_iff cong: option.case_cong)
  with assms(1,2) show ?thesis by (simp add: before_row_def Let_def same_curve_def equity_rows_def)
qed

lemma stages_before_row:
  assumes inv: "equity_inv candles k s" and f: "fill_pending c idx s = (jo, s1, out)"
    and e: "check_levels c idx jo (s1, out) = (s2, out2)"
  shows "before_row candles k s2"
proof -
  have curve: "same_curve s s2" using fill_curve [OF f] levels_curve [OF e] by (rule same_curve_trans)
  have "\<forall>price. mark_balance (rp_engine s2) price = be_initial_balance (rp_engine s)" if "rp_series s = []"
    using that inv fill_idle [OF f] levels_idle [OF e] by (auto simp: equity_inv_def Let_def mark_balance_def)
  then show ?thesis
    using inv curve by (auto simp: equity_inv_def before_row_def Let_def same_curve_def equity_rows_def)
qed

lemma before_row_engine:
  assumes "before_row candles k s" "be_peak eng = be_peak (rp_engine s)" "be_equity_buffer eng = be_equity_buffer (rp_engine s)"
    and "be_initial_balance eng = be_initial_balance (rp_engine s)" "be_current_balance eng = be_current_balance (rp_engine s)"
    and "be_open_position eng = be_open_position (rp_engine s)" "td_equity db = td_equity (rp_db s)"
  shows "before_row candles k (s\<lparr>rp_engine := eng, rp_db := db\<rparr>)"
  by (rule before_row_curve [OF assms(1)]) (simp_all add: same_curve_def assms)

lemma candle_ok_inv:
  assumes "before_row candles k s" "k < length candles" "WARMUP_CANDLES \<le> k" "sorted_wrt (<) (map bc_ts candles)"
  shows "equity_inv candles (k + 1) (candle_ok cfg (candles ! k) out a s)"
proof -
  have fields: "be_peak (record_intent a t eng) = be_peak eng" "be_equity_buffer (record_intent a t eng) = be_equity_buffer eng"
    "be_initial_balance (record_intent a t eng) = be_initial_balance eng"
    "be_current_balance (record_intent a t eng) = be_current_balance eng"
    "be_open_position (record_intent a t eng) = be_open_position eng" for t eng
    by (simp_all add: record_intent_def Let_def)
  have "before_row candles k (s\<lparr>rp_engine := record_intent a (bc_ts (candles ! k)) (rp_engine s), rp_db := rp_db s\<rparr>)"
    by (rule before_row_engine [OF assms(1)]) (simp_all add: fields)
  then have "before_row candles k (s\<lparr>rp_engine := record_intent a (bc_ts (candles ! k)) (rp_engine s)\<rparr>)" by simp
  from equity_step_inv [OF this assms(2-4)]
  have "equity_inv candles (k + 1) (equity_step cfg (candles ! k) p
      (s\<lparr>rp_engine := record_intent a (bc_ts (candles ! k)) (rp_engine s)\<rparr>))" for p .
  moreover have "equity_inv candles n (t\<lparr>rp_db := update_progress m (rp_db t)\<rparr>) = equity_inv candles n t" for n m t
    by (simp add: equity_inv_def Let_def equity_rows_def update_progress_def)
  ultimately show ?thesis by (simp add: candle_ok_def Let_def)
qed

lemma candle_step_equity:
  assumes inv: "equity_inv candles k s" and k: "k < length candles" "WARMUP_CANDLES \<le> k"
    and sorted: "sorted_wrt (<) (map bc_ts candles)" and step: "candle_step cfg w sc tf candles k s = Inr s'"
  shows "equity_inv candles (k + 1) s'"
proof -
  obtain jo s1 out where f: "fill_pending (candles ! k) k s = (jo, s1, out)" by (metis prod.exhaust)
  obtain s2 out2 where e: "check_levels (candles ! k) k jo (s1, out) = (s2, out2)" by (rule prod.exhaust)
  have b2: "before_row candles k s2" by (rule stages_before_row [OF inv f e])
  obtain pnl where p: "pnl_today (rp_engine s2) (bc_ts (candles ! k)) = Inr pnl"
    using step f e by (cases "pnl_today (rp_engine s2) (bc_ts (candles ! k))") (auto simp: candle_step_def)
  define s3 where "s3 = count_signal s2"
  define a where "a = agent_state_of sc tf candles k (bc_ts (candles ! k)) pnl (rp_engine s2)"
  have r: "(case run_graph w a (rp_db s3) of
          Graph_cancelled \<Rightarrow> Inl (Stop_cancelled, s3)
        | Graph_raised \<Rightarrow> graph_failure cfg (candles ! k) s3
        | Graph_ended a1 db1 \<Rightarrow> Inr (candle_ok cfg (candles ! k) out2 a1 (s3\<lparr>rp_db := db1\<rparr>))) = Inr s'"
    using step unfolding a_def s3_def candle_step_graph [OF f e p] .
  have b3: "before_row candles k (s3\<lparr>rp_engine := eng, rp_db := db\<rparr>)"
    if "be_peak eng = be_peak (rp_engine s2)" "be_equity_buffer eng = be_equity_buffer (rp_engine s2)"
      "be_initial_balance eng = be_initial_balance (rp_engine s2)" "be_current_balance eng = be_current_balance (rp_engine s2)"
      "be_open_position eng = be_open_position (rp_engine s2)" "td_equity db = td_equity (rp_db s2)" for eng db
    using before_row_engine [OF b2 that] by (simp add: s3_def count_signal_def)
  show ?thesis
  proof (cases "run_graph w a (rp_db s3)")
    case Graph_cancelled
    then show ?thesis using r by simp
  next
    case Graph_raised
    let ?s4 = "s3\<lparr>rp_engine := (rp_engine s3)\<lparr>be_llm_failures := be_llm_failures (rp_engine s3) + 1\<rparr>\<rparr>"
    have "s' = equity_step cfg (candles ! k) None ?s4"
      using r Graph_raised by (auto simp: graph_failure_def Let_def split: if_splits)
    moreover have "before_row candles k ?s4"
      using b3 [of "(rp_engine s3)\<lparr>be_llm_failures := be_llm_failures (rp_engine s3) + 1\<rparr>" "rp_db s2"]
      by (simp add: s3_def count_signal_def)
    ultimately show ?thesis using equity_step_inv [OF _ k sorted] by simp
  next
    case (Graph_ended a1 db1)
    have "td_equity db1 = td_equity (rp_db s2)"
      using Graph_ended by (auto simp: run_graph_def node_dispatch_sim_def Let_def s3_def split: if_splits)
    then have "before_row candles k (s3\<lparr>rp_db := db1\<rparr>)"
      using b3 [of "rp_engine s3" db1] by (simp add: s3_def count_signal_def)
    from candle_ok_inv [OF this k sorted, of cfg out2 a1] show ?thesis using r Graph_ended by simp
  qed
qed

lemma candle_loop_equity:
  assumes "sorted_wrt (<) (map bc_ts candles)" "equity_inv candles k s" "k \<le> length candles" "WARMUP_CANDLES \<le> k"
    and "candle_loop cfg w sc tf candles [k..<length candles] s = Inr s'"
  shows "equity_inv candles (length candles) s'"
  using assms(2-5)
proof (induction "length candles - k" arbitrary: k s)
  case 0
  then show ?case by simp
next
  case (Suc n)
  then have k: "k < length candles" by simp
  have up: "[k..<length candles] = k # [k + 1..<length candles]" using k by (simp add: upt_conv_Cons)
  obtain s1 where s1: "candle_step cfg w sc tf candles k s = Inr s1"
    using Suc.prems(4) by (auto simp: up split: sum.splits)
  have "equity_inv candles (k + 1) s1" by (rule candle_step_equity [OF Suc.prems(1) k Suc.prems(3) assms(1) s1])
  then show ?case using Suc.hyps(1) [of "k + 1" s1] Suc.hyps(2) Suc.prems(3,4) k by (simp add: up s1)
qed

lemma close_end_curve: "same_curve s (close_at_end c s)"
proof (cases "be_open_position (rp_engine s)")
  case (Some pos)
  obtain s' out where "execute_close (bc_close c) (bc_ts c) Run_end pos (s, []) = (s', out)" by (rule prod.exhaust)
  from close_curve [OF this] show ?thesis by (simp add: close_at_end_def Some \<open>execute_close _ _ _ _ _ = _\<close>)
qed (simp add: close_at_end_def)

text \<open>
  The equity curve of a completed replay: the table holds exactly one row for every
  candle after the warm-up, in order, however they were batched; and the maximum drawdown the
  run reports is the largest drawdown in those rows.
\<close>

theorem replay_equity_curve:
  assumes "sorted_wrt (<) (map bc_ts cached)" "sorted_wrt (<) (map bc_ts refetched)" "td_equity db = []"
    and "run_backtest cfg w sx cached refetched db = s" "rr_status (td_run (rp_db s)) = Run_completed"
  shows "map eq_ts (td_equity (rp_db s)) = map bc_ts (drop WARMUP_CANDLES (run_candles cached refetched)) \<and>
     (\<exists>m. rr_metrics (td_run (rp_db s)) = Some m \<and>
        bm_max_drawdown m = fold max (map eq_drawdown (td_equity (rp_db s))) 0)"
proof -
  define candles where "candles = run_candles cached refetched"
  have sorted: "sorted_wrt (<) (map bc_ts candles)" using assms(1,2) by (simp add: candles_def run_candles_def)
  define n where "n = length candles - WARMUP_CANDLES"
  have len: "\<not> length candles < WARMUP_CANDLES + 10"
    using assms(4,5) by (auto simp: run_backtest_def execute_run_def Let_def candles_def)
  then obtain s2 where loop: "candle_loop cfg w (strategy_config_of sx (td_run db)) (rr_timeframe (td_run db)) candles
      [WARMUP_CANDLES..<length candles] (start_loop n db) = Inr s2"
    and fin: "execute_run cfg w sx cached refetched db
      = finish_run n (flush_equity_buffer (close_at_end (List.last candles) s2))"
    using assms(4,5)
    by (auto simp: run_backtest_def execute_run_def Let_def candles_def [symmetric] n_def [symmetric]
        split: sum.splits prod.splits bt_stop.splits)
  have "equity_inv candles WARMUP_CANDLES (start_loop n db)"
    using len by (simp add: equity_inv_def Let_def start_loop_def start_run_def equity_rows_def assms(3) new_engine_def)
  from candle_loop_equity [OF sorted this _ _ loop] len
  have i2: "equity_inv candles (length candles) s2" by simp
  define s3 where "s3 = close_at_end (List.last candles) s2"
  have "same_curve s2 s3"
    using close_end_curve by (simp add: s3_def)
  then have s3: "equity_rows s3 = equity_rows s2" "rp_series s3 = rp_series s2"
    "be_initial_balance (rp_engine s3) = be_initial_balance (rp_engine s2)"
    by (simp_all add: same_curve_def equity_rows_def)
  have d: "distinct (map eq_ts (equity_rows s3))"
    using i2 sorted_distinct [OF sorted, of WARMUP_CANDLES "length candles"] by (simp add: s3(1) equity_inv_def Let_def)
  define s4 where "s4 = flush_equity_buffer s3"
  obtain f m where sf: "s = set_run f s4" and m: "compute_metrics (rp_engine s4) (rp_series s4) = Inr m"
    and rm: "rr_metrics (td_run (rp_db s)) = Some m"
  proof (rule finish_run_cases [of s4 n "td_run (rp_db s4)"])
    fix m assume m: "compute_metrics (rp_engine s4) (rp_series s4) = Inr m"
      and "\<exists>f. finish_run n s4 = Inr (set_run f s4) \<and> rr_metrics (f (td_run (rp_db s4))) = Some m
        \<and> rr_status (f (td_run (rp_db s4))) = Run_completed"
    then obtain f where "finish_run n s4 = Inr (set_run f s4)" "rr_metrics (f (td_run (rp_db s4))) = Some m" by blast
    with fin assms(4) have "s = set_run f s4" "rr_metrics (td_run (rp_db s)) = Some m"
      by (auto simp: run_backtest_def s3_def [symmetric] s4_def [symmetric])
    then show thesis using m by (intro that)
  next
    fix e assume "finish_run n s4 = Inl (Stop_failed e, s4)"
    with fin assms(4,5) show thesis by (auto simp: run_backtest_def s3_def [symmetric] s4_def [symmetric])
  qed
  have table: "td_equity (rp_db s) = equity_rows s2"
    using flush_rows(2) [OF d] s3(1) by (simp add: sf s4_def)
  have ini: "be_initial_balance (rp_engine s4) = be_initial_balance (rp_engine s2)" and ser: "rp_series s4 = rp_series s2"
    using flush_same(1) [of s3] s3 by (simp_all add: s4_def same_books_def)
  obtain b bs where series: "rp_series s2 = b # bs"
  proof (cases "rp_series s2")
    case Nil
    then have "map bc_ts (drop WARMUP_CANDLES candles) = []"
      using i2 by (auto simp: equity_inv_def Let_def)
    with len show thesis by simp
  qed
  then have b: "b = be_initial_balance (rp_engine s2)" using i2 by (simp add: equity_inv_def Let_def)
  have "bm_max_drawdown m = py_round (max_drawdown b (b # bs)) 4"
    using m by (auto simp: compute_metrics_def Let_def ini ser series b split: if_splits)
  also have "\<dots> = fold max (map (\<lambda>d. py_round d 4) (drawdowns b (b # bs))) 0"
    by (simp only: max_drawdown_fold py_round_fold_max py_round_zero)
  also have "map (\<lambda>d. py_round d 4) (drawdowns b (b # bs)) = map eq_drawdown (td_equity (rp_db s))"
    using i2 by (simp only: equity_inv_def Let_def table series b)
  finally show ?thesis using rm i2 by (simp add: table equity_inv_def Let_def candles_def)
qed

end
