(* ===== verification/BacktestGuard.thy ===== *)
theory BacktestGuard
  imports BacktestEquity
begin

text \<open>
  The guard of a replay and its log: openings of the same kind keep the cooldown between them;
  what the guard's rounding does to a cheap asset; and what a run makes of a model that fails.
\<close>

section \<open>The log\<close>

text \<open>Stages that leave the log and the counters of the run row alone.\<close>

definition same_log :: "replay \<Rightarrow> replay \<Rightarrow> bool" where
  "same_log s s' \<longleftrightarrow> td_log (rp_db s') = td_log (rp_db s) \<and>
     rr_total_signals (td_run (rp_db s')) = rr_total_signals (td_run (rp_db s))"

lemma same_log_refl [simp]: "same_log s s"
  by (simp add: same_log_def)

lemma same_log_trans: "same_log a b \<Longrightarrow> same_log b c \<Longrightarrow> same_log a c"
  by (simp add: same_log_def)

lemma close_log: "execute_close p t reason pos (s, out) = (s', out') \<Longrightarrow> same_log s s'"
  by (auto simp: execute_close_def write_close_order_def write_close_position_def Let_def same_log_def)

lemma fill_log:
  assumes "fill_pending c idx s = (jo, s1, out)"
  shows "same_log s s1"
proof (cases "be_pending_open (rp_engine s)")
  case (Some i)
  then show ?thesis
    using assms by (auto simp: fill_pending_def execute_pending_open_def write_open_order_def
        write_open_position_def Let_def same_log_def)
next
  case None
  then have "execute_pending_close c (s, []) = (s1, out)"
    using assms by (simp add: fill_pending_def execute_pending_open_def)
  then show ?thesis
    by (auto simp: execute_pending_close_def same_log_def [of s "_\<lparr>rp_engine := _\<rparr>"] intro: close_log
        split: option.splits)
qed

lemma levels_log: "check_levels c idx jo (s, out) = (s', out') \<Longrightarrow> same_log s s'"
  by (auto simp: check_levels_def split: option.splits if_splits intro: close_log)

lemma equity_log: "same_log s (equity_step cfg c p s)"
  by (simp add: equity_step_def flush_equity_buffer_def Let_def same_log_def)

lemma candle_ok_log: "same_log s (candle_ok cfg c p a s)"
  by (simp add: candle_ok_def equity_step_def flush_equity_buffer_def update_progress_def Let_def same_log_def)

lemma graph_failure_log: "case graph_failure cfg c s of Inl (_, s') \<Rightarrow> same_log s s' | Inr s' \<Rightarrow> same_log s s'"
  using equity_log [of "s\<lparr>rp_engine := (rp_engine s)\<lparr>be_llm_failures := be_llm_failures (rp_engine s) + 1\<rparr>\<rparr>" cfg c None]
  by (auto simp: graph_failure_def Let_def same_log_def)

text \<open>
  A candle adds at most one row to the log: the one of its own time, as the guard left it.
\<close>

definition guarded :: "bt_world \<Rightarrow> signal_log_row list \<Rightarrow> agent_state \<Rightarrow> agent_state" where
  "guarded w rows a = node_guard_sim (bw_query_fails w) rows (node_analyze_sim (bw_llm w) (node_ingest_replay a))"

definition log_row_of :: "agent_state \<Rightarrow> signal_log_row" where
  "log_row_of a = \<lparr>sl_triggered_at = ag_simulated_now a, sl_action = map_option ls_action (ag_llm_signal a),
     sl_confidence = map_option ls_confidence (ag_llm_signal a), sl_gate_passed = ag_gate_passed a, sl_rejection = ag_rejection a\<rparr>"

lemma graph_log:
  assumes "run_graph w a db = Graph_ended a1 db1"
  shows "td_log db1 = td_log db @ [log_row_of (guarded w (td_log db) a)]" "td_run db1 = td_run db"
  using assms by (auto simp: run_graph_def node_dispatch_sim_def guarded_def log_row_of_def Let_def split: if_splits)

lemma candle_step_log:
  assumes r_def: "candle_step cfg w sc tf candles k s = r"
  shows "\<exists>s'. (r = Inr s' \<or> (\<exists>why. r = Inl (why, s'))) \<and>
     rr_total_signals (td_run (rp_db s')) = rr_total_signals (td_run (rp_db s)) \<and>
     (td_log (rp_db s') = td_log (rp_db s) \<or>
      (\<exists>a. ag_config a = sc \<and> ag_simulated_now a = bc_ts (candles ! k) \<and>
         td_log (rp_db s') = td_log (rp_db s) @ [log_row_of (guarded w (td_log (rp_db s)) a)]))"
proof -
  obtain jo s1 out where f: "fill_pending (candles ! k) k s = (jo, s1, out)" by (metis prod.exhaust)
  obtain s2 out2 where e: "check_levels (candles ! k) k jo (s1, out) = (s2, out2)" by (rule prod.exhaust)
  have l2: "same_log s s2" using fill_log [OF f] levels_log [OF e] by (rule same_log_trans)
  show ?thesis
  proof (cases "pnl_today (rp_engine s2) (bc_ts (candles ! k))")
    case (Inl err)
    then have "r = Inl (Stop_failed err, s2)" using f e r_def by (simp add: candle_step_def)
    then show ?thesis using l2 by (auto simp: same_log_def)
  next
    case (Inr pnl)
    define a where "a = agent_state_of sc tf candles k (bc_ts (candles ! k)) pnl (rp_engine s2)"
    have r: "r = (case run_graph w a (rp_db (count_signal s2)) of
          Graph_cancelled \<Rightarrow> Inl (Stop_cancelled, count_signal s2)
        | Graph_raised \<Rightarrow> graph_failure cfg (candles ! k) (count_signal s2)
        | Graph_ended a1 db1 \<Rightarrow> Inr (candle_ok cfg (candles ! k) out2 a1 ((count_signal s2)\<lparr>rp_db := db1\<rparr>)))"
      unfolding r_def [symmetric] a_def by (rule candle_step_graph [OF f e Inr])
    have a: "ag_config a = sc" "ag_simulated_now a = bc_ts (candles ! k)" by (simp_all add: a_def agent_state_of_def)
    show ?thesis
    proof (cases "run_graph w a (rp_db (count_signal s2))")
      case Graph_cancelled
      then show ?thesis using r l2 by (auto simp: same_log_def)
    next
      case Graph_raised
      then show ?thesis
        using r l2 graph_failure_log [where cfg = cfg and c = "candles ! k" and s = "count_signal s2"]
        by (cases "graph_failure cfg (candles ! k) (count_signal s2)") (auto simp: same_log_def)
    next
      case (Graph_ended a1 db1)
      define s' where "s' = candle_ok cfg (candles ! k) out2 a1 ((count_signal s2)\<lparr>rp_db := db1\<rparr>)"
      have "same_log ((count_signal s2)\<lparr>rp_db := db1\<rparr>) s'" unfolding s'_def by (rule candle_ok_log)
      then have "td_log (rp_db s') = td_log (rp_db s) @ [log_row_of (guarded w (td_log (rp_db s)) a)]"
        "rr_total_signals (td_run (rp_db s')) = rr_total_signals (td_run (rp_db s))"
        using graph_log [OF Graph_ended] l2 by (simp_all add: same_log_def)
      moreover have "r = Inr s'" using r Graph_ended by (simp add: s'_def)
      ultimately show ?thesis using a by blast
    qed
  qed
qed

section \<open>The cooldown\<close>

definition opening_action :: "string \<Rightarrow> bool" where
  "opening_action act \<longleftrightarrow> act = ''open_long'' \<or> act = ''open_short''"

text \<open>Two log rows that both passed an opening of the same kind are more than the cooldown apart.\<close>

definition spaced :: "int \<Rightarrow> signal_log_row \<Rightarrow> signal_log_row \<Rightarrow> bool" where
  "spaced minutes r r' \<longleftrightarrow>
     (sl_gate_passed r \<and> sl_gate_passed r' \<and> sl_action r = sl_action r' \<and>
      (\<exists>act. sl_action r = Some act \<and> opening_action act)
      \<longrightarrow> sl_triggered_at r + minutes * 60000 < sl_triggered_at r')"

lemma ingest_fields [simp]:
  "ag_config (node_ingest_replay a) = ag_config a" "ag_simulated_now (node_ingest_replay a) = ag_simulated_now a"
  "ag_position (node_ingest_replay a) = ag_position a"
  by (simp_all add: node_ingest_replay_def Let_def)

lemma analyze_fields [simp]:
  "ag_config (node_analyze_sim llm a) = ag_config a" "ag_simulated_now (node_analyze_sim llm a) = ag_simulated_now a"
  "ag_position (node_analyze_sim llm a) = ag_position a" "ag_ohlcv (node_analyze_sim llm a) = ag_ohlcv a"
  by (simp_all add: node_analyze_sim_def node_analyze_def)

lemma reject_fields [simp]:
  "ag_config (reject reason a) = ag_config a" "ag_simulated_now (reject reason a) = ag_simulated_now a"
  "ag_llm_signal (reject reason a) = ag_llm_signal a" "ag_gate_passed (reject reason a) = False"
  "ag_position (reject reason a) = ag_position a"
  by (simp_all add: reject_def)

lemma resolve_fields [simp]:
  "ag_simulated_now (resolve_open sig a) = ag_simulated_now a" "ag_llm_signal (resolve_open sig a) = ag_llm_signal a"
  by (simp_all add: resolve_open_def Let_def)

lemma guard_fields [simp]:
  "ag_simulated_now (node_guard_sim q rows a) = ag_simulated_now a"
  "ag_llm_signal (node_guard_sim q rows a) = ag_llm_signal a"
  by (simp_all add: node_guard_sim_def Let_def split: option.split)

lemma guard_passes_opening:
  assumes "ag_gate_passed (node_guard_sim q rows a)" "ag_llm_signal a = Some sig" "opening_action (ls_action sig)" "\<not> q a"
  shows "\<not> in_cooldown rows (ls_action sig) (sc_cooldown_entry (ag_config a)) (ag_simulated_now a)"
  using assms
  by (auto simp: node_guard_sim_def Let_def opening_action_def action_cooldown_def split: if_splits)

lemma guarded_spaced:
  assumes "\<forall>r\<in>set rows. sl_triggered_at r < ag_simulated_now a" "bw_query_fails w = (\<lambda>_. False)" "r \<in> set rows"
  shows "spaced (sc_cooldown_entry (ag_config a)) r (log_row_of (guarded w rows a))"
proof -
  let ?a1 = "node_analyze_sim (bw_llm w) (node_ingest_replay a)"
  have "sl_triggered_at r + sc_cooldown_entry (ag_config a) * 60000 < ag_simulated_now a"
    if "ag_gate_passed (guarded w rows a)" "ag_llm_signal ?a1 = Some sig" "opening_action (ls_action sig)"
      "sl_gate_passed r" "sl_action r = Some (ls_action sig)" for sig
  proof -
    have "\<not> in_cooldown rows (ls_action sig) (sc_cooldown_entry (ag_config a)) (ag_simulated_now a)"
      using guard_passes_opening [of "bw_query_fails w" rows ?a1 sig] that assms(2) by (simp add: guarded_def)
    with assms(1,3) that(4,5) show ?thesis
      by (auto simp: in_cooldown_def list_ex_iff)
  qed
  then show ?thesis by (cases "ag_llm_signal ?a1") (auto simp: spaced_def log_row_of_def guarded_def)
qed

definition log_inv :: "int \<Rightarrow> bt_candle list \<Rightarrow> nat \<Rightarrow> replay \<Rightarrow> bool" where
  "log_inv minutes candles k s \<longleftrightarrow>
     sorted_wrt (spaced minutes) (td_log (rp_db s)) \<and>
     (\<forall>r\<in>set (td_log (rp_db s)). \<forall>j<length candles. k \<le> j \<longrightarrow> sl_triggered_at r < bc_ts (candles ! j))"

lemma candle_step_spaced:
  assumes inv: "log_inv (sc_cooldown_entry sc) candles k s" and q: "bw_query_fails w = (\<lambda>_. False)"
    and sorted: "sorted_wrt (<) (map bc_ts candles)" and k: "k < length candles"
    and r: "candle_step cfg w sc tf candles k s = r"
  shows "\<exists>s'. (r = Inr s' \<or> (\<exists>why. r = Inl (why, s'))) \<and> log_inv (sc_cooldown_entry sc) candles (k + 1) s'"
proof -
  have later: "bc_ts (candles ! k) < bc_ts (candles ! j)" if "k + 1 \<le> j" "j < length candles" for j
    using sorted that by (simp add: sorted_wrt_iff_nth_less)
  obtain s' where s': "r = Inr s' \<or> (\<exists>why. r = Inl (why, s'))"
    and l: "td_log (rp_db s') = td_log (rp_db s) \<or> (\<exists>a. ag_config a = sc \<and> ag_simulated_now a = bc_ts (candles ! k) \<and>
         td_log (rp_db s') = td_log (rp_db s) @ [log_row_of (guarded w (td_log (rp_db s)) a)])"
    using candle_step_log [OF r] by blast
  have "log_inv (sc_cooldown_entry sc) candles (k + 1) s'"
    using l
  proof
    assume "td_log (rp_db s') = td_log (rp_db s)"
    then show ?thesis using inv by (simp add: log_inv_def)
  next
    assume "\<exists>a. ag_config a = sc \<and> ag_simulated_now a = bc_ts (candles ! k) \<and>
         td_log (rp_db s') = td_log (rp_db s) @ [log_row_of (guarded w (td_log (rp_db s)) a)]"
    then obtain a where a: "ag_config a = sc" "ag_simulated_now a = bc_ts (candles ! k)"
      and lg: "td_log (rp_db s') = td_log (rp_db s) @ [log_row_of (guarded w (td_log (rp_db s)) a)]"
      by blast
    have before: "\<forall>r\<in>set (td_log (rp_db s)). sl_triggered_at r < ag_simulated_now a"
      using inv k a(2) by (simp add: log_inv_def)
    have "sl_triggered_at (log_row_of (guarded w (td_log (rp_db s)) a)) = bc_ts (candles ! k)"
      using a(2) by (simp add: log_row_of_def guarded_def)
    then show ?thesis
      using inv guarded_spaced [OF before q] later
      by (auto simp: log_inv_def lg sorted_wrt_append a(1))
  qed
  with s' show ?thesis by blast
qed

lemma candle_loop_spaced:
  assumes "bw_query_fails w = (\<lambda>_. False)" "sorted_wrt (<) (map bc_ts candles)"
    and "log_inv (sc_cooldown_entry sc) candles k s" "k \<le> length candles"
    and "candle_loop cfg w sc tf candles [k..<length candles] s = r"
  shows "\<exists>s'. (r = Inr s' \<or> (\<exists>why. r = Inl (why, s'))) \<and> sorted_wrt (spaced (sc_cooldown_entry sc)) (td_log (rp_db s'))"
  using assms(3-5)
proof (induction "length candles - k" arbitrary: k s)
  case 0
  then show ?case by (auto simp: log_inv_def)
next
  case (Suc n)
  then have k: "k < length candles" by simp
  have up: "[k..<length candles] = k # [k + 1..<length candles]" using k by (simp add: upt_conv_Cons)
  obtain s1 where s1: "candle_step cfg w sc tf candles k s = Inr s1 \<or>
      (\<exists>why. candle_step cfg w sc tf candles k s = Inl (why, s1))"
    and i1: "log_inv (sc_cooldown_entry sc) candles (k + 1) s1"
    using candle_step_spaced [OF Suc.prems(1) assms(1,2) k refl] by blast
  from s1 show ?case
  proof
    assume "candle_step cfg w sc tf candles k s = Inr s1"
    then have "candle_loop cfg w sc tf candles [k + 1..<length candles] s1 = r" using Suc.prems(3) by (simp add: up)
    from Suc.hyps(1) [OF _ i1 _ this] Suc.hyps(2) k show ?thesis by simp
  next
    assume "\<exists>why. candle_step cfg w sc tf candles k s = Inl (why, s1)"
    then show ?thesis using Suc.prems(3) i1 by (auto simp: up log_inv_def)
  qed
qed

text \<open>What is left of the loop in the outcome of a run: the log and the counters of the row.\<close>

lemma close_end_log: "same_log s (close_at_end c s)"
proof (cases "be_open_position (rp_engine s)")
  case (Some pos)
  obtain s' out where e: "execute_close (bc_close c) (bc_ts c) Run_end pos (s, []) = (s', out)" by (rule prod.exhaust)
  from close_log [OF e] show ?thesis by (simp add: close_at_end_def Some e)
qed (simp add: close_at_end_def)

lemma flush_log: "same_log s (flush_equity_buffer s)"
  by (simp add: flush_equity_buffer_def Let_def same_log_def)

lemma start_loop_log [simp]: "td_log (rp_db (start_loop n db)) = td_log db" "td_log (rp_db (start_run db)) = td_log db"
    "rr_total_signals (td_run (rp_db (start_loop n db))) = rr_total_signals (td_run db)"
  by (simp_all add: start_loop_def start_run_def)

lemma run_log_cases:
  obtains (short) "td_log (rp_db (run_backtest cfg w sx cached refetched db)) = td_log db"
  | (looped) candles r s where "candles = run_candles cached refetched" "\<not> length candles < WARMUP_CANDLES + 10"
      "candle_loop cfg w (strategy_config_of sx (td_run db)) (rr_timeframe (td_run db)) candles
         [WARMUP_CANDLES..<length candles] (start_loop (length candles - WARMUP_CANDLES) db) = r"
      "r = Inr s \<or> (\<exists>why. r = Inl (why, s))"
      "td_log (rp_db (run_backtest cfg w sx cached refetched db)) = td_log (rp_db s)"
proof -
  define candles where "candles = run_candles cached refetched"
  define n where "n = length candles - WARMUP_CANDLES"
  define r where "r = candle_loop cfg w (strategy_config_of sx (td_run db)) (rr_timeframe (td_run db)) candles
         [WARMUP_CANDLES..<length candles] (start_loop n db)"
  show thesis
  proof (cases "length candles < WARMUP_CANDLES + 10")
    case True
    then show thesis by (intro short) (simp add: run_backtest_def execute_run_def Let_def candles_def)
  next
    case False
    have run: "execute_run cfg w sx cached refetched db = (case r of Inl stop \<Rightarrow> Inl stop
        | Inr s \<Rightarrow> finish_run n (flush_equity_buffer (close_at_end (List.last candles) s)))"
      using False by (simp add: execute_run_def Let_def r_def n_def flip: candles_def split: sum.split)
    show thesis
    proof (cases r)
      case (Inl x)
      obtain why s where x: "x = (why, s)" by (rule prod.exhaust)
      have "td_log (rp_db (run_backtest cfg w sx cached refetched db)) = td_log (rp_db s)"
        using run Inl x by (cases why) (simp_all add: run_backtest_def)
      then show thesis using Inl x by (intro looped [OF candles_def False r_def [symmetric, unfolded n_def], of s]) auto
    next
      case (Inr s)
      define s4 where "s4 = flush_equity_buffer (close_at_end (List.last candles) s)"
      have "same_log s s4" unfolding s4_def by (rule same_log_trans [OF close_end_log flush_log])
      moreover have "td_log (rp_db (run_backtest cfg w sx cached refetched db)) = td_log (rp_db s4)"
        using run Inr
        by (cases "compute_metrics (rp_engine s4) (rp_series s4)")
          (simp_all add: run_backtest_def finish_run_def Let_def s4_def [symmetric])
      ultimately show thesis
        using Inr by (intro looped [OF candles_def False r_def [symmetric, unfolded n_def], of s]) (auto simp: same_log_def)
    qed
  qed
qed

text \<open>
  The cooldown of a replay: when its query answers, any two signals of a run that
  the guard let open the same side are more than the configured cooldown apart, in simulated
  time, whatever the model asks for.
\<close>

theorem replay_cooldown:
  assumes "bw_query_fails w = (\<lambda>_. False)" "td_log db = []"
    and "sorted_wrt (<) (map bc_ts cached)" "sorted_wrt (<) (map bc_ts refetched)"
  shows "sorted_wrt (spaced (sc_cooldown_entry (strategy_config_of sx (td_run db))))
           (td_log (rp_db (run_backtest cfg w sx cached refetched db)))"
proof (rule run_log_cases [of cfg w sx cached refetched db])
  assume "td_log (rp_db (run_backtest cfg w sx cached refetched db)) = td_log db"
  then show ?thesis by (simp add: assms(2))
next
  fix candles r s
  assume c: "candles = run_candles cached refetched" "\<not> length candles < WARMUP_CANDLES + 10"
    and l: "candle_loop cfg w (strategy_config_of sx (td_run db)) (rr_timeframe (td_run db)) candles
         [WARMUP_CANDLES..<length candles] (start_loop (length candles - WARMUP_CANDLES) db) = r"
    and r: "r = Inr s \<or> (\<exists>why. r = Inl (why, s))"
    and t: "td_log (rp_db (run_backtest cfg w sx cached refetched db)) = td_log (rp_db s)"
  have sorted: "sorted_wrt (<) (map bc_ts candles)" using assms(3,4) c(1) by (simp add: run_candles_def)
  have "log_inv (sc_cooldown_entry (strategy_config_of sx (td_run db))) candles WARMUP_CANDLES
      (start_loop (length candles - WARMUP_CANDLES) db)"
    by (simp add: log_inv_def assms(2))
  from candle_loop_spaced [OF assms(1) sorted this _ l] c(2) r t show ?thesis by auto
qed

section \<open>An asset whose price is small\<close>

text \<open>
  Levels vanish on a cheap asset: levels are rounded to four decimals, so for a
  price of at most 0.00003 every opening the guard lets through has both its stop and its
  target rounded to zero, a zero level counts as none, and a position opened with them is
  closed by no candle, however far the price moves.
\<close>

theorem cheap_asset_has_no_levels:
  assumes "0 < price" "price \<le> 3/100000"
    and "ag_ohlcv a = Some o'" "od_current_price o' = price"
    and "ag_gate_passed (resolve_open sig a)" "\<not> ag_gate_passed a"
    and "sp_sl_price pos = ag_resolved_sl (resolve_open sig a)" "sp_tp_price pos = ag_resolved_tp (resolve_open sig a)"
  shows "ag_resolved_sl (resolve_open sig a) = Some 0 \<and> ag_resolved_tp (resolve_open sig a) = Some 0 \<and>
     check_tp_sl pos c = None"
proof -
  have zero: "py_round (price * x) 4 = 0" if "0 \<le> x" "x \<le> 3/2" for x
  proof -
    have "0 \<le> price * x" using assms(1) that by simp
    moreover have "price * x \<le> 3/100000 * (3/2)" by (intro mult_mono) (use assms(1,2) that in simp_all)
    ultimately have "\<lfloor>price * x * 10 ^ 4\<rfloor> = 0" "price * x * 10 ^ 4 < 1/2" by (simp_all add: floor_eq_iff)
    then show ?thesis by (simp add: py_round_def round_half_even_def Let_def)
  qed
  have b: "MIN_SL_TP_PCT \<le> \<bar>ls_stop_loss_pct sig\<bar>" "\<bar>ls_stop_loss_pct sig\<bar> \<le> MAX_SL_TP_PCT"
    "MIN_SL_TP_PCT \<le> \<bar>ls_take_profit_pct sig\<bar>" "\<bar>ls_take_profit_pct sig\<bar> \<le> MAX_SL_TP_PCT"
    using assms(1,3-6) by (auto simp: resolve_open_def Let_def split: if_splits)
  then have "py_round (price * (1 - \<bar>ls_stop_loss_pct sig\<bar> / 100)) 4 = 0"
    "py_round (price * (1 + \<bar>ls_stop_loss_pct sig\<bar> / 100)) 4 = 0"
    "py_round (price * (1 - \<bar>ls_take_profit_pct sig\<bar> / 100)) 4 = 0"
    "py_round (price * (1 + \<bar>ls_take_profit_pct sig\<bar> / 100)) 4 = 0"
    by (simp_all add: zero MIN_SL_TP_PCT_def MAX_SL_TP_PCT_def)
  with b assms(1,3,4) have "ag_resolved_sl (resolve_open sig a) = Some 0 \<and> ag_resolved_tp (resolve_open sig a) = Some 0"
    by (simp add: resolve_open_def Let_def)
  then show ?thesis
    using assms(7,8) by (simp add: check_tp_sl_def tp_reached_def sl_reached_def level_set_def)
qed

section \<open>A model that fails\<close>

text \<open>A replay in which nothing has happened yet.\<close>

definition untraded :: "replay \<Rightarrow> bool" where
  "untraded s \<longleftrightarrow> be_open_position (rp_engine s) = None \<and> be_pending_open (rp_engine s) = None \<and>
     be_pending_close (rp_engine s) = None \<and> be_trades (rp_engine s) = [] \<and> be_llm_failures (rp_engine s) = 0"

lemma untraded_candle_ok:
  "untraded s \<Longrightarrow> \<not> ag_gate_passed a \<Longrightarrow> untraded (candle_ok cfg c p a s)"
  by (simp add: untraded_def candle_ok_def record_intent_def equity_step_def flush_equity_buffer_def Let_def)

lemma silent_graph:
  assumes "\<forall>a. bw_llm w a = Llm_raised \<or> bw_llm w a = Llm_unparsed"
    and "bw_insert_fails w = (\<lambda>_. False)" "bw_cancelled w = (\<lambda>_. False)" "\<not> sc_dry_signal_mode (ag_config a)"
  shows "\<exists>a1 db1. run_graph w a db = Graph_ended a1 db1 \<and> \<not> ag_gate_passed a1"
proof -
  have "ag_llm_signal (node_analyze_sim (bw_llm w) (node_ingest_replay a)) = None"
    using assms(1) [rule_format, of "node_ingest_replay a"] assms(4) by (auto simp: node_analyze_sim_def node_analyze_def)
  then have "\<not> ag_gate_passed (guarded w (td_log db) a)" by (simp add: guarded_def node_guard_sim_def)
  then show ?thesis
    using assms(2,3) by (simp add: run_graph_def Let_def node_dispatch_sim_def guarded_def)
qed

lemma silent_step:
  assumes s: "untraded s" and w: "\<forall>a. bw_llm w a = Llm_raised \<or> bw_llm w a = Llm_unparsed"
    "bw_insert_fails w = (\<lambda>_. False)" "bw_cancelled w = (\<lambda>_. False)" "\<not> sc_dry_signal_mode sc"
  shows "\<exists>s'. candle_step cfg w sc tf candles k s = Inr s' \<and> untraded s'"
proof -
  have f: "fill_pending (candles ! k) k s = (False, s\<lparr>rp_engine := (rp_engine s)\<lparr>be_pending_close := None\<rparr>\<rparr>, [])"
    using s by (simp add: untraded_def fill_pending_def execute_pending_open_def execute_pending_close_def)
  define s2 where "s2 = s\<lparr>rp_engine := (rp_engine s)\<lparr>be_pending_close := None\<rparr>\<rparr>"
  have u2: "untraded s2" using s by (simp add: s2_def untraded_def)
  have e: "check_levels (candles ! k) k False (s2, []) = (s2, [])"
    using u2 by (simp add: check_levels_def untraded_def)
  have p: "pnl_today (rp_engine s2) (bc_ts (candles ! k)) = Inr 0"
    using u2 by (simp add: pnl_today_def untraded_def)
  let ?a = "agent_state_of sc tf candles k (bc_ts (candles ! k)) 0 (rp_engine s2)"
  obtain a1 db1 where g: "run_graph w ?a (rp_db (count_signal s2)) = Graph_ended a1 db1" "\<not> ag_gate_passed a1"
    using silent_graph [OF w(1-3), of ?a "rp_db (count_signal s2)"] w(4) by (auto simp: agent_state_of_def)
  have "untraded ((count_signal s2)\<lparr>rp_db := db1\<rparr>)" using u2 by (simp add: untraded_def count_signal_def)
  from untraded_candle_ok [OF this g(2)] show ?thesis
    using candle_step_graph [OF f [folded s2_def] e p, of cfg w sc tf] g(1) by simp
qed

lemma silent_loop:
  assumes w: "\<forall>a. bw_llm w a = Llm_raised \<or> bw_llm w a = Llm_unparsed"
    "bw_insert_fails w = (\<lambda>_. False)" "bw_cancelled w = (\<lambda>_. False)" "\<not> sc_dry_signal_mode sc"
  shows "untraded s \<Longrightarrow> \<exists>s'. candle_loop cfg w sc tf candles is s = Inr s' \<and> untraded s'"
proof (induction "is" arbitrary: s)
  case (Cons k "is")
  from silent_step [OF Cons.prems w, of cfg tf candles k] obtain s1
    where "candle_step cfg w sc tf candles k s = Inr s1" "untraded s1" by blast
  with Cons.IH [of s1] show ?case by simp
qed simp

lemma dead_model_run:
  assumes "\<forall>a. bw_llm w a = Llm_raised \<or> bw_llm w a = Llm_unparsed"
    and "bw_insert_fails w = (\<lambda>_. False)" "bw_cancelled w = (\<lambda>_. False)" "\<not> rr_dry_signal_mode (td_run db)"
    and "WARMUP_CANDLES + 10 \<le> length (run_candles cached refetched)"
  obtains s n where "untraded s" "execute_run cfg w sx cached refetched db = finish_run n s"
proof -
  define candles where "candles = run_candles cached refetched"
  define n where "n = length candles - WARMUP_CANDLES"
  have dry: "\<not> sc_dry_signal_mode (strategy_config_of sx (td_run db))" using assms(4) by (simp add: strategy_config_of_def)
  have u: "untraded (start_loop n db)" by (simp add: untraded_def start_loop_def start_run_def new_engine_def)
  obtain s where loop: "candle_loop cfg w (strategy_config_of sx (td_run db)) (rr_timeframe (td_run db)) candles
      [WARMUP_CANDLES..<length candles] (start_loop n db) = Inr s" and us: "untraded s"
    using silent_loop [OF assms(1-3) dry u] by blast
  have "untraded (flush_equity_buffer (close_at_end (List.last candles) s))"
    using us by (simp add: untraded_def close_at_end_def flush_equity_buffer_def Let_def)
  moreover have "execute_run cfg w sx cached refetched db
      = finish_run n (flush_equity_buffer (close_at_end (List.last candles) s))"
    using assms(5) loop by (simp add: execute_run_def Let_def n_def flip: candles_def)
  ultimately show thesis by (rule that)
qed

lemma untraded_metrics:
  assumes "untraded s"
  obtains m where "compute_metrics (rp_engine s) (rp_series s) = Inr m" "bm_total_trades m = 0" "bm_total_pnl m = 0"
  using assms by (auto simp: compute_metrics_def Let_def untraded_def)

text \<open>
  A dead model is not a failure: when every call of the language model raises or
  its answers never parse, on every candle, the run still completes, with no trade and a
  reported failure count and rate of zero; the abort for a high failure rate never triggers.
\<close>

theorem dead_model_unnoticed:
  assumes "\<forall>a. bw_llm w a = Llm_raised \<or> bw_llm w a = Llm_unparsed"
    and "bw_insert_fails w = (\<lambda>_. False)" "bw_cancelled w = (\<lambda>_. False)" "\<not> rr_dry_signal_mode (td_run db)"
    and "WARMUP_CANDLES + 10 \<le> length (run_candles cached refetched)"
  shows "let row = td_run (rp_db (run_backtest cfg w sx cached refetched db)) in
     rr_status row = Run_completed \<and> rr_llm_failures row = 0 \<and> rr_llm_failure_rate row = Some 0 \<and>
     (\<exists>m. rr_metrics row = Some m \<and> bm_total_trades m = 0 \<and> bm_total_pnl m = 0)"
proof -
  obtain s n where u: "untraded s" and run: "execute_run cfg w sx cached refetched db = finish_run n s"
    by (rule dead_model_run [OF assms])
  obtain m where "compute_metrics (rp_engine s) (rp_series s) = Inr m" "bm_total_trades m = 0" "bm_total_pnl m = 0"
    by (rule untraded_metrics [OF u])
  with u run show ?thesis by (simp add: run_backtest_def finish_run_def Let_def untraded_def)
qed

section \<open>A graph that fails\<close>

lemma failing_step:
  assumes u: "be_open_position (rp_engine s) = None" "be_pending_open (rp_engine s) = None" "be_trades (rp_engine s) = []"
    and w: "bw_insert_fails w = (\<lambda>_. True)" "bw_cancelled w = (\<lambda>_. False)"
  shows "\<exists>s2. candle_step cfg w sc tf candles k s = graph_failure cfg (candles ! k) s2 \<and>
     be_open_position (rp_engine s2) = None \<and> be_pending_open (rp_engine s2) = None \<and> be_trades (rp_engine s2) = [] \<and>
     be_candles_processed (rp_engine s2) = be_candles_processed (rp_engine s) \<and>
     be_llm_failures (rp_engine s2) = be_llm_failures (rp_engine s)"
proof -
  define s2 where "s2 = s\<lparr>rp_engine := (rp_engine s)\<lparr>be_pending_close := None\<rparr>\<rparr>"
  have f: "fill_pending (candles ! k) k s = (False, s2, [])"
    using u by (simp add: s2_def fill_pending_def execute_pending_open_def execute_pending_close_def split: option.split)
  have e: "check_levels (candles ! k) k False (s2, []) = (s2, [])" using u by (simp add: s2_def check_levels_def)
  have p: "pnl_today (rp_engine s2) (bc_ts (candles ! k)) = Inr 0" using u by (simp add: s2_def pnl_today_def)
  have "run_graph w a db = Graph_raised" for a db using w by (simp add: run_graph_def Let_def)
  with candle_step_graph [OF f e p, of cfg w sc tf]
  have "candle_step cfg w sc tf candles k s = graph_failure cfg (candles ! k) (count_signal s2)" by simp
  then show ?thesis using u by (intro exI [of _ "count_signal s2"]) (simp add: count_signal_def s2_def)
qed

lemma failing_loop:
  assumes w: "bw_insert_fails w = (\<lambda>_. True)" "bw_cancelled w = (\<lambda>_. False)" and cfg: "bs_failure_threshold cfg < 1"
  shows "be_open_position (rp_engine s) = None \<Longrightarrow> be_pending_open (rp_engine s) = None \<Longrightarrow> be_trades (rp_engine s) = [] \<Longrightarrow>
     be_llm_failures (rp_engine s) = be_candles_processed (rp_engine s) \<Longrightarrow> 100 - be_candles_processed (rp_engine s) < length is \<Longrightarrow>
     \<exists>s'. candle_loop cfg w sc tf candles is s = Inl (Stop_aborted, s')"
proof (induction "is" arbitrary: s)
  case (Cons k "is")
  obtain s2 where step: "candle_step cfg w sc tf candles k s = graph_failure cfg (candles ! k) s2"
    and s2: "be_open_position (rp_engine s2) = None" "be_pending_open (rp_engine s2) = None" "be_trades (rp_engine s2) = []"
     "be_candles_processed (rp_engine s2) = be_candles_processed (rp_engine s)"
     "be_llm_failures (rp_engine s2) = be_candles_processed (rp_engine s)"
    using failing_step [OF Cons.prems(1-3) w, of cfg sc tf candles k] Cons.prems(4) by auto
  let ?s3 = "s2\<lparr>rp_engine := (rp_engine s2)\<lparr>be_llm_failures := be_llm_failures (rp_engine s2) + 1\<rparr>\<rparr>"
  show ?case
  proof (cases "100 \<le> be_candles_processed (rp_engine s)")
    case True
    then have "1 < (1 + rat_of_nat (be_candles_processed (rp_engine s))) / rat_of_nat (be_candles_processed (rp_engine s))"
      by simp
    with cfg have "bs_failure_threshold cfg
        < (1 + rat_of_nat (be_candles_processed (rp_engine s))) / rat_of_nat (be_candles_processed (rp_engine s))"
      by (rule less_trans)
    then show ?thesis using True s2 by (simp add: step graph_failure_def Let_def)
  next
    case False
    define s4 where "s4 = equity_step cfg (candles ! k) None ?s3"
    have "be_open_position (rp_engine s4) = None" "be_pending_open (rp_engine s4) = None" "be_trades (rp_engine s4) = []"
      "be_llm_failures (rp_engine s4) = be_candles_processed (rp_engine s4)"
      "be_candles_processed (rp_engine s4) = be_candles_processed (rp_engine s) + 1"
      using s2 by (simp_all add: s4_def equity_step_def flush_equity_buffer_def Let_def)
    moreover have "candle_step cfg w sc tf candles k s = Inr s4"
      using False s2 by (simp add: step graph_failure_def Let_def s4_def)
    ultimately show ?thesis using Cons.IH [of s4] Cons.prems(5) False by simp
  qed
qed simp

text \<open>
  The failure rate of an aborted run is lost: the counters it is computed from are
  those of the run's row, which nothing writes before the run completes, so an aborted run
  records a rate of zero, although it was aborted for its rate.
\<close>

theorem aborted_run_records_zero:
  assumes "rr_total_signals (td_run db) = None"
    and "rr_status (td_run (rp_db (run_backtest cfg w sx cached refetched db))) = Run_aborted"
  shows "rr_llm_failure_rate (td_run (rp_db (run_backtest cfg w sx cached refetched db))) = Some 0"
proof -
  have loop: "case candle_loop cfg w sc tf candles is s of
      Inl (_, s') \<Rightarrow> rr_total_signals (td_run (rp_db s')) = None | Inr s' \<Rightarrow> True"
    if "rr_total_signals (td_run (rp_db s)) = None" for sc tf candles "is" s
    using that
  proof (induction "is" arbitrary: s)
    case (Cons k "is")
    obtain s' where "candle_step cfg w sc tf candles k s = Inr s' \<or> (\<exists>why. candle_step cfg w sc tf candles k s = Inl (why, s'))"
      and "rr_total_signals (td_run (rp_db s')) = None"
      using candle_step_log [OF refl, of cfg w sc tf candles k s] Cons.prems by auto
    with Cons.IH [of s'] show ?case by auto
  qed simp
  define candles where "candles = run_candles cached refetched"
  define r where "r = candle_loop cfg w (strategy_config_of sx (td_run db)) (rr_timeframe (td_run db)) candles
         [WARMUP_CANDLES..<length candles] (start_loop (length candles - WARMUP_CANDLES) db)"
  have run: "execute_run cfg w sx cached refetched db =
      (if length candles < WARMUP_CANDLES + 10 then Inr (set_run (\<lambda>r. r\<lparr>rr_status := Run_failed\<rparr>) (start_run db))
       else (case r of Inl stop \<Rightarrow> Inl stop
        | Inr s \<Rightarrow> finish_run (length candles - WARMUP_CANDLES) (flush_equity_buffer (close_at_end (List.last candles) s))))"
    by (simp add: execute_run_def Let_def r_def flip: candles_def split: sum.split)
  have "case r of Inl (_, s') \<Rightarrow> rr_total_signals (td_run (rp_db s')) = None | Inr s' \<Rightarrow> True"
    unfolding r_def by (rule loop) (simp add: assms(1))
  moreover obtain s where "execute_run cfg w sx cached refetched db = Inl (Stop_aborted, s)"
  proof (cases "execute_run cfg w sx cached refetched db")
    case (Inl x)
    with assms(2) show thesis by (cases x; cases "fst x") (auto simp: run_backtest_def intro: that)
  next
    case (Inr s)
    then show thesis
      using assms(2) run
      by (auto simp: run_backtest_def finish_run_def Let_def split: if_splits sum.splits)
  qed
  ultimately show ?thesis
    using run by (auto simp: run_backtest_def finish_run_def Let_def split: if_splits sum.splits)
qed

section \<open>Concrete replays\<close>

text \<open>Concrete replays: hourly candles at a price of 100, and the properties of a replay on them.\<close>

definition demo_candle :: "nat \<Rightarrow> bt_candle" where
  "demo_candle i = \<lparr>bc_ts = int i * 3600000, bc_open = 100, bc_high = 101, bc_low = 99, bc_close = 100\<rparr>"

definition demo_candles :: "nat \<Rightarrow> bt_candle list" where
  "demo_candles n = map demo_candle [0..<n]"

definition demo_row :: "bool \<Rightarrow> run_row" where
  "demo_row dry = \<lparr>rr_timeframe = ''1h'', rr_initial_balance = 1000, rr_slippage_pct = 5/100, rr_fee_pct = 2/100,
     rr_dry_signal_mode = dry, rr_status = Run_pending, rr_candles_processed = 0, rr_total_candles = None,
     rr_total_signals = None, rr_gate_passed = None, rr_llm_failures = 0, rr_llm_failure_rate = None, rr_metrics = None\<rparr>"

definition demo_tables :: "bool \<Rightarrow> tester_db" where
  "demo_tables dry = \<lparr>td_orders = [], td_positions = [], td_equity = [], td_log = [], td_run = demo_row dry\<rparr>"

definition demo_world :: bt_world where
  "demo_world = \<lparr>bw_llm = (\<lambda>_. Llm_raised), bw_query_fails = (\<lambda>_. False), bw_insert_fails = (\<lambda>_. False), bw_cancelled = (\<lambda>_. False)\<rparr>"

definition demo_columns :: strategy_columns where
  "demo_columns = \<lparr>sx_use_technical = None, sx_confidence_threshold = None, sx_cooldown_entry = None,
     sx_cooldown_stop_adj = None, sx_max_position_size_pct = None\<rparr>"

definition demo_settings :: bt_settings where
  "demo_settings = \<lparr>bs_failure_threshold = 5/100, bs_insert_batch = 5\<rparr>"

lemma demo_sorted: "sorted_wrt (<) (map bc_ts (demo_candles n))"
  by (simp add: demo_candles_def demo_candle_def sorted_wrt_iff_nth_less)

lemma demo_length [simp]: "length (demo_candles n) = n"
  by (simp add: demo_candles_def)

lemma demo_run_candles: "210 \<le> n \<Longrightarrow> run_candles (demo_candles n) [] = demo_candles n"
  by (simp add: run_candles_def WARMUP_CANDLES_def)

definition demo_run :: "bool \<Rightarrow> nat \<Rightarrow> replay" where
  "demo_run dry n = run_backtest demo_settings demo_world demo_columns (demo_candles n) [] (demo_tables dry)"

theorem replay_no_lookahead_witness:
  "demo_candles 205 @ [demo_candle 205] \<noteq> demo_candles 205 @ [demo_candle 300] \<and>
   candle_loop demo_settings demo_world (strategy_config_of demo_columns (demo_row True)) ''1h''
       (demo_candles 205 @ [demo_candle 205]) [WARMUP_CANDLES..<205] (start_loop 5 (demo_tables True))
     = candle_loop demo_settings demo_world (strategy_config_of demo_columns (demo_row True)) ''1h''
       (demo_candles 205 @ [demo_candle 300]) [WARMUP_CANDLES..<205] (start_loop 5 (demo_tables True))"
proof
  show "demo_candles 205 @ [demo_candle 205] \<noteq> demo_candles 205 @ [demo_candle 300]" by (simp add: demo_candle_def)
qed (rule replay_no_lookahead, simp)

theorem replay_books_balance_witness:
  "be_current_balance (rp_engine (demo_run True 212)) = be_initial_balance (rp_engine (demo_run True 212))
     + sum_list (map tr_net_pnl (be_trades (rp_engine (demo_run True 212)))) - open_fee (rp_engine (demo_run True 212))"
  using replay_books_balance [OF demo_sorted, of "[]" "demo_tables True" demo_settings demo_world demo_columns 212]
  by (simp add: demo_run_def demo_tables_def)

theorem replay_positions_table_witness:
  "closed_nets (td_positions (rp_db (demo_run True 212))) = map tr_net_pnl (be_trades (rp_engine (demo_run True 212)))
   \<and> list_all closes_later (td_positions (rp_db (demo_run True 212)))"
  using replay_positions_table [OF demo_sorted, of "[]" "demo_tables True" demo_settings demo_world demo_columns 212]
  by (simp add: demo_run_def demo_tables_def)

lemma demo_world_fields:
  "bw_llm demo_world = (\<lambda>_. Llm_raised)" "bw_query_fails demo_world = (\<lambda>_. False)"
  "bw_insert_fails demo_world = (\<lambda>_. False)" "bw_cancelled demo_world = (\<lambda>_. False)"
  by (simp_all add: demo_world_def)

lemma demo_completes: "rr_status (td_run (rp_db (demo_run False 212))) = Run_completed"
proof -
  obtain s n where u: "untraded s" and run: "execute_run demo_settings demo_world demo_columns (demo_candles 212) [] (demo_tables False) = finish_run n s"
    by (rule dead_model_run [of demo_world "demo_tables False" "demo_candles 212" "[]" demo_settings demo_columns])
      (simp_all add: demo_world_fields demo_tables_def demo_row_def demo_run_candles WARMUP_CANDLES_def)
  obtain m where "compute_metrics (rp_engine s) (rp_series s) = Inr m" by (rule untraded_metrics [OF u])
  with run show ?thesis by (simp add: demo_run_def run_backtest_def finish_run_def Let_def)
qed

theorem replay_equity_curve_witness:
  "length (td_equity (rp_db (demo_run False 212))) = 12 \<and>
   map eq_ts (td_equity (rp_db (demo_run False 212))) = map bc_ts (drop 200 (demo_candles 212))"
proof -
  have e: "map eq_ts (td_equity (rp_db (demo_run False 212))) = map bc_ts (drop 200 (demo_candles 212))"
    using replay_equity_curve [OF demo_sorted, of "[]" "demo_tables False" demo_settings demo_world demo_columns 212] demo_completes
    by (simp add: demo_run_def demo_tables_def demo_run_candles WARMUP_CANDLES_def)
  from arg_cong [OF this, of length] have "length (td_equity (rp_db (demo_run False 212))) = 12" by simp
  with e show ?thesis by simp
qed

theorem replay_cooldown_witness:
  "sorted_wrt (spaced 240) (td_log (rp_db (demo_run True 212)))"
  using replay_cooldown [of demo_world "demo_tables True" "demo_candles 212" "[]" demo_columns demo_settings] demo_sorted [of 212]
  by (simp add: demo_run_def demo_tables_def demo_world_fields strategy_config_of_def demo_columns_def)

theorem dead_model_unnoticed_witness:
  "let row = td_run (rp_db (demo_run False 212)) in
     rr_status row = Run_completed \<and> rr_llm_failures row = 0 \<and> rr_llm_failure_rate row = Some 0"
  using dead_model_unnoticed [of demo_world "demo_tables False" "demo_candles 212" "[]" demo_settings demo_columns]
  by (simp add: demo_run_def demo_tables_def demo_row_def demo_world_fields demo_run_candles WARMUP_CANDLES_def Let_def)

text \<open>A world in which the log insert always fails: 301 candles are enough to abort.\<close>

definition failing_world :: bt_world where
  "failing_world = demo_world\<lparr>bw_insert_fails := (\<lambda>_. True)\<rparr>"

lemma failing_aborts:
  "rr_status (td_run (rp_db (run_backtest demo_settings failing_world demo_columns (demo_candles 310) [] (demo_tables False)))) = Run_aborted"
proof -
  have "\<exists>s'. candle_loop demo_settings failing_world sc tf candles [WARMUP_CANDLES..<310] (start_loop n (demo_tables False))
      = Inl (Stop_aborted, s')" for sc tf candles n
    by (rule failing_loop)
      (simp_all add: failing_world_def demo_world_fields demo_settings_def start_loop_def start_run_def new_engine_def WARMUP_CANDLES_def)
  from this [of "strategy_config_of demo_columns (demo_row False)" "''1h''" "demo_candles 310" 110]
  obtain s' where "execute_run demo_settings failing_world demo_columns (demo_candles 310) [] (demo_tables False) = Inl (Stop_aborted, s')"
    by (auto simp: execute_run_def Let_def demo_run_candles WARMUP_CANDLES_def demo_tables_def demo_row_def)
  then show ?thesis by (simp add: run_backtest_def)
qed

theorem aborted_run_records_zero_witness:
  "rr_llm_failure_rate (td_run (rp_db (run_backtest demo_settings failing_world demo_columns (demo_candles 310) [] (demo_tables False)))) = Some 0"
  using aborted_run_records_zero [OF _ failing_aborts] by (simp add: demo_tables_def demo_row_def)

definition cheap_state :: agent_state where
  "cheap_state = \<lparr>ag_config = strategy_config_of demo_columns (demo_row False), ag_cycle_interval = ''1h'', ag_position = None,
     ag_simulated_now = 0, ag_sim_balance = 1000, ag_sim_pnl_today = 0, ag_window = [],
     ag_ohlcv = Some \<lparr>od_current_price = 2/100000, od_change_24h = 0, od_change_7d = 0\<rparr>, ag_llm_signal = None,
     ag_gate_passed = False, ag_rejection = None, ag_resolved_size = None, ag_resolved_sl = None, ag_resolved_tp = None,
     ag_sim_action = None\<rparr>"

definition cheap_position :: sim_position where
  "cheap_position = \<lparr>sp_position_id = 0, sp_side = Sim_long, sp_entry_price = 2/100000, sp_size = 2500000,
     sp_sl_price = Some 0, sp_tp_price = Some 0, sp_fee_open = 0, sp_opened_at = 0, sp_opened_idx = 0,
     sp_opening_order_id = 0, sp_leverage = 1\<rparr>"

definition cheap_signal :: llm_signal where
  "cheap_signal = dry_signal ''open_long'' (85/100) 5 2 4"

theorem cheap_asset_has_no_levels_witness:
  "check_tp_sl cheap_position \<lparr>bc_ts = 0, bc_open = 0, bc_high = 1, bc_low = 0, bc_close = 0\<rparr> = None \<and>
   ag_resolved_sl (resolve_open cheap_signal cheap_state) = Some 0"
proof -
  have "ag_gate_passed (resolve_open cheap_signal cheap_state)"
    "sp_sl_price cheap_position = ag_resolved_sl (resolve_open cheap_signal cheap_state)"
    "sp_tp_price cheap_position = ag_resolved_tp (resolve_open cheap_signal cheap_state)" by code_simp+
  then show ?thesis
    using cheap_asset_has_no_levels [where a = cheap_state and sig = cheap_signal and pos = cheap_position and price = "2/100000"
        and o' = "\<lparr>od_current_price = 2/100000, od_change_24h = 0, od_change_7d = 0\<rparr>"
        and c = "\<lparr>bc_ts = 0, bc_open = 0, bc_high = 1, bc_low = 0, bc_close = 0\<rparr>"]
    by (simp add: cheap_state_def)
qed

end
