(* ===== verification/CandleFeed.thy ===== *)
theory CandleFeed
  imports Engine
begin

text \<open>
  The feed of closed bars: \<open>market-ingestion/app\<close> (ingestor.py, redis_store.py, the checks of
  validate.py) writes them to a Redis stream and a channel, and the signal engine reads them
  (\<open>signal-engine/app/redis_reader.py\<close>). A stored bar is the candle itself: the text of a float
  reads back as the same float. The exchange and Redis are parameters; \<open>Inl\<close> is a call that
  raised.
\<close>

section \<open>The store\<close>

text \<open>A bar as the exchange delivers it; \<open>None\<close>: a value \<open>float\<close> refuses.\<close>

record raw_bar =
  rb_t :: int
  rb_values :: "(rat \<times> rat \<times> rat \<times> rat \<times> rat) option"

definition candle_from_raw :: "raw_bar \<Rightarrow> candle result" where
  "candle_from_raw r =
     (case rb_values r of
        None \<Rightarrow> Inl TypeError
      | Some (o', h, l, c, v) \<Rightarrow> Inr \<lparr>cd_t = rb_t r, cd_o = o', cd_h = h, cd_l = l, cd_c = c, cd_v = v\<rparr>)"

record feed =
  fd_stream :: "candle list"
  fd_channel :: "candle list"
  fd_forming :: "candle option"
  fd_heartbeat :: "int option"

text \<open>
  The answers while one event is handled. Redis trims a stream that is longer than the maximum
  by an amount of its own choice, never below the maximum.
\<close>

record feed_env =
  fe_stall :: "py_error + int option"
  fe_now :: int
  fe_watch :: "py_error + raw_bar list"
  fe_fetch :: "int option \<Rightarrow> int \<Rightarrow> py_error + raw_bar list"
  fe_forming_fails :: bool
  fe_heartbeat_fails :: bool
  fe_last_fails :: bool
  fe_xadd_fails :: "int \<Rightarrow> bool"
  fe_publish_fails :: "int \<Rightarrow> bool"
  fe_trim :: "nat \<Rightarrow> nat"

definition STREAM_MAXLEN :: nat where "STREAM_MAXLEN = 2000"

definition trimmed :: "feed_env \<Rightarrow> candle list \<Rightarrow> candle list" where
  "trimmed E cs = drop (min (fe_trim E (length cs)) (length cs - STREAM_MAXLEN)) cs"

text \<open>The bar goes to the stream, then to the channel; \<open>False\<close>: one of the two raised.\<close>

definition add_closed_candle :: "feed_env \<Rightarrow> candle \<Rightarrow> feed \<Rightarrow> bool \<times> feed" where
  "add_closed_candle E c f =
     (if fe_xadd_fails E (cd_t c) then (False, f)
      else let f1 = f\<lparr>fd_stream := trimmed E (fd_stream f @ [c])\<rparr>
           in if fe_publish_fails E (cd_t c) then (False, f1)
              else (True, f1\<lparr>fd_channel := fd_channel f1 @ [c]\<rparr>))"

definition set_forming_candle :: "feed_env \<Rightarrow> candle \<Rightarrow> feed \<Rightarrow> bool \<times> feed" where
  "set_forming_candle E c f = (if fe_forming_fails E then (False, f) else (True, f\<lparr>fd_forming := Some c\<rparr>))"

definition update_heartbeat :: "feed_env \<Rightarrow> feed \<Rightarrow> bool \<times> feed" where
  "update_heartbeat E f = (if fe_heartbeat_fails E then (False, f) else (True, f\<lparr>fd_heartbeat := Some (fe_now E)\<rparr>))"

definition get_last_closed_ts :: "feed_env \<Rightarrow> feed \<Rightarrow> int option result" where
  "get_last_closed_ts E f =
     (if fe_last_fails E then Inl RuntimeError
      else Inr (if fd_stream f = [] then None else Some (cd_t (last (fd_stream f)))))"

section \<open>Reading\<close>

text \<open>The last entries, oldest first.\<close>

definition read_stream_history :: "nat \<Rightarrow> feed \<Rightarrow> candle list" where
  "read_stream_history count f = rev (take count (rev (fd_stream f)))"

definition read_forming_candle :: "feed \<Rightarrow> candle option" where
  "read_forming_candle f = fd_forming f"

text \<open>The messages of the channel since the subscription.\<close>

definition subscribe_closed_bars :: "nat \<Rightarrow> feed \<Rightarrow> candle list" where
  "subscribe_closed_bars since f = drop since (fd_channel f)"

section \<open>Warm-up\<close>

definition feed_tf_ms :: "string \<Rightarrow> int" where
  "feed_tf_ms tf = (case timeframe_ms tf of None \<Rightarrow> 3600000 | Some ms \<Rightarrow> ms)"

fun add_new_bars :: "feed_env \<Rightarrow> int option \<Rightarrow> raw_bar list \<Rightarrow> feed \<Rightarrow> bool \<times> feed" where
  "add_new_bars E last_ts [] f = (True, f)"
| "add_new_bars E last_ts (r # rs) f =
     (if (case last_ts of None \<Rightarrow> False | Some t \<Rightarrow> rb_t r \<le> t) then add_new_bars E last_ts rs f
      else case candle_from_raw r of
             Inl e \<Rightarrow> (False, f)
           | Inr c \<Rightarrow>
              (case add_closed_candle E c f of
                 (False, f1) \<Rightarrow> (False, f1)
               | (True, f1) \<Rightarrow> add_new_bars E last_ts rs f1))"

text \<open>\<open>False\<close>: an exception left the warm-up, and the service stops.\<close>

definition feed_warmup :: "nat \<Rightarrow> feed_env \<Rightarrow> feed \<Rightarrow> bool \<times> feed" where
  "feed_warmup warmup_candles E f =
     (case fe_fetch E None (int warmup_candles + 1) of
        Inl e \<Rightarrow> (True, f)
      | Inr raw \<Rightarrow>
          if raw = [] then (True, f)
          else (case get_last_closed_ts E f of
                  Inl e \<Rightarrow> (False, f)
                | Inr last_ts \<Rightarrow>
                   (case add_new_bars E last_ts (butlast raw) f of
                      (False, f1) \<Rightarrow> (False, f1)
                    | (True, f1) \<Rightarrow>
                       (case candle_from_raw (last raw) of
                          Inl e \<Rightarrow> (False, f1)
                        | Inr c \<Rightarrow> set_forming_candle E c f1))))"

section \<open>Stitching a gap\<close>

fun add_before :: "feed_env \<Rightarrow> int \<Rightarrow> raw_bar list \<Rightarrow> feed \<Rightarrow> bool \<times> feed" where
  "add_before E to [] f = (True, f)"
| "add_before E to (r # rs) f =
     (if rb_t r < to then
        (case candle_from_raw r of
           Inl e \<Rightarrow> (False, f)
         | Inr c \<Rightarrow>
            (case add_closed_candle E c f of
               (False, f1) \<Rightarrow> (False, f1)
             | (True, f1) \<Rightarrow> add_before E to rs f1))
      else add_before E to rs f)"

text \<open>Never raises; what was added before an exception stays.\<close>

definition gap_stitch :: "int \<Rightarrow> feed_env \<Rightarrow> int \<Rightarrow> int \<Rightarrow> feed \<Rightarrow> feed" where
  "gap_stitch tf E from_ts to_ts f =
     (let n_expected = max 0 ((to_ts - from_ts) div tf - 1)
      in case fe_fetch E (Some (from_ts + tf)) (min (max (n_expected + 10) 10) 1000) of
           Inl e \<Rightarrow> f
         | Inr raw \<Rightarrow> snd (add_before E to_ts raw f))"

section \<open>The watch loop\<close>

record ingestor =
  ig_first :: bool
  ig_prev_time :: "int option"
  ig_prev :: "candle option"

definition new_ingestor :: ingestor where
  "new_ingestor = \<lparr>ig_first = True, ig_prev_time = None, ig_prev = None\<rparr>"

definition first_event :: "int \<Rightarrow> feed_env \<Rightarrow> candle \<Rightarrow> ingestor \<Rightarrow> feed \<Rightarrow> ingestor \<times> feed" where
  "first_event tf E c g f =
     (let g1 = g\<lparr>ig_first := False\<rparr>
      in case get_last_closed_ts E f of
           Inl e \<Rightarrow> (g1, f)
         | Inr last_ts \<Rightarrow>
             (g1\<lparr>ig_prev_time := Some (cd_t c), ig_prev := Some c\<rparr>,
              case last_ts of
                None \<Rightarrow> f
              | Some t \<Rightarrow> if t + tf < cd_t c then gap_stitch tf E t (cd_t c) f else f))"

text \<open>A new bar has opened, so the previous one is closed, as it was last seen.\<close>

definition new_bar :: "int \<Rightarrow> feed_env \<Rightarrow> candle \<Rightarrow> int \<Rightarrow> ingestor \<Rightarrow> feed \<Rightarrow> ingestor \<times> feed" where
  "new_bar tf E c prev_time g f =
     (case (case ig_prev g of None \<Rightarrow> (True, f) | Some p \<Rightarrow> add_closed_candle E p f) of
        (False, f1) \<Rightarrow> (g, f1)
      | (True, f1) \<Rightarrow>
          (g\<lparr>ig_prev_time := Some (cd_t c), ig_prev := Some c\<rparr>,
           if prev_time + tf < cd_t c then gap_stitch tf E prev_time (cd_t c) f1 else f1))"

text \<open>An integer compared with \<open>None\<close> raises, and the loop goes on after ten seconds.\<close>

definition handle_event :: "int \<Rightarrow> feed_env \<Rightarrow> candle \<Rightarrow> ingestor \<Rightarrow> feed \<Rightarrow> ingestor \<times> feed" where
  "handle_event tf E c g f =
     (if ig_first g then first_event tf E c g f
      else case ig_prev_time g of
             None \<Rightarrow> (g, f)
           | Some p \<Rightarrow> if p < cd_t c then new_bar tf E c p g f else (g\<lparr>ig_prev := Some c\<rparr>, f))"

text \<open>The last bar of an event; nothing during a stall, or when a call or a value fails.\<close>

definition next_candle :: "feed_env \<Rightarrow> candle option" where
  "next_candle E =
     (case fe_stall E of
        Inl e \<Rightarrow> None
      | Inr stall \<Rightarrow>
          if (case stall of None \<Rightarrow> False | Some u \<Rightarrow> u \<noteq> 0 \<and> fe_now E < u) then None
          else (case fe_watch E of
                  Inl e \<Rightarrow> None
                | Inr candles \<Rightarrow>
                    if candles = [] then None
                    else (case candle_from_raw (last candles) of Inl e \<Rightarrow> None | Inr c \<Rightarrow> Some c)))"

definition watch_event :: "int \<Rightarrow> feed_env \<Rightarrow> ingestor \<times> feed \<Rightarrow> ingestor \<times> feed" where
  "watch_event tf E s =
     (case s of (g, f) \<Rightarrow>
        (case next_candle E of
           None \<Rightarrow> (g, f)
         | Some c \<Rightarrow>
            (case set_forming_candle E c f of
               (False, f1) \<Rightarrow> (g, f1)
             | (True, f1) \<Rightarrow>
                (case update_heartbeat E f1 of
                   (False, f2) \<Rightarrow> (g, f2)
                 | (True, f2) \<Rightarrow> handle_event tf E c g f2))))"

fun feed_run :: "int \<Rightarrow> feed_env list \<Rightarrow> ingestor \<times> feed \<Rightarrow> ingestor \<times> feed" where
  "feed_run tf [] s = s"
| "feed_run tf (E # Es) s = feed_run tf Es (watch_event tf E s)"

section \<open>The checks of validate.py\<close>

definition close_enough :: "rat \<Rightarrow> rat \<Rightarrow> bool" where
  "close_enough a b \<longleftrightarrow> \<bar>a - b\<bar> / max (max \<bar>a\<bar> \<bar>b\<bar>) (1 / 10 ^ 12) \<le> 1 / 10 ^ 6"

definition bar_matches :: "candle \<Rightarrow> candle \<Rightarrow> bool" where
  "bar_matches ws rs \<longleftrightarrow> close_enough (cd_o ws) (cd_o rs) \<and> close_enough (cd_h ws) (cd_h rs) \<and>
     close_enough (cd_l ws) (cd_l rs) \<and> close_enough (cd_c ws) (cd_c rs) \<and> close_enough (cd_v ws) (cd_v rs)"

text \<open>The last bar of the answer with a time counts; without a bar in the stream the check fails.\<close>

definition cmd_xrest :: "nat \<Rightarrow> candle list \<Rightarrow> feed \<Rightarrow> bool" where
  "cmd_xrest n rest f =
     (let bars = read_stream_history n f
      in bars \<noteq> [] \<and> list_all (\<lambda>b. case map_of (rev (map (\<lambda>c. (cd_t c, c)) rest)) (cd_t b) of
           None \<Rightarrow> False | Some r \<Rightarrow> bar_matches b r) bars)"

text \<open>Seconds, minutes and hours of the UTC time.\<close>

definition utc_second :: "int \<Rightarrow> int" where "utc_second t = t div 1000 mod 60"
definition utc_minute :: "int \<Rightarrow> int" where "utc_minute t = t div 1000 div 60 mod 60"
definition utc_hour :: "int \<Rightarrow> int" where "utc_hour t = t div 1000 div 3600 mod 24"

definition bar_aligned :: "string \<Rightarrow> int \<Rightarrow> bool" where
  "bar_aligned tf t =
     (if tf = ''1m'' then utc_second t = 0
      else if tf = ''5m'' then utc_second t = 0 \<and> utc_minute t mod 5 = 0
      else if tf = ''15m'' then utc_second t = 0 \<and> utc_minute t mod 15 = 0
      else if tf = ''30m'' then utc_second t = 0 \<and> utc_minute t mod 30 = 0
      else if tf = ''1h'' then utc_second t = 0 \<and> utc_minute t = 0
      else if tf = ''2h'' then utc_second t = 0 \<and> utc_minute t = 0 \<and> utc_hour t mod 2 = 0
      else if tf = ''4h'' then utc_second t = 0 \<and> utc_minute t = 0 \<and> utc_hour t mod 4 = 0
      else if tf = ''8h'' then utc_second t = 0 \<and> utc_minute t = 0 \<and> utc_hour t mod 8 = 0
      else if tf = ''1d'' then utc_second t = 0 \<and> utc_minute t = 0 \<and> utc_hour t = 0
      else True)"

text \<open>The flag that pauses the ingestion.\<close>

definition cmd_simulate_gap :: "int \<Rightarrow> int \<Rightarrow> int" where
  "cmd_simulate_gap now seconds = now + seconds * 1000"


section \<open>Order of the bars\<close>

abbreviation times :: "feed \<Rightarrow> int list" where
  "times f \<equiv> map cd_t (fd_stream f)"

text \<open>The stored bars are in strict order, and all of them before a time.\<close>

definition ordered_before :: "int \<Rightarrow> feed \<Rightarrow> bool" where
  "ordered_before t f \<longleftrightarrow> sorted_wrt (<) (times f) \<and> (\<forall>x\<in>set (times f). x < t)"

lemma ordered_before_weaken: "\<lbrakk>ordered_before t f; t \<le> u\<rbrakk> \<Longrightarrow> ordered_before u f"
  by (auto simp: ordered_before_def)

lemma sorted_wrt_dropI: "sorted_wrt P xs \<Longrightarrow> sorted_wrt P (drop n xs)"
  by (metis append_take_drop_id sorted_wrt_append)

lemma trimmed_ordered:
  assumes "sorted_wrt (<) (map cd_t cs)" "\<forall>x\<in>set (map cd_t cs). x < t"
  shows "sorted_wrt (<) (map cd_t (trimmed E cs)) \<and> (\<forall>x\<in>set (map cd_t (trimmed E cs)). x < t)"
proof -
  obtain n where n: "trimmed E cs = drop n cs" by (simp add: trimmed_def)
  have "set (drop n (map cd_t cs)) \<subseteq> set (map cd_t cs)" by (rule set_drop_subset)
  then show ?thesis unfolding n drop_map [symmetric] using assms sorted_wrt_dropI by blast
qed

lemma candle_from_raw_time: "candle_from_raw r = Inr c \<Longrightarrow> cd_t c = rb_t r"
  by (auto simp: candle_from_raw_def split: option.splits)

text \<open>The bars of a fetch, ascending from a time on.\<close>

definition ascending_from :: "int \<Rightarrow> raw_bar list \<Rightarrow> bool" where
  "ascending_from t rs \<longleftrightarrow> sorted_wrt (<) (map rb_t rs) \<and> (\<forall>r\<in>set rs. t \<le> rb_t r)"

lemma ascending_from_Cons: "ascending_from t (r # rs) \<longleftrightarrow> t \<le> rb_t r \<and> ascending_from (rb_t r + 1) rs"
  by (auto simp: ascending_from_def)

lemma ascending_from_mono: "\<lbrakk>ascending_from t rs; u \<le> t\<rbrakk> \<Longrightarrow> ascending_from u rs"
  by (auto simp: ascending_from_def)

text \<open>
  What the exchange is trusted with: an event never comes with a bar older than one seen or stored
  before, and a fetch from a time answers with bars in ascending order from that time on.
\<close>

definition honest :: "feed_env \<Rightarrow> ingestor \<times> feed \<Rightarrow> bool" where
  "honest E s \<longleftrightarrow>
     (\<forall>cs. fe_watch E = Inr cs \<longrightarrow> cs \<noteq> [] \<longrightarrow>
        (\<forall>t\<in>set (times (snd s)). t < rb_t (last cs)) \<and> (\<forall>p. ig_prev_time (fst s) = Some p \<longrightarrow> p \<le> rb_t (last cs))) \<and>
     (\<forall>since limit rs. fe_fetch E (Some since) limit = Inr rs \<longrightarrow> ascending_from since rs)"

fun honest_run :: "int \<Rightarrow> feed_env list \<Rightarrow> ingestor \<times> feed \<Rightarrow> bool" where
  "honest_run tf [] s \<longleftrightarrow> True"
| "honest_run tf (E # Es) s \<longleftrightarrow> honest E s \<and> honest_run tf Es (watch_event tf E s)"

lemma ordered_before_suc: "sorted_wrt (<) (times f) \<Longrightarrow> \<forall>x\<in>set (times f). x \<le> t \<Longrightarrow> ordered_before (t + 1) f"
  by (auto simp: ordered_before_def)

lemma sorted_le_last:
  fixes h :: "'a \<Rightarrow> int"
  assumes "sorted_wrt (<) (map h xs)" "x \<in> set xs"
  shows "h x \<le> h (last xs)"
proof (cases xs rule: rev_cases)
  case (snoc ys y)
  then show ?thesis using assms by (auto simp: sorted_wrt_append intro: less_imp_le)
qed (use assms in simp)

lemma sorted_last_max:
  assumes "sorted_wrt (<) (times f)" "fd_stream f \<noteq> []"
  shows "\<forall>x\<in>set (times f). x \<le> cd_t (last (fd_stream f))"
  using sorted_le_last [OF assms(1)] by auto

text \<open>An event changes the stream only where it is handled.\<close>

lemma next_candle_SomeD:
  "next_candle E = Some c \<Longrightarrow> \<exists>cs. fe_watch E = Inr cs \<and> cs \<noteq> [] \<and> candle_from_raw (last cs) = Inr c"
  by (auto simp: next_candle_def split: sum.splits if_splits)

lemma watch_event_cases:
  obtains f' where "watch_event tf E (g, f) = (g, f')" "fd_stream f' = fd_stream f" "fd_channel f' = fd_channel f"
  | c f' where "next_candle E = Some c" "watch_event tf E (g, f) = handle_event tf E c g f'"
      "fd_stream f' = fd_stream f" "fd_channel f' = fd_channel f"
  by (cases "next_candle E"; cases "fe_forming_fails E"; cases "fe_heartbeat_fails E")
    (simp_all add: watch_event_def set_forming_candle_def update_heartbeat_def)

text \<open>
  A property of the stored bars that a later bar does not end, trimming included. Together with the
  order it then holds through every event.
\<close>

locale bar_property =
  fixes P :: "candle list \<Rightarrow> bool"
  assumes later_bar: "\<lbrakk>sorted_wrt (<) (map cd_t cs); \<forall>x\<in>set (map cd_t cs). x < cd_t c; P cs\<rbrakk> \<Longrightarrow> P (trimmed E (cs @ [c]))"
begin

definition kept_before :: "int \<Rightarrow> feed \<Rightarrow> bool" where
  "kept_before t f \<longleftrightarrow> ordered_before t f \<and> P (fd_stream f)"

lemma kept_weaken: "\<lbrakk>kept_before t f; t \<le> u\<rbrakk> \<Longrightarrow> kept_before u f"
  using ordered_before_weaken by (auto simp: kept_before_def)

text \<open>Adding a bar that is later than all stored ones; a failed publish leaves it stored.\<close>

lemma add_closed_ordered:
  assumes "add_closed_candle E c f = (ok, f')" "kept_before (cd_t c) f" "cd_t c < t"
  shows "kept_before t f'"
proof -
  have o: "sorted_wrt (<) (times f)" "\<forall>x\<in>set (times f). x < cd_t c" "P (fd_stream f)"
    using assms(2) by (auto simp: kept_before_def ordered_before_def)
  have "sorted_wrt (<) (map cd_t (fd_stream f @ [c]))" "\<forall>x\<in>set (map cd_t (fd_stream f @ [c])). x < t"
    using o assms(3) by (auto simp: sorted_wrt_append)
  from trimmed_ordered [OF this, of E] later_bar [OF o] kept_weaken [OF assms(2), of t] assms(1,3) show ?thesis
    by (auto simp: add_closed_candle_def Let_def kept_before_def ordered_before_def split: if_splits)
qed

lemma add_before_ordered:
  assumes "kept_before t f" "ascending_from t rs" "t \<le> to"
  shows "kept_before to (snd (add_before E to rs f))"
  using assms
proof (induction rs arbitrary: t f)
  case Nil
  then show ?case using kept_weaken by simp
next
  case (Cons r rs)
  then have r: "t \<le> rb_t r" "ascending_from (rb_t r + 1) rs" by (simp_all add: ascending_from_Cons)
  show ?case
  proof (cases "rb_t r < to")
    case False
    then show ?thesis using Cons.IH [OF Cons.prems(1) _ Cons.prems(3)] r ascending_from_mono by simp
  next
    case True
    show ?thesis
    proof (cases "candle_from_raw r")
      case (Inl e)
      then show ?thesis using True Cons.prems kept_weaken by simp
    next
      case (Inr c)
      then have c: "cd_t c = rb_t r" by (rule candle_from_raw_time)
      obtain ok f1 where a: "add_closed_candle E c f = (ok, f1)" by fastforce
      have o1: "kept_before (rb_t r + 1) f1"
        using add_closed_ordered [OF a] kept_weaken [OF Cons.prems(1) r(1)] c by simp
      then have "kept_before to (snd (add_before E to rs f1))" using Cons.IH [OF o1 r(2)] True by simp
      moreover have "kept_before to f1" using o1 True kept_weaken by simp
      ultimately show ?thesis using True Inr a by (cases ok) simp_all
    qed
  qed
qed

text \<open>The ingestor has seen nothing yet, or the bar it holds is the newest.\<close>

definition in_order :: "ingestor \<times> feed \<Rightarrow> bool" where
  "in_order s \<longleftrightarrow> sorted_wrt (<) (times (snd s)) \<and> P (fd_stream (snd s)) \<and>
     (case ig_prev_time (fst s) of
        None \<Rightarrow> ig_prev (fst s) = None
      | Some p \<Rightarrow> kept_before p (snd s) \<and> map_option cd_t (ig_prev (fst s)) = Some p)"

lemma gap_stitch_ordered:
  assumes "honest E s" "0 < tf" "kept_before (from_ts + 1) f" "from_ts < to_ts"
  shows "kept_before to_ts (gap_stitch tf E from_ts to_ts f)"
proof (cases "fe_fetch E (Some (from_ts + tf)) (min (max (max 0 ((to_ts - from_ts) div tf - 1) + 10) 10) 1000)")
  case (Inl e)
  then show ?thesis using assms(3,4) kept_weaken by (simp add: gap_stitch_def Let_def)
next
  case (Inr rs)
  have "ascending_from (from_ts + 1) rs"
    using assms(1,2) Inr ascending_from_mono [of "from_ts + tf"] by (auto simp: honest_def)
  then show ?thesis using add_before_ordered [OF assms(3)] assms(4) Inr by (simp add: gap_stitch_def Let_def)
qed

lemma handle_event_in_order:
  assumes "honest E (g, f0)" "0 < tf" "in_order (g, f)" "fe_watch E = Inr cs" "cs \<noteq> []" "cd_t c = rb_t (last cs)"
    and "fd_stream f = fd_stream f0" "\<And>t. \<not> fe_publish_fails E t"
  shows "in_order (handle_event tf E c g f)"
proof -
  have new: "\<forall>t\<in>set (times f). t < cd_t c" "\<And>p. ig_prev_time g = Some p \<Longrightarrow> p \<le> cd_t c"
    using assms(1,4-7) by (auto simp: honest_def)
  have sorted: "sorted_wrt (<) (times f)" and P: "P (fd_stream f)" using assms(3) by (simp_all add: in_order_def)
  have before: "kept_before (cd_t c) f" using sorted P new(1) by (auto simp: kept_before_def ordered_before_def)
  show ?thesis
  proof (cases "ig_first g")
    case True
    have "kept_before (cd_t c) (gap_stitch tf E (cd_t (last (fd_stream f))) (cd_t c) f)" if "fd_stream f \<noteq> []"
      using gap_stitch_ordered [OF assms(1,2)] ordered_before_suc [OF sorted sorted_last_max [OF sorted that]] P new(1) that
      by (simp add: kept_before_def)
    then show ?thesis
      using True assms(3) before
      by (auto simp: handle_event_def first_event_def get_last_closed_ts_def Let_def in_order_def kept_before_def ordered_before_def split: option.splits)
  next
    case False
    show ?thesis
    proof (cases "ig_prev_time g")
      case None
      then show ?thesis using False assms(3) by (simp add: handle_event_def)
    next
      case (Some p)
      then obtain b where b: "ig_prev g = Some b" "cd_t b = p" "kept_before p f" using assms(3) by (auto simp: in_order_def)
      show ?thesis
      proof (cases "p < cd_t c")
        case False
        then have "cd_t c = p" using new(2) [OF Some] by simp
        then show ?thesis using Some \<open>\<not> ig_first g\<close> assms(3) False by (simp add: handle_event_def in_order_def)
      next
        case True
        obtain ok f1 where a: "add_closed_candle E b f = (ok, f1)" by fastforce
        have f1: "kept_before (p + 1) f1" using add_closed_ordered [OF a] b by simp
        show ?thesis
        proof (cases ok)
          case False
          then have "f1 = f" using a assms(8) by (auto simp: add_closed_candle_def Let_def split: if_splits)
          then show ?thesis
            using \<open>\<not> ig_first g\<close> Some True a b False assms(3) by (simp add: handle_event_def new_bar_def)
        next
          case ok: True
          have "kept_before (cd_t c) (gap_stitch tf E p (cd_t c) f1)" using gap_stitch_ordered [OF assms(1,2) f1 True] .
          moreover have "kept_before (cd_t c) f1" using f1 True kept_weaken by simp
          ultimately show ?thesis
            using \<open>\<not> ig_first g\<close> Some True a b ok
            by (auto simp: handle_event_def new_bar_def in_order_def kept_before_def ordered_before_def)
        qed
      qed
    qed
  qed
qed

lemma in_order_stream: "\<lbrakk>in_order (g, f); fd_stream f' = fd_stream f\<rbrakk> \<Longrightarrow> in_order (g, f')"
  by (cases "ig_prev_time g") (simp_all add: in_order_def kept_before_def ordered_before_def)

lemma watch_event_in_order:
  assumes "honest E (g, f)" "0 < tf" "in_order (g, f)" "\<And>t. \<not> fe_publish_fails E t"
  shows "in_order (watch_event tf E (g, f))"
proof (cases tf E g f rule: watch_event_cases)
  case (1 f')
  then show ?thesis using in_order_stream [OF assms(3)] by simp
next
  case (2 c f')
  then obtain cs where cs: "fe_watch E = Inr cs" "cs \<noteq> []" "candle_from_raw (last cs) = Inr c" using next_candle_SomeD by blast
  show ?thesis
    using handle_event_in_order [OF assms(1,2) in_order_stream [OF assms(3) 2(3)] cs(1,2) candle_from_raw_time [OF cs(3)] 2(3) assms(4)] 2(2)
    by simp
qed

lemma feed_run_in_order:
  assumes "honest_run tf Es s" "0 < tf" "in_order s" "\<forall>E\<in>set Es. \<forall>t. \<not> fe_publish_fails E t"
  shows "in_order (feed_run tf Es s)"
  using assms
proof (induction Es arbitrary: s)
  case (Cons E Es)
  then show ?case using watch_event_in_order [of E "fst s" "snd s" tf] by simp
qed simp

end

text \<open>The order alone, and a time that was passed over.\<close>

interpretation any_bars: bar_property "\<lambda>_. True"
  by unfold_locales

definition passed_over :: "int \<Rightarrow> candle list \<Rightarrow> bool" where
  "passed_over t cs \<longleftrightarrow> cs \<noteq> [] \<and> t < cd_t (last cs) \<and> t \<notin> set (map cd_t cs)"

lemma trimmed_last:
  obtains n where "trimmed E (cs @ [c]) = drop n (cs @ [c])" "last (trimmed E (cs @ [c])) = c" "trimmed E (cs @ [c]) \<noteq> []"
proof -
  obtain n where "trimmed E (cs @ [c]) = drop n (cs @ [c])" "n \<le> length cs"
    by (auto simp: trimmed_def STREAM_MAXLEN_def)
  moreover from this have "last (drop n (cs @ [c])) = c" "drop n (cs @ [c]) \<noteq> []" by simp_all
  ultimately show ?thesis using that [of n] by simp
qed

lemma passed_over_later:
  assumes "\<forall>x\<in>set (map cd_t cs). x < cd_t c" "passed_over t cs"
  shows "passed_over t (trimmed E (cs @ [c]))"
proof -
  obtain n where n: "trimmed E (cs @ [c]) = drop n (cs @ [c])" "last (trimmed E (cs @ [c])) = c" "trimmed E (cs @ [c]) \<noteq> []"
    by (rule trimmed_last)
  have "last cs \<in> set cs" using assms(2) by (simp add: passed_over_def)
  then have "cd_t (last cs) < cd_t c" using assms(1) by simp
  then have "t < cd_t c" using assms(2) by (simp add: passed_over_def)
  moreover have "t \<notin> set (map cd_t (drop n (cs @ [c])))"
    using assms(2) \<open>t < cd_t c\<close> by (auto simp: passed_over_def dest!: in_set_dropD)
  ultimately show ?thesis using n by (simp add: passed_over_def)
qed

interpretation passed: bar_property "passed_over t" for t
  by unfold_locales (rule passed_over_later)

text \<open>
  C33. On an exchange that delivers bars in order, and while the channel takes what is published, the
  stream stays in strictly ascending order through every event, stall, gap and failed statement: no
  bar twice and none out of order. A bar that is missing when a later one is stored is never
  filled in.
\<close>

theorem stream_stays_in_order:
  assumes "honest_run tf Es (new_ingestor, f)" "0 < tf" "sorted_wrt (<) (times f)" "\<forall>E\<in>set Es. \<forall>t. \<not> fe_publish_fails E t"
  shows "sorted_wrt (<) (times (snd (feed_run tf Es (new_ingestor, f)))) \<and>
    (passed_over t (fd_stream f) \<longrightarrow> passed_over t (fd_stream (snd (feed_run tf Es (new_ingestor, f)))))"
proof
  show "sorted_wrt (<) (times (snd (feed_run tf Es (new_ingestor, f))))"
    using any_bars.feed_run_in_order [OF assms(1,2) _ assms(4)] assms(3)
    by (simp add: any_bars.in_order_def new_ingestor_def)
  show "passed_over t (fd_stream f) \<longrightarrow> passed_over t (fd_stream (snd (feed_run tf Es (new_ingestor, f))))"
    using passed.feed_run_in_order [OF assms(1,2) _ assms(4)] assms(3)
    by (simp add: passed.in_order_def new_ingestor_def)
qed

section \<open>Failures of the feed\<close>

text \<open>
  When the read of the last stored bar fails on the first event, the loop has no time to compare
  later events with: each of them raises, and no bar is stored or published ever again, while
  the heartbeat goes on.
\<close>

theorem first_read_failure_stops_feed:
  assumes "next_candle E = Some c" "\<not> fe_forming_fails E" "\<not> fe_heartbeat_fails E" "fe_last_fails E"
  shows "fd_stream (snd (feed_run tf (E # Es) (new_ingestor, f))) = fd_stream f \<and>
    fd_channel (snd (feed_run tf (E # Es) (new_ingestor, f))) = fd_channel f"
proof -
  define g where "g = new_ingestor\<lparr>ig_first := False\<rparr>"
  have dead: "fd_stream (snd (feed_run tf Fs (g, h))) = fd_stream h \<and> fd_channel (snd (feed_run tf Fs (g, h))) = fd_channel h" for Fs h
  proof (induction Fs arbitrary: h)
    case (Cons F Fs)
    have "\<exists>h'. watch_event tf F (g, h) = (g, h') \<and> fd_stream h' = fd_stream h \<and> fd_channel h' = fd_channel h"
      by (cases tf F g h rule: watch_event_cases) (simp_all add: handle_event_def g_def new_ingestor_def)
    then show ?case using Cons by auto
  qed simp
  have "watch_event tf E (new_ingestor, f) = (g, f\<lparr>fd_forming := Some c, fd_heartbeat := Some (fe_now E)\<rparr>)"
    using assms by (simp add: watch_event_def set_forming_candle_def update_heartbeat_def handle_event_def first_event_def
      get_last_closed_ts_def g_def new_ingestor_def)
  then show ?thesis using dead by simp
qed

text \<open>The ingestor holds the bar \<open>b\<close> as the newest.\<close>

definition holds_bar :: "ingestor \<Rightarrow> candle \<Rightarrow> bool" where
  "holds_bar g b \<longleftrightarrow> \<not> ig_first g \<and> ig_prev_time g = Some (cd_t b) \<and> ig_prev g = Some b"

definition event_arrives :: "feed_env \<Rightarrow> candle \<Rightarrow> bool" where
  "event_arrives E c \<longleftrightarrow> next_candle E = Some c \<and> \<not> fe_forming_fails E \<and> \<not> fe_heartbeat_fails E"

lemma closing_event:
  assumes "holds_bar g b" "event_arrives E c" "cd_t b < cd_t c"
  shows "watch_event tf E (g, f) =
    new_bar tf E c (cd_t b) g (f\<lparr>fd_forming := Some c, fd_heartbeat := Some (fe_now E)\<rparr>)"
  using assms by (simp add: watch_event_def set_forming_candle_def update_heartbeat_def handle_event_def holds_bar_def event_arrives_def)

lemma trimmed_short [simp]: "length cs \<le> STREAM_MAXLEN \<Longrightarrow> trimmed E cs = cs"
  by (simp add: trimmed_def)

text \<open>
  A bar that was written to the stream but could not be published is written again with the next
  event: it is in the stream twice.
\<close>

theorem failed_publish_stores_twice:
  assumes "holds_bar g b" "event_arrives E c" "event_arrives F d" "cd_t b < cd_t c" "cd_t b < cd_t d" "cd_t d \<le> cd_t b + tf"
    and "\<not> fe_xadd_fails E (cd_t b)" "fe_publish_fails E (cd_t b)" "\<not> fe_xadd_fails F (cd_t b)"
    and "length (fd_stream f) + 2 \<le> STREAM_MAXLEN"
  shows "fd_stream (snd (feed_run tf [E, F] (g, f))) = fd_stream f @ [b, b]"
proof -
  let ?f1 = "f\<lparr>fd_forming := Some c, fd_heartbeat := Some (fe_now E), fd_stream := fd_stream f @ [b]\<rparr>"
  have "watch_event tf E (g, f) = (g, ?f1)"
    using assms(1,7,8,10) by (simp add: closing_event [OF assms(1,2,4)] new_bar_def add_closed_candle_def holds_bar_def)
  then show ?thesis
    using assms(1,6,9,10) closing_event [OF assms(1,3,5), of tf ?f1]
    by (cases "fe_publish_fails F (cd_t b)") (simp_all add: new_bar_def add_closed_candle_def holds_bar_def Let_def)
qed

lemma add_before_channel:
  "\<exists>new. fd_channel (snd (add_before E to rs f)) = fd_channel f @ new \<and> cd_t ` set new \<subseteq> rb_t ` set rs"
proof (induction rs arbitrary: f)
  case (Cons r rs)
  show ?case
  proof (cases "rb_t r < to \<and> (\<exists>c. candle_from_raw r = Inr c)")
    case False
    then have "snd (add_before E to (r # rs) f) = f \<or> snd (add_before E to (r # rs) f) = snd (add_before E to rs f)"
      by (cases "candle_from_raw r") auto
    then show ?thesis
    proof
      assume "snd (add_before E to (r # rs) f) = f"
      then show ?thesis by (intro exI [of _ "[]"]) simp
    next
      assume e: "snd (add_before E to (r # rs) f) = snd (add_before E to rs f)"
      show ?thesis unfolding e using Cons.IH [of f] by auto
    qed
  next
    case True
    then obtain c where c: "candle_from_raw r = Inr c" by blast
    obtain ok f1 where a: "add_closed_candle E c f = (ok, f1)" by fastforce
    have ch: "fd_channel f1 = (if ok then fd_channel f @ [c] else fd_channel f)"
      using a by (auto simp: add_closed_candle_def Let_def split: if_splits)
    obtain new where new: "fd_channel (snd (add_before E to rs f1)) = fd_channel f1 @ new" "cd_t ` set new \<subseteq> rb_t ` set rs"
      using Cons.IH by blast
    show ?thesis
    proof (cases ok)
      case False
      then show ?thesis using True c a ch by (intro exI [of _ "[]"]) simp
    next
      case ok: True
      then show ?thesis using True c a ch new candle_from_raw_time [OF c] by (intro exI [of _ "c # new"]) auto
    qed
  qed
qed simp

text \<open>
  The bar that is published as closed is the one last seen while it was forming. The closing event
  does not look at the other bars it may bring, and the stitch of a gap asks only for bars after
  it: after a pause in the middle of a bar, or when the final update comes in the same message
  as the next bar, the values published for it are not its final ones.
\<close>

theorem closed_bar_is_last_seen:
  assumes "holds_bar g b" "event_arrives E c" "cd_t b < cd_t c" "0 < tf" "honest E (g, f)"
    and "\<not> fe_xadd_fails E (cd_t b)" "\<not> fe_publish_fails E (cd_t b)"
  shows "\<exists>new. fd_channel (snd (watch_event tf E (g, f))) = fd_channel f @ b # new \<and> cd_t b \<notin> cd_t ` set new"
proof -
  obtain f1 where a: "add_closed_candle E b (f\<lparr>fd_forming := Some c, fd_heartbeat := Some (fe_now E)\<rparr>) = (True, f1)"
    "fd_channel f1 = fd_channel f @ [b]"
    using assms(6,7) by (simp add: add_closed_candle_def Let_def)
  have w: "snd (watch_event tf E (g, f)) = (if cd_t b + tf < cd_t c then gap_stitch tf E (cd_t b) (cd_t c) f1 else f1)"
    using assms(1) a(1) by (simp add: closing_event [OF assms(1-3)] new_bar_def holds_bar_def)
  have "\<exists>new. fd_channel (gap_stitch tf E (cd_t b) (cd_t c) f1) = fd_channel f1 @ new \<and> cd_t b \<notin> cd_t ` set new"
  proof (cases "fe_fetch E (Some (cd_t b + tf)) (min (max (max 0 ((cd_t c - cd_t b) div tf - 1) + 10) 10) 1000)")
    case (Inl e)
    then show ?thesis by (simp add: gap_stitch_def Let_def)
  next
    case (Inr rs)
    then have "ascending_from (cd_t b + tf) rs" using assms(5) by (auto simp: honest_def)
    then have "cd_t b \<notin> rb_t ` set rs" using assms(4) by (force simp: ascending_from_def)
    then show ?thesis using add_before_channel [of E "cd_t c" rs f1] Inr by (fastforce simp: gap_stitch_def Let_def)
  qed
  then show ?thesis using w a(2) by (cases "cd_t b + tf < cd_t c") auto
qed


section \<open>Warm-up and the engine's history\<close>

definition skipped :: "int option \<Rightarrow> raw_bar \<Rightarrow> bool" where
  "skipped last_ts r \<longleftrightarrow> (case last_ts of None \<Rightarrow> False | Some t \<Rightarrow> rb_t r \<le> t)"

lemma add_new_bars_Cons:
  "add_new_bars E lt (r # rs) f = (True, f1) \<longleftrightarrow>
     (if skipped lt r then add_new_bars E lt rs f = (True, f1)
      else \<exists>c f'. candle_from_raw r = Inr c \<and> add_closed_candle E c f = (True, f') \<and> add_new_bars E lt rs f' = (True, f1))"
  by (auto simp: skipped_def split: sum.splits option.splits prod.splits bool.splits)

declare add_new_bars.simps(2) [simp del]

lemma add_closed_last:
  assumes "add_closed_candle E c f = (True, f')"
  shows "fd_stream f' \<noteq> [] \<and> last (fd_stream f') = c \<and> fd_channel f' = fd_channel f @ [c]"
proof -
  have "fd_stream f' = trimmed E (fd_stream f @ [c])" "fd_channel f' = fd_channel f @ [c]"
    using assms by (auto simp: add_closed_candle_def Let_def split: if_splits)
  then show ?thesis using trimmed_last [of E "fd_stream f" c] by metis
qed

lemma add_new_bars_last:
  assumes "add_new_bars E lt rs f = (True, f1)" "sorted_wrt (<) (map rb_t rs)"
  shows "f1 = f \<and> (\<forall>r\<in>set rs. skipped lt r) \<or>
    rs \<noteq> [] \<and> fd_stream f1 \<noteq> [] \<and> cd_t (last (fd_stream f1)) = rb_t (last rs)"
  using assms
proof (induction rs arbitrary: f)
  case (Cons r rs)
  have sorted: "sorted_wrt (<) (map rb_t rs)" "\<forall>x\<in>set rs. rb_t r < rb_t x" using Cons.prems(2) by auto
  show ?case
  proof (cases "skipped lt r")
    case True
    then show ?thesis using Cons.IH [OF _ sorted(1)] Cons.prems(1) by (auto simp: add_new_bars_Cons)
  next
    case False
    then obtain c f' where c: "candle_from_raw r = Inr c" "add_closed_candle E c f = (True, f')" "add_new_bars E lt rs f' = (True, f1)"
      using Cons.prems(1) by (auto simp: add_new_bars_Cons)
    have later: "\<not> skipped lt x" if "x \<in> set rs" for x
      using False sorted(2) that by (fastforce simp: skipped_def split: option.splits)
    show ?thesis
    proof (cases "rs = []")
      case True
      then show ?thesis using c add_closed_last [OF c(2)] candle_from_raw_time [OF c(1)] by simp
    next
      case False
      then have "\<not> (\<forall>x\<in>set rs. skipped lt x)" using later by (meson last_in_set)
      then show ?thesis using Cons.IH [OF c(3) sorted(1)] by auto
    qed
  qed
qed simp

lemma add_new_bars_skip: "\<forall>r\<in>set rs. skipped lt r \<Longrightarrow> add_new_bars E lt rs f = (True, f)"
  by (induction rs) (auto simp: add_new_bars_Cons)

text \<open>
  A warm-up that ended well can be repeated: with the same answer of the exchange the second one
  stores and publishes nothing, so a restart leaves no bar twice in the stream.
\<close>

theorem warmup_idempotent:
  assumes "feed_warmup n E f = (True, f1)" "fe_fetch E None (int n + 1) = Inr raw" "sorted_wrt (<) (map rb_t raw)"
  shows "\<exists>f2. feed_warmup n E f1 = (True, f2) \<and> fd_stream f2 = fd_stream f1 \<and> fd_channel f2 = fd_channel f1"
proof (cases "raw = []")
  case True
  then show ?thesis using assms(1,2) by (simp add: feed_warmup_def)
next
  case False
  then obtain lt f' c where w: "get_last_closed_ts E f = Inr lt" "add_new_bars E lt (butlast raw) f = (True, f')"
      "candle_from_raw (last raw) = Inr c" "set_forming_candle E c f' = (True, f1)"
    using assms(1,2) by (auto simp: feed_warmup_def split: sum.splits prod.splits bool.splits)
  have sorted: "sorted_wrt (<) (map rb_t (butlast raw))"
    using assms(3) by (metis append_butlast_last_id map_append sorted_wrt_append False)
  have same: "fd_stream f1 = fd_stream f'" "fd_channel f1 = fd_channel f'"
    using w(4) by (auto simp: set_forming_candle_def split: if_splits)
  have fails: "\<not> fe_last_fails E" using w(1) by (auto simp: get_last_closed_ts_def split: if_splits)
  define lt1 where "lt1 = (if fd_stream f1 = [] then None else Some (cd_t (last (fd_stream f1))))"
  have "\<forall>r\<in>set (butlast raw). skipped lt1 r"
    using add_new_bars_last [OF w(2) sorted]
  proof
    assume a: "f' = f \<and> (\<forall>r\<in>set (butlast raw). skipped lt r)"
    then have "lt1 = lt" using w(1) same(1) by (auto simp: lt1_def get_last_closed_ts_def split: if_splits)
    then show ?thesis using a by simp
  next
    assume a: "butlast raw \<noteq> [] \<and> fd_stream f' \<noteq> [] \<and> cd_t (last (fd_stream f')) = rb_t (last (butlast raw))"
    have "rb_t r \<le> rb_t (last (butlast raw))" if "r \<in> set (butlast raw)" for r
      using sorted_le_last [OF sorted that] .
    then show ?thesis using a same(1) by (simp add: lt1_def skipped_def)
  qed
  then have "add_new_bars E lt1 (butlast raw) f1 = (True, f1)" by (rule add_new_bars_skip)
  moreover have "get_last_closed_ts E f1 = Inr lt1" using fails by (simp add: get_last_closed_ts_def lt1_def)
  moreover have "\<exists>f2. set_forming_candle E c f1 = (True, f2) \<and> fd_stream f2 = fd_stream f1 \<and> fd_channel f2 = fd_channel f1"
    using w(4) by (auto simp: set_forming_candle_def split: if_splits)
  ultimately show ?thesis using False assms(2) w(3) by (auto simp: feed_warmup_def)
qed

lemma add_new_bars_all:
  assumes "add_new_bars E None rs f = (True, f1)" "length (fd_stream f) + length rs \<le> STREAM_MAXLEN"
  shows "\<exists>cs. map candle_from_raw rs = map Inr cs \<and> fd_stream f1 = fd_stream f @ cs \<and> fd_channel f1 = fd_channel f @ cs"
  using assms
proof (induction rs arbitrary: f)
  case (Cons r rs)
  then obtain c f' where c: "candle_from_raw r = Inr c" "add_closed_candle E c f = (True, f')" "add_new_bars E None rs f' = (True, f1)"
    by (auto simp: add_new_bars_Cons skipped_def)
  have f': "fd_stream f' = fd_stream f @ [c]" "fd_channel f' = fd_channel f @ [c]"
    using c(2) Cons.prems(2) by (auto simp: add_closed_candle_def Let_def split: if_splits)
  obtain cs where "map candle_from_raw rs = map Inr cs" "fd_stream f1 = fd_stream f' @ cs" "fd_channel f1 = fd_channel f' @ cs"
    using Cons.IH [OF c(3)] f' Cons.prems(2) by auto
  then show ?case using c(1) f' by (intro exI [of _ "c # cs"]) simp
qed simp

text \<open>
  After the warm-up of an empty stream the engine's history is the exchange's answer without its last,
  still forming bar, in the same order and with the same values, and that bar is the forming one.
\<close>

theorem engine_reads_closed_bars:
  assumes "feed_warmup n E f = (True, f1)" "fe_fetch E None (int n + 1) = Inr raw" "raw \<noteq> []" "fd_stream f = []"
    and "length raw \<le> m + 1" "m \<le> STREAM_MAXLEN"
  shows "map Inr (read_stream_history m f1) = map candle_from_raw (butlast raw) \<and>
    map_option Inr (read_forming_candle f1) = Some (candle_from_raw (last raw))"
proof -
  obtain f' c where w: "add_new_bars E None (butlast raw) f = (True, f')"
      "candle_from_raw (last raw) = Inr c" "set_forming_candle E c f' = (True, f1)"
    using assms(1-4) by (auto simp: feed_warmup_def get_last_closed_ts_def split: sum.splits prod.splits bool.splits if_splits)
  obtain cs where cs: "map candle_from_raw (butlast raw) = map Inr cs" "fd_stream f' = cs"
    using add_new_bars_all [OF w(1)] assms(4-6) by auto
  have "fd_stream f1 = cs" "fd_forming f1 = Some c" using w(3) cs(2) by (auto simp: set_forming_candle_def split: if_splits)
  moreover have "length cs \<le> m" using cs(1) assms(5) by (metis length_butlast length_map le_diff_conv)
  ultimately show ?thesis using cs(1) w(2) by (simp add: read_stream_history_def read_forming_candle_def)
qed

section \<open>Alignment\<close>

lemma mod_mult_zero:
  fixes q a b :: int
  assumes "0 < a" "0 < b"
  shows "q mod (a * b) = 0 \<longleftrightarrow> q mod a = 0 \<and> q div a mod b = 0"
  using assms by (simp add: zmod_zmult2_eq add_nonneg_eq_0_iff conj_commute)

text \<open>
  The alignment check of every timeframe but \<open>3m\<close>, which it lets pass, is that the open time in whole
  seconds is a multiple of the bar's length; a fraction of a second goes unnoticed.
\<close>

theorem alignment_is_multiple:
  assumes "timeframe_ms tf = Some ms" "tf \<noteq> ''3m''"
  shows "bar_aligned tf t \<longleftrightarrow> (t div 1000) mod (ms div 1000) = 0"
proof -
  let ?q = "t div 1000"
  have m: "(?q div 60 mod 60) mod k = ?q div 60 mod k" if "k dvd 60" for k using that by (rule mod_mod_cancel)
  have h: "(?q div 3600 mod 24) mod k = ?q div 3600 mod k" if "k dvd 24" for k using that by (rule mod_mod_cancel)
  have hour: "?q mod 3600 = 0 \<longleftrightarrow> ?q mod 60 = 0 \<and> ?q div 60 mod 60 = 0" using mod_mult_zero [of 60 60 ?q] by simp
  have "tf \<in> {''1m'', ''5m'', ''15m'', ''30m'', ''1h'', ''2h'', ''4h'', ''8h'', ''1d''}" and ms: "timeframe_ms tf = Some ms"
    using assms by (auto simp: timeframe_ms_def split: if_splits)
  then consider (m1) "tf = ''1m''" | (m5) "tf = ''5m''" | (m15) "tf = ''15m''" | (m30) "tf = ''30m''" | (h1) "tf = ''1h''"
    | (h2) "tf = ''2h''" | (h4) "tf = ''4h''" | (h8) "tf = ''8h''" | (d1) "tf = ''1d''" by auto
  then show ?thesis
  proof cases
    case m1 then show ?thesis using ms by (simp add: timeframe_ms_def bar_aligned_def utc_second_def)
  next
    case m5 then show ?thesis using ms mod_mult_zero [of 60 5 ?q] m [of 5]
      by (simp add: timeframe_ms_def bar_aligned_def utc_second_def utc_minute_def)
  next
    case m15 then show ?thesis using ms mod_mult_zero [of 60 15 ?q] m [of 15]
      by (simp add: timeframe_ms_def bar_aligned_def utc_second_def utc_minute_def)
  next
    case m30 then show ?thesis using ms mod_mult_zero [of 60 30 ?q] m [of 30]
      by (simp add: timeframe_ms_def bar_aligned_def utc_second_def utc_minute_def)
  next
    case h1 then show ?thesis using ms hour by (simp add: timeframe_ms_def bar_aligned_def utc_second_def utc_minute_def)
  next
    case h2 then show ?thesis using ms hour mod_mult_zero [of 3600 2 ?q] h [of 2]
      by (simp add: timeframe_ms_def bar_aligned_def utc_second_def utc_minute_def utc_hour_def)
  next
    case h4 then show ?thesis using ms hour mod_mult_zero [of 3600 4 ?q] h [of 4]
      by (simp add: timeframe_ms_def bar_aligned_def utc_second_def utc_minute_def utc_hour_def)
  next
    case h8 then show ?thesis using ms hour mod_mult_zero [of 3600 8 ?q] h [of 8]
      by (simp add: timeframe_ms_def bar_aligned_def utc_second_def utc_minute_def utc_hour_def)
  next
    case d1 then show ?thesis using ms hour mod_mult_zero [of 3600 24 ?q]
      by (simp add: timeframe_ms_def bar_aligned_def utc_second_def utc_minute_def utc_hour_def)
  qed
qed


section \<open>A feed of hourly bars\<close>

definition demo_bar :: "int \<Rightarrow> rat \<Rightarrow> raw_bar" where
  "demo_bar k close = \<lparr>rb_t = k * 3600000, rb_values = Some (10, 12, 9, close, 5)\<rparr>"

definition hour_candle :: "int \<Rightarrow> rat \<Rightarrow> candle" where
  "hour_candle k close = \<lparr>cd_t = k * 3600000, cd_o = 10, cd_h = 12, cd_l = 9, cd_c = close, cd_v = 5\<rparr>"

text \<open>An event with the given bars; a fetch answers from the final bars of the hours.\<close>

definition demo_feed :: "raw_bar list \<Rightarrow> (int \<Rightarrow> bool) \<Rightarrow> bool \<Rightarrow> feed_env" where
  "demo_feed bars unpublished unread = \<lparr>fe_stall = Inr None, fe_now = 0, fe_watch = Inr bars,
     fe_fetch = (\<lambda>since limit. Inr (filter (\<lambda>r. case since of None \<Rightarrow> True | Some t \<Rightarrow> t \<le> rb_t r)
       [demo_bar 1 11, demo_bar 2 12, demo_bar 3 11])),
     fe_forming_fails = False, fe_heartbeat_fails = False, fe_last_fails = unread, fe_xadd_fails = (\<lambda>_. False),
     fe_publish_fails = unpublished, fe_trim = (\<lambda>_. 0)\<rparr>"

definition empty_feed :: feed where
  "empty_feed = \<lparr>fd_stream = [], fd_channel = [], fd_forming = None, fd_heartbeat = None\<rparr>"

abbreviation all_well :: "raw_bar list \<Rightarrow> feed_env" where
  "all_well bars \<equiv> demo_feed bars (\<lambda>_. False) False"

lemma demo_fetch: "fe_fetch (demo_feed bars p u) (Some since) limit = Inr rs \<Longrightarrow> ascending_from since rs"
  by (auto simp: demo_feed_def demo_bar_def ascending_from_def split: if_splits)

text \<open>Bar 1, then bar 3 at once: the hour between is stitched in.\<close>

lemma stream_stays_in_order_witness:
  "let f = snd (feed_run 3600000 [all_well [demo_bar 1 10], all_well [demo_bar 3 9]] (new_ingestor, empty_feed))
   in sorted_wrt (<) (times f) \<and> times f = [3600000, 7200000]"
proof -
  let ?Es = "[all_well [demo_bar 1 10], all_well [demo_bar 3 9]]"
  have e: "fe_watch (all_well bars) = Inr bars" for bars by (simp add: demo_feed_def)
  have "watch_event 3600000 (all_well [demo_bar 1 10]) (new_ingestor, empty_feed) =
      (\<lparr>ig_first = False, ig_prev_time = Some 3600000, ig_prev = Some (hour_candle 1 10)\<rparr>,
       empty_feed\<lparr>fd_forming := Some (hour_candle 1 10), fd_heartbeat := Some 0\<rparr>)" by code_simp
  then have "honest_run 3600000 ?Es (new_ingestor, empty_feed)"
    using demo_fetch by (auto simp: honest_def e empty_feed_def demo_bar_def new_ingestor_def)
  from stream_stays_in_order [OF this, of 0]
  have "sorted_wrt (<) (times (snd (feed_run 3600000 ?Es (new_ingestor, empty_feed))))"
    by (simp add: empty_feed_def demo_feed_def)
  moreover have "times (snd (feed_run 3600000 ?Es (new_ingestor, empty_feed))) = [3600000, 7200000]" by code_simp
  ultimately show ?thesis by (simp add: Let_def)
qed

lemma first_read_failure_stops_feed_witness:
  "fd_stream (snd (feed_run 3600000 [demo_feed [demo_bar 1 10] (\<lambda>_. False) True, all_well [demo_bar 2 9], all_well [demo_bar 3 9]]
     (new_ingestor, empty_feed))) = []"
proof -
  let ?E = "demo_feed [demo_bar 1 10] (\<lambda>_. False) True"
  have "next_candle ?E = Some (hour_candle 1 10)" by code_simp
  then show ?thesis
    using first_read_failure_stops_feed [of ?E "hour_candle 1 10" 3600000 "[all_well [demo_bar 2 9], all_well [demo_bar 3 9]]" empty_feed]
    by (simp add: demo_feed_def empty_feed_def)
qed

definition demo_holder :: ingestor where
  "demo_holder = \<lparr>ig_first = False, ig_prev_time = Some 3600000, ig_prev = Some (hour_candle 1 10)\<rparr>"

lemma demo_holds: "holds_bar demo_holder (hour_candle 1 10)"
  by (simp add: holds_bar_def demo_holder_def hour_candle_def)

lemma failed_publish_stores_twice_witness:
  "fd_stream (snd (feed_run 3600000 [demo_feed [demo_bar 2 9] (\<lambda>_. True) False, all_well [demo_bar 2 9]] (demo_holder, empty_feed))) =
     [hour_candle 1 10, hour_candle 1 10]"
proof -
  have "event_arrives (demo_feed [demo_bar 2 9] (\<lambda>_. True) False) (hour_candle 2 9)" "event_arrives (all_well [demo_bar 2 9]) (hour_candle 2 9)"
    by code_simp+
  from failed_publish_stores_twice [OF demo_holds this, of 3600000 empty_feed] show ?thesis
    by (simp add: demo_feed_def hour_candle_def empty_feed_def STREAM_MAXLEN_def)
qed

text \<open>The message that opens bar 2 also brings the final values of bar 1, with a close of 11; 10 is published.\<close>

lemma closed_bar_is_last_seen_witness:
  "fd_channel (snd (watch_event 3600000 (all_well [demo_bar 1 11, demo_bar 2 9]) (demo_holder, empty_feed))) = [hour_candle 1 10]"
proof -
  let ?E = "all_well [demo_bar 1 11, demo_bar 2 9]"
  have a: "event_arrives ?E (hour_candle 2 9)" by code_simp
  have h: "honest ?E (demo_holder, empty_feed)"
    using demo_fetch by (auto simp: honest_def demo_feed_def empty_feed_def demo_holder_def demo_bar_def)
  obtain new where "fd_channel (snd (watch_event 3600000 ?E (demo_holder, empty_feed))) = hour_candle 1 10 # new"
    using closed_bar_is_last_seen [OF demo_holds a _ _ h, of 3600000]
    by (auto simp: hour_candle_def demo_feed_def empty_feed_def)
  moreover have "length (fd_channel (snd (watch_event 3600000 ?E (demo_holder, empty_feed)))) = 1" by code_simp
  ultimately show ?thesis by simp
qed

lemma demo_fetch_all: "fe_fetch (all_well []) None (int 2 + 1) = Inr [demo_bar 1 11, demo_bar 2 12, demo_bar 3 11]"
  by (simp add: demo_feed_def)

lemma warmup_idempotent_witness:
  "\<exists>f2. feed_warmup 2 (all_well []) (snd (feed_warmup 2 (all_well []) empty_feed)) = (True, f2) \<and> length (fd_stream f2) = 2"
proof -
  let ?f1 = "snd (feed_warmup 2 (all_well []) empty_feed)"
  have "fst (feed_warmup 2 (all_well []) empty_feed)" by code_simp
  then have w: "feed_warmup 2 (all_well []) empty_feed = (True, ?f1)" by (metis (full_types) prod.collapse)
  have "sorted_wrt (<) (map rb_t [demo_bar 1 11, demo_bar 2 12, demo_bar 3 11])" by (simp add: demo_bar_def)
  from warmup_idempotent [OF w demo_fetch_all this]
  obtain f2 where "feed_warmup 2 (all_well []) ?f1 = (True, f2)" "fd_stream f2 = fd_stream ?f1" by blast
  moreover have "length (fd_stream ?f1) = 2" by code_simp
  ultimately show ?thesis by auto
qed

lemma engine_reads_closed_bars_witness:
  "read_stream_history 2 (snd (feed_warmup 2 (all_well []) empty_feed)) = [hour_candle 1 11, hour_candle 2 12]"
proof -
  let ?f1 = "snd (feed_warmup 2 (all_well []) empty_feed)"
  have "fst (feed_warmup 2 (all_well []) empty_feed)" by code_simp
  then have w: "feed_warmup 2 (all_well []) empty_feed = (True, ?f1)" by (metis (full_types) prod.collapse)
  have "map (Inr :: candle \<Rightarrow> candle result) (read_stream_history 2 ?f1) = map candle_from_raw [demo_bar 1 11, demo_bar 2 12]"
    using engine_reads_closed_bars [OF w demo_fetch_all, of 2] by (simp add: empty_feed_def STREAM_MAXLEN_def)
  then show ?thesis by (auto simp: candle_from_raw_def demo_bar_def hour_candle_def)
qed

lemma alignment_is_multiple_witness:
  "bar_aligned ''4h'' 14400500 \<longleftrightarrow> (14400500 div 1000) mod (14400000 div 1000) = (0 :: int)"
  by (rule alignment_is_multiple) (simp_all add: timeframe_ms_def)

end
