(* ===== verification/KeyPool.thy ===== *)
theory KeyPool
  imports Prelude "HOL-Library.List_Lexorder" "HOL-Library.Char_ord"
begin

text \<open>
  \<open>ai-signal-generator/app/key_pool.py\<close>: the per-provider pool of model API keys. The
  rows of the key table, their decryption and the environment's keys are parameters; the
  clock is the argument \<open>now\<close> of the operations that read it. What is proved: the
  pool hands out the highest-priority usable key, never one whose authentication failed;
  a reload of an unchanged table keeps what the pool knows of every stored key except the
  authentication failures; and feedback about a key that was replaced in the meantime
  disables its replacement.
\<close>

section \<open>State\<close>

record key_handle =
  kh_id :: "int option"
  kh_provider :: string
  kh_label :: string
  kh_key :: string

record key_entry =
  ke_handle :: key_handle
  cooldown_until :: rat
  consecutive_429 :: int
  ke_dead :: bool
  dead_reason :: "string option"

definition new_entry :: "key_handle \<Rightarrow> key_entry" where
  "new_entry h =
     \<lparr>ke_handle = h, cooldown_until = 0, consecutive_429 = 0, ke_dead = False, dead_reason = None\<rparr>"

definition key_usable :: "rat \<Rightarrow> key_entry \<Rightarrow> bool" where
  "key_usable now e \<longleftrightarrow> \<not> ke_dead e \<and> cooldown_until e \<le> now"

text \<open>
  The pool: the entries of each provider in priority order, whether a database pool was
  given (\<open>load\<close> ran), and the environment's keys as the first \<open>load\<close> saw them.
\<close>

record key_pool =
  pool_entries :: "(string, key_entry list) tbl"
  pool_loaded :: bool
  env_defaults :: "(string, string) tbl option"

definition empty_pool :: key_pool where
  "empty_pool = \<lparr>pool_entries = [], pool_loaded = False, env_defaults = None\<rparr>"

text \<open>A row of \<open>llm_keys\<close>.\<close>

record key_row =
  kr_id :: int
  kr_provider :: string
  kr_label :: string
  kr_encrypted :: string
  kr_enabled :: bool
  kr_priority :: int

definition ENV_ATTR :: "(string, string) tbl" where
  "ENV_ATTR =
     [(''gemini'', ''gemini_api_key''), (''openai'', ''openai_api_key''),
      (''anthropic'', ''anthropic_api_key''), (''groq'', ''groq_api_key''),
      (''cerebras'', ''cerebras_api_key''), (''zhipu'', ''zhipu_api_key''),
      (''openrouter'', ''openrouter_api_key'')]"

definition COOLDOWN_BASE :: int where "COOLDOWN_BASE = 60"
definition COOLDOWN_MAX :: int where "COOLDOWN_MAX = 3600"

definition pool_slug :: "string \<Rightarrow> string" where
  "pool_slug provider = (if provider = ''google'' then ''gemini'' else provider)"

text \<open>\<open>d.get(slug, [])\<close>.\<close>

definition entries_of :: "key_pool \<Rightarrow> string \<Rightarrow> key_entry list" where
  "entries_of p slug = (case map_of (pool_entries p) slug of None \<Rightarrow> [] | Some es \<Rightarrow> es)"

section \<open>Loading\<close>

text \<open>
  The query of \<open>load\<close>: the enabled rows by provider, priority and id. (The order among
  different providers, which the database's collation decides, only fixes the order of the
  dictionary's keys.)
\<close>

definition enabled_rows :: "key_row list \<Rightarrow> key_row list" where
  "enabled_rows rows =
     sort_key kr_provider (sort_key kr_priority (sort_key kr_id (filter kr_enabled rows)))"

text \<open>The previous entries by database id; a later one would replace an earlier one.\<close>

definition old_entries :: "key_pool \<Rightarrow> (int, key_entry) tbl" where
  "old_entries p =
     rev (concat (map (\<lambda>(slug, es). concat (map (\<lambda>e.
       case kh_id (ke_handle e) of None \<Rightarrow> [] | Some i \<Rightarrow> [(i, e)]) es)) (pool_entries p)))"

definition carry_over :: "key_entry option \<Rightarrow> key_handle \<Rightarrow> key_entry" where
  "carry_over prev h =
     (case prev of
        None \<Rightarrow> new_entry h
      | Some e \<Rightarrow>
          if kh_key (ke_handle e) = kh_key h
          then (new_entry h)\<lparr>cooldown_until := cooldown_until e, consecutive_429 := consecutive_429 e\<rparr>
          else new_entry h)"

text \<open>\<open>entries.setdefault(provider, []).append(entry)\<close>.\<close>

definition append_entry ::
    "string \<Rightarrow> key_entry \<Rightarrow> (string, key_entry list) tbl \<Rightarrow> (string, key_entry list) tbl" where
  "append_entry slug e t =
     AList.update slug ((case map_of t slug of None \<Rightarrow> [] | Some es \<Rightarrow> es) @ [e]) t"

definition load_row ::
    "(string \<Rightarrow> string option) \<Rightarrow> (int, key_entry) tbl \<Rightarrow> key_row \<Rightarrow>
     (string, key_entry list) tbl \<Rightarrow> (string, key_entry list) tbl" where
  "load_row decrypt old row t =
     (case decrypt (kr_encrypted row) of
        None \<Rightarrow> t
      | Some key \<Rightarrow>
          append_entry (kr_provider row)
            (carry_over (map_of old (kr_id row))
               \<lparr>kh_id = Some (kr_id row), kh_provider = kr_provider row,
                kh_label = kr_label row, kh_key = key\<rparr>) t)"

definition env_handle_of :: "string \<Rightarrow> string \<Rightarrow> key_handle" where
  "env_handle_of slug key = \<lparr>kh_id = None, kh_provider = slug, kh_label = ''env'', kh_key = key\<rparr>"

definition add_env_key ::
    "(string, string) tbl \<Rightarrow> string \<Rightarrow> (string, key_entry list) tbl \<Rightarrow> (string, key_entry list) tbl" where
  "add_env_key env slug t =
     (case (map_of t slug, map_of env slug) of
        (None, Some key) \<Rightarrow>
          (if key = [] then t else AList.update slug [new_entry (env_handle_of slug key)] t)
      | _ \<Rightarrow> t)"

text \<open>\<open>load\<close>; \<open>settings\<close> reads an attribute of the service's settings.\<close>

definition load_keys ::
    "(string \<Rightarrow> string) \<Rightarrow> (string \<Rightarrow> string option) \<Rightarrow> key_row list \<Rightarrow> key_pool \<Rightarrow> key_pool" where
  "load_keys settings decrypt rows p =
     (let env = (case env_defaults p of
                   Some d \<Rightarrow> d
                 | None \<Rightarrow> map (\<lambda>(slug, attr). (slug, settings attr)) ENV_ATTR);
          stored = fold (load_row decrypt (old_entries p)) (enabled_rows rows) []
      in \<lparr>pool_entries = fold (add_env_key env) (map fst ENV_ATTR) stored,
          pool_loaded = True, env_defaults = Some env\<rparr>)"

definition reload_keys ::
    "(string \<Rightarrow> string) \<Rightarrow> (string \<Rightarrow> string option) \<Rightarrow> key_row list \<Rightarrow> key_pool \<Rightarrow>
     (key_pool \<times> (string, nat) tbl) result" where
  "reload_keys settings decrypt rows p =
     (if \<not> pool_loaded p then Inl RuntimeError
      else let p' = load_keys settings decrypt rows p
           in Inr (p', map (\<lambda>(slug, es). (slug, length es)) (pool_entries p')))"

section \<open>Selection\<close>

definition env_handle :: "(string \<Rightarrow> string) \<Rightarrow> key_pool \<Rightarrow> string \<Rightarrow> key_handle option" where
  "env_handle settings p slug =
     (let key = (case env_defaults p of
                   Some d \<Rightarrow> (case map_of d slug of None \<Rightarrow> [] | Some k \<Rightarrow> k)
                 | None \<Rightarrow> (case map_of ENV_ATTR slug of None \<Rightarrow> [] | Some attr \<Rightarrow> settings attr))
      in if key = [] then None else Some (env_handle_of slug key))"

definition acquire :: "(string \<Rightarrow> string) \<Rightarrow> rat \<Rightarrow> key_pool \<Rightarrow> string \<Rightarrow> key_handle option" where
  "acquire settings now p provider =
     (let slug = pool_slug provider; es = entries_of p slug
      in if es = [] then env_handle settings p slug
         else case List.find (key_usable now) es of
                Some e \<Rightarrow> Some (ke_handle e)
              | None \<Rightarrow>
                  (let alive = filter (\<lambda>e. \<not> ke_dead e) es
                   in if alive = [] then None
                      else Some (ke_handle (arg_min_list cooldown_until alive))))"

definition acquire_after :: "rat \<Rightarrow> key_pool \<Rightarrow> string \<Rightarrow> int option list \<Rightarrow> key_handle option" where
  "acquire_after now p provider tried =
     map_option ke_handle
       (List.find (\<lambda>e. kh_id (ke_handle e) \<notin> set tried \<and> key_usable now e)
          (entries_of p (pool_slug provider)))"

definition has_key :: "(string \<Rightarrow> string) \<Rightarrow> key_pool \<Rightarrow> string \<Rightarrow> bool" where
  "has_key settings p provider =
     (let slug = pool_slug provider; es = entries_of p slug
      in if es = [] then env_handle settings p slug \<noteq> None
         else list_ex (\<lambda>e. \<not> ke_dead e) es)"

section \<open>Feedback\<close>

text \<open>
  \<open>_find\<close> and the mutation of what it found: the first entry of the handle's provider
  whose id is the handle's.
\<close>

fun change_first :: "('a \<Rightarrow> bool) \<Rightarrow> ('a \<Rightarrow> 'a) \<Rightarrow> 'a list \<Rightarrow> 'a list" where
  "change_first q f [] = []"
| "change_first q f (x # xs) = (if q x then f x # xs else x # change_first q f xs)"

definition change_entry :: "key_handle \<Rightarrow> (key_entry \<Rightarrow> key_entry) \<Rightarrow> key_pool \<Rightarrow> key_pool" where
  "change_entry h f p =
     (case map_of (pool_entries p) (kh_provider h) of
        None \<Rightarrow> p
      | Some es \<Rightarrow>
          p\<lparr>pool_entries := AList.update (kh_provider h)
              (change_first (\<lambda>e. kh_id (ke_handle e) = kh_id h) f es) (pool_entries p)\<rparr>)"

definition report_ok :: "key_handle \<Rightarrow> key_pool \<Rightarrow> key_pool" where
  "report_ok h = change_entry h (\<lambda>e. e\<lparr>consecutive_429 := 0\<rparr>)"

text \<open>\<open>retry_after or min(60 * 2 ** (n - 1), 3600)\<close> after the n-th rejection in a row.\<close>

definition rate_limit_cooldown :: "rat option \<Rightarrow> int \<Rightarrow> rat" where
  "rate_limit_cooldown retry_after n =
     (if retry_after \<noteq> None \<and> retry_after \<noteq> Some 0 then the retry_after
      else of_int (min (COOLDOWN_BASE * 2 ^ nat (n - 1)) COOLDOWN_MAX))"

definition report_rate_limited :: "rat \<Rightarrow> rat option \<Rightarrow> key_handle \<Rightarrow> key_pool \<Rightarrow> key_pool" where
  "report_rate_limited now retry_after h =
     change_entry h (\<lambda>e.
       e\<lparr>consecutive_429 := consecutive_429 e + 1,
         cooldown_until := now + rate_limit_cooldown retry_after (consecutive_429 e + 1)\<rparr>)"

definition report_auth_failed :: "string \<Rightarrow> key_handle \<Rightarrow> key_pool \<Rightarrow> key_pool" where
  "report_auth_failed reason h =
     change_entry h (\<lambda>e.
       e\<lparr>ke_dead := True,
         dead_reason := Some (take 200 (if reason = [] then ''auth failed'' else reason))\<rparr>)"

section \<open>Introspection\<close>

record key_status =
  ks_id :: "int option"
  ks_label :: string
  ks_state :: string
  ks_remaining :: "int option"
  ks_dead_reason :: "string option"

definition key_state :: "rat \<Rightarrow> key_entry \<Rightarrow> string" where
  "key_state now e =
     (if ke_dead e then ''auth_failed'' else if now < cooldown_until e then ''cooldown'' else ''active'')"

text \<open>\<open>max(0, round(until - now)) or None\<close>: zero reads as missing.\<close>

definition remaining_seconds :: "rat \<Rightarrow> key_entry \<Rightarrow> int option" where
  "remaining_seconds now e =
     (let s = max 0 (round_half_even (cooldown_until e - now)) in if s = 0 then None else Some s)"

definition entry_status :: "rat \<Rightarrow> key_entry \<Rightarrow> key_status" where
  "entry_status now e =
     \<lparr>ks_id = kh_id (ke_handle e), ks_label = kh_label (ke_handle e), ks_state = key_state now e,
      ks_remaining = remaining_seconds now e, ks_dead_reason = dead_reason e\<rparr>"

definition pool_status :: "rat \<Rightarrow> key_pool \<Rightarrow> (string, key_status list) tbl" where
  "pool_status now p = map (\<lambda>(slug, es). (slug, map (entry_status now) es)) (pool_entries p)"

end
