(* ===== verification/KeyPoolSafety.thy ===== *)
theory KeyPoolSafety
  imports KeyPool "HOL-Library.Multiset"
begin

text \<open>
  Properties of the key pool: what \<open>acquire\<close> hands out, that a key whose
  authentication failed stays out until a reload, that a reload of an unchanged table keeps
  the cooldowns, and that feedback is matched by the row id and not by the key.
\<close>

section \<open>Lookups after feedback\<close>

lemma entries_of_change_entry:
  "entries_of (change_entry h f p) slug =
     (if slug = kh_provider h then change_first (\<lambda>e. kh_id (ke_handle e) = kh_id h) f (entries_of p slug)
      else entries_of p slug)"
  by (auto simp: entries_of_def change_entry_def row_simps split: option.splits)

lemma change_entry_env [simp]: "env_defaults (change_entry h f p) = env_defaults p"
  by (simp add: change_entry_def split: option.splits)

text \<open>The three kinds of feedback, as one step on the pool.\<close>

inductive feedback :: "key_pool \<Rightarrow> key_pool \<Rightarrow> bool" where
  ok: "feedback p (report_ok h p)"
| rate_limited: "feedback p (report_rate_limited now ra h p)"
| auth_failed: "feedback p (report_auth_failed r h p)"

inductive reports :: "key_pool \<Rightarrow> key_pool \<Rightarrow> bool" for p where
  none: "reports p p"
| more: "reports p q \<Longrightarrow> feedback q r \<Longrightarrow> reports p r"

text \<open>
  Every feedback changes one entry by a function that keeps its handle and does not revive
  it: the shape all invariants below go by.
\<close>

definition keeps_key :: "(key_entry \<Rightarrow> key_entry) \<Rightarrow> bool" where
  "keeps_key f \<longleftrightarrow> (\<forall>e. ke_handle (f e) = ke_handle e \<and> (ke_dead e \<longrightarrow> ke_dead (f e)))"

lemma feedback_shape:
  assumes "feedback p q"
  obtains h f where "q = change_entry h f p" "keeps_key f"
  using assms
  by cases (auto simp: report_ok_def report_rate_limited_def report_auth_failed_def keeps_key_def
      intro!: that)

lemma reports_induct [consumes 1, case_names none change]:
  assumes "reports p q"
    and "P p"
    and "\<And>q h f. reports p q \<Longrightarrow> P q \<Longrightarrow> keeps_key f \<Longrightarrow> P (change_entry h f q)"
  shows "P q"
  using assms(1)
proof (induction rule: reports.induct)
  case none
  show ?case by (fact assms(2))
next
  case (more q r)
  from \<open>feedback q r\<close> obtain h f where "r = change_entry h f q" "keeps_key f"
    by (rule feedback_shape)
  with assms(3) [OF \<open>reports p q\<close> more.IH] show ?case by simp
qed

lemma change_first_map:
  assumes "\<And>x. q x \<Longrightarrow> g (f x) = g x"
  shows "map g (change_first q f xs) = map g xs"
  using assms by (induction xs) auto

lemma change_first_dead:
  assumes "keeps_key f"
  shows "map (\<lambda>e. kh_id (ke_handle e)) (change_first q f es) = map (\<lambda>e. kh_id (ke_handle e)) es"
  using assms by (intro change_first_map) (simp add: keeps_key_def)

section \<open>Selection\<close>

lemma find_first:
  "List.find q xs = Some x \<longleftrightarrow> (\<exists>i<length xs. x = xs ! i \<and> q x \<and> (\<forall>j<i. \<not> q (xs ! j)))"
  by (auto simp: find_Some_iff)

lemma acquire_entries:
  assumes "entries_of p (pool_slug provider) = es" and "es \<noteq> []"
  shows "acquire settings now p provider =
    (case List.find (key_usable now) es of
       Some e \<Rightarrow> Some (ke_handle e)
     | None \<Rightarrow>
         (if filter (\<lambda>e. \<not> ke_dead e) es = [] then None
          else Some (ke_handle (arg_min_list cooldown_until (filter (\<lambda>e. \<not> ke_dead e) es)))))"
  using assms by (simp add: acquire_def Let_def cong: option.case_cong)

text \<open>
  For a provider that has entries, \<open>acquire\<close> returns the first usable key in
  priority order if there is one; otherwise, of the keys whose authentication did not fail,
  one that cools down earliest; and nothing only when every key failed authentication.
\<close>

theorem acquire_best:
  assumes "entries_of p (pool_slug provider) = es" and "es \<noteq> []"
  shows "case acquire settings now p provider of
      None \<Rightarrow> (\<forall>e\<in>set es. ke_dead e)
    | Some h \<Rightarrow>
        (\<exists>i<length es. h = ke_handle (es ! i) \<and> \<not> ke_dead (es ! i) \<and>
          (if key_usable now (es ! i) then \<forall>j<i. \<not> key_usable now (es ! j)
           else \<forall>e\<in>set es. \<not> key_usable now e \<and>
                  (\<not> ke_dead e \<longrightarrow> cooldown_until (es ! i) \<le> cooldown_until e)))"
proof (cases "List.find (key_usable now) es")
  case (Some e)
  then obtain i where "i < length es" "e = es ! i" "key_usable now e" "\<forall>j<i. \<not> key_usable now (es ! j)"
    by (auto simp: find_first)
  moreover have "acquire settings now p provider = Some (ke_handle e)"
    using Some by (simp add: acquire_entries [OF assms])
  ultimately show ?thesis by (auto simp: key_usable_def)
next
  case None
  then have none: "\<forall>e\<in>set es. \<not> key_usable now e" by (simp add: find_None_iff)
  let ?alive = "filter (\<lambda>e. \<not> ke_dead e) es"
  show ?thesis
  proof (cases "?alive = []")
    case True
    with None show ?thesis by (simp add: acquire_entries [OF assms] filter_empty_conv)
  next
    case False
    let ?e = "arg_min_list cooldown_until ?alive"
    from False have "?e \<in> set ?alive" by (rule arg_min_list_in)
    then obtain i where i: "i < length es" "es ! i = ?e" and "\<not> ke_dead ?e"
      by (auto simp: in_set_conv_nth)
    moreover have "cooldown_until ?e \<le> cooldown_until e" if "e \<in> set es" "\<not> ke_dead e" for e
      using that f_arg_min_list_f [OF False, of cooldown_until] by simp
    moreover have "acquire settings now p provider = Some (ke_handle ?e)"
      using None False by (simp add: acquire_entries [OF assms])
    ultimately show ?thesis using none by auto
  qed
qed

lemma acquire_alive:
  assumes "entries_of p (pool_slug provider) \<noteq> []" and "acquire settings now p provider = Some h"
  obtains e where "e \<in> set (entries_of p (pool_slug provider))" "h = ke_handle e" "\<not> ke_dead e"
proof -
  let ?es = "entries_of p (pool_slug provider)"
  let ?alive = "filter (\<lambda>e. \<not> ke_dead e) ?es"
  show thesis
  proof (cases "List.find (key_usable now) ?es")
    case (Some e)
    with assms show thesis
      by (intro that [of e]) (auto simp: acquire_entries find_Some_iff key_usable_def)
  next
    case None
    with assms have *: "?alive \<noteq> []" "h = ke_handle (arg_min_list cooldown_until ?alive)"
      by (auto simp: acquire_entries split: if_splits)
    from arg_min_list_in [OF *(1)] * that show thesis by auto
  qed
qed

lemma acquire_after_alive:
  assumes "acquire_after now p provider tried = Some h"
  obtains e where "e \<in> set (entries_of p (pool_slug provider))" "h = ke_handle e" "\<not> ke_dead e"
    "kh_id h \<notin> set tried"
  using assms by (auto simp: acquire_after_def find_Some_iff key_usable_def intro!: that)

section \<open>A failed key stays out\<close>

text \<open>No two entries of a provider carry the same id: what \<open>load\<close> establishes.\<close>

definition ids_distinct :: "key_pool \<Rightarrow> bool" where
  "ids_distinct p \<longleftrightarrow> (\<forall>slug. distinct (map (\<lambda>e. kh_id (ke_handle e)) (entries_of p slug)))"

lemma change_entry_ids:
  "keeps_key f \<Longrightarrow> map (\<lambda>e. kh_id (ke_handle e)) (entries_of (change_entry h f p) slug) =
     map (\<lambda>e. kh_id (ke_handle e)) (entries_of p slug)"
  by (simp add: entries_of_change_entry change_first_dead)

definition barred :: "key_handle \<Rightarrow> key_pool \<Rightarrow> bool" where
  "barred h p \<longleftrightarrow>
     entries_of p (kh_provider h) \<noteq> [] \<and>
     (\<forall>e\<in>set (entries_of p (kh_provider h)). kh_id (ke_handle e) = kh_id h \<longrightarrow> ke_dead e)"

lemma change_first_all:
  assumes "\<forall>e\<in>set es. P e \<longrightarrow> Q e" and "\<And>e. P (f e) \<Longrightarrow> P e" and "\<And>e. Q e \<Longrightarrow> Q (f e)"
  shows "\<forall>e\<in>set (change_first q f es). P e \<longrightarrow> Q e"
  using assms(1) by (induction es) (auto intro: assms(2,3))

lemma change_first_empty [simp]: "change_first q f es = [] \<longleftrightarrow> es = []"
  by (cases es) auto

lemma barred_change:
  assumes "barred h p" and "keeps_key f"
  shows "barred h (change_entry h' f p)"
proof -
  have "\<forall>e\<in>set (change_first (\<lambda>e. kh_id (ke_handle e) = kh_id h') f (entries_of p (kh_provider h))).
      kh_id (ke_handle e) = kh_id h \<longrightarrow> ke_dead e"
    by (rule change_first_all) (use assms in \<open>auto simp: barred_def keeps_key_def\<close>)
  with assms(1) show ?thesis by (auto simp: barred_def entries_of_change_entry)
qed

lemma change_first_distinct:
  assumes "distinct (map g es)" and "\<And>e. g (f e) = g e"
  shows "\<forall>e\<in>set (change_first (\<lambda>e. g e = k) f es). g e = k \<longrightarrow> (\<exists>e'. e = f e')"
  using assms by (induction es) (auto simp: rev_image_eqI)

lemma barred_auth_failed:
  assumes "ids_distinct p" and "e \<in> set (entries_of p (kh_provider h))"
    and "kh_id (ke_handle e) = kh_id h"
  shows "barred h (report_auth_failed r h p)"
proof -
  let ?f = "\<lambda>e. e\<lparr>ke_dead := True,
         dead_reason := Some (take 200 (if r = [] then ''auth failed'' else r))\<rparr>"
  have "\<forall>e\<in>set (change_first (\<lambda>e. kh_id (ke_handle e) = kh_id h) ?f (entries_of p (kh_provider h))).
      kh_id (ke_handle e) = kh_id h \<longrightarrow> (\<exists>e'. e = ?f e')"
    using assms(1) by (intro change_first_distinct) (simp_all add: ids_distinct_def)
  with assms(2) show ?thesis
    by (fastforce simp: barred_def report_auth_failed_def entries_of_change_entry)
qed

lemma barred_reports: "reports p q \<Longrightarrow> barred h p \<Longrightarrow> barred h q"
  by (induction rule: reports_induct) (auto intro: barred_change)

lemma barred_not_acquired:
  assumes "barred h p" and "pool_slug provider = kh_provider h"
  shows "acquire settings now p provider = Some h' \<Longrightarrow> kh_id h' \<noteq> kh_id h"
    and "acquire_after now p provider tried = Some h' \<Longrightarrow> kh_id h' \<noteq> kh_id h"
  using assms by (auto simp: barred_def elim!: acquire_after_alive elim: acquire_alive [rotated])

section \<open>Reloading\<close>

text \<open>
  What \<open>load\<close> builds, split into the handles the table and the environment give and
  what each handle inherits from the previous entries.
\<close>

definition load_handle ::
    "(string \<Rightarrow> string option) \<Rightarrow> key_row \<Rightarrow> (string, key_handle list) tbl \<Rightarrow> (string, key_handle list) tbl" where
  "load_handle decrypt row t =
     (case decrypt (kr_encrypted row) of
        None \<Rightarrow> t
      | Some key \<Rightarrow>
          AList.update (kr_provider row)
            ((case map_of t (kr_provider row) of None \<Rightarrow> [] | Some hs \<Rightarrow> hs) @
             [\<lparr>kh_id = Some (kr_id row), kh_provider = kr_provider row,
               kh_label = kr_label row, kh_key = key\<rparr>]) t)"

definition env_key_handle ::
    "(string, string) tbl \<Rightarrow> string \<Rightarrow> (string, key_handle list) tbl \<Rightarrow> (string, key_handle list) tbl" where
  "env_key_handle env slug t =
     (case (map_of t slug, map_of env slug) of
        (None, Some key) \<Rightarrow> (if key = [] then t else AList.update slug [env_handle_of slug key] t)
      | _ \<Rightarrow> t)"

definition loaded_handles ::
    "(string \<Rightarrow> string option) \<Rightarrow> key_row list \<Rightarrow> (string, string) tbl \<Rightarrow> (string, key_handle list) tbl" where
  "loaded_handles decrypt rows env =
     fold (env_key_handle env) (map fst ENV_ATTR) (fold (load_handle decrypt) (enabled_rows rows) [])"

definition entry_for :: "(int, key_entry) tbl \<Rightarrow> key_handle \<Rightarrow> key_entry" where
  "entry_for old h = (case kh_id h of None \<Rightarrow> new_entry h | Some i \<Rightarrow> carry_over (map_of old i) h)"

definition map_lists :: "('a \<Rightarrow> 'b) \<Rightarrow> ('k, 'a list) tbl \<Rightarrow> ('k, 'b list) tbl" where
  "map_lists g t = map (\<lambda>(k, xs). (k, map g xs)) t"

lemma map_of_map_lists: "map_of (map_lists g t) k = map_option (map g) (map_of t k)"
  by (induction t) (auto simp: map_lists_def)

lemma map_lists_update: "map_lists g (AList.update k xs t) = AList.update k (map g xs) (map_lists g t)"
  by (induction t) (auto simp: map_lists_def)

lemma map_lists_compose: "map_lists f (map_lists g t) = map_lists (\<lambda>x. f (g x)) t"
  by (simp add: map_lists_def case_prod_unfold)

lemma load_row_handles:
  "load_row decrypt old row (map_lists (entry_for old) t) = map_lists (entry_for old) (load_handle decrypt row t)"
  by (auto simp: load_row_def load_handle_def append_entry_def map_lists_update map_of_map_lists
      entry_for_def split: option.splits)

lemma add_env_key_handles:
  "add_env_key env slug (map_lists (entry_for old) t) = map_lists (entry_for old) (env_key_handle env slug t)"
  by (auto simp: add_env_key_def env_key_handle_def map_lists_update map_of_map_lists
      entry_for_def env_handle_of_def split: option.splits)

lemma fold_load_row:
  "fold (load_row decrypt old) rs (map_lists (entry_for old) t) =
     map_lists (entry_for old) (fold (load_handle decrypt) rs t)"
  by (induction rs arbitrary: t) (simp_all add: load_row_handles)

lemma fold_add_env_key:
  "fold (add_env_key env) ss (map_lists (entry_for old) t) =
     map_lists (entry_for old) (fold (env_key_handle env) ss t)"
  by (induction ss arbitrary: t) (simp_all add: add_env_key_handles)

lemma load_keys_handles:
  "pool_entries (load_keys settings decrypt rows p) =
     map_lists (entry_for (old_entries p))
       (loaded_handles decrypt rows (the (env_defaults (load_keys settings decrypt rows p))))"
proof -
  have "fold (load_row decrypt (old_entries p)) (enabled_rows rows) [] =
      map_lists (entry_for (old_entries p)) (fold (load_handle decrypt) (enabled_rows rows) [])"
    using fold_load_row [of decrypt "old_entries p" "enabled_rows rows" "[]"]
    by (simp add: map_lists_def)
  then show ?thesis
    by (simp add: load_keys_def Let_def loaded_handles_def fold_add_env_key)
qed

text \<open>The handles of a pool, which feedback never changes.\<close>

definition pool_handles :: "key_pool \<Rightarrow> (string, key_handle list) tbl" where
  "pool_handles p = map_lists ke_handle (pool_entries p)"

lemma entry_for_handle [simp]: "ke_handle (entry_for old h) = h"
  by (simp add: entry_for_def carry_over_def new_entry_def split: option.splits)

lemma load_pool_handles:
  "pool_handles (load_keys settings decrypt rows p) =
     loaded_handles decrypt rows (the (env_defaults (load_keys settings decrypt rows p)))"
  by (simp add: pool_handles_def load_keys_handles map_lists_compose) (simp add: map_lists_def)

lemma update_same: "map_of t k = Some v \<Longrightarrow> AList.update k v t = t"
  by (induction t) (auto split: if_splits)

lemma change_entry_handles:
  assumes "keeps_key f"
  shows "pool_handles (change_entry h f p) = pool_handles p"
proof -
  have "map_lists ke_handle (AList.update k (change_first q f es) t) = map_lists ke_handle t"
    if "map_of t k = Some es" for q k es t
    using assms that
    by (simp add: map_lists_update change_first_map keeps_key_def update_same map_of_map_lists)
  then show ?thesis by (auto simp: pool_handles_def change_entry_def split: option.splits)
qed

lemma reports_handles: "reports p q \<Longrightarrow> pool_handles q = pool_handles p"
  by (induction rule: reports_induct) (simp_all add: change_entry_handles)

lemma reports_env: "reports p q \<Longrightarrow> env_defaults q = env_defaults p"
  by (induction rule: reports_induct) simp_all

lemma load_env: "env_defaults (load_keys settings decrypt rows p) \<noteq> None"
  by (simp add: load_keys_def Let_def)

lemma load_env_again:
  "env_defaults p \<noteq> None \<Longrightarrow> env_defaults (load_keys settings decrypt rows p) = env_defaults p"
  by (auto simp: load_keys_def Let_def)

text \<open>The ids of the handles that \<open>load\<close> builds are those of the rows, each once.\<close>

definition handle_ids :: "(string, key_handle list) tbl \<Rightarrow> int list" where
  "handle_ids t = concat (map (\<lambda>(k, hs). concat (map (\<lambda>h. case kh_id h of None \<Rightarrow> [] | Some i \<Rightarrow> [i]) hs)) t)"

lemma handle_ids_simps [simp]:
  "handle_ids [] = []"
  "handle_ids ((k, []) # t) = handle_ids t"
  "handle_ids ((k, h # hs) # t) =
     (case kh_id h of None \<Rightarrow> [] | Some i \<Rightarrow> [i]) @ handle_ids ((k, hs) # t)"
  by (simp_all add: handle_ids_def)

lemma handle_ids_Cons: "handle_ids (x # t) = handle_ids [x] @ handle_ids t"
  by (simp add: handle_ids_def)

lemma handle_ids_snoc: "mset (handle_ids [(k, hs @ [h])]) =
    mset (handle_ids [(k, hs)]) + mset (case kh_id h of None \<Rightarrow> [] | Some i \<Rightarrow> [i])"
  by (induction hs) (simp_all add: ac_simps)

lemma handle_ids_update:
  "mset (handle_ids (AList.update k ((case map_of t k of None \<Rightarrow> [] | Some hs \<Rightarrow> hs) @ [h]) t)) =
     mset (handle_ids t) + mset (case kh_id h of None \<Rightarrow> [] | Some i \<Rightarrow> [i])"
proof (induction t)
  case Nil
  show ?case by simp
next
  case (Cons x t)
  obtain k' hs where x: "x = (k', hs)" by (cases x)
  show ?case
  proof (cases "k' = k")
    case True
    then show ?thesis
      by (simp add: x handle_ids_Cons [of "(k, hs @ [h])" t] handle_ids_Cons [of "(k, hs)" t] handle_ids_snoc
          del: handle_ids_simps)
  next
    case False
    then show ?thesis
      using Cons.IH
      by (simp add: x handle_ids_Cons [of "(k', hs)" t] handle_ids_Cons [of "(k', hs)" "AList.update k _ t"]
          del: handle_ids_simps)
  qed
qed

lemma load_handle_ids:
  "mset (handle_ids (load_handle decrypt row t)) \<subseteq># mset (handle_ids t) + {#kr_id row#}"
  by (auto simp: load_handle_def handle_ids_update split: option.split)

lemma fold_load_handle_ids:
  "mset (handle_ids (fold (load_handle decrypt) rs t)) \<subseteq># mset (handle_ids t) + mset (map kr_id rs)"
proof (induction rs arbitrary: t)
  case (Cons r rs)
  have "mset (handle_ids (fold (load_handle decrypt) (r # rs) t))
      \<subseteq># mset (handle_ids (load_handle decrypt r t)) + mset (map kr_id rs)"
    using Cons.IH by simp
  also have "\<dots> \<subseteq># (mset (handle_ids t) + {#kr_id r#}) + mset (map kr_id rs)"
    by (intro subset_mset.add_right_mono load_handle_ids)
  finally show ?case by simp
qed simp

lemma env_key_handle_ids: "handle_ids (env_key_handle env slug t) = handle_ids t"
proof -
  have "handle_ids (AList.update slug [env_handle_of slug key] t) = handle_ids t"
    if "map_of t slug = None" for key
    using that by (induction t) (auto simp: handle_ids_def env_handle_of_def split: if_splits)
  then show ?thesis by (auto simp: env_key_handle_def split: option.splits)
qed

lemma mset_sub_distinct: "distinct ys \<Longrightarrow> mset xs \<subseteq># mset ys \<Longrightarrow> distinct xs"
proof -
  assume "distinct ys" "mset xs \<subseteq># mset ys"
  moreover obtain zs where "mset zs = mset ys - mset xs" using ex_mset by blast
  ultimately have "mset ys = mset (xs @ zs)" by simp
  with \<open>distinct ys\<close> have "distinct (xs @ zs)" by (metis mset_eq_imp_distinct_iff)
  then show "distinct xs" by simp
qed

lemma loaded_handle_ids:
  assumes "distinct (map kr_id rows)"
  shows "distinct (handle_ids (loaded_handles decrypt rows env))"
proof -
  have env: "handle_ids (fold (env_key_handle env) ss t) = handle_ids t" for ss t
    by (induction ss arbitrary: t) (simp_all add: env_key_handle_ids)
  have "mset (map kr_id (enabled_rows rows)) \<subseteq># mset (map kr_id rows)"
    by (simp add: enabled_rows_def mset_filter image_mset_subseteq_mono)
  with fold_load_handle_ids [of decrypt "enabled_rows rows" "[]"]
  have "mset (handle_ids (loaded_handles decrypt rows env)) \<subseteq># mset (map kr_id rows)"
    unfolding loaded_handles_def env by (auto intro: subset_mset.order_trans)
  with assms show ?thesis
    by (rule mset_sub_distinct)
qed

text \<open>
  What a reload makes of an entry when nothing changed in the table: a stored key keeps its
  cooldown and its escalation and loses the authentication failure; a key from the
  environment starts over.
\<close>

definition refreshed :: "key_entry \<Rightarrow> key_entry" where
  "refreshed e =
     (if kh_id (ke_handle e) = None then new_entry (ke_handle e)
      else e\<lparr>ke_dead := False, dead_reason := None\<rparr>)"

lemma old_entries_lookup:
  assumes "distinct (handle_ids (pool_handles p))"
    and "(slug, es) \<in> set (pool_entries p)" and "e \<in> set es" and "kh_id (ke_handle e) = Some i"
  shows "map_of (old_entries p) i = Some e"
proof -
  have "map fst (rev (old_entries p)) = handle_ids (pool_handles p)"
    by (auto simp: old_entries_def handle_ids_def pool_handles_def map_lists_def map_concat o_def
        intro!: arg_cong [of _ _ concat] split: option.splits)
  then have "distinct (map fst (old_entries p))"
    using assms(1) by (metis distinct_rev rev_map)
  moreover have "(i, e) \<in> set (old_entries p)"
    using assms(2-4) by (force simp: old_entries_def)
  ultimately show ?thesis by (simp add: map_of_eq_Some_iff)
qed

lemma entry_for_refreshed:
  assumes "distinct (handle_ids (pool_handles p))" and "(slug, es) \<in> set (pool_entries p)" and "e \<in> set es"
  shows "entry_for (old_entries p) (ke_handle e) = refreshed e"
proof (cases "kh_id (ke_handle e)")
  case None
  then show ?thesis by (simp add: entry_for_def refreshed_def)
next
  case (Some i)
  with old_entries_lookup [OF assms this] show ?thesis
    by (simp add: entry_for_def refreshed_def carry_over_def new_entry_def)
qed

text \<open>
  C20. Reloading a table that did not change, after any feedback, gives back every key the
  pool had, in the same order, each as \<open>refreshed\<close> says: cooldown and escalation
  of a stored key survive, but a key whose authentication failed is in use again.
\<close>

theorem reload_roundtrip:
  assumes "distinct (map kr_id rows)"
    and "reports (load_keys settings decrypt rows p0) p"
  shows "pool_entries (load_keys settings decrypt rows p) =
    map (\<lambda>(slug, es). (slug, map refreshed es)) (pool_entries p)"
proof -
  let ?p1 = "load_keys settings decrypt rows p0"
  let ?env = "the (env_defaults ?p1)"
  have env: "env_defaults (load_keys settings decrypt rows p) = env_defaults ?p1"
    using assms(2) load_env by (simp add: load_env_again reports_env)
  have handles: "pool_handles p = loaded_handles decrypt rows ?env"
    using assms(2) by (simp add: reports_handles load_pool_handles)
  then have ids: "distinct (handle_ids (pool_handles p))"
    using assms(1) by (simp add: loaded_handle_ids)
  have "pool_entries (load_keys settings decrypt rows p) =
      map_lists (\<lambda>e. entry_for (old_entries p) (ke_handle e)) (pool_entries p)"
    by (simp add: load_keys_handles env handles [symmetric] map_lists_compose)
      (simp add: pool_handles_def map_lists_compose)
  also have "\<dots> = map_lists refreshed (pool_entries p)"
    using entry_for_refreshed [OF ids] by (auto simp: map_lists_def)
  finally show ?thesis by (simp add: map_lists_def)
qed

section \<open>Distinct ids within a provider\<close>

text \<open>A provider's handles all come from the table, or there is only the environment's.\<close>

definition one_source :: "(string, key_handle list) tbl \<Rightarrow> bool" where
  "one_source t \<longleftrightarrow> (\<forall>(k, hs)\<in>set t. None \<notin> kh_id ` set hs \<or> length hs = 1)"

definition all_stored :: "(string, key_handle list) tbl \<Rightarrow> bool" where
  "all_stored t \<longleftrightarrow> (\<forall>(k, hs)\<in>set t. None \<notin> kh_id ` set hs)"

lemma set_update_subset: "set (AList.update k v t) \<subseteq> insert (k, v) (set t)"
  by (induction t) auto

lemma load_handle_stored: "all_stored t \<Longrightarrow> all_stored (load_handle decrypt row t)"
  using set_update_subset [of "kr_provider row" _ t]
  by (fastforce simp: all_stored_def load_handle_def dest: map_of_SomeD split: option.splits)

lemma env_key_handle_source: "one_source t \<Longrightarrow> one_source (env_key_handle env slug t)"
  using set_update_subset [of slug _ t]
  by (fastforce simp: one_source_def env_key_handle_def split: option.splits)

lemma loaded_one_source: "one_source (loaded_handles decrypt rows env)"
proof -
  have "all_stored (fold (load_handle decrypt) rs t)" if "all_stored t" for rs t
    using that by (induction rs arbitrary: t) (simp_all add: load_handle_stored)
  from this [of "[]" "enabled_rows rows"]
  have "one_source (fold (load_handle decrypt) (enabled_rows rows) [])"
    by (fastforce simp: all_stored_def one_source_def)
  moreover have "one_source (fold (env_key_handle env) ss t)" if "one_source t" for ss t
    using that by (induction ss arbitrary: t) (simp_all add: env_key_handle_source)
  ultimately show ?thesis by (simp add: loaded_handles_def)
qed

lemma handle_ids_member:
  assumes "(k, hs) \<in> set t" and "distinct (handle_ids t)" and "None \<notin> kh_id ` set hs"
  shows "distinct (map kh_id hs)"
proof -
  have "mset (handle_ids [(k, hs)]) \<subseteq># mset (handle_ids t)"
    using assms(1) by (induction t) (auto simp: handle_ids_Cons [of _ "_ # _"] handle_ids_def
        intro: subset_mset.order_trans)
  with assms(2) have "distinct (handle_ids [(k, hs)])" by (rule mset_sub_distinct)
  moreover have "map kh_id hs = map Some (handle_ids [(k, hs)])"
    using assms(3) by (induction hs) (auto split: option.splits)
  ultimately show ?thesis by (simp add: distinct_map)
qed

lemma reports_load_ids_distinct:
  assumes "distinct (map kr_id rows)" and "reports (load_keys settings decrypt rows p0) p"
  shows "ids_distinct p"
  unfolding ids_distinct_def
proof
  fix slug
  let ?t = "loaded_handles decrypt rows (the (env_defaults (load_keys settings decrypt rows p0)))"
  have handles: "pool_handles p = ?t"
    using assms(2) by (simp add: reports_handles load_pool_handles)
  show "distinct (map (\<lambda>e. kh_id (ke_handle e)) (entries_of p slug))"
  proof (cases "map_of (pool_entries p) slug")
    case (Some es)
    then have "map_of ?t slug = Some (map ke_handle es)"
      by (simp add: handles [symmetric] pool_handles_def map_of_map_lists)
    then have hs: "(slug, map ke_handle es) \<in> set ?t" by (rule map_of_SomeD)
    have "distinct (map kh_id (map ke_handle es))"
    proof (cases "None \<in> kh_id ` set (map ke_handle es)")
      case True
      with hs loaded_one_source [of decrypt rows] have "length (map ke_handle es) = 1"
        by (fastforce simp: one_source_def)
      then show ?thesis by (auto simp: length_Suc_conv)
    next
      case False
      with hs show ?thesis by (intro handle_ids_member [OF hs] loaded_handle_ids assms(1))
    qed
    with Some show ?thesis by (simp add: entries_of_def o_def)
  qed (simp add: entries_of_def)
qed

text \<open>
  A key whose authentication failed is handed out by no operation of the pool until the
  next load, whatever feedback about this or other keys comes in meanwhile.
\<close>

theorem failed_key_stays_out:
  assumes "distinct (map kr_id rows)" and "reports (load_keys settings decrypt rows p0) p"
    and "h \<in> ke_handle ` set (entries_of p (kh_provider h))"
    and "reports (report_auth_failed r h p) q" and "pool_slug provider = kh_provider h"
  shows "map_option kh_id (acquire settings now q provider) \<noteq> Some (kh_id h) \<and>
    map_option kh_id (acquire_after now q provider tried) \<noteq> Some (kh_id h)"
proof -
  from assms(3) obtain e where "e \<in> set (entries_of p (kh_provider h))" "kh_id (ke_handle e) = kh_id h"
    by auto
  from barred_auth_failed [OF reports_load_ids_distinct [OF assms(1,2)] this] assms(4)
  have "barred h q" by (rule barred_reports [rotated])
  from barred_not_acquired [OF this assms(5)] show ?thesis by fastforce
qed

section \<open>Concrete pools\<close>

definition demo_key_row :: "int \<Rightarrow> int \<Rightarrow> string \<Rightarrow> key_row" where
  "demo_key_row i prio key =
     \<lparr>kr_id = i, kr_provider = ''groq'', kr_label = ''key'', kr_encrypted = key,
      kr_enabled = True, kr_priority = prio\<rparr>"

definition demo_rows :: "key_row list" where
  "demo_rows = [demo_key_row 2 1 ''second'', demo_key_row 1 0 ''first'']"

definition demo_pool :: key_pool where
  "demo_pool = load_keys (\<lambda>_. []) Some demo_rows empty_pool"

definition demo_handle :: "int \<Rightarrow> string \<Rightarrow> key_handle" where
  "demo_handle i key = \<lparr>kh_id = Some i, kh_provider = ''groq'', kh_label = ''key'', kh_key = key\<rparr>"

definition demo_limited :: key_pool where
  "demo_limited = report_rate_limited 100 None (demo_handle 1 ''first'') demo_pool"

lemma demo_pool_reports:
  "reports demo_pool demo_pool" "reports demo_pool demo_limited"
  unfolding demo_limited_def by (auto intro: reports.intros feedback.intros)

lemma acquire_best_witness:
  "(case acquire (\<lambda>_. []) 120 demo_limited ''groq'' of
      None \<Rightarrow> False
    | Some h \<Rightarrow> (\<exists>i<length (entries_of demo_limited ''groq''). h = ke_handle (entries_of demo_limited ''groq'' ! i))) \<and>
   acquire (\<lambda>_. []) 120 demo_limited ''groq'' = Some (demo_handle 2 ''second'') \<and>
   acquire (\<lambda>_. []) 160 demo_limited ''groq'' = Some (demo_handle 1 ''first'')"
proof -
  have vals: "acquire (\<lambda>_. []) 120 demo_limited ''groq'' = Some (demo_handle 2 ''second'')"
    "acquire (\<lambda>_. []) 160 demo_limited ''groq'' = Some (demo_handle 1 ''first'')"
    by code_simp+
  have "pool_slug ''groq'' = ''groq''" "entries_of demo_limited ''groq'' \<noteq> []"
    by code_simp+
  with acquire_best [of demo_limited "''groq''" "entries_of demo_limited ''groq''" 120 "\<lambda>_. []"]
  show ?thesis by (auto simp: vals)
qed

lemma reload_roundtrip_witness:
  "pool_entries (load_keys (\<lambda>_. []) Some demo_rows demo_limited) =
     map (\<lambda>(slug, es). (slug, map refreshed es)) (pool_entries demo_limited) \<and>
   map cooldown_until (entries_of (load_keys (\<lambda>_. []) Some demo_rows demo_limited) ''groq'') = [160, 0]"
proof -
  have "distinct (map kr_id demo_rows)" by code_simp
  from reload_roundtrip [OF this demo_pool_reports(2) [unfolded demo_pool_def]]
  show ?thesis by (intro conjI) (simp, code_simp)
qed

lemma failed_key_stays_out_witness:
  "map_option kh_id (acquire (\<lambda>_. []) 120 (report_auth_failed [] (demo_handle 1 ''first'') demo_pool) ''groq'')
     \<noteq> Some (Some 1) \<and>
   acquire (\<lambda>_. []) 120 (report_auth_failed [] (demo_handle 1 ''first'') demo_pool) ''groq'' =
     Some (demo_handle 2 ''second'')"
proof -
  have d: "distinct (map kr_id demo_rows)" by code_simp
  have p: "demo_handle 1 ''first'' \<in> ke_handle ` set (entries_of demo_pool (kh_provider (demo_handle 1 ''first'')))"
    "pool_slug ''groq'' = kh_provider (demo_handle 1 ''first'')" "kh_id (demo_handle 1 ''first'') = Some 1"
    by code_simp+
  have "map_option kh_id (acquire (\<lambda>_. []) 120 (report_auth_failed [] (demo_handle 1 ''first'') demo_pool) ''groq'')
     \<noteq> Some (kh_id (demo_handle 1 ''first''))"
    using failed_key_stays_out [OF d demo_pool_reports(1) [unfolded demo_pool_def] p(1) [unfolded demo_pool_def]
        reports.none p(2)]
    by (simp add: demo_pool_def)
  then show ?thesis unfolding p(3) by (intro conjI) (assumption, code_simp)
qed

text \<open>
  Feedback is matched by the row's id, not by the key. If an operator replaces the key
  of a row while a call with the old key is under way, the failure of the old key disables
  the new one: the pool hands out nothing although the only stored key was never tried.
\<close>

theorem stale_failure_disables_new_key:
  assumes "entries_of p slug = [e]" and "kh_id (ke_handle e) = kh_id h" and "kh_provider h = slug"
    and "pool_slug provider = slug"
  shows "acquire settings now (report_auth_failed r h p) provider = None \<and>
    \<not> has_key settings (report_auth_failed r h p) provider"
  using assms
  by (simp add: acquire_def has_key_def Let_def report_auth_failed_def entries_of_change_entry key_usable_def)

lemma stale_failure_disables_new_key_witness:
  "let p1 = load_keys (\<lambda>_. []) Some [demo_key_row 1 0 ''revoked''] empty_pool;
       p2 = load_keys (\<lambda>_. []) Some [demo_key_row 1 0 ''fresh''] p1;
       p3 = report_auth_failed ''401'' (demo_handle 1 ''revoked'') p2
   in acquire (\<lambda>_. []) 0 p1 ''groq'' = Some (demo_handle 1 ''revoked'') \<and>
      acquire (\<lambda>_. []) 0 p2 ''groq'' = Some (demo_handle 1 ''fresh'') \<and>
      acquire (\<lambda>_. []) 0 p3 ''groq'' = None"
proof -
  let ?p1 = "load_keys (\<lambda>_. []) Some [demo_key_row 1 0 ''revoked''] empty_pool"
  let ?p2 = "load_keys (\<lambda>_. []) Some [demo_key_row 1 0 ''fresh''] ?p1"
  have a: "acquire (\<lambda>_. []) 0 ?p1 ''groq'' = Some (demo_handle 1 ''revoked'')"
    "acquire (\<lambda>_. []) 0 ?p2 ''groq'' = Some (demo_handle 1 ''fresh'')"
    by code_simp+
  have e: "entries_of ?p2 ''groq'' = [new_entry (demo_handle 1 ''fresh'')]"
    "kh_id (ke_handle (new_entry (demo_handle 1 ''fresh''))) = kh_id (demo_handle 1 ''revoked'')"
    "kh_provider (demo_handle 1 ''revoked'') = ''groq''" "pool_slug ''groq'' = ''groq''"
    by code_simp+
  from stale_failure_disables_new_key [OF e, of "\<lambda>_. []" 0 "''401''"] a show ?thesis
    by (simp add: Let_def)
qed

end
