(* ===== verification/ModelsRegistry.thy ===== *)
theory ModelsRegistry
  imports KeyPool
begin

text \<open>
  \<open>ai-signal-generator/app/models_registry.py\<close>: the cache of probe results and the
  model lists the fallback chain is derived from. What a provider's API lists and what a
  probe answers are parameters.
\<close>

section \<open>The probe cache\<close>

text \<open>\<open>"{provider}:{model_id}"\<close> to the status and the time it expires.\<close>

type_synonym probe_cache = "(string, string \<times> rat) tbl"

definition PROBE_TTL :: rat where "PROBE_TTL = 86400"

definition cache_key :: "string \<Rightarrow> string \<Rightarrow> string" where
  "cache_key provider model_id = provider @ '':'' @ model_id"

definition cache_get :: "rat \<Rightarrow> probe_cache \<Rightarrow> string \<Rightarrow> string \<Rightarrow> string option" where
  "cache_get now cache provider model_id =
     (case map_of cache (cache_key provider model_id) of
        None \<Rightarrow> None
      | Some (status, expires_at) \<Rightarrow> if now < expires_at then Some status else None)"

definition cache_set :: "rat \<Rightarrow> string \<Rightarrow> string \<Rightarrow> string \<Rightarrow> probe_cache \<Rightarrow> probe_cache" where
  "cache_set now provider model_id status =
     AList.update (cache_key provider model_id) (status, now + PROBE_TTL)"

definition clear_cache :: "string option \<Rightarrow> probe_cache \<Rightarrow> probe_cache" where
  "clear_cache provider cache =
     (case provider of
        None \<Rightarrow> []
      | Some p \<Rightarrow> if p = [] then [] else filter (\<lambda>(k, v). \<not> starts_with (p @ '':'') k) cache)"

text \<open>\<open>key.partition(":")\<close> without the separator.\<close>

fun colon_partition :: "string \<Rightarrow> string \<times> string" where
  "colon_partition [] = ([], [])"
| "colon_partition (c # cs) =
     (if c = CHR '':'' then ([], cs) else case colon_partition cs of (a, b) \<Rightarrow> (c # a, b))"

definition cached_ok_models :: "rat \<Rightarrow> probe_cache \<Rightarrow> string \<Rightarrow> string list" where
  "cached_ok_models now cache provider =
     map (\<lambda>(key, status, expires_at). snd (colon_partition key))
       (filter (\<lambda>(key, status, expires_at).
          fst (colon_partition key) = provider \<and> status = ''ok'' \<and> now < expires_at) cache)"

section \<open>Providers and their models\<close>

record model_info =
  mi_id :: string
  mi_display_name :: string
  mi_provider :: string

definition known_providers :: "string list" where
  "known_providers =
     [''google'', ''openai'', ''anthropic'', ''groq'', ''cerebras'', ''zhipu'', ''openrouter'']"

definition probed_providers :: "string list" where
  "probed_providers = [''google'', ''openai'', ''anthropic'', ''groq'', ''cerebras'', ''zhipu'']"

definition verified_providers :: "string list" where
  "verified_providers = probed_providers @ [''openrouter'']"

definition NON_CHAT_PATTERNS :: "string list" where
  "NON_CHAT_PATTERNS =
     [''whisper'', ''orpheus'', ''-tts'', ''tts-'', ''speech'', ''voice'', ''audio'',
      ''embed'', ''rerank'', ''guard'', ''moderation'',
      ''image'', ''imagen'', ''banana'', ''diffusion'', ''lyria'', ''veo'', ''sora'', ''video'',
      ''robotics'', ''computer-use'']"

definition is_chat_capable :: "string \<Rightarrow> bool" where
  "is_chat_capable model_id = (\<not> list_ex (\<lambda>p. occurs_in p (py_lower model_id)) NON_CHAT_PATTERNS)"

definition chat_only :: "model_info list \<Rightarrow> model_info list" where
  "chat_only models = filter (\<lambda>m. is_chat_capable (mi_id m)) models"

text \<open>
  What the provider APIs list (their own errors are caught inside and give an empty or a
  built-in list; \<open>None\<close> is an exception that escapes), and the probes.
\<close>

record model_apis =
  ma_listed :: "string \<Rightarrow> model_info list option"
  ma_probe :: "string \<Rightarrow> string \<Rightarrow> bool option"

definition raw_models :: "model_apis \<Rightarrow> string \<Rightarrow> model_info list option" where
  "raw_models apis provider =
     (if provider \<notin> set known_providers then Some []
      else map_option chat_only (ma_listed apis provider))"

text \<open>A listed model with its flag: verified first, then the rest.\<close>

definition get_available_models ::
    "rat \<Rightarrow> model_apis \<Rightarrow> probe_cache \<Rightarrow> string \<Rightarrow> (model_info \<times> bool) list option" where
  "get_available_models now apis cache provider =
     (if provider \<notin> set known_providers then Some []
      else map_option (\<lambda>raw.
        (let ok = (\<lambda>m. cache_get now cache provider (mi_id m) = Some ''ok'')
         in map (\<lambda>m. (m, True)) (filter ok raw) @ map (\<lambda>m. (m, False)) (filter (\<lambda>m. \<not> ok m) raw)))
        (ma_listed apis provider))"

record verify_answer =
  va_ok :: bool
  va_reason :: string

definition verify_model ::
    "(string \<Rightarrow> string) \<Rightarrow> rat \<Rightarrow> model_apis \<Rightarrow> key_pool \<Rightarrow> string \<Rightarrow> string \<Rightarrow> probe_cache \<Rightarrow>
     verify_answer \<times> probe_cache" where
  "verify_model settings now apis pool provider model_id cache =
     (if provider \<notin> set verified_providers then (\<lparr>va_ok = False, va_reason = ''unknown provider''\<rparr>, cache)
      else if \<not> is_chat_capable model_id then (\<lparr>va_ok = False, va_reason = ''not a chat model''\<rparr>, cache)
      else if (case acquire settings now pool provider of None \<Rightarrow> True | Some h \<Rightarrow> kh_key h = [])
      then (\<lparr>va_ok = False, va_reason = ''no API key''\<rparr>, cache)
      else case ma_probe apis provider model_id of
             None \<Rightarrow> (\<lparr>va_ok = False, va_reason = ''probe raised''\<rparr>, cache)
           | Some ok \<Rightarrow>
               (\<lparr>va_ok = ok, va_reason = (if ok then [] else ''probe failed'')\<rparr>,
                cache_set now provider model_id (if ok then ''ok'' else ''fail'') cache))"

record probe_summary =
  passed :: nat
  failed :: nat
  skipped :: nat

text \<open>
  The sweep over one provider's chat models; a probe that raises ends the whole sweep
  (\<open>None\<close>). The clock stands still during the sweep.
\<close>

fun probe_models ::
    "rat \<Rightarrow> model_apis \<Rightarrow> bool \<Rightarrow> string \<Rightarrow> model_info list \<Rightarrow> probe_summary \<Rightarrow> probe_cache \<Rightarrow>
     (probe_summary \<times> probe_cache) option" where
  "probe_models now apis force p [] sm cache = Some (sm, cache)"
| "probe_models now apis force p (m # ms) sm cache =
     (if \<not> force \<and> cache_get now cache p (mi_id m) \<noteq> None
      then probe_models now apis force p ms (sm\<lparr>skipped := skipped sm + 1\<rparr>) cache
      else case ma_probe apis p (mi_id m) of
             None \<Rightarrow> None
           | Some ok \<Rightarrow>
               probe_models now apis force p ms
                 (if ok then sm\<lparr>passed := passed sm + 1\<rparr> else sm\<lparr>failed := failed sm + 1\<rparr>)
                 (cache_set now p (mi_id m) (if ok then ''ok'' else ''fail'') cache))"

fun probe_providers ::
    "rat \<Rightarrow> model_apis \<Rightarrow> bool \<Rightarrow> string list \<Rightarrow> (string, probe_summary) tbl \<Rightarrow> probe_cache \<Rightarrow>
     ((string, probe_summary) tbl \<times> probe_cache) option" where
  "probe_providers now apis force [] out cache = Some (out, cache)"
| "probe_providers now apis force (p # ps) out cache =
     (if p \<notin> set known_providers \<or> p \<notin> set probed_providers
      then probe_providers now apis force ps out cache
      else case ma_listed apis p of
             None \<Rightarrow> None
           | Some raw \<Rightarrow>
               (case probe_models now apis force p (chat_only raw) \<lparr>passed = 0, failed = 0, skipped = 0\<rparr> cache of
                  None \<Rightarrow> None
                | Some (sm, cache') \<Rightarrow> probe_providers now apis force ps (AList.update p sm out) cache'))"

definition probe_all_models ::
    "rat \<Rightarrow> model_apis \<Rightarrow> string option \<Rightarrow> bool \<Rightarrow> probe_cache \<Rightarrow>
     ((string, probe_summary) tbl \<times> probe_cache) option" where
  "probe_all_models now apis provider force =
     probe_providers now apis force
       (case provider of None \<Rightarrow> known_providers | Some p \<Rightarrow> if p = [] then known_providers else [p]) []"

section \<open>What the chain sees of a probe\<close>

lemma partition_colon_key [simp]:
  "CHR '':'' \<notin> set provider \<Longrightarrow> colon_partition (cache_key provider m) = (provider, m)"
  by (induction provider) (auto simp: cache_key_def)

lemma cached_ok_models_member:
  "m \<in> set (cached_ok_models now cache provider) \<longleftrightarrow>
     (\<exists>key e. (key, ''ok'', e) \<in> set cache \<and> colon_partition key = (provider, m) \<and> now < e)"
  by (force simp: cached_ok_models_def image_iff prod_eq_iff)

lemma set_cached_member: "(k, v) \<in> set (AList.update k v t)"
  by (induction t) auto

lemma probed_model_is_offered:
  assumes "CHR '':'' \<notin> set provider" and "now < probed + PROBE_TTL"
  shows "m \<in> set (cached_ok_models now (cache_set probed provider m ''ok'' cache) provider)"
  using assms set_cached_member by (fastforce simp: cached_ok_models_member cache_set_def)

end
