(* ===== verification/LlmChain.thy ===== *)
theory LlmChain
  imports ModelsRegistry
begin

text \<open>
  \<open>ai-signal-generator/app/graph/llm_chain.py\<close>: one structured model call, the rotation
  of a provider's keys within a candidate, and the walk over the fallback candidates. The
  model services are a parameter: what the n-th call of the process answers.
\<close>

section \<open>Errors and their classification\<close>

text \<open>An exception: its class name, its \<open>status_code\<close> attribute if it has an integer one, its text.\<close>

record call_error =
  er_class :: string
  er_status :: "int option"
  er_text :: string

datatype error_kind = Rate_limit | Auth | Other_error

definition RATE_LIMIT_MARKERS :: "string list" where
  "RATE_LIMIT_MARKERS =
     [''rate limit'', ''rate_limit'', ''ratelimit'', ''resourceexhausted'',
      ''resource_exhausted'', ''quota'', ''too many requests'']"

definition AUTH_MARKERS :: "string list" where
  "AUTH_MARKERS =
     [''invalid api key'', ''invalid_api_key'', ''api key not valid'',
      ''authentication_error'', ''permission_denied'', ''invalid x-api-key'',
      ''incorrect api key'']"

definition alphanumeric :: "char \<Rightarrow> bool" where
  "alphanumeric c =
     (let n = of_char c :: int
      in (48 \<le> n \<and> n \<le> 57) \<or> (65 \<le> n \<and> n \<le> 90) \<or> (97 \<le> n \<and> n \<le> 122))"

text \<open>
  \<open>(?<![0-9A-Za-z])(401|403|429)(?![0-9A-Za-z])\<close> searched from the left: the first of
  the three codes that no letter or digit touches. The flag says whether the character
  before the text is one.
\<close>

definition code_here :: "string \<Rightarrow> string option" where
  "code_here s =
     (let code = take 3 s; rest = drop 3 s
      in if code \<in> {''401'', ''403'', ''429''} \<and> (rest = [] \<or> \<not> alphanumeric (hd rest))
         then Some code else None)"

fun search_code :: "bool \<Rightarrow> string \<Rightarrow> string option" where
  "search_code touched [] = None"
| "search_code touched (c # cs) =
     (if \<not> touched \<and> code_here (c # cs) \<noteq> None then code_here (c # cs)
      else search_code (alphanumeric c) cs)"

definition classify_llm_error :: "call_error \<Rightarrow> error_kind" where
  "classify_llm_error e =
     (let lower = py_lower (er_class e @ '': '' @ er_text e);
          code = search_code False lower;
          by_text =
            (if list_ex (\<lambda>m. occurs_in m lower) RATE_LIMIT_MARKERS \<or> code = Some ''429'' then Rate_limit
             else if list_ex (\<lambda>m. occurs_in m lower) AUTH_MARKERS \<or> code \<noteq> None then Auth
             else Other_error)
      in if occurs_in ''RateLimit'' (er_class e) then Rate_limit
         else if occurs_in ''Authentication'' (er_class e) \<or> occurs_in ''PermissionDenied'' (er_class e) then Auth
         else case er_status e of
                None \<Rightarrow> by_text
              | Some status \<Rightarrow>
                  if status = 429 then Rate_limit
                  else if status = 401 \<or> status = 403 then Auth
                  else if 500 \<le> status then Other_error
                  else by_text)"

section \<open>One call\<close>

datatype llm_action =
    Open_long_action | Open_short_action | Close_long_action | Close_short_action
  | Hold_action | Partial_close | Adjust_stops
  | Place_limit_long | Place_limit_short | Cancel_order | Amend_order

text \<open>\<open>LLMSignalOutput\<close>.\<close>

record signal_output =
  so_action :: llm_action
  so_confidence :: rat
  so_size_pct :: rat
  so_stop_loss_pct :: rat
  so_take_profit_pct :: rat
  so_new_sl_price :: "rat option"
  so_new_tp_price :: "rat option"
  so_limit_price :: "rat option"
  so_target_order_id :: "string option"
  so_reasoning :: string

record token_usage =
  tu_input :: "int option"
  tu_output :: "int option"
  tu_total :: "int option"

text \<open>
  The raw message of a service: its token counts if it reports any, its text, the outcome of
  parsing its first tool call (\<open>None\<close> when it made none), and what the structured
  wrapper of the client library parsed out of it.
\<close>

record llm_message =
  lm_usage :: "token_usage option"
  lm_content :: string
  lm_tool_call :: "(string + signal_output) option"
  lm_parsed :: "signal_output option"
  lm_parsing_error :: string

text \<open>How the request is made: \<open>_get_llm\<close>, the binding of the schema, and the timeout.\<close>

datatype call_style = Tools_auto | Structured "string option"

record llm_request =
  rq_provider :: string
  rq_model :: string
  rq_handle :: "key_handle option"
  rq_style :: call_style
  rq_timeout :: rat

definition LLM_TIMEOUT :: rat where "LLM_TIMEOUT = 90"
definition FALLBACK_TIMEOUT :: rat where "FALLBACK_TIMEOUT = 45"
definition MAX_FALLBACK_ATTEMPTS :: nat where "MAX_FALLBACK_ATTEMPTS = 3"
definition MAX_KEYS_PER_CANDIDATE :: nat where "MAX_KEYS_PER_CANDIDATE = 3"

definition call_style_of :: "string \<Rightarrow> call_style" where
  "call_style_of provider =
     (if provider = ''zhipu'' then Tools_auto
      else if provider \<in> {''cerebras'', ''openrouter''} then Structured (Some ''function_calling'')
      else Structured None)"

record attempt_result =
  ar_signal :: "signal_output option"
  ar_usage :: "token_usage option"
  ar_error :: "string option"
  ar_key_label :: string

definition parse_message :: "call_style \<Rightarrow> llm_message \<Rightarrow> signal_output option \<times> string" where
  "parse_message style msg =
     (case style of
        Tools_auto \<Rightarrow>
          (case lm_tool_call msg of
             None \<Rightarrow> (None, ''model made no tool call'')
           | Some (Inl err) \<Rightarrow> (None, err)
           | Some (Inr sig) \<Rightarrow> (Some sig, []))
      | Structured _ \<Rightarrow> (lm_parsed msg, lm_parsing_error msg))"

text \<open>\<open>_attempt\<close> on the message the call returned.\<close>

definition read_message :: "call_style \<Rightarrow> llm_message \<Rightarrow> attempt_result" where
  "read_message style msg =
     (let (signal, err) = parse_message style msg
      in \<lparr>ar_signal = signal, ar_usage = lm_usage msg,
          ar_error =
            (if signal = None
             then Some (''structured-output parse failed: '' @ err @
                        (if lm_content msg = [] then [] else '' | raw response: '' @ take 500 (lm_content msg)))
             else None),
          ar_key_label = []\<rparr>)"

section \<open>A process and its calls\<close>

record failed_attempt =
  fa_provider :: string
  fa_model :: string
  fa_key_label :: string
  fa_error :: "string option"

text \<open>
  The environment: the services (what the call with the given number answers a request, an
  exception or a message; a timeout is an exception), the clock after that many calls, the
  settings and the registry's sources.
\<close>

record llm_env =
  le_service :: "nat \<Rightarrow> llm_request \<Rightarrow> call_error + llm_message"
  le_clock :: "nat \<Rightarrow> rat"
  le_settings :: "string \<Rightarrow> string"
  le_apis :: model_apis

text \<open>The process: its key pool, the calls made so far and the failed attempts of this chain.\<close>

record llm_proc =
  lp_pool :: key_pool
  lp_calls :: "llm_request list"
  lp_attempts :: "failed_attempt list"

definition now_of :: "llm_env \<Rightarrow> llm_proc \<Rightarrow> rat" where
  "now_of E st = le_clock E (length (lp_calls st))"

definition key_label :: "key_handle option \<Rightarrow> string" where
  "key_label h = (case h of None \<Rightarrow> ''none'' | Some k \<Rightarrow> kh_label k)"

definition describe_error :: "call_error \<Rightarrow> string" where
  "describe_error e = er_class e @ '': '' @ er_text e"

definition make_call :: "llm_env \<Rightarrow> llm_request \<Rightarrow> llm_proc \<Rightarrow> (call_error + llm_message) \<times> llm_proc" where
  "make_call E rq st = (le_service E (length (lp_calls st)) rq, st\<lparr>lp_calls := lp_calls st @ [rq]\<rparr>)"

definition log_failure :: "string \<Rightarrow> string \<Rightarrow> string \<Rightarrow> string option \<Rightarrow> llm_proc \<Rightarrow> llm_proc" where
  "log_failure provider model label err st =
     st\<lparr>lp_attempts := lp_attempts st @
         [\<lparr>fa_provider = provider, fa_model = model, fa_key_label = label, fa_error = err\<rparr>]\<rparr>"

definition on_pool :: "(key_pool \<Rightarrow> key_pool) \<Rightarrow> llm_proc \<Rightarrow> llm_proc" where
  "on_pool f st = st\<lparr>lp_pool := f (lp_pool st)\<rparr>"

text \<open>The feedback of a key failure.\<close>

definition report_failure :: "llm_env \<Rightarrow> error_kind \<Rightarrow> call_error \<Rightarrow> key_handle \<Rightarrow> llm_proc \<Rightarrow> llm_proc" where
  "report_failure E kind e h st =
     on_pool (if kind = Rate_limit then report_rate_limited (now_of E st) None h
              else report_auth_failed (describe_error e) h) st"

text \<open>The loop of \<open>_attempt_with_keys\<close>; the first argument counts the keys still allowed.\<close>

fun try_keys ::
    "nat \<Rightarrow> llm_env \<Rightarrow> string \<Rightarrow> string \<Rightarrow> rat \<Rightarrow> key_handle option \<Rightarrow> int option list \<Rightarrow> llm_proc \<Rightarrow>
     attempt_result option \<times> llm_proc" where
  "try_keys 0 E provider model timeout handle tried st = (None, st)"
| "try_keys (Suc n) E provider model timeout handle tried st =
     (let rq = \<lparr>rq_provider = provider, rq_model = model, rq_handle = handle,
                rq_style = call_style_of provider, rq_timeout = timeout\<rparr>
      in case make_call E rq st of
           (Inr msg, st1) \<Rightarrow>
             (Some ((read_message (call_style_of provider) msg)\<lparr>ar_key_label := key_label handle\<rparr>),
              case handle of None \<Rightarrow> st1 | Some h \<Rightarrow> on_pool (report_ok h) st1)
         | (Inl e, st1) \<Rightarrow>
             (let kind = classify_llm_error e;
                  st2 = log_failure provider model (key_label handle) (Some (describe_error e)) st1
              in case handle of
                   None \<Rightarrow> (None, st2)
                 | Some h \<Rightarrow>
                     if kind = Other_error then (None, st2)
                     else
                       (let st3 = report_failure E kind e h st2; tried' = kh_id h # tried
                        in case acquire_after (now_of E st3) (lp_pool st3) provider tried' of
                             None \<Rightarrow> (None, st3)
                           | Some h' \<Rightarrow> try_keys n E provider model timeout (Some h') tried' st3)))"

definition attempt_with_keys ::
    "llm_env \<Rightarrow> string \<Rightarrow> string \<Rightarrow> rat \<Rightarrow> llm_proc \<Rightarrow> attempt_result option \<times> llm_proc" where
  "attempt_with_keys E provider model timeout st =
     try_keys MAX_KEYS_PER_CANDIDATE E provider model timeout
       (acquire (le_settings E) (now_of E st) (lp_pool st) provider) [] st"

section \<open>The chain\<close>

record served_by =
  sb_provider :: string
  sb_model :: string
  sb_key_label :: string

record chain_result =
  cr_signal :: "signal_output option"
  cr_usage :: "token_usage option"
  cr_served_by :: "served_by option"
  cr_attempts :: "failed_attempt list"
  cr_error :: "string option"

definition join_semi :: "string list \<Rightarrow> string" where
  "join_semi parts = (case parts of [] \<Rightarrow> [] | p # ps \<Rightarrow> p @ concat (map (\<lambda>q. ''; '' @ q) ps))"

text \<open>The summary of an exhausted chain.\<close>

definition exhausted_summary :: "failed_attempt list \<Rightarrow> string" where
  "exhausted_summary attempts =
     (if attempts = [] then ''no LLM candidates to try''
      else join_semi (map (\<lambda>a. ''['' @ fa_provider a @ ''/'' @ fa_model a @ ''] '' @
             (case fa_error a of None \<Rightarrow> ''None'' | Some e \<Rightarrow> e)) attempts))"

fun chain_loop ::
    "llm_env \<Rightarrow> nat \<Rightarrow> (string \<times> string) list \<Rightarrow> token_usage option \<Rightarrow> llm_proc \<Rightarrow> chain_result \<times> llm_proc" where
  "chain_loop E i [] last_usage st =
     (\<lparr>cr_signal = None, cr_usage = last_usage, cr_served_by = None, cr_attempts = lp_attempts st,
       cr_error = Some (''LLM chain exhausted ('' @ show_nat (length (lp_attempts st)) @ '' attempt(s)): '' @
         exhausted_summary (lp_attempts st))\<rparr>, st)"
| "chain_loop E i ((provider, model) # rest) last_usage st =
     (case attempt_with_keys E provider model (if i = 0 then LLM_TIMEOUT else FALLBACK_TIMEOUT) st of
        (None, st1) \<Rightarrow> chain_loop E (Suc i) rest last_usage st1
      | (Some r, st1) \<Rightarrow>
          (let usage = (if ar_usage r = None then last_usage else ar_usage r)
           in case ar_signal r of
                None \<Rightarrow>
                  chain_loop E (Suc i) rest usage
                    (log_failure provider model (ar_key_label r) (ar_error r) st1)
              | Some sig \<Rightarrow>
                  (\<lparr>cr_signal = Some sig, cr_usage = ar_usage r,
                    cr_served_by = Some \<lparr>sb_provider = provider, sb_model = model, sb_key_label = ar_key_label r\<rparr>,
                    cr_attempts = lp_attempts st1, cr_error = None\<rparr>, st1)))"

text \<open>\<open>call_llm_chain\<close> starts with no attempts.\<close>

definition call_llm_chain ::
    "llm_env \<Rightarrow> (string \<times> string) list \<Rightarrow> llm_proc \<Rightarrow> chain_result \<times> llm_proc" where
  "call_llm_chain E candidates st = chain_loop E 0 candidates None (st\<lparr>lp_attempts := []\<rparr>)"

section \<open>The fallback candidates\<close>

text \<open>
  The \<open>llm_fallback_chain\<close> override, decoded: missing (or not JSON), not a list, or a
  list whose entries have the provider and the model they name, if they name both.
\<close>

datatype manual_chain =
    No_override
  | Not_a_list
  | Override "(string option \<times> string option) list"

fun manual_entry :: "string option \<times> string option \<Rightarrow> (string \<times> string) list" where
  "manual_entry (Some p, Some m) = (if p = [] \<or> m = [] then [] else [(p, m)])"
| "manual_entry _ = []"

fun parse_manual_chain :: "manual_chain \<Rightarrow> (string \<times> string) list" where
  "parse_manual_chain (Override entries) = concat (map manual_entry entries)"
| "parse_manual_chain _ = []"

definition build_fallback_chain ::
    "llm_env \<Rightarrow> rat \<Rightarrow> probe_cache \<Rightarrow> key_pool \<Rightarrow> string \<Rightarrow> string \<Rightarrow> manual_chain \<Rightarrow> (string \<times> string) list" where
  "build_fallback_chain E now cache pool primary_provider primary_model override =
     (let manual = parse_manual_chain override;
          own = map (\<lambda>m. (primary_provider, m))
                  (filter (\<lambda>m. m \<noteq> primary_model) (cached_ok_models now cache primary_provider));
          others = concat (map (\<lambda>p. map (\<lambda>m. (p, m)) (cached_ok_models now cache p))
                     (filter (\<lambda>p. p \<noteq> primary_provider \<and> has_key (le_settings E) pool p) known_providers));
          chain = own @ others;
          raw = (case raw_models (le_apis E) primary_provider of None \<Rightarrow> [] | Some ms \<Rightarrow> ms)
      in if manual \<noteq> [] then take MAX_FALLBACK_ATTEMPTS manual
         else take MAX_FALLBACK_ATTEMPTS
           (if chain \<noteq> [] then chain
            else map (\<lambda>m. (primary_provider, mi_id m)) (filter (\<lambda>m. mi_id m \<noteq> primary_model) raw)))"

end
