(* ===== verification/LlmChainSafety.thy ===== *)
theory LlmChainSafety
  imports LlmChain
begin

text \<open>
  Properties of the chain: which candidate answers and what is recorded of the others, how
  many calls and how much waiting a chain can cost, and that a candidate never uses the
  same key twice.
\<close>

section \<open>One candidate\<close>

definition asked :: "llm_request \<Rightarrow> string \<times> string" where
  "asked rq = (rq_provider rq, rq_model rq)"

definition failed_pair :: "failed_attempt \<Rightarrow> string \<times> string" where
  "failed_pair a = (fa_provider a, fa_model a)"

text \<open>An answer that is the key's fault: the only one after which a candidate is asked again.\<close>

definition key_rejected :: "call_error + llm_message \<Rightarrow> bool" where
  "key_rejected a = (case a of Inl e \<Rightarrow> classify_llm_error e \<noteq> Other_error | Inr _ \<Rightarrow> False)"

text \<open>
  The longest the calls can take when a rejection of the key comes back at once: the sum of
  the timeouts of the other calls. The first argument numbers the calls.
\<close>

fun waiting :: "llm_env \<Rightarrow> nat \<Rightarrow> llm_request list \<Rightarrow> rat" where
  "waiting E k [] = 0"
| "waiting E k (rq # rqs) =
     (if key_rejected (le_service E k rq) then 0 else rq_timeout rq) + waiting E (Suc k) rqs"

lemma waiting_append: "waiting E k (xs @ ys) = waiting E k xs + waiting E (k + length xs) ys"
  by (induction xs arbitrary: k) simp_all

text \<open>
  A call got an answer when it returned a message that parses to a signal. The number counts
  the calls the process has made before.
\<close>

definition answers :: "llm_env \<Rightarrow> nat \<Rightarrow> llm_request \<Rightarrow> bool" where
  "answers E k rq = (case le_service E k rq of Inl _ \<Rightarrow> False
     | Inr msg \<Rightarrow> fst (parse_message (call_style_of (rq_provider rq)) msg) \<noteq> None)"

fun unanswered :: "llm_env \<Rightarrow> nat \<Rightarrow> llm_request list \<Rightarrow> bool" where
  "unanswered E k [] = True"
| "unanswered E k (rq # rqs) = (\<not> answers E k rq \<and> unanswered E (Suc k) rqs)"

lemma unanswered_append: "unanswered E k (xs @ ys) \<longleftrightarrow> unanswered E k xs \<and> unanswered E (k + length xs) ys"
  by (induction xs arbitrary: k) simp_all

lemma unanswered_nth: "unanswered E k qs \<longleftrightarrow> (\<forall>j<length qs. \<not> answers E (k + j) (qs ! j))"
  by (induction qs arbitrary: k) (auto simp: All_less_Suc2)

text \<open>
  What a candidate did to the process: it made the calls \<open>qs\<close>, all for its model with its
  timeout, logged every one of them but the one that returned a message, and got no answer but by
  the last.
\<close>

definition candidate_ran ::
    "llm_env \<Rightarrow> string \<Rightarrow> string \<Rightarrow> rat \<Rightarrow> llm_proc \<Rightarrow> attempt_result option \<Rightarrow> llm_proc \<Rightarrow> llm_request list \<Rightarrow> bool" where
  "candidate_ran E provider model timeout st r st' qs \<longleftrightarrow>
     lp_calls st' = lp_calls st @ qs \<and>
     (\<forall>rq\<in>set qs. asked rq = (provider, model) \<and> rq_timeout rq = timeout) \<and>
     (\<exists>fs. lp_attempts st' = lp_attempts st @ fs \<and> (\<forall>a\<in>set fs. failed_pair a = (provider, model)) \<and>
        length fs = (case r of None \<Rightarrow> length qs | Some _ \<Rightarrow> length qs - 1)) \<and>
     waiting E (length (lp_calls st)) qs \<le> timeout \<and>
     unanswered E (length (lp_calls st))
       (if r = None \<or> (\<exists>a. r = Some a \<and> ar_signal a = None) then qs else butlast qs) \<and>
     (case r of None \<Rightarrow> True
      | Some a \<Rightarrow> qs \<noteq> [] \<and> (\<exists>msg. le_service E (length (lp_calls st) + length qs - 1) (List.last qs) = Inr msg \<and>
          ar_signal a = fst (parse_message (call_style_of provider) msg)))"

lemma report_failure_frame [simp]:
  "lp_calls (report_failure E kind e h st) = lp_calls st"
  "lp_attempts (report_failure E kind e h st) = lp_attempts st"
  by (simp_all add: report_failure_def on_pool_def)

lemma log_failure_frame [simp]:
  "lp_calls (log_failure p m l err st) = lp_calls st"
  "lp_pool (log_failure p m l err st) = lp_pool st"
  "lp_attempts (log_failure p m l err st) =
     lp_attempts st @ [\<lparr>fa_provider = p, fa_model = m, fa_key_label = l, fa_error = err\<rparr>]"
  by (simp_all add: log_failure_def)

lemma on_pool_frame [simp]:
  "lp_calls (on_pool f st) = lp_calls st" "lp_attempts (on_pool f st) = lp_attempts st"
  by (simp_all add: on_pool_def)

lemma acquire_after_fresh: "acquire_after now p provider tried = Some h \<Longrightarrow> kh_id h \<notin> set tried"
  by (auto simp: acquire_after_def find_Some_iff)

definition handle_ids_of :: "llm_request list \<Rightarrow> int option option list" where
  "handle_ids_of qs = map (\<lambda>rq. map_option kh_id (rq_handle rq)) qs"

lemma try_keys_ran:
  assumes "try_keys n E provider model timeout handle tried st = (r, st')" and "0 \<le> timeout"
    and "\<And>h. handle = Some h \<Longrightarrow> kh_id h \<notin> set tried"
  shows "\<exists>qs. candidate_ran E provider model timeout st r st' qs \<and> length qs \<le> n \<and>
    (0 < n \<longrightarrow> qs \<noteq> []) \<and> distinct (handle_ids_of qs) \<and> (\<forall>i\<in>set tried. Some i \<notin> set (handle_ids_of qs))"
  using assms(1,3)
proof (induction n arbitrary: handle tried st)
  case 0
  with assms(2) show ?case
    by (intro exI [of _ "[]"]) (auto simp: candidate_ran_def handle_ids_of_def)
next
  case (Suc n)
  let ?rq = "\<lparr>rq_provider = provider, rq_model = model, rq_handle = handle,
                rq_style = call_style_of provider, rq_timeout = timeout\<rparr>"
  let ?st1 = "st\<lparr>lp_calls := lp_calls st @ [?rq]\<rparr>"
  have fresh: "\<forall>i\<in>set tried. Some i \<notin> set (handle_ids_of [?rq])"
    using Suc.prems(2) by (cases handle) (auto simp: handle_ids_of_def)
  show ?case
  proof (cases "le_service E (length (lp_calls st)) ?rq")
    case (Inr msg)
    have "candidate_ran E provider model timeout st r st' [?rq]"
      using Suc.prems(1) assms(2) Inr
      by (cases handle) (auto simp: candidate_ran_def make_call_def asked_def read_message_def
          key_rejected_def answers_def case_prod_unfold Let_def)
    with fresh show ?thesis by (intro exI [of _ "[?rq]"]) (simp add: handle_ids_of_def)
  next
    case (Inl e)
    let ?st2 = "log_failure provider model (key_label handle) (Some (describe_error e)) ?st1"
    show ?thesis
    proof (cases "\<exists>h h'. handle = Some h \<and> classify_llm_error e \<noteq> Other_error \<and>
        acquire_after (now_of E (report_failure E (classify_llm_error e) e h ?st2))
          (lp_pool (report_failure E (classify_llm_error e) e h ?st2)) provider (kh_id h # tried) = Some h'")
      case False
      have "candidate_ran E provider model timeout st r st' [?rq]"
        using Suc.prems(1) assms(2) Inl False
        by (auto simp: candidate_ran_def make_call_def asked_def failed_pair_def key_rejected_def answers_def Let_def
            split: option.splits if_splits)
      with fresh show ?thesis by (intro exI [of _ "[?rq]"]) (simp add: handle_ids_of_def)
    next
      case True
      then obtain h h' where h: "handle = Some h" "classify_llm_error e \<noteq> Other_error"
        and next_key: "acquire_after (now_of E (report_failure E (classify_llm_error e) e h ?st2))
          (lp_pool (report_failure E (classify_llm_error e) e h ?st2)) provider (kh_id h # tried) = Some h'"
        by blast
      let ?st3 = "report_failure E (classify_llm_error e) e h ?st2"
      from Suc.prems(1) Inl h next_key
      have again: "try_keys n E provider model timeout (Some h') (kh_id h # tried) ?st3 = (r, st')"
        by (simp add: make_call_def Let_def)
      from Suc.IH [OF this] acquire_after_fresh [OF next_key] obtain qs where qs:
        "candidate_ran E provider model timeout ?st3 r st' qs" "length qs \<le> n"
        "distinct (handle_ids_of qs)" "\<forall>i\<in>set (kh_id h # tried). Some i \<notin> set (handle_ids_of qs)"
        by auto
      have "key_rejected (le_service E (length (lp_calls st)) ?rq)"
        using Inl h(2) by (simp add: key_rejected_def)
      then have "candidate_ran E provider model timeout st r st' (?rq # qs)"
        using qs(1) Inl
        by (auto simp: candidate_ran_def asked_def failed_pair_def answers_def split: option.splits if_splits)
      moreover have "handle_ids_of (?rq # qs) = Some (kh_id h) # handle_ids_of qs"
        by (simp add: handle_ids_of_def h)
      ultimately show ?thesis
        using qs Suc.prems(2) h by (intro exI [of _ "?rq # qs"]) auto
    qed
  qed
qed

text \<open>The pairs of a candidate's calls and of its failures.\<close>

lemma same_pairs: "(\<forall>x\<in>set xs. f x = c) \<Longrightarrow> map f xs = replicate (length xs) c"
  by (induction xs) auto

lemma candidate_ran_pairs:
  assumes "candidate_ran E provider model timeout st r st' qs"
  shows "map asked qs = replicate (length qs) (provider, model)"
    and "map failed_pair (lp_attempts st') = map failed_pair (lp_attempts st) @
      replicate (case r of None \<Rightarrow> length qs | Some _ \<Rightarrow> length qs - 1) (provider, model)"
    and "map asked (butlast qs) = replicate (length qs - 1) (provider, model)"
proof -
  show "map asked qs = replicate (length qs) (provider, model)"
    using assms by (simp add: candidate_ran_def same_pairs)
  have "\<forall>rq\<in>set (butlast qs). asked rq = (provider, model)"
    using assms by (auto simp: candidate_ran_def dest: in_set_butlastD)
  then show "map asked (butlast qs) = replicate (length qs - 1) (provider, model)"
    using same_pairs [of "butlast qs" asked "(provider, model)"] by simp
  from assms obtain fs where "lp_attempts st' = lp_attempts st @ fs" "\<forall>a\<in>set fs. failed_pair a = (provider, model)"
    and n: "length fs = (case r of None \<Rightarrow> length qs | Some _ \<Rightarrow> length qs - 1)"
    by (auto simp: candidate_ran_def)
  then show "map failed_pair (lp_attempts st') = map failed_pair (lp_attempts st) @
      replicate (case r of None \<Rightarrow> length qs | Some _ \<Rightarrow> length qs - 1) (provider, model)"
    by (simp add: same_pairs flip: n)
qed

lemma attempt_with_keys_ran:
  assumes "attempt_with_keys E provider model timeout st = (r, st')" and "0 \<le> timeout"
  obtains qs where "candidate_ran E provider model timeout st r st' qs"
    "1 \<le> length qs" "length qs \<le> MAX_KEYS_PER_CANDIDATE" "distinct (handle_ids_of qs)"
proof -
  from try_keys_ran [OF assms(1) [unfolded attempt_with_keys_def] assms(2)]
  obtain qs where "candidate_ran E provider model timeout st r st' qs" "length qs \<le> MAX_KEYS_PER_CANDIDATE"
    "qs \<noteq> []" "distinct (handle_ids_of qs)"
    by (auto simp: MAX_KEYS_PER_CANDIDATE_def)
  then show thesis by (intro that [of qs]) (simp_all add: Suc_le_eq)
qed

section \<open>The whole chain\<close>

fun chain_budget :: "nat \<Rightarrow> nat \<Rightarrow> rat" where
  "chain_budget i 0 = 0"
| "chain_budget i (Suc n) = (if i = 0 then LLM_TIMEOUT else FALLBACK_TIMEOUT) + chain_budget (Suc i) n"

text \<open>
  What a chain did: candidate after candidate in order, each asked as often as \<open>ns\<close> says.
  If nobody answered, all of them were asked and every call is in the record of failures; if
  somebody did, it is the candidate of the last block, its last call returned the signal,
  and the record has every call before.
\<close>

definition chain_ran ::
    "llm_env \<Rightarrow> (string \<times> string) list \<Rightarrow> llm_proc \<Rightarrow> chain_result \<Rightarrow> llm_proc \<Rightarrow> llm_request list \<Rightarrow> nat list \<Rightarrow> bool" where
  "chain_ran E cands st r st' qs ns \<longleftrightarrow>
     lp_calls st' = lp_calls st @ qs \<and> cr_attempts r = lp_attempts st' \<and>
     (\<forall>n\<in>set ns. 1 \<le> n \<and> n \<le> MAX_KEYS_PER_CANDIDATE) \<and> length ns \<le> length cands \<and>
     map asked qs = concat (map2 replicate ns cands) \<and>
     unanswered E (length (lp_calls st)) (if cr_served_by r = None then qs else butlast qs) \<and>
     (case cr_served_by r of
        None \<Rightarrow> cr_signal r = None \<and> cr_error r \<noteq> None \<and> length ns = length cands \<and>
          map failed_pair (lp_attempts st') = map failed_pair (lp_attempts st) @ map asked qs
      | Some sb \<Rightarrow> ns \<noteq> [] \<and> cr_error r = None \<and> (sb_provider sb, sb_model sb) = cands ! (length ns - 1) \<and>
          map failed_pair (lp_attempts st') = map failed_pair (lp_attempts st) @ map asked (butlast qs) \<and>
          (\<exists>msg. le_service E (length (lp_calls st) + length qs - 1) (List.last qs) = Inr msg \<and>
             cr_signal r = fst (parse_message (call_style_of (sb_provider sb)) msg) \<and> cr_signal r \<noteq> None))"

lemma chain_ran_Cons:
  assumes first: "candidate_ran E provider model timeout st a st1 qs"
    and none: "a = None \<or> (\<exists>b. a = Some b \<and> ar_signal b = None)"
    and bounds: "1 \<le> length qs" "length qs \<le> MAX_KEYS_PER_CANDIDATE"
    and calls: "lp_calls st2 = lp_calls st1"
    and attempts: "map failed_pair (lp_attempts st2) = map failed_pair (lp_attempts st) @ map asked qs"
    and rest: "chain_ran E cands st2 r st' qs' ns"
  shows "chain_ran E ((provider, model) # cands) st r st' (qs @ qs') (length qs # ns)"
proof -
  have un: "unanswered E (length (lp_calls st)) qs" using first none by (auto simp: candidate_ran_def)
  have c: "lp_calls st2 = lp_calls st @ qs" using first calls by (simp add: candidate_ran_def)
  have ne: "qs' \<noteq> []" if "cr_served_by r = Some sb" for sb
  proof -
    from rest that have "ns \<noteq> []" "length ns \<le> length cands" "\<forall>n\<in>set ns. 1 \<le> n"
      "map asked qs' = concat (map2 replicate ns cands)" by (auto simp: chain_ran_def)
    then have "map asked qs' \<noteq> []" by (cases ns; cases cands) auto
    then show ?thesis by simp
  qed
  show ?thesis
  proof (cases "cr_served_by r")
    case None
    with rest c un bounds attempts candidate_ran_pairs(1) [OF first] show ?thesis
      by (auto simp: chain_ran_def unanswered_append)
  next
    case (Some sb)
    from Some rest have "ns \<noteq> []" by (simp add: chain_ran_def)
    with Some rest c un bounds attempts candidate_ran_pairs(1) [OF first] ne [OF Some] show ?thesis
      by (auto simp: chain_ran_def unanswered_append butlast_append nth_Cons' add.assoc Suc_le_eq)
  qed
qed

lemma served_last_block:
  assumes "map asked qs = concat (map2 replicate ns cands)" "ns \<noteq> []" "length ns \<le> length cands" "\<forall>n\<in>set ns. 1 \<le> n"
  shows "qs \<noteq> []" "asked (List.last qs) = cands ! (length ns - 1)"
proof -
  from assms(2) obtain ms n where ns: "ns = ms @ [n]" by (metis rev_exhaust)
  then have "n \<noteq> 0" using assms(4) by auto
  define m where "m = length ms"
  have m: "m < length cands" "cands = take m cands @ cands ! m # drop (Suc m) cands"
    using assms(3) ns id_take_nth_drop [of m cands] by (auto simp: m_def)
  have "zip ns cands = zip ms (take m cands) @ [(n, cands ! m)]"
    unfolding ns using m(1) by (subst m(2), subst zip_append) (simp_all add: m_def)
  with assms(1) have q: "map asked qs = concat (map2 replicate ms (take m cands)) @ replicate n (cands ! m)" by simp
  with \<open>n \<noteq> 0\<close> show ne: "qs \<noteq> []" by auto
  have "asked (List.last qs) = List.last (map asked qs)" using ne by (simp add: last_map)
  also have "\<dots> = cands ! m" unfolding q using \<open>n \<noteq> 0\<close> by simp
  finally show "asked (List.last qs) = cands ! (length ns - 1)" by (simp add: ns m_def)
qed

lemma chain_ran_answers:
  assumes "chain_ran E cands st r st' qs ns"
  shows "\<forall>j<length qs. answers E (length (lp_calls st) + j) (qs ! j) \<longleftrightarrow> cr_served_by r \<noteq> None \<and> j = length qs - 1"
proof (cases "cr_served_by r")
  case None
  with assms show ?thesis by (simp add: chain_ran_def unanswered_nth)
next
  case (Some sb)
  note ran = assms [unfolded chain_ran_def Some option.case]
  from ran have ns: "ns \<noteq> []" "(sb_provider sb, sb_model sb) = cands ! (length ns - 1)"
    "map asked qs = concat (map2 replicate ns cands)" "length ns \<le> length cands" "\<forall>n\<in>set ns. 1 \<le> n"
    and un: "unanswered E (length (lp_calls st)) (butlast qs)" by simp_all
  from ran obtain msg where msg: "le_service E (length (lp_calls st) + length qs - 1) (List.last qs) = Inr msg"
    "fst (parse_message (call_style_of (sb_provider sb)) msg) \<noteq> None" by metis
  note lb = served_last_block [OF ns(3,1,4,5)]
  have "answers E (length (lp_calls st) + (length qs - 1)) (qs ! (length qs - 1))"
  proof -
    have "qs ! (length qs - 1) = List.last qs" using lb(1) by (simp add: last_conv_nth)
    moreover have "rq_provider (List.last qs) = sb_provider sb"
      using lb(2) ns(2) by (simp add: asked_def) (metis prod.inject)
    moreover have "length (lp_calls st) + (length qs - 1) = length (lp_calls st) + length qs - 1"
      using lb(1) by (cases qs) simp_all
    ultimately show ?thesis using msg by (simp add: answers_def)
  qed
  moreover have "\<not> answers E (length (lp_calls st) + j) (qs ! j)" if "j < length qs - 1" for j
    using un that by (simp add: unanswered_nth nth_butlast)
  ultimately show ?thesis
    using Some by (intro allI impI) (metis Suc_pred diff_Suc_1 length_greater_0_conv lb(1) less_SucE option.distinct(1))
qed

lemma chain_loop_ran:
  assumes "chain_loop E i cands last_usage st = (r, st')"
  shows "\<exists>qs ns. chain_ran E cands st r st' qs ns \<and>
    waiting E (length (lp_calls st)) qs \<le> chain_budget i (length cands)"
  using assms
proof (induction E i cands last_usage st rule: chain_loop.induct)
  case (1 E i last_usage st)
  then show ?case by (intro exI [of _ "[]"]) (auto simp: chain_ran_def)
next
  case (2 E i provider model cands last_usage st)
  let ?timeout = "if i = 0 then LLM_TIMEOUT else FALLBACK_TIMEOUT"
  have pos: "0 \<le> ?timeout" by (simp add: LLM_TIMEOUT_def FALLBACK_TIMEOUT_def)
  have budget_nonneg: "0 \<le> chain_budget j n" for j n
    by (induction n arbitrary: j) (simp_all add: LLM_TIMEOUT_def FALLBACK_TIMEOUT_def)
  obtain a st1 where ran: "attempt_with_keys E provider model ?timeout st = (a, st1)"
    by (cases "attempt_with_keys E provider model ?timeout st")
  from attempt_with_keys_ran [OF ran pos] obtain qs where qs:
    "candidate_ran E provider model ?timeout st a st1 qs" "1 \<le> length qs" "length qs \<le> MAX_KEYS_PER_CANDIDATE"
    by metis
  have wait: "waiting E (length (lp_calls st)) qs \<le> ?timeout"
    and calls: "lp_calls st1 = lp_calls st @ qs"
    using qs(1) by (simp_all add: candidate_ran_def)
  have step: ?case
    if rest: "\<exists>qs' ns. chain_ran E cands st2 r st' qs' ns \<and>
        waiting E (length (lp_calls st2)) qs' \<le> chain_budget (Suc i) (length cands)"
      and st2: "lp_calls st2 = lp_calls st1"
        "map failed_pair (lp_attempts st2) = map failed_pair (lp_attempts st) @ map asked qs"
      and none: "a = None \<or> (\<exists>b. a = Some b \<and> ar_signal b = None)" for st2
  proof -
    from rest obtain qs' ns where r: "chain_ran E cands st2 r st' qs' ns"
      "waiting E (length (lp_calls st2)) qs' \<le> chain_budget (Suc i) (length cands)" by blast
    have "waiting E (length (lp_calls st)) (qs @ qs') \<le> chain_budget i (length ((provider, model) # cands))"
      using wait r(2) by (simp add: waiting_append st2 calls)
    with chain_ran_Cons [OF qs(1) none qs(2,3) st2 r(1)] show ?thesis by blast
  qed
  show ?case
  proof (cases a)
    case None
    with 2 ran have "chain_loop E (Suc i) cands last_usage st1 = (r, st')" by simp
    with 2(1) ran None candidate_ran_pairs [OF qs(1)] show ?thesis by (intro step [of st1]) auto
  next
    case (Some b)
    show ?thesis
    proof (cases "ar_signal b")
      case None
      let ?st2 = "log_failure provider model (ar_key_label b) (ar_error b) st1"
      have "length qs = Suc (length qs - 1)" using qs(2) by simp
      then have "map failed_pair (lp_attempts ?st2) = map failed_pair (lp_attempts st) @ map asked qs"
        using candidate_ran_pairs [OF qs(1)] Some
        by (simp add: failed_pair_def) (metis replicate_Suc replicate_append_same)
      with 2 ran None Some show ?thesis by (intro step [of ?st2]) (auto simp: Let_def)
    next
      case (Some sig)
      with \<open>a = Some b\<close> 2 ran have r: "st' = st1" "cr_signal r = Some sig" "cr_error r = None"
        "cr_attempts r = lp_attempts st1"
        "cr_served_by r = Some \<lparr>sb_provider = provider, sb_model = model, sb_key_label = ar_key_label b\<rparr>"
        by (auto simp: Let_def)
      have "chain_ran E ((provider, model) # cands) st r st' qs [length qs]"
        using qs r Some \<open>a = Some b\<close> candidate_ran_pairs [OF qs(1)]
        by (auto simp: chain_ran_def candidate_ran_def)
      moreover have "waiting E (length (lp_calls st)) qs \<le> chain_budget i (length ((provider, model) # cands))"
        using wait budget_nonneg [of "Suc i" "length cands"] by simp
      ultimately show ?thesis by blast
    qed
  qed
qed

text \<open>
  C13. The chain asks its candidates in order, each one to three times, and stops at the first
  answer: a call of the chain got an answer just when it is the last one and the chain was
  served. If it was, the result is the parsed signal of that call, which went to the candidate
  the result names, and every earlier call is in the record of failures, in order. If it was
  not, every candidate was asked, every call is in the record, and the result has an error and
  no signal.
\<close>

theorem chain_outcome:
  assumes "call_llm_chain E cands st = (r, st')"
  shows "\<exists>qs ns. lp_calls st' = lp_calls st @ qs \<and> (\<forall>n\<in>set ns. 1 \<le> n \<and> n \<le> 3) \<and>
    length ns \<le> length cands \<and> map asked qs = concat (map2 replicate ns cands) \<and>
    (\<forall>j<length qs. answers E (length (lp_calls st) + j) (qs ! j) \<longleftrightarrow> cr_served_by r \<noteq> None \<and> j = length qs - 1) \<and>
    (case cr_served_by r of
       None \<Rightarrow> cr_signal r = None \<and> cr_error r \<noteq> None \<and> length ns = length cands \<and>
         map failed_pair (cr_attempts r) = map asked qs
     | Some sb \<Rightarrow> ns \<noteq> [] \<and> cr_error r = None \<and> (sb_provider sb, sb_model sb) = cands ! (length ns - 1) \<and>
         map failed_pair (cr_attempts r) = map asked (butlast qs) \<and>
         (\<exists>msg. le_service E (length (lp_calls st) + length qs - 1) (List.last qs) = Inr msg \<and>
            cr_signal r = fst (parse_message (call_style_of (sb_provider sb)) msg) \<and> cr_signal r \<noteq> None))"
proof -
  from chain_loop_ran [OF assms [unfolded call_llm_chain_def]] obtain qs ns where
    ran: "chain_ran E cands (st\<lparr>lp_attempts := []\<rparr>) r st' qs ns" by blast
  show ?thesis
    using ran chain_ran_answers [OF ran]
    by (intro exI [of _ qs] exI [of _ ns]) (auto simp: chain_ran_def MAX_KEYS_PER_CANDIDATE_def split: option.splits)
qed

lemma waits_pos: "length (build_fallback_chain E now cache pool p m override) \<le> MAX_FALLBACK_ATTEMPTS"
  by (simp add: build_fallback_chain_def Let_def)

lemma chain_budget_fallbacks: "n \<le> 3 \<Longrightarrow> chain_budget 0 (Suc n) \<le> 225"
proof -
  assume "n \<le> 3"
  then have "n \<in> {0, 1, 2, 3}" by auto
  then show ?thesis
    by (auto simp: LLM_TIMEOUT_def FALLBACK_TIMEOUT_def numeral_3_eq_3 numeral_2_eq_2)
qed

lemma concat_replicate_length:
  "\<forall>n\<in>set ns. n \<le> k \<Longrightarrow> length (concat (map2 replicate ns xs)) \<le> k * length ns"
proof (induction ns arbitrary: xs)
  case (Cons n ns)
  then show ?case by (cases xs) (auto intro: add_mono simp: trans_le_add2)
qed simp

text \<open>
  The cost of a cycle's chain, the configured model and the fallbacks built for it: at most
  twelve calls, and, when rejected keys come back at once, at most the 225 seconds the
  comment on the timeouts promises.
\<close>

theorem chain_cost:
  assumes "call_llm_chain E ((p, m) # build_fallback_chain E now cache pool p m override) st = (r, st')"
  shows "\<exists>qs. lp_calls st' = lp_calls st @ qs \<and> length qs \<le> 12 \<and> waiting E (length (lp_calls st)) qs \<le> 225"
proof -
  let ?cands = "(p, m) # build_fallback_chain E now cache pool p m override"
  from chain_loop_ran [OF assms [unfolded call_llm_chain_def]] obtain qs ns where
    ran: "chain_ran E ?cands (st\<lparr>lp_attempts := []\<rparr>) r st' qs ns"
    and wait: "waiting E (length (lp_calls st)) qs \<le> chain_budget 0 (length ?cands)" by auto
  have n: "length (build_fallback_chain E now cache pool p m override) \<le> 3"
    using waits_pos by (simp add: MAX_FALLBACK_ATTEMPTS_def)
  from ran have "length qs = length (concat (map2 replicate ns ?cands))" "\<forall>n\<in>set ns. n \<le> 3"
    and ns: "length ns \<le> length ?cands"
    by (auto simp: chain_ran_def MAX_KEYS_PER_CANDIDATE_def simp flip: length_map [of asked qs])
  then have "length qs \<le> 3 * length ns" using concat_replicate_length by simp
  with ns n have "length qs \<le> 12" by simp
  moreover have "waiting E (length (lp_calls st)) qs \<le> 225"
    using wait chain_budget_fallbacks [OF n] by simp
  ultimately show ?thesis using ran by (auto simp: chain_ran_def)
qed

text \<open>One candidate never uses the same key twice, and asks at most three times.\<close>

theorem candidate_keys_distinct:
  assumes "attempt_with_keys E provider model timeout st = (r, st')" and "0 \<le> timeout"
  shows "\<exists>qs. lp_calls st' = lp_calls st @ qs \<and> 1 \<le> length qs \<and> length qs \<le> 3 \<and>
    distinct (map (\<lambda>rq. map_option kh_id (rq_handle rq)) qs)"
  using attempt_with_keys_ran [OF assms]
  by (metis MAX_KEYS_PER_CANDIDATE_def candidate_ran_def handle_ids_of_def)

section \<open>A concrete chain\<close>

text \<open>
  Two stored keys of one provider and an environment key of another: the first key is
  rate-limited, the second answers prose, the other provider serves.
\<close>

definition demo_signal :: signal_output where
  "demo_signal =
     \<lparr>so_action = Hold_action, so_confidence = 8/10, so_size_pct = 0, so_stop_loss_pct = 0,
      so_take_profit_pct = 0, so_new_sl_price = None, so_new_tp_price = None, so_limit_price = None,
      so_target_order_id = None, so_reasoning = ''quiet''\<rparr>"

definition demo_message :: "signal_output option \<Rightarrow> llm_message" where
  "demo_message parsed =
     \<lparr>lm_usage = Some \<lparr>tu_input = Some 900, tu_output = Some 40, tu_total = Some 940\<rparr>,
      lm_content = ''text'', lm_tool_call = None, lm_parsed = parsed, lm_parsing_error = ''no JSON''\<rparr>"

definition demo_llm_env :: llm_env where
  "demo_llm_env =
     \<lparr>le_service = (\<lambda>n rq.
        if n = 0 then Inl \<lparr>er_class = ''RateLimitError'', er_status = Some 429, er_text = ''slow down''\<rparr>
        else Inr (demo_message (if n = 1 then None else Some demo_signal))),
      le_clock = (\<lambda>n. of_nat (10 * n)), le_settings = (\<lambda>_. []),
      le_apis = \<lparr>ma_listed = (\<lambda>_. None), ma_probe = (\<lambda>_ _. None)\<rparr>\<rparr>"

definition demo_key :: "int \<Rightarrow> key_row" where
  "demo_key i =
     \<lparr>kr_id = i, kr_provider = ''groq'', kr_label = ''key'', kr_encrypted = ''k'',
      kr_enabled = True, kr_priority = i\<rparr>"

definition demo_proc :: llm_proc where
  "demo_proc =
     \<lparr>lp_pool = load_keys (\<lambda>a. if a = ''gemini_api_key'' then ''env'' else []) Some [demo_key 1, demo_key 2] empty_pool,
      lp_calls = [], lp_attempts = []\<rparr>"

definition demo_override :: manual_chain where
  "demo_override = Override [(Some ''google'', Some ''flash'')]"

definition demo_cands :: "(string \<times> string) list" where
  "demo_cands = (''groq'', ''llama'') #
     build_fallback_chain demo_llm_env 0 [] (lp_pool demo_proc) ''groq'' ''llama'' demo_override"

lemma demo_chain_served:
  "cr_signal (fst (call_llm_chain demo_llm_env demo_cands demo_proc)) = Some demo_signal"
  "map asked (lp_calls (snd (call_llm_chain demo_llm_env demo_cands demo_proc))) =
     [(''groq'', ''llama''), (''groq'', ''llama''), (''google'', ''flash'')]"
  "map failed_pair (cr_attempts (fst (call_llm_chain demo_llm_env demo_cands demo_proc))) =
     [(''groq'', ''llama''), (''groq'', ''llama'')]"
  "cr_served_by (fst (call_llm_chain demo_llm_env demo_cands demo_proc)) =
     Some \<lparr>sb_provider = ''google'', sb_model = ''flash'', sb_key_label = ''env''\<rparr>"
  by code_simp+

lemma chain_outcome_witness:
  "\<exists>ns. [(''groq'', ''llama''), (''groq'', ''llama''), (''google'', ''flash'')] = concat (map2 replicate ns demo_cands)
     \<and> (''google'', ''flash'') = demo_cands ! (length ns - 1)"
proof -
  let ?c = "call_llm_chain demo_llm_env demo_cands demo_proc"
  have calls: "lp_calls demo_proc = []" by (simp add: demo_proc_def)
  from chain_outcome [of demo_llm_env demo_cands demo_proc "fst ?c" "snd ?c"] demo_chain_served
  obtain ns where "map asked (lp_calls (snd ?c)) = concat (map2 replicate ns demo_cands)"
    "(''google'', ''flash'') = demo_cands ! (length ns - 1)"
    by (auto simp: calls)
  then show ?thesis unfolding demo_chain_served by blast
qed

lemma chain_cost_witness:
  "length (lp_calls (snd (call_llm_chain demo_llm_env demo_cands demo_proc))) = 3 \<and>
   waiting demo_llm_env 0 (lp_calls (snd (call_llm_chain demo_llm_env demo_cands demo_proc))) \<le> 225"
proof -
  let ?c = "call_llm_chain demo_llm_env demo_cands demo_proc"
  have calls: "lp_calls demo_proc = []" by (simp add: demo_proc_def)
  have "length (map asked (lp_calls (snd ?c))) = 3" unfolding demo_chain_served by simp
  moreover have "waiting demo_llm_env 0 (lp_calls (snd ?c)) \<le> 225"
    using chain_cost [of demo_llm_env "''groq''" "''llama''" 0 "[]" "lp_pool demo_proc" demo_override demo_proc
        "fst ?c" "snd ?c"]
    by (auto simp: calls simp flip: demo_cands_def)
  ultimately show ?thesis by simp
qed

lemma candidate_keys_distinct_witness:
  "distinct (map (\<lambda>rq. map_option kh_id (rq_handle rq))
     (lp_calls (snd (attempt_with_keys demo_llm_env ''groq'' ''llama'' 90 demo_proc)))) \<and>
   length (lp_calls (snd (attempt_with_keys demo_llm_env ''groq'' ''llama'' 90 demo_proc))) = 2"
proof -
  let ?c = "attempt_with_keys demo_llm_env ''groq'' ''llama'' 90 demo_proc"
  have "lp_calls demo_proc = []" by (simp add: demo_proc_def)
  with candidate_keys_distinct [of demo_llm_env "''groq''" "''llama''" 90 demo_proc "fst ?c" "snd ?c"]
  have "distinct (map (\<lambda>rq. map_option kh_id (rq_handle rq)) (lp_calls (snd ?c)))" by auto
  moreover have "length (lp_calls (snd ?c)) = 2" by code_simp
  ultimately show ?thesis by simp
qed

end
