(* ===== verification/AiState.thy ===== *)
theory AiState
  imports LlmChain
begin

text \<open>
  What a cycle of the AI signal generator carries from node to node
  (\<open>ai-signal-generator/app/graph/state.py\<close>), the strategy's configuration it reads, the
  log table \<open>ai_signal_log\<close>, and the routing predicate of \<open>graph/gating.py\<close>.
\<close>

section \<open>Fetched data\<close>

text \<open>The JSON-like values the data fetchers deliver; \<open>D_null\<close> is Python's None.\<close>

datatype datum =
    D_null
  | D_bool bool
  | D_num rat
  | D_str string
  | D_list "datum list"
  | D_obj "(string, datum) tbl"

fun d_truthy :: "datum \<Rightarrow> bool" where
  "d_truthy D_null = False"
| "d_truthy (D_bool b) = b"
| "d_truthy (D_num x) = (x \<noteq> 0)"
| "d_truthy (D_str s) = (s \<noteq> [])"
| "d_truthy (D_list xs) = (xs \<noteq> [])"
| "d_truthy (D_obj t) = (t \<noteq> [])"

text \<open>\<open>v.get(key)\<close>: only a dictionary has it.\<close>

fun d_get :: "string \<Rightarrow> datum \<Rightarrow> datum result" where
  "d_get key (D_obj t) = Inr (case map_of t key of None \<Rightarrow> D_null | Some v \<Rightarrow> v)"
| "d_get key _ = Inl TypeError"

text \<open>\<open>(v or {}).get(key)\<close> for a value that is a dictionary when it is not empty.\<close>

definition d_field :: "string \<Rightarrow> datum \<Rightarrow> datum" where
  "d_field key v = (if d_truthy v then (case d_get key v of Inl _ \<Rightarrow> D_null | Inr w \<Rightarrow> w) else D_null)"

definition d_text :: "datum \<Rightarrow> string option" where
  "d_text v = (case v of D_str s \<Rightarrow> Some s | _ \<Rightarrow> None)"

definition d_number :: "datum \<Rightarrow> rat" where
  "d_number v = (case v of D_num x \<Rightarrow> x | _ \<Rightarrow> 0)"

section \<open>Configuration\<close>

text \<open>
  The joined row of \<open>strategies\<close>, \<open>ai_strategy_config\<close> and \<open>ai_risk_config\<close>; the
  nullable numbers are options and \<open>ac_use\<close> reads the \<open>use_*\<close> flags.
\<close>

record ai_config =
  ac_template_id :: string
  ac_base_asset :: string
  ac_quote_asset :: string
  ac_llm_provider :: string
  ac_llm_model :: string
  ac_scout_provider :: string
  ac_scout_model :: string
  ac_override :: manual_chain
  ac_premium_force_interval :: "int option"
  ac_use :: "string \<Rightarrow> bool"
  ac_confidence_threshold :: "rat option"
  ac_cooldown_entry :: "int option"
  ac_cooldown_stop_adj :: "int option"
  ac_min_close_move_pct :: "rat option"
  ac_close_confidence_override :: "rat option"
  ac_min_stop_distance_pct :: "rat option"
  ac_default_leverage :: "int option"
  ac_margin_per_trade :: "rat option"
  ac_risk_per_trade :: "rat option"
  ac_sizing_mode :: string
  ac_dry_run :: bool
  ac_webhook_secret :: string
  ac_interval_no_position :: string
  ac_interval_position_open :: string
  ac_interval_at_risk :: string
  ac_at_risk_threshold_pct :: rat
  ac_candle_close_buffer :: int

text \<open>\<open>x or d\<close> on a nullable number.\<close>

definition or_else :: "'a::zero option \<Rightarrow> 'a \<Rightarrow> 'a" where
  "or_else x d = (case x of None \<Rightarrow> d | Some v \<Rightarrow> if v = 0 then d else v)"

section \<open>The state of a cycle\<close>

record resting_order =
  ro_order_id :: string
  ro_side :: string

text \<open>The decided signal: the template's automatic hold, or the model's.\<close>

datatype ai_decided = Auto_hold string | Model_signal signal_output

record sizing_meta =
  sm_mode :: string
  sm_margin_usd :: rat
  sm_risk_usd :: rat
  sm_clamped :: bool

record ai_state =
  as_strategy_id :: string
  as_config :: ai_config
  as_trigger_reason :: string
  as_cycle_interval :: string
  as_triggered_at :: datetime
  as_position_open :: bool
  as_position_side :: "string option"
  as_entry_price :: "rat option"
  as_position_size :: "rat option"
  as_unrealized_pct :: "rat option"
  as_data :: "string \<Rightarrow> datum"
  as_open_orders :: "resting_order list"
  as_llm_signal :: "ai_decided option"
  as_llm_error :: "string option"
  as_context_tokens :: "nat option"
  as_llm_usage :: "token_usage option"
  as_llm_tier :: "string option"
  as_served_by :: "(string \<times> string) option"
  as_scout_usage :: "token_usage option"
  as_fallback_attempts :: "failed_attempt list"
  as_gate_passed :: bool
  as_rejection :: "string option"
  as_size :: "rat option"
  as_sl_price :: "rat option"
  as_tp_price :: "rat option"
  as_sl_pct :: "rat option"
  as_tp_pct :: "rat option"
  as_limit_price :: "rat option"
  as_target_order :: "string option"
  as_sizing :: "sizing_meta option"
  as_webhook_fired :: bool
  as_webhook_status :: "int option"
  as_order_id :: "string option"
  as_log_id :: "nat option"

definition current_price :: "ai_state \<Rightarrow> rat" where
  "current_price s = d_number (d_field ''current_price'' (as_data s ''ohlcv_data''))"

definition signal_action :: "ai_decided \<Rightarrow> llm_action" where
  "signal_action d = (case d of Auto_hold _ \<Rightarrow> Hold_action | Model_signal sig \<Rightarrow> so_action sig)"

section \<open>The log\<close>

record ai_log_row =
  al_strategy :: string
  al_triggered_at :: datetime
  al_trigger_reason :: string
  al_interval :: string
  al_template :: string
  al_sources :: "string list"
  al_context_tokens :: "nat option"
  al_action :: "llm_action option"
  al_confidence :: "rat option"
  al_reasoning :: "string option"
  al_gate_passed :: bool
  al_rejection :: "string option"
  al_dry_run :: bool
  al_provider :: string
  al_model :: string
  al_geometry :: datum
  al_usage :: "token_usage option"
  al_missing :: "string list"
  al_tier :: "string option"
  al_scout_usage :: "token_usage option"
  al_fallback :: "failed_attempt list"
  al_snapshot :: "(string, datum) tbl"
  al_fired :: bool
  al_status :: "int option"
  al_order_id :: "string option"

text \<open>
  \<open>ORDER BY triggered_at DESC LIMIT 1\<close> over the rows of a strategy; of rows with the same
  time, which the query may return in any order, the one inserted last.
\<close>

definition rows_of :: "string \<Rightarrow> ai_log_row list \<Rightarrow> ai_log_row list" where
  "rows_of strategy rows = filter (\<lambda>r. al_strategy r = strategy) rows"

definition latest_row :: "ai_log_row list \<Rightarrow> ai_log_row option" where
  "latest_row rows = (if rows = [] then None else Some (List.last (sort_key al_triggered_at rows)))"

section \<open>Routing\<close>

text \<open>\<open>gating.py\<close>.\<close>

definition should_skip_llm_no_range :: "ai_state \<Rightarrow> bool" where
  "should_skip_llm_no_range s =
     (if ac_template_id (as_config s) \<noteq> ''geometric_range'' then False
      else if as_position_open s then False
      else if as_open_orders s \<noteq> [] then False
      else d_field ''fit_quality'' (as_data s ''geometry_data'') \<notin> {D_str ''strong'', D_str ''moderate''})"

text \<open>\<open>node_skip.py\<close>.\<close>

definition node_skip_geometry :: "ai_state \<Rightarrow> ai_state" where
  "node_skip_geometry s =
     s\<lparr>as_llm_signal := Some (Auto_hold ''no tradeable-fit range: LLM skipped, auto-HOLD''),
       as_gate_passed := False, as_rejection := Some ''no_range_llm_skipped'',
       as_context_tokens := Some 0\<rparr>"

text \<open>
  \<open>ai-signal-generator/app/graph/nodes/node_analyze.py\<close>: when the cheap scout model is
  asked, when its hold is final, and when the cycle goes to the premium chain.
\<close>

datatype premium_trigger =
    First_cycle
  | Fit_quality_changed string string
  | Premium_force_interval int

text \<open>
  The environment of an analysis: the model services and the probe cache of the process,
  whether the log query fails, the prompt's token estimate (\<open>None\<close> when building the
  prompt raises), and how an exception of either prints.
\<close>

record analyze_env =
  ae_llm :: llm_env
  ae_cache :: probe_cache
  ae_query_fails :: bool
  ae_prompt_tokens :: "nat option"
  ae_failure :: string

text \<open>The cycles logged after the last one a premium model decided.\<close>

definition cycles_since_premium :: "ai_log_row list \<Rightarrow> nat" where
  "cycles_since_premium rows =
     (let premium = filter (\<lambda>r. al_tier r \<noteq> Some ''scout'') rows;
          since = (if premium = [] then 0 else Max (set (map al_triggered_at premium)))
      in length (filter (\<lambda>r. since < al_triggered_at r) rows))"

definition deterministic_premium_trigger :: "ai_log_row list \<Rightarrow> ai_state \<Rightarrow> premium_trigger option" where
  "deterministic_premium_trigger logged s =
     (let rows = rows_of (as_strategy_id s) logged
      in case latest_row rows of
           None \<Rightarrow> Some First_cycle
         | Some prev \<Rightarrow>
             (let cur_fq = d_text (d_field ''fit_quality'' (as_data s ''geometry_data''));
                  prev_fq = d_text (d_field ''fit_quality'' (al_geometry prev));
                  interval = or_else (ac_premium_force_interval (as_config s)) 12
              in case (cur_fq, prev_fq) of
                   (Some c, Some p) \<Rightarrow>
                     if c \<noteq> p then Some (Fit_quality_changed p c)
                     else if interval \<le> int (cycles_since_premium rows) + 1 then Some (Premium_force_interval interval)
                     else None
                 | _ \<Rightarrow>
                     if interval \<le> int (cycles_since_premium rows) + 1 then Some (Premium_force_interval interval)
                     else None))"

definition premium_result ::
    "analyze_env \<Rightarrow> string \<Rightarrow> string \<Rightarrow> manual_chain \<Rightarrow> llm_proc \<Rightarrow> chain_result \<times> llm_proc" where
  "premium_result A provider model override st =
     call_llm_chain (ae_llm A)
       ((provider, model) #
        build_fallback_chain (ae_llm A) (now_of (ae_llm A) st) (ae_cache A) (lp_pool st) provider model override) st"

definition scout_result ::
    "analyze_env \<Rightarrow> string \<Rightarrow> string \<Rightarrow> llm_proc \<Rightarrow> attempt_result \<times> llm_proc" where
  "scout_result A provider model st =
     (case attempt_with_keys (ae_llm A) provider model LLM_TIMEOUT (st\<lparr>lp_attempts := []\<rparr>) of
        (Some r, st') \<Rightarrow> (r, st')
      | (None, st') \<Rightarrow>
          (\<lparr>ar_signal = None, ar_usage = None,
            ar_error = Some (let e = join_semi (map (\<lambda>a. case fa_error a of None \<Rightarrow> [] | Some x \<Rightarrow> x) (lp_attempts st'))
                             in if e = [] then ''no usable key'' else e),
            ar_key_label = []\<rparr>, st'))"

text \<open>\<open>_state_out\<close>: every output of the node is set, the ones not named to None.\<close>

definition state_out ::
    "ai_state \<Rightarrow> signal_output option \<Rightarrow> string option \<Rightarrow> token_usage option \<Rightarrow> string option \<Rightarrow>
     (string \<times> string) option \<Rightarrow> token_usage option \<Rightarrow> failed_attempt list \<Rightarrow> nat option \<Rightarrow> ai_state" where
  "state_out s signal err usage tier served scout attempts tokens =
     s\<lparr>as_llm_signal := map_option Model_signal signal, as_llm_error := err, as_llm_usage := usage,
       as_llm_tier := tier, as_served_by := served, as_scout_usage := scout,
       as_fallback_attempts := attempts, as_context_tokens := tokens\<rparr>"

text \<open>The premium part: the chain's answer, or its error.\<close>

definition decide_premium ::
    "analyze_env \<Rightarrow> nat option \<Rightarrow> bool \<Rightarrow> token_usage option \<Rightarrow> ai_state \<Rightarrow> llm_proc \<Rightarrow> ai_state \<times> llm_proc" where
  "decide_premium A tokens scout_ran scout_usage s st =
     (let sc = as_config s;
          (r, st') = premium_result A (ac_llm_provider sc) (ac_llm_model sc) (ac_override sc) st
      in (case cr_signal r of
            None \<Rightarrow> state_out s None (cr_error r) (cr_usage r) None None scout_usage (cr_attempts r) tokens
          | Some sig \<Rightarrow>
              state_out s (Some sig) None (cr_usage r)
                (Some (if scout_ran then ''scout_escalated''
                       else if cr_attempts r \<noteq> [] then ''fallback'' else ''premium''))
                (map_option (\<lambda>b. (sb_provider b, sb_model b)) (cr_served_by r))
                scout_usage (cr_attempts r) tokens, st'))"

definition ai_node_analyze ::
    "analyze_env \<Rightarrow> ai_log_row list \<Rightarrow> ai_state \<Rightarrow> llm_proc \<Rightarrow> ai_state \<times> llm_proc" where
  "ai_node_analyze A logged s st =
     (let sc = as_config s;
          failed = state_out s None (Some (''['' @ ac_llm_provider sc @ ''/'' @ ac_llm_model sc @ ''] '' @ ae_failure A)) None None None None [] (as_context_tokens s)
      in case ae_prompt_tokens A of
           None \<Rightarrow> (failed, st)
         | Some n \<Rightarrow>
             if ac_scout_provider sc = [] \<or> ac_scout_model sc = []
             then decide_premium A (Some n) False None s st
             else if ae_query_fails A then (failed, st)
             else case deterministic_premium_trigger logged s of
                    Some trigger \<Rightarrow> decide_premium A (Some n) False None s st
                  | None \<Rightarrow>
                      (case scout_result A (ac_scout_provider sc) (ac_scout_model sc) st of
                         (scout, st1) \<Rightarrow>
                           (case ar_signal scout of
                              None \<Rightarrow> decide_premium A (Some n) True (ar_usage scout) s st1
                            | Some sig \<Rightarrow>
                                if so_action sig = Hold_action
                                then (state_out s (Some sig) None (ar_usage scout) (Some ''scout'')
                                        (Some (ac_scout_provider sc, ac_scout_model sc)) None [] (Some n), st1)
                                else decide_premium A (Some n) True (ar_usage scout) s st1)))"

end
