(* ===== verification/AiGuard.thy ===== *)
theory AiGuard
  imports AiState
begin

text \<open>
  \<open>ai-signal-generator/app/graph/nodes/node_guard.py\<close>: the rules a decided signal has to
  pass before anything is sent, and the size and levels of what passes.
\<close>

section \<open>Constants and helpers\<close>

definition GUARD_MIN_PCT :: rat where "GUARD_MIN_PCT = 5/100"
definition GUARD_MAX_PCT :: rat where "GUARD_MAX_PCT = 50"
definition MIN_PARTIAL_CLOSE_PCT :: rat where "MIN_PARTIAL_CLOSE_PCT = 2"

definition entry_actions :: "llm_action list" where
  "entry_actions = [Open_long_action, Open_short_action, Place_limit_long, Place_limit_short]"

datatype cooldown_key = Cooldown_entry | Cooldown_stop_adj

fun guard_cooldown :: "llm_action \<Rightarrow> cooldown_key option" where
  "guard_cooldown Open_long_action = Some Cooldown_entry"
| "guard_cooldown Open_short_action = Some Cooldown_entry"
| "guard_cooldown Place_limit_long = Some Cooldown_entry"
| "guard_cooldown Place_limit_short = Some Cooldown_entry"
| "guard_cooldown Partial_close = Some Cooldown_entry"
| "guard_cooldown Adjust_stops = Some Cooldown_stop_adj"
| "guard_cooldown Close_long_action = None"
| "guard_cooldown Close_short_action = None"
| "guard_cooldown Cancel_order = None"
| "guard_cooldown Amend_order = None"
| "guard_cooldown Hold_action = None"

definition cooldown_minutes :: "ai_config \<Rightarrow> cooldown_key \<Rightarrow> int" where
  "cooldown_minutes sc key =
     or_else (case key of Cooldown_entry \<Rightarrow> ac_cooldown_entry sc | Cooldown_stop_adj \<Rightarrow> ac_cooldown_stop_adj sc) 240"

definition cooldown_group :: "llm_action \<Rightarrow> llm_action list" where
  "cooldown_group action = (if action \<in> set entry_actions then entry_actions else [action])"

definition guard_reject :: "string \<Rightarrow> ai_state \<Rightarrow> ai_state" where
  "guard_reject reason s = s\<lparr>as_gate_passed := False, as_rejection := Some reason\<rparr>"

text \<open>The query for an accepted signal of the group inside the window.\<close>

definition cooldown_active :: "ai_log_row list \<Rightarrow> datetime \<Rightarrow> ai_state \<Rightarrow> llm_action \<Rightarrow> bool" where
  "cooldown_active logged now s action =
     (case guard_cooldown action of
        None \<Rightarrow> False
      | Some key \<Rightarrow>
          list_ex (\<lambda>r. al_strategy r = as_strategy_id s \<and> al_gate_passed r \<and>
              (\<exists>a\<in>set (cooldown_group action). al_action r = Some a) \<and>
              now - of_int (cooldown_minutes (as_config s) key) * 60 \<le> al_triggered_at r) logged)"

section \<open>Sizing\<close>

definition ai_leverage :: "ai_config \<Rightarrow> int" where
  "ai_leverage sc = or_else (ac_default_leverage sc) 1"

definition margin_cap :: "ai_config \<Rightarrow> rat" where
  "margin_cap sc = or_else (ac_margin_per_trade sc) 5"

definition risk_mode :: "ai_config \<Rightarrow> bool" where
  "risk_mode sc \<longleftrightarrow> ac_sizing_mode sc = ''risk'' \<and> or_else (ac_risk_per_trade sc) 0 \<noteq> 0"

definition entry_notional :: "ai_config \<Rightarrow> rat \<Rightarrow> rat" where
  "entry_notional sc sl_pct =
     (let cap = margin_cap sc * of_int (ai_leverage sc)
      in if risk_mode sc then min (or_else (ac_risk_per_trade sc) 0 / (sl_pct / 100)) cap else cap)"

definition resolve_entry_sizing :: "ai_config \<Rightarrow> rat \<Rightarrow> rat \<Rightarrow> rat \<times> sizing_meta" where
  "resolve_entry_sizing sc entry_price sl_pct =
     (let notional = entry_notional sc sl_pct; cap = margin_cap sc * of_int (ai_leverage sc)
      in (py_round (notional / entry_price) 4,
          if risk_mode sc
          then \<lparr>sm_mode = ''risk'', sm_margin_usd = py_round (notional / of_int (ai_leverage sc)) 2,
                sm_risk_usd = py_round (notional * (sl_pct / 100)) 2,
                sm_clamped = (cap < or_else (ac_risk_per_trade sc) 0 / (sl_pct / 100))\<rparr>
          else \<lparr>sm_mode = ''margin'', sm_margin_usd = py_round (margin_cap sc) 2,
                sm_risk_usd = py_round (notional * (sl_pct / 100)) 2, sm_clamped = False\<rparr>))"

definition pct_in_range :: "rat \<Rightarrow> bool" where
  "pct_in_range x \<longleftrightarrow> GUARD_MIN_PCT \<le> x \<and> x \<le> GUARD_MAX_PCT"

section \<open>The branches\<close>

text \<open>\<open>adjust_stops\<close>: the stop must be on its side, lock no loss in profit, and keep its distance.\<close>

definition stops_wrong_side :: "bool \<Rightarrow> rat \<Rightarrow> rat option \<Rightarrow> rat option \<Rightarrow> bool" where
  "stops_wrong_side long ref sl tp =
     (if long then (case sl of None \<Rightarrow> False | Some x \<Rightarrow> ref \<le> x) \<or> (case tp of None \<Rightarrow> False | Some x \<Rightarrow> x \<le> ref)
      else (case sl of None \<Rightarrow> False | Some x \<Rightarrow> x \<le> ref) \<or> (case tp of None \<Rightarrow> False | Some x \<Rightarrow> ref \<le> x))"

definition has_side :: "ai_state \<Rightarrow> bool" where
  "has_side s \<longleftrightarrow> as_position_side s \<in> {Some ''long'', Some ''short''}"

definition is_long :: "ai_state \<Rightarrow> bool" where
  "is_long s \<longleftrightarrow> as_position_side s = Some ''long''"

definition locks_loss_in_profit :: "ai_state \<Rightarrow> rat \<Rightarrow> rat \<Rightarrow> bool" where
  "locks_loss_in_profit s price sl =
     (case as_entry_price s of
        None \<Rightarrow> False
      | Some entry \<Rightarrow>
          0 < entry \<and> has_side s \<and> 0 < price \<and>
          (if is_long s then entry < price \<and> sl < entry else price < entry \<and> entry < sl))"

definition stop_too_close :: "ai_config \<Rightarrow> rat \<Rightarrow> rat \<Rightarrow> bool" where
  "stop_too_close sc price sl \<longleftrightarrow>
     0 < or_else (ac_min_stop_distance_pct sc) 0 \<and> 0 < price \<and>
     \<bar>sl - price\<bar> / price * 100 < or_else (ac_min_stop_distance_pct sc) 0"

definition guard_adjust_stops :: "signal_output \<Rightarrow> ai_state \<Rightarrow> ai_state" where
  "guard_adjust_stops sig s =
     (let sl = so_new_sl_price sig; tp = so_new_tp_price sig; price = current_price s
      in if tp = None \<and> sl = None then guard_reject ''adjust_stops_no_prices'' s
         else if has_side s \<and> 0 < price \<and> stops_wrong_side (is_long s) price sl tp
         then guard_reject ''stop_wrong_side'' s
         else if (case sl of None \<Rightarrow> False | Some x \<Rightarrow> locks_loss_in_profit s price x)
         then guard_reject ''stop_locks_loss_in_profit'' s
         else if (case sl of None \<Rightarrow> False | Some x \<Rightarrow> stop_too_close (as_config s) price x)
         then guard_reject ''stop_too_close'' s
         else s\<lparr>as_gate_passed := True, as_rejection := None, as_size := None,
                as_sl_price := sl, as_tp_price := tp\<rparr>)"

text \<open>\<open>place_limit_*\<close>: a resting entry at a boundary, at most one per side.\<close>

definition guard_place_limit :: "signal_output \<Rightarrow> ai_state \<Rightarrow> ai_state" where
  "guard_place_limit sig s =
     (let long = (so_action sig = Place_limit_long);
          sl_pct = \<bar>so_stop_loss_pct sig\<bar>; tp_pct = \<bar>so_take_profit_pct sig\<bar>
      in case so_limit_price sig of
           None \<Rightarrow> guard_reject ''limit_price_missing'' s
         | Some limit \<Rightarrow>
             if limit \<le> 0 then guard_reject ''limit_price_missing'' s
             else if \<exists>order\<in>set (as_open_orders s). ro_side order = (if long then ''buy'' else ''sell'')
             then guard_reject ''duplicate_resting_order_same_side'' s
             else if \<not> pct_in_range sl_pct \<or> \<not> pct_in_range tp_pct then guard_reject ''sl_tp_pct_out_of_range'' s
             else (case resolve_entry_sizing (as_config s) limit sl_pct of (qty, meta) \<Rightarrow>
               s\<lparr>as_gate_passed := True, as_rejection := None, as_size := Some qty,
                 as_sl_price := Some (py_round (if long then limit * (1 - sl_pct / 100) else limit * (1 + sl_pct / 100)) 4),
                 as_tp_price := Some (py_round (if long then limit * (1 + tp_pct / 100) else limit * (1 - tp_pct / 100)) 4),
                 as_limit_price := Some limit, as_target_order := None, as_sizing := Some meta\<rparr>))"

text \<open>\<open>cancel_order\<close> and \<open>amend_order\<close>.\<close>

definition target_side :: "string \<Rightarrow> resting_order list \<Rightarrow> string option" where
  "target_side order_id orders = map_option ro_side (List.find (\<lambda>order. ro_order_id order = order_id) orders)"

definition guard_manage_order :: "signal_output \<Rightarrow> ai_state \<Rightarrow> ai_state" where
  "guard_manage_order sig s =
     (case so_target_order_id sig of
        None \<Rightarrow> guard_reject ''target_order_id_missing'' s
      | Some order_id \<Rightarrow>
          if order_id = [] then guard_reject ''target_order_id_missing'' s
          else if so_action sig \<noteq> Amend_order
          then s\<lparr>as_gate_passed := True, as_rejection := None, as_size := None, as_sl_price := None,
                 as_tp_price := None, as_limit_price := None, as_target_order := Some order_id\<rparr>
          else (case so_limit_price sig of
                  None \<Rightarrow> guard_reject ''amend_missing_price'' s
                | Some limit \<Rightarrow>
                    if limit \<le> 0 then guard_reject ''amend_missing_price'' s
                    else if (case target_side order_id (as_open_orders s) of
                               None \<Rightarrow> False
                             | Some side \<Rightarrow> side \<in> {''buy'', ''sell''} \<and>
                                 stops_wrong_side (side = ''buy'') limit (so_new_sl_price sig) (so_new_tp_price sig))
                    then guard_reject ''stop_wrong_side'' s
                    else s\<lparr>as_gate_passed := True, as_rejection := None, as_size := None,
                           as_sl_price := so_new_sl_price sig, as_tp_price := so_new_tp_price sig,
                           as_limit_price := Some limit, as_target_order := Some order_id\<rparr>))"

text \<open>Market openings: the size now, the levels as distances for the listener to price.\<close>

definition guard_open :: "signal_output \<Rightarrow> ai_state \<Rightarrow> ai_state" where
  "guard_open sig s =
     (let price = current_price s; sl_pct = \<bar>so_stop_loss_pct sig\<bar>; tp_pct = \<bar>so_take_profit_pct sig\<bar>
      in if price \<le> 0 then guard_reject ''size_resolution_failed'' s
         else if \<not> pct_in_range sl_pct \<or> \<not> pct_in_range tp_pct then guard_reject ''sl_tp_pct_out_of_range'' s
         else (case resolve_entry_sizing (as_config s) price sl_pct of (qty, meta) \<Rightarrow>
           s\<lparr>as_gate_passed := True, as_rejection := None, as_size := Some qty, as_sl_price := None,
             as_tp_price := None, as_sl_pct := Some sl_pct, as_tp_pct := Some tp_pct, as_sizing := Some meta\<rparr>))"

text \<open>\<open>partial_close\<close>: a fraction is read as the percentage it means, dust is refused.\<close>

definition partial_pct :: "rat \<Rightarrow> rat" where
  "partial_pct size_pct =
     (let p = (if size_pct = 0 then 50 else size_pct) in if 0 < p \<and> p < 1 then p * 100 else p)"

definition guard_partial_close :: "signal_output \<Rightarrow> ai_state \<Rightarrow> ai_state" where
  "guard_partial_close sig s =
     (case as_position_size s of
        None \<Rightarrow> guard_reject ''size_resolution_failed'' s
      | Some held \<Rightarrow>
          if held = 0 then guard_reject ''size_resolution_failed'' s
          else if partial_pct (so_size_pct sig) < MIN_PARTIAL_CLOSE_PCT then guard_reject ''partial_close_too_small'' s
          else (let qty = min (py_round (held * partial_pct (so_size_pct sig) / 100) 6) held
                in if qty \<le> 0 then guard_reject ''size_resolution_failed'' s
                   else s\<lparr>as_gate_passed := True, as_rejection := None, as_size := Some qty,
                          as_sl_price := None, as_tp_price := None\<rparr>))"

definition guard_close :: "ai_state \<Rightarrow> ai_state" where
  "guard_close s =
     s\<lparr>as_gate_passed := True, as_rejection := None, as_size := Some (or_else (as_position_size s) (1/100)),
       as_sl_price := None, as_tp_price := None\<rparr>"

text \<open>Step 6: a close inside the noise band needs the confidence of an override.\<close>

definition close_below_min_move :: "signal_output \<Rightarrow> ai_state \<Rightarrow> bool" where
  "close_below_min_move sig s =
     (let sc = as_config s; min_move = or_else (ac_min_close_move_pct sc) 0; current = current_price s
      in case as_entry_price s of
           None \<Rightarrow> False
         | Some entry \<Rightarrow>
             0 < min_move \<and> 0 < entry \<and> 0 < current \<and>
             \<bar>current - entry\<bar> / entry * 100 < min_move \<and>
             so_confidence sig < or_else (ac_close_confidence_override sc) 1)"

section \<open>The node\<close>

definition guard_branch :: "signal_output \<Rightarrow> ai_state \<Rightarrow> ai_state" where
  "guard_branch sig s =
     (case so_action sig of
        Adjust_stops \<Rightarrow> guard_adjust_stops sig s
      | Place_limit_long \<Rightarrow> guard_place_limit sig s
      | Place_limit_short \<Rightarrow> guard_place_limit sig s
      | Cancel_order \<Rightarrow> guard_manage_order sig s
      | Amend_order \<Rightarrow> guard_manage_order sig s
      | Open_long_action \<Rightarrow> guard_open sig s
      | Open_short_action \<Rightarrow> guard_open sig s
      | Partial_close \<Rightarrow> guard_partial_close sig s
      | _ \<Rightarrow> guard_close s)"

text \<open>
  \<open>now\<close> is the time of the cooldown query and \<open>query_fails\<close> whether it raises, in which
  case the guard goes on.
\<close>

definition ai_node_guard :: "bool \<Rightarrow> ai_log_row list \<Rightarrow> datetime \<Rightarrow> ai_state \<Rightarrow> ai_state" where
  "ai_node_guard query_fails logged now s =
     (case as_llm_signal s of
        None \<Rightarrow> guard_reject ''llm_failed'' s
      | Some (Auto_hold _) \<Rightarrow> guard_reject ''hold_or_adjust'' s
      | Some (Model_signal sig) \<Rightarrow>
          (let action = so_action sig; sc = as_config s in
           if action = Hold_action then guard_reject ''hold_or_adjust'' s
           else if action \<notin> {Cancel_order, Amend_order} \<and>
                   so_confidence sig < or_else (ac_confidence_threshold sc) (72/100)
           then guard_reject ''confidence_below_threshold'' s
           else if action \<in> set entry_actions \<and> as_position_open s then guard_reject ''position_already_open'' s
           else if action \<in> {Close_long_action, Close_short_action, Partial_close} \<and> \<not> as_position_open s
           then guard_reject ''no_position_to_close'' s
           else if \<not> query_fails \<and> cooldown_active logged now s action then guard_reject ''cooldown_active'' s
           else if action \<in> {Close_long_action, Close_short_action} \<and> close_below_min_move sig s
           then guard_reject ''close_below_min_move'' s
           else guard_branch sig s))"

end
