(* ===== verification/AiCycle.thy ===== *)
theory AiCycle
  imports AiGuard AiState
begin

text \<open>
  \<open>ai-signal-generator/app/graph/nodes/node_dispatch.py\<close> and
  \<open>ai-signal-generator/app/webhook/dispatcher.py\<close>: the log row every cycle writes and the
  one request a passed decision sends to the order listener.
\<close>

section \<open>What the prompt had\<close>

definition DATA_SOURCES :: "(string \<times> string) list" where
  "DATA_SOURCES =
     [(''use_technical'', ''technical''), (''use_geometry'', ''geometry''), (''use_fear_greed'', ''fear_greed''),
      (''use_funding_rate'', ''funding_rate''), (''use_open_interest'', ''open_interest''),
      (''use_news'', ''news''), (''use_btc_dominance'', ''btc_dominance''), (''use_macro'', ''macro''),
      (''use_economic_calendar'', ''economic_calendar''), (''use_mtf_structure'', ''mtf_structure''),
      (''use_orderbook'', ''orderbook''), (''use_volume_profile'', ''volume_profile''), (''use_cvd'', ''cvd''),
      (''use_momentum_divergence'', ''momentum_divergence''), (''use_volatility_regime'', ''volatility_regime''),
      (''use_funding_history'', ''funding_history''), (''use_liquidations'', ''liquidations''),
      (''use_limit_orders'', ''limit_orders'')]"

definition data_sources_used :: "ai_config \<Rightarrow> string list" where
  "data_sources_used sc = map snd (filter (\<lambda>(flag, label). ac_use sc flag) DATA_SOURCES)"

text \<open>Flag, label, state key, and the key within that value if there is one.\<close>

type_synonym input_check = "string \<times> string \<times> string \<times> string option"

definition MISSING_INPUT_CHECKS :: "input_check list" where
  "MISSING_INPUT_CHECKS =
     [(''use_technical'', ''technical'', ''technical_indicators'', None),
      (''use_geometry'', ''geometry'', ''geometry_data'', None),
      (''use_volume_profile'', ''volume_profile'', ''volume_profile'', None),
      (''use_momentum_divergence'', ''momentum_divergence'', ''momentum_divergence'', None),
      (''use_volatility_regime'', ''volatility_regime'', ''volatility_regime'', None),
      (''use_mtf_structure'', ''mtf_structure'', ''mtf_structure'', None),
      (''use_fear_greed'', ''fear_greed'', ''sentiment_data'', Some ''fear_greed''),
      (''use_funding_rate'', ''funding_rate'', ''sentiment_data'', Some ''funding_rate''),
      (''use_open_interest'', ''open_interest'', ''sentiment_data'', Some ''open_interest''),
      (''use_funding_history'', ''funding_history'', ''sentiment_data'', Some ''funding_history''),
      (''use_news'', ''news'', ''news_data'', None),
      (''use_economic_calendar'', ''economic_calendar'', ''calendar_data'', None),
      (''use_btc_dominance'', ''btc_dominance'', ''market_context'', Some ''btc_dominance''),
      (''use_macro'', ''macro'', ''market_context'', Some ''macro''),
      (''use_orderbook'', ''orderbook'', ''orderbook_data'', None),
      (''use_cvd'', ''cvd'', ''cvd_data'', None),
      (''use_liquidations'', ''liquidations'', ''liquidation_data'', None)]"

definition input_value :: "ai_state \<Rightarrow> string \<Rightarrow> string option \<Rightarrow> datum" where
  "input_value s top_key sub_key =
     (case sub_key of None \<Rightarrow> as_data s top_key | Some k \<Rightarrow> d_field k (as_data s top_key))"

definition missing_inputs :: "ai_config \<Rightarrow> ai_state \<Rightarrow> string list" where
  "missing_inputs sc s =
     map (\<lambda>(flag, label, top, sub). label)
       (filter (\<lambda>(flag, label, top, sub). ac_use sc flag \<and> \<not> d_truthy (input_value s top sub)) MISSING_INPUT_CHECKS)"

text \<open>
  The extractors of the regime snapshot: the named fields of a dictionary, or the trend per
  timeframe of a list of dictionaries.
\<close>

datatype extractor = Fields "(string \<times> string) list" | Trend_per_timeframe

fun extract_fields :: "(string \<times> string) list \<Rightarrow> datum \<Rightarrow> (string, datum) tbl result" where
  "extract_fields [] v = Inr []"
| "extract_fields ((key, field) # fs) v =
     (case (d_get field v, extract_fields fs v) of
        (Inr x, Inr xs) \<Rightarrow> Inr ((key, x) # xs)
      | _ \<Rightarrow> Inl TypeError)"

definition add_trend :: "datum \<Rightarrow> (string, datum) tbl \<Rightarrow> (string, datum) tbl" where
  "add_trend tf acc =
     (case tf of
        D_obj t \<Rightarrow>
          (case map_of t ''tf'' of
             Some (D_str name) \<Rightarrow>
               (if name = [] then acc
                else AList.update name (case map_of t ''trend_direction'' of None \<Rightarrow> D_null | Some d \<Rightarrow> d) acc)
           | _ \<Rightarrow> acc)
      | _ \<Rightarrow> acc)"

definition timeframe_trends :: "datum list \<Rightarrow> (string, datum) tbl" where
  "timeframe_trends tfs = fold add_trend tfs []"

fun run_extractor :: "extractor \<Rightarrow> datum \<Rightarrow> datum result" where
  "run_extractor (Fields fs) v = map_sum id D_obj (extract_fields fs v)"
| "run_extractor Trend_per_timeframe (D_list tfs) = Inr (D_obj (timeframe_trends tfs))"
| "run_extractor Trend_per_timeframe (D_str c) = Inr (D_obj [])"
| "run_extractor Trend_per_timeframe (D_obj t) = Inr (D_obj [])"
| "run_extractor Trend_per_timeframe _ = Inl TypeError"

definition REGIME_SNAPSHOT_FIELDS :: "(string \<times> string \<times> string \<times> string option \<times> extractor) list" where
  "REGIME_SNAPSHOT_FIELDS =
     [(''use_volatility_regime'', ''volatility_regime'', ''volatility_regime'', None,
         Fields [(''atr_percentile'', ''atr_percentile''), (''bb_width_percentile'', ''bb_width_percentile''),
                 (''squeeze_flag'', ''squeeze_flag'')]),
      (''use_funding_rate'', ''funding_rate'', ''sentiment_data'', Some ''funding_rate'',
         Fields [(''rate'', ''rate''), (''interpretation'', ''interpretation'')]),
      (''use_fear_greed'', ''fear_greed'', ''sentiment_data'', Some ''fear_greed'',
         Fields [(''value'', ''value''), (''label'', ''label'')]),
      (''use_open_interest'', ''open_interest'', ''sentiment_data'', Some ''open_interest'',
         Fields [(''change_24h_pct'', ''change_24h_pct''), (''long_short_ratio'', ''long_short_ratio'')]),
      (''use_cvd'', ''cvd'', ''cvd_data'', None,
         Fields [(''cvd_window_usd'', ''cvd_window_usd''), (''cvd_trend'', ''cvd_trend''),
                 (''cvd_divergence'', ''cvd_divergence'')]),
      (''use_mtf_structure'', ''mtf_structure'', ''mtf_structure'', None, Trend_per_timeframe),
      (''use_btc_dominance'', ''btc_dominance'', ''market_context'', Some ''btc_dominance'',
         Fields [(''value'', ''btc_dominance''), (''trend'', ''btc_dom_trend'')])]"

definition snapshot_value :: "ai_state \<Rightarrow> string \<Rightarrow> string option \<Rightarrow> extractor \<Rightarrow> datum" where
  "snapshot_value s top_key sub_key ex =
     (let v = input_value s top_key sub_key
      in if \<not> d_truthy v then D_null
         else case run_extractor ex v of Inl _ \<Rightarrow> D_obj [(''error'', D_str ''unparseable'')] | Inr w \<Rightarrow> w)"

definition regime_snapshot :: "ai_config \<Rightarrow> ai_state \<Rightarrow> (string, datum) tbl" where
  "regime_snapshot sc s =
     map (\<lambda>(flag, key, top, sub, ex). (key, snapshot_value s top sub ex))
       (filter (\<lambda>(flag, key, top, sub, ex). ac_use sc flag) REGIME_SNAPSHOT_FIELDS)"

section \<open>Requests to the listener\<close>

record order_payload =
  op_base_asset :: string
  op_quote_asset :: string
  op_side :: string
  op_limit :: bool
  op_price :: "rat option"
  op_size :: "rat option"
  op_sl_price :: "rat option"
  op_tp_price :: "rat option"
  op_sl_pct :: "rat option"
  op_tp_pct :: "rat option"
  op_signal :: string
  op_dry_run :: bool
  op_confidence :: rat

datatype listener_request =
    Post_webhook string order_payload
  | Post_cancel string "string option"
  | Post_amend string "string option" "rat option" "rat option" "rat option"
  | Post_adjust_stops string bool "rat option" "rat option"

record listener_response =
  lr_status :: int
  lr_order_id :: "string option"

text \<open>\<open>str(x) if x else None\<close>: zero reads as missing.\<close>

definition if_nonzero :: "rat option \<Rightarrow> rat option" where
  "if_nonzero x = (case x of None \<Rightarrow> None | Some v \<Rightarrow> if v = 0 then None else Some v)"

text \<open>Side and signal of an action; actions that \<open>build_payload\<close> has no entry for raise.\<close>

fun action_to_signal :: "llm_action \<Rightarrow> (string \<times> string) option" where
  "action_to_signal Open_long_action = Some (''buy'', ''open_long'')"
| "action_to_signal Open_short_action = Some (''sell'', ''open_short'')"
| "action_to_signal Close_long_action = Some (''sell'', ''close_long'')"
| "action_to_signal Close_short_action = Some (''buy'', ''close_short'')"
| "action_to_signal Place_limit_long = Some (''buy'', ''open_long'')"
| "action_to_signal Place_limit_short = Some (''sell'', ''open_short'')"
| "action_to_signal _ = None"

definition payload_signal :: "ai_state \<Rightarrow> llm_action \<Rightarrow> (string \<times> string) option" where
  "payload_signal s action =
     (if action = Partial_close
      then (if as_position_side s = None \<or> as_position_side s = Some [] \<or> as_position_side s = Some ''long''
            then Some (''sell'', ''close_long'') else Some (''buy'', ''close_short''))
      else action_to_signal action)"

definition build_payload :: "ai_state \<Rightarrow> signal_output \<Rightarrow> order_payload option" where
  "build_payload s sig =
     (let sc = as_config s; action = so_action sig; limit = action \<in> {Place_limit_long, Place_limit_short}
      in map_option (\<lambda>(side, name).
           \<lparr>op_base_asset = ac_base_asset sc, op_quote_asset = ac_quote_asset sc, op_side = side, op_limit = limit,
            op_price = (if limit then as_limit_price s else None), op_size = as_size s,
            op_sl_price = if_nonzero (as_sl_price s), op_tp_price = if_nonzero (as_tp_price s),
            op_sl_pct = if_nonzero (as_sl_pct s), op_tp_pct = if_nonzero (as_tp_pct s),
            op_signal = name, op_dry_run = ac_dry_run sc, op_confidence = so_confidence sig\<rparr>)
         (payload_signal s action))"

section \<open>The node\<close>

text \<open>
  The environment of a dispatch: whether writing the log row raises, whether updating it after
  the request raises, and what the listener answers the n-th request (\<open>None\<close> when the HTTP
  call raises, which the dispatcher turns into a result without a status). The order ids the
  listener answers are UUIDs.
\<close>

record dispatch_env =
  de_insert_fails :: bool
  de_update_fails :: bool
  de_listener :: "nat \<Rightarrow> listener_request \<Rightarrow> listener_response option"

text \<open>The log table and the requests sent.\<close>

record ai_world =
  aw_log :: "ai_log_row list"
  aw_sent :: "listener_request list"

definition ai_log_row_of :: "ai_state \<Rightarrow> ai_log_row" where
  "ai_log_row_of s =
     (let sc = as_config s in
      \<lparr>al_strategy = as_strategy_id s, al_triggered_at = as_triggered_at s, al_trigger_reason = as_trigger_reason s,
       al_interval = as_cycle_interval s, al_template = ac_template_id sc, al_sources = data_sources_used sc,
       al_context_tokens = as_context_tokens s, al_action = map_option signal_action (as_llm_signal s),
       al_confidence = (case as_llm_signal s of Some (Model_signal sig) \<Rightarrow> Some (so_confidence sig) | _ \<Rightarrow> None),
       al_reasoning =
         (case as_llm_signal s of
            Some (Model_signal sig) \<Rightarrow> (if so_reasoning sig = [] then as_llm_error s else Some (so_reasoning sig))
          | Some (Auto_hold r) \<Rightarrow> Some r | None \<Rightarrow> as_llm_error s),
       al_gate_passed = as_gate_passed s, al_rejection = as_rejection s, al_dry_run = ac_dry_run sc,
       al_provider = (case as_served_by s of Some (p, m) \<Rightarrow> (if p = [] then ac_llm_provider sc else p) | None \<Rightarrow> ac_llm_provider sc),
       al_model = (case as_served_by s of Some (p, m) \<Rightarrow> (if m = [] then ac_llm_model sc else m) | None \<Rightarrow> ac_llm_model sc),
       al_geometry = as_data s ''geometry_data'', al_usage = as_llm_usage s, al_missing = missing_inputs sc s,
       al_tier = as_llm_tier s, al_scout_usage = as_scout_usage s, al_fallback = as_fallback_attempts s,
       al_snapshot = regime_snapshot sc s, al_fired = False, al_status = None, al_order_id = None\<rparr>)"

text \<open>
  The insert, whose id is the row's position; and the update of the row that id names. Either
  is logged and passed over when it raises.
\<close>

definition insert_log :: "dispatch_env \<Rightarrow> ai_state \<Rightarrow> ai_world \<Rightarrow> nat option \<times> ai_world" where
  "insert_log D s w =
     (if de_insert_fails D then (None, w)
      else (Some (length (aw_log w)), w\<lparr>aw_log := aw_log w @ [ai_log_row_of s]\<rparr>))"

definition mark_fired :: "dispatch_env \<Rightarrow> nat option \<Rightarrow> int option \<Rightarrow> string option \<Rightarrow> ai_world \<Rightarrow> ai_world" where
  "mark_fired D log_id status order_id w =
     (case log_id of
        None \<Rightarrow> w
      | Some i \<Rightarrow>
          if \<not> de_update_fails D \<and> i < length (aw_log w)
          then w\<lparr>aw_log := (aw_log w)[i := (aw_log w ! i)\<lparr>al_fired := True, al_status := status, al_order_id := order_id\<rparr>]\<rparr>
          else w)"

definition send_request :: "dispatch_env \<Rightarrow> listener_request \<Rightarrow> ai_world \<Rightarrow> listener_response option \<times> ai_world" where
  "send_request D rq w = (de_listener D (length (aw_sent w)) rq, w\<lparr>aw_sent := aw_sent w @ [rq]\<rparr>)"

text \<open>A request without an order id in its answer: stops, cancel, amend.\<close>

definition send_managed :: "dispatch_env \<Rightarrow> nat option \<Rightarrow> listener_request \<Rightarrow> ai_state \<Rightarrow> ai_world \<Rightarrow> ai_state \<times> ai_world" where
  "send_managed D log_id rq s w =
     (case send_request D rq w of
        (resp, w1) \<Rightarrow>
          (let status = map_option lr_status resp
           in (s\<lparr>as_log_id := log_id, as_webhook_fired := True, as_webhook_status := status\<rparr>,
               mark_fired D log_id status None w1)))"

definition send_order :: "dispatch_env \<Rightarrow> nat option \<Rightarrow> order_payload \<Rightarrow> ai_state \<Rightarrow> ai_world \<Rightarrow> ai_state \<times> ai_world" where
  "send_order D log_id payload s w =
     (case send_request D (Post_webhook (as_strategy_id s) payload) w of
        (resp, w1) \<Rightarrow>
          (let status = map_option lr_status resp;
               order_id = (case resp of None \<Rightarrow> None | Some r \<Rightarrow> if lr_status r = 200 then lr_order_id r else None)
           in (s\<lparr>as_log_id := log_id, as_webhook_fired := True, as_webhook_status := status, as_order_id := order_id\<rparr>,
               mark_fired D log_id status order_id w1)))"

definition not_fired :: "nat option \<Rightarrow> ai_state \<Rightarrow> ai_state" where
  "not_fired log_id s = s\<lparr>as_log_id := log_id, as_webhook_fired := False\<rparr>"

definition ai_node_dispatch :: "dispatch_env \<Rightarrow> ai_state \<Rightarrow> ai_world \<Rightarrow> ai_state \<times> ai_world" where
  "ai_node_dispatch D s w =
     (let (log_id, w1) = insert_log D s w; sid = as_strategy_id s; sc = as_config s
      in case (as_gate_passed s, as_llm_signal s) of
           (True, Some (Model_signal sig)) \<Rightarrow>
             if so_action sig = Adjust_stops
             then send_managed D log_id (Post_adjust_stops sid (ac_dry_run sc) (as_sl_price s) (as_tp_price s)) s w1
             else if ac_dry_run sc then (not_fired log_id s, w1)
             else if so_action sig = Cancel_order
             then send_managed D log_id (Post_cancel sid (as_target_order s)) s w1
             else if so_action sig = Amend_order
             then send_managed D log_id
                    (Post_amend sid (as_target_order s) (as_limit_price s) (as_sl_price s) (as_tp_price s)) s w1
             else (case build_payload s sig of
                     None \<Rightarrow> (not_fired log_id s, w1)
                   | Some payload \<Rightarrow> send_order D log_id payload s w1)
         | _ \<Rightarrow> (not_fired log_id s, w1))"

text \<open>
  One cycle of the AI signal generator: \<open>nodes/node_ingest.py\<close>, the graph of
  \<open>graph/graph.py\<close>, and the per-strategy slot of \<open>cycle_lock.py\<close> under which the
  scheduler, the event watcher and the manual trigger run it.
\<close>

section \<open>Ingest\<close>

text \<open>
  What the fetchers and the local computations deliver, by the name the error list uses;
  \<open>None\<close> is an exception. The resting orders come from the listener.
\<close>

record fetchers =
  ft_source :: "string \<Rightarrow> datum option"
  ft_open_orders :: "resting_order list option"

definition fetched :: "fetchers \<Rightarrow> bool \<Rightarrow> string \<Rightarrow> datum" where
  "fetched F wanted source =
     (if wanted then (case ft_source F source of None \<Rightarrow> D_null | Some v \<Rightarrow> v) else D_null)"

definition need_ohlcv :: "ai_config \<Rightarrow> bool" where
  "need_ohlcv sc \<longleftrightarrow>
     ac_use sc ''use_technical'' \<or> ac_use sc ''use_geometry'' \<or> ac_use sc ''use_volume_profile'' \<or>
     ac_use sc ''use_momentum_divergence'' \<or> ac_use sc ''use_volatility_regime''"

definition need_open_orders :: "ai_config \<Rightarrow> bool" where
  "need_open_orders sc \<longleftrightarrow> ac_use sc ''use_geometry'' \<or> ac_use sc ''use_limit_orders''"

text \<open>The computations on closed candles run only when the fetch delivered some.\<close>

definition computed :: "fetchers \<Rightarrow> ai_config \<Rightarrow> string \<Rightarrow> string \<Rightarrow> datum" where
  "computed F sc flag source =
     fetched F (need_ohlcv sc \<and> ac_use sc flag \<and>
       d_truthy (d_field ''closed_candles'' (fetched F (need_ohlcv sc) ''ohlcv''))) source"

definition or_none :: "datum \<Rightarrow> datum" where
  "or_none v = (if d_truthy v then v else D_null)"

definition ingest_data :: "fetchers \<Rightarrow> ai_config \<Rightarrow> (string, datum) tbl" where
  "ingest_data F sc =
     [(''ohlcv_data'', fetched F (need_ohlcv sc) ''ohlcv''),
      (''technical_indicators'', computed F sc ''use_technical'' ''indicators''),
      (''geometry_data'', or_none (computed F sc ''use_geometry'' ''geometry'')),
      (''volume_profile'', computed F sc ''use_volume_profile'' ''volume_profile''),
      (''momentum_divergence'', computed F sc ''use_momentum_divergence'' ''momentum_divergence''),
      (''volatility_regime'', computed F sc ''use_volatility_regime'' ''volatility_regime''),
      (''mtf_structure'', fetched F (ac_use sc ''use_mtf_structure'') ''mtf_structure''),
      (''sentiment_data'', D_obj
         [(''fear_greed'', fetched F (ac_use sc ''use_fear_greed'') ''fear_greed''),
          (''funding_rate'', fetched F (ac_use sc ''use_funding_rate'') ''funding_rate''),
          (''open_interest'', fetched F (ac_use sc ''use_open_interest'') ''open_interest''),
          (''funding_history'', fetched F (ac_use sc ''use_funding_history'') ''funding_history'')]),
      (''news_data'', fetched F (ac_use sc ''use_news'') ''news''),
      (''calendar_data'', fetched F (ac_use sc ''use_economic_calendar'') ''economic_calendar''),
      (''market_context'', D_obj
         [(''btc_dominance'', fetched F (ac_use sc ''use_btc_dominance'') ''btc_dominance''),
          (''macro'', fetched F (ac_use sc ''use_macro'') ''macro'')]),
      (''orderbook_data'', fetched F (ac_use sc ''use_orderbook'') ''orderbook''),
      (''cvd_data'', fetched F (ac_use sc ''use_cvd'') ''cvd''),
      (''liquidation_data'', fetched F (ac_use sc ''use_liquidations'') ''liquidations'')]"

text \<open>The move in the position's favour in percent; unknown inputs leave it as it was.\<close>

definition unrealized_pnl_pct :: "ai_state \<Rightarrow> datum \<Rightarrow> rat option" where
  "unrealized_pnl_pct s ohlcv =
     (if \<not> as_position_open s then as_unrealized_pct s
      else case (as_entry_price s, d_field ''current_price'' ohlcv) of
             (Some entry, D_num price) \<Rightarrow>
               (if 0 < entry
                then (let move = (price - entry) / entry * 100
                      in Some (py_round (if as_position_side s = Some ''short'' then - move else move) 3))
                else as_unrealized_pct s)
           | _ \<Rightarrow> as_unrealized_pct s)"

definition ai_node_ingest :: "fetchers \<Rightarrow> ai_state \<Rightarrow> ai_state" where
  "ai_node_ingest F s =
     (let sc = as_config s; t = ingest_data F sc
      in s\<lparr>as_data := (\<lambda>k. case map_of t k of None \<Rightarrow> D_null | Some v \<Rightarrow> v),
           as_unrealized_pct := unrealized_pnl_pct s (fetched F (need_ohlcv sc) ''ohlcv''),
           as_open_orders :=
             (if need_open_orders sc then (case ft_open_orders F of None \<Rightarrow> [] | Some orders \<Rightarrow> orders) else [])\<rparr>)"

section \<open>The graph\<close>

text \<open>
  \<open>now\<close> is the time of the guard's query. The language model's process (its key pool and
  calls) outlives the cycle.
\<close>

record cycle_env =
  ce_fetchers :: fetchers
  ce_analyze :: analyze_env
  ce_query_fails :: bool
  ce_now :: datetime
  ce_dispatch :: dispatch_env

definition decide_cycle :: "cycle_env \<Rightarrow> ai_log_row list \<Rightarrow> ai_state \<Rightarrow> llm_proc \<Rightarrow> ai_state \<times> llm_proc" where
  "decide_cycle C logged s st =
     (let s1 = ai_node_ingest (ce_fetchers C) s
      in if should_skip_llm_no_range s1 then (node_skip_geometry s1, st)
         else (case ai_node_analyze (ce_analyze C) logged s1 st of
                 (s2, st') \<Rightarrow> (ai_node_guard (ce_query_fails C) logged (ce_now C) s2, st')))"

definition run_cycle :: "cycle_env \<Rightarrow> ai_state \<Rightarrow> llm_proc \<Rightarrow> ai_world \<Rightarrow> ai_state \<times> llm_proc \<times> ai_world" where
  "run_cycle C s st w =
     (case decide_cycle C (aw_log w) s st of
        (s1, st') \<Rightarrow> (case ai_node_dispatch (ce_dispatch C) s1 w of (s2, w') \<Rightarrow> (s2, st', w')))"

end
