(* ===== verification/AiScheduler.thy ===== *)
theory AiScheduler
  imports AiCycle
begin

text \<open>
  \<open>ai-signal-generator/app/scheduling.py\<close> and \<open>app/scheduler.py\<close>: when a strategy's
  next cycle starts, the state it starts from, and the recovery of a position that was
  closed on the exchange.
\<close>

section \<open>Candle-aligned waking\<close>

definition unit_seconds :: "char \<Rightarrow> int option" where
  "unit_seconds u = map_of [(CHR ''m'', 60), (CHR ''h'', 3600), (CHR ''d'', 86400)] u"

text \<open>\<open>int(s)\<close> on a string of decimal digits; anything else raises.\<close>

definition digit_value :: "char \<Rightarrow> int option" where
  "digit_value c = (let n = of_char c :: int in if 48 \<le> n \<and> n \<le> 57 then Some (n - 48) else None)"

fun read_digits :: "int \<Rightarrow> string \<Rightarrow> int option" where
  "read_digits acc [] = Some acc"
| "read_digits acc (c # cs) =
     (case digit_value c of None \<Rightarrow> None | Some d \<Rightarrow> read_digits (10 * acc + d) cs)"

definition parse_interval_seconds :: "string \<Rightarrow> int result" where
  "parse_interval_seconds s =
     (if s = [] \<or> butlast s = [] then Inl ValueError
      else case read_digits 0 (butlast s) of
             None \<Rightarrow> Inl ValueError
           | Some n \<Rightarrow> (case unit_seconds (List.last s) of None \<Rightarrow> Inl ValueError | Some m \<Rightarrow> Inr (n * m)))"

definition MIN_SLEEP :: rat where "MIN_SLEEP = 5"

definition aligned_wake :: "int \<Rightarrow> rat \<Rightarrow> int \<Rightarrow> rat" where
  "aligned_wake tf_sec now buffer =
     (let last_boundary = of_int (\<lfloor>now / of_int tf_sec\<rfloor> * tf_sec);
          wake_at = last_boundary + of_int buffer
      in if wake_at < now then wake_at + of_int tf_sec else wake_at)"

definition seconds_until_aligned_wake :: "string \<Rightarrow> rat \<Rightarrow> int \<Rightarrow> rat result" where
  "seconds_until_aligned_wake timeframe now buffer =
     (case parse_interval_seconds timeframe of
        Inl e \<Rightarrow> Inl e
      | Inr tf_sec \<Rightarrow>
          if tf_sec = 0 then Inl ZeroDivisionError
          else Inr (max MIN_SLEEP (aligned_wake tf_sec now buffer - now)))"

section \<open>The scheduler\<close>

text \<open>A row of \<open>strategy_positions\<close> and of \<open>orders\<close>, as far as the recovery writes them.\<close>

record scheduler_position =
  pr_id :: nat
  pr_strategy :: string
  pr_side :: string
  pr_size :: "rat option"
  pr_entry_price :: "rat option"
  pr_opened_at :: "datetime option"
  pr_pnl_unrealized_pct :: "rat option"
  pr_open :: bool
  pr_close_reason :: "string option"
  pr_closing_price :: "rat option"
  pr_pnl_realized :: "rat option"
  pr_closed_at :: "datetime option"
  pr_closing_order :: "nat option"

record synthetic_order =
  sy_symbol :: string
  sy_side :: string
  sy_signal :: string
  sy_size :: "rat option"
  sy_fill_price :: "rat option"
  sy_pnl :: "rat option"
  sy_received_at :: datetime

record scheduler_db =
  sd_positions :: "scheduler_position list"
  sd_orders :: "synthetic_order list"

text \<open>\<open>_get_interval\<close> and \<open>_get_interval_label\<close>.\<close>

definition db_open_position :: "string \<Rightarrow> scheduler_db \<Rightarrow> scheduler_position option" where
  "db_open_position strategy db =
     (let rows = filter (\<lambda>r. pr_strategy r = strategy \<and> pr_open r) (sd_positions db)
      in if rows = [] then None
         else Some (List.last (sort_key (\<lambda>r. case pr_opened_at r of None \<Rightarrow> 0 | Some t \<Rightarrow> t) rows)))"

definition interval_label :: "ai_config \<Rightarrow> scheduler_position option \<Rightarrow> string" where
  "interval_label sc pos = (if pos = None then ac_interval_no_position sc else ac_interval_position_open sc)"

definition wake_label :: "ai_config \<Rightarrow> scheduler_position option \<Rightarrow> string" where
  "wake_label sc pos =
     (case pos of
        None \<Rightarrow> ac_interval_no_position sc
      | Some p \<Rightarrow>
          if ac_at_risk_threshold_pct sc \<le> \<bar>or_zero (pr_pnl_unrealized_pct p)\<bar>
          then ac_interval_at_risk sc else ac_interval_position_open sc)"

definition get_interval :: "ai_config option \<Rightarrow> string \<Rightarrow> rat \<Rightarrow> scheduler_db \<Rightarrow> rat result" where
  "get_interval config strategy now db =
     (case config of
        None \<Rightarrow> Inr (4 * 60 * 60)
      | Some sc \<Rightarrow> seconds_until_aligned_wake (wake_label sc (db_open_position strategy db)) now (ac_candle_close_buffer sc))"

section \<open>Recovering an external close\<close>

text \<open>
  The executor's answers are JSON: a time in them is text. The parameters are whether the
  live positions could be read and which symbols they name, the history, and
  \<open>datetime.fromisoformat\<close>.
\<close>

record close_details =
  cd_reason :: "string option"
  cd_closing_price :: "rat option"
  cd_pnl_realized :: "rat option"
  cd_closed_at :: "string option"

record executor_env =
  ex_live_symbols :: "string list option"
  ex_history :: "close_details option"
  ex_fromisoformat :: "string \<Rightarrow> datetime option"

text \<open>
  What asyncpg binds to a \<open>timestamptz\<close> parameter: None as NULL and a datetime; a string is
  refused with a data error. The column \<open>orders.received_at\<close> is NOT NULL.
\<close>

datatype bound_time = Bound_none | Bound_text string | Bound_datetime datetime

fun not_null_time :: "bound_time \<Rightarrow> datetime result" where
  "not_null_time Bound_none = Inl NotNullViolation"
| "not_null_time (Bound_text s) = Inl ValueError"
| "not_null_time (Bound_datetime t) = Inr t"

fun nullable_time :: "bound_time \<Rightarrow> datetime option result" where
  "nullable_time Bound_none = Inr None"
| "nullable_time (Bound_text s) = Inl ValueError"
| "nullable_time (Bound_datetime t) = Inr (Some t)"

definition bind_time :: "string option \<Rightarrow> bound_time" where
  "bind_time t = (case t of None \<Rightarrow> Bound_none | Some s \<Rightarrow> Bound_text s)"

definition insert_synthetic ::
    "string \<Rightarrow> scheduler_position \<Rightarrow> string \<Rightarrow> rat option \<Rightarrow> rat option \<Rightarrow> bound_time \<Rightarrow> scheduler_db \<Rightarrow>
     (nat \<times> scheduler_db) result" where
  "insert_synthetic symbol pos signal price pnl received_at db =
     (case not_null_time received_at of
        Inl e \<Rightarrow> Inl e
      | Inr t \<Rightarrow>
          Inr (length (sd_orders db),
               db\<lparr>sd_orders := sd_orders db @
                 [\<lparr>sy_symbol = symbol, sy_side = (if pr_side pos = ''long'' then ''sell'' else ''buy''),
                   sy_signal = signal, sy_size = pr_size pos, sy_fill_price = price, sy_pnl = pnl,
                   sy_received_at = t\<rparr>]\<rparr>))"

definition close_position ::
    "rat \<Rightarrow> scheduler_position \<Rightarrow> string \<Rightarrow> rat option \<Rightarrow> rat option \<Rightarrow> bound_time \<Rightarrow> nat \<Rightarrow> scheduler_db \<Rightarrow>
     scheduler_db result" where
  "close_position now pos reason price pnl closed_at order_id db =
     (case nullable_time closed_at of
        Inl e \<Rightarrow> Inl e
      | Inr t \<Rightarrow>
          Inr (db\<lparr>sd_positions := update_where (\<lambda>r. pr_id r = pr_id pos \<and> pr_open r)
                 (\<lambda>r. r\<lparr>pr_open := False, pr_close_reason := Some reason, pr_closing_price := price,
                        pr_pnl_realized := pnl, pr_closed_at := Some (case t of None \<Rightarrow> now | Some x \<Rightarrow> x),
                        pr_closing_order := Some order_id\<rparr>) (sd_positions db)\<rparr>))"

text \<open>The transaction: both writes or none.\<close>

definition write_recovery ::
    "rat \<Rightarrow> string \<Rightarrow> scheduler_position \<Rightarrow> string \<Rightarrow> rat option \<Rightarrow> rat option \<Rightarrow> string option \<Rightarrow> scheduler_db \<Rightarrow>
     scheduler_db result" where
  "write_recovery now symbol pos reason price pnl closed_at db =
     (case insert_synthetic symbol pos (if reason = ''Liquidated'' then ''liquidation'' else ''exchange_close'')
             price pnl (bind_time closed_at) db of
        Inl e \<Rightarrow> Inl e
      | Inr (order_id, db1) \<Rightarrow> close_position now pos reason price pnl (bind_time closed_at) order_id db1)"

text \<open>The history's close is older than the position: not this position's.\<close>

definition stale_close :: "executor_env \<Rightarrow> scheduler_position \<Rightarrow> string option \<Rightarrow> bool" where
  "stale_close X pos closed_at =
     (case (closed_at, pr_opened_at pos) of
        (Some s, Some opened_at) \<Rightarrow>
          s \<noteq> [] \<and> (case ex_fromisoformat X s of None \<Rightarrow> False | Some t \<Rightarrow> t \<le> opened_at)
      | _ \<Rightarrow> False)"

definition recover_external_close ::
    "executor_env \<Rightarrow> rat \<Rightarrow> string \<Rightarrow> scheduler_position \<Rightarrow> scheduler_db \<Rightarrow> scheduler_position option \<times> scheduler_db" where
  "recover_external_close X now symbol pos db =
     (case ex_live_symbols X of
        None \<Rightarrow> (Some pos, db)
      | Some symbols \<Rightarrow>
          if symbol \<in> set symbols then (Some pos, db)
          else
            (let d = ex_history X;
                 reason = (case d of None \<Rightarrow> ''Closed on exchange''
                           | Some c \<Rightarrow> (case cd_reason c of None \<Rightarrow> ''Closed on exchange'' | Some r \<Rightarrow> r));
                 price = Option.bind d cd_closing_price; pnl = Option.bind d cd_pnl_realized;
                 closed_at = Option.bind d cd_closed_at
             in if stale_close X pos closed_at then (Some pos, db)
                else case write_recovery now symbol pos reason price pnl closed_at db of
                       Inl e \<Rightarrow> (None, db)
                     | Inr db' \<Rightarrow> (None, db')))"

section \<open>The initial state\<close>

text \<open>\<open>symbol.split(sep, 1)\<close> on the first separator that occurs, \<open>-\<close> before \<open>/\<close>.\<close>

fun split_once :: "char \<Rightarrow> string \<Rightarrow> (string \<times> string) option" where
  "split_once sep [] = None"
| "split_once sep (c # cs) =
     (if c = sep then Some ([], cs) else map_option (\<lambda>(a, b). (c # a, b)) (split_once sep cs))"

definition split_symbol :: "string \<Rightarrow> string \<times> string" where
  "split_symbol symbol =
     (case split_once (CHR ''-'') symbol of
        Some p \<Rightarrow> p
      | None \<Rightarrow> (case split_once (CHR ''/'') symbol of Some p \<Rightarrow> p | None \<Rightarrow> (symbol, ''USDT'')))"

record ai_strategy_row =
  sr_config :: ai_config
  sr_account_id :: string
  sr_symbol :: string

text \<open>
  \<open>_build_initial_state\<close>: the strategy's row if it is enabled and whether its account names
  an exchange; either missing raises.
\<close>

definition build_initial_state ::
    "executor_env \<Rightarrow> string \<Rightarrow> string \<Rightarrow> rat \<Rightarrow> ai_strategy_row option \<Rightarrow> string option \<Rightarrow> scheduler_db \<Rightarrow>
     ai_state result \<times> scheduler_db" where
  "build_initial_state X strategy trigger now row exchange db =
     (case (row, exchange) of
        (Some r, Some ex) \<Rightarrow>
          (if ex = [] then (Inl ValueError, db)
           else
             (let (pos, db') =
                    (case db_open_position strategy db of
                       None \<Rightarrow> (None, db)
                     | Some p \<Rightarrow>
                         if sr_account_id r = [] \<or> sr_symbol r = [] then (Some p, db)
                         else recover_external_close X now (sr_symbol r) p db);
                  (base, quote) = split_symbol (sr_symbol r);
                  sc = (sr_config r)\<lparr>ac_base_asset := base, ac_quote_asset := quote\<rparr>
              in (Inr
                   \<lparr>as_strategy_id = strategy, as_config = sc, as_trigger_reason = trigger,
                    as_cycle_interval = interval_label sc pos, as_triggered_at = now,
                    as_position_open = (pos \<noteq> None), as_position_side = map_option pr_side pos,
                    as_entry_price = Option.bind pos (\<lambda>p. if pr_entry_price p = Some 0 then None else pr_entry_price p),
                    as_position_size = Option.bind pos (\<lambda>p. if pr_size p = Some 0 then None else pr_size p),
                    as_unrealized_pct = None, as_data = (\<lambda>_. D_null), as_open_orders = [],
                    as_llm_signal = None, as_llm_error = None, as_context_tokens = None, as_llm_usage = None,
                    as_llm_tier = None, as_served_by = None, as_scout_usage = None, as_fallback_attempts = [],
                    as_gate_passed = False, as_rejection = None, as_size = None, as_sl_price = None,
                    as_tp_price = None, as_sl_pct = None, as_tp_pct = None, as_limit_price = None,
                    as_target_order = None, as_sizing = None, as_webhook_fired = False,
                    as_webhook_status = None, as_order_id = None, as_log_id = None\<rparr>, db')))
      | _ \<Rightarrow> (Inl ValueError, db))"

section \<open>Properties\<close>

lemma floor_mult_bounds:
  assumes "0 < tf"
  shows "of_int (\<lfloor>now / of_int tf\<rfloor> * tf) \<le> (now::rat)" "now < of_int (\<lfloor>now / of_int tf\<rfloor> * tf) + of_int tf"
proof -
  have tf: "0 < (of_int tf :: rat)" using assms by simp
  have lo: "of_int \<lfloor>now / of_int tf\<rfloor> \<le> now / of_int tf" and hi: "now / of_int tf < of_int \<lfloor>now / of_int tf\<rfloor> + 1"
    by linarith+
  show "of_int (\<lfloor>now / of_int tf\<rfloor> * tf) \<le> now"
    using mult_right_mono [OF lo, of "of_int tf"] tf by simp
  show "now < of_int (\<lfloor>now / of_int tf\<rfloor> * tf) + of_int tf" using hi tf by (simp add: field_simps)
qed

text \<open>
  The next wake of a timeframe of positive length, with a buffer shorter than it: the
  scheduler sleeps at least five seconds, and unless those five seconds decide, it wakes
  exactly a buffer after a candle boundary, the first such time that is not in the past, at
  most one candle away. So once a buffer point has passed, however little, it sleeps to the
  next one.
\<close>

theorem aligned_wake_next:
  assumes "parse_interval_seconds timeframe = Inr tf" and "0 < tf" and "0 \<le> buffer" and "buffer < tf"
  shows "\<exists>sleep k. seconds_until_aligned_wake timeframe now buffer = Inr sleep \<and> 5 \<le> sleep \<and>
    (let point = of_int (k * tf + buffer) in
       now \<le> point \<and> point - of_int tf < now \<and> sleep = max 5 (point - now) \<and> sleep \<le> max 5 (of_int tf))"
proof -
  let ?b = "\<lfloor>now / of_int tf\<rfloor>"
  let ?k = "if of_int (?b * tf + buffer) < now then ?b + 1 else ?b"
  have buf: "0 \<le> (of_int buffer :: rat)" "of_int buffer < (of_int tf :: rat)" using assms(3,4) by simp_all
  have wake: "aligned_wake tf now buffer = of_int (?k * tf + buffer)"
    by (simp add: aligned_wake_def Let_def algebra_simps)
  have s: "seconds_until_aligned_wake timeframe now buffer = Inr (max 5 (of_int (?k * tf + buffer) - now))"
    using assms(1,2) by (simp add: seconds_until_aligned_wake_def MIN_SLEEP_def wake)
  have lo: "now \<le> of_int (?k * tf + buffer)"
    using floor_mult_bounds(2) [OF assms(2), of now] buf by (auto simp: algebra_simps)
  have hi: "of_int (?k * tf + buffer) - of_int tf < now"
    using floor_mult_bounds(1) [OF assms(2), of now] buf by (auto simp: algebra_simps)
  show ?thesis
    by (intro exI [of _ "max 5 (of_int (?k * tf + buffer) - now)"] exI [of _ ?k])
      (use s lo hi in \<open>auto simp: Let_def max_def\<close>)
qed

lemma aligned_wake_next_witness:
  "seconds_until_aligned_wake ''4h'' 10 10 = Inr 5 \<and> seconds_until_aligned_wake ''4h'' (10 + 1/1000) 10 = Inr (14400 - 1/1000) \<and>
   (\<exists>sleep. seconds_until_aligned_wake ''4h'' (10 + 1/1000) 10 = Inr sleep \<and> sleep \<le> 14400)"
proof -
  have p: "parse_interval_seconds ''4h'' = Inr 14400" by code_simp
  from aligned_wake_next [OF p, of 10 "10 + 1/1000"]
  have "\<exists>sleep. seconds_until_aligned_wake ''4h'' (10 + 1/1000) 10 = Inr sleep \<and> sleep \<le> 14400"
    by (auto simp: Let_def)
  moreover have "seconds_until_aligned_wake ''4h'' 10 10 = Inr 5"
    "seconds_until_aligned_wake ''4h'' (10 + 1/1000) 10 = Inr (14400 - 1/1000)"
    by code_simp+
  ultimately show ?thesis by blast
qed

text \<open>
  A close that happened on the exchange is never recorded by the scheduler. Where the
  position is no longer live and the history is not older than it, the cycle goes on as
  flat, but neither the closing order nor the close of the position is stored: the close
  time comes out of JSON, so the transaction binds text to a timestamp, or NULL to a column
  that is not null, and rolls back.
\<close>

theorem external_close_not_recorded:
  assumes "ex_live_symbols X = Some symbols" and "symbol \<notin> set symbols"
    and "\<not> stale_close X pos (Option.bind (ex_history X) cd_closed_at)"
  shows "recover_external_close X now symbol pos db = (None, db)"
proof -
  have failed: "\<exists>e. write_recovery now symbol pos reason price pnl closed_at db = Inl e" for reason price pnl closed_at
    by (cases closed_at) (simp_all add: write_recovery_def insert_synthetic_def bind_time_def)
  show ?thesis
    using assms failed
    by (simp add: recover_external_close_def Let_def split: sum.split) (metis Inr_not_Inl)
qed

definition demo_ai_position :: scheduler_position where
  "demo_ai_position =
     \<lparr>pr_id = 7, pr_strategy = ''btc-ai'', pr_side = ''long'', pr_size = Some 1, pr_entry_price = Some 100,
      pr_opened_at = Some 1000, pr_pnl_unrealized_pct = None, pr_open = True, pr_close_reason = None,
      pr_closing_price = None, pr_pnl_realized = None, pr_closed_at = None, pr_closing_order = None\<rparr>"

lemma external_close_not_recorded_witness:
  "let X = \<lparr>ex_live_symbols = Some [],
            ex_history = Some \<lparr>cd_reason = Some ''Liquidated'', cd_closing_price = Some 90,
              cd_pnl_realized = Some (-10), cd_closed_at = Some ''2026-08-01T00:00:00Z''\<rparr>,
            ex_fromisoformat = (\<lambda>_. Some 2000)\<rparr>;
       db = \<lparr>sd_positions = [demo_ai_position], sd_orders = []\<rparr>
   in recover_external_close X 3000 ''BTC-USDT'' demo_ai_position db = (None, db)"
  unfolding Let_def
  by (rule external_close_not_recorded [where symbols = "[]"]) (simp_all add: stale_close_def demo_ai_position_def)

end
