(* ===== verification/AiSafety.thy ===== *)
theory AiSafety
  imports AiCycle
begin

text \<open>
  What holds of a cycle of the AI signal generator: when the model is skipped, which signal
  can be executed, what the guard lets through and with what size and levels, what is sent
  and logged.
\<close>

section \<open>The guard\<close>

text \<open>The guard writes its verdict and leaves what it judges alone.\<close>

definition same_inputs :: "ai_state \<Rightarrow> ai_state \<Rightarrow> bool" where
  "same_inputs s t \<longleftrightarrow>
     as_config t = as_config s \<and> as_strategy_id t = as_strategy_id s \<and> as_triggered_at t = as_triggered_at s \<and>
     as_llm_signal t = as_llm_signal s \<and> as_data t = as_data s \<and> as_position_side t = as_position_side s"

lemma inputs_reject: "same_inputs s (guard_reject reason s)"
  by (simp add: same_inputs_def guard_reject_def)

lemma inputs_if: "same_inputs s a \<Longrightarrow> same_inputs s b \<Longrightarrow> same_inputs s (if c then a else b)"
  by simp

lemma inputs_option:
  "same_inputs s a \<Longrightarrow> (\<And>v. same_inputs s (f v)) \<Longrightarrow> same_inputs s (case x of None \<Rightarrow> a | Some v \<Rightarrow> f v)"
  by (cases x) auto

lemma inputs_prod: "(\<And>u v. same_inputs s (f u v)) \<Longrightarrow> same_inputs s (case x of (u, v) \<Rightarrow> f u v)"
  by (cases x) auto

lemmas inputs_intros = inputs_reject inputs_if inputs_option inputs_prod

lemma guard_parts_inputs:
  "same_inputs s (guard_adjust_stops sig s)" "same_inputs s (guard_place_limit sig s)"
  "same_inputs s (guard_manage_order sig s)" "same_inputs s (guard_open sig s)"
  "same_inputs s (guard_partial_close sig s)" "same_inputs s (guard_close s)"
  unfolding guard_adjust_stops_def guard_place_limit_def guard_manage_order_def guard_open_def
    guard_partial_close_def guard_close_def Let_def
  by ((intro inputs_intros)?; simp add: same_inputs_def)+

lemma guard_branch_inputs: "same_inputs s (guard_branch sig s)"
  by (cases "so_action sig") (simp_all add: guard_branch_def guard_parts_inputs)

lemma ai_node_guard_inputs: "same_inputs s (ai_node_guard qf logged now s)"
proof (cases "as_llm_signal s")
  case None
  then show ?thesis by (simp add: ai_node_guard_def inputs_reject)
next
  case (Some d)
  show ?thesis
  proof (cases d)
    case (Auto_hold r)
    with Some show ?thesis by (simp add: ai_node_guard_def inputs_reject)
  next
    case (Model_signal sig)
    show ?thesis
      unfolding ai_node_guard_def Some Model_signal option.case ai_decided.case Let_def
      by (intro inputs_if inputs_reject guard_branch_inputs)
  qed
qed

lemma gate_if: "as_gate_passed (if c then guard_reject r s else x) \<longleftrightarrow> \<not> c \<and> as_gate_passed x"
  by (simp add: guard_reject_def)

lemma passed_if: "as_gate_passed (if c then guard_reject r s else x) \<Longrightarrow> (if c then guard_reject r s else x) = x"
  by (simp add: guard_reject_def split: if_splits)

lemma reject_not_passed [simp]: "\<not> as_gate_passed (guard_reject r s)"
  by (simp add: guard_reject_def)

text \<open>What passed the guard passed every rule before the branch of its action.\<close>

lemma guard_passed:
  assumes "as_gate_passed (ai_node_guard qf logged now s)"
  obtains sig where "as_llm_signal s = Some (Model_signal sig)" "so_action sig \<noteq> Hold_action"
    "\<not> (so_action sig \<notin> {Cancel_order, Amend_order} \<and>
        so_confidence sig < or_else (ac_confidence_threshold (as_config s)) (72/100))"
    "\<not> (so_action sig \<in> set entry_actions \<and> as_position_open s)"
    "\<not> (so_action sig \<in> {Close_long_action, Close_short_action, Partial_close} \<and> \<not> as_position_open s)"
    "\<not> (\<not> qf \<and> cooldown_active logged now s (so_action sig))"
    "\<not> (so_action sig \<in> {Close_long_action, Close_short_action} \<and> close_below_min_move sig s)"
    "ai_node_guard qf logged now s = guard_branch sig s" "as_gate_passed (guard_branch sig s)"
proof -
  from assms obtain sig where sig: "as_llm_signal s = Some (Model_signal sig)"
    by (cases "as_llm_signal s"; cases "the (as_llm_signal s)") (simp_all add: ai_node_guard_def)
  note all = assms [unfolded ai_node_guard_def sig option.case ai_decided.case Let_def gate_if]
  have "ai_node_guard qf logged now s = guard_branch sig s"
    using all unfolding ai_node_guard_def sig option.case ai_decided.case Let_def
    by (elim conjE) (simp only: if_False)
  with all sig show thesis by (intro that [of sig]) (elim conjE; assumption)+
qed

text \<open>An accepted entry is in the log of its group; the group of an entry is all four entries.\<close>

definition accepted_entry :: "string \<Rightarrow> ai_log_row \<Rightarrow> bool" where
  "accepted_entry strategy r \<longleftrightarrow>
     al_strategy r = strategy \<and> al_gate_passed r \<and> (\<exists>a\<in>set entry_actions. al_action r = Some a)"

lemma cooldown_entry:
  assumes "action \<in> set entry_actions"
  shows "cooldown_active logged now s action \<longleftrightarrow>
    (\<exists>r\<in>set logged. accepted_entry (as_strategy_id s) r \<and>
       now - of_int (cooldown_minutes (as_config s) Cooldown_entry) * 60 \<le> al_triggered_at r)"
proof -
  have "guard_cooldown action = Some Cooldown_entry" and "cooldown_group action = entry_actions"
    using assms by (auto simp: entry_actions_def cooldown_group_def)
  then show ?thesis by (simp add: cooldown_active_def list_ex_iff accepted_entry_def conj_assoc)
qed

lemma entry_notional_capped: "entry_notional sc sl_pct \<le> margin_cap sc * of_int (ai_leverage sc)"
  by (simp add: entry_notional_def Let_def)

lemma entry_notional_risk:
  assumes "risk_mode sc" and "0 < sl_pct"
  shows "entry_notional sc sl_pct * (sl_pct / 100) \<le> or_else (ac_risk_per_trade sc) 0"
proof -
  have "entry_notional sc sl_pct \<le> or_else (ac_risk_per_trade sc) 0 / (sl_pct / 100)"
    using assms(1) by (simp add: entry_notional_def Let_def)
  then have "entry_notional sc sl_pct * (sl_pct / 100) \<le>
      or_else (ac_risk_per_trade sc) 0 / (sl_pct / 100) * (sl_pct / 100)"
    using assms(2) by (intro mult_right_mono) auto
  with assms(2) show ?thesis by simp
qed

text \<open>The price a size is computed at: the market's for a market entry, its own for a limit.\<close>

definition entry_price :: "signal_output \<Rightarrow> ai_state \<Rightarrow> rat" where
  "entry_price sig s =
     (if so_action sig \<in> {Open_long_action, Open_short_action} then current_price s
      else case so_limit_price sig of None \<Rightarrow> 0 | Some p \<Rightarrow> p)"

lemma guard_open_passed:
  assumes "as_gate_passed (guard_open sig s)"
  shows "0 < current_price s \<and> pct_in_range \<bar>so_stop_loss_pct sig\<bar> \<and> pct_in_range \<bar>so_take_profit_pct sig\<bar> \<and>
    as_size (guard_open sig s) =
      Some (py_round (entry_notional (as_config s) \<bar>so_stop_loss_pct sig\<bar> / current_price s) 4)"
  using assms unfolding guard_open_def Let_def gate_if
  by (simp only: not_le de_Morgan_disj not_not if_False) (simp add: resolve_entry_sizing_def Let_def)

lemma guard_place_limit_passed:
  assumes "as_gate_passed (guard_place_limit sig s)"
  shows "\<exists>limit. so_limit_price sig = Some limit \<and> 0 < limit \<and>
    pct_in_range \<bar>so_stop_loss_pct sig\<bar> \<and> pct_in_range \<bar>so_take_profit_pct sig\<bar> \<and>
    as_size (guard_place_limit sig s) =
      Some (py_round (entry_notional (as_config s) \<bar>so_stop_loss_pct sig\<bar> / limit) 4)"
proof (cases "so_limit_price sig")
  case None
  with assms show ?thesis by (simp add: guard_place_limit_def Let_def)
next
  case (Some limit)
  show ?thesis
    using assms unfolding guard_place_limit_def Let_def Some option.case gate_if
    by (elim conjE) (simp only: if_False, simp add: resolve_entry_sizing_def Let_def not_le)
qed

lemma guard_entry_branch:
  assumes "so_action sig \<in> set entry_actions" and "as_gate_passed (guard_branch sig s)"
  shows "0 < entry_price sig s \<and> pct_in_range \<bar>so_stop_loss_pct sig\<bar> \<and> pct_in_range \<bar>so_take_profit_pct sig\<bar> \<and>
    as_size (guard_branch sig s) =
      Some (py_round (entry_notional (as_config s) \<bar>so_stop_loss_pct sig\<bar> / entry_price sig s) 4)"
proof -
  consider "so_action sig \<in> {Open_long_action, Open_short_action}" "guard_branch sig s = guard_open sig s"
    | "so_action sig \<in> {Place_limit_long, Place_limit_short}" "guard_branch sig s = guard_place_limit sig s"
    using assms(1) by (auto simp: entry_actions_def guard_branch_def)
  then show ?thesis
  proof cases
    case 1
    with assms(2) guard_open_passed [of sig s] show ?thesis by (simp add: entry_price_def)
  next
    case 2
    with assms(2) guard_place_limit_passed [of sig s] show ?thesis by (auto simp: entry_price_def)
  qed
qed

text \<open>
  C8. An entry that passes the guard: there was no open position, the confidence reaches the
  threshold, no accepted entry of any kind is inside the cooldown (unless the query failed),
  stop and target distances are between 0.05 and 50 percent, and the size is what the margin
  or the risk allows at the entry price: never more notional than margin times leverage, and
  in risk mode no more at the stop than the risk per trade, up to the rounding of the size
  to four decimals.
\<close>

theorem guard_entry:
  assumes "as_gate_passed s'" and "s' = ai_node_guard qf logged now s"
    and "as_llm_signal s = Some (Model_signal sig)" and "so_action sig \<in> set entry_actions"
  shows "\<not> as_position_open s \<and>
    or_else (ac_confidence_threshold (as_config s)) (72/100) \<le> so_confidence sig \<and>
    (qf \<or> (\<forall>r\<in>set logged. accepted_entry (as_strategy_id s) r \<longrightarrow>
       al_triggered_at r < now - of_int (cooldown_minutes (as_config s) Cooldown_entry) * 60)) \<and>
    5/100 \<le> \<bar>so_stop_loss_pct sig\<bar> \<and> \<bar>so_stop_loss_pct sig\<bar> \<le> 50 \<and>
    (\<exists>qty. as_size s' = Some qty \<and> 0 < entry_price sig s \<and>
       qty * entry_price sig s \<le> margin_cap (as_config s) * of_int (ai_leverage (as_config s)) + entry_price sig s / 20000 \<and>
       (risk_mode (as_config s) \<longrightarrow>
          (qty * entry_price sig s - entry_price sig s / 20000) * (\<bar>so_stop_loss_pct sig\<bar> / 100)
            \<le> or_else (ac_risk_per_trade (as_config s)) 0))"
proof -
  let ?sl = "\<bar>so_stop_loss_pct sig\<bar>" and ?price = "entry_price sig s"
  let ?notional = "entry_notional (as_config s) ?sl"
  have passed: "as_gate_passed (ai_node_guard qf logged now s)" using assms(1,2) by simp
  from guard_passed [OF passed] obtain sig' where signal: "as_llm_signal s = Some (Model_signal sig')"
    and rules: "\<not> (so_action sig' \<notin> {Cancel_order, Amend_order} \<and>
        so_confidence sig' < or_else (ac_confidence_threshold (as_config s)) (72/100))"
      "\<not> (so_action sig' \<in> set entry_actions \<and> as_position_open s)"
      "\<not> (\<not> qf \<and> cooldown_active logged now s (so_action sig'))"
    and branch: "s' = guard_branch sig' s" "as_gate_passed (guard_branch sig' s)"
    unfolding assms(2) by metis
  from signal assms(3) have [simp]: "sig' = sig" by simp
  from guard_entry_branch [OF assms(4) branch(2) [simplified]] have price: "0 < ?price" and sl: "pct_in_range ?sl"
    and qty: "as_size s' = Some (py_round (?notional / ?price) 4)"
    by (simp_all add: branch(1))
  have "py_round (?notional / ?price) 4 \<le> ?notional / ?price + 1 / 20000"
    using py_round_le [of "?notional / ?price" 4] by simp
  then have "py_round (?notional / ?price) 4 * ?price \<le> (?notional / ?price + 1 / 20000) * ?price"
    using price by (intro mult_right_mono) auto
  also have "\<dots> = ?notional + ?price / 20000" using price by (simp add: field_simps)
  finally have up: "py_round (?notional / ?price) 4 * ?price \<le> ?notional + ?price / 20000" .
  have pos: "0 < ?sl" using sl by (simp only: pct_in_range_def GUARD_MIN_PCT_def) linarith
  have risk: "(py_round (?notional / ?price) 4 * ?price - ?price / 20000) * (?sl / 100)
      \<le> or_else (ac_risk_per_trade (as_config s)) 0" if "risk_mode (as_config s)"
  proof -
    have "(py_round (?notional / ?price) 4 * ?price - ?price / 20000) * (?sl / 100) \<le> ?notional * (?sl / 100)"
      using up pos by (intro mult_right_mono) auto
    with entry_notional_risk [OF that pos] show ?thesis by simp
  qed
  have cap: "py_round (?notional / ?price) 4 * ?price \<le>
      margin_cap (as_config s) * of_int (ai_leverage (as_config s)) + ?price / 20000"
    using up entry_notional_capped [of "as_config s" ?sl] by linarith
  have cool: "qf \<or> (\<forall>r\<in>set logged. accepted_entry (as_strategy_id s) r \<longrightarrow>
       al_triggered_at r < now - of_int (cooldown_minutes (as_config s) Cooldown_entry) * 60)"
    using rules(3) by (auto simp: cooldown_entry [OF assms(4)] not_le [symmetric])
  have conf: "or_else (ac_confidence_threshold (as_config s)) (72/100) \<le> so_confidence sig"
    using rules(1) assms(4) by (auto simp: entry_actions_def)
  show ?thesis
    using rules(2) assms(4) conf cool sl qty price cap risk
    by (simp add: pct_in_range_def GUARD_MIN_PCT_def GUARD_MAX_PCT_def)
qed

lemma guard_adjust_passed:
  assumes "as_gate_passed (guard_adjust_stops sig s)"
  shows "(so_new_tp_price sig \<noteq> None \<or> so_new_sl_price sig \<noteq> None) \<and>
    \<not> (has_side s \<and> 0 < current_price s \<and>
         stops_wrong_side (is_long s) (current_price s) (so_new_sl_price sig) (so_new_tp_price sig)) \<and>
    (\<forall>sl. so_new_sl_price sig = Some sl \<longrightarrow>
       \<not> locks_loss_in_profit s (current_price s) sl \<and> \<not> stop_too_close (as_config s) (current_price s) sl) \<and>
    as_sl_price (guard_adjust_stops sig s) = so_new_sl_price sig \<and>
    as_tp_price (guard_adjust_stops sig s) = so_new_tp_price sig"
proof -
  note all = assms [unfolded guard_adjust_stops_def Let_def gate_if]
  have "guard_adjust_stops sig s =
      s\<lparr>as_gate_passed := True, as_rejection := None, as_size := None,
        as_sl_price := so_new_sl_price sig, as_tp_price := so_new_tp_price sig\<rparr>"
    using all unfolding guard_adjust_stops_def Let_def by (elim conjE) (simp only: if_False)
  with all show ?thesis by auto
qed

text \<open>
  New stops that pass the guard for a position whose side and price are known: on a long
  the stop is below the price and the target above it (mirrored on a short), a position in
  profit gets no stop on the losing side of its entry, and the stop keeps the configured
  distance from the price; these very prices are resolved.
\<close>

theorem guard_stops:
  assumes "as_gate_passed s'" and "s' = ai_node_guard qf logged now s"
    and "as_llm_signal s = Some (Model_signal sig)" and "so_action sig = Adjust_stops"
    and "as_position_side s = Some side" and "side \<in> {''long'', ''short''}" and "0 < current_price s"
  shows "as_sl_price s' = so_new_sl_price sig \<and> as_tp_price s' = so_new_tp_price sig \<and>
    (\<forall>tp. as_tp_price s' = Some tp \<longrightarrow> (if side = ''long'' then current_price s < tp else tp < current_price s)) \<and>
    (\<forall>sl. as_sl_price s' = Some sl \<longrightarrow>
       (if side = ''long'' then sl < current_price s else current_price s < sl) \<and>
       or_else (ac_min_stop_distance_pct (as_config s)) 0 \<le> \<bar>sl - current_price s\<bar> / current_price s * 100 \<and>
       (\<forall>entry. as_entry_price s = Some entry \<and> 0 < entry \<longrightarrow>
          (if side = ''long'' then entry < current_price s \<longrightarrow> entry \<le> sl
           else current_price s < entry \<longrightarrow> sl \<le> entry)))"
proof -
  let ?price = "current_price s"
  have passed: "as_gate_passed (ai_node_guard qf logged now s)" using assms(1,2) by simp
  then obtain sig' where "as_llm_signal s = Some (Model_signal sig')"
    "ai_node_guard qf logged now s = guard_branch sig' s" "as_gate_passed (guard_branch sig' s)"
    by (rule guard_passed) blast
  with assms have s': "s' = guard_adjust_stops sig s" "as_gate_passed (guard_adjust_stops sig s)"
    by (auto simp: guard_branch_def)
  note adj = guard_adjust_passed [OF s'(2)]
  have side: "has_side s" "is_long s \<longleftrightarrow> side = ''long''"
    using assms(5,6) by (auto simp: has_side_def is_long_def)
  have levels: "as_sl_price s' = so_new_sl_price sig" "as_tp_price s' = so_new_tp_price sig"
    and right: "\<not> stops_wrong_side (side = ''long'') ?price (so_new_sl_price sig) (so_new_tp_price sig)"
    using adj side assms(7) by (simp_all add: s'(1))
  have sl: "\<not> locks_loss_in_profit s ?price sl" "\<not> stop_too_close (as_config s) ?price sl"
    if "so_new_sl_price sig = Some sl" for sl
    using adj that by auto
  have dist: "or_else (ac_min_stop_distance_pct (as_config s)) 0 \<le> \<bar>sl - ?price\<bar> / ?price * 100"
    if "so_new_sl_price sig = Some sl" for sl
  proof (cases "0 < or_else (ac_min_stop_distance_pct (as_config s)) 0")
    case True
    with sl(2) [OF that] assms(7) show ?thesis by (simp add: stop_too_close_def not_less)
  next
    case False
    have "0 \<le> \<bar>sl - ?price\<bar> / ?price * 100" using assms(7) by simp
    with False show ?thesis by (meson not_less order_trans)
  qed
  have profit: "if side = ''long'' then entry < ?price \<longrightarrow> entry \<le> sl else ?price < entry \<longrightarrow> sl \<le> entry"
    if "so_new_sl_price sig = Some sl" "as_entry_price s = Some entry" "0 < entry" for sl entry
    using sl(1) [OF that(1)] that(2,3) side assms(7) by (auto simp: locks_loss_in_profit_def not_less)
  show ?thesis
    unfolding levels
  proof (intro conjI allI impI refl)
    fix tp
    assume "so_new_tp_price sig = Some tp"
    with right show "if side = ''long'' then ?price < tp else tp < ?price"
      by (auto simp: stops_wrong_side_def split: if_splits)
  next
    fix sl
    assume sl_price: "so_new_sl_price sig = Some sl"
    with right show "if side = ''long'' then sl < ?price else ?price < sl"
      by (auto simp: stops_wrong_side_def split: if_splits)
    show "or_else (ac_min_stop_distance_pct (as_config s)) 0 \<le> \<bar>sl - ?price\<bar> / ?price * 100"
      by (rule dist [OF sl_price])
    fix entry
    assume "as_entry_price s = Some entry \<and> 0 < entry"
    with profit [OF sl_price] show "if side = ''long'' then entry < ?price \<longrightarrow> entry \<le> sl else ?price < entry \<longrightarrow> sl \<le> entry"
      by blast
  qed
qed

section \<open>Who ai_decided\<close>

lemma state_out_simps [simp]:
  "as_llm_signal (state_out s signal err usage tier served scout attempts tokens) = map_option Model_signal signal"
  "as_llm_tier (state_out s signal err usage tier served scout attempts tokens) = tier"
  "as_served_by (state_out s signal err usage tier served scout attempts tokens) = served"
  "as_config (state_out s signal err usage tier served scout attempts tokens) = as_config s"
  "as_strategy_id (state_out s signal err usage tier served scout attempts tokens) = as_strategy_id s"
  "as_triggered_at (state_out s signal err usage tier served scout attempts tokens) = as_triggered_at s"
  "as_data (state_out s signal err usage tier served scout attempts tokens) = as_data s"
  "as_position_open (state_out s signal err usage tier served scout attempts tokens) = as_position_open s"
  by (simp_all add: state_out_def)

lemma decide_premium_signal:
  assumes "decide_premium A tokens escalated usage s st = (s', st')" and "as_llm_signal s' = Some (Model_signal sig)"
  shows "\<exists>r. premium_result A (ac_llm_provider (as_config s)) (ac_llm_model (as_config s)) (ac_override (as_config s)) st = (r, st') \<and>
    cr_signal r = Some sig"
  using assms
  by (cases "premium_result A (ac_llm_provider (as_config s)) (ac_llm_model (as_config s)) (ac_override (as_config s)) st")
    (auto simp: decide_premium_def Let_def split: option.splits)

text \<open>
  The scout's proposals are never executed: a signal other than hold that leaves the node
  is the answer of the premium chain, asked with the strategy's own model first. Where the
  tier says scout, the signal is a hold.
\<close>

theorem scout_never_decides_trades:
  assumes "ai_node_analyze A logged s st = (s', st')" and "as_llm_signal s' = Some (Model_signal sig)"
  shows "(so_action sig \<noteq> Hold_action \<longrightarrow>
      (\<exists>st1 r. premium_result A (ac_llm_provider (as_config s)) (ac_llm_model (as_config s))
           (ac_override (as_config s)) st1 = (r, st') \<and> cr_signal r = Some sig)) \<and>
    (as_llm_tier s' = Some ''scout'' \<longrightarrow> so_action sig = Hold_action)"
proof -
  have premium: ?thesis if "decide_premium A tokens escalated usage s st1 = (s', st')" for tokens escalated usage st1
  proof -
    have "as_llm_tier s' \<noteq> Some ''scout''"
      using that assms(2)
      by (auto simp: decide_premium_def Let_def case_prod_unfold split: option.splits prod.splits if_splits)
    with decide_premium_signal [OF that assms(2)] show ?thesis by blast
  qed
  show ?thesis
  proof (cases "\<exists>tokens escalated usage st1. decide_premium A tokens escalated usage s st1 = (s', st')")
    case True
    with premium show ?thesis by blast
  next
    case False
    with assms show ?thesis
      by (auto simp: ai_node_analyze_def Let_def split: option.splits if_splits prod.splits)
  qed
qed

section \<open>What is sent and logged\<close>

lemma send_managed_effect:
  assumes "send_managed D log_id rq s w = (s', w')"
  shows "aw_sent w' = aw_sent w @ [rq] \<and> as_webhook_fired s' \<and>
    aw_log w' = aw_log (mark_fired D log_id (as_webhook_status s') None w)"
  using assms by (auto simp: send_managed_def send_request_def Let_def mark_fired_def split: option.splits)

lemma send_order_effect:
  assumes "send_order D log_id payload s w = (s', w')"
  shows "aw_sent w' = aw_sent w @ [Post_webhook (as_strategy_id s) payload] \<and> as_webhook_fired s' \<and>
    aw_log w' = aw_log (mark_fired D log_id (as_webhook_status s') (as_order_id s') w)"
  using assms by (auto simp: send_order_def send_request_def Let_def mark_fired_def split: option.splits)

text \<open>The row of a cycle: the state's row, marked if a request went out.\<close>

definition row_of_cycle :: "ai_state \<Rightarrow> ai_log_row \<Rightarrow> bool" where
  "row_of_cycle s r \<longleftrightarrow>
     (\<exists>fired status order_id. r = (ai_log_row_of s)\<lparr>al_fired := fired, al_status := status, al_order_id := order_id\<rparr>)"

lemma mark_fired_new:
  "aw_log (mark_fired D (Some (length rows)) status order_id (w\<lparr>aw_log := rows @ [r]\<rparr>)) =
     rows @ [if de_update_fails D then r else r\<lparr>al_fired := True, al_status := status, al_order_id := order_id\<rparr>]"
  by (simp add: mark_fired_def)

lemma insert_log_cases:
  assumes "insert_log D s w = (log_id, w1)"
  obtains (failed) "de_insert_fails D" "log_id = None" "w1 = w"
    | (stored) "\<not> de_insert_fails D" "log_id = Some (length (aw_log w))" "w1 = w\<lparr>aw_log := aw_log w @ [ai_log_row_of s]\<rparr>"
  using assms by (cases "de_insert_fails D") (auto simp: insert_log_def intro: that)

text \<open>The outcomes of the node: nothing is sent, or one request is.\<close>

lemma dispatch_cases:
  assumes "ai_node_dispatch D s w = (s', w')" and "insert_log D s w = (log_id, w1)"
  obtains (quiet) "s' = not_fired log_id s" "w' = w1"
    | (managed) rq where "send_managed D log_id rq s w1 = (s', w')" "as_gate_passed s"
        "ac_dry_run (as_config s) \<Longrightarrow> \<exists>sl tp. rq = Post_adjust_stops (as_strategy_id s) True sl tp"
    | (order) payload sig where "send_order D log_id payload s w1 = (s', w')" "as_gate_passed s"
        "\<not> ac_dry_run (as_config s)" "as_llm_signal s = Some (Model_signal sig)" "build_payload s sig = Some payload"
proof -
  show thesis
  proof (cases "as_gate_passed s")
    case False
    with assms show thesis by (intro quiet) (auto simp: ai_node_dispatch_def Let_def)
  next
    case passed: True
    show thesis
    proof (cases "as_llm_signal s")
      case None
      with assms passed show thesis by (intro quiet) (auto simp: ai_node_dispatch_def Let_def)
    next
      case (Some d)
      show thesis
      proof (cases d)
        case (Auto_hold r)
        with Some assms passed show thesis by (intro quiet) (auto simp: ai_node_dispatch_def Let_def)
      next
        case (Model_signal sig)
        note node = assms(1) [unfolded ai_node_dispatch_def assms(2) prod.case Let_def Some Model_signal]
        consider "so_action sig = Adjust_stops" | "so_action sig \<noteq> Adjust_stops" "ac_dry_run (as_config s)"
          | "so_action sig \<in> {Cancel_order, Amend_order}" "\<not> ac_dry_run (as_config s)"
          | "so_action sig \<notin> {Adjust_stops, Cancel_order, Amend_order}" "\<not> ac_dry_run (as_config s)"
          by auto
        then show thesis
        proof cases
          case 1
          with node passed show thesis
            by (intro managed [of "Post_adjust_stops (as_strategy_id s) (ac_dry_run (as_config s)) (as_sl_price s) (as_tp_price s)"])
              (simp_all)
        next
          case 2
          with node passed show thesis by (intro quiet) simp_all
        next
          case 3
          with node passed show thesis by (auto intro: managed)
        next
          case 4
          show thesis
          proof (cases "build_payload s sig")
            case None
            with 4 node passed show thesis by (intro quiet) simp_all
          next
            case (Some payload)
            with 4 node passed \<open>as_llm_signal s = Some d\<close> Model_signal show thesis
              by (intro order [of payload sig]) simp_all
          qed
        qed
      qed
    qed
  qed
qed

lemma dispatch_effect:
  assumes "ai_node_dispatch D s w = (s', w')"
  shows "\<exists>rqs. aw_sent w' = aw_sent w @ rqs \<and> length rqs \<le> 1 \<and> (as_webhook_fired s' \<longleftrightarrow> rqs \<noteq> []) \<and>
    (rqs \<noteq> [] \<longrightarrow> as_gate_passed s) \<and>
    (ac_dry_run (as_config s) \<longrightarrow> (\<forall>rq\<in>set rqs. \<exists>sl tp. rq = Post_adjust_stops (as_strategy_id s) True sl tp)) \<and>
    (if de_insert_fails D then aw_log w' = aw_log w
     else \<exists>r. aw_log w' = aw_log w @ [r] \<and> row_of_cycle s r \<and> al_fired r = (rqs \<noteq> [] \<and> \<not> de_update_fails D))"
proof -
  obtain log_id w1 where ins: "insert_log D s w = (log_id, w1)" by (cases "insert_log D s w")
  have sent1: "aw_sent w1 = aw_sent w"
    and log1: "if de_insert_fails D then log_id = None \<and> w1 = w
      else log_id = Some (length (aw_log w)) \<and> w1 = w\<lparr>aw_log := aw_log w @ [ai_log_row_of s]\<rparr>"
    using ins by (auto elim!: insert_log_cases)
  have own: "row_of_cycle s (ai_log_row_of s)" "\<not> al_fired (ai_log_row_of s)"
    by (auto simp: row_of_cycle_def ai_log_row_of_def Let_def)
  have fired: "if de_insert_fails D then aw_log w' = aw_log w
     else \<exists>r. aw_log w' = aw_log w @ [r] \<and> row_of_cycle s r \<and> al_fired r = (\<not> de_update_fails D)"
    if "aw_log w' = aw_log (mark_fired D log_id status order_id w1)" for status order_id
  proof (cases "de_insert_fails D")
    case True
    with that log1 show ?thesis by (simp add: mark_fired_def)
  next
    case False
    with that log1 own show ?thesis by (auto simp: mark_fired_new) (auto simp: row_of_cycle_def)
  qed
  from assms ins show ?thesis
  proof (cases rule: dispatch_cases)
    case quiet
    then show ?thesis
      using own sent1 log1 by (intro exI [of _ "[]"]) (auto simp: not_fired_def split: if_splits)
  next
    case (managed rq)
    from send_managed_effect [OF managed(1)] sent1 fired managed(2,3) show ?thesis
      by (intro exI [of _ "[rq]"]) (auto split: if_splits)
  next
    case (order payload sig)
    from send_order_effect [OF order(1)] sent1 fired order(2,3) show ?thesis
      by (intro exI [of _ "[Post_webhook (as_strategy_id s) payload]"]) (auto split: if_splits)
  qed
qed

text \<open>
  C26. A cycle sends at most one request, and only for a decision that passed the guard; in
  dry-run mode that can only be a stop adjustment, marked as a dry run. It adds exactly one
  row to the log, unless the insert fails: then the request goes out all the same and the log
  shows nothing of it. The row says that a request was sent if and only if one was and the
  update after it went through: when the update fails the row stays as it was inserted.
\<close>

theorem dispatch_contract:
  assumes "ai_node_dispatch D s w = (s', w')"
  shows "\<exists>rqs. aw_sent w' = aw_sent w @ rqs \<and> length rqs \<le> 1 \<and> (as_webhook_fired s' \<longleftrightarrow> rqs \<noteq> []) \<and>
    (rqs \<noteq> [] \<longrightarrow> as_gate_passed s) \<and>
    (ac_dry_run (as_config s) \<longrightarrow> (\<forall>rq\<in>set rqs. \<exists>sl tp. rq = Post_adjust_stops (as_strategy_id s) True sl tp)) \<and>
    (if de_insert_fails D then aw_log w' = aw_log w
     else \<exists>r. aw_log w' = aw_log w @ [r] \<and> row_of_cycle s r \<and> al_fired r = (rqs \<noteq> [] \<and> \<not> de_update_fails D))"
  using assms by (rule dispatch_effect)

section \<open>Routing\<close>

lemma ai_node_analyze_signal:
  assumes "ai_node_analyze A logged s st = (s', st')"
  shows "as_llm_signal s' = None \<or> (\<exists>sig. as_llm_signal s' = Some (Model_signal sig))"
proof -
  have premium: "as_llm_signal (fst (decide_premium A tokens escalated usage s st1)) = None \<or>
      (\<exists>sig. as_llm_signal (fst (decide_premium A tokens escalated usage s st1)) = Some (Model_signal sig))"
    for tokens escalated usage st1
    by (simp add: decide_premium_def Let_def case_prod_unfold split: option.split)
  have "as_llm_signal (fst (ai_node_analyze A logged s st)) = None \<or>
      (\<exists>sig. as_llm_signal (fst (ai_node_analyze A logged s st)) = Some (Model_signal sig))"
    using premium by (auto simp: ai_node_analyze_def Let_def case_prod_unfold split: option.split)
  with assms show ?thesis by simp
qed

lemma ingest_simps [simp]:
  "as_config (ai_node_ingest F s) = as_config s"
  "as_strategy_id (ai_node_ingest F s) = as_strategy_id s"
  "as_triggered_at (ai_node_ingest F s) = as_triggered_at s"
  "as_position_open (ai_node_ingest F s) = as_position_open s"
  "as_open_orders (ai_node_ingest F s) =
     (if need_open_orders (as_config s) then (case ft_open_orders F of None \<Rightarrow> [] | Some orders \<Rightarrow> orders) else [])"
  by (simp_all add: ai_node_ingest_def Let_def)

text \<open>
  The model is skipped exactly for the range template without a strong or moderate fit,
  without an open position, and when no resting order was delivered. That last condition
  does not mean there is none: when fetching the orders fails the cycle is skipped as well,
  although only the model can cancel or amend a resting order. A skipped cycle asks no model
  and its decision does not pass.
\<close>

theorem skip_condition:
  assumes "decide_cycle C logged s st = (s', st')"
  shows "((\<exists>why. as_llm_signal s' = Some (Auto_hold why)) \<longleftrightarrow>
      ac_template_id (as_config s) = ''geometric_range'' \<and> \<not> as_position_open s \<and>
      (need_open_orders (as_config s) \<longrightarrow> ft_open_orders (ce_fetchers C) \<in> {None, Some []}) \<and>
      d_field ''fit_quality'' (as_data (ai_node_ingest (ce_fetchers C) s) ''geometry_data'')
        \<notin> {D_str ''strong'', D_str ''moderate''}) \<and>
    ((\<exists>why. as_llm_signal s' = Some (Auto_hold why)) \<longrightarrow> st' = st \<and> \<not> as_gate_passed s')"
proof -
  let ?s1 = "ai_node_ingest (ce_fetchers C) s"
  have skip: "should_skip_llm_no_range ?s1 \<longleftrightarrow>
      ac_template_id (as_config s) = ''geometric_range'' \<and> \<not> as_position_open s \<and>
      (need_open_orders (as_config s) \<longrightarrow> ft_open_orders (ce_fetchers C) \<in> {None, Some []}) \<and>
      d_field ''fit_quality'' (as_data ?s1 ''geometry_data'') \<notin> {D_str ''strong'', D_str ''moderate''}"
    by (auto simp: should_skip_llm_no_range_def split: option.splits)
  show ?thesis
  proof (cases "should_skip_llm_no_range ?s1")
    case True
    with assms have "s' = node_skip_geometry ?s1" "st' = st" by (auto simp: decide_cycle_def Let_def)
    with True skip show ?thesis by (simp add: node_skip_geometry_def)
  next
    case False
    obtain s2 st2 where an: "ai_node_analyze (ce_analyze C) logged ?s1 st = (s2, st2)"
      by (cases "ai_node_analyze (ce_analyze C) logged ?s1 st")
    with assms False have "s' = ai_node_guard (ce_query_fails C) logged (ce_now C) s2"
      by (simp add: decide_cycle_def Let_def)
    with ai_node_guard_inputs [of s2 "ce_query_fails C" logged "ce_now C"]
    have "as_llm_signal s' = as_llm_signal s2" by (simp add: same_inputs_def)
    with ai_node_analyze_signal [OF an] have "\<not> (\<exists>why. as_llm_signal s' = Some (Auto_hold why))" by auto
    with False skip show ?thesis by simp
  qed
qed

section \<open>Sizes that round away\<close>

lemma round_half_even_small: "0 \<le> x \<Longrightarrow> x < 1/2 \<Longrightarrow> round_half_even x = 0"
proof -
  assume "0 \<le> x" "x < 1/2"
  then have "\<lfloor>x\<rfloor> = 0" by linarith
  with \<open>x < 1/2\<close> show ?thesis by (simp add: round_half_even_def)
qed

text \<open>
  The size of an entry is rounded to four decimals and not checked: in margin mode, where
  the margin times the leverage is less than a twenty-thousandth of the price, every entry
  the guard accepts has size zero, and is sent.
\<close>

theorem entry_size_rounds_to_zero:
  assumes "as_gate_passed s'" and "s' = ai_node_guard qf logged now s"
    and "as_llm_signal s = Some (Model_signal sig)" and "so_action sig \<in> set entry_actions"
    and "\<not> risk_mode (as_config s)" and "0 \<le> margin_cap (as_config s) * of_int (ai_leverage (as_config s))"
    and "margin_cap (as_config s) * of_int (ai_leverage (as_config s)) * 20000 < entry_price sig s"
  shows "as_size s' = Some 0"
proof -
  let ?cap = "margin_cap (as_config s) * of_int (ai_leverage (as_config s))"
  from assms(1,2) have "as_gate_passed (ai_node_guard qf logged now s)" by simp
  then obtain sig' where "as_llm_signal s = Some (Model_signal sig')"
    "ai_node_guard qf logged now s = guard_branch sig' s" "as_gate_passed (guard_branch sig' s)"
    by (rule guard_passed) blast
  with assms(2,3) have s': "s' = guard_branch sig s" and passed: "as_gate_passed (guard_branch sig s)" by auto
  from guard_entry_branch [OF assms(4) passed] have price: "0 < entry_price sig s"
    and size: "as_size s' = Some (py_round (?cap / entry_price sig s) 4)"
    using assms(5) by (simp_all add: s' entry_notional_def Let_def)
  have "?cap / entry_price sig s * 10 ^ 4 < 1/2"
    using assms(7) price by (simp add: field_simps)
  moreover have "0 \<le> ?cap / entry_price sig s * 10 ^ 4"
    using assms(6) price by simp
  ultimately have "round_half_even (?cap / entry_price sig s * 10 ^ 4) = 0"
    by (intro round_half_even_small)
  then show ?thesis by (simp add: size py_round_def)
qed

section \<open>The snapshot\<close>

lemma map_of_filtered_table:
  assumes "distinct (map (\<lambda>x. fst (snd x)) t)" and "x \<in> set t"
  shows "map_of (map (\<lambda>x. (fst (snd x), f x)) (filter (\<lambda>x. use (fst x)) t)) (fst (snd x)) =
    (if use (fst x) then Some (f x) else None)"
  using assms
proof (induction t)
  case (Cons y t)
  show ?case
  proof (cases "fst (snd y) = fst (snd x)")
    case True
    with Cons.prems have "y = x" by (auto simp: image_iff)
    moreover have "fst (snd x) \<notin> fst ` set (map (\<lambda>x. (fst (snd x), f x)) (filter (\<lambda>x. use (fst x)) t))"
      using Cons.prems(1) True by force
    ultimately show ?thesis by (simp add: map_of_eq_None_iff)
  next
    case False
    with Cons show ?thesis by (cases "x = y") simp_all
  qed
qed simp

lemma label_of_filtered:
  assumes "distinct (map (\<lambda>x. fst (snd x)) t)" and "x \<in> set t"
  shows "fst (snd x) \<in> set (map (\<lambda>x. fst (snd x)) (filter P t)) \<longleftrightarrow> P x"
  using assms by (auto simp: distinct_map inj_on_def)

lemma run_extractor_not_null: "run_extractor ex v \<noteq> Inr D_null"
  by (induction ex v rule: run_extractor.induct) (auto simp: map_sum_def split: sum.splits)

lemma snapshot_value_null: "snapshot_value s tk sk ex = D_null \<longleftrightarrow> \<not> d_truthy (input_value s tk sk)"
  using run_extractor_not_null [of ex "input_value s tk sk"]
  by (auto simp: snapshot_value_def Let_def split: sum.splits)

definition snapshot_entry_ok :: "ai_config \<Rightarrow> ai_state \<Rightarrow> string \<Rightarrow> string \<Rightarrow> bool" where
  "snapshot_entry_ok sc s flag key =
     (case map_of (regime_snapshot sc s) key of
        None \<Rightarrow> \<not> ac_use sc flag
      | Some v \<Rightarrow> ac_use sc flag \<and> (v = D_null) = (key \<in> set (missing_inputs sc s)))"

text \<open>
  C40. The regime snapshot keeps its three cases apart for every source: the key is absent
  exactly when the strategy did not enable the source, it is null exactly when the source is
  enabled and among the missing inputs of the same row, and otherwise it has a value.
\<close>

theorem snapshot_three_states:
  "list_all (\<lambda>(flag, key, tk, sk, ex). snapshot_entry_ok sc s flag key) REGIME_SNAPSHOT_FIELDS"
  unfolding list_all_iff
proof
  fix x
  assume x: "x \<in> set REGIME_SNAPSHOT_FIELDS"
  obtain flag key tk sk ex where [simp]: "x = (flag, key, tk, sk, ex)" by (cases x)
  have "distinct (map (\<lambda>x. fst (snd x)) REGIME_SNAPSHOT_FIELDS)" by code_simp
  from map_of_filtered_table [OF this x, of "\<lambda>(flag, key, tk, sk, ex). snapshot_value s tk sk ex" "ac_use sc"]
  have snap: "map_of (regime_snapshot sc s) key =
      (if ac_use sc flag then Some (snapshot_value s tk sk ex) else None)"
    by (simp add: regime_snapshot_def case_prod_unfold)
  have "list_all (\<lambda>(flag, key, tk, sk, ex). (flag, key, tk, sk) \<in> set MISSING_INPUT_CHECKS) REGIME_SNAPSHOT_FIELDS"
    by code_simp
  with x have check: "(flag, key, tk, sk) \<in> set MISSING_INPUT_CHECKS" by (auto simp: list_all_iff)
  have "distinct (map (\<lambda>x. fst (snd x)) MISSING_INPUT_CHECKS)" by code_simp
  from label_of_filtered [OF this check,
      of "\<lambda>(flag, label, tk, sk). ac_use sc flag \<and> \<not> d_truthy (input_value s tk sk)"]
  have "key \<in> set (missing_inputs sc s) \<longleftrightarrow> ac_use sc flag \<and> \<not> d_truthy (input_value s tk sk)"
    by (simp add: missing_inputs_def case_prod_unfold)
  with snap show "case x of (flag, key, tk, sk, ex) \<Rightarrow> snapshot_entry_ok sc s flag key"
    by (simp add: snapshot_entry_ok_def snapshot_value_null)
qed

end
