(* ===== verification/AiSchedule.thy ===== *)
theory AiSchedule
  imports AiSafety
begin

text \<open>
  Cycles of many strategies, started by the scheduler, the event watcher and by hand, each
  under the slot of \<open>cycle_lock.py\<close>: the interleavings of their steps as a relation, and
  the cooldown between accepted entries that follows from the slot.
\<close>

section \<open>The slot and the steps of a cycle\<close>

text \<open>
  A running cycle has its initial state; after the guard it has its decision and the time
  the guard looked at the log.
\<close>

datatype cycle_stage = Begun ai_state | Decided ai_state datetime

fun stage_state :: "cycle_stage \<Rightarrow> ai_state" where
  "stage_state (Begun s) = s"
| "stage_state (Decided s g) = s"

text \<open>
  The service: the log and the requests, the slots taken, the running cycles by number, the
  clock, and a history of the accepted entries that were logged, with the time their cycle
  was triggered and the time the guard decided.
\<close>

record ai_service =
  sv_world :: ai_world
  sv_in_flight :: "string list"
  sv_cycles :: "(nat, cycle_stage) tbl"
  sv_now :: datetime
  sv_entries :: "(string \<times> datetime \<times> datetime) list"

definition is_entry :: "ai_state \<Rightarrow> bool" where
  "is_entry s \<longleftrightarrow> as_gate_passed s \<and> (\<exists>a\<in>set entry_actions. map_option signal_action (as_llm_signal s) = Some a)"

text \<open>\<open>cycle_slot\<close>: taking the slot, and giving it back whatever happened.\<close>

definition slot_taken :: "string \<Rightarrow> ai_service \<Rightarrow> bool" where
  "slot_taken strategy sv \<longleftrightarrow> strategy \<in> set (sv_in_flight sv)"

definition enter_slot :: "nat \<Rightarrow> ai_state \<Rightarrow> ai_service \<Rightarrow> ai_service" where
  "enter_slot c s sv =
     sv\<lparr>sv_in_flight := as_strategy_id s # sv_in_flight sv, sv_cycles := (c, Begun s) # sv_cycles sv\<rparr>"

definition leave_slot :: "nat \<Rightarrow> string \<Rightarrow> ai_service \<Rightarrow> ai_service" where
  "leave_slot c strategy sv =
     sv\<lparr>sv_in_flight := filter (\<lambda>t. t \<noteq> strategy) (sv_in_flight sv), sv_cycles := AList.delete c (sv_cycles sv)\<rparr>"

definition set_stage :: "nat \<Rightarrow> cycle_stage \<Rightarrow> ai_service \<Rightarrow> ai_service" where
  "set_stage c g sv = sv\<lparr>sv_cycles := AList.update c g (sv_cycles sv)\<rparr>"

definition finish_cycle :: "nat \<Rightarrow> dispatch_env \<Rightarrow> ai_state \<Rightarrow> datetime \<Rightarrow> ai_service \<Rightarrow> ai_service" where
  "finish_cycle c D s g sv =
     leave_slot c (as_strategy_id s)
       (sv\<lparr>sv_world := snd (ai_node_dispatch D s (sv_world sv)),
           sv_entries := sv_entries sv @
             (if is_entry s \<and> \<not> de_insert_fails D then [(as_strategy_id s, as_triggered_at s, g)] else [])\<rparr>)"

text \<open>
  The steps, with \<open>cfg\<close> the configuration of each strategy. In \<open>decide\<close> the cycle's
  environment and the model process are arbitrary; the guard reads the log at the current
  time. \<open>drop\<close> is a trigger that finds the slot taken; \<open>fail\<close> is an exception.
\<close>

inductive service_step :: "(string \<Rightarrow> ai_config) \<Rightarrow> bool \<Rightarrow> ai_service \<Rightarrow> ai_service \<Rightarrow> bool"
  for cfg :: "string \<Rightarrow> ai_config" and calm :: bool where
  tick: "sv_now sv \<le> t \<Longrightarrow> service_step cfg calm sv (sv\<lparr>sv_now := t\<rparr>)"
| begin_cycle: "\<not> slot_taken (as_strategy_id s) sv \<Longrightarrow> as_config s = cfg (as_strategy_id s) \<Longrightarrow>
    as_triggered_at s = sv_now sv \<Longrightarrow> map_of (sv_cycles sv) c = None \<Longrightarrow>
    service_step cfg calm sv (enter_slot c s sv)"
| drop: "slot_taken strategy sv \<Longrightarrow> service_step cfg calm sv sv"
| decide: "map_of (sv_cycles sv) c = Some (Begun s) \<Longrightarrow>
    decide_cycle C (aw_log (sv_world sv)) s st = (s', st') \<Longrightarrow> ce_now C = sv_now sv \<Longrightarrow>
    \<not> (calm \<and> ce_query_fails C) \<Longrightarrow>
    service_step cfg calm sv (set_stage c (Decided s' (sv_now sv)) sv)"
| finish: "map_of (sv_cycles sv) c = Some (Decided s g) \<Longrightarrow> \<not> (calm \<and> de_insert_fails D) \<Longrightarrow>
    service_step cfg calm sv (finish_cycle c D s g sv)"
| fail: "map_of (sv_cycles sv) c = Some stage \<Longrightarrow>
    service_step cfg calm sv (leave_slot c (as_strategy_id (stage_state stage)) sv)"

definition idle_service :: ai_service where
  "idle_service =
     \<lparr>sv_world = \<lparr>aw_log = [], aw_sent = []\<rparr>, sv_in_flight = [], sv_cycles = [], sv_now = 0, sv_entries = []\<rparr>"

inductive service_runs :: "(string \<Rightarrow> ai_config) \<Rightarrow> bool \<Rightarrow> ai_service \<Rightarrow> bool"
  for cfg :: "string \<Rightarrow> ai_config" and calm :: bool where
  start: "service_runs cfg calm idle_service"
| step: "service_runs cfg calm sv \<Longrightarrow> service_step cfg calm sv sv' \<Longrightarrow> service_runs cfg calm sv'"

section \<open>Invariants\<close>

definition entry_cooldown :: "ai_config \<Rightarrow> rat" where
  "entry_cooldown sc = of_int (cooldown_minutes sc Cooldown_entry) * 60"

text \<open>One cycle per strategy, and its strategy's slot is taken.\<close>

definition slots_ok :: "(string \<Rightarrow> ai_config) \<Rightarrow> ai_service \<Rightarrow> bool" where
  "slots_ok cfg sv \<longleftrightarrow>
     (\<forall>c g. map_of (sv_cycles sv) c = Some g \<longrightarrow>
        slot_taken (as_strategy_id (stage_state g)) sv \<and>
        as_config (stage_state g) = cfg (as_strategy_id (stage_state g)) \<and>
        (\<forall>c' g'. map_of (sv_cycles sv) c' = Some g' \<and> c' \<noteq> c \<longrightarrow>
           as_strategy_id (stage_state g') \<noteq> as_strategy_id (stage_state g)))"

text \<open>Every entry of the history has its row in the log.\<close>

definition entries_logged :: "ai_service \<Rightarrow> bool" where
  "entries_logged sv \<longleftrightarrow>
     (\<forall>(strategy, t, g)\<in>set (sv_entries sv).
        \<exists>r\<in>set (aw_log (sv_world sv)). accepted_entry strategy r \<and> al_triggered_at r = t)"

text \<open>A decided entry that was not dispatched yet is past the cooldown of everything logged.\<close>

definition pending_ok :: "(string \<Rightarrow> ai_config) \<Rightarrow> ai_service \<Rightarrow> bool" where
  "pending_ok cfg sv \<longleftrightarrow>
     (\<forall>c s g. map_of (sv_cycles sv) c = Some (Decided s g) \<and> is_entry s \<longrightarrow>
        (\<forall>r\<in>set (aw_log (sv_world sv)). accepted_entry (as_strategy_id s) r \<longrightarrow>
           al_triggered_at r < g - entry_cooldown (cfg (as_strategy_id s))))"

definition entries_spaced :: "(string \<Rightarrow> ai_config) \<Rightarrow> ai_service \<Rightarrow> bool" where
  "entries_spaced cfg sv \<longleftrightarrow>
     sorted_wrt (\<lambda>(strategy, t, g) (strategy', t', g'). strategy' = strategy \<longrightarrow>
       t + entry_cooldown (cfg strategy) < g') (sv_entries sv)"

lemma idle_ok: "slots_ok cfg idle_service" "entries_logged idle_service" "pending_ok cfg idle_service"
  "entries_spaced cfg idle_service"
  by (simp_all add: slots_ok_def entries_logged_def pending_ok_def entries_spaced_def idle_service_def)

text \<open>What a decision keeps of the cycle, and what it says of an entry.\<close>

lemma analyze_frame:
  assumes "ai_node_analyze A logged s st = (s', st')"
  shows "as_config s' = as_config s \<and> as_strategy_id s' = as_strategy_id s \<and> as_triggered_at s' = as_triggered_at s"
proof -
  have premium: "as_config (fst (decide_premium A tokens escalated usage s st1)) = as_config s \<and>
      as_strategy_id (fst (decide_premium A tokens escalated usage s st1)) = as_strategy_id s \<and>
      as_triggered_at (fst (decide_premium A tokens escalated usage s st1)) = as_triggered_at s"
    for tokens escalated usage st1
    by (simp add: decide_premium_def Let_def case_prod_unfold split: option.split)
  have "as_config (fst (ai_node_analyze A logged s st)) = as_config s \<and>
      as_strategy_id (fst (ai_node_analyze A logged s st)) = as_strategy_id s \<and>
      as_triggered_at (fst (ai_node_analyze A logged s st)) = as_triggered_at s"
    using premium by (auto simp: ai_node_analyze_def Let_def case_prod_unfold split: option.split)
  with assms show ?thesis by simp
qed

lemma decide_frame:
  assumes "decide_cycle C logged s st = (s', st')"
  shows "as_config s' = as_config s \<and> as_strategy_id s' = as_strategy_id s \<and> as_triggered_at s' = as_triggered_at s"
proof (cases "should_skip_llm_no_range (ai_node_ingest (ce_fetchers C) s)")
  case True
  with assms show ?thesis by (auto simp: decide_cycle_def Let_def node_skip_geometry_def)
next
  case False
  obtain s2 st2 where an: "ai_node_analyze (ce_analyze C) logged (ai_node_ingest (ce_fetchers C) s) st = (s2, st2)"
    by (cases "ai_node_analyze (ce_analyze C) logged (ai_node_ingest (ce_fetchers C) s) st")
  with assms False have "s' = ai_node_guard (ce_query_fails C) logged (ce_now C) s2"
    by (simp add: decide_cycle_def Let_def)
  with analyze_frame [OF an] ai_node_guard_inputs [of s2 "ce_query_fails C" logged "ce_now C"] show ?thesis
    by (simp add: same_inputs_def)
qed

lemma decide_entry:
  assumes "decide_cycle C logged s st = (s', st')" and "is_entry s'" and "\<not> ce_query_fails C"
  shows "\<forall>r\<in>set logged. accepted_entry (as_strategy_id s) r \<longrightarrow>
    al_triggered_at r < ce_now C - entry_cooldown (as_config s)"
proof (cases "should_skip_llm_no_range (ai_node_ingest (ce_fetchers C) s)")
  case True
  with assms(1,2) show ?thesis
    by (auto simp: decide_cycle_def Let_def node_skip_geometry_def is_entry_def)
next
  case False
  obtain s2 st2 where an: "ai_node_analyze (ce_analyze C) logged (ai_node_ingest (ce_fetchers C) s) st = (s2, st2)"
    by (cases "ai_node_analyze (ce_analyze C) logged (ai_node_ingest (ce_fetchers C) s) st")
  with assms(1) False have s': "s' = ai_node_guard (ce_query_fails C) logged (ce_now C) s2"
    by (simp add: decide_cycle_def Let_def)
  have keep: "as_llm_signal s' = as_llm_signal s2"
    using ai_node_guard_inputs [of s2 "ce_query_fails C" logged "ce_now C"] by (simp add: s' same_inputs_def)
  from assms(2) have "as_gate_passed (ai_node_guard (ce_query_fails C) logged (ce_now C) s2)"
    by (simp add: is_entry_def s')
  then obtain sig where sig: "as_llm_signal s2 = Some (Model_signal sig)"
    and cool: "\<not> (\<not> ce_query_fails C \<and> cooldown_active logged (ce_now C) s2 (so_action sig))"
    by (rule guard_passed) blast
  from assms(2) keep sig have "so_action sig \<in> set entry_actions"
    by (auto simp: is_entry_def signal_action_def)
  with cool assms(3) analyze_frame [OF an] show ?thesis
    by (auto simp: cooldown_entry entry_cooldown_def not_le [symmetric])
qed

text \<open>What a dispatch does to the log: at most the row of its own strategy is new.\<close>

lemma dispatch_log:
  assumes "ai_node_dispatch D s w = (s', w')"
  shows "if de_insert_fails D then aw_log w' = aw_log w
    else \<exists>r. aw_log w' = aw_log w @ [r] \<and> al_strategy r = as_strategy_id s \<and>
      al_triggered_at r = as_triggered_at s \<and> (accepted_entry (as_strategy_id s) r \<longleftrightarrow> is_entry s)"
proof -
  have "if de_insert_fails D then aw_log w' = aw_log w
     else \<exists>r. aw_log w' = aw_log w @ [r] \<and> row_of_cycle s r"
    using dispatch_effect [OF assms] by (auto split: if_splits)
  then show ?thesis
    by (auto simp: row_of_cycle_def accepted_entry_def is_entry_def ai_log_row_of_def Let_def split: if_splits)
qed

lemma finish_world:
  "sv_world (finish_cycle c D s g sv) = snd (ai_node_dispatch D s (sv_world sv))"
  "sv_entries (finish_cycle c D s g sv) =
     sv_entries sv @ (if is_entry s \<and> \<not> de_insert_fails D then [(as_strategy_id s, as_triggered_at s, g)] else [])"
  "sv_cycles (finish_cycle c D s g sv) = AList.delete c (sv_cycles sv)"
  "sv_in_flight (finish_cycle c D s g sv) = filter (\<lambda>t. t \<noteq> as_strategy_id s) (sv_in_flight sv)"
  by (simp_all add: finish_cycle_def leave_slot_def)

lemma leave_world:
  "sv_world (leave_slot c strategy sv) = sv_world sv" "sv_entries (leave_slot c strategy sv) = sv_entries sv"
  "sv_cycles (leave_slot c strategy sv) = AList.delete c (sv_cycles sv)"
  "sv_in_flight (leave_slot c strategy sv) = filter (\<lambda>t. t \<noteq> strategy) (sv_in_flight sv)"
  by (simp_all add: leave_slot_def)

lemmas service_simps = finish_world leave_world row_simps

text \<open>Taking one's own cycle out leaves every other slot taken.\<close>

lemma slots_after_leave:
  assumes "slots_ok cfg sv" and "map_of (sv_cycles sv) c = Some stage"
    and "sv_cycles sv' = AList.delete c (sv_cycles sv)"
    and "sv_in_flight sv' = filter (\<lambda>t. t \<noteq> as_strategy_id (stage_state stage)) (sv_in_flight sv)"
  shows "slots_ok cfg sv'"
  using assms(1,2) unfolding slots_ok_def slot_taken_def assms(3,4)
  by (auto simp: row_simps split: if_splits)

lemma step_slots:
  assumes "service_step cfg calm sv sv'" and "slots_ok cfg sv"
  shows "slots_ok cfg sv'"
  using assms(1)
proof cases
  case (tick t)
  with assms(2) show ?thesis by (simp add: slots_ok_def slot_taken_def)
next
  case (begin_cycle s c)
  with assms(2) show ?thesis
    by (auto simp: slots_ok_def slot_taken_def enter_slot_def split: if_splits) metis
next
  case drop
  with assms(2) show ?thesis by simp
next
  case (decide c s C st s' st')
  from decide_frame [OF decide(3)] have frame: "as_config s' = as_config s" "as_strategy_id s' = as_strategy_id s"
    by simp_all
  show ?thesis
    unfolding slots_ok_def
  proof (intro allI impI)
    fix d g
    assume d: "map_of (sv_cycles sv') d = Some g"
    let ?old = "if d = c then Begun s else g"
    have old: "map_of (sv_cycles sv) d = Some ?old" and same: "as_strategy_id (stage_state g) = as_strategy_id (stage_state ?old)"
      "as_config (stage_state g) = as_config (stage_state ?old)"
      using d decide frame by (auto simp: set_stage_def row_simps split: if_splits)
    have others: "\<exists>h. map_of (sv_cycles sv) d' = Some h \<and> as_strategy_id (stage_state h) = as_strategy_id (stage_state g')"
      if "map_of (sv_cycles sv') d' = Some g'" for d' g'
      using that decide frame by (auto simp: set_stage_def row_simps split: if_splits)
    have ok: "slot_taken (as_strategy_id (stage_state ?old)) sv"
      "as_config (stage_state ?old) = cfg (as_strategy_id (stage_state ?old))"
      using assms(2) [unfolded slots_ok_def, rule_format, OF old] by blast+
    have apart: "as_strategy_id (stage_state h) \<noteq> as_strategy_id (stage_state ?old)"
      if "map_of (sv_cycles sv) d' = Some h" "d' \<noteq> d" for d' h
      using assms(2) [unfolded slots_ok_def, rule_format, OF old] that by blast
    show "slot_taken (as_strategy_id (stage_state g)) sv' \<and>
        as_config (stage_state g) = cfg (as_strategy_id (stage_state g)) \<and>
        (\<forall>c' g'. map_of (sv_cycles sv') c' = Some g' \<and> c' \<noteq> d \<longrightarrow>
           as_strategy_id (stage_state g') \<noteq> as_strategy_id (stage_state g))"
    proof (intro conjI allI impI)
      show "slot_taken (as_strategy_id (stage_state g)) sv'"
        using ok(1) by (simp only: same decide(1)) (simp add: slot_taken_def set_stage_def)
      show "as_config (stage_state g) = cfg (as_strategy_id (stage_state g))"
        using ok(2) by (simp only: same)
      fix c' g'
      assume g': "map_of (sv_cycles sv') c' = Some g' \<and> c' \<noteq> d"
      with others obtain h where h: "map_of (sv_cycles sv) c' = Some h"
        "as_strategy_id (stage_state h) = as_strategy_id (stage_state g')" by blast
      from apart [OF h(1)] g' have "as_strategy_id (stage_state h) \<noteq> as_strategy_id (stage_state ?old)" by blast
      then show "as_strategy_id (stage_state g') \<noteq> as_strategy_id (stage_state g)"
        by (simp only: h(2) same(1) not_False_eq_True)
    qed
  qed
next
  case (finish c s g D)
  then show ?thesis
    by (intro slots_after_leave [OF assms(2) finish(2)]) (simp_all add: service_simps)
next
  case (fail c stage)
  then show ?thesis
    by (intro slots_after_leave [OF assms(2) fail(2)]) (simp_all add: service_simps)
qed

lemma entries_logged_mono:
  assumes "entries_logged sv" and "sv_entries sv' = sv_entries sv"
    and "set (aw_log (sv_world sv)) \<subseteq> set (aw_log (sv_world sv'))"
  shows "entries_logged sv'"
  using assms by (fastforce simp: entries_logged_def)

lemma step_logged:
  assumes "service_step cfg calm sv sv'" and "entries_logged sv"
  shows "entries_logged sv'"
  using assms(1)
proof cases
  case (finish c s g D)
  obtain s' w' where d: "ai_node_dispatch D s (sv_world sv) = (s', w')" by (cases "ai_node_dispatch D s (sv_world sv)")
  have sub: "set (aw_log (sv_world sv)) \<subseteq> set (aw_log w')"
    using dispatch_log [OF d] by (auto split: if_splits)
  show ?thesis
  proof (cases "is_entry s \<and> \<not> de_insert_fails D")
    case False
    with finish sub d assms(2) show ?thesis
      by (intro entries_logged_mono [OF assms(2)]) (auto simp: service_simps)
  next
    case True
    with dispatch_log [OF d] obtain r where "aw_log w' = aw_log (sv_world sv) @ [r]"
      "accepted_entry (as_strategy_id s) r" "al_triggered_at r = as_triggered_at s" by auto
    with finish True d assms(2) show ?thesis by (fastforce simp: entries_logged_def service_simps)
  qed
qed (use assms(2) in \<open>auto simp: entries_logged_def enter_slot_def set_stage_def service_simps\<close>)

lemma step_pending:
  assumes "service_step cfg True sv sv'" and "slots_ok cfg sv" and "pending_ok cfg sv"
  shows "pending_ok cfg sv'"
  using assms(1)
proof cases
  case (decide c s C st s' st')
  from decide_frame [OF decide(3)] assms(2) decide(2)
  have frame: "as_config s = cfg (as_strategy_id s)" "as_strategy_id s' = as_strategy_id s"
    by (auto simp: slots_ok_def dest: spec [of _ c])
  show ?thesis
    unfolding pending_ok_def
  proof (intro allI impI ballI)
    fix d t g r
    assume dec: "map_of (sv_cycles sv') d = Some (Decided t g) \<and> is_entry t"
      and r: "r \<in> set (aw_log (sv_world sv'))" "accepted_entry (as_strategy_id t) r"
    have rows: "aw_log (sv_world sv') = aw_log (sv_world sv)" by (simp add: decide(1) set_stage_def)
    show "al_triggered_at r < g - entry_cooldown (cfg (as_strategy_id t))"
    proof (cases "d = c")
      case True
      with dec decide(1) have "t = s'" "g = sv_now sv" by (auto simp: set_stage_def row_simps)
      with decide_entry [OF decide(3)] dec r decide(4,5) frame rows show ?thesis by auto
    next
      case False
      with dec decide(1) have "map_of (sv_cycles sv) d = Some (Decided t g)" by (auto simp: set_stage_def row_simps)
      with assms(3) dec r rows show ?thesis by (auto simp: pending_ok_def)
    qed
  qed
next
  case (finish c s g D)
  obtain s' w' where d: "ai_node_dispatch D s (sv_world sv) = (s', w')" by (cases "ai_node_dispatch D s (sv_world sv)")
  show ?thesis
    unfolding pending_ok_def
  proof (intro allI impI ballI)
    fix e t h r
    assume dec: "map_of (sv_cycles sv') e = Some (Decided t h) \<and> is_entry t"
      and r: "r \<in> set (aw_log (sv_world sv'))" "accepted_entry (as_strategy_id t) r"
    from dec finish(1) have old: "map_of (sv_cycles sv) e = Some (Decided t h)" "e \<noteq> c"
      by (auto simp: service_simps split: if_splits)
    with assms(2) finish(2) have "as_strategy_id t \<noteq> as_strategy_id s"
      unfolding slots_ok_def by (metis stage_state.simps(2))
    with r(2) dispatch_log [OF d] r(1) finish(1) d have "r \<in> set (aw_log (sv_world sv))"
      by (auto simp: service_simps accepted_entry_def split: if_splits)
    with assms(3) old dec r(2) show "al_triggered_at r < h - entry_cooldown (cfg (as_strategy_id t))"
      by (auto simp: pending_ok_def)
  qed
qed (use assms(3) in \<open>auto simp: pending_ok_def enter_slot_def service_simps split: if_splits\<close>)

lemma step_spaced:
  assumes "service_step cfg calm sv sv'" and "entries_logged sv" and "pending_ok cfg sv" and "entries_spaced cfg sv"
  shows "entries_spaced cfg sv'"
  using assms(1)
proof cases
  case (finish c s g D)
  have new: "t + entry_cooldown (cfg strategy) < g"
    if "is_entry s" "(strategy, t, h) \<in> set (sv_entries sv)" "strategy = as_strategy_id s" for strategy t h
  proof -
    from assms(2) that(2) obtain r where "r \<in> set (aw_log (sv_world sv))" "accepted_entry strategy r" "al_triggered_at r = t"
      by (auto simp: entries_logged_def)
    with assms(3) finish(2) that have "t < g - entry_cooldown (cfg (as_strategy_id s))"
      by (auto simp: pending_ok_def)
    with that(3) show ?thesis by simp
  qed
  with finish(1) assms(4) show ?thesis
    by (auto simp: entries_spaced_def service_simps sorted_wrt_append)
qed (use assms(4) in \<open>auto simp: entries_spaced_def enter_slot_def set_stage_def service_simps\<close>)

lemma service_invariant:
  assumes "service_runs cfg True sv"
  shows "slots_ok cfg sv \<and> entries_logged sv \<and> pending_ok cfg sv \<and> entries_spaced cfg sv"
  using assms
proof induction
  case start
  show ?case by (simp add: idle_ok)
next
  case (step sv sv')
  then show ?case using step_slots step_logged step_pending step_spaced by blast
qed

section \<open>The cooldown between entries\<close>

text \<open>
  With the slot, whatever triggers start cycles and however the steps of the cycles of all
  strategies interleave: as long as neither the cooldown query nor the insert of a log row
  fails, the guard of an accepted entry decides later than the entry cooldown after every
  earlier accepted entry of the strategy was triggered.
\<close>

theorem accepted_entries_spaced:
  assumes "service_runs cfg True sv" and "i < j" and "j < length (sv_entries sv)"
    and "sv_entries sv ! i = (strategy, t, g)" and "sv_entries sv ! j = (strategy, t', g')"
  shows "t + of_int (cooldown_minutes (cfg strategy) Cooldown_entry) * 60 < g'"
proof -
  have "entries_spaced cfg sv" using service_invariant [OF assms(1)] by simp
  from sorted_wrt_nth_less [OF this [unfolded entries_spaced_def] assms(2,3)] show ?thesis
    by (simp add: assms(4,5) entry_cooldown_def)
qed

end
