(* ===== verification/AiDemo.thy ===== *)
theory AiDemo
  imports AiSchedule LlmChainSafety
begin

text \<open>
  Concrete cycles of the AI signal generator, at which the properties of the guard, the
  routing, the dispatch and the slot are applied.
\<close>

section \<open>A strategy and a cycle\<close>

definition demo_ai_config :: "string \<Rightarrow> ai_config" where
  "demo_ai_config template =
     \<lparr>ac_template_id = template, ac_base_asset = ''BTC'', ac_quote_asset = ''USDT'',
      ac_llm_provider = ''groq'', ac_llm_model = ''llama'', ac_scout_provider = [], ac_scout_model = [],
      ac_override = No_override, ac_premium_force_interval = None,
      ac_use = (\<lambda>flag. flag \<in> {''use_technical'', ''use_geometry''}),
      ac_confidence_threshold = None, ac_cooldown_entry = Some 60, ac_cooldown_stop_adj = None,
      ac_min_close_move_pct = None, ac_close_confidence_override = None, ac_min_stop_distance_pct = Some (3/10),
      ac_default_leverage = None, ac_margin_per_trade = None, ac_risk_per_trade = None, ac_sizing_mode = ''margin'',
      ac_dry_run = False, ac_webhook_secret = [], ac_interval_no_position = ''4h'', ac_interval_position_open = ''15m'',
      ac_interval_at_risk = ''5m'', ac_at_risk_threshold_pct = 2, ac_candle_close_buffer = 10\<rparr>"

definition demo_ai_state :: "ai_config \<Rightarrow> datetime \<Rightarrow> ai_state" where
  "demo_ai_state sc t =
     \<lparr>as_strategy_id = ''btc-ai'', as_config = sc, as_trigger_reason = ''scheduled'', as_cycle_interval = ''4h'',
      as_triggered_at = t, as_position_open = False, as_position_side = None, as_entry_price = None,
      as_position_size = None, as_unrealized_pct = None, as_data = (\<lambda>_. D_null), as_open_orders = [],
      as_llm_signal = None, as_llm_error = None, as_context_tokens = None, as_llm_usage = None,
      as_llm_tier = None, as_served_by = None, as_scout_usage = None, as_fallback_attempts = [],
      as_gate_passed = False, as_rejection = None, as_size = None, as_sl_price = None, as_tp_price = None,
      as_sl_pct = None, as_tp_pct = None, as_limit_price = None, as_target_order = None, as_sizing = None,
      as_webhook_fired = False, as_webhook_status = None, as_order_id = None, as_log_id = None\<rparr>"

definition demo_open :: signal_output where
  "demo_open =
     \<lparr>so_action = Open_long_action, so_confidence = 9/10, so_size_pct = 0, so_stop_loss_pct = 1,
      so_take_profit_pct = 2, so_new_sl_price = None, so_new_tp_price = None, so_limit_price = None,
      so_target_order_id = None, so_reasoning = ''breakout''\<rparr>"

definition demo_stops :: signal_output where
  "demo_stops = demo_open\<lparr>so_action := Adjust_stops, so_new_sl_price := Some 119000, so_new_tp_price := Some 125000\<rparr>"

definition demo_fetchers :: "rat \<Rightarrow> string \<Rightarrow> fetchers" where
  "demo_fetchers price fit =
     \<lparr>ft_source = (\<lambda>source.
        if source = ''ohlcv'' then Some (D_obj [(''current_price'', D_num price), (''closed_candles'', D_list [D_num price])])
        else if source = ''geometry'' then Some (D_obj [(''fit_quality'', D_str fit)])
        else None),
      ft_open_orders = None\<rparr>"

definition demo_cycle :: "rat \<Rightarrow> string \<Rightarrow> signal_output \<Rightarrow> datetime \<Rightarrow> cycle_env" where
  "demo_cycle price fit sig now =
     \<lparr>ce_fetchers = demo_fetchers price fit,
      ce_analyze =
        \<lparr>ae_llm = demo_llm_env\<lparr>le_service := (\<lambda>n rq. Inr (demo_message (Some sig)))\<rparr>, ae_cache = [],
         ae_query_fails = False, ae_prompt_tokens = Some 100, ae_failure = []\<rparr>,
      ce_query_fails = False, ce_now = now,
      ce_dispatch = \<lparr>de_insert_fails = False, de_update_fails = False, de_listener = (\<lambda>n rq. Some \<lparr>lr_status = 200, lr_order_id = Some ''o1''\<rparr>)\<rparr>\<rparr>"

text \<open>A bitcoin entry of the default margin of five dollars.\<close>

definition demo_judged :: ai_state where
  "demo_judged =
     (ai_node_ingest (demo_fetchers 120000 ''weak'') (demo_ai_state (demo_ai_config ''trend'') 0))
       \<lparr>as_llm_signal := Some (Model_signal demo_open)\<rparr>"

definition demo_ai_held :: ai_state where
  "demo_ai_held = demo_judged\<lparr>as_llm_signal := Some (Model_signal demo_stops), as_position_open := True,
     as_position_side := Some ''long'', as_entry_price := Some 118000, as_position_size := Some 1\<rparr>"

lemma demo_judged_facts:
  "as_llm_signal demo_judged = Some (Model_signal demo_open)"
  "so_action demo_open \<in> set entry_actions"
  "as_gate_passed (ai_node_guard False [] 0 demo_judged)"
  "\<not> risk_mode (as_config demo_judged)"
  "0 \<le> margin_cap (as_config demo_judged) * of_int (ai_leverage (as_config demo_judged))"
  "margin_cap (as_config demo_judged) * of_int (ai_leverage (as_config demo_judged)) * 20000 < entry_price demo_open demo_judged"
  by (simp add: demo_judged_def) code_simp+

lemma guard_entry_witness:
  "\<exists>qty. as_size (ai_node_guard False [] 0 demo_judged) = Some qty \<and> qty * entry_price demo_open demo_judged \<le> 5 + 6"
proof -
  have "margin_cap (as_config demo_judged) * of_int (ai_leverage (as_config demo_judged)) = 5"
    and "entry_price demo_open demo_judged = 120000" by code_simp+
  with guard_entry [OF demo_judged_facts(3) refl demo_judged_facts(1,2)] show ?thesis by auto
qed

lemma entry_size_rounds_to_zero_witness:
  "as_gate_passed (ai_node_guard False [] 0 demo_judged) \<and> as_size (ai_node_guard False [] 0 demo_judged) = Some 0"
  using entry_size_rounds_to_zero [OF demo_judged_facts(3) refl demo_judged_facts(1,2,4,5,6)] demo_judged_facts(3)
  by simp

lemma guard_stops_witness:
  "as_sl_price (ai_node_guard False [] 0 demo_ai_held) = Some 119000 \<and> (119000::rat) < current_price demo_ai_held"
proof -
  have facts: "as_gate_passed (ai_node_guard False [] 0 demo_ai_held)" "so_action demo_stops = Adjust_stops"
    "as_position_side demo_ai_held = Some ''long''" "''long'' \<in> {''long'', ''short''}" "0 < current_price demo_ai_held"
    "so_new_sl_price demo_stops = Some 119000"
    by code_simp+
  have "as_llm_signal demo_ai_held = Some (Model_signal demo_stops)" by (simp add: demo_ai_held_def)
  from guard_stops [OF facts(1) refl this facts(2-5)] facts(6) show ?thesis by auto
qed

lemma scout_never_decides_trades_witness:
  "\<exists>st1 r st'. premium_result (ce_analyze (demo_cycle 100 ''weak'' demo_open 0)) ''groq'' ''llama'' No_override st1 = (r, st') \<and>
     cr_signal r = Some demo_open"
proof -
  let ?A = "ce_analyze (demo_cycle 100 ''weak'' demo_open 0)"
  let ?s = "demo_ai_state (demo_ai_config ''trend'') 0"
  let ?out = "ai_node_analyze ?A [] ?s demo_proc"
  have "as_llm_signal (fst ?out) = Some (Model_signal demo_open)" "so_action demo_open \<noteq> Hold_action"
    "ac_llm_provider (as_config ?s) = ''groq''" "ac_llm_model (as_config ?s) = ''llama''"
    by code_simp+
  moreover have "ac_override (as_config ?s) = No_override"
    by (simp add: demo_ai_state_def demo_ai_config_def)
  ultimately show ?thesis
    using scout_never_decides_trades [of ?A "[]" ?s demo_proc "fst ?out" "snd ?out" demo_open] by auto
qed

lemma dispatch_contract_witness:
  "\<exists>rqs. aw_sent (snd (ai_node_dispatch (ce_dispatch (demo_cycle 100 ''weak'' demo_open 0))
      (ai_node_guard False [] 0 demo_judged) \<lparr>aw_log = [], aw_sent = []\<rparr>)) = rqs \<and> length rqs = 1"
proof -
  let ?D = "ce_dispatch (demo_cycle 100 ''weak'' demo_open 0)"
  let ?s = "ai_node_guard False [] 0 demo_judged"
  let ?out = "ai_node_dispatch ?D ?s \<lparr>aw_log = [], aw_sent = []\<rparr>"
  have "as_webhook_fired (fst ?out)" by code_simp
  with dispatch_contract [of ?D ?s "\<lparr>aw_log = [], aw_sent = []\<rparr>" "fst ?out" "snd ?out"] show ?thesis
    by (auto simp: le_Suc_eq)
qed

text \<open>The range template without a fit, and the orders not delivered.\<close>

lemma skip_condition_witness:
  "\<exists>why. as_llm_signal (fst (decide_cycle (demo_cycle 100 ''weak'' demo_open 0) []
      (demo_ai_state (demo_ai_config ''geometric_range'') 0) demo_proc)) = Some (Auto_hold why)"
proof -
  let ?C = "demo_cycle 100 ''weak'' demo_open 0" and ?s = "demo_ai_state (demo_ai_config ''geometric_range'') 0"
  let ?out = "decide_cycle ?C [] ?s demo_proc"
  have "ac_template_id (as_config ?s) = ''geometric_range''" "\<not> as_position_open ?s"
    "ft_open_orders (ce_fetchers ?C) = None"
    by (simp_all add: demo_ai_state_def demo_ai_config_def demo_cycle_def demo_fetchers_def)
  moreover have "(case d_field ''fit_quality'' (as_data (ai_node_ingest (ce_fetchers ?C) ?s) ''geometry_data'') of
      D_str f \<Rightarrow> f = ''weak'' | _ \<Rightarrow> False)"
    by code_simp
  then have "d_field ''fit_quality'' (as_data (ai_node_ingest (ce_fetchers ?C) ?s) ''geometry_data'') = D_str ''weak''"
    by (auto split: datum.splits)
  ultimately show ?thesis
    using skip_condition [of ?C "[]" ?s demo_proc "fst ?out" "snd ?out"] by auto
qed

section \<open>Two cycles of a strategy\<close>

definition demo_begun :: "datetime \<Rightarrow> ai_state" where
  "demo_begun t = demo_ai_state (demo_ai_config ''trend'') t"

definition demo_decided :: "ai_log_row list \<Rightarrow> datetime \<Rightarrow> ai_state" where
  "demo_decided logged t = fst (decide_cycle (demo_cycle 100 ''weak'' demo_open t) logged (demo_begun t) demo_proc)"

definition one_cycle :: "nat \<Rightarrow> ai_service \<Rightarrow> ai_service" where
  "one_cycle c sv =
     (let t = sv_now sv; s = demo_decided (aw_log (sv_world sv)) t
      in finish_cycle c (ce_dispatch (demo_cycle 100 ''weak'' demo_open t)) s t
           (set_stage c (Decided s t) (enter_slot c (demo_begun t) sv)))"

lemma one_cycle_runs:
  assumes "service_runs (\<lambda>_. demo_ai_config ''trend'') True sv" and "\<not> slot_taken ''btc-ai'' sv"
    and "map_of (sv_cycles sv) c = None"
  shows "service_runs (\<lambda>_. demo_ai_config ''trend'') True (one_cycle c sv)"
proof -
  let ?t = "sv_now sv" and ?cfg = "\<lambda>_ :: string. demo_ai_config ''trend''"
  let ?s = "demo_decided (aw_log (sv_world sv)) ?t"
  let ?sv1 = "enter_slot c (demo_begun ?t) sv"
  let ?sv2 = "set_stage c (Decided ?s ?t) ?sv1"
  have "service_step ?cfg True sv ?sv1"
    by (rule service_step.begin_cycle) (use assms in \<open>simp_all add: demo_begun_def demo_ai_state_def\<close>)
  with assms(1) have run1: "service_runs ?cfg True ?sv1" by (rule service_runs.step)
  have "service_step ?cfg True ?sv1 (set_stage c (Decided ?s (sv_now ?sv1)) ?sv1)"
    by (rule service_step.decide [where C = "demo_cycle 100 ''weak'' demo_open ?t" and s = "demo_begun ?t"
            and st = demo_proc
            and st' = "snd (decide_cycle (demo_cycle 100 ''weak'' demo_open ?t) (aw_log (sv_world sv)) (demo_begun ?t) demo_proc)"])
      (simp_all add: enter_slot_def demo_decided_def demo_cycle_def)
  then have "service_step ?cfg True ?sv1 ?sv2" by (simp add: enter_slot_def)
  with run1 have run2: "service_runs ?cfg True ?sv2" by (rule service_runs.step)
  have "service_step ?cfg True ?sv2
      (finish_cycle c (ce_dispatch (demo_cycle 100 ''weak'' demo_open ?t)) ?s ?t ?sv2)"
    by (rule service_step.finish) (simp_all add: set_stage_def row_simps demo_cycle_def)
  with run2 show ?thesis unfolding one_cycle_def Let_def by (rule service_runs.step)
qed

definition demo_after :: ai_service where
  "demo_after = (one_cycle 0 idle_service)\<lparr>sv_now := 4000\<rparr>"

definition demo_twice :: ai_service where
  "demo_twice = one_cycle 1 demo_after"

lemma demo_twice_runs: "service_runs (\<lambda>_. demo_ai_config ''trend'') True demo_twice"
proof -
  have "service_runs (\<lambda>_. demo_ai_config ''trend'') True (one_cycle 0 idle_service)"
    by (rule one_cycle_runs [OF service_runs.start]) (simp_all add: slot_taken_def idle_service_def)
  moreover have "sv_now (one_cycle 0 idle_service) \<le> 4000" by code_simp
  ultimately have "service_runs (\<lambda>_. demo_ai_config ''trend'') True demo_after"
    unfolding demo_after_def by (blast intro: service_runs.step service_step.tick)
  moreover have "sv_in_flight demo_after = []" by code_simp
  moreover have "map_option (\<lambda>g. ()) (map_of (sv_cycles demo_after) 1) = None" by code_simp
  ultimately show ?thesis
    unfolding demo_twice_def by (intro one_cycle_runs) (simp_all add: slot_taken_def)
qed

lemma accepted_entries_spaced_witness:
  "sv_entries demo_twice = [(''btc-ai'', 0, 0), (''btc-ai'', 4000, 4000)] \<and> (0::rat) + 60 * 60 < 4000"
proof -
  have e: "sv_entries demo_twice = [(''btc-ai'', 0, 0), (''btc-ai'', 4000, 4000)]" by code_simp
  have "cooldown_minutes (demo_ai_config ''trend'') Cooldown_entry = 60" by code_simp
  with accepted_entries_spaced [OF demo_twice_runs, of 0 1 "''btc-ai''" 0 0 4000 4000] e show ?thesis by simp
qed

end
