(* ===== verification/GuardEquivalence.thy ===== *)
theory GuardEquivalence
  imports AiDemo BacktestGraph
begin

text \<open>
  The guard of the live generator (\<open>nodes/node_guard.py\<close>) against the guard of the
  strategy tester (\<open>engine/node_guard_sim.py\<close>), which the tester's design document calls a
  verbatim copy: where they agree, and an input at which they do not.
\<close>

section \<open>Corresponding inputs\<close>

definition action_name :: "llm_action \<Rightarrow> string" where
  "action_name action =
     (case action of
        Open_long_action \<Rightarrow> ''open_long'' | Open_short_action \<Rightarrow> ''open_short''
      | Close_long_action \<Rightarrow> ''close_long'' | Close_short_action \<Rightarrow> ''close_short''
      | Hold_action \<Rightarrow> ''hold'' | Partial_close \<Rightarrow> ''partial_close'' | Adjust_stops \<Rightarrow> ''adjust_stops''
      | Place_limit_long \<Rightarrow> ''place_limit_long'' | Place_limit_short \<Rightarrow> ''place_limit_short''
      | Cancel_order \<Rightarrow> ''cancel_order'' | Amend_order \<Rightarrow> ''amend_order'')"

text \<open>The actions both guards know.\<close>

definition shared_action :: "llm_action \<Rightarrow> bool" where
  "shared_action action \<longleftrightarrow>
     action \<in> {Open_long_action, Open_short_action, Close_long_action, Close_short_action, Hold_action}"

text \<open>
  A live state and a replayed one that carry the same signal, the same threshold, the same
  price, and agree on whether a position is open.
\<close>

definition same_question :: "ai_state \<Rightarrow> agent_state \<Rightarrow> bool" where
  "same_question s a \<longleftrightarrow>
     (case (as_llm_signal s, ag_llm_signal a) of
        (None, None) \<Rightarrow> True
      | (Some (Model_signal sig), Some ls) \<Rightarrow>
          ls_action ls = action_name (so_action sig) \<and> ls_confidence ls = so_confidence sig \<and>
          ls_stop_loss_pct ls = so_stop_loss_pct sig \<and> ls_take_profit_pct ls = so_take_profit_pct sig \<and>
          shared_action (so_action sig)
      | _ \<Rightarrow> False) \<and>
     as_position_open s = (ag_position a \<noteq> None) \<and>
     or_else (ac_confidence_threshold (as_config s)) (72/100) =
       or_default (Some (sc_confidence_threshold (ag_config a))) (72/100) \<and>
     current_price s = (case ag_ohlcv a of None \<Rightarrow> 0 | Some p \<Rightarrow> od_current_price p)"

text \<open>The two cooldown queries, live for the group of the action, replayed for the action alone.\<close>

definition sim_cooldown :: "(agent_state \<Rightarrow> bool) \<Rightarrow> signal_log_row list \<Rightarrow> agent_state \<Rightarrow> string \<Rightarrow> bool" where
  "sim_cooldown query_fails rows a action =
     (case action_cooldown action (ag_config a) of
        None \<Rightarrow> False
      | Some minutes \<Rightarrow> \<not> query_fails a \<and> in_cooldown rows action minutes (ag_simulated_now a))"

text \<open>
  Both guards as one decision on six questions: the action, whether the confidence is low,
  a position is held, a cooldown is active, the price is missing, a distance is out of range.
\<close>

definition guard_verdict :: "llm_action \<Rightarrow> bool \<Rightarrow> bool \<Rightarrow> bool \<Rightarrow> bool \<Rightarrow> bool \<Rightarrow> string option" where
  "guard_verdict action low held cool no_price bad_pct =
     (if action = Hold_action then Some ''hold_or_adjust''
      else if low then Some ''confidence_below_threshold''
      else if action \<in> {Open_long_action, Open_short_action} \<and> held then Some ''position_already_open''
      else if action \<in> {Close_long_action, Close_short_action} \<and> \<not> held then Some ''no_position_to_close''
      else if cool then Some ''cooldown_active''
      else if action \<in> {Open_long_action, Open_short_action}
      then (if no_price then Some ''size_resolution_failed''
            else if bad_pct then Some ''sl_tp_pct_out_of_range'' else None)
      else None)"

lemma live_reject:
  "as_rejection (if c then guard_reject r s else x) = (if c then Some r else as_rejection x)"
  "as_gate_passed (if c then guard_reject r s else x) = (\<not> c \<and> as_gate_passed x)"
  by (simp_all add: guard_reject_def)

lemma sim_reject:
  "ag_rejection (if c then reject r s else x) = (if c then Some r else ag_rejection x)"
  "ag_gate_passed (if c then reject r s else x) = (\<not> c \<and> ag_gate_passed x)"
  by (simp_all add: reject_def)

lemma none_if: "((if c then Some r else y) = None) = (\<not> c \<and> y = None)"
  by simp

definition bad_distances :: "signal_output \<Rightarrow> bool" where
  "bad_distances sig \<longleftrightarrow> \<not> pct_in_range \<bar>so_stop_loss_pct sig\<bar> \<or> \<not> pct_in_range \<bar>so_take_profit_pct sig\<bar>"

lemma live_open:
  "as_rejection (guard_open sig s) =
     (if current_price s \<le> 0 then Some ''size_resolution_failed''
      else if bad_distances sig then Some ''sl_tp_pct_out_of_range'' else None)"
  "as_gate_passed (guard_open sig s) = (\<not> current_price s \<le> 0 \<and> \<not> bad_distances sig)"
  unfolding guard_open_def Let_def live_reject bad_distances_def
  by (simp_all add: resolve_entry_sizing_def Let_def)

lemma sim_open:
  assumes "ls_stop_loss_pct ls = so_stop_loss_pct sig" and "ls_take_profit_pct ls = so_take_profit_pct sig"
    and "current_price s = (case ag_ohlcv a of None \<Rightarrow> 0 | Some p \<Rightarrow> od_current_price p)"
  shows "ag_rejection (resolve_open ls a) =
     (if current_price s \<le> 0 then Some ''size_resolution_failed''
      else if bad_distances sig then Some ''sl_tp_pct_out_of_range'' else None)"
    and "ag_gate_passed (resolve_open ls a) = (\<not> current_price s \<le> 0 \<and> \<not> bad_distances sig)"
  unfolding resolve_open_def Let_def sim_reject bad_distances_def assms
  by (simp_all add: pct_in_range_def MIN_SL_TP_PCT_def MAX_SL_TP_PCT_def GUARD_MIN_PCT_def GUARD_MAX_PCT_def)

text \<open>A discretionary close under the live floor: the price is too near the entry for this confidence.\<close>

definition floored :: "signal_output \<Rightarrow> ai_state \<Rightarrow> bool" where
  "floored sig s \<longleftrightarrow> so_action sig \<in> {Close_long_action, Close_short_action} \<and> close_below_min_move sig s"

lemma live_verdict:
  fixes qf :: bool and logged :: "ai_log_row list" and now :: datetime
  assumes "as_llm_signal s = Some (Model_signal sig)" and "shared_action (so_action sig)"
  defines "v \<equiv> guard_verdict (so_action sig)
      (so_confidence sig < or_else (ac_confidence_threshold (as_config s)) (72/100)) (as_position_open s)
      (\<not> qf \<and> cooldown_active logged now s (so_action sig)) (current_price s \<le> 0) (bad_distances sig)"
  shows "as_rejection (ai_node_guard qf logged now s) =
      (if v = None \<and> floored sig s then Some ''close_below_min_move'' else v)"
    and "as_gate_passed (ai_node_guard qf logged now s) = (v = None \<and> \<not> floored sig s)"
proof -
  have branch: "as_rejection (guard_branch sig s) =
      (if so_action sig \<in> {Open_long_action, Open_short_action}
       then (if current_price s \<le> 0 then Some ''size_resolution_failed''
             else if bad_distances sig then Some ''sl_tp_pct_out_of_range'' else None)
       else None)"
    "as_gate_passed (guard_branch sig s) = (as_rejection (guard_branch sig s) = None)"
    if "so_action sig \<noteq> Hold_action"
    using assms(2) that unfolding shared_action_def
    by (auto simp: guard_branch_def live_open guard_close_def split: if_splits)
  have entry: "(so_action sig \<in> set entry_actions) = (so_action sig \<in> {Open_long_action, Open_short_action})"
    and closes: "(so_action sig \<in> {Close_long_action, Close_short_action, Partial_close}) =
      (so_action sig \<in> {Close_long_action, Close_short_action})"
    and manage: "(so_action sig \<notin> {Cancel_order, Amend_order} \<and> c) = c" for c
    using assms(2) by (auto simp: shared_action_def entry_actions_def)
  note rules = ai_node_guard_def assms(1) option.case ai_decided.case Let_def live_reject entry closes manage
  consider (hold) "so_action sig = Hold_action" | (entry) "so_action sig \<in> {Open_long_action, Open_short_action}"
    | (exit) "so_action sig \<in> {Close_long_action, Close_short_action}"
    using assms(2) by (auto simp: shared_action_def)
  then have "as_rejection (ai_node_guard qf logged now s) =
        (if v = None \<and> floored sig s then Some ''close_below_min_move'' else v) \<and>
      as_gate_passed (ai_node_guard qf logged now s) = (v = None \<and> \<not> floored sig s)"
  proof cases
    case hold
    then show ?thesis unfolding rules v_def guard_verdict_def floored_def by simp
  next
    case entry
    then have "so_action sig \<noteq> Hold_action" "(so_action sig \<in> {Close_long_action, Close_short_action}) = False" by auto
    with entry branch show ?thesis unfolding rules v_def guard_verdict_def floored_def none_if by simp
  next
    case exit
    then have "so_action sig \<noteq> Hold_action" "(so_action sig \<in> {Open_long_action, Open_short_action}) = False" by auto
    with exit branch show ?thesis unfolding rules v_def guard_verdict_def floored_def none_if by simp
  qed
  then show "as_rejection (ai_node_guard qf logged now s) =
      (if v = None \<and> floored sig s then Some ''close_below_min_move'' else v)"
    and "as_gate_passed (ai_node_guard qf logged now s) = (v = None \<and> \<not> floored sig s)"
    by simp_all
qed

lemma sim_verdict:
  fixes sim_fails :: "agent_state \<Rightarrow> bool" and rows :: "signal_log_row list"
  assumes "ag_llm_signal a = Some ls" and "ls_action ls = action_name (so_action sig)"
    and "ls_confidence ls = so_confidence sig" and "shared_action (so_action sig)"
    and levels: "ls_stop_loss_pct ls = so_stop_loss_pct sig" "ls_take_profit_pct ls = so_take_profit_pct sig"
      "current_price s = (case ag_ohlcv a of None \<Rightarrow> 0 | Some p \<Rightarrow> od_current_price p)"
  defines "v \<equiv> guard_verdict (so_action sig)
      (so_confidence sig < or_default (Some (sc_confidence_threshold (ag_config a))) (72/100)) (ag_position a \<noteq> None)
      (sim_cooldown sim_fails rows a (action_name (so_action sig))) (current_price s \<le> 0) (bad_distances sig)"
  shows "ag_rejection (node_guard_sim sim_fails rows a) = v" "ag_gate_passed (node_guard_sim sim_fails rows a) = (v = None)"
proof -
  have names: "(ls_action ls = ''partial_close'') = False"
    "(ls_action ls \<in> {''hold'', ''adjust_stops''}) = (so_action sig = Hold_action)"
    "(ls_action ls \<in> {''open_long'', ''open_short''}) = (so_action sig \<in> {Open_long_action, Open_short_action})"
    "(ls_action ls \<in> {''close_long'', ''close_short''}) = (so_action sig \<in> {Close_long_action, Close_short_action})"
    using assms(2,4) by (auto simp: shared_action_def action_name_def)
  note rules = node_guard_sim_def assms(1,3) option.case Let_def names sim_reject if_False
    sim_cooldown_def [of sim_fails rows a "ls_action ls", symmetric]
  have branch: "ag_rejection (if c then resolve_open ls a else x) = (if c then ag_rejection (resolve_open ls a) else ag_rejection x)"
    "ag_gate_passed (if c then resolve_open ls a else x) = (if c then ag_gate_passed (resolve_open ls a) else ag_gate_passed x)" for c x
    by simp_all
  show "ag_rejection (node_guard_sim sim_fails rows a) = v"
    unfolding rules branch v_def guard_verdict_def sim_open [OF levels] by (simp add: assms(2))
  show "ag_gate_passed (node_guard_sim sim_fails rows a) = (v = None)"
    unfolding rules branch v_def guard_verdict_def none_if sim_open [OF levels]
    by (cases "so_action sig = Hold_action") (simp_all add: assms(2))
qed

text \<open>
  C23. On the actions both know, and wherever their two cooldown queries answer alike: a signal
  the replayed guard refuses is refused by the live one for the same reason, and a signal the
  replayed guard passes is passed by the live one unless it is a discretionary close under the
  floor \<open>min_close_move_pct\<close>, which the live guard then refuses as \<open>close_below_min_move\<close>. The
  tester has no such floor, and the column's default of 0.30 switches it on.
\<close>

theorem guards_agree:
  assumes "same_question s a" and "as_llm_signal s = Some (Model_signal sig)"
    and "(\<not> qf \<and> cooldown_active logged now s (so_action sig)) =
      sim_cooldown sim_fails rows a (action_name (so_action sig))"
  shows "as_rejection (ai_node_guard qf logged now s) =
      (if ag_rejection (node_guard_sim sim_fails rows a) = None \<and> floored sig s then Some ''close_below_min_move''
       else ag_rejection (node_guard_sim sim_fails rows a)) \<and>
    as_gate_passed (ai_node_guard qf logged now s) =
      (ag_gate_passed (node_guard_sim sim_fails rows a) \<and> \<not> floored sig s)"
proof -
  from assms(1,2) obtain ls where ls: "ag_llm_signal a = Some ls"
    by (auto simp: same_question_def split: option.splits)
  have same: "ls_action ls = action_name (so_action sig)" "ls_confidence ls = so_confidence sig"
    "ls_stop_loss_pct ls = so_stop_loss_pct sig" "ls_take_profit_pct ls = so_take_profit_pct sig"
    and shared: "shared_action (so_action sig)" and pos: "as_position_open s = (ag_position a \<noteq> None)"
    and thr: "or_else (ac_confidence_threshold (as_config s)) (72/100) =
       or_default (Some (sc_confidence_threshold (ag_config a))) (72/100)"
    and price: "current_price s = (case ag_ohlcv a of None \<Rightarrow> 0 | Some p \<Rightarrow> od_current_price p)"
    using assms(1) unfolding same_question_def by (simp_all add: assms(2) ls)
  show ?thesis
    unfolding live_verdict [OF assms(2) shared] sim_verdict [OF ls same(1,2) shared same(3,4) price]
      assms(3) pos thr by simp
qed

section \<open>Where they differ\<close>

text \<open>
  The live cooldown covers all entries together, the replayed one each action for itself.
  With one accepted long in both logs, inside the cooldown, both guards refuse another long,
  but a short passes the replayed guard and not the live one: the tester trades where the
  live strategy would not.
\<close>

theorem cooldowns_differ:
  assumes "as_llm_signal s = Some (Model_signal sig)" and "so_action sig = Open_short_action"
    and "same_question s a" and "\<not> as_position_open s"
    and "or_else (ac_confidence_threshold (as_config s)) (72/100) \<le> so_confidence sig"
    and "0 < current_price s" and "\<not> bad_distances sig"
    and "\<forall>r\<in>set rows. sl_action r = Some ''open_long''"
    and "cooldown_active logged now s Open_long_action"
  shows "as_rejection (ai_node_guard False logged now s) = Some ''cooldown_active'' \<and>
    ag_gate_passed (node_guard_sim sim_fails rows a)"
proof -
  from assms(1,3) obtain ls where ls: "ag_llm_signal a = Some ls"
    by (auto simp: same_question_def split: option.splits)
  have same: "ls_action ls = action_name (so_action sig)" "ls_confidence ls = so_confidence sig"
    "ls_stop_loss_pct ls = so_stop_loss_pct sig" "ls_take_profit_pct ls = so_take_profit_pct sig"
    and shared: "shared_action (so_action sig)" and pos: "as_position_open s = (ag_position a \<noteq> None)"
    and thr: "or_else (ac_confidence_threshold (as_config s)) (72/100) =
       or_default (Some (sc_confidence_threshold (ag_config a))) (72/100)"
    and price: "current_price s = (case ag_ohlcv a of None \<Rightarrow> 0 | Some p \<Rightarrow> od_current_price p)"
    using assms(3) unfolding same_question_def by (simp_all add: assms(1) ls)
  have live: "cooldown_active logged now s (so_action sig)"
    using assms(2,9) by (simp add: cooldown_entry entry_actions_def)
  have "\<not> in_cooldown rows ''open_short'' minutes (ag_simulated_now a)" for minutes
    using assms(8) by (auto simp: in_cooldown_def list_ex_iff)
  then have sim: "\<not> sim_cooldown sim_fails rows a (action_name (so_action sig))"
    by (simp add: sim_cooldown_def action_name_def assms(2) split: option.splits)
  have "as_rejection (ai_node_guard False logged now s) = Some ''cooldown_active''"
    using live assms(1,2,4,5)
    by (simp add: ai_node_guard_def Let_def guard_reject_def entry_actions_def not_less [symmetric])
  moreover have "ag_gate_passed (node_guard_sim sim_fails rows a)"
    unfolding sim_verdict [OF ls same(1,2) shared same(3,4) price]
    using sim assms(2,4-7) pos thr by (simp add: guard_verdict_def not_less)
  ultimately show ?thesis by simp
qed

section \<open>One signal, two guards\<close>

definition demo_replayed :: "string \<Rightarrow> agent_state" where
  "demo_replayed action =
     \<lparr>ag_config = \<lparr>sc_use_technical = True, sc_confidence_threshold = 72/100, sc_cooldown_entry = 60,
                   sc_cooldown_stop_adj = 30, sc_dry_signal_mode = False, sc_max_position_size_pct = 5\<rparr>,
      ag_cycle_interval = ''4h'', ag_position = None, ag_simulated_now = 1800000, ag_sim_balance = 1000,
      ag_sim_pnl_today = 0, ag_window = [],
      ag_ohlcv = Some \<lparr>od_current_price = 120000, od_change_24h = 0, od_change_7d = 0\<rparr>,
      ag_llm_signal = Some \<lparr>ls_action = action, ls_confidence = 9/10, ls_size_pct = 5, ls_stop_loss_pct = 1,
                             ls_take_profit_pct = 2\<rparr>,
      ag_gate_passed = False, ag_rejection = None, ag_resolved_size = None, ag_resolved_sl = None,
      ag_resolved_tp = None, ag_sim_action = None\<rparr>"

definition demo_short :: ai_state where
  "demo_short = demo_judged\<lparr>as_llm_signal := Some (Model_signal (demo_open\<lparr>so_action := Open_short_action\<rparr>))\<rparr>"

definition demo_live_log :: "ai_log_row list" where
  "demo_live_log = [ai_log_row_of (demo_judged\<lparr>as_gate_passed := True\<rparr>)]"

definition demo_sim_log :: "signal_log_row list" where
  "demo_sim_log = [\<lparr>sl_triggered_at = 0, sl_action = Some ''open_long'', sl_confidence = Some (9/10),
     sl_gate_passed = True, sl_rejection = None\<rparr>]"

text \<open>A held long, 0.1 per cent above its entry, that the model wants closed; the floor stands at its default.\<close>

definition demo_close :: ai_state where
  "demo_close = demo_judged\<lparr>as_llm_signal := Some (Model_signal (demo_open\<lparr>so_action := Close_long_action\<rparr>)),
     as_position_open := True, as_entry_price := Some 119880,
     as_config := (as_config demo_judged)\<lparr>ac_min_close_move_pct := Some (3/10)\<rparr>\<rparr>"

definition demo_replayed_close :: agent_state where
  "demo_replayed_close = (demo_replayed ''close_long'')
     \<lparr>ag_position := Some \<lparr>sp_position_id = 1, sp_side = Sim_long, sp_entry_price = 119880, sp_size = 1/100,
        sp_sl_price = None, sp_tp_price = None, sp_fee_open = 0, sp_opened_at = 0, sp_opened_idx = 0,
        sp_opening_order_id = 1, sp_leverage = 1\<rparr>\<rparr>"

lemma guards_agree_witness:
  "as_rejection (ai_node_guard False demo_live_log 1800 demo_judged) = Some ''cooldown_active'' \<and>
   ag_rejection (node_guard_sim (\<lambda>_. False) demo_sim_log (demo_replayed ''open_long'')) = Some ''cooldown_active''"
proof -
  have "same_question demo_judged (demo_replayed ''open_long'')"
    "(\<not> False \<and> cooldown_active demo_live_log 1800 demo_judged (so_action demo_open)) =
      sim_cooldown (\<lambda>_. False) demo_sim_log (demo_replayed ''open_long'') (action_name (so_action demo_open))"
    "ag_rejection (node_guard_sim (\<lambda>_. False) demo_sim_log (demo_replayed ''open_long'')) = Some ''cooldown_active''"
    by code_simp+
  with guards_agree [OF this(1) demo_judged_facts(1) this(2)] show ?thesis by simp
qed

text \<open>With both cooldowns silent, the live guard keeps the position and the tester closes it.\<close>

theorem small_close_differs:
  "as_rejection (ai_node_guard False [] 1800 demo_close) = Some ''close_below_min_move'' \<and>
   ag_gate_passed (node_guard_sim (\<lambda>_. False) [] demo_replayed_close)"
  by (rule conjI; code_simp)

lemma cooldowns_differ_witness:
  "as_rejection (ai_node_guard False demo_live_log 1800 demo_short) = Some ''cooldown_active'' \<and>
   ag_gate_passed (node_guard_sim (\<lambda>_. False) demo_sim_log (demo_replayed ''open_short''))"
proof -
  have sig: "as_llm_signal demo_short = Some (Model_signal (demo_open\<lparr>so_action := Open_short_action\<rparr>))"
    by (simp add: demo_short_def)
  have facts: "same_question demo_short (demo_replayed ''open_short'')" "\<not> as_position_open demo_short"
    "or_else (ac_confidence_threshold (as_config demo_short)) (72/100) \<le> so_confidence (demo_open\<lparr>so_action := Open_short_action\<rparr>)"
    "0 < current_price demo_short" "\<not> bad_distances (demo_open\<lparr>so_action := Open_short_action\<rparr>)"
    "cooldown_active demo_live_log 1800 demo_short Open_long_action"
    by code_simp+
  have "\<forall>r\<in>set demo_sim_log. sl_action r = Some ''open_long''" by (simp add: demo_sim_log_def)
  from cooldowns_differ [OF sig _ facts(1-5) this facts(6)] show ?thesis by simp
qed

end
