(* ===== verification/ListenerState.thy ===== *)
theory ListenerState
  imports Prelude
begin

text \<open>
  The order listener's data: the webhook payload and the executor's answers
  (\<open>order-listener/app/models.py\<close>, \<open>app/executor_client.py\<close>), the tables it reads
  and writes, and the parameters that stand for the executor service and the failures of
  single database statements.

  Ids are positions in the tables: orders and positions are inserted and updated, never
  deleted, so the fresh uuid of a new row is the length of its table.
\<close>

section \<open>Payload\<close>

datatype buy_sell = Buy_side | Sell_side
datatype leg_side = Long_leg | Short_leg
datatype order_signal = Open_long | Close_long | Open_short | Close_short

definition leg_side_name :: "leg_side \<Rightarrow> string" where
  "leg_side_name s = (case s of Long_leg \<Rightarrow> ''long'' | Short_leg \<Rightarrow> ''short'')"

definition opposite_leg :: "leg_side \<Rightarrow> leg_side" where
  "opposite_leg s = (case s of Long_leg \<Rightarrow> Short_leg | Short_leg \<Rightarrow> Long_leg)"

definition signal_name :: "order_signal \<Rightarrow> string" where
  "signal_name s = (case s of Open_long \<Rightarrow> ''open_long'' | Close_long \<Rightarrow> ''close_long''
     | Open_short \<Rightarrow> ''open_short'' | Close_short \<Rightarrow> ''close_short'')"

text \<open>The values of the \<open>signal_metadata\<close> dictionary.\<close>

datatype meta_value = M_null | M_bool bool | M_num rat | M_text string | M_dict "(string \<times> meta_value) list"

type_synonym metadata = "(string, meta_value) tbl"

datatype target_position = Target_long | Target_short | Target_flat

record webhook_payload =
  wp_base_asset :: string
  wp_quote_asset :: string
  wp_side :: buy_sell
  wp_order_type :: string
  wp_size :: rat
  wp_price :: "rat option"
  wp_leverage :: "int option"
  wp_margin_mode :: "string option"
  wp_tp_price :: "rat option"
  wp_sl_price :: "rat option"
  wp_tp_pct :: "rat option"
  wp_sl_pct :: "rat option"
  wp_signal :: order_signal
  wp_target_position :: "target_position option"
  wp_token :: string
  wp_signal_source :: "string option"
  wp_signal_metadata :: "metadata option"
  wp_indicator_price :: "rat option"

section \<open>The executor's answers\<close>

text \<open>\<open>OrderResult\<close>; the raw response is opaque and left out.\<close>

record order_result =
  or_success :: bool
  or_exchange_order_id :: "string option"
  or_status :: string
  or_error_msg :: "string option"
  or_actual_fill_price :: "rat option"
  or_actual_fill_size :: "rat option"
  or_pnl :: "rat option"
  or_realized_pnl :: "rat option"
  or_fee :: "rat option"

datatype stop_kind = Tp_trigger | Sl_trigger

record trigger_order =
  tg_kind :: stop_kind
  tg_trigger_px :: "rat option"

record stops_result =
  sr_success :: bool
  sr_sl_ok :: "bool option"
  sr_tp_ok :: "bool option"
  sr_error_msg :: "string option"
  sr_preserved :: "trigger_order list"

record amend_result =
  am_success :: bool
  am_order_id :: "string option"
  am_cancelled_order_id :: "string option"
  am_original_cancelled :: bool

text \<open>How an HTTP request ends: with a decoded body, or one of the exceptions the client catches.\<close>

datatype 'a reply = Answer 'a | Timed_out | Http_error nat | Broken string

record order_request =
  rq_order_id :: nat
  rq_account_id :: string
  rq_symbol :: string
  rq_side :: buy_sell
  rq_signal :: order_signal
  rq_order_type :: string
  rq_size :: rat
  rq_price :: "rat option"
  rq_leverage :: "int option"
  rq_margin_mode :: "string option"
  rq_tp_price :: "rat option"
  rq_sl_price :: "rat option"

text \<open>The requests that change something on the exchange, in the order they were sent.\<close>

datatype exec_request =
    Execute order_request
  | Close_position string string leg_side "rat option"
  | Modify_stops string string leg_side "rat option" "rat option"
  | Cancel_order string string string
  | Amend_order string string string "rat option" "rat option"

section \<open>Tables\<close>

record listener_strategy =
  ls_id :: string
  ls_enabled :: bool
  ls_is_deleted :: bool
  ls_symbol :: string
  ls_account_id :: "string option"
  ls_webhook_secret :: string
  ls_quote_variants :: bool
  ls_cross_charting :: bool
  ls_default_leverage :: "int option"
  ls_max_leverage :: "int option"
  ls_margin_mode :: "string option"
  ls_margin_per_trade :: "rat option"
  ls_capital_allocation :: rat
  ls_allocation_peak :: "rat option"
  ls_max_drawdown_pct :: "rat option"
  ls_pnl_today :: rat
  ls_pnl_total :: rat
  ls_stop_reason :: "string option"
  ls_last_signal_at :: "datetime option"

record listener_position =
  po_id :: nat
  po_strategy :: string
  po_symbol :: string
  po_side :: leg_side
  po_entry_price :: rat
  po_size :: rat
  po_leverage :: int
  po_margin_mode :: string
  po_opening_order :: "nat option"
  po_open :: bool
  po_opened_at :: datetime
  po_closing_price :: "rat option"
  po_pnl_realized :: "rat option"
  po_closing_order :: "nat option"
  po_close_reason :: "string option"
  po_closed_at :: "datetime option"
  po_liquidation_price :: "rat option"
  po_miss_count :: nat
  po_divergent :: bool
  po_exchange_size :: "rat option"
  po_divergence_at :: "datetime option"
  po_mfe_price :: "rat option"
  po_mae_price :: "rat option"
  po_mfe_r :: "rat option"
  po_mae_r :: "rat option"
  po_excursion_samples :: nat
  po_excursion_first_at :: "datetime option"
  po_excursion_last_at :: "datetime option"

record listener_order =
  od_id :: nat
  od_strategy :: string
  od_symbol :: string
  od_side :: buy_sell
  od_signal :: string
  od_order_type :: string
  od_size :: rat
  od_price :: "rat option"
  od_leverage :: "int option"
  od_margin_mode :: "string option"
  od_tp_price :: "rat option"
  od_sl_price :: "rat option"
  od_status :: string
  od_exchange_order_id :: "string option"
  od_error_msg :: "string option"
  od_actual_fill_price :: "rat option"
  od_pnl :: "rat option"
  od_account_id :: "string option"
  od_exchange_fee :: "rat option"
  od_closes_position :: "nat option"
  od_signal_source :: "string option"
  od_signal_metadata :: metadata
  od_indicator_price :: "rat option"
  od_signal_log_id :: "nat option"
  od_mark_price :: "rat option"
  od_raw_webhook :: "webhook_payload option"

text \<open>\<open>order_price_history\<close>, \<open>signal_log\<close> and \<open>strategy_webhook_calls\<close>.\<close>

record price_step =
  ps_order_id :: nat
  ps_seq :: nat
  ps_price :: "rat option"
  ps_sl_price :: "rat option"
  ps_tp_price :: "rat option"
  ps_size :: rat
  ps_source :: string

record signal_log_entry =
  sg_strategy :: string
  sg_http_status :: "nat option"
  sg_outcome :: "string option"
  sg_error_detail :: "string option"

record listener_world =
  lw_strategies :: "listener_strategy list"
  lw_positions :: "listener_position list"
  lw_orders :: "listener_order list"
  lw_price_history :: "price_step list"
  lw_signal_log :: "signal_log_entry list"
  lw_webhook_calls :: "(string \<times> nat \<times> string option) list"
  lw_sent :: "exec_request list"

section \<open>Environment\<close>

text \<open>The guarded statements: each has a handler of its own around it.\<close>

datatype db_stmt =
    Book_pnl | Drawdown_check | Close_order_insert | Last_signal_update | Conflict_query | Min_size_lookup
  | Reanchor_update | Persist_stops | Flip_lookup | Position_mode_query | Signal_log_insert
  | Signal_log_update | Fill_write

text \<open>
  What the services and the database answer. An answer to a request that changes something
  may depend on how many such requests were sent before; a read is a function of its
  arguments and of that number.
\<close>

record listener_env =
  le_now :: datetime
  le_db_fails :: "db_stmt \<Rightarrow> bool"
  le_cached_strategy :: "string \<Rightarrow> listener_strategy option"
  le_position_mode :: "string \<Rightarrow> string option"
  le_mark_price :: "nat \<Rightarrow> string \<Rightarrow> string \<Rightarrow> rat option reply"
  le_maintenance_margin :: "string \<Rightarrow> string \<Rightarrow> rat \<Rightarrow> string \<Rightarrow> rat option reply"
  le_min_base_size :: "string \<Rightarrow> string \<Rightarrow> rat option reply"
  le_trigger_orders :: "nat \<Rightarrow> string \<Rightarrow> string \<Rightarrow> leg_side \<Rightarrow> trigger_order list option reply"
  le_execute :: "nat \<Rightarrow> order_request \<Rightarrow> order_result reply"
  le_close_position :: "nat \<Rightarrow> string \<Rightarrow> string \<Rightarrow> leg_side \<Rightarrow> rat option \<Rightarrow> order_result reply"
  le_modify_stops :: "nat \<Rightarrow> string \<Rightarrow> string \<Rightarrow> leg_side \<Rightarrow> rat option \<Rightarrow> rat option \<Rightarrow> stops_result reply"
  le_cancel_order :: "nat \<Rightarrow> string \<Rightarrow> string \<Rightarrow> string \<Rightarrow> bool reply"
  le_amend_order :: "nat \<Rightarrow> string \<Rightarrow> string \<Rightarrow> string \<Rightarrow> rat option \<Rightarrow> rat option \<Rightarrow> amend_result reply"

section \<open>The executor client\<close>

definition route_failed :: "string option \<Rightarrow> order_result" where
  "route_failed msg = \<lparr>or_success = False, or_exchange_order_id = None, or_status = ''route_failed'',
     or_error_msg = msg, or_actual_fill_price = None, or_actual_fill_size = None, or_pnl = None,
     or_realized_pnl = None, or_fee = None\<rparr>"

definition reply_error :: "'a reply \<Rightarrow> string option" where
  "reply_error r = (case r of Answer _ \<Rightarrow> None | Timed_out \<Rightarrow> Some ''Executor timeout after 30s''
     | Http_error _ \<Rightarrow> Some ''Executor returned HTTP'' | Broken msg \<Rightarrow> Some msg)"

definition result_of_reply :: "order_result reply \<Rightarrow> order_result" where
  "result_of_reply r = (case r of Answer x \<Rightarrow> x | _ \<Rightarrow> route_failed (reply_error r))"

definition sent_count :: "listener_world \<Rightarrow> nat" where
  "sent_count w = length (lw_sent w)"

definition send :: "exec_request \<Rightarrow> listener_world \<Rightarrow> listener_world" where
  "send r w = w\<lparr>lw_sent := lw_sent w @ [r]\<rparr>"

definition call_executor :: "listener_env \<Rightarrow> order_request \<Rightarrow> listener_world \<Rightarrow> order_result \<times> listener_world" where
  "call_executor E rq w = (result_of_reply (le_execute E (sent_count w) rq), send (Execute rq) w)"

definition call_executor_close_position ::
  "listener_env \<Rightarrow> string \<Rightarrow> string \<Rightarrow> leg_side \<Rightarrow> rat option \<Rightarrow> listener_world \<Rightarrow> order_result \<times> listener_world" where
  "call_executor_close_position E account symbol side sz w =
     (result_of_reply (le_close_position E (sent_count w) account symbol side sz),
      send (Close_position account symbol side sz) w)"

definition stops_failed :: "string option \<Rightarrow> stops_result" where
  "stops_failed msg = \<lparr>sr_success = False, sr_sl_ok = None, sr_tp_ok = None, sr_error_msg = msg, sr_preserved = []\<rparr>"

definition call_executor_modify_stops ::
  "listener_env \<Rightarrow> string \<Rightarrow> string \<Rightarrow> leg_side \<Rightarrow> rat option \<Rightarrow> rat option \<Rightarrow> listener_world
   \<Rightarrow> stops_result \<times> listener_world" where
  "call_executor_modify_stops E account symbol side tp sl w =
     ((case le_modify_stops E (sent_count w) account symbol side tp sl of
         Answer x \<Rightarrow> x | r \<Rightarrow> stops_failed (reply_error r)),
      send (Modify_stops account symbol side tp sl) w)"

definition call_executor_cancel_order ::
  "listener_env \<Rightarrow> string \<Rightarrow> string \<Rightarrow> string \<Rightarrow> listener_world \<Rightarrow> bool \<times> listener_world" where
  "call_executor_cancel_order E account symbol order_id w =
     ((case le_cancel_order E (sent_count w) account symbol order_id of Answer ok \<Rightarrow> ok | _ \<Rightarrow> False),
      send (Cancel_order account symbol order_id) w)"

definition amend_failed :: amend_result where
  "amend_failed = \<lparr>am_success = False, am_order_id = None, am_cancelled_order_id = None,
     am_original_cancelled = False\<rparr>"

definition call_executor_amend_order ::
  "listener_env \<Rightarrow> string \<Rightarrow> string \<Rightarrow> string \<Rightarrow> rat option \<Rightarrow> rat option \<Rightarrow> listener_world
   \<Rightarrow> amend_result \<times> listener_world" where
  "call_executor_amend_order E account symbol order_id new_price new_size w =
     ((case le_amend_order E (sent_count w) account symbol order_id new_price new_size of
         Answer x \<Rightarrow> x | _ \<Rightarrow> amend_failed),
      send (Amend_order account symbol order_id new_price new_size) w)"

text \<open>A GET answers a decoded body or nothing.\<close>

definition get_mark_price :: "listener_env \<Rightarrow> string \<Rightarrow> string \<Rightarrow> listener_world \<Rightarrow> rat option" where
  "get_mark_price E account symbol w =
     (case le_mark_price E (sent_count w) account symbol of Answer p \<Rightarrow> p | _ \<Rightarrow> None)"

definition get_maintenance_margin :: "listener_env \<Rightarrow> string \<Rightarrow> string \<Rightarrow> rat \<Rightarrow> string \<Rightarrow> rat option" where
  "get_maintenance_margin E account symbol notional margin_mode =
     (case le_maintenance_margin E account symbol notional margin_mode of Answer m \<Rightarrow> m | _ \<Rightarrow> None)"

text \<open>A trigger read is confirmed (a list) or unknown (\<open>None\<close>, also for a body that is not a list).\<close>

definition get_trigger_orders ::
  "listener_env \<Rightarrow> string \<Rightarrow> string \<Rightarrow> leg_side \<Rightarrow> listener_world \<Rightarrow> trigger_order list option" where
  "get_trigger_orders E account symbol side w =
     (case le_trigger_orders E (sent_count w) account symbol side of Answer ts \<Rightarrow> ts | _ \<Rightarrow> None)"

section \<open>Rows\<close>

definition strategy_by_id :: "string \<Rightarrow> listener_world \<Rightarrow> listener_strategy option" where
  "strategy_by_id sid w = find (\<lambda>s. ls_id s = sid) (lw_strategies w)"

definition order_by_id :: "nat \<Rightarrow> listener_world \<Rightarrow> listener_order option" where
  "order_by_id oid w = find (\<lambda>r. od_id r = oid) (lw_orders w)"

definition position_by_id :: "nat \<Rightarrow> listener_world \<Rightarrow> listener_position option" where
  "position_by_id pid w = find (\<lambda>p. po_id p = pid) (lw_positions w)"

definition leg_matches :: "string \<Rightarrow> string \<Rightarrow> leg_side \<Rightarrow> listener_position \<Rightarrow> bool" where
  "leg_matches sid symbol side p \<longleftrightarrow> po_open p \<and> po_strategy p = sid \<and> po_symbol p = symbol \<and> po_side p = side"

definition find_open_leg :: "string \<Rightarrow> string \<Rightarrow> leg_side \<Rightarrow> listener_world \<Rightarrow> listener_position option" where
  "find_open_leg sid symbol side w = find (leg_matches sid symbol side) (lw_positions w)"

definition set_order :: "nat \<Rightarrow> (listener_order \<Rightarrow> listener_order) \<Rightarrow> listener_world \<Rightarrow> listener_world" where
  "set_order oid f w = w\<lparr>lw_orders := update_where (\<lambda>r. od_id r = oid) f (lw_orders w)\<rparr>"

definition set_position :: "nat \<Rightarrow> (listener_position \<Rightarrow> listener_position) \<Rightarrow> listener_world \<Rightarrow> listener_world" where
  "set_position pid f w = w\<lparr>lw_positions := update_where (\<lambda>p. po_id p = pid) f (lw_positions w)\<rparr>"

definition set_strategy :: "string \<Rightarrow> (listener_strategy \<Rightarrow> listener_strategy) \<Rightarrow> listener_world \<Rightarrow> listener_world" where
  "set_strategy sid f w = w\<lparr>lw_strategies := update_where (\<lambda>s. ls_id s = sid) f (lw_strategies w)\<rparr>"

text \<open>\<open>signal_metadata || patch\<close>.\<close>

definition merge_meta :: "metadata \<Rightarrow> metadata \<Rightarrow> metadata" where
  "merge_meta patch m = fold (\<lambda>(k, v). AList.update k v) patch m"

end
