(* ===== verification/ClosePosition.thy ===== *)
theory ClosePosition
  imports ListenerState
begin

text \<open>
  \<open>order-listener/app/webhook_handler.py\<close>: closing and reducing a strategy's legs, booking
  what they realised, the drawdown stop a booking can trigger, and flattening a strategy.
  Closing books, booking may flatten and flattening closes: the recursion runs on a fuel
  that is the number of rows of the positions table, which \<open>CloseSafety\<close> proves is enough.
\<close>

section \<open>Drawdown\<close>

definition is_drawdown_breached :: "rat \<Rightarrow> rat \<Rightarrow> rat \<Rightarrow> bool" where
  "is_drawdown_breached cap_alloc peak max_dd_pct \<longleftrightarrow>
     \<not> peak \<le> 0 \<and> cap_alloc \<le> peak * (1 - max_dd_pct / 100)"

text \<open>\<open>x or default\<close>: a missing number and zero both give the default.\<close>

definition num_or :: "rat option \<Rightarrow> rat \<Rightarrow> rat" where
  "num_or x d = (case x of None \<Rightarrow> d | Some v \<Rightarrow> if v = 0 then d else v)"

definition strategy_breached :: "listener_strategy \<Rightarrow> bool" where
  "strategy_breached s =
     (let cap = ls_capital_allocation s
      in is_drawdown_breached cap (num_or (ls_allocation_peak s) cap) (num_or (ls_max_drawdown_pct s) 50))"

definition disable_strategy :: "string \<Rightarrow> string \<Rightarrow> listener_world \<Rightarrow> listener_world" where
  "disable_strategy sid reason = set_strategy sid (\<lambda>s. s\<lparr>ls_enabled := False, ls_stop_reason := Some reason\<rparr>)"

text \<open>What a strategy's legs are flattened with; the booking and closing below take it as an argument.\<close>

type_synonym flattener = "string \<Rightarrow> string \<Rightarrow> listener_world \<Rightarrow> listener_world"

definition account_of :: "listener_strategy \<Rightarrow> string" where
  "account_of s = (case ls_account_id s of None \<Rightarrow> [] | Some a \<Rightarrow> a)"

definition disable_if_drawdown_breached ::
  "flattener \<Rightarrow> listener_env \<Rightarrow> string \<Rightarrow> listener_world \<Rightarrow> listener_world" where
  "disable_if_drawdown_breached flat E sid w =
     (if le_db_fails E Drawdown_check then w
      else case strategy_by_id sid w of
        None \<Rightarrow> w
      | Some s \<Rightarrow>
          if \<not> ls_enabled s then w
          else if strategy_breached s then disable_strategy sid ''drawdown'' (flat sid (account_of s) w)
          else w)"

section \<open>Booking\<close>

definition book_row :: "rat \<Rightarrow> listener_strategy \<Rightarrow> listener_strategy" where
  "book_row pnl s = s\<lparr>
     ls_pnl_today := ls_pnl_today s + pnl,
     ls_pnl_total := ls_pnl_total s + pnl,
     ls_capital_allocation := ls_capital_allocation s + pnl,
     ls_allocation_peak := Some (max (the (coalesce (ls_allocation_peak s) (Some (ls_capital_allocation s))))
                                     (ls_capital_allocation s + pnl))\<rparr>"

definition book_realized_pnl ::
  "flattener \<Rightarrow> listener_env \<Rightarrow> string \<Rightarrow> rat option \<Rightarrow> listener_world \<Rightarrow> listener_world" where
  "book_realized_pnl flat E sid pnl w =
     (case pnl of
        None \<Rightarrow> w
      | Some x \<Rightarrow>
          if le_db_fails E Book_pnl then w
          else disable_if_drawdown_breached flat E sid (set_strategy sid (book_row x) w))"

section \<open>Resizing stops after a partial close\<close>

definition unconfirmed_patch :: "string option \<Rightarrow> metadata" where
  "unconfirmed_patch detail =
     [(''sl_placement_unconfirmed'', M_bool True),
      (''sl_placement_unconfirmed_detail'', case detail of None \<Rightarrow> M_null | Some d \<Rightarrow> M_text d)]"

definition flag_sl_unconfirmed :: "nat \<Rightarrow> string option \<Rightarrow> listener_world \<Rightarrow> listener_world" where
  "flag_sl_unconfirmed oid detail =
     set_order oid (\<lambda>r. r\<lparr>od_signal_metadata := merge_meta (unconfirmed_patch detail) (od_signal_metadata r)\<rparr>)"

definition recorded_stops :: "nat option \<Rightarrow> listener_world \<Rightarrow> rat option \<times> rat option" where
  "recorded_stops opening w =
     (case opening of
        None \<Rightarrow> (None, None)
      | Some oid \<Rightarrow> (case order_by_id oid w of None \<Rightarrow> (None, None) | Some r \<Rightarrow> (od_tp_price r, od_sl_price r)))"

definition resize_stops_after_partial_close ::
  "listener_env \<Rightarrow> string \<Rightarrow> string \<Rightarrow> leg_side \<Rightarrow> rat option \<Rightarrow> rat option \<Rightarrow> bool \<Rightarrow> nat option
   \<Rightarrow> listener_world \<Rightarrow> listener_world" where
  "resize_stops_after_partial_close E acct symbol side pre_tp pre_sl pre_read_failed opening w =
     (let (tp, sl) = (if pre_read_failed then recorded_stops opening w else (pre_tp, pre_sl))
      in if tp = None \<and> sl = None then
           (case opening of
              Some oid \<Rightarrow> if pre_read_failed then flag_sl_unconfirmed oid (Some ''unknown stop'') w else w
            | None \<Rightarrow> w)
         else
          (let (res, w1) = call_executor_modify_stops E acct symbol side tp sl w
           in case opening of
                Some oid \<Rightarrow> if sl \<noteq> None \<and> sr_sl_ok res \<noteq> Some True
                             then flag_sl_unconfirmed oid (sr_error_msg res) w1 else w1
              | None \<Rightarrow> w1))"

text \<open>The last target and the last stop among the resting triggers that carry a price.\<close>

definition trigger_price :: "stop_kind \<Rightarrow> trigger_order list \<Rightarrow> rat option" where
  "trigger_price k ts =
     fold (\<lambda>t acc. if tg_kind t = k \<and> tg_trigger_px t \<noteq> None then tg_trigger_px t else acc) ts None"

section \<open>Closing a leg\<close>

record close_result =
  cl_success :: bool
  cl_status :: string
  cl_error_msg :: "string option"
  cl_fill_price :: "rat option"
  cl_realized_pnl :: "rat option"
  cl_fee :: "rat option"
  cl_is_full :: "bool option"
  cl_position_id :: "nat option"
  cl_exchange_order_id :: "string option"

definition close_failed :: "string \<Rightarrow> string option \<Rightarrow> close_result" where
  "close_failed status msg = \<lparr>cl_success = False, cl_status = status, cl_error_msg = msg,
     cl_fill_price = None, cl_realized_pnl = None, cl_fee = None, cl_is_full = None,
     cl_position_id = None, cl_exchange_order_id = None\<rparr>"

definition close_of_result :: "order_result \<Rightarrow> close_result" where
  "close_of_result r = \<lparr>cl_success = or_success r, cl_status = or_status r, cl_error_msg = or_error_msg r,
     cl_fill_price = or_actual_fill_price r, cl_realized_pnl = or_realized_pnl r, cl_fee = or_fee r,
     cl_is_full = None, cl_position_id = None, cl_exchange_order_id = or_exchange_order_id r\<rparr>"

text \<open>The parameters of a close.\<close>

record close_call =
  cc_symbol :: string
  cc_side :: leg_side
  cc_size :: "rat option"
  cc_closing_order :: "nat option"
  cc_reason :: "string option"
  cc_skip_exchange :: bool
  cc_fill_price :: "rat option"
  cc_realized_pnl :: "rat option"
  cc_fee :: "rat option"

definition effective_close_size :: "rat option \<Rightarrow> rat \<Rightarrow> rat" where
  "effective_close_size requested current = (case requested of None \<Rightarrow> current | Some z \<Rightarrow> min z current)"

text \<open>What was settled on the exchange before the books are written.\<close>

record settled_close =
  se_position :: listener_position
  se_full :: bool
  se_size :: rat
  se_fill_price :: "rat option"
  se_realized_pnl :: "rat option"
  se_fee :: "rat option"
  se_open_fee :: rat
  se_exchange_order_id :: "string option"
  se_pre_tp :: "rat option"
  se_pre_sl :: "rat option"
  se_pre_read_failed :: bool

definition filled_size :: "bool \<Rightarrow> rat option \<Rightarrow> rat \<Rightarrow> rat \<Rightarrow> rat" where
  "filled_size is_full filled requested current =
     (case filled of
        Some f \<Rightarrow> if \<not> is_full \<and> 0 < f then min f current else requested
      | None \<Rightarrow> requested)"

text \<open>What the opening order paid, joined to the position's row when it is read.\<close>

definition opening_fee :: "listener_position \<Rightarrow> listener_world \<Rightarrow> rat" where
  "opening_fee pos w =
     (case po_opening_order pos of
        None \<Rightarrow> 0
      | Some oid \<Rightarrow> (case order_by_id oid w of None \<Rightarrow> 0 | Some r \<Rightarrow> or_zero (od_exchange_fee r)))"

definition begin_close ::
  "listener_env \<Rightarrow> string \<Rightarrow> string \<Rightarrow> close_call \<Rightarrow> listener_world
   \<Rightarrow> (close_result + settled_close) \<times> listener_world" where
  "begin_close E sid acct c w =
     (case find_open_leg sid (cc_symbol c) (cc_side c) w of
        None \<Rightarrow> (Inl (close_failed ''no_position_to_close'' (Some ''No open position'')), w)
      | Some pos \<Rightarrow>
         (let current = po_size pos;
              eff = effective_close_size (cc_size c) current;
              is_full = (current \<le> eff);
              triggers = (if is_full then Some [] else get_trigger_orders E acct (cc_symbol c) (cc_side c) w);
              settled = \<lparr>se_position = pos, se_full = is_full, se_size = eff,
                 se_fill_price = cc_fill_price c, se_realized_pnl = cc_realized_pnl c, se_fee = cc_fee c,
                 se_open_fee = opening_fee pos w,
                 se_exchange_order_id = None,
                 se_pre_tp = trigger_price Tp_trigger (case triggers of None \<Rightarrow> [] | Some ts \<Rightarrow> ts),
                 se_pre_sl = trigger_price Sl_trigger (case triggers of None \<Rightarrow> [] | Some ts \<Rightarrow> ts),
                 se_pre_read_failed = (triggers = None)\<rparr>
          in if cc_skip_exchange c then (Inr settled, w)
             else
              (let (r, w1) = call_executor_close_position E acct (cc_symbol c) (cc_side c)
                               (if is_full then None else Some eff) w
               in if \<not> or_success r then (Inl (close_of_result r), w1)
                  else (Inr (settled\<lparr>se_fill_price := or_actual_fill_price r,
                                      se_realized_pnl := or_realized_pnl r, se_fee := or_fee r,
                                      se_exchange_order_id := or_exchange_order_id r,
                                      se_size := filled_size is_full (or_actual_fill_size r) eff current\<rparr>), w1))))"

text \<open>The position's figure is net of the fees of the close and of the opening order.\<close>

definition net_realized_pnl :: "settled_close \<Rightarrow> rat option" where
  "net_realized_pnl s = map_option (\<lambda>x. x - se_open_fee s - or_zero (se_fee s)) (se_realized_pnl s)"

definition closing_side :: "leg_side \<Rightarrow> buy_sell" where
  "closing_side side = (case side of Long_leg \<Rightarrow> Sell_side | Short_leg \<Rightarrow> Buy_side)"

definition closing_signal :: "string option \<Rightarrow> leg_side \<Rightarrow> string" where
  "closing_signal reason side =
     (if reason = Some ''Closed on exchange'' then ''exchange_close''
      else signal_name (case side of Long_leg \<Rightarrow> Close_long | Short_leg \<Rightarrow> Close_short))"

definition closing_source :: "string option \<Rightarrow> string" where
  "closing_source reason =
     (if reason = Some ''manual_close'' then ''manual''
      else if reason = Some ''Closed on exchange'' then ''reconciler'' else ''system'')"

definition synthetic_close :: "nat \<Rightarrow> string \<Rightarrow> string \<Rightarrow> close_call \<Rightarrow> settled_close \<Rightarrow> listener_order" where
  "synthetic_close oid sid acct c s =
     \<lparr>od_id = oid, od_strategy = sid, od_symbol = cc_symbol c, od_side = closing_side (cc_side c),
      od_signal = closing_signal (cc_reason c) (cc_side c), od_order_type = ''market'', od_size = se_size s,
      od_price = None, od_leverage = None, od_margin_mode = None, od_tp_price = None, od_sl_price = None,
      od_status = ''filled'', od_exchange_order_id = None, od_error_msg = None,
      od_actual_fill_price = se_fill_price s, od_pnl = se_realized_pnl s,
      od_account_id = (if acct = [] then None else Some acct), od_exchange_fee = se_fee s,
      od_closes_position = None, od_signal_source = Some (closing_source (cc_reason c)),
      od_signal_metadata = [], od_indicator_price = None, od_signal_log_id = None, od_mark_price = None,
      od_raw_webhook = None\<rparr>"

definition add_order :: "listener_order \<Rightarrow> listener_world \<Rightarrow> listener_world" where
  "add_order r w = w\<lparr>lw_orders := lw_orders w @ [r]\<rparr>"

text \<open>Every executed close gets an order row; failing to write it does not undo the close.\<close>

definition ensure_close_order ::
  "listener_env \<Rightarrow> string \<Rightarrow> string \<Rightarrow> close_call \<Rightarrow> settled_close \<Rightarrow> listener_world \<Rightarrow> nat option \<times> listener_world" where
  "ensure_close_order E sid acct c s w =
     (case cc_closing_order c of
        Some oid \<Rightarrow> (Some oid, w)
      | None \<Rightarrow>
          if le_db_fails E Close_order_insert then (None, w)
          else (let oid = length (lw_orders w) in (Some oid, add_order (synthetic_close oid sid acct c s) w)))"

definition close_row :: "datetime \<Rightarrow> close_call \<Rightarrow> settled_close \<Rightarrow> rat option \<Rightarrow> nat option
    \<Rightarrow> listener_position \<Rightarrow> listener_position" where
  "close_row now c s net closing p = p\<lparr>po_open := False, po_closing_price := se_fill_price s,
     po_pnl_realized := coalesce net (po_pnl_realized p), po_closing_order := closing,
     po_close_reason := cc_reason c, po_closed_at := Some now\<rparr>"

definition reduce_row :: "settled_close \<Rightarrow> listener_position \<Rightarrow> listener_position" where
  "reduce_row s p = p\<lparr>po_size := po_size p - se_size s\<rparr>"

text \<open>The position's row, updated only while it is still open, and the link from its order.\<close>

definition still_open :: "nat \<Rightarrow> listener_world \<Rightarrow> bool" where
  "still_open pid w = list_ex (\<lambda>p. po_id p = pid \<and> po_open p) (lw_positions w)"

definition link_close :: "nat option \<Rightarrow> nat \<Rightarrow> listener_world \<Rightarrow> listener_world" where
  "link_close closing pid w =
     (case closing of None \<Rightarrow> w | Some oid \<Rightarrow> set_order oid (\<lambda>r. r\<lparr>od_closes_position := Some pid\<rparr>) w)"

definition write_close ::
  "listener_env \<Rightarrow> close_call \<Rightarrow> settled_close \<Rightarrow> rat option \<Rightarrow> nat option \<Rightarrow> listener_world \<Rightarrow> listener_world" where
  "write_close E c s net closing w =
     (let pid = po_id (se_position s);
          f = (if se_full s then close_row (le_now E) c s net closing else reduce_row s)
      in link_close closing pid (set_position pid (\<lambda>p. if po_open p then f p else p) w))"

definition close_done :: "settled_close \<Rightarrow> close_result" where
  "close_done s = \<lparr>cl_success = True, cl_status = ''filled'', cl_error_msg = None,
     cl_fill_price = se_fill_price s, cl_realized_pnl = se_realized_pnl s, cl_fee = se_fee s,
     cl_is_full = Some (se_full s), cl_position_id = Some (po_id (se_position s)),
     cl_exchange_order_id = se_exchange_order_id s\<rparr>"

definition finish_close ::
  "flattener \<Rightarrow> listener_env \<Rightarrow> string \<Rightarrow> string \<Rightarrow> close_call \<Rightarrow> settled_close \<Rightarrow> listener_world
   \<Rightarrow> close_result \<times> listener_world" where
  "finish_close flat E sid acct c s w =
     (let net = net_realized_pnl s;
          (closing, w1) = ensure_close_order E sid acct c s w
      in if \<not> still_open (po_id (se_position s)) w1 then
           (close_failed ''race_condition'' (Some ''Position already closed by concurrent request''), w1)
         else
          (let w2 = write_close E c s net closing w1
           in (close_done s,
               if se_full s then book_realized_pnl flat E sid net w2
               else resize_stops_after_partial_close E acct (cc_symbol c) (cc_side c) (se_pre_tp s) (se_pre_sl s)
                      (se_pre_read_failed s) (po_opening_order (se_position s)) w2)))"

definition close_with ::
  "flattener \<Rightarrow> listener_env \<Rightarrow> string \<Rightarrow> string \<Rightarrow> close_call \<Rightarrow> listener_world \<Rightarrow> close_result \<times> listener_world" where
  "close_with flat E sid acct c w =
     (case begin_close E sid acct c w of
        (Inl r, w1) \<Rightarrow> (r, w1)
      | (Inr s, w1) \<Rightarrow> finish_close flat E sid acct c s w1)"

section \<open>Flattening\<close>

definition flatten_call :: "listener_position \<Rightarrow> close_call" where
  "flatten_call p = \<lparr>cc_symbol = po_symbol p, cc_side = po_side p, cc_size = None, cc_closing_order = None,
     cc_reason = Some ''flatten_on_disable'', cc_skip_exchange = False, cc_fill_price = None,
     cc_realized_pnl = None, cc_fee = None\<rparr>"

definition open_legs :: "string \<Rightarrow> listener_world \<Rightarrow> listener_position list" where
  "open_legs sid w = filter (\<lambda>p. po_open p \<and> po_strategy p = sid) (lw_positions w)"

definition close_each ::
  "flattener \<Rightarrow> listener_env \<Rightarrow> string \<Rightarrow> string \<Rightarrow> listener_position list \<Rightarrow> listener_world
   \<Rightarrow> close_result list \<times> listener_world" where
  "close_each flat E sid acct legs w =
     fold (\<lambda>p (rs, w). let (r, w') = close_with flat E sid acct (flatten_call p) w in (rs @ [r], w'))
       legs ([], w)"

fun flatten_strategy_positions :: "nat \<Rightarrow> listener_env \<Rightarrow> string \<Rightarrow> string \<Rightarrow> listener_world
    \<Rightarrow> close_result list \<times> listener_world" where
  "flatten_strategy_positions 0 E sid acct w = ([], w)"
| "flatten_strategy_positions (Suc n) E sid acct w =
     close_each (\<lambda>sid acct w. snd (flatten_strategy_positions n E sid acct w)) E sid acct (open_legs sid w) w"

definition flattener_of :: "listener_env \<Rightarrow> nat \<Rightarrow> flattener" where
  "flattener_of E n = (\<lambda>sid acct w. snd (flatten_strategy_positions n E sid acct w))"

definition close_strategy_position ::
  "listener_env \<Rightarrow> string \<Rightarrow> string \<Rightarrow> close_call \<Rightarrow> listener_world \<Rightarrow> close_result \<times> listener_world" where
  "close_strategy_position E sid acct c w =
     close_with (flattener_of E (length (lw_positions w))) E sid acct c w"

text \<open>The stop button: flatten, and disable when every close succeeded.\<close>

definition stop_strategy :: "listener_env \<Rightarrow> string \<Rightarrow> listener_world \<Rightarrow> (bool \<times> nat \<times> nat) result \<times> listener_world" where
  "stop_strategy E sid w =
     (case strategy_by_id sid w of
        None \<Rightarrow> (Inl (HTTPStatus 404), w)
      | Some s \<Rightarrow>
         (let (rs, w1) = flatten_strategy_positions (Suc (length (lw_positions w))) E sid (account_of s) w;
              failed = filter (\<lambda>r. \<not> cl_success r) rs
          in if failed = [] then (Inr (False, length rs, 0), disable_strategy sid ''user'' w1)
             else (Inr (ls_enabled s, length rs - length failed, length failed), w1)))"

text \<open>
  \<open>sync_position_pnl\<close> of \<open>order-listener/app/webhook_handler.py\<close>: what the closing orders of
  a position made is written to the position, and what the position did not have yet is
  booked to its strategy.
\<close>

definition closing_orders :: "nat \<Rightarrow> listener_world \<Rightarrow> listener_order list" where
  "closing_orders pid w = filter (\<lambda>r. od_closes_position r = Some pid \<and> od_pnl r \<noteq> None) (lw_orders w)"

text \<open>The aggregate over the closing orders with a figure, net of their fees and of the opening fee.\<close>

definition position_rollup :: "listener_position \<Rightarrow> listener_world \<Rightarrow> rat option" where
  "position_rollup p w =
     (let rs = closing_orders (po_id p) w
      in if rs = [] then None
         else Some (sum_list (map (\<lambda>r. or_zero (od_pnl r)) rs)
                    - sum_list (map (\<lambda>r. or_zero (od_exchange_fee r)) rs) - opening_fee p w))"

definition attribute_row :: "listener_world \<Rightarrow> listener_position \<Rightarrow> listener_position" where
  "attribute_row w p = (if po_pnl_realized p = None \<and> position_rollup p w \<noteq> None
     then p\<lparr>po_pnl_realized := position_rollup p w\<rparr> else p)"

definition newly_attributed :: "listener_world \<Rightarrow> (string \<times> rat) list" where
  "newly_attributed w =
     map (\<lambda>p. (po_strategy p, the (position_rollup p w)))
       (filter (\<lambda>p. po_pnl_realized p = None \<and> position_rollup p w \<noteq> None) (lw_positions w))"

definition correct_row :: "listener_world \<Rightarrow> listener_position \<Rightarrow> listener_position" where
  "correct_row w p = (if po_pnl_realized p \<noteq> None \<and> position_rollup p w \<noteq> None
       \<and> po_pnl_realized p \<noteq> position_rollup p w
     then p\<lparr>po_pnl_realized := position_rollup p w\<rparr> else p)"

definition corrections :: "listener_world \<Rightarrow> (string \<times> rat) list" where
  "corrections w =
     map (\<lambda>p. (po_strategy p, the (position_rollup p w) - the (po_pnl_realized p)))
       (filter (\<lambda>p. po_pnl_realized p \<noteq> None \<and> position_rollup p w \<noteq> None
          \<and> po_pnl_realized p \<noteq> position_rollup p w) (lw_positions w))"

definition book_each :: "listener_env \<Rightarrow> (string \<times> rat) list \<Rightarrow> listener_world \<Rightarrow> listener_world" where
  "book_each E bookings w =
     fold (\<lambda>(sid, x) w. book_realized_pnl (flattener_of E (length (lw_positions w))) E sid (Some x) w) bookings w"

definition sync_position_pnl :: "listener_env \<Rightarrow> listener_world \<Rightarrow> listener_world" where
  "sync_position_pnl E w =
     (let newly = newly_attributed w;
          w1 = w\<lparr>lw_positions := map (attribute_row w) (lw_positions w)\<rparr>;
          corrected = corrections w1;
          w2 = w1\<lparr>lw_positions := map (correct_row w1) (lw_positions w1)\<rparr>
      in book_each E corrected (book_each E newly w2))"

end
