(* ===== verification/ListenerOrders.thy ===== *)
theory ListenerOrders
  imports ClosePosition
begin

text \<open>
  \<open>order-listener/app/webhook_handler.py\<close>: the rows an order leaves while it is handled, and
  the position a fill makes or tops up. What is published on Redis is left out: publishing
  never raises and nothing in this service reads it back.
\<close>

section \<open>The signal log and the call log\<close>

definition log_webhook_call :: "string \<Rightarrow> nat \<Rightarrow> string option \<Rightarrow> listener_world \<Rightarrow> listener_world" where
  "log_webhook_call sid http err w = w\<lparr>lw_webhook_calls := lw_webhook_calls w @ [(sid, http, err)]\<rparr>"

definition insert_signal_log :: "listener_env \<Rightarrow> string \<Rightarrow> listener_world \<Rightarrow> nat option \<times> listener_world" where
  "insert_signal_log E sid w =
     (if le_db_fails E Signal_log_insert then (None, w)
      else (Some (length (lw_signal_log w)),
            w\<lparr>lw_signal_log := lw_signal_log w @
               [\<lparr>sg_strategy = sid, sg_http_status = None, sg_outcome = None, sg_error_detail = None\<rparr>]\<rparr>))"

definition finalize_signal_log ::
  "listener_env \<Rightarrow> nat option \<Rightarrow> nat \<Rightarrow> string \<Rightarrow> string option \<Rightarrow> listener_world \<Rightarrow> listener_world" where
  "finalize_signal_log E log_id http outcome detail w =
     (case log_id of
        None \<Rightarrow> w
      | Some i \<Rightarrow>
          if le_db_fails E Signal_log_update \<or> length (lw_signal_log w) \<le> i then w
          else w\<lparr>lw_signal_log := (lw_signal_log w)
                  [i := (lw_signal_log w ! i)\<lparr>sg_http_status := Some http, sg_outcome := Some outcome,
                                              sg_error_detail := detail\<rparr>]\<rparr>)"

section \<open>Order rows\<close>

definition payload_order ::
  "webhook_payload \<Rightarrow> nat \<Rightarrow> string \<Rightarrow> string \<Rightarrow> int \<Rightarrow> string \<Rightarrow> nat option \<Rightarrow> rat option \<Rightarrow> listener_order" where
  "payload_order p oid sid symbol leverage margin_mode log_id mark =
     \<lparr>od_id = oid, od_strategy = sid, od_symbol = symbol, od_side = wp_side p,
      od_signal = signal_name (wp_signal p), od_order_type = wp_order_type p, od_size = wp_size p,
      od_price = wp_price p, od_leverage = Some leverage, od_margin_mode = Some margin_mode,
      od_tp_price = wp_tp_price p, od_sl_price = wp_sl_price p, od_status = ''received'',
      od_exchange_order_id = None, od_error_msg = None, od_actual_fill_price = None, od_pnl = None,
      od_account_id = None, od_exchange_fee = None, od_closes_position = None,
      od_signal_source = wp_signal_source p,
      od_signal_metadata = (case wp_signal_metadata p of None \<Rightarrow> [] | Some m \<Rightarrow> m),
      od_indicator_price = wp_indicator_price p, od_signal_log_id = log_id, od_mark_price = mark,
      od_raw_webhook = Some p\<rparr>"

text \<open>A priced order also starts its price history, unless the step is there already.\<close>

definition add_price_step :: "price_step \<Rightarrow> listener_world \<Rightarrow> listener_world" where
  "add_price_step s w =
     (if list_ex (\<lambda>h. ps_order_id h = ps_order_id s \<and> ps_seq h = ps_seq s) (lw_price_history w) then w
      else w\<lparr>lw_price_history := lw_price_history w @ [s]\<rparr>)"

definition log_order ::
  "webhook_payload \<Rightarrow> nat \<Rightarrow> string \<Rightarrow> string \<Rightarrow> int \<Rightarrow> string \<Rightarrow> nat option \<Rightarrow> rat option
   \<Rightarrow> listener_world \<Rightarrow> listener_world" where
  "log_order p oid sid symbol leverage margin_mode log_id mark w =
     (let w1 = add_order (payload_order p oid sid symbol leverage margin_mode log_id mark) w
      in if wp_price p = None then w1
         else add_price_step \<lparr>ps_order_id = oid, ps_seq = 0, ps_price = wp_price p,
                ps_sl_price = wp_sl_price p, ps_tp_price = wp_tp_price p, ps_size = wp_size p,
                ps_source = ''placement''\<rparr> w1)"

definition status_row :: "string \<Rightarrow> order_result option \<Rightarrow> string \<Rightarrow> listener_order \<Rightarrow> listener_order" where
  "status_row status result account r =
     r\<lparr>od_status := status,
       od_exchange_order_id := Option.bind result or_exchange_order_id,
       od_error_msg := Option.bind result or_error_msg,
       od_actual_fill_price := Option.bind result or_actual_fill_price,
       od_pnl := Option.bind result or_realized_pnl,
       od_account_id := (if account = [] then None else Some account),
       od_exchange_fee := Option.bind result or_fee,
       od_size := (case Option.bind result or_actual_fill_size of
                     Some z \<Rightarrow> if status = ''filled'' \<and> z \<noteq> 0 then z else od_size r
                   | None \<Rightarrow> od_size r)\<rparr>"

definition update_order_status :: "nat \<Rightarrow> string \<Rightarrow> order_result option \<Rightarrow> string \<Rightarrow> listener_world \<Rightarrow> listener_world" where
  "update_order_status oid status result account = set_order oid (status_row status result account)"

section \<open>The position of a fill\<close>

definition side_leg :: "buy_sell \<Rightarrow> leg_side" where
  "side_leg s = (case s of Buy_side \<Rightarrow> Long_leg | Sell_side \<Rightarrow> Short_leg)"

definition payload_symbol :: "webhook_payload \<Rightarrow> string" where
  "payload_symbol p = wp_base_asset p @ ''-'' @ wp_quote_asset p"

text \<open>\<open>fill or price or indicator_price or 0\<close>.\<close>

definition fill_price_of :: "order_result \<Rightarrow> webhook_payload \<Rightarrow> rat" where
  "fill_price_of r p = num_or (or_actual_fill_price r) (num_or (wp_price p) (num_or (wp_indicator_price p) 0))"

definition new_position ::
  "datetime \<Rightarrow> nat \<Rightarrow> webhook_payload \<Rightarrow> string \<Rightarrow> nat \<Rightarrow> order_result \<Rightarrow> int \<Rightarrow> string \<Rightarrow> rat \<Rightarrow> listener_position" where
  "new_position now pid p sid oid r leverage margin_mode fill_size =
     \<lparr>po_id = pid, po_strategy = sid, po_symbol = payload_symbol p, po_side = side_leg (wp_side p),
      po_entry_price = fill_price_of r p, po_size = fill_size, po_leverage = leverage,
      po_margin_mode = margin_mode, po_opening_order = Some oid, po_open = True, po_opened_at = now,
      po_closing_price = None, po_pnl_realized = None, po_closing_order = None, po_close_reason = None,
      po_closed_at = None, po_liquidation_price = None, po_miss_count = 0, po_divergent = False,
      po_exchange_size = None, po_divergence_at = None,
     po_mfe_price = None, po_mae_price = None, po_mfe_r = None, po_mae_r = None, po_excursion_samples = 0,
     po_excursion_first_at = None, po_excursion_last_at = None\<rparr>"

text \<open>
  The insert raises when the strategy already has an open leg with that symbol and side
  (the unique index \<open>uq_strat_pos_one_open\<close>); \<open>RuntimeError\<close> stands for the database error.
\<close>

definition create_strategy_position ::
  "listener_env \<Rightarrow> webhook_payload \<Rightarrow> string \<Rightarrow> nat \<Rightarrow> order_result \<Rightarrow> int \<Rightarrow> string \<Rightarrow> rat
   \<Rightarrow> listener_world \<Rightarrow> unit result \<times> listener_world" where
  "create_strategy_position E p sid oid r leverage margin_mode fill_size w =
     (if find_open_leg sid (payload_symbol p) (side_leg (wp_side p)) w \<noteq> None then (Inl RuntimeError, w)
      else (Inr (), w\<lparr>lw_positions := lw_positions w @
              [new_position (le_now E) (length (lw_positions w)) p sid oid r leverage margin_mode fill_size]\<rparr>))"

definition top_up_row :: "rat \<Rightarrow> rat \<Rightarrow> listener_position \<Rightarrow> listener_position" where
  "top_up_row fill_price fill_size q =
     q\<lparr>po_size := po_size q + fill_size,
       po_entry_price := (po_entry_price q * po_size q + fill_price * fill_size) / (po_size q + fill_size)\<rparr>"

definition apply_position_fill ::
  "listener_env \<Rightarrow> string \<Rightarrow> webhook_payload \<Rightarrow> string \<Rightarrow> nat \<Rightarrow> order_result \<Rightarrow> int \<Rightarrow> string
   \<Rightarrow> listener_world \<Rightarrow> unit result \<times> listener_world" where
  "apply_position_fill E sid p symbol oid r leverage margin_mode w =
     (let fill_size = num_or (or_actual_fill_size r) (wp_size p)
      in if le_db_fails E Fill_write then (Inl RuntimeError, w)
         else case find_open_leg sid symbol (side_leg (wp_side p)) w of
           Some q \<Rightarrow>
             if po_size q + fill_size = 0 then (Inl ZeroDivisionError, w)
             else (Inr (), set_position (po_id q) (top_up_row (fill_price_of r p) fill_size) w)
         | None \<Rightarrow> create_strategy_position E p sid oid r leverage margin_mode fill_size w)"

end
