(* ===== verification/StopLevels.thy ===== *)
theory StopLevels
  imports Prelude
begin

text \<open>
  The stop arithmetic of the order listener: \<open>app/stop_revalidation.py\<close>, the
  guaranteed stop of \<open>app/webhook_handler.py\<close> and the fallback maintenance margin of
  \<open>app/config.py\<close>. The Decimals of the first and the floats of the others are rationals.
\<close>

section \<open>Revalidating stops against the fill\<close>

definition MIN_STOP_DIST_FRAC :: rat where "MIN_STOP_DIST_FRAC = 1 / 1000"
definition DISTANCE_TOLERANCE :: rat where "DISTANCE_TOLERANCE = 2 / 100"

definition frac_dist :: "rat \<Rightarrow> price \<Rightarrow> rat" where
  "frac_dist ref p =
     (if ref \<le> 0 then MIN_STOP_DIST_FRAC else max (\<bar>ref - p\<bar> / ref) MIN_STOP_DIST_FRAC)"

definition distance_drifted :: "rat \<Rightarrow> rat \<Rightarrow> price \<Rightarrow> bool" where
  "distance_drifted ref fill stop =
     (let asked = frac_dist ref stop; got = \<bar>fill - stop\<bar> / fill
      in asked * DISTANCE_TOLERANCE < \<bar>got - asked\<bar>)"

text \<open>The \<open>changes\<close> dictionary: the old and the new level of each re-anchored leg.\<close>

record stop_changes =
  sc_sl :: "(price \<times> price) option"
  sc_tp :: "(price \<times> price) option"

definition no_changes :: stop_changes where
  "no_changes = \<lparr>sc_sl = None, sc_tp = None\<rparr>"

definition sl_viable :: "bool \<Rightarrow> rat \<Rightarrow> price \<Rightarrow> bool" where
  "sl_viable long_side fill sl =
     (if long_side then sl \<le> fill * (1 - MIN_STOP_DIST_FRAC) else fill * (1 + MIN_STOP_DIST_FRAC) \<le> sl)"

definition tp_viable :: "bool \<Rightarrow> rat \<Rightarrow> price \<Rightarrow> bool" where
  "tp_viable long_side fill tp =
     (if long_side then fill * (1 + MIN_STOP_DIST_FRAC) \<le> tp else tp \<le> fill * (1 - MIN_STOP_DIST_FRAC))"

definition anchored_sl :: "bool \<Rightarrow> rat \<Rightarrow> rat \<Rightarrow> price \<Rightarrow> price" where
  "anchored_sl long_side ref fill sl =
     (let dist = frac_dist ref sl in if long_side then fill * (1 - dist) else fill * (1 + dist))"

definition anchored_tp :: "bool \<Rightarrow> rat \<Rightarrow> rat \<Rightarrow> price \<Rightarrow> price" where
  "anchored_tp long_side ref fill tp =
     (let dist = frac_dist ref tp in if long_side then fill * (1 + dist) else fill * (1 - dist))"

definition revalidate_leg ::
  "(price \<Rightarrow> bool) \<Rightarrow> (price \<Rightarrow> price) \<Rightarrow> bool \<Rightarrow> rat \<Rightarrow> rat \<Rightarrow> price option \<Rightarrow>
   price option \<times> (price \<times> price) option" where
  "revalidate_leg viable anchored distance_based ref fill level =
     (case level of
        None \<Rightarrow> (None, None)
      | Some p \<Rightarrow>
          if viable p \<and> \<not> (distance_based \<and> distance_drifted ref fill p) then (Some p, None)
          else (Some (anchored p), Some (p, anchored p)))"

definition revalidate_stops_for_fill ::
  "string \<Rightarrow> price option \<Rightarrow> price option \<Rightarrow> price option \<Rightarrow> price option \<Rightarrow> bool \<Rightarrow>
   price option \<times> price option \<times> stop_changes" where
  "revalidate_stops_for_fill side ref_price fill_price sl tp distance_based =
     (let ref = or_zero ref_price; fill = or_zero fill_price; long_side = (side = ''long'')
      in if fill \<le> 0 then (sl, tp, no_changes)
         else
          (let (sl', dsl) = revalidate_leg (sl_viable long_side fill) (anchored_sl long_side ref fill)
                              distance_based ref fill sl;
               (tp', dtp) = revalidate_leg (tp_viable long_side fill) (anchored_tp long_side ref fill)
                              distance_based ref fill tp
           in (sl', tp', \<lparr>sc_sl = dsl, sc_tp = dtp\<rparr>)))"

section \<open>The guaranteed stop\<close>

definition infer_price_decimals :: "price \<Rightarrow> nat" where
  "infer_price_decimals p =
     (if 10000 \<le> p then 1 else if 1000 \<le> p then 2 else if 100 \<le> p then 3
      else if 10 \<le> p then 4 else if 1 \<le> p then 5 else 6)"

definition MMR_CONSERVATISM_BUFFER :: rat where "MMR_CONSERVATISM_BUFFER = 15 / 10000"
definition DEGENERATE_SL_DIST :: rat where "DEGENERATE_SL_DIST = 5 / 10000"

definition fallback_mmr :: "int \<Rightarrow> rat" where
  "fallback_mmr effective_leverage =
     (if effective_leverage \<le> 0 then 1
      else 1 / (2 * of_int effective_leverage) + MMR_CONSERVATISM_BUFFER)"

definition sl_distance :: "int \<Rightarrow> rat \<Rightarrow> rat" where
  "sl_distance effective_leverage mmr =
     (let natural = 1 / of_int effective_leverage - mmr
      in if natural \<le> 0 then DEGENERATE_SL_DIST else natural)"

definition liquidation_safe_sl :: "price \<Rightarrow> int \<Rightarrow> string \<Rightarrow> rat \<Rightarrow> price" where
  "liquidation_safe_sl entry_ref effective_leverage side mmr =
     (if side = ''long'' then entry_ref * (1 - sl_distance effective_leverage mmr)
      else entry_ref * (1 + sl_distance effective_leverage mmr))"

definition strategy_sl_valid :: "price \<Rightarrow> string \<Rightarrow> price option \<Rightarrow> bool" where
  "strategy_sl_valid entry_ref side strategy_sl =
     (case strategy_sl of
        None \<Rightarrow> False
      | Some sl \<Rightarrow> side = ''long'' \<and> sl < entry_ref \<or> side = ''short'' \<and> entry_ref < sl)"

definition guaranteed_level :: "price \<Rightarrow> int \<Rightarrow> string \<Rightarrow> price option \<Rightarrow> rat \<Rightarrow> price \<times> string" where
  "guaranteed_level entry_ref effective_leverage side strategy_sl mmr =
     (let sl_liq = liquidation_safe_sl entry_ref effective_leverage side mmr
      in if strategy_sl_valid entry_ref side strategy_sl then
           (let sl = the strategy_sl
            in if side = ''long'' then
                 (max sl sl_liq, if sl_liq \<le> sl then ''strategy'' else ''liquidation_safe'')
               else (min sl sl_liq, if sl \<le> sl_liq then ''strategy'' else ''liquidation_safe''))
         else (sl_liq, ''liquidation_safe''))"

definition compute_guaranteed_sl ::
  "price \<Rightarrow> int \<Rightarrow> string \<Rightarrow> price option \<Rightarrow> rat \<Rightarrow> (price \<times> string) result" where
  "compute_guaranteed_sl entry_ref effective_leverage side strategy_sl mmr =
     (if effective_leverage = 0 then Inl ZeroDivisionError
      else
       (let (sl_final, sl_source) = guaranteed_level entry_ref effective_leverage side strategy_sl mmr
        in Inr (py_round sl_final (infer_price_decimals entry_ref), sl_source)))"

section \<open>What the arithmetic promises\<close>

named_theorems level_defs "definitions of the stop arithmetic"

lemmas [level_defs] = frac_dist_def distance_drifted_def sl_viable_def tp_viable_def
  anchored_sl_def anchored_tp_def MIN_STOP_DIST_FRAC_def DISTANCE_TOLERANCE_def Let_def

lemma frac_dist_ge: "MIN_STOP_DIST_FRAC \<le> frac_dist ref p"
  by (simp add: frac_dist_def)

lemma anchored_sl_viable: "0 < fill \<Longrightarrow> sl_viable long_side fill (anchored_sl long_side ref fill sl)"
  using frac_dist_ge [of ref sl] by (simp add: sl_viable_def anchored_sl_def Let_def)

lemma anchored_tp_viable: "0 < fill \<Longrightarrow> tp_viable long_side fill (anchored_tp long_side ref fill tp)"
  using frac_dist_ge [of ref tp] by (simp add: tp_viable_def anchored_tp_def Let_def)

lemma viable_keeps_distance:
  assumes "0 < fill" "sl_viable b fill p \<or> tp_viable b fill p"
  shows "frac_dist fill p = \<bar>fill - p\<bar> / fill"
proof -
  have "fill * (1 / 1000) \<le> \<bar>fill - p\<bar>"
    using assms by (auto simp: sl_viable_def tp_viable_def MIN_STOP_DIST_FRAC_def algebra_simps split: if_splits)
  then have "1 / 1000 \<le> \<bar>fill - p\<bar> / fill" using assms(1) by (simp add: field_simps)
  then show ?thesis using assms(1) by (simp add: frac_dist_def MIN_STOP_DIST_FRAC_def)
qed

lemma viable_not_drifted:
  assumes "0 < fill" "sl_viable b fill p \<or> tp_viable b fill p"
  shows "\<not> distance_drifted fill fill p"
  using assms viable_keeps_distance [OF assms]
  by (simp add: distance_drifted_def DISTANCE_TOLERANCE_def not_less)

lemma revalidate_leg_settled:
  assumes "revalidate_leg viable anchored d ref fill level = (level', c)"
    and "\<And>p. viable p \<Longrightarrow> \<not> distance_drifted fill fill p" "\<And>p. viable (anchored p)"
  shows "revalidate_leg viable anchored' d fill fill level' = (level', None)"
    and "pred_option viable level'"
  using assms by (auto simp: revalidate_leg_def split: option.splits if_splits)

text \<open>The repaired bracket is viable, and revalidating it against its own fill changes nothing.\<close>

lemma revalidate_sound:
  assumes "0 < fill" "revalidate_stops_for_fill side ref (Some fill) sl tp d = (sl', tp', c)"
  shows "pred_option (sl_viable (side = ''long'') fill) sl'"
    and "pred_option (tp_viable (side = ''long'') fill) tp'"
    and "revalidate_stops_for_fill side (Some fill) (Some fill) sl' tp' d = (sl', tp', no_changes)"
proof -
  obtain c1 c2 where
    s: "revalidate_leg (sl_viable (side = ''long'') fill) (anchored_sl (side = ''long'') (or_zero ref) fill)
          d (or_zero ref) fill sl = (sl', c1)"
    and t: "revalidate_leg (tp_viable (side = ''long'') fill) (anchored_tp (side = ''long'') (or_zero ref) fill)
          d (or_zero ref) fill tp = (tp', c2)"
    using assms by (auto simp: revalidate_stops_for_fill_def Let_def split: prod.splits)
  note nd = viable_not_drifted [OF assms(1)]
  show "pred_option (sl_viable (side = ''long'') fill) sl'"
    using nd by (intro revalidate_leg_settled(2) [OF s]) (auto simp: anchored_sl_viable assms(1))
  show "pred_option (tp_viable (side = ''long'') fill) tp'"
    using nd by (intro revalidate_leg_settled(2) [OF t]) (auto simp: anchored_tp_viable assms(1))
  have "revalidate_leg (sl_viable (side = ''long'') fill) (anchored_sl (side = ''long'') fill fill) d fill fill sl'
      = (sl', None)"
    using nd by (intro revalidate_leg_settled(1) [OF s]) (auto simp: anchored_sl_viable assms(1))
  moreover have "revalidate_leg (tp_viable (side = ''long'') fill) (anchored_tp (side = ''long'') fill fill) d fill fill tp'
      = (tp', None)"
    using nd by (intro revalidate_leg_settled(1) [OF t]) (auto simp: anchored_tp_viable assms(1))
  ultimately show "revalidate_stops_for_fill side (Some fill) (Some fill) sl' tp' d = (sl', tp', no_changes)"
    using assms(1) by (simp add: revalidate_stops_for_fill_def no_changes_def)
qed

text \<open>
  After a fill every stop and target of the repaired bracket is at least the minimum
  distance from the fill on its own side, a leg that was viable is kept unless the bracket
  was asked for in distances, and a second repair at the same fill changes nothing.
\<close>

theorem stops_viable_after_fill:
  assumes "0 < fill" "revalidate_stops_for_fill side ref (Some fill) sl tp d = (sl', tp', c)"
  shows "pred_option (sl_viable (side = ''long'') fill) sl' \<and>
    pred_option (tp_viable (side = ''long'') fill) tp' \<and>
    (\<not> d \<longrightarrow> pred_option (sl_viable (side = ''long'') fill) sl \<longrightarrow> sl' = sl) \<and>
    (\<not> d \<longrightarrow> pred_option (tp_viable (side = ''long'') fill) tp \<longrightarrow> tp' = tp) \<and>
    revalidate_stops_for_fill side (Some fill) (Some fill) sl' tp' d = (sl', tp', no_changes)"
  using revalidate_sound [OF assms] assms
  by (auto simp: revalidate_stops_for_fill_def revalidate_leg_def Let_def split: option.splits prod.splits if_splits)

theorem stops_viable_after_fill_witness:
  "\<exists>sl' tp' c. revalidate_stops_for_fill ''short'' (Some 1733) (Some 1743) (Some 1744) (Some 1700) False = (sl', tp', c) \<and>
     sl' \<noteq> Some 1744 \<and> pred_option (sl_viable False 1743) sl' \<and> tp' = Some 1700"
proof -
  obtain sl' tp' c where r: "revalidate_stops_for_fill ''short'' (Some 1733) (Some 1743) (Some 1744) (Some 1700) False
      = (sl', tp', c)" by (metis prod_cases3)
  have "pred_option (sl_viable False 1743) sl'" "tp' = Some 1700"
    using stops_viable_after_fill [OF _ r] by (simp_all add: tp_viable_def MIN_STOP_DIST_FRAC_def)
  moreover have "\<not> sl_viable False 1743 1744" by (simp add: sl_viable_def MIN_STOP_DIST_FRAC_def)
  ultimately show ?thesis using r by auto
qed

text \<open>A bracket of levels keeps a leg that is still viable; the leg that is not keeps its distance.\<close>

lemma revalidate_levels:
  assumes "0 < fill" "0 < ref"
    "revalidate_stops_for_fill side (Some ref) (Some fill) (Some sl) (Some tp) False = (sl', tp', c)"
  shows "sl' = Some (if sl_viable (side = ''long'') fill sl then sl else anchored_sl (side = ''long'') ref fill sl)"
    and "tp' = Some (if tp_viable (side = ''long'') fill tp then tp else anchored_tp (side = ''long'') ref fill tp)"
  using assms by (auto simp: revalidate_stops_for_fill_def revalidate_leg_def Let_def split: if_splits)

section \<open>The guaranteed stop never passes the liquidation-safe level\<close>

lemma sl_distance_pos: "0 < sl_distance L mmr"
  by (simp add: sl_distance_def DEGENERATE_SL_DIST_def)

lemma guaranteed_level_bounds:
  assumes "0 < entry" "side = ''long'' \<or> side = ''short''"
    and "guaranteed_level entry L side sl mmr = (x, src)"
  shows "side = ''long'' \<Longrightarrow> liquidation_safe_sl entry L side mmr \<le> x \<and> x < entry"
    and "side = ''short'' \<Longrightarrow> x \<le> liquidation_safe_sl entry L side mmr \<and> entry < x"
    and "src = ''strategy'' \<longleftrightarrow> strategy_sl_valid entry side sl \<and> x = the sl"
proof -
  have d: "entry * (1 - sl_distance L mmr) < entry" "entry < entry * (1 + sl_distance L mmr)"
    using assms(1) sl_distance_pos [of L mmr] by (auto simp: algebra_simps)
  show "side = ''long'' \<Longrightarrow> liquidation_safe_sl entry L side mmr \<le> x \<and> x < entry"
    using assms d by (auto simp: guaranteed_level_def liquidation_safe_sl_def strategy_sl_valid_def Let_def
        split: if_splits option.splits)
  show "side = ''short'' \<Longrightarrow> x \<le> liquidation_safe_sl entry L side mmr \<and> entry < x"
    using assms d by (auto simp: guaranteed_level_def liquidation_safe_sl_def strategy_sl_valid_def Let_def
        split: if_splits option.splits)
  show "src = ''strategy'' \<longleftrightarrow> strategy_sl_valid entry side sl \<and> x = the sl"
    using assms(2,3) by (auto simp: guaranteed_level_def Let_def max_def min_def split: if_splits)
qed

text \<open>
  What is sent: on the safe side of the liquidation-safe level and of the entry, up to half
  a unit of the last decimal the price is rounded to.
\<close>

lemma guaranteed_sl_bounds:
  assumes "0 < entry" "side = ''long'' \<or> side = ''short''"
    and "compute_guaranteed_sl entry L side sl mmr = Inr (x, src)"
  defines "half \<equiv> 1 / (2 * 10 ^ infer_price_decimals entry)"
  shows "side = ''long'' \<longrightarrow> liquidation_safe_sl entry L side mmr - half \<le> x \<and> x \<le> entry + half"
    and "side = ''short'' \<longrightarrow> x \<le> liquidation_safe_sl entry L side mmr + half \<and> entry - half \<le> x"
proof -
  obtain y where y: "guaranteed_level entry L side sl mmr = (y, src)"
    and x: "x = py_round y (infer_price_decimals entry)"
    using assms(3) by (auto simp: compute_guaranteed_sl_def split: if_splits prod.splits)
  note b = guaranteed_level_bounds [OF assms(1,2) y]
  have r: "y - half \<le> x" "x \<le> y + half"
    unfolding x half_def by (rule py_round_ge, rule py_round_le)
  show "side = ''long'' \<longrightarrow> liquidation_safe_sl entry L side mmr - half \<le> x \<and> x \<le> entry + half"
    using b(1) r by auto
  show "side = ''short'' \<longrightarrow> x \<le> liquidation_safe_sl entry L side mmr + half \<and> entry - half \<le> x"
    using b(2) r by auto
qed

text \<open>The fallback is at least the derived rate of any symbol that grants the leverage.\<close>

lemma fallback_mmr_conservative:
  assumes "0 < L" "L \<le> max_leverage"
  shows "1 / (2 * of_int max_leverage) + MMR_CONSERVATISM_BUFFER \<le> fallback_mmr L"
  using assms by (simp add: fallback_mmr_def frac_le)

lemma sl_distance_antimono: "mmr \<le> mmr' \<Longrightarrow> 0 < 1 / of_int L - mmr' \<Longrightarrow> sl_distance L mmr' \<le> sl_distance L mmr"
  by (simp add: sl_distance_def Let_def)

end
