(* ===== verification/SymbolValidator.thy ===== *)
theory SymbolValidator
  imports Prelude
begin

text \<open>
  \<open>order-listener/app/symbol_validator.py\<close>: which incoming base and quote asset may be
  traded on a strategy's execution symbol, and whether the prices that came with them may
  be sent on.
\<close>

definition QUOTE_VARIANTS :: "string set" where
  "QUOTE_VARIANTS = {''USD'', ''USDC'', ''USDT'', ''PERP''}"

text \<open>The mismatch carries the two symbols and the modes that were enabled.\<close>

datatype symbol_error =
    Symbol_mismatch string string "string list"
  | Not_base_quote string

record resolved_symbol =
  rs_execution_symbol :: string
  rs_price_stripped :: bool
  rs_coupling_used :: "string option"

text \<open>\<open>s.split("-", 1)\<close>, for a string that holds a dash.\<close>

definition split_at_dash :: "string \<Rightarrow> string \<times> string" where
  "split_at_dash s = (let a = takeWhile (\<lambda>c. c \<noteq> CHR ''-'') s in (a, drop (Suc (length a)) s))"

definition incoming_symbol :: "string \<Rightarrow> string \<Rightarrow> string" where
  "incoming_symbol base quote = base @ ''-'' @ quote"

definition enabled_modes :: "bool \<Rightarrow> bool \<Rightarrow> string list" where
  "enabled_modes quote_variants cross_charting =
     (if quote_variants then [''quote_variants''] else []) @
     (if cross_charting then [''cross_charting''] else [])"

definition resolve_symbol ::
  "string \<Rightarrow> string \<Rightarrow> string \<Rightarrow> bool \<Rightarrow> bool \<Rightarrow> symbol_error + resolved_symbol" where
  "resolve_symbol base_asset quote_asset execution_symbol allow_quote_variants allow_cross_charting =
     (let base = py_upper (py_strip base_asset);
          quote = py_upper (py_strip quote_asset);
          incoming = incoming_symbol base quote
      in if CHR ''-'' \<notin> set execution_symbol then Inl (Not_base_quote execution_symbol)
         else
          (let (exec_base, exec_quote) = split_at_dash (py_upper execution_symbol)
           in if incoming = py_upper execution_symbol then
                Inr \<lparr>rs_execution_symbol = execution_symbol, rs_price_stripped = False,
                     rs_coupling_used = None\<rparr>
              else if allow_quote_variants \<and> base = exec_base \<and> quote \<in> QUOTE_VARIANTS
                      \<and> exec_quote \<in> QUOTE_VARIANTS then
                Inr \<lparr>rs_execution_symbol = execution_symbol, rs_price_stripped = (quote \<noteq> exec_quote),
                     rs_coupling_used = (if quote \<noteq> exec_quote then Some ''quote_variants'' else None)\<rparr>
              else if allow_cross_charting \<and> base = exec_base then
                Inr \<lparr>rs_execution_symbol = execution_symbol, rs_price_stripped = True,
                     rs_coupling_used = Some ''cross_charting''\<rparr>
              else Inl (Symbol_mismatch incoming execution_symbol
                          (enabled_modes allow_quote_variants allow_cross_charting))))"

section \<open>What a resolution promises\<close>

lemma upper_char_dash [simp]: "upper_char c = CHR ''-'' \<longleftrightarrow> c = CHR ''-''"
proof
  assume h: "upper_char c = CHR ''-''"
  show "c = CHR ''-''"
  proof (cases "97 \<le> (of_char c :: int) \<and> (of_char c :: int) \<le> 122")
    case True
    then have "(of_char (upper_char c) :: int) = (of_char c - 32) mod 256"
      by (simp add: upper_char_def)
    also have "\<dots> = of_char c - 32"
      using True by (intro mod_pos_pos_trivial) linarith+
    finally show ?thesis using True h by simp
  next
    case False
    then have "upper_char c = c" by (auto simp: upper_char_def Let_def)
    with h show ?thesis by simp
  qed
qed (simp add: upper_char_def)

lemma dash_upper [simp]: "CHR ''-'' \<in> set (py_upper s) \<longleftrightarrow> CHR ''-'' \<in> set s"
proof -
  have "CHR ''-'' \<in> set (py_upper s) \<longleftrightarrow> (\<exists>c\<in>set s. upper_char c = CHR ''-'')"
    by (auto simp: py_upper_def image_iff eq_commute)
  then show ?thesis by simp
qed

text \<open>Splitting once at the first dash loses nothing.\<close>

lemma split_once_joins:
  assumes "CHR ''-'' \<in> set s" "split_at_dash s = (a, b)"
  shows "incoming_symbol a b = s"
proof -
  let ?p = "\<lambda>c. c \<noteq> CHR ''-''"
  have a: "a = takeWhile ?p s" and b: "b = drop (Suc (length a)) s"
    using assms(2) by (auto simp: split_at_dash_def Let_def)
  have ne: "dropWhile ?p s \<noteq> []" using assms(1) by (auto simp: dropWhile_eq_Nil_conv)
  then have hd: "hd (dropWhile ?p s) = CHR ''-''" using hd_dropWhile [OF ne] by simp
  have "b = tl (drop (length a) s)" by (simp only: b drop_Suc tl_drop)
  also have "drop (length a) s = dropWhile ?p s" by (simp only: a dropWhile_eq_drop)
  finally have "dropWhile ?p s = CHR ''-'' # b" using ne hd list.collapse by metis
  with takeWhile_dropWhile_id [of ?p s] show ?thesis by (simp only: incoming_symbol_def a append_Cons append_Nil)
qed

lemma quote_variant_differs:
  assumes "CHR ''-'' \<in> set e" "split_at_dash (py_upper e) = (eb, eq)"
    "incoming_symbol base quote \<noteq> py_upper e" "base = eb"
  shows "quote \<noteq> eq"
  using split_once_joins [of "py_upper e" eb eq] assms by auto

text \<open>
  A resolved order trades the execution symbol as configured, and its prices are kept
  exactly when the incoming symbol is that symbol, so no price of another market passes.
\<close>

lemma resolved_symbol_safe:
  assumes "resolve_symbol b q e v c = Inr r"
  shows "rs_execution_symbol r = e \<and>
    (rs_price_stripped r \<longleftrightarrow> incoming_symbol (py_upper (py_strip b)) (py_upper (py_strip q)) \<noteq> py_upper e) \<and>
    (rs_coupling_used r = None \<longleftrightarrow> \<not> rs_price_stripped r) \<and>
    (rs_price_stripped r \<longrightarrow> (v \<or> c) \<and> py_upper (py_strip b) = fst (split_at_dash (py_upper e)))"
proof -
  obtain eb eq where e: "split_at_dash (py_upper e) = (eb, eq)" by fastforce
  have dash: "CHR ''-'' \<in> set e" using assms by (auto simp: resolve_symbol_def Let_def split: if_splits)
  note differs = quote_variant_differs [OF dash e]
  show ?thesis
    using assms dash differs [OF _ refl]
    by (auto simp: resolve_symbol_def Let_def e split: if_splits)
qed

lemma resolve_symbol_strict:
  "resolve_symbol b q e False False = Inr r \<longleftrightarrow>
     incoming_symbol (py_upper (py_strip b)) (py_upper (py_strip q)) = py_upper e \<and>
     r = \<lparr>rs_execution_symbol = e, rs_price_stripped = False, rs_coupling_used = None\<rparr>"
proof -
  have "CHR ''-'' \<in> set e"
    if "incoming_symbol (py_upper (py_strip b)) (py_upper (py_strip q)) = py_upper e"
  proof -
    have "CHR ''-'' \<in> set (py_upper e)" unfolding that [symmetric] by (simp add: incoming_symbol_def)
    then show ?thesis by simp
  qed
  then show ?thesis by (auto simp: resolve_symbol_def Let_def split: prod.splits)
qed

end
