(* ===== verification/WebhookGuards.thy ===== *)
theory WebhookGuards
  imports ListenerOrders StopLevels SymbolValidator
begin

text \<open>
  \<open>receive_webhook\<close> of \<open>order-listener/app/webhook_handler.py\<close>: authentication, symbol
  resolution, the risk guards, and the order row of a payload that passes them. What the
  payload model accepts is decided by its library: a body that does not validate is
  \<open>None\<close>.
\<close>

definition MIN_RISK_REWARD :: rat where "MIN_RISK_REWARD = 1"

definition is_open_signal :: "order_signal \<Rightarrow> bool" where
  "is_open_signal s \<longleftrightarrow> s = Open_long \<or> s = Open_short"

definition signal_leg :: "order_signal \<Rightarrow> leg_side" where
  "signal_leg s = (case s of Open_long \<Rightarrow> Long_leg | Close_long \<Rightarrow> Long_leg
     | Open_short \<Rightarrow> Short_leg | Close_short \<Rightarrow> Short_leg)"

text \<open>An order on its way through the handler: the payload as changed so far, and the prices to send.\<close>

record draft =
  dr_payload :: webhook_payload
  dr_tp_price :: "rat option"
  dr_sl_price :: "rat option"

datatype rejection = Rejected nat string

definition add_meta :: "metadata \<Rightarrow> webhook_payload \<Rightarrow> webhook_payload" where
  "add_meta patch p =
     p\<lparr>wp_signal_metadata := Some (merge_meta patch (case wp_signal_metadata p of None \<Rightarrow> [] | Some m \<Rightarrow> m))\<rparr>"

text \<open>The strategy as the handler sees it: the cached row, else the row in the table.\<close>

definition get_strategy :: "listener_env \<Rightarrow> string \<Rightarrow> listener_world \<Rightarrow> listener_strategy option" where
  "get_strategy E sid w =
     (case le_cached_strategy E sid of
        Some s \<Rightarrow> Some s
      | None \<Rightarrow> find (\<lambda>s. ls_id s = sid \<and> \<not> ls_is_deleted s) (lw_strategies w))"

definition token_ok :: "string option \<Rightarrow> string \<Rightarrow> string \<Rightarrow> bool" where
  "token_ok header body_token secret \<longleftrightarrow>
     (let token = (case header of Some t \<Rightarrow> if t = [] then body_token else t | None \<Rightarrow> body_token)
      in token \<noteq> [] \<and> token = secret)"

definition int_or :: "int option \<Rightarrow> int \<Rightarrow> int" where
  "int_or x d = (case x of None \<Rightarrow> d | Some v \<Rightarrow> if v = 0 then d else v)"

definition resolve_leverage :: "webhook_payload \<Rightarrow> listener_strategy \<Rightarrow> int" where
  "resolve_leverage p s = (case wp_leverage p of Some l \<Rightarrow> l | None \<Rightarrow> int_or (ls_default_leverage s) 1)"

definition resolve_margin_mode :: "webhook_payload \<Rightarrow> listener_strategy \<Rightarrow> string" where
  "resolve_margin_mode p s =
     (case wp_margin_mode p of
        Some m \<Rightarrow> m
      | None \<Rightarrow> (case ls_margin_mode s of Some m \<Rightarrow> if m = [] then ''isolated'' else m | None \<Rightarrow> ''isolated''))"

section \<open>Reference price and size\<close>

definition webhook_price :: "webhook_payload \<Rightarrow> rat" where
  "webhook_price p = num_or (wp_indicator_price p) (num_or (wp_price p) 0)"

text \<open>The price, and the mark that was read for it when the payload brought none.\<close>

definition reference_price ::
  "listener_env \<Rightarrow> string \<Rightarrow> string \<Rightarrow> webhook_payload \<Rightarrow> listener_world \<Rightarrow> rat \<times> rat option" where
  "reference_price E account symbol p w =
     (if is_open_signal (wp_signal p) \<and> webhook_price p \<le> 0 then
        (let mark = get_mark_price E account symbol w
         in if num_or mark 0 = 0 then (0, None) else (num_or mark 0, mark))
      else (webhook_price p, None))"

definition margin_quantity :: "listener_strategy \<Rightarrow> int \<Rightarrow> rat \<Rightarrow> rat" where
  "margin_quantity s leverage ref = py_round (num_or (ls_margin_per_trade s) 5 * of_int leverage / ref) 8"

definition clamp_size :: "listener_strategy \<Rightarrow> int \<Rightarrow> rat \<Rightarrow> webhook_payload \<Rightarrow> webhook_payload" where
  "clamp_size s leverage ref p =
     (let qty = margin_quantity s leverage ref
      in if is_open_signal (wp_signal p) \<and> 0 < ref \<and> qty < wp_size p then
           (add_meta [(''size_scaled_to_margin'', M_bool True), (''original_size'', M_num (wp_size p)),
                      (''used_size'', M_num qty),
                      (''ref_price_source'', M_text (if webhook_price p \<noteq> 0 then ''webhook'' else ''exchange_mark''))] p)
             \<lparr>wp_size := qty\<rparr>
         else p)"

section \<open>The bracket\<close>

text \<open>Percentages become levels at the reference price.\<close>

definition pct_level :: "bool \<Rightarrow> rat \<Rightarrow> rat \<Rightarrow> rat" where
  "pct_level up ref pct =
     (let d = \<bar>pct\<bar> / 100
      in py_round (ref * (if up then 1 + d else 1 - d)) (infer_price_decimals ref))"

definition meta_num :: "rat option \<Rightarrow> meta_value" where
  "meta_num x = (case x of None \<Rightarrow> M_null | Some v \<Rightarrow> M_num v)"

definition price_sl_pct :: "rat \<Rightarrow> draft \<Rightarrow> draft" where
  "price_sl_pct ref d =
     (case wp_sl_pct (dr_payload d) of
        None \<Rightarrow> d
      | Some x \<Rightarrow>
         (let sl = pct_level (wp_signal (dr_payload d) \<noteq> Open_long) ref x
          in d\<lparr>dr_payload := (dr_payload d)\<lparr>wp_sl_price := Some sl\<rparr>, dr_sl_price := Some sl\<rparr>))"

definition price_tp_pct :: "rat \<Rightarrow> draft \<Rightarrow> draft" where
  "price_tp_pct ref d =
     (case wp_tp_pct (dr_payload d) of
        None \<Rightarrow> d
      | Some x \<Rightarrow>
         (let tp = pct_level (wp_signal (dr_payload d) = Open_long) ref x
          in d\<lparr>dr_payload := (dr_payload d)\<lparr>wp_tp_price := Some tp\<rparr>, dr_tp_price := Some tp\<rparr>))"

definition price_bracket :: "bool \<Rightarrow> rat \<Rightarrow> draft \<Rightarrow> rejection + draft" where
  "price_bracket stripped ref d =
     (let p = dr_payload d
      in if is_open_signal (wp_signal p) \<and> \<not> stripped \<and> (wp_tp_pct p \<noteq> None \<or> wp_sl_pct p \<noteq> None) then
           (if ref \<le> 0 then Inl (Rejected 422 ''no_reference_price'')
            else
             (let d' = price_tp_pct ref (price_sl_pct ref d)
              in Inr (d'\<lparr>dr_payload := add_meta
                   [(''stops_from_pct'', M_bool True), (''sl_pct_asked'', meta_num (wp_sl_pct p)),
                    (''tp_pct_asked'', meta_num (wp_tp_pct p))] (dr_payload d')\<rparr>)))
         else Inr d)"

text \<open>The guaranteed stop of an opening order; a leverage of zero divides by zero here.\<close>

definition inject_guaranteed_sl ::
  "listener_env \<Rightarrow> string \<Rightarrow> string \<Rightarrow> string \<Rightarrow> int \<Rightarrow> bool \<Rightarrow> rat \<Rightarrow> draft \<Rightarrow> draft result" where
  "inject_guaranteed_sl E account symbol margin_mode leverage stripped ref d =
     (let p = dr_payload d
      in if \<not> is_open_signal (wp_signal p) \<or> stripped \<or> ref \<le> 0 then Inr d
         else
          (let live = get_maintenance_margin E account symbol (wp_size p * ref) margin_mode;
               mmr = (case live of Some m \<Rightarrow> m | None \<Rightarrow> fallback_mmr leverage)
           in case compute_guaranteed_sl ref leverage (leg_side_name (signal_leg (wp_signal p))) (dr_sl_price d) mmr of
                Inl e \<Rightarrow> Inl e
              | Inr (sl, source) \<Rightarrow>
                  Inr \<lparr>dr_payload = (add_meta [(''sl_source'', M_text source),
                         (''sl_distance_pct'', M_num (py_round (\<bar>sl - ref\<bar> / ref * 100) 4)),
                         (''entry_ref'', M_num ref), (''mmr'', M_num (py_round mmr 6)),
                         (''mmr_source'', M_text (if live = None then ''fallback'' else ''live''))] p)
                         \<lparr>wp_sl_price := Some sl\<rparr>,
                       dr_tp_price = dr_tp_price d, dr_sl_price = Some sl\<rparr>))"

definition bracket_reward :: "order_signal \<Rightarrow> rat \<Rightarrow> rat \<Rightarrow> rat" where
  "bracket_reward sig ref tp = (if sig = Open_long then tp - ref else ref - tp)"

definition bracket_risk :: "order_signal \<Rightarrow> rat \<Rightarrow> rat \<Rightarrow> rat" where
  "bracket_risk sig ref sl = (if sig = Open_long then ref - sl else sl - ref)"

definition risk_reward_rejects :: "rat \<Rightarrow> draft \<Rightarrow> bool" where
  "risk_reward_rejects ref d =
     (let sig = wp_signal (dr_payload d)
      in case (dr_tp_price d, dr_sl_price d) of
           (Some tp, Some sl) \<Rightarrow>
             is_open_signal sig \<and> 0 < ref \<and>
             (bracket_reward sig ref tp \<le> 0 \<or> bracket_risk sig ref sl \<le> 0
              \<or> bracket_reward sig ref tp / bracket_risk sig ref sl < MIN_RISK_REWARD)
         | _ \<Rightarrow> False)"

section \<open>The handler\<close>

text \<open>What is handed to \<open>_process_order\<close>.\<close>

record accepted_order =
  ac_order_id :: nat
  ac_payload :: webhook_payload
  ac_strategy :: listener_strategy
  ac_symbol :: string
  ac_price :: "rat option"
  ac_tp_price :: "rat option"
  ac_sl_price :: "rat option"
  ac_leverage :: int
  ac_margin_mode :: string
  ac_signal_log_id :: "nat option"

text \<open>
  The risk guards of a payload whose symbol resolved: the order as it may be sent with its
  reference price and the mark read for it, or a rejection, or the division by zero.
\<close>

definition risk_guards ::
  "listener_env \<Rightarrow> listener_strategy \<Rightarrow> resolved_symbol \<Rightarrow> webhook_payload \<Rightarrow> listener_world
   \<Rightarrow> (rejection + draft \<times> rat \<times> rat option) result" where
  "risk_guards E s res p w =
     (let leverage = resolve_leverage p s;
          symbol = rs_execution_symbol res;
          stripped = rs_price_stripped res;
          (ref, mark) = reference_price E (account_of s) symbol p w
      in if int_or (ls_max_leverage s) 10 < leverage then Inr (Inl (Rejected 422 ''guard_rejected''))
         else if is_open_signal (wp_signal p) \<and> ref \<le> 0 then Inr (Inl (Rejected 422 ''no_reference_price''))
         else case price_bracket stripped ref
                \<lparr>dr_payload = clamp_size s leverage ref p,
                 dr_tp_price = (if stripped then None else wp_tp_price p),
                 dr_sl_price = (if stripped then None else wp_sl_price p)\<rparr> of
             Inl r \<Rightarrow> Inr (Inl r)
           | Inr d \<Rightarrow>
              (case inject_guaranteed_sl E (account_of s) symbol (resolve_margin_mode p s) leverage stripped ref d of
                 Inl e \<Rightarrow> Inl e
               | Inr d' \<Rightarrow> if risk_reward_rejects ref d' then Inr (Inl (Rejected 422 ''guard_rejected''))
                           else Inr (Inr (d', ref, mark))))"

text \<open>The mark a decision is logged with: the one that was read, else a read of its own.\<close>

definition decision_mark ::
  "listener_env \<Rightarrow> string \<Rightarrow> string \<Rightarrow> rat option \<Rightarrow> listener_world \<Rightarrow> rat option" where
  "decision_mark E account symbol mark w =
     (case mark of
        Some m \<Rightarrow> Some m
      | None \<Rightarrow> (let m = get_mark_price E account symbol w in if num_or m 0 = 0 then None else m))"

definition reject_webhook ::
  "listener_env \<Rightarrow> string \<Rightarrow> nat option \<Rightarrow> bool \<Rightarrow> nat \<Rightarrow> string \<Rightarrow> string \<Rightarrow> listener_world
   \<Rightarrow> accepted_order result \<times> listener_world" where
  "reject_webhook E sid log_id log_call http outcome detail w =
     (Inl (HTTPStatus http),
      finalize_signal_log E log_id http outcome (Some detail)
        (if log_call then log_webhook_call sid http (Some detail) w else w))"

definition accept ::
  "listener_env \<Rightarrow> listener_strategy \<Rightarrow> string \<Rightarrow> resolved_symbol \<Rightarrow> nat option \<Rightarrow> webhook_payload
   \<Rightarrow> draft \<Rightarrow> rat option \<Rightarrow> listener_world \<Rightarrow> accepted_order result \<times> listener_world" where
  "accept E s sid res log_id p d mark w =
     (let symbol = rs_execution_symbol res;
          leverage = resolve_leverage p s;
          margin_mode = resolve_margin_mode p s;
          oid = length (lw_orders w);
          m = decision_mark E (account_of s) symbol mark w
      in (Inr \<lparr>ac_order_id = oid, ac_payload = dr_payload d, ac_strategy = s, ac_symbol = symbol,
               ac_price = (if rs_price_stripped res then None else wp_price p),
               ac_tp_price = dr_tp_price d, ac_sl_price = dr_sl_price d, ac_leverage = leverage,
               ac_margin_mode = margin_mode, ac_signal_log_id = log_id\<rparr>,
          log_order (dr_payload d) oid sid symbol leverage margin_mode log_id m (log_webhook_call sid 200 None w)))"

definition receive_webhook ::
  "listener_env \<Rightarrow> string \<Rightarrow> string option \<Rightarrow> webhook_payload option \<Rightarrow> listener_world
   \<Rightarrow> accepted_order result \<times> listener_world" where
  "receive_webhook E sid header body w0 =
     (let (log_id, w) = insert_signal_log E sid w0
      in case body of
           None \<Rightarrow> reject_webhook E sid log_id False 422 ''validation_failed'' ''body'' w
         | Some p \<Rightarrow>
         (case get_strategy E sid w of
           None \<Rightarrow> reject_webhook E sid log_id True 404 ''auth_failed'' ''Strategy not found'' w
         | Some s \<Rightarrow>
           if \<not> token_ok header (wp_token p) (ls_webhook_secret s) then
             reject_webhook E sid log_id True 403 ''auth_failed'' ''Invalid token'' w
           else if \<not> ls_enabled s then
             reject_webhook E sid log_id True 403 ''auth_failed'' ''Strategy stopped'' w
           else case resolve_symbol (wp_base_asset p) (wp_quote_asset p) (ls_symbol s)
                       (ls_quote_variants s) (ls_cross_charting s) of
             Inl (Not_base_quote _) \<Rightarrow> (Inl ValueError, w)
           | Inl (Symbol_mismatch _ _ _) \<Rightarrow> reject_webhook E sid log_id False 422 ''symbol_rejected'' ''symbol'' w
           | Inr res \<Rightarrow>
              (case risk_guards E s res p w of
                 Inl e \<Rightarrow> (Inl e, w)
               | Inr (Inl (Rejected http outcome)) \<Rightarrow> reject_webhook E sid log_id False http outcome outcome w
               | Inr (Inr (d, ref, mark)) \<Rightarrow> accept E s sid res log_id p d mark w)))"

end
