(* ===== verification/ProcessOrder.thy ===== *)
theory ProcessOrder
  imports WebhookGuards
begin

text \<open>
  \<open>_process_order\<close> of \<open>order-listener/app/webhook_handler.py\<close>, the task that executes an
  accepted order: flattening, closing, the same-symbol and minimum-size guards, the call to
  the executor, the position of a fill, its stops, and a flip of the opposite leg.

  Every step returns the exception it raised or what it made, with the world as it is then,
  because the handler around the whole body records the failure over what was written.
\<close>

section \<open>Closing\<close>

definition order_of_close :: "close_result \<Rightarrow> order_result option" where
  "order_of_close r =
     (if cl_success r then
        Some \<lparr>or_success = True, or_exchange_order_id = cl_exchange_order_id r, or_status = ''filled'',
          or_error_msg = None, or_actual_fill_price = cl_fill_price r, or_actual_fill_size = None,
          or_pnl = None, or_realized_pnl = cl_realized_pnl r, or_fee = cl_fee r\<rparr>
      else None)"

definition signal_call :: "string \<Rightarrow> leg_side \<Rightarrow> rat option \<Rightarrow> nat \<Rightarrow> string \<Rightarrow> close_call" where
  "signal_call symbol side sz oid reason = \<lparr>cc_symbol = symbol, cc_side = side, cc_size = sz,
     cc_closing_order = Some oid, cc_reason = Some reason, cc_skip_exchange = False, cc_fill_price = None,
     cc_realized_pnl = None, cc_fee = None\<rparr>"

text \<open>The open legs of a flat signal, long before short; a close signal keeps its own leg only.\<close>

definition flat_legs :: "string \<Rightarrow> string \<Rightarrow> order_signal \<Rightarrow> listener_world \<Rightarrow> leg_side list" where
  "flat_legs sid symbol sig w =
     filter (\<lambda>side. find_open_leg sid symbol side w \<noteq> None \<and> (is_open_signal sig \<or> side = signal_leg sig))
       [Long_leg, Short_leg]"

definition close_legs ::
  "listener_env \<Rightarrow> string \<Rightarrow> string \<Rightarrow> string \<Rightarrow> nat \<Rightarrow> leg_side list \<Rightarrow> listener_world
   \<Rightarrow> close_result list \<times> listener_world" where
  "close_legs E sid acct symbol oid sides w =
     fold (\<lambda>side (rs, w). let (r, w') = close_strategy_position E sid acct
                                          (signal_call symbol side None oid ''signal_flat'') w
                          in (rs @ [r], w')) sides ([], w)"

text \<open>The order row carries one outcome: the first leg that failed, else the first leg.\<close>

definition flat_outcome :: "close_result list \<Rightarrow> close_result" where
  "flat_outcome rs = (case find (\<lambda>r. \<not> cl_success r) rs of Some r \<Rightarrow> r | None \<Rightarrow> hd rs)"

definition process_flat :: "listener_env \<Rightarrow> accepted_order \<Rightarrow> listener_world \<Rightarrow> listener_world" where
  "process_flat E a w =
     (let sid = ls_id (ac_strategy a);
          acct = account_of (ac_strategy a);
          sides = flat_legs sid (ac_symbol a) (wp_signal (ac_payload a)) w
      in if sides = [] then update_order_status (ac_order_id a) ''no_position'' None acct w
         else
          (let (rs, w1) = close_legs E sid acct (ac_symbol a) (ac_order_id a) sides w;
               r = flat_outcome rs
           in update_order_status (ac_order_id a) (cl_status r) (order_of_close r) acct w1))"

definition DEFAULT_ACCOUNT :: string where "DEFAULT_ACCOUNT = ''acc_blofin_demo_default''"

definition routing_account :: "listener_strategy \<Rightarrow> string" where
  "routing_account s = (if account_of s = [] then DEFAULT_ACCOUNT else account_of s)"

definition process_close :: "listener_env \<Rightarrow> accepted_order \<Rightarrow> listener_world \<Rightarrow> listener_world" where
  "process_close E a w =
     (let sid = ls_id (ac_strategy a);
          (r, w1) = close_strategy_position E sid (account_of (ac_strategy a))
             (signal_call (ac_symbol a) (signal_leg (wp_signal (ac_payload a))) (Some (wp_size (ac_payload a)))
                (ac_order_id a) ''signal_close'') w
      in finalize_signal_log E (ac_signal_log_id a) 200 (if cl_success r then ''filled'' else ''route_failed'')
           (cl_error_msg r)
           (update_order_status (ac_order_id a) (cl_status r) (order_of_close r)
              (routing_account (ac_strategy a)) w1))"

section \<open>Guards before the executor\<close>

definition listener_position_mode :: "listener_env \<Rightarrow> string \<Rightarrow> string" where
  "listener_position_mode E account =
     (if account = [] \<or> le_db_fails E Position_mode_query then ''net''
      else case le_position_mode E account of
        Some m \<Rightarrow> if m = ''hedge'' then m else ''net''
      | None \<Rightarrow> ''net'')"

text \<open>The sides other enabled strategies of the account hold open on the symbol.\<close>

definition conflicting_sides :: "string \<Rightarrow> string \<Rightarrow> string \<Rightarrow> listener_world \<Rightarrow> leg_side list" where
  "conflicting_sides account symbol sid w =
     map po_side (filter (\<lambda>p. po_open p \<and> po_symbol p = symbol \<and> po_strategy p \<noteq> sid \<and>
       list_ex (\<lambda>s. ls_id s = po_strategy p \<and> ls_account_id s = Some account \<and> ls_enabled s) (lw_strategies w))
       (lw_positions w))"

definition conflict_reason :: "listener_env \<Rightarrow> string \<Rightarrow> string \<Rightarrow> string \<Rightarrow> order_signal \<Rightarrow> listener_world \<Rightarrow> string option" where
  "conflict_reason E account symbol sid sig w =
     (let sides = conflicting_sides account symbol sid w;
          ours = signal_leg sig
      in if le_db_fails E Conflict_query \<or> sides = [] then None
         else if listener_position_mode E account = ''hedge'' then
           (if ours \<in> set sides then Some ''same_symbol_conflict'' else None)
         else if opposite_leg ours \<in> set sides then Some ''opp_pos_conflict''
         else Some ''same_symbol_conflict'')"

definition min_base_size :: "listener_env \<Rightarrow> string \<Rightarrow> string \<Rightarrow> rat" where
  "min_base_size E account symbol =
     (if le_db_fails E Min_size_lookup then 0
      else case le_min_base_size E account symbol of Answer m \<Rightarrow> num_or m 0 | _ \<Rightarrow> 0)"

definition size_too_small :: "listener_env \<Rightarrow> string \<Rightarrow> string \<Rightarrow> webhook_payload \<Rightarrow> bool" where
  "size_too_small E account symbol p \<longleftrightarrow>
     (let m = min_base_size E account symbol; price = webhook_price p
      in 0 < m \<and> wp_size p < m \<or> 0 < price \<and> wp_size p * price < 1)"

definition nonzero :: "rat option \<Rightarrow> rat option" where
  "nonzero x = (case x of Some v \<Rightarrow> if v = 0 then None else Some v | None \<Rightarrow> None)"

definition order_request_of :: "accepted_order \<Rightarrow> order_request" where
  "order_request_of a =
     \<lparr>rq_order_id = ac_order_id a, rq_account_id = routing_account (ac_strategy a), rq_symbol = ac_symbol a,
      rq_side = wp_side (ac_payload a), rq_signal = wp_signal (ac_payload a),
      rq_order_type = wp_order_type (ac_payload a), rq_size = wp_size (ac_payload a),
      rq_price = nonzero (ac_price a), rq_leverage = Some (ac_leverage a), rq_margin_mode = Some (ac_margin_mode a),
      rq_tp_price = nonzero (ac_tp_price a), rq_sl_price = nonzero (ac_sl_price a)\<rparr>"

section \<open>After a confirmed fill\<close>

definition meta_of :: "webhook_payload \<Rightarrow> string \<Rightarrow> meta_value option" where
  "meta_of p k = (case wp_signal_metadata p of None \<Rightarrow> None | Some m \<Rightarrow> map_of m k)"

definition meta_truthy :: "meta_value option \<Rightarrow> bool" where
  "meta_truthy v = (case v of
     Some (M_bool b) \<Rightarrow> b | Some (M_num x) \<Rightarrow> x \<noteq> 0 | Some (M_text t) \<Rightarrow> t \<noteq> [] | Some (M_dict m) \<Rightarrow> m \<noteq> []
     | _ \<Rightarrow> False)"

text \<open>
  What the stops were computed from. The metadata's \<open>entry_ref\<close> is the number the handler put
  there, since a payload with prices to send has passed the guaranteed stop.
\<close>

definition stop_reference :: "accepted_order \<Rightarrow> rat \<Rightarrow> rat" where
  "stop_reference a fill =
     num_or (case meta_of (ac_payload a) ''entry_ref'' of Some (M_num x) \<Rightarrow> Some x | _ \<Rightarrow> None)
       (num_or (wp_indicator_price (ac_payload a)) (num_or (ac_price a) fill))"

definition change_meta :: "string \<Rightarrow> (price \<times> price) option \<Rightarrow> metadata" where
  "change_meta leg c =
     (case c of None \<Rightarrow> [] | Some (old, new) \<Rightarrow> [(leg, M_dict [(''from'', M_num old), (''to'', M_num new)])])"

definition changes_meta :: "stop_changes \<Rightarrow> metadata" where
  "changes_meta c = change_meta ''sl_price'' (sc_sl c) @ change_meta ''tp_price'' (sc_tp c)"

definition reanchor_patch :: "stop_changes \<Rightarrow> rat \<Rightarrow> bool \<Rightarrow> metadata" where
  "reanchor_patch c fill landed = [(''stops_reanchored_to_fill'', M_dict (changes_meta c)),
     (''fill_price_at_reanchor'', M_num fill), (''reanchor_landed'', M_bool landed)]"

definition stops_row :: "rat option \<Rightarrow> rat option \<Rightarrow> metadata \<Rightarrow> listener_order \<Rightarrow> listener_order" where
  "stops_row sl tp patch r = r\<lparr>od_sl_price := coalesce sl (od_sl_price r),
     od_tp_price := coalesce tp (od_tp_price r), od_signal_metadata := merge_meta patch (od_signal_metadata r)\<rparr>"

definition reanchor_stops :: "listener_env \<Rightarrow> accepted_order \<Rightarrow> order_result \<Rightarrow> listener_world \<Rightarrow> listener_world" where
  "reanchor_stops E a r w =
     (case nonzero (or_actual_fill_price r) of
        None \<Rightarrow> w
      | Some fill \<Rightarrow>
         if ac_tp_price a = None \<and> ac_sl_price a = None then w
         else
          (let side = signal_leg (wp_signal (ac_payload a));
               (sl, tp, changes) = revalidate_stops_for_fill (leg_side_name side) (Some (stop_reference a fill))
                  (Some fill) (ac_sl_price a) (ac_tp_price a) (meta_truthy (meta_of (ac_payload a) ''stops_from_pct''))
           in if changes = no_changes then w
              else
               (let (fix, w1) = call_executor_modify_stops E (routing_account (ac_strategy a)) (ac_symbol a) side tp sl w
                in if le_db_fails E Reanchor_update then w1
                   else set_order (ac_order_id a) (stops_row sl tp (reanchor_patch changes fill (sr_success fix))) w1)))"

text \<open>\<open>pnl or realized_pnl\<close>, when it is not zero.\<close>

definition flip_pnl :: "order_result \<Rightarrow> rat option" where
  "flip_pnl r = (case nonzero (or_pnl r) of Some x \<Rightarrow> Some x | None \<Rightarrow> nonzero (or_realized_pnl r))"

definition flip_call :: "string \<Rightarrow> leg_side \<Rightarrow> order_result \<Rightarrow> rat \<Rightarrow> close_call" where
  "flip_call symbol side r pnl = \<lparr>cc_symbol = symbol, cc_side = side, cc_size = None, cc_closing_order = None,
     cc_reason = Some ''flip_close'', cc_skip_exchange = True, cc_fill_price = or_actual_fill_price r,
     cc_realized_pnl = Some pnl, cc_fee = None\<rparr>"

definition settle_flip :: "listener_env \<Rightarrow> accepted_order \<Rightarrow> order_result \<Rightarrow> listener_world \<Rightarrow> listener_world" where
  "settle_flip E a r w =
     (let s = ac_strategy a;
          other = opposite_leg (signal_leg (wp_signal (ac_payload a)))
      in case flip_pnl r of
           None \<Rightarrow> w
         | Some pnl \<Rightarrow>
             if listener_position_mode E (routing_account s) = ''hedge'' \<or> le_db_fails E Flip_lookup then w
             else if find_open_leg (ls_id s) (ac_symbol a) other w \<noteq> None then
               snd (close_strategy_position E (ls_id s) (account_of s) (flip_call (ac_symbol a) other r pnl) w)
             else book_realized_pnl (flattener_of E (length (lw_positions w))) E (ls_id s) (Some pnl) w)"

definition after_fill ::
  "listener_env \<Rightarrow> accepted_order \<Rightarrow> order_result \<Rightarrow> listener_world \<Rightarrow> unit result \<times> listener_world" where
  "after_fill E a r w =
     (let p = ac_payload a
      in if or_status r \<noteq> ''filled'' \<or> wp_base_asset p = [] \<or> wp_quote_asset p = [] \<or> wp_size p = 0 then (Inr (), w)
         else case apply_position_fill E (ls_id (ac_strategy a)) p (ac_symbol a) (ac_order_id a) r
                     (ac_leverage a) (ac_margin_mode a) w of
           (Inl e, w1) \<Rightarrow> (Inl e, w1)
         | (Inr _, w1) \<Rightarrow> (Inr (), settle_flip E a r (reanchor_stops E a r w1)))"

section \<open>The task\<close>

definition outcome_of_status :: "string \<Rightarrow> string" where
  "outcome_of_status st =
     (if st = ''filled'' then ''filled'' else if st = ''pending'' then ''pending'' else ''route_failed'')"

definition guard_rejection :: "listener_env \<Rightarrow> accepted_order \<Rightarrow> string \<Rightarrow> listener_world \<Rightarrow> listener_world" where
  "guard_rejection E a reason w =
     finalize_signal_log E (ac_signal_log_id a) 200 ''guard_rejected'' (Some reason)
       (update_order_status (ac_order_id a) reason None (routing_account (ac_strategy a)) w)"

definition execute_order ::
  "listener_env \<Rightarrow> accepted_order \<Rightarrow> listener_world \<Rightarrow> unit result \<times> listener_world" where
  "execute_order E a w =
     (let (r, w1) = call_executor E (order_request_of a) w;
          w2 = update_order_status (ac_order_id a) (or_status r) (Some r) (routing_account (ac_strategy a)) w1;
          w3 = finalize_signal_log E (ac_signal_log_id a) 200 (outcome_of_status (or_status r)) (or_error_msg r) w2
      in after_fill E a r w3)"

definition process_open ::
  "listener_env \<Rightarrow> accepted_order \<Rightarrow> listener_world \<Rightarrow> unit result \<times> listener_world" where
  "process_open E a w =
     (let s = ac_strategy a;
          account = routing_account s
      in case conflict_reason E account (ac_symbol a) (ls_id s) (wp_signal (ac_payload a)) w of
           Some reason \<Rightarrow> (Inr (), guard_rejection E a reason w)
         | None \<Rightarrow>
             if size_too_small E account (ac_symbol a) (ac_payload a) then
               (Inr (), guard_rejection E a ''size_too_small'' w)
             else execute_order E a w)"

definition process_body ::
  "listener_env \<Rightarrow> accepted_order \<Rightarrow> listener_world \<Rightarrow> unit result \<times> listener_world" where
  "process_body E a w =
     (if wp_target_position (ac_payload a) = Some Target_flat then (Inr (), process_flat E a w)
      else if \<not> is_open_signal (wp_signal (ac_payload a)) then (Inr (), process_close E a w)
      else process_open E a w)"

definition touch_strategy :: "listener_env \<Rightarrow> accepted_order \<Rightarrow> listener_world \<Rightarrow> listener_world" where
  "touch_strategy E a w =
     (if le_db_fails E Last_signal_update then w
      else set_strategy (ls_id (ac_strategy a)) (\<lambda>s. s\<lparr>ls_last_signal_at := Some (le_now E)\<rparr>) w)"

definition process_order :: "listener_env \<Rightarrow> accepted_order \<Rightarrow> listener_world \<Rightarrow> listener_world" where
  "process_order E a w =
     (case process_body E a (touch_strategy E a w) of
        (Inr _, w1) \<Rightarrow> w1
      | (Inl e, w1) \<Rightarrow>
          finalize_signal_log E (ac_signal_log_id a) 200 ''route_failed'' (Some ''exception'')
            (update_order_status (ac_order_id a) ''route_failed'' None (routing_account (ac_strategy a)) w1))"

text \<open>A webhook, and the task it starts when the order is accepted.\<close>

definition handle_webhook ::
  "listener_env \<Rightarrow> string \<Rightarrow> string option \<Rightarrow> webhook_payload option \<Rightarrow> listener_world
   \<Rightarrow> nat result \<times> listener_world" where
  "handle_webhook E sid header body w =
     (case receive_webhook E sid header body w of
        (Inl e, w1) \<Rightarrow> (Inl e, w1)
      | (Inr a, w1) \<Rightarrow> (Inr (ac_order_id a), process_order E a w1))"

end
