(* ===== verification/ListenerRoutes.thy ===== *)
theory ListenerRoutes
  imports ProcessOrder
begin

text \<open>
  The control routes of the order listener: closing one position by id, moving the stops of
  a position, cancelling and amending a resting order
  (\<open>order-listener/app/webhook_handler.py\<close>), and retrying a dead-letter order
  (\<open>app/orders_api.py\<close>). Bodies arrive decoded; a side that is neither long nor short is
  \<open>Bad_side\<close>.
\<close>

section \<open>Closing a position by its id\<close>

definition manual_call :: "listener_position \<Rightarrow> rat option \<Rightarrow> close_call" where
  "manual_call p sz = \<lparr>cc_symbol = po_symbol p, cc_side = po_side p, cc_size = sz, cc_closing_order = None,
     cc_reason = Some ''manual_close'', cc_skip_exchange = False, cc_fill_price = None,
     cc_realized_pnl = None, cc_fee = None\<rparr>"

definition close_position_by_id ::
  "listener_env \<Rightarrow> nat \<Rightarrow> rat option \<Rightarrow> listener_world \<Rightarrow> close_result result \<times> listener_world" where
  "close_position_by_id E pid close_size w =
     (case position_by_id pid w of
        None \<Rightarrow> (Inl (HTTPStatus 404), w)
      | Some p \<Rightarrow>
          if \<not> po_open p then (Inl (HTTPStatus 400), w)
          else case get_strategy E (po_strategy p) w of
            None \<Rightarrow> (Inl (HTTPStatus 404), w)
          | Some s \<Rightarrow>
             (let (r, w1) = close_strategy_position E (ls_id s) (account_of s) (manual_call p (nonzero close_size)) w
              in (if cl_success r then Inr r else Inl (HTTPStatus 502), w1)))"

section \<open>Moving stops\<close>

datatype side_field = No_side | Bad_side | Named_side leg_side

definition token_given :: "string option \<Rightarrow> string \<Rightarrow> listener_strategy \<Rightarrow> bool" where
  "token_given header body_token s = token_ok header body_token (ls_webhook_secret s)"

text \<open>The open rows of a strategy, the last opened first.\<close>

definition newest_first :: "string \<Rightarrow> listener_world \<Rightarrow> listener_position list" where
  "newest_first sid w = sort_key (\<lambda>p. - po_opened_at p) (open_legs sid w)"

definition stops_target :: "side_field \<Rightarrow> string \<Rightarrow> listener_world \<Rightarrow> listener_position option" where
  "stops_target side sid w =
     (case side of
        Named_side s \<Rightarrow> find (\<lambda>p. po_side p = s) (newest_first sid w)
      | _ \<Rightarrow> (case newest_first sid w of [] \<Rightarrow> None | p # _ \<Rightarrow> Some p))"

text \<open>The level in force: the one asked for, else the one the executor carried forward.\<close>

definition effective_level :: "stop_kind \<Rightarrow> rat option \<Rightarrow> trigger_order list \<Rightarrow> rat option" where
  "effective_level k asked preserved =
     fold (\<lambda>t acc. if tg_kind t = k \<and> acc = None \<and> tg_trigger_px t \<noteq> None then tg_trigger_px t else acc)
       preserved asked"

definition next_seq :: "nat \<Rightarrow> listener_world \<Rightarrow> nat" where
  "next_seq oid w = fold (\<lambda>h n. max n (Suc (ps_seq h))) (filter (\<lambda>h. ps_order_id h = oid) (lw_price_history w)) 0"

definition append_step :: "nat \<Rightarrow> string \<Rightarrow> listener_world \<Rightarrow> listener_world" where
  "append_step oid source w =
     (case order_by_id oid w of
        None \<Rightarrow> w
      | Some r \<Rightarrow> w\<lparr>lw_price_history := lw_price_history w @
          [\<lparr>ps_order_id = oid, ps_seq = next_seq oid w, ps_price = od_price r, ps_sl_price = od_sl_price r,
            ps_tp_price = od_tp_price r, ps_size = od_size r, ps_source = source\<rparr>]\<rparr>)"

definition persist_stops :: "listener_env \<Rightarrow> nat option \<Rightarrow> rat option \<Rightarrow> rat option \<Rightarrow> listener_world \<Rightarrow> listener_world" where
  "persist_stops E opening tp sl w =
     (case opening of
        None \<Rightarrow> w
      | Some oid \<Rightarrow>
          if tp = None \<and> sl = None \<or> le_db_fails E Persist_stops then w
          else append_step oid ''adjust_stops''
            (set_order oid (\<lambda>r. r\<lparr>od_tp_price := coalesce tp (od_tp_price r),
                                  od_sl_price := coalesce sl (od_sl_price r)\<rparr>) w))"

definition adjust_stops_for_strategy ::
  "listener_env \<Rightarrow> string \<Rightarrow> string option \<Rightarrow> string \<Rightarrow> rat option \<Rightarrow> rat option \<Rightarrow> side_field \<Rightarrow> bool
   \<Rightarrow> listener_world \<Rightarrow> nat result \<times> listener_world" where
  "adjust_stops_for_strategy E sid header body_token tp sl side dry_run w =
     (case get_strategy E sid w of
        None \<Rightarrow> (Inl (HTTPStatus 404), w)
      | Some s \<Rightarrow>
          if \<not> token_given header body_token s then (Inl (HTTPStatus 403), w)
          else if tp = None \<and> sl = None then (Inl (HTTPStatus 400), w)
          else if side = Bad_side then (Inl (HTTPStatus 400), w)
          else case stops_target side sid w of
            None \<Rightarrow> (Inl (HTTPStatus 404), w)
          | Some p \<Rightarrow>
              if dry_run then (Inr (po_id p), w)
              else
               (let (r, w1) = call_executor_modify_stops E (account_of s) (po_symbol p) (po_side p) tp sl w
                in if \<not> sr_success r then (Inl (HTTPStatus 502), w1)
                   else (Inr (po_id p),
                         persist_stops E (po_opening_order p)
                           (effective_level Tp_trigger tp (sr_preserved r))
                           (effective_level Sl_trigger sl (sr_preserved r)) w1)))"

section \<open>Resting orders\<close>

definition pending_with :: "string \<Rightarrow> string \<Rightarrow> listener_order \<Rightarrow> bool" where
  "pending_with exchange_id sid r \<longleftrightarrow>
     od_exchange_order_id r = Some exchange_id \<and> od_strategy r = sid \<and> od_status r = ''pending''"

definition cancel_rows :: "string \<Rightarrow> string \<Rightarrow> listener_world \<Rightarrow> listener_world" where
  "cancel_rows exchange_id sid w =
     w\<lparr>lw_orders := update_where (pending_with exchange_id sid) (\<lambda>r. r\<lparr>od_status := ''cancelled''\<rparr>) (lw_orders w)\<rparr>"

definition cancel_order_for_strategy ::
  "listener_env \<Rightarrow> string \<Rightarrow> string option \<Rightarrow> string \<Rightarrow> string option \<Rightarrow> listener_world
   \<Rightarrow> bool result \<times> listener_world" where
  "cancel_order_for_strategy E sid header body_token order_id w =
     (case get_strategy E sid w of
        None \<Rightarrow> (Inl (HTTPStatus 404), w)
      | Some s \<Rightarrow>
          if \<not> token_given header body_token s then (Inl (HTTPStatus 403), w)
          else if order_id = None \<or> order_id = Some [] then (Inl (HTTPStatus 400), w)
          else
           (let oid = the order_id;
                (ok, w1) = call_executor_cancel_order E (account_of s) (ls_symbol s) oid w
            in (Inr ok, if ok then cancel_rows oid sid w1 else w1)))"

definition amend_row :: "string \<Rightarrow> rat option \<Rightarrow> rat option \<Rightarrow> rat option \<Rightarrow> rat option \<Rightarrow> listener_order \<Rightarrow> listener_order" where
  "amend_row new_id price sz tp sl r = r\<lparr>od_exchange_order_id := Some new_id,
     od_price := coalesce price (od_price r), od_size := (case sz of Some z \<Rightarrow> z | None \<Rightarrow> od_size r),
     od_tp_price := coalesce tp (od_tp_price r), od_sl_price := coalesce sl (od_sl_price r)\<rparr>"

definition amend_rows ::
  "string \<Rightarrow> string \<Rightarrow> string \<Rightarrow> rat option \<Rightarrow> rat option \<Rightarrow> rat option \<Rightarrow> rat option \<Rightarrow> listener_world \<Rightarrow> listener_world" where
  "amend_rows old_id new_id sid price sz tp sl w =
     (case find (pending_with old_id sid) (lw_orders w) of
        None \<Rightarrow> w
      | Some r \<Rightarrow> append_step (od_id r) ''amend''
          (w\<lparr>lw_orders := update_where (pending_with old_id sid) (amend_row new_id price sz tp sl) (lw_orders w)\<rparr>))"

definition id_or :: "string option \<Rightarrow> string \<Rightarrow> string" where
  "id_or x d = (case x of None \<Rightarrow> d | Some i \<Rightarrow> if i = [] then d else i)"

definition amend_order_for_strategy ::
  "listener_env \<Rightarrow> string \<Rightarrow> string option \<Rightarrow> string \<Rightarrow> string option \<Rightarrow> rat option \<Rightarrow> rat option
   \<Rightarrow> rat option \<Rightarrow> rat option \<Rightarrow> listener_world \<Rightarrow> amend_result result \<times> listener_world" where
  "amend_order_for_strategy E sid header body_token order_id new_price new_size tp sl w =
     (case get_strategy E sid w of
        None \<Rightarrow> (Inl (HTTPStatus 404), w)
      | Some s \<Rightarrow>
          if \<not> token_given header body_token s then (Inl (HTTPStatus 403), w)
          else if order_id = None \<or> order_id = Some [] then (Inl (HTTPStatus 400), w)
          else if new_price = None \<and> new_size = None then (Inl (HTTPStatus 400), w)
          else
           (let oid = the order_id;
                (r, w1) = call_executor_amend_order E (account_of s) (ls_symbol s) oid new_price new_size w
            in (Inr r,
                if am_success r then
                  amend_rows (id_or (am_cancelled_order_id r) oid) (id_or (am_order_id r) oid) sid
                    new_price new_size tp sl w1
                else if am_original_cancelled r then cancel_rows oid sid w1
                else w1)))"

section \<open>Retrying an order\<close>

text \<open>
  The stored payload is sent again as it was stored and the outcome written over the row; the
  row of a synthetic close stores no payload, which does not validate. No position is made
  from a fill.
\<close>

definition retry_row :: "order_result \<Rightarrow> listener_order \<Rightarrow> listener_order" where
  "retry_row r o' = o'\<lparr>od_status := or_status r, od_exchange_order_id := or_exchange_order_id r,
     od_error_msg := or_error_msg r, od_actual_fill_price := or_actual_fill_price r\<rparr>"

definition retry_request :: "nat \<Rightarrow> listener_order \<Rightarrow> webhook_payload \<Rightarrow> listener_world \<Rightarrow> order_request" where
  "retry_request oid r p w =
     \<lparr>rq_order_id = oid,
      rq_account_id = (case strategy_by_id (od_strategy r) w of None \<Rightarrow> DEFAULT_ACCOUNT | Some s \<Rightarrow> routing_account s),
      rq_symbol = od_symbol r, rq_side = wp_side p, rq_signal = wp_signal p, rq_order_type = wp_order_type p,
      rq_size = wp_size p, rq_price = nonzero (wp_price p), rq_leverage = wp_leverage p,
      rq_margin_mode = wp_margin_mode p, rq_tp_price = nonzero (wp_tp_price p),
      rq_sl_price = nonzero (wp_sl_price p)\<rparr>"

definition retry_order :: "listener_env \<Rightarrow> nat \<Rightarrow> listener_world \<Rightarrow> order_result result \<times> listener_world" where
  "retry_order E oid w =
     (case order_by_id oid w of
        None \<Rightarrow> (Inl (HTTPStatus 404), w)
      | Some row \<Rightarrow>
         (case od_raw_webhook row of
            None \<Rightarrow> (Inl ValueError, w)
          | Some p \<Rightarrow>
             (let (r, w1) = call_executor E (retry_request oid row p w) w
              in (Inr r, set_order oid (retry_row r) w1))))"

end
