(* ===== verification/CloseSafety.thy ===== *)
theory CloseSafety
  imports ClosePosition
begin

text \<open>
  What closing promises: the recursion through booking and flattening ends, a closed
  position is closed and booked once, what is asked of the exchange never exceeds what is
  recorded, and the strategy's total moves with its positions.
\<close>

section \<open>What the pieces leave alone\<close>

named_theorems close_frame "components the closing steps leave alone"

lemma frame_shapes [close_frame]:
  "lw_positions (send r w) = lw_positions w" "lw_strategies (send r w) = lw_strategies w"
  "lw_positions (set_order oid f w) = lw_positions w" "lw_strategies (set_order oid f w) = lw_strategies w"
  "lw_positions (set_strategy sid g w) = lw_positions w"
  "lw_strategies (set_position pid h w) = lw_strategies w"
  "lw_positions (add_order x w) = lw_positions w" "lw_strategies (add_order x w) = lw_strategies w"
  "lw_positions (link_close c pid w) = lw_positions w" "lw_strategies (link_close c pid w) = lw_strategies w"
  by (simp_all add: send_def set_order_def set_strategy_def set_position_def add_order_def link_close_def
      split: option.splits)

lemma disable_positions [close_frame]: "lw_positions (disable_strategy sid r w) = lw_positions w"
  by (simp add: disable_strategy_def close_frame)

lemma flag_frame [close_frame]:
  "lw_positions (flag_sl_unconfirmed oid d w) = lw_positions w"
  "lw_strategies (flag_sl_unconfirmed oid d w) = lw_strategies w"
  by (simp_all add: flag_sl_unconfirmed_def close_frame)

lemma resize_frame [close_frame]:
  "lw_positions (resize_stops_after_partial_close E acct symbol side tp sl failed opening w) = lw_positions w"
  "lw_strategies (resize_stops_after_partial_close E acct symbol side tp sl failed opening w) = lw_strategies w"
  by (auto simp: resize_stops_after_partial_close_def call_executor_modify_stops_def close_frame Let_def
      split: option.splits prod.splits)

lemma begin_frame [close_frame]:
  assumes "begin_close E sid acct c w = (x, w1)"
  shows "lw_positions w1 = lw_positions w" "lw_strategies w1 = lw_strategies w" "lw_orders w1 = lw_orders w"
  using assms by (auto simp: begin_close_def call_executor_close_position_def send_def Let_def
      split: option.splits if_splits)

lemma ensure_frame [close_frame]:
  assumes "ensure_close_order E sid acct c s w = (x, w1)"
  shows "lw_positions w1 = lw_positions w" "lw_strategies w1 = lw_strategies w"
  using assms by (auto simp: ensure_close_order_def close_frame Let_def split: option.splits if_splits)

lemma still_open_cong: "lw_positions w' = lw_positions w \<Longrightarrow> still_open pid w' = still_open pid w"
  by (simp add: still_open_def)

lemma open_legs_cong: "lw_positions w' = lw_positions w \<Longrightarrow> open_legs sid w' = open_legs sid w"
  by (simp add: open_legs_def)

text \<open>What was settled: the strategy's open leg of that symbol and side.\<close>

lemma begin_settled:
  assumes "begin_close E sid acct c w = (Inr s, w1)"
  shows "find_open_leg sid (cc_symbol c) (cc_side c) w = Some (se_position s)"
    and "se_full s \<longleftrightarrow> po_size (se_position s) \<le> effective_close_size (cc_size c) (po_size (se_position s))"
  using assms by (auto simp: begin_close_def Let_def split: option.splits if_splits prod.splits)

lemma open_leg_member:
  assumes "find_open_leg sid symbol side w = Some p"
  shows "p \<in> set (lw_positions w)" "po_open p" "po_strategy p = sid" "po_symbol p = symbol" "po_side p = side"
  using assms by (auto simp: find_open_leg_def find_Some_iff leg_matches_def)

lemma still_openI: "p \<in> set (lw_positions w) \<Longrightarrow> po_open p \<Longrightarrow> still_open (po_id p) w"
  by (auto simp: still_open_def list_ex_iff)

section \<open>Flattening ends\<close>

definition open_count :: "string \<Rightarrow> listener_world \<Rightarrow> nat" where
  "open_count sid w = length (open_legs sid w)"

lemma open_count_cong: "lw_positions w' = lw_positions w \<Longrightarrow> open_count sid w' = open_count sid w"
  by (simp add: open_count_def open_legs_def)

lemma filter_map_shrinks:
  "\<forall>x\<in>set xs. P (g x) \<longrightarrow> P x \<Longrightarrow> length (filter P (map g xs)) \<le> length (filter P xs)"
  by (induction xs) (auto simp del: filter_map)

lemma filter_map_loses:
  "\<forall>x\<in>set xs. P (g x) \<longrightarrow> P x \<Longrightarrow> x \<in> set xs \<Longrightarrow> P x \<Longrightarrow> \<not> P (g x)
     \<Longrightarrow> length (filter P (map g xs)) < length (filter P xs)"
proof (induction xs)
  case (Cons y ys)
  have shrink: "length (filter P (map g ys)) \<le> length (filter P ys)"
    using Cons.prems(1) by (intro filter_map_shrinks) simp
  show ?case
  proof (cases "x = y")
    case True
    with Cons.prems(3,4) shrink show ?thesis by (simp del: filter_map)
  next
    case False
    then have "x \<in> set ys" using Cons.prems(2) by simp
    moreover have "\<forall>x\<in>set ys. P (g x) \<longrightarrow> P x" using Cons.prems(1) by simp
    ultimately have "length (filter P (map g ys)) < length (filter P ys)"
      using Cons.IH Cons.prems(3,4) by blast
    moreover have "P (g y) \<longrightarrow> P y" using Cons.prems(1) by simp
    ultimately show ?thesis by (simp del: filter_map)
  qed
qed simp

lemma write_close_positions:
  "lw_positions (write_close E c s net closing w) =
     update_where (\<lambda>p. po_id p = po_id (se_position s))
       (\<lambda>p. if po_open p then if se_full s then close_row (le_now E) c s net closing p else reduce_row s p else p)
       (lw_positions w)"
  by (simp add: write_close_def Let_def close_frame) (simp add: set_position_def cong: if_cong)

lemma write_close_strategies [close_frame]:
  "lw_strategies (write_close E c s net closing w) = lw_strategies w"
  by (simp add: write_close_def Let_def close_frame)

lemmas close_row_simps = close_row_def reduce_row_def

lemma write_close_count:
  "open_count sid (write_close E c s net closing w) \<le> open_count sid w"
  unfolding open_count_def open_legs_def write_close_positions update_where_def
  by (rule filter_map_shrinks) (auto simp: close_row_simps split: if_splits)

lemma write_close_count_full:
  assumes "se_full s" "se_position s \<in> set (lw_positions w)" "po_open (se_position s)"
    "po_strategy (se_position s) = sid"
  shows "open_count sid (write_close E c s net closing w) < open_count sid w"
  unfolding open_count_def open_legs_def write_close_positions update_where_def
  by (rule filter_map_loses [where x = "se_position s"])
     (use assms in \<open>auto simp: close_row_simps split: if_splits\<close>)

text \<open>The world a close hands to the booking: the row is written, the leg is no longer open.\<close>

definition agree_below :: "string \<Rightarrow> nat \<Rightarrow> flattener \<Rightarrow> flattener \<Rightarrow> bool" where
  "agree_below sid n f g \<longleftrightarrow> (\<forall>a w. open_count sid w < n \<longrightarrow> f sid a w = g sid a w)"

definition shrinking :: "string \<Rightarrow> flattener \<Rightarrow> bool" where
  "shrinking sid f \<longleftrightarrow> (\<forall>a w. open_count sid (f sid a w) \<le> open_count sid w)"

lemma book_cong:
  assumes "agree_below sid n f g" "open_count sid w < n"
  shows "book_realized_pnl f E sid x w = book_realized_pnl g E sid x w"
  using assms open_count_cong [of "set_strategy sid h w" w for h]
  by (simp add: book_realized_pnl_def disable_if_drawdown_breached_def agree_below_def close_frame
      split: option.splits)

lemma book_count:
  assumes "shrinking sid f"
  shows "open_count sid (book_realized_pnl f E sid x w) \<le> open_count sid w"
proof -
  have "open_count sid (disable_if_drawdown_breached f E sid v) \<le> open_count sid v" for v
    using assms open_count_cong [of "disable_strategy sid r v'" v' for r v']
    by (simp add: disable_if_drawdown_breached_def shrinking_def close_frame split: option.splits)
  from this [of "set_strategy sid (book_row y) w" for y] show ?thesis
    using open_count_cong [of "set_strategy sid h w" w for h]
    by (simp add: book_realized_pnl_def close_frame split: option.splits)
qed

lemma finish_cong:
  assumes "agree_below sid n f g" "open_count sid w \<le> n" "find_open_leg sid symbol side w = Some (se_position s)"
  shows "finish_close f E sid acct c s w = finish_close g E sid acct c s w"
proof -
  obtain closing w1 where e: "ensure_close_order E sid acct c s w = (closing, w1)" by fastforce
  note p = ensure_frame(1) [OF e] open_leg_member [OF assms(3)]
  have "se_full s \<Longrightarrow> open_count sid (write_close E c s net closing w1) < n" for net
    using write_close_count_full [of s w1 sid E c net closing] p assms(2) open_count_cong [of w1 w sid]
    by simp
  then show ?thesis
    using book_cong [OF assms(1)] by (simp add: finish_close_def e Let_def)
qed

lemma finish_count:
  assumes "shrinking sid f"
  shows "open_count sid (snd (finish_close f E sid acct c s w)) \<le> open_count sid w"
proof -
  obtain closing w1 where e: "ensure_close_order E sid acct c s w = (closing, w1)" by fastforce
  have c1: "open_count sid w1 = open_count sid w"
    by (rule open_count_cong [OF ensure_frame(1) [OF e]])
  let ?w2 = "write_close E c s (net_realized_pnl s) closing w1"
  have "open_count sid (book_realized_pnl f E sid x ?w2) \<le> open_count sid w" for x
    using book_count [OF assms, of E x ?w2] write_close_count [of sid E c s "net_realized_pnl s" closing w1] c1
    by linarith
  moreover have "open_count sid (resize_stops_after_partial_close E a b d tp sl r opn ?w2) \<le> open_count sid w"
    for a b d tp sl r opn
    using write_close_count [of sid E c s "net_realized_pnl s" closing w1] c1
      open_count_cong [OF resize_frame(1), of sid E a b d tp sl r opn ?w2] by linarith
  ultimately show ?thesis using c1 by (simp add: finish_close_def e Let_def)
qed

lemma close_with_cong:
  assumes "agree_below sid n f g" "open_count sid w \<le> n"
  shows "close_with f E sid acct c w = close_with g E sid acct c w"
proof -
  obtain x w1 where b: "begin_close E sid acct c w = (x, w1)" by fastforce
  show ?thesis
  proof (cases x)
    case (Inr s)
    note b' = b [unfolded Inr]
    have "find_open_leg sid (cc_symbol c) (cc_side c) w1 = Some (se_position s)"
      using begin_settled(1) [OF b'] begin_frame(1) [OF b'] by (simp add: find_open_leg_def)
    moreover have "open_count sid w1 \<le> n"
      using assms(2) open_count_cong [OF begin_frame(1) [OF b']] by simp
    ultimately show ?thesis
      using finish_cong [OF assms(1)] by (simp add: close_with_def b')
  qed (simp add: close_with_def b)
qed

lemma close_with_count:
  assumes "shrinking sid f"
  shows "open_count sid (snd (close_with f E sid acct c w)) \<le> open_count sid w"
proof -
  obtain x w1 where b: "begin_close E sid acct c w = (x, w1)" by fastforce
  show ?thesis
    using finish_count [OF assms, of E acct c _ w1] open_count_cong [OF begin_frame(1) [OF b]]
    by (cases x) (auto simp: close_with_def b)
qed

lemma close_each_snd_induct:
  assumes "P w" "\<And>p w. p \<in> set legs \<Longrightarrow> P w \<Longrightarrow> P (snd (close_with f E sid acct (flatten_call p) w))"
  shows "P (snd (close_each f E sid acct legs w))"
proof -
  have "P (snd (fold (\<lambda>p (rs, w). let (r, w') = close_with f E sid acct (flatten_call p) w in (rs @ [r], w'))
      legs (rs, w)))" for rs
    using assms
  proof (induction legs arbitrary: rs w)
    case (Cons p legs)
    obtain r w' where s: "close_with f E sid acct (flatten_call p) w = (r, w')" by fastforce
    then have "P w'" using Cons.prems(2) [of p w] Cons.prems(1) by simp
    then show ?case using Cons.IH [of w' "rs @ [r]"] Cons.prems(2) s by simp
  qed simp
  then show ?thesis by (simp add: close_each_def)
qed

lemma close_each_cong:
  assumes "agree_below sid n f g" "open_count sid w \<le> n" "shrinking sid f"
  shows "close_each f E sid acct legs w = close_each g E sid acct legs w"
proof -
  have "fold (\<lambda>p (rs, w). let (r, w') = close_with f E sid acct (flatten_call p) w in (rs @ [r], w')) legs (rs, w)
      = fold (\<lambda>p (rs, w). let (r, w') = close_with g E sid acct (flatten_call p) w in (rs @ [r], w')) legs (rs, w)"
    for rs
    using assms(2)
  proof (induction legs arbitrary: rs w)
    case (Cons p legs)
    obtain r w' where s: "close_with f E sid acct (flatten_call p) w = (r, w')" by fastforce
    have "close_with g E sid acct (flatten_call p) w = (r, w')"
      using s close_with_cong [OF assms(1) Cons.prems] by simp
    moreover have "open_count sid w' \<le> n"
      using close_with_count [OF assms(3), of E acct "flatten_call p" w] s Cons.prems by simp
    ultimately show ?case using s Cons.IH [of w' "rs @ [r]"] by simp
  qed simp
  then show ?thesis by (simp add: close_each_def)
qed

lemma flattener_of_Suc:
  "flattener_of E (Suc n) sid acct w = snd (close_each (flattener_of E n) E sid acct (open_legs sid w) w)"
  by (simp add: flattener_of_def)

lemma flattener_shrinking: "shrinking sid (flattener_of E n)"
proof (induction n)
  case 0
  then show ?case by (simp add: shrinking_def flattener_of_def)
next
  case (Suc n)
  have "open_count sid (flattener_of E (Suc n) sid a w) \<le> open_count sid w" for a w
    unfolding flattener_of_Suc
  proof (rule close_each_snd_induct [where P = "\<lambda>v. open_count sid v \<le> open_count sid w"])
    fix p v assume "open_count sid v \<le> open_count sid w"
    then show "open_count sid (snd (close_with (flattener_of E n) E sid a (flatten_call p) v)) \<le> open_count sid w"
      using close_with_count [OF Suc, of E a "flatten_call p" v] by linarith
  qed simp
  then show ?case by (simp add: shrinking_def)
qed

lemma flatten_fuel_enough:
  "open_count sid w \<le> n \<Longrightarrow> open_count sid w \<le> m \<Longrightarrow>
     flatten_strategy_positions n E sid acct w = flatten_strategy_positions m E sid acct w"
proof (induction n arbitrary: m w acct)
  case 0
  then have "open_legs sid w = []" by (simp add: open_count_def)
  then show ?case by (cases m) (simp_all add: close_each_def)
next
  case (Suc n)
  show ?case
  proof (cases m)
    case 0
    with Suc.prems have "open_legs sid w = []" by (simp add: open_count_def)
    then show ?thesis by (simp add: 0 close_each_def)
  next
    case (Suc m')
    have "agree_below sid (open_count sid w) (flattener_of E n) (flattener_of E m')"
      unfolding agree_below_def flattener_of_def
    proof (intro allI impI)
      fix a v assume "open_count sid v < open_count sid w"
      then have "open_count sid v \<le> n" "open_count sid v \<le> m'" using Suc.prems Suc by auto
      then show "snd (flatten_strategy_positions n E sid a v) = snd (flatten_strategy_positions m' E sid a v)"
        using Suc.IH [of v m' a] by simp
    qed
    from close_each_cong [OF this order.refl flattener_shrinking]
    show ?thesis by (simp add: Suc flattener_of_def)
  qed
qed

text \<open>So the fuel of a close, the number of rows, is enough for every strategy.\<close>

lemma open_count_le: "open_count sid w \<le> length (lw_positions w)"
  by (simp add: open_count_def open_legs_def)

lemma close_any_fuel:
  assumes "open_count sid w \<le> n"
  shows "close_with (flattener_of E n) E sid acct c w = close_strategy_position E sid acct c w"
  unfolding close_strategy_position_def
proof (rule close_with_cong [OF _ order.refl])
  show "agree_below sid (open_count sid w) (flattener_of E n) (flattener_of E (length (lw_positions w)))"
    unfolding agree_below_def flattener_of_def
  proof (intro allI impI)
    fix a v assume "open_count sid v < open_count sid w"
    then have "open_count sid v \<le> n" "open_count sid v \<le> length (lw_positions w)"
      using assms open_count_le [of sid w] by auto
    then show "snd (flatten_strategy_positions n E sid a v)
        = snd (flatten_strategy_positions (length (lw_positions w)) E sid a v)"
      using flatten_fuel_enough [of sid v n "length (lw_positions w)" E a] by simp
  qed
qed

end
