(* ===== verification/CloseBooks.thy ===== *)
theory CloseBooks
  imports CloseSafety
begin

text \<open>
  The ledger of the order listener: a strategy's booked total and the figures of its
  positions move together, and a position that was closed stays closed.
\<close>

section \<open>The ledger\<close>

definition strategy_total :: "string \<Rightarrow> listener_world \<Rightarrow> rat" where
  "strategy_total sid w = (case strategy_by_id sid w of None \<Rightarrow> 0 | Some s \<Rightarrow> ls_pnl_total s)"

definition position_figure :: "string \<Rightarrow> listener_position \<Rightarrow> rat" where
  "position_figure sid p = (if po_strategy p = sid then or_zero (po_pnl_realized p) else 0)"

definition positions_total :: "string \<Rightarrow> listener_world \<Rightarrow> rat" where
  "positions_total sid w = sum_list (map (position_figure sid) (lw_positions w))"

text \<open>
  Position ids are unique, no open leg of the strategy carries a figure yet, and the
  strategy's total is \<open>k\<close> ahead of its positions.
\<close>

definition strategy_ledger :: "string \<Rightarrow> rat \<Rightarrow> listener_world \<Rightarrow> bool" where
  "strategy_ledger sid k w \<longleftrightarrow> distinct (map po_id (lw_positions w)) \<and>
     list_all (\<lambda>p. po_open p \<and> po_strategy p = sid \<longrightarrow> po_pnl_realized p = None) (lw_positions w) \<and>
     strategy_by_id sid w \<noteq> None \<and> strategy_total sid w - positions_total sid w = k"

lemma ledger_cong:
  "lw_positions w' = lw_positions w \<Longrightarrow> lw_strategies w' = lw_strategies w \<Longrightarrow> strategy_ledger sid k w' = strategy_ledger sid k w"
  by (simp add: strategy_ledger_def strategy_total_def positions_total_def strategy_by_id_def)

lemma find_update_where:
  assumes "\<And>x. q (f x) = q x"
  shows "find q (update_where r f xs) = map_option (\<lambda>x. if r x then f x else x) (find q xs)"
  using assms by (induction xs) (auto simp: update_where_def)

lemma strategy_by_id_set:
  assumes "\<And>s. ls_id (f s) = ls_id s"
  shows "strategy_by_id sid (set_strategy sid' f w) =
    map_option (\<lambda>s. if ls_id s = sid' then f s else s) (strategy_by_id sid w)"
  using find_update_where [of "\<lambda>s. ls_id s = sid" f] assms by (simp add: strategy_by_id_def set_strategy_def)

lemma strategy_by_id_id: "strategy_by_id sid w = Some s \<Longrightarrow> ls_id s = sid"
  by (auto simp: strategy_by_id_def find_Some_iff)

lemma strategy_total_set:
  assumes "\<And>s. ls_id (f s) = ls_id s" "\<And>s. ls_pnl_total (f s) = ls_pnl_total s + x"
  shows "strategy_total sid (set_strategy sid' f w) =
    strategy_total sid w + (if sid' = sid \<and> strategy_by_id sid w \<noteq> None then x else 0)"
  using assms strategy_by_id_id [of sid w] strategy_by_id_set [of f sid sid' w]
  by (auto simp: strategy_total_def split: option.splits)

lemma ledger_set_strategy:
  assumes "strategy_ledger sid k w" "\<And>s. ls_id (f s) = ls_id s" "\<And>s. ls_pnl_total (f s) = ls_pnl_total s + x"
  shows "strategy_ledger sid (k + (if sid' = sid then x else 0)) (set_strategy sid' f w)"
  using assms strategy_total_set [of f x sid sid' w] strategy_by_id_set [of f sid sid' w]
  by (auto simp: strategy_ledger_def positions_total_def close_frame)

lemma ledger_disable: "strategy_ledger sid k w \<Longrightarrow> strategy_ledger sid k (disable_strategy sid' r w)"
  using ledger_set_strategy [of sid k w _ 0 sid'] by (simp add: disable_strategy_def)

lemma ledger_book_row: "strategy_ledger sid k w \<Longrightarrow>
    strategy_ledger sid (k + (if sid' = sid then x else 0)) (set_strategy sid' (book_row x) w)"
  by (rule ledger_set_strategy) (simp_all add: book_row_def)

text \<open>Changing one row of a keyed list changes a sum by what that row changes.\<close>

lemma sum_update_one:
  fixes h :: "'a \<Rightarrow> rat"
  assumes "distinct (map key xs)" "x \<in> set xs"
  shows "sum_list (map h (update_where (\<lambda>y. key y = key x) f xs)) = sum_list (map h xs) - h x + h (f x)"
  using assms
proof (induction xs)
  case (Cons y ys)
  show ?case
  proof (cases "x = y")
    case True
    then have "key x \<notin> key ` set ys" using Cons.prems(1) by auto
    then have "update_where (\<lambda>y. key y = key x) f ys = ys"
      by (intro update_where_none) (auto simp: image_iff)
    then show ?thesis by (simp add: True update_where_def)
  next
    case False
    then have "x \<in> set ys" "key y \<noteq> key x" using Cons.prems by auto
    then show ?thesis using Cons by (simp add: update_where_def)
  qed
qed simp

lemma update_where_keys: "(\<And>y. key (f y) = key y) \<Longrightarrow> map key (update_where q f xs) = map key xs"
  by (simp add: update_where_def)

definition close_write_row :: "listener_env \<Rightarrow> close_call \<Rightarrow> settled_close \<Rightarrow> rat option \<Rightarrow> nat option
    \<Rightarrow> listener_position \<Rightarrow> listener_position" where
  "close_write_row E c s net closing p =
     (if po_open p then if se_full s then close_row (le_now E) c s net closing p else reduce_row s p else p)"

lemma close_write_row_simps [simp]:
  "po_id (close_write_row E c s net closing p) = po_id p"
  "po_strategy (close_write_row E c s net closing p) = po_strategy p"
  "po_open (close_write_row E c s net closing p) \<longleftrightarrow> po_open p \<and> \<not> se_full s"
  "\<not> (po_open p \<and> se_full s) \<Longrightarrow> po_pnl_realized (close_write_row E c s net closing p) = po_pnl_realized p"
  "po_open p \<Longrightarrow> se_full s \<Longrightarrow>
     po_pnl_realized (close_write_row E c s net closing p) = coalesce net (po_pnl_realized p)"
  by (simp_all add: close_write_row_def close_row_simps)

lemma write_close_rows: "lw_positions (write_close E c s net closing w) =
    update_where (\<lambda>p. po_id p = po_id (se_position s)) (close_write_row E c s net closing) (lw_positions w)"
  unfolding write_close_positions by (simp add: close_write_row_def [abs_def])

lemma ledger_write:
  assumes "strategy_ledger sid k w" "se_position s \<in> set (lw_positions w)" "po_open (se_position s)"
  shows "strategy_ledger sid (k - (if se_full s \<and> po_strategy (se_position s) = sid then or_zero net else 0))
    (write_close E c s net closing w)"
proof -
  let ?p = "se_position s" and ?f = "close_write_row E c s net closing"
  let ?w = "write_close E c s net closing w"
  have d: "distinct (map po_id (lw_positions w))" using assms(1) by (simp add: strategy_ledger_def)
  have clean: "list_all (\<lambda>p. po_open p \<and> po_strategy p = sid \<longrightarrow> po_pnl_realized p = None) (lw_positions w)"
    using assms(1) by (simp add: strategy_ledger_def)
  have "positions_total sid ?w = positions_total sid w - position_figure sid ?p + position_figure sid (?f ?p)"
    unfolding positions_total_def write_close_rows by (rule sum_update_one [OF d assms(2)])
  moreover have "position_figure sid (?f ?p) - position_figure sid ?p =
      (if se_full s \<and> po_strategy ?p = sid then or_zero net else 0)"
    using clean assms(2,3) by (auto simp: position_figure_def list_all_iff)
  moreover have "strategy_total sid ?w = strategy_total sid w" "strategy_by_id sid ?w = strategy_by_id sid w"
    by (simp_all add: strategy_total_def strategy_by_id_def close_frame)
  moreover have "list_all (\<lambda>p. po_open p \<and> po_strategy p = sid \<longrightarrow> po_pnl_realized p = None) (lw_positions ?w)"
    using clean by (auto simp: write_close_rows update_where_def list_all_iff)
  moreover have "distinct (map po_id (lw_positions ?w))"
    using d by (simp add: write_close_rows update_where_keys)
  ultimately show ?thesis using assms(1) by (auto simp: strategy_ledger_def)
qed

definition keeps_ledger :: "string \<Rightarrow> flattener \<Rightarrow> bool" where
  "keeps_ledger sid f \<longleftrightarrow> (\<forall>sid' a k w. strategy_ledger sid k w \<longrightarrow> strategy_ledger sid k (f sid' a w))"

lemma ledger_book:
  assumes "keeps_ledger sid f" "strategy_ledger sid k w" "\<not> le_db_fails E Book_pnl"
  shows "strategy_ledger sid (k + (if sid' = sid then or_zero x else 0)) (book_realized_pnl f E sid' x w)"
proof (cases x)
  case (Some y)
  have "strategy_ledger sid k' v \<Longrightarrow> strategy_ledger sid k' (disable_if_drawdown_breached f E sid' v)" for k' v
    using assms(1) by (auto simp: disable_if_drawdown_breached_def keeps_ledger_def intro!: ledger_disable
        split: option.splits)
  from this [OF ledger_book_row [OF assms(2), of sid' y]] show ?thesis
    using assms(3) by (auto simp: book_realized_pnl_def Some)
qed (use assms in \<open>simp add: book_realized_pnl_def\<close>)

lemma ledger_close_with:
  assumes "keeps_ledger sid f" "strategy_ledger sid k w" "\<not> le_db_fails E Book_pnl"
  shows "strategy_ledger sid k (snd (close_with f E sid' acct c w))"
proof -
  obtain x w1 where b: "begin_close E sid' acct c w = (x, w1)" by fastforce
  have l1: "strategy_ledger sid k w1" using assms(2) ledger_cong [OF begin_frame(1,2) [OF b]] by simp
  show ?thesis
  proof (cases x)
    case (Inr s)
    note b' = b [unfolded Inr]
    obtain closing w2 where e: "ensure_close_order E sid' acct c s w1 = (closing, w2)" by fastforce
    let ?net = "net_realized_pnl s" and ?w3 = "write_close E c s (net_realized_pnl s) closing w2"
    have l2: "strategy_ledger sid k w2" using l1 ledger_cong [OF ensure_frame [OF e]] by simp
    note pos = open_leg_member [OF begin_settled(1) [OF b']]
    have mem: "se_position s \<in> set (lw_positions w2)"
      using pos(1) begin_frame(1) [OF b'] ensure_frame(1) [OF e] by simp
    have l3: "strategy_ledger sid (k - (if se_full s \<and> sid' = sid then or_zero ?net else 0)) ?w3"
      using ledger_write [OF l2 mem pos(2)] pos(3) by simp
    have "strategy_ledger sid k (snd (finish_close f E sid' acct c s w1))"
    proof (cases "se_full s")
      case True
      have "strategy_ledger sid k (book_realized_pnl f E sid' ?net ?w3)"
        using ledger_book [OF assms(1) l3 assms(3), of sid' ?net] True by (auto split: if_splits)
      with True l2 show ?thesis by (simp add: finish_close_def e Let_def)
    next
      case False
      then show ?thesis using l2 l3 ledger_cong [OF resize_frame] by (simp add: finish_close_def e Let_def)
    qed
    then show ?thesis by (simp add: close_with_def b')
  qed (use l1 in \<open>simp add: close_with_def b\<close>)
qed

lemma flattener_keeps_ledger: "\<not> le_db_fails E Book_pnl \<Longrightarrow> keeps_ledger sid (flattener_of E n)"
proof (induction n)
  case (Suc n)
  have "strategy_ledger sid k (flattener_of E (Suc n) sid' a w)" if "strategy_ledger sid k w" for k sid' a w
    unfolding flattener_of_Suc
    by (rule close_each_snd_induct [where P = "strategy_ledger sid k"]) (use that Suc ledger_close_with in auto)
  then show ?case by (simp add: keeps_ledger_def)
qed (simp add: keeps_ledger_def flattener_of_def)

lemma ledger_close:
  assumes "strategy_ledger sid k w" "\<not> le_db_fails E Book_pnl"
  shows "strategy_ledger sid k (snd (close_strategy_position E sid' acct c w))"
  unfolding close_strategy_position_def
  by (rule ledger_close_with [OF flattener_keeps_ledger [OF assms(2)] assms])

section \<open>Synchronising\<close>

lemma ledger_book_each:
  assumes "\<not> le_db_fails E Book_pnl" "strategy_ledger sid k w"
  shows "strategy_ledger sid (k + sum_list (map snd (filter (\<lambda>b. fst b = sid) bookings))) (book_each E bookings w)"
  using assms(2)
proof (induction bookings arbitrary: k w)
  case (Cons b bookings)
  obtain s x where b: "b = (s, x)" by fastforce
  have "strategy_ledger sid (k + (if s = sid then x else 0))
      (book_realized_pnl (flattener_of E (length (lw_positions w))) E s (Some x) w)"
    using ledger_book [OF flattener_keeps_ledger [OF assms(1)] Cons.prems assms(1), of s "Some x"] by auto
  from Cons.IH [OF this] show ?case by (auto simp: book_each_def b algebra_simps split: if_splits)
qed (simp add: book_each_def)

lemma sum_filter_figures:
  fixes d :: "'a \<Rightarrow> rat"
  shows "sum_list (map snd (filter (\<lambda>b. fst b = sid) (map (\<lambda>p. (g p, d p)) (filter q xs)))) =
    sum_list (map (\<lambda>p. if q p \<and> g p = sid then d p else 0) xs)"
  by (induction xs) auto

lemma sum_list_diff: "sum_list (map (\<lambda>x. f x - g x :: rat) xs) = sum_list (map f xs) - sum_list (map g xs)"
  by (induction xs) auto

text \<open>A rewrite of the rows whose bookings are the differences it makes.\<close>

lemma ledger_rewrite:
  assumes "strategy_ledger sid k w" "\<And>p. po_id (g p) = po_id p" "\<And>p. po_open (g p) = po_open p"
    "\<And>p. po_strategy (g p) = po_strategy p"
    and "\<forall>p\<in>set (lw_positions w). po_open p \<and> po_strategy p = sid \<longrightarrow> po_pnl_realized (g p) = po_pnl_realized p"
    and "x = sum_list (map (\<lambda>p. position_figure sid (g p) - position_figure sid p) (lw_positions w))"
  shows "strategy_ledger sid (k - x) (w\<lparr>lw_positions := map g (lw_positions w)\<rparr>)"
  using assms
  by (auto simp: strategy_ledger_def positions_total_def strategy_total_def strategy_by_id_def list_all_iff
      sum_list_diff comp_def)

lemma ledger_sync:
  assumes "\<not> le_db_fails E Book_pnl" "strategy_ledger sid k w"
    and no_partial: "\<forall>p\<in>set (lw_positions w). po_open p \<and> po_strategy p = sid \<longrightarrow> closing_orders (po_id p) w = []"
  shows "strategy_ledger sid k (sync_position_pnl E w)"
proof -
  let ?w1 = "w\<lparr>lw_positions := map (attribute_row w) (lw_positions w)\<rparr>"
  let ?w2 = "?w1\<lparr>lw_positions := map (correct_row ?w1) (lw_positions ?w1)\<rparr>"
  let ?new = "sum_list (map snd (filter (\<lambda>b. fst b = sid) (newly_attributed w)))"
  let ?cor = "sum_list (map snd (filter (\<lambda>b. fst b = sid) (corrections ?w1)))"
  have roll: "position_rollup p v = None"
    if "closing_orders (po_id p) v = []" for p v using that by (simp add: position_rollup_def)
  have l1: "strategy_ledger sid (k - ?new) ?w1"
  proof (rule ledger_rewrite [OF assms(2)])
    show "?new = sum_list (map (\<lambda>p. position_figure sid (attribute_row w p) - position_figure sid p) (lw_positions w))"
      unfolding newly_attributed_def sum_filter_figures
      by (rule arg_cong [where f = sum_list]) (auto simp: attribute_row_def position_figure_def)
  qed (use no_partial roll in \<open>auto simp: attribute_row_def\<close>)
  have no_partial1: "\<forall>p\<in>set (lw_positions ?w1). po_open p \<and> po_strategy p = sid \<longrightarrow> closing_orders (po_id p) ?w1 = []"
    using no_partial by (auto simp: attribute_row_def closing_orders_def)
  have l2: "strategy_ledger sid (k - ?new - ?cor) ?w2"
  proof (rule ledger_rewrite [OF l1])
    show "?cor = sum_list (map (\<lambda>p. position_figure sid (correct_row ?w1 p) - position_figure sid p) (lw_positions ?w1))"
      unfolding corrections_def sum_filter_figures
      by (rule arg_cong [where f = sum_list]) (auto simp: correct_row_def position_figure_def)
  qed (use no_partial1 roll in \<open>auto simp: correct_row_def\<close>)
  have "strategy_ledger sid (k - ?cor) (book_each E (newly_attributed w) ?w2)"
    using ledger_book_each [OF assms(1) l2, of "newly_attributed w"] by (simp add: algebra_simps)
  from ledger_book_each [OF assms(1) this, of "corrections ?w1"]
  show ?thesis by (simp add: sync_position_pnl_def Let_def algebra_simps)
qed

end
