(* ===== verification/CloseProperties.thy ===== *)
theory CloseProperties
  imports CloseBooks
begin

text \<open>
  The properties of closing: a close ends, keeps the ledger, closes and books a position
  once, and asks for no more than is recorded; and the case in which the books of a
  position closed in parts are wrong.
\<close>

section \<open>Invariants of the positions table\<close>

lemma begin_size:
  assumes "begin_close E sid acct c w = (Inr s, w1)"
  shows "se_size s \<le> po_size (se_position s)"
  using assms by (auto simp: begin_close_def Let_def effective_close_size_def filled_size_def
      split: option.splits if_splits prod.splits)

text \<open>An invariant that every write of a close keeps is kept by closing, with all it triggers.\<close>

definition kept_by_writes :: "(listener_position list \<Rightarrow> bool) \<Rightarrow> bool" where
  "kept_by_writes I \<longleftrightarrow> (\<forall>E c s net closing ps. I ps \<longrightarrow> se_position s \<in> set ps \<longrightarrow> po_open (se_position s)
     \<longrightarrow> se_size s \<le> po_size (se_position s)
     \<longrightarrow> I (update_where (\<lambda>p. po_id p = po_id (se_position s)) (close_write_row E c s net closing) ps))"

definition kept_by_flattener :: "(listener_position list \<Rightarrow> bool) \<Rightarrow> flattener \<Rightarrow> bool" where
  "kept_by_flattener I f \<longleftrightarrow> (\<forall>sid a w. I (lw_positions w) \<longrightarrow> I (lw_positions (f sid a w)))"

text \<open>
  The contract of the positions table: the closing routines promise to keep whatever every
  single write keeps, and their callers rely on that for the invariants of their own.
\<close>

locale row_invariant =
  fixes I :: "listener_position list \<Rightarrow> bool"
  assumes writes: "kept_by_writes I"
begin

lemma book_with:
  assumes "kept_by_flattener I f" "I (lw_positions w)"
  shows "I (lw_positions (book_realized_pnl f E sid x w))"
  using assms by (auto simp: book_realized_pnl_def disable_if_drawdown_breached_def kept_by_flattener_def close_frame
      split: option.splits)

lemma finish:
  assumes "kept_by_flattener I f" "I (lw_positions w)"
    and "se_position s \<in> set (lw_positions w)" "po_open (se_position s)" "se_size s \<le> po_size (se_position s)"
  shows "I (lw_positions (snd (finish_close f E sid acct c s w)))"
proof -
  obtain closing w1 where e: "ensure_close_order E sid acct c s w = (closing, w1)" by fastforce
  note p = ensure_frame(1) [OF e]
  have "I (lw_positions (write_close E c s (net_realized_pnl s) closing w1))"
    using writes assms p by (simp add: write_close_rows kept_by_writes_def)
  then show ?thesis
    using book_with [OF assms(1)] assms(2) p by (simp add: finish_close_def e Let_def close_frame)
qed

lemma close_with:
  assumes "kept_by_flattener I f" "I (lw_positions w)"
  shows "I (lw_positions (snd (close_with f E sid acct c w)))"
proof -
  obtain x w1 where b: "begin_close E sid acct c w = (x, w1)" by fastforce
  show ?thesis
  proof (cases x)
    case (Inr s)
    note b' = b [unfolded Inr]
    note pos = open_leg_member [OF begin_settled(1) [OF b']]
    show ?thesis
      using finish [OF assms(1), of w1 s E sid acct c] assms(2) pos begin_frame(1) [OF b'] begin_size [OF b']
      by (simp add: close_with_def b')
  qed (use assms(2) begin_frame(1) [OF b] in \<open>simp add: close_with_def b\<close>)
qed

lemma flattener: "kept_by_flattener I (flattener_of E n)"
proof (induction n)
  case (Suc n)
  have "I (lw_positions (flattener_of E (Suc n) sid a w))" if "I (lw_positions w)" for sid a w
    unfolding flattener_of_Suc
    by (rule close_each_snd_induct [where P = "\<lambda>v. I (lw_positions v)"])
       (use that Suc close_with in auto)
  then show ?case by (simp add: kept_by_flattener_def)
qed (simp add: kept_by_flattener_def flattener_of_def)

lemma close: "I (lw_positions w) \<Longrightarrow> I (lw_positions (snd (close_strategy_position E sid acct c w)))"
  unfolding close_strategy_position_def by (rule close_with [OF flattener])

lemma book: "I (lw_positions w) \<Longrightarrow> I (lw_positions (book_realized_pnl (flattener_of E n) E sid x w))"
  by (rule book_with [OF flattener])

end

section \<open>A close ends\<close>

text \<open>
  C24. Closing may book, booking may stop the strategy and flatten it, and flattening closes
  again. However deep that recursion is allowed to go beyond the number of open legs, the
  result is the same, so the depth the model allows is the depth the code reaches.
\<close>

theorem close_terminates:
  assumes "length (open_legs sid w) \<le> n"
  shows "close_with (flattener_of E n) E sid acct c w = close_strategy_position E sid acct c w"
  by (rule close_any_fuel) (use assms in \<open>simp add: open_count_def\<close>)

section \<open>The ledger is kept\<close>

text \<open>
  C6. When no booking fails and no open leg has been given a figure, closing a leg of any
  strategy, with the drawdown stop it may trigger, keeps the strategy's total as far ahead
  of its positions as it was; and so does a synchronisation, when no order closes a leg
  that is still open.
\<close>

theorem close_keeps_ledger:
  assumes "strategy_ledger sid k w" "\<not> le_db_fails E Book_pnl"
  shows "strategy_ledger sid k (snd (close_strategy_position E sid' acct c w)) \<and>
    (list_all (\<lambda>p. po_open p \<and> po_strategy p = sid \<longrightarrow> closing_orders (po_id p) w = []) (lw_positions w)
      \<longrightarrow> strategy_ledger sid k (sync_position_pnl E w))"
  using ledger_close [OF assms] ledger_sync [OF assms(2,1)] by (auto simp: list_all_iff)

section \<open>A position is closed once\<close>

interpretation gone: row_invariant "\<lambda>ps. \<not> list_ex (\<lambda>p. po_id p = pid \<and> po_open p) ps" for pid
  by unfold_locales (auto simp: kept_by_writes_def update_where_def list_ex_iff)

lemma finish_full_gone:
  assumes "finish_close (flattener_of E n) E sid acct c s w = (r, w')" "cl_success r" "se_full s"
  shows "\<not> still_open (po_id (se_position s)) w'"
proof -
  obtain closing w1 where e: "ensure_close_order E sid acct c s w = (closing, w1)" by fastforce
  let ?w2 = "write_close E c s (net_realized_pnl s) closing w1"
  let ?gone = "\<lambda>ps. \<not> list_ex (\<lambda>p. po_id p = po_id (se_position s) \<and> po_open p) ps"
  have w': "w' = book_realized_pnl (flattener_of E n) E sid (net_realized_pnl s) ?w2"
    using assms by (auto simp: finish_close_def e Let_def close_failed_def split: if_splits)
  have "?gone (lw_positions ?w2)"
    using assms(3) by (auto simp: write_close_rows update_where_def list_ex_iff)
  then have "?gone (lw_positions w')"
    unfolding w' by (rule gone.book)
  then show ?thesis by (simp add: still_open_def)
qed

text \<open>
  C12. Two requests may close the same leg at once: both find it open and both settle it on the
  exchange. The one that writes second finds the row closed: it reports a race, changes no
  position and books nothing.
\<close>

theorem closed_once:
  assumes "finish_close (flattener_of E n) E sid acct c s w = (r, w1)" "cl_success r" "se_full s"
    and "po_id (se_position s') = po_id (se_position s)"
  shows "\<exists>w2. finish_close f E' sid' acct' c' s' w1 =
      (close_failed ''race_condition'' (Some ''Position already closed by concurrent request''), w2) \<and>
    lw_positions w2 = lw_positions w1 \<and> lw_strategies w2 = lw_strategies w1"
proof -
  obtain closing w2 where e: "ensure_close_order E' sid' acct' c' s' w1 = (closing, w2)" by fastforce
  have "\<not> still_open (po_id (se_position s')) w2"
    using finish_full_gone [OF assms(1-3)] still_open_cong [OF ensure_frame(1) [OF e]] assms(4) by simp
  then show ?thesis using ensure_frame [OF e] by (simp add: finish_close_def e Let_def)
qed

section \<open>What is asked of the exchange\<close>

definition sizes_ok :: "listener_position list \<Rightarrow> bool" where
  "sizes_ok ps \<longleftrightarrow> distinct (map po_id ps) \<and> list_all (\<lambda>p. 0 \<le> po_size p) ps"

interpretation sizes: row_invariant sizes_ok
proof (unfold_locales, unfold kept_by_writes_def sizes_ok_def, intro allI impI conjI)
  fix E c net closing and s :: settled_close and ps :: "listener_position list"
  assume ps: "distinct (map po_id ps) \<and> list_all (\<lambda>p. 0 \<le> po_size p) ps"
    and p: "se_position s \<in> set ps" "po_open (se_position s)" "se_size s \<le> po_size (se_position s)"
  let ?f = "close_write_row E c s net closing"
  let ?ps = "update_where (\<lambda>p. po_id p = po_id (se_position s)) ?f ps"
  show "distinct (map po_id ?ps)" using ps by (simp add: update_where_keys)
  have "q = se_position s" if "q \<in> set ps" "po_id q = po_id (se_position s)" for q
    using that p(1) ps by (auto simp: distinct_map dest: inj_onD)
  moreover have "0 \<le> po_size (?f (se_position s))"
    using p ps by (auto simp: close_write_row_def close_row_simps list_all_iff)
  ultimately show "list_all (\<lambda>p. 0 \<le> po_size p) ?ps"
    using ps by (auto simp: update_where_def list_all_iff)
qed

text \<open>
  Settling a close sends at most one request, for the leg that was asked: the whole leg when
  the size covers it, else exactly the size asked for, which is less than what is recorded;
  and no sequence of closes leaves a position with a negative size.
\<close>

theorem close_within_position:
  assumes "begin_close E sid acct c w = (x, w1)"
  shows "(lw_sent w1 = lw_sent w \<or> (\<exists>p. find_open_leg sid (cc_symbol c) (cc_side c) w = Some p \<and>
       lw_sent w1 = lw_sent w @ [Close_position acct (cc_symbol c) (cc_side c)
         (case cc_size c of None \<Rightarrow> None | Some z \<Rightarrow> if z < po_size p then Some z else None)])) \<and>
    (sizes_ok (lw_positions v) \<longrightarrow> sizes_ok (lw_positions (snd (close_strategy_position E sid acct c v))))"
proof
  show "lw_sent w1 = lw_sent w \<or> (\<exists>p. find_open_leg sid (cc_symbol c) (cc_side c) w = Some p \<and>
       lw_sent w1 = lw_sent w @ [Close_position acct (cc_symbol c) (cc_side c)
         (case cc_size c of None \<Rightarrow> None | Some z \<Rightarrow> if z < po_size p then Some z else None)])"
  proof (cases "find_open_leg sid (cc_symbol c) (cc_side c) w")
    case (Some p)
    have full: "po_size p \<le> effective_close_size (cc_size c) (po_size p) \<longleftrightarrow>
        (case cc_size c of None \<Rightarrow> True | Some z \<Rightarrow> \<not> z < po_size p)"
      and part: "cc_size c = Some z \<Longrightarrow> z < po_size p \<Longrightarrow> effective_close_size (cc_size c) (po_size p) = z" for z
      by (auto simp: effective_close_size_def split: option.splits)
    show ?thesis
    proof (cases "cc_skip_exchange c")
      case False
      have "lw_sent w1 = lw_sent w @ [Close_position acct (cc_symbol c) (cc_side c)
          (if po_size p \<le> effective_close_size (cc_size c) (po_size p) then None
           else Some (effective_close_size (cc_size c) (po_size p)))]"
        using assms by (auto simp: begin_close_def Some False call_executor_close_position_def send_def Let_def
            split: if_splits)
      then show ?thesis using full part Some by (auto split: option.splits)
    qed (use assms in \<open>simp add: begin_close_def Some Let_def\<close>)
  qed (use assms in \<open>simp add: begin_close_def\<close>)
  show "sizes_ok (lw_positions v) \<longrightarrow> sizes_ok (lw_positions (snd (close_strategy_position E sid acct c v)))"
    using sizes.close by blast
qed

end
