(* ===== verification/ListenerDemo.thy ===== *)
theory ListenerDemo
  imports CloseProperties ProcessOrder
begin

text \<open>
  Concrete worlds of the order listener: the witnesses of its properties, and the runs that
  show where its books or its rows go wrong.
\<close>

definition demo_listed :: listener_strategy where
  "demo_listed = \<lparr>ls_id = ''s1'', ls_enabled = True, ls_is_deleted = False, ls_symbol = ''BTC-USDT'',
     ls_account_id = Some ''acc'', ls_webhook_secret = ''key'', ls_quote_variants = True,
     ls_cross_charting = False, ls_default_leverage = Some 2, ls_max_leverage = Some 10,
     ls_margin_mode = Some ''isolated'', ls_margin_per_trade = Some 50, ls_capital_allocation = 1000,
     ls_allocation_peak = None, ls_max_drawdown_pct = None, ls_pnl_today = 0, ls_pnl_total = 0,
     ls_stop_reason = None, ls_last_signal_at = None\<rparr>"

definition demo_listed_leg :: "nat \<Rightarrow> leg_side \<Rightarrow> listener_position" where
  "demo_listed_leg pid side = \<lparr>po_id = pid, po_strategy = ''s1'', po_symbol = ''BTC-USDT'', po_side = side,
     po_entry_price = 100, po_size = 2, po_leverage = 2, po_margin_mode = ''isolated'',
     po_opening_order = None, po_open = True, po_opened_at = 0, po_closing_price = None,
     po_pnl_realized = None, po_closing_order = None, po_close_reason = None, po_closed_at = None,
     po_liquidation_price = None, po_miss_count = 0, po_divergent = False, po_exchange_size = None,
     po_divergence_at = None,
     po_mfe_price = None, po_mae_price = None, po_mfe_r = None, po_mae_r = None, po_excursion_samples = 0,
     po_excursion_first_at = None, po_excursion_last_at = None\<rparr>"

definition demo_books :: "listener_position list \<Rightarrow> listener_world" where
  "demo_books ps = \<lparr>lw_strategies = [demo_listed], lw_positions = ps, lw_orders = [], lw_price_history = [],
     lw_signal_log = [], lw_webhook_calls = [], lw_sent = []\<rparr>"

text \<open>An exchange that fills every close at 105 with a profit of 10, and every entry at 100.\<close>

definition demo_fill :: "rat option \<Rightarrow> order_result" where
  "demo_fill pnl = \<lparr>or_success = True, or_exchange_order_id = Some ''x'', or_status = ''filled'',
     or_error_msg = None, or_actual_fill_price = Some 100, or_actual_fill_size = None, or_pnl = None,
     or_realized_pnl = pnl, or_fee = None\<rparr>"

definition demo_services :: listener_env where
  "demo_services = \<lparr>le_now = 1000, le_db_fails = (\<lambda>_. False), le_cached_strategy = (\<lambda>_. None),
     le_position_mode = (\<lambda>_. Some ''hedge''), le_mark_price = (\<lambda>_ _ _. Answer (Some 100)),
     le_maintenance_margin = (\<lambda>_ _ _ _. Answer (Some (1/100))), le_min_base_size = (\<lambda>_ _. Answer None),
     le_trigger_orders = (\<lambda>_ _ _ _. Answer (Some [])),
     le_execute = (\<lambda>_ _. Answer (demo_fill None)),
     le_close_position = (\<lambda>_ _ _ side _. Answer (demo_fill (Some (if side = Long_leg then 10 else 3)))),
     le_modify_stops = (\<lambda>_ _ _ _ _ _. Timed_out), le_cancel_order = (\<lambda>_ _ _ _. Timed_out),
     le_amend_order = (\<lambda>_ _ _ _ _ _. Timed_out)\<rparr>"

definition demo_close :: "rat option \<Rightarrow> close_call" where
  "demo_close sz = \<lparr>cc_symbol = ''BTC-USDT'', cc_side = Long_leg, cc_size = sz, cc_closing_order = None,
     cc_reason = Some ''manual_close'', cc_skip_exchange = False, cc_fill_price = None,
     cc_realized_pnl = None, cc_fee = None\<rparr>"

definition demo_payload :: "string \<Rightarrow> order_signal \<Rightarrow> target_position option \<Rightarrow> webhook_payload" where
  "demo_payload quote sig target = \<lparr>wp_base_asset = ''BTC'', wp_quote_asset = quote,
     wp_side = (if sig = Open_long \<or> sig = Close_short then Buy_side else Sell_side),
     wp_order_type = ''market'', wp_size = 1, wp_price = None, wp_leverage = None, wp_margin_mode = None,
     wp_tp_price = Some 130, wp_sl_price = Some 90, wp_tp_pct = None, wp_sl_pct = None, wp_signal = sig,
     wp_target_position = target, wp_token = ''key'', wp_signal_source = None, wp_signal_metadata = None,
     wp_indicator_price = None\<rparr>"

section \<open>A position closed in two parts\<close>

definition close_in_parts :: "listener_world \<Rightarrow> listener_world" where
  "close_in_parts w =
     (let w1 = snd (close_strategy_position demo_services ''s1'' ''acc'' (demo_close (Some 1)) w);
          w2 = sync_position_pnl demo_services w1;
          w3 = snd (close_strategy_position demo_services ''s1'' ''acc'' (demo_close None) w2)
      in sync_position_pnl demo_services w3)"

text \<open>
  A long of two is closed in two halves, each with a profit of ten, with a synchronisation
  after each. The position ends with twenty; the strategy is booked thirty, because the
  closing routine books its own figure although the first half had been attributed and
  booked, and the next synchronisation books the difference again.
\<close>

lemma partial_close_booked_twice:
  "map po_pnl_realized (lw_positions (close_in_parts (demo_books [demo_listed_leg 0 Long_leg]))) = [Some 20] \<and>
   map ls_pnl_total (lw_strategies (close_in_parts (demo_books [demo_listed_leg 0 Long_leg]))) = [30]"
  by code_simp

definition demo_flat :: "listener_world \<Rightarrow> listener_world" where
  "demo_flat w = sync_position_pnl demo_services
     (snd (handle_webhook demo_services ''s1'' None (Some (demo_payload ''USDT'' Open_long (Some Target_flat))) w))"

text \<open>
  A flat signal closes both legs of a hedge account, the long with a profit of ten and the
  short with three. Both closes are linked to the one order row, which carries the figure of
  the long and ends up naming the short: the synchronisation then writes ten to the short
  and books seven more, twenty in all instead of thirteen.
\<close>

lemma flat_both_legs:
  "map (\<lambda>p. (po_open p, po_pnl_realized p)) (lw_positions (demo_flat (demo_books [demo_listed_leg 0 Long_leg, demo_listed_leg 1 Short_leg])))
     = [(False, Some 10), (False, Some 10)] \<and>
   map ls_pnl_total (lw_strategies (demo_flat (demo_books [demo_listed_leg 0 Long_leg, demo_listed_leg 1 Short_leg]))) = [20]"
  by code_simp

section \<open>A coupled symbol\<close>

definition demo_alert :: "string \<Rightarrow> order_signal \<Rightarrow> listener_world \<Rightarrow> listener_world" where
  "demo_alert quote sig w =
     snd (handle_webhook demo_services ''s1'' None (Some (demo_payload quote sig None)) w)"

text \<open>
  An alert that names BTC-USD for a strategy that trades BTC-USDT passes the coupling, and
  the fill is recorded under the alert's symbol. A second entry fills on the exchange but
  violates the unique index and is recorded as failed; a close looks for the execution
  symbol, finds no position, and nothing is sent.
\<close>

lemma coupled_fill_lost:
  "let w = demo_alert ''USD'' Close_long (demo_alert ''USD'' Open_long (demo_alert ''USD'' Open_long (demo_books [])))
   in map od_status (lw_orders w) = [''filled'', ''route_failed'', ''no_position_to_close''] \<and>
      map (\<lambda>p. (po_symbol p, po_open p, po_size p)) (lw_positions w) = [(''BTC-USD'', True, 1)] \<and>
      length (filter (\<lambda>r. case r of Execute _ \<Rightarrow> True | _ \<Rightarrow> False) (lw_sent w)) = 2"
  by code_simp

end
