(* ===== verification/WebhookSafety.thy ===== *)
theory WebhookSafety
  imports ListenerDemo
begin

text \<open>
  What the webhook handler guarantees of an order it accepts, and what executing it does to
  the legs that are open already.
\<close>

section \<open>Passing the guards\<close>

lemma add_meta_fields [simp]:
  "wp_signal (add_meta m p) = wp_signal p" "wp_size (add_meta m p) = wp_size p"
  "wp_side (add_meta m p) = wp_side p" "wp_base_asset (add_meta m p) = wp_base_asset p"
  "wp_quote_asset (add_meta m p) = wp_quote_asset p"
  by (simp_all add: add_meta_def)

lemma clamp_fields [simp]:
  "wp_signal (clamp_size s l ref p) = wp_signal p" "wp_side (clamp_size s l ref p) = wp_side p"
  "wp_base_asset (clamp_size s l ref p) = wp_base_asset p" "wp_quote_asset (clamp_size s l ref p) = wp_quote_asset p"
  by (simp_all add: clamp_size_def Let_def)

lemma clamp_size_le:
  assumes "is_open_signal (wp_signal p)" "0 < ref"
  shows "wp_size (clamp_size s l ref p) \<le> margin_quantity s l ref" "wp_size (clamp_size s l ref p) \<le> wp_size p"
  using assms by (auto simp: clamp_size_def Let_def)

lemma margin_notional:
  assumes "0 < ref" "q \<le> margin_quantity s l ref"
  shows "q * ref \<le> num_or (ls_margin_per_trade s) 5 * of_int l + ref / (2 * 10 ^ 8)"
proof -
  let ?m = "num_or (ls_margin_per_trade s) 5 * of_int l"
  have "q \<le> ?m / ref + 1 / (2 * 10 ^ 8)"
    using assms(2) py_round_le [of "?m / ref" 8] by (simp add: margin_quantity_def)
  then have "q * ref \<le> (?m / ref + 1 / (2 * 10 ^ 8)) * ref"
    using assms(1) by (intro mult_right_mono) simp_all
  also have "(?m / ref + 1 / (2 * 10 ^ 8)) * ref = ?m + ref / (2 * 10 ^ 8)"
    using assms(1) by (simp add: distrib_right)
  finally show ?thesis .
qed

definition same_order :: "webhook_payload \<Rightarrow> webhook_payload \<Rightarrow> bool" where
  "same_order p q \<longleftrightarrow> wp_signal p = wp_signal q \<and> wp_size p = wp_size q \<and> wp_side p = wp_side q \<and>
     wp_base_asset p = wp_base_asset q \<and> wp_quote_asset p = wp_quote_asset q"

lemma bracket_same:
  assumes "price_bracket stripped ref d = Inr d'"
  shows "same_order (dr_payload d') (dr_payload d)" "stripped \<Longrightarrow> d' = d"
  using assms by (auto simp: price_bracket_def price_tp_pct_def price_sl_pct_def same_order_def Let_def
      split: if_splits option.splits)

lemma inject_same:
  assumes "inject_guaranteed_sl E acct symbol mode l stripped ref d = Inr d'"
  shows "same_order (dr_payload d') (dr_payload d)" "dr_tp_price d' = dr_tp_price d" "stripped \<Longrightarrow> d' = d"
  using assms by (auto simp: inject_guaranteed_sl_def same_order_def Let_def
      split: if_splits sum.splits prod.splits)

text \<open>The maintenance margin the guaranteed stop is computed with.\<close>

definition margin_rate_used :: "listener_env \<Rightarrow> string \<Rightarrow> string \<Rightarrow> rat \<Rightarrow> string \<Rightarrow> int \<Rightarrow> rat" where
  "margin_rate_used E account symbol notional mode leverage =
     (case get_maintenance_margin E account symbol notional mode of Some m \<Rightarrow> m | None \<Rightarrow> fallback_mmr leverage)"

lemma inject_safe:
  assumes "inject_guaranteed_sl E acct symbol mode l stripped ref d = Inr d'"
    and "is_open_signal (wp_signal (dr_payload d))" "0 < ref" "\<not> stripped"
  shows "\<exists>sl source. dr_sl_price d' = Some sl \<and>
    compute_guaranteed_sl ref l (leg_side_name (signal_leg (wp_signal (dr_payload d)))) (dr_sl_price d)
      (margin_rate_used E acct symbol (wp_size (dr_payload d) * ref) mode l) = Inr (sl, source)"
  using assms by (fastforce simp: inject_guaranteed_sl_def margin_rate_used_def Let_def split: if_splits sum.splits prod.splits)

text \<open>
  What the guards let through. The stop is measured against the liquidation estimate with the
  maintenance margin read for the order's own notional, or the fallback of its leverage when
  none could be read.
\<close>

definition guarded_entry ::
  "listener_env \<Rightarrow> listener_strategy \<Rightarrow> string \<Rightarrow> string \<Rightarrow> bool \<Rightarrow> int \<Rightarrow> rat \<Rightarrow> webhook_payload \<Rightarrow> rat option \<Rightarrow> rat option \<Rightarrow> bool" where
  "guarded_entry E s symbol mode stripped leverage ref p tp sl \<longleftrightarrow>
     0 < ref \<and> leverage \<le> int_or (ls_max_leverage s) 10 \<and>
     wp_size p * ref \<le> num_or (ls_margin_per_trade s) 5 * of_int leverage + ref / (2 * 10 ^ 8) \<and>
     (if stripped then tp = None \<and> sl = None
      else (let mmr = margin_rate_used E (account_of s) symbol (wp_size p * ref) mode leverage;
                half = 1 / (2 * 10 ^ infer_price_decimals ref)
            in \<exists>x. sl = Some x \<and>
              (if wp_signal p = Open_long
               then liquidation_safe_sl ref leverage ''long'' mmr - half \<le> x \<and> x \<le> ref + half
               else x \<le> liquidation_safe_sl ref leverage ''short'' mmr + half \<and> ref - half \<le> x))) \<and>
     (case (tp, sl) of
        (Some t, Some x) \<Rightarrow> 0 < bracket_risk (wp_signal p) ref x \<and>
          bracket_risk (wp_signal p) ref x \<le> bracket_reward (wp_signal p) ref t
      | _ \<Rightarrow> True)"

lemma risk_guards_guarded:
  assumes "risk_guards E s res p w = Inr (Inr (d, ref, mark))" "is_open_signal (wp_signal p)"
  shows "guarded_entry E s (rs_execution_symbol res) (resolve_margin_mode p s) (rs_price_stripped res) (resolve_leverage p s) ref
      (dr_payload d) (dr_tp_price d) (dr_sl_price d)"
    and "wp_size (dr_payload d) \<le> wp_size p" "wp_signal (dr_payload d) = wp_signal p"
    "ref = fst (reference_price E (account_of s) (rs_execution_symbol res) p w)"
proof -
  let ?l = "resolve_leverage p s" and ?st = "rs_price_stripped res" and ?sym = "rs_execution_symbol res"
    and ?mode = "resolve_margin_mode p s"
  let ?d0 = "\<lparr>dr_payload = clamp_size s ?l ref p, dr_tp_price = (if ?st then None else wp_tp_price p),
    dr_sl_price = (if ?st then None else wp_sl_price p)\<rparr>"
  obtain mk where r: "reference_price E (account_of s) ?sym p w = (ref, mk)"
    and lev: "?l \<le> int_or (ls_max_leverage s) 10" and ref: "0 < ref"
    and ex: "\<exists>d1. price_bracket ?st ref ?d0 = Inr d1 \<and> inject_guaranteed_sl E (account_of s)
      ?sym ?mode ?l ?st ref d1 = Inr d \<and> \<not> risk_reward_rejects ref d"
    using assms by (auto simp: risk_guards_def Let_def not_less not_le split: prod.splits if_splits sum.splits)
  then show "ref = fst (reference_price E (account_of s) ?sym p w)" by simp
  from ex obtain d1 where b: "price_bracket ?st ref ?d0 = Inr d1"
    and i: "inject_guaranteed_sl E (account_of s) ?sym ?mode ?l ?st ref d1 = Inr d"
    and rr: "\<not> risk_reward_rejects ref d" by blast
  have same: "same_order (dr_payload d) (clamp_size s ?l ref p)"
    using bracket_same(1) [OF b] inject_same(1) [OF i] by (simp add: same_order_def)
  then show sig: "wp_signal (dr_payload d) = wp_signal p" and "wp_size (dr_payload d) \<le> wp_size p"
    using clamp_size_le [OF assms(2) ref] by (simp_all add: same_order_def)
  have size: "wp_size (dr_payload d) * ref \<le> num_or (ls_margin_per_trade s) 5 * of_int ?l + ref / (2 * 10 ^ 8)"
    using same clamp_size_le(1) [OF assms(2) ref] by (intro margin_notional [OF ref]) (simp add: same_order_def)
  have sig1: "wp_signal (dr_payload d1) = wp_signal p" "wp_size (dr_payload d1) = wp_size (dr_payload d)"
    using bracket_same(1) [OF b] inject_same(1) [OF i] by (simp_all add: same_order_def)
  let ?mmr = "margin_rate_used E (account_of s) ?sym (wp_size (dr_payload d) * ref) ?mode ?l"
  let ?half = "1 / (2 * 10 ^ infer_price_decimals ref) :: rat"
  have stop: "if ?st then dr_tp_price d = None \<and> dr_sl_price d = None
      else (\<exists>x. dr_sl_price d = Some x \<and> (if wp_signal p = Open_long
         then liquidation_safe_sl ref ?l ''long'' ?mmr - ?half \<le> x \<and> x \<le> ref + ?half
         else x \<le> liquidation_safe_sl ref ?l ''short'' ?mmr + ?half \<and> ref - ?half \<le> x))"
  proof (cases ?st)
    case True
    then show ?thesis using bracket_same(2) [OF b] inject_same(3) [OF i] by simp
  next
    case False
    from inject_safe [OF i _ ref False] sig1 assms(2) obtain x src where
      x: "dr_sl_price d = Some x" and
      g: "compute_guaranteed_sl ref ?l (leg_side_name (signal_leg (wp_signal p))) (dr_sl_price d1) ?mmr = Inr (x, src)"
      by auto
    have "leg_side_name (signal_leg (wp_signal p)) = (if wp_signal p = Open_long then ''long'' else ''short'')"
      using assms(2) by (auto simp: is_open_signal_def leg_side_name_def signal_leg_def)
    with guaranteed_sl_bounds [OF ref _ g] x False show ?thesis by (auto split: if_splits)
  qed
  have "case (dr_tp_price d, dr_sl_price d) of
        (Some t, Some x) \<Rightarrow> 0 < bracket_risk (wp_signal p) ref x \<and>
          bracket_risk (wp_signal p) ref x \<le> bracket_reward (wp_signal p) ref t
      | _ \<Rightarrow> True"
    using rr ref assms(2) sig by (auto simp: risk_reward_rejects_def MIN_RISK_REWARD_def Let_def not_le not_less field_simps
        split: option.splits)
  with lev ref size stop show "guarded_entry E s ?sym ?mode ?st ?l ref (dr_payload d) (dr_tp_price d) (dr_sl_price d)"
    unfolding guarded_entry_def sig Let_def by (intro conjI)
qed

text \<open>How an accepted order came about.\<close>

lemma receive_accepted:
  assumes "receive_webhook E sid header (Some p) w = (Inr a, w')"
  obtains v s res d ref mark lid where "get_strategy E sid v = Some s" "lw_strategies v = lw_strategies w"
    "lw_positions v = lw_positions w" "token_ok header (wp_token p) (ls_webhook_secret s)" "ls_enabled s"
    "resolve_symbol (wp_base_asset p) (wp_quote_asset p) (ls_symbol s) (ls_quote_variants s)
       (ls_cross_charting s) = Inr res"
    "v = snd (insert_signal_log E sid w)"
    "risk_guards E s res p v = Inr (Inr (d, ref, mark))" "accept E s sid res lid p d mark v = (Inr a, w')"
proof -
  obtain lid v where ins: "insert_signal_log E sid w = (lid, v)" by fastforce
  have frame: "lw_strategies v = lw_strategies w" "lw_positions v = lw_positions w"
    using ins by (auto simp: insert_signal_log_def split: if_splits)
  show ?thesis
    using assms frame
    by (auto simp: receive_webhook_def ins reject_webhook_def intro!: that
        split: option.splits if_splits sum.splits symbol_error.splits rejection.splits prod.splits)
qed

text \<open>
  C2. An opening order that is accepted belongs to an enabled strategy and carries its token; its
  leverage is at most the strategy's maximum, its size no more than asked for and within the
  margin per trade up to the rounding, and it is sent for the strategy's own symbol. Unless
  its prices were stripped it carries a stop between the entry and the safe side of the
  liquidation estimate, for the maintenance margin read for its notional or the fallback, and a full bracket earns at least what it risks. Prices are stripped exactly when the
  alert named another symbol.
\<close>

theorem accepted_open_guarded:
  assumes "receive_webhook E sid header (Some p) w = (Inr a, w')" "is_open_signal (wp_signal p)"
  shows "let s = ac_strategy a;
      ref = fst (reference_price E (account_of s) (ac_symbol a) p (snd (insert_signal_log E sid w)));
      stripped = (incoming_symbol (py_upper (py_strip (wp_base_asset p))) (py_upper (py_strip (wp_quote_asset p)))
        \<noteq> py_upper (ls_symbol s))
    in guarded_entry E s (ac_symbol a) (ac_margin_mode a) stripped (ac_leverage a) ref (ac_payload a) (ac_tp_price a) (ac_sl_price a) \<and>
      ls_enabled s \<and> token_ok header (wp_token p) (ls_webhook_secret s) \<and>
      ac_symbol a = ls_symbol s \<and> wp_signal (ac_payload a) = wp_signal p \<and>
      wp_size (ac_payload a) \<le> wp_size p \<and> ac_price a = (if stripped then None else wp_price p)"
proof -
  from receive_accepted [OF assms(1)] obtain v s res d ref mark lid where
    s: "ls_enabled s" "token_ok header (wp_token p) (ls_webhook_secret s)"
    and res: "resolve_symbol (wp_base_asset p) (wp_quote_asset p) (ls_symbol s) (ls_quote_variants s)
       (ls_cross_charting s) = Inr res"
    and v: "v = snd (insert_signal_log E sid w)"
    and g: "risk_guards E s res p v = Inr (Inr (d, ref, mark))"
    and a: "accept E s sid res lid p d mark v = (Inr a, w')" by metis
  have fields: "ac_strategy a = s" "ac_payload a = dr_payload d" "ac_tp_price a = dr_tp_price d"
    "ac_sl_price a = dr_sl_price d" "ac_leverage a = resolve_leverage p s" "ac_margin_mode a = resolve_margin_mode p s"
    "ac_symbol a = rs_execution_symbol res" "ac_price a = (if rs_price_stripped res then None else wp_price p)"
    using a by (auto simp: accept_def Let_def)
  show ?thesis
    using risk_guards_guarded [OF g assms(2)] resolved_symbol_safe [OF res] s
    by (simp add: fields v Let_def)
qed

end
