(* ===== verification/ProcessSafety.thy ===== *)
theory ProcessSafety
  imports WebhookSafety
begin

text \<open>
  What executing an accepted opening order does to the positions: which rows it may touch on
  a hedge account, and that two strategies of an account never hold the same leg.
\<close>

section \<open>Frames of the steps\<close>

lemma order_steps_frame [close_frame]:
  "lw_positions (update_order_status oid st r acct w) = lw_positions w"
  "lw_strategies (update_order_status oid st r acct w) = lw_strategies w"
  "lw_positions (finalize_signal_log E l h oc dt w) = lw_positions w"
  "lw_strategies (finalize_signal_log E l h oc dt w) = lw_strategies w"
  "lw_positions (guard_rejection E a reason w) = lw_positions w"
  "lw_positions (touch_strategy E a w) = lw_positions w"
  by (simp_all add: update_order_status_def finalize_signal_log_def guard_rejection_def touch_strategy_def
      close_frame split: option.splits)

lemma reanchor_frame [close_frame]: "lw_positions (reanchor_stops E a r w) = lw_positions w"
  by (auto simp: reanchor_stops_def call_executor_modify_stops_def Let_def close_frame
      split: option.splits prod.splits)

lemma call_executor_frame [close_frame]: "lw_positions (snd (call_executor E q w)) = lw_positions w"
  by (simp add: call_executor_def close_frame)

definition fill_size_of :: "accepted_order \<Rightarrow> order_result \<Rightarrow> rat" where
  "fill_size_of a r = num_or (or_actual_fill_size r) (wp_size (ac_payload a))"

text \<open>The rows after a fill: the strategy's leg topped up, a new row, or nothing.\<close>

lemma apply_fill_rows:
  assumes "apply_position_fill E sid p symbol oid r l mode w = (x, w')"
  shows "lw_positions w' = lw_positions w \<or>
    (\<exists>q f. q \<in> set (lw_positions w) \<and> leg_matches sid symbol (side_leg (wp_side p)) q \<and>
       f = top_up_row (fill_price_of r p) (num_or (or_actual_fill_size r) (wp_size p)) \<and>
       lw_positions w' = update_where (\<lambda>y. po_id y = po_id q) f (lw_positions w)) \<or>
    (\<exists>z. lw_positions w' = lw_positions w @
       [new_position (le_now E) (length (lw_positions w)) p sid oid r l mode z])"
proof (cases "find_open_leg sid symbol (side_leg (wp_side p)) w")
  case (Some q)
  then have "q \<in> set (lw_positions w)" "leg_matches sid symbol (side_leg (wp_side p)) q"
    by (auto simp: find_open_leg_def find_Some_iff)
  with assms Some show ?thesis
    by (auto simp: apply_position_fill_def set_position_def Let_def split: if_splits)
qed (use assms in \<open>auto simp: apply_position_fill_def create_strategy_position_def Let_def split: if_splits\<close>)

text \<open>An invariant of the positions that fills and closes keep is kept by an opening order.\<close>

definition kept_by_fills :: "accepted_order \<Rightarrow> listener_env \<Rightarrow> (listener_position list \<Rightarrow> bool) \<Rightarrow> bool" where
  "kept_by_fills a E I \<longleftrightarrow> (\<forall>ps. I ps \<longrightarrow>
     (\<forall>q x z. q \<in> set ps \<longrightarrow> leg_matches (ls_id (ac_strategy a)) (ac_symbol a) (side_leg (wp_side (ac_payload a))) q
        \<longrightarrow> I (update_where (\<lambda>y. po_id y = po_id q) (top_up_row x z) ps)) \<and>
     (\<forall>r z. I (ps @ [new_position (le_now E) (length ps) (ac_payload a) (ls_id (ac_strategy a)) (ac_order_id a) r
        (ac_leverage a) (ac_margin_mode a) z])))"

lemma settle_flip_kept:
  assumes "kept_by_writes I \<or> listener_position_mode E (routing_account (ac_strategy a)) = ''hedge''"
    and "I (lw_positions w)"
  shows "I (lw_positions (settle_flip E a r w))"
  using assms row_invariant.close [OF row_invariant.intro, of I w] row_invariant.book [OF row_invariant.intro, of I w]
  by (auto simp: settle_flip_def Let_def split: option.splits)

lemma execute_kept:
  assumes "kept_by_writes I \<or> listener_position_mode E (routing_account (ac_strategy a)) = ''hedge''"
    and "kept_by_fills a E I" "I (lw_positions w)"
  shows "I (lw_positions (snd (execute_order E a w)))"
proof -
  obtain r w1 where c: "call_executor E (order_request_of a) w = (r, w1)" by fastforce
  have w1: "lw_positions w1 = lw_positions w" using call_executor_frame [of E "order_request_of a" w] c by simp
  define v where "v = finalize_signal_log E (ac_signal_log_id a) 200 (outcome_of_status (or_status r))
    (or_error_msg r) (update_order_status (ac_order_id a) (or_status r) (Some r) (routing_account (ac_strategy a)) w1)"
  have v: "lw_positions v = lw_positions w" by (simp add: v_def close_frame w1)
  obtain x w2 where f: "apply_position_fill E (ls_id (ac_strategy a)) (ac_payload a) (ac_symbol a) (ac_order_id a) r
      (ac_leverage a) (ac_margin_mode a) v = (x, w2)" by fastforce
  have "I (lw_positions w2)"
    using apply_fill_rows [OF f] assms(2,3) v by (auto simp: kept_by_fills_def)
  then have "I (lw_positions (settle_flip E a r (reanchor_stops E a r w2)))"
    by (intro settle_flip_kept [OF assms(1)]) (simp add: close_frame)
  then have "I (lw_positions (snd (after_fill E a r v)))"
    using \<open>I (lw_positions w2)\<close> assms(3) v by (simp add: after_fill_def f Let_def split: sum.splits)
  then show ?thesis by (simp add: execute_order_def c v_def Let_def)
qed

lemma process_open_kept:
  assumes "is_open_signal (wp_signal (ac_payload a))" "wp_target_position (ac_payload a) \<noteq> Some Target_flat"
    and "kept_by_writes I \<or> listener_position_mode E (routing_account (ac_strategy a)) = ''hedge''"
    and "I (lw_positions w)"
    and "conflict_reason E (routing_account (ac_strategy a)) (ac_symbol a) (ls_id (ac_strategy a))
           (wp_signal (ac_payload a)) (touch_strategy E a w) = None \<Longrightarrow> kept_by_fills a E I"
  shows "I (lw_positions (process_order E a w))"
proof -
  let ?t = "touch_strategy E a w"
  have "I (lw_positions (snd (process_open E a ?t)))"
    using execute_kept [OF assms(3) assms(5), of ?t] assms(4)
    by (auto simp: process_open_def Let_def close_frame split: option.splits)
  then show ?thesis
    using assms(1,2) by (auto simp: process_order_def process_body_def close_frame split: prod.splits sum.splits)
qed

section \<open>A hedge account\<close>

text \<open>
  On an account that holds both legs side by side an entry touches no position but the
  strategy's own leg on its side: every other row is afterwards what it was, whatever profit
  the exchange reported for the entry.
\<close>

theorem hedge_entry_keeps_legs:
  assumes "listener_position_mode E (routing_account (ac_strategy a)) = ''hedge''"
    and "is_open_signal (wp_signal (ac_payload a))" "wp_target_position (ac_payload a) \<noteq> Some Target_flat"
    and "distinct (map po_id (lw_positions w))" "p \<in> set (lw_positions w)"
    and "\<not> leg_matches (ls_id (ac_strategy a)) (ac_symbol a) (side_leg (wp_side (ac_payload a))) p"
  shows "p \<in> set (lw_positions (process_order E a w))"
proof -
  have inj: "q = p" if "q \<in> set (lw_positions w)" "po_id q = po_id p" for q
    using that assms(4,5) by (auto simp: distinct_map dest: inj_onD)
  obtain r w1 where c: "call_executor E (order_request_of a) (touch_strategy E a w) = (r, w1)" by fastforce
  have rows: "p \<in> set (lw_positions w2)"
    if f: "apply_position_fill E (ls_id (ac_strategy a)) (ac_payload a) (ac_symbol a) (ac_order_id a) r'
      (ac_leverage a) (ac_margin_mode a) v = (x, w2)" and v: "lw_positions v = lw_positions w" for r' v x w2
    using apply_fill_rows [OF f, unfolded v]
  proof (elim disjE exE conjE)
    fix q g
    assume q: "q \<in> set (lw_positions w)"
        "leg_matches (ls_id (ac_strategy a)) (ac_symbol a) (side_leg (wp_side (ac_payload a))) q"
      and rows: "lw_positions w2 = update_where (\<lambda>y. po_id y = po_id q) g (lw_positions w)"
    have "po_id p \<noteq> po_id q" using inj [OF q(1)] q(2) assms(6) by auto
    then show "p \<in> set (lw_positions w2)" using assms(5) by (auto simp: rows update_where_def image_iff intro: bexI [of _ p])
  qed (use assms(5) in simp_all)
  have flip: "lw_positions (settle_flip E a r' v) = lw_positions v" for r' v
    using assms(1) by (simp add: settle_flip_def Let_def split: option.splits)
  have "p \<in> set (lw_positions (snd (execute_order E a (touch_strategy E a w))))"
    using rows assms(5) c call_executor_frame [of E "order_request_of a" "touch_strategy E a w"]
    by (auto simp: execute_order_def after_fill_def Let_def close_frame flip split: sum.splits prod.splits)
  then show ?thesis
    using assms(2,3,5) by (auto simp: process_order_def process_body_def process_open_def Let_def close_frame
        split: prod.splits sum.splits option.splits if_splits)
qed

section \<open>One strategy per leg\<close>

text \<open>The enabled strategies of an account.\<close>

definition enabled_on :: "string \<Rightarrow> listener_world \<Rightarrow> string list" where
  "enabled_on account w = map ls_id (filter (\<lambda>s. ls_account_id s = Some account \<and> ls_enabled s) (lw_strategies w))"

definition same_leg :: "listener_position \<Rightarrow> listener_position \<Rightarrow> bool" where
  "same_leg p q \<longleftrightarrow> po_symbol p = po_symbol q \<and> po_side p = po_side q"

definition exclusive_legs :: "string list \<Rightarrow> listener_position list \<Rightarrow> bool" where
  "exclusive_legs S ps \<longleftrightarrow> list_all (\<lambda>p. list_all (\<lambda>q. po_open p \<and> po_open q \<and> po_strategy p \<in> set S
     \<and> po_strategy q \<in> set S \<and> same_leg p q \<longrightarrow> po_strategy p = po_strategy q) ps) ps"

definition leg_key :: "listener_position \<Rightarrow> string \<times> string \<times> leg_side" where
  "leg_key p = (po_strategy p, po_symbol p, po_side p)"

lemma exclusive_map:
  assumes "exclusive_legs S ps" "\<And>p. leg_key (g p) = leg_key p" "\<And>p. po_open (g p) \<Longrightarrow> po_open p"
  shows "exclusive_legs S (map g ps)"
proof -
  have "po_strategy (g p) = po_strategy p" "po_symbol (g p) = po_symbol p" "po_side (g p) = po_side p" for p
    using assms(2) [of p] by (simp_all add: leg_key_def)
  then show ?thesis using assms(1,3) by (fastforce simp: exclusive_legs_def list_all_iff same_leg_def)
qed

interpretation exclusive: row_invariant "exclusive_legs S" for S
  by (unfold_locales, unfold kept_by_writes_def update_where_def, intro allI impI exclusive_map)
     (auto simp: leg_key_def close_write_row_def close_row_simps split: if_splits)

lemma exclusive_snoc:
  assumes "exclusive_legs S ps"
    and "\<And>q. q \<in> set ps \<Longrightarrow> po_open q \<Longrightarrow> po_strategy q \<in> set S \<Longrightarrow> same_leg p q \<Longrightarrow> po_strategy q = po_strategy p"
  shows "exclusive_legs S (ps @ [p])"
  using assms by (fastforce simp: exclusive_legs_def list_all_iff same_leg_def)

lemma enabled_touch: "enabled_on account (touch_strategy E a w) = enabled_on account w"
proof -
  have "map ls_id (filter (\<lambda>s. ls_account_id s = Some account \<and> ls_enabled s)
      (update_where q (\<lambda>s. s\<lparr>ls_last_signal_at := t\<rparr>) ss))
    = map ls_id (filter (\<lambda>s. ls_account_id s = Some account \<and> ls_enabled s) ss)" for q t and ss :: "listener_strategy list"
    by (induction ss) (auto simp: update_where_def)
  then show ?thesis by (simp add: enabled_on_def touch_strategy_def set_strategy_def)
qed

text \<open>No other enabled strategy holds the leg.\<close>

definition leg_free :: "string list \<Rightarrow> string \<Rightarrow> string \<Rightarrow> leg_side \<Rightarrow> listener_position list \<Rightarrow> bool" where
  "leg_free S sid symbol side ps \<longleftrightarrow> list_all (\<lambda>q. po_open q \<and> po_strategy q \<in> set S \<and> po_symbol q = symbol
     \<and> po_side q = side \<longrightarrow> po_strategy q = sid) ps"

lemma no_conflict_free:
  assumes "conflict_reason E account symbol sid sig w = None" "\<not> le_db_fails E Conflict_query"
  shows "leg_free (enabled_on account w) sid symbol (signal_leg sig) (lw_positions w)"
proof -
  have "signal_leg sig \<notin> set (conflicting_sides account symbol sid w)"
    using assms by (auto simp: conflict_reason_def Let_def split: if_splits)
  then show ?thesis
    by (auto simp: leg_free_def list_all_iff list_ex_iff conflicting_sides_def enabled_on_def image_iff)
qed

lemma free_map:
  assumes "leg_free S sid symbol side ps" "\<And>p. leg_key (g p) = leg_key p" "\<And>p. po_open (g p) \<Longrightarrow> po_open p"
  shows "leg_free S sid symbol side (map g ps)"
proof -
  have "po_strategy (g p) = po_strategy p" "po_symbol (g p) = po_symbol p" "po_side (g p) = po_side p" for p
    using assms(2) [of p] by (simp_all add: leg_key_def)
  then show ?thesis using assms(1,3) by (auto simp: leg_free_def list_all_iff)
qed

interpretation free_leg: row_invariant "leg_free S sid symbol side" for S sid symbol side
  by (unfold_locales, unfold kept_by_writes_def update_where_def, intro allI impI free_map)
     (auto simp: leg_key_def close_write_row_def close_row_simps split: if_splits)

text \<open>
  C15. The same-symbol guard, when its query is answered: if no two enabled strategies of the
  account hold the same leg before an opening order is executed, none do afterwards,
  provided the payload names the execution symbol and its side agrees with its signal,
  which the handler does not check.
\<close>

theorem one_strategy_per_leg:
  fixes a :: accepted_order
  defines "account \<equiv> routing_account (ac_strategy a)"
  assumes "exclusive_legs (enabled_on account w) (lw_positions w)"
    and "is_open_signal (wp_signal (ac_payload a))" "wp_target_position (ac_payload a) \<noteq> Some Target_flat"
    and "\<not> le_db_fails E Conflict_query"
    and "payload_symbol (ac_payload a) = ac_symbol a" "side_leg (wp_side (ac_payload a)) = signal_leg (wp_signal (ac_payload a))"
  shows "exclusive_legs (enabled_on account w) (lw_positions (process_order E a w))"
proof -
  let ?S = "enabled_on account w" and ?sid = "ls_id (ac_strategy a)" and ?t = "touch_strategy E a w"
  let ?side = "signal_leg (wp_signal (ac_payload a))"
  let ?I = "\<lambda>ps. exclusive_legs ?S ps \<and> leg_free ?S ?sid (ac_symbol a) ?side ps"
  show ?thesis
  proof (cases "conflict_reason E account (ac_symbol a) ?sid (wp_signal (ac_payload a)) ?t")
    case None
    have "leg_free ?S ?sid (ac_symbol a) ?side (lw_positions w)"
      using no_conflict_free [OF None assms(5)] by (simp add: enabled_touch close_frame)
    moreover have "kept_by_writes ?I"
      using exclusive.writes [of ?S] free_leg.writes [of ?S ?sid "ac_symbol a" ?side] unfolding kept_by_writes_def by blast
    moreover have "kept_by_fills a E ?I"
      unfolding kept_by_fills_def update_where_def
    proof (intro allI impI conjI)
      fix ps r z assume i: "?I ps"
      let ?p = "new_position (le_now E) (length ps) (ac_payload a) ?sid (ac_order_id a) r (ac_leverage a)
        (ac_margin_mode a) z"
      show "exclusive_legs ?S (ps @ [?p])"
        using i assms(6,7) by (intro exclusive_snoc) (auto simp: leg_free_def list_all_iff same_leg_def new_position_def)
      show "leg_free ?S ?sid (ac_symbol a) ?side (ps @ [?p])"
        using i by (simp add: leg_free_def new_position_def)
    qed (auto intro!: exclusive_map free_map simp: leg_key_def top_up_row_def split: if_splits)
    ultimately show ?thesis
      using process_open_kept [where I = ?I, OF assms(3,4), of E w] assms(2) by blast
  next
    case (Some reason)
    then show ?thesis
      using assms(2-4) by (auto simp: process_order_def process_body_def process_open_def Let_def close_frame account_def)
  qed
qed

text \<open>The properties of the order listener at concrete worlds.\<close>

abbreviation one_leg :: listener_world where
  "one_leg \<equiv> demo_books [demo_listed_leg 0 Long_leg]"

theorem close_terminates_witness:
  "close_with (flattener_of demo_services 1) demo_services ''s1'' ''acc'' (demo_close None) one_leg =
   close_strategy_position demo_services ''s1'' ''acc'' (demo_close None) one_leg"
  by (rule close_terminates) code_simp

lemma demo_ledger: "strategy_ledger ''s1'' 0 one_leg"
  by code_simp

theorem close_keeps_ledger_witness:
  "strategy_ledger ''s1'' 0 (snd (close_strategy_position demo_services ''s1'' ''acc'' (demo_close None) one_leg)) \<and>
   strategy_ledger ''s1'' 0 (sync_position_pnl demo_services one_leg)"
proof -
  have "\<not> le_db_fails demo_services Book_pnl" by (simp add: demo_services_def)
  note keeps = close_keeps_ledger [OF demo_ledger this]
  have "list_all (\<lambda>p. po_open p \<and> po_strategy p = ''s1'' \<longrightarrow> closing_orders (po_id p) one_leg = []) (lw_positions one_leg)"
    by code_simp
  then show ?thesis using keeps by blast
qed

definition demo_settled :: settled_close where
  "demo_settled = \<lparr>se_position = demo_listed_leg 0 Long_leg, se_full = True, se_size = 2, se_fill_price = Some 100,
     se_realized_pnl = Some 10, se_fee = None, se_open_fee = 0, se_exchange_order_id = Some ''x'',
     se_pre_tp = None, se_pre_sl = None, se_pre_read_failed = False\<rparr>"

lemma demo_settles:
  "fst (begin_close demo_services ''s1'' ''acc'' (demo_close None) one_leg) = Inr demo_settled \<and>
   cl_success (fst (finish_close (flattener_of demo_services 1) demo_services ''s1'' ''acc'' (demo_close None)
     demo_settled one_leg))"
  by code_simp

theorem closed_once_witness:
  "let w = snd (finish_close (flattener_of demo_services 1) demo_services ''s1'' ''acc'' (demo_close None)
             demo_settled one_leg)
   in cl_status (fst (finish_close (flattener_of demo_services 1) demo_services ''s1'' ''acc'' (demo_close None)
             demo_settled w)) = ''race_condition''"
proof -
  obtain r w where f: "finish_close (flattener_of demo_services 1) demo_services ''s1'' ''acc'' (demo_close None)
      demo_settled one_leg = (r, w)" by fastforce
  have "cl_success r" "se_full demo_settled" using demo_settles f by (simp_all add: demo_settled_def)
  from closed_once [OF f this refl, of "flattener_of demo_services 1" demo_services "''s1''" "''acc''" "demo_close None"]
  show ?thesis by (auto simp: f close_failed_def simp del: One_nat_def)
qed

theorem close_within_position_witness:
  "\<exists>w1. begin_close demo_services ''s1'' ''acc'' (demo_close None) one_leg = (Inr demo_settled, w1) \<and>
     (lw_sent w1 = [] \<or> lw_sent w1 = [Close_position ''acc'' ''BTC-USDT'' Long_leg None])"
proof -
  obtain w1 where b: "begin_close demo_services ''s1'' ''acc'' (demo_close None) one_leg = (Inr demo_settled, w1)"
    using demo_settles by (metis prod.collapse)
  from close_within_position [OF b, of one_leg] b show ?thesis
    by (auto simp: demo_close_def demo_books_def)
qed

definition demo_accepted :: accepted_order where
  "demo_accepted = \<lparr>ac_order_id = 0, ac_payload = demo_payload ''USDT'' Open_long None, ac_strategy = demo_listed,
     ac_symbol = ''BTC-USDT'', ac_price = None, ac_tp_price = Some 130, ac_sl_price = Some 90, ac_leverage = 2,
     ac_margin_mode = ''isolated'', ac_signal_log_id = None\<rparr>"

lemma demo_received:
  "case receive_webhook demo_services ''s1'' None (Some (demo_payload ''USDT'' Open_long None)) one_leg of
     (Inr a, _) \<Rightarrow> ac_leverage a = 2 \<and> ac_tp_price a = Some 130 \<and>
       incoming_symbol (py_upper (py_strip (wp_base_asset (demo_payload ''USDT'' Open_long None))))
         (py_upper (py_strip (wp_quote_asset (demo_payload ''USDT'' Open_long None)))) = py_upper (ls_symbol (ac_strategy a))
   | _ \<Rightarrow> False"
  by code_simp

theorem accepted_open_guarded_witness:
  "\<exists>a w' ref. receive_webhook demo_services ''s1'' None (Some (demo_payload ''USDT'' Open_long None)) one_leg
       = (Inr a, w') \<and>
     guarded_entry demo_services (ac_strategy a) (ac_symbol a) (ac_margin_mode a) False 2 ref (ac_payload a) (Some 130) (ac_sl_price a)"
proof -
  let ?p = "demo_payload ''USDT'' Open_long None"
  obtain a w' where r: "receive_webhook demo_services ''s1'' None (Some ?p) one_leg = (Inr a, w')"
    and a: "ac_leverage a = 2" "ac_tp_price a = Some 130"
    and s: "incoming_symbol (py_upper (py_strip (wp_base_asset ?p))) (py_upper (py_strip (wp_quote_asset ?p)))
        = py_upper (ls_symbol (ac_strategy a))"
    using demo_received by (auto split: prod.splits sum.splits)
  have "is_open_signal (wp_signal ?p)"
    by (simp add: demo_payload_def is_open_signal_def)
  from accepted_open_guarded [OF r this] a s r show ?thesis by (auto simp: Let_def)
qed

theorem hedge_entry_keeps_legs_witness:
  "demo_listed_leg 0 Short_leg \<in> set (lw_positions (process_order demo_services demo_accepted (demo_books [demo_listed_leg 0 Short_leg])))"
proof (rule hedge_entry_keeps_legs)
  show "listener_position_mode demo_services (routing_account (ac_strategy demo_accepted)) = ''hedge''"
    by code_simp
  show "\<not> leg_matches (ls_id (ac_strategy demo_accepted)) (ac_symbol demo_accepted)
      (side_leg (wp_side (ac_payload demo_accepted))) (demo_listed_leg 0 Short_leg)"
    by code_simp
qed (simp_all add: demo_accepted_def demo_payload_def is_open_signal_def demo_books_def demo_listed_leg_def)

theorem one_strategy_per_leg_witness:
  "exclusive_legs [''s1''] (lw_positions (process_order demo_services demo_accepted (demo_books [demo_listed_leg 0 Short_leg])))"
proof -
  have e: "enabled_on (routing_account (ac_strategy demo_accepted)) (demo_books [demo_listed_leg 0 Short_leg]) = [''s1'']"
    by code_simp
  have "exclusive_legs (enabled_on (routing_account (ac_strategy demo_accepted)) (demo_books [demo_listed_leg 0 Short_leg]))
      (lw_positions (process_order demo_services demo_accepted (demo_books [demo_listed_leg 0 Short_leg])))"
  proof (rule one_strategy_per_leg)
    show "exclusive_legs (enabled_on (routing_account (ac_strategy demo_accepted)) (demo_books [demo_listed_leg 0 Short_leg]))
        (lw_positions (demo_books [demo_listed_leg 0 Short_leg]))" by code_simp
    show "payload_symbol (ac_payload demo_accepted) = ac_symbol demo_accepted" by code_simp
    show "side_leg (wp_side (ac_payload demo_accepted)) = signal_leg (wp_signal (ac_payload demo_accepted))"
      by code_simp
  qed (simp_all add: demo_accepted_def demo_payload_def is_open_signal_def demo_services_def)
  then show ?thesis by (simp only: e)
qed

end
