(* ===== verification/ReconcileState.thy ===== *)
theory ReconcileState
  imports ClosePosition ListenerOrders StopLevels SymbolValidator
begin

text \<open>
  What a pass of \<open>order-listener/app/reconciler.py\<close> reads: its constants, the exchange's
  positions, resting orders and close history as the executor reports them, and the guarded
  statements of its own. A pass reads its rows once, at its start, and then works on that
  snapshot; the world it writes may have moved on meanwhile.
\<close>

section \<open>Constants\<close>

definition SIZE_EPSILON_ABS :: rat where "SIZE_EPSILON_ABS = 1 / 1000000"
definition SIZE_EPSILON_REL :: rat where "SIZE_EPSILON_REL = 5 / 1000"
definition TRIGGER_MATCH_TOL_PCT :: rat where "TRIGGER_MATCH_TOL_PCT = 15 / 100"
definition TIGHTEN_MARGIN_FRAC :: rat where "TIGHTEN_MARGIN_FRAC = 10 / 100"
definition TIGHTEN_MIN_MARGIN_FRAC :: rat where "TIGHTEN_MIN_MARGIN_FRAC = 5 / 10000"
definition TIGHTEN_MAX_MARGIN_FRAC :: rat where "TIGHTEN_MAX_MARGIN_FRAC = 90 / 100"

definition size_tolerance :: "rat \<Rightarrow> rat" where
  "size_tolerance z = max SIZE_EPSILON_ABS (z * SIZE_EPSILON_REL)"

section \<open>The executor's reports\<close>

text \<open>A figure of a decoded body: absent or null, a number, or text that is no number.\<close>

datatype figure = Missing | Number rat | Garbled

record live_position =
  lp_symbol :: "string option"
  lp_inst_id :: "string option"
  lp_side :: "string option"
  lp_size :: figure
  lp_entry_price :: figure
  lp_liquidation_price :: figure

record close_history =
  ch_close_reason :: "string option"
  ch_closing_price :: "rat option"
  ch_pnl_realized :: "rat option"
  ch_closed_at :: figure
  ch_fee :: "rat option"
  ch_fee_scope :: "string option"

definition no_history :: close_history where
  "no_history = \<lparr>ch_close_reason = None, ch_closing_price = None, ch_pnl_realized = None,
     ch_closed_at = Missing, ch_fee = None, ch_fee_scope = None\<rparr>"

text \<open>The statements a pass guards with a handler of its own.\<close>

datatype reconcile_stmt =
    Excursion_write | Pending_reanchor | Level_lookup | External_order_insert
  | Recovered_write | Recovered_order_insert

text \<open>Positions are read twice in a pass: for the resting orders and for the open rows.\<close>

datatype read_point = Pending_read | Open_read

record reconcile_env =
  re_listener :: listener_env
  re_miss_threshold :: nat
  re_db_fails :: "reconcile_stmt \<Rightarrow> bool"
  re_positions :: "read_point \<Rightarrow> nat \<Rightarrow> string \<Rightarrow> live_position list option reply"
  re_open_orders :: "nat \<Rightarrow> string \<Rightarrow> string list option reply"
  re_fill_fee :: "nat \<Rightarrow> string \<Rightarrow> string \<Rightarrow> string \<Rightarrow> rat option reply"
  re_history :: "nat \<Rightarrow> string \<Rightarrow> string \<Rightarrow> datetime \<Rightarrow> leg_side \<Rightarrow> close_history reply"

section \<open>Reading\<close>

text \<open>
  A confirmed read is a list; \<open>None\<close> is unknown. A body that is not a list is read as no
  positions here, and as unknown for the resting orders.
\<close>

definition get_account_positions ::
  "reconcile_env \<Rightarrow> read_point \<Rightarrow> string \<Rightarrow> listener_world \<Rightarrow> live_position list option" where
  "get_account_positions R at_point account w =
     (case re_positions R at_point (sent_count w) account of
        Answer (Some ps) \<Rightarrow> Some ps
      | Answer None \<Rightarrow> Some []
      | _ \<Rightarrow> None)"

definition get_account_open_orders ::
  "reconcile_env \<Rightarrow> string \<Rightarrow> listener_world \<Rightarrow> string list option" where
  "get_account_open_orders R account w =
     (case re_open_orders R (sent_count w) account of Answer (Some xs) \<Rightarrow> Some xs | _ \<Rightarrow> None)"

definition get_order_fill_fee ::
  "reconcile_env \<Rightarrow> string \<Rightarrow> string \<Rightarrow> string \<Rightarrow> listener_world \<Rightarrow> rat option" where
  "get_order_fill_fee R account symbol order_id w =
     (case re_fill_fee R (sent_count w) account symbol order_id of Answer f \<Rightarrow> f | _ \<Rightarrow> None)"

definition get_position_history ::
  "reconcile_env \<Rightarrow> string \<Rightarrow> string \<Rightarrow> datetime \<Rightarrow> leg_side \<Rightarrow> listener_world \<Rightarrow> close_history" where
  "get_position_history R account symbol opened_at side w =
     (case re_history R (sent_count w) account symbol opened_at side of Answer h \<Rightarrow> h | _ \<Rightarrow> no_history)"

section \<open>Live positions by symbol and side\<close>

definition text_or_nil :: "string option \<Rightarrow> string" where
  "text_or_nil s = (case s of None \<Rightarrow> [] | Some t \<Rightarrow> t)"

type_synonym live_key = "string \<times> string"

definition position_key :: "listener_position \<Rightarrow> live_key" where
  "position_key p = (po_symbol p, leg_side_name (po_side p))"

text \<open>\<open>p.get("symbol") or p.get("instId") or ""\<close>, and the side in lower case.\<close>

definition live_key_of :: "live_position \<Rightarrow> live_key" where
  "live_key_of p =
     (if text_or_nil (lp_symbol p) \<noteq> [] then text_or_nil (lp_symbol p) else text_or_nil (lp_inst_id p),
      py_lower (text_or_nil (lp_side p)))"

text \<open>A later entry of the same symbol and side overwrites an earlier one; a bad entry is skipped.\<close>

definition live_map :: "live_position list \<Rightarrow> (live_key, rat \<times> live_position) tbl" where
  "live_map ps =
     fold (\<lambda>p t. case lp_size p of
          Number z \<Rightarrow>
            if fst (live_key_of p) \<noteq> [] \<and> snd (live_key_of p) \<noteq> [] \<and> 0 < z
            then AList.update (live_key_of p) (z, p) t else t
        | _ \<Rightarrow> t) ps []"

definition live_by_key :: "live_position list \<Rightarrow> (live_key, live_position) tbl" where
  "live_by_key ps =
     fold (\<lambda>p t. let k = (text_or_nil (lp_symbol p), py_lower (text_or_nil (lp_side p)))
                 in if fst k \<noteq> [] \<and> snd k \<noteq> [] then AList.update k p t else t) ps []"

text \<open>Rows by account, the accounts in the order they first appear.\<close>

definition group_by_account :: "('a \<times> string option) list \<Rightarrow> (string option, 'a list) tbl" where
  "group_by_account rows =
     fold (\<lambda>(r, a) t. AList.update a ((case map_of t a of None \<Rightarrow> [] | Some rs \<Rightarrow> rs) @ [r]) t) rows []"

text \<open>An account id as it is written into a path.\<close>

definition account_path :: "string option \<Rightarrow> string" where
  "account_path a = (case a of None \<Rightarrow> ''None'' | Some s \<Rightarrow> s)"

text \<open>The rows a query joins with a strategy that is not deleted.\<close>

definition live_strategy :: "string \<Rightarrow> listener_world \<Rightarrow> listener_strategy option" where
  "live_strategy sid w =
     (case strategy_by_id sid w of None \<Rightarrow> None | Some s \<Rightarrow> if ls_is_deleted s then None else Some s)"

definition open_rows :: "listener_world \<Rightarrow> (listener_position \<times> string option) list" where
  "open_rows w = List.map_filter
     (\<lambda>p. if po_open p then map_option (\<lambda>s. (p, ls_account_id s)) (live_strategy (po_strategy p) w) else None)
     (lw_positions w)"

definition pending_rows :: "listener_world \<Rightarrow> (listener_order \<times> string option) list" where
  "pending_rows w = List.map_filter
     (\<lambda>r. if od_status r = ''pending''
          then map_option (\<lambda>s. (r, ls_account_id s)) (live_strategy (od_strategy r) w) else None)
     (lw_orders w)"

end
