(* ===== verification/ReconcilePending.thy ===== *)
theory ReconcilePending
  imports ReconcileState ProcessOrder
begin

text \<open>
  Two things a pass of \<open>order-listener/app/reconciler.py\<close> does with an open position it
  finds on the exchange: the liquidation guard (\<open>_guard_liquidation_safety\<close>) pulls a
  stop that lies beyond the exchange's liquidation price back to this side of it, and the
  excursion sample (\<open>_sample_excursions\<close>) folds the mark into the best and the worst price
  seen.
\<close>

section \<open>Where the tightened stop goes\<close>

definition tighten_margin :: "rat \<Rightarrow> rat \<Rightarrow> rat" where
  "tighten_margin entry distance =
     min (max (distance * TIGHTEN_MARGIN_FRAC) (entry * TIGHTEN_MIN_MARGIN_FRAC))
         (distance * TIGHTEN_MAX_MARGIN_FRAC)"

definition tightened_stop :: "leg_side \<Rightarrow> rat \<Rightarrow> rat \<Rightarrow> rat" where
  "tightened_stop side liq entry =
     (let margin = tighten_margin entry \<bar>liq - entry\<bar>
      in py_round (if side = Short_leg then liq - margin else liq + margin) (infer_price_decimals entry))"

definition stop_is_unsafe :: "leg_side \<Rightarrow> rat \<Rightarrow> rat \<Rightarrow> bool" where
  "stop_is_unsafe side sl liq \<longleftrightarrow> side = Short_leg \<and> liq \<le> sl \<or> side = Long_leg \<and> sl \<le> liq"

section \<open>A missing stop that is ours to replace\<close>

text \<open>\<open>signal_metadata->>k = 'true'\<close>.\<close>

definition meta_is_true :: "string \<Rightarrow> metadata \<Rightarrow> bool" where
  "meta_is_true k m \<longleftrightarrow> map_of m k = Some (M_bool True) \<or> map_of m k = Some (M_text ''true'')"

definition is_guard_managed :: "nat option \<Rightarrow> listener_world \<Rightarrow> bool" where
  "is_guard_managed opening w =
     (case opening of
        None \<Rightarrow> False
      | Some oid \<Rightarrow> (case order_by_id oid w of
          None \<Rightarrow> False
        | Some r \<Rightarrow> meta_is_true ''liq_safety_tightened'' (od_signal_metadata r)
                   \<or> meta_is_true ''sl_placement_unconfirmed'' (od_signal_metadata r)))"

section \<open>The guard on one row\<close>

definition positive_figure :: "figure \<Rightarrow> rat option" where
  "positive_figure f = (case f of Number z \<Rightarrow> if 0 < z then Some z else None | _ \<Rightarrow> None)"

definition backfill_liquidation :: "rat \<Rightarrow> nat \<Rightarrow> listener_world \<Rightarrow> listener_world" where
  "backfill_liquidation liq pid =
     set_position pid (\<lambda>p. if po_open p \<and> po_liquidation_price p \<noteq> Some liq
                           then p\<lparr>po_liquidation_price := Some liq\<rparr> else p)"

definition resting_triggers :: "stop_kind \<Rightarrow> trigger_order list \<Rightarrow> rat list" where
  "resting_triggers k ts = List.map_filter (\<lambda>t. if tg_kind t = k then tg_trigger_px t else None) ts"

text \<open>The first resting price of a kind, if any.\<close>

definition first_trigger :: "stop_kind \<Rightarrow> trigger_order list \<Rightarrow> rat option" where
  "first_trigger k ts = (case resting_triggers k ts of [] \<Rightarrow> None | x # _ \<Rightarrow> Some x)"

text \<open>Whether the guard acts: on a stop beyond liquidation, or on a missing stop it manages.\<close>

definition guard_acts :: "leg_side \<Rightarrow> rat option \<Rightarrow> rat \<Rightarrow> bool \<Rightarrow> bool" where
  "guard_acts side active liq managed =
     (case active of None \<Rightarrow> managed | Some sl \<Rightarrow> stop_is_unsafe side sl liq)"

definition place_and_verify ::
  "reconcile_env \<Rightarrow> string \<Rightarrow> string \<Rightarrow> leg_side \<Rightarrow> rat \<Rightarrow> rat option \<Rightarrow> listener_world
   \<Rightarrow> rat option \<times> listener_world" where
  "place_and_verify R account symbol side new_sl current_tp w =
     (let (res, w1) = call_executor_modify_stops (re_listener R) account symbol side current_tp (Some new_sl) w
      in (if sr_sl_ok res = Some True then Some new_sl else None, w1))"

definition audit_patch :: "rat option \<Rightarrow> rat \<Rightarrow> rat \<Rightarrow> metadata" where
  "audit_patch prior landed liq =
     [(''liq_safety_tightened'', M_bool True),
      (''liq_safety_prior_sl'', case prior of None \<Rightarrow> M_null | Some x \<Rightarrow> M_num x),
      (''liq_safety_new_sl'', M_num landed), (''liq_safety_liquidation_price'', M_num liq),
      (''sl_placement_unconfirmed'', M_bool False)]"

definition record_tightening :: "nat option \<Rightarrow> rat option \<Rightarrow> rat \<Rightarrow> rat \<Rightarrow> listener_world \<Rightarrow> listener_world" where
  "record_tightening opening prior landed liq w =
     (case opening of
        None \<Rightarrow> w
      | Some oid \<Rightarrow> set_order oid (\<lambda>r. r\<lparr>od_signal_metadata :=
          merge_meta (audit_patch prior landed liq) (od_signal_metadata r)\<rparr>) w)"

definition tighten_row ::
  "reconcile_env \<Rightarrow> string \<Rightarrow> listener_position \<Rightarrow> live_position \<Rightarrow> rat \<Rightarrow> trigger_order list
   \<Rightarrow> listener_world \<Rightarrow> listener_world" where
  "tighten_row R account row live liq triggers w =
     (let active = first_trigger Sl_trigger triggers; opening = po_opening_order row; side = po_side row
      in if \<not> guard_acts side active liq (is_guard_managed opening w) then w
         else case positive_figure (lp_entry_price live) of
           None \<Rightarrow> w
         | Some entry \<Rightarrow>
             if \<bar>liq - entry\<bar> \<le> 0 then w
             else (case place_and_verify R account (po_symbol row) side (tightened_stop side liq entry)
                          (first_trigger Tp_trigger triggers) w of
                     (None, w1) \<Rightarrow> w1
                   | (Some landed, w1) \<Rightarrow> record_tightening opening active landed liq w1))"

definition guard_row ::
  "reconcile_env \<Rightarrow> string \<Rightarrow> (live_key, rat \<times> live_position) tbl \<Rightarrow> listener_position
   \<Rightarrow> listener_world \<Rightarrow> listener_world" where
  "guard_row R account live row w =
     (case map_of live (position_key row) of
        None \<Rightarrow> w
      | Some (_, pos) \<Rightarrow>
         (case positive_figure (lp_liquidation_price pos) of
            None \<Rightarrow> w
          | Some liq \<Rightarrow>
             (let w1 = backfill_liquidation liq (po_id row) w
              in case get_trigger_orders (re_listener R) account (po_symbol row) (po_side row) w1 of
                   None \<Rightarrow> w1
                 | Some triggers \<Rightarrow> tighten_row R account row pos liq triggers w1)))"

definition guard_liquidation_safety ::
  "reconcile_env \<Rightarrow> string \<Rightarrow> listener_position list \<Rightarrow> (live_key, rat \<times> live_position) tbl
   \<Rightarrow> listener_world \<Rightarrow> listener_world" where
  "guard_liquidation_safety R account rows live w = fold (guard_row R account live) rows w"

section \<open>Excursions\<close>

text \<open>The most favourable and the most adverse price, seeded from the first sample.\<close>

definition favourable :: "leg_side \<Rightarrow> rat \<Rightarrow> rat option \<Rightarrow> rat" where
  "favourable side mark old =
     (let o' = (case old of None \<Rightarrow> mark | Some x \<Rightarrow> x) in if side = Long_leg then max o' mark else min o' mark)"

definition adverse :: "leg_side \<Rightarrow> rat \<Rightarrow> rat option \<Rightarrow> rat" where
  "adverse side mark old =
     (let o' = (case old of None \<Rightarrow> mark | Some x \<Rightarrow> x) in if side = Long_leg then min o' mark else max o' mark)"

text \<open>The entry, and the distance from it to the opening order's stop when it is not zero.\<close>

definition excursion_ref :: "listener_position \<Rightarrow> listener_world \<Rightarrow> rat \<times> rat option" where
  "excursion_ref p w =
     (let opening = Option.bind (po_opening_order p) (\<lambda>oid. order_by_id oid w);
          entry = the (coalesce (Option.bind opening od_actual_fill_price) (Some (po_entry_price p)))
      in (entry, case Option.bind opening od_sl_price of
                   None \<Rightarrow> None
                 | Some sl \<Rightarrow> if \<bar>entry - sl\<bar> = 0 then None else Some \<bar>entry - sl\<bar>))"

definition in_risk_units :: "leg_side \<Rightarrow> rat \<Rightarrow> rat option \<Rightarrow> rat \<Rightarrow> rat option" where
  "in_risk_units side entry risk p =
     map_option (\<lambda>d. (if side = Long_leg then p - entry else entry - p) / d) risk"

definition excursion_row :: "datetime \<Rightarrow> rat \<times> rat option \<Rightarrow> rat \<Rightarrow> listener_position \<Rightarrow> listener_position" where
  "excursion_row now ref mark p =
     (let mfe = favourable (po_side p) mark (po_mfe_price p); mae = adverse (po_side p) mark (po_mae_price p)
      in p\<lparr>po_mfe_price := Some mfe, po_mae_price := Some mae,
           po_mfe_r := in_risk_units (po_side p) (fst ref) (snd ref) mfe,
           po_mae_r := in_risk_units (po_side p) (fst ref) (snd ref) mae,
           po_excursion_samples := po_excursion_samples p + 1,
           po_excursion_first_at := coalesce (po_excursion_first_at p) (Some now),
           po_excursion_last_at := Some now\<rparr>)"

definition excursion_update :: "datetime \<Rightarrow> nat \<Rightarrow> rat \<Rightarrow> listener_world \<Rightarrow> listener_world" where
  "excursion_update now pid mark w =
     set_position pid (\<lambda>p. if po_open p then excursion_row now (excursion_ref p w) mark p else p) w"

text \<open>Every mark is read before the first row is written; a pass whose write fails gives up.\<close>

definition sample_excursions ::
  "reconcile_env \<Rightarrow> (listener_position \<times> string option) list \<Rightarrow> listener_world \<Rightarrow> listener_world" where
  "sample_excursions R rows w =
     (if re_db_fails R Excursion_write then w
      else
       (let E = re_listener R;
            marks = map (\<lambda>(p, a). (po_id p, get_mark_price E (text_or_nil a) (po_symbol p) w))
                      (filter (\<lambda>(p, a). text_or_nil a \<noteq> [] \<and> po_symbol p \<noteq> []) rows)
        in fold (\<lambda>(pid, m) w. case m of
              Some x \<Rightarrow> if 0 < x then excursion_update (le_now E) pid x w else w
            | None \<Rightarrow> w) marks w))"

text \<open>
  \<open>_reconcile_pending_orders\<close> of \<open>order-listener/app/reconciler.py\<close>: a resting limit order
  that is no longer on the exchange's list has filled, when the exchange holds more than is
  recorded, or was cancelled. Its handlers are few: most of what it raises ends the pass.
\<close>

section \<open>The synthetic payload\<close>

definition signal_of_name :: "string \<Rightarrow> order_signal option" where
  "signal_of_name n =
     (if n = ''open_long'' then Some Open_long else if n = ''close_long'' then Some Close_long
      else if n = ''open_short'' then Some Open_short else if n = ''close_short'' then Some Close_short
      else None)"

text \<open>The validation of the model accepts two margin modes, or none.\<close>

definition valid_margin_mode :: "string option \<Rightarrow> bool" where
  "valid_margin_mode m \<longleftrightarrow> m = None \<or> m = Some ''cross'' \<or> m = Some ''isolated''"

definition synthetic_payload :: "listener_order \<Rightarrow> webhook_payload result" where
  "synthetic_payload r =
     (if CHR ''-'' \<notin> set (od_symbol r) then Inl ValueError
      else case signal_of_name (od_signal r) of
        None \<Rightarrow> Inl ValueError
      | Some sig \<Rightarrow>
          if \<not> valid_margin_mode (od_margin_mode r) then Inl ValueError
          else (let (base, quote) = split_at_dash (od_symbol r)
                in Inr \<lparr>wp_base_asset = base, wp_quote_asset = quote, wp_side = od_side r,
                     wp_order_type = ''limit'', wp_size = od_size r, wp_price = od_price r,
                     wp_leverage = od_leverage r, wp_margin_mode = od_margin_mode r, wp_tp_price = None,
                     wp_sl_price = None, wp_tp_pct = None, wp_sl_pct = None, wp_signal = sig,
                     wp_target_position = None, wp_token = ''reconciler'',
                     wp_signal_source = Some ''reconciler'', wp_signal_metadata = Some [],
                     wp_indicator_price = None\<rparr>))"

section \<open>What the exchange holds beyond the rows\<close>

text \<open>\<open>Decimal(str(x))\<close>: a missing figure reads as the text None, which is no number.\<close>

definition decimal_figure :: "figure \<Rightarrow> rat result" where
  "decimal_figure f = (case f of Number z \<Rightarrow> Inr z | _ \<Rightarrow> Inl InvalidOperation)"

definition live_figures :: "live_position option \<Rightarrow> (rat \<times> rat) result" where
  "live_figures live =
     (case live of
        None \<Rightarrow> Inr (0, 0)
      | Some p \<Rightarrow> (case decimal_figure (lp_size p) of
          Inl e \<Rightarrow> Inl e
        | Inr z \<Rightarrow> (case decimal_figure (lp_entry_price p) of Inl e \<Rightarrow> Inl e | Inr x \<Rightarrow> Inr (z, x))))"

text \<open>The price of this fill alone, solved back from the exchange's blended entry.\<close>

definition marginal_price :: "rat \<Rightarrow> rat \<Rightarrow> rat \<Rightarrow> rat \<Rightarrow> rat \<Rightarrow> rat" where
  "marginal_price exch_size exch_entry old_size old_entry fill_size =
     (if 0 < fill_size then (exch_entry * exch_size - old_entry * old_size) / fill_size else exch_entry)"

definition pending_fill :: "string \<Rightarrow> rat \<Rightarrow> rat \<Rightarrow> rat option \<Rightarrow> order_result" where
  "pending_fill exch_oid price fill_size fee =
     \<lparr>or_success = True, or_exchange_order_id = Some exch_oid, or_status = ''filled'', or_error_msg = None,
      or_actual_fill_price = Some price, or_actual_fill_size = Some fill_size, or_pnl = None,
      or_realized_pnl = None, or_fee = fee\<rparr>"

definition pending_cancel :: "string \<Rightarrow> order_result" where
  "pending_cancel exch_oid =
     \<lparr>or_success = False, or_exchange_order_id = Some exch_oid, or_status = ''cancelled'', or_error_msg = None,
      or_actual_fill_price = None, or_actual_fill_size = None, or_pnl = None, or_realized_pnl = None,
      or_fee = None\<rparr>"

section \<open>The stops of a fill\<close>

definition pending_reanchor_patch :: "stop_changes \<Rightarrow> rat \<Rightarrow> metadata" where
  "pending_reanchor_patch c price =
     [(''stops_reanchored_to_fill'', M_dict (changes_meta c)), (''fill_price_at_reanchor'', M_num price)]"

text \<open>
  The stop of a fill that could not be confirmed is flagged on the order that opened the
  position, which the liquidation guard reads on a later pass.
\<close>

definition flag_unprotected ::
  "string \<Rightarrow> string \<Rightarrow> leg_side \<Rightarrow> string option \<Rightarrow> listener_world \<Rightarrow> listener_world" where
  "flag_unprotected sid symbol side detail w =
     (case find_open_leg sid symbol side w of
        None \<Rightarrow> w
      | Some p \<Rightarrow> (case po_opening_order p of None \<Rightarrow> w | Some oid \<Rightarrow> flag_sl_unconfirmed oid detail w))"

definition protect_fill ::
  "reconcile_env \<Rightarrow> string \<Rightarrow> listener_order \<Rightarrow> leg_side \<Rightarrow> rat \<Rightarrow> listener_world \<Rightarrow> listener_world" where
  "protect_fill R account r side price w =
     (if od_tp_price r = None \<and> od_sl_price r = None then w
      else
       (let (sl, tp, ch) = revalidate_stops_for_fill (leg_side_name side) (od_price r) (Some price)
                             (od_sl_price r) (od_tp_price r) False;
            w1 = (if ch \<noteq> no_changes \<and> \<not> re_db_fails R Pending_reanchor
                  then set_order (od_id r) (stops_row sl tp (pending_reanchor_patch ch price)) w else w);
            (res, w2) = call_executor_modify_stops (re_listener R) account (od_symbol r) side tp sl w1
        in if od_sl_price r \<noteq> None \<and> sr_sl_ok res \<noteq> Some True
           then flag_unprotected (od_strategy r) (od_symbol r) side (sr_error_msg res) w2 else w2))"

section \<open>One order\<close>

definition order_leverage :: "listener_order \<Rightarrow> int" where
  "order_leverage r = (case od_leverage r of None \<Rightarrow> 1 | Some l \<Rightarrow> if l = 0 then 1 else l)"

definition order_margin_mode :: "listener_order \<Rightarrow> string" where
  "order_margin_mode r =
     (if text_or_nil (od_margin_mode r) = [] then ''isolated'' else text_or_nil (od_margin_mode r))"

definition settle_fill ::
  "reconcile_env \<Rightarrow> string \<Rightarrow> listener_order \<Rightarrow> string \<Rightarrow> webhook_payload \<Rightarrow> rat \<Rightarrow> rat \<Rightarrow> listener_world
   \<Rightarrow> unit result \<times> listener_world" where
  "settle_fill R account r exch_oid payload price fill_size w =
     (let fee = get_order_fill_fee R account (od_symbol r) exch_oid w;
          res = pending_fill exch_oid price fill_size fee
      in case apply_position_fill (re_listener R) (od_strategy r) payload (od_symbol r) (od_id r) res
                (order_leverage r) (order_margin_mode r) w of
           (Inl e, w1) \<Rightarrow> (Inl e, w1)
         | (Inr _, w1) \<Rightarrow>
             (Inr (), protect_fill R account r (side_leg (od_side r)) price
                        (update_order_status (od_id r) ''filled'' (Some res) account w1)))"

definition reconcile_pending_order ::
  "reconcile_env \<Rightarrow> string \<Rightarrow> string list \<Rightarrow> (live_key, live_position) tbl \<Rightarrow> listener_order
   \<Rightarrow> listener_world \<Rightarrow> unit result \<times> listener_world" where
  "reconcile_pending_order R account resting live r w =
     (let exch_oid = text_or_nil (od_exchange_order_id r); side = side_leg (od_side r)
      in if exch_oid = [] \<or> exch_oid \<in> set resting then (Inr (), w)
         else
          (let old = find_open_leg (od_strategy r) (od_symbol r) side w;
               old_size = (case old of None \<Rightarrow> 0 | Some p \<Rightarrow> po_size p);
               old_entry = (case old of None \<Rightarrow> 0 | Some p \<Rightarrow> po_entry_price p)
           in case live_figures (map_of live (od_symbol r, leg_side_name side)) of
                Inl e \<Rightarrow> (Inl e, w)
              | Inr (exch_size, exch_entry) \<Rightarrow>
                 (case synthetic_payload r of
                    Inl e \<Rightarrow> (Inl e, w)
                  | Inr payload \<Rightarrow>
                     (let available = exch_size - old_size
                      in if size_tolerance (od_size r) < available then
                           (let fill_size = min (od_size r) available
                            in settle_fill R account r exch_oid payload
                                 (marginal_price exch_size exch_entry old_size old_entry fill_size) fill_size w)
                         else (Inr (), update_order_status (od_id r) ''cancelled''
                                         (Some (pending_cancel exch_oid)) account w)))))"

section \<open>All pending orders\<close>

fun reconcile_order_list ::
  "reconcile_env \<Rightarrow> string \<Rightarrow> string list \<Rightarrow> (live_key, live_position) tbl \<Rightarrow> listener_order list
   \<Rightarrow> listener_world \<Rightarrow> unit result \<times> listener_world" where
  "reconcile_order_list R account resting live [] w = (Inr (), w)"
| "reconcile_order_list R account resting live (r # rs) w =
     (case reconcile_pending_order R account resting live r w of
        (Inl e, w1) \<Rightarrow> (Inl e, w1)
      | (Inr _, w1) \<Rightarrow> reconcile_order_list R account resting live rs w1)"

text \<open>An account whose orders or positions cannot be read is left alone.\<close>

fun reconcile_accounts ::
  "reconcile_env \<Rightarrow> (string option, listener_order list) tbl \<Rightarrow> listener_world \<Rightarrow> unit result \<times> listener_world" where
  "reconcile_accounts R [] w = (Inr (), w)"
| "reconcile_accounts R ((a, rs) # rest) w =
     (case get_account_open_orders R (account_path a) w of
        None \<Rightarrow> reconcile_accounts R rest w
      | Some resting \<Rightarrow>
         (case get_account_positions R Pending_read (account_path a) w of
            None \<Rightarrow> reconcile_accounts R rest w
          | Some ps \<Rightarrow>
             (case reconcile_order_list R (account_path a) resting (live_by_key ps) rs w of
                (Inl e, w1) \<Rightarrow> (Inl e, w1)
              | (Inr _, w1) \<Rightarrow> reconcile_accounts R rest w1)))"

definition reconcile_pending_orders :: "reconcile_env \<Rightarrow> listener_world \<Rightarrow> unit result \<times> listener_world" where
  "reconcile_pending_orders R w = reconcile_accounts R (group_by_account (pending_rows w)) w"

end
