(* ===== verification/Reconciler.thy ===== *)
theory Reconciler
  imports ReconcileState ReconcilePending
begin

text \<open>
  Closes that happened on the exchange (\<open>order-listener/app/reconciler.py\<close>): naming them
  after the trigger they landed on (\<open>classify_external_close\<close>), booking a position that
  is gone (\<open>_handle_full_external_close\<close>), and recovering the result of a closed position
  that never got one (\<open>_recover_manual_close_pnl\<close>).
\<close>

section \<open>Naming an exit\<close>

definition exit_candidates :: "rat \<Rightarrow> rat option \<Rightarrow> rat option \<Rightarrow> (rat \<times> string) list" where
  "exit_candidates fill sl tp =
     List.map_filter (\<lambda>(level, label).
         case level of
           None \<Rightarrow> None
         | Some x \<Rightarrow> if \<bar>fill - x\<bar> \<le> fill * TRIGGER_MATCH_TOL_PCT / 100 then Some (\<bar>fill - x\<bar>, label) else None)
       [(sl, ''Stop-loss hit''), (tp, ''Take-profit hit'')]"

text \<open>\<open>min(cands)[1]\<close>: the nearer level, and on a tie the label that sorts first.\<close>

definition classify_external_close :: "rat option \<Rightarrow> rat option \<Rightarrow> rat option \<Rightarrow> string option" where
  "classify_external_close fill sl tp =
     (case fill of
        None \<Rightarrow> None
      | Some f \<Rightarrow>
          if f \<le> 0 then None
          else case exit_candidates f sl tp of
            [] \<Rightarrow> None
          | [(_, label)] \<Rightarrow> Some label
          | (d1, l1) # (d2, l2) # _ \<Rightarrow> Some (if d1 \<le> d2 then l1 else l2))"

section \<open>A position that is gone\<close>

text \<open>What the history is worth: the reason, the price and the result, and whether it is confirmed.\<close>

record close_facts =
  cf_reason :: string
  cf_price :: "rat option"
  cf_pnl :: "rat option"
  cf_unconfirmed :: bool

definition history_reason :: "close_history \<Rightarrow> string" where
  "history_reason h =
     (if text_or_nil (ch_close_reason h) = [] then ''Closed on exchange'' else text_or_nil (ch_close_reason h))"

text \<open>
  A history entry from before the position was opened is another position's: its reason,
  price and result are dropped. An unreadable time keeps them, unconfirmed.
\<close>

definition close_facts_of :: "close_history \<Rightarrow> datetime \<Rightarrow> close_facts" where
  "close_facts_of h opened_at =
     (let reason = history_reason h; price = ch_closing_price h; pnl = ch_pnl_realized h
      in case ch_closed_at h of
           Number t \<Rightarrow>
             if t \<le> opened_at
             then \<lparr>cf_reason = ''Closed on exchange'', cf_price = None, cf_pnl = None, cf_unconfirmed = True\<rparr>
             else \<lparr>cf_reason = reason, cf_price = price, cf_pnl = pnl, cf_unconfirmed = (pnl = None)\<rparr>
         | Missing \<Rightarrow> \<lparr>cf_reason = reason, cf_price = price, cf_pnl = pnl, cf_unconfirmed = (pnl = None)\<rparr>
         | Garbled \<Rightarrow> \<lparr>cf_reason = reason, cf_price = price, cf_pnl = pnl, cf_unconfirmed = True\<rparr>)"

text \<open>The stops of the opening order; a position without one has no row to compare with.\<close>

definition opening_stops :: "listener_position option \<Rightarrow> listener_world \<Rightarrow> (rat option \<times> rat option) option" where
  "opening_stops p w =
     map_option (\<lambda>r. (od_sl_price r, od_tp_price r))
       (Option.bind (Option.bind p po_opening_order) (\<lambda>oid. order_by_id oid w))"

definition refine_reason :: "reconcile_env \<Rightarrow> nat \<Rightarrow> close_facts \<Rightarrow> listener_world \<Rightarrow> string" where
  "refine_reason R pid f w =
     (if cf_reason f = ''Closed on exchange'' \<and> or_zero (cf_price f) \<noteq> 0 \<and> \<not> re_db_fails R Level_lookup
      then (case opening_stops (position_by_id pid w) w of
              None \<Rightarrow> cf_reason f
            | Some (sl, tp) \<Rightarrow>
                (case classify_external_close (cf_price f) sl tp of None \<Rightarrow> cf_reason f | Some label \<Rightarrow> label))
      else cf_reason f)"

text \<open>The opening fee, and the fees and results of the closes already attributed to the row.\<close>

definition prior_closes :: "nat \<Rightarrow> listener_world \<Rightarrow> rat \<times> rat \<times> rat" where
  "prior_closes pid w =
     (case position_by_id pid w of
        None \<Rightarrow> (0, 0, 0)
      | Some p \<Rightarrow>
         (let cs = closing_orders pid w
          in (opening_fee p w, sum_list (map (\<lambda>r. or_zero (od_exchange_fee r)) cs),
              sum_list (map (\<lambda>r. or_zero (od_pnl r)) cs))))"

text \<open>The fee of this close alone: a round trip's without the opening fee, less the earlier closes.\<close>

definition remaining_fee :: "close_history \<Rightarrow> rat \<Rightarrow> rat \<Rightarrow> rat option" where
  "remaining_fee h open_fee prior_fee =
     map_option (\<lambda>fee.
       let fee_total = \<bar>fee\<bar>;
           close_legs = (if ch_fee_scope h = Some ''round_trip'' then fee_total - open_fee else fee_total)
       in max (close_legs - prior_fee) 0) (ch_fee h)"

definition remaining_pnl :: "close_facts \<Rightarrow> rat \<Rightarrow> rat option" where
  "remaining_pnl f prior_pnl =
     (if cf_unconfirmed f then None else map_option (\<lambda>x. x - prior_pnl) (cf_pnl f))"

definition external_order ::
  "nat \<Rightarrow> string \<Rightarrow> string option \<Rightarrow> string \<Rightarrow> leg_side \<Rightarrow> string \<Rightarrow> rat \<Rightarrow> rat option \<Rightarrow> rat option \<Rightarrow> rat option
   \<Rightarrow> listener_order" where
  "external_order oid sid acct symbol side sig sz price pnl fee =
     \<lparr>od_id = oid, od_strategy = sid, od_symbol = symbol, od_side = closing_side side, od_signal = sig,
      od_order_type = ''market'', od_size = sz, od_price = None, od_leverage = None, od_margin_mode = None,
      od_tp_price = None, od_sl_price = None, od_status = ''filled'', od_exchange_order_id = None,
      od_error_msg = None, od_actual_fill_price = price, od_pnl = pnl, od_account_id = acct,
      od_exchange_fee = fee, od_closes_position = None, od_signal_source = Some ''reconciler'',
      od_signal_metadata = [], od_indicator_price = None, od_signal_log_id = None, od_mark_price = None,
      od_raw_webhook = None\<rparr>"

definition external_close_call ::
  "string \<Rightarrow> leg_side \<Rightarrow> nat option \<Rightarrow> string \<Rightarrow> rat option \<Rightarrow> rat option \<Rightarrow> rat option \<Rightarrow> close_call" where
  "external_close_call symbol side closing reason price pnl fee =
     \<lparr>cc_symbol = symbol, cc_side = side, cc_size = None, cc_closing_order = closing, cc_reason = Some reason,
      cc_skip_exchange = True, cc_fill_price = price, cc_realized_pnl = pnl, cc_fee = fee\<rparr>"

definition handle_full_external_close ::
  "reconcile_env \<Rightarrow> listener_position \<Rightarrow> string option \<Rightarrow> listener_world \<Rightarrow> close_result \<times> listener_world" where
  "handle_full_external_close R row acct w =
     (let pid = po_id row; symbol = po_symbol row; side = po_side row; sid = po_strategy row;
          h = get_position_history R (account_path acct) symbol (po_opened_at row) side w;
          f = close_facts_of h (po_opened_at row);
          reason = refine_reason R pid f w;
          (open_fee, prior_fee, prior_pnl) = prior_closes pid w;
          pnl = remaining_pnl f prior_pnl;
          fee = remaining_fee h open_fee prior_fee;
          sig = (if reason = ''Liquidated'' then ''liquidation'' else ''exchange_close'');
          price = (if or_zero (cf_price f) = 0 then None else cf_price f);
          (closing, w1) =
            (if re_db_fails R External_order_insert then (None, w)
             else (Some (length (lw_orders w)),
                   add_order (external_order (length (lw_orders w)) sid acct symbol side sig (po_size row) price pnl fee) w))
      in close_strategy_position (re_listener R) sid (text_or_nil acct)
           (external_close_call symbol side closing reason (cf_price f) pnl
              (if cf_unconfirmed f then None else fee)) w1)"

section \<open>A closed position without a result\<close>

definition recovery_rows :: "datetime \<Rightarrow> listener_world \<Rightarrow> (listener_position \<times> string option) list" where
  "recovery_rows now w = List.map_filter
     (\<lambda>p. if \<not> po_open p \<and> po_pnl_realized p = None
             \<and> (case po_closed_at p of None \<Rightarrow> False | Some t \<Rightarrow> now - 7 * 86400 \<le> t)
             \<and> closing_orders (po_id p) w = []
          then map_option (\<lambda>s. (p, ls_account_id s)) (live_strategy (po_strategy p) w) else None)
     (lw_positions w)"

definition fresh_history :: "close_history \<Rightarrow> datetime \<Rightarrow> bool" where
  "fresh_history h opened_at =
     (case ch_closed_at h of Missing \<Rightarrow> True | Number t \<Rightarrow> opened_at < t | Garbled \<Rightarrow> False)"

definition recovered_net :: "close_history \<Rightarrow> rat \<Rightarrow> rat \<Rightarrow> rat" where
  "recovered_net h pnl open_fee =
     (let fee = or_zero (map_option abs (ch_fee h))
      in if ch_fee_scope h = Some ''round_trip'' then pnl - fee else pnl - fee - open_fee)"

definition recover_row :: "rat \<Rightarrow> listener_position \<Rightarrow> listener_position" where
  "recover_row net p = (if \<not> po_open p \<and> po_pnl_realized p = None then p\<lparr>po_pnl_realized := Some net\<rparr> else p)"

definition awaits_result :: "nat \<Rightarrow> listener_world \<Rightarrow> bool" where
  "awaits_result pid w =
     list_ex (\<lambda>p. po_id p = pid \<and> \<not> po_open p \<and> po_pnl_realized p = None) (lw_positions w)"

text \<open>The order row of a close that has none.\<close>

definition add_recovered_order ::
  "reconcile_env \<Rightarrow> listener_position \<Rightarrow> string option \<Rightarrow> rat \<Rightarrow> rat option \<Rightarrow> listener_world \<Rightarrow> listener_world" where
  "add_recovered_order R p acct pnl fee w =
     (if re_db_fails R Recovered_order_insert
         \<or> list_ex (\<lambda>r. od_closes_position r = Some (po_id p)) (lw_orders w) then w
      else add_order ((external_order (length (lw_orders w)) (po_strategy p) acct (po_symbol p) (po_side p)
             ''exchange_close'' (po_size p) (if or_zero (po_closing_price p) = 0 then None else po_closing_price p)
             (Some pnl) fee)\<lparr>od_closes_position := Some (po_id p)\<rparr>) w)"

definition recover_one ::
  "reconcile_env \<Rightarrow> listener_position \<times> string option \<Rightarrow> listener_world \<Rightarrow> listener_world" where
  "recover_one R pa w =
     (let (p, acct) = pa; E = re_listener R;
          h = get_position_history R (account_path acct) (po_symbol p) (po_opened_at p) (po_side p) w
      in case ch_pnl_realized h of
           None \<Rightarrow> w
         | Some pnl \<Rightarrow>
             if \<not> fresh_history h (po_opened_at p) \<or> re_db_fails R Recovered_write \<or> \<not> awaits_result (po_id p) w then w
             else
              (let net = recovered_net h pnl (opening_fee p w);
                   w1 = set_position (po_id p) (recover_row net) w;
                   w2 = book_realized_pnl (flattener_of E (length (lw_positions w1))) E (po_strategy p) (Some net) w1
               in add_recovered_order R p acct pnl (map_option abs (ch_fee h)) w2))"

text \<open>The most recent closes first.\<close>

definition latest_first :: "(listener_position \<times> string option) list \<Rightarrow> (listener_position \<times> string option) list" where
  "latest_first rows = sort_key (\<lambda>(p, _). - or_zero (po_closed_at p)) rows"

definition recover_manual_close_pnl :: "reconcile_env \<Rightarrow> listener_world \<Rightarrow> listener_world" where
  "recover_manual_close_pnl R w =
     fold (recover_one R) (latest_first (recovery_rows (le_now (re_listener R)) w)) w"

text \<open>
  \<open>reconcile_once\<close> of \<open>order-listener/app/reconciler.py\<close> and the loop of
  \<open>app/main.py\<close> around it: the resting orders, then each open row against the exchange
  with its counter of consecutive misses, then the results that close orders bring in.
\<close>

section \<open>One read of one row\<close>

text \<open>What the exchange says of a row: nothing certain, the same, more, or less (perhaps none).\<close>

datatype read_verdict = Unknown_read | Same_size | Larger rat | Short_by rat bool

definition verdict_of :: "rat \<Rightarrow> rat option option \<Rightarrow> read_verdict" where
  "verdict_of db_size read =
     (case read of
        None \<Rightarrow> Unknown_read
      | Some ex_size \<Rightarrow>
         (let ex = or_zero ex_size; tol = size_tolerance db_size
          in if ex_size \<noteq> None \<and> \<bar>db_size - ex\<bar> \<le> tol then Same_size
             else if ex_size \<noteq> None \<and> db_size + tol < ex then Larger ex
             else Short_by (db_size - ex) (ex_size = None \<or> ex \<le> SIZE_EPSILON_ABS)))"

definition matched_row :: "listener_position \<Rightarrow> listener_position" where
  "matched_row p = p\<lparr>po_miss_count := 0, po_divergent := False, po_exchange_size := None, po_divergence_at := None\<rparr>"

definition divergent_row :: "datetime \<Rightarrow> rat \<Rightarrow> listener_position \<Rightarrow> listener_position" where
  "divergent_row now ex p = p\<lparr>po_miss_count := 0, po_divergent := True, po_exchange_size := Some ex,
     po_divergence_at := coalesce (po_divergence_at p) (Some now)\<rparr>"

definition missed_row :: "nat \<Rightarrow> listener_position \<Rightarrow> listener_position" where
  "missed_row n p = (if po_open p then p\<lparr>po_miss_count := n\<rparr> else p)"

text \<open>The part of a position the exchange no longer has, closed in the books alone.\<close>

definition external_reduction :: "listener_position \<Rightarrow> rat \<Rightarrow> close_call" where
  "external_reduction row by_size =
     \<lparr>cc_symbol = po_symbol row, cc_side = po_side row, cc_size = Some by_size, cc_closing_order = None,
      cc_reason = Some ''Closed on exchange'', cc_skip_exchange = True, cc_fill_price = None,
      cc_realized_pnl = None, cc_fee = None\<rparr>"

definition act_on_row ::
  "reconcile_env \<Rightarrow> listener_position \<Rightarrow> string option \<Rightarrow> rat \<Rightarrow> bool \<Rightarrow> listener_world \<Rightarrow> listener_world" where
  "act_on_row R row acct diff absent w =
     (if absent then snd (handle_full_external_close R row acct w)
      else (case close_strategy_position (re_listener R) (po_strategy row) (text_or_nil acct)
                   (external_reduction row diff) w of
              (res, w1) \<Rightarrow>
                if cl_success res then set_position (po_id row) (\<lambda>p. p\<lparr>po_miss_count := 0\<rparr>) w1 else w1))"

definition reconcile_row ::
  "reconcile_env \<Rightarrow> listener_position \<Rightarrow> string option \<Rightarrow> rat option option \<Rightarrow> listener_world \<Rightarrow> listener_world" where
  "reconcile_row R row acct read w =
     (case verdict_of (po_size row) read of
        Unknown_read \<Rightarrow> w
      | Same_size \<Rightarrow>
          if po_miss_count row \<noteq> 0 \<or> po_divergent row then set_position (po_id row) matched_row w else w
      | Larger ex \<Rightarrow> set_position (po_id row) (divergent_row (le_now (re_listener R)) ex) w
      | Short_by diff absent \<Rightarrow>
         (let n = po_miss_count row + 1;
              w1 = set_position (po_id row) (missed_row n) w
          in if n < re_miss_threshold R then w1 else act_on_row R row acct diff absent w1))"

section \<open>A pass\<close>

text \<open>
  The accounts are read one after the other, the liquidation guard running on each as it is
  read. An account that cannot be read has no entry.
\<close>

type_synonym exchange_map = "(string option, (live_key, rat \<times> live_position) tbl) tbl"

fun read_accounts ::
  "reconcile_env \<Rightarrow> (string option, listener_position list) tbl \<Rightarrow> listener_world \<Rightarrow> exchange_map \<times> listener_world" where
  "read_accounts R [] w = ([], w)"
| "read_accounts R ((a, rows) # rest) w =
     (case get_account_positions R Open_read (account_path a) w of
        None \<Rightarrow> read_accounts R rest w
      | Some ps \<Rightarrow>
         (case read_accounts R rest (guard_liquidation_safety R (account_path a) rows (live_map ps) w) of
            (m, w1) \<Rightarrow> ((a, live_map ps) # m, w1)))"

definition row_read :: "exchange_map \<Rightarrow> listener_position \<Rightarrow> string option \<Rightarrow> rat option option" where
  "row_read m row acct = map_option (\<lambda>t. map_option fst (map_of t (position_key row))) (map_of m acct)"

definition reconcile_rows ::
  "reconcile_env \<Rightarrow> exchange_map \<Rightarrow> (listener_position \<times> string option) list \<Rightarrow> listener_world \<Rightarrow> listener_world" where
  "reconcile_rows R m rows w = fold (\<lambda>(row, acct). reconcile_row R row acct (row_read m row acct)) rows w"

text \<open>The books at the end of every pass.\<close>

definition settle_results :: "reconcile_env \<Rightarrow> listener_world \<Rightarrow> listener_world" where
  "settle_results R w = recover_manual_close_pnl R (sync_position_pnl (re_listener R) w)"

definition reconcile_open_rows :: "reconcile_env \<Rightarrow> listener_world \<Rightarrow> listener_world" where
  "reconcile_open_rows R w =
     (let rows = open_rows w
      in if rows = [] then settle_results R w
         else (case read_accounts R (group_by_account rows) (sample_excursions R rows w) of
                 (m, w1) \<Rightarrow> settle_results R (reconcile_rows R m rows w1)))"

definition reconcile_once :: "reconcile_env \<Rightarrow> listener_world \<Rightarrow> unit result \<times> listener_world" where
  "reconcile_once R w =
     (case reconcile_pending_orders R w of
        (Inl e, w1) \<Rightarrow> (Inl e, w1)
      | (Inr _, w1) \<Rightarrow> (Inr (), reconcile_open_rows R w1))"

text \<open>The loop drops what a pass raised and goes on; \<open>POST /reconcile\<close> reports it.\<close>

definition reconciler_loop :: "reconcile_env list \<Rightarrow> listener_world \<Rightarrow> listener_world" where
  "reconciler_loop passes w = fold (\<lambda>R w. snd (reconcile_once R w)) passes w"

definition trigger_reconcile :: "reconcile_env \<Rightarrow> listener_world \<Rightarrow> bool \<times> listener_world" where
  "trigger_reconcile R w = (case reconcile_once R w of (r, w1) \<Rightarrow> (\<not> isl r, w1))"

end
