(* ===== verification/ReconcileStreak.thy ===== *)
theory ReconcileStreak
  imports Reconciler
begin

text \<open>
  The reconciler's safety rule. The miss column of a row is the length of the row's current
  streak of reads that found less than is recorded, unknown reads left out; and as long as no
  row's streak reaches the threshold, a pass over the rows changes nothing but its own
  columns.
\<close>

section \<open>The counter as it is meant\<close>

definition next_streak :: "read_verdict \<Rightarrow> nat \<Rightarrow> nat" where
  "next_streak v c = (case v of Unknown_read \<Rightarrow> c | Same_size \<Rightarrow> 0 | Larger _ \<Rightarrow> 0 | Short_by _ _ \<Rightarrow> c + 1)"

definition row_streak :: "rat \<Rightarrow> rat option option list \<Rightarrow> nat \<Rightarrow> nat" where
  "row_streak db_size reads c = fold (\<lambda>read. next_streak (verdict_of db_size read)) reads c"

text \<open>A row without the columns the reconciler keeps for itself.\<close>

definition bare_row :: "listener_position \<Rightarrow> listener_position" where
  "bare_row p = p\<lparr>po_miss_count := 0, po_divergent := False, po_exchange_size := None, po_divergence_at := None\<rparr>"

definition same_but_counters :: "listener_world \<Rightarrow> listener_world \<Rightarrow> bool" where
  "same_but_counters w w' \<longleftrightarrow> w'\<lparr>lw_positions := []\<rparr> = w\<lparr>lw_positions := []\<rparr> \<and>
     map bare_row (lw_positions w') = map bare_row (lw_positions w)"

lemma same_but_counters_refl [simp]: "same_but_counters w w"
  by (simp add: same_but_counters_def)

lemma same_but_counters_trans: "same_but_counters u v \<Longrightarrow> same_but_counters v w \<Longrightarrow> same_but_counters u w"
  by (simp add: same_but_counters_def)

section \<open>One row\<close>

text \<open>What a read that does not act writes on its row.\<close>

definition counted_row :: "datetime \<Rightarrow> listener_position \<Rightarrow> rat option option \<Rightarrow> listener_position \<Rightarrow> listener_position" where
  "counted_row now row read p =
     (case verdict_of (po_size row) read of
        Unknown_read \<Rightarrow> p
      | Same_size \<Rightarrow> if po_miss_count row \<noteq> 0 \<or> po_divergent row then matched_row p else p
      | Larger ex \<Rightarrow> divergent_row now ex p
      | Short_by _ _ \<Rightarrow> missed_row (po_miss_count row + 1) p)"

definition waits :: "reconcile_env \<Rightarrow> listener_position \<Rightarrow> rat option option \<Rightarrow> bool" where
  "waits R row read \<longleftrightarrow> next_streak (verdict_of (po_size row) read) (po_miss_count row) < re_miss_threshold R"

lemma set_position_id: "set_position pid (\<lambda>p. p) w = w"
  by (simp add: set_position_def update_where_def)

lemma reconcile_row_waits:
  assumes "waits R row read"
  shows "reconcile_row R row acct read w = set_position (po_id row) (counted_row (le_now (re_listener R)) row read) w"
proof (cases "verdict_of (po_size row) read")
  case (Short_by d b)
  have c: "counted_row (le_now (re_listener R)) row read = missed_row (po_miss_count row + 1)"
    by (rule ext) (simp add: counted_row_def Short_by)
  show ?thesis using assms unfolding c by (simp add: reconcile_row_def waits_def next_streak_def Short_by Let_def)
next
  case Same_size
  have c: "counted_row (le_now (re_listener R)) row read =
      (if po_miss_count row \<noteq> 0 \<or> po_divergent row then matched_row else (\<lambda>p. p))"
    by (rule ext) (simp add: counted_row_def Same_size)
  show ?thesis unfolding c by (simp add: reconcile_row_def Same_size set_position_id)
next
  case (Larger ex)
  have c: "counted_row (le_now (re_listener R)) row read = divergent_row (le_now (re_listener R)) ex"
    by (rule ext) (simp add: counted_row_def Larger)
  show ?thesis unfolding c by (simp add: reconcile_row_def Larger)
next
  case Unknown_read
  have c: "counted_row (le_now (re_listener R)) row read = (\<lambda>p. p)"
    by (rule ext) (simp add: counted_row_def Unknown_read)
  show ?thesis unfolding c by (simp add: reconcile_row_def Unknown_read set_position_id)
qed

lemma bare_simps:
  "bare_row (matched_row p) = bare_row p" "bare_row (divergent_row t ex p) = bare_row p"
  "bare_row (missed_row n p) = bare_row p"
  by (simp_all add: bare_row_def matched_row_def divergent_row_def missed_row_def)

lemma counted_bare [simp]: "bare_row (counted_row now row read p) = bare_row p"
  by (simp add: counted_row_def bare_simps split: read_verdict.splits)

lemma bare_fields:
  assumes "bare_row p = bare_row q"
  shows "po_id p = po_id q" "po_open p = po_open q" "po_strategy p = po_strategy q" "po_symbol p = po_symbol q"
    "po_side p = po_side q" "po_size p = po_size q"
proof -
  have "po_id (bare_row p) = po_id (bare_row q)" "po_open (bare_row p) = po_open (bare_row q)"
    "po_strategy (bare_row p) = po_strategy (bare_row q)" "po_symbol (bare_row p) = po_symbol (bare_row q)"
    "po_side (bare_row p) = po_side (bare_row q)" "po_size (bare_row p) = po_size (bare_row q)"
    using assms by simp_all
  then show "po_id p = po_id q" "po_open p = po_open q" "po_strategy p = po_strategy q"
    "po_symbol p = po_symbol q" "po_side p = po_side q" "po_size p = po_size q"
    by (simp_all add: bare_row_def)
qed

text \<open>The counter of an open row, and a row that matches is left with a counter of zero.\<close>

lemma counted_miss:
  assumes "po_open row"
  shows "po_miss_count (counted_row now row read row) =
    next_streak (verdict_of (po_size row) read) (po_miss_count row)"
  using assms by (auto simp: counted_row_def next_streak_def matched_row_def divergent_row_def missed_row_def
      split: read_verdict.splits)

section \<open>All rows of a pass\<close>

text \<open>Writing each of some keyed rows once is writing them all at once.\<close>

lemma fold_keyed_updates:
  assumes "distinct (map key xs)" "distinct rs" "set rs \<subseteq> set xs" "\<And>r x. key (f r x) = key x"
  shows "fold (\<lambda>r. update_where (\<lambda>x. key x = key r) (f r)) rs xs = map (\<lambda>x. if x \<in> set rs then f x x else x) xs"
  using assms(2,3)
proof (induction rs rule: rev_induct)
  case (snoc r rs)
  have inj: "inj_on key (set xs)" using assms(1) by (simp add: distinct_map)
  have r: "r \<in> set xs" "r \<notin> set rs" using snoc.prems by auto
  have "fold (\<lambda>r. update_where (\<lambda>x. key x = key r) (f r)) rs xs = map (\<lambda>x. if x \<in> set rs then f x x else x) xs"
    using snoc by simp
  then have "fold (\<lambda>r. update_where (\<lambda>x. key x = key r) (f r)) (rs @ [r]) xs =
      update_where (\<lambda>x. key x = key r) (f r) (map (\<lambda>x. if x \<in> set rs then f x x else x) xs)" by simp
  also have "\<dots> = map (\<lambda>x. if x \<in> set (rs @ [r]) then f x x else x) xs"
    unfolding update_where_def list.map_comp
  proof (rule map_cong [OF refl])
    fix x assume x: "x \<in> set xs"
    then have "key x = key r \<longleftrightarrow> x = r" using inj r(1) by (auto dest: inj_onD)
    then show "((\<lambda>x. if key x = key r then f r x else x) \<circ> (\<lambda>x. if x \<in> set rs then f x x else x)) x =
        (if x \<in> set (rs @ [r]) then f x x else x)"
      using assms(4) r(2) by auto
  qed
  finally show ?case .
qed simp

definition account_row :: "listener_world \<Rightarrow> listener_position \<Rightarrow> string option option" where
  "account_row w p = (if po_open p then map_option ls_account_id (live_strategy (po_strategy p) w) else None)"

lemma open_rows_alt: "open_rows w = List.map_filter (\<lambda>p. map_option (\<lambda>a. (p, a)) (account_row w p)) (lw_positions w)"
  unfolding open_rows_def account_row_def by (rule arg_cong [where f = "\<lambda>g. List.map_filter g _"])
    (auto simp: fun_eq_iff option.map_comp comp_def)

lemma open_rows_set: "(p, a) \<in> set (open_rows w) \<longleftrightarrow> p \<in> set (lw_positions w) \<and> account_row w p = Some a"
proof
  show "(p, a) \<in> set (open_rows w)" if "p \<in> set (lw_positions w) \<and> account_row w p = Some a"
    using that by (force simp: open_rows_alt List.map_filter_def image_iff)
qed (auto simp: open_rows_alt List.map_filter_def)

lemma map_filter_distinct_fst: "distinct xs \<Longrightarrow>
    distinct (map fst (List.map_filter (\<lambda>p. map_option (\<lambda>a. (p, a)) (g p)) xs))"
  by (induction xs) (auto simp: List.map_filter_def split: option.splits)

lemma open_rows_distinct: "distinct (lw_positions w) \<Longrightarrow> distinct (map fst (open_rows w))"
  unfolding open_rows_alt by (rule map_filter_distinct_fst)

text \<open>The row after a pass in which no row acts.\<close>

definition passed_row :: "reconcile_env \<Rightarrow> exchange_map \<Rightarrow> listener_world \<Rightarrow> listener_position \<Rightarrow> listener_position" where
  "passed_row R m w p =
     (case account_row w p of
        None \<Rightarrow> p
      | Some a \<Rightarrow> counted_row (le_now (re_listener R)) p (row_read m p a) p)"

lemma passed_bare [simp]: "bare_row (passed_row R m w p) = bare_row p"
  by (simp add: passed_row_def split: option.splits)

lemma fold_rows_waits:
  assumes "\<forall>(p, a)\<in>set rows. waits R p (row_read m p a)"
  shows "reconcile_rows R m rows w =
    w\<lparr>lw_positions := fold (\<lambda>(p, a). update_where (\<lambda>x. po_id x = po_id p)
        (counted_row (le_now (re_listener R)) p (row_read m p a))) rows (lw_positions w)\<rparr>"
  using assms
proof (induction rows arbitrary: w)
  case (Cons pa rows)
  obtain p a where pa: "pa = (p, a)" by fastforce
  have "reconcile_row R p a (row_read m p a) w =
      set_position (po_id p) (counted_row (le_now (re_listener R)) p (row_read m p a)) w"
    by (rule reconcile_row_waits) (use Cons.prems pa in auto)
  with Cons show ?case by (simp add: reconcile_rows_def pa set_position_def)
qed (simp add: reconcile_rows_def)

lemma pass_waits:
  assumes "distinct (map po_id (lw_positions w))" "\<forall>(p, a)\<in>set (open_rows w). waits R p (row_read m p a)"
  shows "reconcile_rows R m (open_rows w) w = w\<lparr>lw_positions := map (passed_row R m w) (lw_positions w)\<rparr>"
proof -
  let ?now = "le_now (re_listener R)"
  let ?f = "\<lambda>p. passed_row R m w p"
  let ?rs = "map fst (open_rows w)"
  let ?g = "\<lambda>p. case account_row w p of None \<Rightarrow> (\<lambda>x. x) | Some a \<Rightarrow> counted_row ?now p (row_read m p a)"
  have d: "distinct (lw_positions w)" using assms(1) by (simp add: distinct_map)
  have "fold (\<lambda>(p, a). update_where (\<lambda>x. po_id x = po_id p) (counted_row ?now p (row_read m p a))) (open_rows w) xs =
      fold (\<lambda>p. update_where (\<lambda>x. po_id x = po_id p) (?g p)) ?rs xs" for xs
    unfolding fold_map by (rule fold_cong) (auto simp: open_rows_set fun_eq_iff)
  also have "fold (\<lambda>p. update_where (\<lambda>x. po_id x = po_id p) (?g p)) ?rs (lw_positions w) =
      map (\<lambda>x. if x \<in> set ?rs then ?g x x else x) (lw_positions w)"
  proof (rule fold_keyed_updates [OF assms(1) open_rows_distinct [OF d]])
    show "set ?rs \<subseteq> set (lw_positions w)" by (auto simp: open_rows_set)
    show "po_id (?g p x) = po_id x" for p x
      using bare_fields(1) [of "?g p x" x] by (simp split: option.splits)
  qed
  also have "\<dots> = map ?f (lw_positions w)"
  proof (rule map_cong [OF refl])
    fix x assume x: "x \<in> set (lw_positions w)"
    have "x \<in> set ?rs \<longleftrightarrow> (\<exists>a. (x, a) \<in> set (open_rows w))" by force
    also have "\<dots> \<longleftrightarrow> account_row w x \<noteq> None" using x by (simp add: open_rows_set)
    finally have "x \<in> set ?rs \<longleftrightarrow> account_row w x \<noteq> None" .
    then show "(if x \<in> set ?rs then ?g x x else x) = ?f x" by (auto simp: passed_row_def split: option.splits)
  qed
  finally show ?thesis by (simp add: fold_rows_waits [OF assms(2)])
qed

section \<open>Many passes\<close>

definition reconcile_passes :: "reconcile_env \<Rightarrow> exchange_map list \<Rightarrow> listener_world \<Rightarrow> listener_world" where
  "reconcile_passes R ms w = fold (\<lambda>m w. reconcile_rows R m (open_rows w) w) ms w"

text \<open>What each of the passes read of a row, the account being the strategy's.\<close>

definition reads_of :: "exchange_map list \<Rightarrow> listener_position \<Rightarrow> string option \<Rightarrow> rat option option list" where
  "reads_of ms p a = map (\<lambda>m. row_read m p a) ms"

lemma reads_of_simps [simp]:
  "reads_of [] p a = []" "reads_of (m # ms) p a = row_read m p a # reads_of ms p a"
  by (simp_all add: reads_of_def)

lemma row_streak_simps [simp]:
  "row_streak z [] c = c" "row_streak z (x # xs) c = row_streak z xs (next_streak (verdict_of z x) c)"
  by (simp_all add: row_streak_def)

lemma account_row_bare:
  assumes "same_but_counters w w'" "bare_row p = bare_row q"
  shows "account_row w' p = account_row w q"
proof -
  have "lw_strategies w' = lw_strategies w"
  proof -
    have "lw_strategies (w'\<lparr>lw_positions := []\<rparr>) = lw_strategies (w\<lparr>lw_positions := []\<rparr>)"
      using assms(1) by (simp only: same_but_counters_def)
    then show ?thesis by simp
  qed
  then show ?thesis using bare_fields [OF assms(2)]
    by (simp add: account_row_def live_strategy_def strategy_by_id_def)
qed

lemma same_but_counters_nth:
  assumes "same_but_counters w w'"
  shows "length (lw_positions w') = length (lw_positions w)"
    "i < length (lw_positions w) \<Longrightarrow> bare_row (lw_positions w' ! i) = bare_row (lw_positions w ! i)"
proof -
  have e: "map bare_row (lw_positions w') = map bare_row (lw_positions w)" using assms by (simp add: same_but_counters_def)
  then show l: "length (lw_positions w') = length (lw_positions w)" by (metis length_map)
  show "i < length (lw_positions w) \<Longrightarrow> bare_row (lw_positions w' ! i) = bare_row (lw_positions w ! i)"
    using e l by (metis nth_map)
qed

lemma same_but_counters_ids: "same_but_counters w w' \<Longrightarrow> map po_id (lw_positions w') = map po_id (lw_positions w)"
  by (intro nth_equalityI) (auto simp: same_but_counters_nth dest: bare_fields(1) [OF same_but_counters_nth(2)])

text \<open>
  No open row's streak of short reads reaches the threshold within the passes.
\<close>

definition no_streak :: "reconcile_env \<Rightarrow> exchange_map list \<Rightarrow> listener_world \<Rightarrow> bool" where
  "no_streak R ms w \<longleftrightarrow> list_all (\<lambda>(p, a). list_all (\<lambda>k.
     row_streak (po_size p) (take k (reads_of ms p a)) (po_miss_count p) < re_miss_threshold R) [0..<Suc (length ms)])
     (open_rows w)"

lemma no_streak_iff: "no_streak R ms w \<longleftrightarrow> (\<forall>(p, a)\<in>set (open_rows w). \<forall>k\<le>length ms.
    row_streak (po_size p) (take k (reads_of ms p a)) (po_miss_count p) < re_miss_threshold R)"
  by (simp add: no_streak_def list_all_iff atLeastLessThanSuc_atLeastAtMost Ball_def case_prod_beta del: upt_Suc)

lemma passes_count:
  assumes "distinct (map po_id (lw_positions w))" "no_streak R ms w"
  shows "same_but_counters w (reconcile_passes R ms w) \<and>
    (\<forall>i<length (lw_positions w). case account_row w (lw_positions w ! i) of
        None \<Rightarrow> lw_positions (reconcile_passes R ms w) ! i = lw_positions w ! i
      | Some a \<Rightarrow> po_miss_count (lw_positions (reconcile_passes R ms w) ! i) =
          row_streak (po_size (lw_positions w ! i)) (reads_of ms (lw_positions w ! i) a)
            (po_miss_count (lw_positions w ! i)))"
  using assms
proof (induction ms arbitrary: w)
  case Nil
  then show ?case by (auto simp: reconcile_passes_def split: option.splits)
next
  case (Cons m ms)
  let ?w1 = "reconcile_rows R m (open_rows w) w"
  have waits: "\<forall>(p, a)\<in>set (open_rows w). waits R p (row_read m p a)"
  proof (clarify)
    fix p a assume "(p, a) \<in> set (open_rows w)"
    then have "row_streak (po_size p) (take 1 (reads_of (m # ms) p a)) (po_miss_count p) < re_miss_threshold R"
      using Cons.prems(2) unfolding no_streak_iff by fastforce
    then show "waits R p (row_read m p a)" by (simp add: waits_def)
  qed
  have w1: "?w1 = w\<lparr>lw_positions := map (passed_row R m w) (lw_positions w)\<rparr>"
    by (rule pass_waits [OF Cons.prems(1) waits])
  have sb: "same_but_counters w ?w1" by (simp add: same_but_counters_def w1 comp_def)
  have acc: "account_row ?w1 (passed_row R m w p) = account_row w p" for p
    by (rule account_row_bare [OF sb]) simp
  have miss: "po_miss_count (passed_row R m w p) =
      next_streak (verdict_of (po_size p) (row_read m p a)) (po_miss_count p)" if "account_row w p = Some a" for p a
    using that counted_miss [of p] by (simp add: passed_row_def) (simp add: account_row_def split: if_splits)
  have fields: "po_size (passed_row R m w p) = po_size p" "position_key (passed_row R m w p) = position_key p" for p
    using bare_fields [OF passed_bare [of R m w p]] by (simp_all add: position_key_def)
  then have reads: "reads_of ms (passed_row R m w p) a = reads_of ms p a" for p a
    by (simp add: reads_of_def row_read_def)
  have "no_streak R ms ?w1"
    unfolding no_streak_iff
  proof (intro ballI, clarify)
    fix q a k assume q: "(q, a) \<in> set (open_rows ?w1)" and k: "k \<le> length ms"
    then obtain p where p: "p \<in> set (lw_positions w)" "q = passed_row R m w p"
      by (auto simp: open_rows_set w1)
    have a: "account_row w p = Some a" using q acc p(2) by (simp add: open_rows_set)
    then have "(p, a) \<in> set (open_rows w)" using p(1) by (simp add: open_rows_set)
    then have "row_streak (po_size p) (take (Suc k) (reads_of (m # ms) p a)) (po_miss_count p) < re_miss_threshold R"
      using Cons.prems(2) k unfolding no_streak_iff by fastforce
    then show "row_streak (po_size q) (take k (reads_of ms q a)) (po_miss_count q) < re_miss_threshold R"
      using fields reads miss [OF a] by (simp add: p(2))
  qed
  moreover have "distinct (map po_id (lw_positions ?w1))"
    using Cons.prems(1) same_but_counters_ids [OF sb] by simp
  ultimately have IH: "same_but_counters ?w1 (reconcile_passes R ms ?w1) \<and>
    (\<forall>i<length (lw_positions ?w1). case account_row ?w1 (lw_positions ?w1 ! i) of
        None \<Rightarrow> lw_positions (reconcile_passes R ms ?w1) ! i = lw_positions ?w1 ! i
      | Some a \<Rightarrow> po_miss_count (lw_positions (reconcile_passes R ms ?w1) ! i) =
          row_streak (po_size (lw_positions ?w1 ! i)) (reads_of ms (lw_positions ?w1 ! i) a)
            (po_miss_count (lw_positions ?w1 ! i)))"
    by (intro Cons.IH)
  have step: "reconcile_passes R (m # ms) w = reconcile_passes R ms ?w1" by (simp add: reconcile_passes_def)
  show ?case
  proof (intro conjI allI impI)
    show "same_but_counters w (reconcile_passes R (m # ms) w)" using IH sb same_but_counters_trans step by metis
    fix i assume i: "i < length (lw_positions w)"
    let ?p = "lw_positions w ! i"
    have len: "i < length (lw_positions ?w1)" and row: "lw_positions ?w1 ! i = passed_row R m w ?p"
      using i by (simp_all add: w1)
    show "case account_row w ?p of
        None \<Rightarrow> lw_positions (reconcile_passes R (m # ms) w) ! i = ?p
      | Some a \<Rightarrow> po_miss_count (lw_positions (reconcile_passes R (m # ms) w) ! i) =
          row_streak (po_size ?p) (reads_of (m # ms) ?p a) (po_miss_count ?p)"
    proof (cases "account_row w ?p")
      case None
      then have "passed_row R m w ?p = ?p" by (simp add: passed_row_def)
      then show ?thesis using IH len row acc [of ?p] None unfolding step by fastforce
    next
      case (Some a)
      then have "po_miss_count (lw_positions (reconcile_passes R ms ?w1) ! i) =
          row_streak (po_size ?p) (reads_of ms ?p a) (po_miss_count (passed_row R m w ?p))"
        using IH len row acc [of ?p] fields reads by fastforce
      then show ?thesis using Some miss [OF Some] unfolding step by simp
    qed
  qed
qed

end
