(* ===== verification/ReconcileBooks.thy ===== *)
theory ReconcileBooks
  imports CloseProperties Reconciler
begin

text \<open>
  A pass of the reconciler keeps the books: the ledger of each strategy, the numbering of the
  rows, and that no order with a result closes a leg that is still open. The pieces first,
  then the pass, then any number of passes.
\<close>

section \<open>Links between orders and positions\<close>

definition links_ok :: "string \<Rightarrow> listener_world \<Rightarrow> bool" where
  "links_ok sid w \<longleftrightarrow>
     map po_id (lw_positions w) = [0..<length (lw_positions w)] \<and>
     map od_id (lw_orders w) = [0..<length (lw_orders w)] \<and>
     list_all (\<lambda>r. case od_closes_position r of None \<Rightarrow> True | Some pid \<Rightarrow> pid < length (lw_positions w)) (lw_orders w) \<and>
     list_all (\<lambda>p. po_open p \<and> po_strategy p = sid \<longrightarrow> closing_orders (po_id p) w = []) (lw_positions w)"

named_theorems links_intros "what keeps the links"

lemma closing_empty: "closing_orders pid w = [] \<longleftrightarrow>
    (\<forall>r\<in>set (lw_orders w). od_closes_position r = Some pid \<longrightarrow> od_pnl r = None)"
  by (auto simp: closing_orders_def filter_empty_conv)

lemma linksI:
  assumes "map po_id (lw_positions w) = [0..<length (lw_positions w)]"
    "map od_id (lw_orders w) = [0..<length (lw_orders w)]"
    "\<And>r pid. r \<in> set (lw_orders w) \<Longrightarrow> od_closes_position r = Some pid \<Longrightarrow> pid < length (lw_positions w)"
    "\<And>p r. p \<in> set (lw_positions w) \<Longrightarrow> po_open p \<Longrightarrow> po_strategy p = sid \<Longrightarrow> r \<in> set (lw_orders w) \<Longrightarrow>
       od_closes_position r = Some (po_id p) \<Longrightarrow> od_pnl r = None"
  shows "links_ok sid w"
  unfolding links_ok_def list_all_iff closing_empty using assms by (auto split: option.splits)

lemma linksD:
  assumes "links_ok sid w"
  shows "map po_id (lw_positions w) = [0..<length (lw_positions w)]"
    "map od_id (lw_orders w) = [0..<length (lw_orders w)]"
    "r \<in> set (lw_orders w) \<Longrightarrow> od_closes_position r = Some pid \<Longrightarrow> pid < length (lw_positions w)"
    "p \<in> set (lw_positions w) \<Longrightarrow> po_open p \<Longrightarrow> po_strategy p = sid \<Longrightarrow> r \<in> set (lw_orders w) \<Longrightarrow>
       od_closes_position r = Some (po_id p) \<Longrightarrow> od_pnl r = None"
  using assms unfolding links_ok_def list_all_iff closing_empty by (auto split: option.splits)

lemma links_cong:
  "lw_positions w' = lw_positions w \<Longrightarrow> lw_orders w' = lw_orders w \<Longrightarrow> links_ok sid w' = links_ok sid w"
  unfolding links_ok_def closing_orders_def by (simp only:)

lemma update_where_member:
  assumes "y \<in> set (update_where q f xs)"
  obtains x where "x \<in> set xs" "y = (if q x then f x else x)"
  using assms by (auto simp: update_where_def)

text \<open>Rewriting orders without touching what they close, and without giving them a result.\<close>

lemma links_set_order [links_intros]:
  assumes w: "links_ok sid w" and f: "\<And>r. od_id (f r) = od_id r" "\<And>r. od_closes_position (f r) = od_closes_position r"
    "\<And>r. od_pnl r = None \<Longrightarrow> od_pnl (f r) = None"
  shows "links_ok sid (set_order oid f w)"
proof -
  have o': "lw_orders (set_order oid f w) = update_where (\<lambda>r. od_id r = oid) f (lw_orders w)"
    and p': "lw_positions (set_order oid f w) = lw_positions w" by (simp_all add: set_order_def)
  have old: "\<exists>x\<in>set (lw_orders w). od_closes_position r = od_closes_position x \<and> (od_pnl x = None \<longrightarrow> od_pnl r = None)"
    if "r \<in> set (update_where (\<lambda>r. od_id r = oid) f (lw_orders w))" for r
    using that f by (fastforce elim!: update_where_member)
  show ?thesis
    by (rule linksI; unfold o' p')
       (use linksD [OF w] old in \<open>fastforce simp: update_where_keys [of od_id, OF f(1)]\<close>)+
qed

lemma links_set_position [links_intros]:
  assumes w: "links_ok sid w" and h: "\<And>p. po_id (h p) = po_id p" "\<And>p. po_strategy (h p) = po_strategy p"
    "\<And>p. po_open (h p) \<Longrightarrow> po_open p"
  shows "links_ok sid (set_position pid h w)"
proof -
  have o': "lw_orders (set_position pid h w) = lw_orders w"
    and p': "lw_positions (set_position pid h w) = update_where (\<lambda>p. po_id p = pid) h (lw_positions w)"
    by (simp_all add: set_position_def)
  have old: "\<exists>x\<in>set (lw_positions w). po_id p = po_id x \<and> po_strategy p = po_strategy x \<and> (po_open p \<longrightarrow> po_open x)"
    if "p \<in> set (update_where (\<lambda>p. po_id p = pid) h (lw_positions w))" for p
    using that h by (fastforce elim!: update_where_member)
  show ?thesis
  proof (rule linksI; unfold o' p')
    fix p r assume "p \<in> set (update_where (\<lambda>p. po_id p = pid) h (lw_positions w))" "po_open p" "po_strategy p = sid"
      "r \<in> set (lw_orders w)" "od_closes_position r = Some (po_id p)"
    then show "od_pnl r = None" using old linksD(4) [OF w] by metis
  qed (use linksD [OF w] in \<open>auto simp: update_where_keys [of po_id, OF h(1)]\<close>)
qed

lemma links_add_order:
  assumes w: "links_ok sid w" and "od_id r = length (lw_orders w)"
    and c: "\<And>pid. od_closes_position r = Some pid \<Longrightarrow> pid < length (lw_positions w) \<and>
      (\<forall>p\<in>set (lw_positions w). po_id p = pid \<longrightarrow> \<not> po_open p)"
  shows "links_ok sid (add_order r w)"
proof -
  have o': "lw_orders (add_order r w) = lw_orders w @ [r]"
    and p': "lw_positions (add_order r w) = lw_positions w" by (simp_all add: add_order_def)
  show ?thesis
    by (rule linksI; unfold o' p') (use linksD [OF w] c assms(2) in auto)
qed

lemma links_send [links_intros]: "links_ok sid (send r w) = links_ok sid w"
  by (rule links_cong) (simp_all add: send_def)

lemma links_set_strategy [links_intros]: "links_ok sid (set_strategy s f w) = links_ok sid w"
  by (rule links_cong) (simp_all add: set_strategy_def)

lemma links_id_less: "links_ok sid w \<Longrightarrow> p \<in> set (lw_positions w) \<Longrightarrow> po_id p < length (lw_positions w)"
proof -
  assume "links_ok sid w" "p \<in> set (lw_positions w)"
  then have "po_id p \<in> set [0..<length (lw_positions w)]" by (metis links_ok_def image_eqI set_map)
  then show ?thesis by simp
qed

lemma links_order_less: "links_ok sid w \<Longrightarrow> r \<in> set (lw_orders w) \<Longrightarrow> od_id r < length (lw_orders w)"
proof -
  assume "links_ok sid w" "r \<in> set (lw_orders w)"
  then have "od_id r \<in> set [0..<length (lw_orders w)]" by (metis links_ok_def image_eqI set_map)
  then show ?thesis by simp
qed

lemma links_distinct: "links_ok sid w \<Longrightarrow> distinct (map po_id (lw_positions w))"
  by (simp add: links_ok_def)

lemma links_flag [links_intros]: "links_ok sid w \<Longrightarrow> links_ok sid (flag_sl_unconfirmed oid d w)"
  unfolding flag_sl_unconfirmed_def by (rule links_set_order) simp_all

lemma links_disable [links_intros]: "links_ok sid (disable_strategy s r w) = links_ok sid w"
  by (simp add: disable_strategy_def links_set_strategy)

section \<open>Closing\<close>

text \<open>A close of the whole leg, or one that only the books know and that has no result yet.\<close>

definition safe_call :: "close_call \<Rightarrow> bool" where
  "safe_call c \<longleftrightarrow> cc_size c = None \<or> cc_skip_exchange c \<and> cc_realized_pnl c = None \<and> cc_closing_order c = None"

definition keeps_links :: "string \<Rightarrow> flattener \<Rightarrow> bool" where
  "keeps_links sid f \<longleftrightarrow> (\<forall>sid' a w. links_ok sid w \<longrightarrow> links_ok sid (f sid' a w))"

lemma links_book:
  assumes "keeps_links sid f" "links_ok sid w"
  shows "links_ok sid (book_realized_pnl f E sid' x w)"
  using assms by (auto simp: book_realized_pnl_def disable_if_drawdown_breached_def keeps_links_def links_intros
      split: option.splits)

lemma links_modify:
  "call_executor_modify_stops E a b side tp sl w = (r, w1) \<Longrightarrow> links_ok sid w1 = links_ok sid w"
  by (auto simp: call_executor_modify_stops_def links_intros)

lemma links_resize [links_intros]:
  "links_ok sid w \<Longrightarrow> links_ok sid (resize_stops_after_partial_close E a symbol side tp sl failed opening w)"
  by (auto simp: resize_stops_after_partial_close_def Let_def call_executor_modify_stops_def links_intros
      split: option.splits prod.splits)

lemma links_write:
  assumes "links_ok sid w" "se_position s \<in> set (lw_positions w)"
    and "se_full s \<or> (\<forall>r\<in>set (lw_orders w). closing = Some (od_id r) \<longrightarrow> od_pnl r = None)"
  shows "links_ok sid (write_close E c s net closing w)"
proof -
  let ?pid = "po_id (se_position s)"
  define h where "h = (\<lambda>p. if po_open p then (if se_full s then close_row (le_now E) c s net closing else reduce_row s) p else p)"
  define v where "v = set_position ?pid h w"
  have h: "po_id (h p) = po_id p" "po_strategy (h p) = po_strategy p" "po_open (h p) \<longleftrightarrow> po_open p \<and> \<not> se_full s" for p
    by (simp_all add: h_def close_row_simps)
  have w: "links_ok sid v" unfolding v_def by (rule links_set_position [OF assms(1)]) (use h in auto)
  have orders: "lw_orders v = lw_orders w" by (simp add: v_def set_position_def)
  have len: "?pid < length (lw_positions v)"
    using links_id_less [OF assms(1,2)] by (simp add: v_def set_position_def)
  have row: "\<not> po_open p" if "p \<in> set (lw_positions v)" "po_id p = ?pid" "se_full s" for p
  proof -
    have "p \<in> set (update_where (\<lambda>p. po_id p = ?pid) h (lw_positions w))" using that(1) by (simp add: v_def set_position_def)
    then obtain q where q: "p = (if po_id q = ?pid then h q else q)" by (rule update_where_member)
    show ?thesis using that(2,3) h(1,3) [of q] unfolding q by (cases "po_id q = ?pid") (simp_all only: if_True if_False simp_thms)
  qed
  have "links_ok sid (link_close closing ?pid v)"
  proof (cases closing)
    case (Some oid)
    let ?g = "\<lambda>r. r\<lparr>od_closes_position := Some ?pid\<rparr>"
    have o': "lw_orders (set_order oid ?g v) = update_where (\<lambda>r. od_id r = oid) ?g (lw_orders v)"
      and p': "lw_positions (set_order oid ?g v) = lw_positions v" by (simp_all add: set_order_def)
    have "links_ok sid (set_order oid ?g v)"
    proof (rule linksI; unfold o' p')
      show "map od_id (update_where (\<lambda>r. od_id r = oid) ?g (lw_orders v)) =
          [0..<length (update_where (\<lambda>r. od_id r = oid) ?g (lw_orders v))]"
        using linksD(2) [OF w] by (simp add: update_where_keys [of od_id])
      show "pid < length (lw_positions v)"
        if "r \<in> set (update_where (\<lambda>r. od_id r = oid) ?g (lw_orders v))" "od_closes_position r = Some pid" for r pid
        using that linksD(3) [OF w] len by (auto elim!: update_where_member split: if_splits)
    next
      fix p r assume p: "p \<in> set (lw_positions v)" "po_open p" "po_strategy p = sid"
        and r: "r \<in> set (update_where (\<lambda>r. od_id r = oid) ?g (lw_orders v))" "od_closes_position r = Some (po_id p)"
      obtain q where q: "q \<in> set (lw_orders w)" "r = (if od_id q = oid then ?g q else q)"
        using r(1) orders by (auto elim: update_where_member)
      show "od_pnl r = None"
      proof (cases "od_id q = oid")
        case True
        then have "\<not> se_full s" using row [OF p(1)] p(2) r(2) q(2) by auto
        then show ?thesis using assms(3) q True Some by auto
      next
        case False
        then show ?thesis using linksD(4) [OF w p(1-3)] q r(2) orders by auto
      qed
    qed (use linksD(1) [OF w] in simp)
    then show ?thesis by (simp add: link_close_def Some)
  qed (use w in \<open>simp add: link_close_def\<close>)
  then show ?thesis by (simp add: write_close_def Let_def v_def h_def)
qed

lemma synthetic_simps [simp]:
  "od_id (synthetic_close oid sid acct c s) = oid" "od_pnl (synthetic_close oid sid acct c s) = se_realized_pnl s"
  "od_closes_position (synthetic_close oid sid acct c s) = None"
  by (simp_all add: synthetic_close_def)

lemma ensure_cases:
  assumes "ensure_close_order E sid acct c s w = (closing, w1)"
  obtains "w1 = w" "closing = cc_closing_order c"
  | "cc_closing_order c = None" "closing = Some (length (lw_orders w))"
    "w1 = add_order (synthetic_close (length (lw_orders w)) sid acct c s) w"
proof (cases "cc_closing_order c")
  case None
  note d = assms [unfolded ensure_close_order_def Let_def None option.case]
  show ?thesis
  proof (cases "le_db_fails E Close_order_insert")
    case True
    then show ?thesis using d None by (intro that(1)) simp_all
  next
    case False
    then show ?thesis using d None by (intro that(2)) simp_all
  qed
next
  case (Some oid)
  then show ?thesis using assms by (intro that(1)) (simp_all add: ensure_close_order_def)
qed

lemma links_ensure:
  assumes "links_ok sid w" "ensure_close_order E sid' acct c s w = (closing, w1)"
  shows "links_ok sid w1"
  using assms(2)
proof (cases rule: ensure_cases)
  case 2
  show ?thesis unfolding 2(3) by (rule links_add_order [OF assms(1)]) simp_all
qed (use assms(1) in simp)

lemma ensure_no_result:
  assumes "links_ok sid w" "ensure_close_order E sid' acct c s w = (closing, w1)"
    and "cc_closing_order c = None" "se_realized_pnl s = None" "r \<in> set (lw_orders w1)" "closing = Some (od_id r)"
  shows "od_pnl r = None"
  using assms(2)
proof (cases rule: ensure_cases)
  case 2
  have "r \<notin> set (lw_orders w)" using links_order_less [OF assms(1), of r] assms(6) 2(2) by auto
  then have "r = synthetic_close (length (lw_orders w)) sid' acct c s"
    using assms(5) unfolding 2(3) by (simp add: add_order_def)
  then show ?thesis by (simp only: synthetic_simps assms(4))
qed (use assms(3,6) in simp)

lemma links_finish:
  assumes "keeps_links sid f" "links_ok sid w" "se_position s \<in> set (lw_positions w)"
    and "se_full s \<or> cc_closing_order c = None \<and> se_realized_pnl s = None"
  shows "links_ok sid (snd (finish_close f E sid' acct c s w))"
proof -
  obtain closing w1 where e: "ensure_close_order E sid' acct c s w = (closing, w1)" by fastforce
  have w1: "links_ok sid w1" by (rule links_ensure [OF assms(2) e])
  have "links_ok sid (write_close E c s (net_realized_pnl s) closing w1)"
  proof (rule links_write [OF w1])
    show "se_position s \<in> set (lw_positions w1)" using assms(3) ensure_frame(1) [OF e] by simp
    show "se_full s \<or> (\<forall>r\<in>set (lw_orders w1). closing = Some (od_id r) \<longrightarrow> od_pnl r = None)"
      using assms(4) ensure_no_result [OF assms(2) e] by blast
  qed
  then show ?thesis using links_book [OF assms(1)] w1 by (simp add: finish_close_def e Let_def links_intros)
qed

lemma begin_safe:
  assumes "begin_close E sid acct c w = (Inr s, w1)" "safe_call c"
  shows "se_full s \<or> cc_closing_order c = None \<and> se_realized_pnl s = None"
  using assms by (auto simp: begin_close_def safe_call_def effective_close_size_def Let_def
      split: option.splits if_splits prod.splits)

lemma links_close_with:
  assumes "keeps_links sid f" "links_ok sid w" "safe_call c"
  shows "links_ok sid (snd (close_with f E sid' acct c w))"
proof -
  obtain x w1 where b: "begin_close E sid' acct c w = (x, w1)" by fastforce
  have w1: "links_ok sid w1" using assms(2) links_cong [OF begin_frame(1,3) [OF b]] by simp
  show ?thesis
  proof (cases x)
    case (Inr s)
    note b' = b [unfolded Inr]
    have "se_position s \<in> set (lw_positions w1)"
      using open_leg_member(1) [OF begin_settled(1) [OF b']] begin_frame(1) [OF b'] by simp
    from links_finish [OF assms(1) w1 this begin_safe [OF b' assms(3)], of E sid' acct]
    show ?thesis by (simp add: close_with_def b')
  qed (use w1 in \<open>simp add: close_with_def b\<close>)
qed

lemma flatten_call_safe: "safe_call (flatten_call p)"
  by (simp add: safe_call_def flatten_call_def)

lemma flattener_keeps_links: "keeps_links sid (flattener_of E n)"
proof (induction n)
  case (Suc n)
  have "links_ok sid (flattener_of E (Suc n) sid' a w)" if "links_ok sid w" for sid' a w
    unfolding flattener_of_Suc
    by (rule close_each_snd_induct [where P = "links_ok sid"])
       (use that Suc links_close_with flatten_call_safe in auto)
  then show ?case by (simp add: keeps_links_def)
qed (simp add: keeps_links_def flattener_of_def)

section \<open>The books\<close>

text \<open>The ledger and the links together.\<close>

definition tidy_books :: "string \<Rightarrow> rat \<Rightarrow> listener_world \<Rightarrow> bool" where
  "tidy_books sid k w \<longleftrightarrow> strategy_ledger sid k w \<and> links_ok sid w"

lemma tidy_close:
  assumes "\<not> le_db_fails E Book_pnl" "tidy_books sid k w" "safe_call c"
  shows "tidy_books sid k (snd (close_strategy_position E sid' acct c w))"
  using ledger_close [OF _ assms(1)] links_close_with [OF flattener_keeps_links _ assms(3)] assms(2)
  by (simp add: tidy_books_def close_strategy_position_def)

lemma tidy_book:
  assumes "\<not> le_db_fails E Book_pnl" "tidy_books sid k w"
  shows "tidy_books sid (k + (if sid' = sid then or_zero x else 0))
    (book_realized_pnl (flattener_of E n) E sid' x w)"
  using ledger_book [OF flattener_keeps_ledger [OF assms(1)] _ assms(1)]
    links_book [OF flattener_keeps_links] assms(2) by (simp add: tidy_books_def)

lemma ledger_set_position:
  assumes "strategy_ledger sid k w" "\<And>p. po_id (h p) = po_id p" "\<And>p. po_strategy (h p) = po_strategy p"
    "\<And>p. po_open (h p) = po_open p" "\<And>p. po_pnl_realized (h p) = po_pnl_realized p"
  shows "strategy_ledger sid k (set_position pid h w)"
proof -
  let ?g = "\<lambda>p. if po_id p = pid then h p else p"
  have g: "po_id (?g p) = po_id p" "po_strategy (?g p) = po_strategy p" "po_open (?g p) = po_open p"
    "po_pnl_realized (?g p) = po_pnl_realized p" for p
    by (simp_all add: assms(2-5) split: if_split)
  have "strategy_ledger sid (k - 0) (w\<lparr>lw_positions := map ?g (lw_positions w)\<rparr>)"
  proof (rule ledger_rewrite [OF assms(1) g(1,3,2)])
    show "\<forall>p\<in>set (lw_positions w). po_open p \<and> po_strategy p = sid \<longrightarrow> po_pnl_realized (?g p) = po_pnl_realized p"
      by (simp add: g)
    show "0 = (\<Sum>p\<leftarrow>lw_positions w. position_figure sid (?g p) - position_figure sid p)"
      unfolding position_figure_def by (simp only: g diff_self sum_list_0)
  qed
  then show ?thesis by (simp add: set_position_def update_where_def)
qed

lemma tidy_set_position:
  assumes "tidy_books sid k w" "\<And>p. po_id (h p) = po_id p" "\<And>p. po_strategy (h p) = po_strategy p"
    "\<And>p. po_open (h p) = po_open p" "\<And>p. po_pnl_realized (h p) = po_pnl_realized p"
  shows "tidy_books sid k (set_position pid h w)"
  using assms ledger_set_position [of sid k w h pid] links_set_position [of sid w h pid] by (simp add: tidy_books_def)

lemma tidy_set_order:
  assumes "tidy_books sid k w" "\<And>r. od_id (f r) = od_id r" "\<And>r. od_closes_position (f r) = od_closes_position r"
    "\<And>r. od_pnl r = None \<Longrightarrow> od_pnl (f r) = None"
  shows "tidy_books sid k (set_order oid f w)"
  using assms links_set_order [of sid w f oid] ledger_cong [OF frame_shapes(3,4)] by (simp add: tidy_books_def)

lemma tidy_add_order:
  assumes "tidy_books sid k w" "od_id r = length (lw_orders w)"
    and "\<And>pid. od_closes_position r = Some pid \<Longrightarrow> pid < length (lw_positions w) \<and>
      (\<forall>p\<in>set (lw_positions w). po_id p = pid \<longrightarrow> \<not> po_open p)"
  shows "tidy_books sid k (add_order r w)"
  using assms links_add_order [of sid w r] ledger_cong [of "add_order r w" w]
  by (simp add: tidy_books_def close_frame)

lemma tidy_send [simp]: "tidy_books sid k (send r w) = tidy_books sid k w"
  using ledger_cong [of "send r w" w] by (simp add: tidy_books_def links_send close_frame)

lemma tidy_modify: "call_executor_modify_stops E a b side tp sl w = (r, w1) \<Longrightarrow> tidy_books sid k w \<Longrightarrow> tidy_books sid k w1"
  by (auto simp: call_executor_modify_stops_def)

lemma tidy_flag: "tidy_books sid k w \<Longrightarrow> tidy_books sid k (flag_sl_unconfirmed oid d w)"
  unfolding flag_sl_unconfirmed_def by (rule tidy_set_order) simp_all

end
