(* ===== verification/ReconcileLedger.thy ===== *)
theory ReconcileLedger
  imports ReconcileBooks
begin

text \<open>
  A whole pass of the reconciler, and any number of passes, keep the books.
\<close>

section \<open>Resting orders\<close>

lemma tidy_new_position:
  assumes "tidy_books sid k w" "po_id p = length (lw_positions w)" "po_pnl_realized p = None"
  shows "tidy_books sid k (w\<lparr>lw_positions := lw_positions w @ [p]\<rparr>)"
proof -
  have l: "links_ok sid w" and s: "strategy_ledger sid k w" using assms(1) by (simp_all add: tidy_books_def)
  have fresh: "od_pnl r = None" if "r \<in> set (lw_orders w)" "od_closes_position r = Some (length (lw_positions w))" for r
    using linksD(3) [OF l that] by simp
  have new: "length (lw_positions w) \<notin> po_id ` set (lw_positions w)" using links_id_less [OF l] by force
  have "links_ok sid (w\<lparr>lw_positions := lw_positions w @ [p]\<rparr>)"
    by (rule linksI) (use linksD [OF l] assms(2) fresh in \<open>auto simp: less_Suc_eq\<close>)
  moreover have "strategy_ledger sid k (w\<lparr>lw_positions := lw_positions w @ [p]\<rparr>)"
    using s assms(2,3) new
    by (auto simp: strategy_ledger_def positions_total_def position_figure_def strategy_total_def strategy_by_id_def)
  ultimately show ?thesis by (simp add: tidy_books_def)
qed

lemma tidy_apply_fill:
  assumes "tidy_books sid k w"
  shows "tidy_books sid k (snd (apply_position_fill E s p symbol oid r lev mode w))"
proof -
  have "tidy_books sid k (set_position pid (top_up_row a b) w)" for pid a b
    by (rule tidy_set_position [OF assms]) (simp_all add: top_up_row_def)
  moreover have "tidy_books sid k (snd (create_strategy_position E p s oid r lev mode z w))" for z
    using assms by (auto simp: create_strategy_position_def new_position_def intro!: tidy_new_position)
  ultimately show ?thesis using assms by (simp add: apply_position_fill_def Let_def split: option.splits)
qed

lemma tidy_status:
  assumes "tidy_books sid k w" "or_realized_pnl res = None"
  shows "tidy_books sid k (update_order_status oid st (Some res) a w)"
  unfolding update_order_status_def by (rule tidy_set_order [OF assms(1)]) (simp_all add: status_row_def assms(2))

lemma tidy_unprotected: "tidy_books sid k w \<Longrightarrow> tidy_books sid k (flag_unprotected s symbol side d w)"
  by (simp add: flag_unprotected_def tidy_flag split: option.splits)

lemma tidy_protect:
  assumes "tidy_books sid k w"
  shows "tidy_books sid k (protect_fill R a r side price w)"
proof (cases "od_tp_price r = None \<and> od_sl_price r = None")
  case False
  obtain sl tp ch where rv: "revalidate_stops_for_fill (leg_side_name side) (od_price r) (Some price)
      (od_sl_price r) (od_tp_price r) False = (sl, tp, ch)" by (metis prod_cases3)
  define w1 where "w1 = (if ch \<noteq> no_changes \<and> \<not> re_db_fails R Pending_reanchor
      then set_order (od_id r) (stops_row sl tp (pending_reanchor_patch ch price)) w else w)"
  obtain res w2 where m: "call_executor_modify_stops (re_listener R) a (od_symbol r) side tp sl w1 = (res, w2)" by fastforce
  have "tidy_books sid k (set_order (od_id r) (stops_row sl tp patch) w)" for patch
    by (rule tidy_set_order [OF assms]) (simp_all add: stops_row_def)
  then have "tidy_books sid k w1" using assms by (simp add: w1_def)
  from tidy_modify [OF m this] have "tidy_books sid k w2" .
  moreover have "protect_fill R a r side price w =
      (if od_sl_price r \<noteq> None \<and> sr_sl_ok res \<noteq> Some True
       then flag_unprotected (od_strategy r) (od_symbol r) side (sr_error_msg res) w2 else w2)"
    using False unfolding protect_fill_def by (simp only: if_False rv Let_def prod.case flip: w1_def) (simp only: m prod.case)
  ultimately show ?thesis using tidy_unprotected by simp
qed (use assms in \<open>simp add: protect_fill_def\<close>)

lemma tidy_settle:
  assumes "tidy_books sid k w"
  shows "tidy_books sid k (snd (settle_fill R a r exch_oid payload price z w))"
proof -
  let ?res = "pending_fill exch_oid price z (get_order_fill_fee R a (od_symbol r) exch_oid w)"
  obtain x w1 where f: "apply_position_fill (re_listener R) (od_strategy r) payload (od_symbol r) (od_id r) ?res
      (order_leverage r) (order_margin_mode r) w = (x, w1)" by fastforce
  have w1: "tidy_books sid k w1"
    using tidy_apply_fill [OF assms, of "re_listener R" "od_strategy r" payload "od_symbol r" "od_id r" ?res
        "order_leverage r" "order_margin_mode r"] by (simp add: f)
  have "tidy_books sid k (update_order_status (od_id r) ''filled'' (Some ?res) a w1)"
    by (rule tidy_status [OF w1]) (simp add: pending_fill_def)
  then show ?thesis using w1 tidy_protect by (cases x) (simp_all add: settle_fill_def f Let_def)
qed

lemma tidy_pending_order:
  assumes "tidy_books sid k w"
  shows "tidy_books sid k (snd (reconcile_pending_order R a resting live r w))"
proof -
  have "tidy_books sid k (update_order_status (od_id r) st (Some (pending_cancel x)) a w)" for st x
    by (rule tidy_status [OF assms]) (simp add: pending_cancel_def)
  then show ?thesis using assms tidy_settle [OF assms]
    by (simp add: reconcile_pending_order_def Let_def split: sum.splits prod.splits)
qed

lemma tidy_order_list:
  "tidy_books sid k w \<Longrightarrow> tidy_books sid k (snd (reconcile_order_list R a resting live rs w))"
proof (induction rs arbitrary: w)
  case (Cons r rs)
  then show ?case using tidy_pending_order [OF Cons.prems, of R a resting live r]
    by (auto split: sum.splits prod.splits)
qed simp

lemma tidy_accounts: "tidy_books sid k w \<Longrightarrow> tidy_books sid k (snd (reconcile_accounts R groups w))"
proof (induction groups arbitrary: w)
  case (Cons g groups)
  obtain a rs where g: "g = (a, rs)" by fastforce
  have "tidy_books sid k (snd (reconcile_order_list R (account_path a) resting live rs w))" for resting live
    by (rule tidy_order_list [OF Cons.prems])
  then show ?case using Cons g by (auto split: sum.splits prod.splits option.splits) (metis snd_conv)+
qed simp

section \<open>Open rows\<close>

lemma tidy_excursions:
  assumes "tidy_books sid k w"
  shows "tidy_books sid k (sample_excursions R rows w)"
proof -
  have "tidy_books sid k (excursion_update now pid x v)" if "tidy_books sid k v" for now pid x v
    unfolding excursion_update_def
    by (rule tidy_set_position [OF that]) (simp_all add: excursion_row_def Let_def)
  then have "tidy_books sid k (fold (\<lambda>(pid, m) w. case m of
        Some x \<Rightarrow> if 0 < x then excursion_update (le_now (re_listener R)) pid x w else w | None \<Rightarrow> w) marks w)" for marks
    using assms by (induction marks arbitrary: w) (auto split: option.splits prod.splits)
  then show ?thesis using assms by (simp only: sample_excursions_def Let_def split: if_split) simp
qed

lemma tidy_record_tightening:
  "tidy_books sid k w \<Longrightarrow> tidy_books sid k (record_tightening opening prior landed liq w)"
  by (auto simp: record_tightening_def intro!: tidy_set_order split: option.splits)

lemma tidy_guard_row:
  assumes "tidy_books sid k w"
  shows "tidy_books sid k (guard_row R a live row w)"
proof -
  have backfill: "tidy_books sid k (backfill_liquidation liq pid w)" for liq pid
    unfolding backfill_liquidation_def by (rule tidy_set_position [OF assms]) simp_all
  have place: "tidy_books sid k v1" if "place_and_verify R a symbol side sl tp v = (x, v1)" "tidy_books sid k v"
    for symbol side sl tp v x v1
    using that by (auto simp: place_and_verify_def intro: tidy_modify split: prod.splits)
  have tighten: "tidy_books sid k (tighten_row R a row pos liq ts v)" if "tidy_books sid k v" for pos liq ts v
    using that by (auto simp: tighten_row_def Let_def intro: tidy_record_tightening place split: option.splits prod.splits)
  show ?thesis using assms backfill tighten by (simp add: guard_row_def Let_def split: option.splits prod.splits)
qed

lemma tidy_guard: "tidy_books sid k w \<Longrightarrow> tidy_books sid k (guard_liquidation_safety R a rows live w)"
  unfolding guard_liquidation_safety_def by (rule fold_invariant [where Q = "\<lambda>_. True"]) (auto intro: tidy_guard_row)

lemma tidy_read_accounts: "tidy_books sid k w \<Longrightarrow> tidy_books sid k (snd (read_accounts R groups w))"
proof (induction groups arbitrary: w)
  case (Cons g groups)
  obtain a rs where g: "g = (a, rs)" by fastforce
  have "tidy_books sid k (snd (read_accounts R groups (guard_liquidation_safety R (account_path a) rs live w)))" for live
    by (rule Cons.IH [OF tidy_guard [OF Cons.prems]])
  then show ?case using Cons by (simp add: g split: option.splits prod.splits) (metis snd_conv)
qed simp

lemma tidy_external_close:
  assumes "\<not> le_db_fails (re_listener R) Book_pnl" "tidy_books sid k w"
  shows "tidy_books sid k (snd (handle_full_external_close R row acct w))"
proof -
  have add: "tidy_books sid k (add_order (external_order (length (lw_orders w)) s a symbol side sig z price pnl fee) w)"
    for s a symbol side sig z price pnl fee
    by (rule tidy_add_order [OF assms(2)]) (simp_all add: external_order_def)
  have safe: "safe_call (external_close_call symbol side closing reason price pnl fee)"
    for symbol side closing reason price pnl fee by (simp add: safe_call_def external_close_call_def)
  show ?thesis
    unfolding handle_full_external_close_def Let_def
    by (auto simp del: One_nat_def split: prod.splits intro!: tidy_close [OF assms(1) _ safe] add assms(2))
qed

lemma tidy_reconcile_row:
  assumes "\<not> le_db_fails (re_listener R) Book_pnl" "tidy_books sid k w"
  shows "tidy_books sid k (reconcile_row R row acct read w)"
proof -
  have matched: "tidy_books sid k (set_position pid matched_row w)" for pid
    by (rule tidy_set_position [OF assms(2)]) (simp_all add: matched_row_def)
  have diverged: "tidy_books sid k (set_position pid (divergent_row t ex) w)" for pid t ex
    by (rule tidy_set_position [OF assms(2)]) (simp_all add: divergent_row_def)
  have missed: "tidy_books sid k (set_position pid (missed_row n) w)" for pid n
    by (rule tidy_set_position [OF assms(2)]) (simp_all add: missed_row_def)
  have reset: "tidy_books sid k (set_position pid (\<lambda>p. p\<lparr>po_miss_count := 0\<rparr>) v)" if "tidy_books sid k v" for pid v
    by (rule tidy_set_position [OF that]) simp_all
  have safe: "safe_call (external_reduction row d)" for d by (simp add: safe_call_def external_reduction_def)
  have act: "tidy_books sid k (act_on_row R row acct d absent v)" if v: "tidy_books sid k v" for d absent v
  proof (cases absent)
    case False
    obtain res v1 where c: "close_strategy_position (re_listener R) (po_strategy row) (text_or_nil acct)
        (external_reduction row d) v = (res, v1)" by fastforce
    have "tidy_books sid k v1" using tidy_close [OF assms(1) v safe] by (metis c snd_conv)
    then show ?thesis using reset False by (simp add: act_on_row_def c)
  qed (use tidy_external_close [OF assms(1) v] in \<open>simp add: act_on_row_def\<close>)
  show ?thesis using matched diverged missed act assms(2)
    by (simp add: reconcile_row_def Let_def split: read_verdict.splits)
qed

lemma tidy_reconcile_rows:
  assumes "\<not> le_db_fails (re_listener R) Book_pnl" "tidy_books sid k w"
  shows "tidy_books sid k (reconcile_rows R m rows w)"
  unfolding reconcile_rows_def
  by (rule fold_invariant [where Q = "\<lambda>_. True"]) (use assms tidy_reconcile_row in \<open>auto split: prod.splits\<close>)

section \<open>Results\<close>

lemma links_map_positions:
  assumes "links_ok sid w" "\<And>p. po_id (g p) = po_id p" "\<And>p. po_strategy (g p) = po_strategy p"
    "\<And>p. po_open (g p) = po_open p"
  shows "links_ok sid (w\<lparr>lw_positions := map g (lw_positions w)\<rparr>)"
  by (rule linksI) (use linksD [OF assms(1)] assms(2-4) in \<open>auto simp: comp_def\<close>)

lemma links_book_each: "links_ok sid w \<Longrightarrow> links_ok sid (book_each E bookings w)"
  unfolding book_each_def
  by (rule fold_invariant [where Q = "\<lambda>_. True"])
     (auto intro: links_book [OF flattener_keeps_links] split: prod.splits)

lemma tidy_sync:
  assumes "\<not> le_db_fails E Book_pnl" "tidy_books sid k w"
  shows "tidy_books sid k (sync_position_pnl E w)"
proof -
  have l: "links_ok sid w" using assms(2) by (simp add: tidy_books_def)
  have "closing_orders (po_id p) w = []" if "p \<in> set (lw_positions w)" "po_open p" "po_strategy p = sid" for p
    using l that by (auto simp: links_ok_def list_all_iff)
  then have "strategy_ledger sid k (sync_position_pnl E w)"
    using ledger_sync [OF assms(1)] assms(2) by (simp add: tidy_books_def)
  moreover have "links_ok sid (sync_position_pnl E w)"
    unfolding sync_position_pnl_def Let_def
    by (intro links_book_each links_map_positions [OF links_map_positions [OF l]])
       (simp_all add: attribute_row_def correct_row_def)
  ultimately show ?thesis by (simp add: tidy_books_def)
qed

text \<open>Which strategy each row belongs to never changes.\<close>

definition row_owners :: "listener_position list \<Rightarrow> (nat \<times> string) list" where
  "row_owners ps = map (\<lambda>p. (po_id p, po_strategy p)) ps"

lemma owners_update: "(\<And>p. po_id (h p) = po_id p) \<Longrightarrow> (\<And>p. po_strategy (h p) = po_strategy p) \<Longrightarrow>
    row_owners (update_where q h ps) = row_owners ps"
  by (auto simp: row_owners_def update_where_def)

interpretation owners: row_invariant "\<lambda>ps. row_owners ps = K" for K
  by unfold_locales (simp add: kept_by_writes_def owners_update)

lemma owners_book: "row_owners (lw_positions (book_realized_pnl (flattener_of E n) E sid x w)) = row_owners (lw_positions w)"
  by (rule owners.book) simp

lemma owner_length: "row_owners ps = row_owners qs \<Longrightarrow> length ps = length qs"
  unfolding row_owners_def by (metis length_map)

lemma ledger_recover:
  assumes "strategy_ledger sid k w" "awaits_result pid w" "(pid, s) \<in> set (row_owners (lw_positions w))"
  shows "strategy_ledger sid (k - (if s = sid then net else 0)) (set_position pid (recover_row net) w)"
proof -
  have d: "distinct (map po_id (lw_positions w))" using assms(1) by (simp add: strategy_ledger_def)
  obtain p where p: "p \<in> set (lw_positions w)" "po_id p = pid" "\<not> po_open p" "po_pnl_realized p = None"
    using assms(2) by (auto simp: awaits_result_def list_ex_iff)
  have s: "po_strategy p = s"
    using assms(3) p(1,2) d by (auto simp: row_owners_def distinct_map dest: inj_onD)
  let ?f = "recover_row net"
  have f: "po_id (?f q) = po_id q" "po_strategy (?f q) = po_strategy q" "po_open (?f q) = po_open q"
    "po_open q \<Longrightarrow> po_pnl_realized (?f q) = po_pnl_realized q" for q by (simp_all add: recover_row_def)
  have rows: "lw_positions (set_position pid ?f w) = update_where (\<lambda>q. po_id q = po_id p) ?f (lw_positions w)"
    by (simp add: set_position_def p(2))
  have "positions_total sid (set_position pid ?f w) =
      positions_total sid w - position_figure sid p + position_figure sid (?f p)"
    unfolding positions_total_def rows by (rule sum_update_one [OF d p(1)])
  moreover have "position_figure sid p = 0" by (simp add: position_figure_def p(4))
  moreover have "position_figure sid (?f p) = (if s = sid then net else 0)"
    by (simp add: position_figure_def recover_row_def p s)
  moreover have "list_all (\<lambda>q. po_open q \<and> po_strategy q = sid \<longrightarrow> po_pnl_realized q = None) (lw_positions (set_position pid ?f w))"
    using assms(1) f unfolding rows list_all_iff
    by (auto simp: strategy_ledger_def list_all_iff elim!: update_where_member split: if_splits)
  moreover have "strategy_by_id sid (set_position pid ?f w) = strategy_by_id sid w"
    "strategy_total sid (set_position pid ?f w) = strategy_total sid w"
    by (simp_all add: strategy_by_id_def strategy_total_def set_position_def)
  moreover have "distinct (map po_id (lw_positions (set_position pid ?f w)))"
    unfolding rows by (simp add: update_where_keys [of po_id ?f, OF f(1)] d)
  ultimately show ?thesis using assms(1) by (simp add: strategy_ledger_def)
qed

lemma tidy_recover_one:
  assumes "\<not> le_db_fails (re_listener R) Book_pnl" "tidy_books sid k w"
    and "(po_id p, po_strategy p) \<in> set (row_owners (lw_positions w))"
  shows "tidy_books sid k (recover_one R (p, acct) w) \<and>
    row_owners (lw_positions (recover_one R (p, acct) w)) = row_owners (lw_positions w)"
proof -
  let ?E = "re_listener R"
  define h where "h = get_position_history R (account_path acct) (po_symbol p) (po_opened_at p) (po_side p) w"
  show ?thesis
  proof (cases "ch_pnl_realized h = None \<or> \<not> fresh_history h (po_opened_at p) \<or> re_db_fails R Recovered_write
      \<or> \<not> awaits_result (po_id p) w")
    case True
    then have "recover_one R (p, acct) w = w" by (auto simp: recover_one_def Let_def h_def split: option.splits)
    then show ?thesis using assms(2) by simp
  next
    case False
    then obtain pnl where pnl: "ch_pnl_realized h = Some pnl" and waiting: "awaits_result (po_id p) w" by auto
    define net where "net = recovered_net h pnl (opening_fee p w)"
    define w1 where "w1 = set_position (po_id p) (recover_row net) w"
    define w2 where "w2 = book_realized_pnl (flattener_of ?E (length (lw_positions w1))) ?E (po_strategy p) (Some net) w1"
    have res: "recover_one R (p, acct) w = add_recovered_order R p acct pnl (map_option abs (ch_fee h)) w2"
      using False pnl by (simp add: recover_one_def Let_def h_def [symmetric] net_def w1_def w2_def)
    have f: "po_id (recover_row net q) = po_id q" "po_strategy (recover_row net q) = po_strategy q"
      "po_open (recover_row net q) = po_open q" for q by (simp_all add: recover_row_def)
    have "links_ok sid w1" unfolding w1_def by (rule links_set_position) (use assms(2) f in \<open>auto simp: tidy_books_def\<close>)
    moreover have "strategy_ledger sid (k - (if po_strategy p = sid then net else 0)) w1"
      unfolding w1_def using ledger_recover waiting assms(2,3) by (simp add: tidy_books_def)
    ultimately have t1: "tidy_books sid (k - (if po_strategy p = sid then net else 0)) w1" by (simp add: tidy_books_def)
    have t2: "tidy_books sid k w2"
      using tidy_book [OF assms(1) t1, of "po_strategy p" "Some net"]
      by (cases "po_strategy p = sid") (simp_all add: w2_def)
    have o1: "row_owners (lw_positions w1) = row_owners (lw_positions w)"
      by (simp add: w1_def set_position_def owners_update f)
    have o2: "row_owners (lw_positions w2) = row_owners (lw_positions w)"
      using o1 by (simp add: w2_def owners_book)
    have gone: "\<not> list_ex (\<lambda>q. po_id q = po_id p \<and> po_open q) (lw_positions w1)"
    proof -
      obtain q where q: "q \<in> set (lw_positions w)" "po_id q = po_id p" "\<not> po_open q"
        using waiting by (auto simp: awaits_result_def list_ex_iff)
      have "\<not> po_open x" if "x \<in> set (lw_positions w)" "po_id x = po_id p" for x
      proof -
        have "distinct (map po_id (lw_positions w))" using assms(2) links_distinct unfolding tidy_books_def by blast
        then have "inj_on po_id (set (lw_positions w))" by (simp add: distinct_map)
        then have "x = q" by (rule inj_onD) (use that q(1,2) in simp_all)
        then show ?thesis using q(3) by simp
      qed
      then show ?thesis using f by (auto simp: w1_def set_position_def list_ex_iff elim!: update_where_member split: if_splits)
    qed
    have gone2: "\<not> list_ex (\<lambda>q. po_id q = po_id p \<and> po_open q) (lw_positions w2)"
      unfolding w2_def by (rule gone.book) (rule gone)
    have less: "po_id p < length (lw_positions w2)"
    proof -
      obtain q where "q \<in> set (lw_positions w)" "po_id q = po_id p" using assms(3) by (auto simp: row_owners_def)
      then have "po_id p < length (lw_positions w)"
        using links_id_less assms(2) by (metis tidy_books_def)
      then show ?thesis using owner_length [OF o2] by simp
    qed
    have "tidy_books sid k (add_order ((external_order (length (lw_orders w2)) s a symbol side sig z price pnl' fee)
        \<lparr>od_closes_position := Some (po_id p)\<rparr>) w2)" for s a symbol side sig z price pnl' fee
      by (rule tidy_add_order [OF t2]) (use gone2 less in \<open>auto simp: external_order_def list_ex_iff\<close>)
    then show ?thesis using t2 o2 unfolding res by (simp add: add_recovered_order_def close_frame)
  qed
qed

lemma tidy_recover:
  assumes "\<not> le_db_fails (re_listener R) Book_pnl" "tidy_books sid k w"
  shows "tidy_books sid k (recover_manual_close_pnl R w)"
proof -
  let ?K = "row_owners (lw_positions w)"
  let ?rows = "latest_first (recovery_rows (le_now (re_listener R)) w)"
  have rows: "(po_id (fst x), po_strategy (fst x)) \<in> set ?K" if "x \<in> set ?rows" for x
    using that by (auto simp: latest_first_def recovery_rows_def List.map_filter_def row_owners_def
        split: if_splits option.splits)
  have "tidy_books sid k (fold (recover_one R) ?rows w) \<and>
      row_owners (lw_positions (fold (recover_one R) ?rows w)) = ?K"
  proof (rule fold_invariant [where Q = "\<lambda>x. (po_id (fst x), po_strategy (fst x)) \<in> set ?K"])
    fix x :: "listener_position \<times> string option" and v assume x: "(po_id (fst x), po_strategy (fst x)) \<in> set ?K"
      and v: "tidy_books sid k v \<and> row_owners (lw_positions v) = ?K"
    then show "tidy_books sid k (recover_one R x v) \<and> row_owners (lw_positions (recover_one R x v)) = ?K"
      using tidy_recover_one [OF assms(1), of sid k v "fst x" "snd x"] by simp
  qed (use rows assms(2) in auto)
  then show ?thesis by (simp add: recover_manual_close_pnl_def)
qed

section \<open>The pass\<close>

lemma tidy_open_rows:
  assumes "\<not> le_db_fails (re_listener R) Book_pnl" "tidy_books sid k w"
  shows "tidy_books sid k (reconcile_open_rows R w)"
proof -
  have settle: "tidy_books sid k (settle_results R v)" if "tidy_books sid k v" for v
    using that assms(1) by (simp add: settle_results_def tidy_recover tidy_sync)
  obtain m w1 where r: "read_accounts R (group_by_account (open_rows w)) (sample_excursions R (open_rows w) w) = (m, w1)"
    by fastforce
  have "tidy_books sid k w1"
    using tidy_read_accounts [OF tidy_excursions [OF assms(2)]] by (metis r snd_conv)
  then show ?thesis using assms settle tidy_reconcile_rows by (simp add: reconcile_open_rows_def Let_def r)
qed

text \<open>
  C4. The books of a strategy are tidy when rows are numbered, no order with a result closes a
  leg that is still open, and the strategy's booked total is ahead of its positions' figures
  by a fixed amount. A pass of the reconciler keeps them tidy, with the same amount: whatever
  the exchange reports, whichever read fails, whether or not the pass gives up half-way, and
  whatever strategies a drawdown stops meanwhile, provided no booking fails. So does any
  number of passes.
\<close>

theorem reconcile_keeps_books:
  assumes "tidy_books sid k w" "\<forall>R\<in>set passes. \<not> le_db_fails (re_listener R) Book_pnl"
  shows "tidy_books sid k (reconciler_loop passes w)"
  unfolding reconciler_loop_def
proof (rule fold_invariant [where Q = "\<lambda>R. \<not> le_db_fails (re_listener R) Book_pnl"])
  fix R :: reconcile_env and v assume R: "\<not> le_db_fails (re_listener R) Book_pnl" and v: "tidy_books sid k v"
  obtain x w1 where p: "reconcile_pending_orders R v = (x, w1)" by fastforce
  have "tidy_books sid k w1"
    using tidy_accounts [OF v, of R "group_by_account (pending_rows v)"] p by (simp add: reconcile_pending_orders_def)
  then show "tidy_books sid k (snd (reconcile_once R v))"
    using tidy_open_rows [OF R] by (cases x) (simp_all add: reconcile_once_def p)
qed (use assms in auto)

end
