(* ===== verification/ReconcileProperties.thy ===== *)
theory ReconcileProperties
  imports ReconcileStreak ReconcileLedger
begin

text \<open>
  The properties of the reconciler: its safety rule, the fill of a resting order, where the
  liquidation guard puts a stop, and what a position that closed on the exchange ends with.
\<close>

section \<open>The safety rule\<close>

text \<open>
  C10. The reconciler reads the exchange over any number of passes. The miss column of every open
  row is the length of its current streak of short reads (unknown reads neither extend nor
  end it), and as long as no streak reaches the threshold nothing else has changed: no order,
  no request, no strategy, and of the rows only the columns the reconciler keeps for itself.
\<close>

theorem misses_are_streaks:
  assumes "distinct (map po_id (lw_positions w))" "no_streak R ms w"
  shows "same_but_counters w (reconcile_passes R ms w) \<and>
    (\<forall>i<length (lw_positions w). case account_row w (lw_positions w ! i) of
        None \<Rightarrow> lw_positions (reconcile_passes R ms w) ! i = lw_positions w ! i
      | Some a \<Rightarrow> po_miss_count (lw_positions (reconcile_passes R ms w) ! i) =
          row_streak (po_size (lw_positions w ! i)) (reads_of ms (lw_positions w ! i) a)
            (po_miss_count (lw_positions w ! i)))"
  by (rule passes_count [OF assms])

section \<open>A resting order that filled\<close>

lemma protect_positions: "lw_positions (protect_fill R a r side price w) = lw_positions w"
proof -
  have flag: "lw_positions (flag_unprotected s symbol side d v) = lw_positions v" for s symbol side d v
    by (simp add: flag_unprotected_def close_frame split: option.splits)
  obtain sl tp ch where rv: "revalidate_stops_for_fill (leg_side_name side) (od_price r) (Some price)
      (od_sl_price r) (od_tp_price r) False = (sl, tp, ch)" by (metis prod_cases3)
  define w1 where "w1 = (if ch \<noteq> no_changes \<and> \<not> re_db_fails R Pending_reanchor
      then set_order (od_id r) (stops_row sl tp (pending_reanchor_patch ch price)) w else w)"
  obtain res w2 where m: "call_executor_modify_stops (re_listener R) a (od_symbol r) side tp sl w1 = (res, w2)" by fastforce
  have "lw_positions w1 = lw_positions w" by (simp add: w1_def close_frame)
  moreover have "lw_positions w2 = lw_positions w1" using m by (auto simp: call_executor_modify_stops_def close_frame)
  moreover have "protect_fill R a r side price w = (if od_tp_price r = None \<and> od_sl_price r = None then w
      else if od_sl_price r \<noteq> None \<and> sr_sl_ok res \<noteq> Some True
       then flag_unprotected (od_strategy r) (od_symbol r) side (sr_error_msg res) w2 else w2)"
    unfolding protect_fill_def by (simp only: rv Let_def prod.case flip: w1_def) (simp only: m prod.case)
  ultimately show ?thesis by (simp add: flag)
qed

lemma blended_entry:
  fixes e s e0 s0 z :: rat
  assumes "z = s - s0" "z \<noteq> 0" "s \<noteq> 0"
  shows "(e0 * s0 + (e * s - e0 * s0) / z * z) / (s0 + z) = e"
  using assms by (simp add: field_simps)

definition leg_figures :: "listener_position option \<Rightarrow> rat \<times> rat" where
  "leg_figures q = (case q of None \<Rightarrow> (0, 0) | Some p \<Rightarrow> (po_size p, po_entry_price p))"

lemma find_append_None: "find P xs = None \<Longrightarrow> find P (xs @ ys) = find P ys"
  by (induction xs) (auto split: if_splits)

text \<open>The leg of a fill, after it was made or topped up.\<close>

lemma apply_fill_leg:
  assumes "\<not> le_db_fails E Fill_write" "or_actual_fill_size res = Some z" "z \<noteq> 0"
    and "or_actual_fill_price res = Some price" "price \<noteq> 0" "payload_symbol p = symbol"
    and "apply_position_fill E sid p symbol oid res lev mode w = (Inr u, w1)"
  defines "side \<equiv> side_leg (wp_side p)"
  shows "map_option (\<lambda>q. (po_size q, po_entry_price q)) (find_open_leg sid symbol side w1) =
    Some (case find_open_leg sid symbol side w of
        None \<Rightarrow> (z, price)
      | Some q \<Rightarrow> (po_size q + z, (po_entry_price q * po_size q + price * z) / (po_size q + z)))"
proof (cases "find_open_leg sid symbol side w")
  case None
  define new where "new = new_position (le_now E) (length (lw_positions w)) p sid oid res lev mode z"
  have w1: "w1 = w\<lparr>lw_positions := lw_positions w @ [new]\<rparr>"
    using assms None by (auto simp: apply_position_fill_def create_strategy_position_def num_or_def Let_def new_def)
  have "leg_matches sid symbol side new" "po_size new = z" "po_entry_price new = price"
    using assms by (simp_all add: new_def new_position_def leg_matches_def side_def fill_price_of_def num_or_def)
  then have "find_open_leg sid symbol side w1 = Some new"
    using None by (simp add: w1 find_open_leg_def find_append_None)
  then show ?thesis using None \<open>po_size new = z\<close> \<open>po_entry_price new = price\<close> by simp
next
  case (Some q)
  have w1: "w1 = set_position (po_id q) (top_up_row price z) w"
    using assms Some by (auto simp: apply_position_fill_def num_or_def Let_def fill_price_of_def split: if_splits)
  have "leg_matches sid symbol side (top_up_row price z x) = leg_matches sid symbol side x" for x
    by (simp add: leg_matches_def top_up_row_def)
  then have "find_open_leg sid symbol side w1 = Some (top_up_row price z q)"
    using Some find_update_where [of "leg_matches sid symbol side" "top_up_row price z" "\<lambda>x. po_id x = po_id q"]
    by (simp add: w1 set_position_def find_open_leg_def)
  then show ?thesis using Some by (simp add: top_up_row_def)
qed

text \<open>
  C19. A resting order is gone from the exchange's list, and the exchange holds more than is
  recorded, by no more than the order's size. The order's strategy then has an open leg with
  exactly the size and the average entry price the exchange reports, whether the leg was
  made by the fill or topped up. (The marginal price must not be zero, which the code would
  read as missing.)
\<close>

theorem fill_matches_exchange:
  assumes "text_or_nil (od_exchange_order_id r) \<noteq> []" "text_or_nil (od_exchange_order_id r) \<notin> set resting"
    and "synthetic_payload r = Inr payload"
    and "map_of live (od_symbol r, leg_side_name (side_leg (od_side r))) = Some pos"
    and "lp_size pos = Number exch_size" "lp_entry_price pos = Number exch_entry"
    and "leg_figures (find_open_leg (od_strategy r) (od_symbol r) (side_leg (od_side r)) w) = (old_size, old_entry)"
    and "size_tolerance (od_size r) < exch_size - old_size" "exch_size - old_size \<le> od_size r" "exch_size \<noteq> 0"
    and "exch_entry * exch_size \<noteq> old_entry * old_size"
    and "reconcile_pending_order R account resting live r w = (Inr u, w')" "\<not> le_db_fails (re_listener R) Fill_write"
  shows "map_option (\<lambda>q. (po_size q, po_entry_price q))
      (find_open_leg (od_strategy r) (od_symbol r) (side_leg (od_side r)) w') = Some (exch_size, exch_entry)"
proof -
  let ?leg = "find_open_leg (od_strategy r) (od_symbol r) (side_leg (od_side r))"
  let ?z = "exch_size - old_size" and ?oid = "text_or_nil (od_exchange_order_id r)"
  let ?price = "(exch_entry * exch_size - old_entry * old_size) / ?z"
  have z: "0 < ?z" using assms(8) by (simp add: size_tolerance_def SIZE_EPSILON_ABS_def max_def split: if_splits)
  have mp: "marginal_price exch_size exch_entry old_size old_entry ?z = ?price" using z by (simp add: marginal_price_def)
  define res where "res = pending_fill ?oid ?price ?z (get_order_fill_fee R account (od_symbol r) ?oid w)"
  obtain x w1 where f: "apply_position_fill (re_listener R) (od_strategy r) payload (od_symbol r) (od_id r) res
      (order_leverage r) (order_margin_mode r) w = (x, w1)" by fastforce
  have m: "min (od_size r) ?z = ?z" using assms(9) by (rule min_absorb2)
  have fig: "live_figures (Some pos) = Inr (exch_size, exch_entry)"
    by (simp add: live_figures_def decimal_figure_def assms(5,6))
  have old: "(case ?leg w of None \<Rightarrow> 0 | Some q \<Rightarrow> po_size q) = old_size"
    "(case ?leg w of None \<Rightarrow> 0 | Some q \<Rightarrow> po_entry_price q) = old_entry"
    using assms(7) by (auto simp: leg_figures_def split: option.splits)
  have "settle_fill R account r ?oid payload (marginal_price exch_size exch_entry old_size old_entry ?z) ?z w = (Inr u, w')"
    using assms(1,2,8,12) unfolding reconcile_pending_order_def Let_def assms(3,4) fig old
    by (simp add: m)
  then have s: "settle_fill R account r ?oid payload ?price ?z w = (Inr u, w')" by (simp only: mp)
  obtain y where x: "x = Inr y" and w': "lw_positions w' = lw_positions w1"
    using s f by (cases x) (auto simp: settle_fill_def Let_def protect_positions update_order_status_def close_frame
        simp flip: res_def)
  have sym: "payload_symbol payload = od_symbol r" and side: "wp_side payload = od_side r"
    using assms(3) split_once_joins [of "od_symbol r"]
    by (auto simp: synthetic_payload_def payload_symbol_def incoming_symbol_def split: if_splits option.splits prod.splits)
  have price: "?price \<noteq> 0" using z assms(11) by simp
  have "map_option (\<lambda>q. (po_size q, po_entry_price q)) (?leg w1) =
    Some (case ?leg w of None \<Rightarrow> (?z, ?price)
      | Some q \<Rightarrow> (po_size q + ?z, (po_entry_price q * po_size q + ?price * ?z) / (po_size q + ?z)))"
  proof (rule apply_fill_leg [where p = payload and res = res and E = "re_listener R", unfolded side])
    show "apply_position_fill (re_listener R) (od_strategy r) payload (od_symbol r) (od_id r) res
      (order_leverage r) (order_margin_mode r) w = (Inr y, w1)" using f x by simp
  qed (use assms(13) z price sym in \<open>simp_all add: res_def pending_fill_def\<close>)
  also have "\<dots> = Some (exch_size, exch_entry)"
  proof (cases "?leg w")
    case None
    then show ?thesis using assms(7,10) by (simp add: leg_figures_def)
  next
    case (Some q)
    then have "po_size q = old_size" "po_entry_price q = old_entry" using assms(7) by (simp_all add: leg_figures_def)
    then show ?thesis
      using blended_entry [OF refl, of exch_size old_size old_entry exch_entry] z assms(10) Some by simp
  qed
  finally show ?thesis by (simp add: find_open_leg_def w')
qed

section \<open>Where the guard puts a stop\<close>

definition strictly_inside :: "leg_side \<Rightarrow> rat \<Rightarrow> rat \<Rightarrow> rat \<Rightarrow> bool" where
  "strictly_inside side liq sl entry \<longleftrightarrow>
     (side = Long_leg \<and> liq < entry \<longrightarrow> liq < sl \<and> sl < entry) \<and>
     (side = Short_leg \<and> entry < liq \<longrightarrow> entry < sl \<and> sl < liq)"

lemma tighten_margin_bounds:
  assumes "0 < d" "0 < entry"
  shows "d / 10 \<le> tighten_margin entry d" "tighten_margin entry d \<le> d - d / 10"
  using assms by (auto simp: tighten_margin_def TIGHTEN_MARGIN_FRAC_def TIGHTEN_MIN_MARGIN_FRAC_def
      TIGHTEN_MAX_MARGIN_FRAC_def min_def max_def)

lemma tightened_inside:
  assumes "0 < entry" "liq \<noteq> entry" "1 / (2 * 10 ^ infer_price_decimals entry) < \<bar>liq - entry\<bar> / 10"
  shows "strictly_inside side liq (tightened_stop side liq entry) entry"
proof -
  define n where "n = infer_price_decimals entry"
  define d where "d = \<bar>liq - entry\<bar>"
  define m where "m = tighten_margin entry d"
  define half where "half = 1 / (2 * 10 ^ n :: rat)"
  have d: "0 < d" using assms(2) by (simp add: d_def)
  have half: "half < d / 10" using assms(3) by (simp only: half_def d_def n_def)
  note b = tighten_margin_bounds [OF d assms(1), folded m_def]
  have up: "py_round (liq + m) n \<le> liq + m + half" "liq + m - half \<le> py_round (liq + m) n"
    unfolding half_def by (rule py_round_le, rule py_round_ge)
  have down: "py_round (liq - m) n \<le> liq - m + half" "liq - m - half \<le> py_round (liq - m) n"
    unfolding half_def by (rule py_round_le, rule py_round_ge)
  show ?thesis
  proof (cases side)
    case Long_leg
    have "tightened_stop side liq entry = py_round (liq + m) n"
      by (simp add: tightened_stop_def Let_def Long_leg m_def d_def n_def)
    moreover have "d = entry - liq" if "liq < entry" using that by (simp add: d_def)
    ultimately show ?thesis using up b half by (auto simp: strictly_inside_def Long_leg)
  next
    case Short_leg
    have "tightened_stop side liq entry = py_round (liq - m) n"
      by (simp add: tightened_stop_def Let_def Short_leg m_def d_def n_def)
    moreover have "d = liq - entry" if "entry < liq" using that by (simp add: d_def)
    ultimately show ?thesis using down b half by (auto simp: strictly_inside_def Short_leg)
  qed
qed

lemma backfill_frame: "lw_sent (backfill_liquidation liq pid w) = lw_sent w"
  "is_guard_managed opening (backfill_liquidation liq pid w) = is_guard_managed opening w"
  by (simp_all add: backfill_liquidation_def set_position_def is_guard_managed_def order_by_id_def cong: option.case_cong)

lemma record_sent: "lw_sent (record_tightening opening prior landed liq w) = lw_sent w"
  by (simp add: record_tightening_def set_order_def split: option.splits)

lemma place_sent:
  "lw_sent (snd (place_and_verify R a symbol side sl tp w)) = lw_sent w @ [Modify_stops a symbol side tp (Some sl)]"
  by (simp add: place_and_verify_def call_executor_modify_stops_def send_def)

lemma tighten_sent:
  assumes "lw_sent (tighten_row R account row pos liq triggers w) \<noteq> lw_sent w"
  obtains entry where "positive_figure (lp_entry_price pos) = Some entry" "liq \<noteq> entry"
    "guard_acts (po_side row) (first_trigger Sl_trigger triggers) liq (is_guard_managed (po_opening_order row) w)"
    "lw_sent (tighten_row R account row pos liq triggers w) = lw_sent w @
      [Modify_stops account (po_symbol row) (po_side row) (first_trigger Tp_trigger triggers)
        (Some (tightened_stop (po_side row) liq entry))]"
proof (cases "positive_figure (lp_entry_price pos)")
  case None
  then show ?thesis using assms by (simp add: tighten_row_def Let_def split: if_splits)
next
  case (Some entry)
  let ?acts = "guard_acts (po_side row) (first_trigger Sl_trigger triggers) liq (is_guard_managed (po_opening_order row) w)"
  obtain x w1 where p: "place_and_verify R account (po_symbol row) (po_side row) (tightened_stop (po_side row) liq entry)
      (first_trigger Tp_trigger triggers) w = (x, w1)" by fastforce
  have acts: ?acts and ne: "liq \<noteq> entry" using assms by (auto simp: tighten_row_def Let_def Some split: if_splits)
  have "lw_sent (tighten_row R account row pos liq triggers w) = lw_sent w1"
    using acts ne by (simp add: tighten_row_def Let_def Some p record_sent split: option.splits)
  moreover have "lw_sent w1 = lw_sent w @ [Modify_stops account (po_symbol row) (po_side row)
      (first_trigger Tp_trigger triggers) (Some (tightened_stop (po_side row) liq entry))]"
    using place_sent [of R account "po_symbol row" "po_side row" "tightened_stop (po_side row) liq entry"
        "first_trigger Tp_trigger triggers" w] p by simp
  ultimately show ?thesis using that Some acts ne by simp
qed

text \<open>
  The liquidation guard sends at most one request for a row. It sends one only when the
  exchange reports a positive liquidation price and a positive entry that differ, and either
  the first resting stop lies at or beyond liquidation, or there is no resting stop and the
  opening order is marked as the guard's to protect. The request keeps the resting target,
  and unless the distance is too small for the price's decimals its stop lies strictly
  between the liquidation price and the entry.
\<close>

theorem guard_request:
  assumes "lw_sent (guard_row R account live row w) \<noteq> lw_sent w"
  shows "\<exists>z pos liq entry triggers sl tp.
    map_of live (position_key row) = Some (z, pos) \<and> positive_figure (lp_liquidation_price pos) = Some liq \<and>
    positive_figure (lp_entry_price pos) = Some entry \<and> liq \<noteq> entry \<and>
    get_trigger_orders (re_listener R) account (po_symbol row) (po_side row) w = Some triggers \<and>
    (case first_trigger Sl_trigger triggers of
       None \<Rightarrow> is_guard_managed (po_opening_order row) w
     | Some active \<Rightarrow> stop_is_unsafe (po_side row) active liq) \<and>
    tp = first_trigger Tp_trigger triggers \<and> sl = tightened_stop (po_side row) liq entry \<and>
    lw_sent (guard_row R account live row w) = lw_sent w @ [Modify_stops account (po_symbol row) (po_side row) tp (Some sl)] \<and>
    (1 / (2 * 10 ^ infer_price_decimals entry) < \<bar>liq - entry\<bar> / 10 \<longrightarrow> strictly_inside (po_side row) liq sl entry)"
proof -
  obtain z pos where l: "map_of live (position_key row) = Some (z, pos)"
    using assms by (auto simp: guard_row_def split: option.splits)
  obtain liq where q: "positive_figure (lp_liquidation_price pos) = Some liq"
    using assms by (auto simp: guard_row_def l split: option.splits)
  let ?w1 = "backfill_liquidation liq (po_id row) w"
  have same: "get_trigger_orders E account s d ?w1 = get_trigger_orders E account s d w" for E s d
    by (simp add: get_trigger_orders_def sent_count_def backfill_frame)
  obtain ts where t: "get_trigger_orders (re_listener R) account (po_symbol row) (po_side row) w = Some ts"
    using assms by (auto simp: guard_row_def l q same backfill_frame Let_def split: option.splits)
  have g: "guard_row R account live row w = tighten_row R account row pos liq ts ?w1"
    by (simp add: guard_row_def l q same t Let_def)
  have "lw_sent (tighten_row R account row pos liq ts ?w1) \<noteq> lw_sent ?w1" using assms by (simp add: g backfill_frame)
  then obtain entry where e: "positive_figure (lp_entry_price pos) = Some entry" "liq \<noteq> entry"
      "guard_acts (po_side row) (first_trigger Sl_trigger ts) liq (is_guard_managed (po_opening_order row) ?w1)"
      "lw_sent (tighten_row R account row pos liq ts ?w1) = lw_sent ?w1 @
        [Modify_stops account (po_symbol row) (po_side row) (first_trigger Tp_trigger ts)
          (Some (tightened_stop (po_side row) liq entry))]" by (rule tighten_sent)
  have "0 < entry" using e(1) by (auto simp: positive_figure_def split: figure.splits if_splits)
  note inside = tightened_inside [OF this e(2), of "po_side row"]
  show ?thesis
    by (rule exI [of _ z], rule exI [of _ pos], rule exI [of _ liq], rule exI [of _ entry], rule exI [of _ ts],
        rule exI [of _ "tightened_stop (po_side row) liq entry"], rule exI [of _ "first_trigger Tp_trigger ts"])
      (use l q t e inside in \<open>simp add: g backfill_frame guard_acts_def\<close>)
qed

end
