(* ===== verification/ExternalClose.thy ===== *)
theory ExternalClose
  imports ReconcileProperties
begin

text \<open>
  What a position ends with when the exchange closed it: the fees and results that were
  attributed before are taken out of the exchange's totals, so the sum over all the closes
  of the position is the exchange's figure again.
\<close>

section \<open>The order row of an external close\<close>

lemma find_append_Some: "find P xs \<noteq> None \<Longrightarrow> find P (xs @ ys) = find P xs"
  by (induction xs) auto

lemma strategy_by_id_cong: "lw_strategies w' = lw_strategies w \<Longrightarrow> strategy_by_id sid w' = strategy_by_id sid w"
  by (simp add: strategy_by_id_def)

lemma book_row_simps [simp]: "ls_id (book_row x s) = ls_id s" "ls_enabled (book_row x s) = ls_enabled s"
  by (simp_all add: book_row_def)

text \<open>Closing a leg in the books alone, with the order row the reconciler just made.\<close>

lemma skip_close_world:
  assumes "find_open_leg sid symbol side w = Some row" "r = external_order oid sid acct symbol side sig z price pnl fee"
    and "oid = length (lw_orders w)" "map od_id (lw_orders w) = [0..<length (lw_orders w)]"
    and "c = external_close_call symbol side (Some oid) reason price' pnl fee'"
    and "\<And>s. strategy_by_id sid w = Some s \<Longrightarrow>
      \<not> ls_enabled s \<or> \<not> strategy_breached (book_row (or_zero pnl - opening_fee row w - or_zero fee') s)"
    and known: "\<And>x. po_opening_order row = Some x \<Longrightarrow> x < length (lw_orders w)"
    and w': "w' = snd (close_strategy_position E sid a c (add_order r w))"
  shows "lw_orders w' = lw_orders w @ [r\<lparr>od_closes_position := Some (po_id row)\<rparr>]"
    and "\<exists>f. lw_positions w' = update_where (\<lambda>p. po_id p = po_id row) f (lw_positions w) \<and>
      (\<forall>p. po_id (f p) = po_id p \<and> po_opening_order (f p) = po_opening_order p \<and> \<not> po_open (f p))"
proof -
  let ?w1 = "add_order r w"
  have id: "od_id r = oid" by (simp add: assms(2) external_order_def)
  have no: "od_id x \<noteq> oid" if "x \<in> set (lw_orders w)" for x
  proof -
    have "od_id x \<in> set [0..<length (lw_orders w)]" using that assms(4) by (metis image_eqI set_map)
    then show ?thesis by (simp add: assms(3))
  qed
  have leg: "find_open_leg sid symbol side ?w1 = Some row"
    using assms(1) by (simp add: find_open_leg_def close_frame)
  have open_order: "order_by_id x (w\<lparr>lw_orders := lw_orders w @ [y]\<rparr>) = order_by_id x w"
    if "x < length (lw_orders w)" for x y
  proof -
    have "x \<in> set (map od_id (lw_orders w))" using that assms(4) by simp
    then obtain q where "q \<in> set (lw_orders w)" "od_id q = x" by auto
    then have "find (\<lambda>q. od_id q = x) (lw_orders w) \<noteq> None" by (auto simp: find_None_iff)
    then show ?thesis by (auto simp: order_by_id_def intro: find_append_Some)
  qed
  have fee_eq: "opening_fee row (w\<lparr>lw_orders := lw_orders w @ [y]\<rparr>) = opening_fee row w" for y
    using known open_order by (simp add: opening_fee_def split: option.splits)
  obtain s where b: "begin_close E sid a c ?w1 = (Inr s, ?w1)" and s: "se_position s = row" "se_full s"
      "se_realized_pnl s = pnl" "se_fee s = fee'" "se_open_fee s = opening_fee row ?w1"
    by (simp add: begin_close_def assms(5) external_close_call_def leg effective_close_size_def Let_def)
  have e: "ensure_close_order E sid a c s ?w1 = (Some oid, ?w1)"
    by (simp add: ensure_close_order_def assms(5) external_close_call_def)
  have still: "still_open (po_id row) ?w1"
    using open_leg_member [OF leg] by (intro still_openI) auto
  define net where "net = net_realized_pnl s"
  define w2 where "w2 = write_close E c s net (Some oid) ?w1"
  have res: "w' = book_realized_pnl (flattener_of E (length (lw_positions ?w1))) E sid net w2"
    by (simp add: w' close_strategy_position_def close_with_def b finish_close_def e s still Let_def net_def w2_def)
  have net: "net = map_option (\<lambda>x. x - opening_fee row w - or_zero fee') pnl"
    using fee_eq by (simp add: net_def net_realized_pnl_def s add_order_def)
  have strategies: "lw_strategies w2 = lw_strategies w" by (simp add: w2_def close_frame)
  have quiet: "lw_positions w' = lw_positions w2 \<and> lw_orders w' = lw_orders w2"
  proof (cases net)
    case (Some x)
    have "x = or_zero pnl - opening_fee row w - or_zero fee'" using net Some by (cases pnl) auto
    then have "\<not> ls_enabled s \<or> \<not> strategy_breached (book_row x s)" if "strategy_by_id sid w = Some s" for s
      using assms(6) that by simp
    note calm = this
    have st: "strategy_by_id sid (set_strategy sid (book_row x) w2) =
        map_option (\<lambda>s. if ls_id s = sid then book_row x s else s) (strategy_by_id sid w)"
      by (simp add: strategy_by_id_set strategy_by_id_cong [OF strategies])
    have "disable_if_drawdown_breached g E sid (set_strategy sid (book_row x) w2) = set_strategy sid (book_row x) w2" for g
    proof (cases "strategy_by_id sid w")
      case None
      then show ?thesis by (simp add: disable_if_drawdown_breached_def st)
    next
      case (Some s)
      then show ?thesis using calm [OF Some] strategy_by_id_id [OF Some]
        by (simp add: disable_if_drawdown_breached_def st split: if_split)
    qed
    then show ?thesis by (simp add: res Some book_realized_pnl_def set_strategy_def)
  qed (simp add: res book_realized_pnl_def)
  have "lw_orders w2 = update_where (\<lambda>x. od_id x = oid) (\<lambda>r. r\<lparr>od_closes_position := Some (po_id row)\<rparr>) (lw_orders w @ [r])"
    by (simp add: w2_def write_close_def Let_def link_close_def set_order_def set_position_def s(1) add_order_def)
  also have "\<dots> = lw_orders w @ [r\<lparr>od_closes_position := Some (po_id row)\<rparr>]"
    using no by (simp add: update_where_def id map_idI)
  finally show "lw_orders w' = lw_orders w @ [r\<lparr>od_closes_position := Some (po_id row)\<rparr>]" using quiet by simp
  have "lw_positions w' = update_where (\<lambda>p. po_id p = po_id row) (close_write_row E c s net (Some oid)) (lw_positions w)"
    using quiet by (simp add: w2_def write_close_rows s(1) add_order_def)
  then show "\<exists>f. lw_positions w' = update_where (\<lambda>p. po_id p = po_id row) f (lw_positions w) \<and>
      (\<forall>p. po_id (f p) = po_id p \<and> po_opening_order (f p) = po_opening_order p \<and> \<not> po_open (f p))"
    using s(2) by (intro exI [of _ "close_write_row E c s net (Some oid)"])
      (simp add: close_write_row_def close_row_simps)
qed

section \<open>The sum of the closes\<close>

definition rows_numbered :: "listener_world \<Rightarrow> bool" where
  "rows_numbered w \<longleftrightarrow> map po_id (lw_positions w) = [0..<length (lw_positions w)] \<and>
     map od_id (lw_orders w) = [0..<length (lw_orders w)]"

text \<open>What the exchange's totals leave for the position, all its closes and its opening together.\<close>

definition settled_total :: "close_history \<Rightarrow> rat \<Rightarrow> rat \<Rightarrow> rat option" where
  "settled_total h pnl open_fee =
     map_option (\<lambda>fee. if ch_fee_scope h = Some ''round_trip'' then pnl - \<bar>fee\<bar> else pnl - \<bar>fee\<bar> - open_fee) (ch_fee h)"

lemma position_by_id_unique:
  assumes "distinct (map po_id (lw_positions w))" "p \<in> set (lw_positions w)"
  shows "position_by_id (po_id p) w = Some p"
proof -
  obtain q where q: "position_by_id (po_id p) w = Some q"
    using assms(2) by (cases "position_by_id (po_id p) w") (auto simp: position_by_id_def find_None_iff)
  then have "q \<in> set (lw_positions w)" "po_id q = po_id p" by (auto simp: position_by_id_def find_Some_iff)
  moreover have "inj_on po_id (set (lw_positions w))" using assms(1) by (simp add: distinct_map)
  ultimately have "q = p" using assms(2) by (auto dest: inj_onD)
  then show ?thesis by (simp add: q)
qed

lemma position_by_id_update:
  assumes "\<And>p. po_id (f p) = po_id p" "lw_positions w' = update_where (\<lambda>p. po_id p = pid) f (lw_positions w)"
    and "position_by_id pid w = Some p"
  shows "position_by_id pid w' = Some (f p)"
  using assms find_update_where [of "\<lambda>p. po_id p = pid" f "\<lambda>p. po_id p = pid"]
  by (auto simp: position_by_id_def find_Some_iff)

lemma closing_orders_snoc:
  "lw_orders w' = lw_orders w @ [r] \<Longrightarrow> od_closes_position r = Some pid \<Longrightarrow> od_pnl r \<noteq> None \<Longrightarrow>
     closing_orders pid w' = closing_orders pid w @ [r]"
  by (simp add: closing_orders_def)

text \<open>
  C25. A position is gone from the exchange and its history, from after the opening, reports a
  result and a fee. The reconciler closes the row, and the orders that then close the
  position, with the opening fee, add up to the exchange's result less its fee (a round
  trip's fee counts the opening once, a close's fee leaves it to be added), however many
  partial closes were attributed before and whatever they were given. (The booking must not
  breach the strategy's drawdown, which would flatten its other legs.)
\<close>

theorem external_close_settles:
  assumes "rows_numbered w" "find_open_leg (po_strategy row) (po_symbol row) (po_side row) w = Some row"
    and "\<not> re_db_fails R External_order_insert"
    and "h = get_position_history R (account_path acct) (po_symbol row) (po_opened_at row) (po_side row) w"
    and "ch_pnl_realized h = Some x" "fresh_history h (po_opened_at row)" "ch_fee h = Some fee"
    and "prior_closes (po_id row) w = (open_fee, prior_fee, prior_pnl)"
    and "(if ch_fee_scope h = Some ''round_trip'' then open_fee else 0) + prior_fee \<le> \<bar>fee\<bar>"
    and "\<forall>oid. po_opening_order row = Some oid \<longrightarrow> oid < length (lw_orders w)"
    and "net = x - prior_pnl - open_fee - (\<bar>fee\<bar> - (if ch_fee_scope h = Some ''round_trip'' then open_fee else 0) - prior_fee)"
    and "\<forall>s. strategy_by_id (po_strategy row) w = Some s \<longrightarrow> \<not> ls_enabled s \<or> \<not> strategy_breached (book_row net s)"
    and "handle_full_external_close R row acct w = (res, w')"
  shows "\<exists>p. position_by_id (po_id row) w' = Some p \<and> \<not> po_open p \<and>
    position_rollup p w' = settled_total h x open_fee"
proof -
  let ?pid = "po_id row"
  note leg = open_leg_member [OF assms(2)]
  have d: "distinct (map po_id (lw_positions w))" using assms(1) by (simp add: rows_numbered_def)
  have row: "position_by_id ?pid w = Some row" by (rule position_by_id_unique [OF d leg(1)])
  define f where "f = close_facts_of h (po_opened_at row)"
  have facts: "cf_pnl f = Some x" "\<not> cf_unconfirmed f"
    using assms(5,6) by (simp_all add: f_def close_facts_of_def fresh_history_def Let_def split: figure.splits)
  define pnl where "pnl = remaining_pnl f prior_pnl"
  define rest where "rest = remaining_fee h open_fee prior_fee"
  have pnl: "pnl = Some (x - prior_pnl)" using facts by (simp add: pnl_def remaining_pnl_def)
  have rest: "rest = Some (\<bar>fee\<bar> - (if ch_fee_scope h = Some ''round_trip'' then open_fee else 0) - prior_fee)"
    using assms(7,9) by (simp add: rest_def remaining_fee_def Let_def max_def split: if_splits)
  define r where "r = external_order (length (lw_orders w)) (po_strategy row) acct (po_symbol row) (po_side row)
      (if refine_reason R ?pid f w = ''Liquidated'' then ''liquidation'' else ''exchange_close'') (po_size row)
      (if or_zero (cf_price f) = 0 then None else cf_price f) pnl rest"
  define c where "c = external_close_call (po_symbol row) (po_side row) (Some (length (lw_orders w)))
      (refine_reason R ?pid f w) (cf_price f) pnl rest"
  have w': "w' = snd (close_strategy_position (re_listener R) (po_strategy row) (text_or_nil acct) c (add_order r w))"
  proof -
    have "handle_full_external_close R row acct w =
        close_strategy_position (re_listener R) (po_strategy row) (text_or_nil acct) c (add_order r w)"
      unfolding handle_full_external_close_def Let_def assms(4) [symmetric] f_def [symmetric] assms(8)
      by (simp only: prod.case assms(3) if_False facts(2) r_def c_def pnl_def rest_def)
    then show ?thesis using assms(13) by (metis snd_conv)
  qed
  have numbered: "map od_id (lw_orders w) = [0..<length (lw_orders w)]" using assms(1) by (simp add: rows_numbered_def)
  have prior: "opening_fee row w = open_fee" "sum_list (map (\<lambda>r. or_zero (od_exchange_fee r)) (closing_orders ?pid w)) = prior_fee"
    "sum_list (map (\<lambda>r. or_zero (od_pnl r)) (closing_orders ?pid w)) = prior_pnl"
    using assms(8) row by (simp_all add: prior_closes_def Let_def)
  have net: "or_zero pnl - opening_fee row w - or_zero rest = net"
    unfolding pnl rest or_zero_simps prior(1) assms(11) ..
  note world = skip_close_world [OF assms(2) r_def refl numbered c_def _ _ w']
  have orders: "lw_orders w' = lw_orders w @ [r\<lparr>od_closes_position := Some ?pid\<rparr>]"
    by (rule world(1)) (use assms(10,12) net in auto)
  obtain g where g: "lw_positions w' = update_where (\<lambda>p. po_id p = ?pid) g (lw_positions w)"
      "\<And>p. po_id (g p) = po_id p" "\<And>p. po_opening_order (g p) = po_opening_order p" "\<And>p. \<not> po_open (g p)"
    using world(2) assms(10,12) net by blast
  have p: "position_by_id ?pid w' = Some (g row)" by (rule position_by_id_update [OF g(2,1) row])
  have closes: "closing_orders ?pid w' = closing_orders ?pid w @ [r\<lparr>od_closes_position := Some ?pid\<rparr>]"
    by (rule closing_orders_snoc [OF orders]) (simp_all add: r_def external_order_def pnl)
  have "opening_fee (g row) w' = opening_fee row w"
  proof (cases "po_opening_order row")
    case (Some oid)
    then have "oid \<in> set (map od_id (lw_orders w))" using assms(10) numbered by simp
    then have "find (\<lambda>q. od_id q = oid) (lw_orders w) \<noteq> None" by (auto simp: find_None_iff)
    then show ?thesis by (simp add: opening_fee_def g(3) Some order_by_id_def orders find_append_Some)
  qed (simp add: opening_fee_def g(3))
  moreover have "od_pnl r = Some (x - prior_pnl)" "od_exchange_fee r = rest"
    by (simp_all add: r_def external_order_def pnl)
  ultimately have "position_rollup (g row) w' = settled_total h x open_fee"
    by (simp add: position_rollup_def Let_def closes g(2) prior settled_total_def assms(7) rest)
  then show ?thesis using p g(4) by blast
qed

end
