(* ===== verification/ReconcileDemo.thy ===== *)
theory ReconcileDemo
  imports ExternalClose ListenerDemo
begin

text \<open>
  Concrete passes of the reconciler: the witnesses of its properties, and three runs in which
  it records what did not happen.
\<close>

definition demo_live :: "rat \<Rightarrow> rat \<Rightarrow> live_position" where
  "demo_live z entry = \<lparr>lp_symbol = Some ''BTC-USDT'', lp_inst_id = None, lp_side = Some ''LONG'',
     lp_size = Number z, lp_entry_price = Number entry, lp_liquidation_price = Number 60\<rparr>"

definition demo_exchange :: "live_position list option reply \<Rightarrow> close_history \<Rightarrow> reconcile_env" where
  "demo_exchange positions h = \<lparr>re_listener = demo_services, re_miss_threshold = 3, re_db_fails = (\<lambda>_. False),
     re_positions = (\<lambda>_ _ _. positions), re_open_orders = (\<lambda>_ _. Answer (Some [])),
     re_fill_fee = (\<lambda>_ _ _ _. Timed_out), re_history = (\<lambda>_ _ _ _ _. Answer h)\<rparr>"

definition demo_pending :: "nat \<Rightarrow> listener_order" where
  "demo_pending oid = \<lparr>od_id = oid, od_strategy = ''s1'', od_symbol = ''BTC-USDT'', od_side = Buy_side,
     od_signal = ''open_long'', od_order_type = ''limit'', od_size = 1, od_price = Some 100, od_leverage = Some 2,
     od_margin_mode = Some ''isolated'', od_tp_price = Some 110, od_sl_price = Some 95, od_status = ''pending'',
     od_exchange_order_id = Some ''x'', od_error_msg = None, od_actual_fill_price = None, od_pnl = None,
     od_account_id = Some ''acc'', od_exchange_fee = None, od_closes_position = None, od_signal_source = None,
     od_signal_metadata = [], od_indicator_price = None, od_signal_log_id = None, od_mark_price = None,
     od_raw_webhook = None\<rparr>"

definition demo_resting :: "nat \<Rightarrow> listener_world" where
  "demo_resting n = (demo_books [])\<lparr>lw_orders := map demo_pending [0..<n]\<rparr>"

section \<open>Two resting orders that fill between passes\<close>

definition after_two_fills :: listener_world where
  "after_two_fills = snd (reconcile_once (demo_exchange (Answer (Some [demo_live 2 100])) no_history) (demo_resting 2))"

text \<open>
  Two resting buys of one at 100 with a target of 110 both fill at 100 between two passes, so
  the exchange reports two at 100. The first order is given the price 200, because the whole
  of the exchange's position is priced into its half, and its target is moved to 220; the
  second is given the price 0, which reads as missing and falls back to its limit. The
  position is recorded at 150.
\<close>

lemma two_fills_misprice:
  "map (\<lambda>r. (od_status r, od_actual_fill_price r, od_tp_price r)) (lw_orders after_two_fills) =
     [(''filled'', Some 200, Some 220), (''filled'', Some 0, Some 110)] \<and>
   map (\<lambda>p. (po_size p, po_entry_price p)) (lw_positions after_two_fills) = [(2, 150)]"
  by code_simp

section \<open>An error that is no list\<close>

text \<open>
  The executor answers the positions request with a body that is not a list, an error report
  for example. The client reads it as no positions, not as unknown, and three such answers
  close the leg in the books; nothing is asked of the exchange.
\<close>

lemma error_body_closes_leg:
  "let w = reconciler_loop (replicate 3 (demo_exchange (Answer None) no_history)) (demo_books [demo_listed_leg 0 Long_leg])
   in map (\<lambda>p. (po_open p, po_close_reason p, po_pnl_realized p)) (lw_positions w)
        = [(False, Some ''Closed on exchange'', None)] \<and> lw_sent w = []"
  by code_simp

section \<open>A stale history\<close>

definition stale_history :: close_history where
  "stale_history = \<lparr>ch_close_reason = Some ''Stop'', ch_closing_price = Some 90, ch_pnl_realized = Some (- 20),
     ch_closed_at = Number (- 5), ch_fee = Some 7, ch_fee_scope = None\<rparr>"

text \<open>
  The history of an external close is of an earlier position. Its reason, price and result
  are dropped, but its fee is written on the order that records the close.
\<close>

lemma stale_fee_recorded:
  "map (\<lambda>r. (od_actual_fill_price r, od_pnl r, od_exchange_fee r)) (lw_orders (snd (handle_full_external_close
      (demo_exchange (Answer (Some [])) stale_history) (demo_listed_leg 0 Long_leg) (Some ''acc'')
      (demo_books [demo_listed_leg 0 Long_leg])))) = [(None, None, Some 7)]"
  by code_simp

section \<open>Witnesses\<close>

definition fresh_fee_history :: close_history where
  "fresh_fee_history = \<lparr>ch_close_reason = None, ch_closing_price = Some 110, ch_pnl_realized = Some 20,
     ch_closed_at = Number 900, ch_fee = Some (- 3), ch_fee_scope = Some ''round_trip''\<rparr>"

lemma misses_are_streaks_witness:
  "map (\<lambda>p. (po_miss_count p, po_open p)) (lw_positions (reconcile_passes (demo_exchange Timed_out no_history)
     [[(Some ''acc'', [])], [(Some ''acc'', [])]] (demo_books [demo_listed_leg 0 Long_leg]))) = [(2, True)]"
proof -
  let ?R = "demo_exchange Timed_out no_history" and ?ms = "[[(Some ''acc'', [])], [(Some ''acc'', [])]]"
  let ?w = "demo_books [demo_listed_leg 0 Long_leg]"
  have d: "distinct (map po_id (lw_positions ?w))" by code_simp
  have "no_streak ?R ?ms ?w" by code_simp
  note t = misses_are_streaks [OF d this]
  have "account_row ?w (lw_positions ?w ! 0) = Some (Some ''acc'')" by code_simp
  moreover have "row_streak (po_size (lw_positions ?w ! 0)) (reads_of ?ms (lw_positions ?w ! 0) (Some ''acc''))
      (po_miss_count (lw_positions ?w ! 0)) = 2" by code_simp
  moreover have l: "lw_positions ?w = [demo_listed_leg 0 Long_leg]" by code_simp
  ultimately have m: "po_miss_count (lw_positions (reconcile_passes ?R ?ms ?w) ! 0) = 2"
    using conjunct2 [OF t, rule_format, of 0] by simp
  have "map bare_row (lw_positions (reconcile_passes ?R ?ms ?w)) = map bare_row [demo_listed_leg 0 Long_leg]"
    using conjunct1 [OF t] unfolding same_but_counters_def l by (rule conjunct2)
  then obtain q where q: "lw_positions (reconcile_passes ?R ?ms ?w) = [q]" "bare_row q = bare_row (demo_listed_leg 0 Long_leg)"
    by (auto simp: map_eq_Cons_conv)
  have "po_open q" using bare_fields(2) [OF q(2)] by (simp add: demo_listed_leg_def)
  then show ?thesis using m q by simp
qed

lemma fill_matches_exchange_witness:
  "map_option (\<lambda>q. (po_size q, po_entry_price q)) (find_open_leg ''s1'' ''BTC-USDT'' Long_leg
     (snd (reconcile_pending_order (demo_exchange Timed_out no_history) ''acc'' []
        (live_by_key [demo_live 3 102]) (demo_pending 0) (demo_books [demo_listed_leg 0 Long_leg])))) = Some (3, 102)"
proof -
  let ?w = "demo_books [demo_listed_leg 0 Long_leg]" and ?r = "demo_pending 0"
  let ?run = "reconcile_pending_order (demo_exchange Timed_out no_history) ''acc'' [] (live_by_key [demo_live 3 102]) ?r ?w"
  obtain payload where p: "synthetic_payload ?r = Inr payload"
  proof -
    have "\<not> isl (synthetic_payload ?r)" by code_simp
    then show ?thesis using that by (cases "synthetic_payload ?r") auto
  qed
  have ok: "?run = (Inr (), snd ?run)"
  proof -
    have "\<not> isl (fst ?run)" by code_simp
    then show ?thesis by (cases ?run, cases "fst ?run") auto
  qed
  have "map_option (\<lambda>q. (po_size q, po_entry_price q))
      (find_open_leg (od_strategy ?r) (od_symbol ?r) (side_leg (od_side ?r)) (snd ?run)) = Some (3, 102)"
  proof (rule fill_matches_exchange [OF _ _ p _ _ _ _ _ _ _ _ ok])
    show "map_of (live_by_key [demo_live 3 102]) (od_symbol ?r, leg_side_name (side_leg (od_side ?r))) = Some (demo_live 3 102)"
      by code_simp
    show "leg_figures (find_open_leg (od_strategy ?r) (od_symbol ?r) (side_leg (od_side ?r)) ?w) = (2, 100)" by code_simp
    show "size_tolerance (od_size ?r) < 3 - 2" "(3 :: rat) - 2 \<le> od_size ?r" by code_simp+
    show "\<not> le_db_fails (re_listener (demo_exchange Timed_out no_history)) Fill_write" by code_simp
  qed (simp_all add: demo_pending_def text_or_nil_def demo_live_def)
  then show ?thesis by (simp add: demo_pending_def side_leg_def)
qed

text \<open>A long whose stop at 50 lies beyond the liquidation price of 60 is given one at 64.\<close>

definition unsafe_services :: listener_env where
  "unsafe_services = demo_services
     \<lparr>le_trigger_orders := (\<lambda>_ _ _ _. Answer (Some [\<lparr>tg_kind = Sl_trigger, tg_trigger_px = Some 50\<rparr>]))\<rparr>"

lemma guard_request_witness:
  "lw_sent (guard_row ((demo_exchange Timed_out no_history)\<lparr>re_listener := unsafe_services\<rparr>) ''acc''
     (live_map [demo_live 2 100]) (demo_listed_leg 0 Long_leg) (demo_books [demo_listed_leg 0 Long_leg])) =
     [Modify_stops ''acc'' ''BTC-USDT'' Long_leg None (Some 64)] \<and> strictly_inside Long_leg 60 64 100"
proof -
  let ?R = "(demo_exchange Timed_out no_history)\<lparr>re_listener := unsafe_services\<rparr>"
  let ?w = "demo_books [demo_listed_leg 0 Long_leg]" and ?row = "demo_listed_leg 0 Long_leg" and ?live = "live_map [demo_live 2 100]"
  have "lw_sent (guard_row ?R ''acc'' ?live ?row ?w) \<noteq> lw_sent ?w" by code_simp
  from guard_request [OF this] obtain z pos liq entry triggers sl tp where g:
      "map_of ?live (position_key ?row) = Some (z, pos)" "positive_figure (lp_liquidation_price pos) = Some liq"
      "positive_figure (lp_entry_price pos) = Some entry" "sl = tightened_stop (po_side ?row) liq entry"
      "lw_sent (guard_row ?R ''acc'' ?live ?row ?w) = lw_sent ?w @ [Modify_stops ''acc'' (po_symbol ?row) (po_side ?row) tp (Some sl)]"
      "1 / (2 * 10 ^ infer_price_decimals entry) < \<bar>liq - entry\<bar> / 10 \<longrightarrow> strictly_inside (po_side ?row) liq sl entry"
    by blast
  have "map_of ?live (position_key ?row) = Some (2, demo_live 2 100)" by code_simp
  then have "pos = demo_live 2 100" using g(1) by simp
  then have "liq = 60" "entry = 100" using g(2,3) by (simp_all add: demo_live_def positive_figure_def)
  moreover have "tightened_stop Long_leg 60 100 = 64" by code_simp
  moreover have side: "po_side ?row = Long_leg" by (simp add: demo_listed_leg_def)
  ultimately have "sl = 64" using g(4) by simp
  moreover have "1 / (2 * 10 ^ infer_price_decimals 100) < \<bar>60 - 100 :: rat\<bar> / 10" by code_simp
  ultimately have "strictly_inside Long_leg 60 64 100"
    using g(6) side \<open>liq = 60\<close> \<open>entry = 100\<close> by (simp only: simp_thms)
  moreover have "lw_sent (guard_row ?R ''acc'' ?live ?row ?w) = [Modify_stops ''acc'' ''BTC-USDT'' Long_leg None (Some 64)]"
    by code_simp
  ultimately show ?thesis by simp
qed

lemma external_close_settles_witness:
  "map_option (\<lambda>p. (po_open p, position_rollup p (snd (handle_full_external_close
      (demo_exchange Timed_out fresh_fee_history) (demo_listed_leg 0 Long_leg) (Some ''acc'')
      (demo_books [demo_listed_leg 0 Long_leg]))))) (position_by_id 0 (snd (handle_full_external_close
      (demo_exchange Timed_out fresh_fee_history) (demo_listed_leg 0 Long_leg) (Some ''acc'')
      (demo_books [demo_listed_leg 0 Long_leg])))) = Some (False, Some 17)"
proof -
  let ?R = "demo_exchange Timed_out fresh_fee_history" and ?row = "demo_listed_leg 0 Long_leg"
  let ?w = "demo_books [demo_listed_leg 0 Long_leg]"
  obtain res w' where run: "handle_full_external_close ?R ?row (Some ''acc'') ?w = (res, w')" by fastforce
  have s: "strategy_by_id (po_strategy ?row) ?w = Some demo_listed" by code_simp
  have "\<exists>p. position_by_id (po_id ?row) w' = Some p \<and> \<not> po_open p \<and>
      position_rollup p w' = settled_total fresh_fee_history 20 0"
  proof (rule external_close_settles [OF _ _ _ _ _ _ _ _ _ _ refl _ run])
    show "rows_numbered ?w" by code_simp
    show "find_open_leg (po_strategy ?row) (po_symbol ?row) (po_side ?row) ?w = Some ?row" by code_simp
    show "\<not> re_db_fails ?R External_order_insert" by code_simp
    show "fresh_fee_history = get_position_history ?R (account_path (Some ''acc'')) (po_symbol ?row) (po_opened_at ?row)
        (po_side ?row) ?w" by (simp add: get_position_history_def demo_exchange_def)
    show "prior_closes (po_id ?row) ?w = (0, 0, 0)" by code_simp
    show "fresh_history fresh_fee_history (po_opened_at ?row)" by code_simp
    show "\<forall>s. strategy_by_id (po_strategy ?row) ?w = Some s \<longrightarrow> \<not> ls_enabled s \<or> \<not> strategy_breached (book_row
       (20 - 0 - 0 - (\<bar>- 3\<bar> - (if ch_fee_scope fresh_fee_history = Some ''round_trip'' then 0 else 0) - 0)) s)"
    proof -
      have "\<not> strategy_breached (book_row (20 - 0 - 0 - (\<bar>- 3\<bar>
          - (if ch_fee_scope fresh_fee_history = Some ''round_trip'' then 0 else 0) - 0)) demo_listed)" by code_simp
      then show ?thesis using s by simp
    qed
  qed (simp_all add: fresh_fee_history_def demo_listed_leg_def)
  moreover have "settled_total fresh_fee_history 20 0 = Some 17" by code_simp
  moreover have "po_id ?row = 0" by (simp add: demo_listed_leg_def)
  ultimately show ?thesis using run by auto
qed

lemma reconcile_keeps_books_witness:
  "tidy_books ''s1'' 0 (reconciler_loop (replicate 3 (demo_exchange (Answer (Some [])) fresh_fee_history))
     (demo_books [demo_listed_leg 0 Long_leg])) \<and>
   map (\<lambda>p. (po_open p, po_pnl_realized p)) (lw_positions (reconciler_loop
     (replicate 3 (demo_exchange (Answer (Some [])) fresh_fee_history)) (demo_books [demo_listed_leg 0 Long_leg])))
     = [(False, Some 17)]"
proof
  show "tidy_books ''s1'' 0 (reconciler_loop (replicate 3 (demo_exchange (Answer (Some [])) fresh_fee_history))
     (demo_books [demo_listed_leg 0 Long_leg]))"
  proof (rule reconcile_keeps_books)
    show "tidy_books ''s1'' 0 (demo_books [demo_listed_leg 0 Long_leg])" by code_simp
  qed (simp add: demo_exchange_def demo_services_def)
qed code_simp

end
