(* ===== verification/ExecuteOrder.thy ===== *)
theory ExecuteOrder
  imports Prelude
begin

text \<open>
  The order executor: \<open>order-executor/app/executor.py\<close> (submit with retries, the execution
  log, the order row, the dead letters), the adapter cache of \<open>app/registry.py\<close> and the
  models of \<open>app/models.py\<close>. The adapter of an exchange is a parameter: what it answers to
  a submit may depend on how many were made before.
\<close>

section \<open>Models\<close>

datatype exec_status = Exec_filled | Exec_pending | Exec_rejected | Exec_route_failed

record exec_order =
  xo_order_id :: string
  xo_account_id :: string
  xo_symbol :: string
  xo_side :: string
  xo_signal :: string
  xo_order_type :: string
  xo_size :: rat
  xo_price :: "rat option"
  xo_leverage :: "int option"
  xo_margin_mode :: "string option"
  xo_tp_price :: "rat option"
  xo_sl_price :: "rat option"
  xo_signal_log_id :: "int option"

record exec_result =
  xr_success :: bool
  xr_exchange_order_id :: "string option"
  xr_status :: exec_status
  xr_error_msg :: "string option"
  xr_actual_fill_price :: "rat option"
  xr_actual_fill_size :: "rat option"
  xr_realized_pnl :: "rat option"
  xr_fee :: "rat option"

text \<open>How an awaited call ends: with a value, with a \<open>ValueError\<close>, or with another exception.\<close>

datatype 'a outcome = Returned 'a | Value_error string | Raised string

section \<open>The registry\<close>

record account_record =
  ar_exchange :: string
  ar_mode :: string
  ar_position_mode :: "string option"

datatype exchange_kind = Blofin | Hyperliquid | Binance

record adapter =
  ad_kind :: exchange_kind
  ad_mode :: string
  ad_position_mode :: string

text \<open>\<open>mode or "net"\<close>; the other two adapters are always net.\<close>

definition load_adapter :: "(string \<Rightarrow> account_record option outcome) \<Rightarrow> string \<Rightarrow> adapter outcome" where
  "load_adapter fetch account =
     (case fetch account of
        Value_error m \<Rightarrow> Value_error m
      | Raised m \<Rightarrow> Raised m
      | Returned None \<Rightarrow> Value_error (''Account not found or inactive: '' @ account)
      | Returned (Some rec) \<Rightarrow>
         (let pm = (case ar_position_mode rec of None \<Rightarrow> ''net'' | Some m \<Rightarrow> if m = [] then ''net'' else m)
          in if ar_exchange rec = ''blofin'' then
               Returned \<lparr>ad_kind = Blofin, ad_mode = ar_mode rec, ad_position_mode = pm\<rparr>
             else if ar_exchange rec = ''hyperliquid'' then
               Returned \<lparr>ad_kind = Hyperliquid, ad_mode = ar_mode rec, ad_position_mode = ''net''\<rparr>
             else if ar_exchange rec = ''binance'' then
               Returned \<lparr>ad_kind = Binance, ad_mode = ar_mode rec, ad_position_mode = ''net''\<rparr>
             else Value_error (''Unknown exchange '' @ ar_exchange rec)))"

type_synonym instances = "(string, adapter) tbl"

definition registry_get ::
  "(string \<Rightarrow> account_record option outcome) \<Rightarrow> string \<Rightarrow> instances \<Rightarrow> adapter outcome \<times> instances" where
  "registry_get fetch account reg =
     (case map_of reg account of
        Some a \<Rightarrow> (Returned a, reg)
      | None \<Rightarrow>
         (case load_adapter fetch account of
            Returned a \<Rightarrow> (Returned a, AList.update account a reg)
          | Value_error m \<Rightarrow> (Value_error m, reg)
          | Raised m \<Rightarrow> (Raised m, reg)))"

definition registry_invalidate :: "string \<Rightarrow> instances \<Rightarrow> instances" where
  "registry_invalidate account reg = AList.delete account reg"

section \<open>State\<close>

record execution_log_row =
  el_account :: string
  el_exchange :: string
  el_symbol :: string
  el_size :: rat
  el_price :: "rat option"
  el_exchange_order_id :: "string option"
  el_status :: "exec_status option"
  el_error :: "string option"
  el_filled :: bool
  el_fee :: "rat option"

text \<open>A write of the executor's result to an order row.\<close>

record order_write =
  ow_order_id :: string
  ow_status :: exec_status
  ow_exchange_order_id :: "string option"
  ow_error :: "string option"
  ow_fill_price :: "rat option"
  ow_pnl :: "rat option"
  ow_fee :: "rat option"

record executor_world =
  xw_instances :: instances
  xw_submits :: "exec_order list"
  xw_log :: "execution_log_row list"
  xw_order_writes :: "order_write list"
  xw_dead_letters :: "(string \<times> string) list"

text \<open>The statements that are guarded one by one.\<close>

datatype exec_stmt = Exchange_lookup | Log_insert | Log_update | Order_update | Dead_letter_insert

record exec_env =
  xe_db_fails :: "exec_stmt \<Rightarrow> bool"
  xe_exchange :: "string \<Rightarrow> string option"
  xe_account :: "string \<Rightarrow> account_record option outcome"
  xe_submit :: "nat \<Rightarrow> adapter \<Rightarrow> exec_order \<Rightarrow> exec_result outcome"

section \<open>The writes\<close>

definition MAX_RETRIES :: nat where "MAX_RETRIES = 3"

definition get_account_exchange :: "exec_env \<Rightarrow> string \<Rightarrow> string" where
  "get_account_exchange X account =
     (if xe_db_fails X Exchange_lookup then ''unknown''
      else case xe_exchange X account of None \<Rightarrow> ''unknown'' | Some e \<Rightarrow> e)"

text \<open>\<open>x if x else None\<close>: zero is written as null.\<close>

definition nonzero_or_null :: "rat option \<Rightarrow> rat option" where
  "nonzero_or_null x = (case x of Some v \<Rightarrow> if v = 0 then None else x | None \<Rightarrow> None)"

definition insert_execution_log ::
  "exec_env \<Rightarrow> exec_order \<Rightarrow> string \<Rightarrow> executor_world \<Rightarrow> nat option \<times> executor_world" where
  "insert_execution_log X rq exchange w =
     (if xe_db_fails X Log_insert then (None, w)
      else (Some (length (xw_log w)),
            w\<lparr>xw_log := xw_log w @ [\<lparr>el_account = xo_account_id rq, el_exchange = exchange, el_symbol = xo_symbol rq,
                el_size = xo_size rq, el_price = nonzero_or_null (xo_price rq), el_exchange_order_id = None,
                el_status = Some Exec_pending, el_error = None, el_filled = False, el_fee = None\<rparr>]\<rparr>))"

definition logged_result :: "exec_result \<Rightarrow> execution_log_row \<Rightarrow> execution_log_row" where
  "logged_result r row = row\<lparr>el_exchange_order_id := xr_exchange_order_id r, el_status := Some (xr_status r),
     el_error := xr_error_msg r, el_filled := xr_success r, el_fee := xr_fee r\<rparr>"

definition update_execution_log ::
  "exec_env \<Rightarrow> nat option \<Rightarrow> exec_result \<Rightarrow> executor_world \<Rightarrow> executor_world" where
  "update_execution_log X oel r w =
     (case oel of
        None \<Rightarrow> w
      | Some i \<Rightarrow>
          if xe_db_fails X Log_update then w
          else w\<lparr>xw_log := (xw_log w)[i := logged_result r (xw_log w ! i)]\<rparr>)"

definition update_order_record :: "exec_env \<Rightarrow> string \<Rightarrow> exec_result \<Rightarrow> executor_world \<Rightarrow> executor_world" where
  "update_order_record X oid r w =
     (if xe_db_fails X Order_update then w
      else w\<lparr>xw_order_writes := xw_order_writes w @ [\<lparr>ow_order_id = oid, ow_status = xr_status r,
             ow_exchange_order_id = xr_exchange_order_id r, ow_error = xr_error_msg r,
             ow_fill_price = nonzero_or_null (xr_actual_fill_price r), ow_pnl = nonzero_or_null (xr_realized_pnl r),
             ow_fee = xr_fee r\<rparr>]\<rparr>)"

text \<open>No column but the serial id is unique, so \<open>ON CONFLICT DO NOTHING\<close> never applies.\<close>

definition write_dead_letter :: "exec_env \<Rightarrow> string \<Rightarrow> string \<Rightarrow> executor_world \<Rightarrow> executor_world" where
  "write_dead_letter X oid reason w =
     (if xe_db_fails X Dead_letter_insert then w
      else w\<lparr>xw_dead_letters := xw_dead_letters w @ [(oid, reason)]\<rparr>)"

section \<open>Executing\<close>

definition exec_failed :: "string \<Rightarrow> exec_result" where
  "exec_failed msg = \<lparr>xr_success = False, xr_exchange_order_id = None, xr_status = Exec_route_failed,
     xr_error_msg = Some msg, xr_actual_fill_price = None, xr_actual_fill_size = None,
     xr_realized_pnl = None, xr_fee = None\<rparr>"

text \<open>Getting the adapter and submitting, as one call that may raise.\<close>

definition try_submit :: "exec_env \<Rightarrow> exec_order \<Rightarrow> executor_world \<Rightarrow> exec_result outcome \<times> executor_world" where
  "try_submit X rq w =
     (case registry_get (xe_account X) (xo_account_id rq) (xw_instances w) of
        (Value_error m, reg) \<Rightarrow> (Value_error m, w\<lparr>xw_instances := reg\<rparr>)
      | (Raised m, reg) \<Rightarrow> (Raised m, w\<lparr>xw_instances := reg\<rparr>)
      | (Returned a, reg) \<Rightarrow>
          (xe_submit X (length (xw_submits w)) a rq,
           w\<lparr>xw_instances := reg, xw_submits := xw_submits w @ [rq]\<rparr>))"

definition record_final :: "exec_env \<Rightarrow> exec_order \<Rightarrow> nat option \<Rightarrow> exec_result \<Rightarrow> executor_world \<Rightarrow> executor_world" where
  "record_final X rq oel r w = update_order_record X (xo_order_id rq) r (update_execution_log X oel r w)"

definition is_transient :: "exec_result \<Rightarrow> bool" where
  "is_transient r \<longleftrightarrow> \<not> xr_success r \<and> xr_status r = Exec_route_failed"

text \<open>
  One attempt with \<open>left\<close> more after it. A transient failure is raised while there are
  attempts left; the last attempt returns it as it is.
\<close>

fun execute_attempts ::
  "exec_env \<Rightarrow> exec_order \<Rightarrow> string \<Rightarrow> nat \<Rightarrow> executor_world \<Rightarrow> exec_result option \<times> executor_world" where
  "execute_attempts X rq exchange 0 w = (None, w)"
| "execute_attempts X rq exchange (Suc left) w =
     (case insert_execution_log X rq exchange w of
        (oel, w1) \<Rightarrow>
         (case try_submit X rq w1 of
            (Value_error m, w2) \<Rightarrow> (Some (exec_failed m), record_final X rq oel (exec_failed m) w2)
          | (Returned r, w2) \<Rightarrow>
              if is_transient r \<and> 0 < left
              then execute_attempts X rq exchange left (update_execution_log X oel r w2)
              else (Some r, record_final X rq oel r w2)
          | (Raised m, w2) \<Rightarrow>
              if 0 < left then execute_attempts X rq exchange left w2
              else (let r = exec_failed (''All 3 attempts failed. Last error: '' @ m)
                    in (Some r, write_dead_letter X (xo_order_id rq) m (record_final X rq oel r w2)))))"

definition execute :: "exec_env \<Rightarrow> exec_order \<Rightarrow> executor_world \<Rightarrow> exec_result option \<times> executor_world" where
  "execute X rq w = execute_attempts X rq (get_account_exchange X (xo_account_id rq)) MAX_RETRIES w"

text \<open>
  What the executor does with an order: how often it submits, what it returns and records,
  and which orders become dead letters.
\<close>

section \<open>The submits of an attempt\<close>

named_theorems exec_frame "what the writes of the executor leave alone"

lemma writes_frame [exec_frame]:
  "xw_submits (update_execution_log X oel r w) = xw_submits w"
  "xw_submits (record_final X rq oel r w) = xw_submits w"
  "xw_submits (write_dead_letter X oid m w) = xw_submits w"
  "xw_order_writes (update_execution_log X oel r w) = xw_order_writes w"
  "xw_order_writes (write_dead_letter X oid m w) = xw_order_writes w"
  "xw_dead_letters (update_execution_log X oel r w) = xw_dead_letters w"
  "xw_dead_letters (record_final X rq oel r w) = xw_dead_letters w"
  by (simp_all add: update_execution_log_def record_final_def update_order_record_def write_dead_letter_def
      split: option.splits)

lemma insert_frame [exec_frame]:
  assumes "insert_execution_log X rq ex w = (oel, w1)"
  shows "xw_submits w1 = xw_submits w" "xw_order_writes w1 = xw_order_writes w"
    "xw_dead_letters w1 = xw_dead_letters w" "xw_instances w1 = xw_instances w"
  using assms by (auto simp: insert_execution_log_def split: if_splits)

lemma try_submit_frame [exec_frame]:
  assumes "try_submit X rq w = (a, w1)"
  shows "xw_order_writes w1 = xw_order_writes w" "xw_dead_letters w1 = xw_dead_letters w"
  using assms by (auto simp: try_submit_def split: outcome.splits prod.splits)

text \<open>Either nothing was submitted, because the account could not be loaded, or one order was.\<close>

lemma try_submit_cases:
  assumes "try_submit X rq w = (a, w1)"
  obtains (no_account) "xw_submits w1 = xw_submits w" "\<nexists>r. a = Returned r"
  | (submitted) ad where "xw_submits w1 = xw_submits w @ [rq]" "a = xe_submit X (length (xw_submits w)) ad rq"
  using assms by (auto simp: try_submit_def split: outcome.splits prod.splits)

section \<open>Final answers\<close>

text \<open>The answer the exchange gave to a submit, for some adapter.\<close>

definition answered :: "exec_env \<Rightarrow> exec_order \<Rightarrow> nat \<Rightarrow> exec_result outcome \<Rightarrow> bool" where
  "answered X rq i a \<longleftrightarrow> (\<exists>ad. a = xe_submit X i ad rq)"

definition no_answer :: "exec_result outcome \<Rightarrow> bool" where
  "no_answer a = (case a of Returned r \<Rightarrow> is_transient r | Value_error _ \<Rightarrow> False | Raised _ \<Rightarrow> True)"

lemma attempts_submits:
  assumes "execute_attempts X rq ex n w = (res, w')"
  shows "\<exists>k\<le>n. xw_submits w' = xw_submits w @ replicate k rq \<and>
    (\<forall>i<k - 1. \<exists>a. answered X rq (length (xw_submits w) + i) a \<and> no_answer a)"
  using assms
proof (induction n arbitrary: w)
  case (Suc n)
  obtain oel w1 where i: "insert_execution_log X rq ex w = (oel, w1)" by fastforce
  obtain a w2 where t: "try_submit X rq w1 = (a, w2)" by fastforce
  have step: "\<exists>k\<le>Suc n. xw_submits w' = xw_submits w @ replicate k rq \<and>
      (\<forall>i<k - 1. \<exists>a. answered X rq (length (xw_submits w) + i) a \<and> no_answer a)"
    if rest: "execute_attempts X rq ex n v = (res, w')" and v: "xw_submits v = xw_submits w2" and no: "no_answer a" for v
  proof -
    obtain k where k: "k \<le> n" "xw_submits w' = xw_submits w2 @ replicate k rq"
      "\<forall>i<k - 1. \<exists>a. answered X rq (length (xw_submits w2) + i) a \<and> no_answer a"
      using Suc.IH [OF rest] v by auto
    show ?thesis
    proof (cases rule: try_submit_cases [OF t])
      case 1
      then show ?thesis using k insert_frame(1) [OF i] by (intro exI [of _ k]) auto
    next
      case (2 ad)
      have "\<exists>b. answered X rq (length (xw_submits w) + j) b \<and> no_answer b" if "j < Suc k - 1" for j
      proof (cases j)
        case 0
        have "answered X rq (length (xw_submits w)) a"
          using 2(2) insert_frame(1) [OF i] by (auto simp: answered_def)
        then show ?thesis using no 0 by auto
      next
        case (Suc j')
        then have "j' < k - 1" using that by simp
        then show ?thesis using k(3) 2(1) insert_frame(1) [OF i] Suc by fastforce
      qed
      then show ?thesis using k(1,2) 2(1) insert_frame(1) [OF i] by (intro exI [of _ "Suc k"]) auto
    qed
  qed
  have done_now: ?case if "xw_submits w' = xw_submits w2"
    using that insert_frame(1) [OF i]
    by (cases rule: try_submit_cases [OF t]) (auto intro: exI [of _ 0] exI [of _ "Suc 0"])
  show ?case
  proof (cases a)
    case (Returned r)
    then show ?thesis using Suc.prems step [of "update_execution_log X oel r w2"] done_now
      by (auto simp: i t exec_frame no_answer_def split: if_splits)
  next
    case (Value_error m)
    then show ?thesis using Suc.prems done_now by (auto simp: i t exec_frame)
  next
    case (Raised m)
    then show ?thesis using Suc.prems step [of w2] done_now
      by (auto simp: i t exec_frame no_answer_def Let_def split: if_splits)
  qed
qed simp

lemma attempts_result:
  assumes "execute_attempts X rq ex (Suc n) w = (res, w')" "\<not> xe_db_fails X Order_update"
  shows "\<exists>r row. res = Some r \<and> xw_order_writes w' = xw_order_writes w @ [row] \<and>
    ow_order_id row = xo_order_id rq \<and> ow_status row = xr_status r \<and> ow_exchange_order_id row = xr_exchange_order_id r"
  using assms
proof (induction n arbitrary: w)
  case 0
  obtain oel w1 where i: "insert_execution_log X rq ex w = (oel, w1)" by fastforce
  obtain a w2 where t: "try_submit X rq w1 = (a, w2)" by fastforce
  show ?case using 0 insert_frame [OF i] try_submit_frame [OF t]
    by (cases a) (auto simp: i t exec_frame record_final_def update_order_record_def Let_def)
next
  case (Suc n)
  obtain oel w1 where i: "insert_execution_log X rq ex w = (oel, w1)" by fastforce
  obtain a w2 where t: "try_submit X rq w1 = (a, w2)" by fastforce
  note frame = insert_frame [OF i] try_submit_frame [OF t]
  have rest: ?case if "execute_attempts X rq ex (Suc n) v = (res, w')" "xw_order_writes v = xw_order_writes w" for v
    using Suc.IH [OF that(1) Suc.prems(2)] that(2) by simp
  show ?case
  proof (cases a)
    case (Returned r)
    show ?thesis
    proof (cases "is_transient r")
      case True
      then show ?thesis using Suc.prems(1) Returned frame
        by (intro rest [of "update_execution_log X oel r w2"]) (simp_all add: i t exec_frame)
    next
      case False
      then show ?thesis using Suc.prems Returned frame
        by (auto simp: i t exec_frame record_final_def update_order_record_def)
    qed
  next
    case (Value_error m)
    then show ?thesis using Suc.prems frame by (auto simp: i t exec_frame record_final_def update_order_record_def)
  next
    case (Raised m)
    then show ?thesis using Suc.prems(1) frame by (intro rest [of w2]) (simp_all add: i t)
  qed
qed

text \<open>
  C27. Executing an order always returns a result and writes exactly that result's status to the
  order's row, once. It submits at most three times, and submits again only after an attempt
  that got no answer from the exchange: one that raised, or that the adapter reported as not
  routed.
\<close>

theorem execute_answers:
  assumes "execute X rq w = (res, w')" "\<not> xe_db_fails X Order_update"
  shows "\<exists>r row k. res = Some r \<and> xw_order_writes w' = xw_order_writes w @ [row] \<and>
    ow_order_id row = xo_order_id rq \<and> ow_status row = xr_status r \<and> ow_exchange_order_id row = xr_exchange_order_id r \<and>
    k \<le> 3 \<and> xw_submits w' = xw_submits w @ replicate k rq \<and>
    (\<forall>i<k - 1. \<exists>a. answered X rq (length (xw_submits w) + i) a \<and> no_answer a)"
proof -
  have e: "execute_attempts X rq (get_account_exchange X (xo_account_id rq)) (Suc 2) w = (res, w')"
    using assms(1) by (simp add: execute_def MAX_RETRIES_def numeral_3_eq_3 numeral_2_eq_2)
  show ?thesis using attempts_result [OF e assms(2)] attempts_submits [OF e] by (simp add: numeral_3_eq_3)
qed

section \<open>Dead letters\<close>

lemma attempts_no_dead_letter:
  assumes "\<And>i ad r. xe_submit X i ad rq \<noteq> Raised r" "execute_attempts X rq ex n w = (res, w')"
    and "\<And>m. load_adapter (xe_account X) (xo_account_id rq) \<noteq> Raised m"
  shows "xw_dead_letters w' = xw_dead_letters w"
  using assms(2)
proof (induction n arbitrary: w)
  case (Suc n)
  obtain oel w1 where i: "insert_execution_log X rq ex w = (oel, w1)" by fastforce
  obtain a w2 where t: "try_submit X rq w1 = (a, w2)" by fastforce
  note frame = insert_frame [OF i] try_submit_frame [OF t]
  have "a \<noteq> Raised m" for m
    using t assms(1,3) by (auto simp: try_submit_def registry_get_def split: outcome.splits prod.splits option.splits)
  then show ?case using Suc.prems Suc.IH [of "update_execution_log X oel r w2" for r] frame
    by (cases a) (auto simp: i t exec_frame split: if_splits)
qed simp

text \<open>
  The table of dead letters is meant for orders whose retries are exhausted. An adapter
  reports a failed connection as a result that was not routed, it does not raise; however
  often such an order is retried, no dead letter is written for it.
\<close>

theorem unrouted_not_dead_lettered:
  assumes "\<And>i ad m. xe_submit X i ad rq \<noteq> Raised m" "\<And>m. load_adapter (xe_account X) (xo_account_id rq) \<noteq> Raised m"
  shows "xw_dead_letters (snd (execute X rq w)) = xw_dead_letters w"
proof -
  obtain res w' where e: "execute_attempts X rq (get_account_exchange X (xo_account_id rq)) MAX_RETRIES w = (res, w')"
    by fastforce
  show ?thesis using attempts_no_dead_letter [OF assms(1) e assms(2)] by (simp add: execute_def e)
qed

section \<open>Concrete executions\<close>

definition demo_exec_order :: exec_order where
  "demo_exec_order = \<lparr>xo_order_id = ''o1'', xo_account_id = ''acc'', xo_symbol = ''BTC-USDT'', xo_side = ''buy'',
     xo_signal = ''open_long'', xo_order_type = ''market'', xo_size = 1, xo_price = None, xo_leverage = Some 2,
     xo_margin_mode = Some ''isolated'', xo_tp_price = None, xo_sl_price = None, xo_signal_log_id = None\<rparr>"

definition demo_executor :: "(nat \<Rightarrow> exec_result outcome) \<Rightarrow> exec_env" where
  "demo_executor answer = \<lparr>xe_db_fails = (\<lambda>_. False), xe_exchange = (\<lambda>_. Some ''blofin''),
     xe_account = (\<lambda>_. Returned (Some \<lparr>ar_exchange = ''blofin'', ar_mode = ''live'', ar_position_mode = None\<rparr>)),
     xe_submit = (\<lambda>i _ _. answer i)\<rparr>"

definition idle_executor :: executor_world where
  "idle_executor = \<lparr>xw_instances = [], xw_submits = [], xw_log = [], xw_order_writes = [], xw_dead_letters = []\<rparr>"

definition filled_result :: exec_result where
  "filled_result = (exec_failed [])\<lparr>xr_success := True, xr_status := Exec_filled, xr_error_msg := None,
     xr_actual_fill_price := Some 100, xr_actual_fill_size := Some 1\<rparr>"

text \<open>A submit that is not routed, then one that fills: two submits, one order row.\<close>

lemma execute_answers_witness:
  "\<exists>w'. execute (demo_executor (\<lambda>i. Returned (if i = 0 then exec_failed ''timeout'' else filled_result)))
        demo_exec_order idle_executor = (Some filled_result, w') \<and>
     xw_submits w' = [demo_exec_order, demo_exec_order] \<and> map ow_status (xw_order_writes w') = [Exec_filled]"
proof -
  let ?X = "demo_executor (\<lambda>i. Returned (if i = 0 then exec_failed ''timeout'' else filled_result))"
  obtain res w' where e: "execute ?X demo_exec_order idle_executor = (res, w')" by fastforce
  have "\<not> xe_db_fails ?X Order_update" by code_simp
  from execute_answers [OF e this] have "\<exists>row. xw_order_writes w' = xw_order_writes idle_executor @ [row]" by blast
  moreover have "fst (execute ?X demo_exec_order idle_executor) = Some filled_result" by code_simp
  moreover have "xw_submits (snd (execute ?X demo_exec_order idle_executor)) = [demo_exec_order, demo_exec_order]"
    by code_simp
  moreover have "map ow_status (xw_order_writes (snd (execute ?X demo_exec_order idle_executor))) = [Exec_filled]"
    by code_simp
  ultimately show ?thesis using e by simp
qed

lemma unrouted_not_dead_lettered_witness:
  "xw_dead_letters (snd (execute (demo_executor (\<lambda>_. Returned (exec_failed ''timeout''))) demo_exec_order idle_executor)) = [] \<and>
   length (xw_submits (snd (execute (demo_executor (\<lambda>_. Returned (exec_failed ''timeout''))) demo_exec_order idle_executor))) = 3"
proof
  have "xw_dead_letters (snd (execute (demo_executor (\<lambda>_. Returned (exec_failed ''timeout''))) demo_exec_order idle_executor)) =
      xw_dead_letters idle_executor"
    by (rule unrouted_not_dead_lettered) (simp_all add: demo_executor_def load_adapter_def Let_def)
  then show "xw_dead_letters (snd (execute (demo_executor (\<lambda>_. Returned (exec_failed ''timeout''))) demo_exec_order idle_executor)) = []"
    by (simp add: idle_executor_def)
qed code_simp

end
