(* ===== verification/ModifyStops.thy ===== *)
theory ModifyStops
  imports ExecuteOrder
begin

text \<open>
  Moving the stops of a position: \<open>modify_stops\<close>, \<open>_find_landed_leg\<close> and the position mode
  of \<open>order-executor/app/main.py\<close>. The adapter is a parameter: what it answers to a call
  may depend on every call made before it and on the answers those got (the history). An
  answer is \<open>Inl m\<close> when the call raised.
\<close>

section \<open>Requests and answers\<close>

text \<open>A trigger price as the exchange reports it: missing, not a number, or a number.\<close>

datatype raw_px = No_px | Bad_px | Px rat

record trigger =
  tg_oid :: string
  tg_tpsl :: string
  tg_px :: raw_px

record cancel_answer =
  ca_success :: bool
  ca_error :: "string option"

record placed_leg =
  pl_tpsl :: string
  pl_error :: "string option"

record place_request =
  pq_symbol :: string
  pq_side :: string
  pq_size :: rat
  pq_tp :: "rat option"
  pq_sl :: "rat option"
  pq_leg_side :: "string option"

datatype stop_event =
    Read "string + trigger list option"
  | Cancelled string "string + cancel_answer"
  | Placed place_request "string + placed_leg list"

type_synonym history = "stop_event list"

record venue_holding =
  op_symbol :: string
  op_side :: string
  op_size :: rat

record stops_env =
  se_adapter :: "string \<Rightarrow> string + adapter"
  se_positions :: "string + venue_holding list"
  se_triggers :: "string \<Rightarrow> string option \<Rightarrow> history \<Rightarrow> string + trigger list option"
  se_cancel :: "string \<Rightarrow> string \<Rightarrow> history \<Rightarrow> string + cancel_answer"
  se_place :: "place_request \<Rightarrow> history \<Rightarrow> string + placed_leg list"

record stops_request =
  mr_symbol :: string
  mr_side :: string
  mr_tp :: "rat option"
  mr_sl :: "rat option"
  mr_clear_tp :: bool
  mr_clear_sl :: bool

datatype stops_error =
    No_open_position string string
  | Triggers_unreadable
  | Stop_not_landed nat "bool option"
  | Target_not_landed nat "bool option"
  | Stops_raised string

record stops_answer =
  sn_success :: bool
  sn_cancelled :: "(string \<times> string \<times> cancel_answer) list"
  sn_placed :: "placed_leg list"
  sn_sl_ok :: "bool option"
  sn_tp_ok :: "bool option"
  sn_sl_oid :: "string option"
  sn_tp_oid :: "string option"
  sn_attempts :: nat
  sn_preserved :: "(string \<times> rat) list"
  sn_error :: "stops_error option"

section \<open>Reading triggers\<close>

definition MODIFY_STOPS_VERIFY_ATTEMPTS :: nat where "MODIFY_STOPS_VERIFY_ATTEMPTS = 3"
definition MODIFY_STOPS_PRICE_TOLERANCE :: rat where "MODIFY_STOPS_PRICE_TOLERANCE = 1 / 1000"
definition MODIFY_STOPS_READ_RETRIES :: nat where "MODIFY_STOPS_READ_RETRIES = 2"

definition landed_at :: "string \<Rightarrow> rat \<Rightarrow> trigger \<Rightarrow> bool" where
  "landed_at tpsl requested t \<longleftrightarrow> tg_tpsl t = tpsl \<and>
     (case tg_px t of
        Px actual \<Rightarrow> requested \<noteq> 0 \<and> \<bar>actual - requested\<bar> / \<bar>requested\<bar> \<le> MODIFY_STOPS_PRICE_TOLERANCE
      | _ \<Rightarrow> False)"

fun find_landed_leg :: "trigger list \<Rightarrow> string \<Rightarrow> rat \<Rightarrow> trigger option" where
  "find_landed_leg [] tpsl requested = None"
| "find_landed_leg (t # ts) tpsl requested =
     (if landed_at tpsl requested t then Some t else find_landed_leg ts tpsl requested)"

text \<open>The price of the last readable trigger of a kind.\<close>

definition existing_price :: "string \<Rightarrow> trigger list \<Rightarrow> rat option" where
  "existing_price tpsl ts =
     foldl (\<lambda>px t. case tg_px t of Px p \<Rightarrow> if tg_tpsl t = tpsl then Some p else px | _ \<Rightarrow> px) None ts"

definition effective_price :: "rat option \<Rightarrow> bool \<Rightarrow> rat option \<Rightarrow> rat option" where
  "effective_price asked clear existing = (if asked = None \<and> \<not> clear then existing else asked)"

definition preserved_legs :: "stops_request \<Rightarrow> rat option \<Rightarrow> rat option \<Rightarrow> (string \<times> rat) list" where
  "preserved_legs rq eff_tp eff_sl =
     (case (mr_tp rq, eff_tp) of (None, Some p) \<Rightarrow> [(''tp'', p)] | _ \<Rightarrow> []) @
     (case (mr_sl rq, eff_sl) of (None, Some p) \<Rightarrow> [(''sl'', p)] | _ \<Rightarrow> [])"

section \<open>Cancelling\<close>

fun cancel_all ::
  "stops_env \<Rightarrow> string \<Rightarrow> trigger list \<Rightarrow> history \<Rightarrow> (string + (string \<times> string \<times> cancel_answer) list) \<times> history" where
  "cancel_all E symbol [] h = (Inr [], h)"
| "cancel_all E symbol (t # ts) h =
     (let a = se_cancel E symbol (tg_oid t) h; h1 = h @ [Cancelled (tg_oid t) a]
      in case a of
           Inl m \<Rightarrow> (Inl m, h1)
         | Inr r \<Rightarrow>
             (case cancel_all E symbol ts h1 of
                (Inl m, h2) \<Rightarrow> (Inl m, h2)
              | (Inr rs, h2) \<Rightarrow> (Inr ((tg_oid t, tg_tpsl t, r) # rs), h2)))"

section \<open>Placing and verifying\<close>

datatype leg_state = Leg_pending | Leg_awaiting | Leg_confirmed

record legs_state =
  ls_sl :: "leg_state option"
  ls_tp :: "leg_state option"
  ls_sl_oid :: "string option"
  ls_tp_oid :: "string option"
  ls_placed :: "placed_leg list"
  ls_attempts :: nat

text \<open>What does not change during the loop: the symbol, the sizes and the effective prices.\<close>

record stops_plan =
  sp_symbol :: string
  sp_trigger_side :: string
  sp_size :: rat
  sp_leg_side :: "string option"
  sp_tp :: "rat option"
  sp_sl :: "rat option"

definition start_legs :: "stops_plan \<Rightarrow> legs_state" where
  "start_legs P = \<lparr>ls_sl = (if sp_sl P = None then None else Some Leg_pending),
     ls_tp = (if sp_tp P = None then None else Some Leg_pending),
     ls_sl_oid = None, ls_tp_oid = None, ls_placed = [], ls_attempts = 0\<rparr>"

definition place_args :: "stops_plan \<Rightarrow> legs_state \<Rightarrow> place_request" where
  "place_args P L = \<lparr>pq_symbol = sp_symbol P, pq_side = sp_trigger_side P, pq_size = sp_size P,
     pq_tp = (if ls_tp L = Some Leg_pending then sp_tp P else None),
     pq_sl = (if ls_sl L = Some Leg_pending then sp_sl P else None),
     pq_leg_side = sp_leg_side P\<rparr>"

definition state_after_report :: "placed_leg \<Rightarrow> leg_state" where
  "state_after_report leg = (if pl_error leg \<noteq> None then Leg_pending else Leg_awaiting)"

definition mark_leg :: "place_request \<Rightarrow> legs_state \<Rightarrow> placed_leg \<Rightarrow> legs_state" where
  "mark_leg q L leg =
     (if pl_tpsl leg = ''sl'' \<and> pq_sl q \<noteq> None then L\<lparr>ls_sl := Some (state_after_report leg)\<rparr>
      else if pl_tpsl leg = ''tp'' \<and> pq_tp q \<noteq> None then L\<lparr>ls_tp := Some (state_after_report leg)\<rparr>
      else L)"

definition mark_reported :: "place_request \<Rightarrow> placed_leg list \<Rightarrow> legs_state \<Rightarrow> legs_state" where
  "mark_reported q legs L = foldl (mark_leg q) L legs"

text \<open>Up to \<open>n\<close> reads, until one of them is not unknown.\<close>

fun read_back :: "stops_env \<Rightarrow> stops_plan \<Rightarrow> nat \<Rightarrow> history \<Rightarrow> (string + trigger list option) \<times> history" where
  "read_back E P 0 h = (Inr None, h)"
| "read_back E P (Suc n) h =
     (let a = se_triggers E (sp_symbol P) (sp_leg_side P) h; h1 = h @ [Read a]
      in case a of Inr None \<Rightarrow> read_back E P n h1 | _ \<Rightarrow> (a, h1))"

definition unconfirmed :: "leg_state option \<Rightarrow> bool" where
  "unconfirmed s \<longleftrightarrow> s = Some Leg_awaiting \<or> s = Some Leg_pending"

definition confirm_sl :: "stops_plan \<Rightarrow> trigger list \<Rightarrow> legs_state \<Rightarrow> legs_state" where
  "confirm_sl P verify L =
     (case sp_sl P of
        Some px \<Rightarrow>
          if unconfirmed (ls_sl L) then
            (case find_landed_leg verify ''sl'' px of
               Some t \<Rightarrow> L\<lparr>ls_sl_oid := Some (tg_oid t), ls_sl := Some Leg_confirmed\<rparr>
             | None \<Rightarrow> if ls_sl L = Some Leg_awaiting then L\<lparr>ls_sl := Some Leg_pending\<rparr> else L)
          else L
      | None \<Rightarrow> L)"

definition confirm_tp :: "stops_plan \<Rightarrow> trigger list \<Rightarrow> legs_state \<Rightarrow> legs_state" where
  "confirm_tp P verify L =
     (case sp_tp P of
        Some px \<Rightarrow>
          if unconfirmed (ls_tp L) then
            (case find_landed_leg verify ''tp'' px of
               Some t \<Rightarrow> L\<lparr>ls_tp_oid := Some (tg_oid t), ls_tp := Some Leg_confirmed\<rparr>
             | None \<Rightarrow> if ls_tp L = Some Leg_awaiting then L\<lparr>ls_tp := Some Leg_pending\<rparr> else L)
          else L
      | None \<Rightarrow> L)"

definition place_attempt ::
  "stops_env \<Rightarrow> stops_plan \<Rightarrow> legs_state \<Rightarrow> history \<Rightarrow> (string + legs_state) \<times> history" where
  "place_attempt E P L h =
     (let q = place_args P L; a = se_place E q h; h1 = h @ [Placed q a]
      in case a of
           Inl m \<Rightarrow> (Inl m, h1)
         | Inr legs \<Rightarrow>
             (let L1 = mark_reported q legs (L\<lparr>ls_attempts := Suc (ls_attempts L), ls_placed := ls_placed L @ legs\<rparr>)
              in case read_back E P (Suc MODIFY_STOPS_READ_RETRIES) h1 of
                   (Inl m, h2) \<Rightarrow> (Inl m, h2)
                 | (Inr None, h2) \<Rightarrow> (Inr L1, h2)
                 | (Inr (Some verify), h2) \<Rightarrow> (Inr (confirm_tp P verify (confirm_sl P verify L1)), h2)))"

definition leg_pending :: "legs_state \<Rightarrow> bool" where
  "leg_pending L \<longleftrightarrow> ls_sl L = Some Leg_pending \<or> ls_tp L = Some Leg_pending"

fun place_loop ::
  "stops_env \<Rightarrow> stops_plan \<Rightarrow> nat \<Rightarrow> legs_state \<Rightarrow> history \<Rightarrow> (string + legs_state) \<times> history" where
  "place_loop E P 0 L h = (Inr L, h)"
| "place_loop E P (Suc left) L h =
     (if leg_pending L then
        (case place_attempt E P L h of
           (Inl m, h1) \<Rightarrow> (Inl m, h1)
         | (Inr L1, h1) \<Rightarrow> place_loop E P left L1 h1)
      else (Inr L, h))"

section \<open>The route\<close>

definition stops_refusal :: "stops_error \<Rightarrow> stops_answer" where
  "stops_refusal e = \<lparr>sn_success = False, sn_cancelled = [], sn_placed = [], sn_sl_ok = None, sn_tp_ok = None,
     sn_sl_oid = None, sn_tp_oid = None, sn_attempts = 0, sn_preserved = [], sn_error = Some e\<rparr>"

definition nothing_to_do :: stops_answer where
  "nothing_to_do = \<lparr>sn_success = True, sn_cancelled = [], sn_placed = [], sn_sl_ok = None, sn_tp_ok = None,
     sn_sl_oid = None, sn_tp_oid = None, sn_attempts = 0, sn_preserved = [], sn_error = None\<rparr>"

definition leg_ok :: "rat option \<Rightarrow> leg_state option \<Rightarrow> bool option" where
  "leg_ok eff s = (if eff = None then None else Some (s = Some Leg_confirmed))"

definition stops_outcome ::
  "stops_plan \<Rightarrow> (string \<times> string \<times> cancel_answer) list \<Rightarrow> (string \<times> rat) list \<Rightarrow> legs_state \<Rightarrow> stops_answer" where
  "stops_outcome P cancelled preserved L =
     (let sl_ok = leg_ok (sp_sl P) (ls_sl L); tp_ok = leg_ok (sp_tp P) (ls_tp L)
      in \<lparr>sn_success = (sl_ok \<noteq> Some False \<and> tp_ok \<noteq> Some False), sn_cancelled = cancelled, sn_placed = ls_placed L,
          sn_sl_ok = sl_ok, sn_tp_ok = tp_ok, sn_sl_oid = ls_sl_oid L, sn_tp_oid = ls_tp_oid L,
          sn_attempts = ls_attempts L, sn_preserved = preserved,
          sn_error = (if sl_ok = Some False then Some (Stop_not_landed (ls_attempts L) tp_ok)
                      else if tp_ok = Some False then Some (Target_not_landed (ls_attempts L) sl_ok) else None)\<rparr>)"

definition hedge :: "adapter \<Rightarrow> bool" where
  "hedge a \<longleftrightarrow> ad_position_mode a = ''hedge''"

definition plan_of :: "stops_request \<Rightarrow> string option \<Rightarrow> rat \<Rightarrow> trigger list \<Rightarrow> stops_plan" where
  "plan_of rq leg_side amount existing =
     \<lparr>sp_symbol = mr_symbol rq, sp_trigger_side = (if mr_side rq = ''long'' then ''sell'' else ''buy''),
      sp_size = amount, sp_leg_side = leg_side,
      sp_tp = effective_price (mr_tp rq) (mr_clear_tp rq) (existing_price ''tp'' existing),
      sp_sl = effective_price (mr_sl rq) (mr_clear_sl rq) (existing_price ''sl'' existing)\<rparr>"

text \<open>From the confirmed read of the resting triggers on.\<close>

definition replace_stops ::
  "stops_env \<Rightarrow> stops_request \<Rightarrow> stops_plan \<Rightarrow> trigger list \<Rightarrow> history \<Rightarrow> stops_answer \<times> history" where
  "replace_stops E rq P existing h =
     (if sp_tp P = None \<and> sp_sl P = None \<and> \<not> (mr_clear_tp rq \<or> mr_clear_sl rq) then (nothing_to_do, h)
      else case cancel_all E (sp_symbol P) existing h of
             (Inl m, h1) \<Rightarrow> (stops_refusal (Stops_raised m), h1)
           | (Inr cancelled, h1) \<Rightarrow>
               (case place_loop E P MODIFY_STOPS_VERIFY_ATTEMPTS (start_legs P) h1 of
                  (Inl m, h2) \<Rightarrow> (stops_refusal (Stops_raised m), h2)
                | (Inr L, h2) \<Rightarrow> (stops_outcome P cancelled (preserved_legs rq (sp_tp P) (sp_sl P)) L, h2)))"

definition modify_stops :: "stops_env \<Rightarrow> string \<Rightarrow> stops_request \<Rightarrow> stops_answer \<times> history" where
  "modify_stops E account rq =
     (case se_adapter E account of
        Inl m \<Rightarrow> (stops_refusal (Stops_raised m), [])
      | Inr adapter \<Rightarrow>
          (let leg_side = (if hedge adapter then Some (mr_side rq) else None)
           in case se_positions E of
                Inl m \<Rightarrow> (stops_refusal (Stops_raised m), [])
              | Inr positions \<Rightarrow>
                  (case List.find (\<lambda>p. op_symbol p = mr_symbol rq \<and> op_side p = mr_side rq) positions of
                     None \<Rightarrow> (stops_refusal (No_open_position (mr_side rq) (mr_symbol rq)), [])
                   | Some target \<Rightarrow>
                       (let a = se_triggers E (mr_symbol rq) leg_side []; h = [Read a]
                        in case a of
                             Inl m \<Rightarrow> (stops_refusal (Stops_raised m), h)
                           | Inr None \<Rightarrow> (stops_refusal Triggers_unreadable, h)
                           | Inr (Some existing) \<Rightarrow>
                               replace_stops E rq (plan_of rq leg_side (op_size target) existing) existing h))))"

section \<open>The position mode\<close>

text \<open>
  \<open>set_position_mode\<close>: the exchange first, the column only once it agreed. The state is the
  column; \<open>switch\<close> is the adapter's answer (\<open>None\<close> for an adapter without modes).
\<close>

record mode_answer =
  ma_success :: bool
  ma_mode :: "string option"
  ma_error :: "string option"

definition set_position_mode ::
  "(string + adapter) \<Rightarrow> (string \<Rightarrow> cancel_answer) option \<Rightarrow> bool \<Rightarrow> string \<Rightarrow> string \<Rightarrow> (nat + mode_answer) \<times> string" where
  "set_position_mode adapter switch db_fails mode column =
     (if mode \<noteq> ''net'' \<and> mode \<noteq> ''hedge'' then (Inl 400, column)
      else case adapter of
             Inl m \<Rightarrow> (Inl 404, column)
           | Inr a \<Rightarrow>
               (case switch of
                  None \<Rightarrow> (Inl 400, column)
                | Some f \<Rightarrow>
                    (let result = f mode
                     in if \<not> ca_success result then
                          (Inr \<lparr>ma_success = False, ma_mode = None, ma_error = ca_error result\<rparr>, column)
                        else if db_fails then
                          (Inr \<lparr>ma_success = False, ma_mode = Some mode, ma_error = Some ''database write failed''\<rparr>, column)
                        else (Inr \<lparr>ma_success = True, ma_mode = Some mode, ma_error = None\<rparr>, mode))))"

text \<open>\<open>agrees\<close> of \<open>get_position_mode\<close>: unknown when the exchange could not be read.\<close>

definition mode_agrees :: "string \<Rightarrow> string option \<Rightarrow> bool option" where
  "mode_agrees stored live = (case live of None \<Rightarrow> None | Some l \<Rightarrow> Some (l = stored))"

text \<open>
  The three-state contract of \<open>get_positions\<close>: a list is a confirmed read, an exception of
  any kind is a 503.
\<close>

definition get_positions :: "string + 'a list \<Rightarrow> nat + 'a list" where
  "get_positions read = (case read of Inl m \<Rightarrow> Inl 503 | Inr ps \<Rightarrow> Inr ps)"

end
