(* ===== verification/StopsSafety.thy ===== *)
theory StopsSafety
  imports ModifyStops
begin

text \<open>
  What moving the stops guarantees. The two legs, stop and target, go through the same
  states in the same loop; the locale \<open>stop_leg\<close> states what the loop does to one leg, its
  lemmas are proved once, and it is interpreted for the stop and for the target.
\<close>

section \<open>The reports of the adapter\<close>

text \<open>The adapter reported a leg of this kind placed: its last entry for it has no error.\<close>

definition reported :: "string \<Rightarrow> placed_leg list \<Rightarrow> bool" where
  "reported tpsl legs =
     (case rev (filter (\<lambda>l. pl_tpsl l = tpsl) legs) of [] \<Rightarrow> False | l # _ \<Rightarrow> pl_error l = None)"

lemma reported_snoc:
  "reported tpsl (legs @ [l]) = (if pl_tpsl l = tpsl then pl_error l = None else reported tpsl legs)"
  by (simp add: reported_def)

lemma reported_Nil [simp]: "\<not> reported tpsl []"
  by (simp add: reported_def)

section \<open>One leg\<close>

text \<open>
  Every earlier placement of the leg was either not reported placed or was followed by a
  confirmed read in which the leg does not rest.
\<close>

definition may_place :: "string \<Rightarrow> (place_request \<Rightarrow> rat option) \<Rightarrow> history \<Rightarrow> bool" where
  "may_place tpsl req h \<longleftrightarrow>
     (\<forall>pre q legs mid px. h = pre @ Placed q (Inr legs) # mid \<longrightarrow> req q = Some px \<longrightarrow> reported tpsl legs \<longrightarrow>
        (\<exists>v. Read (Inr (Some v)) \<in> set mid \<and> find_landed_leg v tpsl px = None))"

text \<open>Every placement of the leg was one that could be made.\<close>

definition no_blind_place :: "string \<Rightarrow> (place_request \<Rightarrow> rat option) \<Rightarrow> history \<Rightarrow> bool" where
  "no_blind_place tpsl req h \<longleftrightarrow>
     (\<forall>pre q a post. h = pre @ Placed q a # post \<longrightarrow> req q \<noteq> None \<longrightarrow> may_place tpsl req pre)"

text \<open>A confirmed read shows the leg, and the leg was not placed again after it.\<close>

definition seen_resting :: "string \<Rightarrow> (place_request \<Rightarrow> rat option) \<Rightarrow> rat \<Rightarrow> string option \<Rightarrow> history \<Rightarrow> bool" where
  "seen_resting tpsl req px oid h \<longleftrightarrow>
     (\<exists>pre v t post. h = pre @ Read (Inr (Some v)) # post \<and> find_landed_leg v tpsl px = Some t \<and>
        oid = Some (tg_oid t) \<and> (\<forall>q a. Placed q a \<in> set post \<longrightarrow> req q = None))"

definition is_read :: "stop_event \<Rightarrow> bool" where
  "is_read e \<longleftrightarrow> (\<exists>a. e = Read a)"

definition is_place :: "stop_event \<Rightarrow> bool" where
  "is_place e \<longleftrightarrow> (\<exists>q a. e = Placed q a)"

lemma event_kinds [simp]:
  "is_read (Read a)" "\<not> is_read (Cancelled i b)" "\<not> is_read (Placed q c)"
  "\<not> is_place (Read a)" "\<not> is_place (Cancelled i b)" "is_place (Placed q c)"
  by (auto simp: is_read_def is_place_def)

lemma may_place_Nil [simp]: "may_place tpsl req []"
  by (simp add: may_place_def)

lemma split_snoc:
  "(h @ [e] = pre @ x # post) \<longleftrightarrow> (post = [] \<and> pre = h \<and> x = e) \<or> (\<exists>p. post = p @ [e] \<and> h = pre @ x # p)"
  by (cases post rule: rev_cases) auto

lemma may_place_snoc:
  assumes "may_place tpsl req h"
    and "\<And>q legs px. \<lbrakk>e = Placed q (Inr legs); req q = Some px\<rbrakk> \<Longrightarrow> \<not> reported tpsl legs"
  shows "may_place tpsl req (h @ [e])"
  unfolding may_place_def
proof (intro allI impI)
  fix pre q legs mid px
  assume eq: "h @ [e] = pre @ Placed q (Inr legs) # mid" and "req q = Some px" "reported tpsl legs"
  then obtain p where "mid = p @ [e]" "h = pre @ Placed q (Inr legs) # p"
    using assms(2) by (auto simp: split_snoc)
  with assms(1) \<open>req q = Some px\<close> \<open>reported tpsl legs\<close>
  show "\<exists>v. Read (Inr (Some v)) \<in> set mid \<and> find_landed_leg v tpsl px = None"
    unfolding may_place_def by fastforce
qed

text \<open>A confirmed read without the leg allows the next placement, whatever was placed before.\<close>

lemma may_place_absent:
  assumes "find_landed_leg v tpsl px = None" "\<And>q a. Placed q a \<in> set h \<Longrightarrow> req q = None \<or> req q = Some px"
  shows "may_place tpsl req (h @ [Read (Inr (Some v))])"
  unfolding may_place_def
proof (intro allI impI)
  fix pre q legs mid px'
  assume eq: "h @ [Read (Inr (Some v))] = pre @ Placed q (Inr legs) # mid" and px': "req q = Some px'"
  then obtain p where p: "mid = p @ [Read (Inr (Some v))]" "h = pre @ Placed q (Inr legs) # p"
    by (auto simp: split_snoc)
  then have "px' = px" using assms(2) [of q "Inr legs"] px' by auto
  then show "\<exists>v. Read (Inr (Some v)) \<in> set mid \<and> find_landed_leg v tpsl px' = None"
    using assms(1) p(1) by auto
qed

lemma no_place_no_blind:
  assumes "\<And>q a. Placed q a \<notin> set h"
  shows "no_blind_place tpsl req h"
  using assms unfolding no_blind_place_def by (metis in_set_conv_decomp)

lemma no_blind_place_snoc:
  "no_blind_place tpsl req (h @ [e]) \<longleftrightarrow>
     no_blind_place tpsl req h \<and> (\<forall>q a. e = Placed q a \<longrightarrow> req q \<noteq> None \<longrightarrow> may_place tpsl req h)"
  unfolding no_blind_place_def split_snoc by blast

lemma seen_resting_snoc:
  assumes "seen_resting tpsl req px oid h" "\<And>q a. e = Placed q a \<Longrightarrow> req q = None"
  shows "seen_resting tpsl req px oid (h @ [e])"
proof -
  from assms(1) obtain pre v t post where h: "h = pre @ Read (Inr (Some v)) # post"
    "find_landed_leg v tpsl px = Some t" "oid = Some (tg_oid t)" "\<forall>q a. Placed q a \<in> set post \<longrightarrow> req q = None"
    unfolding seen_resting_def by blast
  have "h @ [e] = pre @ Read (Inr (Some v)) # (post @ [e])"
    "\<forall>q a. Placed q a \<in> set (post @ [e]) \<longrightarrow> req q = None"
    using h(1,4) assms(2) by auto
  then show ?thesis unfolding seen_resting_def using h(2,3) by blast
qed

lemma seen_resting_now:
  "find_landed_leg v tpsl px = Some t \<Longrightarrow> seen_resting tpsl req px (Some (tg_oid t)) (h @ [Read (Inr (Some v))])"
  unfolding seen_resting_def by (intro exI [of _ h] exI [of _ v] exI [of _ t] exI [of _ "[]"]) simp

section \<open>Reading back\<close>

text \<open>Up to three reads; all but a last confirmed one came back unknown.\<close>

lemma read_back_events:
  assumes "read_back E P n h = (r, h')"
  obtains as where "h' = h @ map Read as" "length as \<le> n" "\<And>v. r = Inr (Some v) \<Longrightarrow> as \<noteq> [] \<and> last as = Inr (Some v)"
  using assms
proof (induction n arbitrary: h thesis)
  case 0
  then show ?case using "0.prems"(1) [of "[]"] by auto
next
  case (Suc n)
  define a where "a = se_triggers E (sp_symbol P) (sp_leg_side P) h"
  show ?case
  proof (cases "a = Inr None")
    case True
    then have "read_back E P n (h @ [Read a]) = (r, h')" using Suc.prems(2) by (simp add: a_def [symmetric])
    then obtain as where "h' = (h @ [Read a]) @ map Read as" "length as \<le> n"
      "\<And>v. r = Inr (Some v) \<Longrightarrow> as \<noteq> [] \<and> last as = Inr (Some v)"
      using Suc.IH by blast
    then show ?thesis using Suc.prems(1) [of "a # as"] by simp
  next
    case False
    then have "r = a" "h' = h @ [Read a]"
      using Suc.prems(2) by (auto simp: a_def [symmetric] Let_def split: sum.splits option.splits)
    then show ?thesis using Suc.prems(1) [of "[a]"] by simp
  qed
qed

section \<open>What the loop does to one leg\<close>

locale stop_leg =
  fixes tpsl :: string
    and st :: "legs_state \<Rightarrow> leg_state option"
    and oid :: "legs_state \<Rightarrow> string option"
    and eff :: "stops_plan \<Rightarrow> rat option"
    and req :: "place_request \<Rightarrow> rat option"
  assumes asked: "req (place_args P L) = (if st L = Some Leg_pending then eff P else None)"
    and counted: "st (L\<lparr>ls_attempts := n, ls_placed := ps\<rparr>) = st L" "oid (L\<lparr>ls_attempts := n, ls_placed := ps\<rparr>) = oid L"
    and marked: "st (mark_leg q L leg) =
      (if pl_tpsl leg = tpsl \<and> req q \<noteq> None then Some (state_after_report leg) else st L)" "oid (mark_leg q L leg) = oid L"
    and confirmed: "(st (confirm_tp P v (confirm_sl P v L)), oid (confirm_tp P v (confirm_sl P v L))) =
      (case eff P of
         Some px \<Rightarrow>
           if unconfirmed (st L) then
             (case find_landed_leg v tpsl px of
                Some t \<Rightarrow> (Some Leg_confirmed, Some (tg_oid t))
              | None \<Rightarrow> (Some Leg_pending, oid L))
           else (st L, oid L)
       | None \<Rightarrow> (st L, oid L))"
    and started: "st (start_legs P) = (if eff P = None then None else Some Leg_pending)"
begin

lemma mark_reported_leg:
  "st (mark_reported q legs L) =
     (if req q = None \<or> (\<forall>l\<in>set legs. pl_tpsl l \<noteq> tpsl) then st L
      else Some (if reported tpsl legs then Leg_awaiting else Leg_pending))"
  "oid (mark_reported q legs L) = oid L"
proof (induction legs rule: rev_induct)
  case (snoc l legs)
  have "st (mark_reported q (legs @ [l]) L) = st (mark_leg q (mark_reported q legs L) l)"
    by (simp add: mark_reported_def)
  then show "st (mark_reported q (legs @ [l]) L) =
     (if req q = None \<or> (\<forall>l\<in>set (legs @ [l]). pl_tpsl l \<noteq> tpsl) then st L
      else Some (if reported tpsl (legs @ [l]) then Leg_awaiting else Leg_pending))"
    using snoc(1) by (auto simp: marked reported_snoc state_after_report_def)
  show "oid (mark_reported q (legs @ [l]) L) = oid L"
    using snoc(2) by (simp add: mark_reported_def marked)
qed (simp_all add: mark_reported_def)

lemma pending_unreported:
  assumes "req q \<noteq> None" "st (mark_reported q legs L) = Some Leg_pending"
  shows "\<not> reported tpsl legs"
proof
  assume r: "reported tpsl legs"
  have "filter (\<lambda>l. pl_tpsl l = tpsl) legs \<noteq> []"
  proof
    assume "filter (\<lambda>l. pl_tpsl l = tpsl) legs = []"
    then have "\<not> reported tpsl legs" by (simp add: reported_def)
    with r show False by simp
  qed
  then obtain l where "l \<in> set legs" "pl_tpsl l = tpsl" by (auto simp: filter_empty_conv)
  then show False using assms r by (auto simp: mark_reported_leg split: if_splits)
qed

text \<open>The loop's invariant for the leg.\<close>

definition leg_inv :: "stops_plan \<Rightarrow> legs_state \<Rightarrow> history \<Rightarrow> bool" where
  "leg_inv P L h \<longleftrightarrow>
     no_blind_place tpsl req h \<and>
     (\<forall>q a. Placed q a \<in> set h \<longrightarrow> req q = None \<or> req q = eff P) \<and>
     (st L = Some Leg_pending \<longrightarrow> may_place tpsl req h) \<and>
     (st L = Some Leg_confirmed \<longrightarrow> (\<exists>px. eff P = Some px \<and> seen_resting tpsl req px (oid L) h)) \<and>
     (eff P = None \<longrightarrow> st L = None)"

lemma leg_inv_read:
  assumes "leg_inv P L h" shows "leg_inv P L (h @ [Read a])"
proof -
  have "st L = Some Leg_pending \<Longrightarrow> may_place tpsl req (h @ [Read a])"
    using assms by (intro may_place_snoc) (auto simp: leg_inv_def)
  moreover have "seen_resting tpsl req px (oid L) (h @ [Read a])" if "seen_resting tpsl req px (oid L) h" for px
    by (rule seen_resting_snoc [OF that]) simp
  ultimately show ?thesis using assms by (auto simp: leg_inv_def no_blind_place_snoc)
qed

lemma leg_inv_reads: "leg_inv P L h \<Longrightarrow> leg_inv P L (h @ map Read as)"
proof (induction as rule: rev_induct)
  case (snoc a as)
  then show ?case using leg_inv_read [of P L "h @ map Read as" a] by simp
qed simp

text \<open>Placing: allowed by the invariant, and what the adapter reports keeps it.\<close>

lemma placed_blindly_not:
  assumes "leg_inv P L h"
  shows "no_blind_place tpsl req (h @ [Placed (place_args P L) a])"
  using assms by (auto simp: leg_inv_def no_blind_place_snoc asked split: if_splits)

lemma leg_inv_placed:
  assumes inv: "leg_inv P L h" and q: "q = place_args P L"
    and L1: "L1 = mark_reported q legs (L\<lparr>ls_attempts := n, ls_placed := ps\<rparr>)"
  shows "leg_inv P L1 (h @ [Placed q (Inr legs)])"
proof -
  let ?h = "h @ [Placed q (Inr legs)]"
  have blind: "no_blind_place tpsl req ?h" unfolding q by (rule placed_blindly_not [OF inv])
  have asks: "\<forall>q' a. Placed q' a \<in> set ?h \<longrightarrow> req q' = None \<or> req q' = eff P"
    using inv by (auto simp: leg_inv_def q asked)
  have same: "st L1 = st L" "oid L1 = oid L" if "req q = None"
    using that by (simp_all add: L1 mark_reported_leg counted)
  have placing: "st L = Some Leg_pending" if "req q \<noteq> None"
    using that by (simp add: q asked split: if_splits)
  have may: "may_place tpsl req ?h" if p: "st L1 = Some Leg_pending"
  proof (rule may_place_snoc)
    show "may_place tpsl req h"
      using inv p same placing by (cases "req q = None") (auto simp: leg_inv_def)
    show "\<not> reported tpsl legs'" if "Placed q (Inr legs) = Placed q' (Inr legs')" "req q' = Some px" for q' legs' px
      using pending_unreported [of q legs] p that by (auto simp: L1)
  qed
  have seen: "\<exists>px. eff P = Some px \<and> seen_resting tpsl req px (oid L1) ?h" if c: "st L1 = Some Leg_confirmed"
  proof (cases "req q = None")
    case True
    then obtain px where px: "eff P = Some px" "seen_resting tpsl req px (oid L) h"
      using inv c same by (auto simp: leg_inv_def)
    then show ?thesis using seen_resting_snoc [OF px(2)] True same by auto
  next
    case False
    then show ?thesis using c placing
      by (auto simp: L1 mark_reported_leg counted split: if_splits)
  qed
  have none: "st L1 = None" if "eff P = None"
    using that inv same by (auto simp: leg_inv_def q asked)
  show ?thesis using blind asks may seen none by (simp add: leg_inv_def)
qed

text \<open>A confirmed read: the leg is seen, or its absence allows placing it again.\<close>

lemma leg_inv_confirmed:
  assumes inv: "leg_inv P L h"
  shows "leg_inv P (confirm_tp P v (confirm_sl P v L)) (h @ [Read (Inr (Some v))])" (is "leg_inv P ?L ?h")
proof -
  have read: "leg_inv P L ?h" by (rule leg_inv_read [OF inv])
  show ?thesis
  proof (cases "\<exists>px. eff P = Some px \<and> unconfirmed (st L)")
    case False
    then have "st ?L = st L" "oid ?L = oid L" using confirmed [of P v L] by (auto split: option.splits)
    then show ?thesis using read by (simp add: leg_inv_def)
  next
    case True
    then obtain px where px: "eff P = Some px" "unconfirmed (st L)" by blast
    have asks: "\<And>q a. Placed q a \<in> set h \<Longrightarrow> req q = None \<or> req q = Some px"
      using inv px by (auto simp: leg_inv_def)
    show ?thesis
    proof (cases "find_landed_leg v tpsl px")
      case None
      then have "st ?L = Some Leg_pending" using confirmed [of P v L] px by simp
      then show ?thesis using read px may_place_absent [OF None asks] by (simp add: leg_inv_def)
    next
      case (Some t)
      then have "st ?L = Some Leg_confirmed" "oid ?L = Some (tg_oid t)" using confirmed [of P v L] px by simp_all
      then show ?thesis using read px seen_resting_now [OF Some] by (simp add: leg_inv_def)
    qed
  qed
qed

lemma attempt_keeps:
  assumes inv: "leg_inv P L h" and a: "place_attempt E P L h = (r, h')"
  shows "no_blind_place tpsl req h'" "r = Inr L' \<Longrightarrow> leg_inv P L' h'"
proof -
  define q where "q = place_args P L"
  have raised: "no_blind_place tpsl req h' \<and> (r = Inr L' \<longrightarrow> leg_inv P L' h')" if "se_place E q h = Inl m" for m
    using a that placed_blindly_not [OF inv] by (auto simp: place_attempt_def Let_def q_def)
  have reported: "no_blind_place tpsl req h' \<and> (r = Inr L' \<longrightarrow> leg_inv P L' h')" if p: "se_place E q h = Inr legs" for legs
  proof -
    define L1 where "L1 = mark_reported q legs (L\<lparr>ls_attempts := Suc (ls_attempts L), ls_placed := ls_placed L @ legs\<rparr>)"
    define h1 where "h1 = h @ [Placed q (Inr legs)]"
    have inv1: "leg_inv P L1 h1" unfolding h1_def by (rule leg_inv_placed [OF inv q_def L1_def])
    obtain rd h2 where rb: "read_back E P (Suc MODIFY_STOPS_READ_RETRIES) h1 = (rd, h2)" by fastforce
    obtain as where as: "h2 = h1 @ map Read as" "\<And>v. rd = Inr (Some v) \<Longrightarrow> as \<noteq> [] \<and> last as = Inr (Some v)"
      using read_back_events [OF rb] by blast
    have inv2: "leg_inv P L1 h2" unfolding as(1) by (rule leg_inv_reads [OF inv1])
    have att: "place_attempt E P L h =
        (case rd of Inl m \<Rightarrow> (Inl m, h2) | Inr None \<Rightarrow> (Inr L1, h2)
         | Inr (Some v) \<Rightarrow> (Inr (confirm_tp P v (confirm_sl P v L1)), h2))"
      using p rb by (simp add: place_attempt_def Let_def q_def L1_def h1_def split: sum.splits option.splits)
    have confirmed_read: "leg_inv P (confirm_tp P v (confirm_sl P v L1)) h2" if v: "rd = Inr (Some v)" for v
    proof -
      from as(2) [OF v] have "h2 = (h1 @ map Read (butlast as)) @ [Read (Inr (Some v))]"
        unfolding as(1) by (metis append.assoc append_butlast_last_id list.map(1,2) map_append)
      then show ?thesis using leg_inv_confirmed [OF leg_inv_reads [OF inv1]] by simp
    qed
    show ?thesis
      using a inv2 confirmed_read by (auto simp: att leg_inv_def split: sum.splits option.splits)
  qed
  show "no_blind_place tpsl req h'" "r = Inr L' \<Longrightarrow> leg_inv P L' h'"
    using raised reported by (cases "se_place E q h"; auto)+
qed

lemma loop_keeps:
  assumes "leg_inv P L h" "place_loop E P n L h = (r, h')"
  shows "no_blind_place tpsl req h' \<and> (\<forall>L'. r = Inr L' \<longrightarrow> leg_inv P L' h')"
  using assms
proof (induction n arbitrary: L h)
  case (Suc n)
  obtain r1 h1 where a: "place_attempt E P L h = (r1, h1)" by fastforce
  note kept = attempt_keeps [OF Suc.prems(1) a]
  show ?case
  proof (cases "leg_pending L")
    case False
    then show ?thesis using Suc.prems by (auto simp: leg_inv_def)
  next
    case True
    then show ?thesis using Suc.prems(2) kept Suc.IH a by (cases r1) auto
  qed
qed (auto simp: leg_inv_def)

lemma starts:
  assumes "\<And>q a. Placed q a \<notin> set h"
  shows "leg_inv P (start_legs P) h"
proof -
  have "may_place tpsl req h"
    unfolding may_place_def
  proof (intro allI impI)
    fix pre q legs mid px
    assume "h = pre @ Placed q (Inr legs) # mid"
    then have "Placed q (Inr legs) \<in> set h" by simp
    then show "\<exists>v. Read (Inr (Some v)) \<in> set mid \<and> find_landed_leg v tpsl px = None" using assms by blast
  qed
  moreover have "no_blind_place tpsl req h" by (rule no_place_no_blind [OF assms])
  ultimately show ?thesis using assms by (simp add: leg_inv_def started)
qed

end

interpretation stop_loss: stop_leg "''sl''" ls_sl ls_sl_oid sp_sl pq_sl
proof
  fix P v L
  show "(ls_sl (confirm_tp P v (confirm_sl P v L)), ls_sl_oid (confirm_tp P v (confirm_sl P v L))) =
      (case sp_sl P of
         Some px \<Rightarrow>
           if unconfirmed (ls_sl L) then
             (case find_landed_leg v ''sl'' px of
                Some t \<Rightarrow> (Some Leg_confirmed, Some (tg_oid t))
              | None \<Rightarrow> (Some Leg_pending, ls_sl_oid L))
           else (ls_sl L, ls_sl_oid L)
       | None \<Rightarrow> (ls_sl L, ls_sl_oid L))"
  proof -
    have "ls_sl (confirm_tp P v M) = ls_sl M" "ls_sl_oid (confirm_tp P v M) = ls_sl_oid M" for M
      by (simp_all add: confirm_tp_def split: option.splits)
    then show ?thesis by (auto simp: confirm_sl_def unconfirmed_def split: option.splits)
  qed
qed (auto simp: place_args_def mark_leg_def start_legs_def)

interpretation take_profit: stop_leg "''tp''" ls_tp ls_tp_oid sp_tp pq_tp
proof
  fix P v L
  show "(ls_tp (confirm_tp P v (confirm_sl P v L)), ls_tp_oid (confirm_tp P v (confirm_sl P v L))) =
      (case sp_tp P of
         Some px \<Rightarrow>
           if unconfirmed (ls_tp L) then
             (case find_landed_leg v ''tp'' px of
                Some t \<Rightarrow> (Some Leg_confirmed, Some (tg_oid t))
              | None \<Rightarrow> (Some Leg_pending, ls_tp_oid L))
           else (ls_tp L, ls_tp_oid L)
       | None \<Rightarrow> (ls_tp L, ls_tp_oid L))"
  proof -
    have "ls_tp (confirm_sl P v L) = ls_tp L" "ls_tp_oid (confirm_sl P v L) = ls_tp_oid L"
      by (simp_all add: confirm_sl_def split: option.splits)
    then show ?thesis by (auto simp: confirm_tp_def unconfirmed_def split: option.splits)
  qed
qed (auto simp: place_args_def mark_leg_def start_legs_def)

section \<open>The history of a request\<close>

lemma cancel_all_events:
  assumes "cancel_all E symbol ts h = (r, h')"
  shows "\<exists>cs. h' = h @ cs \<and> (\<forall>e\<in>set cs. \<not> is_read e \<and> \<not> is_place e)"
  using assms
proof (induction ts arbitrary: h r h')
  case (Cons t ts)
  define a where "a = se_cancel E symbol (tg_oid t) h"
  show ?case
  proof (cases a)
    case (Inl m)
    then show ?thesis using Cons.prems by (auto simp: a_def [symmetric] Let_def)
  next
    case (Inr c)
    obtain r1 h2 where rest: "cancel_all E symbol ts (h @ [Cancelled (tg_oid t) a]) = (r1, h2)" by fastforce
    have "h' = h2" using Cons.prems rest Inr by (auto simp: a_def [symmetric] Let_def split: sum.splits)
    with Cons.IH [OF rest] show ?thesis by fastforce
  qed
qed simp

lemma place_attempt_events:
  assumes "place_attempt E P L h = (r, h')"
  shows "\<exists>a as. h' = h @ Placed (place_args P L) a # map Read as \<and> length as \<le> Suc MODIFY_STOPS_READ_RETRIES"
proof -
  define q where "q = place_args P L"
  define a where "a = se_place E q h"
  obtain rd h2 where rb: "read_back E P (Suc MODIFY_STOPS_READ_RETRIES) (h @ [Placed q a]) = (rd, h2)" by fastforce
  obtain as where "h2 = (h @ [Placed q a]) @ map Read as" "length as \<le> Suc MODIFY_STOPS_READ_RETRIES"
    using read_back_events [OF rb] by blast
  moreover have "h' = h @ [Placed q a] \<or> h' = h2"
    using assms rb by (auto simp: place_attempt_def q_def a_def Let_def split: sum.splits option.splits)
  ultimately show ?thesis unfolding q_def [symmetric] by (metis append.assoc append_Cons append_Nil le0 list.map(1) list.size(3))
qed

lemma place_loop_events:
  assumes "place_loop E P n L h = (r, h')"
  shows "\<exists>tail. h' = h @ tail \<and> length (filter is_place tail) \<le> n \<and> length (filter is_read tail) \<le> 3 * n"
  using assms
proof (induction n arbitrary: L h)
  case (Suc n)
  obtain r1 h1 where a: "place_attempt E P L h = (r1, h1)" by fastforce
  from place_attempt_events [OF a] obtain b as where
    h1: "h1 = h @ Placed (place_args P L) b # map Read as" and as: "length as \<le> 3"
    by (auto simp: MODIFY_STOPS_READ_RETRIES_def)
  have reads: "length (filter is_read (map Read as)) = length as" "filter is_place (map Read as) = []"
    by (simp_all add: filter_map filter_empty_conv comp_def)
  show ?case
  proof (cases "leg_pending L \<and> (\<exists>L1. r1 = Inr L1)")
    case True
    then obtain L1 where "place_loop E P n L1 h1 = (r, h')" using Suc.prems a by auto
    from Suc.IH [OF this] obtain tail where tail: "h' = h1 @ tail" "length (filter is_place tail) \<le> n"
      "length (filter is_read tail) \<le> 3 * n" by blast
    let ?t = "Placed (place_args P L) b # map Read as @ tail"
    have "h' = h @ ?t" "length (filter is_place ?t) \<le> Suc n" "length (filter is_read ?t) \<le> 3 * Suc n"
      using tail h1 as reads by simp_all
    then show ?thesis by blast
  next
    case False
    then consider "h' = h" | "h' = h1" using Suc.prems a by (cases r1) (auto split: if_splits)
    then show ?thesis using h1 as reads by cases (auto intro!: exI [of _ "Placed (place_args P L) b # map Read as"])
  qed
qed simp

text \<open>
  A request ends before it touches anything, or it is a confirmed read followed by
  cancels and by the placing loop on the effective prices.
\<close>

lemma modify_stops_cases:
  assumes "modify_stops E account rq = (ans, h)"
  obtains (refused) "h = [] \<or> (\<exists>a. h = [Read a])" "\<not> sn_success ans"
  | (no_legs) existing where "h = [Read (Inr (Some existing))]" "ans = nothing_to_do"
      "effective_price (mr_tp rq) (mr_clear_tp rq) (existing_price ''tp'' existing) = None"
      "effective_price (mr_sl rq) (mr_clear_sl rq) (existing_price ''sl'' existing) = None"
  | (raised) leg_side existing m cs where "h = Read (Inr (Some existing)) # cs"
      "cancel_all E (mr_symbol rq) existing [Read (Inr (Some existing))] = (Inl m, h)" "ans = stops_refusal (Stops_raised m)"
      "se_triggers E (mr_symbol rq) leg_side [] = Inr (Some existing)"
      "\<exists>ad. se_adapter E account = Inr ad \<and> leg_side = (if hedge ad then Some (mr_side rq) else None)"
  | (looped) leg_side amount existing cancelled h1 r where
      "se_triggers E (mr_symbol rq) leg_side [] = Inr (Some existing)"
      "cancel_all E (mr_symbol rq) existing [Read (Inr (Some existing))] = (Inr cancelled, h1)"
      "\<exists>tail. h = Read (Inr (Some existing)) # tail"
      "\<exists>ad. se_adapter E account = Inr ad \<and> leg_side = (if hedge ad then Some (mr_side rq) else None)"
      "place_loop E (plan_of rq leg_side amount existing) MODIFY_STOPS_VERIFY_ATTEMPTS
         (start_legs (plan_of rq leg_side amount existing)) h1 = (r, h)"
      "ans = (case r of Inl m \<Rightarrow> stops_refusal (Stops_raised m)
         | Inr L \<Rightarrow> stops_outcome (plan_of rq leg_side amount existing) cancelled
             (preserved_legs rq (sp_tp (plan_of rq leg_side amount existing)) (sp_sl (plan_of rq leg_side amount existing))) L)"
proof -
  have fails: "\<not> sn_success (stops_refusal e)" for e by (simp add: stops_refusal_def)
  show ?thesis
  proof (cases "se_adapter E account")
    case (Inl m)
    then show ?thesis using assms refused fails by (auto simp: modify_stops_def)
  next
    case adapter: (Inr ad)
    define leg_side where "leg_side = (if hedge ad then Some (mr_side rq) else None)"
    have side: "\<exists>ad. se_adapter E account = Inr ad \<and> leg_side = (if hedge ad then Some (mr_side rq) else None)"
      using adapter leg_side_def by blast
    show ?thesis
    proof (cases "se_positions E")
      case (Inl m)
      then show ?thesis using assms adapter refused fails by (auto simp: modify_stops_def)
    next
      case positions: (Inr ps)
      show ?thesis
      proof (cases "List.find (\<lambda>p. op_symbol p = mr_symbol rq \<and> op_side p = mr_side rq) ps")
        case None
        then show ?thesis using assms adapter positions refused fails by (auto simp: modify_stops_def)
      next
        case found: (Some target)
        have e: "(ans, h) = (let a = se_triggers E (mr_symbol rq) leg_side []; h = [Read a]
            in case a of
                 Inl m \<Rightarrow> (stops_refusal (Stops_raised m), h)
               | Inr None \<Rightarrow> (stops_refusal Triggers_unreadable, h)
               | Inr (Some existing) \<Rightarrow>
                   replace_stops E rq (plan_of rq leg_side (op_size target) existing) existing h)"
          unfolding leg_side_def using assms adapter positions found by (simp add: modify_stops_def Let_def)
        show ?thesis
        proof (cases "\<exists>existing. se_triggers E (mr_symbol rq) leg_side [] = Inr (Some existing)")
          case False
          then show ?thesis using e refused fails by (auto simp: Let_def split: sum.splits option.splits)
        next
          case True
          then obtain existing where t: "se_triggers E (mr_symbol rq) leg_side [] = Inr (Some existing)" by blast
          define P where "P = plan_of rq leg_side (op_size target) existing"
          have e': "(ans, h) = replace_stops E rq P existing [Read (Inr (Some existing))]"
            using e t by (simp add: Let_def P_def)
          show ?thesis
          proof (cases "sp_tp P = None \<and> sp_sl P = None \<and> \<not> (mr_clear_tp rq \<or> mr_clear_sl rq)")
            case True
            then have "ans = nothing_to_do" "h = [Read (Inr (Some existing))]" using e' by (simp_all add: replace_stops_def)
            moreover have "effective_price (mr_tp rq) (mr_clear_tp rq) (existing_price ''tp'' existing) = None"
              "effective_price (mr_sl rq) (mr_clear_sl rq) (existing_price ''sl'' existing) = None"
              using True [unfolded P_def plan_of_def] by auto
            ultimately show ?thesis by (intro no_legs)
          next
            case False
            obtain c h1 where c: "cancel_all E (mr_symbol rq) existing [Read (Inr (Some existing))] = (c, h1)" by fastforce
            have symbol: "sp_symbol P = mr_symbol rq" by (simp add: P_def plan_of_def)
            show ?thesis
            proof (cases c)
              case (Inl m)
              then have "ans = stops_refusal (Stops_raised m)" "h = h1"
                using e' False c symbol by (auto simp: replace_stops_def)
              moreover have "\<exists>cs. h1 = Read (Inr (Some existing)) # cs" using cancel_all_events [OF c] by auto
              ultimately show ?thesis using raised [OF _ _ _ t] c Inl side by blast
            next
              case (Inr cancelled)
              obtain r h2 where l: "place_loop E P MODIFY_STOPS_VERIFY_ATTEMPTS (start_legs P) h1 = (r, h2)" by fastforce
              have "ans = (case r of Inl m \<Rightarrow> stops_refusal (Stops_raised m)
                  | Inr L \<Rightarrow> stops_outcome P cancelled (preserved_legs rq (sp_tp P) (sp_sl P)) L)" "h = h2"
                using e' False c symbol l Inr by (auto simp: replace_stops_def split: sum.splits)
              moreover have "\<exists>tail. h2 = Read (Inr (Some existing)) # tail"
                using cancel_all_events [OF c] place_loop_events [OF l] by auto
              ultimately show ?thesis using looped [OF t, of cancelled h1 "op_size target" r, folded P_def] c l Inr side by blast
            qed
          qed
        qed
      qed
    qed
  qed
qed

lemma cancelled_only_starts:
  assumes "cancel_all E symbol existing [Read a] = (r, h)"
  shows "Placed q b \<notin> set h"
  using cancel_all_events [OF assms] by fastforce

text \<open>
  C16. A leg reported placed is never placed again on doubt. When the stop (or the target) is
  placed again, every earlier placement of it was reported with an error, or was missing from
  the adapter's list of placed legs, or was followed by a confirmed read of the exchange in
  which it does not rest: of a leg that was reported placed, an unknown read never leads to
  another placement. A leg the answer does not list stays pending and is placed again whatever
  the reads say, unknown ones included (\<open>lost_answer_placed_twice\<close>), which the comment at the
  loop rules out.
\<close>

theorem no_blind_replacement:
  "no_blind_place ''sl'' pq_sl (snd (modify_stops E account rq)) \<and>
   no_blind_place ''tp'' pq_tp (snd (modify_stops E account rq))"
proof -
  obtain ans h where e: "modify_stops E account rq = (ans, h)" by fastforce
  have "no_blind_place ''sl'' pq_sl h \<and> no_blind_place ''tp'' pq_tp h"
    using e
  proof (cases rule: modify_stops_cases)
    case refused
    then show ?thesis by (intro conjI no_place_no_blind) auto
  next
    case (no_legs existing)
    then show ?thesis by (intro conjI no_place_no_blind) auto
  next
    case (raised leg_side existing m cs)
    show ?thesis by (intro conjI no_place_no_blind cancelled_only_starts [OF raised(2)])
  next
    case (looped leg_side amount existing cancelled h1 r)
    show ?thesis
      using stop_loss.loop_keeps [OF stop_loss.starts looped(5)] take_profit.loop_keeps [OF take_profit.starts looped(5)]
        cancelled_only_starts [OF looped(2)]
      by blast
  qed
  then show ?thesis by (simp add: e)
qed

section \<open>What success means\<close>

text \<open>
  C28. The answer's \<open>sl_ok\<close> and \<open>tp_ok\<close> for a leg that was priced, or that rested and was not
  cleared: a confirmed read of the exchange, after the last placement of the leg, showed it at
  its effective price, and the id in the answer is its id. Nothing else makes the answer a
  success once the resting triggers were read and a leg has a price.
\<close>

theorem success_is_confirmed:
  assumes "modify_stops E account rq = (ans, h)" "sn_success ans" "h = Read (Inr (Some existing)) # rest"
  shows "(\<forall>px. effective_price (mr_sl rq) (mr_clear_sl rq) (existing_price ''sl'' existing) = Some px \<longrightarrow>
            seen_resting ''sl'' pq_sl px (sn_sl_oid ans) h) \<and>
         (\<forall>px. effective_price (mr_tp rq) (mr_clear_tp rq) (existing_price ''tp'' existing) = Some px \<longrightarrow>
            seen_resting ''tp'' pq_tp px (sn_tp_oid ans) h)"
  using assms(1)
proof (cases rule: modify_stops_cases)
  case refused
  then show ?thesis using assms(2) by simp
next
  case (no_legs ex)
  then show ?thesis using assms(3) by simp
next
  case (raised leg_side existing m cs)
  then show ?thesis using assms(2) by (simp add: stops_refusal_def)
next
  case (looped leg_side amount ex cancelled h1 r)
  obtain L where r: "r = Inr L" using looped(6) assms(2) by (cases r) (auto simp: stops_refusal_def)
  let ?P = "plan_of rq leg_side amount existing"
  have ex: "ex = existing" using looped(3) assms(3) by auto
  have invs: "stop_loss.leg_inv ?P L h" "take_profit.leg_inv ?P L h"
    using stop_loss.loop_keeps [OF stop_loss.starts looped(5)] take_profit.loop_keeps [OF take_profit.starts looped(5)]
      cancelled_only_starts [OF looped(2)] r ex
    by blast+
  show ?thesis
    using invs looped(6) assms(2)
    by (auto simp: r ex stop_loss.leg_inv_def take_profit.leg_inv_def stops_outcome_def leg_ok_def plan_of_def Let_def)
qed

section \<open>The calls of a request\<close>

text \<open>
  A request makes at most three placements and ten reads, whatever the exchange answers, and
  it cancels or places nothing unless its first read of the resting triggers was confirmed.
\<close>

theorem stops_calls_bounded:
  assumes "modify_stops E account rq = (ans, h)"
  shows "length (filter is_place h) \<le> 3 \<and> length (filter is_read h) \<le> 10 \<and>
    (h = [] \<or> (\<exists>a. h = [Read a]) \<or> (\<exists>existing tail. h = Read (Inr (Some existing)) # tail))"
  using assms
proof (cases rule: modify_stops_cases)
  case (raised leg_side existing m cs)
  from cancel_all_events [OF raised(2)] obtain ds where "h = [Read (Inr (Some existing))] @ ds"
    "\<forall>e\<in>set ds. \<not> is_read e \<and> \<not> is_place e" by blast
  moreover from this have "filter is_read ds = []" "filter is_place ds = []" by (auto simp: filter_empty_conv)
  ultimately show ?thesis by simp
next
  case (looped leg_side amount existing cancelled h1 r)
  from cancel_all_events [OF looped(2)] obtain ds where ds: "h1 = [Read (Inr (Some existing))] @ ds"
    "\<forall>e\<in>set ds. \<not> is_read e \<and> \<not> is_place e" by blast
  from place_loop_events [OF looped(5)] obtain tail where "h = h1 @ tail"
    "length (filter is_place tail) \<le> 3" "length (filter is_read tail) \<le> 9"
    by (auto simp: MODIFY_STOPS_VERIFY_ATTEMPTS_def)
  moreover have "filter is_read ds = []" "filter is_place ds = []" using ds(2) by (auto simp: filter_empty_conv)
  ultimately show ?thesis using ds(1) by simp
qed auto

section \<open>Concrete requests\<close>

definition resting :: "string \<Rightarrow> string \<Rightarrow> rat \<Rightarrow> trigger" where
  "resting i tpsl px = \<lparr>tg_oid = i, tg_tpsl = tpsl, tg_px = Px px\<rparr>"

text \<open>
  A long with a stop at 90 and a target at 120. The stop is moved to 95, the target is not
  mentioned. \<open>after h\<close> is what the exchange shows once something was placed.
\<close>

definition demo_stop_venue :: "(history \<Rightarrow> string + trigger list option) \<Rightarrow> stops_env" where
  "demo_stop_venue after = \<lparr>se_adapter = (\<lambda>_. Inr \<lparr>ad_kind = Blofin, ad_mode = ''live'', ad_position_mode = ''net''\<rparr>),
     se_positions = Inr [\<lparr>op_symbol = ''BTC-USDT'', op_side = ''long'', op_size = 2\<rparr>],
     se_triggers = (\<lambda>_ _ h. if list_ex is_place h then after h else Inr (Some [resting ''s1'' ''sl'' 90, resting ''t1'' ''tp'' 120])),
     se_cancel = (\<lambda>_ _ _. Inr \<lparr>ca_success = True, ca_error = None\<rparr>),
     se_place = (\<lambda>q _. Inr ((if pq_sl q = None then [] else [\<lparr>pl_tpsl = ''sl'', pl_error = None\<rparr>]) @
       (if pq_tp q = None then [] else [\<lparr>pl_tpsl = ''tp'', pl_error = None\<rparr>])))\<rparr>"

definition demo_move :: stops_request where
  "demo_move = \<lparr>mr_symbol = ''BTC-USDT'', mr_side = ''long'', mr_tp = None, mr_sl = Some 95,
     mr_clear_tp = False, mr_clear_sl = False\<rparr>"

lemma is_place_code [code]: "is_place e = (case e of Placed _ _ \<Rightarrow> True | _ \<Rightarrow> False)"
  by (cases e) auto

lemma is_read_code [code]: "is_read e = (case e of Read _ \<Rightarrow> True | _ \<Rightarrow> False)"
  by (cases e) auto

text \<open>The first read after placing is unknown, the second shows both legs: one placement.\<close>

definition slow_read :: stops_env where
  "slow_read = demo_stop_venue (\<lambda>h. if is_place (last h) then Inr None
     else Inr (Some [resting ''s2'' ''sl'' 95, resting ''t2'' ''tp'' 120]))"

lemma success_is_confirmed_witness:
  "seen_resting ''tp'' pq_tp 120 (Some ''t2'') (snd (modify_stops slow_read ''acc'' demo_move)) \<and>
   seen_resting ''sl'' pq_sl 95 (Some ''s2'') (snd (modify_stops slow_read ''acc'' demo_move)) \<and>
   length (filter is_place (snd (modify_stops slow_read ''acc'' demo_move))) = 1"
proof -
  obtain ans h where e: "modify_stops slow_read ''acc'' demo_move = (ans, h)" by fastforce
  have ok: "sn_success (fst (modify_stops slow_read ''acc'' demo_move))" by code_simp
  have first: "hd (snd (modify_stops slow_read ''acc'' demo_move)) =
      Read (Inr (Some [resting ''s1'' ''sl'' 90, resting ''t1'' ''tp'' 120]))" by code_simp
  have ids: "sn_sl_oid (fst (modify_stops slow_read ''acc'' demo_move)) = Some ''s2''"
    "sn_tp_oid (fst (modify_stops slow_read ''acc'' demo_move)) = Some ''t2''"
    by code_simp+
  have one: "length (filter is_place (snd (modify_stops slow_read ''acc'' demo_move))) = 1" by code_simp
  have "h \<noteq> []" using one e by auto
  then have h: "h = Read (Inr (Some [resting ''s1'' ''sl'' 90, resting ''t1'' ''tp'' 120])) # tl h"
    using first e by (cases h) auto
  have prices: "effective_price (mr_sl demo_move) (mr_clear_sl demo_move)
      (existing_price ''sl'' [resting ''s1'' ''sl'' 90, resting ''t1'' ''tp'' 120]) = Some 95"
    "effective_price (mr_tp demo_move) (mr_clear_tp demo_move)
      (existing_price ''tp'' [resting ''s1'' ''sl'' 90, resting ''t1'' ''tp'' 120]) = Some 120"
    by code_simp+
  show ?thesis using success_is_confirmed [OF e _ h] prices ok ids one e by simp
qed

text \<open>Reports of success that no read confirms: three placements, and no success.\<close>

lemma stops_calls_bounded_witness:
  "length (filter is_place (snd (modify_stops (demo_stop_venue (\<lambda>_. Inr (Some []))) ''acc'' demo_move))) = 3 \<and>
   length (filter is_read (snd (modify_stops (demo_stop_venue (\<lambda>_. Inr (Some []))) ''acc'' demo_move))) \<le> 10 \<and>
   sn_sl_ok (fst (modify_stops (demo_stop_venue (\<lambda>_. Inr (Some []))) ''acc'' demo_move)) = Some False"
proof -
  let ?E = "demo_stop_venue (\<lambda>_. Inr (Some []))"
  have three: "length (filter is_place (snd (modify_stops ?E ''acc'' demo_move))) = 3" by code_simp
  have no: "sn_sl_ok (fst (modify_stops ?E ''acc'' demo_move)) = Some False" by code_simp
  obtain ans h where "modify_stops ?E ''acc'' demo_move = (ans, h)" by fastforce
  from stops_calls_bounded [OF this] this three no show ?thesis by simp
qed

text \<open>
  An answer without a list of placed legs. BloFin's adapter places the target first and then
  the stop, in two calls, and answers like this when the second call raises, although the
  target rests.
\<close>

definition lost_answer :: stops_env where
  "lost_answer = (demo_stop_venue (\<lambda>_. Inr None))\<lparr>
     se_place := (\<lambda>q h. Inr (if list_ex is_place h
       then [\<lparr>pl_tpsl = ''tp'', pl_error = None\<rparr>, \<lparr>pl_tpsl = ''sl'', pl_error = None\<rparr>] else []))\<rparr>"

text \<open>
  The comment at the retry loop says that a read failure never leads to a duplicate. It does
  after an answer that lists no legs: both legs stay pending, every read comes back unknown,
  and both are placed again, with no confirmed read between the placements.
\<close>

theorem lost_answer_placed_twice:
  "map (\<lambda>e. case e of Placed q _ \<Rightarrow> (pq_tp q, pq_sl q)) (filter is_place (snd (modify_stops lost_answer ''acc'' demo_move))) =
     [(Some 120, Some 95), (Some 120, Some 95)] \<and>
   (\<forall>v. Read (Inr (Some v)) \<notin> set (tl (snd (modify_stops lost_answer ''acc'' demo_move))))"
proof
  show "map (\<lambda>e. case e of Placed q _ \<Rightarrow> (pq_tp q, pq_sl q)) (filter is_place (snd (modify_stops lost_answer ''acc'' demo_move))) =
     [(Some 120, Some 95), (Some 120, Some 95)]" by code_simp
  have "list_all (\<lambda>e. case e of Read (Inr (Some v)) \<Rightarrow> False | _ \<Rightarrow> True)
      (tl (snd (modify_stops lost_answer ''acc'' demo_move)))" by code_simp
  then show "\<forall>v. Read (Inr (Some v)) \<notin> set (tl (snd (modify_stops lost_answer ''acc'' demo_move)))"
    by (auto simp: list_all_iff)
qed

end
