(* ===== verification/SpreadTrade.thy ===== *)
theory SpreadTrade
  imports ExecuteOrder
begin

text \<open>
  Cross-venue spread trades: \<open>order-executor/app/spread_trade.py\<close>. An armed plan becomes a
  short on one venue and a long on the other; both are closed together. The venues are a
  parameter whose answers may depend on the orders sent before; \<open>Inl\<close> is a call that raised.
\<close>

section \<open>State\<close>

datatype spread_error = Value_err string | Runtime_err string | Other_err string

datatype plan_status = Plan_armed | Plan_failed | Plan_executed | Plan_expired

record spread_plan =
  pn_id :: string
  pn_coin :: string
  pn_status :: plan_status
  pn_short_venue :: string
  pn_long_venue :: string
  pn_notional :: rat
  pn_leverage :: int
  pn_abort_up :: "rat option"
  pn_abort_down :: "rat option"
  pn_fail :: "(string \<times> bool option) option"

datatype spread_status = Spread_open | Spread_closed | Spread_aborted | Spread_close_failed

record spread_position =
  sx_id :: nat
  sx_plan :: string
  sx_coin :: string
  sx_symbol :: string
  sx_status :: spread_status
  sx_short_account :: string
  sx_long_account :: string
  sx_notional :: rat
  sx_leverage :: int
  sx_size :: rat
  sx_entry_mark :: rat
  sx_abort_up :: rat
  sx_abort_down :: rat
  sx_short_entry :: "rat option"
  sx_long_entry :: "rat option"
  sx_short_order :: "string option"
  sx_long_order :: "string option"
  sx_close_reason :: "string option"
  sx_closed :: bool
  sx_short_close :: "rat option"
  sx_long_close :: "rat option"
  sx_pnl :: "rat option"

text \<open>The orders sent to the venues, each with its answer.\<close>

datatype venue_call =
    Leg_submitted string string string rat int "spread_error + exec_result"
  | Leg_closed string string string "spread_error + exec_result"

datatype spread_notice =
    Naked_short string rat string
  | Rolled_back string
  | Spread_executed string nat
  | Spread_closed_notice string nat string "rat option"
  | Leg_left_open string nat string
  | Margin_warning string nat string rat rat

record spread_world =
  sw_plans :: "spread_plan list"
  sw_positions :: "spread_position list"
  sw_calls :: "venue_call list"
  sw_notices :: "spread_notice list"

datatype spread_stmt = Plan_update | Position_insert | Position_update

record venue_position =
  vp_symbol :: string
  vp_side :: string
  vp_liquidation :: "rat option"

record spread_env =
  sv_accounts :: "(string \<times> string) list"
  sv_registry :: "string \<Rightarrow> spread_error option"
  sv_mark :: "venue_call list \<Rightarrow> string \<Rightarrow> string \<Rightarrow> spread_error + rat option"
  sv_min_size :: "string \<Rightarrow> string \<Rightarrow> spread_error + rat option"
  sv_submit :: "venue_call list \<Rightarrow> string \<Rightarrow> string \<Rightarrow> string \<Rightarrow> rat \<Rightarrow> spread_error + exec_result"
  sv_close :: "venue_call list \<Rightarrow> string \<Rightarrow> string \<Rightarrow> string \<Rightarrow> spread_error + exec_result"
  sv_open_positions :: "venue_call list \<Rightarrow> string \<Rightarrow> spread_error + venue_position list"
  sv_stmt_fails :: "spread_stmt \<Rightarrow> bool"

type_synonym 'a spread_run = "spread_world \<Rightarrow> (spread_error + 'a) \<times> spread_world"

text \<open>The awaited steps of a handler, one after the other; a raise ends it.\<close>

definition and_then :: "'a spread_run \<Rightarrow> ('a \<Rightarrow> 'b spread_run) \<Rightarrow> 'b spread_run" where
  "and_then m f w = (case m w of (Inl e, w1) \<Rightarrow> (Inl e, w1) | (Inr a, w1) \<Rightarrow> f a w1)"

definition notify :: "spread_notice \<Rightarrow> spread_world \<Rightarrow> spread_world" where
  "notify n w = w\<lparr>sw_notices := sw_notices w @ [n]\<rparr>"

section \<open>Sizing\<close>

definition quantize_size :: "rat \<Rightarrow> rat \<Rightarrow> rat" where
  "quantize_size amount step =
     (if step \<le> 0 then py_round amount 6 else of_int \<lfloor>amount / step + 1 / 10 ^ 9\<rfloor> * step)"

text \<open>The first active account of each venue; both venues are needed.\<close>

definition account_of_venue :: "spread_env \<Rightarrow> string \<Rightarrow> string option" where
  "account_of_venue E venue = map_option fst (List.find (\<lambda>a. snd a = venue) (sv_accounts E))"

definition resolve_accounts :: "spread_env \<Rightarrow> spread_error + (string \<Rightarrow> string option)" where
  "resolve_accounts E =
     (if account_of_venue E ''hyperliquid'' = None then Inl (Value_err ''no active hyperliquid account configured'')
      else if account_of_venue E ''blofin'' = None then Inl (Value_err ''no active blofin account configured'')
      else Inr (account_of_venue E))"

definition falsy :: "rat option \<Rightarrow> bool" where
  "falsy x \<longleftrightarrow> x = None \<or> x = Some 0"

section \<open>Legs\<close>

definition log_call :: "venue_call \<Rightarrow> spread_world \<Rightarrow> spread_world" where
  "log_call c w = w\<lparr>sw_calls := sw_calls w @ [c]\<rparr>"

fun submit_tries ::
  "spread_env \<Rightarrow> string \<Rightarrow> string \<Rightarrow> string \<Rightarrow> rat \<Rightarrow> int \<Rightarrow> nat \<Rightarrow> exec_result option \<Rightarrow> exec_result option spread_run" where
  "submit_tries E acct symbol side amount lev 0 prev w = (Inr prev, w)"
| "submit_tries E acct symbol side amount lev (Suc n) prev w =
     (let a = sv_submit E (sw_calls w) acct symbol side amount;
          w1 = log_call (Leg_submitted acct symbol side amount lev a) w
      in case a of
           Inl e \<Rightarrow> (Inl e, w1)
         | Inr r \<Rightarrow>
             if xr_success r then (Inr (Some r), w1)
             else submit_tries E acct symbol side amount lev n (Some r) w1)"

definition get_adapter :: "spread_env \<Rightarrow> string \<Rightarrow> unit spread_run" where
  "get_adapter E acct w = (case sv_registry E acct of Some e \<Rightarrow> (Inl e, w) | None \<Rightarrow> (Inr (), w))"

definition place_leg :: "spread_env \<Rightarrow> string \<Rightarrow> string \<Rightarrow> string \<Rightarrow> rat \<Rightarrow> int \<Rightarrow> exec_result option spread_run" where
  "place_leg E acct symbol side amount lev =
     and_then (get_adapter E acct) (\<lambda>_. submit_tries E acct symbol side amount lev 2 None)"

definition shut_leg :: "spread_env \<Rightarrow> string \<Rightarrow> string \<Rightarrow> string \<Rightarrow> exec_result spread_run" where
  "shut_leg E acct symbol side w =
     (let a = sv_close E (sw_calls w) acct symbol side in (a, log_call (Leg_closed acct symbol side a) w))"

text \<open>Up to three closes of the short leg, exceptions included.\<close>

fun roll_back :: "spread_env \<Rightarrow> string \<Rightarrow> string \<Rightarrow> nat \<Rightarrow> spread_world \<Rightarrow> bool \<times> spread_world" where
  "roll_back E acct symbol 0 w = (False, w)"
| "roll_back E acct symbol (Suc n) w =
     (case shut_leg E acct symbol ''short'' w of
        (Inr rb, w1) \<Rightarrow> if xr_success rb then (True, w1) else roll_back E acct symbol n w1
      | (Inl e, w1) \<Rightarrow> roll_back E acct symbol n w1)"

definition succeeded :: "exec_result option \<Rightarrow> bool" where
  "succeeded r = (case r of None \<Rightarrow> False | Some x \<Rightarrow> xr_success x)"

definition err_of :: "exec_result option \<Rightarrow> string" where
  "err_of r = (case r of None \<Rightarrow> ''no result'' | Some x \<Rightarrow> (case xr_error_msg x of None \<Rightarrow> ''None'' | Some m \<Rightarrow> m))"

section \<open>Plans and rows\<close>

definition update_plan :: "string \<Rightarrow> (spread_plan \<Rightarrow> spread_plan) \<Rightarrow> spread_world \<Rightarrow> spread_world" where
  "update_plan i f w = w\<lparr>sw_plans := map (\<lambda>p. if pn_id p = i then f p else p) (sw_plans w)\<rparr>"

definition guarded_stmt :: "spread_env \<Rightarrow> spread_stmt \<Rightarrow> (spread_world \<Rightarrow> spread_world) \<Rightarrow> unit spread_run" where
  "guarded_stmt E s f w = (if sv_stmt_fails E s then (Inl (Other_err ''database''), w) else (Inr (), f w))"

definition plan_failed :: "spread_env \<Rightarrow> string \<Rightarrow> string \<Rightarrow> bool option \<Rightarrow> unit spread_run" where
  "plan_failed E i msg rolled =
     guarded_stmt E Plan_update (update_plan i (\<lambda>p. p\<lparr>pn_status := Plan_failed, pn_fail := Some (msg, rolled)\<rparr>))"

definition open_for_coin :: "spread_world \<Rightarrow> string \<Rightarrow> spread_position option" where
  "open_for_coin w coin = List.find (\<lambda>x. sx_coin x = coin \<and> sx_status x = Spread_open) (sw_positions w)"

text \<open>The abort prices of a position are \<open>NOT NULL\<close>, those of a plan are not.\<close>

definition insert_position ::
  "spread_env \<Rightarrow> spread_plan \<Rightarrow> string \<Rightarrow> string \<Rightarrow> string \<Rightarrow> rat \<Rightarrow> rat \<Rightarrow> exec_result \<Rightarrow> exec_result \<Rightarrow> nat spread_run" where
  "insert_position E p symbol short_acct long_acct amount mark short_res long_res w =
     (case (pn_abort_up p, pn_abort_down p) of
        (Some up, Some down) \<Rightarrow>
          if sv_stmt_fails E Position_insert then (Inl (Other_err ''database''), w)
          else (Inr (length (sw_positions w)),
            w\<lparr>sw_positions := sw_positions w @ [\<lparr>sx_id = length (sw_positions w), sx_plan = pn_id p, sx_coin = pn_coin p,
               sx_symbol = symbol, sx_status = Spread_open, sx_short_account = short_acct, sx_long_account = long_acct,
               sx_notional = pn_notional p, sx_leverage = pn_leverage p, sx_size = amount, sx_entry_mark = mark,
               sx_abort_up = up, sx_abort_down = down, sx_short_entry = xr_actual_fill_price short_res,
               sx_long_entry = xr_actual_fill_price long_res, sx_short_order = xr_exchange_order_id short_res,
               sx_long_order = xr_exchange_order_id long_res, sx_close_reason = None, sx_closed = False,
               sx_short_close = None, sx_long_close = None, sx_pnl = None\<rparr>]\<rparr>)
      | _ \<Rightarrow> (Inl (Other_err ''null value in column''), w))"

section \<open>Executing a plan\<close>

definition symbol_of_coin :: "string \<Rightarrow> string" where
  "symbol_of_coin coin = coin @ ''-USDT''"

text \<open>The guards, up to the accounts of the two venues.\<close>

definition admit_plan :: "spread_env \<Rightarrow> string \<Rightarrow> spread_world \<Rightarrow> spread_error + (spread_plan \<times> string \<times> string)" where
  "admit_plan E plan_id w =
     (case List.find (\<lambda>p. pn_id p = plan_id) (sw_plans w) of
        None \<Rightarrow> Inl (Value_err ''plan not found'')
      | Some p \<Rightarrow>
          if pn_status p \<noteq> Plan_armed then Inl (Value_err ''not armed'')
          else if open_for_coin w (pn_coin p) \<noteq> None then Inl (Value_err ''open spread position already exists'')
          else (case resolve_accounts E of
                  Inl e \<Rightarrow> Inl e
                | Inr accounts \<Rightarrow>
                    (case (accounts (pn_short_venue p), accounts (pn_long_venue p)) of
                       (Some s, Some l) \<Rightarrow> Inr (p, s, l)
                     | _ \<Rightarrow> Inl (Other_err ''KeyError''))))"

definition leg_mark :: "spread_env \<Rightarrow> string \<Rightarrow> string \<Rightarrow> string \<Rightarrow> (spread_error + rat option) spread_run" where
  "leg_mark E short_acct long_acct symbol w =
     (Inr (case sv_mark E (sw_calls w) short_acct symbol of
             Inl e \<Rightarrow> Inl e
           | Inr m \<Rightarrow> if falsy m then sv_mark E (sw_calls w) long_acct symbol else Inr m), w)"

text \<open>The mark, the coarser of the two minimum sizes and the size of both legs.\<close>

definition size_plan :: "spread_env \<Rightarrow> spread_plan \<Rightarrow> string \<Rightarrow> string \<Rightarrow> (rat \<times> rat) spread_run" where
  "size_plan E p short_acct long_acct =
     and_then (get_adapter E short_acct) (\<lambda>_.
     and_then (get_adapter E long_acct) (\<lambda>_.
     and_then (leg_mark E short_acct long_acct (symbol_of_coin (pn_coin p))) (\<lambda>marked w.
       case marked of
         Inl e \<Rightarrow> (Inl e, w)
       | Inr m \<Rightarrow>
           if falsy m then (Inl (Value_err ''no mark price''), w)
           else (case sv_min_size E short_acct (symbol_of_coin (pn_coin p)) of
                   Inl e \<Rightarrow> (Inl e, w)
                 | Inr a \<Rightarrow>
                     (case sv_min_size E long_acct (symbol_of_coin (pn_coin p)) of
                        Inl e \<Rightarrow> (Inl e, w)
                      | Inr b \<Rightarrow>
                          (let step = max (or_zero a) (or_zero b);
                               amount = quantize_size (pn_notional p / or_zero m) step
                           in if amount \<le> 0 then (Inl (Value_err ''notional below min size''), w)
                              else (Inr (or_zero m, amount), w)))))))"

definition long_leg_failed ::
  "spread_env \<Rightarrow> spread_plan \<Rightarrow> string \<Rightarrow> string \<Rightarrow> rat \<Rightarrow> string \<Rightarrow> nat spread_run" where
  "long_leg_failed E p short_acct symbol amount err w =
     (case roll_back E short_acct symbol 3 w of
        (rolled, w1) \<Rightarrow>
          and_then (plan_failed E (pn_id p) (''long leg: '' @ err) (Some rolled)) (\<lambda>_ w2.
            if rolled then (Inl (Runtime_err ''long leg failed (short rolled back)''), notify (Rolled_back (pn_coin p)) w2)
            else (Inl (Runtime_err ''long leg failed and ROLLBACK FAILED''),
                  notify (Naked_short (pn_coin p) amount short_acct) w2)) w1)"

definition fill_legs :: "spread_env \<Rightarrow> spread_plan \<Rightarrow> string \<Rightarrow> string \<Rightarrow> rat \<Rightarrow> rat \<Rightarrow> nat spread_run" where
  "fill_legs E p short_acct long_acct mark amount =
     (let symbol = symbol_of_coin (pn_coin p) in
      and_then (place_leg E short_acct symbol ''sell'' amount (pn_leverage p)) (\<lambda>short_res.
        if \<not> succeeded short_res then
          and_then (plan_failed E (pn_id p) (''short leg: '' @ err_of short_res) None) (\<lambda>_ w.
            (Inl (Runtime_err ''short leg failed''), w))
        else
          and_then (place_leg E long_acct symbol ''buy'' amount (pn_leverage p)) (\<lambda>long_res.
            if \<not> succeeded long_res then long_leg_failed E p short_acct symbol amount (err_of long_res)
            else
              and_then (insert_position E p symbol short_acct long_acct amount mark (the short_res) (the long_res)) (\<lambda>i.
              and_then (guarded_stmt E Plan_update (update_plan (pn_id p) (\<lambda>q. q\<lparr>pn_status := Plan_executed\<rparr>))) (\<lambda>_ w.
                (Inr i, notify (Spread_executed (pn_coin p) i) w))))))"

definition execute_plan :: "spread_env \<Rightarrow> string \<Rightarrow> nat spread_run" where
  "execute_plan E plan_id w =
     (case admit_plan E plan_id w of
        Inl e \<Rightarrow> (Inl e, w)
      | Inr (p, short_acct, long_acct) \<Rightarrow>
          and_then (size_plan E p short_acct long_acct) (\<lambda>(mark, amount).
            fill_legs E p short_acct long_acct mark amount) w)"

text \<open>The route: a \<open>ValueError\<close> is a 400, a \<open>RuntimeError\<close> a 502, anything else a 500.\<close>

definition http_of_error :: "spread_error \<Rightarrow> nat" where
  "http_of_error e = (case e of Value_err _ \<Rightarrow> 400 | Runtime_err _ \<Rightarrow> 502 | Other_err _ \<Rightarrow> 500)"

definition spread_execute :: "spread_env \<Rightarrow> string option \<Rightarrow> spread_world \<Rightarrow> (nat + nat) \<times> spread_world" where
  "spread_execute E plan_id w =
     (if plan_id = None \<or> plan_id = Some [] then (Inl 400, w)
      else case execute_plan E (the plan_id) w of
             (Inl e, w1) \<Rightarrow> (Inl (http_of_error e), w1)
           | (Inr i, w1) \<Rightarrow> (Inr i, w1))"

section \<open>Closing\<close>

record close_answer =
  cs_closed :: bool
  cs_position :: "nat option"
  cs_status :: "spread_status option"
  cs_pnl :: "rat option"

definition find_open :: "spread_world \<Rightarrow> nat option \<Rightarrow> string option \<Rightarrow> spread_error + spread_position option" where
  "find_open w position_id coin =
     (case position_id of
        Some i \<Rightarrow> Inr (List.find (\<lambda>x. sx_id x = i \<and> sx_status x = Spread_open) (sw_positions w))
      | None \<Rightarrow>
          (case coin of
             None \<Rightarrow> Inl (Value_err ''position_id or coin required'')
           | Some c \<Rightarrow>
               if c = [] then Inl (Value_err ''position_id or coin required'')
               else Inr (open_for_coin w (py_upper c))))"

text \<open>One leg: an exception of the registry or of the adapter is a missing result.\<close>

definition try_shut_leg :: "spread_env \<Rightarrow> string \<Rightarrow> string \<Rightarrow> string \<Rightarrow> spread_world \<Rightarrow> exec_result option \<times> spread_world" where
  "try_shut_leg E acct symbol side w =
     (case and_then (get_adapter E acct) (\<lambda>_. shut_leg E acct symbol side) w of
        (Inl e, w1) \<Rightarrow> (None, w1)
      | (Inr r, w1) \<Rightarrow> (Some r, w1))"

definition spread_pnl :: "exec_result option \<Rightarrow> exec_result option \<Rightarrow> rat option" where
  "spread_pnl short_r long_r =
     (if succeeded short_r \<and> succeeded long_r then
        (case (xr_realized_pnl (the short_r), xr_realized_pnl (the long_r)) of
           (None, None) \<Rightarrow> None
         | (a, b) \<Rightarrow> Some (or_zero a + or_zero b))
      else None)"

definition close_price :: "exec_result option \<Rightarrow> rat option" where
  "close_price r = (if succeeded r then xr_actual_fill_price (the r) else None)"

definition closed_row ::
  "string \<Rightarrow> exec_result option \<Rightarrow> exec_result option \<Rightarrow> bool \<Rightarrow> spread_position \<Rightarrow> spread_position" where
  "closed_row reason short_r long_r ok x =
     x\<lparr>sx_status := (if ok then (if reason = ''abort'' then Spread_aborted else Spread_closed) else Spread_close_failed),
       sx_close_reason := Some reason, sx_closed := ok, sx_short_close := close_price short_r,
       sx_long_close := close_price long_r, sx_pnl := spread_pnl short_r long_r\<rparr>"

definition update_position :: "nat \<Rightarrow> (spread_position \<Rightarrow> spread_position) \<Rightarrow> spread_world \<Rightarrow> spread_world" where
  "update_position i f w = w\<lparr>sw_positions := map (\<lambda>x. if sx_id x = i then f x else x) (sw_positions w)\<rparr>"

definition close_position_row :: "spread_env \<Rightarrow> spread_position \<Rightarrow> string \<Rightarrow> close_answer spread_run" where
  "close_position_row E x reason w =
     (case try_shut_leg E (sx_short_account x) (sx_symbol x) ''short'' w of
        (short_r, w1) \<Rightarrow>
         (case try_shut_leg E (sx_long_account x) (sx_symbol x) ''long'' w1 of
            (long_r, w2) \<Rightarrow>
             (let ok = (succeeded short_r \<and> succeeded long_r) in
              and_then (guarded_stmt E Position_update (update_position (sx_id x) (closed_row reason short_r long_r ok))) (\<lambda>_ w3.
                (Inr \<lparr>cs_closed = ok, cs_position = Some (sx_id x),
                      cs_status = Some (sx_status (closed_row reason short_r long_r ok x)),
                      cs_pnl = spread_pnl short_r long_r\<rparr>,
                 notify (if ok then Spread_closed_notice (sx_coin x) (sx_id x) reason (spread_pnl short_r long_r)
                         else Leg_left_open (sx_coin x) (sx_id x) reason) w3)) w2)))"

definition close_spread :: "spread_env \<Rightarrow> nat option \<Rightarrow> string option \<Rightarrow> string \<Rightarrow> close_answer spread_run" where
  "close_spread E position_id coin reason w =
     (case find_open w position_id coin of
        Inl e \<Rightarrow> (Inl e, w)
      | Inr None \<Rightarrow> (Inr \<lparr>cs_closed = False, cs_position = None, cs_status = None, cs_pnl = None\<rparr>, w)
      | Inr (Some x) \<Rightarrow> close_position_row E x reason w)"

section \<open>Watching\<close>

definition watch_mark :: "spread_env \<Rightarrow> spread_position \<Rightarrow> spread_world \<Rightarrow> rat option" where
  "watch_mark E x w =
     (let one = (\<lambda>acct. if sv_registry E acct \<noteq> None then None
                  else case sv_mark E (sw_calls w) acct (sx_symbol x) of Inl e \<Rightarrow> None | Inr m \<Rightarrow> m);
          s = one (sx_short_account x); l = one (sx_long_account x)
      in if \<not> falsy s then s else if \<not> falsy l then l else None)"

definition outside_band :: "spread_position \<Rightarrow> rat \<Rightarrow> bool" where
  "outside_band x mark \<longleftrightarrow> sx_abort_up x \<le> mark \<or> mark \<le> sx_abort_down x"

definition near_liquidation :: "rat \<Rightarrow> rat option \<Rightarrow> bool" where
  "near_liquidation mark liq = (case liq of None \<Rightarrow> False | Some l \<Rightarrow> 0 < l \<and> \<bar>mark - l\<bar> / mark < 1 / 10)"

definition margin_warnings :: "spread_env \<Rightarrow> spread_position \<Rightarrow> rat \<Rightarrow> spread_world \<Rightarrow> spread_notice list" where
  "margin_warnings E x mark w =
     concat (map (\<lambda>(acct, side).
       if sv_registry E acct \<noteq> None then []
       else case sv_open_positions E (sw_calls w) acct of
              Inl e \<Rightarrow> []
            | Inr ps \<Rightarrow> map (\<lambda>p. Margin_warning (sx_coin x) (sx_id x) side mark (or_zero (vp_liquidation p)))
                (filter (\<lambda>p. vp_symbol p = sx_symbol x \<and> vp_side p = side \<and> near_liquidation mark (vp_liquidation p)) ps))
       [(sx_short_account x, ''short''), (sx_long_account x, ''long'')])"

definition watch_row :: "spread_env \<Rightarrow> spread_position \<Rightarrow> unit spread_run" where
  "watch_row E x w =
     (case watch_mark E x w of
        None \<Rightarrow> (Inr (), w)
      | Some mark \<Rightarrow>
          if outside_band x mark then
            and_then (close_spread E (Some (sx_id x)) None ''abort'') (\<lambda>_ w1. (Inr (), w1)) w
          else (Inr (), w\<lparr>sw_notices := sw_notices w @ margin_warnings E x mark w\<rparr>))"

fun watch_rows :: "spread_env \<Rightarrow> spread_position list \<Rightarrow> unit spread_run" where
  "watch_rows E [] w = (Inr (), w)"
| "watch_rows E (x # xs) w = and_then (watch_row E x) (\<lambda>_. watch_rows E xs) w"

definition watch_once :: "spread_env \<Rightarrow> unit spread_run" where
  "watch_once E w = watch_rows E (filter (\<lambda>x. sx_status x = Spread_open) (sw_positions w)) w"

text \<open>The loop survives any exception of a cycle; the environment may differ from one to the next.\<close>

fun watcher_loop :: "spread_env list \<Rightarrow> spread_world \<Rightarrow> spread_world" where
  "watcher_loop [] w = w"
| "watcher_loop (E # Es) w = watcher_loop Es (snd (watch_once E w))"

end
