(* ===== verification/SpreadSafety.thy ===== *)
theory SpreadSafety
  imports SpreadTrade
begin

text \<open>
  What a spread trade guarantees: which legs an executed plan leaves behind, what a close
  reports, and what the watcher may close.
\<close>

section \<open>Steps\<close>

named_theorems spread_frame "what the steps of a spread trade leave alone"

lemma and_then_cases:
  assumes "and_then m f w = (r, w')"
  obtains (raised) e where "m w = (Inl e, w')" "r = Inl e"
  | (went_on) a w1 where "m w = (Inr a, w1)" "f a w1 = (r, w')"
  using assms by (auto simp: and_then_def split: prod.splits sum.splits)

lemma log_call_frame [spread_frame]:
  "sw_plans (log_call c w) = sw_plans w" "sw_positions (log_call c w) = sw_positions w"
  "sw_notices (log_call c w) = sw_notices w" "sw_calls (log_call c w) = sw_calls w @ [c]"
  by (simp_all add: log_call_def)

lemma notify_frame [spread_frame]:
  "sw_plans (notify n w) = sw_plans w" "sw_positions (notify n w) = sw_positions w"
  "sw_notices (notify n w) = sw_notices w @ [n]" "sw_calls (notify n w) = sw_calls w"
  by (simp_all add: notify_def)

lemma update_plan_frame [spread_frame]:
  "sw_plans (update_plan i f w) = map (\<lambda>p. if pn_id p = i then f p else p) (sw_plans w)"
  "sw_positions (update_plan i f w) = sw_positions w"
  "sw_notices (update_plan i f w) = sw_notices w" "sw_calls (update_plan i f w) = sw_calls w"
  by (simp_all add: update_plan_def)

lemma update_position_frame [spread_frame]:
  "sw_plans (update_position i f w) = sw_plans w"
  "sw_positions (update_position i f w) = map (\<lambda>x. if sx_id x = i then f x else x) (sw_positions w)"
  "sw_notices (update_position i f w) = sw_notices w" "sw_calls (update_position i f w) = sw_calls w"
  by (simp_all add: update_position_def)

text \<open>Steps that only send orders: the rows and the notices stay.\<close>

definition only_calls :: "spread_world \<Rightarrow> spread_world \<Rightarrow> venue_call list \<Rightarrow> bool" where
  "only_calls w w' new \<longleftrightarrow> sw_calls w' = sw_calls w @ new \<and> sw_plans w' = sw_plans w \<and>
     sw_positions w' = sw_positions w \<and> sw_notices w' = sw_notices w"

lemma only_calls_refl [simp]: "only_calls w w []"
  by (simp add: only_calls_def)

lemma only_calls_trans: "\<lbrakk>only_calls w w1 a; only_calls w1 w2 b\<rbrakk> \<Longrightarrow> only_calls w w2 (a @ b)"
  by (simp add: only_calls_def)

lemma only_calls_log: "only_calls w (log_call c w) [c]"
  by (simp add: only_calls_def spread_frame)

lemma get_adapter_cases:
  "get_adapter E acct w = (r, w') \<longleftrightarrow> w' = w \<and> r = (case sv_registry E acct of Some e \<Rightarrow> Inl e | None \<Rightarrow> Inr ())"
  by (auto simp: get_adapter_def split: option.splits)

section \<open>The legs that filled\<close>

fun filled_leg :: "venue_call \<Rightarrow> (string \<times> string \<times> rat) option" where
  "filled_leg (Leg_submitted acct symbol side amount lev a) =
     (case a of Inr r \<Rightarrow> if xr_success r then Some (acct, side, amount) else None | Inl e \<Rightarrow> None)"
| "filled_leg (Leg_closed acct symbol side a) = None"

definition filled_legs :: "venue_call list \<Rightarrow> (string \<times> string \<times> rat) list" where
  "filled_legs calls = List.map_filter filled_leg calls"

definition leg_flattened :: "string \<Rightarrow> string \<Rightarrow> venue_call \<Rightarrow> bool" where
  "leg_flattened acct side c = (case c of Leg_closed a s d (Inr r) \<Rightarrow> a = acct \<and> d = side \<and> xr_success r | _ \<Rightarrow> False)"

lemma filled_legs_simps [simp]:
  "filled_legs [] = []" "filled_legs (xs @ ys) = filled_legs xs @ filled_legs ys"
  "filled_legs (c # cs) = (case filled_leg c of None \<Rightarrow> filled_legs cs | Some l \<Rightarrow> l # filled_legs cs)"
  by (simp_all add: filled_legs_def List.map_filter_def split: option.splits)

lemma submit_tries_calls:
  assumes "submit_tries E acct symbol side amount lev n prev w = (r, w')" "prev = None \<or> \<not> succeeded prev"
  shows "\<exists>new. only_calls w w' new \<and> (\<forall>e. r = Inl e \<longrightarrow> filled_legs new = []) \<and>
    (\<forall>x. r = Inr x \<longrightarrow> filled_legs new = (if succeeded x then [(acct, side, amount)] else []))"
  using assms
proof (induction n arbitrary: prev w)
  case 0
  then show ?case by (auto simp: succeeded_def intro: exI [of _ "[]"])
next
  case (Suc n)
  define a where "a = sv_submit E (sw_calls w) acct symbol side amount"
  define c where "c = Leg_submitted acct symbol side amount lev a"
  have log: "only_calls w (log_call c w) [c]" by (rule only_calls_log)
  show ?case
  proof (cases a)
    case (Inl e)
    then have "r = Inl e" "w' = log_call c w" using Suc.prems(1) by (simp_all add: a_def [symmetric] c_def Let_def)
    then show ?thesis using log Inl by (intro exI [of _ "[c]"]) (simp add: c_def)
  next
    case (Inr x)
    show ?thesis
    proof (cases "xr_success x")
      case True
      then have "r = Inr (Some x)" "w' = log_call c w"
        using Suc.prems(1) Inr by (simp_all add: a_def [symmetric] c_def Let_def)
      then show ?thesis using log Inr True by (intro exI [of _ "[c]"]) (simp add: c_def succeeded_def)
    next
      case False
      then have "submit_tries E acct symbol side amount lev n (Some x) (log_call c w) = (r, w')"
        using Suc.prems(1) Inr by (simp add: a_def [symmetric] c_def Let_def)
      from Suc.IH [OF this] False obtain new where new: "only_calls (log_call c w) w' new"
        "(\<forall>e. r = Inl e \<longrightarrow> filled_legs new = []) \<and>
         (\<forall>x. r = Inr x \<longrightarrow> filled_legs new = (if succeeded x then [(acct, side, amount)] else []))"
        by (auto simp: succeeded_def)
      have "filled_legs ([c] @ new) = filled_legs new" using False Inr by (simp add: c_def)
      then show ?thesis using only_calls_trans [OF log new(1)] new(2) by metis
    qed
  qed
qed

lemma place_leg_calls:
  assumes "place_leg E acct symbol side amount lev w = (r, w')"
  shows "\<exists>new. only_calls w w' new \<and> (\<forall>e. r = Inl e \<longrightarrow> filled_legs new = []) \<and>
    (\<forall>x. r = Inr x \<longrightarrow> filled_legs new = (if succeeded x then [(acct, side, amount)] else []))"
  using assms
proof -
  from assms show ?thesis
    unfolding place_leg_def
  proof (cases rule: and_then_cases)
    case (raised e)
    then show ?thesis by (auto simp: get_adapter_cases intro!: exI [of _ "[]"])
  next
    case (went_on u w1)
    then have "w1 = w" by (auto simp: get_adapter_cases)
    then show ?thesis using submit_tries_calls [OF went_on(2)] by simp
  qed
qed

lemma place_leg_raises:
  assumes "place_leg E acct symbol side amount lev w = (Inl e, w')" "sv_registry E acct = None"
  shows "\<exists>calls. sv_submit E calls acct symbol side amount = Inl e"
proof -
  have "\<exists>calls. sv_submit E calls acct symbol side amount = Inl e"
    if "submit_tries E acct symbol side amount lev n prev w = (Inl e, w')" for n prev w
    using that
  proof (induction n arbitrary: prev w)
    case (Suc n)
    then show ?case
      by (cases "sv_submit E (sw_calls w) acct symbol side amount") (auto simp: Let_def split: if_splits)
  qed simp
  then show ?thesis using assms by (auto simp: place_leg_def and_then_def get_adapter_def)
qed

lemma roll_back_calls:
  assumes "roll_back E acct symbol n w = (rolled, w')"
  shows "\<exists>new. only_calls w w' new \<and> filled_legs new = [] \<and> (rolled \<longleftrightarrow> list_ex (leg_flattened acct ''short'') new)"
  using assms
proof (induction n arbitrary: w)
  case 0
  then show ?case by (auto intro: exI [of _ "[]"])
next
  case (Suc n)
  define a where "a = sv_close E (sw_calls w) acct symbol ''short''"
  define c where "c = Leg_closed acct symbol ''short'' a"
  have close: "shut_leg E acct symbol ''short'' w = (a, log_call c w)"
    by (simp add: shut_leg_def a_def c_def Let_def)
  have log: "only_calls w (log_call c w) [c]" by (rule only_calls_log)
  show ?case
  proof (cases "\<exists>x. a = Inr x \<and> xr_success x")
    case True
    then have "rolled" "w' = log_call c w" using Suc.prems by (auto simp: close)
    then show ?thesis using log True by (intro exI [of _ "[c]"]) (auto simp: c_def leg_flattened_def)
  next
    case False
    then have "roll_back E acct symbol n (log_call c w) = (rolled, w')"
      using Suc.prems by (cases a) (auto simp: close)
    from Suc.IH [OF this] obtain new where new: "only_calls (log_call c w) w' new" "filled_legs new = []"
      "rolled \<longleftrightarrow> list_ex (leg_flattened acct ''short'') new" by blast
    have "\<not> leg_flattened acct ''short'' c" using False by (cases a) (auto simp: c_def leg_flattened_def)
    then show ?thesis using only_calls_trans [OF log new(1)] new(2,3)
      by (intro exI [of _ "[c] @ new"]) (simp add: c_def)
  qed
qed

lemma size_plan_calls:
  assumes "size_plan E p short_acct long_acct w = (r, w')"
  shows "w' = w" "r = Inr x \<Longrightarrow> sv_registry E short_acct = None \<and> sv_registry E long_acct = None \<and> 0 < snd x"
proof -
  have "w' = w \<and> (r = Inr x \<longrightarrow> sv_registry E short_acct = None \<and> sv_registry E long_acct = None \<and> 0 < snd x)"
  proof (cases "sv_registry E short_acct = None \<and> sv_registry E long_acct = None")
    case False
    then show ?thesis using assms by (auto simp: size_plan_def and_then_def get_adapter_def split: option.splits)
  next
    case True
    define sym where "sym = symbol_of_coin (pn_coin p)"
    obtain q where q: "leg_mark E short_acct long_acct sym w = (Inr q, w)" by (simp add: leg_mark_def)
    have e: "size_plan E p short_acct long_acct w = (case q of
         Inl e \<Rightarrow> (Inl e, w)
       | Inr m \<Rightarrow>
           if falsy m then (Inl (Value_err ''no mark price''), w)
           else (case sv_min_size E short_acct sym of
                   Inl e \<Rightarrow> (Inl e, w)
                 | Inr a \<Rightarrow>
                     (case sv_min_size E long_acct sym of
                        Inl e \<Rightarrow> (Inl e, w)
                      | Inr b \<Rightarrow>
                          (let step = max (or_zero a) (or_zero b);
                               amount = quantize_size (pn_notional p / or_zero m) step
                           in if amount \<le> 0 then (Inl (Value_err ''notional below min size''), w)
                              else (Inr (or_zero m, amount), w)))))"
      using True q unfolding size_plan_def sym_def by (simp add: and_then_def get_adapter_def)
    show ?thesis using assms True by (auto simp: e Let_def split: sum.splits if_splits)
  qed
  then show "w' = w" "r = Inr x \<Longrightarrow> sv_registry E short_acct = None \<and> sv_registry E long_acct = None \<and> 0 < snd x"
    by auto
qed

section \<open>What an executed plan leaves behind\<close>

lemma guarded_stmt_ok:
  "\<not> sv_stmt_fails E s \<Longrightarrow> guarded_stmt E s f w = (Inr (), f w)"
  by (simp add: guarded_stmt_def)

text \<open>
  How a plan can end, in terms of the legs that filled: none, both in one open position, or
  the short alone, flattened again or reported as naked.
\<close>

inductive plan_end ::
  "spread_world \<Rightarrow> spread_error + nat \<Rightarrow> spread_world \<Rightarrow> venue_call list \<Rightarrow> bool" where
  no_leg: "filled_legs new = [] \<Longrightarrow> sw_positions w' = sw_positions w \<Longrightarrow> plan_end w (Inl e) w' new"
| both_legs: "filled_legs new = [(sx_short_account x, ''sell'', sx_size x), (sx_long_account x, ''buy'', sx_size x)] \<Longrightarrow>
    sx_status x = Spread_open \<Longrightarrow> 0 < sx_size x \<Longrightarrow> sw_positions w' = sw_positions w @ [x] \<Longrightarrow>
    plan_end w (Inr (sx_id x)) w' new"
| rolled_back: "filled_legs new = [(acct, ''sell'', amount)] \<Longrightarrow> list_ex (leg_flattened acct ''short'') new \<Longrightarrow>
    sw_notices w' = sw_notices w @ [Rolled_back coin] \<Longrightarrow> sw_positions w' = sw_positions w \<Longrightarrow> plan_end w (Inl e) w' new"
| naked: "filled_legs new = [(acct, ''sell'', amount)] \<Longrightarrow>
    sw_notices w' = sw_notices w @ [Naked_short coin amount acct] \<Longrightarrow> sw_positions w' = sw_positions w \<Longrightarrow>
    plan_end w (Inl e) w' new"

lemma long_leg_failed_end:
  assumes "long_leg_failed E p acct symbol amount err w1 = (r, w')" "\<And>s. \<not> sv_stmt_fails E s"
    and "only_calls w w1 new1" "filled_legs new1 = [(acct, ''sell'', amount)]"
  shows "\<exists>new. sw_calls w' = sw_calls w @ new \<and> plan_end w r w' new"
proof -
  obtain rolled w2 where rb: "roll_back E acct symbol 3 w1 = (rolled, w2)" by fastforce
  from roll_back_calls [OF rb] obtain new2 where new2: "only_calls w1 w2 new2" "filled_legs new2 = []"
    "rolled \<longleftrightarrow> list_ex (leg_flattened acct ''short'') new2" by blast
  note all = only_calls_trans [OF assms(3) new2(1)]
  have legs: "filled_legs (new1 @ new2) = [(acct, ''sell'', amount)]" using assms(4) new2(2) by simp
  define w3 where "w3 = update_plan (pn_id p) (\<lambda>p. p\<lparr>pn_status := Plan_failed, pn_fail := Some (''long leg: '' @ err, Some rolled)\<rparr>) w2"
  have failed: "plan_failed E (pn_id p) (''long leg: '' @ err) (Some rolled) w2 = (Inr (), w3)"
    by (simp add: plan_failed_def guarded_stmt_ok assms(2) w3_def)
  have w3: "sw_calls w3 = sw_calls w @ (new1 @ new2)" "sw_notices w3 = sw_notices w" "sw_positions w3 = sw_positions w"
    using all by (simp_all add: w3_def spread_frame only_calls_def)
  show ?thesis
  proof (cases rolled)
    case True
    then have e: "r = Inl (Runtime_err ''long leg failed (short rolled back)'')" "w' = notify (Rolled_back (pn_coin p)) w3"
      using assms(1) failed True by (simp_all add: long_leg_failed_def rb and_then_def)
    have "list_ex (leg_flattened acct ''short'') (new1 @ new2)" using True new2(3) by simp
    then have "plan_end w r w' (new1 @ new2)"
      unfolding e(1) using legs w3 by (intro plan_end.rolled_back [where coin = "pn_coin p"]) (simp_all add: e(2) spread_frame)
    then show ?thesis using w3(1) by (intro exI [of _ "new1 @ new2"]) (simp add: e(2) spread_frame)
  next
    case False
    then have e: "r = Inl (Runtime_err ''long leg failed and ROLLBACK FAILED'')" "w' = notify (Naked_short (pn_coin p) amount acct) w3"
      using assms(1) failed False by (simp_all add: long_leg_failed_def rb and_then_def)
    have "plan_end w r w' (new1 @ new2)"
      unfolding e(1) using legs w3 by (intro plan_end.naked [where coin = "pn_coin p"]) (simp_all add: e(2) spread_frame)
    then show ?thesis using w3(1) by (intro exI [of _ "new1 @ new2"]) (simp add: e(2) spread_frame)
  qed
qed

lemma fill_legs_end:
  assumes o: "fill_legs E p s l mark amount w = (r, w')" and stmts: "\<And>st. \<not> sv_stmt_fails E st"
    and answers: "\<And>calls e. sv_submit E calls l (symbol_of_coin (pn_coin p)) ''buy'' amount \<noteq> Inl e"
    and band: "pn_abort_up p = Some up" "pn_abort_down p = Some down"
    and reg: "sv_registry E l = None" and pos: "0 < amount"
  shows "\<exists>new. sw_calls w' = sw_calls w @ new \<and> plan_end w r w' new"
proof -
  define sym where "sym = symbol_of_coin (pn_coin p)"
  obtain sr w1 where s: "place_leg E s sym ''sell'' amount (pn_leverage p) w = (sr, w1)" by fastforce
  from place_leg_calls [OF s] obtain new1 where new1: "only_calls w w1 new1"
    "\<And>e. sr = Inl e \<Longrightarrow> filled_legs new1 = []"
    "\<And>x. sr = Inr x \<Longrightarrow> filled_legs new1 = (if succeeded x then [(s, ''sell'', amount)] else [])" by blast
  have no_short: ?thesis if "r = Inl e" "sw_calls w' = sw_calls w1" "sw_positions w' = sw_positions w1" "filled_legs new1 = []" for e
    using that new1(1) by (intro exI [of _ new1]) (auto simp: only_calls_def intro: plan_end.no_leg)
  show ?thesis
  proof (cases sr)
    case (Inl e)
    then have "r = Inl e" "w' = w1" using o by (simp_all add: fill_legs_def Let_def and_then_def s flip: sym_def)
    then show ?thesis using no_short new1(2) Inl by simp
  next
    case sres: (Inr short_res)
    note o1 = o [unfolded fill_legs_def Let_def sym_def [symmetric] and_then_def s sres prod.case sum.case]
    show ?thesis
    proof (cases "succeeded short_res")
      case False
      then have "\<exists>e. r = Inl e" "sw_calls w' = sw_calls w1" "sw_positions w' = sw_positions w1"
        using o1 by (auto simp: plan_failed_def and_then_def guarded_stmt_ok stmts spread_frame)
      then show ?thesis using no_short new1(3) [OF sres] False by auto
    next
      case True
      obtain lr w2 where l: "place_leg E l sym ''buy'' amount (pn_leverage p) w1 = (lr, w2)" by fastforce
      from place_leg_calls [OF l] obtain new2 where new2: "only_calls w1 w2 new2"
        "\<And>x. lr = Inr x \<Longrightarrow> filled_legs new2 = (if succeeded x then [(l, ''buy'', amount)] else [])" by blast
      have "\<nexists>e. lr = Inl e" using place_leg_raises [of E l sym "''buy''" amount "pn_leverage p" w1] l reg answers
        by (metis sym_def)
      then obtain long_res where lres: "lr = Inr long_res" by (cases lr) auto
      note both = only_calls_trans [OF new1(1) new2(1)]
      note o2 = o1 [simplified True not_True_eq_False if_False, unfolded and_then_def l lres prod.case sum.case]
      show ?thesis
      proof (cases "succeeded long_res")
        case False
        then have "long_leg_failed E p s sym amount (err_of long_res) w2 = (r, w')" using o2 by simp
        from long_leg_failed_end [OF this stmts both] show ?thesis
          using new1(3) [OF sres] new2(2) [OF lres] True False by simp
      next
        case longs: True
        define x where "x = \<lparr>sx_id = length (sw_positions w2), sx_plan = pn_id p, sx_coin = pn_coin p,
               sx_symbol = sym, sx_status = Spread_open, sx_short_account = s, sx_long_account = l,
               sx_notional = pn_notional p, sx_leverage = pn_leverage p, sx_size = amount, sx_entry_mark = mark,
               sx_abort_up = up, sx_abort_down = down, sx_short_entry = xr_actual_fill_price (the short_res),
               sx_long_entry = xr_actual_fill_price (the long_res), sx_short_order = xr_exchange_order_id (the short_res),
               sx_long_order = xr_exchange_order_id (the long_res), sx_close_reason = None, sx_closed = False,
               sx_short_close = None, sx_long_close = None, sx_pnl = None\<rparr>"
        have "r = Inr (sx_id x)" "sw_positions w' = sw_positions w2 @ [x]" "sw_calls w' = sw_calls w2"
          using o2 longs by (auto simp: insert_position_def band stmts and_then_def guarded_stmt_ok spread_frame x_def)
        moreover have "filled_legs (new1 @ new2) = [(sx_short_account x, ''sell'', sx_size x), (sx_long_account x, ''buy'', sx_size x)]"
          using new1(3) [OF sres] new2(2) [OF lres] True longs by (simp add: x_def)
        moreover have "sw_positions w2 = sw_positions w" "sw_calls w2 = sw_calls w @ (new1 @ new2)"
          using both by (simp_all add: only_calls_def)
        moreover have "sx_status x = Spread_open" "0 < sx_size x" using pos by (simp_all add: x_def)
        ultimately have "sw_calls w' = sw_calls w @ (new1 @ new2)" "plan_end w r w' (new1 @ new2)"
          by (simp_all add: plan_end.both_legs)
        then show ?thesis by blast
      qed
    qed
  qed
qed

text \<open>
  C17. A plan never leaves a leg nobody knows of, as long as the venues answer and the database
  does: either no leg filled, or both did, in one open position and with the same size, or the
  short filled alone and was flattened again, or a notice names the account and the size of
  the naked short. The long leg is never there alone.
\<close>

theorem plan_leaves_no_silent_leg:
  assumes "execute_plan E i w = (r, w')" "\<And>st. \<not> sv_stmt_fails E st"
    and "\<And>calls acct sym amount e. sv_submit E calls acct sym ''buy'' amount \<noteq> Inl e"
    and "\<And>p. p \<in> set (sw_plans w) \<Longrightarrow> pn_abort_up p \<noteq> None \<and> pn_abort_down p \<noteq> None"
  shows "\<exists>new. sw_calls w' = sw_calls w @ new \<and> plan_end w r w' new"
proof -
  have refused: ?thesis if "r = Inl e" "w' = w" for e
    using that by (intro exI [of _ "[]"]) (simp add: plan_end.no_leg)
  show ?thesis
  proof (cases "admit_plan E i w")
    case (Inl e)
    then have "r = Inl e" "w' = w" using assms(1) by (simp_all add: execute_plan_def)
    then show ?thesis by (rule refused)
  next
    case (Inr admitted)
    obtain p s l where a: "admit_plan E i w = Inr (p, s, l)" using Inr by (cases admitted) auto
    then have "p \<in> set (sw_plans w)"
      by (auto simp: admit_plan_def find_Some_iff split: option.splits if_splits sum.splits)
    then obtain up down where band: "pn_abort_up p = Some up" "pn_abort_down p = Some down" using assms(4) by blast
    have "and_then (size_plan E p s l) (\<lambda>(mark, amount). fill_legs E p s l mark amount) w = (r, w')"
      using assms(1) a by (simp add: execute_plan_def)
    then show ?thesis
    proof (cases rule: and_then_cases)
      case (raised e)
      then show ?thesis using refused size_plan_calls(1) by blast
    next
      case (went_on x w1)
      obtain mark amount where x: "x = (mark, amount)" by fastforce
      note sized = size_plan_calls [OF went_on(1)]
      show ?thesis
        using fill_legs_end [of E p s l mark amount w r w', OF _ assms(2,3) band] went_on(2) sized x by auto
    qed
  qed
qed

section \<open>Untracked legs\<close>

text \<open>
  When the row of the position cannot be written, two live legs are in no table and in no
  notice, and the plan is still armed: confirming it once more is admitted and opens two more.
\<close>

theorem insert_failure_untracked:
  assumes "admit_plan E i w = Inr (p, s, l)" "size_plan E p s l w = (Inr (mark, amount), w)"
    and "place_leg E s (symbol_of_coin (pn_coin p)) ''sell'' amount (pn_leverage p) w = (Inr a, w1)" "succeeded a"
    and "place_leg E l (symbol_of_coin (pn_coin p)) ''buy'' amount (pn_leverage p) w1 = (Inr b, w2)" "succeeded b"
    and "sv_stmt_fails E Position_insert \<or> pn_abort_up p = None \<or> pn_abort_down p = None"
    and "execute_plan E i w = (r, w')"
  shows "(\<exists>e. r = Inl e) \<and> filled_legs (drop (length (sw_calls w)) (sw_calls w')) = [(s, ''sell'', amount), (l, ''buy'', amount)] \<and>
    sw_positions w' = sw_positions w \<and> sw_notices w' = sw_notices w \<and> admit_plan E i w' = Inr (p, s, l)"
proof -
  obtain n1 n2 where n: "only_calls w w1 n1" "filled_legs n1 = [(s, ''sell'', amount)]"
    "only_calls w1 w2 n2" "filled_legs n2 = [(l, ''buy'', amount)]"
    using place_leg_calls [OF assms(3)] place_leg_calls [OF assms(5)] assms(4,6) by auto
  note both = only_calls_trans [OF n(1,3)]
  have e: "\<exists>e. execute_plan E i w = (Inl e, w2)"
    using assms(1-7)
    by (auto simp: execute_plan_def fill_legs_def and_then_def Let_def insert_position_def split: option.splits)
  then have "w' = w2" "\<exists>e. r = Inl e" using assms(8) by auto
  moreover have same: "open_for_coin w2 = open_for_coin w" "sw_plans w2 = sw_plans w"
    using both by (simp_all add: open_for_coin_def only_calls_def fun_eq_iff)
  have "admit_plan E i w2 = admit_plan E i w" unfolding admit_plan_def same ..
  ultimately show ?thesis using both n(2,4) assms(1) by (simp add: only_calls_def)
qed

section \<open>Closing\<close>

definition flattened :: "string \<Rightarrow> string \<Rightarrow> venue_call list \<Rightarrow> bool" where
  "flattened acct side calls \<longleftrightarrow> list_ex (leg_flattened acct side) calls"

lemma try_shut_leg_calls:
  assumes "try_shut_leg E acct symbol side w = (r, w')"
  shows "\<exists>new. only_calls w w' new \<and> (\<forall>c\<in>set new. \<exists>a. c = Leg_closed acct symbol side a) \<and>
    (succeeded r \<longleftrightarrow> list_ex (leg_flattened acct side) new)"
proof (cases "sv_registry E acct")
  case (Some e)
  then have "r = None" "w' = w" using assms by (simp_all add: try_shut_leg_def and_then_def get_adapter_def)
  then show ?thesis by (intro exI [of _ "[]"]) (simp add: succeeded_def)
next
  case None
  define a where "a = sv_close E (sw_calls w) acct symbol side"
  define c where "c = Leg_closed acct symbol side a"
  have "w' = log_call c w" "r = (case a of Inl e \<Rightarrow> None | Inr x \<Rightarrow> Some x)"
    using assms None by (auto simp: try_shut_leg_def and_then_def get_adapter_def shut_leg_def a_def [symmetric] c_def Let_def
        split: sum.splits)
  then show ?thesis using only_calls_log [of w c]
    by (intro exI [of _ "[c]"]) (auto simp: c_def leg_flattened_def succeeded_def split: sum.splits)
qed

text \<open>
  A close is reported only when both venues closed their leg; then the row is closed, or
  aborted, with the results added up. Otherwise the row says that the close failed and a
  notice asks for both venues to be checked.
\<close>

theorem close_needs_both_legs:
  assumes "close_position_row E x reason w = (Inr ans, w')" "x \<in> set (sw_positions w)"
  shows "\<exists>new short_r long_r. sw_calls w' = sw_calls w @ new \<and>
    (cs_closed ans \<longrightarrow> flattened (sx_short_account x) ''short'' new \<and> flattened (sx_long_account x) ''long'' new \<and>
       sw_notices w' = sw_notices w @ [Spread_closed_notice (sx_coin x) (sx_id x) reason (cs_pnl ans)]) \<and>
    (\<not> cs_closed ans \<longrightarrow> cs_status ans = Some Spread_close_failed \<and>
       sw_notices w' = sw_notices w @ [Leg_left_open (sx_coin x) (sx_id x) reason]) \<and>
    closed_row reason short_r long_r (cs_closed ans) x \<in> set (sw_positions w')"
proof -
  obtain sr w1 where s: "try_shut_leg E (sx_short_account x) (sx_symbol x) ''short'' w = (sr, w1)" by fastforce
  obtain lr w2 where l: "try_shut_leg E (sx_long_account x) (sx_symbol x) ''long'' w1 = (lr, w2)" by fastforce
  from try_shut_leg_calls [OF s] obtain n1 where n1: "only_calls w w1 n1"
    "succeeded sr \<longleftrightarrow> list_ex (leg_flattened (sx_short_account x) ''short'') n1" by blast
  from try_shut_leg_calls [OF l] obtain n2 where n2: "only_calls w1 w2 n2"
    "succeeded lr \<longleftrightarrow> list_ex (leg_flattened (sx_long_account x) ''long'') n2" by blast
  note both = only_calls_trans [OF n1(1) n2(1)]
  define ok where "ok \<longleftrightarrow> succeeded sr \<and> succeeded lr"
  define w3 where "w3 = update_position (sx_id x) (closed_row reason sr lr ok) w2"
  have ans: "ans = \<lparr>cs_closed = ok, cs_position = Some (sx_id x),
      cs_status = Some (sx_status (closed_row reason sr lr ok x)), cs_pnl = spread_pnl sr lr\<rparr>"
    and w': "w' = notify (if ok then Spread_closed_notice (sx_coin x) (sx_id x) reason (spread_pnl sr lr)
                         else Leg_left_open (sx_coin x) (sx_id x) reason) w3"
    using assms(1)
    by (simp_all add: close_position_row_def s l Let_def and_then_def guarded_stmt_def ok_def [symmetric] w3_def split: if_splits)
  have w3: "sw_calls w3 = sw_calls w @ (n1 @ n2)" "sw_notices w3 = sw_notices w"
    "closed_row reason sr lr ok x \<in> set (sw_positions w3)"
    using both assms(2) by (auto simp: w3_def spread_frame only_calls_def)
  have "flattened (sx_short_account x) ''short'' (n1 @ n2)" "flattened (sx_long_account x) ''long'' (n1 @ n2)" if ok
    using that n1(2) n2(2) by (simp_all add: flattened_def ok_def)
  then show ?thesis using w3
    by (intro exI [of _ "n1 @ n2"] exI [of _ sr] exI [of _ lr]) (simp add: ans w' spread_frame closed_row_def)
qed

section \<open>Watching\<close>

text \<open>Against the rows at the start: the ids stay, no row opens, and one that is not open stays as it is.\<close>

definition rows_kept :: "spread_position list \<Rightarrow> spread_world \<Rightarrow> bool" where
  "rows_kept rows w \<longleftrightarrow> map sx_id (sw_positions w) = map sx_id rows \<and>
     (\<forall>y\<in>set (sw_positions w). sx_status y = Spread_open \<longrightarrow> y \<in> set rows) \<and>
     (\<forall>y\<in>set rows. sx_status y \<noteq> Spread_open \<longrightarrow> y \<in> set (sw_positions w))"

text \<open>A call that closes a leg of an open row whose mark is outside its band.\<close>

definition sheds :: "spread_env \<Rightarrow> spread_position list \<Rightarrow> venue_call \<Rightarrow> bool" where
  "sheds E rows c \<longleftrightarrow>
     (\<exists>x\<in>set rows. sx_status x = Spread_open \<and>
        (\<exists>mark pre acct. sv_mark E pre acct (sx_symbol x) = Inr (Some mark) \<and> outside_band x mark) \<and>
        (\<exists>a. c = Leg_closed (sx_short_account x) (sx_symbol x) ''short'' a \<or>
             c = Leg_closed (sx_long_account x) (sx_symbol x) ''long'' a))"

lemma same_id_same_row:
  "\<lbrakk>distinct (map sx_id rows); x \<in> set rows; y \<in> set rows; sx_id x = sx_id y\<rbrakk> \<Longrightarrow> x = y"
  by (metis distinct_map inj_onD)

lemma closed_row_not_open [simp]: "sx_status (closed_row reason a b ok x) \<noteq> Spread_open" "sx_id (closed_row reason a b ok x) = sx_id x"
  by (simp_all add: closed_row_def)

lemma rows_kept_update:
  assumes "rows_kept rows w" "distinct (map sx_id rows)" "x \<in> set (sw_positions w)" "sx_status x = Spread_open"
  shows "rows_kept rows (update_position (sx_id x) (closed_row reason a b ok) w)"
proof -
  have d: "distinct (map sx_id (sw_positions w))" using assms(1,2) by (simp add: rows_kept_def)
  have "sx_id y \<noteq> sx_id x" if "y \<in> set rows" "sx_status y \<noteq> Spread_open" for y
    using that assms same_id_same_row [OF d, of y x] by (auto simp: rows_kept_def)
  moreover have "map sx_id (sw_positions (update_position (sx_id x) (closed_row reason a b ok) w)) = map sx_id (sw_positions w)"
    by (simp add: spread_frame)
  moreover have "y \<in> set (sw_positions (update_position (sx_id x) (closed_row reason a b ok) w)) \<Longrightarrow>
      sx_status y = Spread_open \<Longrightarrow> y \<in> set (sw_positions w)" for y
    by (auto simp: spread_frame split: if_splits)
  moreover have "y \<in> set (sw_positions (update_position (sx_id x) (closed_row reason a b ok) w))"
    if "y \<in> set (sw_positions w)" "sx_id y \<noteq> sx_id x" for y
    using that by (force simp: spread_frame)
  ultimately show ?thesis using assms(1) unfolding rows_kept_def by metis
qed

lemma close_position_row_calls:
  assumes "close_position_row E x reason w = (r, w')"
  shows "\<exists>new. sw_calls w' = sw_calls w @ new \<and>
    (\<forall>c\<in>set new. \<exists>a. c = Leg_closed (sx_short_account x) (sx_symbol x) ''short'' a \<or>
       c = Leg_closed (sx_long_account x) (sx_symbol x) ''long'' a) \<and>
    (sw_positions w' = sw_positions w \<or>
       (\<exists>a b ok. sw_positions w' = sw_positions (update_position (sx_id x) (closed_row reason a b ok) w)))"
proof -
  obtain sr w1 where s: "try_shut_leg E (sx_short_account x) (sx_symbol x) ''short'' w = (sr, w1)" by fastforce
  obtain lr w2 where l: "try_shut_leg E (sx_long_account x) (sx_symbol x) ''long'' w1 = (lr, w2)" by fastforce
  from try_shut_leg_calls [OF s] obtain n1 where n1: "only_calls w w1 n1"
    "\<forall>c\<in>set n1. \<exists>a. c = Leg_closed (sx_short_account x) (sx_symbol x) ''short'' a" by blast
  from try_shut_leg_calls [OF l] obtain n2 where n2: "only_calls w1 w2 n2"
    "\<forall>c\<in>set n2. \<exists>a. c = Leg_closed (sx_long_account x) (sx_symbol x) ''long'' a" by blast
  note both = only_calls_trans [OF n1(1) n2(1)]
  define ok where "ok \<longleftrightarrow> succeeded sr \<and> succeeded lr"
  have "sw_calls w' = sw_calls w2 \<and> (sw_positions w' = sw_positions w2 \<or>
      sw_positions w' = sw_positions (update_position (sx_id x) (closed_row reason sr lr ok) w2))"
  proof (cases "sv_stmt_fails E Position_update")
    case True
    then show ?thesis using assms
      by (simp add: close_position_row_def s l Let_def and_then_def guarded_stmt_def)
  next
    case False
    then have "w' = notify (if ok then Spread_closed_notice (sx_coin x) (sx_id x) reason (spread_pnl sr lr)
                         else Leg_left_open (sx_coin x) (sx_id x) reason)
        (update_position (sx_id x) (closed_row reason sr lr ok) w2)"
      using assms by (simp add: close_position_row_def s l Let_def and_then_def guarded_stmt_def ok_def [symmetric])
    then show ?thesis by (simp add: spread_frame)
  qed
  moreover have "sw_positions (update_position i f w2) = sw_positions (update_position i f w)" for i f
    using both by (simp add: spread_frame only_calls_def)
  moreover have "\<forall>c\<in>set (n1 @ n2). \<exists>a. c = Leg_closed (sx_short_account x) (sx_symbol x) ''short'' a \<or>
       c = Leg_closed (sx_long_account x) (sx_symbol x) ''long'' a"
    using n1(2) n2(2) by fastforce
  moreover have "sw_calls w2 = sw_calls w @ (n1 @ n2)" "sw_positions w2 = sw_positions w"
    using both by (simp_all add: only_calls_def)
  ultimately show ?thesis by (intro exI [of _ "n1 @ n2"]) metis
qed

lemma watch_mark_read:
  assumes "watch_mark E x w = Some mark"
  shows "\<exists>acct. sv_mark E (sw_calls w) acct (sx_symbol x) = Inr (Some mark)"
  using assms by (auto simp: watch_mark_def Let_def split: if_splits sum.splits)

lemma watch_row_sheds:
  assumes w: "watch_row E x w = (r, w')" and kept: "rows_kept rows w" and d: "distinct (map sx_id rows)" and x: "x \<in> set rows"
  shows "rows_kept rows w' \<and> (\<exists>new. sw_calls w' = sw_calls w @ new \<and> (\<forall>c\<in>set new. sheds E rows c))"
proof (cases "\<exists>mark. watch_mark E x w = Some mark \<and> outside_band x mark")
  case False
  then have "sw_positions w' = sw_positions w" "sw_calls w' = sw_calls w"
    using w by (auto simp: watch_row_def split: option.splits if_splits)
  then show ?thesis using kept by (simp add: rows_kept_def)
next
  case True
  then obtain mark where mark: "watch_mark E x w = Some mark" "outside_band x mark" by blast
  obtain r1 where c: "close_spread E (Some (sx_id x)) None ''abort'' w = (r1, w')"
    using w mark by (auto simp: watch_row_def and_then_def split: prod.splits sum.splits)
  show ?thesis
  proof (cases "List.find (\<lambda>y. sx_id y = sx_id x \<and> sx_status y = Spread_open) (sw_positions w)")
    case None
    then have "w' = w" using c by (simp add: close_spread_def find_open_def)
    then show ?thesis using kept by simp
  next
    case (Some y)
    then have y: "y \<in> set (sw_positions w)" "sx_id y = sx_id x" "sx_status y = Spread_open"
      by (auto simp: find_Some_iff)
    then have "y \<in> set rows" using kept by (simp add: rows_kept_def)
    then have "y = x" using same_id_same_row [OF d _ x] y(2) by blast
    then have row: "close_position_row E x ''abort'' w = (r1, w')"
      using c Some by (simp add: close_spread_def find_open_def)
    have k: "rows_kept rows (update_position (sx_id x) (closed_row ''abort'' a b ok) w)" for a b ok
      using rows_kept_update [OF kept d] y \<open>y = x\<close> by blast
    from close_position_row_calls [OF row] obtain new where new: "sw_calls w' = sw_calls w @ new"
      and closes: "\<And>c. c \<in> set new \<Longrightarrow> \<exists>a. c = Leg_closed (sx_short_account x) (sx_symbol x) ''short'' a \<or>
         c = Leg_closed (sx_long_account x) (sx_symbol x) ''long'' a"
      and positions: "sw_positions w' = sw_positions w \<or>
         (\<exists>a b ok. sw_positions w' = sw_positions (update_position (sx_id x) (closed_row ''abort'' a b ok) w))" by blast
    have "rows_kept rows w'"
      using positions
    proof (elim disjE exE)
      assume "sw_positions w' = sw_positions w"
      then show ?thesis using kept by (simp add: rows_kept_def)
    next
      fix a b ok
      assume "sw_positions w' = sw_positions (update_position (sx_id x) (closed_row ''abort'' a b ok) w)"
      then show ?thesis using k [of a b ok] by (simp add: rows_kept_def)
    qed
    moreover have "sheds E rows c" if "c \<in> set new" for c
      using closes [OF that] watch_mark_read [OF mark(1)] mark(2) y(3) x unfolding sheds_def \<open>y = x\<close> by blast
    ultimately show ?thesis using new by blast
  qed
qed

lemma watch_rows_shed:
  assumes "watch_rows E xs w = (r, w')" "rows_kept rows w" "distinct (map sx_id rows)" "set xs \<subseteq> set rows"
  shows "rows_kept rows w' \<and> (\<exists>new. sw_calls w' = sw_calls w @ new \<and> (\<forall>c\<in>set new. sheds E rows c))"
  using assms
proof (induction xs arbitrary: w)
  case (Cons x xs)
  have x: "x \<in> set rows" using Cons.prems(4) by simp
  from Cons.prems(1) have "and_then (watch_row E x) (\<lambda>_. watch_rows E xs) w = (r, w')" by simp
  then show ?case
  proof (cases rule: and_then_cases)
    case (raised e)
    then show ?thesis using watch_row_sheds [OF _ Cons.prems(2,3) x] by blast
  next
    case (went_on u w1)
    note one = watch_row_sheds [OF went_on(1) Cons.prems(2,3) x]
    have "set xs \<subseteq> set rows" using Cons.prems(4) by simp
    from Cons.IH [OF went_on(2) conjunct1 [OF one] Cons.prems(3) this] obtain n2 where
      n2: "rows_kept rows w'" "sw_calls w' = sw_calls w1 @ n2" "\<forall>c\<in>set n2. sheds E rows c" by blast
    obtain n1 where n1: "sw_calls w1 = sw_calls w @ n1" "\<forall>c\<in>set n1. sheds E rows c" using one by blast
    have "sw_calls w' = sw_calls w @ (n1 @ n2)" "\<forall>c\<in>set (n1 @ n2). sheds E rows c"
      using n1 n2 by auto
    then show ?thesis using n2(1) by blast
  qed
qed simp

text \<open>
  Whatever the venues answer, the watcher only sheds risk: every order it sends, in any number
  of cycles, closes a leg of a position that was open at the start and for which a venue
  reported a mark outside the position's band. A position that is not open is never touched
  again, one whose close failed included.
\<close>

theorem watcher_only_sheds:
  assumes "distinct (map sx_id (sw_positions w))"
  shows "(\<exists>new. sw_calls (watcher_loop Es w) = sw_calls w @ new \<and> (\<forall>c\<in>set new. \<exists>E\<in>set Es. sheds E (sw_positions w) c)) \<and>
    (\<forall>y\<in>set (sw_positions w). sx_status y \<noteq> Spread_open \<longrightarrow> y \<in> set (sw_positions (watcher_loop Es w)))"
proof -
  have "rows_kept (sw_positions w) (watcher_loop Es v) \<and>
      (\<exists>new. sw_calls (watcher_loop Es v) = sw_calls v @ new \<and> (\<forall>c\<in>set new. \<exists>E\<in>set Es. sheds E (sw_positions w) c))"
    if "rows_kept (sw_positions w) v" for v
    using that
  proof (induction Es arbitrary: v)
    case (Cons E Es)
    obtain r v1 where once: "watch_once E v = (r, v1)" by fastforce
    have sub: "set (filter (\<lambda>x. sx_status x = Spread_open) (sw_positions v)) \<subseteq> set (sw_positions w)"
      using Cons.prems by (auto simp: rows_kept_def)
    from watch_rows_shed [OF once [unfolded watch_once_def] Cons.prems assms sub] obtain n1 where
      n1: "rows_kept (sw_positions w) v1" "sw_calls v1 = sw_calls v @ n1" "\<forall>c\<in>set n1. sheds E (sw_positions w) c" by blast
    from Cons.IH [OF n1(1)] obtain n2 where n2: "rows_kept (sw_positions w) (watcher_loop Es v1)"
      "sw_calls (watcher_loop Es v1) = sw_calls v1 @ n2" "\<forall>c\<in>set n2. \<exists>E\<in>set Es. sheds E (sw_positions w) c" by blast
    have "sw_calls (watcher_loop (E # Es) v) = sw_calls v @ (n1 @ n2)" using n1(2) n2(2) once by simp
    moreover have "\<forall>c\<in>set (n1 @ n2). \<exists>F\<in>set (E # Es). sheds F (sw_positions w) c" using n1(3) n2(3) by auto
    moreover have "rows_kept (sw_positions w) (watcher_loop (E # Es) v)" using n2(1) once by simp
    ultimately show ?case by blast
  qed simp
  from this [of w] obtain new where "rows_kept (sw_positions w) (watcher_loop Es w)"
    "sw_calls (watcher_loop Es w) = sw_calls w @ new" "\<forall>c\<in>set new. \<exists>E\<in>set Es. sheds E (sw_positions w) c"
    by (auto simp: rows_kept_def)
  then show ?thesis unfolding rows_kept_def by blast
qed

section \<open>Sizes\<close>

text \<open>
  The size of both legs is a multiple of the step, less than one step below the notional's
  size and above it by at most a billionth of a step; where one venue's step is a multiple of
  the other's, it is a multiple of both.
\<close>

lemma quantize_bounds:
  assumes "0 < step"
  shows "\<exists>k::int. quantize_size amount step = of_int k * step" "quantize_size amount step \<le> amount + step / 10 ^ 9"
    "amount + step / 10 ^ 9 - step < quantize_size amount step"
proof -
  let ?x = "amount / step + 1 / 10 ^ 9"
  have q: "quantize_size amount step = of_int \<lfloor>?x\<rfloor> * step" using assms by (simp add: quantize_size_def)
  then show "\<exists>k::int. quantize_size amount step = of_int k * step" by blast
  have x: "?x * step = amount + step / 10 ^ 9" using assms by (simp add: field_simps)
  have "of_int \<lfloor>?x\<rfloor> * step \<le> ?x * step" using assms by (intro mult_right_mono) simp_all
  then show "quantize_size amount step \<le> amount + step / 10 ^ 9" by (simp only: q x)
  have "(?x - 1) * step < of_int \<lfloor>?x\<rfloor> * step" using assms by (intro mult_strict_right_mono) linarith+
  then show "amount + step / 10 ^ 9 - step < quantize_size amount step" by (simp only: q left_diff_distrib x mult_1_left)
qed

theorem size_fits_both_steps:
  assumes "0 < fine" "coarse = of_nat m * fine" "0 < m"
  shows "(\<exists>k::int. quantize_size amount (max coarse fine) = of_int k * coarse) \<and>
    (\<exists>k::int. quantize_size amount (max coarse fine) = of_int k * fine) \<and>
    \<bar>amount - quantize_size amount (max coarse fine)\<bar> < coarse"
proof -
  have "(1::rat) \<le> of_nat m" using assms(3) by simp
  then have "fine \<le> coarse" using assms(1,2) by simp
  then have m: "max coarse fine = coarse" and pos: "0 < coarse" using assms(1) by simp_all
  obtain k :: int where k: "quantize_size amount coarse = of_int k * coarse" using quantize_bounds(1) [OF pos] by blast
  have "quantize_size amount coarse = of_int (k * int m) * fine" unfolding k by (simp add: assms(2))
  then have "\<exists>k::int. quantize_size amount coarse = of_int k * fine" by blast
  moreover have "coarse / 10 ^ 9 < coarse" using pos by simp
  moreover have "0 < coarse / 10 ^ 9" using pos by simp
  ultimately show ?thesis using k quantize_bounds(2,3) [OF pos, of amount] unfolding m by (auto simp: abs_less_iff)
qed

text \<open>Concrete spread trades, on which the properties of \<open>SpreadSafety\<close> are instantiated.\<close>

definition leg_result :: "bool \<Rightarrow> rat \<Rightarrow> rat option \<Rightarrow> exec_result" where
  "leg_result ok px pnl = \<lparr>xr_success = ok, xr_exchange_order_id = Some ''x'', xr_status = (if ok then Exec_filled else Exec_rejected),
     xr_error_msg = (if ok then None else Some ''margin''), xr_actual_fill_price = Some px, xr_actual_fill_size = None,
     xr_realized_pnl = pnl, xr_fee = None\<rparr>"

text \<open>A short on Hyperliquid and a long on BloFin at 100, 250 dollars a leg.\<close>

definition demo_plan :: spread_plan where
  "demo_plan = \<lparr>pn_id = ''p1'', pn_coin = ''SOL'', pn_status = Plan_armed, pn_short_venue = ''hyperliquid'', pn_long_venue = ''blofin'',
     pn_notional = 250, pn_leverage = 2, pn_abort_up = Some 125, pn_abort_down = Some 75, pn_fail = None\<rparr>"

definition demo_spread :: "(string \<Rightarrow> bool) \<Rightarrow> (string \<Rightarrow> bool) \<Rightarrow> rat \<Rightarrow> (spread_stmt \<Rightarrow> bool) \<Rightarrow> spread_env" where
  "demo_spread fills closes mark fails = \<lparr>sv_accounts = [(''h'', ''hyperliquid''), (''b'', ''blofin'')],
     sv_registry = (\<lambda>_. None), sv_mark = (\<lambda>_ _ _. Inr (Some mark)),
     sv_min_size = (\<lambda>acct _. Inr (Some (if acct = ''h'' then 1 / 10 else 1))),
     sv_submit = (\<lambda>_ acct _ _ _. Inr (leg_result (fills acct) mark None)),
     sv_close = (\<lambda>_ acct _ _. Inr (leg_result (closes acct) mark (Some 3))),
     sv_open_positions = (\<lambda>_ _. Inr []), sv_stmt_fails = fails\<rparr>"

definition armed_world :: spread_world where
  "armed_world = \<lparr>sw_plans = [demo_plan], sw_positions = [], sw_calls = [], sw_notices = []\<rparr>"

lemmas demo_ok = demo_spread_def armed_world_def demo_plan_def

text \<open>Two contracts of each leg, one open position; and a long leg that is refused twice: the short is flattened.\<close>

lemma plan_leaves_no_silent_leg_witness:
  "(\<exists>new. sw_calls (snd (execute_plan (demo_spread (\<lambda>a. a = ''h'') (\<lambda>_. True) 100 (\<lambda>_. False)) ''p1'' armed_world)) = new \<and>
      plan_end armed_world (fst (execute_plan (demo_spread (\<lambda>a. a = ''h'') (\<lambda>_. True) 100 (\<lambda>_. False)) ''p1'' armed_world))
        (snd (execute_plan (demo_spread (\<lambda>a. a = ''h'') (\<lambda>_. True) 100 (\<lambda>_. False)) ''p1'' armed_world)) new) \<and>
   filled_legs (sw_calls (snd (execute_plan (demo_spread (\<lambda>a. a = ''h'') (\<lambda>_. True) 100 (\<lambda>_. False)) ''p1'' armed_world))) =
     [(''h'', ''sell'', 2)] \<and>
   map sx_size (sw_positions (snd (execute_plan (demo_spread (\<lambda>_. True) (\<lambda>_. True) 100 (\<lambda>_. False)) ''p1'' armed_world))) = [2]"
proof (intro conjI)
  let ?E = "demo_spread (\<lambda>a. a = ''h'') (\<lambda>_. True) 100 (\<lambda>_. False)"
  obtain r w' where e: "execute_plan ?E ''p1'' armed_world = (r, w')" by fastforce
  have "\<exists>new. sw_calls w' = sw_calls armed_world @ new \<and> plan_end armed_world r w' new"
    by (rule plan_leaves_no_silent_leg [OF e]) (auto simp: demo_ok)
  then show "\<exists>new. sw_calls (snd (execute_plan ?E ''p1'' armed_world)) = new \<and>
      plan_end armed_world (fst (execute_plan ?E ''p1'' armed_world)) (snd (execute_plan ?E ''p1'' armed_world)) new"
    unfolding e fst_conv snd_conv by (simp add: armed_world_def)
  show "filled_legs (sw_calls (snd (execute_plan ?E ''p1'' armed_world))) = [(''h'', ''sell'', 2)]" by code_simp
  show "map sx_size (sw_positions (snd (execute_plan (demo_spread (\<lambda>_. True) (\<lambda>_. True) 100 (\<lambda>_. False)) ''p1'' armed_world))) = [2]"
    by code_simp
qed

text \<open>The row cannot be written: two legs, no row, no notice, and the plan is still admitted.\<close>

lemma insert_failure_untracked_witness:
  "filled_legs (sw_calls (snd (execute_plan (demo_spread (\<lambda>_. True) (\<lambda>_. True) 100 (\<lambda>s. s = Position_insert)) ''p1'' armed_world))) =
     [(''h'', ''sell'', 2), (''b'', ''buy'', 2)] \<and>
   filled_legs (sw_calls (snd (execute_plan (demo_spread (\<lambda>_. True) (\<lambda>_. True) 100 (\<lambda>_. False)) ''p1''
     (snd (execute_plan (demo_spread (\<lambda>_. True) (\<lambda>_. True) 100 (\<lambda>s. s = Position_insert)) ''p1'' armed_world))))) =
     [(''h'', ''sell'', 2), (''b'', ''buy'', 2), (''h'', ''sell'', 2), (''b'', ''buy'', 2)]"
proof
  let ?E = "demo_spread (\<lambda>_. True) (\<lambda>_. True) 100 (\<lambda>s. s = Position_insert)"
  let ?w1 = "log_call (Leg_submitted ''h'' ''SOL-USDT'' ''sell'' 2 2 (Inr (leg_result True 100 None))) armed_world"
  let ?w2 = "log_call (Leg_submitted ''b'' ''SOL-USDT'' ''buy'' 2 2 (Inr (leg_result True 100 None))) ?w1"
  obtain r w' where e: "execute_plan ?E ''p1'' armed_world = (r, w')" by fastforce
  have admitted: "admit_plan ?E ''p1'' armed_world = Inr (demo_plan, ''h'', ''b'')"
    by (simp add: admit_plan_def open_for_coin_def resolve_accounts_def account_of_venue_def demo_ok)
  have q: "quantize_size (5 / 2) 1 = 2" by code_simp
  have sized: "size_plan ?E demo_plan ''h'' ''b'' armed_world = (Inr (100, 2), armed_world)"
    by (simp add: size_plan_def and_then_def get_adapter_def leg_mark_def falsy_def demo_ok q Let_def max_def)
  have s: "place_leg ?E ''h'' (symbol_of_coin (pn_coin demo_plan)) ''sell'' 2 (pn_leverage demo_plan) armed_world =
      (Inr (Some (leg_result True 100 None)), ?w1)"
    and l: "place_leg ?E ''b'' (symbol_of_coin (pn_coin demo_plan)) ''buy'' 2 (pn_leverage demo_plan) ?w1 =
      (Inr (Some (leg_result True 100 None)), ?w2)"
    by (simp_all add: place_leg_def and_then_def get_adapter_def numeral_2_eq_2 Let_def demo_ok leg_result_def symbol_of_coin_def)
  have ok: "succeeded (Some (leg_result True 100 None))" by code_simp
  have fails: "sv_stmt_fails ?E Position_insert \<or> pn_abort_up demo_plan = None \<or> pn_abort_down demo_plan = None"
    by (simp add: demo_spread_def)
  show "filled_legs (sw_calls (snd (execute_plan ?E ''p1'' armed_world))) = [(''h'', ''sell'', 2), (''b'', ''buy'', 2)]"
    using insert_failure_untracked [OF admitted sized s ok l ok fails e] unfolding e snd_conv by (simp add: armed_world_def)
  show "filled_legs (sw_calls (snd (execute_plan (demo_spread (\<lambda>_. True) (\<lambda>_. True) 100 (\<lambda>_. False)) ''p1''
     (snd (execute_plan ?E ''p1'' armed_world))))) =
     [(''h'', ''sell'', 2), (''b'', ''buy'', 2), (''h'', ''sell'', 2), (''b'', ''buy'', 2)]"
    by code_simp
qed

text \<open>An open position, and one whose close failed, both far outside their bands.\<close>

definition demo_spread_row :: "nat \<Rightarrow> spread_status \<Rightarrow> spread_position" where
  "demo_spread_row i st = \<lparr>sx_id = i, sx_plan = ''p1'', sx_coin = ''SOL'', sx_symbol = ''SOL-USDT'', sx_status = st,
     sx_short_account = ''h'', sx_long_account = ''b'', sx_notional = 250, sx_leverage = 2, sx_size = 2, sx_entry_mark = 100,
     sx_abort_up = 125, sx_abort_down = 75, sx_short_entry = Some 100, sx_long_entry = Some 100, sx_short_order = None,
     sx_long_order = None, sx_close_reason = None, sx_closed = False, sx_short_close = None, sx_long_close = None, sx_pnl = None\<rparr>"

definition open_world :: spread_world where
  "open_world = \<lparr>sw_plans = [], sw_positions = [demo_spread_row 0 Spread_close_failed, demo_spread_row 1 Spread_open],
     sw_calls = [], sw_notices = []\<rparr>"

text \<open>The long leg does not close: the row says so, and no later cycle closes it.\<close>

lemma watcher_only_sheds_witness:
  "demo_spread_row 0 Spread_close_failed \<in>
     set (sw_positions (watcher_loop (replicate 3 (demo_spread (\<lambda>_. True) (\<lambda>a. a = ''h'') 130 (\<lambda>_. False))) open_world)) \<and>
   length (sw_calls (watcher_loop (replicate 3 (demo_spread (\<lambda>_. True) (\<lambda>a. a = ''h'') 130 (\<lambda>_. False))) open_world)) = 2 \<and>
   map sx_status (sw_positions (watcher_loop (replicate 3 (demo_spread (\<lambda>_. True) (\<lambda>a. a = ''h'') 130 (\<lambda>_. False))) open_world)) =
     [Spread_close_failed, Spread_close_failed]"
proof (intro conjI)
  let ?Es = "replicate 3 (demo_spread (\<lambda>_. True) (\<lambda>a. a = ''h'') 130 (\<lambda>_. False))"
  have d: "distinct (map sx_id (sw_positions open_world))" by code_simp
  have "demo_spread_row 0 Spread_close_failed \<in> set (sw_positions open_world)"
    "sx_status (demo_spread_row 0 Spread_close_failed) \<noteq> Spread_open"
    by (simp_all add: open_world_def demo_spread_row_def)
  then show "demo_spread_row 0 Spread_close_failed \<in> set (sw_positions (watcher_loop ?Es open_world))"
    using conjunct2 [OF watcher_only_sheds [OF d, of ?Es]] by blast
  show "length (sw_calls (watcher_loop ?Es open_world)) = 2" by code_simp
  show "map sx_status (sw_positions (watcher_loop ?Es open_world)) = [Spread_close_failed, Spread_close_failed]" by code_simp
qed

text \<open>Both legs close, at three dollars each.\<close>

lemma close_needs_both_legs_witness:
  "\<exists>w'. close_position_row (demo_spread (\<lambda>_. True) (\<lambda>_. True) 100 (\<lambda>_. False)) (demo_spread_row 1 Spread_open) ''manual'' open_world =
     (Inr \<lparr>cs_closed = True, cs_position = Some 1, cs_status = Some Spread_closed, cs_pnl = Some 6\<rparr>, w') \<and>
     sw_notices w' = [Spread_closed_notice ''SOL'' 1 ''manual'' (Some 6)]"
proof -
  let ?E = "demo_spread (\<lambda>_. True) (\<lambda>_. True) 100 (\<lambda>_. False)"
  let ?run = "close_position_row ?E (demo_spread_row 1 Spread_open) ''manual'' open_world"
  have ans: "fst ?run = Inr \<lparr>cs_closed = True, cs_position = Some 1, cs_status = Some Spread_closed, cs_pnl = Some 6\<rparr>" by code_simp
  then obtain w' where e: "?run = (Inr \<lparr>cs_closed = True, cs_position = Some 1, cs_status = Some Spread_closed, cs_pnl = Some 6\<rparr>, w')"
    by (cases ?run) simp
  have "demo_spread_row 1 Spread_open \<in> set (sw_positions open_world)" by (simp add: open_world_def)
  from close_needs_both_legs [OF e this] have "sw_notices w' = [Spread_closed_notice ''SOL'' 1 ''manual'' (Some 6)]"
    by (auto simp: open_world_def demo_spread_row_def)
  then show ?thesis using e by blast
qed

lemma size_fits_both_steps_witness:
  "quantize_size 237 (max (1 / 2) (1 / 10)) = 237 \<and>
   \<bar>(1234 / 10) - quantize_size (1234 / 10) (max (1 / 2) (1 / 10))\<bar> < (1 / 2 :: rat)"
proof
  show "quantize_size 237 (max (1 / 2) (1 / 10)) = 237" by code_simp
  show "\<bar>(1234 / 10) - quantize_size (1234 / 10) (max (1 / 2) (1 / 10))\<bar> < (1 / 2 :: rat)"
    using size_fits_both_steps [of "1 / 10" "1 / 2" 5 "1234 / 10"] by simp
qed

text \<open>
  The sizes are said to be quantized to the coarser step so that both venues accept them.
  With steps of 0.3 and 0.2 one coin becomes 0.9, which is no multiple of 0.2.
\<close>

theorem coarser_step_not_common:
  "quantize_size 1 (max (3 / 10) (2 / 10)) = 9 / 10 \<and> \<not> (\<exists>k::int. quantize_size 1 (max (3 / 10) (2 / 10)) = of_int k * (2 / 10))"
proof -
  have q: "quantize_size 1 (max (3 / 10) (2 / 10)) = 9 / 10" by code_simp
  have "\<not> (\<exists>k::int. (9 / 10 :: rat) = of_int k * (2 / 10))"
  proof
    assume "\<exists>k::int. (9 / 10 :: rat) = of_int k * (2 / 10)"
    then obtain k :: int where "(9 / 10 :: rat) = of_int k * (2 / 10)" by blast
    then have "of_int (2 * k) = (of_int 9 :: rat)" by simp
    then have "2 * k = 9" by (simp only: of_int_eq_iff)
    then show False by presburger
  qed
  then show ?thesis unfolding q by blast
qed

end
