(* ===== verification/Venue.thy ===== *)
theory Venue
  imports ModifyStops "HOL-Library.List_Lexorder" "HOL-Library.Char_ord"
begin

text \<open>
  What the three exchange adapters of \<open>order-executor/app/adapters\<close> share: the contract of
  \<open>base.py\<close> and the idioms all of them use. A reply is decoded: fields the code turns into
  numbers are missing, blank, numbers or junk; strings the code compares in lower case are
  decoded in lower case. Requests are signed and sent outside the model.
\<close>

section \<open>Fields of a reply\<close>

datatype field = Missing | Blank | Num rat | Junk

definition is_truthy :: "field \<Rightarrow> bool" where
  "is_truthy f \<longleftrightarrow> f \<noteq> Missing \<and> f \<noteq> Blank"

text \<open>\<open>a or b or c\<close>: the first truthy field, or the last one.\<close>

fun first_of :: "field list \<Rightarrow> field" where
  "first_of [] = Missing"
| "first_of [f] = f"
| "first_of (f # fs) = (if is_truthy f then f else first_of fs)"

text \<open>\<open>Decimal(str(x)) if x is not None else None\<close>\<close>

definition decimal_or_none :: "field \<Rightarrow> string + rat option" where
  "decimal_or_none f =
     (case f of Missing \<Rightarrow> Inr None | Num v \<Rightarrow> Inr (Some v) | _ \<Rightarrow> Inl ''InvalidOperation'')"

text \<open>\<open>float(x or d)\<close>\<close>

definition number_or :: "field \<Rightarrow> rat \<Rightarrow> string + rat" where
  "number_or f d = (case f of Num v \<Rightarrow> Inr v | Junk \<Rightarrow> Inl ''InvalidOperation'' | _ \<Rightarrow> Inr d)"

text \<open>\<open>float(row.get(k, d))\<close>: only a missing field gives the default.\<close>

definition number_get :: "field \<Rightarrow> rat \<Rightarrow> string + rat" where
  "number_get f d = (case f of Num v \<Rightarrow> Inr v | Missing \<Rightarrow> Inr d | _ \<Rightarrow> Inl ''ValueError'')"

text \<open>A list comprehension whose body may raise.\<close>

fun map_rows :: "('a \<Rightarrow> string + 'b) \<Rightarrow> 'a list \<Rightarrow> string + 'b list" where
  "map_rows f [] = Inr []"
| "map_rows f (x # xs) =
     (case f x of
        Inl e \<Rightarrow> Inl e
      | Inr y \<Rightarrow> (case map_rows f xs of Inl e \<Rightarrow> Inl e | Inr ys \<Rightarrow> Inr (y # ys)))"

lemma map_rows_length: "map_rows f xs = Inr ys \<Longrightarrow> length ys = length xs"
  by (induction xs arbitrary: ys) (auto split: sum.splits)

text \<open>\<open>try: ... except Exception: return d\<close>\<close>

definition value_or :: "'a \<Rightarrow> string + 'a \<Rightarrow> 'a" where
  "value_or d r = (case r of Inl e \<Rightarrow> d | Inr x \<Rightarrow> x)"

text \<open>A dash-less coin: \<open>symbol.replace("-USDT", "").replace("-USD", "").upper()\<close>.\<close>

fun remove_all :: "string \<Rightarrow> string \<Rightarrow> string" where
  "remove_all p [] = []"
| "remove_all p (c # s) =
     (if p \<noteq> [] \<and> take (length p) (c # s) = p then remove_all p (drop (length p - 1) s) else c # remove_all p s)"

definition coin_of :: "string \<Rightarrow> string" where
  "coin_of symbol = py_upper (remove_all ''-USD'' (remove_all ''-USDT'' symbol))"

section \<open>Orders, positions and closes\<close>

definition is_close_signal :: "string \<Rightarrow> bool" where
  "is_close_signal signal \<longleftrightarrow> signal = ''close_long'' \<or> signal = ''close_short''"

definition or_isolated :: "string option \<Rightarrow> string" where
  "or_isolated m = (case m of None \<Rightarrow> ''isolated'' | Some v \<Rightarrow> if v = [] then ''isolated'' else v)"

definition or_ten :: "int option \<Rightarrow> int" where
  "or_ten l = (case l of None \<Rightarrow> 10 | Some v \<Rightarrow> if v = 0 then 10 else v)"

definition or_one :: "int option \<Rightarrow> int" where
  "or_one l = (case l of None \<Rightarrow> 1 | Some v \<Rightarrow> if v = 0 then 1 else v)"

definition close_order_side :: "string \<Rightarrow> string" where
  "close_order_side side = (if side = ''long'' then ''sell'' else ''buy'')"

definition adapter_result :: "bool \<Rightarrow> exec_status \<Rightarrow> string option \<Rightarrow> string option \<Rightarrow> exec_result" where
  "adapter_result ok st oid err = \<lparr>xr_success = ok, xr_exchange_order_id = oid, xr_status = st, xr_error_msg = err,
     xr_actual_fill_price = None, xr_actual_fill_size = None, xr_realized_pnl = None, xr_fee = None\<rparr>"

lemma adapter_result_fields [simp]:
  "xr_success (adapter_result ok st oid e) = ok" "xr_exchange_order_id (adapter_result ok st oid e) = oid"
  "xr_status (adapter_result ok st oid e) = st" "xr_error_msg (adapter_result ok st oid e) = e"
  "xr_actual_fill_price (adapter_result ok st oid e) = None"
  "xr_actual_fill_size (adapter_result ok st oid e) = None"
  by (simp_all add: adapter_result_def)

record position_report = venue_holding +
  bp_entry_price :: rat
  bp_leverage :: int
  bp_liquidation :: "rat option"

record open_order =
  oo_order_id :: string
  oo_symbol :: string
  oo_side :: string
  oo_price :: rat
  oo_size :: rat
  oo_filled_size :: rat
  oo_status :: string
  oo_created_at :: int

record closed_details =
  cd_liquidated :: bool
  cd_closing_price :: rat
  cd_pnl :: rat
  cd_fee :: rat
  cd_round_trip :: bool
  cd_closed_at :: "int option"

record venue_balance =
  vb_total :: rat
  vb_available :: rat
  vb_used :: rat
  vb_currency :: string
  vb_error :: "string option"

definition failed_balance :: "string \<Rightarrow> string \<Rightarrow> venue_balance" where
  "failed_balance currency e =
     \<lparr>vb_total = 0, vb_available = 0, vb_used = 0, vb_currency = currency, vb_error = Some e\<rparr>"

section \<open>Candles\<close>

definition candle_seconds :: "string \<Rightarrow> int option" where
  "candle_seconds = map_of
     [(''1m'', 60), (''3m'', 180), (''5m'', 300), (''15m'', 900), (''30m'', 1800), (''1h'', 3600), (''2h'', 7200),
      (''4h'', 14400), (''6h'', 21600), (''8h'', 28800), (''12h'', 43200), (''1d'', 86400)]"

record venue_candle =
  vc_time :: int
  vc_open :: rat
  vc_high :: rat
  vc_low :: rat
  vc_close :: rat
  vc_volume :: rat

record candle_request =
  cq_symbol :: string
  cq_timeframe :: string
  cq_limit :: int
  cq_end :: "int option"

section \<open>Maintenance margin\<close>

definition TIER_MMR_BUFFER :: rat where "TIER_MMR_BUFFER = 15 / 10000"

record tier_row =
  ti_min :: rat
  ti_rate :: rat

definition applicable_tier :: "tier_row list \<Rightarrow> rat \<Rightarrow> tier_row option" where
  "applicable_tier tiers notional =
     (case tiers of
        [] \<Rightarrow> None
      | t # _ \<Rightarrow> (let applicable = filter (\<lambda>t. ti_min t \<le> notional) tiers
                  in Some (if applicable = [] then t else last applicable)))"

section \<open>Powers of ten\<close>

text \<open>The decimal exponent of a positive number.\<close>

fun digits_above :: "nat \<Rightarrow> nat" where
  "digits_above n = (if n < 10 then 0 else Suc (digits_above (n div 10)))"

declare digits_above.simps [simp del]

function lead_zeros :: "rat \<Rightarrow> nat" where
  "lead_zeros x = (if x \<le> 0 \<or> 1 \<le> x then 0 else Suc (lead_zeros (10 * x)))"
  by auto

termination lead_zeros
proof (relation "measure (\<lambda>x. nat \<lfloor>1 / x\<rfloor>)", simp, simp only: in_measure)
  fix x :: rat
  assume "\<not> (x \<le> 0 \<or> 1 \<le> x)"
  then have x: "0 < x" "x < 1" by simp_all
  then have one: "1 \<le> \<lfloor>1 / x\<rfloor>" by (simp add: le_floor_iff)
  have "1 / (10 * x) = (1 / x) / 10" by simp
  also have "\<dots> < (of_int \<lfloor>1 / x\<rfloor> + 1) / 10" by (intro divide_strict_right_mono) linarith+
  also have "\<dots> \<le> of_int \<lfloor>1 / x\<rfloor>" using one by (simp add: field_simps) (use one in linarith)
  finally have "\<lfloor>1 / (10 * x)\<rfloor> < \<lfloor>1 / x\<rfloor>" by (simp add: floor_less_iff)
  then show "nat \<lfloor>1 / (10 * x)\<rfloor> < nat \<lfloor>1 / x\<rfloor>" using one by simp
qed

declare lead_zeros.simps [simp del]

text \<open>\<open>floor(log10(x))\<close>\<close>

definition decimal_exponent :: "rat \<Rightarrow> int" where
  "decimal_exponent x = (if 1 \<le> x then int (digits_above (nat \<lfloor>x\<rfloor>)) else - int (lead_zeros x))"

text \<open>\<open>max(0, -int(floor(log10(x + 1e-15))))\<close>: the decimals of a size step.\<close>

definition size_places :: "rat \<Rightarrow> nat" where
  "size_places step = nat (- decimal_exponent (step + 1 / 10 ^ 15))"

lemma digits_above_less: "x < 10 ^ n \<Longrightarrow> 0 < n \<Longrightarrow> digits_above x < n"
proof (induction x arbitrary: n rule: digits_above.induct)
  case (1 x)
  show ?case
  proof (cases "x < 10")
    case True
    then show ?thesis using 1 by (simp add: digits_above.simps)
  next
    case False
    then have "n \<noteq> 1" using "1.prems"(1) by auto
    then obtain m where n: "n = Suc m" "0 < m" using "1.prems"(2) by (cases n) auto
    then have "x div 10 < 10 ^ m" using "1.prems"(1) by (simp add: less_mult_imp_div_less mult.commute)
    then show ?thesis using "1.IH" [OF False] n False by (simp add: digits_above.simps [of x])
  qed
qed

lemma lead_zeros_more: "0 < x \<Longrightarrow> x * 10 ^ j < 1 \<Longrightarrow> j < lead_zeros x"
proof (induction j arbitrary: x)
  case 0
  then show ?case by (simp add: lead_zeros.simps [of x])
next
  case (Suc j)
  have "(1::rat) \<le> 10 ^ Suc j" by (rule one_le_power) simp
  then have "x * 1 \<le> x * 10 ^ Suc j" using Suc.prems(1) by (intro mult_left_mono) simp_all
  then have "x < 1" using Suc.prems(2) by linarith
  moreover have "j < lead_zeros (10 * x)" using Suc.prems by (intro Suc.IH) (simp_all add: mult_ac)
  ultimately show ?case using Suc.prems(1) by (simp add: lead_zeros.simps [of x])
qed

lemma round_half_even_near: "\<bar>of_int (round_half_even x) - x\<bar> \<le> 1 / 2"
  unfolding abs_le_iff using round_half_even_bounds [of x] by linarith

lemma py_round_whole:
  assumes "x * 10 ^ n = of_int i"
  shows "py_round x n = x"
proof -
  have "py_round x n = of_int i / 10 ^ n" by (simp add: py_round_def assms)
  also have "\<dots> = x" unfolding assms [symmetric] by simp
  finally show ?thesis .
qed


section \<open>Numbers as text\<close>

definition rstrip_char :: "char \<Rightarrow> string \<Rightarrow> string" where
  "rstrip_char c s = rev (dropWhile ((=) c) (rev s))"

text \<open>An integer that is not negative, in decimal.\<close>

function show_int :: "int \<Rightarrow> string" where
  "show_int n = (if n < 10 then [] else show_int (n div 10)) @ [char_of (48 + n mod 10)]"
  by auto
termination by (relation "measure nat") auto

declare show_int.simps [simp del]

text \<open>\<open>f"{x:.{p}f}"\<close>\<close>

definition fixed_text :: "nat \<Rightarrow> rat \<Rightarrow> string" where
  "fixed_text p x =
     (let n = round_half_even (\<bar>x\<bar> * 10 ^ p); tail = show_int (n mod 10 ^ p)
      in (if x < 0 then ''-'' else []) @ show_int (n div 10 ^ p) @
         (if p = 0 then [] else ''.'' @ replicate (p - length tail) CHR ''0'' @ tail))"

text \<open>\<open>.rstrip("0").rstrip(".")\<close>\<close>

definition strip_zeros :: "string \<Rightarrow> string" where
  "strip_zeros s = rstrip_char CHR ''.'' (rstrip_char CHR ''0'' s)"

text \<open>\<open>float(s)\<close> of such a text.\<close>

definition digits_value :: "string \<Rightarrow> int" where
  "digits_value s = foldl (\<lambda>a c. 10 * a + (of_char c - 48)) 0 s"

definition unsigned_value :: "string \<Rightarrow> rat" where
  "unsigned_value s =
     (case dropWhile (\<lambda>c. c \<noteq> CHR ''.'') s of
        [] \<Rightarrow> of_int (digits_value s)
      | _ # ds \<Rightarrow> of_int (digits_value (takeWhile (\<lambda>c. c \<noteq> CHR ''.'') s)) + of_int (digits_value ds) / 10 ^ length ds)"

definition text_value :: "string \<Rightarrow> rat" where
  "text_value s = (case s of c # t \<Rightarrow> if c = CHR ''-'' then - unsigned_value t else unsigned_value s | [] \<Rightarrow> 0)"

lemma digits_value_append: "digits_value (s @ t) = digits_value s * 10 ^ length t + digits_value t"
proof (induction t rule: rev_induct)
  case (snoc c t)
  have "digits_value (s @ t @ [c]) = 10 * digits_value (s @ t) + (of_char c - 48)"
    by (simp add: digits_value_def foldl_append flip: append_assoc)
  moreover have "digits_value (t @ [c]) = 10 * digits_value t + (of_char c - 48)"
    by (simp add: digits_value_def)
  ultimately show ?case using snoc by simp
qed (simp add: digits_value_def)

lemma digits_value_zeros [simp]: "digits_value (replicate n CHR ''0'') = 0"
  by (induction n) (simp_all add: digits_value_def)

lemma digit_char: "0 \<le> d \<Longrightarrow> d < 10 \<Longrightarrow> of_char (char_of (48 + d) :: char) = (48 + d :: int)"
  by (simp add: of_char_of)

lemma digits_value_show_int [simp]: "0 \<le> n \<Longrightarrow> digits_value (show_int n) = n"
proof (induction n rule: show_int.induct)
  case (1 n)
  have last: "digits_value [char_of (48 + n mod 10)] = n mod 10"
    by (simp add: digits_value_def digit_char)
  show ?case
  proof (cases "n < 10")
    case True
    then show ?thesis using last "1.prems" by (simp add: show_int.simps [of n])
  next
    case False
    then have "digits_value (show_int (n div 10)) = n div 10" using 1 by simp
    then show ?thesis
      using False last by (simp add: show_int.simps [of n] digits_value_append)
  qed
qed

lemma show_int_digits: "c \<in> set (show_int n) \<Longrightarrow> 48 \<le> (of_char c :: int) \<and> (of_char c :: int) < 58"
proof (induction n rule: show_int.induct)
  case (1 n)
  have "c = char_of (48 + n mod 10) \<or> \<not> n < 10 \<and> c \<in> set (show_int (n div 10))"
    using "1.prems" by (auto simp: show_int.simps [of n] split: if_splits)
  then show ?case using "1.IH" digit_char [of "n mod 10"] by auto
qed

lemma show_int_no_sign: "CHR ''.'' \<notin> set (show_int n)" "CHR ''-'' \<notin> set (show_int n)"
  using show_int_digits [of "CHR ''.''" n] show_int_digits [of "CHR ''-''" n] by (auto simp: of_char_def)

lemma show_int_not_Nil [simp]: "show_int n \<noteq> []"
  by (simp add: show_int.simps [of n])

lemma length_show_int: "0 \<le> n \<Longrightarrow> n < 10 ^ p \<Longrightarrow> 0 < p \<Longrightarrow> length (show_int n) \<le> p"
proof (induction n arbitrary: p rule: show_int.induct)
  case (1 n)
  show ?case
  proof (cases "n < 10")
    case True
    then show ?thesis using "1.prems" by (simp add: show_int.simps [of n])
  next
    case False
    then obtain q where p: "p = Suc q" "0 < q" using "1.prems" by (cases p; cases "p - 1") auto
    then have "n < 10 ^ q * 10" using "1.prems"(2) by simp
    then have "n div 10 < 10 ^ q" by linarith
    then show ?thesis using "1.IH" [OF False _ _ p(2)] False p by (simp add: show_int.simps [of n])
  qed
qed

text \<open>The value of a text with a point, and of the text without its trailing zeros.\<close>

lemma unsigned_value_point:
  "CHR ''.'' \<notin> set a \<Longrightarrow> unsigned_value (a @ CHR ''.'' # ds) = of_int (digits_value a) + of_int (digits_value ds) / 10 ^ length ds"
  by (simp add: unsigned_value_def dropWhile_append takeWhile_append)

lemma unsigned_value_plain: "CHR ''.'' \<notin> set a \<Longrightarrow> unsigned_value a = of_int (digits_value a)"
proof -
  assume "CHR ''.'' \<notin> set a"
  then have "dropWhile (\<lambda>c. c \<noteq> CHR ''.'') a = []" unfolding dropWhile_eq_Nil_conv by blast
  then show ?thesis unfolding unsigned_value_def by (simp only: list.case)
qed

lemma rstrip_char_snoc: "rstrip_char c (s @ [d]) = (if c = d then rstrip_char c s else s @ [d])"
  by (simp add: rstrip_char_def)

lemma rstrip_char_absent: "c \<notin> set s \<Longrightarrow> rstrip_char c s = s"
  by (cases s rule: rev_cases) (auto simp: rstrip_char_snoc rstrip_char_def)

lemma strip_zeros_point: "CHR ''.'' \<notin> set a \<Longrightarrow> strip_zeros (a @ [CHR ''.'']) = a"
  by (simp add: strip_zeros_def rstrip_char_snoc rstrip_char_absent)

lemma strip_zeros_value:
  "CHR ''.'' \<notin> set a \<Longrightarrow> CHR ''.'' \<notin> set ds \<Longrightarrow>
   unsigned_value (strip_zeros (a @ CHR ''.'' # ds)) = of_int (digits_value a) + of_int (digits_value ds) / 10 ^ length ds"
proof (induction ds rule: rev_induct)
  case Nil
  then show ?case
    by (simp add: strip_zeros_def rstrip_char_snoc rstrip_char_absent unsigned_value_plain digits_value_def [of "[]"])
next
  case (snoc d ds)
  show ?case
  proof (cases "d = CHR ''0''")
    case True
    have "strip_zeros (a @ CHR ''.'' # ds @ [d]) = strip_zeros (a @ CHR ''.'' # ds)"
      using rstrip_char_snoc [of "CHR ''0''" "a @ CHR ''.'' # ds" d] True by (simp add: strip_zeros_def)
    moreover have "digits_value (ds @ [d]) = 10 * digits_value ds"
      using True by (simp add: digits_value_def)
    ultimately show ?thesis using snoc by (simp add: field_simps)
  next
    case False
    then have "strip_zeros (a @ CHR ''.'' # ds @ [d]) = a @ CHR ''.'' # ds @ [d]"
      using rstrip_char_snoc [of "CHR ''0''" "a @ CHR ''.'' # ds" d] rstrip_char_snoc [of "CHR ''.''" "a @ CHR ''.'' # ds" d] snoc.prems
      by (simp add: strip_zeros_def)
    then show ?thesis using unsigned_value_point [of a "ds @ [d]"] snoc.prems by simp
  qed
qed

text \<open>
  With at least one decimal, stripping the zeros keeps the number: the text is read back as
  the rounded value.
\<close>

lemma strip_fixed_text:
  assumes "0 < p" "0 \<le> x"
  shows "text_value (strip_zeros (fixed_text p x)) = py_round x p"
proof -
  define n where "n = round_half_even (x * 10 ^ p)"
  have n0: "0 \<le> n"
    using round_half_even_mono [of 0 "x * 10 ^ p"] round_half_even_of_int [of 0] assms(2) by (simp add: n_def)
  define tail where "tail = replicate (p - length (show_int (n mod 10 ^ p))) CHR ''0'' @ show_int (n mod 10 ^ p)"
  have shape: "fixed_text p x = show_int (n div 10 ^ p) @ CHR ''.'' # tail"
    using assms by (simp add: fixed_text_def n_def tail_def Let_def)
  have "length (show_int (n mod 10 ^ p)) \<le> p" using assms(1) by (intro length_show_int) simp_all
  then have len: "length tail = p" by (simp add: tail_def)
  have val: "digits_value tail = n mod 10 ^ p" by (simp add: tail_def digits_value_append)
  have head: "digits_value (show_int (n div 10 ^ p)) = n div 10 ^ p" using n0 by (simp add: pos_imp_zdiv_nonneg_iff)
  have no_point: "CHR ''.'' \<notin> set tail" by (simp add: tail_def show_int_no_sign)
  have "unsigned_value (strip_zeros (fixed_text p x)) = of_int (n div 10 ^ p) + of_int (n mod 10 ^ p) / 10 ^ p"
    unfolding shape using strip_zeros_value [OF show_int_no_sign(1) no_point] len val head by simp
  also have "\<dots> = of_int n / 10 ^ p"
  proof -
    have "(of_int n :: rat) = of_int (n div 10 ^ p * 10 ^ p + n mod 10 ^ p)" unfolding div_mult_mod_eq by (rule refl)
    also have "\<dots> = of_int (n div 10 ^ p) * 10 ^ p + of_int (n mod 10 ^ p)"
      unfolding of_int_add of_int_mult of_int_power by simp
    finally show ?thesis by (simp add: field_simps)
  qed
  also have "\<dots> = py_round x p" by (simp add: n_def py_round_def)
  finally have v: "unsigned_value (strip_zeros (fixed_text p x)) = py_round x p" .
  have "hd (strip_zeros (fixed_text p x)) \<noteq> CHR ''-'' \<and> strip_zeros (fixed_text p x) \<noteq> []"
  proof -
    obtain c cs where a: "show_int (n div 10 ^ p) = c # cs" by (cases "show_int (n div 10 ^ p)") auto
    have "c \<noteq> CHR ''-''" using show_int_no_sign(2) [of "n div 10 ^ p"] a by auto
    moreover have "\<exists>t. strip_zeros (c # cs @ CHR ''.'' # ds) = c # t" if "CHR ''.'' \<notin> set ds" for ds
      using that
    proof (induction ds rule: rev_induct)
      case Nil
      have "CHR ''.'' \<notin> set (c # cs)" using show_int_no_sign(1) [of "n div 10 ^ p"] a by simp
      then show ?case using strip_zeros_point [of "c # cs"] by simp
    next
      case (snoc d ds)
      then show ?case
        using rstrip_char_snoc [of "CHR ''0''" "c # cs @ CHR ''.'' # ds" d] rstrip_char_snoc [of "CHR ''.''" "c # cs @ CHR ''.'' # ds" d]
        by (auto simp: strip_zeros_def)
    qed
    ultimately show ?thesis using no_point shape a by fastforce
  qed
  then show ?thesis using v by (cases "strip_zeros (fixed_text p x)") (simp_all add: text_value_def)
qed

section \<open>The contract of an adapter that never raises\<close>

text \<open>
  \<open>base.py\<close> asks every method but the read of the positions to answer instead of raising.
  What \<open>modify_stops\<close> gains from it: once account and positions are read, it answers with an
  outcome, never with an exception half way through cancelling and placing.
\<close>

locale stop_venue =
  fixes S :: stops_env
  assumes reads: "\<exists>ts. se_triggers S inst side h = Inr ts"
    and cancels: "\<exists>c. se_cancel S inst oid h = Inr c"
    and places: "\<exists>ls. se_place S q h = Inr ls"
begin

lemma cancel_all_answers: "\<exists>cs h'. cancel_all S symbol ts h = (Inr cs, h')"
proof (induction ts arbitrary: h)
  case (Cons t ts)
  obtain c where "se_cancel S symbol (tg_oid t) h = Inr c" using cancels by blast
  then show ?case using Cons [of "h @ [Cancelled (tg_oid t) (Inr c)]"] by (auto simp: Let_def)
qed simp

lemma read_back_answers: "\<exists>ts h'. read_back S P n h = (Inr ts, h')"
proof (induction n arbitrary: h)
  case (Suc n)
  obtain ts where "se_triggers S (sp_symbol P) (sp_leg_side P) h = Inr ts" using reads by blast
  then show ?case using Suc by (cases ts) (auto simp: Let_def)
qed simp

lemma place_attempt_answers: "\<exists>L' h'. place_attempt S P L h = (Inr L', h')"
proof -
  obtain ls where ls: "se_place S (place_args P L) h = Inr ls" using places by blast
  obtain ts h' where rb: "read_back S P (Suc MODIFY_STOPS_READ_RETRIES) (h @ [Placed (place_args P L) (Inr ls)]) = (Inr ts, h')"
    using read_back_answers by blast
  show ?thesis unfolding place_attempt_def Let_def ls by (cases ts) (simp_all add: rb del: read_back.simps)
qed

lemma place_loop_answers: "\<exists>L' h'. place_loop S P n L h = (Inr L', h')"
proof (induction n arbitrary: L h)
  case (Suc n)
  obtain L1 h1 where a: "place_attempt S P L h = (Inr L1, h1)" using place_attempt_answers by blast
  obtain L2 h2 where "place_loop S P n L1 h1 = (Inr L2, h2)" using Suc by blast
  then show ?case by (simp add: a)
qed simp

lemma never_raises:
  assumes "modify_stops S account rq = (ans, h)" "se_adapter S account = Inr ad" "se_positions S = Inr ps"
  shows "sn_error ans \<noteq> Some (Stops_raised m)"
proof -
  define leg_side where "leg_side = (if hedge ad then Some (mr_side rq) else None)"
  obtain ts where ts: "se_triggers S (mr_symbol rq) leg_side [] = Inr ts" using reads by blast
  have "sn_error (fst (replace_stops S rq P existing h0)) \<noteq> Some (Stops_raised m)" for P existing h0
  proof -
    obtain cs h1 where c: "cancel_all S (sp_symbol P) existing h0 = (Inr cs, h1)" using cancel_all_answers by blast
    obtain L h2 where "place_loop S P MODIFY_STOPS_VERIFY_ATTEMPTS (start_legs P) h1 = (Inr L, h2)" using place_loop_answers by blast
    then show ?thesis by (simp add: replace_stops_def c nothing_to_do_def stops_outcome_def Let_def)
  qed
  then have "sn_error (fst (modify_stops S account rq)) \<noteq> Some (Stops_raised m)"
    using assms(2,3) ts
    by (auto simp: modify_stops_def leg_side_def [symmetric] stops_refusal_def Let_def split: option.splits)
  then show ?thesis using assms(1) by simp
qed

end

end
