(* ===== verification/Blofin.thy ===== *)
theory Blofin
  imports Venue
begin

text \<open>
  The BloFin adapter: \<open>order-executor/app/adapters/blofin.py\<close>. The exchange is a parameter:
  the reply to a request may depend on the requests that changed something before it (the
  posts). The caches of instruments and tiers are read through it too.
\<close>

section \<open>Replies\<close>

text \<open>An exception of the client, or a status, whether the body's code is 0 or 200, its message and its data.\<close>

datatype 'a blofin_reply = Failed string | Replied nat bool "string option" 'a

record order_row =
  og_id :: "string option"
  og_inst :: string
  og_side :: string
  og_reduce_only :: bool
  og_state :: string
  og_position_side :: string
  og_create_time :: int
  og_price_fields :: "field list"
  og_filled_size :: field
  og_acc_fill_size :: field
  og_fill_size :: field
  og_pnl :: field
  og_realized_pnl :: field
  og_fee :: field
  og_size :: field
  og_price :: field
  og_leverage :: field
  og_margin_mode :: "string option"

text \<open>\<open>filledSize or accFillSz or fillSz\<close>\<close>

definition og_filled_fields :: "order_row \<Rightarrow> field list" where
  "og_filled_fields d = [og_filled_size d, og_acc_fill_size d, og_fill_size d]"

record holding_row =
  hr_inst :: string
  hr_positions :: rat
  hr_position_side :: string
  hr_average_price :: rat
  hr_leverage :: "int option"
  hr_liquidation :: "rat option"

record trigger_row =
  tr_id :: string
  tr_position_side :: string
  tr_tp :: raw_px
  tr_sl :: raw_px

record closed_entry =
  ce_update_time :: int
  ce_position_side :: string
  ce_liquidation_positions :: int
  ce_realized_pnl :: rat
  ce_fee :: rat
  ce_close_price :: rat

record balance_row =
  br_total :: field
  br_available :: field
  br_available_equity :: field

section \<open>Requests that change something\<close>

record order_body =
  ob_inst :: string
  ob_margin_mode :: string
  ob_side :: string
  ob_type :: string
  ob_size :: rat
  ob_leverage :: "int option"
  ob_reduce_only :: bool
  ob_position_side :: "string option"
  ob_price :: "rat option"
  ob_tp :: "rat option"
  ob_sl :: "rat option"

record tpsl_body =
  tb_inst :: string
  tb_side :: string
  tb_size :: rat
  tb_position_side :: "string option"
  tb_tp :: "rat option"
  tb_sl :: "rat option"

datatype post =
    Leverage_post string int string string
  | Order_post order_body
  | Close_post string string string
  | Tpsl_post tpsl_body
  | Cancel_tpsl_post string string
  | Cancel_order_post string string
  | Mode_post string

text \<open>The \<open>data\<close> of a reply: a list of order ids, one object, or nothing.\<close>

datatype post_data = Id_list "string option list" | Id_object "string option" | No_data

record inst_spec =
  is_contract_value :: "rat option"
  is_lot :: "rat option"
  is_min :: "rat option"
  is_tick :: "rat option"
  is_max_leverage :: "rat option"

record blofin_env =
  bv_hedge :: bool
  bv_inst :: "string \<Rightarrow> inst_spec option"
  bv_post :: "post list \<Rightarrow> post \<Rightarrow> post_data blofin_reply"
  bv_clock :: "post list \<Rightarrow> int"
  bv_pending :: "post list \<Rightarrow> string option \<Rightarrow> order_row list blofin_reply"
  bv_orders_history :: "post list \<Rightarrow> string \<Rightarrow> order_row list blofin_reply"
  bv_fills_history :: "post list \<Rightarrow> string \<Rightarrow> order_row list blofin_reply"
  bv_positions :: "post list \<Rightarrow> holding_row list blofin_reply"
  bv_triggers :: "post list \<Rightarrow> string \<Rightarrow> trigger_row list blofin_reply"
  bv_positions_history :: "post list \<Rightarrow> string \<Rightarrow> closed_entry list blofin_reply"
  bv_tiers :: "string \<Rightarrow> string \<Rightarrow> tier_row list"
  bv_instruments :: "string list"
  bv_balance :: "post list \<Rightarrow> balance_row blofin_reply"
  bv_mark :: "string \<Rightarrow> field list blofin_reply"
  bv_candles :: "candle_request \<Rightarrow> venue_candle list blofin_reply"
  bv_mode :: "post list \<Rightarrow> string option blofin_reply"

section \<open>Sizes and prices\<close>

text \<open>The number that \<open>f"{x:g}"\<close> writes: six significant digits.\<close>

definition general_format :: "rat \<Rightarrow> rat" where
  "general_format x =
     (if x = 0 then 0
      else (let k = 5 - decimal_exponent \<bar>x\<bar>
            in if 0 \<le> k then py_round x (nat k)
               else of_int (round_half_even (x / 10 ^ nat (- k))) * 10 ^ nat (- k)))"

definition spec_or :: "rat option \<Rightarrow> rat \<Rightarrow> rat" where
  "spec_or x d = (case x of None \<Rightarrow> d | Some v \<Rightarrow> v)"

definition contract_value :: "inst_spec option \<Rightarrow> rat" where
  "contract_value inst = (case inst of None \<Rightarrow> 1 / 1000 | Some i \<Rightarrow> spec_or (is_contract_value i) (1 / 1000))"

definition lot_size :: "inst_spec option \<Rightarrow> rat" where
  "lot_size inst = (case inst of None \<Rightarrow> 1 / 10 | Some i \<Rightarrow> spec_or (is_lot i) (1 / 10))"

definition min_size :: "inst_spec option \<Rightarrow> rat" where
  "min_size inst = (case inst of None \<Rightarrow> 1 / 10 | Some i \<Rightarrow> spec_or (is_min i) (1 / 10))"

definition to_contracts :: "inst_spec option \<Rightarrow> rat \<Rightarrow> string + rat" where
  "to_contracts inst base_volume =
     (if contract_value inst = 0 \<or> lot_size inst = 0 then Inl ''float division by zero''
      else (let raw = base_volume / contract_value inst;
                rounded = py_round (of_int (round_half_even (raw / lot_size inst)) * lot_size inst) 8
            in Inr (general_format (max (min_size inst) rounded))))"

definition to_base :: "inst_spec option \<Rightarrow> rat \<Rightarrow> rat" where
  "to_base inst contracts = contracts * contract_value inst"

definition round_to_tick :: "inst_spec option \<Rightarrow> rat \<Rightarrow> string + rat" where
  "round_to_tick inst price =
     (let tick = (case inst of None \<Rightarrow> 1 / 10 | Some i \<Rightarrow> spec_or (is_tick i) (1 / 10))
      in if tick = 0 then Inl ''float division by zero''
         else Inr (py_round (of_int (round_half_even (price / tick)) * tick) 10))"

definition get_max_leverage :: "inst_spec option \<Rightarrow> int" where
  "get_max_leverage inst = (case inst of None \<Rightarrow> 0 | Some i \<Rightarrow> py_int (spec_or (is_max_leverage i) 0))"

definition get_min_order_size :: "inst_spec option \<Rightarrow> rat" where
  "get_min_order_size inst = (case inst of None \<Rightarrow> 0 | Some i \<Rightarrow> min_size inst * contract_value inst)"

definition position_side :: "bool \<Rightarrow> string \<Rightarrow> string + string" where
  "position_side is_hedge side =
     (if \<not> is_hedge then Inr ''net''
      else if py_lower side = ''long'' \<or> py_lower side = ''short'' then Inr (py_lower side)
      else Inl ''hedge account needs an explicit long/short position side'')"

definition get_maintenance_margin_rate :: "tier_row list \<Rightarrow> rat \<Rightarrow> rat option" where
  "get_maintenance_margin_rate tiers notional =
     (case applicable_tier tiers notional of
        None \<Rightarrow> None
      | Some tier \<Rightarrow> if ti_rate tier \<le> 0 then None else Some (ti_rate tier + TIER_MMR_BUFFER))"

section \<open>Reading orders and fills\<close>

definition details_in :: "order_row list blofin_reply \<Rightarrow> string option \<Rightarrow> order_row option" where
  "details_in reply oid =
     (case reply of
        Replied status code_ok msg items \<Rightarrow>
          if status = 200 \<and> code_ok then List.find (\<lambda>it. og_id it = oid) items else None
      | Failed m \<Rightarrow> None)"

definition get_order_details :: "blofin_env \<Rightarrow> post list \<Rightarrow> string \<Rightarrow> string option \<Rightarrow> order_row option" where
  "get_order_details E posts symbol oid =
     (case details_in (bv_orders_history E posts symbol) oid of
        Some d \<Rightarrow> Some d
      | None \<Rightarrow> details_in (bv_fills_history E posts symbol) oid)"

definition get_order_state :: "blofin_env \<Rightarrow> post list \<Rightarrow> string \<Rightarrow> string option \<Rightarrow> order_row option" where
  "get_order_state E posts symbol oid =
     (case bv_pending E posts (Some symbol) of
        Replied status code_ok msg items \<Rightarrow>
          (case List.find (\<lambda>it. og_id it = oid) items of
             Some it \<Rightarrow> Some it
           | None \<Rightarrow> get_order_details E posts symbol oid)
      | Failed m \<Rightarrow> get_order_details E posts symbol oid)"

definition parse_fill_price :: "order_row \<Rightarrow> rat option" where
  "parse_fill_price d = (case first_of (og_price_fields d) of Num v \<Rightarrow> if 0 < v then Some v else None | _ \<Rightarrow> None)"

definition parse_fill_size :: "inst_spec option \<Rightarrow> order_row \<Rightarrow> rat \<Rightarrow> rat option" where
  "parse_fill_size inst d fallback_contracts =
     (case first_of (og_filled_fields d @ [Num fallback_contracts]) of
        Num v \<Rightarrow> if v \<le> 0 then None else Some (to_base inst v)
      | _ \<Rightarrow> None)"

text \<open>\<open>details.get("pnl") or details.get("realizedPnl")\<close>\<close>

definition pnl_field :: "order_row \<Rightarrow> field" where
  "pnl_field d = first_of [og_pnl d, og_realized_pnl d]"

definition blofin_fill_fee :: "blofin_env \<Rightarrow> post list \<Rightarrow> string \<Rightarrow> string \<Rightarrow> rat option" where
  "blofin_fill_fee E posts symbol oid =
     (case get_order_details E posts symbol (Some oid) of
        None \<Rightarrow> None
      | Some d \<Rightarrow> (case decimal_or_none (og_fee d) of Inr v \<Rightarrow> v | Inl e \<Rightarrow> None))"

section \<open>Recovering the fill of a close\<close>

definition RECOVERY_WINDOW_MS :: int where "RECOVERY_WINDOW_MS = 5000"
definition RECOVERY_SIZE_TOLERANCE :: rat where "RECOVERY_SIZE_TOLERANCE = 2 / 100"

text \<open>What a close looks like in the history: the request it is matched against.\<close>

record close_hint =
  ch_side :: string
  ch_contracts :: "rat option"
  ch_since :: int
  ch_position_side :: string

definition size_matches :: "rat option \<Rightarrow> order_row \<Rightarrow> bool" where
  "size_matches expected it =
     (case expected of
        None \<Rightarrow> True
      | Some x \<Rightarrow>
          (case first_of (og_filled_fields it) of
             Num v \<Rightarrow> 0 < x \<longrightarrow> \<bar>v - x\<bar> / x \<le> RECOVERY_SIZE_TOLERANCE
           | _ \<Rightarrow> False))"

definition is_close_candidate :: "close_hint \<Rightarrow> order_row \<Rightarrow> bool" where
  "is_close_candidate h it \<longleftrightarrow>
     og_reduce_only it \<and> og_side it = ch_side h \<and> og_state it = ''filled'' \<and>
     (ch_position_side h = [] \<or> ch_position_side h = ''net'' \<or> og_position_side it = ch_position_side h) \<and>
     ch_since h \<le> og_create_time it \<and> og_create_time it \<le> ch_since h + RECOVERY_WINDOW_MS \<and>
     size_matches (ch_contracts h) it"

definition time_delta :: "close_hint \<Rightarrow> order_row \<Rightarrow> int" where
  "time_delta h it = \<bar>og_create_time it - ch_since h\<bar>"

definition exact_size :: "close_hint \<Rightarrow> order_row \<Rightarrow> bool" where
  "exact_size h it =
     (case ch_contracts h of None \<Rightarrow> False | Some x \<Rightarrow> first_of (og_filled_fields it) = Num x)"

datatype pick = Picked order_row | Ambiguous | No_candidate

text \<open>Several candidates: the nearest in time, or among those the one of the exact size.\<close>

definition nearest :: "close_hint \<Rightarrow> order_row list \<Rightarrow> order_row list" where
  "nearest h cs = (let tightest = Min (set (map (time_delta h) cs)) in filter (\<lambda>c. time_delta h c = tightest) cs)"

definition pick_tied :: "close_hint \<Rightarrow> order_row list \<Rightarrow> pick" where
  "pick_tied h tied =
     (case tied of
        [c] \<Rightarrow> Picked c
      | _ \<Rightarrow>
         if ch_contracts h = None then Ambiguous
         else (case filter (exact_size h) tied of [c] \<Rightarrow> Picked c | _ \<Rightarrow> Ambiguous))"

definition pick_candidate :: "close_hint \<Rightarrow> order_row list \<Rightarrow> pick" where
  "pick_candidate h items =
     (case filter (is_close_candidate h) items of
        [] \<Rightarrow> No_candidate
      | [c] \<Rightarrow> Picked c
      | cs \<Rightarrow> pick_tied h (nearest h cs))"

definition candidates_of :: "order_row list blofin_reply \<Rightarrow> order_row list" where
  "candidates_of reply =
     (case reply of Replied status code_ok msg items \<Rightarrow> if status = 200 \<and> code_ok then items else [] | Failed m \<Rightarrow> [])"

text \<open>Ambiguous orders end the search; without a candidate the fills are read.\<close>

definition recover_close_fill :: "blofin_env \<Rightarrow> post list \<Rightarrow> string \<Rightarrow> close_hint \<Rightarrow> order_row option" where
  "recover_close_fill E posts symbol h =
     (case pick_candidate h (candidates_of (bv_orders_history E posts symbol)) of
        Picked c \<Rightarrow> Some c
      | Ambiguous \<Rightarrow> None
      | No_candidate \<Rightarrow>
          (case pick_candidate h (candidates_of (bv_fills_history E posts symbol)) of
             Picked c \<Rightarrow> Some c
           | _ \<Rightarrow> None))"

section \<open>Submitting\<close>

definition leg_of_signal :: "string \<Rightarrow> string" where
  "leg_of_signal signal = (if signal = ''open_long'' \<or> signal = ''close_long'' then ''long'' else ''short'')"

definition wire_order_type :: "exec_order \<Rightarrow> string" where
  "wire_order_type rq =
     (if xo_order_type rq = ''limit'' \<and> \<not> is_close_signal (xo_signal rq) then ''post_only'' else xo_order_type rq)"

definition pos_side_of :: "blofin_env \<Rightarrow> exec_order \<Rightarrow> string" where
  "pos_side_of E rq = (if bv_hedge E then leg_of_signal (xo_signal rq) else ''net'')"

text \<open>\<open>if order.price: ... round ...\<close>: absent and zero prices are left out.\<close>

definition tick_price :: "inst_spec option \<Rightarrow> rat option \<Rightarrow> string + rat option" where
  "tick_price inst p =
     (case p of None \<Rightarrow> Inr None
      | Some v \<Rightarrow> if v = 0 then Inr None else (case round_to_tick inst v of Inl e \<Rightarrow> Inl e | Inr r \<Rightarrow> Inr (Some r)))"

definition order_body_of :: "blofin_env \<Rightarrow> exec_order \<Rightarrow> rat \<Rightarrow> string + order_body" where
  "order_body_of E rq contracts =
     (let inst = bv_inst E (xo_symbol rq); close = is_close_signal (xo_signal rq)
      in case (tick_price inst (xo_price rq), tick_price inst (xo_tp_price rq), tick_price inst (xo_sl_price rq)) of
           (Inr px, Inr tp, Inr sl) \<Rightarrow>
             Inr \<lparr>ob_inst = xo_symbol rq, ob_margin_mode = or_isolated (xo_margin_mode rq), ob_side = xo_side rq,
                  ob_type = wire_order_type rq, ob_size = contracts, ob_leverage = Some (or_ten (xo_leverage rq)),
                  ob_reduce_only = close,
                  ob_position_side = (if close \<or> bv_hedge E then Some (pos_side_of E rq) else None),
                  ob_price = px, ob_tp = tp, ob_sl = sl\<rparr>
         | _ \<Rightarrow> Inl ''float division by zero'')"

text \<open>The price, size, result and fee of the details; a field that is no number ends the reading.\<close>

definition read_fill :: "inst_spec option \<Rightarrow> rat \<Rightarrow> order_row \<Rightarrow> exec_result \<Rightarrow> exec_result \<times> bool" where
  "read_fill inst contracts d r =
     (let r1 = r\<lparr>xr_actual_fill_price := parse_fill_price d, xr_actual_fill_size := parse_fill_size inst d contracts\<rparr>
      in case decimal_or_none (pnl_field d) of
           Inl e \<Rightarrow> (r1, True)
         | Inr pnl \<Rightarrow>
             (let r2 = r1\<lparr>xr_realized_pnl := pnl\<rparr>
              in case decimal_or_none (og_fee d) of Inl e \<Rightarrow> (r2, True) | Inr fee \<Rightarrow> (r2\<lparr>xr_fee := fee\<rparr>, False)))"

text \<open>A lookup that finds nothing answers an empty dict, in which every field is missing.\<close>

definition no_details :: order_row where
  "no_details = \<lparr>og_id = None, og_inst = [], og_side = [], og_reduce_only = False, og_state = [], og_position_side = [], og_create_time = 0,
     og_price_fields = [], og_filled_size = Missing,
     og_acc_fill_size = Missing, og_fill_size = Missing, og_pnl = Missing, og_realized_pnl = Missing, og_fee = Missing,
     og_size = Missing, og_price = Missing, og_leverage = Missing, og_margin_mode = None\<rparr>"

definition market_result :: "blofin_env \<Rightarrow> post list \<Rightarrow> exec_order \<Rightarrow> rat \<Rightarrow> string option \<Rightarrow> exec_result" where
  "market_result E posts rq contracts oid =
     (let r = adapter_result True Exec_filled oid None
      in case get_order_details E posts (xo_symbol rq) oid of
           None \<Rightarrow> r
         | Some d \<Rightarrow> fst (read_fill (bv_inst E (xo_symbol rq)) contracts d r))"

definition resting_result :: "blofin_env \<Rightarrow> post list \<Rightarrow> exec_order \<Rightarrow> rat \<Rightarrow> string option \<Rightarrow> exec_result" where
  "resting_result E posts rq contracts oid =
     (let inst = bv_inst E (xo_symbol rq);
          d = (case get_order_state E posts (xo_symbol rq) oid of None \<Rightarrow> no_details | Some d \<Rightarrow> d)
      in if og_state d = ''live'' \<or> og_state d = ''partially_filled'' then
           (adapter_result True Exec_pending oid None)\<lparr>xr_actual_fill_price := parse_fill_price d,
              xr_actual_fill_size := (if og_state d = ''partially_filled'' then parse_fill_size inst d contracts else None)\<rparr>
         else if og_state d = ''canceled'' then
           adapter_result False Exec_rejected oid (Some ''post-only limit canceled by exchange'')
         else (case read_fill inst contracts d (adapter_result True Exec_filled oid None) of
                 (r, raised) \<Rightarrow>
                   if raised then r\<lparr>xr_status := Exec_pending, xr_actual_fill_size := Some (to_base inst contracts)\<rparr> else r))"

text \<open>The reply to the order.\<close>

definition order_reply_result ::
  "blofin_env \<Rightarrow> post list \<Rightarrow> exec_order \<Rightarrow> rat \<Rightarrow> post_data blofin_reply \<Rightarrow> exec_result" where
  "order_reply_result E posts rq contracts reply =
     (case reply of
        Failed m \<Rightarrow> adapter_result False Exec_route_failed None (Some m)
      | Replied status code_ok msg d \<Rightarrow>
          if status \<noteq> 200 then adapter_result False Exec_rejected None (Some ''Blofin returned an HTTP error'')
          else (case d of
                  Id_list (oid # _) \<Rightarrow>
                    if code_ok then
                      (if xo_order_type rq = ''market'' then market_result E posts rq contracts oid
                       else resting_result E posts rq contracts oid)
                    else adapter_result False Exec_rejected None msg
                | _ \<Rightarrow> adapter_result False Exec_rejected None msg))"

definition submit_order :: "blofin_env \<Rightarrow> exec_order \<Rightarrow> post list \<Rightarrow> exec_result \<times> post list" where
  "submit_order E rq posts =
     (let inst = bv_inst E (xo_symbol rq); lev = or_ten (xo_leverage rq); max_lev = get_max_leverage inst
      in case to_contracts inst (xo_size rq) of
           Inl e \<Rightarrow> (adapter_result False Exec_route_failed None (Some e), posts)
         | Inr contracts \<Rightarrow>
             if max_lev \<noteq> 0 \<and> max_lev < lev then
               (adapter_result False Exec_rejected None (Some ''Requested leverage exceeds the maximum''), posts)
             else
               (let posts1 = posts @ [Leverage_post (xo_symbol rq) lev (or_isolated (xo_margin_mode rq)) (pos_side_of E rq)]
                in case order_body_of E rq contracts of
                     Inl e \<Rightarrow> (adapter_result False Exec_route_failed None (Some e), posts1)
                   | Inr body \<Rightarrow>
                       (let posts2 = posts1 @ [Order_post body]
                        in (order_reply_result E posts2 rq contracts (bv_post E posts1 (Order_post body)), posts2))))"

section \<open>Positions\<close>

text \<open>\<open>_data_or_unavailable\<close>: a body with an error code is not an empty list.\<close>

definition data_or_unavailable :: "'a list blofin_reply \<Rightarrow> string + 'a list" where
  "data_or_unavailable reply =
     (case reply of
        Failed m \<Rightarrow> Inl m
      | Replied status code_ok msg items \<Rightarrow> if code_ok then Inr items else Inl ''ExchangeUnavailableError'')"

definition map_position :: "blofin_env \<Rightarrow> holding_row \<Rightarrow> position_report" where
  "map_position E p =
     \<lparr>op_symbol = hr_inst p,
      op_side = (if hr_position_side p = ''long'' \<or> hr_position_side p = ''short'' then hr_position_side p
                 else if 0 < hr_positions p then ''long'' else ''short''),
      op_size = to_base (bv_inst E (hr_inst p)) \<bar>hr_positions p\<bar>,
      bp_entry_price = hr_average_price p, bp_leverage = or_ten (hr_leverage p), bp_liquidation = hr_liquidation p\<rparr>"

definition get_open_positions :: "blofin_env \<Rightarrow> post list \<Rightarrow> string + position_report list" where
  "get_open_positions E posts =
     (case bv_positions E posts of
        Replied status code_ok msg items \<Rightarrow>
          if status \<noteq> 200 then Inl ''ExchangeUnavailableError''
          else (case data_or_unavailable (Replied status code_ok msg items) of
                  Inl e \<Rightarrow> Inl e
                | Inr rows \<Rightarrow> Inr (map (map_position E) (filter (\<lambda>p. hr_positions p \<noteq> 0) rows)))
      | Failed m \<Rightarrow> Inl m)"

section \<open>Closing\<close>

definition order_id_in :: "post_data \<Rightarrow> string option" where
  "order_id_in d = (case d of Id_list (oid # _) \<Rightarrow> oid | Id_object oid \<Rightarrow> oid | _ \<Rightarrow> None)"

text \<open>The details of a close, by its order id or recovered; and the id they came with.\<close>

definition close_fill_details ::
  "blofin_env \<Rightarrow> post list \<Rightarrow> string \<Rightarrow> close_hint \<Rightarrow> string option \<Rightarrow> order_row option \<times> string option" where
  "close_fill_details E posts symbol h oid =
     (if oid \<noteq> None \<and> oid \<noteq> Some [] then (get_order_details E posts symbol oid, oid)
      else (case recover_close_fill E posts symbol h of
              Some d \<Rightarrow> (Some d, og_id d)
            | None \<Rightarrow> (None, oid)))"

text \<open>The figures of the details, read outside any \<open>try\<close>: a field that is no number raises.\<close>

definition close_figures :: "(order_row \<Rightarrow> rat option) \<Rightarrow> order_row option \<Rightarrow> exec_result \<Rightarrow> string + exec_result" where
  "close_figures fill_size details r =
     (case details of
        None \<Rightarrow> Inr r
      | Some d \<Rightarrow>
          (case (decimal_or_none (pnl_field d), decimal_or_none (og_fee d)) of
             (Inr pnl, Inr fee) \<Rightarrow> Inr (r\<lparr>xr_actual_fill_price := parse_fill_price d, xr_realized_pnl := pnl, xr_fee := fee,
                                       xr_actual_fill_size := fill_size d\<rparr>)
           | _ \<Rightarrow> Inl ''InvalidOperation''))"

definition size_before :: "blofin_env \<Rightarrow> post list \<Rightarrow> string \<Rightarrow> string \<Rightarrow> rat option" where
  "size_before E posts symbol side =
     (case get_open_positions E posts of
        Inl e \<Rightarrow> None
      | Inr ps \<Rightarrow> map_option op_size (List.find (\<lambda>p. op_symbol p = symbol \<and> op_side p = side) ps))"

definition contracts_hint :: "inst_spec option \<Rightarrow> rat option \<Rightarrow> rat option" where
  "contracts_hint inst amount =
     (case amount of None \<Rightarrow> None | Some a \<Rightarrow> (case to_contracts inst a of Inr c \<Rightarrow> Some c | Inl e \<Rightarrow> None))"

text \<open>The whole position.\<close>

definition full_close ::
  "blofin_env \<Rightarrow> string \<Rightarrow> string \<Rightarrow> string \<Rightarrow> post list \<Rightarrow> (string + exec_result) \<times> post list" where
  "full_close E symbol side margin_mode posts =
     (case position_side (bv_hedge E) side of
        Inl e \<Rightarrow> (Inl e, posts)
      | Inr ps \<Rightarrow>
         (let before = size_before E posts symbol side; p = Close_post symbol margin_mode ps; posts1 = posts @ [p];
              h = \<lparr>ch_side = close_order_side side, ch_contracts = contracts_hint (bv_inst E symbol) before,
                   ch_since = bv_clock E posts, ch_position_side = ps\<rparr>
          in case bv_post E posts p of
               Failed m \<Rightarrow> (Inl m, posts1)
             | Replied status code_ok msg d \<Rightarrow>
                 if status \<noteq> 200 then (Inr (adapter_result False Exec_rejected None (Some ''Blofin returned an HTTP error'')), posts1)
                 else if \<not> code_ok then (Inr (adapter_result False Exec_rejected None msg), posts1)
                 else (case close_fill_details E posts1 symbol h (order_id_in d) of
                         (details, oid) \<Rightarrow>
                           (close_figures (\<lambda>d. None) details (adapter_result True Exec_filled oid None), posts1))))"

text \<open>A part of it, by a reduce-only market order.\<close>

definition partial_close ::
  "blofin_env \<Rightarrow> string \<Rightarrow> string \<Rightarrow> rat \<Rightarrow> string \<Rightarrow> post list \<Rightarrow> (string + exec_result) \<times> post list" where
  "partial_close E symbol side amount margin_mode posts =
     (case to_contracts (bv_inst E symbol) amount of
        Inl e \<Rightarrow> (Inl e, posts)
      | Inr contracts \<Rightarrow>
         (case position_side (bv_hedge E) side of
            Inl e \<Rightarrow> (Inl e, posts)
          | Inr ps \<Rightarrow>
             (let p = Order_post \<lparr>ob_inst = symbol, ob_margin_mode = margin_mode, ob_side = close_order_side side,
                        ob_type = ''market'', ob_size = contracts, ob_leverage = None, ob_reduce_only = True,
                        ob_position_side = Some ps, ob_price = None, ob_tp = None, ob_sl = None\<rparr>;
                  posts1 = posts @ [p];
                  h = \<lparr>ch_side = close_order_side side, ch_contracts = Some contracts,
                       ch_since = bv_clock E posts, ch_position_side = ps\<rparr>
              in case bv_post E posts p of
                   Failed m \<Rightarrow> (Inl m, posts1)
                 | Replied status code_ok msg d \<Rightarrow>
                     if status \<noteq> 200 then (Inr (adapter_result False Exec_rejected None (Some ''Blofin returned an HTTP error'')), posts1)
                     else if \<not> code_ok then (Inr (adapter_result False Exec_rejected None msg), posts1)
                     else (case close_fill_details E posts1 symbol h (order_id_in d) of
                             (details, oid) \<Rightarrow>
                               (close_figures (\<lambda>d. parse_fill_size (bv_inst E symbol) d contracts) details
                                  (adapter_result True Exec_filled oid None), posts1)))))"

definition blofin_close_position ::
  "blofin_env \<Rightarrow> string \<Rightarrow> string \<Rightarrow> rat option \<Rightarrow> string \<Rightarrow> post list \<Rightarrow> (string + exec_result) \<times> post list" where
  "blofin_close_position E symbol side amount margin_mode posts =
     (case amount of
        Some a \<Rightarrow> partial_close E symbol side a margin_mode posts
      | None \<Rightarrow> full_close E symbol side margin_mode posts)"

text \<open>The route answers with a failure when the adapter raises.\<close>

definition close_position_endpoint ::
  "blofin_env \<Rightarrow> string \<Rightarrow> string \<Rightarrow> rat option \<Rightarrow> post list \<Rightarrow> exec_result \<times> post list" where
  "close_position_endpoint E symbol side amount posts =
     (case blofin_close_position E symbol side amount ''isolated'' posts of
        (Inl m, posts1) \<Rightarrow> (adapter_result False Exec_route_failed None (Some m), posts1)
      | (Inr r, posts1) \<Rightarrow> (r, posts1))"

section \<open>Closed positions\<close>

definition sided_entries :: "string \<Rightarrow> closed_entry list \<Rightarrow> closed_entry list" where
  "sided_entries side es =
     (if side = ''long'' \<or> side = ''short'' then
        (let sided = filter (\<lambda>e. ce_position_side e = side \<or> ce_position_side e = [] \<or> ce_position_side e = ''net'') es
         in if sided = [] then es else sided)
      else es)"

definition history_answer :: "closed_entry \<Rightarrow> closed_details" where
  "history_answer e =
     \<lparr>cd_liquidated = (0 < ce_liquidation_positions e), cd_closing_price = ce_close_price e,
      cd_pnl = ce_realized_pnl e - ce_fee e, cd_fee = \<bar>ce_fee e\<bar>, cd_round_trip = True,
      cd_closed_at = (if ce_update_time e = 0 then None else Some (ce_update_time e))\<rparr>"

definition get_closed_position_details ::
  "blofin_env \<Rightarrow> post list \<Rightarrow> string \<Rightarrow> int option \<Rightarrow> string \<Rightarrow> closed_details option" where
  "get_closed_position_details E posts symbol since side =
     (case bv_positions_history E posts symbol of
        Failed m \<Rightarrow> None
      | Replied status code_ok msg es \<Rightarrow>
         (let recent = (case since of None \<Rightarrow> es | Some s \<Rightarrow> filter (\<lambda>e. s \<le> ce_update_time e) es)
          in case recent of
               [] \<Rightarrow> None
             | _ # _ \<Rightarrow> Some (history_answer (hd (sided_entries side recent)))))"

section \<open>Triggers\<close>

definition triggers_of_row :: "trigger_row \<Rightarrow> trigger list" where
  "triggers_of_row r =
     (if tr_tp r = No_px then [] else [\<lparr>tg_oid = tr_id r, tg_tpsl = ''tp'', tg_px = tr_tp r\<rparr>]) @
     (if tr_sl r = No_px then [] else [\<lparr>tg_oid = tr_id r, tg_tpsl = ''sl'', tg_px = tr_sl r\<rparr>])"

definition list_trigger_orders :: "blofin_env \<Rightarrow> post list \<Rightarrow> string \<Rightarrow> string option \<Rightarrow> trigger list option" where
  "list_trigger_orders E posts symbol side =
     (case data_or_unavailable (bv_triggers E posts symbol) of
        Inl e \<Rightarrow> None
      | Inr rows \<Rightarrow>
          Some (concat (map triggers_of_row
            (case side of
               None \<Rightarrow> rows
             | Some s \<Rightarrow> if s = [] \<or> s = ''net'' then rows else filter (\<lambda>r. tr_position_side r = s) rows))))"

text \<open>First as a trigger, then as an ordinary order.\<close>

definition cancel_order :: "blofin_env \<Rightarrow> string \<Rightarrow> string \<Rightarrow> post list \<Rightarrow> cancel_answer \<times> post list" where
  "cancel_order E symbol oid posts =
     (let p1 = Cancel_tpsl_post symbol oid; posts1 = posts @ [p1]
      in case bv_post E posts p1 of
           Failed m \<Rightarrow> (\<lparr>ca_success = False, ca_error = Some m\<rparr>, posts1)
         | Replied s1 ok1 m1 d1 \<Rightarrow>
             if ok1 then (\<lparr>ca_success = True, ca_error = None\<rparr>, posts1)
             else
               (let p2 = Cancel_order_post symbol oid; posts2 = posts1 @ [p2]
                in case bv_post E posts1 p2 of
                     Failed m \<Rightarrow> (\<lparr>ca_success = False, ca_error = Some m\<rparr>, posts2)
                   | Replied s2 ok2 m2 d2 \<Rightarrow>
                       if ok2 then (\<lparr>ca_success = True, ca_error = None\<rparr>, posts2)
                       else (\<lparr>ca_success = False, ca_error = m2\<rparr>, posts2)))"

definition trigger_leg :: "place_request \<Rightarrow> string" where
  "trigger_leg q =
     (case pq_leg_side q of
        Some s \<Rightarrow> if s = [] then (if pq_side q = ''sell'' then ''long'' else ''short'') else s
      | None \<Rightarrow> if pq_side q = ''sell'' then ''long'' else ''short'')"

text \<open>The two legs in turn; an exception loses the list of what was placed.\<close>

definition tpsl_body_of :: "blofin_env \<Rightarrow> place_request \<Rightarrow> rat \<Rightarrow> string \<Rightarrow> rat \<Rightarrow> string + tpsl_body" where
  "tpsl_body_of E q contracts tpsl price =
     (case round_to_tick (bv_inst E (pq_symbol q)) price of
        Inl e \<Rightarrow> Inl e
      | Inr px \<Rightarrow>
          (let body = \<lparr>tb_inst = pq_symbol q, tb_side = pq_side q, tb_size = contracts, tb_position_side = None,
                       tb_tp = (if tpsl = ''tp'' then Some px else None), tb_sl = (if tpsl = ''sl'' then Some px else None)\<rparr>
           in if bv_hedge E then
                (case position_side True (trigger_leg q) of
                   Inl e \<Rightarrow> Inl e
                 | Inr ps \<Rightarrow> Inr (body\<lparr>tb_position_side := Some ps\<rparr>))
              else Inr body))"

fun place_each ::
  "blofin_env \<Rightarrow> place_request \<Rightarrow> rat \<Rightarrow> (string \<times> rat option) list \<Rightarrow> post list \<Rightarrow> (string + placed_leg list) \<times> post list" where
  "place_each E q contracts [] posts = (Inr [], posts)"
| "place_each E q contracts ((tpsl, None) # legs) posts = place_each E q contracts legs posts"
| "place_each E q contracts ((tpsl, Some price) # legs) posts =
     (case tpsl_body_of E q contracts tpsl price of
        Inl e \<Rightarrow> (Inl e, posts)
      | Inr body \<Rightarrow>
         (case bv_post E posts (Tpsl_post body) of
            Failed m \<Rightarrow> (Inl m, posts @ [Tpsl_post body])
          | Replied status code_ok msg d \<Rightarrow>
             (case place_each E q contracts legs (posts @ [Tpsl_post body]) of
                (Inl e, posts2) \<Rightarrow> (Inl e, posts2)
              | (Inr placed, posts2) \<Rightarrow>
                  (Inr (\<lparr>pl_tpsl = tpsl, pl_error = (if code_ok then None else Some (case msg of None \<Rightarrow> ''None'' | Some m \<Rightarrow> m))\<rparr> # placed),
                   posts2))))"

definition place_trigger_orders :: "blofin_env \<Rightarrow> place_request \<Rightarrow> post list \<Rightarrow> placed_leg list \<times> post list" where
  "place_trigger_orders E q posts =
     (case to_contracts (bv_inst E (pq_symbol q)) (pq_size q) of
        Inl e \<Rightarrow> ([], posts)
      | Inr contracts \<Rightarrow>
         (case place_each E q contracts [(''tp'', pq_tp q), (''sl'', pq_sl q)] posts of
            (Inl e, posts1) \<Rightarrow> ([], posts1)
          | (Inr placed, posts1) \<Rightarrow> (placed, posts1)))"

section \<open>Amending a resting order\<close>

datatype amend_answer = Amended "string option" | Not_amended string | Original_gone "string option"

definition replacement_order :: "string \<Rightarrow> string \<Rightarrow> order_row \<Rightarrow> rat \<Rightarrow> rat \<Rightarrow> rat \<Rightarrow> exec_order" where
  "replacement_order symbol oid d amount price lev =
     \<lparr>xo_order_id = ''amend-'' @ oid, xo_account_id = [], xo_symbol = symbol, xo_side = og_side d, xo_signal = ''amend'',
      xo_order_type = ''limit'', xo_size = amount, xo_price = Some price, xo_leverage = Some (py_int lev),
      xo_margin_mode = Some (or_isolated (og_margin_mode d)), xo_tp_price = None, xo_sl_price = None, xo_signal_log_id = None\<rparr>"

definition amend_order ::
  "blofin_env \<Rightarrow> string \<Rightarrow> string \<Rightarrow> rat option \<Rightarrow> rat option \<Rightarrow> post list \<Rightarrow> amend_answer \<times> post list" where
  "amend_order E symbol oid new_price new_size posts =
     (if new_price = None \<and> new_size = None then (Not_amended ''amend_order requires new_price or new_size'', posts)
      else case get_order_state E posts symbol (Some oid) of
             None \<Rightarrow> (Not_amended ''order not found'', posts)
           | Some d \<Rightarrow>
              (case (number_or (og_leverage d) 10, case new_price of Some p \<Rightarrow> Inr p | None \<Rightarrow> number_or (og_price d) 0,
                     case new_size of Some s \<Rightarrow> Inr s | None \<Rightarrow>
                       (case number_or (og_size d) 0 of Inl e \<Rightarrow> Inl e | Inr c \<Rightarrow> Inr (to_base (bv_inst E symbol) c))) of
                 (Inr lev, Inr price, Inr amount) \<Rightarrow>
                  (case cancel_order E symbol oid posts of
                        (c, posts1) \<Rightarrow>
                          if \<not> ca_success c then (Not_amended ''cancel failed, original order unchanged'', posts1)
                          else (case submit_order E (replacement_order symbol oid d amount price lev) posts1 of
                                  (r, posts2) \<Rightarrow>
                                    if xr_success r then (Amended (xr_exchange_order_id r), posts2)
                                    else (Original_gone (xr_error_msg r), posts2)))
               | _ \<Rightarrow> (Not_amended ''InvalidOperation'', posts)))"

section \<open>Reads\<close>

text \<open>
  The resting orders. An error code in the body raises; a request that fails raises too, but
  inside the \<open>try\<close> whose last handler answers an empty list.
\<close>

definition open_order_of :: "blofin_env \<Rightarrow> order_row \<Rightarrow> string + open_order" where
  "open_order_of E o1 =
     (case (number_or (og_size o1) 0, number_or (og_filled_size o1) 0, number_or (og_price o1) 0) of
        (Inr contracts, Inr filled, Inr price) \<Rightarrow>
          Inr \<lparr>oo_order_id = (case og_id o1 of None \<Rightarrow> ''None'' | Some i \<Rightarrow> i), oo_symbol = og_inst o1, oo_side = og_side o1,
               oo_price = price, oo_size = to_base (bv_inst E (og_inst o1)) contracts,
               oo_filled_size = to_base (bv_inst E (og_inst o1)) filled,
               oo_status = (if og_state o1 = ''partially_filled'' then ''partially_filled'' else ''resting''),
               oo_created_at = og_create_time o1\<rparr>
      | _ \<Rightarrow> Inl ''InvalidOperation'')"

definition get_open_orders :: "blofin_env \<Rightarrow> post list \<Rightarrow> string option \<Rightarrow> string + open_order list" where
  "get_open_orders E posts symbol =
     (case bv_pending E posts symbol of
        Failed m \<Rightarrow> Inr []
      | Replied status code_ok msg items \<Rightarrow>
          if \<not> code_ok then Inl ''ExchangeUnavailableError''
          else Inr (value_or [] (map_rows (open_order_of E) items)))"

definition get_balance :: "blofin_env \<Rightarrow> post list \<Rightarrow> venue_balance" where
  "get_balance E posts =
     (case bv_balance E posts of
        Failed m \<Rightarrow> failed_balance ''USDT'' m
      | Replied status code_ok msg b \<Rightarrow>
          if 400 \<le> status then failed_balance ''USDT'' ''HTTPStatusError''
          else if \<not> code_ok then failed_balance ''USDT'' ''Blofin API error''
          else (case (number_get (br_total b) 0,
                      case br_available b of Missing \<Rightarrow> number_get (br_available_equity b) 0 | f \<Rightarrow> number_get f 0) of
                  (Inr t, Inr a) \<Rightarrow>
                    \<lparr>vb_total = t, vb_available = a, vb_used = max (t - a) 0,
                     vb_currency = ''USDT'', vb_error = None\<rparr>
                | _ \<Rightarrow> failed_balance ''USDT'' ''ValueError''))"

definition blofin_mark_price :: "blofin_env \<Rightarrow> string \<Rightarrow> rat option" where
  "blofin_mark_price E symbol =
     (case bv_mark E symbol of
        Replied status code_ok msg (f # _) \<Rightarrow>
          if 400 \<le> status then None
          else (case number_or f 0 of Inr v \<Rightarrow> if 0 < v then Some v else None | Inl e \<Rightarrow> None)
      | _ \<Rightarrow> None)"

definition CANDLES_MAX_PER_CALL :: int where "CANDLES_MAX_PER_CALL = 500"

definition blofin_candle_request :: "string \<Rightarrow> string \<Rightarrow> int \<Rightarrow> int option \<Rightarrow> candle_request" where
  "blofin_candle_request symbol timeframe limit end_ms =
     \<lparr>cq_symbol = symbol, cq_timeframe = timeframe, cq_limit = min (max 1 limit) CANDLES_MAX_PER_CALL,
      cq_end = (case end_ms of None \<Rightarrow> None | Some e \<Rightarrow> if e = 0 then None else Some (e + 1))\<rparr>"

definition get_candles :: "blofin_env \<Rightarrow> string \<Rightarrow> string \<Rightarrow> int \<Rightarrow> int option \<Rightarrow> venue_candle list" where
  "get_candles E symbol timeframe limit end_ms =
     (if candle_seconds timeframe = None then []
      else case bv_candles E (blofin_candle_request symbol timeframe limit end_ms) of
             Failed m \<Rightarrow> []
           | Replied status code_ok msg rows \<Rightarrow> if 400 \<le> status then [] else sort_key vc_time rows)"

definition get_instrument_spec :: "inst_spec \<Rightarrow> rat \<times> nat" where
  "get_instrument_spec i =
     (let min_base = spec_or (is_lot i) 1 * spec_or (is_contract_value i) 1
      in (spec_or (is_tick i) 1, if 0 < min_base \<and> min_base < 1 then size_places min_base else 0))"

definition get_instrument_specs :: "blofin_env \<Rightarrow> (string \<times> rat \<times> nat) list" where
  "get_instrument_specs E =
     List.map_filter (\<lambda>i. map_option (\<lambda>s. (i, get_instrument_spec s)) (bv_inst E i)) (bv_instruments E)"

definition list_instruments :: "blofin_env \<Rightarrow> string list" where
  "list_instruments E = sort (bv_instruments E)"

section \<open>The position mode\<close>

definition read_position_mode :: "string option blofin_reply \<Rightarrow> string option" where
  "read_position_mode reply =
     (case reply of
        Replied status code_ok msg raw \<Rightarrow>
          if \<not> code_ok then None
          else if raw = Some ''long_short_mode'' then Some ''hedge''
          else if raw = Some ''net_mode'' then Some ''net'' else None
      | Failed m \<Rightarrow> None)"

definition switch_position_mode :: "blofin_env \<Rightarrow> string \<Rightarrow> post list \<Rightarrow> cancel_answer \<times> post list" where
  "switch_position_mode E mode posts =
     (if mode \<noteq> ''net'' \<and> mode \<noteq> ''hedge'' then (\<lparr>ca_success = False, ca_error = Some ''invalid position mode''\<rparr>, posts)
      else
        (let p = Mode_post (if mode = ''hedge'' then ''long_short_mode'' else ''net_mode''); posts1 = posts @ [p]
         in case bv_post E posts p of
              Failed m \<Rightarrow> (\<lparr>ca_success = False, ca_error = Some m\<rparr>, posts1)
            | Replied status code_ok msg d \<Rightarrow>
                if \<not> code_ok then (\<lparr>ca_success = False, ca_error = Some (case msg of None \<Rightarrow> ''BloFin returned an error'' | Some m \<Rightarrow> m)\<rparr>, posts1)
                else if read_position_mode (bv_mode E posts1) = Some mode then (\<lparr>ca_success = True, ca_error = None\<rparr>, posts1)
                else (\<lparr>ca_success = False, ca_error = Some ''reads back as another mode - not persisting''\<rparr>, posts1)))"

end
