(* ===== verification/BlofinSafety.thy ===== *)
theory BlofinSafety
  imports Blofin StopsSafety SpreadSafety
begin

text \<open>
  What the BloFin adapter sends and reports: the shape of every order, the sizes, the fill a
  close is matched with, the triggers of one leg of a hedge account, and the places where the
  adapter reports what it did not see.
\<close>

section \<open>Numbers with six significant digits\<close>

text \<open>A number below \<open>10 ^ (6 - d)\<close> with at most \<open>d\<close> decimals is written as it is.\<close>

lemma general_format_exact:
  assumes x: "x = of_int k / 10 ^ d" "0 < k" "k < 10 ^ 6"
  shows "general_format x = x"
proof -
  have pos: "0 < x" using x by simp
  have whole: "py_round x m = x" if "d \<le> m" for m
  proof -
    have "(10::rat) ^ m = 10 ^ d * 10 ^ (m - d)" using that by (simp flip: power_add)
    then have "x * 10 ^ m = of_int (k * 10 ^ (m - d))" by (simp add: x)
    then show ?thesis by (rule py_round_whole)
  qed
  define e where "e = decimal_exponent x"
  have "int d \<le> 5 - e"
  proof (cases "1 \<le> x")
    case True
    have d6: "d < 6"
    proof (rule ccontr)
      assume "\<not> d < 6"
      then have "(10::rat) ^ 6 \<le> 10 ^ d" by (intro power_increasing) simp_all
      moreover have "of_int k < (10::rat) ^ 6" using x(3) by (metis of_int_less_iff of_int_numeral of_int_power)
      ultimately have "of_int k < (10::rat) ^ d" by linarith
      then show False using True by (simp add: x)
    qed
    have "x < 10 ^ (6 - d)"
    proof -
      have "of_int k < (10::rat) ^ 6" using x(3) by (metis of_int_less_iff of_int_numeral of_int_power)
      also have "\<dots> = 10 ^ (6 - d) * 10 ^ d" using d6 by (simp flip: power_add)
      finally show ?thesis by (simp add: x divide_less_eq)
    qed
    then have "nat \<lfloor>x\<rfloor> < 10 ^ (6 - d)"
      using pos by (simp add: nat_less_iff floor_less_iff)
    then have "digits_above (nat \<lfloor>x\<rfloor>) < 6 - d" using d6 by (intro digits_above_less) simp_all
    then show ?thesis using True by (simp add: e_def decimal_exponent_def)
  next
    case False
    show ?thesis
    proof (cases "d < 6")
      case True
      have "lead_zeros x \<ge> 1" using False pos by (simp add: lead_zeros.simps [of x])
      then show ?thesis using True False by (simp add: e_def decimal_exponent_def)
    next
      case big: False
      have "x * 10 ^ (d - 6) < 1"
      proof -
        have "of_int k < (10::rat) ^ 6" using x(3) by (metis of_int_less_iff of_int_numeral of_int_power)
        then have "of_int k * 10 ^ (d - 6) < (10::rat) ^ 6 * 10 ^ (d - 6)" by (intro mult_strict_right_mono) simp_all
        also have "(10::rat) ^ 6 * 10 ^ (d - 6) = 10 ^ (6 + (d - 6))" by (rule power_add [symmetric])
        also have "\<dots> = 10 ^ d" using big by simp
        finally show ?thesis by (simp add: x divide_less_eq)
      qed
      then have "d - 6 < lead_zeros x" using lead_zeros_more pos by blast
      then show ?thesis using False big by (simp add: e_def decimal_exponent_def)
    qed
  qed
  then have "0 \<le> 5 - e" "d \<le> nat (5 - e)" by simp_all
  then show ?thesis using pos whole [of "nat (5 - e)"] by (simp add: general_format_def e_def Let_def)
qed

text \<open>
  C37. The number of contracts of an order. When the nearest number of lots is at least the
  instrument's minimum and below a million lots, it is what is sent, and the volume differs
  from the one asked for by at most half a lot.
\<close>

theorem contracts_near:
  assumes "to_contracts inst v = Inr c" "0 < contract_value inst" "lot_size inst = 1 / 10 ^ d" "d \<le> 8"
    and "k = round_half_even (v / contract_value inst / lot_size inst)" "0 < k" "k < 10 ^ 6"
    and "min_size inst \<le> of_int k * lot_size inst"
  shows "c = of_int k * lot_size inst \<and> \<bar>to_base inst c - v\<bar> \<le> lot_size inst * contract_value inst / 2"
proof -
  let ?lots = "of_int k * lot_size inst :: rat"
  have "(10::rat) ^ 8 = 10 ^ d * 10 ^ (8 - d)" using assms(4) by (simp flip: power_add)
  then have "?lots * 10 ^ 8 = of_int k * (1 / 10 ^ d) * (10 ^ d * 10 ^ (8 - d))" by (simp only: assms(3))
  also have "\<dots> = of_int (k * 10 ^ (8 - d))" by simp
  finally have "?lots * 10 ^ 8 = of_int (k * 10 ^ (8 - d))" .
  then have r: "py_round ?lots 8 = ?lots" by (rule py_round_whole)
  have g: "general_format ?lots = ?lots" using assms(6,7) by (intro general_format_exact [of _ k d]) (simp_all add: assms(3))
  have c: "c = ?lots"
  proof -
    have "contract_value inst \<noteq> 0" "lot_size inst \<noteq> 0" using assms(2,3) by simp_all
    then have "to_contracts inst v = Inr (general_format (max (min_size inst) (py_round ?lots 8)))"
      unfolding to_contracts_def Let_def assms(5) by simp
    also have "max (min_size inst) (py_round ?lots 8) = ?lots" using assms(8) r by (simp add: max_def)
    finally show ?thesis using assms(1) g by simp
  qed
  have near: "\<bar>of_int k - v / contract_value inst / lot_size inst\<bar> \<le> 1 / 2"
    unfolding assms(5) by (rule round_half_even_near)
  have pos: "0 < lot_size inst * contract_value inst" using assms(2,3) by simp
  have nonzero: "contract_value inst \<noteq> 0" "lot_size inst \<noteq> 0" using assms(2,3) by simp_all
  have "to_base inst c - v = (of_int k - v / contract_value inst / lot_size inst) * (lot_size inst * contract_value inst)"
    using nonzero by (simp add: c to_base_def field_simps)
  then have "\<bar>to_base inst c - v\<bar> = \<bar>of_int k - v / contract_value inst / lot_size inst\<bar> * (lot_size inst * contract_value inst)"
    using pos by (metis abs_mult abs_of_pos)
  also have "\<dots> \<le> 1 / 2 * (lot_size inst * contract_value inst)" using near pos by (intro mult_right_mono) simp_all
  finally show ?thesis using c by simp
qed

text \<open>Below the minimum, the minimum is sent.\<close>

lemma contracts_minimum:
  assumes "0 < contract_value inst" "lot_size inst = 1 / 10 ^ d" "d \<le> 8" "min_size inst = of_int k * lot_size inst" "0 < k" "k < 10 ^ 6"
    and "to_base inst (min_size inst) > v"
  shows "to_contracts inst v = Inr (min_size inst)"
proof -
  define lots where "lots = round_half_even (v / contract_value inst / lot_size inst)"
  have pos: "0 < lot_size inst" using assms(2) by simp
  have "v / contract_value inst / lot_size inst < of_int k"
    using assms(1,4,7) pos by (simp add: to_base_def divide_less_eq mult_ac)
  then have "lots \<le> k" unfolding lots_def using round_half_even_mono [of _ "of_int k"] by (simp add: less_imp_le)
  then have le: "of_int lots * lot_size inst \<le> min_size inst"
    using pos by (simp add: assms(4))
  have "(10::rat) ^ 8 = 10 ^ d * 10 ^ (8 - d)" using assms(3) by (simp flip: power_add)
  then have "of_int lots * lot_size inst * 10 ^ 8 = of_int lots * (1 / 10 ^ d) * (10 ^ d * 10 ^ (8 - d))"
    by (simp only: assms(2))
  also have "\<dots> = of_int (lots * 10 ^ (8 - d))" by simp
  finally have "py_round (of_int lots * lot_size inst) 8 = of_int lots * lot_size inst" by (rule py_round_whole)
  then have "max (min_size inst) (py_round (of_int lots * lot_size inst) 8) = min_size inst" using le by simp
  moreover have "general_format (min_size inst) = min_size inst"
    using assms(2,4-6) by (intro general_format_exact [of _ k d]) simp_all
  moreover have "contract_value inst \<noteq> 0" "lot_size inst \<noteq> 0" using assms(1) pos by simp_all
  ultimately show ?thesis unfolding to_contracts_def Let_def lots_def [symmetric] by simp
qed

section \<open>What an order looks like\<close>

definition order_posts :: "post list \<Rightarrow> order_body list" where
  "order_posts posts = List.map_filter (\<lambda>p. case p of Order_post b \<Rightarrow> Some b | _ \<Rightarrow> None) posts"

lemma order_posts_simps [simp]:
  "order_posts [] = []" "order_posts (xs @ ys) = order_posts xs @ order_posts ys"
  "order_posts (Order_post b # ps) = b # order_posts ps" "order_posts (Leverage_post i l m s # ps) = order_posts ps"
  "order_posts (Cancel_tpsl_post a i # ps) = order_posts ps" "order_posts (Cancel_order_post a i # ps) = order_posts ps"
  "order_posts (Close_post a i s # ps) = order_posts ps" "order_posts (Tpsl_post tb # ps) = order_posts ps"
  by (simp_all add: order_posts_def List.map_filter_def)

text \<open>Nothing was sent, or the leverage was, or the leverage and then one order.\<close>

lemma submit_order_cases:
  assumes "submit_order E rq posts = (r, posts')"
  obtains (not_sent) "order_posts posts' = order_posts posts" "\<not> xr_success r"
  | (sent) body contracts posts1 where "posts' = posts1 @ [Order_post body]" "order_posts posts1 = order_posts posts"
      "to_contracts (bv_inst E (xo_symbol rq)) (xo_size rq) = Inr contracts" "order_body_of E rq contracts = Inr body"
      "r = order_reply_result E posts' rq contracts (bv_post E posts1 (Order_post body))"
proof (cases "to_contracts (bv_inst E (xo_symbol rq)) (xo_size rq)")
  case (Inl e)
  then have "order_posts posts' = order_posts posts" "\<not> xr_success r" using assms by (auto simp: submit_order_def)
  then show ?thesis by (rule not_sent)
next
  case contracts: (Inr contracts)
  define posts1 where "posts1 = posts @ [Leverage_post (xo_symbol rq) (or_ten (xo_leverage rq)) (or_isolated (xo_margin_mode rq)) (pos_side_of E rq)]"
  show ?thesis
  proof (cases "get_max_leverage (bv_inst E (xo_symbol rq)) \<noteq> 0 \<and>
      get_max_leverage (bv_inst E (xo_symbol rq)) < or_ten (xo_leverage rq)")
    case True
    then have "order_posts posts' = order_posts posts" "\<not> xr_success r"
      using assms contracts by (auto simp: submit_order_def Let_def)
    then show ?thesis by (rule not_sent)
  next
    case False
    show ?thesis
    proof (cases "order_body_of E rq contracts")
      case (Inl e)
      then have "order_posts posts' = order_posts posts" "\<not> xr_success r"
        using assms contracts False by (auto simp: submit_order_def Let_def)
      then show ?thesis by (rule not_sent)
    next
      case (Inr body)
      then have "posts' = posts1 @ [Order_post body]"
        "r = order_reply_result E posts' rq contracts (bv_post E posts1 (Order_post body))"
        using assms contracts False by (auto simp: submit_order_def posts1_def Let_def)
      moreover have "order_posts posts1 = order_posts posts" by (simp add: posts1_def)
      ultimately show ?thesis using sent contracts Inr by blast
    qed
  qed
qed

text \<open>Every order goes out as its signal says.\<close>

definition body_of_signal :: "blofin_env \<Rightarrow> exec_order \<Rightarrow> order_body \<Rightarrow> bool" where
  "body_of_signal E rq b \<longleftrightarrow> ob_inst b = xo_symbol rq \<and> ob_side b = xo_side rq \<and>
     (ob_reduce_only b \<longleftrightarrow> is_close_signal (xo_signal rq)) \<and>
     (bv_hedge E \<longrightarrow> ob_position_side b = Some (leg_of_signal (xo_signal rq))) \<and>
     (\<not> bv_hedge E \<longrightarrow> ob_position_side b = (if is_close_signal (xo_signal rq) then Some ''net'' else None)) \<and>
     (ob_type b = ''limit'' \<longrightarrow> is_close_signal (xo_signal rq))"

lemma order_body_shape:
  "order_body_of E rq c = Inr b \<Longrightarrow> body_of_signal E rq b \<and> ob_size b = c"
  by (auto simp: order_body_of_def body_of_signal_def pos_side_of_def wire_order_type_def Let_def split: sum.splits if_splits)

lemma read_fill_keeps:
  "xr_success (fst (read_fill inst c d r)) = xr_success r" "xr_exchange_order_id (fst (read_fill inst c d r)) = xr_exchange_order_id r"
  by (simp_all add: read_fill_def Let_def split: sum.splits)

lemma resting_result_keeps:
  "xr_success (resting_result E posts rq c oid) \<Longrightarrow> xr_exchange_order_id (resting_result E posts rq c oid) = oid"
proof -
  define d where "d = (case get_order_state E posts (xo_symbol rq) oid of None \<Rightarrow> no_details | Some d \<Rightarrow> d)"
  obtain r raised where f: "read_fill (bv_inst E (xo_symbol rq)) c d (adapter_result True Exec_filled oid None) = (r, raised)"
    by fastforce
  then have "xr_exchange_order_id r = oid"
    using read_fill_keeps(2) [of "bv_inst E (xo_symbol rq)" c d "adapter_result True Exec_filled oid None"]
    by simp
  then show "xr_success (resting_result E posts rq c oid) \<Longrightarrow> xr_exchange_order_id (resting_result E posts rq c oid) = oid"
    by (simp add: resting_result_def d_def [symmetric] f Let_def)
qed

text \<open>
  An order is at most one order to the exchange, with the instrument, the side and the leg of
  its signal, reduce-only exactly when the signal closes, and an entry limit goes out
  post-only. It is reported as a success only when the exchange took it, and then with the
  id the exchange gave.
\<close>

theorem order_as_signalled:
  assumes "submit_order E rq posts = (r, posts')"
  shows "order_posts posts' = order_posts posts \<and> \<not> xr_success r \<or>
    (\<exists>b. order_posts posts' = order_posts posts @ [b] \<and> body_of_signal E rq b \<and>
      to_contracts (bv_inst E (xo_symbol rq)) (xo_size rq) = Inr (ob_size b) \<and>
      (xr_success r \<longrightarrow> (\<exists>msg oids. bv_post E (butlast posts') (Order_post b) =
         Replied 200 True msg (Id_list (xr_exchange_order_id r # oids)))))"
  using assms
proof (cases rule: submit_order_cases)
  case not_sent
  then show ?thesis by blast
next
  case (sent body contracts posts1)
  have shape: "body_of_signal E rq body \<and> ob_size body = contracts" by (rule order_body_shape [OF sent(4)])
  have "\<exists>msg oids. bv_post E (butlast posts') (Order_post body) = Replied 200 True msg (Id_list (xr_exchange_order_id r # oids))"
    if ok: "xr_success r"
  proof (cases "bv_post E posts1 (Order_post body)")
    case (Failed m)
    then show ?thesis using sent(5) ok by (simp add: order_reply_result_def)
  next
    case (Replied status code_ok msg d)
    then obtain oid oids where d: "status = 200" "code_ok" "d = Id_list (oid # oids)"
      using sent(5) ok
      by (auto simp: order_reply_result_def split: if_splits post_data.splits list.splits)
    then have r: "r = (if xo_order_type rq = ''market'' then market_result E posts' rq contracts oid
        else resting_result E posts' rq contracts oid)"
      using sent(5) Replied by (simp add: order_reply_result_def)
    have "xr_exchange_order_id (market_result E posts' rq contracts oid) = oid"
      by (simp add: market_result_def Let_def read_fill_keeps split: option.splits)
    then have "xr_exchange_order_id r = oid"
      using r ok resting_result_keeps by (simp split: if_splits)
    then show ?thesis using Replied d sent(1) by simp
  qed
  then show ?thesis using sent shape by (intro disjI2 exI [of _ body]) simp
qed

section \<open>Limit orders nobody saw\<close>

text \<open>
  When neither the pending orders nor the histories can be read after a limit order was
  accepted, the order is reported as filled, at no price and in its full size, although it
  may rest or have been cancelled. The code means to report it as pending: it assumes a
  failed lookup raises, but the lookups answer an empty dict.
\<close>

theorem unreadable_limit_filled:
  assumes "submit_order E rq posts = (r, posts')" "xr_success r" "xo_order_type rq \<noteq> ''market''"
    and "\<And>p. \<exists>m. bv_pending E p (Some (xo_symbol rq)) = Failed m" "\<And>p. \<exists>m. bv_orders_history E p (xo_symbol rq) = Failed m"
    and "\<And>p. \<exists>m. bv_fills_history E p (xo_symbol rq) = Failed m"
    and "to_contracts (bv_inst E (xo_symbol rq)) (xo_size rq) = Inr c" "0 < c"
  shows "xr_status r = Exec_filled \<and> xr_actual_fill_price r = None \<and>
    xr_actual_fill_size r = Some (to_base (bv_inst E (xo_symbol rq)) c)"
  using assms(1)
proof (cases rule: submit_order_cases)
  case not_sent
  then show ?thesis using assms(2) by simp
next
  case (sent body contracts posts1)
  have lost: "get_order_state E p (xo_symbol rq) oid = None" for p oid
    using assms(4) [of p] assms(5) [of p] assms(6) [of p]
    by (auto simp: get_order_state_def get_order_details_def details_in_def)
  have "contracts = c" using sent(3) assms(7) by simp
  then obtain oid where "r = resting_result E posts' rq c oid"
    using sent(5) assms(2,3)
    by (cases "bv_post E posts1 (Order_post body)")
      (auto simp: order_reply_result_def split: if_splits post_data.splits list.splits)
  then show ?thesis using assms(8)
    by (simp add: resting_result_def lost no_details_def read_fill_def pnl_field_def decimal_or_none_def parse_fill_price_def
        parse_fill_size_def Let_def is_truthy_def og_filled_fields_def)
qed

section \<open>Recovered fills\<close>

text \<open>
  A close whose reply has no order id is matched with a fill of the history only when the
  match is unique: it is a filled reduce-only order of the closing side, the right leg and
  about the right size, in the window after the close, and every other such order of the
  same list is further away in time, or not of the exact size.
\<close>

lemma pick_candidate_unique:
  assumes "pick_candidate h items = Picked c"
  shows "c \<in> set items \<and> is_close_candidate h c \<and>
    (\<forall>c'\<in>set items. is_close_candidate h c' \<and> c' \<noteq> c \<longrightarrow>
       time_delta h c < time_delta h c' \<or> time_delta h c = time_delta h c' \<and> exact_size h c \<and> \<not> exact_size h c')"
proof -
  define cs where "cs = filter (is_close_candidate h) items"
  have cs: "c' \<in> set cs \<longleftrightarrow> c' \<in> set items \<and> is_close_candidate h c'" for c' by (auto simp: cs_def)
  have "c \<in> set cs \<and> (\<forall>c'\<in>set cs. c' \<noteq> c \<longrightarrow>
       time_delta h c < time_delta h c' \<or> time_delta h c = time_delta h c' \<and> exact_size h c \<and> \<not> exact_size h c')"
  proof (cases "\<exists>x. cs = [x]")
    case True
    then show ?thesis using assms by (auto simp: pick_candidate_def cs_def [symmetric])
  next
    case False
    define tightest where "tightest = Min (set (map (time_delta h) cs))"
    define tied where "tied = filter (\<lambda>c. time_delta h c = tightest) cs"
    have tied: "nearest h cs = tied" by (simp add: nearest_def tied_def tightest_def Let_def)
    have "cs \<noteq> []" using assms by (auto simp: pick_candidate_def cs_def)
    then have pick: "pick_tied h tied = Picked c"
      using assms False tied by (cases cs rule: remdups_adj.cases) (auto simp: pick_candidate_def cs_def [symmetric])
    have least: "tightest \<le> time_delta h c'" if "c' \<in> set cs" for c' using that by (simp add: tightest_def)
    consider "tied = [c]" | "filter (exact_size h) tied = [c]"
      using pick by (auto simp: pick_tied_def split: list.splits if_splits)
    then show ?thesis
    proof cases
      case 1
      then have "c \<in> set tied" by simp
      then have "c \<in> set cs" "time_delta h c = tightest" by (auto simp: tied_def)
      moreover have "tightest < time_delta h c'" if "c' \<in> set cs" "c' \<noteq> c" for c'
      proof -
        have "c' \<notin> set tied" using 1 that by simp
        then show ?thesis using that least [of c'] by (auto simp: tied_def)
      qed
      ultimately show ?thesis by auto
    next
      case 2
      then have "c \<in> set (filter (exact_size h) tied)" by simp
      then have c: "c \<in> set cs" "time_delta h c = tightest" "exact_size h c" by (auto simp: tied_def)
      have "tightest < time_delta h c' \<or> tightest = time_delta h c' \<and> \<not> exact_size h c'" if "c' \<in> set cs" "c' \<noteq> c" for c'
      proof -
        have "c' \<notin> set (filter (exact_size h) tied)" using 2 that by simp
        then show ?thesis using that least [of c'] by (auto simp: tied_def)
      qed
      then show ?thesis using c by auto
    qed
  qed
  then show ?thesis using cs by blast
qed

theorem recovered_fill_unique:
  assumes "recover_close_fill E posts symbol h = Some c"
  shows "\<exists>items. (items = candidates_of (bv_orders_history E posts symbol) \<or> items = candidates_of (bv_fills_history E posts symbol)) \<and>
    c \<in> set items \<and> is_close_candidate h c \<and>
    (\<forall>c'\<in>set items. is_close_candidate h c' \<and> c' \<noteq> c \<longrightarrow>
       time_delta h c < time_delta h c' \<or> time_delta h c = time_delta h c' \<and> exact_size h c \<and> \<not> exact_size h c')"
  using assms by (auto simp: recover_close_fill_def split: pick.splits dest!: pick_candidate_unique)

section \<open>Small closes\<close>

text \<open>
  A partial close smaller than the instrument's minimum is not refused: a reduce-only order
  of the minimum is sent, and more of the position is closed than the caller asked for.
\<close>

theorem tiny_close_enlarged:
  assumes "partial_close E symbol side amount margin_mode posts = (r, posts')" "position_side (bv_hedge E) side = Inr ps"
    and "0 < contract_value (bv_inst E symbol)" "lot_size (bv_inst E symbol) = 1 / 10 ^ d" "d \<le> 8"
    and "min_size (bv_inst E symbol) = of_int k * lot_size (bv_inst E symbol)" "0 < k" "k < 10 ^ 6"
    and "amount < to_base (bv_inst E symbol) (min_size (bv_inst E symbol))"
  shows "\<exists>b. posts' = posts @ [Order_post b] \<and> ob_reduce_only b \<and> ob_size b = min_size (bv_inst E symbol) \<and>
    amount < to_base (bv_inst E symbol) (ob_size b)"
proof -
  have "to_contracts (bv_inst E symbol) amount = Inr (min_size (bv_inst E symbol))"
    by (rule contracts_minimum [OF assms(3-8)]) (use assms(9) in simp)
  then have "posts' = posts @ [Order_post \<lparr>ob_inst = symbol, ob_margin_mode = margin_mode, ob_side = close_order_side side,
      ob_type = ''market'', ob_size = min_size (bv_inst E symbol), ob_leverage = None, ob_reduce_only = True,
      ob_position_side = Some ps, ob_price = None, ob_tp = None, ob_sl = None\<rparr>]"
    using assms(1,2) by (auto simp: partial_close_def Let_def split: blofin_reply.splits if_splits prod.splits)
  then show ?thesis using assms(9) by simp
qed

section \<open>Amending\<close>

lemma cancel_order_posts: "cancel_order E symbol oid posts = (c, posts') \<Longrightarrow> order_posts posts' = order_posts posts"
  by (auto simp: cancel_order_def Let_def split: blofin_reply.splits if_splits)

text \<open>
  An amended order is cancelled and placed again, but not as it was: the new order is never
  reduce-only and carries neither target nor stop, whatever the old one had, and on a hedge
  account it is for the short leg, also when the old one bought the long.
\<close>

theorem amend_drops_protection:
  assumes "amend_order E symbol oid new_price new_size posts = (a, posts')"
  shows "\<forall>b\<in>set (drop (length (order_posts posts)) (order_posts posts')).
    \<not> ob_reduce_only b \<and> ob_tp b = None \<and> ob_sl b = None \<and> (bv_hedge E \<longrightarrow> ob_position_side b = Some ''short'')"
proof (cases "posts' = posts \<or> (\<exists>c. cancel_order E symbol oid posts = (c, posts'))")
  case True
  then show ?thesis using cancel_order_posts by auto
next
  case False
  then obtain d amount price lev r posts1 c where
    sub: "submit_order E (replacement_order symbol oid d amount price lev) posts1 = (r, posts')"
    and c: "cancel_order E symbol oid posts = (c, posts1)"
    using assms by (auto simp: amend_order_def split: if_splits option.splits sum.splits prod.splits)
  let ?rq = "replacement_order symbol oid d amount price lev"
  from sub show ?thesis
  proof (cases rule: submit_order_cases)
    case not_sent
    then show ?thesis using cancel_order_posts [OF c] by simp
  next
    case (sent body contracts posts2)
    have "\<not> is_close_signal (xo_signal ?rq)" "leg_of_signal (xo_signal ?rq) = ''short''"
      by (simp_all add: replacement_order_def is_close_signal_def leg_of_signal_def)
    moreover have "ob_tp body = None" "ob_sl body = None"
      using sent(4) by (auto simp: order_body_of_def replacement_order_def tick_price_def Let_def split: sum.splits)
    ultimately show ?thesis
      using order_body_shape [OF sent(4)] sent(1,2) cancel_order_posts [OF c] by (auto simp: body_of_signal_def)
  qed
qed

section \<open>The wrong leg\<close>

text \<open>
  On a hedge account the leg of an order is read from its signal, and any signal but the
  two for longs means the short. The long leg of a spread goes out with the signal
  \<open>spread_open\<close>: it buys, addressed to the short position.
\<close>

theorem spread_long_leg_side:
  assumes "submit_order E rq posts = (r, posts')" "bv_hedge E" "xo_signal rq = ''spread_open''" "xo_side rq = ''buy''"
  shows "\<forall>b\<in>set (drop (length (order_posts posts)) (order_posts posts')).
    ob_side b = ''buy'' \<and> ob_position_side b = Some ''short''"
proof -
  have "leg_of_signal ''spread_open'' = ''short''" by (simp add: leg_of_signal_def)
  then show ?thesis using order_as_signalled [OF assms(1)] assms(2-4) by (auto simp: body_of_signal_def)
qed

text \<open>
  The result of a closed position on a hedge account: when the history since the opening has
  only entries of the other leg, the first of them is handed out as this leg's result.
\<close>

theorem opposite_leg_result:
  assumes "bv_positions_history E posts symbol = Replied status code_ok msg (e # es)" "side = ''long'' \<or> side = ''short''"
    and "\<And>e'. e' \<in> set (e # es) \<Longrightarrow> ce_position_side e' \<noteq> side \<and> ce_position_side e' \<noteq> [] \<and> ce_position_side e' \<noteq> ''net''"
    and "\<And>e'. e' \<in> set (e # es) \<Longrightarrow> since \<le> ce_update_time e'"
  shows "get_closed_position_details E posts symbol (Some since) side = Some (history_answer e)"
proof -
  have "filter (\<lambda>e. since \<le> ce_update_time e) (e # es) = e # es" using assms(4) by (simp add: filter_id_conv)
  moreover have "sided_entries side (e # es) = e # es"
    using assms(2,3) by (auto simp: sided_entries_def Let_def filter_empty_conv)
  ultimately show ?thesis using assms(1) by (simp add: get_closed_position_details_def del: filter.simps)
qed

section \<open>The triggers of one leg\<close>

text \<open>The adapter as \<open>modify_stops\<close> sees it; the posts follow from the history of its calls.\<close>

definition after_event :: "blofin_env \<Rightarrow> string \<Rightarrow> post list \<Rightarrow> stop_event \<Rightarrow> post list" where
  "after_event E symbol posts ev =
     (case ev of
        Read a \<Rightarrow> posts
      | Cancelled oid a \<Rightarrow> snd (cancel_order E symbol oid posts)
      | Placed q a \<Rightarrow> snd (place_trigger_orders E q posts))"

definition posts_after :: "blofin_env \<Rightarrow> string \<Rightarrow> history \<Rightarrow> post list" where
  "posts_after E symbol h = foldl (after_event E symbol) [] h"

definition blofin_stops :: "blofin_env \<Rightarrow> string \<Rightarrow> string \<Rightarrow> stops_env" where
  "blofin_stops E symbol account_mode =
     \<lparr>se_adapter = (\<lambda>_. Inr \<lparr>ad_kind = Blofin, ad_mode = account_mode,
                             ad_position_mode = (if bv_hedge E then ''hedge'' else ''net'')\<rparr>),
      se_positions = (case get_open_positions E [] of Inl e \<Rightarrow> Inl e | Inr ps \<Rightarrow> Inr (map venue_holding.truncate ps)),
      se_triggers = (\<lambda>inst side h. Inr (list_trigger_orders E (posts_after E symbol h) inst side)),
      se_cancel = (\<lambda>inst oid h. Inr (fst (cancel_order E symbol oid (posts_after E symbol h)))),
      se_place = (\<lambda>q h. Inr (fst (place_trigger_orders E q (posts_after E symbol h))))\<rparr>"

interpretation bl_venue: stop_venue "blofin_stops E symbol account_mode" for E symbol account_mode
  by unfold_locales (simp_all add: blofin_stops_def)

lemma blofin_stops_answer:
  assumes "modify_stops (blofin_stops E symbol mode) account rq = (ans, h)" "get_open_positions E [] = Inr ps"
  shows "sn_error ans \<noteq> Some (Stops_raised m)"
  by (rule bl_venue.never_raises [OF assms(1)]) (simp_all add: blofin_stops_def assms(2))

text \<open>A post that concerns the triggers of one leg only.\<close>

definition post_of_leg :: "string set \<Rightarrow> string \<Rightarrow> post \<Rightarrow> bool" where
  "post_of_leg ids side p =
     (case p of
        Cancel_tpsl_post inst oid \<Rightarrow> oid \<in> ids
      | Cancel_order_post inst oid \<Rightarrow> oid \<in> ids
      | Tpsl_post b \<Rightarrow> tb_position_side b = Some side
      | _ \<Rightarrow> False)"

definition event_of_leg :: "string set \<Rightarrow> string \<Rightarrow> stop_event \<Rightarrow> bool" where
  "event_of_leg ids side ev =
     (case ev of Read a \<Rightarrow> True | Cancelled oid a \<Rightarrow> oid \<in> ids | Placed q a \<Rightarrow> pq_leg_side q = Some side)"

lemma of_leg_simps [simp]:
  "post_of_leg ids side (Cancel_tpsl_post inst oid) \<longleftrightarrow> oid \<in> ids"
  "post_of_leg ids side (Cancel_order_post inst oid) \<longleftrightarrow> oid \<in> ids"
  "post_of_leg ids side (Tpsl_post b) \<longleftrightarrow> tb_position_side b = Some side"
  "event_of_leg ids side (Read a)" "event_of_leg ids side (Cancelled oid c) \<longleftrightarrow> oid \<in> ids"
  "event_of_leg ids side (Placed q d) \<longleftrightarrow> pq_leg_side q = Some side"
  by (simp_all add: post_of_leg_def event_of_leg_def)

lemma cancel_order_of_leg:
  "oid \<in> ids \<Longrightarrow> list_all (post_of_leg ids side) posts \<Longrightarrow> list_all (post_of_leg ids side) (snd (cancel_order E symbol oid posts))"
  by (auto simp: cancel_order_def Let_def split: blofin_reply.splits if_splits)

lemma position_side_leg: "position_side True ''long'' = Inr ''long''" "position_side True ''short'' = Inr ''short''"
  by code_simp+

lemma place_each_of_leg:
  assumes "bv_hedge E" "pq_leg_side q = Some side" "side = ''long'' \<or> side = ''short''"
    and "list_all (post_of_leg ids side) posts"
  shows "list_all (post_of_leg ids side) (snd (place_each E q contracts legs posts))"
  using assms(4)
proof (induction legs arbitrary: posts)
  case (Cons leg legs)
  obtain tpsl price where leg: "leg = (tpsl, price)" by fastforce
  show ?case
  proof (cases price)
    case None
    then show ?thesis using Cons leg by simp
  next
    case (Some px)
    show ?thesis
    proof (cases "tpsl_body_of E q contracts tpsl px")
      case (Inl e)
      then show ?thesis using Cons.prems leg Some by simp
    next
      case body: (Inr body)
      have "trigger_leg q = side" using assms(2,3) by (auto simp: trigger_leg_def)
      then have "position_side True (trigger_leg q) = Inr side" using assms(3) position_side_leg by auto
      then have "tb_position_side body = Some side"
        using body assms(1) by (auto simp: tpsl_body_of_def Let_def split: sum.splits)
      then have kept: "list_all (post_of_leg ids side) (posts @ [Tpsl_post body])"
        using Cons.prems by simp
      obtain res posts2 where rest: "place_each E q contracts legs (posts @ [Tpsl_post body]) = (res, posts2)" by fastforce
      then have "list_all (post_of_leg ids side) posts2" using Cons.IH [OF kept] by simp
      then show ?thesis
        using kept rest
        by (cases "bv_post E posts (Tpsl_post body)"; cases res) (simp_all add: leg Some body)
    qed
  qed
qed simp

lemma place_trigger_orders_of_leg:
  assumes "bv_hedge E" "pq_leg_side q = Some side" "side = ''long'' \<or> side = ''short''"
    and "list_all (post_of_leg ids side) posts"
  shows "list_all (post_of_leg ids side) (snd (place_trigger_orders E q posts))"
  using place_each_of_leg [OF assms, of "_" "[(''tp'', pq_tp q), (''sl'', pq_sl q)]"] assms(4)
  by (auto simp: place_trigger_orders_def split: sum.splits prod.splits) (metis snd_conv)+

lemma posts_of_leg:
  assumes "bv_hedge E" "side = ''long'' \<or> side = ''short''" "list_all (event_of_leg ids side) h"
  shows "list_all (post_of_leg ids side) (posts_after E symbol h)"
  using assms(3)
proof (induction h rule: rev_induct)
  case (snoc ev h)
  have "list_all (post_of_leg ids side) (posts_after E symbol h)" using snoc by simp
  then show ?case using snoc.prems cancel_order_of_leg place_trigger_orders_of_leg [OF assms(1) _ assms(2)]
    by (auto simp: posts_after_def after_event_def split: stop_event.splits)
qed (simp add: posts_after_def)

lemma cancel_all_of_leg:
  assumes "cancel_all S symbol ts h = (r, h')" "tg_oid ` set ts \<subseteq> ids" "list_all (event_of_leg ids side) h"
  shows "list_all (event_of_leg ids side) h'"
  using assms
proof (induction ts arbitrary: h r h')
  case (Cons t ts)
  define a where "a = se_cancel S symbol (tg_oid t) h"
  have one: "list_all (event_of_leg ids side) (h @ [Cancelled (tg_oid t) a])"
    using Cons.prems(2,3) by simp
  obtain r1 h2 where rest: "cancel_all S symbol ts (h @ [Cancelled (tg_oid t) a]) = (r1, h2)" by fastforce
  have "list_all (event_of_leg ids side) h2" using Cons.IH [OF rest _ one] Cons.prems(2) by simp
  then show ?case using Cons.prems(1) rest one by (cases a) (auto simp: a_def [symmetric] Let_def split: sum.splits)
qed simp

lemma place_loop_of_leg:
  assumes "place_loop S P n L h = (r, h')" "sp_leg_side P = Some side" "list_all (event_of_leg ids side) h"
  shows "list_all (event_of_leg ids side) h'"
  using assms
proof (induction n arbitrary: L h)
  case (Suc n)
  obtain r1 h1 where a: "place_attempt S P L h = (r1, h1)" by fastforce
  from place_attempt_events [OF a] obtain b as where "h1 = h @ Placed (place_args P L) b # map Read as" by blast
  moreover have "list_all (event_of_leg ids side) (map Read as)" by (simp add: list_all_iff)
  ultimately have one: "list_all (event_of_leg ids side) h1"
    using Suc.prems by (simp add: place_args_def)
  then show ?case using Suc.prems Suc.IH a by (auto split: if_splits sum.splits)
qed simp

text \<open>
  C31. Moving the stops of one leg of a hedge account touches nothing of the other leg: through
  the BloFin adapter, every cancel names a trigger that the exchange listed for this leg, and
  every trigger placed is addressed to it.
\<close>

theorem hedge_stops_scoped:
  assumes "modify_stops (blofin_stops E (mr_symbol rq) mode) account rq = (ans, h)" "bv_hedge E"
    and "mr_side rq = ''long'' \<or> mr_side rq = ''short''"
    and "bv_triggers E [] (mr_symbol rq) = Replied status True msg rows"
  shows "list_all (post_of_leg (tr_id ` {r \<in> set rows. tr_position_side r = mr_side rq}) (mr_side rq))
    (posts_after E (mr_symbol rq) h)"
proof -
  let ?S = "blofin_stops E (mr_symbol rq) mode"
  define ids where "ids = tr_id ` {r \<in> set rows. tr_position_side r = mr_side rq}"
  have hedge: "hedge ad" if "se_adapter ?S account = Inr ad" for ad
    using that assms(2) by (auto simp: blofin_stops_def hedge_def)
  have listed: "tg_oid ` set existing \<subseteq> ids" if "se_triggers ?S (mr_symbol rq) (Some (mr_side rq)) [] = Inr (Some existing)" for existing
    using that assms(3,4)
    by (auto simp: blofin_stops_def posts_after_def list_trigger_orders_def data_or_unavailable_def triggers_of_row_def ids_def
        split: if_splits)
  have "list_all (event_of_leg ids (mr_side rq)) h"
    using assms(1)
  proof (cases rule: modify_stops_cases)
    case refused
    then show ?thesis by auto
  next
    case (no_legs existing)
    then show ?thesis by simp
  next
    case (raised leg_side existing m cs)
    then have "leg_side = Some (mr_side rq)" using hedge by auto
    then show ?thesis using cancel_all_of_leg [OF raised(2)] listed raised(4) by simp
  next
    case (looped leg_side amount existing cancelled h1 r)
    then have side: "leg_side = Some (mr_side rq)" using hedge by auto
    then have "list_all (event_of_leg ids (mr_side rq)) h1"
      using cancel_all_of_leg [OF looped(2)] listed looped(1) by simp
    then show ?thesis using place_loop_of_leg [OF looped(5)] side by (simp add: plan_of_def)
  qed
  then show ?thesis unfolding ids_def using posts_of_leg assms(2,3) by blast
qed

section \<open>A demonstration exchange\<close>

definition demo_inst :: inst_spec where
  "demo_inst = \<lparr>is_contract_value = Some (1 / 1000), is_lot = Some (1 / 10), is_min = Some (1 / 10), is_tick = Some (1 / 10),
     is_max_leverage = Some 50\<rparr>"

definition demo_close_fill :: "string option \<Rightarrow> string \<Rightarrow> int \<Rightarrow> order_row" where
  "demo_close_fill oid side t = \<lparr>og_id = oid, og_inst = ''BTC-USDT'', og_side = side, og_reduce_only = True, og_state = ''filled'', og_position_side = ''long'',
     og_create_time = t, og_price_fields = [Num 60000],
     og_filled_size = Num 2, og_acc_fill_size = Missing, og_fill_size = Missing, og_pnl = Num 3, og_realized_pnl = Missing,
     og_fee = Num (1 / 10), og_size = Num 2, og_price = Num 60000, og_leverage = Num 5, og_margin_mode = Some ''cross''\<rparr>"

definition demo_triggers :: "trigger_row list" where
  "demo_triggers = [\<lparr>tr_id = ''T1'', tr_position_side = ''long'', tr_tp = Px 70000, tr_sl = No_px\<rparr>,
     \<lparr>tr_id = ''T2'', tr_position_side = ''short'', tr_tp = No_px, tr_sl = Px 65000\<rparr>]"

definition demo_moved_triggers :: "trigger_row list" where
  "demo_moved_triggers = [\<lparr>tr_id = ''T3'', tr_position_side = ''long'', tr_tp = Px 70000, tr_sl = Px 55000\<rparr>]"

definition demo_closed :: closed_entry where
  "demo_closed = \<lparr>ce_update_time = 900, ce_position_side = ''short'', ce_liquidation_positions = 0, ce_realized_pnl = 7,
     ce_fee = 1, ce_close_price = 61000\<rparr>"

definition demo_blofin :: "bool \<Rightarrow> blofin_env" where
  "demo_blofin readable =
     \<lparr>bv_hedge = True, bv_inst = (\<lambda>_. Some demo_inst),
      bv_post = (\<lambda>posts p. case p of Order_post b \<Rightarrow> Replied 200 True None (Id_list [Some ''O9'']) | _ \<Rightarrow> Replied 200 True None No_data),
      bv_clock = (\<lambda>_. 1000),
      bv_pending = (\<lambda>_ _. if readable then Replied 200 True None [] else Failed ''timeout''),
      bv_orders_history = (\<lambda>_ _. if readable then
         Replied 200 True None [demo_close_fill (Some ''O1'') ''sell'' 1400, demo_close_fill (Some ''O2'') ''sell'' 1200, demo_close_fill (Some ''O3'') ''buy'' 1100]
         else Failed ''timeout''),
      bv_fills_history = (\<lambda>_ _. if readable then Replied 200 True None [] else Failed ''timeout''),
      bv_positions = (\<lambda>_. Replied 200 True None [\<lparr>hr_inst = ''BTC-USDT'', hr_positions = 2, hr_position_side = ''long'',
         hr_average_price = 60000, hr_leverage = Some 5, hr_liquidation = None\<rparr>]),
      bv_triggers = (\<lambda>posts _. Replied 200 True None (if posts = [] then demo_triggers else demo_moved_triggers)),
      bv_positions_history = (\<lambda>_ _. Replied 200 True None [demo_closed]),
      bv_tiers = (\<lambda>_ _. []), bv_instruments = [''BTC-USDT''],
      bv_balance = (\<lambda>_. Replied 200 True None \<lparr>br_total = Num 100, br_available = Num 60, br_available_equity = Missing\<rparr>),
      bv_mark = (\<lambda>_. Replied 200 True None [Num 60000]), bv_candles = (\<lambda>_. Replied 200 True None []),
      bv_mode = (\<lambda>_. Replied 200 True None (Some ''long_short_mode''))\<rparr>"

definition demo_request :: "string \<Rightarrow> string \<Rightarrow> exec_order" where
  "demo_request signal type = \<lparr>xo_order_id = ''1'', xo_account_id = ''A'', xo_symbol = ''BTC-USDT'', xo_side = ''buy'',
     xo_signal = signal, xo_order_type = type, xo_size = 2 / 1000, xo_price = Some 60000, xo_leverage = Some 5,
     xo_margin_mode = None, xo_tp_price = None, xo_sl_price = None, xo_signal_log_id = None\<rparr>"

definition demo_hint :: close_hint where
  "demo_hint = \<lparr>ch_side = ''sell'', ch_contracts = Some 2, ch_since = 1000, ch_position_side = ''long''\<rparr>"

theorem contracts_near_witness:
  "to_contracts (Some demo_inst) (2 / 1000) = Inr 2 \<and> \<bar>to_base (Some demo_inst) 2 - 2 / 1000\<bar> \<le> 1 / 10 * (1 / 1000) / 2"
proof -
  have *: "to_contracts (Some demo_inst) (2 / 1000) = Inr 2" "contract_value (Some demo_inst) = 1 / 1000"
    "lot_size (Some demo_inst) = 1 / 10 ^ 1" "min_size (Some demo_inst) = 1 / 10"
    "round_half_even (2 / 1000 / contract_value (Some demo_inst) / lot_size (Some demo_inst)) = 20"
    by code_simp+
  show ?thesis using contracts_near [OF *(1) _ *(3) _ *(5) [symmetric]] * by simp
qed

theorem order_as_signalled_witness:
  "\<exists>r posts' b. submit_order (demo_blofin True) (demo_request ''open_long'' ''market'') [] = (r, posts') \<and> xr_success r \<and>
     order_posts posts' = [b] \<and> body_of_signal (demo_blofin True) (demo_request ''open_long'' ''market'') b"
proof -
  obtain r posts' where s: "submit_order (demo_blofin True) (demo_request ''open_long'' ''market'') [] = (r, posts')" by fastforce
  have "xr_success (fst (submit_order (demo_blofin True) (demo_request ''open_long'' ''market'') []))" by code_simp
  then have ok: "xr_success r" by (simp add: s)
  then show ?thesis using order_as_signalled [OF s] s by auto
qed

theorem unreadable_limit_filled_witness:
  "xr_status (fst (submit_order (demo_blofin False) (demo_request ''open_long'' ''limit'') [])) = Exec_filled"
proof -
  let ?E = "demo_blofin False" and ?rq = "demo_request ''open_long'' ''limit''"
  obtain r posts' where s: "submit_order ?E ?rq [] = (r, posts')" by fastforce
  have "xr_success (fst (submit_order ?E ?rq []))" by code_simp
  then have ok: "xr_success r" by (simp add: s)
  have c: "to_contracts (bv_inst ?E (xo_symbol ?rq)) (xo_size ?rq) = Inr 2" by code_simp
  have "xr_status r = Exec_filled"
    using unreadable_limit_filled [OF s ok _ _ _ _ c] by (simp add: demo_blofin_def demo_request_def)
  then show ?thesis by (simp add: s)
qed

theorem recovered_fill_unique_witness:
  "recover_close_fill (demo_blofin True) [] ''BTC-USDT'' demo_hint = Some (demo_close_fill (Some ''O2'') ''sell'' 1200) \<and>
   is_close_candidate demo_hint (demo_close_fill (Some ''O2'') ''sell'' 1200)"
proof -
  have r: "recover_close_fill (demo_blofin True) [] ''BTC-USDT'' demo_hint = Some (demo_close_fill (Some ''O2'') ''sell'' 1200)"
    by code_simp
  then show ?thesis using recovered_fill_unique [OF r] by blast
qed

definition tiny_close :: "(string + exec_result) \<times> post list" where
  "tiny_close = partial_close (demo_blofin True) ''BTC-USDT'' ''long'' (1 / 100000) ''isolated'' []"

theorem tiny_close_enlarged_witness:
  "\<exists>b. snd tiny_close = [Order_post b] \<and> ob_size b = 1 / 10 \<and> 1 / 100000 < to_base (Some demo_inst) (ob_size b)"
proof -
  let ?E = "demo_blofin True"
  obtain r posts' where s: "partial_close ?E ''BTC-USDT'' ''long'' (1 / 100000) ''isolated'' [] = (r, posts')" by fastforce
  have inst: "bv_inst ?E ''BTC-USDT'' = Some demo_inst" by (simp add: demo_blofin_def)
  have specs: "contract_value (Some demo_inst) = 1 / 1000" "lot_size (Some demo_inst) = 1 / 10 ^ 1" "min_size (Some demo_inst) = 1 / 10"
    by code_simp+
  have "position_side (bv_hedge ?E) ''long'' = Inr ''long''" by code_simp
  from tiny_close_enlarged [OF s this, of 1 1] show ?thesis
    by (auto simp: inst specs tiny_close_def s to_base_def)
qed

definition amend_demo :: "amend_answer \<times> post list" where
  "amend_demo = amend_order (demo_blofin True) ''BTC-USDT'' ''O3'' (Some 59000) None []"

theorem amend_drops_protection_witness:
  "\<exists>b. order_posts (snd amend_demo) = [b] \<and> \<not> ob_reduce_only b \<and> ob_position_side b = Some ''short''"
proof -
  obtain a posts' where s: "amend_order (demo_blofin True) ''BTC-USDT'' ''O3'' (Some 59000) None [] = (a, posts')" by fastforce
  have "length (order_posts (snd amend_demo)) = 1" by code_simp
  then obtain b where "order_posts posts' = [b]" by (auto simp: amend_demo_def s length_Suc_conv)
  moreover have "bv_hedge (demo_blofin True)" by (simp add: demo_blofin_def)
  ultimately show ?thesis using amend_drops_protection [OF s] by (auto simp: amend_demo_def s)
qed

theorem spread_long_leg_side_witness:
  "\<exists>b. order_posts (snd (submit_order (demo_blofin True) (demo_request ''spread_open'' ''market'') [])) = [b] \<and>
     ob_side b = ''buy'' \<and> ob_position_side b = Some ''short''"
proof -
  let ?rq = "demo_request ''spread_open'' ''market''"
  obtain r posts' where s: "submit_order (demo_blofin True) ?rq [] = (r, posts')" by fastforce
  have "length (order_posts (snd (submit_order (demo_blofin True) ?rq []))) = 1" by code_simp
  then obtain b where "order_posts posts' = [b]" by (auto simp: s length_Suc_conv)
  moreover have "bv_hedge (demo_blofin True)" "xo_signal ?rq = ''spread_open''" "xo_side ?rq = ''buy''"
    by (simp_all add: demo_blofin_def demo_request_def)
  ultimately show ?thesis using spread_long_leg_side [OF s] by (auto simp: s)
qed

theorem opposite_leg_result_witness:
  "get_closed_position_details (demo_blofin True) [] ''BTC-USDT'' (Some 500) ''long'' = Some (history_answer demo_closed)"
  by (rule opposite_leg_result [where es = "[]" and status = 200 and code_ok = True and msg = None])
    (auto simp: demo_blofin_def demo_closed_def)

definition demo_bl_move :: stops_request where
  "demo_bl_move = \<lparr>mr_symbol = ''BTC-USDT'', mr_side = ''long'', mr_tp = None, mr_sl = Some 55000, mr_clear_tp = False, mr_clear_sl = False\<rparr>"

definition moved_demo :: "post list" where
  "moved_demo = posts_after (demo_blofin True) ''BTC-USDT''
     (snd (modify_stops (blofin_stops (demo_blofin True) ''BTC-USDT'' ''live'') ''A'' demo_bl_move))"

theorem hedge_stops_scoped_witness:
  "list_all (post_of_leg {''T1''} ''long'') moved_demo"
proof -
  let ?E = "demo_blofin True"
  obtain ans h where m: "modify_stops (blofin_stops ?E (mr_symbol demo_bl_move) ''live'') ''A'' demo_bl_move = (ans, h)" by fastforce
  have ids: "tr_id ` {r \<in> set demo_triggers. tr_position_side r = mr_side demo_bl_move} = {''T1''}"
    unfolding demo_triggers_def demo_bl_move_def by (auto simp: image_iff ex_disj_distrib conj_disj_distribR)
  have "list_all (post_of_leg (tr_id ` {r \<in> set demo_triggers. tr_position_side r = mr_side demo_bl_move}) (mr_side demo_bl_move))
      (posts_after ?E (mr_symbol demo_bl_move) h)"
    by (rule hedge_stops_scoped [OF m, of 200 None]) (simp_all add: demo_blofin_def demo_bl_move_def)
  then show ?thesis using m unfolding ids by (simp add: moved_demo_def demo_bl_move_def)
qed

end
