(* ===== verification/Binance.thy ===== *)
theory Binance
  imports Venue StopsSafety
begin

text \<open>
  The Binance adapter: \<open>order-executor/app/adapters/binance.py\<close>. The exchange is a parameter:
  its answer to a request may depend on the requests that changed something before it. The
  adapter keeps one flag of its own, set once the account was seen in one-way mode. A signed
  request raises, or gives a body that is an error object or what was asked for.
\<close>

section \<open>Replies and requests\<close>

datatype 'a bn_reply = Bn_raised string | Bn_error string | Bn_body 'a

record bn_symbol_row =
  sy_symbol :: string
  sy_contract_type :: string
  sy_status :: string
  sy_quote :: string
  sy_tick :: field
  sy_step :: field
  sy_min_qty :: field
  sy_price_precision :: field
  sy_quantity_precision :: field

record bn_spec =
  bs_tick :: "rat option"
  bs_step :: "rat option"
  bs_min_qty :: rat
  bs_price_precision :: nat
  bs_quantity_precision :: nat

text \<open>A price goes out as a formatted text, or as Python prints the float.\<close>

datatype wire_price = Text_price string | Float_price rat

record bn_order =
  bo_symbol :: string
  bo_side :: string
  bo_type :: string
  bo_quantity :: "string option"
  bo_price :: "wire_price option"
  bo_time_in_force :: "string option"
  bo_reduce_only :: bool
  bo_stop_price :: "wire_price option"
  bo_close_position :: bool

datatype bn_post =
    Bn_margin_type string string
  | Bn_leverage string int
  | Bn_order bn_order
  | Bn_amend string string string string wire_price
  | Bn_cancel string string

text \<open>The order a request is answered with; absent figures read as zero.\<close>

record bn_ack =
  ba_order_id :: string
  ba_status :: string
  ba_avg_price :: rat
  ba_executed :: rat

record bn_trade =
  td_price :: rat
  td_qty :: rat
  td_pnl :: rat
  td_commission :: rat
  td_time :: int

record bn_position_row =
  bp_symbol :: string
  bp_amount :: rat
  bp_entry :: rat
  bp_lever :: int
  bp_liq :: rat

record bn_open_row =
  br_oid :: string
  br_symbol :: string
  br_type :: string
  br_side :: string
  br_price :: rat
  br_orig_qty :: rat
  br_executed_qty :: rat
  br_stop_price :: raw_px
  br_time :: int

record bn_bracket =
  bk_leverage :: rat
  bk_floor :: rat
  bk_ratio :: rat

record binance_env =
  be_spec :: "string \<Rightarrow> bn_spec option"
  be_brackets :: "string \<Rightarrow> bn_bracket list"
  be_dual :: "bn_post list \<Rightarrow> bool bn_reply"
  be_post :: "bn_post list \<Rightarrow> bn_post \<Rightarrow> bn_ack bn_reply"
  be_trades :: "bn_post list \<Rightarrow> string \<Rightarrow> string option \<Rightarrow> int option \<Rightarrow> bn_trade list bn_reply"
  be_positions :: "bn_post list \<Rightarrow> nat \<Rightarrow> bn_position_row list bn_reply"
  be_order :: "bn_post list \<Rightarrow> string \<Rightarrow> string \<Rightarrow> bn_open_row bn_reply"
  be_open_orders :: "bn_post list \<Rightarrow> string option \<Rightarrow> bn_open_row list bn_reply"
  be_all_orders :: "bn_post list \<Rightarrow> string \<Rightarrow> int \<Rightarrow> string list bn_reply"
  be_account :: "bn_post list \<Rightarrow> (field \<times> field \<times> field) bn_reply"
  be_mark :: "string \<Rightarrow> field bn_reply"
  be_klines :: "candle_request \<Rightarrow> venue_candle list bn_reply"

record bn_world =
  bw_posts :: "bn_post list"
  bw_mode_checked :: bool

definition bn_send :: "bn_post \<Rightarrow> bn_world \<Rightarrow> bn_world" where
  "bn_send p w = w\<lparr>bw_posts := bw_posts w @ [p]\<rparr>"

lemma bn_send_simps [simp]:
  "bw_posts (bn_send p w) = bw_posts w @ [p]" "bw_mode_checked (bn_send p w) = bw_mode_checked w"
  by (simp_all add: bn_send_def)

section \<open>Instrument specs\<close>

text \<open>\<open>float(x or 0) or None\<close> and \<open>int(x or 8)\<close>: zero decimals become eight.\<close>

definition nonzero_field :: "field \<Rightarrow> string + rat option" where
  "nonzero_field f = (case number_or f 0 of Inl e \<Rightarrow> Inl e | Inr v \<Rightarrow> Inr (if v = 0 then None else Some v))"

definition precision_of :: "field \<Rightarrow> string + nat" where
  "precision_of f = (case f of Num v \<Rightarrow> Inr (if v = 0 then 8 else nat (py_int v)) | Junk \<Rightarrow> Inl ''ValueError'' | _ \<Rightarrow> Inr 8)"

definition bn_spec_of :: "bn_symbol_row \<Rightarrow> string + bn_spec" where
  "bn_spec_of s =
     (case (nonzero_field (sy_tick s), nonzero_field (sy_step s), number_or (sy_min_qty s) 0,
            precision_of (sy_price_precision s), precision_of (sy_quantity_precision s)) of
        (Inr tick, Inr step, Inr m, Inr pp, Inr qp) \<Rightarrow>
          Inr \<lparr>bs_tick = tick, bs_step = step, bs_min_qty = m, bs_price_precision = pp, bs_quantity_precision = qp\<rparr>
      | _ \<Rightarrow> Inl ''ValueError'')"

definition is_traded :: "bn_symbol_row \<Rightarrow> bool" where
  "is_traded s \<longleftrightarrow> sy_contract_type s = ''PERPETUAL'' \<and> sy_status s = ''TRADING'' \<and> sy_quote s = ''USDT''"

text \<open>A refresh that fails, or finds nothing, leaves the cache.\<close>

definition refresh_exchange_info ::
  "bn_symbol_row list bn_reply \<Rightarrow> (string \<times> bn_spec) list \<Rightarrow> (string \<times> bn_spec) list" where
  "refresh_exchange_info reply cache =
     (case reply of
        Bn_body rows \<Rightarrow>
          (case map_rows (\<lambda>s. case bn_spec_of s of Inl e \<Rightarrow> Inl e | Inr i \<Rightarrow> Inr (sy_symbol s, i)) (filter is_traded rows) of
             Inl e \<Rightarrow> cache
           | Inr specs \<Rightarrow> if specs = [] then cache else rev specs)
      | _ \<Rightarrow> cache)"

definition bn_get_spec :: "(string \<times> bn_spec) list \<Rightarrow> string \<Rightarrow> bn_spec option" where
  "bn_get_spec cache = map_of cache"

definition round_step :: "rat \<Rightarrow> rat option \<Rightarrow> nat \<Rightarrow> rat" where
  "round_step v step precision =
     (case step of
        Some s \<Rightarrow> if 0 < s then of_int (py_int (v / s)) * s else py_round v precision
      | None \<Rightarrow> py_round v precision)"

definition fmt_qty :: "bn_spec option \<Rightarrow> rat \<Rightarrow> string" where
  "fmt_qty spec qty =
     (case spec of
        None \<Rightarrow> strip_zeros (fixed_text 6 qty)
      | Some i \<Rightarrow>
          (let t = strip_zeros (fixed_text (bs_quantity_precision i) (round_step qty (bs_step i) (bs_quantity_precision i)))
           in if t = [] then ''0'' else t))"

text \<open>\<open>quantize(Decimal("1"), rounding=ROUND_HALF_UP)\<close>: half away from zero.\<close>

definition round_half_up :: "rat \<Rightarrow> int" where
  "round_half_up x = (if 0 \<le> x then \<lfloor>x + 1 / 2\<rfloor> else - \<lfloor>1 / 2 - x\<rfloor>)"

definition fmt_price :: "bn_spec option \<Rightarrow> rat \<Rightarrow> wire_price" where
  "fmt_price spec price =
     (case spec of
        None \<Rightarrow> Float_price price
      | Some i \<Rightarrow>
          (let v = (case bs_tick i of Some t \<Rightarrow> if 0 < t then of_int (round_half_up (price / t)) * t else price | None \<Rightarrow> price);
               s = strip_zeros (fixed_text (bs_price_precision i) v)
           in Text_price (if s = [] then ''0'' else s)))"

section \<open>The account\<close>

definition check_position_mode :: "binance_env \<Rightarrow> bn_world \<Rightarrow> string option \<times> bn_world" where
  "check_position_mode E w =
     (if bw_mode_checked w then (None, w)
      else case be_dual E (bw_posts w) of
             Bn_body True \<Rightarrow> (Some ''account is in Hedge Mode'', w)
           | Bn_raised m \<Rightarrow> (None, w)
           | _ \<Rightarrow> (None, w\<lparr>bw_mode_checked := True\<rparr>))"

definition bn_set_leverage :: "string \<Rightarrow> int \<Rightarrow> bn_world \<Rightarrow> bn_world" where
  "bn_set_leverage symbol leverage w = bn_send (Bn_leverage symbol leverage) w"

text \<open>Errors of this request are logged only.\<close>

definition bn_set_margin_type :: "string \<Rightarrow> string \<Rightarrow> bn_world \<Rightarrow> bn_world" where
  "bn_set_margin_type symbol margin_mode w =
     bn_send (Bn_margin_type symbol (if py_lower (or_isolated (Some margin_mode)) = ''isolated'' then ''ISOLATED'' else ''CROSSED'')) w"

section \<open>Trades\<close>

record trade_sum =
  ts_price :: rat
  ts_size :: rat
  ts_pnl :: rat
  ts_fee :: rat

definition bn_trades :: "binance_env \<Rightarrow> bn_post list \<Rightarrow> string \<Rightarrow> string option \<Rightarrow> int option \<Rightarrow> bn_trade list" where
  "bn_trades E posts symbol oid since = (case be_trades E posts symbol oid since of Bn_body ts \<Rightarrow> ts | _ \<Rightarrow> [])"

definition aggregate_trades :: "bn_trade list \<Rightarrow> trade_sum option" where
  "aggregate_trades ts =
     (let qty = sum_list (map td_qty ts)
      in if qty \<le> 0 then None
         else Some \<lparr>ts_price = sum_list (map (\<lambda>t. td_price t * td_qty t) ts) / qty, ts_size = qty,
                    ts_pnl = sum_list (map td_pnl ts), ts_fee = sum_list (map td_commission ts)\<rparr>)"

definition bn_fill_fee :: "binance_env \<Rightarrow> bn_post list \<Rightarrow> string \<Rightarrow> string \<Rightarrow> rat option" where
  "bn_fill_fee E posts symbol oid =
     (case bn_trades E posts symbol (Some oid) None of [] \<Rightarrow> None | ts \<Rightarrow> Some (sum_list (map td_commission ts)))"

section \<open>Limits of the instrument\<close>

definition bn_max_leverage :: "binance_env \<Rightarrow> string \<Rightarrow> int" where
  "bn_max_leverage E symbol =
     (case be_brackets E symbol of [] \<Rightarrow> 0 | bs \<Rightarrow> py_int (Max (set (map bk_leverage bs))))"

definition bn_mmr :: "binance_env \<Rightarrow> string \<Rightarrow> rat \<Rightarrow> rat option" where
  "bn_mmr E symbol notional =
     (case be_brackets E symbol of
        [] \<Rightarrow> None
      | b # bs \<Rightarrow>
         (let applicable = sort_key bk_floor (filter (\<lambda>k. bk_floor k \<le> notional) (b # bs));
              tier = (if applicable = [] then b else last applicable)
          in if bk_ratio tier \<le> 0 then None else Some (bk_ratio tier + TIER_MMR_BUFFER)))"

definition bn_mark_price :: "binance_env \<Rightarrow> string \<Rightarrow> rat option" where
  "bn_mark_price E symbol =
     (case be_mark E symbol of
        Bn_body f \<Rightarrow> (case number_or f 0 of Inr v \<Rightarrow> if 0 < v then Some v else None | Inl e \<Rightarrow> None)
      | _ \<Rightarrow> None)"

definition KLINES_MAX_PER_CALL :: int where "KLINES_MAX_PER_CALL = 1500"

definition bn_candles :: "binance_env \<Rightarrow> string \<Rightarrow> string \<Rightarrow> int \<Rightarrow> int option \<Rightarrow> venue_candle list" where
  "bn_candles E symbol timeframe limit end_ms =
     (if candle_seconds timeframe = None then []
      else case be_klines E \<lparr>cq_symbol = filter (\<lambda>c. c \<noteq> CHR ''-'') symbol, cq_timeframe = timeframe,
                     cq_limit = min (max 1 limit) KLINES_MAX_PER_CALL,
                     cq_end = (if end_ms = Some 0 then None else end_ms)\<rparr> of
             Bn_body rows \<Rightarrow> rows
           | _ \<Rightarrow> [])"

section \<open>Triggers\<close>

definition close_trigger :: "binance_env \<Rightarrow> string \<Rightarrow> string \<Rightarrow> string \<Rightarrow> rat \<Rightarrow> bn_order" where
  "close_trigger E symbol side otype price =
     \<lparr>bo_symbol = symbol, bo_side = py_upper side, bo_type = otype, bo_quantity = None, bo_price = None,
      bo_time_in_force = None, bo_reduce_only = False, bo_stop_price = Some (fmt_price (be_spec E symbol) price),
      bo_close_position = True\<rparr>"

fun bn_place_each ::
  "binance_env \<Rightarrow> string \<Rightarrow> string \<Rightarrow> (string \<times> rat option \<times> string) list \<Rightarrow> bn_world \<Rightarrow> placed_leg list \<times> bn_world" where
  "bn_place_each E symbol side [] w = ([], w)"
| "bn_place_each E symbol side ((tpsl, None, otype) # legs) w = bn_place_each E symbol side legs w"
| "bn_place_each E symbol side ((tpsl, Some price, otype) # legs) w =
     (let p = Bn_order (close_trigger E symbol side otype price);
          leg = (case be_post E (bw_posts w) p of
                   Bn_body a \<Rightarrow> \<lparr>pl_tpsl = tpsl, pl_error = None\<rparr>
                 | Bn_error m \<Rightarrow> \<lparr>pl_tpsl = tpsl, pl_error = Some m\<rparr>
                 | Bn_raised m \<Rightarrow> \<lparr>pl_tpsl = tpsl, pl_error = Some m\<rparr>)
      in case bn_place_each E symbol side legs (bn_send p w) of (placed, w1) \<Rightarrow> (leg # placed, w1))"

definition bn_place_trigger_orders ::
  "binance_env \<Rightarrow> string \<Rightarrow> string \<Rightarrow> rat option \<Rightarrow> rat option \<Rightarrow> bn_world \<Rightarrow> (bool \<times> placed_leg list) \<times> bn_world" where
  "bn_place_trigger_orders E symbol side tp sl w =
     (case bn_place_each E symbol side [(''tp'', tp, ''TAKE_PROFIT_MARKET''), (''sl'', sl, ''STOP_MARKET'')] w of
        (placed, w1) \<Rightarrow> ((placed \<noteq> [] \<and> list_all (\<lambda>p. pl_error p = None) placed, placed), w1))"

section \<open>Submitting\<close>

definition nonzero_price :: "rat option \<Rightarrow> rat option" where
  "nonzero_price x = (if x = Some 0 then None else x)"

definition entry_order :: "binance_env \<Rightarrow> exec_order \<Rightarrow> string \<Rightarrow> string + bn_order" where
  "entry_order E rq qty =
     (let close = is_close_signal (xo_signal rq);
          body = \<lparr>bo_symbol = xo_symbol rq, bo_side = py_upper (xo_side rq), bo_type = ''MARKET'', bo_quantity = Some qty,
                  bo_price = None, bo_time_in_force = None, bo_reduce_only = close, bo_stop_price = None,
                  bo_close_position = False\<rparr>
      in if xo_order_type rq = ''market'' then Inr body
         else case xo_price rq of
                None \<Rightarrow> Inl ''TypeError''
              | Some px \<Rightarrow> Inr (body\<lparr>bo_type := ''LIMIT'', bo_price := Some (fmt_price (be_spec E (xo_symbol rq)) px),
                                   bo_time_in_force := Some (if close then ''GTC'' else ''GTX'')\<rparr>))"

text \<open>What an accepted order amounts to: resting, expired, or filled.\<close>

definition ack_result :: "binance_env \<Rightarrow> bn_post list \<Rightarrow> string \<Rightarrow> bn_ack \<Rightarrow> exec_result" where
  "ack_result E posts symbol a =
     (let r = adapter_result True Exec_filled (Some (ba_order_id a)) None;
          agg = aggregate_trades (bn_trades E posts symbol (Some (ba_order_id a)) None)
      in if ba_status a = ''NEW'' then r\<lparr>xr_status := Exec_pending\<rparr>
         else if ba_status a = ''PARTIALLY_FILLED'' then
           r\<lparr>xr_status := Exec_pending, xr_actual_fill_price := map_option ts_price agg, xr_actual_fill_size := map_option ts_size agg\<rparr>
         else if ba_status a = ''EXPIRED'' then
           adapter_result False Exec_rejected (Some (ba_order_id a)) (Some ''post-only limit expired by exchange'')
         else case agg of
                Some g \<Rightarrow> r\<lparr>xr_actual_fill_price := Some (ts_price g), xr_actual_fill_size := Some (ts_size g),
                            xr_realized_pnl := Some (ts_pnl g), xr_fee := Some (ts_fee g)\<rparr>
              | None \<Rightarrow> r\<lparr>xr_actual_fill_price := (if 0 < ba_avg_price a then Some (ba_avg_price a) else None),
                          xr_actual_fill_size := (if 0 < ba_executed a then Some (ba_executed a) else None)\<rparr>)"

text \<open>Protection is a separate order, after the entry.\<close>

definition protect_entry :: "binance_env \<Rightarrow> exec_order \<Rightarrow> exec_result \<Rightarrow> bn_world \<Rightarrow> exec_result \<times> bn_world" where
  "protect_entry E rq r w =
     (if is_close_signal (xo_signal rq) \<or> nonzero_price (xo_tp_price rq) = None \<and> nonzero_price (xo_sl_price rq) = None then (r, w)
      else (case bn_place_trigger_orders E (xo_symbol rq) (if py_lower (xo_side rq) = ''buy'' then ''sell'' else ''buy'')
                   (nonzero_price (xo_tp_price rq)) (nonzero_price (xo_sl_price rq)) w of
              ((ok, placed), w1) \<Rightarrow>
                (if ok then r else r\<lparr>xr_error_msg := Some ''entry placed but stop/target did NOT attach''\<rparr>, w1)))"

definition place_entry :: "binance_env \<Rightarrow> exec_order \<Rightarrow> bn_world \<Rightarrow> exec_result \<times> bn_world" where
  "place_entry E rq w =
     (let qty = fmt_qty (be_spec E (xo_symbol rq)) (xo_size rq)
      in if text_value qty \<le> 0 then (adapter_result False Exec_rejected None (Some ''quantity rounds to zero''), w)
         else case entry_order E rq qty of
                Inl e \<Rightarrow> (adapter_result False Exec_route_failed None (Some e), w)
              | Inr b \<Rightarrow>
                 (let w1 = bn_send (Bn_order b) w
                  in case be_post E (bw_posts w) (Bn_order b) of
                       Bn_raised m \<Rightarrow> (adapter_result False Exec_route_failed None (Some m), w1)
                     | Bn_error m \<Rightarrow> (adapter_result False Exec_rejected None (Some m), w1)
                     | Bn_body a \<Rightarrow>
                         (let r = ack_result E (bw_posts w1) (xo_symbol rq) a
                          in if xr_success r then protect_entry E rq r w1 else (r, w1))))"

definition bn_submit_order :: "binance_env \<Rightarrow> exec_order \<Rightarrow> bn_world \<Rightarrow> exec_result \<times> bn_world" where
  "bn_submit_order E rq w =
     (case check_position_mode E w of
        (Some e, w1) \<Rightarrow> (adapter_result False Exec_rejected None (Some e), w1)
      | (None, w1) \<Rightarrow>
         (let leverage = or_ten (xo_leverage rq); max_lev = bn_max_leverage E (xo_symbol rq)
          in if max_lev \<noteq> 0 \<and> max_lev < leverage then
               (adapter_result False Exec_rejected None (Some ''Requested leverage exceeds the maximum''), w1)
             else place_entry E rq (bn_set_leverage (xo_symbol rq) leverage
                    (bn_set_margin_type (xo_symbol rq) (or_isolated (xo_margin_mode rq)) w1))))"

section \<open>Positions\<close>

definition bn_position :: "bn_position_row \<Rightarrow> position_report" where
  "bn_position p =
     \<lparr>op_symbol = bp_symbol p, op_side = (if 0 < bp_amount p then ''long'' else ''short''), op_size = \<bar>bp_amount p\<bar>,
      bp_entry_price = bp_entry p, bp_leverage = or_ten (Some (bp_lever p)),
      bp_liquidation = (if 0 < bp_liq p then Some (bp_liq p) else None)\<rparr>"

text \<open>The current version of the endpoint, then the old one; a body that is no list reads as an empty one.\<close>

definition bn_open_positions :: "binance_env \<Rightarrow> bn_post list \<Rightarrow> string + position_report list" where
  "bn_open_positions E posts =
     (let read = (\<lambda>reply. case reply of
                    Bn_raised m \<Rightarrow> None
                  | Bn_error m \<Rightarrow> Some []
                  | Bn_body rows \<Rightarrow> Some (map bn_position (filter (\<lambda>p. bp_amount p \<noteq> 0) rows)))
      in case read (be_positions E posts 3) of
           Some ps \<Rightarrow> Inr ps
         | None \<Rightarrow> (case read (be_positions E posts 2) of
                     Some ps \<Rightarrow> Inr ps
                   | None \<Rightarrow> Inl ''ExchangeUnavailableError''))"

definition close_qty :: "binance_env \<Rightarrow> bn_post list \<Rightarrow> string \<Rightarrow> string \<Rightarrow> rat option \<Rightarrow> string + rat option" where
  "close_qty E posts symbol side amount =
     (case amount of
        Some a \<Rightarrow> Inr (Some a)
      | None \<Rightarrow>
          (case bn_open_positions E posts of
             Inl e \<Rightarrow> Inl e
           | Inr ps \<Rightarrow> Inr (map_option op_size (List.find (\<lambda>p. op_symbol p = symbol \<and> op_side p = side) ps))))"

definition bn_close_position ::
  "binance_env \<Rightarrow> string \<Rightarrow> string \<Rightarrow> rat option \<Rightarrow> bn_world \<Rightarrow> exec_result \<times> bn_world" where
  "bn_close_position E symbol side amount w =
     (case close_qty E (bw_posts w) symbol side amount of
        Inl e \<Rightarrow> (adapter_result False Exec_route_failed None (Some e), w)
      | Inr None \<Rightarrow> (adapter_result False Exec_rejected None (Some ''no open position''), w)
      | Inr (Some a) \<Rightarrow>
         (let qty = fmt_qty (be_spec E symbol) a
          in if text_value qty \<le> 0 then (adapter_result False Exec_rejected None (Some ''close quantity rounds to zero''), w)
             else
               (let p = Bn_order \<lparr>bo_symbol = symbol, bo_side = py_upper (close_order_side side), bo_type = ''MARKET'',
                        bo_quantity = Some qty, bo_price = None, bo_time_in_force = None, bo_reduce_only = True,
                        bo_stop_price = None, bo_close_position = False\<rparr>;
                    w1 = bn_send p w
                in case be_post E (bw_posts w) p of
                     Bn_raised m \<Rightarrow> (adapter_result False Exec_route_failed None (Some m), w1)
                   | Bn_error m \<Rightarrow> (adapter_result False Exec_rejected None (Some m), w1)
                   | Bn_body a \<Rightarrow>
                       (let agg = aggregate_trades (bn_trades E (bw_posts w1) symbol (Some (ba_order_id a)) None)
                        in ((adapter_result True Exec_filled (Some (ba_order_id a)) None)
                              \<lparr>xr_actual_fill_price := map_option ts_price agg, xr_actual_fill_size := map_option ts_size agg,
                               xr_realized_pnl := map_option ts_pnl agg, xr_fee := map_option ts_fee agg\<rparr>, w1)))))"

section \<open>Closed positions\<close>

definition bn_was_liquidated :: "binance_env \<Rightarrow> bn_post list \<Rightarrow> string \<Rightarrow> int \<Rightarrow> bool" where
  "bn_was_liquidated E posts symbol since =
     (case be_all_orders E posts symbol (max (since - 1000) 0) of
        Bn_body blobs \<Rightarrow> list_ex (\<lambda>b. occurs_in ''LIQUIDATION'' (py_upper b) \<or> occurs_in ''ADL'' (py_upper b) \<or>
                                      occurs_in ''AUTOCLOSE'' (py_upper b)) blobs
      | _ \<Rightarrow> False)"

text \<open>A trade closes when it realised something; the trades of all closes since then are summed.\<close>

definition bn_closed_details :: "binance_env \<Rightarrow> bn_post list \<Rightarrow> string \<Rightarrow> int option \<Rightarrow> closed_details option" where
  "bn_closed_details E posts symbol since =
     (let closes = sort_key td_time (filter (\<lambda>t. td_pnl t \<noteq> 0) (bn_trades E posts symbol None since))
      in if closes = [] then None
         else case aggregate_trades closes of
                None \<Rightarrow> None
              | Some g \<Rightarrow>
                 (let latest = td_time (last closes);
                      from = (case since of Some t \<Rightarrow> if t = 0 then latest else t | None \<Rightarrow> latest)
                  in Some \<lparr>cd_liquidated = bn_was_liquidated E posts symbol from, cd_closing_price = ts_price g,
                           cd_pnl = ts_pnl g, cd_fee = \<bar>ts_fee g\<bar>, cd_round_trip = False,
                           cd_closed_at = (if latest = 0 then None else Some latest)\<rparr>))"

section \<open>Resting orders and triggers\<close>

definition TRIGGER_TYPES :: "string list" where
  "TRIGGER_TYPES = [''STOP'', ''STOP_MARKET'', ''TAKE_PROFIT'', ''TAKE_PROFIT_MARKET'', ''TRAILING_STOP_MARKET'']"

definition is_trigger_type :: "bn_open_row \<Rightarrow> bool" where
  "is_trigger_type r \<longleftrightarrow> py_upper (br_type r) \<in> set TRIGGER_TYPES"

definition bn_open_order_of :: "bn_open_row \<Rightarrow> open_order" where
  "bn_open_order_of r =
     \<lparr>oo_order_id = br_oid r, oo_symbol = br_symbol r, oo_side = py_lower (br_side r), oo_price = br_price r,
      oo_size = br_orig_qty r, oo_filled_size = br_executed_qty r,
      oo_status = (if 0 < br_executed_qty r then ''partially_filled'' else ''resting''), oo_created_at = br_time r\<rparr>"

text \<open>Whatever goes wrong, the answer is an empty list.\<close>

definition bn_open_orders :: "binance_env \<Rightarrow> bn_post list \<Rightarrow> string option \<Rightarrow> open_order list" where
  "bn_open_orders E posts symbol =
     (case be_open_orders E posts symbol of
        Bn_body rows \<Rightarrow> map bn_open_order_of (filter (\<lambda>r. \<not> is_trigger_type r) rows)
      | _ \<Rightarrow> [])"

definition bn_trigger_of :: "bn_open_row \<Rightarrow> trigger" where
  "bn_trigger_of r =
     \<lparr>tg_oid = br_oid r, tg_tpsl = (if occurs_in ''TAKE_PROFIT'' (py_upper (br_type r)) then ''tp'' else ''sl''),
      tg_px = br_stop_price r\<rparr>"

definition bn_list_trigger_orders :: "binance_env \<Rightarrow> bn_post list \<Rightarrow> string \<Rightarrow> trigger list option" where
  "bn_list_trigger_orders E posts symbol =
     (case be_open_orders E posts (Some symbol) of
        Bn_body rows \<Rightarrow> Some (map bn_trigger_of (filter is_trigger_type rows))
      | _ \<Rightarrow> None)"

text \<open>An order that is already gone counts as cancelled.\<close>

definition bn_cancel_order :: "binance_env \<Rightarrow> string \<Rightarrow> string \<Rightarrow> bn_world \<Rightarrow> cancel_answer \<times> bn_world" where
  "bn_cancel_order E symbol oid w =
     (let p = Bn_cancel symbol oid
      in (case be_post E (bw_posts w) p of
            Bn_body a \<Rightarrow> \<lparr>ca_success = True, ca_error = None\<rparr>
          | Bn_error m \<Rightarrow> \<lparr>ca_success = False, ca_error = Some m\<rparr>
          | Bn_raised m \<Rightarrow>
              if occurs_in ''-2011'' m then \<lparr>ca_success = True, ca_error = None\<rparr>
              else \<lparr>ca_success = False, ca_error = Some m\<rparr>,
          bn_send p w))"

datatype bn_amended = Bn_amended string | Bn_not_amended string

text \<open>A native amend of a limit order; what is not given is read back from the order.\<close>

definition bn_amend_order ::
  "binance_env \<Rightarrow> string \<Rightarrow> string \<Rightarrow> rat option \<Rightarrow> rat option \<Rightarrow> bn_world \<Rightarrow> bn_amended \<times> bn_world" where
  "bn_amend_order E symbol oid new_price new_size w =
     (if new_price = None \<and> new_size = None then (Bn_not_amended ''amend_order requires new_price or new_size'', w)
      else case be_order E (bw_posts w) symbol oid of
             Bn_body r \<Rightarrow>
               if py_upper (br_type r) \<noteq> ''LIMIT'' then (Bn_not_amended ''Binance can only amend LIMIT orders'', w)
               else
                 (let px = (case new_price of Some x \<Rightarrow> x | None \<Rightarrow> br_price r);
                      qty = (case new_size of Some x \<Rightarrow> x | None \<Rightarrow> br_orig_qty r);
                      p = Bn_amend symbol oid (py_upper (br_side r)) (fmt_qty (be_spec E symbol) qty) (fmt_price (be_spec E symbol) px)
                  in (case be_post E (bw_posts w) p of
                        Bn_body a \<Rightarrow> Bn_amended (ba_order_id a)
                      | Bn_error m \<Rightarrow> Bn_not_amended m
                      | Bn_raised m \<Rightarrow> Bn_not_amended m,
                      bn_send p w))
           | _ \<Rightarrow> (Bn_not_amended ''order not found'', w))"

section \<open>Account reads\<close>

definition bn_balance :: "binance_env \<Rightarrow> bn_post list \<Rightarrow> venue_balance" where
  "bn_balance E posts =
     (case be_account E posts of
        Bn_raised m \<Rightarrow> failed_balance ''USDT'' m
      | Bn_error m \<Rightarrow> failed_balance ''USDT'' m
      | Bn_body (tf, af, uf) \<Rightarrow>
          (case (number_or tf 0, number_or af 0) of
             (Inr t, Inr a) \<Rightarrow>
               (case number_or uf (max (t - a) 0) of
                  Inr u \<Rightarrow> \<lparr>vb_total = t, vb_available = a, vb_used = max u 0, vb_currency = ''USDT'', vb_error = None\<rparr>
                | Inl e \<Rightarrow> failed_balance ''USDT'' e)
           | _ \<Rightarrow> failed_balance ''USDT'' ''ValueError''))"

definition bn_min_order_size :: "binance_env \<Rightarrow> string \<Rightarrow> rat" where
  "bn_min_order_size E symbol = (case be_spec E symbol of None \<Rightarrow> 0 | Some i \<Rightarrow> bs_min_qty i)"

definition bn_instrument_spec :: "bn_spec \<Rightarrow> rat \<times> nat" where
  "bn_instrument_spec i =
     (case bs_tick i of None \<Rightarrow> 1 / 100 | Some t \<Rightarrow> t,
      case bs_step i of Some s \<Rightarrow> if s < 1 then size_places s else 0 | None \<Rightarrow> 0)"

definition bn_instrument_specs :: "(string \<times> bn_spec) list \<Rightarrow> (string \<times> rat \<times> nat) list" where
  "bn_instrument_specs cache = map (\<lambda>(s, i). (s, bn_instrument_spec i)) cache"

definition bn_list_instruments :: "(string \<times> bn_spec) list \<Rightarrow> string list" where
  "bn_list_instruments cache = sort (remdups (map fst cache))"

section \<open>The quantity that is sent\<close>

text \<open>No symbol is cached with zero decimals, so stripping the zeros never eats a digit of the integer part.\<close>

lemma spec_precision_pos:
  "bn_spec_of s = Inr i \<Longrightarrow> sy_quantity_precision s = Num (of_nat q) \<Longrightarrow> 0 < bs_quantity_precision i"
  by (auto simp: bn_spec_of_def precision_of_def py_int_def split: sum.splits if_splits)

text \<open>
  C38. The quantity of an order is the largest number of whole steps in the size asked for: it is
  never more, less than one step less, and the text the exchange parses is that number.
\<close>

theorem sent_quantity_steps:
  assumes "bn_spec_of row = Inr i" "sy_quantity_precision row = Num (of_nat q)" "bs_step i = Some s" "0 < s"
    and "s * 10 ^ bs_quantity_precision i = of_int m" "0 \<le> v"
  shows "text_value (fmt_qty (Some i) v) = of_int \<lfloor>v / s\<rfloor> * s \<and>
    text_value (fmt_qty (Some i) v) \<le> v \<and> v < text_value (fmt_qty (Some i) v) + s"
proof -
  let ?p = "bs_quantity_precision i"
  have pos: "0 < ?p" by (rule spec_precision_pos [OF assms(1,2)])
  define k where "k = \<lfloor>v / s\<rfloor>"
  have k0: "0 \<le> k" using assms(4,6) by (simp add: k_def)
  have "\<not> v / s < 0" using assms(4,6) by (simp add: not_less)
  then have "py_int (v / s) = k" by (simp only: py_int_def k_def if_False)
  then have rs: "round_step v (Some s) ?p = of_int k * s" using assms(4) by (simp add: round_step_def)
  have "of_int k * s * 10 ^ ?p = of_int (k * m)" using assms(5) by (simp add: mult.assoc)
  then have whole: "py_round (of_int k * s) ?p = of_int k * s" by (rule py_round_whole)
  have "text_value (strip_zeros (fixed_text ?p (of_int k * s))) = of_int k * s"
    using strip_fixed_text [OF pos, of "of_int k * s"] whole k0 assms(4) by simp
  then have val: "text_value (fmt_qty (Some i) v) = of_int k * s"
    using assms(3) rs by (auto simp: fmt_qty_def Let_def text_value_def unsigned_value_def digits_value_def)
  have "of_int k \<le> v / s" "v / s < of_int k + 1" unfolding k_def by linarith+
  then have "of_int k * s \<le> v" "v < (of_int k + 1) * s"
    using assms(4) by (simp_all add: le_divide_eq divide_less_eq)
  then show ?thesis using val by (simp add: k_def [symmetric] distrib_right)
qed

section \<open>What an order sends\<close>

definition opposite_side :: "string \<Rightarrow> string" where
  "opposite_side side = (if py_lower side = ''buy'' then ''sell'' else ''buy'')"

lemma place_trigger_shape:
  assumes "bn_place_trigger_orders E symbol side tp sl w = ((ok, placed), w')"
  shows "\<exists>ps. bw_posts w' = bw_posts w @ ps \<and>
    (\<forall>p\<in>set ps. \<exists>otype px. p = Bn_order (close_trigger E symbol side otype px))"
proof -
  have "bw_posts w' = bw_posts w @ map (\<lambda>(otype, px). Bn_order (close_trigger E symbol side otype px))
      ((case tp of None \<Rightarrow> [] | Some px \<Rightarrow> [(''TAKE_PROFIT_MARKET'', px)]) @ (case sl of None \<Rightarrow> [] | Some px \<Rightarrow> [(''STOP_MARKET'', px)]))"
    using assms by (cases tp; cases sl) (auto simp: bn_place_trigger_orders_def Let_def)
  then show ?thesis by (intro exI conjI) (assumption, auto split: option.splits)
qed

lemma stop_attached:
  assumes "bn_place_trigger_orders E symbol side tp (Some sl) w = ((True, placed), w')"
  shows "\<exists>posts a. bw_posts w' = posts @ [Bn_order (close_trigger E symbol side ''STOP_MARKET'' sl)] \<and>
    be_post E posts (Bn_order (close_trigger E symbol side ''STOP_MARKET'' sl)) = Bn_body a"
proof (cases tp)
  case None
  then show ?thesis
    using assms by (intro exI [of _ "bw_posts w"]) (auto simp: bn_place_trigger_orders_def Let_def split: bn_reply.splits)
next
  case (Some px)
  then show ?thesis
    using assms by (intro exI [of _ "bw_posts w @ [Bn_order (close_trigger E symbol side ''TAKE_PROFIT_MARKET'' px)]"])
      (auto simp: bn_place_trigger_orders_def Let_def split: bn_reply.splits)
qed

lemma protect_entry_posts:
  assumes "protect_entry E rq r w = (r', w')"
  shows "\<exists>ps. bw_posts w' = bw_posts w @ ps \<and>
    (ps = [] \<or> \<not> is_close_signal (xo_signal rq)) \<and>
    (\<forall>p\<in>set ps. \<exists>otype px. p = Bn_order (close_trigger E (xo_symbol rq) (opposite_side (xo_side rq)) otype px))"
proof (cases "is_close_signal (xo_signal rq) \<or> nonzero_price (xo_tp_price rq) = None \<and> nonzero_price (xo_sl_price rq) = None")
  case True
  then show ?thesis using assms by (simp add: protect_entry_def)
next
  case False
  obtain ok placed w1 where t: "bn_place_trigger_orders E (xo_symbol rq) (opposite_side (xo_side rq))
      (nonzero_price (xo_tp_price rq)) (nonzero_price (xo_sl_price rq)) w = ((ok, placed), w1)"
    by (metis surj_pair)
  have "w1 = w'" using assms False t by (simp add: protect_entry_def opposite_side_def [symmetric])
  then show ?thesis using place_trigger_shape [OF t] False by blast
qed

lemma place_entry_cases:
  assumes "place_entry E rq w = (r, w')"
  obtains (no_order) "w' = w" "\<not> xr_success r"
  | (failed) b qty where "bw_posts w' = bw_posts w @ [Bn_order b]" "entry_order E rq qty = Inr b" "\<not> xr_success r"
  | (sent) b qty a w1 where "bw_posts w1 = bw_posts w @ [Bn_order b]" "entry_order E rq qty = Inr b"
      "be_post E (bw_posts w) (Bn_order b) = Bn_body a"
      "protect_entry E rq (ack_result E (bw_posts w1) (xo_symbol rq) a) w1 = (r, w')"
proof -
  let ?q = "fmt_qty (be_spec E (xo_symbol rq)) (xo_size rq)"
  show ?thesis
  proof (cases "text_value ?q \<le> 0 \<or> (\<exists>e. entry_order E rq ?q = Inl e)")
    case True
    then show ?thesis using assms no_order by (auto simp: place_entry_def Let_def split: if_splits)
  next
    case False
    then obtain b where b: "entry_order E rq ?q = Inr b" by (cases "entry_order E rq ?q") auto
    define w1 where "w1 = bn_send (Bn_order b) w"
    have w1: "bw_posts w1 = bw_posts w @ [Bn_order b]" by (simp add: w1_def)
    show ?thesis
    proof (cases "be_post E (bw_posts w) (Bn_order b)")
      case (Bn_raised m)
      then show ?thesis using assms False b w1 failed by (auto simp: place_entry_def Let_def)
    next
      case (Bn_error m)
      then show ?thesis using assms False b w1 failed by (auto simp: place_entry_def Let_def)
    next
      case (Bn_body a)
      then have e: "(r, w') = (if xr_success (ack_result E (bw_posts w1) (xo_symbol rq) a)
          then protect_entry E rq (ack_result E (bw_posts w1) (xo_symbol rq) a) w1
          else (ack_result E (bw_posts w1) (xo_symbol rq) a, w1))"
        using assms False b by (auto simp: place_entry_def Let_def w1_def split: if_splits)
      show ?thesis
      proof (cases "xr_success (ack_result E (bw_posts w1) (xo_symbol rq) a)")
        case True
        then show ?thesis using e w1 b Bn_body sent by simp
      next
        case bad: False
        then show ?thesis using e w1 b failed by simp
      qed
    qed
  qed
qed

text \<open>Leverage and margin type are set, the entry follows, and after it only triggers of the other side.\<close>

lemma bn_submit_posts:
  assumes "bn_submit_order E rq w = (r, w')"
  obtains (none) "bw_posts w' = bw_posts w" "\<not> xr_success r"
  | (entry) w1 ps where "bw_posts w1 = bw_posts w @ ps" "list_all (\<lambda>p. \<forall>b. p \<noteq> Bn_order b) ps"
      "place_entry E rq w1 = (r, w')"
proof -
  obtain e w1 where cpm: "check_position_mode E w = (e, w1)" by fastforce
  have same: "bw_posts w1 = bw_posts w"
    using cpm by (auto simp: check_position_mode_def split: if_splits bn_reply.splits bool.splits)
  show ?thesis
  proof (cases "e = None \<and> \<not> (bn_max_leverage E (xo_symbol rq) \<noteq> 0 \<and> bn_max_leverage E (xo_symbol rq) < or_ten (xo_leverage rq))")
    case True
    define w2 where "w2 = bn_set_leverage (xo_symbol rq) (or_ten (xo_leverage rq))
      (bn_set_margin_type (xo_symbol rq) (or_isolated (xo_margin_mode rq)) w1)"
    have "place_entry E rq w2 = (r, w')" using assms cpm True by (auto simp: bn_submit_order_def w2_def Let_def)
    moreover have "\<exists>ps. bw_posts w2 = bw_posts w @ ps \<and> list_all (\<lambda>p. \<forall>b. p \<noteq> Bn_order b) ps"
      by (auto simp: w2_def bn_set_leverage_def bn_set_margin_type_def same)
    ultimately show ?thesis using entry by blast
  next
    case False
    then show ?thesis using assms cpm same none by (cases e) (auto simp: bn_submit_order_def Let_def)
  qed
qed

text \<open>The orders among the posts.\<close>

definition bn_orders :: "bn_post list \<Rightarrow> bn_order list" where
  "bn_orders posts = List.map_filter (\<lambda>p. case p of Bn_order b \<Rightarrow> Some b | _ \<Rightarrow> None) posts"

lemma bn_orders_append [simp]: "bn_orders (xs @ ys) = bn_orders xs @ bn_orders ys"
  by (simp add: bn_orders_def List.map_filter_def)

lemma bn_orders_quiet [simp]: "list_all (\<lambda>p. \<forall>b. p \<noteq> Bn_order b) ps \<Longrightarrow> bn_orders ps = []"
  by (auto simp: bn_orders_def List.map_filter_def list_all_iff filter_empty_conv split: bn_post.splits)

lemma bn_orders_Cons [simp]: "bn_orders (Bn_order b # ps) = b # bn_orders ps" "bn_orders [] = []"
  by (simp_all add: bn_orders_def List.map_filter_def)

lemma bn_orders_of: "b \<in> set (bn_orders ps) \<Longrightarrow> Bn_order b \<in> set ps"
  by (auto simp: bn_orders_def List.map_filter_def split: bn_post.splits)

definition is_entry_of :: "exec_order \<Rightarrow> bn_order \<Rightarrow> bool" where
  "is_entry_of rq b \<longleftrightarrow> bo_symbol b = xo_symbol rq \<and> bo_side b = py_upper (xo_side rq) \<and>
     (bo_reduce_only b \<longleftrightarrow> is_close_signal (xo_signal rq)) \<and> \<not> bo_close_position b \<and>
     (bo_type b = ''LIMIT'' \<longrightarrow> bo_time_in_force b = Some (if is_close_signal (xo_signal rq) then ''GTC'' else ''GTX''))"

lemma entry_order_shape: "entry_order E rq qty = Inr b \<Longrightarrow> is_entry_of rq b"
  by (auto simp: entry_order_def is_entry_of_def Let_def split: if_splits option.splits)

text \<open>
  An order puts at most one order on the book that can open or grow a position: the entry
  itself, with the side of the request, reduce-only exactly when the signal closes, post-only
  when it is a resting entry. Everything else it places closes the position from the other
  side, and a closing order places nothing else.
\<close>

theorem binance_orders_placed:
  assumes "bn_submit_order E rq w = (r, w')"
  shows "\<exists>os. bn_orders (bw_posts w') = bn_orders (bw_posts w) @ os \<and>
    (os = [] \<and> \<not> xr_success r \<or>
     (\<exists>b ts. os = b # ts \<and> is_entry_of rq b \<and> (is_close_signal (xo_signal rq) \<longrightarrow> ts = []) \<and>
        (\<forall>t\<in>set ts. bo_close_position t \<and> bo_side t = py_upper (opposite_side (xo_side rq)) \<and> bo_symbol t = xo_symbol rq)))"
  using assms
proof (cases rule: bn_submit_posts)
  case none
  then show ?thesis by simp
next
  case (entry w1 ps)
  have base: "bn_orders (bw_posts w1) = bn_orders (bw_posts w)" using entry by simp
  from entry(3) show ?thesis
  proof (cases rule: place_entry_cases)
    case no_order
    then show ?thesis using base by simp
  next
    case (failed b qty)
    then show ?thesis using base entry_order_shape by fastforce
  next
    case (sent b qty a w3)
    from protect_entry_posts [OF sent(4)] obtain qs where qs: "bw_posts w' = bw_posts w3 @ qs"
      "qs = [] \<or> \<not> is_close_signal (xo_signal rq)"
      "\<forall>p\<in>set qs. \<exists>otype px. p = Bn_order (close_trigger E (xo_symbol rq) (opposite_side (xo_side rq)) otype px)"
      by blast
    have "bo_close_position t \<and> bo_side t = py_upper (opposite_side (xo_side rq)) \<and> bo_symbol t = xo_symbol rq"
      if "t \<in> set (bn_orders qs)" for t
      using bn_orders_of [OF that] qs(3) by (auto simp: close_trigger_def)
    moreover have "bn_orders (bw_posts w') = bn_orders (bw_posts w) @ b # bn_orders qs"
      using qs(1) sent(1) base by simp
    moreover have "is_close_signal (xo_signal rq) \<longrightarrow> bn_orders qs = []" using qs(2) by auto
    ultimately show ?thesis using entry_order_shape [OF sent(2)] by blast
  qed
qed

section \<open>Unprotected entries\<close>

text \<open>
  C30. An entry whose stop did not attach never reads as a clean success: when an order that asks
  for a stop succeeds without an error message, the exchange accepted a stop-market trigger at
  that price which closes the whole position from the other side.
\<close>

theorem clean_entry_is_protected:
  assumes "bn_submit_order E rq w = (r, w')" "xr_success r" "xr_error_msg r = None"
    and "\<not> is_close_signal (xo_signal rq)" "xo_sl_price rq = Some sl" "sl \<noteq> 0"
  shows "\<exists>posts rest a. bw_posts w' = posts @ Bn_order (close_trigger E (xo_symbol rq) (opposite_side (xo_side rq)) ''STOP_MARKET'' sl) # rest \<and>
    be_post E posts (Bn_order (close_trigger E (xo_symbol rq) (opposite_side (xo_side rq)) ''STOP_MARKET'' sl)) = Bn_body a"
  using assms(1)
proof (cases rule: bn_submit_posts)
  case none
  then show ?thesis using assms(2) by simp
next
  case (entry w1 ps)
  from entry(3) show ?thesis
  proof (cases rule: place_entry_cases)
    case (sent b qty a w3)
    let ?tp = "nonzero_price (xo_tp_price rq)" and ?side = "opposite_side (xo_side rq)"
    have sl: "nonzero_price (xo_sl_price rq) = Some sl" using assms(5,6) by (simp add: nonzero_price_def)
    obtain ok placed w4 where t: "bn_place_trigger_orders E (xo_symbol rq) ?side ?tp (Some sl) w3 = ((ok, placed), w4)"
      by (metis surj_pair)
    then have "w4 = w' \<and> ok"
      using sent(4) assms(3,4) sl by (auto simp: protect_entry_def opposite_side_def [symmetric] split: if_splits)
    then show ?thesis using stop_attached [of E "xo_symbol rq" ?side ?tp sl w3 placed w'] t by auto
  qed (use assms(2) in simp_all)
qed

section \<open>Amending\<close>

text \<open>An amend that fails has cancelled nothing: at most the amend itself was sent, and the exchange refused it.\<close>

theorem failed_amend_keeps_order:
  assumes "bn_amend_order E symbol oid new_price new_size w = (Bn_not_amended m, w')"
  shows "w' = w \<or> (\<exists>side qty px. w' = bn_send (Bn_amend symbol oid side qty px) w \<and>
    (\<forall>a. be_post E (bw_posts w) (Bn_amend symbol oid side qty px) \<noteq> Bn_body a))"
proof (cases "be_order E (bw_posts w) symbol oid")
  case (Bn_body r)
  define p where "p = Bn_amend symbol oid (py_upper (br_side r)) (fmt_qty (be_spec E symbol) (case new_size of Some x \<Rightarrow> x | None \<Rightarrow> br_orig_qty r))
    (fmt_price (be_spec E symbol) (case new_price of Some x \<Rightarrow> x | None \<Rightarrow> br_price r))"
  show ?thesis
  proof (cases "w' = w")
    case False
    then have "w' = bn_send p w" "\<forall>a. be_post E (bw_posts w) p \<noteq> Bn_body a"
      using assms Bn_body by (auto simp: bn_amend_order_def p_def Let_def split: if_splits bn_reply.splits)
    then show ?thesis unfolding p_def by blast
  qed simp
qed (use assms in \<open>simp_all add: bn_amend_order_def split: if_splits\<close>)

section \<open>Closes at break-even\<close>

text \<open>
  A close is recognised by the result it realised, so a position that closed exactly at its
  entry price is not found, however many of its trades the exchange lists.
\<close>

theorem breakeven_close_unseen:
  assumes "be_trades E posts symbol None since = Bn_body ts" "\<And>t. t \<in> set ts \<Longrightarrow> td_pnl t = 0"
  shows "bn_closed_details E posts symbol since = None"
proof -
  have "filter (\<lambda>t. td_pnl t \<noteq> 0) ts = []" using assms(2) by (simp add: filter_empty_conv)
  then show ?thesis using assms(1) by (simp add: bn_closed_details_def bn_trades_def)
qed

section \<open>Moving stops\<close>

text \<open>The adapter as \<open>modify_stops\<close> sees it; its state follows from the history of the calls.\<close>

definition bn_after_event :: "binance_env \<Rightarrow> string \<Rightarrow> bn_world \<Rightarrow> stop_event \<Rightarrow> bn_world" where
  "bn_after_event E symbol w ev =
     (case ev of
        Read a \<Rightarrow> w
      | Cancelled oid a \<Rightarrow> snd (bn_cancel_order E symbol oid w)
      | Placed q a \<Rightarrow> snd (bn_place_trigger_orders E (pq_symbol q) (pq_side q) (pq_tp q) (pq_sl q) w))"

definition bn_world_after :: "binance_env \<Rightarrow> string \<Rightarrow> bn_world \<Rightarrow> history \<Rightarrow> bn_world" where
  "bn_world_after E symbol w h = foldl (bn_after_event E symbol) w h"

definition binance_stops :: "binance_env \<Rightarrow> string \<Rightarrow> string \<Rightarrow> bn_world \<Rightarrow> stops_env" where
  "binance_stops E symbol account_mode w =
     \<lparr>se_adapter = (\<lambda>_. Inr \<lparr>ad_kind = exchange_kind.Binance, ad_mode = account_mode, ad_position_mode = ''net''\<rparr>),
      se_positions = (case bn_open_positions E (bw_posts w) of Inl e \<Rightarrow> Inl e | Inr ps \<Rightarrow> Inr (map venue_holding.truncate ps)),
      se_triggers = (\<lambda>inst side h. Inr (bn_list_trigger_orders E (bw_posts (bn_world_after E symbol w h)) inst)),
      se_cancel = (\<lambda>inst oid h. Inr (fst (bn_cancel_order E symbol oid (bn_world_after E symbol w h)))),
      se_place = (\<lambda>q h. Inr (snd (fst (bn_place_trigger_orders E (pq_symbol q) (pq_side q) (pq_tp q) (pq_sl q)
                                      (bn_world_after E symbol w h)))))\<rparr>"

interpretation bn_venue: stop_venue "binance_stops E symbol account_mode w" for E symbol account_mode w
  by unfold_locales (simp_all add: binance_stops_def)

text \<open>
  Moving the stops of a Binance position answers with an outcome: when the positions can be
  read, no exception of the adapter ends it between cancelling and placing.
\<close>

theorem binance_stops_answer:
  assumes "modify_stops (binance_stops E symbol mode w) account rq = (ans, h)" "bn_open_positions E (bw_posts w) = Inr ps"
  shows "sn_error ans \<noteq> Some (Stops_raised m)"
  by (rule bn_venue.never_raises [OF assms(1)]) (simp_all add: binance_stops_def assms(2))

section \<open>A demonstration\<close>

definition demo_bn_row :: bn_symbol_row where
  "demo_bn_row = \<lparr>sy_symbol = ''DOGEUSDT'', sy_contract_type = ''PERPETUAL'', sy_status = ''TRADING'', sy_quote = ''USDT'',
     sy_tick = Num (1 / 10), sy_step = Num (1 / 1000), sy_min_qty = Num (1 / 1000), sy_price_precision = Num 1,
     sy_quantity_precision = Num (of_nat 3)\<rparr>"

definition demo_bn_spec :: bn_spec where
  "demo_bn_spec = \<lparr>bs_tick = Some (1 / 10), bs_step = Some (1 / 1000), bs_min_qty = 1 / 1000, bs_price_precision = 1,
     bs_quantity_precision = 3\<rparr>"

definition demo_binance :: binance_env where
  "demo_binance =
     \<lparr>be_spec = (\<lambda>_. Some demo_bn_spec), be_brackets = (\<lambda>_. [\<lparr>bk_leverage = 20, bk_floor = 0, bk_ratio = 1 / 100\<rparr>]),
      be_dual = (\<lambda>_. Bn_body False),
      be_post = (\<lambda>posts p. case p of
                   Bn_order b \<Rightarrow> Bn_body \<lparr>ba_order_id = ''B1'', ba_status = ''FILLED'', ba_avg_price = 4, ba_executed = 1 / 1000\<rparr>
                 | _ \<Rightarrow> Bn_raised ''HTTP 400''),
      be_trades = (\<lambda>_ _ _ _. Bn_body [\<lparr>td_price = 4, td_qty = 1 / 1000, td_pnl = 0, td_commission = 1 / 100, td_time = 5\<rparr>]),
      be_positions = (\<lambda>_ _. Bn_body []),
      be_order = (\<lambda>_ _ oid. Bn_body \<lparr>br_oid = oid, br_symbol = ''DOGEUSDT'', br_type = ''LIMIT'', br_side = ''BUY'', br_price = 3,
                    br_orig_qty = 1 / 1000, br_executed_qty = 0, br_stop_price = No_px, br_time = 1\<rparr>),
      be_open_orders = (\<lambda>_ _. Bn_raised ''timeout''), be_all_orders = (\<lambda>_ _ _. Bn_body []),
      be_account = (\<lambda>_. Bn_body (Num 100, Num 50, Missing)), be_mark = (\<lambda>_. Bn_body (Num 4)), be_klines = (\<lambda>_. Bn_body [])\<rparr>"

definition demo_bn_request :: exec_order where
  "demo_bn_request = \<lparr>xo_order_id = ''1'', xo_account_id = ''A'', xo_symbol = ''DOGEUSDT'', xo_side = ''buy'', xo_signal = ''open_long'',
     xo_order_type = ''market'', xo_size = 19 / 10000, xo_price = None, xo_leverage = Some 5, xo_margin_mode = None,
     xo_tp_price = None, xo_sl_price = Some 2, xo_signal_log_id = None\<rparr>"

definition fresh_binance :: bn_world where
  "fresh_binance = \<lparr>bw_posts = [], bw_mode_checked = False\<rparr>"

theorem sent_quantity_steps_witness: "text_value (fmt_qty (Some demo_bn_spec) (19 / 10000)) = 1 / 1000"
proof -
  have spec: "bn_spec_of demo_bn_row = Inr demo_bn_spec" by code_simp
  have "\<lfloor>19 / 10000 / (1 / 1000) :: rat\<rfloor> = 1" by code_simp
  then show ?thesis
    using sent_quantity_steps [OF spec, of 3 "1 / 1000" 1 "19 / 10000"] by (simp add: demo_bn_row_def demo_bn_spec_def)
qed

definition demo_bn_run :: "exec_result \<times> bn_world" where
  "demo_bn_run = bn_submit_order demo_binance demo_bn_request fresh_binance"

lemma demo_bn_run_result: "xr_success (fst demo_bn_run)" "xr_error_msg (fst demo_bn_run) = None"
  by code_simp+

theorem binance_orders_placed_witness:
  "\<exists>b ts. bn_orders (bw_posts (snd demo_bn_run)) = b # ts \<and> is_entry_of demo_bn_request b \<and> \<not> bo_reduce_only b \<and> list_all bo_close_position ts"
proof -
  obtain r w' where run: "bn_submit_order demo_binance demo_bn_request fresh_binance = (r, w')" by fastforce
  have ok: "xr_success r" using demo_bn_run_result(1) by (simp add: demo_bn_run_def run)
  have "bn_orders (bw_posts fresh_binance) = []" "\<not> is_close_signal (xo_signal demo_bn_request)" by code_simp+
  then show ?thesis
    using binance_orders_placed [OF run] ok by (auto simp: demo_bn_run_def run is_entry_of_def list_all_iff)
qed

theorem clean_entry_is_protected_witness:
  "\<exists>posts rest. bw_posts (snd demo_bn_run) =
     posts @ Bn_order (close_trigger demo_binance ''DOGEUSDT'' ''sell'' ''STOP_MARKET'' 2) # rest"
proof -
  obtain r w' where run: "bn_submit_order demo_binance demo_bn_request fresh_binance = (r, w')" by fastforce
  have ok: "xr_success r" "xr_error_msg r = None" using demo_bn_run_result by (simp_all add: demo_bn_run_def run)
  have "\<not> is_close_signal (xo_signal demo_bn_request)" "opposite_side (xo_side demo_bn_request) = ''sell''" by code_simp+
  then show ?thesis
    using clean_entry_is_protected [OF run ok, of 2] by (auto simp: demo_bn_run_def run) (auto simp: demo_bn_request_def)
qed

theorem failed_amend_keeps_order_witness:
  "\<exists>side qty px. snd (bn_amend_order demo_binance ''DOGEUSDT'' ''B7'' (Some 3) None fresh_binance) =
     bn_send (Bn_amend ''DOGEUSDT'' ''B7'' side qty px) fresh_binance"
proof -
  have run: "bn_amend_order demo_binance ''DOGEUSDT'' ''B7'' (Some 3) None fresh_binance =
      (Bn_not_amended ''HTTP 400'', snd (bn_amend_order demo_binance ''DOGEUSDT'' ''B7'' (Some 3) None fresh_binance))"
    by code_simp
  have "snd (bn_amend_order demo_binance ''DOGEUSDT'' ''B7'' (Some 3) None fresh_binance) \<noteq> fresh_binance"
    by code_simp
  then show ?thesis using failed_amend_keeps_order [OF run] by blast
qed

theorem breakeven_close_unseen_witness: "bn_closed_details demo_binance [] ''DOGEUSDT'' (Some 0) = None"
  by (rule breakeven_close_unseen
      [where ts = "[\<lparr>td_price = 4, td_qty = 1 / 1000, td_pnl = 0, td_commission = 1 / 100, td_time = 5\<rparr>]"])
    (simp_all add: demo_binance_def)

definition demo_bn_move :: "stops_answer \<times> history" where
  "demo_bn_move = modify_stops (binance_stops demo_binance ''DOGEUSDT'' ''live'' fresh_binance) ''A''
     \<lparr>mr_symbol = ''DOGEUSDT'', mr_side = ''long'', mr_tp = None, mr_sl = Some 2, mr_clear_tp = False, mr_clear_sl = False\<rparr>"

theorem binance_stops_answer_witness: "sn_error (fst demo_bn_move) \<noteq> Some (Stops_raised ''timeout'')"
proof -
  obtain ans h where run: "demo_bn_move = (ans, h)" by fastforce
  have "bn_open_positions demo_binance (bw_posts fresh_binance) = Inr []" by code_simp
  then show ?thesis using binance_stops_answer [OF run [unfolded demo_bn_move_def]] by (simp add: run)
qed

end
