(* ===== verification/Hyperliquid.thy ===== *)
theory Hyperliquid
  imports Venue StopsSafety
begin

text \<open>
  The Hyperliquid adapter: \<open>order-executor/app/adapters/hyperliquid.py\<close>. The exchange is a
  parameter: its answer may depend on the signed actions sent before. Signing is outside the
  model. The adapter keeps the list of assets once it has been read; a symbol that is not in
  it drops the list. Absent figures of a reply read as zero.
\<close>

section \<open>Replies and actions\<close>

datatype 'a hl_read = Hl_failed string | Hl_read 'a

datatype order_kind = Limit_tif string | Trigger_at string string

record hl_order =
  ho_asset :: nat
  ho_buy :: bool
  ho_price :: string
  ho_size :: string
  ho_reduce_only :: bool
  ho_kind :: order_kind

datatype hl_post =
    Hl_leverage nat int bool
  | Hl_orders "hl_order list" string
  | Hl_cancel nat int
  | Hl_modify int hl_order

text \<open>The status of one order of an action.\<close>

datatype hl_status =
    St_text string
  | St_error string
  | St_filled string "rat option" "rat option"
  | St_resting string
  | St_other

datatype hl_response = Resp_text string | Resp_statuses "hl_status list"

datatype hl_reply = Hl_http_error string | Hl_replied bool hl_response

record hl_asset =
  ha_name :: string
  ha_sz_decimals :: nat
  ha_max_leverage :: int
  ha_margin_table :: int

record hl_position_row =
  hp_coin :: string
  hp_szi :: rat
  hp_entry :: rat
  hp_leverage :: int
  hp_liq :: "rat option"

record hl_fill =
  hf_oid :: int
  hf_coin :: string
  hf_dir :: string
  hf_pnl :: rat
  hf_fee :: rat
  hf_px :: rat
  hf_sz :: rat
  hf_time :: int

record hl_open_row =
  hr_oid :: int
  hr_coin :: string
  hr_side :: string
  hr_limit_px :: rat
  hr_orig_sz :: rat
  hr_sz :: rat
  hr_is_trigger :: bool
  hr_reduce_only :: bool
  hr_order_type :: string
  hr_tpsl :: "string option"
  hr_trigger_px :: raw_px
  hr_timestamp :: int

record spot_entry =
  se_coin :: string
  se_token :: int
  se_total :: rat
  se_hold :: rat

record hyperliquid_env =
  he_meta :: "hl_post list \<Rightarrow> hl_asset list hl_read"
  he_marks :: "hl_post list \<Rightarrow> rat list hl_read"
  he_post :: "hl_post list \<Rightarrow> hl_post \<Rightarrow> hl_reply"
  he_positions :: "hl_post list \<Rightarrow> hl_position_row list hl_read"
  he_fills :: "hl_post list \<Rightarrow> hl_fill list hl_read"
  he_open_orders :: "hl_post list \<Rightarrow> nat \<Rightarrow> hl_open_row list hl_read"
  he_margin_tiers :: "int \<Rightarrow> tier_row list hl_read"
  he_perp :: "(rat \<times> rat \<times> rat) hl_read"
  he_spot :: "spot_entry list hl_read"
  he_candles :: "string \<Rightarrow> string \<Rightarrow> int \<Rightarrow> int \<Rightarrow> venue_candle list hl_read"
  he_slippage_pct :: "exec_order \<Rightarrow> rat"

record hl_world =
  hw_posts :: "hl_post list"
  hw_assets :: "hl_asset list option"

definition hl_send :: "hl_post \<Rightarrow> hl_world \<Rightarrow> hl_world" where
  "hl_send p w = w\<lparr>hw_posts := hw_posts w @ [p]\<rparr>"

lemma hl_send_simps [simp]:
  "hw_posts (hl_send p w) = hw_posts w @ [p]" "hw_assets (hl_send p w) = hw_assets w"
  by (simp_all add: hl_send_def)

text \<open>\<open>xs[-n:]\<close>: for \<open>0\<close> the whole list, for a negative \<open>n\<close> what follows the first ones.\<close>

definition py_tail :: "int \<Rightarrow> 'a list \<Rightarrow> 'a list" where
  "py_tail n xs = (if n \<le> 0 then drop (nat (- n)) xs else drop (length xs - nat n) xs)"

section \<open>Prices and sizes on the wire\<close>

text \<open>Five significant digits, but never fewer than the integer part.\<close>

definition round_price :: "rat \<Rightarrow> rat" where
  "round_price price =
     (if price = 0 then 0 else py_round price (nat (4 - decimal_exponent \<bar>price\<bar>)))"

definition float_to_wire :: "rat \<Rightarrow> string" where
  "float_to_wire x = (if x = 0 then ''0'' else strip_zeros (fixed_text 8 x))"

definition sz_decimals :: "hl_world \<Rightarrow> string \<Rightarrow> nat" where
  "sz_decimals w symbol =
     (case hw_assets w of
        None \<Rightarrow> 4
      | Some assets \<Rightarrow> (case map_of (rev (map (\<lambda>a. (ha_name a, ha_sz_decimals a)) assets)) (coin_of symbol) of None \<Rightarrow> 4 | Some d \<Rightarrow> d))"

definition round_size :: "hl_world \<Rightarrow> string \<Rightarrow> rat \<Rightarrow> rat" where
  "round_size w symbol amount = py_round amount (sz_decimals w symbol)"

section \<open>Assets\<close>

definition asset_index :: "hl_asset list \<Rightarrow> string \<Rightarrow> nat option" where
  "asset_index assets coin = map_of (rev (zip (map ha_name assets) [0..<length assets])) coin"

text \<open>Read once; an unknown coin raises and forgets the list.\<close>

definition get_asset_index :: "hyperliquid_env \<Rightarrow> string \<Rightarrow> hl_world \<Rightarrow> (string + nat) \<times> hl_world" where
  "get_asset_index E symbol w =
     (case (case hw_assets w of
              Some assets \<Rightarrow> Inr assets
            | None \<Rightarrow> (case he_meta E (hw_posts w) of Hl_failed m \<Rightarrow> Inl m | Hl_read assets \<Rightarrow> Inr assets)) of
        Inl m \<Rightarrow> (Inl m, w)
      | Inr assets \<Rightarrow>
          (case asset_index assets (coin_of symbol) of
             None \<Rightarrow> (Inl ''Asset not found in Hyperliquid universe'', w\<lparr>hw_assets := None\<rparr>)
           | Some i \<Rightarrow> (Inr i, w\<lparr>hw_assets := Some assets\<rparr>)))"

definition coin_field :: "(hl_asset \<Rightarrow> int) \<Rightarrow> hl_world \<Rightarrow> string \<Rightarrow> int" where
  "coin_field f w symbol =
     (case hw_assets w of
        None \<Rightarrow> 0
      | Some assets \<Rightarrow> (case map_of (rev (map (\<lambda>a. (ha_name a, f a)) assets)) (coin_of symbol) of None \<Rightarrow> 0 | Some v \<Rightarrow> v))"

definition hl_max_leverage :: "hyperliquid_env \<Rightarrow> string \<Rightarrow> hl_world \<Rightarrow> int \<times> hl_world" where
  "hl_max_leverage E symbol w =
     (case get_asset_index E symbol w of
        (Inl m, w1) \<Rightarrow> (0, w1)
      | (Inr i, w1) \<Rightarrow> (coin_field ha_max_leverage w1 symbol, w1))"

text \<open>The rate of a tier from its maximum leverage, \<open>1 / (2 * leverage)\<close>.\<close>

definition hl_mmr :: "hyperliquid_env \<Rightarrow> string \<Rightarrow> rat \<Rightarrow> hl_world \<Rightarrow> rat option \<times> hl_world" where
  "hl_mmr E symbol notional w =
     (case get_asset_index E symbol w of
        (Inl m, w1) \<Rightarrow> (None, w1)
      | (Inr i, w1) \<Rightarrow>
         (let table = coin_field ha_margin_table w1 symbol
          in if table = 0 then (None, w1)
             else case he_margin_tiers E table of
                    Hl_failed m \<Rightarrow> (None, w1)
                  | Hl_read tiers \<Rightarrow>
                     (case applicable_tier tiers notional of
                        None \<Rightarrow> (None, w1)
                      | Some t \<Rightarrow> (if ti_rate t \<le> 0 then None else Some (1 / (2 * ti_rate t) + TIER_MMR_BUFFER), w1))))"

definition mark_of :: "hyperliquid_env \<Rightarrow> nat \<Rightarrow> hl_world \<Rightarrow> string + rat" where
  "mark_of E i w =
     (case he_marks E (hw_posts w) of
        Hl_failed m \<Rightarrow> Inl m
      | Hl_read marks \<Rightarrow>
          if length marks \<le> i then Inl ''Asset index out of bounds''
          else if marks ! i = 0 then Inl ''Could not fetch mark price''
          else Inr (marks ! i))"

definition hl_mark_price :: "hyperliquid_env \<Rightarrow> string \<Rightarrow> hl_world \<Rightarrow> rat option \<times> hl_world" where
  "hl_mark_price E symbol w =
     (case get_asset_index E symbol w of
        (Inl m, w1) \<Rightarrow> (None, w1)
      | (Inr i, w1) \<Rightarrow> (case mark_of E i w1 of Inl e \<Rightarrow> None | Inr v \<Rightarrow> if 0 < v then Some v else None, w1))"

section \<open>Fills\<close>

definition fill_data :: "hyperliquid_env \<Rightarrow> hl_post list \<Rightarrow> string \<Rightarrow> (rat \<times> rat) option" where
  "fill_data E posts oid =
     (case he_fills E posts of
        Hl_failed m \<Rightarrow> None
      | Hl_read fills \<Rightarrow>
          (case filter (\<lambda>f. show_int (hf_oid f) = oid) fills of
             [] \<Rightarrow> None
           | fs \<Rightarrow> Some (sum_list (map hf_pnl fs), sum_list (map hf_fee fs))))"

definition hl_fill_fee :: "hyperliquid_env \<Rightarrow> hl_post list \<Rightarrow> string \<Rightarrow> rat option" where
  "hl_fill_fee E posts oid = map_option snd (fill_data E posts oid)"

section \<open>Placing\<close>

text \<open>The price of the entry: a market order is an immediate limit order away from the mark.\<close>

definition hl_entry_price :: "hyperliquid_env \<Rightarrow> exec_order \<Rightarrow> nat \<Rightarrow> bool \<Rightarrow> hl_world \<Rightarrow> string + rat \<times> string" where
  "hl_entry_price E rq i reduce_only w =
     (if xo_order_type rq = ''market'' then
        (case mark_of E i w of
           Inl e \<Rightarrow> Inl e
         | Inr mark \<Rightarrow>
            (let slippage = he_slippage_pct E rq / 100
             in Inr (if xo_side rq = ''buy'' then mark * (1 + slippage) else mark * (1 - slippage), ''Ioc'')))
      else case xo_price rq of
             None \<Rightarrow> Inl ''Limit orders require a price''
           | Some p \<Rightarrow> Inr (p, if reduce_only then ''Gtc'' else ''Alo''))"

definition trigger_leg_order :: "nat \<Rightarrow> bool \<Rightarrow> string \<Rightarrow> string \<Rightarrow> rat \<Rightarrow> hl_order" where
  "trigger_leg_order i buy size_wire tpsl price =
     (let px = float_to_wire (round_price price)
      in \<lparr>ho_asset = i, ho_buy = buy, ho_price = px, ho_size = size_wire, ho_reduce_only = True, ho_kind = Trigger_at px tpsl\<rparr>)"

definition trigger_legs :: "nat \<Rightarrow> bool \<Rightarrow> string \<Rightarrow> rat option \<Rightarrow> rat option \<Rightarrow> hl_order list" where
  "trigger_legs i buy size_wire tp sl =
     (case tp of None \<Rightarrow> [] | Some p \<Rightarrow> [trigger_leg_order i buy size_wire ''tp'' p]) @
     (case sl of None \<Rightarrow> [] | Some p \<Rightarrow> [trigger_leg_order i buy size_wire ''sl'' p])"

definition order_group :: "exec_order \<Rightarrow> nat \<Rightarrow> bool \<Rightarrow> string \<Rightarrow> rat \<Rightarrow> string \<Rightarrow> hl_post" where
  "order_group rq i reduce_only size_wire price tif =
     (let buy = (xo_side rq = ''buy'');
          entry = \<lparr>ho_asset = i, ho_buy = buy, ho_price = float_to_wire (round_price price), ho_size = size_wire,
                   ho_reduce_only = reduce_only, ho_kind = Limit_tif tif\<rparr>;
          legs = (if reduce_only then [] else trigger_legs i (\<not> buy) size_wire (xo_tp_price rq) (xo_sl_price rq))
      in Hl_orders (entry # legs) (if legs = [] then ''na'' else ''normalTpsl''))"

text \<open>What the statuses say of the entry; those of its triggers are logged and dropped.\<close>

definition entry_result :: "hyperliquid_env \<Rightarrow> hl_post list \<Rightarrow> bool \<Rightarrow> rat \<Rightarrow> hl_status list \<Rightarrow> string + exec_result" where
  "entry_result E posts reduce_only amount statuses =
     (let filled_result = (\<lambda>oid avg sz.
        let r = (adapter_result True Exec_filled (if oid = [] then None else Some oid) None)
                  \<lparr>xr_actual_fill_price := (case avg of None \<Rightarrow> None | Some v \<Rightarrow> if v = 0 then None else Some v),
                   xr_actual_fill_size := Some (case sz of None \<Rightarrow> amount | Some z \<Rightarrow> if z = 0 then amount else z)\<rparr>
        in case (if oid = [] then None else fill_data E posts oid) of
             None \<Rightarrow> r
           | Some (pnl, fee) \<Rightarrow> r\<lparr>xr_fee := Some fee, xr_realized_pnl := (if reduce_only then Some pnl else None)\<rparr>)
      in case statuses of
           St_error m # _ \<Rightarrow> Inr (adapter_result False Exec_rejected None (Some m))
         | St_text t # _ \<Rightarrow> Inl ''AttributeError''
         | St_filled oid avg sz # _ \<Rightarrow> Inr (filled_result oid avg sz)
         | St_resting oid # _ \<Rightarrow> Inr (adapter_result True Exec_pending (if oid = [] then None else Some oid) None)
         | _ \<Rightarrow> Inr (filled_result [] None None))"

definition hl_place_order ::
  "hyperliquid_env \<Rightarrow> exec_order \<Rightarrow> nat \<Rightarrow> bool \<Rightarrow> hl_world \<Rightarrow> (string + exec_result) \<times> hl_world" where
  "hl_place_order E rq i reduce_only w =
     (case hl_entry_price E rq i reduce_only w of
        Inl e \<Rightarrow> (Inl e, w)
      | Inr (price, tif) \<Rightarrow>
         (let amount = round_size w (xo_symbol rq) (xo_size rq)
          in if amount \<le> 0 then (Inr (adapter_result False Exec_rejected None (Some ''Order size rounds to 0'')), w)
             else
               (let p = order_group rq i reduce_only (float_to_wire amount) price tif
                in (case he_post E (hw_posts w) p of
                      Hl_http_error m \<Rightarrow> Inl m
                    | Hl_replied ok (Resp_text t) \<Rightarrow> Inr (adapter_result False Exec_rejected None (Some t))
                    | Hl_replied ok (Resp_statuses statuses) \<Rightarrow> entry_result E (hw_posts w @ [p]) reduce_only amount statuses,
                    hl_send p w))))"

definition hl_update_leverage :: "hyperliquid_env \<Rightarrow> nat \<Rightarrow> int \<Rightarrow> string \<Rightarrow> hl_world \<Rightarrow> string option \<times> hl_world" where
  "hl_update_leverage E i leverage margin_mode w =
     (let p = Hl_leverage i leverage (py_lower (or_isolated (Some margin_mode)) \<noteq> ''isolated'')
      in (case he_post E (hw_posts w) p of
            Hl_http_error m \<Rightarrow> Some m
          | Hl_replied ok r \<Rightarrow> if ok then None else Some ''Hyperliquid updateLeverage failed'',
          hl_send p w))"

definition or_route_failed :: "(string + exec_result) \<times> hl_world \<Rightarrow> exec_result \<times> hl_world" where
  "or_route_failed x = (case x of (Inl e, w) \<Rightarrow> (adapter_result False Exec_route_failed None (Some e), w) | (Inr r, w) \<Rightarrow> (r, w))"

text \<open>An entry whose leverage cannot be set is not sent.\<close>

definition hl_submit_order :: "hyperliquid_env \<Rightarrow> exec_order \<Rightarrow> hl_world \<Rightarrow> exec_result \<times> hl_world" where
  "hl_submit_order E rq w =
     (case get_asset_index E (xo_symbol rq) w of
        (Inl e, w1) \<Rightarrow> (adapter_result False Exec_route_failed None (Some e), w1)
      | (Inr i, w1) \<Rightarrow>
         (if is_close_signal (xo_signal rq) then or_route_failed (hl_place_order E rq i True w1)
          else case hl_max_leverage E (xo_symbol rq) w1 of
                 (max_lev, w2) \<Rightarrow>
                   if max_lev \<noteq> 0 \<and> max_lev < or_one (xo_leverage rq) then
                     (adapter_result False Exec_rejected None (Some ''Requested leverage exceeds the maximum''), w2)
                   else case hl_update_leverage E i (or_one (xo_leverage rq)) (or_isolated (xo_margin_mode rq)) w2 of
                          (Some e, w3) \<Rightarrow> (adapter_result False Exec_route_failed None (Some e), w3)
                        | (None, w3) \<Rightarrow> or_route_failed (hl_place_order E rq i False w3)))"

section \<open>Positions and closes\<close>

definition hl_position :: "hl_position_row \<Rightarrow> position_report" where
  "hl_position p =
     \<lparr>op_symbol = hp_coin p @ ''-USDT'', op_side = (if 0 < hp_szi p then ''long'' else ''short''), op_size = \<bar>hp_szi p\<bar>,
      bp_entry_price = hp_entry p, bp_leverage = hp_leverage p, bp_liquidation = hp_liq p\<rparr>"

definition hl_open_positions :: "hyperliquid_env \<Rightarrow> hl_post list \<Rightarrow> string + position_report list" where
  "hl_open_positions E posts =
     (case he_positions E posts of
        Hl_failed m \<Rightarrow> Inl ''ExchangeUnavailableError''
      | Hl_read rows \<Rightarrow> Inr (map hl_position (filter (\<lambda>p. hp_szi p \<noteq> 0) rows)))"

definition hl_close_order :: "string \<Rightarrow> string \<Rightarrow> rat \<Rightarrow> exec_order" where
  "hl_close_order symbol side amount =
     \<lparr>xo_order_id = ''close'', xo_account_id = [], xo_symbol = symbol, xo_side = close_order_side side, xo_signal = ''close'',
      xo_order_type = ''market'', xo_size = amount, xo_price = None, xo_leverage = None, xo_margin_mode = None,
      xo_tp_price = None, xo_sl_price = None, xo_signal_log_id = None\<rparr>"

definition hl_close_position ::
  "hyperliquid_env \<Rightarrow> string \<Rightarrow> string \<Rightarrow> rat option \<Rightarrow> hl_world \<Rightarrow> exec_result \<times> hl_world" where
  "hl_close_position E symbol side amount w =
     (case hl_open_positions E (hw_posts w) of
        Inl e \<Rightarrow> (adapter_result False Exec_route_failed None (Some e), w)
      | Inr ps \<Rightarrow>
         (case List.find (\<lambda>p. op_symbol p = symbol \<and> op_side p = side) ps of
            None \<Rightarrow> (adapter_result False Exec_route_failed None (Some ''No open position found''), w)
          | Some target \<Rightarrow>
             (let close_size = (case amount of Some a \<Rightarrow> min a (op_size target) | None \<Rightarrow> op_size target)
              in case get_asset_index E symbol w of
                   (Inl e, w1) \<Rightarrow> (adapter_result False Exec_route_failed None (Some e), w1)
                 | (Inr i, w1) \<Rightarrow> or_route_failed (hl_place_order E (hl_close_order symbol side close_size) i True w1))))"

text \<open>All closing fills of the coin since then, summed.\<close>

definition is_close_fill :: "string \<Rightarrow> int option \<Rightarrow> hl_fill \<Rightarrow> bool" where
  "is_close_fill coin since f \<longleftrightarrow>
     hf_coin f = coin \<and> (occurs_in ''Close'' (hf_dir f) \<or> occurs_in ''Liq'' (hf_dir f)) \<and>
     (case since of None \<Rightarrow> True | Some t \<Rightarrow> t \<le> hf_time f)"

definition hl_closed_details :: "hyperliquid_env \<Rightarrow> hl_post list \<Rightarrow> string \<Rightarrow> int option \<Rightarrow> closed_details option" where
  "hl_closed_details E posts symbol since =
     (case he_fills E posts of
        Hl_failed m \<Rightarrow> None
      | Hl_read fills \<Rightarrow>
         (let closes = filter (is_close_fill (coin_of symbol) since) fills
          in if closes = [] then None
             else
               (let newest = Max (set (map hf_time closes));
                    latest = hd (filter (\<lambda>f. hf_time f = newest) closes);
                    amount = sum_list (map hf_sz closes);
                    avg = (if 0 < amount then sum_list (map (\<lambda>f. hf_px f * hf_sz f) closes) / amount else hf_px latest)
                in Some \<lparr>cd_liquidated = list_ex (\<lambda>f. occurs_in ''Liq'' (hf_dir f)) closes, cd_closing_price = py_round avg 6,
                         cd_pnl = sum_list (map hf_pnl closes), cd_fee = \<bar>sum_list (map hf_fee closes)\<bar>,
                         cd_round_trip = False, cd_closed_at = (if newest = 0 then None else Some newest)\<rparr>)))"

section \<open>Resting orders\<close>

text \<open>The number is how often the list was read since the last action.\<close>

definition wire_side :: "string \<Rightarrow> string" where
  "wire_side s = (if s = ''B'' then ''buy'' else ''sell'')"

definition hl_open_order_of :: "hl_open_row \<Rightarrow> open_order" where
  "hl_open_order_of r =
     (let filled = max (hr_orig_sz r - hr_sz r) 0
      in \<lparr>oo_order_id = show_int (hr_oid r), oo_symbol = hr_coin r @ ''-USDT'', oo_side = wire_side (hr_side r),
          oo_price = hr_limit_px r, oo_size = hr_orig_sz r, oo_filled_size = filled,
          oo_status = (if 0 < filled then ''partially_filled'' else ''resting''), oo_created_at = hr_timestamp r\<rparr>)"

text \<open>Whatever goes wrong, the answer is an empty list.\<close>

definition hl_open_orders :: "hyperliquid_env \<Rightarrow> hl_post list \<Rightarrow> string option \<Rightarrow> open_order list" where
  "hl_open_orders E posts symbol =
     (case he_open_orders E posts 0 of
        Hl_failed m \<Rightarrow> []
      | Hl_read rows \<Rightarrow>
          map hl_open_order_of
            (filter (\<lambda>r. \<not> hr_is_trigger r \<and> (case symbol of None \<Rightarrow> True | Some s \<Rightarrow> coin_of s = [] \<or> hr_coin r = coin_of s)) rows))"

datatype hl_amended = Hl_amended string | Hl_not_amended string

definition replacement_candidates :: "hl_open_row \<Rightarrow> string \<Rightarrow> hl_open_row list \<Rightarrow> hl_open_row list" where
  "replacement_candidates old oid rows =
     filter (\<lambda>r. hr_coin r = hr_coin old \<and> hr_side r = hr_side old \<and> show_int (hr_oid r) \<noteq> oid) rows"

text \<open>
  The acknowledgement carries no id: the new order is looked for in the list, up to three
  times, as the newest other order of this coin and side.
\<close>

fun find_replacement ::
  "hyperliquid_env \<Rightarrow> hl_post list \<Rightarrow> hl_open_row \<Rightarrow> string \<Rightarrow> nat \<Rightarrow> nat \<Rightarrow> hl_amended" where
  "find_replacement E posts old oid k 0 = Hl_amended oid"
| "find_replacement E posts old oid k (Suc left) =
     (case he_open_orders E posts k of
        Hl_failed m \<Rightarrow> Hl_not_amended m
      | Hl_read rows \<Rightarrow>
          (if replacement_candidates old oid rows \<noteq> [] then
             Hl_amended (show_int (Max (set (map hr_oid (replacement_candidates old oid rows)))))
           else if list_ex (\<lambda>r. show_int (hr_oid r) = oid) rows then find_replacement E posts old oid (Suc k) left
           else Hl_amended oid))"

definition modify_order :: "nat \<Rightarrow> hl_open_row \<Rightarrow> rat \<Rightarrow> rat \<Rightarrow> hl_order" where
  "modify_order i old price amount =
     \<lparr>ho_asset = i, ho_buy = (hr_side old = ''B''), ho_price = float_to_wire (round_price price), ho_size = float_to_wire amount,
      ho_reduce_only = hr_reduce_only old, ho_kind = Limit_tif (if hr_reduce_only old then ''Gtc'' else ''Alo'')\<rparr>"

definition hl_amend_order ::
  "hyperliquid_env \<Rightarrow> string \<Rightarrow> string \<Rightarrow> rat option \<Rightarrow> rat option \<Rightarrow> hl_world \<Rightarrow> hl_amended \<times> hl_world" where
  "hl_amend_order E symbol oid new_price new_size w =
     (if new_price = None \<and> new_size = None then (Hl_not_amended ''amend_order requires new_price or new_size'', w)
      else case he_open_orders E (hw_posts w) 0 of
             Hl_failed m \<Rightarrow> (Hl_not_amended m, w)
           | Hl_read rows \<Rightarrow>
              (case List.find (\<lambda>r. show_int (hr_oid r) = oid) rows of
                 None \<Rightarrow> (Hl_not_amended ''order not found in open orders'', w)
               | Some old \<Rightarrow>
                  (case get_asset_index E symbol w of
                     (Inl e, w1) \<Rightarrow> (Hl_not_amended e, w1)
                   | (Inr i, w1) \<Rightarrow>
                      (let price = (case new_price of Some x \<Rightarrow> x | None \<Rightarrow> hr_limit_px old);
                           amount = round_size w1 symbol (case new_size of Some x \<Rightarrow> x | None \<Rightarrow> hr_sz old)
                       in if amount \<le> 0 then (Hl_not_amended ''amended size rounds to 0'', w1)
                          else
                            (let p = Hl_modify (hr_oid old) (modify_order i old price amount)
                             in (case he_post E (hw_posts w1) p of
                                   Hl_http_error m \<Rightarrow> Hl_not_amended m
                                 | Hl_replied ok r \<Rightarrow>
                                     if \<not> ok then Hl_not_amended ''not ok''
                                     else (case r of
                                             Resp_text t \<Rightarrow> Hl_not_amended t
                                           | Resp_statuses ss \<Rightarrow> find_replacement E (hw_posts w1 @ [p]) old oid 0 3),
                                 hl_send p w1))))))"

section \<open>Triggers\<close>

definition is_trigger_row :: "hl_open_row \<Rightarrow> bool" where
  "is_trigger_row r \<longleftrightarrow>
     occurs_in ''Trigger'' (hr_order_type r) \<or> occurs_in ''Profit'' (hr_order_type r) \<or> occurs_in ''Stop'' (hr_order_type r)"

definition hl_trigger_of :: "hl_open_row \<Rightarrow> trigger" where
  "hl_trigger_of r =
     \<lparr>tg_oid = show_int (hr_oid r),
      tg_tpsl = (case hr_tpsl r of
                   Some t \<Rightarrow> t
                 | None \<Rightarrow> if occurs_in ''Profit'' (hr_order_type r) then ''tp''
                           else if occurs_in ''Stop'' (hr_order_type r) then ''sl'' else ''None''),
      tg_px = hr_trigger_px r\<rparr>"

definition hl_list_trigger_orders :: "hyperliquid_env \<Rightarrow> hl_post list \<Rightarrow> string \<Rightarrow> nat \<Rightarrow> trigger list option" where
  "hl_list_trigger_orders E posts symbol k =
     (case he_open_orders E posts k of
        Hl_failed m \<Rightarrow> None
      | Hl_read rows \<Rightarrow> Some (map hl_trigger_of (filter (\<lambda>r. hr_coin r = coin_of symbol \<and> is_trigger_row r) rows)))"

definition int_of_text :: "string \<Rightarrow> int option" where
  "int_of_text s = (if s \<noteq> [] \<and> list_all (\<lambda>c. CHR ''0'' \<le> c \<and> c \<le> CHR ''9'') s then Some (digits_value s) else None)"

definition hl_cancel_order :: "hyperliquid_env \<Rightarrow> string \<Rightarrow> string \<Rightarrow> hl_world \<Rightarrow> cancel_answer \<times> hl_world" where
  "hl_cancel_order E symbol oid w =
     (case int_of_text oid of
        None \<Rightarrow> (\<lparr>ca_success = False, ca_error = Some ''ValueError''\<rparr>, w)
      | Some k \<Rightarrow>
         (case get_asset_index E symbol w of
            (Inl e, w1) \<Rightarrow> (\<lparr>ca_success = False, ca_error = Some e\<rparr>, w1)
          | (Inr i, w1) \<Rightarrow>
             (let p = Hl_cancel i k
              in (case he_post E (hw_posts w1) p of
                    Hl_http_error m \<Rightarrow> \<lparr>ca_success = False, ca_error = Some m\<rparr>
                  | Hl_replied ok r \<Rightarrow>
                      if \<not> ok then \<lparr>ca_success = False, ca_error = Some ''not ok''\<rparr>
                      else (case r of
                              Resp_statuses (St_error m # _) \<Rightarrow> \<lparr>ca_success = False, ca_error = Some m\<rparr>
                            | Resp_statuses (St_text t # _) \<Rightarrow>
                                if occurs_in ''error'' t then \<lparr>ca_success = False, ca_error = Some ''TypeError''\<rparr>
                                else \<lparr>ca_success = True, ca_error = None\<rparr>
                            | _ \<Rightarrow> \<lparr>ca_success = True, ca_error = None\<rparr>),
                  hl_send p w1))))"

text \<open>The statuses name no leg: the first is the target when one was asked for, the others are stops.\<close>

definition status_leg :: "rat option \<Rightarrow> nat \<Rightarrow> string" where
  "status_leg tp i = (if tp \<noteq> None \<and> tp \<noteq> Some 0 \<and> i = 0 then ''tp'' else ''sl'')"

definition leg_of_status :: "rat option \<Rightarrow> nat \<times> hl_status \<Rightarrow> placed_leg" where
  "leg_of_status tp = (\<lambda>(i, st). \<lparr>pl_tpsl = status_leg tp i, pl_error = (case st of St_error m \<Rightarrow> Some m | _ \<Rightarrow> None)\<rparr>)"

definition hl_place_trigger_orders ::
  "hyperliquid_env \<Rightarrow> string \<Rightarrow> string \<Rightarrow> rat \<Rightarrow> rat option \<Rightarrow> rat option \<Rightarrow> hl_world \<Rightarrow> (bool \<times> placed_leg list) \<times> hl_world" where
  "hl_place_trigger_orders E symbol side amount tp sl w =
     (case get_asset_index E symbol w of
        (Inl e, w1) \<Rightarrow> ((False, []), w1)
      | (Inr i, w1) \<Rightarrow>
         (let orders = trigger_legs i (side = ''buy'') (float_to_wire (round_size w1 symbol amount)) tp sl
          in if orders = [] then ((True, []), w1)
             else
               (let p = Hl_orders orders ''na''
                in (case he_post E (hw_posts w1) p of
                      Hl_replied True (Resp_statuses statuses) \<Rightarrow>
                        (let placed = map (leg_of_status tp) (zip [0..<length statuses] statuses)
                         in (length placed = length orders \<and> list_all (\<lambda>l. pl_error l = None) placed, placed))
                    | _ \<Rightarrow> (False, []),
                    hl_send p w1))))"

section \<open>Account reads\<close>

definition hl_balance :: "hyperliquid_env \<Rightarrow> venue_balance" where
  "hl_balance E =
     (case he_perp E of
        Hl_failed m \<Rightarrow> failed_balance ''USDC'' m
      | Hl_read (perp_total, perp_avail, perp_used) \<Rightarrow>
         (case he_spot E of
            Hl_failed m \<Rightarrow> failed_balance ''USDC'' m
          | Hl_read entries \<Rightarrow>
             (let (t, h) = (case List.find (\<lambda>e. se_coin e = ''USDC'' \<or> se_token e = 0) entries of
                              None \<Rightarrow> (0, 0) | Some e \<Rightarrow> (se_total e, se_hold e))
              in \<lparr>vb_total = perp_total + t, vb_available = perp_avail + (t - h), vb_used = perp_used, vb_currency = ''USDC'',
                  vb_error = None\<rparr>)))"

definition hl_candles :: "hyperliquid_env \<Rightarrow> int \<Rightarrow> string \<Rightarrow> string \<Rightarrow> int \<Rightarrow> int option \<Rightarrow> venue_candle list" where
  "hl_candles E now symbol timeframe limit end_ms =
     (case candle_seconds timeframe of
        None \<Rightarrow> []
      | Some secs \<Rightarrow>
         (let until = (case end_ms of Some e \<Rightarrow> if e = 0 then now else e | None \<Rightarrow> now);
              from = until - max 1 limit * secs * 1000
          in case he_candles E (coin_of symbol) timeframe from until of
               Hl_failed m \<Rightarrow> []
             | Hl_read rows \<Rightarrow> py_tail limit (sort_key vc_time rows)))"

definition hl_list_instruments :: "hyperliquid_env \<Rightarrow> hl_world \<Rightarrow> string list \<times> hl_world" where
  "hl_list_instruments E w =
     (case hw_assets w of
        Some assets \<Rightarrow> (sort (remdups (map (\<lambda>a. ha_name a @ ''-USDT'') assets)), w)
      | None \<Rightarrow>
         (case get_asset_index E ''BTC-USDT'' w of
            (Inr i, w1) \<Rightarrow> (sort (remdups (map (\<lambda>a. ha_name a @ ''-USDT'') (case hw_assets w1 of None \<Rightarrow> [] | Some assets \<Rightarrow> assets))), w1)
          | (Inl e, w1) \<Rightarrow> ([], w1)))"

definition hl_min_order_size :: "hyperliquid_env \<Rightarrow> string \<Rightarrow> hl_world \<Rightarrow> rat \<times> hl_world" where
  "hl_min_order_size E symbol w =
     (case hw_assets w of
        Some assets \<Rightarrow> (1 / 10 ^ sz_decimals w symbol, w)
      | None \<Rightarrow>
         (case get_asset_index E symbol w of
            (Inl e, w1) \<Rightarrow> (0, w1)
          | (Inr i, w1) \<Rightarrow> (1 / 10 ^ sz_decimals w1 symbol, w1)))"

definition hl_instrument_specs :: "hyperliquid_env \<Rightarrow> hl_world \<Rightarrow> (string \<times> nat) list \<times> hl_world" where
  "hl_instrument_specs E w =
     (let read = (\<lambda>w. case hw_assets w of None \<Rightarrow> [] | Some assets \<Rightarrow> map (\<lambda>a. (ha_name a @ ''-USDT'', ha_sz_decimals a)) assets)
      in case hw_assets w of
           Some assets \<Rightarrow> (read w, w)
         | None \<Rightarrow> (case get_asset_index E ''BTC-USDT'' w of
                      (Inl e, w1) \<Rightarrow> ([], w1)
                    | (Inr i, w1) \<Rightarrow> (read w1, w1)))"

section \<open>Rounded prices\<close>

lemma digits_above_power: "0 < n \<Longrightarrow> 10 ^ digits_above n \<le> n"
proof (induction n rule: digits_above.induct)
  case (1 n)
  show ?case
  proof (cases "n < 10")
    case True
    then show ?thesis using 1 by (simp add: digits_above.simps [of n])
  next
    case False
    then have "10 ^ digits_above (n div 10) \<le> n div 10" using 1 by simp
    then have "10 * 10 ^ digits_above (n div 10) \<le> n" by linarith
    then show ?thesis using False by (simp add: digits_above.simps [of n])
  qed
qed

lemma lead_zeros_power: "0 < x \<Longrightarrow> 1 \<le> x * 10 ^ lead_zeros x"
proof (induction x rule: lead_zeros.induct)
  case (1 x)
  show ?case
  proof (cases "1 \<le> x")
    case True
    then show ?thesis by (simp add: lead_zeros.simps [of x])
  next
    case False
    then have "1 \<le> 10 * x * 10 ^ lead_zeros (10 * x)" using 1 by simp
    then show ?thesis using False "1.prems" by (simp add: lead_zeros.simps [of x] mult_ac)
  qed
qed

lemma py_round_near: "\<bar>py_round x n - x\<bar> \<le> 1 / (2 * 10 ^ n)"
  using py_round_le [of x n] py_round_ge [of x n] by (simp add: abs_le_iff)

text \<open>The price on the wire is within half a unit of the fifth digit: one part in twenty thousand.\<close>

theorem round_price_near:
  assumes "0 < p"
  shows "\<bar>round_price p - p\<bar> \<le> p / 20000"
proof -
  define e where "e = decimal_exponent p"
  have r: "round_price p = py_round p (nat (4 - e))" using assms by (simp add: round_price_def e_def)
  have near: "\<bar>round_price p - p\<bar> \<le> 1 / (2 * 10 ^ nat (4 - e))" unfolding r by (rule py_round_near)
  have "1 / 10 ^ nat (4 - e) \<le> p / 10000"
  proof (cases "1 \<le> p")
    case True
    define n where "n = digits_above (nat \<lfloor>p\<rfloor>)"
    have e: "e = int n" using True by (simp add: e_def decimal_exponent_def n_def)
    have "10 ^ n \<le> nat \<lfloor>p\<rfloor>" unfolding n_def using True by (intro digits_above_power) simp
    then have "(10::int) ^ n \<le> \<lfloor>p\<rfloor>" using True by (simp add: nat_le_iff le_nat_iff)
    then have big: "(10::rat) ^ n \<le> p" by (simp add: le_floor_iff)
    have "(10::rat) ^ 4 \<le> 10 ^ n * 10 ^ nat (4 - e)" unfolding power_add [symmetric] e by (rule power_increasing) simp_all
    also have "\<dots> \<le> p * 10 ^ nat (4 - e)" using big by (intro mult_right_mono) simp_all
    finally show ?thesis by (simp add: divide_le_eq mult_ac)
  next
    case False
    define n where "n = lead_zeros p"
    have e: "e = - int n" using False by (simp add: e_def decimal_exponent_def n_def)
    have "1 \<le> p * 10 ^ n" unfolding n_def using assms by (rule lead_zeros_power)
    then have "(10::rat) ^ 4 * 1 \<le> 10 ^ 4 * (p * 10 ^ n)" by (intro mult_left_mono) simp_all
    also have "\<dots> = p * 10 ^ nat (4 - e)" by (simp add: e nat_add_distrib power_add)
    finally show ?thesis by (simp add: divide_le_eq mult_ac)
  qed
  then have "1 / (2 * 10 ^ nat (4 - e)) \<le> p / 20000" by simp
  then show ?thesis using near by linarith
qed

text \<open>What the exchange parses is the number, to eight decimals.\<close>

lemma wire_value: "0 \<le> x \<Longrightarrow> text_value (float_to_wire x) = py_round x 8"
proof (cases "x = 0")
  case True
  have "text_value ''0'' = 0" by code_simp
  then show ?thesis using True by (simp add: float_to_wire_def)
next
  case False
  assume "0 \<le> x"
  then show ?thesis using False strip_fixed_text [of 8 x] by (simp add: float_to_wire_def)
qed

section \<open>Assets that cannot be traded\<close>

lemma asset_index_name: "asset_index assets coin = Some i \<Longrightarrow> i < length assets \<and> ha_name (assets ! i) = coin"
  by (auto simp: asset_index_def dest!: map_of_SomeD simp: set_zip)

lemma get_asset_index_name:
  assumes "get_asset_index E symbol w = (Inr i, w')"
  shows "\<exists>assets. hw_assets w' = Some assets \<and> i < length assets \<and> ha_name (assets ! i) = coin_of symbol"
  using assms by (auto simp: get_asset_index_def split: sum.splits option.splits dest: asset_index_name)

lemma get_asset_index_posts: "get_asset_index E symbol w = (r, w') \<Longrightarrow> hw_posts w' = hw_posts w"
  by (auto simp: get_asset_index_def split: sum.splits option.splits hl_read.splits)

text \<open>
  Symbols are looked up in upper case, but the exchange has assets with lower-case letters.
  Such an asset is offered in the list of instruments, and no symbol leads to it.
\<close>

theorem mixed_case_asset_unreachable:
  assumes "get_asset_index E symbol w = (Inr i, w')" "hw_assets w' = Some assets"
  shows "py_upper (ha_name (assets ! i)) = ha_name (assets ! i)"
  using get_asset_index_name [OF assms(1)] assms(2) by (auto simp: coin_of_def)

section \<open>What an order sends\<close>

definition hl_order_groups :: "hl_post list \<Rightarrow> hl_order list list" where
  "hl_order_groups posts = List.map_filter (\<lambda>p. case p of Hl_orders os g \<Rightarrow> Some os | _ \<Rightarrow> None) posts"

lemma hl_order_groups_simps [simp]:
  "hl_order_groups [] = []" "hl_order_groups (xs @ ys) = hl_order_groups xs @ hl_order_groups ys"
  "hl_order_groups (Hl_orders os g # ps) = os # hl_order_groups ps" "hl_order_groups (Hl_leverage i l c # ps) = hl_order_groups ps"
  by (simp_all add: hl_order_groups_def List.map_filter_def)

lemma trigger_legs_shape:
  "o1 \<in> set (trigger_legs i buy z tp sl) \<Longrightarrow> ho_reduce_only o1 \<and> ho_buy o1 = buy \<and> ho_size o1 = z \<and> ho_asset o1 = i"
  by (auto simp: trigger_legs_def trigger_leg_order_def Let_def split: option.splits)

definition is_group_of :: "exec_order \<Rightarrow> bool \<Rightarrow> hl_order list \<Rightarrow> bool" where
  "is_group_of rq close os \<longleftrightarrow>
     (\<exists>e legs. os = e # legs \<and> (ho_buy e \<longleftrightarrow> xo_side rq = ''buy'') \<and> (ho_reduce_only e \<longleftrightarrow> close) \<and> (close \<longrightarrow> legs = []) \<and>
        (\<forall>l\<in>set legs. ho_reduce_only l \<and> ho_buy l \<noteq> ho_buy e \<and> ho_size l = ho_size e \<and> ho_asset l = ho_asset e))"

lemma order_group_shape: "\<exists>os g. order_group rq i close z price tif = Hl_orders os g \<and> is_group_of rq close os"
proof -
  define e where "e = \<lparr>ho_asset = i, ho_buy = (xo_side rq = ''buy''), ho_price = float_to_wire (round_price price), ho_size = z,
                   ho_reduce_only = close, ho_kind = Limit_tif tif\<rparr>"
  define legs where "legs = (if close then [] else trigger_legs i (\<not> ho_buy e) z (xo_tp_price rq) (xo_sl_price rq))"
  have "order_group rq i close z price tif = Hl_orders (e # legs) (if legs = [] then ''na'' else ''normalTpsl'')"
    by (simp add: order_group_def e_def legs_def Let_def)
  moreover have "is_group_of rq close (e # legs)"
  proof -
    have "ho_reduce_only l \<and> ho_buy l \<noteq> ho_buy e \<and> ho_size l = ho_size e \<and> ho_asset l = ho_asset e" if "l \<in> set legs" for l
      using that trigger_legs_shape [of l i "\<not> ho_buy e" z "xo_tp_price rq" "xo_sl_price rq"]
      by (auto simp: legs_def e_def split: if_splits)
    moreover have "(ho_buy e \<longleftrightarrow> xo_side rq = ''buy'') \<and> (ho_reduce_only e \<longleftrightarrow> close) \<and> (close \<longrightarrow> legs = [])"
      by (simp add: e_def legs_def)
    ultimately show ?thesis unfolding is_group_of_def by blast
  qed
  ultimately show ?thesis by blast
qed

lemma hl_place_order_cases:
  assumes "hl_place_order E rq i close w = (r, w')"
  obtains (no_order) "w' = w" "\<forall>x. r = Inr x \<longrightarrow> \<not> xr_success x"
  | (sent) os g where "w' = hl_send (Hl_orders os g) w" "is_group_of rq close os"
      "r = (case he_post E (hw_posts w) (Hl_orders os g) of
              Hl_http_error m \<Rightarrow> Inl m
            | Hl_replied ok (Resp_text t) \<Rightarrow> Inr (adapter_result False Exec_rejected None (Some t))
            | Hl_replied ok (Resp_statuses statuses) \<Rightarrow>
                entry_result E (hw_posts w @ [Hl_orders os g]) close (round_size w (xo_symbol rq) (xo_size rq)) statuses)"
proof (cases "hl_entry_price E rq i close w")
  case (Inl e)
  then show ?thesis using assms no_order by (auto simp: hl_place_order_def)
next
  case (Inr pt)
  obtain price tif where pt: "pt = (price, tif)" by fastforce
  show ?thesis
  proof (cases "round_size w (xo_symbol rq) (xo_size rq) \<le> 0")
    case True
    then show ?thesis using assms Inr pt no_order by (auto simp: hl_place_order_def Let_def)
  next
    case False
    obtain os g where g: "order_group rq i close (float_to_wire (round_size w (xo_symbol rq) (xo_size rq))) price tif = Hl_orders os g"
      "is_group_of rq close os" using order_group_shape by blast
    have "hl_place_order E rq i close w =
        (case he_post E (hw_posts w) (Hl_orders os g) of
              Hl_http_error m \<Rightarrow> Inl m
            | Hl_replied ok (Resp_text t) \<Rightarrow> Inr (adapter_result False Exec_rejected None (Some t))
            | Hl_replied ok (Resp_statuses statuses) \<Rightarrow>
                entry_result E (hw_posts w @ [Hl_orders os g]) close (round_size w (xo_symbol rq) (xo_size rq)) statuses,
         hl_send (Hl_orders os g) w)"
      unfolding hl_place_order_def Inr pt Let_def sum.case prod.case g(1) using False by simp
    then show ?thesis using assms g(2) sent [of os g] by simp
  qed
qed

text \<open>
  Submitting places at most one group of orders. The first is the entry, on the side asked
  for and reduce-only exactly when the signal closes; the others reduce the position from the
  other side, with the entry's size, and a close has none.
\<close>

theorem hl_orders_placed:
  assumes "hl_submit_order E rq w = (r, w')"
  shows "hl_order_groups (hw_posts w') = hl_order_groups (hw_posts w) \<and> \<not> xr_success r \<or>
    (\<exists>os. hl_order_groups (hw_posts w') = hl_order_groups (hw_posts w) @ [os] \<and> is_group_of rq (is_close_signal (xo_signal rq)) os)"
proof -
  let ?close = "is_close_signal (xo_signal rq)"
  obtain x w1 where a: "get_asset_index E (xo_symbol rq) w = (x, w1)" by fastforce
  have w1: "hw_posts w1 = hw_posts w" by (rule get_asset_index_posts [OF a])
  have "(hl_order_groups (hw_posts w') = hl_order_groups (hw_posts w) \<and> \<not> xr_success r) \<or>
    (\<exists>i v. hl_order_groups (hw_posts v) = hl_order_groups (hw_posts w) \<and> (r, w') = or_route_failed (hl_place_order E rq i ?close v))"
  proof (cases x)
    case (Inl e)
    then show ?thesis using assms a w1 by (auto simp: hl_submit_order_def)
  next
    case (Inr i)
    show ?thesis
    proof (cases ?close)
      case True
      then have "(r, w') = or_route_failed (hl_place_order E rq i ?close w1)" using assms a Inr by (simp add: hl_submit_order_def)
      then show ?thesis using w1 by (intro disjI2 exI conjI) simp_all
    next
      case False
      obtain lev w2 where l: "hl_max_leverage E (xo_symbol rq) w1 = (lev, w2)" by fastforce
      have w2: "hw_posts w2 = hw_posts w" using l w1
        by (auto simp: hl_max_leverage_def split: prod.splits sum.splits dest: get_asset_index_posts)
      obtain err w3 where u: "hl_update_leverage E i (or_one (xo_leverage rq)) (or_isolated (xo_margin_mode rq)) w2 = (err, w3)" by fastforce
      have w3: "hl_order_groups (hw_posts w3) = hl_order_groups (hw_posts w)"
        using u w2 by (auto simp: hl_update_leverage_def Let_def)
      have "(r, w') = or_route_failed (hl_place_order E rq i ?close w3) \<or> \<not> xr_success r \<and> (w' = w2 \<or> w' = w3)"
        using assms a Inr False l u by (cases err) (auto simp: hl_submit_order_def Let_def split: if_splits)
      then show ?thesis using w2 w3 by auto
    qed
  qed
  then show ?thesis
  proof (elim disjE exE conjE)
    fix i v
    assume v: "hl_order_groups (hw_posts v) = hl_order_groups (hw_posts w)"
      and p: "(r, w') = or_route_failed (hl_place_order E rq i ?close v)"
    obtain x v' where x: "hl_place_order E rq i ?close v = (x, v')" by fastforce
    then have w': "v' = w'" "x = Inr r \<or> (\<exists>e. x = Inl e \<and> \<not> xr_success r)"
      using p by (auto simp: or_route_failed_def split: sum.splits)
    from x show ?thesis
      by (cases rule: hl_place_order_cases) (use w' v in auto)
  qed blast
qed

section \<open>Stops that did not attach\<close>

lemma accepted_entry_result:
  assumes "st = St_filled oid avg sz \<or> st = St_resting oid"
  shows "\<exists>r. entry_result E posts close amount (st # tail) = Inr r \<and> xr_success r \<and> xr_error_msg r = None"
  using assms by (auto simp: entry_result_def Let_def split: option.splits)

text \<open>
  Whatever the exchange says of the stop and the target of an entry, the answer is the same:
  once the entry filled or rests, the result is a success without an error message, also when
  the stop was refused and the position stands unprotected.
\<close>

theorem hl_refused_stop_unreported:
  assumes "hl_place_order E rq i False w = (r, w')" "w' \<noteq> w"
    and "\<And>os g. he_post E (hw_posts w) (Hl_orders os g) = Hl_replied True (Resp_statuses (st # tail))"
    and "st = St_filled oid avg sz \<or> st = St_resting oid"
  shows "\<exists>x. r = Inr x \<and> xr_success x \<and> xr_error_msg x = None"
  using assms(1)
proof (cases rule: hl_place_order_cases)
  case no_order
  then show ?thesis using assms(2) by simp
next
  case (sent os g)
  then show ?thesis using assms(3) accepted_entry_result [OF assms(4)] by simp
qed

section \<open>Closing\<close>

text \<open>
  A close sends one reduce-only order of the closing side, and asks for no more than the
  position has.
\<close>

theorem hl_close_reduces:
  assumes "hl_close_position E symbol side amount w = (r, w')" "hl_open_positions E (hw_posts w) = Inr ps"
  shows "hl_order_groups (hw_posts w') = hl_order_groups (hw_posts w) \<and> \<not> xr_success r \<or>
    (\<exists>o1 target. hl_order_groups (hw_posts w') = hl_order_groups (hw_posts w) @ [[o1]] \<and> target \<in> set ps \<and>
       op_symbol target = symbol \<and> op_side target = side \<and> ho_reduce_only o1 \<and> (ho_buy o1 \<longleftrightarrow> side \<noteq> ''long''))"
proof (cases "List.find (\<lambda>p. op_symbol p = symbol \<and> op_side p = side) ps")
  case None
  then show ?thesis using assms by (auto simp: hl_close_position_def)
next
  case (Some target)
  then have t: "target \<in> set ps" "op_symbol target = symbol" "op_side target = side"
    by (auto simp: find_Some_iff)
  obtain x w1 where a: "get_asset_index E symbol w = (x, w1)" by fastforce
  have w1: "hw_posts w1 = hw_posts w" by (rule get_asset_index_posts [OF a])
  show ?thesis
  proof (cases x)
    case (Inl e)
    then show ?thesis using assms a w1 Some by (auto simp: hl_close_position_def Let_def)
  next
    case (Inr i)
    define rq where "rq = hl_close_order symbol side (case amount of Some a \<Rightarrow> min a (op_size target) | None \<Rightarrow> op_size target)"
    obtain y w2 where p: "hl_place_order E rq i True w1 = (y, w2)" by fastforce
    have res: "(r, w') = or_route_failed (y, w2)"
      using assms a Some Inr p by (simp add: hl_close_position_def Let_def rq_def)
    from p show ?thesis
    proof (cases rule: hl_place_order_cases)
      case no_order
      then show ?thesis using res w1 by (auto simp: or_route_failed_def split: sum.splits)
    next
      case (sent os g)
      then obtain o1 where o1: "os = [o1]" "ho_reduce_only o1" "ho_buy o1 \<longleftrightarrow> xo_side rq = ''buy''"
        by (auto simp: is_group_of_def)
      have "hl_order_groups (hw_posts w') = hl_order_groups (hw_posts w) @ [[o1]]"
        using res sent(1) o1(1) w1 by (auto simp: or_route_failed_def split: sum.splits)
      moreover have "ho_buy o1 \<longleftrightarrow> side \<noteq> ''long''" using o1(3) by (simp add: rq_def hl_close_order_def close_order_side_def)
      ultimately show ?thesis using t o1(2) by blast
    qed
  qed
qed

section \<open>Amending\<close>

text \<open>
  The id an amend answers with is the newest other order of the coin and side. When the
  amended order is gone from the list (it filled, or the post-only replacement was cancelled)
  and another order of this coin and side rests, or a trigger does, the answer is that order's
  id, although it was there before the amend.
\<close>

theorem hl_amend_names_other_order:
  assumes "he_open_orders E (hw_posts w) 0 = Hl_read before" "List.find (\<lambda>r. show_int (hr_oid r) = oid) before = Some old"
    and "get_asset_index E symbol w = (Inr i, w1)" "0 < round_size w1 symbol (hr_sz old)"
    and "\<And>k m. he_post E (hw_posts w) (Hl_modify k m) = Hl_replied True (Resp_statuses [])"
    and "\<And>posts. posts \<noteq> hw_posts w \<Longrightarrow> he_open_orders E posts 0 = Hl_read [other]"
    and "other \<in> set before" "hr_coin other = hr_coin old" "hr_side other = hr_side old" "show_int (hr_oid other) \<noteq> oid"
  shows "fst (hl_amend_order E symbol oid (Some price) None w) = Hl_amended (show_int (hr_oid other)) \<and> other \<in> set before"
proof -
  define p where "p = Hl_modify (hr_oid old) (modify_order i old price (round_size w1 symbol (hr_sz old)))"
  have posts: "hw_posts w1 = hw_posts w" by (rule get_asset_index_posts [OF assms(3)])
  have "fst (hl_amend_order E symbol oid (Some price) None w) = find_replacement E (hw_posts w1 @ [p]) old oid 0 3"
    using assms(1-5) posts by (simp add: hl_amend_order_def Let_def p_def)
  moreover have "find_replacement E (hw_posts w1 @ [p]) old oid 0 3 = Hl_amended (show_int (hr_oid other))"
  proof -
    have "he_open_orders E (hw_posts w1 @ [p]) 0 = Hl_read [other]" using assms(6) posts by simp
    then show ?thesis
      using assms(8-10) by (simp add: eval_nat_numeral replacement_candidates_def)
  qed
  ultimately show ?thesis using assms(7) by simp
qed

section \<open>Moving stops\<close>

text \<open>The adapter as \<open>modify_stops\<close> sees it; a read counts those since the last action.\<close>

definition hl_after_event :: "hyperliquid_env \<Rightarrow> string \<Rightarrow> hl_world \<times> nat \<Rightarrow> stop_event \<Rightarrow> hl_world \<times> nat" where
  "hl_after_event E symbol wk ev =
     (case ev of
        Read a \<Rightarrow> (fst wk, Suc (snd wk))
      | Cancelled oid a \<Rightarrow> (snd (hl_cancel_order E symbol oid (fst wk)), 0)
      | Placed q a \<Rightarrow> (snd (hl_place_trigger_orders E (pq_symbol q) (pq_side q) (pq_size q) (pq_tp q) (pq_sl q) (fst wk)), 0))"

definition hl_world_after :: "hyperliquid_env \<Rightarrow> string \<Rightarrow> hl_world \<Rightarrow> history \<Rightarrow> hl_world \<times> nat" where
  "hl_world_after E symbol w h = foldl (hl_after_event E symbol) (w, 0) h"

definition hyperliquid_stops :: "hyperliquid_env \<Rightarrow> string \<Rightarrow> string \<Rightarrow> hl_world \<Rightarrow> stops_env" where
  "hyperliquid_stops E symbol account_mode w =
     \<lparr>se_adapter = (\<lambda>_. Inr \<lparr>ad_kind = exchange_kind.Hyperliquid, ad_mode = account_mode, ad_position_mode = ''net''\<rparr>),
      se_positions = (case hl_open_positions E (hw_posts w) of Inl e \<Rightarrow> Inl e | Inr ps \<Rightarrow> Inr (map venue_holding.truncate ps)),
      se_triggers = (\<lambda>inst side h. case hl_world_after E symbol w h of
                       (v, k) \<Rightarrow> Inr (hl_list_trigger_orders E (hw_posts v) inst k)),
      se_cancel = (\<lambda>inst oid h. Inr (fst (hl_cancel_order E symbol oid (fst (hl_world_after E symbol w h))))),
      se_place = (\<lambda>q h. Inr (snd (fst (hl_place_trigger_orders E (pq_symbol q) (pq_side q) (pq_size q) (pq_tp q) (pq_sl q)
                                      (fst (hl_world_after E symbol w h))))))\<rparr>"

interpretation hl_venue: stop_venue "hyperliquid_stops E symbol account_mode w" for E symbol account_mode w
  by unfold_locales (auto simp: hyperliquid_stops_def split: prod.splits)

lemma hyperliquid_stops_answer:
  assumes "modify_stops (hyperliquid_stops E symbol mode w) account rq = (ans, h)" "hl_open_positions E (hw_posts w) = Inr ps"
  shows "sn_error ans \<noteq> Some (Stops_raised m)"
  by (rule hl_venue.never_raises [OF assms(1)]) (simp_all add: hyperliquid_stops_def assms(2))

section \<open>A demonstration\<close>

definition demo_hl_assets :: "hl_asset list" where
  "demo_hl_assets = [\<lparr>ha_name = ''SOL'', ha_sz_decimals = 1, ha_max_leverage = 20, ha_margin_table = 1\<rparr>,
     \<lparr>ha_name = ''kPEPE'', ha_sz_decimals = 0, ha_max_leverage = 10, ha_margin_table = 1\<rparr>]"

definition demo_resting :: "int \<Rightarrow> hl_open_row" where
  "demo_resting oid = \<lparr>hr_oid = oid, hr_coin = ''SOL'', hr_side = ''B'', hr_limit_px = 2, hr_orig_sz = 3, hr_sz = 3, hr_is_trigger = False,
     hr_reduce_only = False, hr_order_type = ''Limit'', hr_tpsl = None, hr_trigger_px = No_px, hr_timestamp = 1\<rparr>"

definition demo_hyperliquid :: hyperliquid_env where
  "demo_hyperliquid =
     \<lparr>he_meta = (\<lambda>_. Hl_read demo_hl_assets), he_marks = (\<lambda>_. Hl_read [2, 1]),
      he_post = (\<lambda>posts p. case p of
                   Hl_orders os g \<Rightarrow> Hl_replied True (Resp_statuses [St_filled ''7'' (Some 2) (Some 3), St_error ''Invalid TP/SL price.''])
                 | _ \<Rightarrow> Hl_replied True (Resp_statuses [])),
      he_positions = (\<lambda>_. Hl_read [\<lparr>hp_coin = ''SOL'', hp_szi = 3, hp_entry = 2, hp_leverage = 5, hp_liq = None\<rparr>]),
      he_fills = (\<lambda>_. Hl_read []),
      he_open_orders = (\<lambda>posts k. Hl_read (if posts = [] then [demo_resting 5, demo_resting 3] else [demo_resting 3])),
      he_margin_tiers = (\<lambda>_. Hl_read []), he_perp = Hl_read (0, 0, 0), he_spot = Hl_read [], he_candles = (\<lambda>_ _ _ _. Hl_read []),
      he_slippage_pct = (\<lambda>_. 1)\<rparr>"

definition demo_hl_request :: exec_order where
  "demo_hl_request = \<lparr>xo_order_id = ''1'', xo_account_id = ''A'', xo_symbol = ''SOL-USDT'', xo_side = ''buy'', xo_signal = ''open_long'',
     xo_order_type = ''market'', xo_size = 3, xo_price = None, xo_leverage = Some 5, xo_margin_mode = None,
     xo_tp_price = None, xo_sl_price = Some 1, xo_signal_log_id = None\<rparr>"

definition fresh_hl :: hl_world where
  "fresh_hl = \<lparr>hw_posts = [], hw_assets = None\<rparr>"

definition loaded_hl :: hl_world where
  "loaded_hl = \<lparr>hw_posts = [], hw_assets = Some demo_hl_assets\<rparr>"

theorem round_price_near_witness: "\<bar>round_price (123456 / 1000) - 123456 / 1000\<bar> \<le> 123456 / 1000 / 20000"
  by (rule round_price_near) simp

lemma demo_hl_index: "get_asset_index demo_hyperliquid ''SOL-USDT'' fresh_hl = (Inr 0, loaded_hl)"
  by code_simp

theorem mixed_case_asset_unreachable_witness:
  "py_upper (ha_name (demo_hl_assets ! 0)) = ha_name (demo_hl_assets ! 0) \<and> py_upper (ha_name (demo_hl_assets ! 1)) \<noteq> ha_name (demo_hl_assets ! 1)"
proof -
  have "hw_assets loaded_hl = Some demo_hl_assets" by (simp add: loaded_hl_def)
  moreover have "py_upper (ha_name (demo_hl_assets ! 1)) \<noteq> ha_name (demo_hl_assets ! 1)" by code_simp
  ultimately show ?thesis using mixed_case_asset_unreachable [OF demo_hl_index] by blast
qed

definition demo_hl_run :: "exec_result \<times> hl_world" where
  "demo_hl_run = hl_submit_order demo_hyperliquid demo_hl_request fresh_hl"

theorem hl_orders_placed_witness:
  "\<exists>os. hl_order_groups (hw_posts (snd demo_hl_run)) = [os] \<and> is_group_of demo_hl_request False os"
proof -
  obtain r w' where run: "hl_submit_order demo_hyperliquid demo_hl_request fresh_hl = (r, w')" by fastforce
  have "xr_success (fst demo_hl_run)" by code_simp
  then have "xr_success r" by (simp add: demo_hl_run_def run)
  moreover have "hl_order_groups (hw_posts fresh_hl) = []" "is_close_signal (xo_signal demo_hl_request) = False" by code_simp+
  ultimately show ?thesis using hl_orders_placed [OF run] by (simp add: demo_hl_run_def run)
qed

definition demo_hl_entry :: "(string + exec_result) \<times> hl_world" where
  "demo_hl_entry = hl_place_order demo_hyperliquid demo_hl_request 0 False loaded_hl"

theorem hl_refused_stop_unreported_witness:
  "\<exists>x. fst demo_hl_entry = Inr x \<and> xr_success x \<and> xr_error_msg x = None"
proof -
  obtain r w' where run: "hl_place_order demo_hyperliquid demo_hl_request 0 False loaded_hl = (r, w')" by fastforce
  have "hw_posts (snd demo_hl_entry) \<noteq> []" by code_simp
  moreover have "hw_posts loaded_hl = []" by code_simp
  ultimately have "w' \<noteq> loaded_hl" by (auto simp: demo_hl_entry_def run)
  then show ?thesis
    using hl_refused_stop_unreported [OF run, of "St_filled ''7'' (Some 2) (Some 3)" "[St_error ''Invalid TP/SL price.'']" "''7''" "Some 2" "Some 3"]
    by (simp add: demo_hl_entry_def run) (simp add: demo_hyperliquid_def)
qed

definition demo_hl_close :: "exec_result \<times> hl_world" where
  "demo_hl_close = hl_close_position demo_hyperliquid ''SOL-USDT'' ''long'' (Some 9) loaded_hl"

theorem hl_close_reduces_witness:
  "\<exists>o1. hl_order_groups (hw_posts (snd demo_hl_close)) = [[o1]] \<and> ho_reduce_only o1 \<and> \<not> ho_buy o1"
proof -
  obtain r w' where run: "hl_close_position demo_hyperliquid ''SOL-USDT'' ''long'' (Some 9) loaded_hl = (r, w')" by fastforce
  obtain ps where ps: "hl_open_positions demo_hyperliquid (hw_posts loaded_hl) = Inr ps"
    by (simp add: hl_open_positions_def demo_hyperliquid_def)
  have "xr_success (fst demo_hl_close)" by code_simp
  then have "xr_success r" by (simp add: demo_hl_close_def run)
  moreover have "hl_order_groups (hw_posts loaded_hl) = []" by code_simp
  ultimately show ?thesis using hl_close_reduces [OF run ps] by (auto simp: demo_hl_close_def run)
qed

theorem hl_amend_names_other_order_witness:
  "fst (hl_amend_order demo_hyperliquid ''SOL-USDT'' ''5'' (Some 3) None loaded_hl) = Hl_amended ''3'' \<and>
   demo_resting 3 \<in> set [demo_resting 5, demo_resting 3]"
proof -
  have texts: "show_int 3 = ''3''" "show_int 5 = ''5''" by code_simp+
  have i: "get_asset_index demo_hyperliquid ''SOL-USDT'' loaded_hl = (Inr 0, loaded_hl)" by code_simp
  have pos: "0 < round_size loaded_hl ''SOL-USDT'' (hr_sz (demo_resting 5))" by code_simp
  have "fst (hl_amend_order demo_hyperliquid ''SOL-USDT'' ''5'' (Some 3) None loaded_hl) = Hl_amended (show_int (hr_oid (demo_resting 3))) \<and>
    demo_resting 3 \<in> set [demo_resting 5, demo_resting 3]"
    by (rule hl_amend_names_other_order [OF _ _ i pos])
      (simp_all add: demo_hyperliquid_def loaded_hl_def texts demo_resting_def)
  then show ?thesis by (simp add: texts demo_resting_def)
qed

end
