(* ===== verification/OpenOrders.thy ===== *)
theory OpenOrders
  imports BlofinSafety Binance Hyperliquid ReconcileDemo
begin

text \<open>
  The resting orders on their way from an exchange to the books: the adapters' reads, the
  executor's route (\<open>order-executor/app/main.py\<close>) and the listener's pass over its pending
  orders. The contract of \<open>base.py\<close> lets an adapter answer an empty list when its read
  failed; the listener takes a list for a confirmed read.
\<close>

text \<open>The route answers with what the adapter returned, or with an object when it raised.\<close>

definition orders_route :: "string + open_order list \<Rightarrow> string list option reply" where
  "orders_route r = (case r of Inr os \<Rightarrow> Answer (Some (map oo_order_id os)) | Inl m \<Rightarrow> Answer None)"

text \<open>The three adapters, when the request for the resting orders fails.\<close>

definition failed_orders_read :: "string + open_order list \<Rightarrow> bool" where
  "failed_orders_read r \<longleftrightarrow>
     (\<exists>E posts m. r = Blofin.get_open_orders E posts None \<and> bv_pending E posts None = blofin_reply.Failed m) \<or>
     (\<exists>E posts m. r = Inr (bn_open_orders E posts None) \<and> be_open_orders E posts None = Bn_raised m) \<or>
     (\<exists>E posts m. r = Inr (hl_open_orders E posts None) \<and> he_open_orders E posts 0 = Hl_failed m)"

lemma failed_orders_read_empty: "failed_orders_read r \<Longrightarrow> r = Inr []"
  by (auto simp: failed_orders_read_def get_open_orders_def bn_open_orders_def hl_open_orders_def)

lemma size_tolerance_pos: "0 < size_tolerance z"
  by (simp add: size_tolerance_def SIZE_EPSILON_ABS_def less_max_iff_disj)

text \<open>
  C29. A request for the resting orders that fails on the way to the exchange, on any of the three
  venues, is read by the listener as a confirmed empty list. A pending limit order that still
  rests there is recorded as cancelled, while nothing is sent to cancel it: when it fills,
  no row of the books waits for it.
\<close>

theorem failed_read_cancels_resting_order:
  assumes "failed_orders_read read" "re_open_orders R (sent_count w) account = orders_route read"
    and "get_account_positions R Pending_read account w = Some ps"
    and "map_of (live_by_key ps) (od_symbol r, leg_side_name (side_leg (od_side r))) = None"
    and "find_open_leg (od_strategy r) (od_symbol r) (side_leg (od_side r)) w = None"
    and "text_or_nil (od_exchange_order_id r) \<noteq> []" "synthetic_payload r = Inr payload"
  shows "reconcile_accounts R [(Some account, [r])] w =
    (Inr (), update_order_status (od_id r) ''cancelled'' (Some (pending_cancel (text_or_nil (od_exchange_order_id r)))) account w)"
proof -
  have "re_open_orders R (sent_count w) account = Answer (Some [])"
    using assms(2) failed_orders_read_empty [OF assms(1)] by (simp add: orders_route_def)
  then have none: "get_account_open_orders R account w = Some []" by (simp add: get_account_open_orders_def)
  have "reconcile_pending_order R account [] (live_by_key ps) r w =
      (Inr (), update_order_status (od_id r) ''cancelled'' (Some (pending_cancel (text_or_nil (od_exchange_order_id r)))) account w)"
    using assms(4-7) size_tolerance_pos [of "od_size r"]
    by (simp add: reconcile_pending_order_def live_figures_def Let_def not_less less_imp_le)
  then show ?thesis using none assms(3) by (simp add: account_path_def)
qed

text \<open>An error that comes in the body of a BloFin reply is another matter: the orders are left alone.\<close>

lemma error_body_keeps_orders:
  assumes "bv_pending E posts None = Replied status False msg items"
    and "re_open_orders R (sent_count w) account = orders_route (Blofin.get_open_orders E posts None)"
  shows "reconcile_accounts R [(Some account, rs)] w = (Inr (), w)"
  using assms by (simp add: get_open_orders_def orders_route_def get_account_open_orders_def account_path_def)

definition lost_read :: "string + open_order list" where
  "lost_read = Inr (bn_open_orders demo_binance [] None)"

definition lost_read_listener :: reconcile_env where
  "lost_read_listener = (demo_exchange (Answer (Some [])) no_history)\<lparr>re_open_orders := (\<lambda>_ _. orders_route lost_read)\<rparr>"

theorem failed_read_cancels_resting_order_witness:
  "map od_status (lw_orders (snd (reconcile_accounts lost_read_listener [(Some ''acc'', [demo_pending 0])] (demo_resting 1)))) = [''cancelled'']"
proof -
  have failed: "failed_orders_read lost_read"
    unfolding failed_orders_read_def lost_read_def
    by (intro disjI2 disjI1 exI [of _ demo_binance] exI [of _ "[]"] exI [of _ "''timeout''"]) (simp add: demo_binance_def)
  have reads: "re_open_orders lost_read_listener (sent_count (demo_resting 1)) ''acc'' = orders_route lost_read"
    "get_account_positions lost_read_listener Pending_read ''acc'' (demo_resting 1) = Some []"
    by (simp_all add: lost_read_listener_def demo_exchange_def get_account_positions_def)
  have facts: "find_open_leg (od_strategy (demo_pending 0)) (od_symbol (demo_pending 0)) (side_leg (od_side (demo_pending 0))) (demo_resting 1) = None"
    "text_or_nil (od_exchange_order_id (demo_pending 0)) \<noteq> []" by code_simp+
  obtain payload where p: "synthetic_payload (demo_pending 0) = Inr payload"
    by (cases "synthetic_payload (demo_pending 0)") (auto, code_simp)
  have "reconcile_accounts lost_read_listener [(Some ''acc'', [demo_pending 0])] (demo_resting 1) =
    (Inr (), update_order_status (od_id (demo_pending 0)) ''cancelled''
       (Some (pending_cancel (text_or_nil (od_exchange_order_id (demo_pending 0))))) ''acc'' (demo_resting 1))"
    by (rule failed_read_cancels_resting_order [OF failed reads _ facts p]) (simp add: live_by_key_def)
  moreover have "map od_status (lw_orders (update_order_status (od_id (demo_pending 0)) ''cancelled''
       (Some (pending_cancel (text_or_nil (od_exchange_order_id (demo_pending 0))))) ''acc'' (demo_resting 1))) = [''cancelled'']"
    by code_simp
  ultimately show ?thesis by simp
qed

end
