(* ===== verification/SpreadMonitor.thy ===== *)
theory SpreadMonitor
  imports SpreadSafety
begin

text \<open>
  The cross-venue spread monitor, \<open>ai-signal-generator/app/spread_monitor.py\<close>: the trailing
  funding spread of a coin, the walk of an order book, the armed plan, and the hourly cycle.
  The plans are rows of the table the executor reads, so the cycle works on the executor's
  world (\<open>SpreadTrade\<close>); its unwind is a call of the route \<open>/spread/close\<close>.
\<close>

section \<open>The trailing spread\<close>

definition HOURS_ANN :: rat where "HOURS_ANN = 24 * 365"

text \<open>\<open>xs[-n:]\<close>, the whole list when \<open>n\<close> is zero.\<close>

definition last_n :: "nat \<Rightarrow> 'a list \<Rightarrow> 'a list" where
  "last_n n xs = (if n = 0 then xs else drop (length xs - n) xs)"

text \<open>Settlements in the order of their time, then their rate.\<close>

definition by_time :: "(int \<times> rat) list \<Rightarrow> (int \<times> rat) list" where
  "by_time xs = sort_key fst (sort_key snd xs)"

definition gap_hours :: "int \<Rightarrow> int \<Rightarrow> rat" where
  "gap_hours t0 t1 = min (max (of_int (t1 - t0) / 3600000) 1) 8"

text \<open>The rates settled since the cutoff and the hours they were settled for.\<close>

fun settled :: "int \<Rightarrow> (int \<times> rat) list \<Rightarrow> rat \<times> rat" where
  "settled cutoff ((t0, r0) # (t1, rate) # ps) =
     (case settled cutoff ((t1, rate) # ps) of
        (paid, hours) \<Rightarrow> if cutoff \<le> t1 then (rate + paid, gap_hours t0 t1 + hours) else (paid, hours))"
| "settled cutoff ps = (0, 0)"

definition trailing_spread :: "nat \<Rightarrow> int \<Rightarrow> rat list \<Rightarrow> (int \<times> rat) list \<Rightarrow> rat option result" where
  "trailing_spread trail now hl bf =
     (if length hl < trail div 2 \<or> length bf < 3 then Inr None
      else case float_div (sum_list (last_n trail hl)) (of_nat (length (last_n trail hl))) of
             Inl e \<Rightarrow> Inl e
           | Inr hl_hourly \<Rightarrow>
               (case settled (now - int trail * 3600 * 1000) (by_time bf) of
                  (paid, hours) \<Rightarrow>
                    if hours < of_nat trail / 2 then Inr None
                    else (case float_div paid hours of
                            Inl e \<Rightarrow> Inl e
                          | Inr bf_hourly \<Rightarrow> Inr (Some ((hl_hourly - bf_hourly) * HOURS_ANN)))))"

section \<open>Walking a book\<close>

record book_level =
  lv_px :: rat
  lv_sz :: rat

text \<open>What remains of the notional, the cost so far and the quantity so far.\<close>

fun walk_levels :: "book_level list \<Rightarrow> rat \<Rightarrow> rat \<Rightarrow> rat \<Rightarrow> (rat \<times> rat \<times> rat) result" where
  "walk_levels [] remaining cost qty = Inr (remaining, cost, qty)"
| "walk_levels (l # ls) remaining cost qty =
     (let take = min remaining (lv_px l * lv_sz l)
      in case float_div take (lv_px l) of
           Inl e \<Rightarrow> Inl e
         | Inr q \<Rightarrow> if remaining - take \<le> 0 then Inr (remaining - take, cost + take, qty + q)
                    else walk_levels ls (remaining - take) (cost + take) (qty + q))"

definition walk :: "book_level list \<Rightarrow> rat \<Rightarrow> (rat \<times> rat) option result" where
  "walk levels notional =
     (case levels of
        [] \<Rightarrow> Inr None
      | l # _ \<Rightarrow>
         (case walk_levels levels notional 0 0 of
            Inl e \<Rightarrow> Inl e
          | Inr (remaining, cost, qty) \<Rightarrow>
              if 0 < remaining then Inr None
              else (case float_div cost qty of
                      Inl e \<Rightarrow> Inl e
                    | Inr avg \<Rightarrow>
                        (case float_div \<bar>avg - lv_px l\<bar> (lv_px l) of
                           Inl e \<Rightarrow> Inl e
                         | Inr s \<Rightarrow> Inr (Some (avg, s * 10000))))))"

section \<open>The plan\<close>

record monitor_settings =
  ms_enter :: rat
  ms_exit :: rat
  ms_trail :: nat
  ms_max :: nat
  ms_capital :: rat
  ms_leverage :: int
  ms_abort :: rat
  ms_roundtrip :: rat

text \<open>The two sides of a venue's book: bids, then asks.\<close>

type_synonym order_book = "book_level list \<times> book_level list"

record plan_figures =
  pf_coin :: string
  pf_trailing :: rat
  pf_short_venue :: string
  pf_long_venue :: string
  pf_capital :: rat
  pf_notional :: rat
  pf_leverage :: int
  pf_hl_price :: rat
  pf_blofin_price :: rat
  pf_hl_slippage :: rat
  pf_blofin_slippage :: rat
  pf_daily :: rat
  pf_roundtrip :: rat
  pf_breakeven :: "rat option"
  pf_abort_up :: rat
  pf_abort_down :: rat
  pf_basis :: rat

definition short_venue_of :: "rat \<Rightarrow> string" where
  "short_venue_of trailing = (if 0 < trailing then ''hyperliquid'' else ''blofin'')"

definition long_venue_of :: "rat \<Rightarrow> string" where
  "long_venue_of trailing = (if 0 < trailing then ''blofin'' else ''hyperliquid'')"

definition plan_figures_of ::
  "monitor_settings \<Rightarrow> string \<Rightarrow> rat \<Rightarrow> rat \<times> rat \<Rightarrow> rat \<times> rat \<Rightarrow> plan_figures result" where
  "plan_figures_of S coin trailing hl bf =
     (case hl of (hl_px, hl_slip) \<Rightarrow> case bf of (bf_px, bf_slip) \<Rightarrow>
      let notional = ms_capital S / 2;
          est_daily = \<bar>trailing\<bar> * notional / 365;
          roundtrip = ms_roundtrip S * notional;
          mid = (hl_px + bf_px) / 2
      in case float_div (hl_px - bf_px) bf_px of
           Inl e \<Rightarrow> Inl e
         | Inr basis \<Rightarrow>
             Inr \<lparr>pf_coin = coin, pf_trailing = py_round trailing 4,
               pf_short_venue = short_venue_of trailing, pf_long_venue = long_venue_of trailing,
               pf_capital = ms_capital S, pf_notional = py_round notional 2, pf_leverage = ms_leverage S,
               pf_hl_price = hl_px, pf_blofin_price = bf_px,
               pf_hl_slippage = py_round hl_slip 2, pf_blofin_slippage = py_round bf_slip 2,
               pf_daily = py_round est_daily 4, pf_roundtrip = py_round roundtrip 4,
               pf_breakeven = (if 0 < est_daily then Some (py_round (roundtrip / est_daily) 2) else None),
               pf_abort_up = py_round (mid * (1 + ms_abort S)) 8,
               pf_abort_down = py_round (mid * (1 - ms_abort S)) 8,
               pf_basis = py_round (basis * 10000) 2\<rparr>)"

text \<open>The short leg sells into bids, the long leg buys from asks.\<close>

definition price_plan ::
  "monitor_settings \<Rightarrow> string \<Rightarrow> rat \<Rightarrow> order_book \<Rightarrow> order_book \<Rightarrow> plan_figures option result" where
  "price_plan S coin trailing hl_book bf_book =
     (let notional = ms_capital S / 2
      in case walk ((if short_venue_of trailing = ''hyperliquid'' then fst else snd) hl_book) notional of
           Inl e \<Rightarrow> Inl e
         | Inr hl \<Rightarrow>
            (case walk ((if short_venue_of trailing = ''blofin'' then fst else snd) bf_book) notional of
               Inl e \<Rightarrow> Inl e
             | Inr bf \<Rightarrow>
                (case (hl, bf) of
                   (Some h, Some b) \<Rightarrow> map_sum id Some (plan_figures_of S coin trailing h b)
                 | _ \<Rightarrow> Inr None)))"

section \<open>Plans in the table\<close>

text \<open>What the executor reads of the row of a plan.\<close>

definition plan_row :: "string \<Rightarrow> plan_figures \<Rightarrow> spread_plan" where
  "plan_row i p = \<lparr>pn_id = i, pn_coin = pf_coin p, pn_status = Plan_armed,
     pn_short_venue = pf_short_venue p, pn_long_venue = pf_long_venue p, pn_notional = pf_notional p,
     pn_leverage = pf_leverage p, pn_abort_up = Some (pf_abort_up p), pn_abort_down = Some (pf_abort_down p),
     pn_fail = None\<rparr>"

definition armed_for :: "string \<Rightarrow> spread_plan \<Rightarrow> bool" where
  "armed_for coin p \<longleftrightarrow> pn_coin p = coin \<and> pn_status p = Plan_armed"

definition expire_coin :: "string \<Rightarrow> spread_world \<Rightarrow> spread_world" where
  "expire_coin coin w = w\<lparr>sw_plans := update_where (armed_for coin) (\<lambda>p. p\<lparr>pn_status := Plan_expired\<rparr>) (sw_plans w)\<rparr>"

definition armed_count :: "spread_world \<Rightarrow> nat" where
  "armed_count w = length (filter (\<lambda>p. pn_status p = Plan_armed) (sw_plans w))"

text \<open>
  The environment of a cycle: the answers of the venues' public endpoints (\<open>Inl\<close> when the
  request or a field fails), the database and Redis statements that raise, the id the
  database draws for a new row, and how the request to the executor fares.
\<close>

datatype delivery = Delivered | Request_lost | Answer_lost

record monitor_env =
  me_funding :: "string \<Rightarrow> py_error + (rat list \<times> (int \<times> rat) list)"
  me_now :: int
  me_books :: "string \<Rightarrow> py_error + (order_book \<times> order_book)"
  me_new_id :: "spread_plan list \<Rightarrow> string"
  me_hget_fails :: "string \<Rightarrow> bool"
  me_hset_fails :: "string \<Rightarrow> bool"
  me_count_fails :: "string \<Rightarrow> bool"
  me_persist_fails :: "string \<Rightarrow> bool"
  me_expire_fails :: "string \<Rightarrow> bool"
  me_emit_fails :: "string \<Rightarrow> bool"
  me_close :: "string \<Rightarrow> delivery"
  me_executor :: spread_env

datatype monitor_event =
    Spread_hot string rat "(string \<times> plan_figures) option"
  | Spread_cooled string rat nat "bool option"

record monitor_world =
  mo_trade :: spread_world
  mo_hash :: "(string \<times> string) list"
  mo_events :: "monitor_event list"
  mo_status :: "(string \<times> rat \<times> string) list"

text \<open>One transaction: the armed plan of the coin gives way to the new one.\<close>

definition persist :: "monitor_env \<Rightarrow> plan_figures \<Rightarrow> spread_world \<Rightarrow> string \<times> spread_world" where
  "persist E p w =
     (let w1 = expire_coin (pf_coin p) w; i = me_new_id E (sw_plans w1)
      in (i, w1\<lparr>sw_plans := sw_plans w1 @ [plan_row i p]\<rparr>))"

text \<open>Never raises: no plan on any failure.\<close>

definition build_plan ::
  "monitor_settings \<Rightarrow> monitor_env \<Rightarrow> string \<Rightarrow> rat \<Rightarrow> spread_world \<Rightarrow> (string \<times> plan_figures) option \<times> spread_world" where
  "build_plan S E coin trailing w =
     (case me_books E coin of
        Inl e \<Rightarrow> (None, w)
      | Inr (hl_book, bf_book) \<Rightarrow>
         (case price_plan S coin trailing hl_book bf_book of
            Inl e \<Rightarrow> (None, w)
          | Inr None \<Rightarrow> (None, w)
          | Inr (Some p) \<Rightarrow>
              if me_persist_fails E coin then (None, w)
              else (case persist E p w of (i, w1) \<Rightarrow> (Some (i, p), w1))))"

definition expire_plans :: "monitor_env \<Rightarrow> string \<Rightarrow> spread_world \<Rightarrow> nat \<times> spread_world" where
  "expire_plans E coin w =
     (if me_expire_fails E coin then (0, w)
      else (length (filter (armed_for coin) (sw_plans w)), expire_coin coin w))"

text \<open>The route \<open>/spread/close\<close> and the request to it, which can fail before or after it is served.\<close>

definition spread_close_route :: "spread_env \<Rightarrow> nat option \<Rightarrow> string option \<Rightarrow> string \<Rightarrow> spread_world \<Rightarrow> (nat + close_answer) \<times> spread_world" where
  "spread_close_route E position_id coin reason w =
     (case close_spread E position_id coin reason w of
        (Inl e, w1) \<Rightarrow> (Inl (if (case e of Value_err _ \<Rightarrow> True | _ \<Rightarrow> False) then 400 else 500), w1)
      | (Inr a, w1) \<Rightarrow> (Inr a, w1))"

definition unwind_open_position :: "monitor_env \<Rightarrow> string \<Rightarrow> spread_world \<Rightarrow> bool option \<times> spread_world" where
  "unwind_open_position E coin w =
     (case me_close E coin of
        Request_lost \<Rightarrow> (None, w)
      | Answer_lost \<Rightarrow> (None, snd (spread_close_route (me_executor E) None (Some coin) ''cooled'' w))
      | Delivered \<Rightarrow>
         (case spread_close_route (me_executor E) None (Some coin) ''cooled'' w of
            (Inl status, w1) \<Rightarrow> (None, w1)
          | (Inr a, w1) \<Rightarrow> (if cs_closed a then Some True else None, w1)))"

definition emit_notice :: "monitor_env \<Rightarrow> string \<Rightarrow> monitor_event \<Rightarrow> monitor_world \<Rightarrow> monitor_world" where
  "emit_notice E coin ev w = (if me_emit_fails E coin then w else w\<lparr>mo_events := mo_events w @ [ev]\<rparr>)"

section \<open>The cycle\<close>

definition hash_state :: "monitor_world \<Rightarrow> string \<Rightarrow> string" where
  "hash_state w coin = (case map_of (mo_hash w) coin of None \<Rightarrow> ''cool'' | Some s \<Rightarrow> if s = [] then ''cool'' else s)"

text \<open>The new state of the coin and the world after the plan and the notice; \<open>Inl\<close> when a statement raised.\<close>

definition react ::
  "monitor_settings \<Rightarrow> monitor_env \<Rightarrow> string \<Rightarrow> rat \<Rightarrow> string \<Rightarrow> monitor_world \<Rightarrow> py_error + (string \<times> monitor_world)" where
  "react S E coin tr prev w =
     (if prev \<noteq> ''hot'' \<and> ms_enter S < \<bar>tr\<bar> then
        (if me_count_fails E coin then Inl RuntimeError
         else case (if armed_count (mo_trade w) < ms_max S then build_plan S E coin tr (mo_trade w) else (None, mo_trade w)) of
                (plan, t1) \<Rightarrow> Inr (''hot'', emit_notice E coin (Spread_hot coin (py_round tr 4) plan) (w\<lparr>mo_trade := t1\<rparr>)))
      else if prev = ''hot'' \<and> \<bar>tr\<bar> < ms_exit S then
        (case expire_plans E coin (mo_trade w) of
           (expired, t1) \<Rightarrow>
            (case unwind_open_position E coin t1 of
               (shut, t2) \<Rightarrow> Inr (''cool'', emit_notice E coin (Spread_cooled coin (py_round tr 4) expired shut) (w\<lparr>mo_trade := t2\<rparr>))))
      else Inr (prev, w))"

definition coin_reading :: "monitor_settings \<Rightarrow> monitor_env \<Rightarrow> string \<Rightarrow> rat option result" where
  "coin_reading S E coin =
     (case me_funding E coin of Inl e \<Rightarrow> Inl e | Inr (hl, bf) \<Rightarrow> trailing_spread (ms_trail S) (me_now E) hl bf)"

text \<open>One coin. \<open>False\<close>: a statement outside the guards raised, and the cycle ends.\<close>

definition check_coin :: "monitor_settings \<Rightarrow> monitor_env \<Rightarrow> string \<Rightarrow> monitor_world \<Rightarrow> bool \<times> monitor_world" where
  "check_coin S E coin w =
     (case coin_reading S E coin of
        Inl e \<Rightarrow> (True, w)
      | Inr None \<Rightarrow> (True, w)
      | Inr (Some tr) \<Rightarrow>
          if me_hget_fails E coin then (False, w)
          else (case react S E coin tr (hash_state w coin) w of
                  Inl e \<Rightarrow> (False, w)
                | Inr (state, w1) \<Rightarrow>
                    if state \<noteq> hash_state w coin \<and> me_hset_fails E coin then (False, w1)
                    else (True, w1\<lparr>mo_hash := (if state \<noteq> hash_state w coin then AList.update coin state (mo_hash w1) else mo_hash w1),
                                  mo_status := AList.update coin (py_round (tr * 100) 2, state) (mo_status w1)\<rparr>)))"

fun check_all :: "monitor_settings \<Rightarrow> monitor_env \<Rightarrow> string list \<Rightarrow> monitor_world \<Rightarrow> bool \<times> monitor_world" where
  "check_all S E [] w = (True, w)"
| "check_all S E (coin # coins) w =
     (case check_coin S E coin w of
        (False, w1) \<Rightarrow> (False, w1)
      | (True, w1) \<Rightarrow> check_all S E coins w1)"

definition monitored_coins :: "string \<Rightarrow> string list" where
  "monitored_coins symbols =
     map (\<lambda>c. py_upper (py_strip c)) (filter (\<lambda>c. py_strip c \<noteq> []) (py_split (CHR '','') symbols))"

text \<open>The loop survives a cycle that raised; every cycle has its own environment.\<close>

fun monitor_loop :: "monitor_settings \<Rightarrow> string list \<Rightarrow> monitor_env list \<Rightarrow> monitor_world \<Rightarrow> monitor_world" where
  "monitor_loop S coins [] w = w"
| "monitor_loop S coins (E # Es) w = monitor_loop S coins Es (snd (check_all S E coins w))"


section \<open>What a walk and a reading mean\<close>

definition depth :: "book_level list \<Rightarrow> rat" where
  "depth levels = (\<Sum>l\<leftarrow>levels. lv_px l * lv_sz l)"

definition sane_book :: "book_level list \<Rightarrow> bool" where
  "sane_book levels \<longleftrightarrow> (\<forall>l\<in>set levels. 0 < lv_px l \<and> 0 \<le> lv_sz l)"

lemma depth_simps [simp]: "depth [] = 0" "depth (l # ls) = lv_px l * lv_sz l + depth ls"
  by (simp_all add: depth_def)

lemma sane_book_Cons [simp]: "sane_book (l # ls) \<longleftrightarrow> 0 < lv_px l \<and> 0 \<le> lv_sz l \<and> sane_book ls"
  by (auto simp: sane_book_def)

lemma depth_nonneg: "sane_book ls \<Longrightarrow> 0 \<le> depth ls"
  by (induction ls) auto

text \<open>The quantity bought for an amount lies between the amounts at the two ends of a price range.\<close>

lemma quantity_between:
  fixes take px lo hi :: rat
  assumes "0 \<le> take" "0 < lo" "lo \<le> px" "px \<le> hi"
  shows "take / hi \<le> take / px" "take / px \<le> take / lo"
  using assms by (auto intro!: divide_left_mono mult_pos_pos)

lemma walk_levels_spec:
  assumes "sane_book ls" "0 < r"
  shows "\<exists>r' q'. walk_levels ls r c q = Inr (r', c + (r - r'), q') \<and> r' = max 0 (r - depth ls) \<and>
    (\<forall>lo hi. 0 < lo \<longrightarrow> (\<forall>l\<in>set ls. lo \<le> lv_px l \<and> lv_px l \<le> hi) \<longrightarrow> (r - r') / hi \<le> q' - q \<and> q' - q \<le> (r - r') / lo)"
  using assms
proof (induction ls arbitrary: r c q)
  case (Cons l ls)
  define t where "t = min r (lv_px l * lv_sz l)"
  have px: "0 < lv_px l" "0 \<le> lv_sz l" "sane_book ls" using Cons.prems(1) by auto
  have t: "0 \<le> t" "t \<le> r" using px Cons.prems(2) by (auto simp: t_def min_def)
  have d: "0 \<le> depth ls" using px(3) by (rule depth_nonneg)
  have step: "walk_levels (l # ls) r c q =
      (if r - t \<le> 0 then Inr (r - t, c + t, q + t / lv_px l) else walk_levels ls (r - t) (c + t) (q + t / lv_px l))"
    using px(1) by (simp add: Let_def t_def)
  show ?case
  proof (cases "r - t \<le> 0")
    case True
    then have "t = r" using t by simp
    moreover have "r \<le> lv_px l * lv_sz l" using \<open>t = r\<close> by (simp add: t_def min_def split: if_splits)
    ultimately show ?thesis
      using step d px(1) quantity_between [of r] Cons.prems(2) by (auto simp: max_def)
  next
    case False
    then have eq: "t = lv_px l * lv_sz l" by (simp add: t_def min_def split: if_splits)
    obtain r' q' where ih: "walk_levels ls (r - t) (c + t) (q + t / lv_px l) = Inr (r', c + t + (r - t - r'), q')"
        "r' = max 0 (r - t - depth ls)"
        "\<forall>lo hi. 0 < lo \<longrightarrow> (\<forall>l\<in>set ls. lo \<le> lv_px l \<and> lv_px l \<le> hi) \<longrightarrow>
          (r - t - r') / hi \<le> q' - (q + t / lv_px l) \<and> q' - (q + t / lv_px l) \<le> (r - t - r') / lo"
      using Cons.IH [OF px(3), of "r - t" "c + t" "q + t / lv_px l"] False by (fold not_le) blast
    have "(r - r') / hi \<le> q' - q \<and> q' - q \<le> (r - r') / lo"
      if b: "0 < lo" "\<forall>x\<in>set (l # ls). lo \<le> lv_px x \<and> lv_px x \<le> hi" for lo hi
    proof -
      have "(r - r') / hi = t / hi + (r - t - r') / hi" "(r - r') / lo = t / lo + (r - t - r') / lo"
        by (simp_all add: add_divide_distrib [symmetric])
      then show ?thesis using ih(3) [rule_format, of lo hi] quantity_between [of t lo "lv_px l" hi] t(1) b by auto
    qed
    then show ?thesis using step False ih(1,2) eq by (auto simp: algebra_simps)
  qed
qed auto

text \<open>
  The walk of a book finds a price exactly when the side holds the notional, and the average
  price then lies within any range that holds all its levels; the slippage is its distance from the
  best level in basis points.
\<close>

theorem walk_price_within_book:
  assumes "sane_book levels" "0 < notional" "levels \<noteq> []"
  shows "(walk levels notional \<noteq> Inr None \<longleftrightarrow> notional \<le> depth levels) \<and>
    (\<forall>avg slip lo hi. walk levels notional = Inr (Some (avg, slip)) \<longrightarrow> 0 < lo \<longrightarrow>
      (\<forall>l\<in>set levels. lo \<le> lv_px l \<and> lv_px l \<le> hi) \<longrightarrow>
      lo \<le> avg \<and> avg \<le> hi \<and> slip = \<bar>avg - lv_px (hd levels)\<bar> / lv_px (hd levels) * 10000)"
proof -
  obtain l ls where levels: "levels = l # ls" using assms(3) by (cases levels) auto
  obtain r' q where w: "walk_levels levels notional 0 0 = Inr (r', notional - r', q)" "r' = max 0 (notional - depth levels)"
    "\<forall>lo hi. 0 < lo \<longrightarrow> (\<forall>l\<in>set levels. lo \<le> lv_px l \<and> lv_px l \<le> hi) \<longrightarrow> (notional - r') / hi \<le> q \<and> q \<le> (notional - r') / lo"
    using walk_levels_spec [OF assms(1,2), of 0 0] by auto
  have best: "0 < lv_px l" using assms(1) levels by simp
  show ?thesis
  proof (cases "0 < r'")
    case True
    then show ?thesis using w by (simp add: walk_def levels max_def split: if_splits)
  next
    case False
    then have full: "r' = 0" "notional \<le> depth levels" using w(2) by (simp_all add: max_def split: if_splits)
    define lo where "lo = Min (lv_px ` set levels)"
    define hi where "hi = Max (lv_px ` set levels)"
    have range: "\<forall>l\<in>set levels. lo \<le> lv_px l \<and> lv_px l \<le> hi" by (simp add: lo_def hi_def)
    have "0 < lo" using assms(1,3) by (simp add: lo_def sane_book_def)
    then have "notional / hi \<le> q" using w(3) range full(1) by simp
    moreover have "0 < hi" using range best levels by (metis less_le_trans list.set_intros(1))
    ultimately have q: "0 < q" using assms(2) by (meson divide_pos_pos less_le_trans)
    have price: "walk levels notional = Inr (Some (notional / q, \<bar>notional / q - lv_px l\<bar> / lv_px l * 10000))"
      using w(1) full(1) q best by (simp add: walk_def levels)
    have "a \<le> notional / q \<and> notional / q \<le> b" if "0 < a" "\<forall>l\<in>set levels. a \<le> lv_px l \<and> lv_px l \<le> b" for a b
    proof -
      have "0 < b" using that best levels by (metis less_le_trans list.set_intros(1))
      moreover have "notional / b \<le> q" "q \<le> notional / a" using w(3) that full(1) by auto
      ultimately show ?thesis using q that(1) by (simp add: field_simps)
    qed
    then have "\<forall>a b. 0 < a \<longrightarrow> (\<forall>l\<in>set levels. a \<le> lv_px l \<and> lv_px l \<le> b) \<longrightarrow> a \<le> notional / q \<and> notional / q \<le> b"
      by blast
    moreover have "hd levels = l" by (simp add: levels)
    ultimately show ?thesis unfolding price using full(2) by blast
  qed
qed

definition demo_asks :: "book_level list" where
  "demo_asks = [\<lparr>lv_px = 10, lv_sz = 3\<rparr>, \<lparr>lv_px = 12, lv_sz = 5\<rparr>, \<lparr>lv_px = 20, lv_sz = 9\<rparr>]"

theorem walk_price_within_book_witness:
  "walk demo_asks 54 = Inr (Some (54 / 5, 800)) \<and> 10 \<le> (54 / 5 :: rat) \<and> (54 / 5 :: rat) \<le> 20"
proof -
  have s: "sane_book demo_asks" "demo_asks \<noteq> []" by (simp_all add: demo_asks_def sane_book_def)
  have w: "walk demo_asks 54 = Inr (Some (54 / 5, 800))" by code_simp
  then show ?thesis using walk_price_within_book [OF s(1) _ s(2), of 54] by (auto simp: demo_asks_def)
qed

text \<open>
  A coin on which one venue pays a constant rate an hour and the other settles a constant rate
  for every hour of a settlement's gap, whatever mix of four and eight hour settlements, reads
  the difference of the two, annualised.
\<close>

fun accrues :: "rat \<Rightarrow> (int \<times> rat) list \<Rightarrow> bool" where
  "accrues s ((t0, r0) # (t1, rate) # ps) \<longleftrightarrow> rate = s * gap_hours t0 t1 \<and> accrues s ((t1, rate) # ps)"
| "accrues s ps \<longleftrightarrow> True"

lemma settled_accrues: "accrues s ps \<Longrightarrow> fst (settled cutoff ps) = s * snd (settled cutoff ps)"
  by (induction cutoff ps rule: settled.induct) (auto simp: algebra_simps split: prod.splits)

theorem trailing_of_constant_rates:
  assumes "trailing_spread trail now hl bf = Inr (Some x)"
    and "\<forall>v\<in>set hl. v = r" "accrues s (by_time bf)"
  shows "x = (r - s) * (24 * 365)"
proof -
  have const: "sum_list vs = of_nat (length vs) * r" if "\<forall>v\<in>set vs. v = r" for vs :: "rat list"
    using that by (induction vs) (auto simp: algebra_simps)
  have "sum_list (last_n trail hl) = of_nat (length (last_n trail hl)) * r"
    using assms(2) by (intro const) (auto simp: last_n_def dest: in_set_dropD)
  moreover have "fst p = s * snd p" if "settled (now - int trail * 3600 * 1000) (by_time bf) = p" for p
    using settled_accrues [OF assms(3)] that by blast
  ultimately show ?thesis
    using assms(1)
    by (fastforce simp: trailing_spread_def float_div_def HOURS_ANN_def split: if_splits sum.splits prod.splits)
qed

theorem trailing_of_constant_rates_witness:
  "trailing_spread 8 36000000 [1/100, 1/100, 1/100, 1/100]
     [(0, 1), (14400000, 8/1000), (28800000, 8/1000)] = Inr (Some ((1/100 - 2/1000) * (24 * 365)))"
proof -
  have "(case trailing_spread 8 36000000 [1/100, 1/100, 1/100, 1/100]
     [(0, 1), (14400000, 8/1000), (28800000, 8/1000)] of Inr (Some x) \<Rightarrow> True | _ \<Rightarrow> False)" by code_simp
  then obtain x where "trailing_spread 8 36000000 [1/100, 1/100, 1/100, 1/100]
     [(0, 1), (14400000, 8/1000), (28800000, 8/1000)] = Inr (Some x)" by (auto split: sum.splits option.splits)
  moreover have "accrues (2/1000) (by_time [(0, 1), (14400000, 8/1000), (28800000, 8/1000)])"
    by (simp add: by_time_def gap_hours_def)
  ultimately show ?thesis using trailing_of_constant_rates [where r = "1/100" and s = "2/1000"] by auto
qed


section \<open>Steps of the monitor\<close>

text \<open>What one look at a coin does: nothing, or one of the two transitions.\<close>

inductive coin_step :: "monitor_settings \<Rightarrow> monitor_env \<Rightarrow> string \<Rightarrow> monitor_world \<Rightarrow> monitor_world \<Rightarrow> bool"
  for S E c w where
  quiet: "mo_trade w' = mo_trade w \<Longrightarrow> mo_hash w' = mo_hash w \<Longrightarrow> mo_events w' = mo_events w \<Longrightarrow> coin_step S E c w w'"
| heats: "coin_reading S E c = Inr (Some tr) \<Longrightarrow> hash_state w c \<noteq> ''hot'' \<Longrightarrow> ms_enter S < \<bar>tr\<bar> \<Longrightarrow>
    (if armed_count (mo_trade w) < ms_max S then build_plan S E c tr (mo_trade w) else (None, mo_trade w)) = (plan, mo_trade w') \<Longrightarrow>
    mo_events w' = mo_events w @ (if me_emit_fails E c then [] else [Spread_hot c (py_round tr 4) plan]) \<Longrightarrow>
    mo_hash w' = (if me_hset_fails E c then mo_hash w else AList.update c ''hot'' (mo_hash w)) \<Longrightarrow> coin_step S E c w w'"
| cools: "coin_reading S E c = Inr (Some tr) \<Longrightarrow> hash_state w c = ''hot'' \<Longrightarrow> \<bar>tr\<bar> < ms_exit S \<Longrightarrow>
    expire_plans E c (mo_trade w) = (expired, t) \<Longrightarrow> unwind_open_position E c t = (shut, mo_trade w') \<Longrightarrow>
    mo_events w' = mo_events w @ (if me_emit_fails E c then [] else [Spread_cooled c (py_round tr 4) expired shut]) \<Longrightarrow>
    mo_hash w' = (if me_hset_fails E c then mo_hash w else AList.update c ''cool'' (mo_hash w)) \<Longrightarrow> coin_step S E c w w'"

lemma check_coin_step: "coin_step S E c w (snd (check_coin S E c w))"
proof (cases "\<exists>tr. coin_reading S E c = Inr (Some tr) \<and> \<not> me_hget_fails E c")
  case False
  then have "snd (check_coin S E c w) = w"
    by (auto simp: check_coin_def split: sum.splits option.splits)
  then show ?thesis by (simp add: coin_step.quiet)
next
  case True
  then obtain tr where tr: "coin_reading S E c = Inr (Some tr)" "\<not> me_hget_fails E c" by auto
  let ?prev = "hash_state w c"
  show ?thesis
  proof (cases "?prev \<noteq> ''hot'' \<and> ms_enter S < \<bar>tr\<bar>")
    case hot: True
    obtain plan t1 where p: "(if armed_count (mo_trade w) < ms_max S then build_plan S E c tr (mo_trade w) else (None, mo_trade w)) = (plan, t1)"
      by fastforce
    show ?thesis
    proof (cases "me_count_fails E c")
      case True
      then show ?thesis using tr hot by (intro coin_step.quiet) (simp_all add: check_coin_def react_def)
    next
      case False
      then show ?thesis
        using tr hot p by (intro coin_step.heats [OF tr(1), where plan = plan]) (auto simp: check_coin_def react_def emit_notice_def)
    qed
  next
    case nothot: False
    show ?thesis
    proof (cases "?prev = ''hot'' \<and> \<bar>tr\<bar> < ms_exit S")
      case True
      obtain expired t where e: "expire_plans E c (mo_trade w) = (expired, t)" by fastforce
      obtain shut t2 where u: "unwind_open_position E c t = (shut, t2)" by fastforce
      show ?thesis
        using tr True e u by (intro coin_step.cools [OF tr(1), where expired = expired and shut = shut and t = t])
          (auto simp: check_coin_def react_def emit_notice_def)
    next
      case False
      have "react S E c tr ?prev w = Inr (?prev, w)" unfolding react_def using nothot False by (simp only: if_False)
      then show ?thesis using tr by (intro coin_step.quiet) (simp_all add: check_coin_def)
    qed
  qed
qed

definition some_step :: "monitor_settings \<Rightarrow> monitor_env list \<Rightarrow> string list \<Rightarrow> monitor_world \<Rightarrow> monitor_world \<Rightarrow> bool" where
  "some_step S Es coins w w' \<longleftrightarrow> (\<exists>E\<in>set Es. \<exists>c\<in>set coins. coin_step S E c w w')"

lemma check_all_steps:
  "\<lbrakk>E \<in> set Es; set cs \<subseteq> set coins\<rbrakk> \<Longrightarrow> (some_step S Es coins)\<^sup>*\<^sup>* w (snd (check_all S E cs w))"
proof (induction cs arbitrary: w)
  case (Cons c cs)
  obtain go w1 where c: "check_coin S E c w = (go, w1)" by fastforce
  have "some_step S Es coins w w1" using Cons.prems check_coin_step [of S E c w] c by (auto simp: some_step_def)
  then show ?case using Cons.IH [of w1] Cons.prems c by (cases go) (auto intro: converse_rtranclp_into_rtranclp)
qed simp

lemma monitor_loop_steps:
  "set Fs \<subseteq> set Es \<Longrightarrow> (some_step S Es coins)\<^sup>*\<^sup>* w (monitor_loop S coins Fs w)"
proof (induction Fs arbitrary: w)
  case (Cons E Fs)
  then show ?case using check_all_steps [of E Es coins coins S w] Cons.IH by (auto intro: rtranclp_trans)
qed simp


section \<open>The tables under a step\<close>

lemma close_row_plans:
  assumes "close_position_row X x reason w = (r, w')"
  shows "sw_plans w' = sw_plans w"
proof -
  obtain sr w1 where s: "try_shut_leg X (sx_short_account x) (sx_symbol x) ''short'' w = (sr, w1)" by fastforce
  obtain lr w2 where l: "try_shut_leg X (sx_long_account x) (sx_symbol x) ''long'' w1 = (lr, w2)" by fastforce
  have "sw_plans w2 = sw_plans w"
    using try_shut_leg_calls [OF s] try_shut_leg_calls [OF l] by (auto simp: only_calls_def)
  then show ?thesis
    using assms
    by (auto simp: close_position_row_def s l Let_def and_then_def guarded_stmt_def spread_frame split: if_splits)
qed

definition coin_rows :: "string \<Rightarrow> spread_world \<Rightarrow> spread_position list" where
  "coin_rows c w = filter (\<lambda>x. sx_coin x = c) (sw_positions w)"

lemma rows_of_update:
  assumes "distinct (map sx_id (sw_positions w))" "x \<in> set (sw_positions w)" "sx_coin x \<noteq> k"
  shows "coin_rows k (update_position (sx_id x) (closed_row reason a b ok) w) = coin_rows k w"
proof -
  have "(if sx_id y = sx_id x then closed_row reason a b ok y else y) = y" if "y \<in> set (sw_positions w)" "sx_coin y = k" for y
    using same_id_same_row [OF assms(1) that(1) assms(2)] assms(3) that(2) by auto
  moreover have "sx_coin (closed_row reason a b ok y) = sx_coin y" for y by (simp add: closed_row_def)
  ultimately show ?thesis
    by (auto simp: coin_rows_def spread_frame filter_map o_def intro!: map_idI cong: filter_cong)
qed

lemma close_spread_tables:
  assumes "close_spread X None (Some c) reason w = (r, w')" "distinct (map sx_id (sw_positions w))"
  shows "sw_plans w' = sw_plans w \<and> map sx_id (sw_positions w') = map sx_id (sw_positions w) \<and>
    (k \<noteq> py_upper c \<longrightarrow> coin_rows k w' = coin_rows k w)"
proof (cases "c = [] \<or> open_for_coin w (py_upper c) = None")
  case True
  then have "w' = w" using assms(1) by (auto simp: close_spread_def find_open_def split: if_splits)
  then show ?thesis by simp
next
  case False
  then obtain x where x: "open_for_coin w (py_upper c) = Some x" "c \<noteq> []" by auto
  then have mem: "x \<in> set (sw_positions w)" "sx_coin x = py_upper c"
    by (auto simp: open_for_coin_def find_Some_iff)
  have row: "close_position_row X x reason w = (r, w')" using assms(1) x by (simp add: close_spread_def find_open_def)
  from close_position_row_calls [OF row] consider "sw_positions w' = sw_positions w"
    | a b ok where "sw_positions w' = sw_positions (update_position (sx_id x) (closed_row reason a b ok) w)" by blast
  then show ?thesis
  proof cases
    case 1
    then show ?thesis using close_row_plans [OF row] by (simp add: coin_rows_def)
  next
    case 2
    then have "coin_rows k w' = coin_rows k (update_position (sx_id x) (closed_row reason a b ok) w)" by (simp add: coin_rows_def)
    moreover have "map sx_id (sw_positions w') = map sx_id (sw_positions w)" using 2 by (simp add: spread_frame)
    ultimately show ?thesis using close_row_plans [OF row] rows_of_update [OF assms(2) mem(1)] mem(2) by auto
  qed
qed

lemma unwind_tables:
  assumes "unwind_open_position E c w = (shut, w')" "distinct (map sx_id (sw_positions w))"
  shows "sw_plans w' = sw_plans w \<and> map sx_id (sw_positions w') = map sx_id (sw_positions w) \<and>
    (k \<noteq> py_upper c \<longrightarrow> coin_rows k w' = coin_rows k w)"
proof -
  obtain r v where c: "close_spread (me_executor E) None (Some c) ''cooled'' w = (r, v)" by fastforce
  have "w' = w \<or> w' = v"
    using assms(1) by (auto simp: unwind_open_position_def spread_close_route_def c split: delivery.splits sum.splits if_splits)
  then show ?thesis using close_spread_tables [OF c assms(2)] by auto
qed

lemma unwind_plans:
  assumes "unwind_open_position E c w = (shut, w')"
  shows "sw_plans w' = sw_plans w"
proof -
  obtain r v where c: "close_spread (me_executor E) None (Some c) ''cooled'' w = (r, v)" by fastforce
  have "v = w \<or> (\<exists>x. close_position_row (me_executor E) x ''cooled'' w = (r, v))"
    using c by (auto simp: close_spread_def find_open_def split: if_splits option.splits)
  then have "sw_plans v = sw_plans w" using close_row_plans by blast
  moreover have "w' = w \<or> w' = v"
    using assms by (auto simp: unwind_open_position_def spread_close_route_def c split: delivery.splits sum.splits if_splits)
  ultimately show ?thesis by auto
qed

text \<open>The plans of a coin, and what is armed.\<close>

definition plans_of :: "string \<Rightarrow> spread_world \<Rightarrow> spread_plan list" where
  "plans_of c w = filter (\<lambda>p. pn_coin p = c) (sw_plans w)"

definition armed_coins :: "spread_world \<Rightarrow> string list" where
  "armed_coins w = map pn_coin (filter (\<lambda>p. pn_status p = Plan_armed) (sw_plans w))"

lemma armed_count_coins: "armed_count w = length (armed_coins w)"
  by (simp add: armed_count_def armed_coins_def)

lemma expire_coin_tables:
  "sw_positions (expire_coin c w) = sw_positions w"
  "k \<noteq> c \<Longrightarrow> plans_of k (expire_coin c w) = plans_of k w"
  "armed_coins (expire_coin c w) = filter (\<lambda>k. k \<noteq> c) (armed_coins w)"
proof -
  show "sw_positions (expire_coin c w) = sw_positions w" by (simp add: expire_coin_def)
  show "plans_of k (expire_coin c w) = plans_of k w" if "k \<noteq> c"
    using that by (auto simp: expire_coin_def plans_of_def armed_for_def intro!: filter_update_where_keep)
  have "filter (\<lambda>p. pn_status p = Plan_armed) (update_where (armed_for c) (\<lambda>p. p\<lparr>pn_status := Plan_expired\<rparr>) ps) =
      filter (\<lambda>p. pn_coin p \<noteq> c) (filter (\<lambda>p. pn_status p = Plan_armed) ps)" for ps
    by (induction ps) (auto simp: update_where_def armed_for_def)
  then show "armed_coins (expire_coin c w) = filter (\<lambda>k. k \<noteq> c) (armed_coins w)"
    by (simp add: armed_coins_def expire_coin_def filter_map o_def)
qed

lemma price_plan_coin:
  assumes "price_plan S c tr hl bf = Inr (Some p)"
  shows "pf_coin p = c"
  using assms by (auto simp: price_plan_def plan_figures_of_def Let_def split: sum.splits option.splits prod.splits)

lemma build_plan_cases:
  assumes "build_plan S E c tr w = (plan, w')"
  obtains "plan = None" "w' = w"
  | i p hl bf where "plan = Some (i, p)" "pf_coin p = c" "i = me_new_id E (sw_plans (expire_coin c w))"
    "w' = expire_coin c w\<lparr>sw_plans := sw_plans (expire_coin c w) @ [plan_row i p]\<rparr>"
    "me_books E c = Inr (hl, bf)" "price_plan S c tr hl bf = Inr (Some p)"
  using assms price_plan_coin
  by (fastforce simp: build_plan_def persist_def Let_def split: sum.splits option.splits prod.splits if_splits)


section \<open>Slots\<close>

lemma coin_step_slots:
  assumes "coin_step S E c w w'" "distinct (armed_coins (mo_trade w))" "armed_count (mo_trade w) \<le> ms_max S"
  shows "distinct (armed_coins (mo_trade w')) \<and> armed_count (mo_trade w') \<le> ms_max S"
  using assms(1)
proof cases
  case quiet
  then show ?thesis using assms by simp
next
  case (heats tr plan)
  show ?thesis
  proof (cases "armed_count (mo_trade w) < ms_max S")
    case True
    then have b: "build_plan S E c tr (mo_trade w) = (plan, mo_trade w')" using heats(4) by simp
    show ?thesis
      using b
    proof (cases rule: build_plan_cases)
      case 1
      then show ?thesis using assms by simp
    next
      case (2 i p hl bf)
      have "armed_coins (mo_trade w') = filter (\<lambda>k. k \<noteq> c) (armed_coins (mo_trade w)) @ [c]"
        using 2(2,4) expire_coin_tables(3) [of c "mo_trade w"] by (simp add: armed_coins_def plan_row_def)
      then show ?thesis using assms(2) True
        by (simp add: armed_count_coins Suc_le_eq) (meson le_less_trans length_filter_le)
    qed
  qed (use heats(4) assms in simp)
next
  case (cools tr expired t shut)
  have "armed_coins (mo_trade w') = armed_coins t"
    using unwind_plans [OF cools(5)] by (simp add: armed_coins_def)
  moreover have "armed_coins t = armed_coins (mo_trade w) \<or> armed_coins t = filter (\<lambda>k. k \<noteq> c) (armed_coins (mo_trade w))"
    using cools(4) expire_coin_tables(3) by (auto simp: expire_plans_def split: if_splits)
  ultimately show ?thesis using assms(2,3) le_trans [OF length_filter_le] by (auto simp: armed_count_coins)
qed

text \<open>
  C32. However many cycles run and whichever statements of them fail, a coin never has two armed
  plans, and no more plans are armed than the cap allows.
\<close>

theorem one_armed_plan_per_coin:
  assumes "distinct (armed_coins (mo_trade w))" "armed_count (mo_trade w) \<le> ms_max S"
  shows "distinct (armed_coins (mo_trade (monitor_loop S coins Es w))) \<and>
    armed_count (mo_trade (monitor_loop S coins Es w)) \<le> ms_max S"
  using monitor_loop_steps [OF subset_refl, of S Es coins w]
proof (induction rule: rtranclp_induct)
  case (step y z)
  then show ?case using coin_step_slots unfolding some_step_def by blast
qed (use assms in simp)

section \<open>Hysteresis\<close>

text \<open>The kinds of a coin's notices, hot or cooled, in their order.\<close>

definition notice_kind :: "string \<Rightarrow> monitor_event \<Rightarrow> bool list" where
  "notice_kind c ev = (case ev of Spread_hot k _ _ \<Rightarrow> (if k = c then [True] else [])
     | Spread_cooled k _ _ _ \<Rightarrow> (if k = c then [False] else []))"

definition notice_kinds :: "string \<Rightarrow> monitor_event list \<Rightarrow> bool list" where
  "notice_kinds c evs = concat (map (notice_kind c) evs)"

fun alternating :: "bool \<Rightarrow> bool list \<Rightarrow> bool" where
  "alternating b [] \<longleftrightarrow> True"
| "alternating b (k # ks) \<longleftrightarrow> k \<noteq> b \<and> alternating k ks"

lemma alternating_snoc: "alternating b (ks @ [k]) \<longleftrightarrow> alternating b ks \<and> k \<noteq> last (b # ks)"
  by (induction b ks rule: alternating.induct) auto

lemma last_of_snoc: "last (b # ks @ [k]) = k"
  by simp

lemma notice_kinds_simps [simp]:
  "notice_kinds c [] = []" "notice_kinds c (xs @ ys) = notice_kinds c xs @ notice_kinds c ys"
  "notice_kinds c [Spread_hot k r p] = (if k = c then [True] else [])"
  "notice_kinds c [Spread_cooled k r n b] = (if k = c then [False] else [])"
  by (simp_all add: notice_kinds_def notice_kind_def)

definition is_hot :: "monitor_world \<Rightarrow> string \<Rightarrow> bool" where
  "is_hot w c \<longleftrightarrow> hash_state w c = ''hot''"

lemma is_hot_update:
  assumes "mo_hash w' = (if fails then mo_hash w else AList.update d s (mo_hash w))" "d = c \<longrightarrow> \<not> fails"
  shows "is_hot w' c = (if d = c then s = ''hot'' else is_hot w c)"
  using assms by (auto simp: is_hot_def hash_state_def update_conv' split: if_splits)

lemma is_hot_same: "mo_hash w' = mo_hash w \<Longrightarrow> is_hot w' k = is_hot w k"
  by (simp add: is_hot_def hash_state_def)

text \<open>A step on a coin whose statements do not fail: no notice and the same state, or one notice that toggles it.\<close>

lemma coin_step_notice:
  assumes "coin_step S E d w w'" "d = c \<longrightarrow> \<not> me_hset_fails E c \<and> \<not> me_emit_fails E c"
  shows "\<exists>evs. mo_events w' = mo_events w @ evs \<and>
    (notice_kinds c evs = [] \<and> is_hot w' c = is_hot w c \<or> notice_kinds c evs = [is_hot w' c] \<and> is_hot w' c = (\<not> is_hot w c))"
  using assms(1)
proof cases
  case quiet
  then show ?thesis using is_hot_same [OF quiet(2), of c] by (intro exI [of _ "[]"]) simp
next
  case (heats tr plan)
  let ?evs = "if me_emit_fails E d then [] else [Spread_hot d (py_round tr 4) plan]"
  have "is_hot w' c = (if d = c then True else is_hot w c)" using is_hot_update [OF heats(6)] assms(2) by simp
  then show ?thesis using heats(2,5) assms(2) by (intro exI [of _ ?evs]) (auto simp: is_hot_def)
next
  case (cools tr expired t shut)
  let ?evs = "if me_emit_fails E d then [] else [Spread_cooled d (py_round tr 4) expired shut]"
  have "is_hot w' c = (if d = c then False else is_hot w c)" using is_hot_update [OF cools(7)] assms(2) by simp
  then show ?thesis using cools(2,6) assms(2) by (intro exI [of _ ?evs]) (auto simp: is_hot_def)
qed

text \<open>
  As long as the state of a coin can be stored and its notices sent, its notices alternate
  between hot and cooled, starting with the one its stored state is not, and the stored state is
  the last one announced, whatever fails for the other coins.
\<close>

theorem notices_alternate:
  assumes "\<forall>E\<in>set Es. \<not> me_hset_fails E c \<and> \<not> me_emit_fails E c"
  shows "\<exists>evs. mo_events (monitor_loop S coins Es w) = mo_events w @ evs \<and>
    alternating (is_hot w c) (notice_kinds c evs) \<and>
    is_hot (monitor_loop S coins Es w) c = last (is_hot w c # notice_kinds c evs)"
  using monitor_loop_steps [OF subset_refl, of S Es coins w]
proof (induction rule: rtranclp_induct)
  case (step y z)
  then obtain evs where evs: "mo_events y = mo_events w @ evs" "alternating (is_hot w c) (notice_kinds c evs)"
    "is_hot y c = last (is_hot w c # notice_kinds c evs)" by blast
  obtain E d where "E \<in> set Es" "coin_step S E d y z" using step.hyps(2) by (auto simp: some_step_def)
  then obtain es where "mo_events z = mo_events y @ es"
    "notice_kinds c es = [] \<and> is_hot z c = is_hot y c \<or> notice_kinds c es = [is_hot z c] \<and> is_hot z c = (\<not> is_hot y c)"
    using coin_step_notice [of S E d y z c] assms by blast
  then show ?case
    using evs by (intro exI [of _ "evs @ es"]) (auto simp: alternating_snoc last_of_snoc simp del: last.simps)
qed simp


section \<open>What a coin's state keeps from happening\<close>

text \<open>A reading that does not move a coin whose stored state is hot, or not hot.\<close>

definition stays :: "monitor_settings \<Rightarrow> bool \<Rightarrow> string \<Rightarrow> monitor_env \<Rightarrow> bool" where
  "stays S hot c E \<longleftrightarrow> (case coin_reading S E c of Inr (Some tr) \<Rightarrow> (if hot then ms_exit S \<le> \<bar>tr\<bar> else \<bar>tr\<bar> \<le> ms_enter S) | _ \<Rightarrow> True)"

definition left_alone :: "string \<Rightarrow> monitor_world \<Rightarrow> monitor_world \<Rightarrow> bool" where
  "left_alone c w w' \<longleftrightarrow> plans_of c (mo_trade w') = plans_of c (mo_trade w) \<and> coin_rows c (mo_trade w') = coin_rows c (mo_trade w) \<and>
     map sx_id (sw_positions (mo_trade w')) = map sx_id (sw_positions (mo_trade w)) \<and> is_hot w' c = is_hot w c \<and>
     (\<exists>evs. mo_events w' = mo_events w @ evs \<and> notice_kinds c evs = [])"

lemma coin_step_untouched:
  assumes "coin_step S E d w w'" "py_upper d = d" "d = c \<longrightarrow> stays S (is_hot w c) c E"
    and "distinct (map sx_id (sw_positions (mo_trade w)))"
  shows "left_alone c w w'"
  using assms(1)
proof cases
  case quiet
  then show ?thesis using is_hot_same [OF quiet(2), of c] by (auto simp: left_alone_def)
next
  case (heats tr plan)
  then have d: "d \<noteq> c" using assms(3) by (auto simp: stays_def is_hot_def)
  have "sw_positions (mo_trade w') = sw_positions (mo_trade w) \<and> plans_of c (mo_trade w') = plans_of c (mo_trade w)"
  proof (cases "armed_count (mo_trade w) < ms_max S")
    case True
    then have b: "build_plan S E d tr (mo_trade w) = (plan, mo_trade w')" using heats(4) by simp
    show ?thesis using b
      by (cases rule: build_plan_cases) (use d expire_coin_tables(1,2) in \<open>auto simp: plans_of_def plan_row_def\<close>)
  qed (use heats(4) in simp)
  then show ?thesis
    using d heats(5) is_hot_update [OF heats(6), of c] by (auto simp: left_alone_def coin_rows_def)
next
  case (cools tr expired t shut)
  then have d: "d \<noteq> c" using assms(3) by (auto simp: stays_def is_hot_def)
  have t: "sw_positions t = sw_positions (mo_trade w)" "plans_of c t = plans_of c (mo_trade w)"
    using cools(4) d expire_coin_tables(1,2) by (auto simp: expire_plans_def split: if_splits)
  have "plans_of c (mo_trade w') = plans_of c t" using unwind_plans [OF cools(5)] by (simp add: plans_of_def)
  moreover have "map sx_id (sw_positions (mo_trade w')) = map sx_id (sw_positions t) \<and> coin_rows c (mo_trade w') = coin_rows c t"
    using unwind_tables [OF cools(5), of c] assms(2,4) t(1) d by auto
  ultimately show ?thesis
    using d t cools(6) is_hot_update [OF cools(7), of c] by (auto simp: left_alone_def coin_rows_def)
qed

lemma untouched_trans: "\<lbrakk>left_alone c u v; left_alone c v w\<rbrakk> \<Longrightarrow> left_alone c u w"
  unfolding left_alone_def by (metis append.assoc append_self_conv2 notice_kinds_simps(2))

lemma loop_untouched:
  assumes "\<forall>d\<in>set coins. py_upper d = d" "\<forall>E\<in>set Es. stays S (is_hot w c) c E"
    and "distinct (map sx_id (sw_positions (mo_trade w)))"
  shows "left_alone c w (monitor_loop S coins Es w)"
  using monitor_loop_steps [OF subset_refl, of S Es coins w]
proof (induction rule: rtranclp_induct)
  case base
  show ?case by (simp add: left_alone_def)
next
  case (step y z)
  obtain E d where s: "E \<in> set Es" "d \<in> set coins" "coin_step S E d y z" using step.hyps(2) by (auto simp: some_step_def)
  have "left_alone c y z"
    using step.IH assms s by (intro coin_step_untouched [OF s(3)]) (auto simp: left_alone_def)
  then show ?case using step.IH untouched_trans by blast
qed

lemma find_filter: "List.find P (filter Q xs) = List.find (\<lambda>x. Q x \<and> P x) xs"
  by (induction xs) auto

text \<open>
  A coin whose stored state is hot stays as it is while the absolute reading is above the exit
  threshold: no plan is armed, changed or expired, no position closed, nothing announced. So a
  coin that went hot while all slots were taken, or whose book was too thin, gets no plan when
  a slot is free again, and a spread whose sign has turned keeps its plan with the short leg on
  the venue that now has the lower funding.
\<close>

theorem hot_coin_frozen:
  assumes "is_hot w c" "\<forall>d\<in>set coins. py_upper d = d" "distinct (map sx_id (sw_positions (mo_trade w)))"
    and "\<forall>E\<in>set Es. \<forall>tr. coin_reading S E c = Inr (Some tr) \<longrightarrow> ms_exit S \<le> \<bar>tr\<bar>"
  shows "left_alone c w (monitor_loop S coins Es w)"
  using assms by (intro loop_untouched) (auto simp: stays_def split: sum.splits option.splits)

text \<open>
  When the request that should unwind a cooled coin is lost, the coin is stored as cool all the
  same, and its position stays open for as long as no reading goes above the entry threshold:
  no later cycle asks again.
\<close>

theorem lost_unwind_never_retried:
  assumes "coin_reading S E c = Inr (Some tr)" "\<bar>tr\<bar> < ms_exit S" "is_hot w c" "\<not> me_hget_fails E c" "\<not> me_hset_fails E c"
    and "me_close E c = Request_lost" "open_for_coin (mo_trade w) c = Some x"
    and "\<forall>d\<in>set coins. py_upper d = d" "distinct (map sx_id (sw_positions (mo_trade w)))"
    and "\<forall>F\<in>set Es. \<forall>tr. coin_reading S F c = Inr (Some tr) \<longrightarrow> \<bar>tr\<bar> \<le> ms_enter S"
  shows "open_for_coin (mo_trade (monitor_loop S coins Es (snd (check_coin S E c w)))) c = Some x \<and>
    \<not> is_hot (monitor_loop S coins Es (snd (check_coin S E c w))) c"
proof -
  let ?w1 = "snd (check_coin S E c w)"
  obtain expired t where e: "expire_plans E c (mo_trade w) = (expired, t)" by fastforce
  have t: "sw_positions t = sw_positions (mo_trade w)"
    using e expire_coin_tables(1) by (auto simp: expire_plans_def split: if_splits)
  have w1: "mo_trade ?w1 = t" "mo_hash ?w1 = AList.update c ''cool'' (mo_hash w)"
    using assms(1-6) e by (auto simp: check_coin_def react_def is_hot_def unwind_open_position_def emit_notice_def)
  have cool: "\<not> is_hot ?w1 c" using w1(2) by (simp add: is_hot_def hash_state_def update_conv')
  have "left_alone c ?w1 (monitor_loop S coins Es ?w1)"
    using assms(8-10) cool t w1(1) by (intro loop_untouched) (auto simp: stays_def split: sum.splits option.splits)
  then have "coin_rows c (mo_trade (monitor_loop S coins Es ?w1)) = coin_rows c (mo_trade w)" "\<not> is_hot (monitor_loop S coins Es ?w1) c"
    using cool t w1(1) by (simp_all add: left_alone_def coin_rows_def)
  moreover have "open_for_coin v c = List.find (\<lambda>x. sx_status x = Spread_open) (coin_rows c v)" for v
    by (simp add: open_for_coin_def coin_rows_def find_filter)
  ultimately show ?thesis using assms(7) by simp
qed


section \<open>From the plan to the executor\<close>

text \<open>
  The plan announced for a coin is admitted by the executor as it was armed: the short leg goes to
  the account of the venue with the higher funding and the long leg to the other one, each for
  half of the capital, with the abort prices at the same distance from the mid of the two walks.
\<close>

theorem armed_plan_admitted:
  assumes "build_plan S E c tr w = (Some (i, p), w')" "i \<notin> pn_id ` set (sw_plans w)" "open_for_coin w c = None"
    and "account_of_venue X ''hyperliquid'' = Some h" "account_of_venue X ''blofin'' = Some b"
  shows "admit_plan X i w' = Inr (plan_row i p, if 0 < tr then h else b, if 0 < tr then b else h) \<and>
    pn_notional (plan_row i p) = py_round (ms_capital S / 2) 2 \<and>
    (\<exists>mid. pn_abort_up (plan_row i p) = Some (py_round (mid * (1 + ms_abort S)) 8) \<and>
       pn_abort_down (plan_row i p) = Some (py_round (mid * (1 - ms_abort S)) 8) \<and> 2 * mid = pf_hl_price p + pf_blofin_price p)"
proof -
  from assms(1) obtain hl bf where p: "pf_coin p = c" "price_plan S c tr hl bf = Inr (Some p)"
    "w' = expire_coin c w\<lparr>sw_plans := sw_plans (expire_coin c w) @ [plan_row i p]\<rparr>"
    by (elim build_plan_cases) auto
  have figures: "pf_short_venue p = short_venue_of tr" "pf_long_venue p = long_venue_of tr"
    "pf_notional p = py_round (ms_capital S / 2) 2"
    "pf_abort_up p = py_round ((pf_hl_price p + pf_blofin_price p) / 2 * (1 + ms_abort S)) 8"
    "pf_abort_down p = py_round ((pf_hl_price p + pf_blofin_price p) / 2 * (1 - ms_abort S)) 8"
    using p(2) by (auto simp: price_plan_def plan_figures_of_def Let_def split: sum.splits option.splits prod.splits)
  have ids: "pn_id ` set (sw_plans (expire_coin c w)) \<subseteq> pn_id ` set (sw_plans w)"
    by (auto simp: expire_coin_def update_where_def image_iff)
  have "List.find (\<lambda>q. pn_id q = i) (ps @ [plan_row i p]) = Some (plan_row i p)" if "i \<notin> pn_id ` set ps" for ps
    using that by (induction ps) (auto simp: plan_row_def)
  moreover have "i \<notin> pn_id ` set (sw_plans (expire_coin c w))" using ids assms(2) by blast
  moreover have "sw_plans w' = sw_plans (expire_coin c w) @ [plan_row i p]" by (simp add: p(3))
  ultimately have found: "List.find (\<lambda>q. pn_id q = i) (sw_plans w') = Some (plan_row i p)" by metis
  have "open_for_coin w' c = None" using assms(3) expire_coin_tables(1) p(3) by (simp add: open_for_coin_def)
  then have "admit_plan X i w' = Inr (plan_row i p, if 0 < tr then h else b, if 0 < tr then b else h)"
    using found assms(4,5) p(1) figures(1,2)
    by (simp add: admit_plan_def resolve_accounts_def plan_row_def short_venue_of_def long_venue_of_def)
  then show ?thesis
    using figures by (intro conjI exI [of _ "(pf_hl_price p + pf_blofin_price p) / 2"]) (simp_all add: plan_row_def)
qed

section \<open>A monitored coin\<close>

definition demo_settings_spread :: monitor_settings where
  "demo_settings_spread = \<lparr>ms_enter = 1 / 2, ms_exit = 1 / 10, ms_trail = 4, ms_max = 1, ms_capital = 200, ms_leverage = 2,
     ms_abort = 1 / 4, ms_roundtrip = 3 / 1000\<rparr>"

text \<open>Hyperliquid pays \<open>hl\<close> an hour, BloFin nothing; both books are deep at 100.\<close>

definition demo_monitor :: "rat \<Rightarrow> delivery \<Rightarrow> monitor_env" where
  "demo_monitor hl way = \<lparr>me_funding = (\<lambda>_. Inr ([hl, hl], [(0, 0), (14400000, 0), (28800000, 0)])), me_now = 28800000,
     me_books = (\<lambda>_. Inr (([\<lparr>lv_px = 100, lv_sz = 9\<rparr>], [\<lparr>lv_px = 100, lv_sz = 9\<rparr>]),
                          ([\<lparr>lv_px = 100, lv_sz = 9\<rparr>], [\<lparr>lv_px = 100, lv_sz = 9\<rparr>]))),
     me_new_id = (\<lambda>ps. show_nat (length ps)), me_hget_fails = (\<lambda>_. False), me_hset_fails = (\<lambda>_. False),
     me_count_fails = (\<lambda>_. False), me_persist_fails = (\<lambda>_. False), me_expire_fails = (\<lambda>_. False),
     me_emit_fails = (\<lambda>_. False), me_close = (\<lambda>_. way),
     me_executor = demo_spread (\<lambda>_. True) (\<lambda>_. True) 100 (\<lambda>_. False)\<rparr>"

definition calm_world :: monitor_world where
  "calm_world = \<lparr>mo_trade = \<lparr>sw_plans = [], sw_positions = [], sw_calls = [], sw_notices = []\<rparr>, mo_hash = [],
     mo_events = [], mo_status = []\<rparr>"

abbreviation heated :: monitor_world where
  "heated \<equiv> monitor_loop demo_settings_spread [''SOL''] [demo_monitor (1 / 1000) Delivered] calm_world"

lemma one_armed_plan_per_coin_witness:
  "distinct (armed_coins (mo_trade heated)) \<and> armed_count (mo_trade heated) \<le> 1 \<and> armed_count (mo_trade heated) = 1"
proof -
  have c: "distinct (armed_coins (mo_trade calm_world))" "armed_count (mo_trade calm_world) \<le> ms_max demo_settings_spread"
    by (simp_all add: calm_world_def armed_coins_def armed_count_def)
  have "ms_max demo_settings_spread = 1" by (simp add: demo_settings_spread_def)
  moreover have "armed_count (mo_trade heated) = 1" by code_simp
  ultimately show ?thesis
    using one_armed_plan_per_coin [OF c, of "[''SOL'']" "[demo_monitor (1 / 1000) Delivered]"] by simp
qed

lemma notices_alternate_witness:
  "let w = monitor_loop demo_settings_spread [''SOL''] [demo_monitor (1 / 1000) Delivered, demo_monitor 0 Delivered] calm_world
   in alternating False (notice_kinds ''SOL'' (mo_events w)) \<and> notice_kinds ''SOL'' (mo_events w) = [True, False] \<and> \<not> is_hot w ''SOL''"
proof -
  let ?Es = "[demo_monitor (1 / 1000) Delivered, demo_monitor 0 Delivered]"
  let ?w = "monitor_loop demo_settings_spread [''SOL''] ?Es calm_world"
  have ok: "\<forall>E\<in>set ?Es. \<not> me_hset_fails E ''SOL'' \<and> \<not> me_emit_fails E ''SOL''" by (simp add: demo_monitor_def)
  have k: "notice_kinds ''SOL'' (mo_events ?w) = [True, False]" by code_simp
  have "\<not> is_hot calm_world ''SOL''" "mo_events calm_world = []" by (simp_all add: is_hot_def hash_state_def calm_world_def)
  then show ?thesis using notices_alternate [OF ok, of demo_settings_spread "[''SOL'']" calm_world] k by (auto simp: Let_def)
qed


lemma demo_reading_turned:
  "coin_reading demo_settings_spread (demo_monitor (- (1 / 1000)) Delivered) ''SOL'' = Inr (Some (- (876 / 100)))"
  by code_simp

lemma demo_reading_zero:
  "coin_reading demo_settings_spread (demo_monitor 0 Delivered) ''SOL'' = Inr (Some 0)"
  "coin_reading demo_settings_spread (demo_monitor 0 Request_lost) ''SOL'' = Inr (Some 0)"
  "ms_exit demo_settings_spread = 1 / 10" "ms_enter demo_settings_spread = 1 / 2"
  by (code_simp, code_simp, simp_all add: demo_settings_spread_def)

text \<open>Hot at a positive spread, then a reading of the same size below zero.\<close>

lemma hot_coin_frozen_witness:
  "left_alone ''SOL'' heated (monitor_loop demo_settings_spread [''SOL''] [demo_monitor (- (1 / 1000)) Delivered] heated) \<and>
   map pn_short_venue (plans_of ''SOL'' (mo_trade heated)) = [''hyperliquid''] \<and> short_venue_of (- 876 / 100) = ''blofin''"
proof
  have h: "is_hot heated ''SOL''" by code_simp
  have d: "distinct (map sx_id (sw_positions (mo_trade heated)))" by code_simp
  have u: "\<forall>d\<in>set [''SOL'']. py_upper d = d" by code_simp
  have r: "\<forall>E\<in>set [demo_monitor (- (1 / 1000)) Delivered]. \<forall>tr. coin_reading demo_settings_spread E ''SOL'' = Inr (Some tr) \<longrightarrow>
      ms_exit demo_settings_spread \<le> \<bar>tr\<bar>"
    by (simp add: demo_reading_turned demo_reading_zero)
  show "left_alone ''SOL'' heated (monitor_loop demo_settings_spread [''SOL''] [demo_monitor (- (1 / 1000)) Delivered] heated)"
    by (rule hot_coin_frozen [OF h u d r])
  show "map pn_short_venue (plans_of ''SOL'' (mo_trade heated)) = [''hyperliquid''] \<and> short_venue_of (- 876 / 100) = ''blofin''"
    by code_simp
qed

definition opened_world :: monitor_world where
  "opened_world = heated\<lparr>mo_trade := snd (execute_plan (demo_spread (\<lambda>_. True) (\<lambda>_. True) 100 (\<lambda>_. False)) ''0'' (mo_trade heated))\<rparr>"

lemma lost_unwind_never_retried_witness:
  "open_for_coin (mo_trade (monitor_loop demo_settings_spread [''SOL''] [demo_monitor 0 Delivered, demo_monitor 0 Delivered]
     (snd (check_coin demo_settings_spread (demo_monitor 0 Request_lost) ''SOL'' opened_world)))) ''SOL'' \<noteq> None"
proof -
  have some: "open_for_coin (mo_trade opened_world) ''SOL'' \<noteq> None" by code_simp
  then obtain x where x: "open_for_coin (mo_trade opened_world) ''SOL'' = Some x" by blast
  have h: "is_hot opened_world ''SOL''" by code_simp
  have d: "distinct (map sx_id (sw_positions (mo_trade opened_world)))" by code_simp
  have e: "\<not> me_hget_fails (demo_monitor 0 Request_lost) ''SOL''" "\<not> me_hset_fails (demo_monitor 0 Request_lost) ''SOL''"
    "me_close (demo_monitor 0 Request_lost) ''SOL'' = Request_lost" by (simp_all add: demo_monitor_def)
  have u: "\<forall>d\<in>set [''SOL'']. py_upper d = d" by code_simp
  have "\<bar>0 :: rat\<bar> < ms_exit demo_settings_spread"
    "\<forall>F\<in>set [demo_monitor 0 Delivered, demo_monitor 0 Delivered]. \<forall>tr. coin_reading demo_settings_spread F ''SOL'' = Inr (Some tr) \<longrightarrow>
      \<bar>tr\<bar> \<le> ms_enter demo_settings_spread"
    by (simp_all add: demo_reading_zero)
  from lost_unwind_never_retried [OF demo_reading_zero(2) this(1) h e x u d this(2)] show ?thesis by (simp del: monitor_loop.simps)
qed

lemma armed_plan_admitted_witness:
  "\<exists>p w'. build_plan demo_settings_spread (demo_monitor 0 Delivered) ''SOL'' (- 2) (mo_trade calm_world) = (Some (''0'', p), w') \<and>
     admit_plan (demo_spread (\<lambda>_. True) (\<lambda>_. True) 100 (\<lambda>_. False)) ''0'' w' = Inr (plan_row ''0'' p, ''b'', ''h'')"
proof -
  let ?b = "build_plan demo_settings_spread (demo_monitor 0 Delivered) ''SOL'' (- 2) (mo_trade calm_world)"
  let ?X = "demo_spread (\<lambda>_. True) (\<lambda>_. True) 100 (\<lambda>_. False)"
  have "map_option fst (fst ?b) = Some ''0''" by code_simp
  then obtain p w' where b: "?b = (Some (''0'', p), w')" by (cases ?b) auto
  have a: "account_of_venue ?X ''hyperliquid'' = Some ''h''" "account_of_venue ?X ''blofin'' = Some ''b''"
    by code_simp+
  have n: "''0'' \<notin> pn_id ` set (sw_plans (mo_trade calm_world))" "open_for_coin (mo_trade calm_world) ''SOL'' = None"
    by (simp_all add: calm_world_def open_for_coin_def)
  show ?thesis using armed_plan_admitted [OF b n a] b by auto
qed

end
