(* ===== verification/Notifications.thy ===== *)
theory Notifications
  imports SpreadMonitor
begin

text \<open>
  The notification service, \<open>notification-service/app\<close>: the key that makes two events the same
  occurrence (render.py), one entry of the stream from the group to the devices and the log
  (consumer.py, sinks/webpush.py), the redelivery at start, the live loop, and the watcher of
  exchanges, services and accounts (health_watcher.py). Then what reaches a device.
\<close>

section \<open>Events\<close>

text \<open>The fields of an event the service reads; a figure that is no number is \<open>Inl\<close>.\<close>

record event_data =
  nt_event :: "string option"
  nt_position :: "string option"
  nt_exchange :: "string option"
  nt_service :: "string option"
  nt_account :: "string option"
  nt_symbol :: "string option"
  nt_strategy :: "string option"
  nt_pnl :: "(unit + rat) option"

definition show_opt :: "string \<Rightarrow> string option \<Rightarrow> string" where
  "show_opt dflt x = (case x of None \<Rightarrow> dflt | Some s \<Rightarrow> s)"

definition keyed :: "string \<Rightarrow> string option \<Rightarrow> string \<Rightarrow> string" where
  "keyed prefix x state = prefix @ '':'' @ show_opt ''None'' x @ '':'' @ state"

definition truthy_text :: "string option \<Rightarrow> bool" where
  "truthy_text x \<longleftrightarrow> x \<noteq> None \<and> x \<noteq> Some []"

definition compute_dedup_key :: "event_data \<Rightarrow> string option" where
  "compute_dedup_key d =
     (let ev = nt_event d in
      if ev = Some ''position.opened'' \<or> ev = Some ''position.closed'' then
        (if truthy_text (nt_position d)
         then Some (keyed ''position'' (nt_position d) (if ev = Some ''position.opened'' then ''opened'' else ''closed'')) else None)
      else if ev = Some ''exchange.down'' \<or> ev = Some ''exchange.up'' then
        Some (keyed ''exchange'' (nt_exchange d) (if ev = Some ''exchange.down'' then ''down'' else ''up''))
      else if ev = Some ''service.down'' \<or> ev = Some ''service.up'' then
        Some (keyed ''service'' (nt_service d) (if ev = Some ''service.down'' then ''down'' else ''up''))
      else if ev = Some ''account.down'' \<or> ev = Some ''account.up'' then
        Some (keyed ''account'' (nt_account d) (if ev = Some ''account.down'' then ''down'' else ''up''))
      else if ev = Some ''funding.hot'' \<or> ev = Some ''funding.cooled'' then
        Some (keyed ''funding'' (nt_symbol d) (if ev = Some ''funding.hot'' then ''hot'' else ''cooled''))
      else if ev = Some ''spread.hot'' \<or> ev = Some ''spread.cooled'' then
        Some (keyed ''spread'' (nt_symbol d) (if ev = Some ''spread.hot'' then ''hot'' else ''cooled''))
      else if ev = Some ''spread.executed'' \<or> ev = Some ''spread.closed'' then
        (if truthy_text (nt_position d)
         then Some (keyed ''spread-pos'' (nt_position d) (if ev = Some ''spread.executed'' then ''executed'' else ''closed'')) else None)
      else if ev = Some ''llm.degraded'' \<or> ev = Some ''llm.recovered'' then
        Some (keyed ''llm-health'' (nt_strategy d) (if ev = Some ''llm.degraded'' then ''degraded'' else ''recovered''))
      else None)"

text \<open>The tag of a rendered event and whether the device is alerted again; the texts are left out.\<close>

record rendered =
  rd_tag :: string
  rd_renotify :: bool

definition event_tags :: "(string \<times> string \<times> (event_data \<Rightarrow> string) \<times> bool) list" where
  "event_tags =
     [(''position.opened'', ''position'', \<lambda>d. show_opt ''None'' (nt_position d), False),
      (''position.closed'', ''position'', \<lambda>d. show_opt ''None'' (nt_position d), True),
      (''exchange.down'', ''exchange'', \<lambda>d. show_opt ''?'' (nt_exchange d), True),
      (''exchange.up'', ''exchange'', \<lambda>d. show_opt ''?'' (nt_exchange d), True),
      (''service.down'', ''service'', \<lambda>d. show_opt ''?'' (nt_service d), True),
      (''service.up'', ''service'', \<lambda>d. show_opt ''?'' (nt_service d), True),
      (''account.down'', ''account'', \<lambda>d. show_opt ''?'' (nt_account d), True),
      (''account.up'', ''account'', \<lambda>d. show_opt ''?'' (nt_account d), True),
      (''llm.degraded'', ''llm-health'', \<lambda>d. show_opt ''?'' (nt_strategy d), True),
      (''llm.recovered'', ''llm-health'', \<lambda>d. show_opt ''?'' (nt_strategy d), False),
      (''funding.hot'', ''funding'', \<lambda>d. show_opt ''?'' (nt_symbol d), True),
      (''funding.cooled'', ''funding'', \<lambda>d. show_opt ''?'' (nt_symbol d), True),
      (''spread.hot'', ''spread'', \<lambda>d. show_opt ''?'' (nt_symbol d), True),
      (''spread.cooled'', ''spread'', \<lambda>d. show_opt ''?'' (nt_symbol d), True),
      (''spread.executed'', ''spread-pos'', \<lambda>d. show_opt ''None'' (nt_position d), True),
      (''spread.closed'', ''spread-pos'', \<lambda>d. show_opt ''None'' (nt_position d), True),
      (''spread.leg_failure'', ''spread-fail'', \<lambda>d. show_opt ''?'' (nt_symbol d), True),
      (''spread.margin_warning'', ''spread-margin'', \<lambda>d. show_opt ''?'' (nt_symbol d), True)]"

definition render :: "event_data \<Rightarrow> rendered option result" where
  "render d =
     (if nt_event d = Some ''position.closed'' \<and> nt_pnl d = Some (Inl ()) then Inl ValueError
      else case nt_event d of
             None \<Rightarrow> Inr None
           | Some ev \<Rightarrow>
               Inr (map_option (\<lambda>(prefix, ident, again). \<lparr>rd_tag = prefix @ '':'' @ ident d, rd_renotify = again\<rparr>)
                      (map_of event_tags ev)))"

section \<open>The hub\<close>

datatype log_status = Log_sent | Log_failed | Log_skipped

record log_row =
  lr_event :: "string option"
  lr_key :: "string option"
  lr_status :: log_status
  lr_error :: "string option"
  lr_devices :: nat
  lr_created :: rat

text \<open>What an entry of the stream carries: no \<open>data\<close>, a text that cannot be read, an event.\<close>

datatype entry_payload = No_data | Unreadable | Event event_data

text \<open>
  The stream and its consumer group (how many entries were handed out, which of those are not
  acknowledged), the log, the devices with their enabled flag, the pushes sent, and how many
  entries were processed so far.
\<close>

record hub =
  hb_stream :: "entry_payload list"
  hb_handed :: nat
  hb_pending :: "nat list"
  hb_log :: "log_row list"
  hb_devices :: "(nat \<times> bool) list"
  hb_pushes :: "(nat \<times> rendered) list"
  hb_seen :: nat

datatype push_outcome = Pushed | Refused string bool

text \<open>The answers while one entry is processed; the time is the database's.\<close>

record hub_env =
  nv_now :: rat
  nv_check_fails :: bool
  nv_log_fails :: bool
  nv_ack_fails :: bool
  nv_devices_fail :: bool
  nv_disable_fails :: "nat \<Rightarrow> bool"
  nv_push :: "nat \<Rightarrow> push_outcome"

definition ack :: "hub_env \<Rightarrow> nat \<Rightarrow> hub \<Rightarrow> bool \<times> hub" where
  "ack E i h = (if nv_ack_fails E then (False, h) else (True, h\<lparr>hb_pending := removeAll i (hb_pending h)\<rparr>))"

definition DEDUP_WINDOW :: rat where "DEDUP_WINDOW = 86400"

definition already_sent :: "rat \<Rightarrow> string option \<Rightarrow> log_row list \<Rightarrow> bool" where
  "already_sent now key rows \<longleftrightarrow>
     truthy_text key \<and> (\<exists>r\<in>set rows. lr_key r = key \<and> now - DEDUP_WINDOW < lr_created r)"

text \<open>The insert; an event without a name violates the table's \<open>NOT NULL\<close>.\<close>

definition log_entry ::
  "hub_env \<Rightarrow> event_data \<Rightarrow> log_status \<Rightarrow> string option \<Rightarrow> nat \<Rightarrow> hub \<Rightarrow> bool \<times> hub" where
  "log_entry E d status err devices h =
     (if nv_log_fails E \<or> nt_event d = None then (False, h)
      else (True, h\<lparr>hb_log := hb_log h @ [\<lparr>lr_event = nt_event d, lr_key = compute_dedup_key d, lr_status = status,
              lr_error = err, lr_devices = devices, lr_created = nv_now E\<rparr>]\<rparr>))"

section \<open>The sink\<close>

record sink_result =
  sr_sent :: nat
  sr_failed :: nat
  sr_error :: "string option"

fun push_each :: "hub_env \<Rightarrow> rendered \<Rightarrow> nat list \<Rightarrow> nat \<times> nat \<times> string option \<Rightarrow> hub \<Rightarrow> (nat \<times> nat \<times> string option) option \<times> hub" where
  "push_each E n [] acc h = (Some acc, h)"
| "push_each E n (v # vs) (sent, failed, err) h =
     (let h1 = h\<lparr>hb_pushes := hb_pushes h @ [(v, n)]\<rparr>
      in case nv_push E v of
           Pushed \<Rightarrow> push_each E n vs (sent + 1, failed, err) h1
         | Refused m gone \<Rightarrow>
             if gone \<and> nv_disable_fails E v then (None, h1)
             else push_each E n vs (sent, failed + 1, Some m)
                    (if gone then h1\<lparr>hb_devices := map (\<lambda>(i, on). (i, if i = v then False else on)) (hb_devices h1)\<rparr> else h1))"

definition webpush_send :: "hub_env \<Rightarrow> rendered \<Rightarrow> hub \<Rightarrow> sink_result option \<times> hub" where
  "webpush_send E n h =
     (if nv_devices_fail E then (None, h)
      else let subs = map fst (filter snd (hb_devices h))
           in if subs = [] then (Some \<lparr>sr_sent = 0, sr_failed = 0, sr_error = Some ''no enabled subscriptions''\<rparr>, h)
              else case push_each E n subs (0, 0, None) h of
                     (None, h1) \<Rightarrow> (None, h1)
                   | (Some (sent, failed, err), h1) \<Rightarrow>
                       (Some \<lparr>sr_sent = sent, sr_failed = failed, sr_error = if sent = 0 then err else None\<rparr>, h1))"

section \<open>One entry\<close>

text \<open>\<open>False\<close>: an exception left the function, and the entry is not acknowledged.\<close>

definition then_ack :: "hub_env \<Rightarrow> nat \<Rightarrow> bool \<times> hub \<Rightarrow> bool \<times> hub" where
  "then_ack E i r = (case r of (True, h) \<Rightarrow> ack E i h | (False, h) \<Rightarrow> (False, h))"

definition deliver :: "hub_env \<Rightarrow> nat \<Rightarrow> event_data \<Rightarrow> rendered \<Rightarrow> hub \<Rightarrow> bool \<times> hub" where
  "deliver E i d n h =
     (case webpush_send E n h of
        (None, h1) \<Rightarrow> (False, h1)
      | (Some r, h1) \<Rightarrow>
          then_ack E i (log_entry E d (if 0 < sr_sent r then Log_sent else Log_failed) (sr_error r) (sr_sent r) h1))"

definition process_entry :: "hub_env \<Rightarrow> nat \<Rightarrow> entry_payload \<Rightarrow> hub \<Rightarrow> bool \<times> hub" where
  "process_entry E i p h =
     (case p of
        No_data \<Rightarrow> ack E i h
      | Unreadable \<Rightarrow> (False, h)
      | Event d \<Rightarrow>
          if truthy_text (compute_dedup_key d) \<and> nv_check_fails E then (False, h)
          else if already_sent (nv_now E) (compute_dedup_key d) (hb_log h) then
            then_ack E i (log_entry E d Log_skipped None 0 h)
          else (case render d of
                  Inl e \<Rightarrow> (False, h)
                | Inr None \<Rightarrow> then_ack E i (log_entry E d Log_skipped (Some ''unknown event type'') 0 h)
                | Inr (Some n) \<Rightarrow> deliver E i d n h))"

section \<open>The loops\<close>

text \<open>
  The entries of one read, one after the other, an exception of one left behind. The
  environment of the \<open>k\<close>-th entry processed is \<open>Es k\<close>.
\<close>

fun process_batch :: "(nat \<Rightarrow> hub_env) \<Rightarrow> nat list \<Rightarrow> hub \<Rightarrow> hub" where
  "process_batch Es [] h = h"
| "process_batch Es (i # ks) h =
     process_batch Es ks ((snd (process_entry (Es (hb_seen h)) i (hb_stream h ! i) h))\<lparr>hb_seen := Suc (hb_seen h)\<rparr>)"

definition read_pending :: "hub \<Rightarrow> nat list" where
  "read_pending h = take 10 (hb_pending h)"

text \<open>The redelivery at start stops when nothing is pending or a read equals the one before.\<close>

fun drain :: "nat \<Rightarrow> (nat \<Rightarrow> hub_env) \<Rightarrow> nat list option \<Rightarrow> hub \<Rightarrow> hub option" where
  "drain 0 Es seen h = None"
| "drain (Suc n) Es seen h =
     (if read_pending h = [] \<or> Some (read_pending h) = seen then Some h
      else drain n Es (Some (read_pending h)) (process_batch Es (read_pending h) h))"

text \<open>A read of the live loop hands out up to ten new entries.\<close>

definition live_read :: "(nat \<Rightarrow> hub_env) \<Rightarrow> hub \<Rightarrow> hub" where
  "live_read Es h =
     (let new = take 10 [hb_handed h..<length (hb_stream h)]
      in process_batch Es new (h\<lparr>hb_handed := hb_handed h + length new, hb_pending := hb_pending h @ new\<rparr>))"

definition emit_event :: "event_data \<Rightarrow> hub \<Rightarrow> hub" where
  "emit_event d h = h\<lparr>hb_stream := hb_stream h @ [Event d]\<rparr>"


text \<open>The routes of main.py that touch the stream or the devices.\<close>

definition subscribe :: "nat \<Rightarrow> hub \<Rightarrow> hub" where
  "subscribe v h = h\<lparr>hb_devices := AList.update v True (hb_devices h)\<rparr>"

definition unsubscribe :: "nat \<Rightarrow> hub \<Rightarrow> hub" where
  "unsubscribe v h = h\<lparr>hb_devices := map (\<lambda>(i, on). (i, if i = v then False else on)) (hb_devices h)\<rparr>"

definition plain_event :: "string \<Rightarrow> event_data" where
  "plain_event ev = \<lparr>nt_event = Some ev, nt_position = None, nt_exchange = None, nt_service = None, nt_account = None,
     nt_symbol = None, nt_strategy = None, nt_pnl = None\<rparr>"

definition test_notification :: "hub \<Rightarrow> hub" where
  "test_notification h = emit_event ((plain_event ''service.up'')\<lparr>nt_service := Some ''notification-service-test''\<rparr>) h"

section \<open>The watcher\<close>

datatype probe = Probe_raised string | Probe_status string | Probe_no_json | Probe_body "string option"

text \<open>One look at the exchanges, the services and the accounts.\<close>

record watch_env =
  wv_heartbeat :: "string \<Rightarrow> py_error + int option"
  wv_now_ms :: int
  wv_healthy :: "string \<Rightarrow> bool"
  wv_accounts :: "py_error + string list"
  wv_probe :: "string \<Rightarrow> probe"
  wv_emit_fails :: "event_data \<Rightarrow> bool"
  wv_clock :: rat
  wv_clock_after :: rat

record watch_state =
  ws_exchanges :: "(string \<times> bool) list"
  ws_services :: "(string \<times> bool) list"
  ws_accounts :: "(string \<times> bool) list"
  ws_fails :: "(string \<times> nat) list"
  ws_next :: rat
  ws_hub :: hub

definition was_up :: "(string \<times> bool) list \<Rightarrow> string \<Rightarrow> bool" where
  "was_up state k = (case map_of state k of None \<Rightarrow> True | Some b \<Rightarrow> b)"

text \<open>Emit, then remember; an emit that raises leaves the state as it was.\<close>

definition announce ::
  "watch_env \<Rightarrow> event_data \<Rightarrow> (watch_state \<Rightarrow> watch_state) \<Rightarrow> watch_state \<Rightarrow> bool \<times> watch_state" where
  "announce E d remember w =
     (if wv_emit_fails E d then (False, w) else (True, remember (w\<lparr>ws_hub := emit_event d (ws_hub w)\<rparr>)))"

definition HEARTBEAT_STALE_MS :: int where "HEARTBEAT_STALE_MS = 60000"

definition check_exchange :: "watch_env \<Rightarrow> string \<Rightarrow> watch_state \<Rightarrow> bool \<times> watch_state" where
  "check_exchange E x w =
     (case wv_heartbeat E x of
        Inl e \<Rightarrow> (False, w)
      | Inr v \<Rightarrow>
          (let stale = (case v of None \<Rightarrow> True | Some t \<Rightarrow> HEARTBEAT_STALE_MS < wv_now_ms E - t);
               up = was_up (ws_exchanges w) x
           in if stale \<and> up then
                announce E ((plain_event ''exchange.down'')\<lparr>nt_exchange := Some x\<rparr>)
                  (\<lambda>v. v\<lparr>ws_exchanges := AList.update x False (ws_exchanges v)\<rparr>) w
              else if \<not> stale \<and> \<not> up then
                announce E ((plain_event ''exchange.up'')\<lparr>nt_exchange := Some x\<rparr>)
                  (\<lambda>v. v\<lparr>ws_exchanges := AList.update x True (ws_exchanges v)\<rparr>) w
              else (True, w)))"

definition check_service :: "watch_env \<Rightarrow> string \<Rightarrow> watch_state \<Rightarrow> bool \<times> watch_state" where
  "check_service E s w =
     (let up = was_up (ws_services w) s; healthy = wv_healthy E s
      in if \<not> healthy \<and> up then
           announce E ((plain_event ''service.down'')\<lparr>nt_service := Some s\<rparr>)
             (\<lambda>v. v\<lparr>ws_services := AList.update s False (ws_services v)\<rparr>) w
         else if healthy \<and> \<not> up then
           announce E ((plain_event ''service.up'')\<lparr>nt_service := Some s\<rparr>)
             (\<lambda>v. v\<lparr>ws_services := AList.update s True (ws_services v)\<rparr>) w
         else (True, w))"

text \<open>\<open>None\<close> when the account answers, else a short reason.\<close>

definition probe_account :: "watch_env \<Rightarrow> string \<Rightarrow> string option" where
  "probe_account E a =
     (case wv_probe E a of
        Probe_raised name \<Rightarrow> Some (''executor unreachable: '' @ name)
      | Probe_status s \<Rightarrow> Some (''executor HTTP '' @ s)
      | Probe_no_json \<Rightarrow> Some ''executor returned no JSON''
      | Probe_body err \<Rightarrow> if truthy_text err then Some (take 200 (the err)) else None)"

definition misses_of :: "(string \<times> nat) list \<Rightarrow> string \<Rightarrow> nat" where
  "misses_of fails a = (case map_of fails a of None \<Rightarrow> 0 | Some n \<Rightarrow> n)"

definition check_account :: "nat \<Rightarrow> watch_env \<Rightarrow> string \<Rightarrow> watch_state \<Rightarrow> bool \<times> watch_state" where
  "check_account threshold E a w =
     (let up = was_up (ws_accounts w) a
      in if probe_account E a = None then
           (let w1 = w\<lparr>ws_fails := AList.update a 0 (ws_fails w)\<rparr>
            in if \<not> up then
                 announce E ((plain_event ''account.up'')\<lparr>nt_account := Some a\<rparr>)
                   (\<lambda>v. v\<lparr>ws_accounts := AList.update a True (ws_accounts v)\<rparr>) w1
               else (True, w1))
         else
           (let n = misses_of (ws_fails w) a + 1; w1 = w\<lparr>ws_fails := AList.update a n (ws_fails w)\<rparr>
            in if up \<and> threshold \<le> n then
                 announce E ((plain_event ''account.down'')\<lparr>nt_account := Some a\<rparr>)
                   (\<lambda>v. v\<lparr>ws_accounts := AList.update a False (ws_accounts v)\<rparr>) w1
               else (True, w1)))"

fun check_each :: "(string \<Rightarrow> watch_state \<Rightarrow> bool \<times> watch_state) \<Rightarrow> string list \<Rightarrow> watch_state \<Rightarrow> bool \<times> watch_state" where
  "check_each f [] w = (True, w)"
| "check_each f (k # ks) w = (case f k w of (True, w1) \<Rightarrow> check_each f ks w1 | (False, w1) \<Rightarrow> (False, w1))"

definition ACCOUNT_POLL_INTERVAL :: rat where "ACCOUNT_POLL_INTERVAL = 120"

definition check_accounts :: "nat \<Rightarrow> watch_env \<Rightarrow> watch_state \<Rightarrow> bool \<times> watch_state" where
  "check_accounts threshold E w =
     (case wv_accounts E of Inl e \<Rightarrow> (False, w) | Inr accounts \<Rightarrow> check_each (check_account threshold E) accounts w)"

definition watch_iteration :: "nat \<Rightarrow> string list \<Rightarrow> watch_env \<Rightarrow> watch_state \<Rightarrow> watch_state" where
  "watch_iteration threshold exchanges E w =
     (case check_each (check_exchange E) exchanges w of
        (False, w1) \<Rightarrow> w1
      | (True, w1) \<Rightarrow>
         (case check_each (check_service E) [''order-executor'', ''order-listener''] w1 of
            (False, w2) \<Rightarrow> w2
          | (True, w2) \<Rightarrow>
              if ws_next w2 \<le> wv_clock E
              then snd (check_accounts threshold E (w2\<lparr>ws_next := wv_clock_after E + ACCOUNT_POLL_INTERVAL\<rparr>))
              else w2))"

fun watch_loop :: "nat \<Rightarrow> string list \<Rightarrow> watch_env list \<Rightarrow> watch_state \<Rightarrow> watch_state" where
  "watch_loop threshold exchanges [] w = w"
| "watch_loop threshold exchanges (E # Es) w = watch_loop threshold exchanges Es (watch_iteration threshold exchanges E w)"

section \<open>What an entry does\<close>

lemma push_each_frame:
  "push_each E n vs acc h = (r, h') \<Longrightarrow>
     hb_log h' = hb_log h \<and> hb_pending h' = hb_pending h \<and> hb_stream h' = hb_stream h \<and>
     hb_handed h' = hb_handed h \<and> hb_seen h' = hb_seen h"
proof (induction vs arbitrary: acc h)
  case (Cons v vs)
  obtain sent failed err where acc: "acc = (sent, failed, err)" by (metis prod_cases3)
  from Cons.prems show ?case
    by (cases "nv_push E v") (auto simp: acc Let_def split: if_splits dest!: Cons.IH)
qed simp

lemma webpush_frame:
  assumes "webpush_send E n h = (r, h')"
  shows "hb_log h' = hb_log h \<and> hb_pending h' = hb_pending h \<and> hb_stream h' = hb_stream h \<and>
     hb_handed h' = hb_handed h \<and> hb_seen h' = hb_seen h"
  using assms push_each_frame
  by (fastforce simp: webpush_send_def Let_def split: if_splits prod.splits option.splits)

text \<open>A row for the entry, and the entry's place among the pending ones.\<close>

definition row_for :: "hub_env \<Rightarrow> event_data \<Rightarrow> log_row \<Rightarrow> bool" where
  "row_for E d r \<longleftrightarrow> lr_event r = nt_event d \<and> lr_key r = compute_dedup_key d \<and> lr_created r = nv_now E"

lemma then_ack_log:
  assumes "then_ack E i (log_entry E d st err n h1) = (ok, h')"
  shows "(\<not> ok \<and> hb_pending h' = hb_pending h1 \<or> ok \<and> hb_pending h' = removeAll i (hb_pending h1)) \<and>
    (hb_log h' = hb_log h1 \<and> \<not> ok \<or> (\<exists>r. row_for E d r \<and> lr_status r = st \<and> hb_log h' = hb_log h1 @ [r])) \<and>
    hb_stream h' = hb_stream h1 \<and> hb_handed h' = hb_handed h1 \<and> hb_seen h' = hb_seen h1 \<and> hb_pushes h' = hb_pushes h1"
  using assms by (auto simp: then_ack_def log_entry_def ack_def row_for_def split: if_splits)

lemma then_ack_row:
  assumes "then_ack E i (log_entry E d st err n h1) = (ok, h')" "\<not> nv_log_fails E" "nt_event d \<noteq> None"
  shows "\<exists>r. row_for E d r \<and> hb_log h' = hb_log h1 @ [r]"
  using assms by (auto simp: then_ack_def log_entry_def ack_def row_for_def split: if_splits)

lemma process_entry_effect:
  assumes "process_entry E i p h = (ok, h')"
  shows "(\<not> ok \<and> hb_pending h' = hb_pending h \<or> ok \<and> hb_pending h' = removeAll i (hb_pending h)) \<and>
    (hb_log h' = hb_log h \<and> (ok \<longrightarrow> p = No_data) \<or>
     (\<exists>d r. p = Event d \<and> row_for E d r \<and> hb_log h' = hb_log h @ [r] \<and>
        (lr_status r \<noteq> Log_skipped \<longrightarrow> \<not> already_sent (nv_now E) (compute_dedup_key d) (hb_log h)))) \<and>
    hb_stream h' = hb_stream h \<and> hb_handed h' = hb_handed h \<and> hb_seen h' = hb_seen h"
proof (cases p)
  case No_data
  then show ?thesis using assms by (auto simp: process_entry_def ack_def split: if_splits)
next
  case Unreadable
  then show ?thesis using assms by (simp add: process_entry_def)
next
  case (Event d)
  show ?thesis
  proof (cases "truthy_text (compute_dedup_key d) \<and> nv_check_fails E")
    case True
    then show ?thesis using assms Event by (simp add: process_entry_def)
  next
    case ok: False
    show ?thesis
    proof (cases "already_sent (nv_now E) (compute_dedup_key d) (hb_log h)")
      case True
      then have "then_ack E i (log_entry E d Log_skipped None 0 h) = (ok, h')"
        using assms Event ok by (simp add: process_entry_def)
      from then_ack_log [OF this] show ?thesis using Event by auto
    next
      case False
      show ?thesis
      proof (cases "render d")
        case (Inl e)
        then show ?thesis using assms Event ok False by (simp add: process_entry_def)
      next
        case (Inr m)
        show ?thesis
        proof (cases m)
          case None
          then have "then_ack E i (log_entry E d Log_skipped (Some ''unknown event type'') 0 h) = (ok, h')"
            using assms Event ok False Inr by (simp add: process_entry_def)
          from then_ack_log [OF this] show ?thesis using Event by auto
        next
          case (Some n)
          then have d: "deliver E i d n h = (ok, h')" using assms Event ok False Inr by (simp add: process_entry_def)
          obtain r h1 where w: "webpush_send E n h = (r, h1)" by fastforce
          note f = webpush_frame [OF w]
          show ?thesis
          proof (cases r)
            case None
            then show ?thesis using d w f by (simp add: deliver_def)
          next
            case (Some a)
            then have "then_ack E i (log_entry E d (if 0 < sr_sent a then Log_sent else Log_failed) (sr_error a) (sr_sent a) h1) = (ok, h')"
              using d w by (simp add: deliver_def)
            from then_ack_log [OF this] show ?thesis using Event f False by auto
          qed
        qed
      qed
    qed
  qed
qed


section \<open>Runs of the hub\<close>

text \<open>
  What can happen to the hub: an entry is added by some producer, the live loop reads, the service
  restarts and drains (with fuel that the next theorem shows is enough), devices come and go.
\<close>

inductive hub_step :: "hub \<Rightarrow> hub \<Rightarrow> bool" where
  produced: "hub_step h (h\<lparr>hb_stream := hb_stream h @ [p]\<rparr>)"
| live: "hub_step h (live_read Es h)"
| restarted: "drain n Es None h = Some h' \<Longrightarrow> hub_step h h'"
| subscribed: "hub_step h (subscribe v h)"
| unsubscribed: "hub_step h (unsubscribe v h)"

text \<open>An invariant of single entries is one of a batch and of a restart.\<close>

lemma process_batch_inv:
  assumes "\<And>E i p h ok h'. \<lbrakk>I h; process_entry E i p h = (ok, h'); i \<in> K; p = hb_stream h ! i\<rbrakk> \<Longrightarrow> I h'"
    and "\<And>h n. I h \<Longrightarrow> I (h\<lparr>hb_seen := n\<rparr>)"
  shows "\<lbrakk>I h; set ks \<subseteq> K\<rbrakk> \<Longrightarrow> I (process_batch Es ks h)"
proof (induction ks arbitrary: h)
  case (Cons i ks)
  obtain ok h' where p: "process_entry (Es (hb_seen h)) i (hb_stream h ! i) h = (ok, h')" by fastforce
  have "I h'" using assms(1) [OF Cons.prems(1) p] Cons.prems(2) by simp
  then show ?case using Cons assms(2) p by simp
qed simp

lemma drain_inv:
  assumes "\<And>h ks. \<lbrakk>I h; set ks \<subseteq> set (hb_pending h)\<rbrakk> \<Longrightarrow> I (process_batch Es ks h)"
  shows "\<lbrakk>drain n Es seen h = Some h'; I h\<rbrakk> \<Longrightarrow> I h'"
proof (induction n arbitrary: seen h)
  case (Suc n)
  have "I (process_batch Es (read_pending h) h)"
    using assms Suc.prems(2) by (metis read_pending_def set_take_subset)
  then show ?case using Suc by (auto split: if_splits)
qed simp

definition day_spaced :: "log_row list \<Rightarrow> bool" where
  "day_spaced rows \<longleftrightarrow> sorted_wrt (\<lambda>a b. lr_key a = lr_key b \<and> truthy_text (lr_key b) \<and> lr_status b \<noteq> Log_skipped \<longrightarrow>
     lr_created a + DEDUP_WINDOW \<le> lr_created b) rows"

lemma process_entry_spaced:
  assumes "day_spaced (hb_log h)" "process_entry E i p h = (ok, h')"
  shows "day_spaced (hb_log h')"
proof -
  from process_entry_effect [OF assms(2)] consider "hb_log h' = hb_log h"
    | d r where "row_for E d r" "hb_log h' = hb_log h @ [r]"
        "lr_status r \<noteq> Log_skipped \<longrightarrow> \<not> already_sent (nv_now E) (compute_dedup_key d) (hb_log h)" by blast
  then show ?thesis
  proof cases
    case 2
    then show ?thesis
      using assms(1) by (auto simp: day_spaced_def sorted_wrt_append row_for_def already_sent_def not_less algebra_simps)
  qed (use assms(1) in simp)
qed

text \<open>
  Two rows of the log with the same key, of which the later one is not marked as skipped, are at
  least 24 hours apart, whatever was produced, however often the service restarted, and whatever
  failed: an occurrence is sent once a day at most. The earlier row may be of any status,
  also of a push that reached no device.
\<close>

theorem dedup_spacing:
  assumes "hub_step\<^sup>*\<^sup>* h h'" "hb_log h = []"
  shows "\<forall>j<length (hb_log h'). \<forall>i<j. lr_key (hb_log h' ! i) = lr_key (hb_log h' ! j) \<longrightarrow> truthy_text (lr_key (hb_log h' ! j)) \<longrightarrow>
    lr_status (hb_log h' ! j) \<noteq> Log_skipped \<longrightarrow> lr_created (hb_log h' ! i) + DEDUP_WINDOW \<le> lr_created (hb_log h' ! j)"
proof -
  let ?I = "\<lambda>h. day_spaced (hb_log h)"
  have batch: "?I (process_batch Es ks h)" if "?I h" for Es ks h
    using process_entry_spaced that by (intro process_batch_inv [where K = "set ks" and I = ?I]) auto
  have "?I h'" using assms(1)
  proof (induction rule: rtranclp_induct)
    case base
    then show ?case using assms(2) by (simp add: day_spaced_def)
  next
    case (step y z)
    from step.hyps(2) step.IH show ?case
      by cases (auto simp: live_read_def Let_def subscribe_def unsubscribe_def intro!: batch elim!: drain_inv [where I = ?I, rotated] intro: batch)
  qed
  then show ?thesis by (auto simp: day_spaced_def sorted_wrt_iff_nth_less)
qed

text \<open>
  C35. Once a row with a key is in the log, further events of that key are never pushed as long as
  each comes within 24 hours of the one before, however many there are: a skipped event starts the
  window again. An outage that comes back every day is announced once.
\<close>

theorem flapping_never_announced:
  assumes "\<forall>i\<in>set ks. \<exists>d. hb_stream h ! i = Event d \<and> compute_dedup_key d = Some key \<and> nt_event d \<noteq> None" "key \<noteq> []"
    and "r \<in> set (hb_log h)" "lr_key r = Some key" "nv_now (Es (hb_seen h)) < lr_created r + DEDUP_WINDOW"
    and "\<forall>k. nv_now (Es (Suc k)) < nv_now (Es k) + DEDUP_WINDOW" "\<forall>k. \<not> nv_check_fails (Es k) \<and> \<not> nv_log_fails (Es k)"
  shows "hb_pushes (process_batch Es ks h) = hb_pushes h"
  using assms(1,3,4,5)
proof (induction ks arbitrary: h r)
  case (Cons i ks)
  let ?E = "Es (hb_seen h)"
  obtain d where d: "hb_stream h ! i = Event d" "compute_dedup_key d = Some key" "nt_event d \<noteq> None" using Cons.prems(1) by auto
  have k: "truthy_text (Some key)" using assms(2) by (simp add: truthy_text_def)
  have sent: "already_sent (nv_now ?E) (Some key) (hb_log h)"
    using Cons.prems(2-4) k by (auto simp: already_sent_def algebra_simps)
  obtain ok h' where p: "process_entry ?E i (hb_stream h ! i) h = (ok, h')" by fastforce
  then have t: "then_ack ?E i (log_entry ?E d Log_skipped None 0 h) = (ok, h')"
    using d sent assms(7) by (simp add: process_entry_def)
  obtain r' where r': "row_for ?E d r'" "hb_log h' = hb_log h @ [r']"
    using then_ack_row [OF t] d(3) assms(7) by auto
  note e = then_ack_log [OF t]
  let ?h = "h'\<lparr>hb_seen := Suc (hb_seen h)\<rparr>"
  have "hb_pushes (process_batch Es ks ?h) = hb_pushes ?h"
    using Cons.prems(1) e r' d(2) assms(6) by (intro Cons.IH [of ?h r']) (auto simp: row_for_def)
  then show ?case using e p by simp
qed simp

section \<open>The redelivery at start\<close>

lemma process_batch_pending: "\<exists>P. hb_pending (process_batch Es ks h) = filter P (hb_pending h)"
proof (induction ks arbitrary: h)
  case Nil
  show ?case by (intro exI [of _ "\<lambda>_. True"]) simp
next
  case (Cons i ks)
  obtain ok h' where p: "process_entry (Es (hb_seen h)) i (hb_stream h ! i) h = (ok, h')" by fastforce
  obtain P where P: "hb_pending (process_batch Es ks (h'\<lparr>hb_seen := Suc (hb_seen h)\<rparr>)) = filter P (hb_pending h')"
    using Cons [of "h'\<lparr>hb_seen := Suc (hb_seen h)\<rparr>"] by auto
  have "hb_pending h' = filter (\<lambda>_. True) (hb_pending h) \<or> hb_pending h' = filter (\<lambda>k. i \<noteq> k) (hb_pending h)"
    using process_entry_effect [OF p] by (auto simp: removeAll_filter_not_eq)
  then obtain Q where "hb_pending h' = filter Q (hb_pending h)" by blast
  then show ?case using P p by (intro exI [of _ "\<lambda>x. Q x \<and> P x"]) (simp add: conj_commute)
qed

text \<open>
  The redelivery ends: after at most two reads more than there are pending entries, whatever the
  entries hold and whatever fails.
\<close>

theorem drain_ends:
  shows "length (hb_pending h) + 2 \<le> n \<longrightarrow> (\<exists>h'. drain n Es seen h = Some h')"
proof (induction n arbitrary: seen h)
  case (Suc n)
  show ?case
  proof (cases "read_pending h = [] \<or> Some (read_pending h) = seen")
    case False
    let ?h = "process_batch Es (read_pending h) h"
    obtain P where P: "hb_pending ?h = filter P (hb_pending h)" using process_batch_pending by blast
    show ?thesis
    proof (cases "hb_pending ?h = hb_pending h")
      case True
      then have "drain n Es (Some (read_pending h)) ?h = Some ?h" if "0 < n"
        using that by (cases n) (simp_all add: read_pending_def)
      then show ?thesis using False by auto
    next
      case less: False
      then have "length (hb_pending ?h) < length (hb_pending h)"
        unfolding P by (metis filter_id_conv length_filter_less)
      then show ?thesis using False Suc.IH [of ?h "Some (read_pending h)"] by auto
    qed
  qed simp
qed simp


lemma unreadable_batch:
  "\<forall>i\<in>set ks. hb_stream h ! i = Unreadable \<Longrightarrow> process_batch Es ks h = h\<lparr>hb_seen := hb_seen h + length ks\<rparr>"
  by (induction ks arbitrary: h) (auto simp: process_entry_def)

text \<open>
  Ten entries that cannot be read at the head of the pending ones end the redelivery at its second
  read, at every restart: the entries behind them are never looked at again.
\<close>

theorem stuck_entries_block_rest:
  assumes "10 \<le> length (hb_pending h)" "\<forall>i\<in>set (take 10 (hb_pending h)). hb_stream h ! i = Unreadable" "2 \<le> n"
  shows "\<exists>h'. drain n Es None h = Some h' \<and> hb_pending h' = hb_pending h \<and> hb_log h' = hb_log h \<and> hb_pushes h' = hb_pushes h"
proof -
  obtain m where n: "n = Suc (Suc m)" using assms(3) by (metis One_nat_def Suc_1 Suc_le_D add_2_eq_Suc le_Suc_ex)
  have "process_batch Es (read_pending h) h = h\<lparr>hb_seen := hb_seen h + length (read_pending h)\<rparr>"
    using assms(2) by (intro unreadable_batch) (simp add: read_pending_def)
  moreover have "read_pending h \<noteq> []" using assms(1) by (auto simp: read_pending_def)
  moreover have "read_pending (h\<lparr>hb_seen := k\<rparr>) = read_pending h" for k by (simp add: read_pending_def)
  ultimately show ?thesis by (simp add: n)
qed

section \<open>Nothing is acknowledged unseen\<close>

definition log_accounted :: "hub \<Rightarrow> bool" where
  "log_accounted h \<longleftrightarrow> hb_handed h \<le> length (hb_stream h) \<and> (\<forall>i\<in>set (hb_pending h). i < hb_handed h) \<and>
     (\<forall>i<hb_handed h. i \<notin> set (hb_pending h) \<longrightarrow>
        (\<forall>d. hb_stream h ! i = Event d \<longrightarrow> (\<exists>r\<in>set (hb_log h). lr_event r = nt_event d \<and> lr_key r = compute_dedup_key d)))"

lemma process_entry_accounted:
  assumes "log_accounted h" "process_entry E i (hb_stream h ! i) h = (ok, h')"
  shows "log_accounted h'"
proof -
  note e = process_entry_effect [OF assms(2)]
  have log: "set (hb_log h) \<subseteq> set (hb_log h')" using e by auto
  have pend: "set (hb_pending h') = set (hb_pending h) \<or> ok \<and> set (hb_pending h') = set (hb_pending h) - {i}" using e by auto
  have "\<exists>r\<in>set (hb_log h'). lr_event r = nt_event d \<and> lr_key r = compute_dedup_key d"
    if d: "hb_stream h ! k = Event d" "k < hb_handed h" "k \<notin> set (hb_pending h')" for k d
  proof (cases "k \<in> set (hb_pending h)")
    case True
    then have "ok" "k = i" using pend d(3) by auto
    then show ?thesis using e d(1) by (auto simp: row_for_def)
  next
    case False
    then show ?thesis using assms(1) d(1,2) log by (fastforce simp: log_accounted_def)
  qed
  then show ?thesis using assms(1) e pend by (auto simp: log_accounted_def)
qed

lemma live_read_handed:
  assumes "log_accounted h"
  shows "log_accounted (h\<lparr>hb_handed := hb_handed h + length (take 10 [hb_handed h..<length (hb_stream h)]),
    hb_pending := hb_pending h @ take 10 [hb_handed h..<length (hb_stream h)]\<rparr>)"
proof -
  have "take 10 [hb_handed h..<length (hb_stream h)] = [hb_handed h..<hb_handed h + length (take 10 [hb_handed h..<length (hb_stream h)])]"
    by (cases "hb_handed h + 10 \<le> length (hb_stream h)") (use assms in \<open>simp_all add: take_upt log_accounted_def\<close>)
  then obtain n where n: "take 10 [hb_handed h..<length (hb_stream h)] = [hb_handed h..<hb_handed h + n]"
    "n = length (take 10 [hb_handed h..<length (hb_stream h)])" by blast
  have "hb_handed h + n \<le> length (hb_stream h)" using assms n(2) by (auto simp: log_accounted_def)
  then show ?thesis using assms unfolding n(1) by (auto simp: log_accounted_def not_le)
qed

text \<open>
  C34. An entry that was handed out and is no longer pending, and that held an event, has a row in the
  log for that event, after any run of the hub: the service never acknowledges an event without a
  trace, in whichever statement it fails.
\<close>

theorem acked_was_logged:
  assumes "hub_step\<^sup>*\<^sup>* h h'" "hb_handed h = 0" "hb_pending h = []"
  shows "\<forall>i<hb_handed h'. i \<notin> set (hb_pending h') \<longrightarrow> (\<forall>d. hb_stream h' ! i = Event d \<longrightarrow>
    (\<exists>r\<in>set (hb_log h'). lr_event r = nt_event d \<and> lr_key r = compute_dedup_key d))"
proof -
  have batch: "log_accounted (process_batch Es ks h)" if "log_accounted h" for Es ks h
  proof (rule process_batch_inv [where K = UNIV and I = log_accounted, OF _ _ that])
    show "log_accounted h'" if "log_accounted h" "process_entry E i p h = (ok, h')" "p = hb_stream h ! i" for E i p h ok h'
      using process_entry_accounted that by blast
  qed (simp_all add: log_accounted_def)
  have "log_accounted h'" using assms(1)
  proof (induction rule: rtranclp_induct)
    case base
    then show ?case using assms(2,3) by (simp add: log_accounted_def)
  next
    case (step y z)
    from step.hyps(2) step.IH show ?case
    proof cases
      case (live Es)
      then show ?thesis using batch [OF live_read_handed [OF step.IH]] by (simp add: live_read_def Let_def)
    next
      case (restarted n Es)
      then show ?thesis using drain_inv [where I = log_accounted] batch step.IH by blast
    qed (auto simp: log_accounted_def subscribe_def unsubscribe_def nth_append)
  qed
  then show ?thesis by (simp add: log_accounted_def)
qed

section \<open>Accounts\<close>

text \<open>The consecutive misses at the end of a list of probes.\<close>

definition miss_streak :: "'a option list \<Rightarrow> nat" where
  "miss_streak rs = length (takeWhile (\<lambda>r. r \<noteq> None) (rev rs))"

lemma miss_streak_snoc [simp]: "miss_streak (rs @ [r]) = (if r = None then 0 else Suc (miss_streak rs))"
  by (simp add: miss_streak_def)

definition account_kind :: "string \<Rightarrow> entry_payload \<Rightarrow> bool list" where
  "account_kind a p = (case p of Event d \<Rightarrow>
     (if nt_account d = Some a \<and> nt_event d = Some ''account.down'' then [True]
      else if nt_account d = Some a \<and> nt_event d = Some ''account.up'' then [False] else []) | _ \<Rightarrow> [])"

definition account_kinds :: "string \<Rightarrow> entry_payload list \<Rightarrow> bool list" where
  "account_kinds a ps = concat (map (account_kind a) ps)"

lemma account_kinds_simps [simp]: "account_kinds a [] = []" "account_kinds a (ps @ qs) = account_kinds a ps @ account_kinds a qs"
  by (simp_all add: account_kinds_def)

fun watch_account :: "nat \<Rightarrow> string \<Rightarrow> watch_env list \<Rightarrow> watch_state \<Rightarrow> watch_state" where
  "watch_account threshold a [] w = w"
| "watch_account threshold a (E # Es) w = watch_account threshold a Es (snd (check_account threshold E a w))"

lemma watch_account_snoc: "watch_account t a (Es @ [E]) w = snd (check_account t E a (watch_account t a Es w))"
  by (induction Es arbitrary: w) auto

lemma check_account_step:
  assumes "1 \<le> t" "\<And>d. \<not> wv_emit_fails E d" "was_up (ws_accounts w) a = (misses_of (ws_fails w) a < t)"
  shows "let w' = snd (check_account t E a w); r = probe_account E a in
    misses_of (ws_fails w') a = (if r = None then 0 else Suc (misses_of (ws_fails w) a)) \<and>
    was_up (ws_accounts w') a = (misses_of (ws_fails w') a < t) \<and>
    (\<exists>evs. hb_stream (ws_hub w') = hb_stream (ws_hub w) @ evs \<and>
       account_kinds a evs = (if was_up (ws_accounts w') a = was_up (ws_accounts w) a then [] else [\<not> was_up (ws_accounts w') a]))"
  using assms by (auto simp: check_account_def Let_def announce_def emit_event_def misses_of_def was_up_def update_conv'
    account_kinds_def account_kind_def plain_event_def split: option.splits)

text \<open>
  While its notices can be sent, an account is taken for down exactly when the probes end in at
  least the threshold of misses in a row; the notices of it alternate between down and up,
  starting with down, and the last one agrees with its state.
\<close>

theorem account_state_is_streak:
  assumes "1 \<le> t" "\<forall>E\<in>set Es. \<forall>d. \<not> wv_emit_fails E d" "was_up (ws_accounts w) a" "misses_of (ws_fails w) a = 0"
  shows "was_up (ws_accounts (watch_account t a Es w)) a = (miss_streak (map (\<lambda>E. probe_account E a) Es) < t) \<and>
    (\<exists>evs. hb_stream (ws_hub (watch_account t a Es w)) = hb_stream (ws_hub w) @ evs \<and> alternating False (account_kinds a evs) \<and>
       was_up (ws_accounts (watch_account t a Es w)) a = (\<not> last (False # account_kinds a evs)))"
proof -
  have "misses_of (ws_fails (watch_account t a Es w)) a = miss_streak (map (\<lambda>E. probe_account E a) Es) \<and>
    was_up (ws_accounts (watch_account t a Es w)) a = (miss_streak (map (\<lambda>E. probe_account E a) Es) < t) \<and>
    (\<exists>evs. hb_stream (ws_hub (watch_account t a Es w)) = hb_stream (ws_hub w) @ evs \<and> alternating False (account_kinds a evs) \<and>
       was_up (ws_accounts (watch_account t a Es w)) a = (\<not> last (False # account_kinds a evs)))"
    using assms(2)
  proof (induction Es rule: rev_induct)
    case Nil
    then show ?case using assms by (simp add: miss_streak_def)
  next
    case (snoc E Es)
    let ?w = "watch_account t a Es w"
    let ?w' = "snd (check_account t E a ?w)"
    obtain evs where ih: "misses_of (ws_fails ?w) a = miss_streak (map (\<lambda>E. probe_account E a) Es)"
      "was_up (ws_accounts ?w) a = (miss_streak (map (\<lambda>E. probe_account E a) Es) < t)"
      "hb_stream (ws_hub ?w) = hb_stream (ws_hub w) @ evs" "alternating False (account_kinds a evs)"
      "was_up (ws_accounts ?w) a = (\<not> last (False # account_kinds a evs))" using snoc by auto
    have s: "\<And>d. \<not> wv_emit_fails E d" "was_up (ws_accounts ?w) a = (misses_of (ws_fails ?w) a < t)"
      using snoc.prems ih(1,2) by auto
    obtain es where es: "misses_of (ws_fails ?w') a = (if probe_account E a = None then 0 else Suc (misses_of (ws_fails ?w) a))"
      "was_up (ws_accounts ?w') a = (misses_of (ws_fails ?w') a < t)" "hb_stream (ws_hub ?w') = hb_stream (ws_hub ?w) @ es"
      "account_kinds a es = (if was_up (ws_accounts ?w') a = was_up (ws_accounts ?w) a then [] else [\<not> was_up (ws_accounts ?w') a])"
      using check_account_step [OF assms(1) s] by (auto simp: Let_def)
    have "alternating False (account_kinds a (evs @ es)) \<and> was_up (ws_accounts ?w') a = (\<not> last (False # account_kinds a (evs @ es)))"
      using ih(4,5) es(4) by (auto simp: alternating_snoc last_of_snoc simp del: last.simps)
    moreover have "hb_stream (ws_hub ?w') = hb_stream (ws_hub w) @ (evs @ es)" using ih(3) es(3) by simp
    moreover have "misses_of (ws_fails ?w') a = miss_streak (map (\<lambda>E. probe_account E a) (Es @ [E]))"
      using ih(1) es(1) by simp
    ultimately show ?case unfolding watch_account_snoc using es(2) by metis
  qed
  then show ?thesis by blast
qed


section \<open>A hub with one device\<close>

text \<open>The \<open>k\<close>-th entry is processed \<open>k\<close> times \<open>gap\<close> seconds after the first, and every push arrives.\<close>

definition demo_day :: "rat \<Rightarrow> nat \<Rightarrow> hub_env" where
  "demo_day gap k = \<lparr>nv_now = of_nat k * gap, nv_check_fails = False, nv_log_fails = False, nv_ack_fails = False,
     nv_devices_fail = False, nv_disable_fails = (\<lambda>_. False), nv_push = (\<lambda>_. Pushed)\<rparr>"

definition account_event :: "string \<Rightarrow> string \<Rightarrow> event_data" where
  "account_event ev a = (plain_event ev)\<lparr>nt_account := Some a\<rparr>"

definition demo_hub :: "entry_payload list \<Rightarrow> hub" where
  "demo_hub ps = \<lparr>hb_stream = ps, hb_handed = 0, hb_pending = [], hb_log = [], hb_devices = [(1, True)], hb_pushes = [],
     hb_seen = 0\<rparr>"

abbreviation outages :: "entry_payload list" where
  "outages \<equiv> replicate 3 (Event (account_event ''account.down'' ''A''))"

lemma dedup_spacing_witness:
  "let h = live_read (demo_day 90000) (demo_hub outages)
   in lr_key (hb_log h ! 0) = lr_key (hb_log h ! 1) \<and> lr_created (hb_log h ! 0) + DEDUP_WINDOW \<le> lr_created (hb_log h ! 1)"
proof -
  let ?h = "live_read (demo_day 90000) (demo_hub outages)"
  have "hub_step\<^sup>*\<^sup>* (demo_hub outages) ?h" using hub_step.live by blast
  from dedup_spacing [OF this] have d: "\<forall>j<length (hb_log ?h). \<forall>i<j. lr_key (hb_log ?h ! i) = lr_key (hb_log ?h ! j) \<longrightarrow>
      truthy_text (lr_key (hb_log ?h ! j)) \<longrightarrow> lr_status (hb_log ?h ! j) \<noteq> Log_skipped \<longrightarrow>
      lr_created (hb_log ?h ! i) + DEDUP_WINDOW \<le> lr_created (hb_log ?h ! j)" by (simp add: demo_hub_def)
  have "1 < length (hb_log ?h)" "lr_key (hb_log ?h ! 0) = lr_key (hb_log ?h ! 1)" "truthy_text (lr_key (hb_log ?h ! 1))"
    "lr_status (hb_log ?h ! 1) \<noteq> Log_skipped" by code_simp+
  then show ?thesis using d [rule_format, of 1 0] by (simp add: Let_def)
qed

text \<open>Outages 20 hours apart: the third comes 40 hours after the only push.\<close>

lemma flapping_never_announced_witness:
  "hb_pushes (process_batch (demo_day 72000) [1, 2] (process_batch (demo_day 72000) [0] (demo_hub outages))) =
     [(1, \<lparr>rd_tag = ''account:A'', rd_renotify = True\<rparr>)]"
proof -
  let ?h = "process_batch (demo_day 72000) [0] (demo_hub outages)"
  have e: "\<forall>i\<in>set [1, 2]. \<exists>d. hb_stream ?h ! i = Event d \<and> compute_dedup_key d = Some ''account:A:down'' \<and> nt_event d \<noteq> None"
  proof -
    have "hb_stream ?h = outages" by code_simp
    moreover have "compute_dedup_key (account_event ''account.down'' ''A'') = Some ''account:A:down''"
      "nt_event (account_event ''account.down'' ''A'') \<noteq> None" by code_simp+
    ultimately show ?thesis by (simp add: numeral_2_eq_2 numeral_3_eq_3)
  qed
  have r: "hb_log ?h ! 0 \<in> set (hb_log ?h)" "lr_key (hb_log ?h ! 0) = Some ''account:A:down''"
    "nv_now (demo_day 72000 (hb_seen ?h)) < lr_created (hb_log ?h ! 0) + DEDUP_WINDOW" by code_simp+
  have t: "\<forall>k. nv_now (demo_day 72000 (Suc k)) < nv_now (demo_day 72000 k) + DEDUP_WINDOW"
    "\<forall>k. \<not> nv_check_fails (demo_day 72000 k) \<and> \<not> nv_log_fails (demo_day 72000 k)"
    by (simp_all add: demo_day_def DEDUP_WINDOW_def algebra_simps)
  have "hb_pushes ?h = [(1, \<lparr>rd_tag = ''account:A'', rd_renotify = True\<rparr>)]" by code_simp
  then show ?thesis using flapping_never_announced [OF e _ r t] by simp
qed

lemma drain_ends_witness:
  "\<exists>h'. drain 3 (demo_day 1) None ((demo_hub outages)\<lparr>hb_handed := 1, hb_pending := [0]\<rparr>) = Some h'"
  using drain_ends [of "(demo_hub outages)\<lparr>hb_handed := 1, hb_pending := [0]\<rparr>" 3] by simp

lemma stuck_entries_block_rest_witness:
  "\<exists>h'. drain 2 (demo_day 1) None ((demo_hub (replicate 10 Unreadable @ outages))\<lparr>hb_handed := 11, hb_pending := [0..<11]\<rparr>) = Some h' \<and>
     10 \<in> set (hb_pending h') \<and> hb_pushes h' = []"
proof -
  let ?h = "(demo_hub (replicate 10 Unreadable @ outages))\<lparr>hb_handed := 11, hb_pending := [0..<11]\<rparr>"
  have "10 \<le> length (hb_pending ?h)" "\<forall>i\<in>set (take 10 (hb_pending ?h)). hb_stream ?h ! i = Unreadable"
    by (auto simp: demo_hub_def nth_append take_upt)
  from stuck_entries_block_rest [OF this, of 2 "demo_day 1"] show ?thesis by (auto simp: demo_hub_def)
qed

lemma acked_was_logged_witness:
  "let h = live_read (demo_day 1) (demo_hub outages) in hb_handed h = 3 \<and> hb_pending h = [] \<and>
     (\<exists>r\<in>set (hb_log h). lr_event r = Some ''account.down'' \<and> lr_key r = Some ''account:A:down'')"
proof -
  let ?h = "live_read (demo_day 1) (demo_hub outages)"
  have "hub_step\<^sup>*\<^sup>* (demo_hub outages) ?h" using hub_step.live by blast
  from acked_was_logged [OF this] have a: "\<forall>i<hb_handed ?h. i \<notin> set (hb_pending ?h) \<longrightarrow> (\<forall>d. hb_stream ?h ! i = Event d \<longrightarrow>
      (\<exists>r\<in>set (hb_log ?h). lr_event r = nt_event d \<and> lr_key r = compute_dedup_key d))" by (simp add: demo_hub_def)
  have h: "hb_handed ?h = 3" "hb_pending ?h = []" "hb_stream ?h ! 0 = Event (account_event ''account.down'' ''A'')"
    "nt_event (account_event ''account.down'' ''A'') = Some ''account.down''"
    "compute_dedup_key (account_event ''account.down'' ''A'') = Some ''account:A:down''" by code_simp+
  then show ?thesis using a [rule_format, of 0 "account_event ''account.down'' ''A''"] by (simp add: Let_def)
qed

definition demo_probe :: "bool \<Rightarrow> watch_env" where
  "demo_probe ok = \<lparr>wv_heartbeat = (\<lambda>_. Inr None), wv_now_ms = 0, wv_healthy = (\<lambda>_. True), wv_accounts = Inr [''A''],
     wv_probe = (\<lambda>_. if ok then Probe_body None else Probe_status ''502''), wv_emit_fails = (\<lambda>_. False), wv_clock = 0, wv_clock_after = 0\<rparr>"

lemma account_state_is_streak_witness:
  "let Es = map demo_probe [False, True, False, False, True, False];
       w = watch_account 2 ''A'' Es \<lparr>ws_exchanges = [], ws_services = [], ws_accounts = [], ws_fails = [], ws_next = 0, ws_hub = demo_hub []\<rparr>
   in was_up (ws_accounts w) ''A'' \<and> account_kinds ''A'' (hb_stream (ws_hub w)) = [True, False]"
proof -
  let ?Es = "map demo_probe [False, True, False, False, True, False]"
  let ?w0 = "\<lparr>ws_exchanges = [], ws_services = [], ws_accounts = [], ws_fails = [], ws_next = 0, ws_hub = demo_hub []\<rparr>"
  have "\<forall>E\<in>set ?Es. \<forall>d. \<not> wv_emit_fails E d" by (simp add: demo_probe_def)
  from account_state_is_streak [OF _ this, of 2 ?w0 "''A''"]
  have "was_up (ws_accounts (watch_account 2 ''A'' ?Es ?w0)) ''A'' = (miss_streak (map (\<lambda>E. probe_account E ''A'') ?Es) < 2)"
    by (simp add: was_up_def misses_of_def)
  moreover have "miss_streak (map (\<lambda>E. probe_account E ''A'') ?Es) < 2" by code_simp
  moreover have "account_kinds ''A'' (hb_stream (ws_hub (watch_account 2 ''A'' ?Es ?w0))) = [True, False]" by code_simp
  ultimately show ?thesis by (simp add: Let_def)
qed

end
