(* ===== verification/ShadowDiff.thy ===== *)
theory ShadowDiff
  imports Harness
begin

text \<open>
  The shadow-diff harness, \<open>signal-engine/app/diff.py\<close>: the signals of the shadow table against the
  orders TradingView sent for the same strategy, by nearest time within a window (\<open>live\<close>,
  \<open>exits\<close>) or bar by bar (\<open>replay\<close>). Times are milliseconds; the printed tables are the
  values the commands return.
\<close>

section \<open>Rows\<close>

datatype diff_verdict = Matched | Missing_in_tv | Extra_local | Side_mismatch | Bar_offset

datatype diff_note =
    Note_dt string int
  | Note_opposite string sig_kind sig_kind
  | Note_none string int

record shadow_entry =
  sh_id :: nat
  sh_strategy :: string
  sh_signal :: sig_kind
  sh_bar_time :: int
  sh_fired :: int
  sh_reason :: "string option"
  sh_status :: "diff_verdict option"
  sh_order :: "nat option"
  sh_notes :: "diff_note option"

text \<open>An order; its signal is \<open>None\<close> when it neither opens nor closes a leg.\<close>

record tv_order =
  tv_id :: nat
  tv_strategy :: string
  tv_signal :: "sig_kind option"
  tv_received :: int

definition is_open_kind :: "sig_kind \<Rightarrow> bool" where
  "is_open_kind k \<longleftrightarrow> k = Open_long \<or> k = Open_short"

definition is_close_kind :: "sig_kind \<Rightarrow> bool" where
  "is_close_kind k \<longleftrightarrow> k = Close_long \<or> k = Close_short"

section \<open>Matching by time\<close>

text \<open>The nearest unused order of the same signal within the window; of two equally near, the first.\<close>

fun nearest_tv :: "int \<Rightarrow> nat list \<Rightarrow> sig_kind \<Rightarrow> int \<Rightarrow> tv_order list \<Rightarrow> (tv_order \<times> int) option \<Rightarrow> (tv_order \<times> int) option" where
  "nearest_tv window used k t [] best = best"
| "nearest_tv window used k t (tv # tvs) best =
     (if tv_id tv \<in> set used \<or> tv_signal tv \<noteq> Some k then nearest_tv window used k t tvs best
      else let d = \<bar>tv_received tv - t\<bar>
           in nearest_tv window used k t tvs
                (if d \<le> window \<and> (best = None \<or> d < snd (the best)) then Some (tv, d) else best))"

definition opposite_tv :: "int \<Rightarrow> nat list \<Rightarrow> sig_kind \<Rightarrow> int \<Rightarrow> tv_order list \<Rightarrow> tv_order option" where
  "opposite_tv window used k t tvs =
     List.find (\<lambda>tv. tv_id tv \<notin> set used \<and> tv_signal tv \<noteq> Some k \<and> \<bar>tv_received tv - t\<bar> \<le> window) tvs"

text \<open>What is written for a row, and the order it uses up: only a match does.\<close>

definition judge_row ::
  "int \<Rightarrow> string \<Rightarrow> nat list \<Rightarrow> sig_kind \<Rightarrow> int \<Rightarrow> tv_order list \<Rightarrow> diff_verdict \<times> nat option \<times> diff_note" where
  "judge_row window_min reason used k t tvs =
     (let window = window_min * 60000 in
      case nearest_tv window used k t tvs None of
        Some (tv, d) \<Rightarrow> (Matched, Some (tv_id tv), Note_dt reason d)
      | None \<Rightarrow>
         (case opposite_tv window used k t tvs of
            Some tv \<Rightarrow> (Side_mismatch, Some (tv_id tv), Note_opposite reason (case tv_signal tv of Some s \<Rightarrow> s | None \<Rightarrow> k) k)
          | None \<Rightarrow> (Missing_in_tv, None, Note_none reason window_min)))"

definition write_verdict :: "nat \<Rightarrow> diff_verdict \<times> nat option \<times> diff_note \<Rightarrow> shadow_entry list \<Rightarrow> shadow_entry list" where
  "write_verdict i v = update_where (\<lambda>r. sh_id r = i)
     (\<lambda>r. r\<lparr>sh_status := Some (fst v), sh_order := fst (snd v), sh_notes := Some (snd (snd v))\<rparr>)"

text \<open>The rows in turn; the list of their verdicts, the orders used, and the table.\<close>

fun match_rows ::
  "int \<Rightarrow> (shadow_entry \<Rightarrow> string) \<Rightarrow> tv_order list \<Rightarrow> shadow_entry list \<Rightarrow> nat list \<Rightarrow> shadow_entry list \<Rightarrow>
   (shadow_entry \<times> diff_verdict \<times> nat option \<times> diff_note) list \<times> nat list \<times> shadow_entry list" where
  "match_rows window_min reason tvs [] used table = ([], used, table)"
| "match_rows window_min reason tvs (r # rs) used table =
     (let v = judge_row window_min (reason r) used (sh_signal r) (sh_fired r) tvs;
          used1 = (if fst v = Matched then used @ [the (fst (snd v))] else used)
      in case match_rows window_min reason tvs rs used1 (write_verdict (sh_id r) v table) of
           (out, used2, table2) \<Rightarrow> ((r, v) # out, used2, table2))"

definition extra_orders :: "nat list \<Rightarrow> tv_order list \<Rightarrow> tv_order list" where
  "extra_orders used tvs = filter (\<lambda>tv. tv_id tv \<notin> set used) tvs"

section \<open>The commands over the tables\<close>

text \<open>The given time, or that of the strategy's first order of any kind.\<close>

definition resolve_since :: "string \<Rightarrow> int option \<Rightarrow> tv_order list \<Rightarrow> int option" where
  "resolve_since strategy since orders =
     (case since of
        Some t \<Rightarrow> Some t
      | None \<Rightarrow>
         (case map tv_received (filter (\<lambda>o'. tv_strategy o' = strategy) orders) of
            [] \<Rightarrow> None
          | t # ts \<Rightarrow> Some (foldr min ts t)))"

definition tv_rows :: "(sig_kind \<Rightarrow> bool) \<Rightarrow> string \<Rightarrow> int \<Rightarrow> tv_order list \<Rightarrow> tv_order list" where
  "tv_rows kind strategy since orders =
     sort_key tv_received (filter (\<lambda>o'. tv_strategy o' = strategy \<and> (case tv_signal o' of None \<Rightarrow> False | Some k \<Rightarrow> kind k) \<and> since \<le> tv_received o') orders)"

definition live_shadows :: "string \<Rightarrow> int \<Rightarrow> shadow_entry list \<Rightarrow> shadow_entry list" where
  "live_shadows strategy since table =
     sort_key sh_fired (filter (\<lambda>r. sh_strategy r = strategy \<and> is_open_kind (sh_signal r) \<and> since \<le> sh_fired r) table)"

definition exit_shadows :: "string \<Rightarrow> int \<Rightarrow> shadow_entry list \<Rightarrow> shadow_entry list" where
  "exit_shadows strategy since table =
     sort_key sh_fired (filter (\<lambda>r. sh_strategy r = strategy \<and> is_close_kind (sh_signal r) \<and> since \<le> sh_bar_time r) table)"

record diff_report =
  dr_rows :: "(shadow_entry \<times> diff_verdict \<times> nat option \<times> diff_note) list"
  dr_extra :: "tv_order list"

definition run_diff ::
  "int \<Rightarrow> (shadow_entry \<Rightarrow> string) \<Rightarrow> shadow_entry list \<Rightarrow> tv_order list \<Rightarrow> shadow_entry list \<Rightarrow> diff_report \<times> shadow_entry list" where
  "run_diff window_min reason shadows tvs table =
     (case match_rows window_min reason tvs shadows [] table of
        (out, used, table1) \<Rightarrow> (\<lparr>dr_rows = out, dr_extra = extra_orders used tvs\<rparr>, table1))"

definition cmd_live ::
  "string \<Rightarrow> int option \<Rightarrow> int \<Rightarrow> tv_order list \<Rightarrow> shadow_entry list \<Rightarrow> diff_report option \<times> shadow_entry list" where
  "cmd_live strategy since window_min orders table =
     (case resolve_since strategy since orders of
        None \<Rightarrow> (None, table)
      | Some t \<Rightarrow>
         (case run_diff window_min (\<lambda>_. '''') (live_shadows strategy t table) (tv_rows is_open_kind strategy t orders) table of
            (report, table1) \<Rightarrow> (Some report, table1)))"

definition exit_reason_text :: "shadow_entry \<Rightarrow> string" where
  "exit_reason_text r = (case sh_reason r of None \<Rightarrow> ''flip'' | Some s \<Rightarrow> if s = [] then ''flip'' else s)"

definition cmd_exits ::
  "string \<Rightarrow> int \<Rightarrow> int option \<Rightarrow> tv_order list \<Rightarrow> shadow_entry list \<Rightarrow> diff_report option \<times> shadow_entry list" where
  "cmd_exits strategy window_min since orders table =
     (case resolve_since strategy since orders of
        None \<Rightarrow> (None, table)
      | Some t \<Rightarrow>
         (case run_diff window_min exit_reason_text (exit_shadows strategy t table) (tv_rows is_close_kind strategy t orders) table of
            (report, table1) \<Rightarrow> (Some report, table1)))"

section \<open>Bar by bar\<close>

definition round_to_bar :: "int \<Rightarrow> int \<Rightarrow> int" where
  "round_to_bar t tf = t div tf * tf"

text \<open>The first order of each bar.\<close>

definition fetch_tv_entries :: "string \<Rightarrow> int \<Rightarrow> int \<Rightarrow> tv_order list \<Rightarrow> (int \<times> sig_kind) list" where
  "fetch_tv_entries strategy since tf orders =
     fold (\<lambda>o' acc. if round_to_bar (tv_received o') tf \<in> fst ` set acc then acc
                   else acc @ [(round_to_bar (tv_received o') tf, the (tv_signal o'))])
       (tv_rows is_open_kind strategy since orders) []"

text \<open>The entry signals of the strategy replayed on the closed candles, the last one of a bar.\<close>

fun replay_candles ::
  "rsi_fun \<Rightarrow> candle list \<Rightarrow> int \<Rightarrow> nat list \<Rightarrow> harness_strategy \<Rightarrow> (int \<times> sig_kind) list \<Rightarrow> (int \<times> sig_kind) list" where
  "replay_candles rsi candles since [] s found = found"
| "replay_candles rsi candles since (i # ks) s found =
     (case harness_evaluate rsi (take (i + 1) candles) True s of
        (sigs, s1) \<Rightarrow>
          replay_candles rsi candles since ks s1
            (if i < WARMUP_BARS then found
             else fold (\<lambda>g acc. if is_open_kind (sg_signal g) \<and> since \<le> sg_bar_time g
                               then AList.update (sg_bar_time g) (sg_signal g) acc else acc) sigs found))"

definition local_entries :: "rsi_fun \<Rightarrow> candle list \<Rightarrow> int \<Rightarrow> (int \<times> sig_kind) list" where
  "local_entries rsi candles since =
     replay_candles rsi (sort_key cd_t candles) since [0..<length candles] new_strategy []"

definition bar_verdict :: "int \<Rightarrow> (int \<times> sig_kind) list \<Rightarrow> (int \<times> sig_kind) list \<Rightarrow> int \<Rightarrow> diff_verdict option" where
  "bar_verdict tf tv loc bar =
     (case (map_of tv bar, map_of loc bar) of
        (Some a, Some b) \<Rightarrow> Some (if a = b then Matched else Side_mismatch)
      | (None, Some b) \<Rightarrow>
          Some (if map_of tv (bar - tf) \<noteq> None \<or> map_of tv (bar + tf) \<noteq> None then Bar_offset else Missing_in_tv)
      | (Some a, None) \<Rightarrow>
          Some (if map_of loc (bar - tf) \<noteq> None \<or> map_of loc (bar + tf) \<noteq> None then Bar_offset else Extra_local)
      | (None, None) \<Rightarrow> None)"

definition compare_bars :: "int \<Rightarrow> (int \<times> sig_kind) list \<Rightarrow> (int \<times> sig_kind) list \<Rightarrow> (int \<times> diff_verdict) list" where
  "compare_bars tf tv loc =
     List.map_filter (\<lambda>bar. map_option (\<lambda>v. (bar, v)) (bar_verdict tf tv loc bar))
       (sorted_list_of_set (fst ` set loc \<union> fst ` set tv))"

definition cmd_replay :: "string \<Rightarrow> int \<Rightarrow> int \<Rightarrow> rsi_fun \<Rightarrow> candle list \<Rightarrow> tv_order list \<Rightarrow> (int \<times> diff_verdict) list" where
  "cmd_replay strategy since tf rsi candles orders =
     compare_bars tf (fetch_tv_entries strategy since tf orders) (local_entries rsi candles since)"

section \<open>What a match is\<close>

definition candidate :: "int \<Rightarrow> nat list \<Rightarrow> sig_kind \<Rightarrow> int \<Rightarrow> tv_order \<Rightarrow> bool" where
  "candidate window used k t tv \<longleftrightarrow> tv_id tv \<notin> set used \<and> tv_signal tv = Some k \<and> \<bar>tv_received tv - t\<bar> \<le> window"

text \<open>One order of the scan.\<close>

lemma nearest_tv_step:
  "nearest_tv window used k t (z # tvs) best = nearest_tv window used k t tvs
     (if candidate window used k t z \<and> (best = None \<or> \<bar>tv_received z - t\<bar> < snd (the best)) then Some (z, \<bar>tv_received z - t\<bar>) else best)"
  by (simp add: candidate_def Let_def)

declare nearest_tv.simps(2) [simp del]

lemma nearest_tv_spec:
  "nearest_tv window used k t tvs best = Some (tv, d) \<Longrightarrow>
    best = Some (tv, d) \<or> tv \<in> set tvs \<and> candidate window used k t tv \<and> d = \<bar>tv_received tv - t\<bar>"
proof (induction tvs arbitrary: best)
  case (Cons z tvs)
  from Cons.IH [OF Cons.prems [unfolded nearest_tv_step]] show ?case by (auto split: if_splits)
qed simp

lemma nearest_tv_le:
  "best = Some (y, e) \<Longrightarrow> \<exists>tv d. nearest_tv window used k t tvs best = Some (tv, d) \<and> d \<le> e"
proof (induction tvs arbitrary: best y e)
  case (Cons z tvs)
  show ?case
  proof (cases "candidate window used k t z \<and> \<bar>tv_received z - t\<bar> < e")
    case True
    then obtain tv d where "nearest_tv window used k t tvs (Some (z, \<bar>tv_received z - t\<bar>)) = Some (tv, d)" "d \<le> \<bar>tv_received z - t\<bar>"
      using Cons.IH by blast
    then show ?thesis using True Cons.prems unfolding nearest_tv_step by (intro exI [of _ tv] exI [of _ d]) auto
  next
    case False
    then show ?thesis using Cons.IH [OF Cons.prems] Cons.prems unfolding nearest_tv_step by auto
  qed
qed simp

text \<open>The chosen order is a nearest candidate, and there is one whenever there is a candidate.\<close>

lemma nearest_tv_best:
  assumes "x \<in> set tvs" "candidate window used k t x"
  shows "\<exists>tv d. nearest_tv window used k t tvs best = Some (tv, d) \<and> d \<le> \<bar>tv_received x - t\<bar>"
  using assms
proof (induction tvs arbitrary: best)
  case (Cons z tvs)
  show ?case
  proof (cases "x = z")
    case False
    then show ?thesis unfolding nearest_tv_step using Cons by auto
  next
    case True
    define b where "b = (if candidate window used k t z \<and> (best = None \<or> \<bar>tv_received z - t\<bar> < snd (the best)) then Some (z, \<bar>tv_received z - t\<bar>) else best)"
    have "\<exists>y e. b = Some (y, e) \<and> e \<le> \<bar>tv_received x - t\<bar>"
      using True Cons.prems(2) by (cases best) (auto simp: b_def not_less split: prod.splits)
    then obtain y e where b: "b = Some (y, e)" "e \<le> \<bar>tv_received x - t\<bar>" by blast
    show ?thesis unfolding nearest_tv_step b_def [symmetric] using nearest_tv_le [OF b(1), of window used k t tvs] b(2) by fastforce
  qed
qed simp

text \<open>What the judgement of a row says.\<close>

lemma judge_row_cases:
  obtains (match) tv d where "judge_row m reason used k t tvs = (Matched, Some (tv_id tv), Note_dt reason d)" "tv \<in> set tvs"
      "candidate (m * 60000) used k t tv" "d = \<bar>tv_received tv - t\<bar>"
      "\<forall>x\<in>set tvs. candidate (m * 60000) used k t x \<longrightarrow> d \<le> \<bar>tv_received x - t\<bar>"
  | (other) v where "judge_row m reason used k t tvs = v" "fst v \<noteq> Matched" "\<forall>x\<in>set tvs. \<not> candidate (m * 60000) used k t x"
      "fst v = Missing_in_tv \<longrightarrow> (\<forall>x\<in>set tvs. tv_id x \<notin> set used \<longrightarrow> m * 60000 < \<bar>tv_received x - t\<bar>)"
proof (cases "nearest_tv (m * 60000) used k t tvs None")
  case None
  then have none: "\<forall>x\<in>set tvs. \<not> candidate (m * 60000) used k t x"
    using nearest_tv_best [of _ tvs "m * 60000" used k t None] by auto
  show ?thesis
  proof (rule other [OF refl _ none])
    show "fst (judge_row m reason used k t tvs) \<noteq> Matched" using None by (simp add: judge_row_def Let_def split: option.splits)
    show "fst (judge_row m reason used k t tvs) = Missing_in_tv \<longrightarrow> (\<forall>x\<in>set tvs. tv_id x \<notin> set used \<longrightarrow> m * 60000 < \<bar>tv_received x - t\<bar>)"
      using None none by (auto simp: judge_row_def Let_def opposite_tv_def find_None_iff candidate_def not_le split: option.splits)
  qed
next
  case (Some p)
  obtain tv d where p: "p = (tv, d)" by fastforce
  note n = nearest_tv_spec [OF Some [unfolded p]]
  have "\<forall>x\<in>set tvs. candidate (m * 60000) used k t x \<longrightarrow> d \<le> \<bar>tv_received x - t\<bar>"
    using nearest_tv_best [of _ tvs "m * 60000" used k t None] Some p by auto
  then show ?thesis using n Some p by (intro match [of tv d]) (auto simp: judge_row_def Let_def)
qed

section \<open>The matching\<close>

definition used_by :: "(shadow_entry \<times> diff_verdict \<times> nat option \<times> diff_note) list \<Rightarrow> nat list" where
  "used_by out = List.map_filter (\<lambda>(r, v, i, n). if v = Matched then i else None) out"

lemma used_by_Cons: "used_by (x # xs) = used_by [x] @ used_by xs"
  by (simp add: used_by_def List.map_filter_def)

lemma judge_row_uses:
  "(if fst (judge_row m reason used k t tvs) = Matched then used @ [the (fst (snd (judge_row m reason used k t tvs)))] else used) =
   used @ used_by [(r, judge_row m reason used k t tvs)]"
  by (rule judge_row_cases [where m = m and reason = reason and used = used and k = k and t = t and tvs = tvs])
    (auto simp: used_by_def List.map_filter_def split: prod.splits)

lemma match_rows_shape:
  assumes "match_rows m reason tvs rs used table = (out, used2, table2)"
  shows "map fst out = rs \<and> used2 = used @ used_by out"
  using assms
proof (induction rs arbitrary: used table out)
  case (Cons r rs)
  let ?v = "judge_row m (reason r) used (sh_signal r) (sh_fired r) tvs"
  obtain out1 where o: "match_rows m reason tvs rs (if fst ?v = Matched then used @ [the (fst (snd ?v))] else used)
      (write_verdict (sh_id r) ?v table) = (out1, used2, table2)" "out = (r, ?v) # out1"
    using Cons.prems by (auto simp: Let_def split: prod.splits)
  show ?case using Cons.IH [OF o(1)] o(2) judge_row_uses [of m "reason r" used "sh_signal r" "sh_fired r" tvs r] used_by_Cons [of "(r, ?v)" out1]
    by simp
qed (simp add: used_by_def List.map_filter_def)

text \<open>The diff_verdict of each row, by the orders the rows before it used.\<close>

definition sound_out :: "int \<Rightarrow> tv_order list \<Rightarrow> nat list \<Rightarrow> (shadow_entry \<times> diff_verdict \<times> nat option \<times> diff_note) list \<Rightarrow> bool" where
  "sound_out m tvs used out \<longleftrightarrow> (\<forall>i<length out. case out ! i of (r, v, order, n) \<Rightarrow>
     (v = Matched \<longrightarrow> (\<exists>tv\<in>set tvs. order = Some (tv_id tv) \<and> candidate (m * 60000) (used @ used_by (take i out)) (sh_signal r) (sh_fired r) tv)) \<and>
     (v \<noteq> Matched \<longrightarrow> (\<forall>tv\<in>set tvs. \<not> candidate (m * 60000) (used @ used_by (take i out)) (sh_signal r) (sh_fired r) tv)))"

lemma match_rows_sound:
  assumes "match_rows m reason tvs rs used table = (out, used2, table2)"
  shows "sound_out m tvs used out"
  using assms
proof (induction rs arbitrary: used table out)
  case Nil
  then show ?case by (simp add: sound_out_def)
next
  case (Cons r rs)
  let ?v = "judge_row m (reason r) used (sh_signal r) (sh_fired r) tvs"
  let ?used = "if fst ?v = Matched then used @ [the (fst (snd ?v))] else used"
  obtain out1 where o: "match_rows m reason tvs rs ?used (write_verdict (sh_id r) ?v table) = (out1, used2, table2)" "out = (r, ?v) # out1"
    using Cons.prems by (auto simp: Let_def split: prod.splits)
  define U where "U = ?used"
  have u: "U @ used_by xs = used @ used_by ((r, ?v) # xs)" for xs
    unfolding U_def judge_row_uses [of m "reason r" used "sh_signal r" "sh_fired r" tvs r] using used_by_Cons [of "(r, ?v)" xs] by simp
  have ih: "sound_out m tvs U out1" unfolding U_def by (rule Cons.IH [OF o(1)])
  show ?case unfolding sound_out_def
  proof (intro allI impI)
    fix i assume i: "i < length out"
    show "case out ! i of (r, v, order, n) \<Rightarrow>
       (v = Matched \<longrightarrow> (\<exists>tv\<in>set tvs. order = Some (tv_id tv) \<and> candidate (m * 60000) (used @ used_by (take i out)) (sh_signal r) (sh_fired r) tv)) \<and>
       (v \<noteq> Matched \<longrightarrow> (\<forall>tv\<in>set tvs. \<not> candidate (m * 60000) (used @ used_by (take i out)) (sh_signal r) (sh_fired r) tv))"
    proof (cases i)
      case 0
      show ?thesis
        by (rule judge_row_cases [where m = m and reason = "reason r" and used = used and k = "sh_signal r" and t = "sh_fired r" and tvs = tvs])
          (auto simp: 0 o(2) used_by_def List.map_filter_def split: prod.splits)
    next
      case (Suc j)
      then have "j < length out1" using i o(2) by simp
      then show ?thesis using ih unfolding sound_out_def u by (simp add: Suc o(2))
    qed
  qed
qed


text \<open>The writes of a run, and what they leave in a table: the last one of each row.\<close>

definition put_verdict :: "shadow_entry \<Rightarrow> diff_verdict \<times> nat option \<times> diff_note \<Rightarrow> shadow_entry" where
  "put_verdict r v = r\<lparr>sh_status := Some (fst v), sh_order := fst (snd v), sh_notes := Some (snd (snd v))\<rparr>"

definition put_all :: "(nat \<times> diff_verdict \<times> nat option \<times> diff_note) list \<Rightarrow> shadow_entry list \<Rightarrow> shadow_entry list" where
  "put_all ws = map (\<lambda>r. case map_of (rev ws) (sh_id r) of None \<Rightarrow> r | Some v \<Rightarrow> put_verdict r v)"

lemma put_verdict_fields [simp]:
  "sh_id (put_verdict r v) = sh_id r" "sh_strategy (put_verdict r v) = sh_strategy r" "sh_signal (put_verdict r v) = sh_signal r"
  "sh_bar_time (put_verdict r v) = sh_bar_time r" "sh_fired (put_verdict r v) = sh_fired r" "sh_reason (put_verdict r v) = sh_reason r"
  "put_verdict (put_verdict r v) w = put_verdict r w"
  by (simp_all add: put_verdict_def)

lemma write_verdict_map: "write_verdict i v t = map (\<lambda>r. if sh_id r = i then put_verdict r v else r) t"
  by (simp add: write_verdict_def update_where_def put_verdict_def)

lemma put_all_Cons: "put_all ws (write_verdict i v t) = put_all ((i, v) # ws) t"
  by (auto simp: put_all_def write_verdict_map map_add_def split: option.splits)

lemma put_all_idem: "put_all ws (put_all ws t) = put_all ws t"
  by (auto simp: put_all_def split: option.splits)

definition writes_of :: "(shadow_entry \<times> diff_verdict \<times> nat option \<times> diff_note) list \<Rightarrow> (nat \<times> diff_verdict \<times> nat option \<times> diff_note) list" where
  "writes_of out = map (\<lambda>(r, v). (sh_id r, v)) out"

lemma match_rows_table:
  "match_rows m reason tvs rs used table = (out, used2, table2) \<Longrightarrow> table2 = put_all (writes_of out) table"
proof (induction rs arbitrary: used table out)
  case Nil
  then show ?case by (simp add: put_all_def writes_of_def)
next
  case (Cons r rs)
  let ?v = "judge_row m (reason r) used (sh_signal r) (sh_fired r) tvs"
  obtain out1 where o: "match_rows m reason tvs rs (if fst ?v = Matched then used @ [the (fst (snd ?v))] else used)
      (write_verdict (sh_id r) ?v table) = (out1, used2, table2)" "out = (r, ?v) # out1"
    using Cons.prems by (auto simp: Let_def split: prod.splits)
  show ?case using Cons.IH [OF o(1)] by (simp add: o(2) writes_of_def put_all_Cons)
qed

text \<open>The verdicts depend on what a row says, not on an earlier diff_verdict of it.\<close>

definition rewritten :: "(shadow_entry \<Rightarrow> shadow_entry) \<Rightarrow> bool" where
  "rewritten f \<longleftrightarrow> (\<forall>r. \<exists>v. f r = r \<or> f r = put_verdict r v)"

lemma rewritten_fields:
  assumes "rewritten f"
  shows "sh_id (f r) = sh_id r" "sh_strategy (f r) = sh_strategy r" "sh_signal (f r) = sh_signal r"
    "sh_bar_time (f r) = sh_bar_time r" "sh_fired (f r) = sh_fired r" "sh_reason (f r) = sh_reason r"
  using assms [unfolded rewritten_def, rule_format, of r] by auto

lemma match_rows_rewritten:
  assumes f: "rewritten f" and reason: "\<And>r. reason (f r) = reason r"
    and run: "match_rows m reason tvs rs used table = (out, used2, table2)"
  shows "match_rows m reason tvs (map f rs) used table' = (map (apfst f) out, used2, put_all (writes_of out) table')"
  using run
proof (induction rs arbitrary: used table table' out)
  case Nil
  then show ?case by (simp add: put_all_def writes_of_def)
next
  case (Cons r rs)
  let ?v = "judge_row m (reason r) used (sh_signal r) (sh_fired r) tvs"
  obtain out1 where o: "match_rows m reason tvs rs (if fst ?v = Matched then used @ [the (fst (snd ?v))] else used)
      (write_verdict (sh_id r) ?v table) = (out1, used2, table2)" "out = (r, ?v) # out1"
    using Cons.prems by (auto simp: Let_def split: prod.splits)
  show ?case using Cons.IH [OF o(1), of "write_verdict (sh_id r) ?v table'"] rewritten_fields [OF f, of r] reason [of r] o(2)
    by (simp add: Let_def writes_of_def put_all_Cons)
qed

lemma insort_key_map: "insort_key k (f x) (map f xs) = map f (insort_key (\<lambda>y. k (f y)) x xs)"
  by (induction xs) auto

lemma sort_key_map: "sort_key k (map f xs) = map f (sort_key (\<lambda>y. k (f y)) xs)"
  by (induction xs) (simp_all add: insort_key_map)

lemma shadows_rewritten:
  assumes "rewritten f"
  shows "live_shadows s t (map f table) = map f (live_shadows s t table)"
    "exit_shadows s t (map f table) = map f (exit_shadows s t table)"
  by (simp_all add: live_shadows_def exit_shadows_def sort_key_map filter_map comp_def rewritten_fields [OF assms])

lemma put_all_rewritten: "\<exists>f. rewritten f \<and> put_all ws = map f"
  by (intro exI [of _ "\<lambda>r. case map_of (rev ws) (sh_id r) of None \<Rightarrow> r | Some v \<Rightarrow> put_verdict r v"] conjI)
    (auto simp: rewritten_def put_all_def split: option.splits)

text \<open>A second run over what the first left writes the same.\<close>

lemma run_diff_again:
  assumes run: "run_diff m reason (sel table) tvs table = (rep, table1)"
    and sel: "\<And>f t. rewritten f \<Longrightarrow> sel (map f t) = map f (sel t)"
    and reason: "\<And>f r. rewritten f \<Longrightarrow> reason (f r) = reason r"
  shows "snd (run_diff m reason (sel table1) tvs table1) = table1"
proof -
  obtain out used where o: "match_rows m reason tvs (sel table) [] table = (out, used, table1)"
    using run by (auto simp: run_diff_def split: prod.splits)
  have t1: "table1 = put_all (writes_of out) table" by (rule match_rows_table [OF o])
  obtain f where f: "rewritten f" "put_all (writes_of out) = map f" using put_all_rewritten by blast
  have "match_rows m reason tvs (sel table1) [] table1 = (map (apfst f) out, used, put_all (writes_of out) table1)"
    using match_rows_rewritten [OF f(1) reason [OF f(1)] o] sel [OF f(1)] by (simp add: t1 f(2))
  then show ?thesis using put_all_idem [of "writes_of out" table] by (simp add: run_diff_def t1)
qed


section \<open>What the report says\<close>

lemma set_map_filter_iff: "y \<in> set (List.map_filter f xs) \<longleftrightarrow> (\<exists>x\<in>set xs. f x = Some y)"
  by (induction xs) (auto simp: map_filter_simps split: option.splits)

lemma used_by_take: "set (used_by (take i out)) \<subseteq> set (used_by out)"
  by (metis (no_types, lifting) in_set_takeD set_map_filter_iff subsetI used_by_def)

lemma run_diff_out:
  assumes "run_diff m reason shadows tvs table = (rep, table1)"
  shows "sound_out m tvs [] (dr_rows rep) \<and> map fst (dr_rows rep) = shadows \<and>
    dr_extra rep = extra_orders (used_by (dr_rows rep)) tvs"
proof -
  obtain out used where o: "match_rows m reason tvs shadows [] table = (out, used, table1)"
    using assms by (auto simp: run_diff_def split: prod.splits)
  then show ?thesis using match_rows_sound [OF o] match_rows_shape [OF o] assms by (auto simp: run_diff_def)
qed

text \<open>No order is used for two rows.\<close>

lemma used_by_iff: "k \<in> set (used_by out) \<longleftrightarrow> (\<exists>r n. (r, Matched, Some k, n) \<in> set out)"
  by (force simp: used_by_def set_map_filter_iff split: if_splits)

lemma sound_apart:
  assumes "sound_out m tvs [] out" "i < j" "j < length out"
    and "out ! i = (r, Matched, order, n)" "out ! j = (r', Matched, order', n')"
  shows "order \<noteq> order'"
proof -
  have "\<exists>k. order' = Some k \<and> k \<notin> set (used_by (take j out))"
    using assms(1) [unfolded sound_out_def, rule_format, of j] assms(3,5) by (auto simp: candidate_def)
  moreover have "(r, Matched, order, n) \<in> set (take j out)"
    using assms(2-4) by (auto simp: in_set_conv_nth intro!: exI [of _ i])
  ultimately show ?thesis by (auto simp: used_by_iff)
qed

section \<open>Properties\<close>

definition diff_valid :: "int \<Rightarrow> tv_order list \<Rightarrow> shadow_entry \<times> diff_verdict \<times> nat option \<times> diff_note \<Rightarrow> bool" where
  "diff_valid m tvs row = (case row of (r, v, order, n) \<Rightarrow>
     v = Matched \<longrightarrow> (\<exists>tv\<in>set tvs. order = Some (tv_id tv) \<and> tv_signal tv = Some (sh_signal r) \<and> \<bar>tv_received tv - sh_fired r\<bar> \<le> m * 60000))"

text \<open>The order a line of the report is matched with.\<close>

definition matched_order :: "shadow_entry \<times> diff_verdict \<times> nat option \<times> diff_note \<Rightarrow> nat option" where
  "matched_order row = (case row of (r, v, order, n) \<Rightarrow> if v = Matched then order else None)"

definition demo_shadow :: "nat \<Rightarrow> sig_kind \<Rightarrow> int \<Rightarrow> shadow_entry" where
  "demo_shadow i k t = \<lparr>sh_id = i, sh_strategy = ''h'', sh_signal = k, sh_bar_time = t, sh_fired = t, sh_reason = None,
     sh_status = None, sh_order = None, sh_notes = None\<rparr>"

definition demo_tv :: "nat \<Rightarrow> sig_kind \<Rightarrow> int \<Rightarrow> tv_order" where
  "demo_tv i k t = \<lparr>tv_id = i, tv_strategy = ''h'', tv_signal = Some k, tv_received = t\<rparr>"

text \<open>
  C36. The report has one line per row, in their order. A matched line names an order of its
  own signal within the window; two lines never name the same order; and the orders listed as
  TradingView's only are exactly those no line is matched with.
\<close>

theorem diff_matches_valid:
  assumes "run_diff m reason shadows tvs table = (rep, table1)"
  shows "map fst (dr_rows rep) = shadows \<and> (\<forall>row\<in>set (dr_rows rep). diff_valid m tvs row) \<and>
    (\<forall>i j. i < j \<and> j < length (dr_rows rep) \<and> fst (snd (dr_rows rep ! i)) = Matched \<and> fst (snd (dr_rows rep ! j)) = Matched \<longrightarrow>
       matched_order (dr_rows rep ! i) \<noteq> matched_order (dr_rows rep ! j)) \<and>
    dr_extra rep = filter (\<lambda>tv. Some (tv_id tv) \<notin> matched_order ` set (dr_rows rep)) tvs"
proof (intro conjI ballI allI impI)
  note o = run_diff_out [OF assms]
  then have s: "sound_out m tvs [] (dr_rows rep)" by simp
  show "map fst (dr_rows rep) = shadows" using o by simp
  show "diff_valid m tvs row" if mem: "row \<in> set (dr_rows rep)" for row
  proof -
    obtain i where i: "i < length (dr_rows rep)" "dr_rows rep ! i = row" using in_set_conv_nth [THEN iffD1, OF mem] by blast
    obtain r v order n where row: "row = (r, v, order, n)" by (cases row) auto
    have "\<exists>tv\<in>set tvs. order = Some (tv_id tv) \<and> candidate (m * 60000) (used_by (take i (dr_rows rep))) (sh_signal r) (sh_fired r) tv" if "v = Matched"
      using s [unfolded sound_out_def, rule_format, OF i(1)] that unfolding i(2) row by simp
    then show ?thesis by (auto simp: row diff_valid_def candidate_def)
  qed
  show "matched_order (dr_rows rep ! i) \<noteq> matched_order (dr_rows rep ! j)"
    if "i < j \<and> j < length (dr_rows rep) \<and> fst (snd (dr_rows rep ! i)) = Matched \<and> fst (snd (dr_rows rep ! j)) = Matched" for i j
    using sound_apart [OF s, of i j] that
    by (cases "dr_rows rep ! i"; cases "dr_rows rep ! j") (auto simp: matched_order_def)
  have "k \<in> set (used_by out) \<longleftrightarrow> Some k \<in> matched_order ` set out" for k out
  proof -
    have "used_by out = List.map_filter matched_order out" by (simp add: used_by_def matched_order_def [abs_def])
    then show ?thesis unfolding image_iff by (metis set_map_filter_iff)
  qed
  then show "dr_extra rep = filter (\<lambda>tv. Some (tv_id tv) \<notin> matched_order ` set (dr_rows rep)) tvs"
    using o by (simp add: extra_orders_def)
qed

theorem diff_matches_valid_witness:
  "let rep = fst (run_diff 10 (\<lambda>_. '''') [demo_shadow 1 Open_long 0, demo_shadow 2 Open_long 0] [demo_tv 7 Open_long 60000, demo_tv 8 Open_long 90000] [])
   in map matched_order (dr_rows rep) = [Some 7, Some 8] \<and> matched_order (dr_rows rep ! 0) \<noteq> matched_order (dr_rows rep ! 1)"
proof -
  let ?rep = "fst (run_diff 10 (\<lambda>_. '''') [demo_shadow 1 Open_long 0, demo_shadow 2 Open_long 0] [demo_tv 7 Open_long 60000, demo_tv 8 Open_long 90000] [])"
  have m: "map matched_order (dr_rows ?rep) = [Some 7, Some 8]" "map (fst \<circ> snd) (dr_rows ?rep) = [Matched, Matched]" by code_simp+
  have "map f xs = [a, b] \<Longrightarrow> f (xs ! 0) = a \<and> f (xs ! 1) = b \<and> length xs = 2" for f :: "'x \<Rightarrow> 'y" and xs a b by auto
  from this [OF m(2)] diff_matches_valid [OF surjective_pairing, of 10 "\<lambda>_. ''''" "[demo_shadow 1 Open_long 0, demo_shadow 2 Open_long 0]"
      "[demo_tv 7 Open_long 60000, demo_tv 8 Open_long 90000]" "[]"]
  have "matched_order (dr_rows ?rep ! 0) \<noteq> matched_order (dr_rows ?rep ! 1)" by simp
  with m(1) show ?thesis by (simp add: Let_def)
qed

text \<open>
  No pair is left apart: a row that was not matched and an order listed as TradingView's only are not
  of the same signal within the window.
\<close>

theorem diff_leaves_no_pair:
  assumes "run_diff m reason shadows tvs table = (rep, table1)" "(r, v, order, n) \<in> set (dr_rows rep)" "v \<noteq> Matched"
    "tv \<in> set (dr_extra rep)" "tv_signal tv = Some (sh_signal r)"
  shows "m * 60000 < \<bar>tv_received tv - sh_fired r\<bar>"
proof -
  note o = run_diff_out [OF assms(1)]
  obtain i where i: "i < length (dr_rows rep)" "dr_rows rep ! i = (r, v, order, n)" using in_set_conv_nth [THEN iffD1, OF assms(2)] by blast
  have tv: "tv \<in> set tvs" "tv_id tv \<notin> set (used_by (take i (dr_rows rep)))"
    using assms(4) o used_by_take [of i "dr_rows rep"] by (auto simp: extra_orders_def)
  have s: "sound_out m tvs [] (dr_rows rep)" using o by simp
  have "\<not> candidate (m * 60000) (used_by (take i (dr_rows rep))) (sh_signal r) (sh_fired r) tv"
    using s [unfolded sound_out_def, rule_format, OF i(1)] assms(3) tv(1) unfolding i(2) by simp
  then show ?thesis using tv(2) assms(5) by (simp add: candidate_def)
qed

theorem diff_leaves_no_pair_witness:
  "(10::int) * 60000 < \<bar>tv_received (demo_tv 7 Open_long 600001) - sh_fired (demo_shadow 1 Open_long 0)\<bar>"
proof (rule diff_leaves_no_pair [OF surjective_pairing, where shadows = "[demo_shadow 1 Open_long 0]" and tvs = "[demo_tv 7 Open_long 600001]"
    and table = "[]" and reason = "\<lambda>_. ''''" and v = Missing_in_tv and order = None and n = "Note_none '''' 10"])
  show "(demo_shadow 1 Open_long 0, Missing_in_tv, None, Note_none '''' 10) \<in> set (dr_rows (fst (run_diff 10 (\<lambda>_. '''')
      [demo_shadow 1 Open_long 0] [demo_tv 7 Open_long 600001] [])))" by code_simp
  show "demo_tv 7 Open_long 600001 \<in> set (dr_extra (fst (run_diff 10 (\<lambda>_. '''') [demo_shadow 1 Open_long 0] [demo_tv 7 Open_long 600001] [])))"
    by code_simp
qed (simp_all add: demo_tv_def demo_shadow_def)

text \<open>
  Running either command again over the table it left, with the same orders, writes the same: the
  second run changes nothing.
\<close>

theorem diff_rerun_idempotent:
  "snd (cmd_live s since m orders (snd (cmd_live s since m orders table))) = snd (cmd_live s since m orders table) \<and>
   snd (cmd_exits s m since orders (snd (cmd_exits s m since orders table))) = snd (cmd_exits s m since orders table)"
proof (cases "resolve_since s since orders")
  case None
  then show ?thesis by (simp add: cmd_live_def cmd_exits_def)
next
  case (Some t)
  obtain rep t1 where l: "run_diff m (\<lambda>_. '''') (live_shadows s t table) (tv_rows is_open_kind s t orders) table = (rep, t1)" by fastforce
  obtain rep2 t2 where e: "run_diff m exit_reason_text (exit_shadows s t table) (tv_rows is_close_kind s t orders) table = (rep2, t2)" by fastforce
  have "snd (run_diff m (\<lambda>_. '''') (live_shadows s t t1) (tv_rows is_open_kind s t orders) t1) = t1"
    by (rule run_diff_again [where sel = "live_shadows s t", OF l shadows_rewritten(1)]) simp_all
  moreover have "snd (run_diff m exit_reason_text (exit_shadows s t t2) (tv_rows is_close_kind s t orders) t2) = t2"
    by (rule run_diff_again [where sel = "exit_shadows s t", OF e shadows_rewritten(2)]) (simp_all add: exit_reason_text_def rewritten_fields)
  ultimately show ?thesis using Some l e by (simp add: cmd_live_def cmd_exits_def case_prod_unfold)
qed

text \<open>
  Without a given time the comparison starts at the strategy's first order, so a signal that fired
  before the order it caused is left out: with that order alone, the report has no row and lists the
  order as TradingView's only.
\<close>

theorem first_order_never_counted:
  assumes "tv_strategy o' = s" "tv_signal o' = Some k" "is_open_kind k" "\<forall>r\<in>set table. sh_fired r < tv_received o'"
  shows "map_option (\<lambda>rep. (dr_rows rep, dr_extra rep)) (fst (cmd_live s None m [o'] table)) = Some ([], [o'])"
proof -
  have since: "resolve_since s None [o'] = Some (tv_received o')" using assms by (simp add: resolve_since_def)
  have rows: "live_shadows s (tv_received o') table = []" using assms(4) by (auto simp: live_shadows_def filter_empty_conv not_le)
  have tvs: "tv_rows is_open_kind s (tv_received o') [o'] = [o']" using assms by (simp add: tv_rows_def)
  show ?thesis by (simp add: cmd_live_def since rows tvs run_diff_def extra_orders_def)
qed

theorem first_order_never_counted_witness:
  "map_option (\<lambda>rep. (dr_rows rep, dr_extra rep)) (fst (cmd_live ''h'' None 10 [demo_tv 7 Open_long 60000] [demo_shadow 1 Open_long 59000]))
     = Some ([], [demo_tv 7 Open_long 60000]) \<and>
   map_option (\<lambda>rep. map (\<lambda>x. fst (snd x)) (dr_rows rep)) (fst (cmd_live ''h'' (Some 0) 10 [demo_tv 7 Open_long 60000] [demo_shadow 1 Open_long 59000]))
     = Some [Matched]"
proof
  show "map_option (\<lambda>rep. (dr_rows rep, dr_extra rep)) (fst (cmd_live ''h'' None 10 [demo_tv 7 Open_long 60000] [demo_shadow 1 Open_long 59000]))
     = Some ([], [demo_tv 7 Open_long 60000])"
    by (rule first_order_never_counted [where k = Open_long]) (simp_all add: demo_tv_def demo_shadow_def is_open_kind_def)
  show "map_option (\<lambda>rep. map (\<lambda>x. fst (snd x)) (dr_rows rep)) (fst (cmd_live ''h'' (Some 0) 10 [demo_tv 7 Open_long 60000] [demo_shadow 1 Open_long 59000]))
     = Some [Matched]" by code_simp
qed

text \<open>
  The matching is greedy in the time of the signals: the first takes the nearest order although
  another was in its window too, and leaves the second without its only one.
\<close>

theorem greedy_misses_a_match:
  "let shadows = [demo_shadow 1 Open_long 600000, demo_shadow 2 Open_long 1200000];
       tvs = [demo_tv 7 Open_long 10000, demo_tv 8 Open_long 900000];
       rep = fst (run_diff 10 (\<lambda>_. '''') shadows tvs shadows)
   in map (\<lambda>x. fst (snd x)) (dr_rows rep) = [Matched, Missing_in_tv] \<and> map tv_id (dr_extra rep) = [7] \<and>
      list_all2 (\<lambda>r tv. \<bar>tv_received tv - sh_fired r\<bar> \<le> 10 * 60000) shadows tvs"
  by code_simp

section \<open>The bars of a replay\<close>

lemma compare_bars_entry:
  "(bar, v) \<in> set (compare_bars tf tv loc) \<longleftrightarrow> bar \<in> fst ` set loc \<union> fst ` set tv \<and> bar_verdict tf tv loc bar = Some v"
  by (auto simp: compare_bars_def set_map_filter_iff)

lemma map_of_in_dom: "map_of xs k = Some v \<Longrightarrow> k \<in> fst ` set xs"
  by (metis domI dom_map_of_conv_image_fst)

text \<open>
  The bars compared are those either side has an entry in, each once and in order; a bar is matched
  exactly when both sides have the same entry, and one side's alone exactly when the other has none in
  that bar or next to it.
\<close>

theorem replay_table_spec:
  "map fst (compare_bars tf tv loc) = sorted_list_of_set (fst ` set loc \<union> fst ` set tv) \<and>
   ((bar, Matched) \<in> set (compare_bars tf tv loc) \<longleftrightarrow> (\<exists>k. map_of tv bar = Some k \<and> map_of loc bar = Some k)) \<and>
   ((bar, Missing_in_tv) \<in> set (compare_bars tf tv loc) \<longleftrightarrow>
      bar \<in> dom (map_of loc) \<and> (\<forall>b\<in>{bar - tf, bar, bar + tf}. b \<notin> dom (map_of tv)))"
proof (intro conjI)
  have some: "\<exists>v. bar_verdict tf tv loc b = Some v" if "b \<in> fst ` set loc \<union> fst ` set tv" for b
    using that unfolding dom_map_of_conv_image_fst [symmetric] by (auto simp: bar_verdict_def split: option.splits)
  have "map fst (List.map_filter (\<lambda>b. map_option (\<lambda>v. (b, v)) (bar_verdict tf tv loc b)) bs) = bs"
    if "set bs \<subseteq> fst ` set loc \<union> fst ` set tv" for bs
    using that
  proof (induction bs)
    case (Cons b bs)
    obtain v where "bar_verdict tf tv loc b = Some v" using some [of b] Cons.prems by auto
    then show ?case using Cons by (simp add: map_filter_simps)
  qed (simp add: map_filter_simps)
  then show "map fst (compare_bars tf tv loc) = sorted_list_of_set (fst ` set loc \<union> fst ` set tv)"
    unfolding compare_bars_def by simp
  show "(bar, Matched) \<in> set (compare_bars tf tv loc) \<longleftrightarrow> (\<exists>k. map_of tv bar = Some k \<and> map_of loc bar = Some k)"
    unfolding compare_bars_entry by (auto simp: bar_verdict_def dest: map_of_in_dom split: option.splits if_splits)
  show "(bar, Missing_in_tv) \<in> set (compare_bars tf tv loc) \<longleftrightarrow>
      bar \<in> dom (map_of loc) \<and> (\<forall>b\<in>{bar - tf, bar, bar + tf}. b \<notin> dom (map_of tv))"
    unfolding compare_bars_entry by (auto simp: bar_verdict_def dest: map_of_in_dom split: option.splits if_splits)
qed

text \<open>
  A bar next to an entry of the other side is called an offset even when that entry is matched in its
  own bar, or is of the opposite side.
\<close>

theorem offset_to_matched_bar:
  "compare_bars 3600000 [(0, Open_long)] [(0, Open_long), (3600000, Open_short)] = [(0, Matched), (3600000, Bar_offset)]"
  by code_simp

end
