(* ===== verification/Spec2Isabelle.thy ===== *)
theory Spec2Isabelle
  imports StatemachineSpec SocialBehaviour PostLock EngineSerial BacktestGuard CandleFeed KeyPoolSafety
    LlmChainSafety AiScheduler GuardEquivalence ListenerRoutes ProcessSafety ReconcileDemo
    ExecuteOrder StopsSafety SpreadSafety OpenOrders Notifications ShadowDiff
begin

text \<open>
  This library models the decision logic of a trading platform made of small Python
  services: how a trade idea becomes an order, how the order becomes a recorded position,
  and how the records are kept true to the exchange. A definition carries the name of the
  function it models; the files named below are under \<open>src/\<close>.

  \<^bold>\<open>The system.\<close> Three services produce trade signals. The social listener reads a
  Telegram channel, lets a model extract a signal record from a post, and decides per
  strategy and asset what the channel now holds. The AI signal generator runs a decision
  cycle per strategy: fetch inputs, ask a chain of models, guard the answer, dispatch. The
  signal engine evaluates an indicator strategy on candles, exit brackets included, into a
  shadow table. All orders go as webhooks to the order listener, which checks them, executes
  them through the order executor, and keeps orders, positions and each strategy's
  realised result; its reconciler compares the positions with the exchange once a minute.
  The strategy tester replays the AI cycle over stored candles.

  \<^bold>\<open>Shared vocabulary.\<close> \<open>Prelude\<close>: numbers are rationals (a float's last bit is not
  modelled; where mixing float and Decimal raises, the value carries its type), Python's
  \<open>round\<close>, strings, exceptions as the left of a sum (\<open>'a result\<close>), database tables as
  lists of records in insertion order or association lists with \<open>update_where\<close>.

  \<^bold>\<open>Social listener\<close> (\<open>social-listener/app\<close>). \<open>Legs\<close> (config.py and
  legs.py: two booleans per asset), \<open>Statemachine\<close> (statemachine.py: gates, \<open>plan_move\<close>,
  the add, trim and stop level guards), \<open>SocialDb\<close> (db.py: the tables and queries),
  \<open>Emitter\<close> (emitter.py: payloads, sizes, the two-step plan), \<open>SocialMain\<close> (main.py: the
  decision loop), \<open>SocialSweeps\<close> (the watcher and start-up), \<open>Extractor\<close>
  (telegram.py, extractor.py without the prompt), \<open>Bursts\<close> (gathering messages into
  posts), \<open>PostLock\<close> (post_lock.py, with the interleavings of its workers as a step
  relation). \<open>StatemachineSpec\<close> states what an evaluation means in terms of net exposure
  and proves the code's plan equal to it;
  \<open>SocialAccounting\<close>, \<open>SocialReach\<close>, \<open>SocialOrders\<close> and \<open>SocialBehaviour\<close> carry the
  invariants of the reachable states: orders and leg changes balance, one leg per asset on
  a net account, records handled once, limits on adds. An answer of the order listener is a
  reply, an error, or a status whose body cannot be read, on which the emitter raises.
  \<open>social_run\<close> is a run of the process as single writes to the legs, in any order its tasks
  produce them; its rule for opening a leg says what the code does not check, that no other
  task opened a leg of the asset since the decision's post was read.

  \<^bold>\<open>Signal engine\<close> (\<open>signal-engine/app\<close>). \<open>Bracket\<close> (exits.py), \<open>Harness\<close> (strategies,
  shadow_store.py), \<open>Engine\<close> (engine.py: warm-up, catch-up, and the four loops as a step
  relation; its state also keeps the legs fired and stored so far, which nothing reads).
  \<open>EngineSafety\<close>, \<open>EngineRestart\<close>, \<open>EngineSerial\<close> prove, over the locale \<open>engine_frame\<close>, the
  life of a bracket and where each fired leg is under every schedule, the table across
  restarts, and the position when loops take turns.
  \<open>ShadowDiff\<close> (diff.py) compares the shadow table with the orders TradingView sent: which
  matches it can report, and what a second run changes.

  \<^bold>\<open>Candles\<close> (\<open>market-ingestion/app\<close>). \<open>CandleFeed\<close>: the stored bars, warm-up, the watch
  loop and gap stitching (ingestor.py, redis_store.py), the checks of validate.py, and the
  engine's reader (redis_reader.py). Its locale \<open>bar_property\<close> says what every operation
  keeps of the bars; it is interpreted twice to prove their order and that a bar passed
  over stays out.

  \<^bold>\<open>AI signal generator\<close> (\<open>ai-signal-generator/app\<close>). \<open>KeyPool\<close> (key_pool.py),
  \<open>ModelsRegistry\<close>, \<open>LlmChain\<close> (graph/llm_chain.py: candidates, key rotation, waits),
  \<open>AiState\<close>, \<open>AiGuard\<close>, \<open>AiCycle\<close> (graph/nodes),
  \<open>AiSchedule\<close> and \<open>AiScheduler\<close> (cycle_lock.py, scheduling.py, scheduler.py),
  \<open>SpreadMonitor\<close> (spread_monitor.py: funding spreads, plans, hysteresis per coin, the
  unwinding through the executor of \<open>SpreadTrade\<close>, with a step relation per coin).
  \<open>KeyPoolSafety\<close>, \<open>LlmChainSafety\<close> and \<open>AiSafety\<close> hold their properties, \<open>AiDemo\<close>
  concrete cycles.

  \<^bold>\<open>Strategy tester\<close> (\<open>strategy-tester/app/engine\<close>). \<open>Backtest\<close> (accounts, fees, fills),
  \<open>BacktestGraph\<close> (the replayed cycle), \<open>BacktestRun\<close> (the candle loop and the metrics);
  \<open>BacktestSafety\<close>, \<open>BacktestEquity\<close>, \<open>BacktestGuard\<close> prove that a
  replay does not look ahead and that its books balance. \<open>run_backtest\<close> takes every write to
  the database to succeed, and a cancellation to arrive between two candles.
  \<open>GuardEquivalence\<close> compares the replayed guard with the live one.

  \<^bold>\<open>Order listener\<close> (\<open>order-listener/app\<close>). \<open>ListenerState\<close> (models.py,
  executor_client.py, the tables as the record \<open>listener_world\<close>, with the list of the
  requests sent), \<open>SymbolValidator\<close>, \<open>StopLevels\<close> (stop_revalidation.py and the
  guaranteed stop), \<open>ClosePosition\<close> (closing, booking, drawdown stop,
  flattening, attributing), \<open>ListenerOrders\<close>, \<open>WebhookGuards\<close>, \<open>ProcessOrder\<close> (the
  webhook and the task behind it), \<open>ListenerRoutes\<close> (the control routes),
  \<open>ReconcileState\<close>, \<open>ReconcilePending\<close> and
  \<open>Reconciler\<close> (reconciler.py). \<open>CloseSafety\<close> proves that the recursion of closing ends,
  \<open>CloseBooks\<close> and \<open>CloseProperties\<close> the ledger and that a leg is closed once,
  \<open>WebhookSafety\<close> and \<open>ProcessSafety\<close> what an accepted order satisfies, \<open>ReconcileStreak\<close>
  the miss counter against its specification, \<open>ReconcileBooks\<close> and \<open>ReconcileLedger\<close> the
  books over any number of passes, \<open>ReconcileProperties\<close> and \<open>ExternalClose\<close> the fills, the
  liquidation guard and the closes found on the exchange. \<open>ListenerDemo\<close> and
  \<open>ReconcileDemo\<close> hold concrete worlds.

  \<^bold>\<open>Order executor\<close> (\<open>order-executor/app\<close>). \<open>ExecuteOrder\<close> (executor.py, registry.py:
  three attempts, the execution log, the order row), \<open>ModifyStops\<close> (main.py: cancelling
  and placing the stops of a position with read-backs), \<open>SpreadTrade\<close> (spread_trade.py: a
  short and a long leg on two venues, rollback, closing, the watcher). The venue is a
  parameter that answers by the history of calls made so far. \<open>ExecuteOrder\<close>,
  \<open>StopsSafety\<close> and \<open>SpreadSafety\<close> prove how often an order is sent, that a stop reported
  placed is never placed again on doubt, that success was seen on the exchange, and which
  legs a plan can leave behind.

  \<^bold>\<open>Exchange adapters\<close> (\<open>order-executor/app/adapters\<close>). \<open>Venue\<close> (base.py and the idioms
  the adapters share: replies, number texts, close signals), \<open>Blofin\<close> (blofin.py: contracts,
  order bodies, recovery of a fill that was not answered, closes, triggers, amends), \<open>Binance\<close>
  (binance.py), \<open>Hyperliquid\<close> (hyperliquid.py). An exchange answers by the list of requests that
  changed something so far; an adapter returns its answer with the requests it added. Each
  adapter interprets the locale \<open>stop_venue\<close>, so that \<open>modify_stops\<close> can be run through it.
  \<open>BlofinSafety\<close> and the ends of the other two prove what each sends and what its answers
  mean; \<open>OpenOrders\<close> follows the resting orders from the adapters through the executor's
  route into the listener's books.

  \<^bold>\<open>Notification service\<close> (\<open>notification-service/app\<close>). \<open>Notifications\<close>: the keys of
  events, the consumer group with its redelivery, the sinks and the log, the watcher of
  exchanges, services and accounts; what is announced, logged, repeated and lost.

  \<^bold>\<open>Parameters.\<close> What is not code of the repository is an argument: model answers, market
  data, clocks, the exchange behind the executor (an answer to a request that changes
  something may depend on how many were sent before), the failure of single guarded
  database statements. Hypotheses on them are stated in the theorems and have witnesses.

  \<^bold>\<open>Bounds and fuel.\<close> Closing books, booking may flatten, flattening closes:
  \<open>flatten_strategy_positions\<close> runs on fuel, the number of position rows, and
  \<open>close_terminates\<close> shows that any fuel of at least the number of open legs gives the same
  result. All other loops are structural.

  \<^bold>\<open>Not modelled.\<close> Prompts and their texts; the fetchers and indicators that only fill the
  prompt; the user interfaces; the texts of notifications; Redis publishing and caching
  that no modelled decision reads back; table migrations; logging. A handler of the order listener and a pass of its
  reconciler run to their end before the next begins, except where an interleaving is a
  step relation or an argument of the theorem (two closes of one leg, the workers of a
  post, the cycles of the scheduler, the loops of the engine). Signing, transport and
  rate limits of the exchange adapters are behind their replies. A judgement of
  the social listener that a new message cancels halfway is followed in \<open>Bursts\<close> only.
\<close>

end
